(* ===== verification/Prelude.thy ===== *)
theory Prelude
  imports Complex_Main "HOL-Library.Word" "HOL-Library.List_Lexorder" "HOL-Library.Char_ord"
begin

text \<open>
  Vocabulary shared by every component: the values of JavaScript the handlers read (numbers,
  JSON bodies, strings), the thrown errors, and generic facts on options, lists and strings.

  A JavaScript string is modelled by a \<^typ>\<open>string\<close> whose characters are its UTF-16 code units
  below 256; on those the library functions below (trim, toLowerCase, length, UTF-8 length) are
  exact. Strings with larger code units are outside the model. A number is \<open>Finite\<close> of a
  rational (every finite double is one; the two zeros are not told apart), an infinity or NaN.
\<close>

named_theorems js_defs \<open>definitions of the JavaScript library functions\<close>
named_theorems parse_defs \<open>definitions of the request-body readers\<close>

section \<open>Thrown errors\<close>

datatype js_error =
    RangeError
  | JsError string
  | ConstraintError

text \<open>The first failure of a sequence of computations wins, as with an exception.\<close>

fun and_then :: "'e + 'a \<Rightarrow> ('a \<Rightarrow> 'e + 'b) \<Rightarrow> 'e + 'b" where
  "and_then (Inl e) f = Inl e"
| "and_then (Inr x) f = f x"

lemma and_then_Inr_iff:
  "and_then m f = Inr y \<longleftrightarrow> (\<exists>x. m = Inr x \<and> f x = Inr y)"
  by (cases m) auto

lemma and_then_Inl_iff:
  "and_then m f = Inl e \<longleftrightarrow> m = Inl e \<or> (\<exists>x. m = Inr x \<and> f x = Inl e)"
  by (cases m) auto

section \<open>Numbers and JSON values\<close>

datatype js_number = Finite rat | Infinite bool | NaN

datatype json =
    JNull
  | JBool bool
  | JNum js_number
  | JStr string
  | JArr "json list"
  | JObj "(string \<times> json) list"

abbreviation jint :: "int \<Rightarrow> json" where
  "jint n \<equiv> JNum (Finite (of_int n))"

text \<open>\<open>Number.isInteger\<close> and \<open>Number.isSafeInteger\<close>.\<close>

fun num_is_integer :: "js_number \<Rightarrow> bool" where
  "num_is_integer (Finite q) \<longleftrightarrow> of_int \<lfloor>q\<rfloor> = q"
| "num_is_integer (Infinite _) \<longleftrightarrow> False"
| "num_is_integer NaN \<longleftrightarrow> False"

definition max_safe_integer :: int where
  "max_safe_integer = 9007199254740991"

definition safe_int :: "int \<Rightarrow> bool" where
  "safe_int n \<longleftrightarrow> \<bar>n\<bar> \<le> max_safe_integer"

fun num_int :: "js_number \<Rightarrow> int" where
  "num_int (Finite q) = \<lfloor>q\<rfloor>"
| "num_int (Infinite _) = 0"
| "num_int NaN = 0"

definition num_is_safe_integer :: "js_number \<Rightarrow> bool" where
  "num_is_safe_integer n \<longleftrightarrow> num_is_integer n \<and> safe_int (num_int n)"

lemma num_is_integer_of_int [simp]: "num_is_integer (Finite (of_int n))"
  by simp

lemma num_int_of_int [simp]: "num_int (Finite (of_int n)) = n"
  by simp

lemma num_integer_eq: "num_is_integer n \<Longrightarrow> n = Finite (of_int (num_int n))"
  by (cases n) auto

text \<open>
  Reading a property of an object: \<open>None\<close> is \<open>undefined\<close>. Objects come from \<open>JSON.parse\<close>, so
  their keys are distinct and in order; \<open>map_of\<close> reads the first.
\<close>

definition jprop :: "(string \<times> json) list \<Rightarrow> string \<Rightarrow> json option" where
  [parse_defs]: "jprop fields key = map_of fields key"

text \<open>\<open>value !== null && typeof value === 'object' && !Array.isArray(value)\<close>.\<close>

fun as_record :: "json \<Rightarrow> (string \<times> json) list option" where
  "as_record (JObj fields) = Some fields"
| "as_record JNull = None"
| "as_record (JBool _) = None"
| "as_record (JNum _) = None"
| "as_record (JStr _) = None"
| "as_record (JArr _) = None"

lemma as_record_Some: "as_record v = Some fields \<longleftrightarrow> v = JObj fields"
  by (cases v) auto

fun as_string :: "json option \<Rightarrow> string option" where
  "as_string (Some (JStr s)) = Some s"
| "as_string _ = None"

lemma as_string_Some: "as_string v = Some s \<longleftrightarrow> v = Some (JStr s)"
  by (cases v rule: as_string.cases) auto

section \<open>Strings\<close>

definition code_unit :: "char \<Rightarrow> nat" where
  [js_defs]: "code_unit c = of_char c"

lemma code_unit_less: "code_unit c < 256"
  by (simp add: code_unit_def)

lemma code_unit_char_of: "n < 256 \<Longrightarrow> code_unit (char_of n) = n"
  by (simp add: code_unit_def of_char_of)

lemma code_unit_inject: "code_unit a = code_unit b \<longleftrightarrow> a = b"
  by (simp add: code_unit_def)

lemma less_char_code_unit: "a < b \<longleftrightarrow> code_unit a < code_unit b"
  by (simp add: less_char_def code_unit_def)

text \<open>White space and line terminators of ECMAScript below code unit 256.\<close>

definition js_is_space :: "char \<Rightarrow> bool" where
  [js_defs]: "js_is_space c \<longleftrightarrow> code_unit c \<in> {9, 10, 11, 12, 13, 32, 160}"

definition js_trim :: "string \<Rightarrow> string" where
  [js_defs]: "js_trim s = rev (dropWhile js_is_space (rev (dropWhile js_is_space s)))"

definition js_lower_char :: "char \<Rightarrow> char" where
  [js_defs]: "js_lower_char c =
     (let n = code_unit c
      in if (65 \<le> n \<and> n \<le> 90) \<or> (192 \<le> n \<and> n \<le> 222 \<and> n \<noteq> 215) then char_of (n + 32) else c)"

definition js_lower :: "string \<Rightarrow> string" where
  [js_defs]: "js_lower s = map js_lower_char s"

text \<open>Bytes of the UTF-8 encoding: one below 128, two from 128 to 255.\<close>

definition utf8_length :: "string \<Rightarrow> nat" where
  [js_defs]: "utf8_length s = sum_list (map (\<lambda>c. if code_unit c < 128 then 1 else 2) s)"

definition is_control :: "char \<Rightarrow> bool" where
  [js_defs]: "is_control c \<longleftrightarrow> code_unit c < 32 \<or> code_unit c = 127"

definition starts_with :: "string \<Rightarrow> string \<Rightarrow> bool" where
  [js_defs]: "starts_with s p \<longleftrightarrow> take (length p) s = p"

definition ends_with :: "string \<Rightarrow> string \<Rightarrow> bool" where
  [js_defs]: "ends_with s p \<longleftrightarrow> length p \<le> length s \<and> drop (length s - length p) s = p"

lemma length_js_lower [simp]: "length (js_lower s) = length s"
  by (simp add: js_lower_def)

lemma js_lower_char_idem [simp]: "js_lower_char (js_lower_char c) = js_lower_char c"
  by (auto simp: js_lower_char_def Let_def code_unit_char_of)

lemma js_lower_idem [simp]: "js_lower (js_lower s) = js_lower s"
  by (simp add: js_lower_def)

lemma js_is_space_lower [simp]: "js_is_space (js_lower_char c) = js_is_space c"
  by (auto simp: js_is_space_def js_lower_char_def Let_def code_unit_char_of)

lemma dropWhile_idem_last:
  "dropWhile P (rev (dropWhile P (rev (dropWhile P s)))) = rev (dropWhile P (rev (dropWhile P s)))"
proof (cases "dropWhile P s")
  case Nil
  then show ?thesis by (simp only: Nil rev.simps dropWhile.simps)
next
  case (Cons x xs)
  then have "\<not> P x"
    by (metis hd_dropWhile list.distinct(1) list.sel(1))
  then show ?thesis
    unfolding Cons by (auto simp: dropWhile_append)
qed

lemma js_trim_idem [simp]: "js_trim (js_trim s) = js_trim s"
  by (simp add: js_trim_def dropWhile_idem_last)

lemma js_trim_lower: "js_trim (js_lower s) = js_lower (js_trim s)"
  by (simp add: js_trim_def js_lower_def dropWhile_map rev_map comp_def)

lemma utf8_length_ge: "length s \<le> utf8_length s"
  by (induction s) (auto simp: utf8_length_def)

lemma utf8_length_le: "utf8_length s \<le> 2 * length s"
  by (induction s) (auto simp: utf8_length_def)

text \<open>An environment flag: \<open>value?.trim().toLowerCase() === 'true'\<close>.\<close>

definition flag_true :: "string option \<Rightarrow> bool" where
  [js_defs]: "flag_true v \<longleftrightarrow> map_option (\<lambda>s. js_lower (js_trim s)) v = Some ''true''"

text \<open>\<open>Boolean(s)\<close> of a string or null: the empty string and null are false.\<close>

definition truthy :: "string option \<Rightarrow> bool" where
  [js_defs]: "truthy v \<longleftrightarrow> (case v of None \<Rightarrow> False | Some s \<Rightarrow> s \<noteq> '''')"

definition truthy_or_none :: "string option \<Rightarrow> string option" where
  [js_defs]: "truthy_or_none v = (if truthy v then v else None)"

lemma truthy_simps [simp]:
  "\<not> truthy None"
  "truthy (Some s) \<longleftrightarrow> s \<noteq> ''''"
  by (simp_all add: truthy_def)

lemma truthy_or_none_Some: "truthy_or_none v = Some s \<longleftrightarrow> v = Some s \<and> s \<noteq> ''''"
  by (auto simp: truthy_or_none_def)

section \<open>Lists\<close>

lemma distinct_filter_length_le1:
  "distinct (map k xs) \<Longrightarrow> (\<And>x. x \<in> set xs \<Longrightarrow> p x \<Longrightarrow> k x = a) \<Longrightarrow> length (filter p xs) \<le> 1"
proof (induction xs)
  case (Cons x xs)
  show ?case
  proof (cases "p x")
    case True
    then have "filter p xs = []"
      using Cons.prems by (fastforce simp: filter_empty_conv)
    with True show ?thesis by simp
  next
    case False
    with Cons show ?thesis by auto
  qed
qed simp

lemma lex_less_append_same_length:
  fixes a b x y :: "'a::linorder list"
  assumes "length a = length b"
  shows "a @ x < b @ y \<longleftrightarrow> a < b \<or> (a = b \<and> x < y)"
  using assms
proof (induction a b rule: list_induct2)
  case (Cons c a d b)
  then show ?case by auto
qed simp

section \<open>Comparison without early exit\<close>

unbundle bit_operations_syntax

definition char_code_at :: "string \<Rightarrow> nat \<Rightarrow> nat" where
  [js_defs]: "char_code_at s i = (if i < length s then code_unit (s ! i) else 0)"

definition constant_time_equal :: "string \<Rightarrow> string \<Rightarrow> bool" where
  "constant_time_equal left right \<longleftrightarrow>
     fold (\<lambda>i difference. difference OR (char_code_at left i XOR char_code_at right i))
       [0..<max (length left) (length right)] (length left XOR length right) = 0"

lemma nat_xor_eq_0: "(a XOR b :: nat) = 0 \<longleftrightarrow> a = b"
  by (auto simp: bit_eq_iff bit_xor_iff)

lemma fold_or_eq_0:
  "fold (\<lambda>i d. d OR f i) xs (d :: nat) = 0 \<longleftrightarrow> d = 0 \<and> (\<forall>i \<in> set xs. f i = 0)"
  by (induction xs arbitrary: d) (auto simp: or_eq_0_iff)

lemma constant_time_equal_iff: "constant_time_equal left right \<longleftrightarrow> left = right"
proof -
  have "constant_time_equal left right \<longleftrightarrow>
      length left = length right \<and> (\<forall>i < max (length left) (length right). char_code_at left i = char_code_at right i)"
    by (auto simp: constant_time_equal_def fold_or_eq_0 nat_xor_eq_0)
  also have "\<dots> \<longleftrightarrow> left = right"
    by (auto simp: char_code_at_def code_unit_inject intro: nth_equalityI)
  finally show ?thesis .
qed

section \<open>Splitting\<close>

text \<open>\<open>s.split(c)\<close> for a one-character separator.\<close>

fun js_split :: "char \<Rightarrow> string \<Rightarrow> string list" where
  "js_split c [] = [[]]"
| "js_split c (x # xs) =
     (if x = c then [] # js_split c xs
      else (case js_split c xs of [] \<Rightarrow> [[x]] | p # ps \<Rightarrow> (x # p) # ps))"

lemma js_split_nonempty [simp]: "js_split c s \<noteq> []"
  by (induction s) (auto split: list.splits)

lemma js_split_no_sep: "p \<in> set (js_split c s) \<Longrightarrow> c \<notin> set p"
  by (induction s arbitrary: p) (fastforce split: if_splits list.splits)+

lemma js_split_plain: "c \<notin> set s \<Longrightarrow> js_split c s = [s]"
  by (induction s) auto

lemma js_split_append: "c \<notin> set a \<Longrightarrow> js_split c (a @ c # b) = a # js_split c b"
  by (induction a) auto

lemma length_js_split: "length (js_split c s) = Suc (count_list s c)"
  by (induction s) (auto split: list.splits)

text \<open>\<open>s.replace(/=+$/, '')\<close>\<close>

definition strip_padding :: "string \<Rightarrow> string" where
  [js_defs]: "strip_padding s = rev (dropWhile (\<lambda>c. c = CHR ''='') (rev s))"

lemma strip_padding_append [simp]: "strip_padding (s @ ''='') = strip_padding s"
  by (simp add: strip_padding_def)

lemma strip_padding_plain: "CHR ''='' \<notin> set s \<Longrightarrow> strip_padding s = s"
  by (cases s rule: rev_cases) (auto simp: strip_padding_def)

lemma strip_padding_replicate: "strip_padding (s @ replicate n (CHR ''='')) = strip_padding s"
proof (induction n)
  case (Suc n)
  have "s @ replicate (Suc n) (CHR ''='') = (s @ replicate n (CHR ''='')) @ ''=''"
    by (simp add: replicate_append_same)
  with Suc show ?case by (simp only: strip_padding_append)
qed simp

section \<open>Bytes, numerals and joining\<close>

definition utf8_encode :: "string \<Rightarrow> nat list" where
  [js_defs]: "utf8_encode s =
     concat (map (\<lambda>c. let n = code_unit c in if n < 128 then [n] else [192 + n div 64, 128 + n mod 64]) s)"

lemma length_utf8_encode: "length (utf8_encode s) = utf8_length s"
  by (induction s) (simp_all add: utf8_encode_def utf8_length_def Let_def)

definition hex_digit :: "nat \<Rightarrow> char" where
  "hex_digit n = (if n < 10 then char_of (48 + n) else char_of (87 + n))"

text \<open>\<open>[...bytes].map((b) => b.toString(16).padStart(2, '0')).join('')\<close>\<close>

definition bytes_to_hex :: "nat list \<Rightarrow> string" where
  "bytes_to_hex bs = concat (map (\<lambda>b. [hex_digit (b div 16), hex_digit (b mod 16)]) bs)"

lemma hex_digit_inject: "a < 16 \<Longrightarrow> b < 16 \<Longrightarrow> hex_digit a = hex_digit b \<longleftrightarrow> a = b"
  by (auto simp: hex_digit_def code_unit_inject [symmetric] code_unit_char_of split: if_splits)

lemma bytes_to_hex_inject:
  "\<forall>b \<in> set xs. b < 256 \<Longrightarrow> \<forall>b \<in> set ys. b < 256 \<Longrightarrow>
     bytes_to_hex xs = bytes_to_hex ys \<longleftrightarrow> xs = ys"
proof (induction xs arbitrary: ys)
  case Nil
  then show ?case by (cases ys) (auto simp: bytes_to_hex_def)
next
  case (Cons x xs)
  show ?case
  proof (cases ys)
    case (Cons y ys')
    have "x < 256" "y < 256" using Cons.prems Cons by auto
    then have "hex_digit (x div 16) = hex_digit (y div 16) \<longleftrightarrow> x div 16 = y div 16"
      "hex_digit (x mod 16) = hex_digit (y mod 16) \<longleftrightarrow> x mod 16 = y mod 16"
      by (simp_all add: hex_digit_inject less_mult_imp_div_less)
    moreover have "x = y \<longleftrightarrow> x div 16 = y div 16 \<and> x mod 16 = y mod 16"
      by (metis div_mult_mod_eq)
    ultimately show ?thesis
      using Cons.IH [of ys'] Cons.prems Cons by (auto simp: bytes_to_hex_def)
  qed (simp add: bytes_to_hex_def)
qed

lemma bytes_to_hex_chars: "\<forall>b \<in> set bs. b < 256 \<Longrightarrow> c \<in> set (bytes_to_hex bs) \<Longrightarrow> c \<noteq> CHR '':''"
  by (auto simp: bytes_to_hex_def hex_digit_def code_unit_inject [symmetric] code_unit_char_of
      code_unit_def [of "CHR '':''"] less_mult_imp_div_less split: if_splits)

fun decimal :: "nat \<Rightarrow> string" where
  "decimal n = (if n < 10 then [char_of (48 + n)] else decimal (n div 10) @ [char_of (48 + n mod 10)])"

declare decimal.simps [simp del]

lemma decimal_chars: "c \<in> set (decimal n) \<Longrightarrow> c \<noteq> CHR '':''"
proof (induction n rule: decimal.induct)
  case (1 n)
  then show ?case
    by (auto simp: decimal.simps [of n] code_unit_inject [symmetric] code_unit_char_of
        code_unit_def [of "CHR '':''"] split: if_splits)
qed

lemma decimal_digits: "c \<in> set (decimal n) \<Longrightarrow> 48 \<le> code_unit c \<and> code_unit c \<le> 57"
proof (induction n rule: decimal.induct)
  case (1 n)
  then show ?case by (auto simp: decimal.simps [of n] code_unit_char_of split: if_splits)
qed

text \<open>\<open>String(n)\<close> of an integer below 1e21.\<close>

definition int_text :: "int \<Rightarrow> string" where
  "int_text n = (if n < 0 then CHR ''-'' # decimal (nat (- n)) else decimal (nat n))"

fun js_join :: "char \<Rightarrow> string list \<Rightarrow> string" where
  "js_join c [] = []"
| "js_join c [s] = s"
| "js_join c (s # ss) = s @ c # js_join c ss"

lemma js_split_join:
  "ss \<noteq> [] \<Longrightarrow> \<forall>s \<in> set ss. c \<notin> set s \<Longrightarrow> js_split c (js_join c ss) = ss"
  by (induction c ss rule: js_join.induct) (auto simp: js_split_plain js_split_append)

lemma js_join_inject:
  "ss \<noteq> [] \<Longrightarrow> ts \<noteq> [] \<Longrightarrow> \<forall>s \<in> set ss. c \<notin> set s \<Longrightarrow> \<forall>s \<in> set ts. c \<notin> set s \<Longrightarrow>
     js_join c ss = js_join c ts \<longleftrightarrow> ss = ts"
  by (metis js_split_join)

end
