(* ===== verification/SqlTable.thy ===== *)
theory SqlTable
  imports Prelude
begin

text \<open>
  The part of SQL the repositories use, on tables as lists of rows in insertion order: conditional
  UPDATE and DELETE with the number of changed rows, INSERT with its key constraints, comparisons
  with NULL, DELETE of the first rows of an ordered selection, and D1's \<open>batch\<close>: the statements run
  in order in one transaction, each sees \<open>changes()\<close> of the one before, and an error rolls the whole
  batch back. TEXT values compare byte by byte (the BINARY collation), the order of \<^typ>\<open>string\<close>.

  Two contracts that several repositories share are locales: \<open>one_shot_update\<close> (a guarded UPDATE of one
  row by its key whose effect makes the guard false) and \<open>bounded_cleanup\<close> (a retention job).
\<close>

named_theorems sql_defs \<open>definitions of the SQL operations\<close>

section \<open>NULL\<close>

text \<open>A comparison with NULL is not true, so a WHERE clause does not select the row.\<close>

definition sql_eq :: "'a option \<Rightarrow> 'a option \<Rightarrow> bool" where
  [sql_defs]: "sql_eq a b \<longleftrightarrow> a \<noteq> None \<and> a = b"

definition sql_gt :: "'a::linorder option \<Rightarrow> 'a option \<Rightarrow> bool" where
  [sql_defs]: "sql_gt a b \<longleftrightarrow> (case (a, b) of (Some x, Some y) \<Rightarrow> x > y | _ \<Rightarrow> False)"

lemma sql_eq_simps [simp]:
  "sql_eq a (Some x) \<longleftrightarrow> a = Some x"
  "sql_eq (Some x) a \<longleftrightarrow> a = Some x"
  "\<not> sql_eq None a"
  "\<not> sql_eq a None"
  by (auto simp: sql_eq_def)

lemma sql_gt_simps [simp]:
  "sql_gt (Some x) (Some y) \<longleftrightarrow> x > y"
  "\<not> sql_gt None a"
  "\<not> sql_gt a None"
  by (auto simp: sql_gt_def split: option.splits)

lemma sql_gt_Some: "sql_gt a (Some y) \<longleftrightarrow> (\<exists>x. a = Some x \<and> x > y)"
  by (cases a) auto

section \<open>UPDATE, DELETE and INSERT\<close>

definition sql_count :: "('r \<Rightarrow> bool) \<Rightarrow> 'r list \<Rightarrow> nat" where
  [sql_defs]: "sql_count p t = length (filter p t)"

definition sql_update :: "('r \<Rightarrow> bool) \<Rightarrow> ('r \<Rightarrow> 'r) \<Rightarrow> 'r list \<Rightarrow> 'r list" where
  [sql_defs]: "sql_update p f t = map (\<lambda>r. if p r then f r else r) t"

definition sql_delete :: "('r \<Rightarrow> bool) \<Rightarrow> 'r list \<Rightarrow> 'r list" where
  [sql_defs]: "sql_delete p t = filter (\<lambda>r. \<not> p r) t"

definition sql_first :: "('r \<Rightarrow> bool) \<Rightarrow> 'r list \<Rightarrow> 'r option" where
  [sql_defs]: "sql_first p t = find p t"

definition sql_exists :: "('r \<Rightarrow> bool) \<Rightarrow> 'r list \<Rightarrow> bool" where
  [sql_defs]: "sql_exists p t \<longleftrightarrow> list_ex p t"

lemma sql_exists_iff: "sql_exists p t \<longleftrightarrow> (\<exists>r \<in> set t. p r)"
  by (simp add: sql_exists_def list_ex_iff)

lemma sql_first_SomeD: "sql_first p t = Some r \<Longrightarrow> r \<in> set t \<and> p r"
  by (auto simp: sql_first_def find_Some_iff)

lemma sql_first_None: "sql_first p t = None \<longleftrightarrow> (\<forall>r \<in> set t. \<not> p r)"
  by (auto simp: sql_first_def find_None_iff)

lemma set_sql_delete: "set (sql_delete p t) = {r \<in> set t. \<not> p r}"
  by (auto simp: sql_delete_def)

lemma set_sql_update: "set (sql_update p f t) = (\<lambda>r. if p r then f r else r) ` set t"
  by (simp add: sql_update_def)

lemma updated_row_in: "r \<in> set t \<Longrightarrow> p r \<Longrightarrow> f r \<in> set (sql_update p f t)"
  by (force simp: set_sql_update)

lemma length_sql_update [simp]: "length (sql_update p f t) = length t"
  by (simp add: sql_update_def)

lemma sql_update_key:
  "(\<And>r. p r \<Longrightarrow> key (f r) = key r) \<Longrightarrow> map key (sql_update p f t) = map key t"
  by (simp add: sql_update_def)

lemma sql_update_none: "sql_count p t = 0 \<Longrightarrow> sql_update p f t = t"
  by (auto simp: sql_update_def sql_count_def filter_empty_conv intro: map_idI)

lemma filter_sql_update:
  "(\<And>r. p r \<Longrightarrow> \<not> q r \<and> \<not> q (f r)) \<Longrightarrow> filter q (sql_update p f t) = filter q t"
  by (induction t) (auto simp: sql_update_def)

lemma ball_sql_update:
  "(\<forall>r' \<in> set (sql_update p f t). P r') \<longleftrightarrow> (\<forall>r \<in> set t. (p r \<longrightarrow> P (f r)) \<and> (\<not> p r \<longrightarrow> P r))"
  by (induction t) (auto simp: sql_update_def)

lemma sql_first_update_key:
  assumes "\<And>r. key (f r) = key r"
  shows "sql_first (\<lambda>r. key r = k) (sql_update (\<lambda>r. key r = k) f t) = map_option f (sql_first (\<lambda>r. key r = k) t)"
  using assms by (induction t) (auto simp: sql_first_def sql_update_def)

lemma sql_first_update_other:
  assumes "\<And>r. key (f r) = key r" "j \<noteq> k"
  shows "sql_first (\<lambda>r. key r = j) (sql_update (\<lambda>r. key r = k) f t) = sql_first (\<lambda>r. key r = j) t"
  using assms by (induction t) (auto simp: sql_first_def sql_update_def)

lemma sql_first_append:
  "sql_first p (t @ [r]) = (case sql_first p t of Some x \<Rightarrow> Some x | None \<Rightarrow> if p r then Some r else None)"
  by (induction t) (auto simp: sql_first_def)

lemma sql_exists_first: "sql_exists p t \<longleftrightarrow> sql_first p t \<noteq> None"
  by (auto simp: sql_exists_iff sql_first_None)

lemma sql_count_0: "sql_count p t = 0 \<longleftrightarrow> (\<forall>r \<in> set t. \<not> p r)"
  by (simp add: sql_count_def filter_empty_conv)

lemma sql_count_pos: "0 < sql_count p t \<longleftrightarrow> (\<exists>r \<in> set t. p r)"
  by (metis neq0_conv sql_count_0)

lemma sql_count_le_1:
  "distinct (map key t) \<Longrightarrow> (\<And>r. p r \<Longrightarrow> key r = k) \<Longrightarrow> sql_count p t \<le> 1"
  unfolding sql_count_def by (rule distinct_filter_length_le1 [where k = key and a = k]) auto

lemma sql_count_1_iff:
  assumes "distinct (map key t)" "\<And>r. p r \<Longrightarrow> key r = k"
  shows "sql_count p t = 1 \<longleftrightarrow> (\<exists>r \<in> set t. p r)"
  using sql_count_le_1 [where p = p, OF assms] sql_count_pos [of p t] by linarith

lemma distinct_key_sql_delete: "distinct (map key t) \<Longrightarrow> distinct (map key (sql_delete p t))"
  by (simp add: sql_delete_def distinct_map_filter)

lemma distinct_key_unique:
  "distinct (map key t) \<Longrightarrow> r \<in> set t \<Longrightarrow> s \<in> set t \<Longrightarrow> key r = key s \<Longrightarrow> r = s"
  by (simp add: distinct_map inj_on_def)

section \<open>Statements and batches\<close>

text \<open>
  A statement takes the database and \<open>changes()\<close> of the statement before it, and returns the new
  database and its own number of changed rows, or fails.
\<close>

type_synonym 'db stmt = "'db \<Rightarrow> nat \<Rightarrow> js_error + ('db \<times> nat)"

fun run_stmts :: "'db stmt list \<Rightarrow> 'db \<Rightarrow> nat \<Rightarrow> js_error + ('db \<times> nat list)" where
  "run_stmts [] db prev = Inr (db, [])"
| "run_stmts (s # ss) db prev =
     (case s db prev of
        Inl e \<Rightarrow> Inl e
      | Inr (db', n) \<Rightarrow>
          (case run_stmts ss db' n of
             Inl e \<Rightarrow> Inl e
           | Inr (db'', ns) \<Rightarrow> Inr (db'', n # ns)))"

definition batch :: "'db stmt list \<Rightarrow> 'db \<Rightarrow> js_error + ('db \<times> nat list)" where
  [sql_defs]: "batch ss db = run_stmts ss db 0"

lemma run_stmts_Inr:
  "run_stmts [] db n = Inr (db', ns) \<longleftrightarrow> db' = db \<and> ns = []"
  "run_stmts (s # ss) db n = Inr (db', ns) \<longleftrightarrow>
     (\<exists>d k ms. s db n = Inr (d, k) \<and> run_stmts ss d k = Inr (db', ms) \<and> ns = k # ms)"
  by (auto split: sum.splits)

lemma length_run_stmts: "run_stmts ss db n = Inr (db', ns) \<Longrightarrow> length ns = length ss"
  by (induction ss arbitrary: db n ns) (auto split: sum.splits)

lemma run_stmts_invariant:
  assumes "\<And>s db n db' k. s \<in> set ss \<Longrightarrow> s db n = Inr (db', k) \<Longrightarrow> P db \<Longrightarrow> P db'"
    and "run_stmts ss db n = Inr (db', ns)" "P db"
  shows "P db'"
  using assms
proof (induction ss arbitrary: db n ns)
  case (Cons s ss)
  from Cons.prems(2) obtain d k ns' where
    s: "s db n = Inr (d, k)" and r: "run_stmts ss d k = Inr (db', ns')"
    by (auto split: sum.splits prod.splits)
  from Cons.prems(1) [of s db n d k] s Cons.prems(3) have "P d" by simp
  then show ?case using Cons.IH [OF _ r] Cons.prems(1) by (meson list.set_intros(2))
qed simp

lemmas batch_invariant = run_stmts_invariant [of _ P _ 0 for P, folded batch_def]

text \<open>A step of a repository that throws leaves the database as it was.\<close>

definition commit :: "'db \<Rightarrow> js_error + ('db \<times> 'a) \<Rightarrow> 'db \<times> (js_error + 'a)" where
  [sql_defs]: "commit db m = (case m of Inl e \<Rightarrow> (db, Inl e) | Inr (db', x) \<Rightarrow> (db', Inr x))"

section \<open>Deleting the first rows of an ordered selection\<close>

text \<open>
  \<open>DELETE ... WHERE id IN (SELECT id ... WHERE p ORDER BY k ASC LIMIT n)\<close>. A negative limit is no
  limit. SQLite leaves the order of equal keys open; here they stay in insertion order.
\<close>

definition select_oldest :: "('r \<Rightarrow> bool) \<Rightarrow> ('r \<Rightarrow> 'k::linorder) \<Rightarrow> int \<Rightarrow> 'r list \<Rightarrow> 'r list" where
  [sql_defs]: "select_oldest p k limit t =
     (let hits = sort_key k (filter p t) in if limit < 0 then hits else take (nat limit) hits)"

definition delete_oldest ::
    "('r \<Rightarrow> 'i) \<Rightarrow> ('r \<Rightarrow> bool) \<Rightarrow> ('r \<Rightarrow> 'k::linorder) \<Rightarrow> int \<Rightarrow> 'r list \<Rightarrow> 'r list \<times> nat" where
  [sql_defs]: "delete_oldest i p k limit t =
     (let ids = map i (select_oldest p k limit t); doomed = (\<lambda>r. i r \<in> set ids)
      in (sql_delete doomed t, sql_count doomed t))"

lemma set_select_oldest: "set (select_oldest p k limit t) \<subseteq> {r \<in> set t. p r}"
  by (auto simp: select_oldest_def Let_def dest: in_set_takeD)

lemma length_select_oldest:
  "length (select_oldest p k limit t)
     = (if limit < 0 then sql_count p t else min (sql_count p t) (nat limit))"
  by (simp add: select_oldest_def Let_def sql_count_def)

lemma sorted_take_drop_le:
  "sorted (map k xs) \<Longrightarrow> x \<in> set (take n xs) \<Longrightarrow> y \<in> set (drop n xs) \<Longrightarrow> k x \<le> k y"
  using sorted_append [of "map k (take n xs)" "map k (drop n xs)"]
  by (simp add: map_append [symmetric] del: map_append)

lemma select_oldest_le:
  assumes "r \<in> set (select_oldest p k limit t)" "s \<in> set t" "p s" "s \<notin> set (select_oldest p k limit t)"
  shows "k r \<le> k s"
proof -
  let ?h = "sort_key k (filter p t)"
  have s: "s \<in> set ?h" using assms(2,3) by simp
  have lim: "\<not> limit < 0" using assms(4) s by (auto simp: select_oldest_def Let_def)
  with assms(1,4) have r: "r \<in> set (take (nat limit) ?h)" and "s \<notin> set (take (nat limit) ?h)"
    by (simp_all add: select_oldest_def Let_def)
  with s have "s \<in> set (drop (nat limit) ?h)"
    by (metis Un_iff append_take_drop_id set_append)
  with r show ?thesis by (intro sorted_take_drop_le [of k ?h]) simp_all
qed

section \<open>Shared contracts\<close>

text \<open>
  A guarded UPDATE of the row with one key whose effect keeps the key and makes the guard false: the
  compare-and-set the repositories use to consume a challenge, accept an invitation, revoke a token.
\<close>

locale one_shot_update =
  fixes key :: "'r \<Rightarrow> 'k"
    and guard :: "'r \<Rightarrow> bool"
    and effect :: "'r \<Rightarrow> 'r"
  assumes key_effect: "key (effect r) = key r"
    and guard_effect: "guard r \<Longrightarrow> \<not> guard (effect r)"
begin

lemma update_keys: "map key (sql_update (\<lambda>r. key r = k \<and> guard r) effect t) = map key t"
  by (rule sql_update_key) (simp add: key_effect)

lemma second_update_misses:
  "sql_count (\<lambda>r. key r = k \<and> guard r) (sql_update (\<lambda>r. key r = k \<and> guard r) effect t) = 0"
  by (auto simp: sql_count_0 set_sql_update guard_effect)

lemma second_update_idle:
  "sql_update (\<lambda>r. key r = k \<and> guard r) effect (sql_update (\<lambda>r. key r = k \<and> guard r) effect t)
     = sql_update (\<lambda>r. key r = k \<and> guard r) effect t"
  by (rule sql_update_none) (rule second_update_misses)

lemma update_at_most_one:
  "distinct (map key t) \<Longrightarrow> sql_count (\<lambda>r. key r = k \<and> guard r) t \<le> 1"
  by (rule sql_count_le_1 [where key = key and k = k]) simp_all

lemma update_hits_iff:
  "distinct (map key t) \<Longrightarrow>
     sql_count (\<lambda>r. key r = k \<and> guard r) t = 1 \<longleftrightarrow> (\<exists>r \<in> set t. key r = k \<and> guard r)"
  by (rule sql_count_1_iff [where key = key and k = k]) simp_all

lemma other_rows_untouched:
  "r \<in> set t \<Longrightarrow> key r \<noteq> k \<Longrightarrow> r \<in> set (sql_update (\<lambda>r. key r = k \<and> guard r) effect t)"
  by (force simp: set_sql_update)

end

text \<open>A retention job: delete at most \<open>limit\<close> of the rows that are \<open>due\<close>, oldest first.\<close>

locale bounded_cleanup =
  fixes key :: "'r \<Rightarrow> 'k"
    and due :: "'c \<Rightarrow> 'r \<Rightarrow> bool"
    and age :: "'r \<Rightarrow> 'o::linorder"
    and cleanup :: "'c \<Rightarrow> int \<Rightarrow> 'r list \<Rightarrow> 'r list \<times> nat"
  assumes cleanup_eq: "cleanup c limit t = delete_oldest key (due c) age limit t"
begin

lemma cleanup_subset: "set (fst (cleanup c limit t)) \<subseteq> set t"
  by (auto simp: cleanup_eq delete_oldest_def set_sql_delete Let_def)

lemma cleanup_keeps:
  assumes "distinct (map key t)" "r \<in> set t" "\<not> due c r"
  shows "r \<in> set (fst (cleanup c limit t))"
proof -
  have "key r \<notin> key ` set (select_oldest (due c) age limit t)"
    using assms set_select_oldest [of "due c" age limit t] distinct_key_unique [OF assms(1,2)] by blast
  with assms(2) show ?thesis by (simp add: cleanup_eq delete_oldest_def Let_def set_sql_delete)
qed

lemma cleanup_count:
  assumes "distinct (map key t)" "0 \<le> limit"
  shows "snd (cleanup c limit t) = min (sql_count (due c) t) (nat limit)"
proof -
  let ?s = "select_oldest (due c) age limit t"
  have d: "distinct ?s"
    using assms(1) by (simp add: select_oldest_def Let_def distinct_map)
  have "filter (\<lambda>r. key r \<in> key ` set ?s) t = filter (\<lambda>r. r \<in> set ?s) t"
    using set_select_oldest [of "due c" age limit t] assms(1)
    by (intro filter_cong) (auto dest: distinct_key_unique)
  moreover have "length (filter (\<lambda>r. r \<in> set ?s) t) = card (set ?s)"
    using assms(1) set_select_oldest [of "due c" age limit t]
    by (subst distinct_card [symmetric]) (auto simp: distinct_map intro!: arg_cong [where f = card])
  moreover have "card (set ?s) = length ?s" using d by (rule distinct_card)
  ultimately show ?thesis
    using assms(2) by (simp add: cleanup_eq delete_oldest_def Let_def sql_count_def length_select_oldest)
qed

lemma cleanup_oldest_first:
  assumes "distinct (map key t)"
    and "r \<in> set t" "r \<notin> set (fst (cleanup c limit t))"
    and "s \<in> set (fst (cleanup c limit t))" "due c s"
  shows "due c r \<and> age r \<le> age s"
proof -
  let ?s = "select_oldest (due c) age limit t"
  from assms(2,3) obtain r' where r': "r' \<in> set ?s" "key r' = key r"
    by (auto simp: cleanup_eq delete_oldest_def Let_def set_sql_delete)
  with set_select_oldest [of "due c" age limit t] have "r' \<in> set t" "due c r'" by auto
  with r' assms(1,2) have r: "r \<in> set ?s" "due c r"
    by (auto dest: distinct_key_unique)
  from assms(4) have s: "s \<in> set t" "s \<notin> set ?s"
    by (auto simp: cleanup_eq delete_oldest_def Let_def set_sql_delete)
  from select_oldest_le [OF r(1) s(1) assms(5) s(2)] r(2) show ?thesis by simp
qed

end

end
