(* ===== verification/Database.thy ===== *)
theory Database
  imports SqlTable
begin

text \<open>
  The D1 database: one record per table row and the record of all tables the modelled repositories
  read or write, with the keys and foreign keys the migrations declare. A nullable column is an
  \<open>option\<close>; a column the schema fills with \<open>CURRENT_TIMESTAMP\<close> takes \<open>sql_clock\<close>, the database's own
  clock. \<open>'a repo\<close> is a repository function: it takes the database and returns the new one with a
  value, or with the error it throws; what a committed batch wrote stays even if code after it throws.
\<close>

section \<open>Rows\<close>

record user_row =
  u_id :: string
  u_email :: string
  u_email_normalized :: string
  u_email_verified_at :: "string option"
  u_display_name :: "string option"
  u_kdf_algorithm :: string
  u_kdf_iterations :: int
  u_kdf_memory :: "int option"
  u_kdf_parallelism :: "int option"
  u_master_password_hash :: string
  u_user_key :: "string option"
  u_user_key_id :: "string option"
  u_public_key :: "string option"
  u_private_key :: "string option"
  u_security_stamp :: string
  u_revision_date :: string
  u_created_at :: string
  u_updated_at :: string
  u_disabled_at :: "string option"
  u_login_failed_count :: int
  u_login_failed_at :: "string option"
  u_login_locked_until :: "string option"

record device_row =
  d_id :: string
  d_user_id :: string
  d_identifier :: string
  d_name :: "string option"
  d_type :: "int option"
  d_encrypted_user_key :: "string option"
  d_encrypted_public_key :: "string option"
  d_encrypted_private_key :: "string option"
  d_last_seen_at :: "string option"
  d_revoked_at :: "string option"
  d_created_at :: string
  d_updated_at :: string
  d_session_id :: "string option"
  d_mfa_totp_credential_generation :: "string option"
  d_mfa_verified_at :: "string option"

record refresh_token_row =
  rt_id :: string
  rt_user_id :: string
  rt_device_id :: string
  rt_token_hash :: string
  rt_rotated_from_token_id :: "string option"
  rt_expires_at :: string
  rt_revoked_at :: "string option"
  rt_created_at :: string
  rt_session_id :: "string option"

record totp_row =
  tf_user_id :: string
  tf_encrypted_secret :: string
  tf_enabled :: bool
  tf_verified_at :: "string option"
  tf_last_accepted_step :: "int option"
  tf_credential_generation :: "string option"
  tf_pending_encrypted_secret :: "string option"
  tf_pending_created_at :: "string option"
  tf_created_at :: string
  tf_updated_at :: string

record totp_challenge_row =
  tc_id :: string
  tc_user_id :: string
  tc_challenge_hash :: string
  tc_device_identifier :: string
  tc_expires_at :: string
  tc_consumed_at :: "string option"
  tc_created_at :: string

record auth_attempt_row =
  aa_id :: string
  aa_bucket_key :: string
  aa_subject_key :: "string option"
  aa_successful :: bool
  aa_occurred_at :: string

record auth_failure_bucket_row =
  fb_bucket_key :: string
  fb_failed_count :: int
  fb_window_started_at :: string
  fb_locked_until :: "string option"
  fb_updated_at :: string

datatype request_quota_scope = Anonymous | Authenticated

record request_quota_bucket_row =
  qb_bucket_key :: string
  qb_scope :: request_quota_scope
  qb_request_count :: int
  qb_window_started_at :: string
  qb_blocked_until :: "string option"
  qb_updated_at :: string

datatype auth_request_status = Pending | Approved | Denied | Consumed | Expired | Superseded

record auth_request_row =
  ar_id :: string
  ar_user_id :: "string option"
  ar_email_hash :: string
  ar_request_type :: int
  ar_request_device_identifier :: string
  ar_request_device_type :: int
  ar_request_public_key :: string
  ar_access_code_hash :: string
  ar_status :: auth_request_status
  ar_request_approved :: "bool option"
  ar_approving_device_identifier :: "string option"
  ar_encrypted_response_key :: "string option"
  ar_created_at :: string
  ar_response_at :: "string option"
  ar_consumed_at :: "string option"
  ar_expires_at :: string
  ar_retention_delete_after :: string
  ar_updated_at :: string

datatype emergency_status = EaInvited | EaAccepted | EaConfirmed | EaRecoveryInitiated | EaRecoveryApproved

record emergency_access_row =
  ea_id :: string
  ea_grantor_user_id :: string
  ea_grantee_user_id :: "string option"
  ea_email_normalized :: "string option"
  ea_type :: int
  ea_status :: emergency_status
  ea_wait_time_days :: int
  ea_invite_token_hash :: "string option"
  ea_invite_expires_at :: "string option"
  ea_key_encrypted :: "string option"
  ea_key_generation :: "int option"
  ea_recovery_initiated_at :: "string option"
  ea_last_notification_at :: "string option"
  ea_created_at :: string
  ea_revision_date :: string
  ea_updated_at :: string

record audit_event_row =
  ev_id :: string
  ev_name :: string
  ev_outcome :: string
  ev_request_id :: string
  ev_occurred_at :: string
  ev_actor_user_id :: "string option"
  ev_actor_device_identifier :: "string option"
  ev_target_type :: "string option"
  ev_target_id :: "string option"
  ev_context_json :: "string option"

record organization_row =
  org_id :: string
  org_name :: string
  org_billing_email :: "string option"
  org_plan_type :: int
  org_public_key :: "string option"
  org_private_key :: "string option"
  org_enabled :: bool
  org_use_totp :: bool
  org_revision_date :: string
  org_created_at :: string
  org_updated_at :: string

record organization_user_row =
  ou_id :: string
  ou_organization_id :: string
  ou_user_id :: "string option"
  ou_email :: string
  ou_org_key :: "string option"
  ou_status :: int
  ou_type :: int
  ou_permissions :: "string option"
  ou_invite_token_hash :: "string option"
  ou_invite_expires_at :: "string option"
  ou_last_membership_mutation_id :: "string option"
  ou_created_at :: string
  ou_updated_at :: string

record organization_policy_row =
  op_id :: string
  op_organization_id :: string
  op_type :: int
  op_enabled :: bool
  op_revision_date :: string
  op_last_mutation_id :: "string option"
  op_created_at :: string
  op_updated_at :: string

record organization_group_row =
  og_id :: string
  og_organization_id :: string
  og_name :: string
  og_revision_date :: string
  og_last_mutation_id :: string
  og_created_at :: string
  og_updated_at :: string

record group_user_row =
  gu_group_id :: string
  gu_organization_id :: string
  gu_organization_user_id :: string

record collection_row =
  cl_id :: string
  cl_organization_id :: string
  cl_encrypted_name :: string
  cl_external_id :: "string option"
  cl_type :: int
  cl_revision_date :: string
  cl_created_at :: string

record collection_user_row =
  cu_collection_id :: string
  cu_organization_user_id :: string
  cu_read_only :: bool
  cu_hide_passwords :: bool
  cu_manage :: bool

record collection_group_row =
  cg_collection_id :: string
  cg_organization_id :: string
  cg_group_id :: string
  cg_read_only :: bool
  cg_hide_passwords :: bool
  cg_manage :: bool

record collection_cipher_row =
  cc_collection_id :: string
  cc_cipher_id :: string

record folder_row =
  fo_id :: string
  fo_user_id :: string
  fo_encrypted_name :: string
  fo_revision_date :: string
  fo_deleted_at :: "string option"
  fo_created_at :: string
  fo_updated_at :: string

record cipher_row =
  vc_id :: string
  vc_user_id :: string
  vc_folder_id :: "string option"
  vc_type :: int
  vc_favorite :: bool
  vc_encrypted_json :: string
  vc_revision_date :: string
  vc_deleted_at :: "string option"
  vc_created_at :: string
  vc_updated_at :: string
  vc_organization_id :: "string option"
  vc_cipher_key :: "string option"

record attachment_row =
  at_id :: string
  at_user_id :: string
  at_cipher_id :: string
  at_object_key :: string
  at_file_name :: string
  at_attachment_key :: string
  at_size :: int
  at_content_type :: "string option"
  at_revision_date :: string
  at_created_at :: string
  at_updated_at :: string

datatype send_state = PendingUpload | SendActive | SendDisabled | SendExpired | Quarantined | SendDeleted

record send_row =
  se_id :: string
  se_owner_user_id :: string
  se_type :: int
  se_auth_type :: int
  se_lifecycle_state :: send_state
  se_capability_envelope :: string
  se_capability_envelope_key_id :: string
  se_capability_verifier :: string
  se_capability_verifier_key_id :: string
  se_access_generation :: int
  se_encrypted_name :: string
  se_encrypted_notes :: "string option"
  se_encrypted_key :: string
  se_encrypted_text :: "string option"
  se_text_hidden :: bool
  se_password_verifier :: "string option"
  se_password_key_id :: "string option"
  se_max_access_count :: "int option"
  se_access_count :: int
  se_disabled :: bool
  se_hide_email :: bool
  se_expiration_at :: "string option"
  se_deletion_at :: string
  se_revision_date :: string
  se_created_at :: string
  se_updated_at :: string
  se_deleted_at :: "string option"
  se_quarantined_at :: "string option"
  se_last_accessed_at :: "string option"

record personal_api_key_row =
  pk_user_id :: string
  pk_secret_verifier :: string
  pk_created_at :: string
  pk_rotated_at :: "string option"
  pk_last_used_at :: "string option"
  pk_revision_date :: string

text \<open>How many accounts have each KDF setting; a NULL setting is stored as 0 with its flag.\<close>

record kdf_population_row =
  kp_algorithm :: string
  kp_iterations :: int
  kp_memory :: int
  kp_memory_is_null :: bool
  kp_parallelism :: int
  kp_parallelism_is_null :: bool
  kp_account_count :: int

datatype wrapper_kind = UserKeyWrapper | PrivateKeyWrapper

record wrapper_history_row =
  wh_user_id :: string
  wh_wrapper_kind :: wrapper_kind
  wh_wrapper_sha256 :: string
  wh_recorded_at :: string

record database =
  sql_clock :: string
  users :: "user_row list"
  account_kdf_population :: "kdf_population_row list"
  devices :: "device_row list"
  refresh_tokens :: "refresh_token_row list"
  user_totp :: "totp_row list"
  totp_challenges :: "totp_challenge_row list"
  auth_attempts :: "auth_attempt_row list"
  auth_failure_buckets :: "auth_failure_bucket_row list"
  request_quota_buckets :: "request_quota_bucket_row list"
  auth_requests :: "auth_request_row list"
  emergency_access :: "emergency_access_row list"
  audit_events :: "audit_event_row list"
  organizations :: "organization_row list"
  organization_users :: "organization_user_row list"
  organization_policies :: "organization_policy_row list"
  organization_groups :: "organization_group_row list"
  organization_group_users :: "group_user_row list"
  collections :: "collection_row list"
  collection_users :: "collection_user_row list"
  collection_groups :: "collection_group_row list"
  collection_ciphers :: "collection_cipher_row list"
  folders :: "folder_row list"
  ciphers :: "cipher_row list"
  cipher_attachments :: "attachment_row list"
  sends :: "send_row list"
  personal_api_keys :: "personal_api_key_row list"
  wrapper_history :: "wrapper_history_row list"

definition empty_database :: "string \<Rightarrow> database" where
  "empty_database clock =
     \<lparr>sql_clock = clock, users = [], account_kdf_population = [], devices = [], refresh_tokens = [], user_totp = [],
      totp_challenges = [], auth_attempts = [], auth_failure_buckets = [], request_quota_buckets = [],
      auth_requests = [], emergency_access = [], audit_events = [], organizations = [],
      organization_users = [], organization_policies = [], organization_groups = [], organization_group_users = [],
      collections = [], collection_users = [], collection_groups = [], collection_ciphers = [], folders = [],
      ciphers = [], cipher_attachments = [], sends = [], personal_api_keys = [], wrapper_history = []\<rparr>"

section \<open>Repository functions\<close>

type_synonym 'a repo = "database \<Rightarrow> database \<times> (js_error + 'a)"

text \<open>Runs a batch and goes on with the numbers of changed rows; a failed batch leaves no trace.\<close>

definition with_batch :: "database stmt list \<Rightarrow> (nat list \<Rightarrow> 'a repo) \<Rightarrow> 'a repo" where
  [sql_defs]: "with_batch ss k db =
     (case batch ss db of Inl e \<Rightarrow> (db, Inl e) | Inr (db', ns) \<Rightarrow> k ns db')"

definition return_value :: "'a \<Rightarrow> 'a repo" where
  [sql_defs]: "return_value x db = (db, Inr x)"

definition throw :: "js_error \<Rightarrow> 'a repo" where
  [sql_defs]: "throw e db = (db, Inl e)"

text \<open>An UPDATE or DELETE of one table; the WHERE clause may read the database and \<open>changes()\<close>.\<close>

definition update_stmt ::
    "(database \<Rightarrow> 'r list) \<Rightarrow> (('r list \<Rightarrow> 'r list) \<Rightarrow> database \<Rightarrow> database)
      \<Rightarrow> (database \<Rightarrow> nat \<Rightarrow> 'r \<Rightarrow> bool) \<Rightarrow> ('r \<Rightarrow> 'r) \<Rightarrow> database stmt" where
  [sql_defs]: "update_stmt get upd p f db prev =
     Inr (upd (sql_update (p db prev) f) db, sql_count (p db prev) (get db))"

definition delete_stmt ::
    "(database \<Rightarrow> 'r list) \<Rightarrow> (('r list \<Rightarrow> 'r list) \<Rightarrow> database \<Rightarrow> database)
      \<Rightarrow> (database \<Rightarrow> nat \<Rightarrow> 'r \<Rightarrow> bool) \<Rightarrow> database stmt" where
  [sql_defs]: "delete_stmt get upd p db prev =
     Inr (upd (sql_delete (p db prev)) db, sql_count (p db prev) (get db))"

text \<open>A statement whose result must satisfy a constraint of the schema.\<close>

definition checked :: "(database \<Rightarrow> bool) \<Rightarrow> database stmt \<Rightarrow> database stmt" where
  [sql_defs]: "checked ok s db prev =
     (case s db prev of
        Inl e \<Rightarrow> Inl e
      | Inr (db', n) \<Rightarrow> if ok db' then Inr (db', n) else Inl ConstraintError)"

section \<open>Keys and foreign keys\<close>

definition device_key :: "device_row \<Rightarrow> string \<times> string" where
  [sql_defs]: "device_key d = (d_user_id d, d_identifier d)"

definition devices_unique :: "database \<Rightarrow> bool" where
  [sql_defs]: "devices_unique db \<longleftrightarrow>
     distinct (map d_id (devices db)) \<and> distinct (map device_key (devices db))"

definition tokens_unique :: "database \<Rightarrow> bool" where
  [sql_defs]: "tokens_unique db \<longleftrightarrow>
     distinct (map rt_id (refresh_tokens db)) \<and> distinct (map rt_token_hash (refresh_tokens db))"

definition user_exists :: "string \<Rightarrow> database \<Rightarrow> bool" where
  [sql_defs]: "user_exists uid db \<longleftrightarrow> sql_exists (\<lambda>u. u_id u = uid) (users db)"

definition device_exists :: "string \<Rightarrow> database \<Rightarrow> bool" where
  [sql_defs]: "device_exists did db \<longleftrightarrow> sql_exists (\<lambda>d. d_id d = did) (devices db)"

definition token_references :: "refresh_token_row \<Rightarrow> database \<Rightarrow> bool" where
  [sql_defs]: "token_references t db \<longleftrightarrow>
     user_exists (rt_user_id t) db \<and> device_exists (rt_device_id t) db \<and>
     (case rt_rotated_from_token_id t of
        None \<Rightarrow> True
      | Some p \<Rightarrow> sql_exists (\<lambda>r. rt_id r = p) (refresh_tokens db))"

definition devices_conflict :: "device_row \<Rightarrow> database \<Rightarrow> bool" where
  [sql_defs]: "devices_conflict d db \<longleftrightarrow>
     sql_exists (\<lambda>r. d_id r = d_id d \<or> device_key r = device_key d) (devices db)"

text \<open>\<open>INSERT OR IGNORE INTO devices\<close> of one row.\<close>

definition insert_or_ignore_device :: "device_row \<Rightarrow> database \<Rightarrow> js_error + (database \<times> nat)" where
  [sql_defs]: "insert_or_ignore_device d db =
     (if devices_conflict d db then Inr (db, 0)
      else if \<not> user_exists (d_user_id d) db then Inl ConstraintError
      else Inr (db\<lparr>devices := devices db @ [d]\<rparr>, 1))"

text \<open>\<open>INSERT INTO refresh_tokens\<close> of one row.\<close>

definition insert_refresh_token :: "refresh_token_row \<Rightarrow> database \<Rightarrow> js_error + (database \<times> nat)" where
  [sql_defs]: "insert_refresh_token t db =
     (if sql_exists (\<lambda>r. rt_id r = rt_id t \<or> rt_token_hash r = rt_token_hash t) (refresh_tokens db)
         \<or> \<not> token_references t db
      then Inl ConstraintError
      else Inr (db\<lparr>refresh_tokens := refresh_tokens db @ [t]\<rparr>, 1))"

text \<open>\<open>INSERT INTO audit_events\<close> of one row.\<close>

definition insert_audit_event :: "audit_event_row \<Rightarrow> database \<Rightarrow> js_error + (database \<times> nat)" where
  [sql_defs]: "insert_audit_event e db =
     (if sql_exists (\<lambda>r. ev_id r = ev_id e) (audit_events db) then Inl ConstraintError
      else Inr (db\<lparr>audit_events := audit_events db @ [e]\<rparr>, 1))"

text \<open>The keys and references the schema enforces on the session tables.\<close>

definition schema_ok :: "database \<Rightarrow> bool" where
  "schema_ok db \<longleftrightarrow>
     distinct (map u_id (users db)) \<and> devices_unique db \<and> tokens_unique db \<and>
     (\<forall>d \<in> set (devices db). user_exists (d_user_id d) db) \<and>
     (\<forall>t \<in> set (refresh_tokens db). user_exists (rt_user_id t) db \<and> device_exists (rt_device_id t) db)"

lemma update_stmt_Inr:
  "update_stmt get upd p f db prev = Inr (db', n) \<longleftrightarrow>
     db' = upd (sql_update (p db prev) f) db \<and> n = sql_count (p db prev) (get db)"
  by (auto simp: update_stmt_def)

lemma delete_stmt_Inr:
  "delete_stmt get upd p db prev = Inr (db', n) \<longleftrightarrow>
     db' = upd (sql_delete (p db prev)) db \<and> n = sql_count (p db prev) (get db)"
  by (auto simp: delete_stmt_def)

lemma insert_refresh_token_Inr:
  "insert_refresh_token t db = Inr (db', n) \<longleftrightarrow>
     (\<forall>r \<in> set (refresh_tokens db). rt_id r \<noteq> rt_id t \<and> rt_token_hash r \<noteq> rt_token_hash t) \<and>
     token_references t db \<and> db' = db\<lparr>refresh_tokens := refresh_tokens db @ [t]\<rparr> \<and> n = 1"
  by (auto simp: insert_refresh_token_def sql_exists_iff)

lemma insert_or_ignore_device_Inr:
  "insert_or_ignore_device d db = Inr (db', n) \<longleftrightarrow>
     devices_conflict d db \<and> db' = db \<and> n = 0 \<or>
     \<not> devices_conflict d db \<and> user_exists (d_user_id d) db \<and>
       db' = db\<lparr>devices := devices db @ [d]\<rparr> \<and> n = 1"
  by (auto simp: insert_or_ignore_device_def)

lemma user_unique:
  "schema_ok db \<Longrightarrow> u \<in> set (users db) \<Longrightarrow> v \<in> set (users db) \<Longrightarrow> u_id u = u_id v \<Longrightarrow> u = v"
  by (auto simp: schema_ok_def intro: distinct_key_unique)

lemma device_unique:
  "schema_ok db \<Longrightarrow> d \<in> set (devices db) \<Longrightarrow> e \<in> set (devices db) \<Longrightarrow> d_id d = d_id e \<Longrightarrow> d = e"
  by (auto simp: schema_ok_def devices_unique_def intro: distinct_key_unique)

lemma device_key_unique:
  "schema_ok db \<Longrightarrow> d \<in> set (devices db) \<Longrightarrow> e \<in> set (devices db) \<Longrightarrow>
     device_key d = device_key e \<Longrightarrow> d = e"
  unfolding schema_ok_def devices_unique_def by (blast intro: distinct_key_unique [of device_key])

lemma token_unique:
  "schema_ok db \<Longrightarrow> s \<in> set (refresh_tokens db) \<Longrightarrow> t \<in> set (refresh_tokens db) \<Longrightarrow>
     rt_id s = rt_id t \<Longrightarrow> s = t"
  by (auto simp: schema_ok_def tokens_unique_def intro: distinct_key_unique)

section \<open>Batches\<close>

lemma with_batch_eq:
  "with_batch ss k db = (db', r) \<longleftrightarrow>
     (\<exists>e. batch ss db = Inl e \<and> db' = db \<and> r = Inl e) \<or>
     (\<exists>d ns. batch ss db = Inr (d, ns) \<and> k ns d = (db', r))"
  by (auto simp: with_batch_def split: sum.splits)

lemma with_batch_invariant:
  assumes "\<And>s db n db' k. s \<in> set ss \<Longrightarrow> s db n = Inr (db', k) \<Longrightarrow> P db \<Longrightarrow> P db'"
    and "\<And>ns d. P d \<Longrightarrow> P (fst (k ns d))" and "P db"
  shows "P (fst (with_batch ss k db))"
proof (cases "batch ss db")
  case (Inl e)
  then show ?thesis using assms(3) by (simp add: with_batch_def)
next
  case (Inr r)
  obtain d ns where r: "r = (d, ns)" by (cases r)
  have "P d" using batch_invariant [of ss P db d ns] assms(1,3) Inr r by blast
  then show ?thesis using assms(2) Inr r by (simp add: with_batch_def)
qed

lemmas batch_eval = batch_def run_stmts.simps update_stmt_def delete_stmt_def

lemma fst_return_value [simp]: "fst (return_value x db) = db"
  by (simp add: return_value_def)

lemma fst_throw [simp]: "fst (throw e db) = db"
  by (simp add: throw_def)

lemma sql_update_False [simp]: "sql_update (\<lambda>r. False) f t = t"
  by (simp add: sql_update_def)

lemma sql_count_False [simp]: "sql_count (\<lambda>r. False) t = 0"
  by (simp add: sql_count_def)

lemma update_record_idle [simp]:
  "devices_update (\<lambda>t. t) db = db" "refresh_tokens_update (\<lambda>t. t) db = db"
  "user_totp_update (\<lambda>t. t) db = db" "totp_challenges_update (\<lambda>t. t) db = db"
  "auth_failure_buckets_update (\<lambda>t. t) db = db" "users_update (\<lambda>t. t) db = db"
  by simp_all

lemma sql_update_False_fun [simp]: "sql_update (\<lambda>r. False) f = (\<lambda>t. t)"
  by (rule ext) simp

lemma devices_update_value: "devices_update f db = db\<lparr>devices := f (devices db)\<rparr>"
  by simp

lemma refresh_tokens_update_value: "refresh_tokens_update f db = db\<lparr>refresh_tokens := f (refresh_tokens db)\<rparr>"
  by simp

end
