(* ===== verification/JsDate.thy ===== *)
theory JsDate
  imports Prelude
begin

text \<open>
  Time stamps. The program keeps every time as the text \<open>new Date(ms).toISOString()\<close> and compares
  these texts, in SQL byte by byte, and in TypeScript through \<open>Date.parse\<close>. Both functions are
  written out from ECMA-262 (Day, DayFromYear, YearFromTime, MonthFromTime, DateFromTime, MakeDay,
  and the Date Time String Format with milliseconds and Z). \<open>Date.parse\<close> of a text in any other
  form is NaN here; the program only parses what \<open>toISOString\<close> wrote. As in V8 a day of month up to
  31 is accepted in every month and carries over into the next one.

  The lemmas: the two functions are inverse to each other on the whole time range, and on the
  years 0 to 9999 the byte order of the texts is the order of the times.
\<close>

section \<open>The calendar\<close>

definition ms_per_day :: int where
  "ms_per_day = 86400000"

definition day_from_year :: "int \<Rightarrow> int" where
  "day_from_year y = 365 * (y - 1970) + (y - 1969) div 4 - (y - 1901) div 100 + (y - 1601) div 400"

definition is_leap :: "int \<Rightarrow> bool" where
  "is_leap y \<longleftrightarrow> 4 dvd y \<and> (\<not> 100 dvd y \<or> 400 dvd y)"

lemma int_div_step:
  fixes a k :: int
  assumes "0 < k"
  shows "(a + 1) div k = a div k + (if k dvd a + 1 then 1 else 0)"
proof -
  obtain q r where a: "a = k * q + r" "0 \<le> r" "r < k"
    using assms by (metis mult_div_mod_eq pos_mod_bound pos_mod_sign)
  show ?thesis
  proof (cases "r + 1 = k")
    case True
    then have "a + 1 = k * (q + 1)" by (simp add: a algebra_simps)
    moreover have "a div k = q" using a assms by simp
    ultimately show ?thesis using assms by simp
  next
    case False
    then have "(a + 1) div k = q" "(a + 1) mod k = r + 1" "a div k = q"
      using a assms by (simp_all add: add.assoc)
    then show ?thesis using a by (simp add: dvd_eq_mod_eq_0)
  qed
qed

lemma dvd_minus_multiple: "k dvd c \<Longrightarrow> k dvd y - c \<longleftrightarrow> k dvd (y :: int)"
  using dvd_add_left_iff [of k c "y - c"] by simp

lemma leap_count:
  fixes p q r t :: int
  assumes "C \<Longrightarrow> B" "B \<Longrightarrow> A"
  shows "t + 365 + (p + (if A then 1 else 0)) - (q + (if B then 1 else 0)) + (r + (if C then 1 else 0))
    = t + p - q + r + (if A \<and> (\<not> B \<or> C) then 366 else 365)"
  using assms by auto

lemma day_from_year_Suc: "day_from_year (y + 1) = day_from_year y + (if is_leap y then 366 else 365)"
proof -
  have d4: "(y + 1 - 1969) div 4 = (y - 1969) div 4 + (if 4 dvd y then 1 else 0)"
    using int_div_step [of 4 "y - 1969"] by (simp add: dvd_minus_multiple)
  have d100: "(y + 1 - 1901) div 100 = (y - 1901) div 100 + (if 100 dvd y then 1 else 0)"
    using int_div_step [of 100 "y - 1901"] by (simp add: dvd_minus_multiple)
  have d400: "(y + 1 - 1601) div 400 = (y - 1601) div 400 + (if 400 dvd y then 1 else 0)"
    using int_div_step [of 400 "y - 1601"] by (simp add: dvd_minus_multiple)
  have t: "365 * (y + 1 - 1970) = 365 * (y - 1970) + 365" by simp
  have imp: "400 dvd y \<Longrightarrow> 100 dvd y" "100 dvd y \<Longrightarrow> 4 dvd y"
    using dvd_trans [of "100::int" 400 y] dvd_trans [of "4::int" 100 y] by simp_all
  show ?thesis
    unfolding day_from_year_def is_leap_def t d4 d100 d400 by (rule leap_count [OF imp])
qed

lemma day_from_year_step: "day_from_year y + 365 \<le> day_from_year (y + 1)"
  by (simp add: day_from_year_Suc)

lemma day_from_year_step_le: "day_from_year (y + 1) \<le> day_from_year y + 366"
  by (simp add: day_from_year_Suc)

lemma day_from_year_mono: "y \<le> z \<Longrightarrow> day_from_year y \<le> day_from_year z"
proof (induction z rule: int_ge_induct)
  case (step i)
  then show ?case using day_from_year_step [of i] by simp
qed simp

text \<open>The greatest year whose first day is not after \<open>d\<close>, searched from an estimate.\<close>

function year_search :: "int \<Rightarrow> int \<Rightarrow> int" where
  "year_search y d =
     (if d < day_from_year y then year_search (y - 1) d
      else if day_from_year (y + 1) \<le> d then year_search (y + 1) d
      else y)"
  by pat_completeness auto
termination
proof (relation "measure (\<lambda>(y, d). nat (if d < day_from_year y then day_from_year y - d + 400
                                        else d - day_from_year y))", goal_cases)
  case (2 y d)
  then show ?case
    using day_from_year_step [of "y - 1"] day_from_year_step_le [of "y - 1"] by auto
next
  case (3 y d)
  then show ?case using day_from_year_step [of y] by auto
qed simp

declare year_search.simps [simp del]

lemma year_search_bounds:
  "day_from_year (year_search y d) \<le> d \<and> d < day_from_year (year_search y d + 1)"
proof (induction y d rule: year_search.induct)
  case (1 y d)
  then show ?case by (auto simp: year_search.simps [of y d])
qed

definition year_of_day :: "int \<Rightarrow> int" where
  "year_of_day d = year_search (1970 + d div 365) d"

lemma year_of_day_bounds:
  "day_from_year (year_of_day d) \<le> d" "d < day_from_year (year_of_day d + 1)"
  using year_search_bounds by (simp_all add: year_of_day_def)

lemma year_unique:
  assumes "day_from_year y \<le> d" "d < day_from_year (y + 1)"
  shows "year_of_day d = y"
proof (rule ccontr)
  assume "year_of_day d \<noteq> y"
  then consider "year_of_day d + 1 \<le> y" | "y + 1 \<le> year_of_day d" by linarith
  then show False
    using day_from_year_mono year_of_day_bounds [of d] assms by cases (meson leD order_trans)+
qed

definition month_lengths :: "int \<Rightarrow> int list" where
  "month_lengths y = [31, if is_leap y then 29 else 28, 31, 30, 31, 30, 31, 31, 30, 31, 30, 31]"

lemma month_lengths_facts [simp]:
  "length (month_lengths y) = 12"
  "sum_list (month_lengths y) = (if is_leap y then 366 else 365)"
  by (simp_all add: month_lengths_def)

lemma month_length_bounds:
  "l \<in> set (month_lengths y) \<Longrightarrow> 0 < l \<and> l \<le> 31"
  by (auto simp: month_lengths_def split: if_splits)

text \<open>Splits a day of the year into the months already over and the day of the month, from 0.\<close>

fun locate_month :: "int list \<Rightarrow> int \<Rightarrow> nat \<times> int" where
  "locate_month [] r = (0, r)"
| "locate_month (l # ls) r =
     (if r < l then (0, r) else (let (m, k) = locate_month ls (r - l) in (Suc m, k)))"

lemma locate_month_sound:
  assumes "0 \<le> r" "r < sum_list ls" "locate_month ls r = (m, k)"
  shows "m < length ls \<and> 0 \<le> k \<and> k < ls ! m \<and> r = sum_list (take m ls) + k"
  using assms
proof (induction ls arbitrary: r m k)
  case (Cons l ls)
  show ?case
  proof (cases "r < l")
    case True
    with Cons.prems show ?thesis by auto
  next
    case False
    obtain m' k' where mk: "locate_month ls (r - l) = (m', k')"
      by (cases "locate_month ls (r - l)")
    with False Cons.prems have "m = Suc m'" "k = k'" by simp_all
    moreover from False Cons.prems have "0 \<le> r - l" "r - l < sum_list ls" by simp_all
    note Cons.IH [OF this mk]
    ultimately show ?thesis by simp
  qed
qed simp

definition civil_of_day :: "int \<Rightarrow> int \<times> nat \<times> nat" where
  "civil_of_day d =
     (let y = year_of_day d; (m, k) = locate_month (month_lengths y) (d - day_from_year y)
      in (y, m + 1, nat k + 1))"

definition day_of_civil :: "int \<Rightarrow> nat \<Rightarrow> nat \<Rightarrow> int" where
  "day_of_civil y m d = day_from_year y + sum_list (take (m - 1) (month_lengths y)) + int d - 1"

lemma civil_of_day_sound:
  assumes "civil_of_day n = (y, m, d)"
  shows "day_of_civil y m d = n" "1 \<le> m" "m \<le> 12" "1 \<le> d" "d \<le> 31"
    "int d \<le> month_lengths y ! (m - 1)" "y = year_of_day n"
proof -
  obtain m0 k where mk: "locate_month (month_lengths y) (n - day_from_year y) = (m0, k)"
    by (cases "locate_month (month_lengths y) (n - day_from_year y)")
  from assms mk have y: "y = year_of_day n" and m: "m = m0 + 1" and d: "d = nat k + 1"
    by (auto simp: civil_of_day_def Let_def split: prod.splits)
  have r: "0 \<le> n - day_from_year y" "n - day_from_year y < sum_list (month_lengths y)"
    using year_of_day_bounds [of n] day_from_year_Suc [of "year_of_day n"] by (simp_all add: y)
  note s = locate_month_sound [OF r mk]
  then have len: "0 < month_lengths y ! m0 \<and> month_lengths y ! m0 \<le> 31"
    by (intro month_length_bounds [of _ y]) simp
  show "day_of_civil y m d = n" "1 \<le> m" "m \<le> 12" "1 \<le> d" "d \<le> 31"
    "int d \<le> month_lengths y ! (m - 1)" "y = year_of_day n"
    using s len by (auto simp: day_of_civil_def m d y)
qed

section \<open>Fixed-width numerals\<close>

fun pad :: "nat \<Rightarrow> nat \<Rightarrow> string" where
  "pad 0 n = []"
| "pad (Suc w) n = pad w (n div 10) @ [char_of (48 + n mod 10)]"

lemma length_pad [simp]: "length (pad w n) = w"
  by (induction w n rule: pad.induct) simp_all

definition digit_value :: "char \<Rightarrow> nat option" where
  "digit_value c = (if 48 \<le> code_unit c \<and> code_unit c \<le> 57 then Some (code_unit c - 48) else None)"

lemma digit_value_digit [simp]: "n < 10 \<Longrightarrow> digit_value (char_of (48 + n)) = Some n"
  by (simp add: digit_value_def code_unit_char_of)

text \<open>Reads exactly \<open>w\<close> digits; returns the number and the rest of the text.\<close>

fun take_digits :: "nat \<Rightarrow> nat \<Rightarrow> string \<Rightarrow> (nat \<times> string) option" where
  "take_digits 0 acc s = Some (acc, s)"
| "take_digits (Suc w) acc [] = None"
| "take_digits (Suc w) acc (c # s) =
     (case digit_value c of None \<Rightarrow> None | Some v \<Rightarrow> take_digits w (acc * 10 + v) s)"

lemma take_digits_append:
  "take_digits (v + w) acc s =
     (case take_digits v acc s of None \<Rightarrow> None | Some (a, r) \<Rightarrow> take_digits w a r)"
  by (induction v acc s rule: take_digits.induct) (auto split: option.split)

lemma take_digits_pad_acc:
  "n < 10 ^ w \<Longrightarrow> take_digits w acc (pad w n @ r) = Some (acc * 10 ^ w + n, r)"
proof (induction w arbitrary: n acc r)
  case (Suc w)
  then have "n div 10 < 10 ^ w" by auto
  with Suc.IH [of "n div 10" acc "char_of (48 + n mod 10) # r"] take_digits_append [of w 1]
  show ?case by (simp add: algebra_simps)
qed simp

lemma take_digits_pad [simp]: "n < 10 ^ w \<Longrightarrow> take_digits w 0 (pad w n @ r) = Some (n, r)"
  by (simp add: take_digits_pad_acc)

lemma digit_less_iff:
  fixes a b r t :: nat
  assumes "r < 10" "t < 10"
  shows "a * 10 + r < b * 10 + t \<longleftrightarrow> a < b \<or> a = b \<and> r < t"
  using assms by linarith

lemma pad_less_iff:
  "m < 10 ^ w \<Longrightarrow> n < 10 ^ w \<Longrightarrow> pad w m < pad w n \<longleftrightarrow> m < n"
proof (induction w arbitrary: m n)
  case (Suc w)
  have lt: "m div 10 < 10 ^ w" "n div 10 < 10 ^ w" using Suc.prems by auto
  have inj: "pad w (m div 10) = pad w (n div 10) \<longleftrightarrow> m div 10 = n div 10"
    using Suc.IH [OF lt] Suc.IH [OF lt(2) lt(1)] by (metis linorder_neqE_nat less_irrefl)
  have last: "char_of (48 + m mod 10) < (char_of (48 + n mod 10) :: char) \<longleftrightarrow> m mod 10 < n mod 10"
    by (simp add: less_char_code_unit code_unit_char_of)
  have "pad (Suc w) m < pad (Suc w) n
      \<longleftrightarrow> m div 10 < n div 10 \<or> m div 10 = n div 10 \<and> m mod 10 < n mod 10"
    by (simp add: lex_less_append_same_length Suc.IH [OF lt] inj last)
  also have "\<dots> \<longleftrightarrow> m div 10 * 10 + m mod 10 < n div 10 * 10 + n mod 10"
    by (rule digit_less_iff [symmetric]) simp_all
  also have "\<dots> \<longleftrightarrow> m < n"
    by (simp only: div_mult_mod_eq)
  finally show ?case .
qed simp

definition expect :: "char \<Rightarrow> string \<Rightarrow> string option" where
  "expect c s = (case s of [] \<Rightarrow> None | d # r \<Rightarrow> if d = c then Some r else None)"

lemma expect_Cons [simp]: "expect c (c # s) = Some s"
  by (simp add: expect_def)

section \<open>Date.parse and toISOString\<close>

definition max_time :: int where
  "max_time = 8640000000000000"

definition year_text :: "int \<Rightarrow> string" where
  "year_text y =
     (if 0 \<le> y \<and> y \<le> 9999 then pad 4 (nat y)
      else if y < 0 then CHR ''-'' # pad 6 (nat (- y))
      else CHR ''+'' # pad 6 (nat y))"

definition clock_text :: "nat \<Rightarrow> string" where
  "clock_text ms =
     pad 2 (ms div 3600000) @ CHR '':'' # pad 2 (ms div 60000 mod 60) @ CHR '':'' #
     pad 2 (ms div 1000 mod 60) @ CHR ''.'' # pad 3 (ms mod 1000) @ ''Z''"

definition iso_text :: "int \<Rightarrow> string" where
  "iso_text t =
     (let (y, m, d) = civil_of_day (t div ms_per_day)
      in year_text y @ CHR ''-'' # pad 2 m @ CHR ''-'' # pad 2 d @ CHR ''T'' #
         clock_text (nat (t mod ms_per_day)))"

text \<open>\<open>new Date(t).toISOString()\<close>, for \<open>t\<close> a whole number or NaN (\<open>None\<close>).\<close>

definition to_iso_string :: "int option \<Rightarrow> js_error + string" where
  "to_iso_string t =
     (case t of
        None \<Rightarrow> Inl RangeError
      | Some ms \<Rightarrow> if \<bar>ms\<bar> \<le> max_time then Inr (iso_text ms) else Inl RangeError)"

definition parse_year :: "string \<Rightarrow> (int \<times> string) option" where
  "parse_year s =
     (if s \<noteq> [] \<and> hd s = CHR ''+'' then map_option (apfst int) (take_digits 6 0 (tl s))
      else if s \<noteq> [] \<and> hd s = CHR ''-'' then
        (case take_digits 6 0 (tl s) of
           None \<Rightarrow> None
         | Some (y, r) \<Rightarrow> if y = 0 then None else Some (- int y, r))
      else map_option (apfst int) (take_digits 4 0 s))"

definition parse_clock :: "string \<Rightarrow> int option" where
  "parse_clock s0 =
     Option.bind (take_digits 2 0 s0) (\<lambda>(h, s1).
     Option.bind (expect (CHR '':'') s1) (\<lambda>s2.
     Option.bind (take_digits 2 0 s2) (\<lambda>(mi, s3).
     Option.bind (expect (CHR '':'') s3) (\<lambda>s4.
     Option.bind (take_digits 2 0 s4) (\<lambda>(sec, s5).
     Option.bind (expect (CHR ''.'') s5) (\<lambda>s6.
     Option.bind (take_digits 3 0 s6) (\<lambda>(ms, s7).
       if s7 = ''Z'' \<and> mi < 60 \<and> sec < 60 \<and> (h < 24 \<or> h = 24 \<and> mi = 0 \<and> sec = 0 \<and> ms = 0)
       then Some (int (h * 3600000 + mi * 60000 + sec * 1000 + ms)) else None)))))))"

definition date_parse :: "string \<Rightarrow> int option" where
  "date_parse s0 =
     Option.bind (parse_year s0) (\<lambda>(y, s1).
     Option.bind (expect (CHR ''-'') s1) (\<lambda>s2.
     Option.bind (take_digits 2 0 s2) (\<lambda>(m, s3).
     Option.bind (expect (CHR ''-'') s3) (\<lambda>s4.
     Option.bind (take_digits 2 0 s4) (\<lambda>(d, s5).
     Option.bind (expect (CHR ''T'') s5) (\<lambda>s6.
     Option.bind (parse_clock s6) (\<lambda>c.
       let t = day_of_civil y m d * ms_per_day + c
       in if 1 \<le> m \<and> m \<le> 12 \<and> 1 \<le> d \<and> d \<le> 31 \<and> \<bar>t\<bar> \<le> max_time then Some t else None)))))))"

section \<open>The round trip\<close>

lemma clock_radix:
  fixes ms :: nat
  shows "ms div 60000 = ms div 1000 div 60" "ms div 3600000 = ms div 1000 div 60 div 60"
  by (simp_all add: div_mult2_eq [symmetric])

lemma parse_clock_text:
  assumes "ms < 86400000"
  shows "parse_clock (clock_text ms) = Some (int ms)"
proof -
  define h where "h = ms div 1000 div 60 div 60"
  define mi where "mi = ms div 1000 div 60 mod 60"
  define sc where "sc = ms div 1000 mod 60"
  define f where "f = ms mod 1000"
  have b: "h < 24" "mi < 60" "sc < 60" "f < 1000"
    using assms by (simp_all add: h_def mi_def sc_def f_def less_mult_imp_div_less)
  have "ms = ms div 1000 * 1000 + f" by (simp only: f_def div_mult_mod_eq)
  also have "ms div 1000 = ms div 1000 div 60 * 60 + sc" by (simp only: sc_def div_mult_mod_eq)
  also have "ms div 1000 div 60 = h * 60 + mi" by (simp only: h_def mi_def div_mult_mod_eq)
  finally have ms: "ms = h * 3600000 + mi * 60000 + sc * 1000 + f" by simp
  have "clock_text ms = pad 2 h @ CHR '':'' # pad 2 mi @ CHR '':'' # pad 2 sc @ CHR ''.'' # pad 3 f @ ''Z''"
    by (simp only: clock_text_def clock_radix h_def mi_def sc_def f_def)
  moreover have "h < 10 ^ 2" "mi < 10 ^ 2" "sc < 10 ^ 2" "f < 10 ^ 3" using b by simp_all
  ultimately have "parse_clock (clock_text ms)
      = Some (int (h * 3600000 + mi * 60000 + sc * 1000 + f))"
    using b by (simp only: parse_clock_def take_digits_pad expect_Cons bind.bind_lunit prod.case) simp
  then show ?thesis by (simp only: ms)
qed

lemma pad_digits: "c \<in> set (pad w n) \<Longrightarrow> 48 \<le> code_unit c \<and> code_unit c \<le> 57"
  by (induction w n rule: pad.induct) (auto simp: code_unit_char_of)

lemma hd_pad:
  assumes "0 < w"
  shows "pad w n @ r \<noteq> []" "hd (pad w n @ r) \<noteq> CHR ''+''" "hd (pad w n @ r) \<noteq> CHR ''-''"
proof -
  have ne: "pad w n \<noteq> []" using assms by (metis length_pad list.size(3) less_irrefl)
  then have "48 \<le> code_unit (hd (pad w n @ r))"
    using pad_digits [of "hd (pad w n)" w n] by simp
  then show "pad w n @ r \<noteq> []" "hd (pad w n @ r) \<noteq> CHR ''+''" "hd (pad w n @ r) \<noteq> CHR ''-''"
    using ne by (auto simp: code_unit_def)
qed

lemma parse_year_text:
  assumes "\<bar>y\<bar> < 1000000"
  shows "parse_year (year_text y @ r) = Some (y, r)"
proof -
  consider "0 \<le> y \<and> y \<le> 9999" | "y < 0" | "9999 < y" by linarith
  then show ?thesis
  proof cases
    case 1
    then have n: "nat y < 10 ^ 4" by auto
    from 1 have "year_text y = pad 4 (nat y)" by (simp add: year_text_def)
    then show ?thesis
      using 1 hd_pad [of 4 "nat y" r] by (simp only: parse_year_def take_digits_pad [OF n]) simp
  next
    case 2
    then have n: "nat (- y) < 10 ^ 6" "nat (- y) \<noteq> 0" using assms by simp_all
    from 2 have "year_text y = CHR ''-'' # pad 6 (nat (- y))" by (simp add: year_text_def)
    with 2 n(2) show ?thesis
      by (simp only: parse_year_def append_Cons list.sel take_digits_pad [OF n(1)]) simp
  next
    case 3
    then have n: "nat y < 10 ^ 6" using assms by simp
    from 3 have "year_text y = CHR ''+'' # pad 6 (nat y)" by (simp add: year_text_def)
    with 3 show ?thesis
      by (simp only: parse_year_def append_Cons list.sel take_digits_pad [OF n]) simp
  qed
qed

lemma year_of_day_range:
  assumes "\<bar>d\<bar> \<le> 100000000"
  shows "\<bar>year_of_day d\<bar> < 1000000"
proof -
  have "year_of_day d \<le> 300000"
  proof (rule ccontr)
    assume "\<not> year_of_day d \<le> 300000"
    then have "day_from_year 300000 \<le> day_from_year (year_of_day d)"
      by (intro day_from_year_mono) simp
    moreover have "day_from_year 300000 > 100000000" by (simp add: day_from_year_def)
    ultimately show False using assms year_of_day_bounds(1) [of d] by linarith
  qed
  moreover have "- 300000 \<le> year_of_day d"
  proof (rule ccontr)
    assume "\<not> - 300000 \<le> year_of_day d"
    then have "day_from_year (year_of_day d + 1) \<le> day_from_year (- 300000)"
      by (intro day_from_year_mono) simp
    moreover have "day_from_year (- 300000) < - 100000000" by (simp add: day_from_year_def)
    ultimately show False using assms year_of_day_bounds(2) [of d] by linarith
  qed
  ultimately show ?thesis by linarith
qed

lemma ms_of_day:
  fixes t :: int
  shows "0 \<le> t mod ms_per_day" "nat (t mod ms_per_day) < 86400000"
    "t div ms_per_day * ms_per_day + int (nat (t mod ms_per_day)) = t"
  by (simp_all add: ms_per_day_def nat_less_iff)

lemma date_parse_iso_text:
  assumes "\<bar>t\<bar> \<le> max_time"
  shows "date_parse (iso_text t) = Some t"
proof -
  obtain y m d where ymd: "civil_of_day (t div ms_per_day) = (y, m, d)"
    by (cases "civil_of_day (t div ms_per_day)")
  note c = civil_of_day_sound [OF ymd]
  have "\<bar>t div ms_per_day\<bar> \<le> 100000000"
    using assms zdiv_mono1 [of t 8640000000000000 86400000] zdiv_mono1 [of "- 8640000000000000" t 86400000]
    by (simp add: max_time_def ms_per_day_def abs_le_iff)
  then have y: "\<bar>y\<bar> < 1000000" using year_of_day_range c(7) by simp
  have b: "m < 10 ^ 2" "d < 10 ^ 2" using c(3,5) by simp_all
  have iso: "iso_text t = year_text y @ CHR ''-'' # pad 2 m @ CHR ''-'' # pad 2 d @ CHR ''T'' #
      clock_text (nat (t mod ms_per_day))"
    by (simp add: iso_text_def ymd)
  show ?thesis
    using assms c(2-5) ms_of_day(3) [of t]
    by (simp only: iso date_parse_def parse_year_text [OF y] take_digits_pad b expect_Cons
        bind.bind_lunit prod.case parse_clock_text ms_of_day(2) c(1) Let_def) simp
qed

corollary date_parse_to_iso_string:
  "to_iso_string (Some t) = Inr s \<Longrightarrow> date_parse s = Some t"
  by (auto simp: to_iso_string_def date_parse_iso_text split: if_splits)

lemma to_iso_string_Some: "\<bar>t\<bar> \<le> max_time \<Longrightarrow> to_iso_string (Some t) = Inr (iso_text t)"
  by (simp add: to_iso_string_def)

section \<open>Byte order of the texts\<close>

lemma div_mod_less_iff:
  fixes m n k :: nat
  assumes "0 < k"
  shows "m < n \<longleftrightarrow> m div k < n div k \<or> m div k = n div k \<and> m mod k < n mod k"
proof -
  have "m div k < n div k \<Longrightarrow> m < n"
    by (metis div_le_mono leD leI)
  moreover have "m < n \<Longrightarrow> m div k \<le> n div k" by (simp add: div_le_mono)
  moreover have "m div k = n div k \<Longrightarrow> m < n \<longleftrightarrow> m mod k < n mod k"
    by (metis div_mult_mod_eq nat_add_left_cancel_less)
  ultimately show ?thesis by (metis le_neq_implies_less)
qed

lemma div_mod_eq_iff: "m = n \<longleftrightarrow> m div k = n div k \<and> m mod k = n mod k" for m n k :: nat
  by (metis div_mult_mod_eq)

lemma pad_inject: "m < 10 ^ w \<Longrightarrow> n < 10 ^ w \<Longrightarrow> pad w m = pad w n \<longleftrightarrow> m = n"
  by (metis less_irrefl linorder_neqE_nat pad_less_iff)

text \<open>Two texts that start with numerals of the same width compare as the numbers, then the rest.\<close>

lemma pad_append_less_iff:
  "m < 10 ^ w \<Longrightarrow> n < 10 ^ w \<Longrightarrow>
     pad w m @ c # x < pad w n @ c # y \<longleftrightarrow> m < n \<or> m = n \<and> x < y"
  by (simp add: lex_less_append_same_length pad_less_iff pad_inject)

lemma clock_text_less_iff:
  assumes "m < 86400000" "n < 86400000"
  shows "clock_text m < clock_text n \<longleftrightarrow> m < n"
proof -
  have h: "m div 1000 div 60 div 60 < 10 ^ 2" "n div 1000 div 60 div 60 < 10 ^ 2"
    using assms by (simp_all add: less_mult_imp_div_less)
  have mi: "k div 1000 div 60 mod 60 < 10 ^ 2" "k div 1000 mod 60 < 10 ^ 2" "k mod 1000 < 10 ^ 3" for k :: nat
    by (simp_all add: less_trans [of _ 60])
  have "clock_text m < clock_text n \<longleftrightarrow>
      m div 1000 div 60 div 60 < n div 1000 div 60 div 60 \<or>
      m div 1000 div 60 div 60 = n div 1000 div 60 div 60 \<and>
      (m div 1000 div 60 mod 60 < n div 1000 div 60 mod 60 \<or>
       m div 1000 div 60 mod 60 = n div 1000 div 60 mod 60 \<and>
       (m div 1000 mod 60 < n div 1000 mod 60 \<or>
        m div 1000 mod 60 = n div 1000 mod 60 \<and> m mod 1000 < n mod 1000))"
    by (simp only: clock_text_def clock_radix pad_append_less_iff h mi less_irrefl simp_thms)
  also have "\<dots> \<longleftrightarrow> m < n"
    using div_mod_less_iff [of 1000 m n] div_mod_less_iff [of 60 "m div 1000" "n div 1000"]
      div_mod_less_iff [of 60 "m div 1000 div 60" "n div 1000 div 60"]
      div_mod_eq_iff [of "m div 1000" "n div 1000" 60]
      div_mod_eq_iff [of "m div 1000 div 60" "n div 1000 div 60" 60]
    by (simp only: zero_less_numeral simp_thms) blast
  finally show ?thesis .
qed

lemma civil_less:
  assumes "civil_of_day n1 = (y1, m1, d1)" "civil_of_day n2 = (y2, m2, d2)" "n1 < n2"
  shows "y1 < y2 \<or> y1 = y2 \<and> (m1 < m2 \<or> m1 = m2 \<and> d1 < d2)"
proof -
  note c1 = civil_of_day_sound [OF assms(1)] and c2 = civil_of_day_sound [OF assms(2)]
  have "\<not> y2 < y1"
  proof
    assume "y2 < y1"
    then have "day_from_year (y2 + 1) \<le> day_from_year y1" by (intro day_from_year_mono) simp
    then show False
      using year_of_day_bounds [of n1] year_of_day_bounds [of n2] assms(3) c1(7) c2(7) by simp
  qed
  moreover have "m1 \<le> m2" if y: "y1 = y2"
  proof (rule ccontr)
    assume "\<not> m1 \<le> m2"
    define L where "L = month_lengths y1"
    from \<open>\<not> m1 \<le> m2\<close> c1(3) c2(2) have i: "m2 - 1 < length L" "m2 \<le> m1 - 1" by (simp_all add: L_def)
    have "take (m1 - 1) L = take m2 L @ take (m1 - 1 - m2) (drop m2 L)"
      using i(2) by (metis le_add_diff_inverse take_add)
    moreover have "0 \<le> sum_list (take (m1 - 1 - m2) (drop m2 L))"
      by (rule sum_list_nonneg)
        (metis L_def in_set_dropD in_set_takeD less_imp_le month_length_bounds)
    moreover have "take m2 L = take (m2 - 1) L @ [L ! (m2 - 1)]"
      using i(1) c2(2) by (metis Suc_diff_1 less_eq_Suc_le take_Suc_conv_app_nth One_nat_def)
    ultimately have "sum_list (take (m2 - 1) L) + L ! (m2 - 1) \<le> sum_list (take (m1 - 1) L)"
      by simp
    then have "n2 \<le> n1 - 1"
      using c1(1,4) c2(1,6) y by (simp add: day_of_civil_def L_def)
    with assms(3) show False by simp
  qed
  moreover have "d1 < d2" if "y1 = y2" "m1 = m2"
    using c1(1) c2(1) assms(3) that by (simp add: day_of_civil_def)
  ultimately show ?thesis by linarith
qed

definition common_era :: "int \<Rightarrow> bool" where
  "common_era t \<longleftrightarrow> - 62167219200000 \<le> t \<and> t < 253402300800000"

lemma common_era_year:
  assumes "common_era t"
  shows "0 \<le> year_of_day (t div ms_per_day)" "year_of_day (t div ms_per_day) \<le> 9999"
proof -
  let ?d = "t div ms_per_day"
  have d: "- 719528 \<le> ?d" "?d < 2932897"
    using assms zdiv_mono1 [of "- 62167219200000" t 86400000]
      zdiv_mono1 [of t 253402300799999 86400000]
    by (simp_all add: common_era_def ms_per_day_def)
  show "0 \<le> year_of_day ?d"
  proof (rule ccontr)
    assume "\<not> 0 \<le> year_of_day ?d"
    then have "day_from_year (year_of_day ?d + 1) \<le> day_from_year 0"
      by (intro day_from_year_mono) simp
    with d year_of_day_bounds(2) [of ?d] show False by (simp add: day_from_year_def [of 0])
  qed
  show "year_of_day ?d \<le> 9999"
  proof (rule ccontr)
    assume "\<not> year_of_day ?d \<le> 9999"
    then have "day_from_year 10000 \<le> day_from_year (year_of_day ?d)"
      by (intro day_from_year_mono) simp
    with d year_of_day_bounds(1) [of ?d] show False by (simp add: day_from_year_def [of 10000])
  qed
qed

lemma iso_text_mono:
  assumes "common_era t" "common_era u" "t < u"
  shows "iso_text t < iso_text u"
proof -
  obtain y1 m1 d1 where a: "civil_of_day (t div ms_per_day) = (y1, m1, d1)"
    by (cases "civil_of_day (t div ms_per_day)")
  obtain y2 m2 d2 where b: "civil_of_day (u div ms_per_day) = (y2, m2, d2)"
    by (cases "civil_of_day (u div ms_per_day)")
  note c1 = civil_of_day_sound [OF a] and c2 = civil_of_day_sound [OF b]
  have y: "0 \<le> y1" "y1 \<le> 9999" "0 \<le> y2" "y2 \<le> 9999"
    using common_era_year assms c1(7) c2(7) by simp_all
  then have n: "nat y1 < 10 ^ 4" "nat y2 < 10 ^ 4" by auto
  have md: "m1 < 10 ^ 2" "m2 < 10 ^ 2" "d1 < 10 ^ 2" "d2 < 10 ^ 2"
    using c1(3,5) c2(3,5) by simp_all
  let ?c = "\<lambda>t. nat (t mod ms_per_day)"
  have iso: "iso_text t < iso_text u \<longleftrightarrow> nat y1 < nat y2 \<or> nat y1 = nat y2 \<and>
      (m1 < m2 \<or> m1 = m2 \<and> (d1 < d2 \<or> d1 = d2 \<and> clock_text (?c t) < clock_text (?c u)))"
    using y by (simp only: iso_text_def a b prod.case Let_def year_text_def if_True simp_thms
        pad_append_less_iff n md)
  show ?thesis
  proof (cases "t div ms_per_day = u div ms_per_day")
    case True
    then have "?c t < ?c u"
      using assms(3) ms_of_day [of t] ms_of_day [of u] by (metis add_less_cancel_left of_nat_less_iff)
    with True a b show ?thesis
      unfolding iso by (simp add: clock_text_less_iff ms_of_day(2))
  next
    case False
    have "t div ms_per_day \<le> u div ms_per_day"
      using assms(3) by (simp add: zdiv_mono1 ms_per_day_def)
    with False have "t div ms_per_day < u div ms_per_day" by simp
    from civil_less [OF a b this] y show ?thesis unfolding iso by auto
  qed
qed

theorem iso_text_less_iff:
  "common_era t \<Longrightarrow> common_era u \<Longrightarrow> iso_text t < iso_text u \<longleftrightarrow> t < u"
  by (metis iso_text_mono less_asym less_irrefl linorder_neqE)

corollary iso_text_le_iff:
  "common_era t \<Longrightarrow> common_era u \<Longrightarrow> iso_text t \<le> iso_text u \<longleftrightarrow> t \<le> u"
  by (metis iso_text_less_iff not_less)

lemma common_era_max_time: "common_era t \<Longrightarrow> \<bar>t\<bar> \<le> max_time"
  by (auto simp: common_era_def max_time_def)

lemma date_parse_iso_common [simp]: "common_era t \<Longrightarrow> date_parse (iso_text t) = Some t"
  by (simp add: common_era_max_time date_parse_iso_text)

lemma to_iso_common [simp]: "common_era t \<Longrightarrow> to_iso_string (Some t) = Inr (iso_text t)"
  by (simp add: common_era_max_time to_iso_string_Some)

end
