(* ===== verification/Credentials.thy ===== *)
theory Credentials
  imports JsDate
begin

text \<open>
  \<open>src/domain/account-credentials.ts\<close> and \<open>src/domain/account-keys.ts\<close>: reading credential change
  requests (with their camelCase and PascalCase aliases), KDF settings and their policies, the match
  between a request and the stored generation, revision dates, and the canonical form of an encrypted
  wrapper that the wrapper history fingerprints.

  The lemmas: what an accepted request guarantees (bounds, agreement of its two halves and of its
  aliases), that the next revision date is strictly later, and that the canonical form of a wrapper
  depends only on its type and decoded bytes.
\<close>

section \<open>Policies and KDF settings\<close>

definition authentication_hash_max_length :: nat where [parse_defs]: "authentication_hash_max_length = 4096"
definition salt_max_length :: nat where [parse_defs]: "salt_max_length = 256"
definition wrapped_user_key_max_length :: nat where [parse_defs]: "wrapped_user_key_max_length = 16384"
definition public_key_max_length :: nat where [parse_defs]: "public_key_max_length = 32768"
definition wrapped_private_key_max_length :: nat where [parse_defs]: "wrapped_private_key_max_length = 32768"

type_synonym range = "int \<times> int"

definition pbkdf2_iterations :: range where "pbkdf2_iterations = (600000, 2000000)"
definition argon2_iterations :: range where "argon2_iterations = (2, 10)"
definition argon2_memory :: range where "argon2_memory = (16, 1024)"
definition argon2_parallelism :: range where "argon2_parallelism = (1, 16)"

lemmas kdf_policy_defs =
  pbkdf2_iterations_def argon2_iterations_def argon2_memory_def argon2_parallelism_def

definition inside_range :: "int \<Rightarrow> range \<Rightarrow> bool" where
  "inside_range value r \<longleftrightarrow> fst r \<le> value \<and> value \<le> snd r"

text \<open>\<open>kdfType\<close> 0 and 1.\<close>

datatype kdf_type = Pbkdf2 | Argon2id

record account_kdf =
  kdf_type :: kdf_type
  kdf_iterations :: int
  kdf_memory :: "int option"
  kdf_parallelism :: "int option"

record credential_generation =
  g_email_normalized :: string
  g_kdf_algorithm :: string
  g_kdf_iterations :: int
  g_kdf_memory :: "int option"
  g_kdf_parallelism :: "int option"

definition is_structurally_valid_kdf :: "account_kdf \<Rightarrow> bool" where
  "is_structurally_valid_kdf k \<longleftrightarrow>
     safe_int (kdf_iterations k) \<and> 1 \<le> kdf_iterations k \<and>
     (case kdf_type k of
        Pbkdf2 \<Rightarrow> kdf_memory k = None \<and> kdf_parallelism k = None
      | Argon2id \<Rightarrow>
          (case (kdf_memory k, kdf_parallelism k) of
             (Some m, Some p) \<Rightarrow> safe_int m \<and> 1 \<le> m \<and> safe_int p \<and> 1 \<le> p
           | _ \<Rightarrow> False))"

definition is_kdf_within_mutation_policy :: "account_kdf \<Rightarrow> bool" where
  "is_kdf_within_mutation_policy k \<longleftrightarrow>
     (case kdf_type k of
        Pbkdf2 \<Rightarrow> inside_range (kdf_iterations k) pbkdf2_iterations
      | Argon2id \<Rightarrow>
          (case (kdf_memory k, kdf_parallelism k) of
             (Some m, Some p) \<Rightarrow>
               inside_range (kdf_iterations k) argon2_iterations \<and>
               inside_range m argon2_memory \<and> inside_range p argon2_parallelism
           | _ \<Rightarrow> False))"

definition equal_kdf :: "account_kdf \<Rightarrow> account_kdf \<Rightarrow> bool" where
  "equal_kdf l r \<longleftrightarrow>
     kdf_type l = kdf_type r \<and> kdf_iterations l = kdf_iterations r \<and>
     kdf_memory l = kdf_memory r \<and> kdf_parallelism l = kdf_parallelism r"

lemma equal_kdf_iff: "equal_kdf l r \<longleftrightarrow> l = (r :: account_kdf)"
  by (auto simp: equal_kdf_def)

definition kdf_type_for_stored_algorithm :: "string \<Rightarrow> kdf_type option" where
  "kdf_type_for_stored_algorithm algorithm =
     (if algorithm = ''pbkdf2-sha256'' then Some Pbkdf2
      else if algorithm = ''argon2id'' then Some Argon2id
      else None)"

fun kdf_algorithm_for_type :: "kdf_type \<Rightarrow> string" where
  "kdf_algorithm_for_type Pbkdf2 = ''pbkdf2-sha256''"
| "kdf_algorithm_for_type Argon2id = ''argon2id''"

definition kdf_from_stored_generation :: "credential_generation \<Rightarrow> account_kdf option" where
  "kdf_from_stored_generation g =
     (case kdf_type_for_stored_algorithm (g_kdf_algorithm g) of
        None \<Rightarrow> None
      | Some t \<Rightarrow>
          let kdf = \<lparr>kdf_type = t, kdf_iterations = g_kdf_iterations g, kdf_memory = g_kdf_memory g,
                     kdf_parallelism = g_kdf_parallelism g\<rparr>
          in if is_structurally_valid_kdf kdf then Some kdf else None)"

text \<open>Storing valid settings and reading them back.\<close>

lemma stored_generation_roundtrip:
  "is_structurally_valid_kdf k \<Longrightarrow>
     kdf_from_stored_generation
       \<lparr>g_email_normalized = e, g_kdf_algorithm = kdf_algorithm_for_type (kdf_type k),
        g_kdf_iterations = kdf_iterations k, g_kdf_memory = kdf_memory k,
        g_kdf_parallelism = kdf_parallelism k\<rparr> = Some k"
  by (cases k; cases "kdf_type k")
    (simp_all add: kdf_from_stored_generation_def kdf_type_for_stored_algorithm_def Let_def)

lemma kdf_from_stored_generation_valid:
  "kdf_from_stored_generation g = Some k \<Longrightarrow> is_structurally_valid_kdf k"
  by (auto simp: kdf_from_stored_generation_def Let_def split: option.splits if_splits)

section \<open>Aliased fields\<close>

text \<open>
  \<open>Object.is\<close> of two properties of a parsed body: distinct properties never hold the same object, so
  two objects or arrays are always different.
\<close>

fun object_is :: "json \<Rightarrow> json \<Rightarrow> bool" where
  "object_is (JObj _) _ \<longleftrightarrow> False"
| "object_is (JArr _) _ \<longleftrightarrow> False"
| "object_is v w \<longleftrightarrow> v = w"

datatype aliased = Absent | Conflicting | Present json

definition read_aliased_value :: "(string \<times> json) list \<Rightarrow> string list \<Rightarrow> aliased" where
  "read_aliased_value obj names =
     (case List.map_filter (jprop obj) names of
        [] \<Rightarrow> Absent
      | v # vs \<Rightarrow> if list_ex (\<lambda>w. \<not> object_is w v) vs then Conflicting else Present v)"

definition read_nullable_alternative_value :: "(string \<times> json) list \<Rightarrow> string list \<Rightarrow> aliased" where
  "read_nullable_alternative_value obj names =
     (case read_aliased_value obj names of Present JNull \<Rightarrow> Absent | a \<Rightarrow> a)"

definition parse_bounded_string :: "json \<Rightarrow> nat \<Rightarrow> string option" where
  "parse_bounded_string v max_length =
     (case v of
        JStr s \<Rightarrow>
          if s = '''' \<or> length s > max_length \<or> js_trim s \<noteq> s \<or> list_ex is_control s
          then None else Some s
      | _ \<Rightarrow> None)"

definition parse_aliased_bounded_string ::
    "(string \<times> json) list \<Rightarrow> string list \<Rightarrow> nat \<Rightarrow> string option" where
  "parse_aliased_bounded_string obj names max_length =
     (case read_aliased_value obj names of Present v \<Rightarrow> parse_bounded_string v max_length | _ \<Rightarrow> None)"

text \<open>What the opaque strings of the accepted requests satisfy.\<close>

definition clean_string :: "nat \<Rightarrow> string \<Rightarrow> bool" where
  "clean_string max_length s \<longleftrightarrow>
     s \<noteq> '''' \<and> length s \<le> max_length \<and> js_trim s = s \<and> (\<forall>c \<in> set s. \<not> is_control c)"

lemma parse_bounded_string_Some:
  "parse_bounded_string v n = Some s \<longleftrightarrow> v = JStr s \<and> clean_string n s"
  by (auto simp: parse_bounded_string_def clean_string_def list_ex_iff split: json.splits)

lemma parse_bounded_string_JStr:
  "parse_bounded_string (JStr s) n = (if clean_string n s then Some s else None)"
  by (auto simp: parse_bounded_string_def clean_string_def list_ex_iff)

lemma in_set_map_filter: "w \<in> set (List.map_filter f xs) \<longleftrightarrow> (\<exists>x \<in> set xs. f x = Some w)"
  by (induction xs) (auto simp: List.map_filter_simps split: option.splits)

lemma read_aliased_value_Present:
  assumes "read_aliased_value obj names = Present v"
  shows "\<exists>n \<in> set names. jprop obj n = Some v"
    "\<forall>n \<in> set names. \<forall>w. jprop obj n = Some w \<longrightarrow> w = v \<or> object_is w v"
proof -
  from assms obtain vs where vs: "List.map_filter (jprop obj) names = v # vs" "\<forall>w \<in> set vs. object_is w v"
    by (auto simp: read_aliased_value_def list_ex_iff split: list.splits if_splits)
  then have s: "insert v (set vs) = {w. \<exists>n \<in> set names. jprop obj n = Some w}"
    by (simp only: set_eq_iff list.set(2) [symmetric] vs(1) [symmetric] in_set_map_filter mem_Collect_eq)
      simp
  from s show "\<exists>n \<in> set names. jprop obj n = Some v" by blast
  from s vs(2) show "\<forall>n \<in> set names. \<forall>w. jprop obj n = Some w \<longrightarrow> w = v \<or> object_is w v" by blast
qed

lemma object_is_eq: "object_is v w \<Longrightarrow> v = w"
  by (cases v; cases w) auto

lemma parse_aliased_bounded_string_Some:
  assumes "parse_aliased_bounded_string obj names n = Some s"
  shows "clean_string n s" "\<exists>k \<in> set names. jprop obj k = Some (JStr s)"
    "\<forall>k \<in> set names. \<forall>w. jprop obj k = Some w \<longrightarrow> w = JStr s"
  using assms read_aliased_value_Present [of obj names "JStr s"] object_is_eq
  by (auto simp: parse_aliased_bounded_string_def parse_bounded_string_Some split: aliased.splits)

section \<open>KDF settings in a request\<close>

definition parse_aliased_integer :: "(string \<times> json) list \<Rightarrow> string list \<Rightarrow> int option" where
  "parse_aliased_integer obj names =
     (case read_aliased_value obj names of
        Present (JNum n) \<Rightarrow> if num_is_safe_integer n then Some (num_int n) else None
      | _ \<Rightarrow> None)"

text \<open>\<open>None\<close> is \<open>undefined\<close> (malformed), \<open>Some None\<close> is \<open>null\<close>.\<close>

definition parse_nullable_aliased_integer ::
    "(string \<times> json) list \<Rightarrow> string list \<Rightarrow> int option option" where
  "parse_nullable_aliased_integer obj names =
     (case read_aliased_value obj names of
        Conflicting \<Rightarrow> None
      | Absent \<Rightarrow> Some None
      | Present JNull \<Rightarrow> Some None
      | Present (JNum n) \<Rightarrow> if num_is_safe_integer n then Some (Some (num_int n)) else None
      | Present _ \<Rightarrow> None)"

definition parse_kdf :: "json \<Rightarrow> account_kdf option" where
  "parse_kdf v =
     (case as_record v of
        None \<Rightarrow> None
      | Some obj \<Rightarrow>
          let type_code = parse_aliased_integer obj [''kdfType'', ''KdfType''];
              iterations = parse_aliased_integer obj [''iterations'', ''Iterations''];
              memory = parse_nullable_aliased_integer obj [''memory'', ''Memory''];
              parallelism = parse_nullable_aliased_integer obj [''parallelism'', ''Parallelism'']
          in if type_code \<noteq> Some 0 \<and> type_code \<noteq> Some 1 then None
             else (case (iterations, memory, parallelism) of
                     (Some it, Some mem, Some par) \<Rightarrow>
                       let kdf = \<lparr>kdf_type = (if type_code = Some 0 then Pbkdf2 else Argon2id),
                                  kdf_iterations = it, kdf_memory = mem, kdf_parallelism = par\<rparr>
                       in if is_structurally_valid_kdf kdf then Some kdf else None
                   | _ \<Rightarrow> None))"

definition parse_aliased_kdf :: "(string \<times> json) list \<Rightarrow> account_kdf option" where
  "parse_aliased_kdf obj =
     (case read_aliased_value obj [''kdf'', ''Kdf''] of Present v \<Rightarrow> parse_kdf v | _ \<Rightarrow> None)"

lemma parse_kdf_valid: "parse_kdf v = Some k \<Longrightarrow> is_structurally_valid_kdf k"
  by (auto simp: parse_kdf_def Let_def split: option.splits if_splits)

lemma parse_aliased_kdf_valid: "parse_aliased_kdf obj = Some k \<Longrightarrow> is_structurally_valid_kdf k"
  by (auto simp: parse_aliased_kdf_def parse_kdf_valid split: aliased.splits)

section \<open>Change requests\<close>

record structured_change =
  sc_next_master_password_hash :: string
  sc_next_user_key :: string
  sc_salt :: string
  sc_kdf :: account_kdf

definition parse_structured_password_change :: "json \<Rightarrow> json \<Rightarrow> structured_change option" where
  "parse_structured_password_change authentication_value unlock_value =
     (case (as_record authentication_value, as_record unlock_value) of
        (Some auth, Some unlock) \<Rightarrow>
          (case (parse_aliased_kdf auth, parse_aliased_kdf unlock,
                 parse_aliased_bounded_string auth [''salt'', ''Salt''] salt_max_length,
                 parse_aliased_bounded_string unlock [''salt'', ''Salt''] salt_max_length,
                 parse_aliased_bounded_string auth
                   [''masterPasswordAuthenticationHash'', ''MasterPasswordAuthenticationHash'']
                   authentication_hash_max_length,
                 parse_aliased_bounded_string unlock
                   [''masterKeyWrappedUserKey'', ''MasterKeyWrappedUserKey'']
                   wrapped_user_key_max_length) of
             (Some auth_kdf, Some unlock_kdf, Some auth_salt, Some unlock_salt, Some hash, Some key) \<Rightarrow>
               if equal_kdf auth_kdf unlock_kdf \<and> auth_salt = unlock_salt
               then Some \<lparr>sc_next_master_password_hash = hash, sc_next_user_key = key,
                          sc_salt = auth_salt, sc_kdf = auth_kdf\<rparr>
               else None
           | _ \<Rightarrow> None)
      | _ \<Rightarrow> None)"

text \<open>\<open>{ ok: true, masterPasswordHash }\<close> or \<open>{ ok: false }\<close>.\<close>

definition parse_current_password_proof_body :: "json \<Rightarrow> string option" where
  "parse_current_password_proof_body body =
     (case as_record body of
        None \<Rightarrow> None
      | Some obj \<Rightarrow>
          if jprop obj ''otp'' \<noteq> None \<or> jprop obj ''Otp'' \<noteq> None \<or> jprop obj ''OTP'' \<noteq> None
             \<or> jprop obj ''authRequestAccessCode'' \<noteq> None \<or> jprop obj ''AuthRequestAccessCode'' \<noteq> None
          then None
          else parse_aliased_bounded_string obj [''masterPasswordHash'', ''MasterPasswordHash'']
                 authentication_hash_max_length)"

definition parse_security_stamp_rotation_body :: "json \<Rightarrow> string option" where
  "parse_security_stamp_rotation_body body = parse_current_password_proof_body body"

definition has_supported_password_hint :: "(string \<times> json) list \<Rightarrow> bool" where
  "has_supported_password_hint obj \<longleftrightarrow>
     (case read_aliased_value obj [''masterPasswordHint'', ''MasterPasswordHint''] of
        Absent \<Rightarrow> True
      | Conflicting \<Rightarrow> False
      | Present v \<Rightarrow> v = JNull \<or> v = JStr '''')"

datatype change_variant = Structured | Legacy | Dual

record password_change_request =
  pc_current_master_password_hash :: string
  pc_next_master_password_hash :: string
  pc_next_user_key :: string
  pc_credential_metadata :: "(string \<times> account_kdf) option"
  pc_variant :: change_variant

text \<open>
  The four alternatives are read first; a request is rejected unless each half comes complete and at
  least one does, and when both come they must say the same.
\<close>

definition parse_master_password_change_body :: "json \<Rightarrow> password_change_request option" where
  "parse_master_password_change_body body =
     (case as_record body of
        None \<Rightarrow> None
      | Some obj \<Rightarrow>
          if \<not> has_supported_password_hint obj then None
          else (case parse_aliased_bounded_string obj [''masterPasswordHash'', ''MasterPasswordHash'']
                       authentication_hash_max_length of
                  None \<Rightarrow> None
                | Some current \<Rightarrow>
                    let auth = read_nullable_alternative_value obj [''authenticationData'', ''AuthenticationData''];
                        unlock = read_nullable_alternative_value obj [''unlockData'', ''UnlockData''];
                        lhash = read_nullable_alternative_value obj [''newMasterPasswordHash'', ''NewMasterPasswordHash''];
                        lkey = read_nullable_alternative_value obj [''key'', ''Key'']
                    in if auth = Conflicting \<or> unlock = Conflicting \<or> lhash = Conflicting \<or> lkey = Conflicting
                          \<or> (auth \<noteq> Absent) \<noteq> (unlock \<noteq> Absent) \<or> (lhash \<noteq> Absent) \<noteq> (lkey \<noteq> Absent)
                          \<or> auth = Absent \<and> lhash = Absent
                       then None
                       else let structured = (case (auth, unlock) of
                                   (Present a, Present u) \<Rightarrow> parse_structured_password_change a u | _ \<Rightarrow> None);
                                legacy_hash = (case lhash of
                                   Present h \<Rightarrow> parse_bounded_string h authentication_hash_max_length | _ \<Rightarrow> None);
                                legacy_key = (case lkey of
                                   Present k \<Rightarrow> parse_bounded_string k wrapped_user_key_max_length | _ \<Rightarrow> None)
                            in if auth \<noteq> Absent \<and> structured = None then None
                               else if lhash \<noteq> Absent \<and> (legacy_hash = None \<or> legacy_key = None) then None
                               else (case (structured, legacy_hash, legacy_key) of
                                  (Some s, Some h, Some k) \<Rightarrow>
                                    if sc_next_master_password_hash s \<noteq> h \<or> sc_next_user_key s \<noteq> k then None
                                    else Some \<lparr>pc_current_master_password_hash = current,
                                       pc_next_master_password_hash = sc_next_master_password_hash s,
                                       pc_next_user_key = sc_next_user_key s,
                                       pc_credential_metadata = Some (sc_salt s, sc_kdf s), pc_variant = Dual\<rparr>
                                | (Some s, _, _) \<Rightarrow>
                                    Some \<lparr>pc_current_master_password_hash = current,
                                       pc_next_master_password_hash = sc_next_master_password_hash s,
                                       pc_next_user_key = sc_next_user_key s,
                                       pc_credential_metadata = Some (sc_salt s, sc_kdf s), pc_variant = Structured\<rparr>
                                | (None, Some h, Some k) \<Rightarrow>
                                    Some \<lparr>pc_current_master_password_hash = current,
                                       pc_next_master_password_hash = h, pc_next_user_key = k,
                                       pc_credential_metadata = None, pc_variant = Legacy\<rparr>
                                | _ \<Rightarrow> None)))"

record kdf_change_request =
  kc_current_master_password_hash :: string
  kc_next_master_password_hash :: string
  kc_next_user_key :: string
  kc_salt :: string
  kc_kdf :: account_kdf

definition parse_kdf_change_body :: "json \<Rightarrow> kdf_change_request option" where
  "parse_kdf_change_body body =
     (case (parse_current_password_proof_body body, as_record body) of
        (Some current, Some obj) \<Rightarrow>
          (case (read_aliased_value obj [''authenticationData'', ''AuthenticationData''],
                 read_aliased_value obj [''unlockData'', ''UnlockData'']) of
             (Present a, Present u) \<Rightarrow>
               (case parse_structured_password_change a u of
                  None \<Rightarrow> None
                | Some s \<Rightarrow>
                    if is_kdf_within_mutation_policy (sc_kdf s)
                    then Some \<lparr>kc_current_master_password_hash = current,
                               kc_next_master_password_hash = sc_next_master_password_hash s,
                               kc_next_user_key = sc_next_user_key s,
                               kc_salt = sc_salt s, kc_kdf = sc_kdf s\<rparr>
                    else None)
           | _ \<Rightarrow> None)
      | _ \<Rightarrow> None)"

definition matches_password_change_credential_generation ::
    "password_change_request \<Rightarrow> credential_generation \<Rightarrow> bool" where
  "matches_password_change_credential_generation request g \<longleftrightarrow>
     (case pc_credential_metadata request of
        None \<Rightarrow> True
      | Some (salt, kdf) \<Rightarrow>
          (case kdf_from_stored_generation g of
             None \<Rightarrow> False
           | Some stored \<Rightarrow> salt = g_email_normalized g \<and> equal_kdf kdf stored))"

definition matches_kdf_change_credential_generation ::
    "kdf_change_request \<Rightarrow> credential_generation \<Rightarrow> bool" where
  "matches_kdf_change_credential_generation request g \<longleftrightarrow>
     kc_salt request = g_email_normalized g \<and> kdf_from_stored_generation g \<noteq> None"

definition next_credential_revision_date :: "string \<Rightarrow> string \<Rightarrow> js_error + string" where
  "next_credential_revision_date current_revision_date candidate_revision_date =
     (case (date_parse current_revision_date, date_parse candidate_revision_date) of
        (Some current, Some candidate) \<Rightarrow> to_iso_string (Some (max candidate (current + 1)))
      | _ \<Rightarrow> Inl (JsError ''credential revision dates must be valid''))"

section \<open>Fingerprints of credential wrappers\<close>

definition enc_string_part_counts :: "(string \<times> nat) list" where
  "enc_string_part_counts =
     [(''0'', 2), (''1'', 3), (''2'', 3), (''3'', 1), (''4'', 1), (''5'', 2), (''6'', 2), (''7'', 1)]"

definition base64_sextet :: "nat \<Rightarrow> nat" where
  "base64_sextet code_point =
     (if 65 \<le> code_point \<and> code_point \<le> 90 then code_point - 65
      else if 97 \<le> code_point \<and> code_point \<le> 122 then code_point - 71
      else if 48 \<le> code_point \<and> code_point \<le> 57 then code_point + 4
      else if code_point = 43 then 62 else 63)"

definition is_base64_char :: "char \<Rightarrow> bool" where
  "is_base64_char c \<longleftrightarrow>
     (let n = code_unit c
      in (65 \<le> n \<and> n \<le> 90) \<or> (97 \<le> n \<and> n \<le> 122) \<or> (48 \<le> n \<and> n \<le> 57) \<or> n = 43 \<or> n = 47)"

text \<open>One round of the decoding loop: the accumulator, the number of its bits, the bytes so far.\<close>

fun decode_step :: "char \<Rightarrow> nat \<times> nat \<times> nat list \<Rightarrow> nat \<times> nat \<times> nat list" where
  "decode_step c (accumulator, bit_count, decoded) =
     (let acc = push_bit 6 accumulator OR base64_sextet (code_unit c); n = bit_count + 6
      in if n < 8 then (acc, n, decoded)
         else (acc AND (push_bit (n - 8) 1 - 1), n - 8, decoded @ [drop_bit (n - 8) acc AND 255]))"

definition decode_enc_string_base64 :: "string \<Rightarrow> nat list option" where
  "decode_enc_string_base64 value =
     (let unpadded = strip_padding value
      in if CHR ''='' \<in> set unpadded \<or> length unpadded mod 4 = 1 \<or> \<not> list_all is_base64_char unpadded
         then None
         else Some (snd (snd (fold decode_step unpadded (0, 0, [])))))"

text \<open>The type and the decoded parts of a wrapper that is an encrypted string of a known type.\<close>

definition enc_string_parts :: "string \<Rightarrow> (string \<times> nat list list) option" where
  "enc_string_parts value =
     (let typed =
        (case js_split (CHR ''.'') value of
           [v] \<Rightarrow>
             (let parts = js_split (CHR ''|'') v
              in if length parts = 2 then Some (''0'', parts)
                 else if length parts = 3 then Some (''1'', parts) else None)
         | [raw_type, rest] \<Rightarrow>
             if raw_type = [] \<or> map_of enc_string_part_counts raw_type = None then None
             else Some (raw_type, js_split (CHR ''|'') rest)
         | _ \<Rightarrow> None)
      in case typed of
           None \<Rightarrow> None
         | Some (encryption_type, encoded_parts) \<Rightarrow>
             if map_of enc_string_part_counts encryption_type \<noteq> Some (length encoded_parts) then None
             else (let decoded = map decode_enc_string_base64 encoded_parts
                   in if None \<in> set decoded then None else Some (encryption_type, map the decoded)))"

definition canonicalize_enc_string :: "string \<Rightarrow> string option" where
  "canonicalize_enc_string value =
     map_option (\<lambda>(encryption_type, decoded_parts).
         js_join (CHR '':'')
           (encryption_type # map (\<lambda>part. decimal (length part) @ CHR '':'' # bytes_to_hex part) decoded_parts))
       (enc_string_parts value)"

definition canonical_credential_wrapper_fingerprint_input :: "string \<Rightarrow> string" where
  "canonical_credential_wrapper_fingerprint_input value =
     (case canonicalize_enc_string value of
        None \<Rightarrow> ''opaque-v1:'' @ value
      | Some c \<Rightarrow> ''enc-string-v1:'' @ c)"

text \<open>\<open>crypto.subtle.digest\<close> is a parameter.\<close>

definition fingerprint_credential_wrapper :: "(nat list \<Rightarrow> nat list) \<Rightarrow> string \<Rightarrow> string" where
  "fingerprint_credential_wrapper sha256 value =
     bytes_to_hex (sha256 (utf8_encode (canonical_credential_wrapper_fingerprint_input value)))"

lemma and_255_less: "(n :: nat) AND 255 < 256"
proof -
  have "n AND 255 = take_bit 8 n" by (simp add: take_bit_eq_mask mask_eq_exp_minus_1)
  then show ?thesis by (simp add: take_bit_nat_def)
qed

lemma decode_step_bytes:
  "\<forall>b \<in> set (snd (snd st)). b < 256 \<Longrightarrow> \<forall>b \<in> set (snd (snd (decode_step c st))). b < 256"
  by (cases st) (simp add: Let_def and_255_less del: drop_bit_or)

lemma decode_fold_bytes:
  "\<forall>b \<in> set (snd (snd st)). b < 256 \<Longrightarrow> \<forall>b \<in> set (snd (snd (fold decode_step s st))). b < 256"
proof (induction s arbitrary: st)
  case (Cons c s)
  from Cons.IH [OF decode_step_bytes [OF Cons.prems]] show ?case by simp
qed simp

lemma decode_bytes: "decode_enc_string_base64 v = Some bs \<Longrightarrow> \<forall>b \<in> set bs. b < 256"
  using decode_fold_bytes [of "(0, 0, [])" "strip_padding v"]
  by (auto simp: decode_enc_string_base64_def Let_def split: if_splits)

text \<open>The decoded bytes fit the array the code allocates: \<open>floor(6 * length / 8)\<close> of them.\<close>

lemma decode_fold_length:
  "n < 8 \<Longrightarrow> even n \<Longrightarrow>
     8 * length (snd (snd (fold decode_step s (a, n, bs)))) + fst (snd (fold decode_step s (a, n, bs)))
       = 8 * length bs + n + 6 * length s
     \<and> fst (snd (fold decode_step s (a, n, bs))) < 8"
proof (induction s arbitrary: a n bs)
  case (Cons c s)
  then show ?case
    using Cons.IH [of "n + 6"] Cons.IH [of "n + 6 - 8"] by (auto simp: Let_def)
qed simp

lemma length_decode:
  assumes "decode_enc_string_base64 v = Some bs"
  shows "length bs = 6 * length (strip_padding v) div 8"
proof -
  have "bs = snd (snd (fold decode_step (strip_padding v) (0, 0, [])))"
    using assms by (simp add: decode_enc_string_base64_def Let_def split: if_splits)
  with decode_fold_length [of 0 "strip_padding v" 0 "[]"] show ?thesis by auto
qed

lemma enc_string_parts_facts:
  assumes "enc_string_parts v = Some (t, ps)"
  shows "map_of enc_string_part_counts t = Some (length ps)" "\<forall>p \<in> set ps. \<forall>b \<in> set p. b < 256"
proof -
  from assms obtain parts where parts: "map_of enc_string_part_counts t = Some (length parts)"
    "None \<notin> set (map decode_enc_string_base64 parts)" "ps = map the (map decode_enc_string_base64 parts)"
    unfolding enc_string_parts_def Let_def by (simp split: option.splits prod.splits if_splits)
  from parts(1,3) show "map_of enc_string_part_counts t = Some (length ps)" by simp
  show "\<forall>p \<in> set ps. \<forall>b \<in> set p. b < 256"
  proof
    fix p
    assume "p \<in> set ps"
    with parts(2,3) obtain q where "decode_enc_string_base64 q = Some p"
      by (fastforce simp: image_iff)
    then show "\<forall>b \<in> set p. b < 256" by (rule decode_bytes)
  qed
qed

lemma known_type_no_colon: "map_of enc_string_part_counts t = Some n \<Longrightarrow> CHR '':'' \<notin> set t"
  by (auto simp: enc_string_part_counts_def split: if_splits)

text \<open>The pieces between the colons of a canonical form.\<close>

definition canonical_pieces :: "string \<Rightarrow> nat list list \<Rightarrow> string list" where
  "canonical_pieces t ps = t # concat (map (\<lambda>p. [decimal (length p), bytes_to_hex p]) ps)"

lemma js_join_pieces:
  "js_join (CHR '':'') (t # map (\<lambda>p. decimal (length p) @ CHR '':'' # bytes_to_hex p) ps)
     = js_join (CHR '':'') (canonical_pieces t ps)"
proof (induction ps arbitrary: t)
  case (Cons p ps)
  have "js_join (CHR '':'') ((decimal (length p) @ CHR '':'' # bytes_to_hex p) #
          map (\<lambda>p. decimal (length p) @ CHR '':'' # bytes_to_hex p) ps)
      = decimal (length p) @ CHR '':'' # js_join (CHR '':'')
          (bytes_to_hex p # map (\<lambda>p. decimal (length p) @ CHR '':'' # bytes_to_hex p) ps)"
    by (cases ps) simp_all
  with Cons.IH [of "bytes_to_hex p"] show ?case by (simp add: canonical_pieces_def)
qed (simp add: canonical_pieces_def)

lemma canonical_pieces_inject:
  "\<forall>p \<in> set ps. \<forall>b \<in> set p. b < 256 \<Longrightarrow> \<forall>p \<in> set qs. \<forall>b \<in> set p. b < 256 \<Longrightarrow>
     canonical_pieces t ps = canonical_pieces u qs \<longleftrightarrow> t = u \<and> ps = qs"
proof (induction ps arbitrary: qs)
  case Nil
  then show ?case by (cases qs) (auto simp: canonical_pieces_def)
next
  case (Cons p ps)
  then show ?case
    by (cases qs) (auto simp: canonical_pieces_def bytes_to_hex_inject)
qed

lemma canonical_pieces_no_colon:
  assumes "enc_string_parts v = Some (t, ps)"
  shows "\<forall>s \<in> set (canonical_pieces t ps). CHR '':'' \<notin> set s"
  using enc_string_parts_facts [OF assms] known_type_no_colon decimal_chars bytes_to_hex_chars
  by (fastforce simp: canonical_pieces_def)

lemma canonicalize_eq_iff:
  assumes "enc_string_parts v = Some (t, ps)" "enc_string_parts w = Some (u, qs)"
  shows "canonicalize_enc_string v = canonicalize_enc_string w \<longleftrightarrow> t = u \<and> ps = qs"
proof -
  have "canonicalize_enc_string v = canonicalize_enc_string w
      \<longleftrightarrow> js_join (CHR '':'') (canonical_pieces t ps) = js_join (CHR '':'') (canonical_pieces u qs)"
    by (simp add: canonicalize_enc_string_def assms js_join_pieces)
  also have "\<dots> \<longleftrightarrow> canonical_pieces t ps = canonical_pieces u qs"
    using canonical_pieces_no_colon assms by (intro js_join_inject) (simp_all add: canonical_pieces_def)
  also have "\<dots> \<longleftrightarrow> t = u \<and> ps = qs"
    using enc_string_parts_facts(2) assms by (intro canonical_pieces_inject) auto
  finally show ?thesis .
qed

section \<open>Account key pairs\<close>

record account_key_pair =
  kp_public_key :: string
  kp_wrapped_private_key :: string

datatype account_key_state = KeysMissing | KeysComplete account_key_pair | KeysInvalid

definition account_key_request_fields :: "string list" where
  "account_key_request_fields =
     [''publicKey'', ''PublicKey'', ''encryptedPrivateKey'', ''EncryptedPrivateKey'']"

definition parse_aliased_opaque_string ::
    "(string \<times> json) list \<Rightarrow> string list \<Rightarrow> nat \<Rightarrow> string option" where
  "parse_aliased_opaque_string obj names max_length =
     (case List.map_filter (jprop obj) names of
        [] \<Rightarrow> None
      | v # vs \<Rightarrow> if list_ex (\<lambda>w. \<not> object_is w v) vs then None else parse_bounded_string v max_length)"

definition parse_account_key_initialization_body :: "json \<Rightarrow> account_key_pair option" where
  "parse_account_key_initialization_body body =
     (case as_record body of
        None \<Rightarrow> None
      | Some obj \<Rightarrow>
          if list_ex (\<lambda>(field, _). field \<notin> set account_key_request_fields) obj then None
          else (case (parse_aliased_opaque_string obj [''publicKey'', ''PublicKey''] public_key_max_length,
                      parse_aliased_opaque_string obj [''encryptedPrivateKey'', ''EncryptedPrivateKey'']
                        wrapped_private_key_max_length) of
                  (Some pk, Some sk) \<Rightarrow> Some \<lparr>kp_public_key = pk, kp_wrapped_private_key = sk\<rparr>
                | _ \<Rightarrow> None))"

text \<open>A stored or submitted key that is not a string is read as \<open>JNull\<close>.\<close>

definition parse_opaque_option :: "string option \<Rightarrow> nat \<Rightarrow> string option" where
  "parse_opaque_option v max_length =
     (case v of None \<Rightarrow> None | Some s \<Rightarrow> parse_bounded_string (JStr s) max_length)"

definition classify_account_key_state :: "string option \<Rightarrow> string option \<Rightarrow> account_key_state" where
  "classify_account_key_state public_key private_key =
     (if public_key = None \<and> private_key = None then KeysMissing
      else (case (parse_opaque_option public_key public_key_max_length,
                  parse_opaque_option private_key wrapped_private_key_max_length) of
              (Some pk, Some sk) \<Rightarrow> KeysComplete \<lparr>kp_public_key = pk, kp_wrapped_private_key = sk\<rparr>
            | _ \<Rightarrow> KeysInvalid))"

definition account_key_pairs_equal :: "account_key_pair \<Rightarrow> account_key_pair \<Rightarrow> bool" where
  "account_key_pairs_equal left right \<longleftrightarrow>
     constant_time_equal (kp_public_key left) (kp_public_key right) \<and>
     constant_time_equal (kp_wrapped_private_key left) (kp_wrapped_private_key right)"

lemma parse_aliased_opaque_string_eq:
  "parse_aliased_opaque_string obj names n = parse_aliased_bounded_string obj names n"
  by (auto simp: parse_aliased_opaque_string_def parse_aliased_bounded_string_def read_aliased_value_def
      split: list.splits)

lemma account_key_pairs_equal_iff: "account_key_pairs_equal a b \<longleftrightarrow> a = (b :: account_key_pair)"
  by (auto simp: account_key_pairs_equal_def constant_time_equal_iff)

text \<open>A submitted pair that is accepted classifies as complete once it is stored.\<close>

lemma parsed_keys_classify_complete:
  assumes "parse_account_key_initialization_body body = Some kp"
  shows "classify_account_key_state (Some (kp_public_key kp)) (Some (kp_wrapped_private_key kp)) = KeysComplete kp"
proof -
  from assms obtain obj where
    "parse_aliased_bounded_string obj [''publicKey'', ''PublicKey''] public_key_max_length = Some (kp_public_key kp)"
    "parse_aliased_bounded_string obj [''encryptedPrivateKey'', ''EncryptedPrivateKey'']
       wrapped_private_key_max_length = Some (kp_wrapped_private_key kp)"
    by (auto simp: parse_account_key_initialization_body_def parse_aliased_opaque_string_eq
        split: option.splits if_splits)
  then show ?thesis
    by (auto dest!: parse_aliased_bounded_string_Some(1)
        simp: classify_account_key_state_def parse_opaque_option_def parse_bounded_string_Some
        split: option.splits dest: parse_bounded_string_Some [THEN iffD2, OF conjI, OF refl])
qed

section \<open>Properties\<close>

lemma structured_change_facts:
  assumes "parse_structured_password_change a u = Some s"
  shows "clean_string authentication_hash_max_length (sc_next_master_password_hash s)"
    "clean_string wrapped_user_key_max_length (sc_next_user_key s)"
    "clean_string salt_max_length (sc_salt s)"
    "is_structurally_valid_kdf (sc_kdf s)"
proof -
  from assms obtain auth unlock where s:
    "parse_aliased_kdf auth = Some (sc_kdf s)"
    "parse_aliased_bounded_string auth [''salt'', ''Salt''] salt_max_length = Some (sc_salt s)"
    "parse_aliased_bounded_string auth
       [''masterPasswordAuthenticationHash'', ''MasterPasswordAuthenticationHash'']
       authentication_hash_max_length = Some (sc_next_master_password_hash s)"
    "parse_aliased_bounded_string unlock [''masterKeyWrappedUserKey'', ''MasterKeyWrappedUserKey'']
       wrapped_user_key_max_length = Some (sc_next_user_key s)"
    by (auto simp: parse_structured_password_change_def split: option.splits if_splits)
  from s show "clean_string authentication_hash_max_length (sc_next_master_password_hash s)"
    "clean_string wrapped_user_key_max_length (sc_next_user_key s)"
    "clean_string salt_max_length (sc_salt s)"
    "is_structurally_valid_kdf (sc_kdf s)"
    by (auto intro: parse_aliased_bounded_string_Some(1) parse_aliased_kdf_valid)
qed

text \<open>
  C20. The text a credential wrapper is fingerprinted by identifies it exactly up to its encoding: two
  well-formed encrypted strings have the same canonical text if and only if they have the same type
  and the same decoded bytes in every part, any other two values only if they are equal, and an
  encrypted string never shares its text with an opaque value.
\<close>

theorem wrapper_fingerprint_input_iff:
  "canonical_credential_wrapper_fingerprint_input v = canonical_credential_wrapper_fingerprint_input w
     \<longleftrightarrow> (case (enc_string_parts v, enc_string_parts w) of
            (Some a, Some b) \<Rightarrow> a = b
          | (None, None) \<Rightarrow> v = w
          | _ \<Rightarrow> False)"
proof (cases "enc_string_parts v"; cases "enc_string_parts w")
  fix a b
  assume ab: "enc_string_parts v = Some a" "enc_string_parts w = Some b"
  obtain t ps u qs where a: "a = (t, ps)" and b: "b = (u, qs)" by (cases a, cases b) auto
  from canonicalize_eq_iff [OF ab [unfolded a b]] show ?thesis
    by (auto simp: canonical_credential_wrapper_fingerprint_input_def ab a b canonicalize_enc_string_def
        split: option.splits)
qed (auto simp: canonical_credential_wrapper_fingerprint_input_def canonicalize_enc_string_def)

text \<open>
  The revision date of a credential change is a valid time, strictly later than the current
  revision and not before the proposed one, in the byte order SQL compares it by.
\<close>

theorem next_revision_date_advances:
  assumes "common_era current" "common_era (current + 1)" "common_era candidate"
  shows "\<exists>r. next_credential_revision_date (iso_text current) (iso_text candidate) = Inr r \<and>
           iso_text current < r \<and> iso_text candidate \<le> r \<and> date_parse r = Some (max candidate (current + 1))"
proof -
  let ?r = "max candidate (current + 1)"
  have r: "common_era ?r" using assms by (simp add: max_def)
  with assms show ?thesis
    by (auto simp: next_credential_revision_date_def iso_text_less_iff iso_text_le_iff)
qed

theorem next_revision_date_advances_witness:
  "\<exists>r. next_credential_revision_date (iso_text 1700000000000) (iso_text 1600000000000) = Inr r \<and>
     iso_text 1700000000000 < r"
  using next_revision_date_advances [of 1700000000000 1600000000000] by (auto simp: common_era_def)

text \<open>
  An accepted KDF change stays inside the mutation policy: PBKDF2 with 600000 to 2000000
  iterations and no memory or parallelism, or Argon2id with 2 to 10 iterations, 16 to 1024 MiB and 1
  to 16 lanes; its hashes, key and salt are non-empty, bounded, trimmed and free of control characters.
\<close>

theorem kdf_change_within_policy:
  assumes "parse_kdf_change_body body = Some r"
  shows "(case kdf_type (kc_kdf r) of
       Pbkdf2 \<Rightarrow> 600000 \<le> kdf_iterations (kc_kdf r) \<and> kdf_iterations (kc_kdf r) \<le> 2000000 \<and>
                 kdf_memory (kc_kdf r) = None \<and> kdf_parallelism (kc_kdf r) = None
     | Argon2id \<Rightarrow> (\<exists>m p. kdf_memory (kc_kdf r) = Some m \<and> kdf_parallelism (kc_kdf r) = Some p \<and>
                 2 \<le> kdf_iterations (kc_kdf r) \<and> kdf_iterations (kc_kdf r) \<le> 10 \<and>
                 16 \<le> m \<and> m \<le> 1024 \<and> 1 \<le> p \<and> p \<le> 16)) \<and>
     clean_string 4096 (kc_current_master_password_hash r) \<and>
     clean_string 4096 (kc_next_master_password_hash r) \<and>
     clean_string 16384 (kc_next_user_key r) \<and> clean_string 256 (kc_salt r)"
proof -
  from assms obtain a u s where
    s: "parse_structured_password_change a u = Some s"
      "is_kdf_within_mutation_policy (sc_kdf s)"
      "r = \<lparr>kc_current_master_password_hash = kc_current_master_password_hash r,
            kc_next_master_password_hash = sc_next_master_password_hash s,
            kc_next_user_key = sc_next_user_key s, kc_salt = sc_salt s, kc_kdf = sc_kdf s\<rparr>"
    and pw: "parse_current_password_proof_body body = Some (kc_current_master_password_hash r)"
    by (auto simp: parse_kdf_change_body_def split: option.splits aliased.splits if_splits)
  then have "clean_string authentication_hash_max_length (kc_current_master_password_hash r)"
    by (auto simp: parse_current_password_proof_body_def split: option.splits if_splits
        intro: parse_aliased_bounded_string_Some(1))
  moreover have "kc_kdf r = sc_kdf s" "kc_next_master_password_hash r = sc_next_master_password_hash s"
    "kc_next_user_key r = sc_next_user_key s" "kc_salt r = sc_salt s"
    by (subst s(3), simp)+
  ultimately show ?thesis
    using s(2) structured_change_facts [OF s(1)]
    by (auto simp: is_kdf_within_mutation_policy_def is_structurally_valid_kdf_def inside_range_def
        kdf_policy_defs authentication_hash_max_length_def wrapped_user_key_max_length_def
        salt_max_length_def split: kdf_type.splits option.splits)
qed

definition sample_kdf_change_body :: json where
  "sample_kdf_change_body =
     (let kdf = JObj [(''kdfType'', jint 1), (''iterations'', jint 3), (''memory'', jint 64), (''parallelism'', jint 4)]
      in JObj [(''masterPasswordHash'', JStr ''h1''),
          (''authenticationData'', JObj [(''kdf'', kdf), (''salt'', JStr ''a@b.example''),
             (''masterPasswordAuthenticationHash'', JStr ''h2'')]),
          (''unlockData'', JObj [(''kdf'', kdf), (''salt'', JStr ''a@b.example''),
             (''masterKeyWrappedUserKey'', JStr ''2.k'')])])"

lemmas parse_eval =
  read_aliased_value_def read_nullable_alternative_value_def parse_aliased_bounded_string_def
  parse_bounded_string_def List.map_filter_simps jprop_def is_control_def js_trim_def js_is_space_def
  code_unit_def parse_aliased_kdf_def parse_kdf_def parse_aliased_integer_def
  parse_nullable_aliased_integer_def num_is_safe_integer_def safe_int_def max_safe_integer_def
  is_structurally_valid_kdf_def equal_kdf_def Let_def parse_structured_password_change_def
  parse_current_password_proof_body_def authentication_hash_max_length_def
  wrapped_user_key_max_length_def salt_max_length_def

lemma sample_kdf_change_accepted: "parse_kdf_change_body sample_kdf_change_body \<noteq> None"
  by (simp add: parse_kdf_change_body_def sample_kdf_change_body_def parse_eval
      is_kdf_within_mutation_policy_def inside_range_def kdf_policy_defs)

theorem kdf_change_within_policy_witness:
  "\<exists>r. parse_kdf_change_body sample_kdf_change_body = Some r \<and> clean_string 256 (kc_salt r)"
  using sample_kdf_change_accepted kdf_change_within_policy [of sample_kdf_change_body] by blast

text \<open>
  An accepted password change is consistent: it comes with the structured data, the legacy fields
  or both, each complete; whichever comes determines the new hash and the new key, so that with both
  the two agree; the salt and KDF are kept exactly when the structured data came.
\<close>

theorem password_change_halves_agree:
  assumes "parse_master_password_change_body (JObj obj) = Some r"
    and "auth = read_nullable_alternative_value obj [''authenticationData'', ''AuthenticationData'']"
    and "unlock = read_nullable_alternative_value obj [''unlockData'', ''UnlockData'']"
    and "lhash = read_nullable_alternative_value obj [''newMasterPasswordHash'', ''NewMasterPasswordHash'']"
    and "lkey = read_nullable_alternative_value obj [''key'', ''Key'']"
  shows "(auth \<noteq> Absent \<or> lhash \<noteq> Absent) \<and> (auth = Absent \<longleftrightarrow> unlock = Absent) \<and> (lhash = Absent \<longleftrightarrow> lkey = Absent) \<and>
     (pc_credential_metadata r = None \<longleftrightarrow> auth = Absent) \<and>
     (auth \<noteq> Absent \<longrightarrow> (\<exists>a u s. auth = Present a \<and> unlock = Present u \<and>
        parse_structured_password_change a u = Some s \<and>
        pc_next_master_password_hash r = sc_next_master_password_hash s \<and>
        pc_next_user_key r = sc_next_user_key s \<and>
        pc_credential_metadata r = Some (sc_salt s, sc_kdf s))) \<and>
     (lhash \<noteq> Absent \<longrightarrow> lhash = Present (JStr (pc_next_master_password_hash r)) \<and>
        lkey = Present (JStr (pc_next_user_key r)))"
  using assms(1) unfolding parse_master_password_change_body_def as_record.simps option.case
    assms(2-5) [symmetric] Let_def
  by (cases auth; cases unlock; cases lhash; cases lkey)
    (auto split: option.splits if_splits simp: parse_bounded_string_Some parse_bounded_string_JStr)

definition sample_password_change_body :: "(string \<times> json) list" where
  "sample_password_change_body =
     [(''masterPasswordHash'', JStr ''h1''), (''newMasterPasswordHash'', JStr ''h2''), (''Key'', JStr ''2.k'')]"

lemma sample_password_change_accepted:
  "parse_master_password_change_body (JObj sample_password_change_body) \<noteq> None"
  by (simp add: parse_master_password_change_body_def sample_password_change_body_def
      has_supported_password_hint_def parse_eval)

theorem password_change_halves_agree_witness:
  "\<exists>r. parse_master_password_change_body (JObj sample_password_change_body) = Some r \<and>
     pc_credential_metadata r = None"
proof -
  obtain r where r: "parse_master_password_change_body (JObj sample_password_change_body) = Some r"
    using sample_password_change_accepted by blast
  from password_change_halves_agree [OF r refl refl refl refl] have "pc_credential_metadata r = None"
    by (simp add: sample_password_change_body_def parse_eval)
  with r show ?thesis by blast
qed

end
