(* ===== verification/Sessions.thy ===== *)
theory Sessions
  imports Database Credentials
begin

text \<open>
  Sessions, devices and refresh tokens of \<open>src/repositories/auth-repository.ts\<close>: password logins with and
  without TOTP, rotation of refresh tokens with reuse detection, and the ways a session ends. Every
  function is the batch of SQL statements the code sends, in order.
\<close>

section \<open>Reading users and devices\<close>

definition build_device_id :: "string \<Rightarrow> string \<Rightarrow> string" where
  "build_device_id user_id device_identifier = user_id @ '':'' @ device_identifier"

text \<open>A row of \<open>users LEFT JOIN user_totp\<close>.\<close>

record auth_user =
  au_user :: user_row
  au_totp_enabled :: bool
  au_totp_encrypted_secret :: "string option"
  au_totp_last_accepted_step :: "int option"
  au_totp_credential_generation :: "string option"

definition user_generation :: "user_row \<Rightarrow> credential_generation" where
  "user_generation u =
     \<lparr>g_email_normalized = u_email_normalized u, g_kdf_algorithm = u_kdf_algorithm u,
      g_kdf_iterations = u_kdf_iterations u, g_kdf_memory = u_kdf_memory u,
      g_kdf_parallelism = u_kdf_parallelism u\<rparr>"

definition auth_user_from_row :: "database \<Rightarrow> user_row \<Rightarrow> js_error + auth_user" where
  "auth_user_from_row db u =
     (let totp = sql_first (\<lambda>t. tf_user_id t = u_id u) (user_totp db)
      in if kdf_from_stored_generation (user_generation u) = None
         then Inl (JsError ''stored account KDF generation is invalid'')
         else Inr \<lparr>au_user = u,
                   au_totp_enabled = (case totp of None \<Rightarrow> False | Some t \<Rightarrow> tf_enabled t),
                   au_totp_encrypted_secret = map_option tf_encrypted_secret totp,
                   au_totp_last_accepted_step = Option.bind totp tf_last_accepted_step,
                   au_totp_credential_generation = Option.bind totp tf_credential_generation\<rparr>)"

definition find_user_where :: "(user_row \<Rightarrow> bool) \<Rightarrow> database \<Rightarrow> js_error + auth_user option" where
  "find_user_where p db =
     (case sql_first p (users db) of
        None \<Rightarrow> Inr None
      | Some u \<Rightarrow> map_sum id Some (auth_user_from_row db u))"

definition find_auth_user_by_email :: "string \<Rightarrow> database \<Rightarrow> js_error + auth_user option" where
  "find_auth_user_by_email email db = find_user_where (\<lambda>u. u_email_normalized u = email) db"

text \<open>The session clause: a device of the user that holds this session and is not revoked.\<close>

definition session_device :: "string \<Rightarrow> string \<Rightarrow> string \<Rightarrow> device_row \<Rightarrow> bool" where
  "session_device user_id device_identifier session_id d \<longleftrightarrow>
     d_user_id d = user_id \<and> d_revoked_at d = None \<and> d_identifier d = device_identifier \<and>
     d_session_id d = Some session_id"

definition find_auth_user_by_id ::
    "string \<Rightarrow> (string \<times> string) option \<Rightarrow> database \<Rightarrow> js_error + auth_user option" where
  "find_auth_user_by_id user_id session db =
     find_user_where (\<lambda>u. u_id u = user_id \<and>
       (case session of
          None \<Rightarrow> True
        | Some (device_identifier, session_id) \<Rightarrow>
            sql_exists (session_device (u_id u) device_identifier session_id) (devices db))) db"

definition find_auth_user_by_session ::
    "string \<Rightarrow> string \<Rightarrow> string \<Rightarrow> database \<Rightarrow> js_error + auth_user option" where
  "find_auth_user_by_session user_id device_identifier session_id db =
     find_auth_user_by_id user_id (Some (device_identifier, session_id)) db"

definition find_device_by_identifier :: "string \<Rightarrow> string \<Rightarrow> database \<Rightarrow> device_row option" where
  "find_device_by_identifier user_id identifier db =
     sql_first (\<lambda>d. d_user_id d = user_id \<and> d_identifier d = identifier \<and> d_revoked_at d = None) (devices db)"

definition find_device_by_id :: "string \<Rightarrow> string \<Rightarrow> database \<Rightarrow> device_row option" where
  "find_device_by_id user_id device_id db =
     sql_first (\<lambda>d. d_user_id d = user_id \<and> d_id d = device_id \<and> d_revoked_at d = None) (devices db)"

definition find_device_by_id_or_identifier :: "string \<Rightarrow> string \<Rightarrow> database \<Rightarrow> device_row option" where
  "find_device_by_id_or_identifier user_id ref db =
     (case find_device_by_id user_id ref db of
        Some d \<Rightarrow> Some d
      | None \<Rightarrow> find_device_by_identifier user_id ref db)"

definition known_active_device_exists :: "string \<Rightarrow> string \<Rightarrow> database \<Rightarrow> bool" where
  "known_active_device_exists email identifier db \<longleftrightarrow>
     sql_exists (\<lambda>u. u_email_normalized u = email \<and> u_disabled_at u = None \<and>
       sql_exists (\<lambda>d. d_user_id d = u_id u \<and> d_identifier d = identifier \<and> d_revoked_at d = None)
         (devices db)) (users db)"

record refresh_token_session =
  rs_token_id :: string
  rs_session_id :: "string option"
  rs_user_id :: string
  rs_device_id :: string
  rs_device_identifier :: string
  rs_token_expires_at :: string
  rs_token_revoked_at :: "string option"
  rs_device_revoked_at :: "string option"
  rs_user :: auth_user

definition find_refresh_token_session_by_hash ::
    "string \<Rightarrow> database \<Rightarrow> js_error + refresh_token_session option" where
  "find_refresh_token_session_by_hash token_hash db =
     (case sql_first (\<lambda>t. rt_token_hash t = token_hash) (refresh_tokens db) of
        None \<Rightarrow> Inr None
      | Some t \<Rightarrow>
          (case (sql_first (\<lambda>u. u_id u = rt_user_id t) (users db),
                 sql_first (\<lambda>d. d_id d = rt_device_id t) (devices db)) of
             (Some u, Some d) \<Rightarrow>
               map_sum id (\<lambda>user. Some
                 \<lparr>rs_token_id = rt_id t, rs_session_id = rt_session_id t, rs_user_id = rt_user_id t,
                  rs_device_id = rt_device_id t, rs_device_identifier = d_identifier d,
                  rs_token_expires_at = rt_expires_at t, rs_token_revoked_at = rt_revoked_at t,
                  rs_device_revoked_at = d_revoked_at d, rs_user = user\<rparr>) (auth_user_from_row db u)
           | _ \<Rightarrow> Inr None))"

section \<open>Password logins\<close>

record totp_session_verification =
  tv_credential_generation :: string
  tv_accepted_step :: js_number

definition is_valid_totp_session_verification :: "totp_session_verification \<Rightarrow> bool" where
  "is_valid_totp_session_verification v \<longleftrightarrow>
     0 < length (tv_credential_generation v) \<and> length (tv_credential_generation v) \<le> 128 \<and>
     num_is_safe_integer (tv_accepted_step v) \<and> 0 \<le> num_int (tv_accepted_step v)"

record device_session_input =
  si_user_id :: string
  si_expected_master_password_hash :: string
  si_expected_security_stamp :: string
  si_device_identifier :: string
  si_device_name :: "string option"
  si_device_type :: "int option"
  si_refresh_token_id :: string
  si_refresh_token_hash :: string
  si_refresh_token_expires_at :: string
  si_now :: string
  si_totp_verification :: "totp_session_verification option"
  si_require_totp_disabled :: bool

datatype session_result = SessionCreated | StaleGeneration

text \<open>The user row still has the password hash and security stamp that were checked.\<close>

definition credential_generation_current :: "device_session_input \<Rightarrow> user_row \<Rightarrow> bool" where
  "credential_generation_current i u \<longleftrightarrow>
     u_id u = si_user_id i \<and> u_disabled_at u = None \<and>
     u_master_password_hash u = si_expected_master_password_hash i \<and>
     u_security_stamp u = si_expected_security_stamp i"

definition login_user_ok :: "device_session_input \<Rightarrow> database \<Rightarrow> bool" where
  "login_user_ok i db \<longleftrightarrow>
     sql_exists (\<lambda>u. credential_generation_current i u \<and>
       (si_require_totp_disabled i \<longrightarrow>
          \<not> sql_exists (\<lambda>t. tf_user_id t = u_id u \<and> tf_enabled t) (user_totp db))) (users db)"

definition login_device_id :: "device_session_input \<Rightarrow> string" where
  "login_device_id i = build_device_id (si_user_id i) (si_device_identifier i)"

definition login_device_row :: "device_session_input \<Rightarrow> database \<Rightarrow> device_row" where
  "login_device_row i db =
     \<lparr>d_id = login_device_id i, d_user_id = si_user_id i, d_identifier = si_device_identifier i,
      d_name = si_device_name i, d_type = si_device_type i, d_encrypted_user_key = None,
      d_encrypted_public_key = None, d_encrypted_private_key = None, d_last_seen_at = Some (si_now i),
      d_revoked_at = None, d_created_at = sql_clock db, d_updated_at = sql_clock db, d_session_id = None,
      d_mfa_totp_credential_generation = None, d_mfa_verified_at = None\<rparr>"

definition login_token_row :: "device_session_input \<Rightarrow> database \<Rightarrow> refresh_token_row" where
  "login_token_row i db =
     \<lparr>rt_id = si_refresh_token_id i, rt_user_id = si_user_id i, rt_device_id = login_device_id i,
      rt_token_hash = si_refresh_token_hash i, rt_rotated_from_token_id = None,
      rt_expires_at = si_refresh_token_expires_at i, rt_revoked_at = None,
      rt_created_at = sql_clock db, rt_session_id = Some (si_refresh_token_id i)\<rparr>"

definition login_insert_device :: "device_session_input \<Rightarrow> database stmt" where
  "login_insert_device i db prev =
     (if login_user_ok i db then insert_or_ignore_device (login_device_row i db) db else Inr (db, 0))"

text \<open>Starting a session clears the revocation and any TOTP proof of the session before.\<close>

definition start_device_session :: "device_session_input \<Rightarrow> device_row \<Rightarrow> device_row" where
  "start_device_session i d =
     d\<lparr>d_name := si_device_name i, d_type := si_device_type i, d_last_seen_at := Some (si_now i),
       d_revoked_at := None, d_updated_at := si_now i, d_session_id := Some (si_refresh_token_id i),
       d_mfa_totp_credential_generation := None, d_mfa_verified_at := None\<rparr>"

definition login_update_device :: "device_session_input \<Rightarrow> database stmt" where
  "login_update_device i =
     update_stmt devices devices_update
       (\<lambda>db prev d. d_id d = login_device_id i \<and> d_user_id d = si_user_id i \<and> login_user_ok i db)
       (start_device_session i)"

definition login_insert_token :: "device_session_input \<Rightarrow> database stmt" where
  "login_insert_token i db prev =
     (if login_user_ok i db \<and>
         sql_exists (\<lambda>d. d_id d = login_device_id i \<and> d_user_id d = si_user_id i \<and>
           d_revoked_at d = None \<and> d_session_id d = Some (si_refresh_token_id i)) (devices db)
      then insert_refresh_token (login_token_row i db) db
      else Inr (db, 0))"

definition session_batch_result :: "string \<Rightarrow> nat list \<Rightarrow> session_result repo" where
  "session_batch_result message ns db =
     (if ns ! 2 = 0 then return_value StaleGeneration db
      else if ns ! 2 \<noteq> 1 then throw (JsError message) db
      else return_value SessionCreated db)"

section \<open>Logins with a TOTP code\<close>

definition consume_login_totp_step ::
    "device_session_input \<Rightarrow> totp_session_verification \<Rightarrow> database stmt" where
  "consume_login_totp_step i v =
     update_stmt user_totp user_totp_update
       (\<lambda>db prev t. tf_user_id t = si_user_id i \<and> tf_enabled t \<and> tf_verified_at t \<noteq> None \<and>
          tf_credential_generation t = Some (tv_credential_generation v) \<and>
          (tf_last_accepted_step t = None \<or>
           sql_gt (Some (num_int (tv_accepted_step v))) (tf_last_accepted_step t)) \<and>
          sql_exists (credential_generation_current i) (users db))
       (\<lambda>t. t\<lparr>tf_last_accepted_step := Some (num_int (tv_accepted_step v)), tf_updated_at := si_now i\<rparr>)"

definition start_totp_device_session ::
    "device_session_input \<Rightarrow> totp_session_verification \<Rightarrow> device_row \<Rightarrow> device_row" where
  "start_totp_device_session i v d =
     d\<lparr>d_name := si_device_name i, d_type := si_device_type i, d_last_seen_at := Some (si_now i),
       d_updated_at := si_now i, d_revoked_at := None, d_session_id := Some (si_refresh_token_id i),
       d_mfa_totp_credential_generation := Some (tv_credential_generation v),
       d_mfa_verified_at := Some (si_now i)\<rparr>"

text \<open>
  \<open>INSERT ... WHERE changes() = 1 ON CONFLICT(id) DO UPDATE ... WHERE\<close> same user and identifier. A clash
  of (user, identifier) with another row is not the conflict target and fails.
\<close>

definition upsert_totp_device ::
    "device_session_input \<Rightarrow> totp_session_verification \<Rightarrow> database stmt" where
  "upsert_totp_device i v db prev =
     (if prev \<noteq> 1 then Inr (db, 0)
      else if sql_exists (\<lambda>d. d_id d \<noteq> login_device_id i \<and> device_key d = (si_user_id i, si_device_identifier i)) (devices db)
      then Inl ConstraintError
      else if sql_exists (\<lambda>d. d_id d = login_device_id i) (devices db)
      then update_stmt devices devices_update
             (\<lambda>db prev d. d_id d = login_device_id i \<and> d_user_id d = si_user_id i \<and>
                d_identifier d = si_device_identifier i)
             (start_totp_device_session i v) db prev
      else insert_or_ignore_device
             ((start_totp_device_session i v (login_device_row i db))\<lparr>d_updated_at := si_now i\<rparr>) db)"

definition insert_totp_token ::
    "device_session_input \<Rightarrow> totp_session_verification \<Rightarrow> database stmt" where
  "insert_totp_token i v db prev =
     (if prev = 1 \<and>
         sql_exists (\<lambda>d. d_id d = login_device_id i \<and> d_user_id d = si_user_id i \<and>
           d_identifier d = si_device_identifier i \<and> d_session_id d = Some (si_refresh_token_id i) \<and>
           d_revoked_at d = None \<and>
           d_mfa_totp_credential_generation d = Some (tv_credential_generation v) \<and>
           d_mfa_verified_at d \<noteq> None) (devices db)
      then insert_refresh_token (login_token_row i db) db
      else Inr (db, 0))"

definition create_totp_password_grant_session ::
    "device_session_input \<Rightarrow> totp_session_verification \<Rightarrow> session_result repo" where
  "create_totp_password_grant_session i v =
     (if \<not> is_valid_totp_session_verification v then return_value StaleGeneration
      else with_batch [consume_login_totp_step i v, upsert_totp_device i v, insert_totp_token i v]
             (session_batch_result ''TOTP password session batch created an invalid token count''))"

definition create_password_grant_session :: "device_session_input \<Rightarrow> session_result repo" where
  "create_password_grant_session i =
     (case si_totp_verification i of
        Some v \<Rightarrow> create_totp_password_grant_session i v
      | None \<Rightarrow>
          with_batch [login_insert_device i, login_update_device i, login_insert_token i]
            (session_batch_result ''password session batch created an invalid token count''))"

section \<open>Ending sessions\<close>

datatype revoke_result = Revoked string string | DeviceNotFound

definition revoke_current_device_session ::
    "string \<Rightarrow> string \<Rightarrow> string \<Rightarrow> string \<Rightarrow> revoke_result repo" where
  "revoke_current_device_session user_id device_identifier session_id revoked_at db =
     (let hits = (\<lambda>d. d_user_id d = user_id \<and> d_identifier d = device_identifier \<and>
                    d_session_id d = Some session_id \<and> d_revoked_at d = None);
          returning = map d_id (filter hits (devices db))
      in with_batch
           [update_stmt refresh_tokens refresh_tokens_update
              (\<lambda>db prev t. rt_user_id t = user_id \<and> rt_session_id t = Some session_id \<and> rt_revoked_at t = None \<and>
                 sql_exists (\<lambda>d. d_id d = rt_device_id t \<and> d_user_id d = user_id \<and>
                   d_identifier d = device_identifier \<and> d_session_id d = Some session_id \<and>
                   d_revoked_at d = None) (devices db))
              (\<lambda>t. t\<lparr>rt_revoked_at := Some revoked_at\<rparr>),
            update_stmt devices devices_update (\<lambda>db prev. hits)
              (\<lambda>d. d\<lparr>d_revoked_at := Some revoked_at, d_updated_at := revoked_at,
                     d_mfa_totp_credential_generation := None, d_mfa_verified_at := None\<rparr>)]
           (\<lambda>ns. case returning of
                   [] \<Rightarrow> return_value DeviceNotFound
                 | [did] \<Rightarrow> return_value (Revoked did revoked_at)
                 | _ \<Rightarrow> throw (JsError ''Current session revocation updated multiple devices.'')) db)"

definition revoke_device_session :: "string \<Rightarrow> string \<Rightarrow> string \<Rightarrow> revoke_result repo" where
  "revoke_device_session user_id device_id revoked_at =
     with_batch
       [update_stmt devices devices_update
          (\<lambda>db prev d. d_id d = device_id \<and> d_user_id d = user_id \<and> d_revoked_at d = None)
          (\<lambda>d. d\<lparr>d_revoked_at := Some revoked_at, d_updated_at := revoked_at\<rparr>),
        update_stmt refresh_tokens refresh_tokens_update
          (\<lambda>db prev t. rt_user_id t = user_id \<and> rt_device_id t = device_id \<and> rt_revoked_at t = None \<and> prev = 1)
          (\<lambda>t. t\<lparr>rt_revoked_at := Some revoked_at\<rparr>)]
       (\<lambda>ns. if ns ! 0 \<noteq> 1 then return_value DeviceNotFound else return_value (Revoked device_id revoked_at))"

definition revoke_other_device_sessions :: "string \<Rightarrow> string \<Rightarrow> string \<Rightarrow> (string \<times> bool \<times> string) repo" where
  "revoke_other_device_sessions user_id current_device_id revoked_at =
     with_batch
       [update_stmt devices devices_update
          (\<lambda>db prev d. d_user_id d = user_id \<and> d_id d \<noteq> current_device_id \<and> d_revoked_at d = None)
          (\<lambda>d. d\<lparr>d_revoked_at := Some revoked_at, d_updated_at := revoked_at\<rparr>),
        update_stmt refresh_tokens refresh_tokens_update
          (\<lambda>db prev t. rt_user_id t = user_id \<and> rt_device_id t \<noteq> current_device_id \<and> rt_revoked_at t = None)
          (\<lambda>t. t\<lparr>rt_revoked_at := Some revoked_at\<rparr>)]
       (\<lambda>ns. return_value (current_device_id, False, revoked_at))"

definition invalidate_refresh_token_session ::
    "string \<Rightarrow> string \<Rightarrow> string \<Rightarrow> string option \<Rightarrow> unit repo" where
  "invalidate_refresh_token_session user_id device_id now expected_session_id =
     with_batch
       [update_stmt refresh_tokens refresh_tokens_update
          (\<lambda>db prev t. rt_user_id t = user_id \<and> rt_device_id t = device_id \<and> rt_revoked_at t = None \<and>
             (truthy expected_session_id \<longrightarrow> sql_eq (rt_session_id t) expected_session_id))
          (\<lambda>t. t\<lparr>rt_revoked_at := Some now\<rparr>),
        update_stmt devices devices_update
          (\<lambda>db prev d. d_id d = device_id \<and> d_user_id d = user_id \<and>
             (truthy expected_session_id \<longrightarrow> sql_eq (d_session_id d) expected_session_id))
          (\<lambda>d. d\<lparr>d_revoked_at := Some now, d_updated_at := now\<rparr>)]
       (\<lambda>ns. return_value ())"

section \<open>Rotation of refresh tokens\<close>

record rotate_input =
  ro_current_token_id :: string
  ro_expected_session_id :: string
  ro_user_id :: string
  ro_device_id :: string
  ro_expected_security_stamp :: string
  ro_device_identifier :: string
  ro_device_name :: "string option"
  ro_device_type :: "int option"
  ro_next_refresh_token_id :: string
  ro_next_refresh_token_hash :: string
  ro_next_refresh_token_expires_at :: string
  ro_now :: string

datatype rotate_result = Rotated | ReuseDetected

text \<open>The presented token is live, belongs to the live session of its device, and its owner is current.\<close>

definition rotatable :: "rotate_input \<Rightarrow> database \<Rightarrow> refresh_token_row \<Rightarrow> bool" where
  "rotatable i db t \<longleftrightarrow>
     rt_id t = ro_current_token_id i \<and> rt_user_id t = ro_user_id i \<and> rt_device_id t = ro_device_id i \<and>
     rt_revoked_at t = None \<and> rt_session_id t = Some (ro_expected_session_id i) \<and>
     sql_exists (\<lambda>d. d_id d = rt_device_id t \<and> d_user_id d = rt_user_id t \<and> d_revoked_at d = None \<and>
       sql_eq (d_session_id d) (rt_session_id t)) (devices db) \<and>
     sql_exists (\<lambda>u. u_id u = rt_user_id t \<and> u_disabled_at u = None \<and>
       u_security_stamp u = ro_expected_security_stamp i) (users db)"

definition replacement_row :: "rotate_input \<Rightarrow> database \<Rightarrow> refresh_token_row \<Rightarrow> refresh_token_row" where
  "replacement_row i db t =
     \<lparr>rt_id = ro_next_refresh_token_id i, rt_user_id = rt_user_id t, rt_device_id = rt_device_id t,
      rt_token_hash = ro_next_refresh_token_hash i, rt_rotated_from_token_id = Some (rt_id t),
      rt_expires_at = ro_next_refresh_token_expires_at i, rt_revoked_at = None,
      rt_created_at = sql_clock db, rt_session_id = rt_session_id t\<rparr>"

definition insert_replacement :: "rotate_input \<Rightarrow> database stmt" where
  "insert_replacement i db prev =
     (case sql_first (rotatable i db) (refresh_tokens db) of
        None \<Rightarrow> Inr (db, 0)
      | Some t \<Rightarrow> insert_refresh_token (replacement_row i db t) db)"

definition replacement_exists :: "rotate_input \<Rightarrow> string \<Rightarrow> string \<Rightarrow> string \<Rightarrow> database \<Rightarrow> bool" where
  "replacement_exists i user_id device_id from_id db \<longleftrightarrow>
     sql_exists (\<lambda>r. rt_id r = ro_next_refresh_token_id i \<and> rt_user_id r = user_id \<and>
       rt_device_id r = device_id \<and> rt_rotated_from_token_id r = Some from_id \<and>
       rt_token_hash r = ro_next_refresh_token_hash i \<and> rt_revoked_at r = None) (refresh_tokens db)"

definition revoke_rotated :: "rotate_input \<Rightarrow> database stmt" where
  "revoke_rotated i =
     update_stmt refresh_tokens refresh_tokens_update
       (\<lambda>db prev t. rt_id t = ro_current_token_id i \<and> rt_user_id t = ro_user_id i \<and>
          rt_device_id t = ro_device_id i \<and> rt_revoked_at t = None \<and>
          replacement_exists i (rt_user_id t) (rt_device_id t) (rt_id t) db)
       (\<lambda>t. t\<lparr>rt_revoked_at := Some (ro_now i)\<rparr>)"

definition touch_rotated_device :: "rotate_input \<Rightarrow> database stmt" where
  "touch_rotated_device i =
     checked devices_unique
       (update_stmt devices devices_update
          (\<lambda>db prev d. d_id d = ro_device_id i \<and> d_user_id d = ro_user_id i \<and> d_revoked_at d = None \<and>
             replacement_exists i (d_user_id d) (d_id d) (ro_current_token_id i) db)
          (\<lambda>d. d\<lparr>d_identifier := ro_device_identifier i, d_name := ro_device_name i,
                 d_type := ro_device_type i, d_last_seen_at := Some (ro_now i), d_updated_at := ro_now i\<rparr>))"

definition rotate_refresh_token :: "rotate_input \<Rightarrow> rotate_result repo" where
  "rotate_refresh_token i =
     with_batch [insert_replacement i, revoke_rotated i, touch_rotated_device i]
       (\<lambda>ns db'. if ns ! 0 \<noteq> 1 \<or> ns ! 1 \<noteq> 1 \<or> ns ! 2 \<noteq> 1
                 then (case invalidate_refresh_token_session (ro_user_id i) (ro_device_id i) (ro_now i)
                              (Some (ro_expected_session_id i)) db' of
                         (db'', Inl e) \<Rightarrow> (db'', Inl e)
                       | (db'', Inr _) \<Rightarrow> return_value ReuseDetected db'')
                 else return_value Rotated db')"

text \<open>Tokens that expired more than 30 days ago; their successors lose the link (ON DELETE SET NULL).\<close>

definition expired_token :: "string \<Rightarrow> refresh_token_row \<Rightarrow> bool" where
  "expired_token expired_before t \<longleftrightarrow> rt_expires_at t \<le> expired_before"

definition delete_expired_rows :: "string \<Rightarrow> int \<Rightarrow> refresh_token_row list \<Rightarrow> refresh_token_row list \<times> nat" where
  "delete_expired_rows expired_before limit t = delete_oldest rt_id (expired_token expired_before) rt_expires_at limit t"

definition unlink_deleted :: "refresh_token_row list \<Rightarrow> refresh_token_row list" where
  "unlink_deleted ts =
     map (\<lambda>t. if (\<exists>p \<in> set (map Some (map rt_id ts)). p = rt_rotated_from_token_id t) then t
              else t\<lparr>rt_rotated_from_token_id := None\<rparr>) ts"

definition delete_expired_refresh_tokens :: "string \<Rightarrow> int \<Rightarrow> nat repo" where
  "delete_expired_refresh_tokens now limit db =
     (case to_iso_string (map_option (\<lambda>ms. ms - 30 * 86400000) (date_parse now)) of
        Inl e \<Rightarrow> throw e db
      | Inr expired_before \<Rightarrow>
          (case delete_expired_rows expired_before limit (refresh_tokens db) of
             (rest, n) \<Rightarrow> return_value n (db\<lparr>refresh_tokens := unlink_deleted rest\<rparr>)))"

section \<open>Device records\<close>

text \<open>
  \<open>ORDER BY COALESCE(last_seen_at, updated_at, created_at) DESC, created_at DESC, id ASC\<close>, as a chain
  of stable sorts from the last key to the first. Operations that return a device return its row.
\<close>

definition last_activity :: "device_row \<Rightarrow> string" where
  "last_activity d = (case d_last_seen_at d of Some s \<Rightarrow> s | None \<Rightarrow> d_updated_at d)"

definition sort_descending :: "('r \<Rightarrow> 'k::linorder) \<Rightarrow> 'r list \<Rightarrow> 'r list" where
  "sort_descending k t = rev (sort_key k (rev t))"

definition list_devices_by_user :: "string \<Rightarrow> database \<Rightarrow> device_row list" where
  "list_devices_by_user user_id db =
     sort_descending last_activity (sort_descending d_created_at (sort_key d_id
       (filter (\<lambda>d. d_user_id d = user_id \<and> d_revoked_at d = None) (devices db))))"

datatype 'a update_result = Updated 'a | NotFound string

definition active_device :: "string \<Rightarrow> string \<Rightarrow> device_row \<Rightarrow> bool" where
  "active_device user_id device_id d \<longleftrightarrow>
     d_user_id d = user_id \<and> d_id d = device_id \<and> d_revoked_at d = None"

definition set_device_metadata :: "string option \<Rightarrow> int option \<Rightarrow> string \<Rightarrow> device_row \<Rightarrow> device_row" where
  "set_device_metadata name type now d = d\<lparr>d_name := name, d_type := type, d_updated_at := now\<rparr>"

definition update_device_metadata ::
    "string \<Rightarrow> string \<Rightarrow> string option \<Rightarrow> int option \<Rightarrow> string \<Rightarrow> device_row update_result repo" where
  "update_device_metadata user_id device_id name type now db =
     (case find_device_by_id user_id device_id db of
        None \<Rightarrow> return_value (NotFound device_id) db
      | Some existing \<Rightarrow>
          with_batch
            [update_stmt devices devices_update (\<lambda>db prev. active_device user_id device_id)
               (set_device_metadata name type now)]
            (\<lambda>ns. if ns ! 0 \<noteq> 1 then return_value (NotFound device_id)
                  else return_value (Updated (set_device_metadata name type now existing))) db)"

record device_keys =
  dk_encrypted_user_key :: string
  dk_encrypted_public_key :: string
  dk_encrypted_private_key :: string

definition set_device_keys :: "device_keys \<Rightarrow> string \<Rightarrow> device_row \<Rightarrow> device_row" where
  "set_device_keys keys now d =
     d\<lparr>d_encrypted_user_key := Some (dk_encrypted_user_key keys),
       d_encrypted_public_key := Some (dk_encrypted_public_key keys),
       d_encrypted_private_key := Some (dk_encrypted_private_key keys), d_updated_at := now\<rparr>"

definition update_device_keys ::
    "string \<Rightarrow> string \<Rightarrow> device_keys \<Rightarrow> string \<Rightarrow> device_row update_result repo" where
  "update_device_keys user_id ref keys now db =
     (case find_device_by_id_or_identifier user_id ref db of
        None \<Rightarrow> return_value (NotFound ref) db
      | Some existing \<Rightarrow>
          with_batch
            [update_stmt devices devices_update (\<lambda>db prev. active_device user_id (d_id existing))
               (set_device_keys keys now)]
            (\<lambda>ns. if ns ! 0 \<noteq> 1 then return_value (NotFound ref)
                  else return_value (Updated (set_device_keys keys now existing))) db)"

text \<open>Trusted devices: every reference must resolve before any device is written.\<close>

fun resolve_devices ::
    "string \<Rightarrow> (string \<times> device_keys) list \<Rightarrow> database \<Rightarrow> string + (device_row \<times> string \<times> device_keys) list" where
  "resolve_devices user_id [] db = Inr []"
| "resolve_devices user_id ((ref, keys) # us) db =
     (case find_device_by_id_or_identifier user_id ref db of
        None \<Rightarrow> Inl ref
      | Some existing \<Rightarrow>
          map_sum id (\<lambda>rest. (existing, ref, keys) # rest) (resolve_devices user_id us db))"

definition write_device_keys :: "string \<Rightarrow> string \<Rightarrow> device_row \<times> string \<times> device_keys \<Rightarrow> database stmt" where
  "write_device_keys user_id now = (\<lambda>(existing, ref, keys).
     update_stmt devices devices_update (\<lambda>db prev. active_device user_id (d_id existing))
       (set_device_keys keys now))"

definition update_trusted_device_keys ::
    "string \<Rightarrow> (string \<times> device_keys) list \<Rightarrow> string \<Rightarrow> device_row list update_result repo" where
  "update_trusted_device_keys user_id updates now db =
     (case resolve_devices user_id updates db of
        Inl missing \<Rightarrow> return_value (NotFound missing) db
      | Inr resolved \<Rightarrow>
          with_batch (map (write_device_keys user_id now) resolved)
            (\<lambda>ns. case find (\<lambda>(n, _). n \<noteq> 1) (zip ns resolved) of
                    Some (_, _, ref, _) \<Rightarrow> return_value (NotFound ref)
                  | None \<Rightarrow> return_value
                      (Updated (map (\<lambda>(existing, _, keys). set_device_keys keys now existing) resolved))) db)"

end
