(* ===== verification/SessionProofs.thy ===== *)
theory SessionProofs
  imports Sessions
begin

text \<open>
  What the session operations promise: each keeps the keys of the schema, a refresh token is rotated at
  most once, a session has at most one live token, a replayed token ends its session, and a revoked
  token is never live again in any run of the operations.
\<close>

section \<open>The keys of the schema\<close>

definition token_core :: "refresh_token_row \<Rightarrow> string \<times> string \<times> string \<times> string \<times> string option" where
  "token_core t = (rt_id t, rt_user_id t, rt_device_id t, rt_token_hash t, rt_session_id t)"

definition device_core :: "device_row \<Rightarrow> string \<times> string \<times> string" where
  "device_core d = (d_id d, d_user_id d, d_identifier d)"

text \<open>The key columns of the three session tables; an update that keeps them keeps the schema.\<close>

definition session_keys where
  "session_keys db =
     (map u_id (users db), map device_core (devices db), map token_core (refresh_tokens db))"

lemma map_core_cong:
  assumes "map f xs = map f ys" "\<And>x y. f x = f y \<Longrightarrow> g x = g y"
  shows "map g xs = map g ys"
  using assms(1)
proof (induction xs arbitrary: ys)
  case (Cons x xs)
  then obtain y ys' where ys: "ys = y # ys'" "f x = f y" "map f xs = map f ys'" by (cases ys) auto
  from Cons.IH [OF ys(3)] assms(2) [OF ys(2)] show ?case by (simp add: ys(1))
qed simp

lemma ball_core:
  assumes "map f xs = map f ys" "\<And>x y. f x = f y \<Longrightarrow> P x = P y"
  shows "(\<forall>x \<in> set xs. P x) \<longleftrightarrow> (\<forall>y \<in> set ys. P y)"
proof -
  have "map P xs = map P ys" by (rule map_core_cong [OF assms])
  then have "list_all id (map P xs) = list_all id (map P ys)" by (rule arg_cong)
  then show ?thesis by (simp add: list.pred_map list_all_iff)
qed

lemma sql_exists_core:
  "map f xs = map f ys \<Longrightarrow> (\<And>x y. f x = f y \<Longrightarrow> P x = P y) \<Longrightarrow> sql_exists P xs = sql_exists P ys"
  using ball_core [of f xs ys "\<lambda>x. \<not> P x"] unfolding sql_exists_iff by blast

lemma schema_ok_keys:
  assumes "session_keys db' = session_keys db" "schema_ok db"
  shows "schema_ok db'"
proof -
  have u: "map u_id (users db') = map u_id (users db)"
    and d: "map device_core (devices db') = map device_core (devices db)"
    and t: "map token_core (refresh_tokens db') = map token_core (refresh_tokens db)"
    using assms(1) by (simp_all add: session_keys_def)
  have ids: "map d_id (devices db') = map d_id (devices db)"
    "map device_key (devices db') = map device_key (devices db)"
    "map rt_id (refresh_tokens db') = map rt_id (refresh_tokens db)"
    "map rt_token_hash (refresh_tokens db') = map rt_token_hash (refresh_tokens db)"
    by (auto intro!: map_core_cong [OF d] map_core_cong [OF t] simp: device_core_def token_core_def device_key_def)
  have ue: "user_exists x db' = user_exists x db" for x
    unfolding user_exists_def by (rule sql_exists_core [OF u]) simp
  have de: "device_exists x db' = device_exists x db" for x
    unfolding device_exists_def by (rule sql_exists_core [OF d]) (simp add: device_core_def)
  have "(\<forall>r \<in> set (devices db'). user_exists (d_user_id r) db) \<longleftrightarrow>
      (\<forall>r \<in> set (devices db). user_exists (d_user_id r) db)"
    by (rule ball_core [OF d]) (simp add: device_core_def)
  moreover have "(\<forall>r \<in> set (refresh_tokens db'). user_exists (rt_user_id r) db \<and> device_exists (rt_device_id r) db)
      \<longleftrightarrow> (\<forall>r \<in> set (refresh_tokens db). user_exists (rt_user_id r) db \<and> device_exists (rt_device_id r) db)"
    by (rule ball_core [OF t]) (simp add: token_core_def)
  ultimately show ?thesis
    using assms(2) u ids by (simp add: schema_ok_def devices_unique_def tokens_unique_def ue de)
qed

lemma session_keys_tokens:
  "(\<And>t. token_core (f t) = token_core t) \<Longrightarrow>
     session_keys (refresh_tokens_update (sql_update p f) db) = session_keys db"
  by (simp add: session_keys_def sql_update_def)

lemma session_keys_devices:
  "(\<And>d. device_core (f d) = device_core d) \<Longrightarrow>
     session_keys (devices_update (sql_update p f) db) = session_keys db"
  by (simp add: session_keys_def sql_update_def)

lemma session_keys_totp [simp]: "session_keys (user_totp_update f db) = session_keys db"
  by (simp add: session_keys_def)

lemma schema_ok_insert_device:
  assumes "schema_ok db" "\<not> devices_conflict d db" "user_exists (d_user_id d) db"
  shows "schema_ok (db\<lparr>devices := devices db @ [d]\<rparr>)"
proof -
  let ?db = "db\<lparr>devices := devices db @ [d]\<rparr>"
  have "user_exists x ?db = user_exists x db" for x by (simp add: user_exists_def)
  moreover have "device_exists x db \<Longrightarrow> device_exists x ?db" for x
    by (auto simp: device_exists_def sql_exists_iff)
  ultimately show ?thesis
    using assms by (auto simp: schema_ok_def devices_unique_def tokens_unique_def devices_conflict_def sql_exists_iff)
qed

lemma schema_ok_insert_token:
  assumes "schema_ok db" "insert_refresh_token t db = Inr (db', n)"
  shows "schema_ok db'"
proof -
  from assms(2) have db': "db' = db\<lparr>refresh_tokens := refresh_tokens db @ [t]\<rparr>"
    and f: "\<forall>r \<in> set (refresh_tokens db). rt_id r \<noteq> rt_id t \<and> rt_token_hash r \<noteq> rt_token_hash t"
    and r: "token_references t db"
    by (simp_all add: insert_refresh_token_Inr)
  have "user_exists x db' = user_exists x db" "device_exists x db' = device_exists x db" for x
    by (simp_all add: user_exists_def device_exists_def db')
  with assms(1) f r show ?thesis
    by (auto simp: schema_ok_def devices_unique_def tokens_unique_def token_references_def db')
qed

lemma schema_ok_insert_or_ignore:
  "schema_ok db \<Longrightarrow> insert_or_ignore_device d db = Inr (db', n) \<Longrightarrow> schema_ok db'"
  by (auto simp: insert_or_ignore_device_Inr schema_ok_insert_device)

section \<open>Rotation\<close>

definition fresh_token_id :: "string \<Rightarrow> database \<Rightarrow> bool" where
  "fresh_token_id tid db \<longleftrightarrow>
     (\<forall>r \<in> set (refresh_tokens db). rt_id r \<noteq> tid \<and> rt_session_id r \<noteq> Some tid \<and>
        rt_rotated_from_token_id r \<noteq> Some tid) \<and>
     (\<forall>d \<in> set (devices db). d_session_id d \<noteq> Some tid)"

definition touch_device :: "rotate_input \<Rightarrow> device_row \<Rightarrow> device_row" where
  "touch_device i d = d\<lparr>d_identifier := ro_device_identifier i, d_name := ro_device_name i,
     d_type := ro_device_type i, d_last_seen_at := Some (ro_now i), d_updated_at := ro_now i\<rparr>"

definition revoke_token :: "string \<Rightarrow> refresh_token_row \<Rightarrow> refresh_token_row" where
  "revoke_token now t = t\<lparr>rt_revoked_at := Some now\<rparr>"

text \<open>The database after a successful rotation of token \<open>t\<close>.\<close>

definition rotated_database :: "rotate_input \<Rightarrow> refresh_token_row \<Rightarrow> database \<Rightarrow> database" where
  "rotated_database i t db =
     db\<lparr>refresh_tokens :=
          map (\<lambda>r. if rt_id r = rt_id t then revoke_token (ro_now i) r else r) (refresh_tokens db)
            @ [replacement_row i db t],
        devices := sql_update (\<lambda>d. d_id d = rt_device_id t) (touch_device i) (devices db)\<rparr>"

lemma replacement_row_simps [simp]:
  "rt_id (replacement_row i db t) = ro_next_refresh_token_id i"
  "rt_user_id (replacement_row i db t) = rt_user_id t"
  "rt_device_id (replacement_row i db t) = rt_device_id t"
  "rt_token_hash (replacement_row i db t) = ro_next_refresh_token_hash i"
  "rt_rotated_from_token_id (replacement_row i db t) = Some (rt_id t)"
  "rt_revoked_at (replacement_row i db t) = None"
  "rt_session_id (replacement_row i db t) = rt_session_id t"
  "rt_expires_at (replacement_row i db t) = ro_next_refresh_token_expires_at i"
  by (simp_all add: replacement_row_def)

lemma revoke_token_simps [simp]:
  "rt_id (revoke_token now t) = rt_id t"
  "rt_user_id (revoke_token now t) = rt_user_id t"
  "rt_device_id (revoke_token now t) = rt_device_id t"
  "rt_session_id (revoke_token now t) = rt_session_id t"
  "rt_revoked_at (revoke_token now t) = Some now"
  "token_core (revoke_token now t) = token_core t"
  by (simp_all add: revoke_token_def token_core_def)

lemma rotatable_facts:
  assumes "sql_first (rotatable i db) (refresh_tokens db) = Some t"
  shows "t \<in> set (refresh_tokens db)" "rt_id t = ro_current_token_id i" "rt_user_id t = ro_user_id i"
    "rt_device_id t = ro_device_id i" "rt_revoked_at t = None"
    "rt_session_id t = Some (ro_expected_session_id i)"
    "\<exists>d \<in> set (devices db). d_id d = ro_device_id i \<and> d_user_id d = ro_user_id i \<and> d_revoked_at d = None \<and>
       d_session_id d = Some (ro_expected_session_id i)"
  using sql_first_SomeD [OF assms] by (auto simp: rotatable_def sql_exists_iff)

lemma insert_replacement_Inr:
  "insert_replacement i db p = Inr (d1, n1) \<longleftrightarrow>
     (sql_first (rotatable i db) (refresh_tokens db) = None \<and> d1 = db \<and> n1 = 0) \<or>
     (\<exists>t. sql_first (rotatable i db) (refresh_tokens db) = Some t \<and>
        insert_refresh_token (replacement_row i db t) db = Inr (d1, n1))"
  by (auto simp: insert_replacement_def split: option.splits)

lemma no_replacement:
  "fresh_token_id (ro_next_refresh_token_id i) db \<Longrightarrow> \<not> replacement_exists i u d f db"
  by (auto simp: replacement_exists_def fresh_token_id_def sql_exists_iff)

lemma rotate_without_token:
  assumes "schema_ok db" "fresh_token_id (ro_next_refresh_token_id i) db"
    and "sql_first (rotatable i db) (refresh_tokens db) = None"
  shows "batch [insert_replacement i, revoke_rotated i, touch_rotated_device i] db = Inr (db, [0, 0, 0])"
  using assms no_replacement [OF assms(2)]
  by (simp add: batch_eval insert_replacement_def revoke_rotated_def touch_rotated_device_def checked_def
      schema_ok_def)

lemma revoke_rotated_effect:
  assumes "schema_ok db" and t: "sql_first (rotatable i db) (refresh_tokens db) = Some t"
    and "fresh_token_id (ro_next_refresh_token_id i) db"
    and d1: "d1 = db\<lparr>refresh_tokens := refresh_tokens db @ [replacement_row i db t]\<rparr>"
  shows "revoke_rotated i d1 p = Inr (d1\<lparr>refresh_tokens :=
     map (\<lambda>r. if rt_id r = rt_id t then revoke_token (ro_now i) r else r) (refresh_tokens db)
       @ [replacement_row i db t]\<rparr>, 1)"
proof -
  note tf = rotatable_facts [OF t]
  let ?p = "\<lambda>r. rt_id r = ro_current_token_id i \<and> rt_user_id r = ro_user_id i \<and>
     rt_device_id r = ro_device_id i \<and> rt_revoked_at r = None \<and>
     replacement_exists i (rt_user_id r) (rt_device_id r) (rt_id r) d1"
  have pt: "?p t" using tf by (auto simp: d1 replacement_exists_def sql_exists_iff)
  have eq: "?p r \<longleftrightarrow> r = t" if "r \<in> set (refresh_tokens db)" for r
    using pt that tf(1) token_unique [OF assms(1), of r t] by (cases "rt_id r = rt_id t") (auto simp: tf(2))
  have "rt_id r = rt_id t \<longleftrightarrow> r = t" if "r \<in> set (refresh_tokens db)" for r
    using that tf(1) token_unique [OF assms(1), of r t] by auto
  with eq have eq': "?p r \<longleftrightarrow> rt_id r = rt_id t" if "r \<in> set (refresh_tokens db)" for r
    using that by blast
  have new: "ro_next_refresh_token_id i \<noteq> ro_current_token_id i"
    using assms(3) tf(1,2) by (auto simp: fresh_token_id_def)
  have d: "distinct (map rt_id (refresh_tokens d1))"
    using assms(1,3) by (auto simp: d1 schema_ok_def tokens_unique_def fresh_token_id_def)
  have "sql_count ?p (refresh_tokens d1) = 1"
    using pt tf(1) by (subst sql_count_1_iff [OF d, of _ "ro_current_token_id i"]) (auto simp: d1)
  moreover have "sql_update ?p (\<lambda>r. r\<lparr>rt_revoked_at := Some (ro_now i)\<rparr>) (refresh_tokens d1) =
     map (\<lambda>r. if rt_id r = rt_id t then revoke_token (ro_now i) r else r) (refresh_tokens db)
       @ [replacement_row i db t]"
    using new eq' by (auto simp: d1 sql_update_def revoke_token_def)
  ultimately show ?thesis
    by (simp add: revoke_rotated_def update_stmt_Inr)
qed

lemma touch_rotated_effect:
  assumes "schema_ok db" and t: "sql_first (rotatable i db) (refresh_tokens db) = Some t"
    and "devices d2 = devices db" and r: "replacement_row i db t \<in> set (refresh_tokens d2)"
  shows "touch_rotated_device i d2 p =
     (let d3 = d2\<lparr>devices := sql_update (\<lambda>d. d_id d = rt_device_id t) (touch_device i) (devices db)\<rparr>
      in if devices_unique d3 then Inr (d3, 1) else Inl ConstraintError)"
proof -
  note tf = rotatable_facts [OF t]
  from tf(7) obtain e where e: "e \<in> set (devices db)" "d_id e = ro_device_id i" "d_user_id e = ro_user_id i"
    "d_revoked_at e = None" by blast
  have ex: "replacement_exists i (ro_user_id i) (ro_device_id i) (ro_current_token_id i) d2"
    unfolding replacement_exists_def sql_exists_iff
    by (rule bexI [OF _ r]) (simp add: tf(2-4))
  let ?p = "\<lambda>d. d_id d = ro_device_id i \<and> d_user_id d = ro_user_id i \<and> d_revoked_at d = None \<and>
     replacement_exists i (d_user_id d) (d_id d) (ro_current_token_id i) d2"
  have pe: "?p e" using e ex by simp
  have eq: "?p d \<longleftrightarrow> d_id d = rt_device_id t" if "d \<in> set (devices db)" for d
  proof
    assume "d_id d = rt_device_id t"
    with that e tf(4) device_unique [OF assms(1), of d e] have "d = e" by simp
    then show "?p d" using e ex by simp
  qed (simp add: tf(4))
  have d: "distinct (map d_id (devices db))"
    using assms(1) by (simp add: schema_ok_def devices_unique_def)
  have "sql_count ?p (devices d2) = 1"
    unfolding assms(3) using pe e(1) by (subst sql_count_1_iff [OF d, of _ "ro_device_id i"]) auto
  moreover have "sql_update ?p (\<lambda>d. d\<lparr>d_identifier := ro_device_identifier i, d_name := ro_device_name i,
      d_type := ro_device_type i, d_last_seen_at := Some (ro_now i), d_updated_at := ro_now i\<rparr>) (devices d2)
     = sql_update (\<lambda>d. d_id d = rt_device_id t) (touch_device i) (devices db)"
    unfolding assms(3) using eq by (simp add: sql_update_def touch_device_def)
  ultimately show ?thesis
    by (simp add: touch_rotated_device_def checked_def update_stmt_def Let_def
        devices_update_value [of "sql_update ?p _" d2])
qed

lemma rotate_with_token:
  assumes "schema_ok db" "fresh_token_id (ro_next_refresh_token_id i) db"
    and t: "sql_first (rotatable i db) (refresh_tokens db) = Some t"
  shows "rotate_refresh_token i db =
    (if (\<forall>r \<in> set (refresh_tokens db). rt_token_hash r \<noteq> ro_next_refresh_token_hash i)
        \<and> devices_unique (rotated_database i t db)
     then (rotated_database i t db, Inr Rotated) else (db, Inl ConstraintError))"
proof -
  note tf = rotatable_facts [OF t]
  let ?d1 = "db\<lparr>refresh_tokens := refresh_tokens db @ [replacement_row i db t]\<rparr>"
  have ref: "token_references (replacement_row i db t) db"
    using tf(1) assms(1) by (auto simp: token_references_def schema_ok_def sql_exists_iff)
  have ids: "\<forall>r \<in> set (refresh_tokens db). rt_id r \<noteq> ro_next_refresh_token_id i"
    using assms(2) by (simp add: fresh_token_id_def)
  show ?thesis
  proof (cases "\<forall>r \<in> set (refresh_tokens db). rt_token_hash r \<noteq> ro_next_refresh_token_hash i")
    case True
    have ins: "insert_replacement i db 0 = Inr (?d1, 1)"
      using t True ids ref by (simp add: insert_replacement_def insert_refresh_token_Inr)
    note rev = revoke_rotated_effect [OF assms(1) t assms(2) refl, of 1]
    let ?d2 = "?d1\<lparr>refresh_tokens :=
     map (\<lambda>r. if rt_id r = rt_id t then revoke_token (ro_now i) r else r) (refresh_tokens db)
       @ [replacement_row i db t]\<rparr>"
    have "touch_rotated_device i ?d2 1 =
        (if devices_unique (rotated_database i t db) then Inr (rotated_database i t db, 1) else Inl ConstraintError)"
      by (subst touch_rotated_effect [OF assms(1) t]) (simp_all add: rotated_database_def Let_def)
    with ins rev show ?thesis
      by (simp add: rotate_refresh_token_def with_batch_def batch_def return_value_def True)
  next
    case False
    then have "insert_replacement i db 0 = Inl ConstraintError"
      using t by (auto simp: insert_replacement_def insert_refresh_token_def sql_exists_iff)
    with False show ?thesis
      by (simp add: rotate_refresh_token_def with_batch_def batch_def)
  qed
qed

lemma rotate_reuse:
  assumes "schema_ok db" "fresh_token_id (ro_next_refresh_token_id i) db"
    and "sql_first (rotatable i db) (refresh_tokens db) = None"
  shows "rotate_refresh_token i db =
    (fst (invalidate_refresh_token_session (ro_user_id i) (ro_device_id i) (ro_now i)
            (Some (ro_expected_session_id i)) db), Inr ReuseDetected)"
  using rotate_without_token [OF assms]
  by (simp add: rotate_refresh_token_def with_batch_def return_value_def
      invalidate_refresh_token_session_def batch_eval)

section \<open>How tokens and devices evolve\<close>

text \<open>
  \<open>evolves tid db db'\<close>: every token of \<open>db'\<close> comes from a token of \<open>db\<close> with the same id and session
  that was not revoked if it is live now, or is the new token \<open>tid\<close> that starts the session \<open>tid\<close>;
  a device holds a session it (or another) held before, or the session \<open>tid\<close>.
\<close>

definition token_from :: "refresh_token_row list \<Rightarrow> refresh_token_row \<Rightarrow> bool" where
  "token_from ts t' \<longleftrightarrow>
     (\<exists>t \<in> set ts. rt_id t = rt_id t' \<and> rt_session_id t = rt_session_id t' \<and>
        rt_rotated_from_token_id t' \<in> {None, rt_rotated_from_token_id t} \<and>
        (rt_revoked_at t \<noteq> None \<longrightarrow> rt_revoked_at t' \<noteq> None))"

definition session_from :: "string option \<Rightarrow> database \<Rightarrow> string option \<Rightarrow> bool" where
  "session_from tid db s \<longleftrightarrow> s = None \<or> s = tid \<or> (\<exists>d \<in> set (devices db). d_session_id d = s)"

lemma session_from_simps [simp]: "session_from tid db None" "session_from tid db tid"
  by (simp_all add: session_from_def)

definition evolves :: "string option \<Rightarrow> database \<Rightarrow> database \<Rightarrow> bool" where
  "evolves tid db db' \<longleftrightarrow>
     (\<forall>t' \<in> set (refresh_tokens db'). token_from (refresh_tokens db) t' \<or>
        Some (rt_id t') = tid \<and> rt_session_id t' = tid \<and> rt_rotated_from_token_id t' = None) \<and>
     (\<forall>d' \<in> set (devices db'). session_from tid db (d_session_id d'))"

definition sound_step :: "string option \<Rightarrow> database \<Rightarrow> database \<Rightarrow> bool" where
  "sound_step tid db db' \<longleftrightarrow> schema_ok db' \<and> evolves tid db db'"

lemma token_from_self: "t \<in> set ts \<Longrightarrow> token_from ts t"
  by (auto simp: token_from_def)

lemma sound_step_refl: "schema_ok db \<Longrightarrow> sound_step tid db db"
  by (auto simp: sound_step_def evolves_def token_from_self session_from_def)

lemma token_from_update:
  assumes "token_from ts t" "token_core t' = token_core t" "rt_revoked_at t' \<noteq> None"
    "rt_rotated_from_token_id t' = rt_rotated_from_token_id t"
  shows "token_from ts t'"
  using assms by (auto simp: token_from_def token_core_def)

lemma sound_step_tokens:
  assumes "\<And>t. token_core (f t) = token_core t" "\<And>t. rt_revoked_at (f t) \<noteq> None"
    "\<And>t. rt_rotated_from_token_id (f t) = rt_rotated_from_token_id t"
    and "sound_step tid db d"
  shows "sound_step tid db (refresh_tokens_update (sql_update p f) d)"
proof -
  have core: "rt_id (f t) = rt_id t \<and> rt_session_id (f t) = rt_session_id t" for t
    using assms(1) [of t] by (simp add: token_core_def)
  have "schema_ok (refresh_tokens_update (sql_update p f) d)"
    using assms(4) by (auto simp: sound_step_def intro: schema_ok_keys session_keys_tokens assms(1))
  moreover have "token_from (refresh_tokens db) (f t)" if "token_from (refresh_tokens db) t" for t
    using token_from_update [OF that assms(1) assms(2) assms(3)] .
  ultimately show ?thesis
    using assms(3,4) core by (auto simp: sound_step_def evolves_def set_sql_update)
qed

lemma sound_step_devices:
  assumes "\<And>d. device_core (f d) = device_core d" "\<And>d. d_session_id (f d) \<in> {tid, d_session_id d}"
    and "sound_step tid db d"
  shows "sound_step tid db (devices_update (sql_update p f) d)"
proof -
  have "schema_ok (devices_update (sql_update p f) d)"
    using assms(3) by (auto simp: sound_step_def intro: schema_ok_keys session_keys_devices assms(1))
  moreover have "session_from tid db (d_session_id (f r))" if "r \<in> set (devices d)" for r
    using assms(2) [of r] assms(3) that by (cases "d_session_id (f r) = tid") (auto simp: sound_step_def evolves_def)
  ultimately show ?thesis
    using assms(3) by (auto simp: sound_step_def evolves_def set_sql_update)
qed

lemma sound_step_totp:
  "sound_step tid db d \<Longrightarrow> sound_step tid db (user_totp_update f d)"
  using schema_ok_keys [of "user_totp_update f d" d] by (auto simp: sound_step_def evolves_def)

lemma sound_step_insert_device:
  assumes "insert_or_ignore_device r d = Inr (d', n)" "d_session_id r \<in> {None, tid}" "sound_step tid db d"
  shows "sound_step tid db d'"
  using assms schema_ok_insert_or_ignore [OF _ assms(1)]
  by (auto simp: sound_step_def evolves_def insert_or_ignore_device_Inr)

lemma sound_step_insert_token:
  assumes "insert_refresh_token t d = Inr (d', n)" "sound_step tid db d"
    and "Some (rt_id t) = tid" "rt_session_id t = tid" "rt_rotated_from_token_id t = None"
  shows "sound_step tid db d'"
  using assms schema_ok_insert_token [OF _ assms(1)]
  by (auto simp: sound_step_def evolves_def insert_refresh_token_Inr)

named_theorems core_simps \<open>row updates keep the key columns\<close>

lemma token_core_revoke [core_simps]: "token_core (t\<lparr>rt_revoked_at := x\<rparr>) = token_core t"
  by (simp add: token_core_def)

lemma device_core_updates [core_simps]:
  "device_core (d\<lparr>d_revoked_at := a, d_updated_at := b\<rparr>) = device_core d"
  "device_core (d\<lparr>d_revoked_at := a, d_updated_at := b, d_mfa_totp_credential_generation := g, d_mfa_verified_at := v\<rparr>) = device_core d"
  "device_core (start_device_session i d) = device_core d"
  "device_core (start_totp_device_session i v' d) = device_core d"
  "device_core (set_device_metadata name type now d) = device_core d"
  "device_core (set_device_keys keys now d) = device_core d"
  by (simp_all add: device_core_def start_device_session_def start_totp_device_session_def
      set_device_metadata_def set_device_keys_def)

section \<open>Every operation is a sound step\<close>

lemma revoke_current_sound:
  "schema_ok db \<Longrightarrow> sound_step None db (fst (revoke_current_device_session u di sid now db))"
  unfolding revoke_current_device_session_def Let_def
  by (rule with_batch_invariant [where P = "sound_step None db"])
    (auto simp: update_stmt_Inr core_simps sound_step_refl split: list.splits
      intro!: sound_step_tokens sound_step_devices)

lemma revoke_device_sound:
  "schema_ok db \<Longrightarrow> sound_step None db (fst (revoke_device_session u did now db))"
  unfolding revoke_device_session_def
  by (rule with_batch_invariant [where P = "sound_step None db"])
    (auto simp: update_stmt_Inr core_simps sound_step_refl intro!: sound_step_tokens sound_step_devices)

lemma revoke_others_sound:
  "schema_ok db \<Longrightarrow> sound_step None db (fst (revoke_other_device_sessions u did now db))"
  unfolding revoke_other_device_sessions_def
  by (rule with_batch_invariant [where P = "sound_step None db"])
    (auto simp: update_stmt_Inr core_simps sound_step_refl intro!: sound_step_tokens sound_step_devices)

lemma invalidate_sound:
  "schema_ok db \<Longrightarrow> sound_step None db (fst (invalidate_refresh_token_session u did now s db))"
  unfolding invalidate_refresh_token_session_def
  by (rule with_batch_invariant [where P = "sound_step None db"])
    (auto simp: update_stmt_Inr core_simps sound_step_refl intro!: sound_step_tokens sound_step_devices)

lemma fst_result_if [simp]:
  "fst (session_batch_result m ns d) = d"
  by (simp add: session_batch_result_def)

lemma login_rows [simp]:
  "d_session_id (login_device_row i db) = None"
  "d_user_id (login_device_row i db) = si_user_id i"
  "d_id (login_device_row i db) = login_device_id i"
  "d_identifier (login_device_row i db) = si_device_identifier i"
  "rt_id (login_token_row i db) = si_refresh_token_id i"
  "rt_session_id (login_token_row i db) = Some (si_refresh_token_id i)"
  "rt_rotated_from_token_id (login_token_row i db) = None"
  "rt_revoked_at (login_token_row i db) = None"
  "rt_token_hash (login_token_row i db) = si_refresh_token_hash i"
  "rt_user_id (login_token_row i db) = si_user_id i"
  "rt_device_id (login_token_row i db) = login_device_id i"
  by (simp_all add: login_device_row_def login_token_row_def)

lemma started_device [simp]:
  "d_session_id (start_device_session i d) = Some (si_refresh_token_id i)"
  "d_revoked_at (start_device_session i d) = None"
  "d_id (start_device_session i d) = d_id d"
  "d_user_id (start_device_session i d) = d_user_id d"
  "d_identifier (start_device_session i d) = d_identifier d"
  "d_mfa_totp_credential_generation (start_device_session i d) = None"
  "d_session_id (start_totp_device_session i v d) = Some (si_refresh_token_id i)"
  "d_revoked_at (start_totp_device_session i v d) = None"
  "d_id (start_totp_device_session i v d) = d_id d"
  "d_user_id (start_totp_device_session i v d) = d_user_id d"
  "d_identifier (start_totp_device_session i v d) = d_identifier d"
  "d_mfa_totp_credential_generation (start_totp_device_session i v d) = Some (tv_credential_generation v)"
  "d_mfa_verified_at (start_totp_device_session i v d) = Some (si_now i)"
  by (simp_all add: start_device_session_def start_totp_device_session_def)

lemma login_sound:
  assumes "schema_ok db" "si_totp_verification i = None"
  shows "sound_step (Some (si_refresh_token_id i)) db (fst (create_password_grant_session i db))"
proof -
  let ?P = "sound_step (Some (si_refresh_token_id i)) db"
  have "?P d'" if "login_insert_device i d n = Inr (d', k)" "?P d" for d n d' k
    using that sound_step_insert_device [of "login_device_row i d" d d' k]
    by (auto simp: login_insert_device_def split: if_splits)
  moreover have "?P d'" if "login_update_device i d n = Inr (d', k)" "?P d" for d n d' k
    using that by (auto simp: login_update_device_def update_stmt_Inr core_simps intro!: sound_step_devices)
  moreover have "?P d'" if "login_insert_token i d n = Inr (d', k)" "?P d" for d n d' k
    using that sound_step_insert_token [of "login_token_row i d" d d' k]
    by (auto simp: login_insert_token_def split: if_splits)
  ultimately show ?thesis
    using assms(1) unfolding create_password_grant_session_def assms(2) option.case
    by (intro with_batch_invariant [where P = ?P]) (auto simp: sound_step_refl)
qed

lemma upsert_totp_device_sound:
  assumes "upsert_totp_device i v d n = Inr (d', k)" "sound_step (Some (si_refresh_token_id i)) db d"
  shows "sound_step (Some (si_refresh_token_id i)) db d'"
  using assms sound_step_insert_device [of _ d d' k]
  by (auto simp: upsert_totp_device_def update_stmt_Inr core_simps split: if_splits intro!: sound_step_devices)

lemma totp_login_sound:
  assumes "schema_ok db"
  shows "sound_step (Some (si_refresh_token_id i)) db (fst (create_totp_password_grant_session i v db))"
proof -
  let ?P = "sound_step (Some (si_refresh_token_id i)) db"
  have "?P d'" if "consume_login_totp_step i v d n = Inr (d', k)" "?P d" for d n d' k
    using that by (auto simp: consume_login_totp_step_def update_stmt_Inr sound_step_totp)
  moreover have "?P d'" if "insert_totp_token i v d n = Inr (d', k)" "?P d" for d n d' k
    using that sound_step_insert_token [of "login_token_row i d" d d' k]
    by (auto simp: insert_totp_token_def split: if_splits)
  ultimately have "?P (fst (with_batch [consume_login_totp_step i v, upsert_totp_device i v, insert_totp_token i v]
       (session_batch_result m) db))" for m
    using assms upsert_totp_device_sound
    by (intro with_batch_invariant [where P = ?P]) (auto simp: sound_step_refl)
  then show ?thesis
    using assms by (simp add: create_totp_password_grant_session_def sound_step_refl)
qed

lemma device_edit_session [simp]:
  "d_session_id (set_device_metadata name type now d) = d_session_id d"
  "d_session_id (set_device_keys keys now d) = d_session_id d"
  by (simp_all add: set_device_metadata_def set_device_keys_def)

lemma metadata_sound:
  "schema_ok db \<Longrightarrow> sound_step None db (fst (update_device_metadata u did name type now db))"
  unfolding update_device_metadata_def
  by (auto simp: sound_step_refl core_simps update_stmt_Inr split: option.split
      intro!: with_batch_invariant [where P = "sound_step None db"] sound_step_devices)

lemma device_keys_sound:
  "schema_ok db \<Longrightarrow> sound_step None db (fst (update_device_keys u ref keys now db))"
  unfolding update_device_keys_def
  by (auto simp: sound_step_refl core_simps update_stmt_Inr split: option.split
      intro!: with_batch_invariant [where P = "sound_step None db"] sound_step_devices)

lemma trusted_device_keys_sound:
  "schema_ok db \<Longrightarrow> sound_step None db (fst (update_trusted_device_keys u us now db))"
  unfolding update_trusted_device_keys_def
  by (auto simp: sound_step_refl core_simps update_stmt_Inr write_device_keys_def
      split: option.split sum.split prod.split
      intro!: with_batch_invariant [where P = "sound_step None db"] sound_step_devices)

lemma delete_expired_sound:
  assumes "schema_ok db"
  shows "sound_step None db (fst (delete_expired_refresh_tokens now limit db))"
proof (cases "to_iso_string (map_option (\<lambda>ms. ms - 30 * 86400000) (date_parse now))")
  case Inl
  then show ?thesis using assms by (simp add: delete_expired_refresh_tokens_def sound_step_refl)
next
  case (Inr before)
  let ?rest = "fst (delete_expired_rows before limit (refresh_tokens db))"
  obtain p where rest: "?rest = sql_delete p (refresh_tokens db)"
    by (simp add: delete_expired_rows_def delete_oldest_def Let_def)
  have eq: "fst (delete_expired_refresh_tokens now limit db) = db\<lparr>refresh_tokens := unlink_deleted ?rest\<rparr>"
    using Inr by (simp add: delete_expired_refresh_tokens_def split: prod.split)
  have keys: "map rt_id (unlink_deleted ts) = map rt_id ts"
    "map rt_token_hash (unlink_deleted ts) = map rt_token_hash ts" for ts
    by (simp_all add: unlink_deleted_def)
  have member: "\<exists>t \<in> set (refresh_tokens db). token_core t = token_core t' \<and> rt_revoked_at t = rt_revoked_at t' \<and>
      rt_rotated_from_token_id t' \<in> {None, rt_rotated_from_token_id t}"
    if "t' \<in> set (unlink_deleted ?rest)" for t'
  proof -
    from that obtain t where "t \<in> set ?rest" "t' = t \<or> t' = t\<lparr>rt_rotated_from_token_id := None\<rparr>"
      by (auto simp: unlink_deleted_def)
    then show ?thesis
      by (intro bexI [of _ t]) (auto simp: rest set_sql_delete token_core_def)
  qed
  have "tokens_unique (db\<lparr>refresh_tokens := unlink_deleted ?rest\<rparr>)"
    using assms by (simp add: tokens_unique_def keys rest schema_ok_def distinct_key_sql_delete)
  moreover have "user_exists (rt_user_id t') db \<and> device_exists (rt_device_id t') db"
    if "t' \<in> set (unlink_deleted ?rest)" for t'
    using member [OF that] assms by (auto simp: schema_ok_def token_core_def)
  ultimately have "schema_ok (db\<lparr>refresh_tokens := unlink_deleted ?rest\<rparr>)"
    using assms by (simp add: schema_ok_def devices_unique_def user_exists_def device_exists_def)
  moreover have "token_from (refresh_tokens db) t'" if "t' \<in> set (unlink_deleted ?rest)" for t'
    using member [OF that] unfolding token_from_def token_core_def by (metis prod.inject)
  ultimately show ?thesis
    unfolding eq by (auto simp: sound_step_def evolves_def session_from_def)
qed

section \<open>Runs of session operations\<close>

datatype session_op =
    Login device_session_input
  | Rotate rotate_input
  | RevokeCurrent string string string string
  | RevokeDevice string string string
  | RevokeOthers string string string
  | Invalidate string string string "string option"
  | DeleteExpired string int
  | UpdateMetadata string string "string option" "int option" string
  | UpdateKeys string string device_keys string
  | UpdateTrusted string "(string \<times> device_keys) list" string

fun session_exec :: "session_op \<Rightarrow> database \<Rightarrow> database" where
  "session_exec (Login i) db = fst (create_password_grant_session i db)"
| "session_exec (Rotate i) db = fst (rotate_refresh_token i db)"
| "session_exec (RevokeCurrent u di sid now) db = fst (revoke_current_device_session u di sid now db)"
| "session_exec (RevokeDevice u did now) db = fst (revoke_device_session u did now db)"
| "session_exec (RevokeOthers u did now) db = fst (revoke_other_device_sessions u did now db)"
| "session_exec (Invalidate u did now sid) db = fst (invalidate_refresh_token_session u did now sid db)"
| "session_exec (DeleteExpired now limit) db = fst (delete_expired_refresh_tokens now limit db)"
| "session_exec (UpdateMetadata u did name type now) db = fst (update_device_metadata u did name type now db)"
| "session_exec (UpdateKeys u ref keys now) db = fst (update_device_keys u ref keys now db)"
| "session_exec (UpdateTrusted u us now) db = fst (update_trusted_device_keys u us now db)"

text \<open>The token id an operation draws with \<open>crypto.randomUUID()\<close>.\<close>

fun drawn_id :: "session_op \<Rightarrow> string option" where
  "drawn_id (Login i) = Some (si_refresh_token_id i)"
| "drawn_id (Rotate i) = Some (ro_next_refresh_token_id i)"
| "drawn_id _ = None"

text \<open>A run with the ids drawn so far; a drawn id is new.\<close>

inductive session_run :: "string set \<times> database \<Rightarrow> string set \<times> database \<Rightarrow> bool" where
  stay: "session_run s s"
| step: "session_run s (issued, db) \<Longrightarrow> set_option (drawn_id op) \<inter> issued = {} \<Longrightarrow>
     session_run s (issued \<union> set_option (drawn_id op), session_exec op db)"

definition live :: "refresh_token_row \<Rightarrow> bool" where
  "live t \<longleftrightarrow> rt_revoked_at t = None"

definition single_live :: "database \<Rightarrow> bool" where
  "single_live db \<longleftrightarrow>
     (\<forall>s \<in> set (refresh_tokens db). \<forall>t \<in> set (refresh_tokens db).
        live s \<and> live t \<and> rt_session_id s \<noteq> None \<and> rt_session_id s = rt_session_id t \<longrightarrow> s = t)"

definition ids_issued :: "string set \<Rightarrow> database \<Rightarrow> bool" where
  "ids_issued issued db \<longleftrightarrow>
     (\<forall>t \<in> set (refresh_tokens db). rt_id t \<in> issued \<and> set_option (rt_session_id t) \<subseteq> issued \<and>
        set_option (rt_rotated_from_token_id t) \<subseteq> issued) \<and>
     (\<forall>d \<in> set (devices db). set_option (d_session_id d) \<subseteq> issued)"

definition session_inv :: "string set \<times> database \<Rightarrow> bool" where
  "session_inv s = (case s of (issued, db) \<Rightarrow> schema_ok db \<and> single_live db \<and> ids_issued issued db)"

text \<open>A token id that names no live token, and never will again because it is spent.\<close>

definition spent :: "string \<Rightarrow> string set \<times> database \<Rightarrow> bool" where
  "spent tid s = (case s of (issued, db) \<Rightarrow>
     tid \<in> issued \<and> (\<forall>t \<in> set (refresh_tokens db). rt_id t = tid \<longrightarrow> \<not> live t))"

lemma ids_issued_fresh: "ids_issued issued db \<Longrightarrow> tid \<notin> issued \<Longrightarrow> fresh_token_id tid db"
  by (fastforce simp: ids_issued_def fresh_token_id_def)

lemma fresh_not_from:
  "fresh_token_id tid db \<Longrightarrow> token_from (refresh_tokens db) t \<Longrightarrow> rt_id t \<noteq> tid \<and> rt_session_id t \<noteq> Some tid"
  unfolding token_from_def fresh_token_id_def by (metis (no_types, lifting))

lemma sound_step_single_live:
  assumes "sound_step tid db db'" "schema_ok db" "single_live db" "\<And>x. tid = Some x \<Longrightarrow> fresh_token_id x db"
  shows "single_live db'"
  unfolding single_live_def
proof (intro ballI impI)
  fix s t
  assume s: "s \<in> set (refresh_tokens db')" and t: "t \<in> set (refresh_tokens db')"
    and h: "live s \<and> live t \<and> rt_session_id s \<noteq> None \<and> rt_session_id s = rt_session_id t"
  have ok: "schema_ok db'" using assms(1) by (simp add: sound_step_def)
  have new: "token_from (refresh_tokens db) r \<or> Some (rt_id r) = tid \<and> rt_session_id r = tid"
      if "r \<in> set (refresh_tokens db')" for r
    using assms(1) that by (auto simp: sound_step_def evolves_def)
  have "rt_id s = rt_id t"
  proof (cases "rt_session_id s = tid")
    case True
    with h obtain x where "tid = Some x" by auto
    with new [OF s] new [OF t] True h fresh_not_from [OF assms(4)] show ?thesis
      by (metis option.inject)
  next
    case False
    with new [OF s] new [OF t] h obtain a b where
      "a \<in> set (refresh_tokens db)" "rt_id a = rt_id s" "rt_session_id a = rt_session_id s" "live a"
      "b \<in> set (refresh_tokens db)" "rt_id b = rt_id t" "rt_session_id b = rt_session_id t" "live b"
      unfolding token_from_def live_def by metis
    with assms(3) h show ?thesis unfolding single_live_def by metis
  qed
  then show "s = t" using token_unique [OF ok s t] by simp
qed

lemma sound_step_issued:
  assumes "sound_step tid db db'" "ids_issued issued db"
  shows "ids_issued (issued \<union> set_option tid) db'"
proof -
  have "rt_id t \<in> issued \<union> set_option tid \<and> set_option (rt_session_id t) \<subseteq> issued \<union> set_option tid \<and>
      set_option (rt_rotated_from_token_id t) \<subseteq> issued \<union> set_option tid"
    if "t \<in> set (refresh_tokens db')" for t
  proof -
    from assms(1) that consider "token_from (refresh_tokens db) t" |
      "Some (rt_id t) = tid" "rt_session_id t = tid" "rt_rotated_from_token_id t = None"
      by (auto simp: sound_step_def evolves_def)
    then show ?thesis
    proof cases
      case 1
      then obtain a where a: "a \<in> set (refresh_tokens db)" "rt_id a = rt_id t" "rt_session_id a = rt_session_id t"
        "rt_rotated_from_token_id t \<in> {None, rt_rotated_from_token_id a}"
        by (auto simp: token_from_def)
      have "rt_id a \<in> issued \<and> set_option (rt_session_id a) \<subseteq> issued \<and>
          set_option (rt_rotated_from_token_id a) \<subseteq> issued"
        using assms(2) a(1) by (simp add: ids_issued_def)
      then show ?thesis using a(2-4) by (cases "rt_rotated_from_token_id t = None") (simp_all add: le_supI1)
    qed auto
  qed
  moreover have "set_option (d_session_id d) \<subseteq> issued \<union> set_option tid" if "d \<in> set (devices db')" for d
    using assms that by (fastforce simp: sound_step_def evolves_def session_from_def ids_issued_def)
  ultimately show ?thesis by (simp add: ids_issued_def)
qed

lemma sound_step_spent:
  assumes "sound_step tid db db'" "spent x (issued, db)" "set_option tid \<inter> issued = {}"
  shows "spent x (issued \<union> set_option tid, db')"
proof -
  have "\<not> live t" if t: "t \<in> set (refresh_tokens db')" "rt_id t = x" for t
  proof -
    from assms(1) t(1) consider "token_from (refresh_tokens db) t" | "Some (rt_id t) = tid"
      by (auto simp: sound_step_def evolves_def)
    then show ?thesis
      using assms(2,3) t(2) by cases (auto simp: token_from_def spent_def live_def)
  qed
  then show ?thesis using assms(2) by (simp add: spent_def)
qed

section \<open>The invariant of a run\<close>

lemma session_run_trans: "session_run s t \<Longrightarrow> session_run r s \<Longrightarrow> session_run r t"
  by (induction rule: session_run.induct) (auto intro: session_run.intros)

lemma rotated_tokens:
  "set (refresh_tokens (rotated_database i t db)) =
     insert (replacement_row i db t)
       ((\<lambda>r. if rt_id r = rt_id t then revoke_token (ro_now i) r else r) ` set (refresh_tokens db))"
  by (simp add: rotated_database_def)

lemma rotated_devices:
  "d \<in> set (devices (rotated_database i t db)) \<Longrightarrow> \<exists>e \<in> set (devices db). d_session_id e = d_session_id d"
  by (auto simp: rotated_database_def set_sql_update touch_device_def)

lemma rotated_schema_ok:
  assumes "schema_ok db" "t \<in> set (refresh_tokens db)" "fresh_token_id (ro_next_refresh_token_id i) db"
    and "\<forall>r \<in> set (refresh_tokens db). rt_token_hash r \<noteq> ro_next_refresh_token_hash i"
    and "devices_unique (rotated_database i t db)"
  shows "schema_ok (rotated_database i t db)"
proof -
  let ?db = "rotated_database i t db"
  have u: "user_exists x ?db = user_exists x db" for x
    by (simp add: rotated_database_def user_exists_def)
  have "map d_id (devices ?db) = map d_id (devices db)"
    by (simp add: rotated_database_def sql_update_def touch_device_def)
  then have d: "device_exists x ?db = device_exists x db" for x
    unfolding device_exists_def by (rule sql_exists_core) simp
  have dev: "d_user_id e \<in> d_user_id ` set (devices db)" if "e \<in> set (devices ?db)" for e
    using that by (auto simp: rotated_database_def set_sql_update touch_device_def)
  have hash: "rt_token_hash (if P then revoke_token n r else r) = rt_token_hash r" for P n r
    by (simp add: revoke_token_def)
  have ids: "rt_id (if P then revoke_token n r else r) = rt_id r" for P n r by simp
  have "tokens_unique ?db"
    using assms(1,3,4)
    by (auto simp: tokens_unique_def rotated_database_def schema_ok_def fresh_token_id_def o_def hash ids)
  moreover have "\<forall>r \<in> set (refresh_tokens ?db). user_exists (rt_user_id r) db \<and> device_exists (rt_device_id r) db"
    using assms(1,2) by (auto simp: rotated_tokens schema_ok_def)
  moreover have "\<forall>e \<in> set (devices ?db). user_exists (d_user_id e) db"
    using dev assms(1) by (fastforce simp: schema_ok_def)
  ultimately show ?thesis
    using assms(1,5) by (simp add: schema_ok_def u d) (simp add: rotated_database_def)
qed

lemma rotated_inv:
  assumes "session_inv (issued, db)" "ro_next_refresh_token_id i \<notin> issued"
    and t: "sql_first (rotatable i db) (refresh_tokens db) = Some t"
    and "schema_ok (rotated_database i t db)"
  shows "session_inv (issued \<union> {ro_next_refresh_token_id i}, rotated_database i t db)"
proof -
  note tf = rotatable_facts [OF t]
  have ok: "schema_ok db" and sl: "single_live db" and iss: "ids_issued issued db"
    using assms(1) by (simp_all add: session_inv_def)
  have only: "r = t" if "r \<in> set (refresh_tokens db)" "live r" "rt_session_id r = rt_session_id t" for r
    using sl that tf unfolding single_live_def live_def by force
  have "rt_id r = rt_id t \<longleftrightarrow> r = t" if "r \<in> set (refresh_tokens db)" for r
    using token_unique [OF ok that tf(1)] by auto
  then have kept: "r \<in> set (refresh_tokens db)"
    if "r \<in> (\<lambda>r. if rt_id r = rt_id t then revoke_token (ro_now i) r else r) ` set (refresh_tokens db)" "live r" for r
    using that by (auto simp: live_def split: if_splits)
  have dead: "\<not> (live r \<and> rt_session_id r = rt_session_id t)"
    if "r \<in> (\<lambda>r. if rt_id r = rt_id t then revoke_token (ro_now i) r else r) ` set (refresh_tokens db)" for r
  proof
    assume h: "live r \<and> rt_session_id r = rt_session_id t"
    then have "r = t" using only kept that by blast
    moreover from that h obtain q where "q \<in> set (refresh_tokens db)" "rt_id q \<noteq> rt_id t" "r = q"
      by (auto simp: live_def split: if_splits)
    ultimately show False by simp
  qed
  have "single_live (rotated_database i t db)"
    unfolding single_live_def rotated_tokens
    using dead kept sl unfolding single_live_def
    by (metis (no_types, lifting) insertE replacement_row_simps(7))
  moreover have "ids_issued (issued \<union> {ro_next_refresh_token_id i}) (rotated_database i t db)"
    using iss tf(1) rotated_devices [of _ i t db]
    by (fastforce simp: ids_issued_def rotated_tokens revoke_token_def split: if_splits)
  ultimately show ?thesis using assms(4) by (simp add: session_inv_def)
qed

lemma sound_step_inv:
  assumes "sound_step tid db db'" "session_inv (issued, db)" "set_option tid \<inter> issued = {}"
  shows "session_inv (issued \<union> set_option tid, db')"
proof -
  have iss: "ids_issued issued db" and ok: "schema_ok db" and sl: "single_live db"
    using assms(2) by (simp_all add: session_inv_def)
  have "fresh_token_id x db" if "tid = Some x" for x
    using that assms(3) ids_issued_fresh [OF iss, of x] by auto
  then have "single_live db'" using sound_step_single_live [OF assms(1) ok sl] by blast
  with sound_step_issued [OF assms(1) iss] assms(1) show ?thesis
    by (simp add: session_inv_def sound_step_def)
qed

lemma rotate_cases:
  assumes "session_inv (issued, db)" "ro_next_refresh_token_id i \<notin> issued"
  obtains (reuse) "rotate_refresh_token i db =
      (fst (invalidate_refresh_token_session (ro_user_id i) (ro_device_id i) (ro_now i)
         (Some (ro_expected_session_id i)) db), Inr ReuseDetected)"
      "sql_first (rotatable i db) (refresh_tokens db) = None"
    | (failed) "rotate_refresh_token i db = (db, Inl ConstraintError)"
    | (rotated) t where "rotate_refresh_token i db = (rotated_database i t db, Inr Rotated)"
      "sql_first (rotatable i db) (refresh_tokens db) = Some t" "schema_ok (rotated_database i t db)"
proof -
  have ok: "schema_ok db" and f: "fresh_token_id (ro_next_refresh_token_id i) db"
    using assms by (auto simp: session_inv_def intro: ids_issued_fresh)
  show thesis
  proof (cases "sql_first (rotatable i db) (refresh_tokens db)")
    case None
    then show thesis using reuse rotate_reuse [OF ok f] by blast
  next
    case (Some t)
    show thesis
    proof (cases "(\<forall>r \<in> set (refresh_tokens db). rt_token_hash r \<noteq> ro_next_refresh_token_hash i)
        \<and> devices_unique (rotated_database i t db)")
      case True
      moreover have "schema_ok (rotated_database i t db)"
        using True rotated_schema_ok [OF ok rotatable_facts(1) [OF Some] f] by blast
      ultimately show thesis using rotated [of t] rotate_with_token [OF ok f Some] Some by simp
    next
      case False
      then show thesis using failed rotate_with_token [OF ok f Some] by auto
    qed
  qed
qed

lemma session_step_sound:
  assumes "session_inv (issued, db)" "\<And>i. op \<noteq> Rotate i"
  shows "sound_step (drawn_id op) db (session_exec op db)"
proof -
  have ok: "schema_ok db" using assms(1) by (simp add: session_inv_def)
  show ?thesis
  proof (cases op)
    case (Login i)
    then show ?thesis
      using login_sound [OF ok, of i] totp_login_sound [OF ok, of i]
      by (cases "si_totp_verification i") (auto simp: create_password_grant_session_def)
  qed (use assms(2) ok in \<open>auto intro: revoke_current_sound revoke_device_sound revoke_others_sound
      invalidate_sound delete_expired_sound metadata_sound device_keys_sound trusted_device_keys_sound\<close>)
qed

lemma session_step_inv:
  assumes "session_inv (issued, db)" "set_option (drawn_id op) \<inter> issued = {}"
  shows "session_inv (issued \<union> set_option (drawn_id op), session_exec op db)"
proof (cases "\<exists>i. op = Rotate i")
  case False
  then show ?thesis using sound_step_inv [OF session_step_sound] assms by blast
next
  case True
  then obtain i where op: "op = Rotate i" by blast
  with assms(2) have n: "ro_next_refresh_token_id i \<notin> issued" by simp
  have ok: "schema_ok db" using assms(1) by (simp add: session_inv_def)
  have grow: "session_inv (insert y issued, d)" if "session_inv (issued, d)" for y d
    using that by (fastforce simp: session_inv_def ids_issued_def)
  show ?thesis
    using assms(1) n
  proof (cases rule: rotate_cases)
    case reuse
    then show ?thesis
      using sound_step_inv [OF invalidate_sound [OF ok] assms(1)] by (simp add: op grow)
  next
    case failed
    then show ?thesis using assms(1) by (simp add: op grow)
  next
    case (rotated t)
    then show ?thesis using rotated_inv [OF assms(1) n rotated(2,3)] by (simp add: op)
  qed
qed

lemma session_run_inv: "session_run s s' \<Longrightarrow> session_inv s \<Longrightarrow> session_inv s'"
  by (induction rule: session_run.induct) (auto intro: session_step_inv)

lemma session_step_spent:
  assumes "session_inv (issued, db)" "set_option (drawn_id op) \<inter> issued = {}" "spent x (issued, db)"
  shows "spent x (issued \<union> set_option (drawn_id op), session_exec op db)"
proof (cases "\<exists>i. op = Rotate i")
  case False
  then show ?thesis using sound_step_spent [OF session_step_sound] assms by blast
next
  case True
  then obtain i where op: "op = Rotate i" by blast
  with assms(2) have n: "ro_next_refresh_token_id i \<notin> issued" by simp
  have ok: "schema_ok db" using assms(1) by (simp add: session_inv_def)
  show ?thesis
    using assms(1) n
  proof (cases rule: rotate_cases)
    case reuse
    then show ?thesis
      using sound_step_spent [OF invalidate_sound [OF ok] assms(3)] by (simp add: op spent_def)
  next
    case failed
    then show ?thesis using assms(3) by (simp add: op spent_def)
  next
    case (rotated t)
    then show ?thesis
      using assms(3) n by (auto simp: op spent_def rotated_tokens live_def split: if_splits)
  qed
qed

lemma session_run_spent: "session_run s s' \<Longrightarrow> session_inv s \<Longrightarrow> spent x s \<Longrightarrow> spent x s'"
proof (induction rule: session_run.induct)
  case (step s issued db op)
  then show ?case using session_step_spent session_run_inv by blast
qed simp

section \<open>A sample history\<close>

definition sample_user :: user_row where
  "sample_user =
     \<lparr>u_id = ''u1'', u_email = ''a@b.co'', u_email_normalized = ''a@b.co'', u_email_verified_at = None,
      u_display_name = None, u_kdf_algorithm = ''pbkdf2-sha256'', u_kdf_iterations = 600000, u_kdf_memory = None,
      u_kdf_parallelism = None, u_master_password_hash = ''hash'', u_user_key = None, u_user_key_id = None,
      u_public_key = None, u_private_key = None, u_security_stamp = ''stamp'', u_revision_date = ''r'',
      u_created_at = ''c'', u_updated_at = ''c'', u_disabled_at = None, u_login_failed_count = 0,
      u_login_failed_at = None, u_login_locked_until = None\<rparr>"

definition sample_totp :: totp_row where
  "sample_totp =
     \<lparr>tf_user_id = ''u1'', tf_encrypted_secret = ''s'', tf_enabled = True, tf_verified_at = Some ''v'',
      tf_last_accepted_step = Some 7, tf_credential_generation = Some ''g'', tf_pending_encrypted_secret = None,
      tf_pending_created_at = None, tf_created_at = ''c'', tf_updated_at = ''c''\<rparr>"

definition sample_database :: database where
  "sample_database = (empty_database ''n'')\<lparr>users := [sample_user]\<rparr>"

definition sample_login :: "string \<Rightarrow> device_session_input" where
  "sample_login tid =
     \<lparr>si_user_id = ''u1'', si_expected_master_password_hash = ''hash'', si_expected_security_stamp = ''stamp'',
      si_device_identifier = ''d'', si_device_name = Some ''phone'', si_device_type = Some 1,
      si_refresh_token_id = tid, si_refresh_token_hash = ''h'' @ tid, si_refresh_token_expires_at = ''e'',
      si_now = ''n'', si_totp_verification = None, si_require_totp_disabled = True\<rparr>"

definition sample_rotation :: "string \<Rightarrow> string \<Rightarrow> rotate_input" where
  "sample_rotation old new =
     \<lparr>ro_current_token_id = old, ro_expected_session_id = ''t1'', ro_user_id = ''u1'', ro_device_id = ''u1:d'',
      ro_expected_security_stamp = ''stamp'', ro_device_identifier = ''d'', ro_device_name = None,
      ro_device_type = None, ro_next_refresh_token_id = new, ro_next_refresh_token_hash = ''h'' @ new,
      ro_next_refresh_token_expires_at = ''e'', ro_now = ''n''\<rparr>"

definition sample_logged_in :: database where
  "sample_logged_in = fst (create_password_grant_session (sample_login ''t1'') sample_database)"

lemma sample_start: "session_inv ({}, sample_database)"
  by (simp add: session_inv_def single_live_def ids_issued_def schema_ok_def devices_unique_def
      tokens_unique_def sample_database_def empty_database_def)

lemma sample_run: "session_run ({}, sample_database) ({''t1''}, sample_logged_in)"
  using session_run.step [where op = "Login (sample_login ''t1'')" and issued = "{}" and db = sample_database
      and s = "({}, sample_database)", OF session_run.stay]
  by (simp add: sample_logged_in_def sample_login_def)

lemma sample_logged_in_inv: "session_inv ({''t1''}, sample_logged_in)"
  by (rule session_run_inv [OF sample_run sample_start])

lemmas sample_defs = sample_database_def sample_user_def sample_login_def sample_rotation_def sample_totp_def
  empty_database_def

lemma sample_logged_in_devices:
  "devices sample_logged_in = [start_device_session (sample_login ''t1'') (login_device_row (sample_login ''t1'') sample_database)]"
  by code_simp

lemma sample_logged_in_tokens:
  "refresh_tokens sample_logged_in = [login_token_row (sample_login ''t1'') sample_database]"
  by code_simp

lemma sample_rotation_succeeds:
  "snd (rotate_refresh_token (sample_rotation ''t1'' ''t2'') sample_logged_in) = Inr Rotated"
  by code_simp

section \<open>Properties\<close>

text \<open>
  C16. One live refresh token per session. Starting from tables with no token and no device session, after
  any sequence of logins (with or without TOTP), rotations, revocations, clean-ups and device updates in
  which the drawn token ids are new, two live refresh tokens of the same session are the same token.
\<close>
theorem single_live_token_per_session:
  assumes "schema_ok db0" "refresh_tokens db0 = []" "\<forall>d \<in> set (devices db0). d_session_id d = None"
    and "session_run ({}, db0) (issued, db)"
    and "s \<in> set (refresh_tokens db)" "t \<in> set (refresh_tokens db)" "rt_revoked_at s = None" "rt_revoked_at t = None"
    and "rt_session_id s = Some sid" "rt_session_id t = Some sid"
  shows "s = t"
proof -
  have "session_inv ({}, db0)"
    using assms(1-3) by (simp add: session_inv_def single_live_def ids_issued_def)
  then have "single_live db" using session_run_inv [OF assms(4)] by (simp add: session_inv_def)
  then show ?thesis using assms(5-) by (auto simp: single_live_def live_def)
qed

theorem single_live_token_per_session_witness:
  "hd (refresh_tokens sample_logged_in) = last (refresh_tokens sample_logged_in)"
  by (rule single_live_token_per_session [OF _ _ _ sample_run, where sid = "''t1''"])
    (use sample_start in \<open>auto simp: session_inv_def sample_database_def empty_database_def
       sample_logged_in_tokens sample_login_def\<close>)

lemma rotated_spent:
  assumes "session_inv (issued, db)" "ro_next_refresh_token_id i \<notin> issued"
    and "rotate_refresh_token i db = (db1, Inr Rotated)"
  shows "session_inv (insert (ro_next_refresh_token_id i) issued, db1)"
    and "spent (ro_current_token_id i) (insert (ro_next_refresh_token_id i) issued, db1)"
proof -
  show inv: "session_inv (insert (ro_next_refresh_token_id i) issued, db1)"
    using session_step_inv [OF assms(1), of "Rotate i"] assms(2,3) by simp
  show "spent (ro_current_token_id i) (insert (ro_next_refresh_token_id i) issued, db1)"
    using assms(1,2)
  proof (cases rule: rotate_cases)
    case (rotated t)
    note tf = rotatable_facts [OF rotated(2)]
    have "ro_current_token_id i \<in> issued"
      using assms(1) tf(1,2) by (auto simp: session_inv_def ids_issued_def)
    with rotated assms(2,3) tf(2) show ?thesis
      by (auto simp: spent_def rotated_tokens live_def split: if_splits)
  qed (use assms(3) in auto)
qed

text \<open>
  C15. A refresh token is rotated at most once. After a successful rotation of a token, in every later state of
  the session tables the same token no longer rotates: the attempt reports reuse and yields no new token.
\<close>
theorem refresh_token_rotates_once:
  assumes "session_inv (issued, db)" "ro_next_refresh_token_id i \<notin> issued"
    and "rotate_refresh_token i db = (db1, Inr Rotated)"
    and "session_run (insert (ro_next_refresh_token_id i) issued, db1) (issued2, db2)"
    and "ro_current_token_id j = ro_current_token_id i" "ro_next_refresh_token_id j \<notin> issued2"
  shows "snd (rotate_refresh_token j db2) = Inr ReuseDetected"
proof -
  note r = rotated_spent [OF assms(1-3)]
  have "session_inv (issued2, db2)" "spent (ro_current_token_id j) (issued2, db2)"
    using session_run_inv [OF assms(4) r(1)] session_run_spent [OF assms(4) r] by (simp_all add: assms(5))
  then have "sql_first (rotatable j db2) (refresh_tokens db2) = None"
    by (auto simp: sql_first_None rotatable_def spent_def live_def)
  then show ?thesis
    using rotate_reuse [OF _ ids_issued_fresh [OF _ assms(6)]] \<open>session_inv (issued2, db2)\<close>
    by (simp add: session_inv_def)
qed

theorem refresh_token_rotates_once_witness:
  "snd (rotate_refresh_token (sample_rotation ''t1'' ''t3'')
     (fst (rotate_refresh_token (sample_rotation ''t1'' ''t2'') sample_logged_in))) = Inr ReuseDetected"
  by (rule refresh_token_rotates_once [OF sample_logged_in_inv, where i = "sample_rotation ''t1'' ''t2''"
        and ?issued2.0 = "{''t1'', ''t2''}"])
    (use sample_rotation_succeeds in \<open>auto simp: sample_rotation_def insert_commute prod_eq_iff intro: session_run.stay\<close>)

text \<open>What the invalidation of one session does.\<close>

lemma invalidated_session:
  fixes u did now sid db
  defines "db' \<equiv> fst (invalidate_refresh_token_session u did now (Some sid) db)"
  shows "(\<forall>t \<in> set (refresh_tokens db'). rt_user_id t = u \<and> rt_device_id t = did \<and> rt_session_id t = Some sid \<longrightarrow> rt_revoked_at t \<noteq> None) \<and>
    (\<forall>d \<in> set (devices db'). d_user_id d = u \<and> d_id d = did \<and> d_session_id d = Some sid \<longrightarrow> d_revoked_at d \<noteq> None) \<and>
    map rt_id (refresh_tokens db') = map rt_id (refresh_tokens db) \<and> users db' = users db \<and>
    filter (\<lambda>t. rt_user_id t \<noteq> u \<or> rt_device_id t \<noteq> did) (refresh_tokens db') =
      filter (\<lambda>t. rt_user_id t \<noteq> u \<or> rt_device_id t \<noteq> did) (refresh_tokens db) \<and>
    filter (\<lambda>d. d_user_id d \<noteq> u \<or> d_id d \<noteq> did) (devices db') = filter (\<lambda>d. d_user_id d \<noteq> u \<or> d_id d \<noteq> did) (devices db)"
proof -
  let ?p = "\<lambda>t. rt_user_id t = u \<and> rt_device_id t = did \<and> rt_revoked_at t = None \<and> (truthy (Some sid) \<longrightarrow> sql_eq (rt_session_id t) (Some sid))"
  let ?q = "\<lambda>d. d_id d = did \<and> d_user_id d = u \<and> (truthy (Some sid) \<longrightarrow> sql_eq (d_session_id d) (Some sid))"
  have t: "refresh_tokens db' = sql_update ?p (\<lambda>t. t\<lparr>rt_revoked_at := Some now\<rparr>) (refresh_tokens db)"
    and d: "devices db' = sql_update ?q (\<lambda>d. d\<lparr>d_revoked_at := Some now, d_updated_at := now\<rparr>) (devices db)"
    and us: "users db' = users db"
    by (simp_all add: db'_def invalidate_refresh_token_session_def with_batch_def batch_eval)
  have keys: "map rt_id (refresh_tokens db') = map rt_id (refresh_tokens db)" unfolding t by (rule sql_update_key) simp
  have ft: "filter (\<lambda>t. rt_user_id t \<noteq> u \<or> rt_device_id t \<noteq> did) (refresh_tokens db') =
      filter (\<lambda>t. rt_user_id t \<noteq> u \<or> rt_device_id t \<noteq> did) (refresh_tokens db)"
    unfolding t by (rule filter_sql_update) simp
  have fd: "filter (\<lambda>d. d_user_id d \<noteq> u \<or> d_id d \<noteq> did) (devices db') = filter (\<lambda>d. d_user_id d \<noteq> u \<or> d_id d \<noteq> did) (devices db)"
    unfolding d by (rule filter_sql_update) simp
  have "\<forall>t \<in> set (refresh_tokens db'). rt_user_id t = u \<and> rt_device_id t = did \<and> rt_session_id t = Some sid \<longrightarrow> rt_revoked_at t \<noteq> None"
    unfolding t ball_sql_update by auto
  moreover have "\<forall>d \<in> set (devices db'). d_user_id d = u \<and> d_id d = did \<and> d_session_id d = Some sid \<longrightarrow> d_revoked_at d \<noteq> None"
    unfolding d ball_sql_update by auto
  ultimately show ?thesis using keys us ft fd by blast
qed

text \<open>
  C17. Presenting a token that cannot be rotated ends the session it names. When the presented token is live, belongs to the user, the
  device and the session the request names, the device is live in that session and the user enabled with the expected
  stamp, the rotation succeeds, unless the new row clashes with a stored one. In every other case (the token is spent or unknown, of another user, device
  or session, or its device, session or owner is no longer current) the answer is that reuse was detected: no token is issued,
  no token of that user, device and session stays live, a device in that session is revoked, and the tokens and devices of
  everybody else are as they were.
\<close>
theorem reuse_ends_session:
  assumes "schema_ok db" "fresh_token_id (ro_next_refresh_token_id i) db"
  shows "if (\<exists>t \<in> set (refresh_tokens db). rt_id t = ro_current_token_id i \<and> rt_user_id t = ro_user_id i \<and>
              rt_device_id t = ro_device_id i \<and> rt_revoked_at t = None \<and> rt_session_id t = Some (ro_expected_session_id i)) \<and>
            (\<exists>d \<in> set (devices db). d_id d = ro_device_id i \<and> d_user_id d = ro_user_id i \<and> d_revoked_at d = None \<and>
              d_session_id d = Some (ro_expected_session_id i)) \<and>
            (\<exists>u \<in> set (users db). u_id u = ro_user_id i \<and> u_disabled_at u = None \<and>
              u_security_stamp u = ro_expected_security_stamp i)
         then snd (rotate_refresh_token i db) \<in> {Inr Rotated, Inl ConstraintError}
         else \<exists>db'. rotate_refresh_token i db = (db', Inr ReuseDetected) \<and>
           (\<forall>t \<in> set (refresh_tokens db'). rt_user_id t = ro_user_id i \<and> rt_device_id t = ro_device_id i \<and>
              rt_session_id t = Some (ro_expected_session_id i) \<longrightarrow> rt_revoked_at t \<noteq> None) \<and>
           (\<forall>d \<in> set (devices db'). d_user_id d = ro_user_id i \<and> d_id d = ro_device_id i \<and>
              d_session_id d = Some (ro_expected_session_id i) \<longrightarrow> d_revoked_at d \<noteq> None) \<and>
           map rt_id (refresh_tokens db') = map rt_id (refresh_tokens db) \<and> users db' = users db \<and>
           filter (\<lambda>t. rt_user_id t \<noteq> ro_user_id i \<or> rt_device_id t \<noteq> ro_device_id i) (refresh_tokens db') =
             filter (\<lambda>t. rt_user_id t \<noteq> ro_user_id i \<or> rt_device_id t \<noteq> ro_device_id i) (refresh_tokens db) \<and>
           filter (\<lambda>d. d_user_id d \<noteq> ro_user_id i \<or> d_id d \<noteq> ro_device_id i) (devices db') =
             filter (\<lambda>d. d_user_id d \<noteq> ro_user_id i \<or> d_id d \<noteq> ro_device_id i) (devices db)"
    (is "if ?live then _ else ?ended")
proof -
  have live: "?live \<longleftrightarrow> sql_first (rotatable i db) (refresh_tokens db) \<noteq> None"
    by (auto simp: sql_first_None rotatable_def sql_exists_iff)
  show ?thesis
  proof (cases ?live)
    case True
    then obtain t where "sql_first (rotatable i db) (refresh_tokens db) = Some t" using live by blast
    from rotate_with_token [OF assms this] True show ?thesis by simp
  next
    case False
    then have "sql_first (rotatable i db) (refresh_tokens db) = None" using live by blast
    note run = rotate_reuse [OF assms this]
    have ?ended by (rule exI, rule conjI, rule run, rule invalidated_session)
    then show ?thesis using False by presburger
  qed
qed

definition sample_replayed :: "database \<times> (js_error + rotate_result)" where
  "sample_replayed = rotate_refresh_token (sample_rotation ''t1'' ''t3'')
     (fst (rotate_refresh_token (sample_rotation ''t1'' ''t2'') sample_logged_in))"

lemma sample_replay_detected: "snd sample_replayed = Inr ReuseDetected"
  by code_simp

theorem reuse_ends_session_witness:
  "\<exists>db'. sample_replayed = (db', Inr ReuseDetected) \<and> filter (\<lambda>t. rt_revoked_at t = None) (refresh_tokens db') = []"
proof -
  let ?db = "fst (rotate_refresh_token (sample_rotation ''t1'' ''t2'') sample_logged_in)"
  have "session_inv (insert ''t2'' {''t1''}, ?db)"
    by (rule rotated_spent(1) [OF sample_logged_in_inv, of "sample_rotation ''t1'' ''t2''", simplified sample_rotation_def rotate_input.simps,
          folded sample_rotation_def]) (use sample_rotation_succeeds in \<open>auto simp: prod_eq_iff sample_rotation_def\<close>)
  then have "schema_ok ?db" "fresh_token_id ''t3'' ?db" by (auto simp: session_inv_def intro: ids_issued_fresh)
  moreover have "\<forall>t \<in> set (refresh_tokens (fst sample_replayed)). rt_user_id t = ''u1'' \<and> rt_device_id t = ''u1:d'' \<and>
      rt_session_id t = Some ''t1''"
    by code_simp
  moreover have "\<not> (\<exists>t \<in> set (refresh_tokens ?db). rt_id t = ''t1'' \<and> rt_user_id t = ''u1'' \<and>
      rt_device_id t = ''u1:d'' \<and> rt_revoked_at t = None \<and> rt_session_id t = Some ''t1'')"
    by code_simp
  ultimately show ?thesis
    using reuse_ends_session [of ?db "sample_rotation ''t1'' ''t3''"]
    by (auto simp: sample_replayed_def sample_rotation_def filter_empty_conv split: if_splits)
qed

section \<open>Logins\<close>

text \<open>
  C19. A login decided on stale credentials leaves no trace. When no enabled user row has the password hash and
  security stamp the handler checked (they changed in between, or the account was disabled), the login,
  with or without a TOTP code, reports a stale generation and changes nothing, not even the TOTP step.
\<close>
theorem stale_login_leaves_no_trace:
  assumes "\<forall>u \<in> set (users db). \<not> credential_generation_current i u"
  shows "create_password_grant_session i db = (db, Inr StaleGeneration)"
proof -
  have "\<not> login_user_ok i db" "\<not> sql_exists (credential_generation_current i) (users db)"
    using assms by (auto simp: login_user_ok_def sql_exists_iff)
  then show ?thesis
    by (auto simp: create_password_grant_session_def create_totp_password_grant_session_def with_batch_def
        batch_eval login_insert_device_def login_update_device_def login_insert_token_def
        consume_login_totp_step_def upsert_totp_device_def insert_totp_token_def session_batch_result_def
        return_value_def split: option.split)
qed

theorem stale_login_leaves_no_trace_witness:
  "create_password_grant_session ((sample_login ''t1'')\<lparr>si_expected_security_stamp := ''old''\<rparr>) sample_database
     = (sample_database, Inr StaleGeneration)"
  by (rule stale_login_leaves_no_trace) (simp add: sample_defs credential_generation_current_def)

text \<open>The devices table has no row that stands in the way of the login's device row.\<close>

definition login_device_usable :: "device_session_input \<Rightarrow> database \<Rightarrow> bool" where
  "login_device_usable i db \<longleftrightarrow>
     (\<forall>d \<in> set (devices db). (d_id d = login_device_id i) = (device_key d = (si_user_id i, si_device_identifier i)))"

lemma login_insert_device_effect:
  assumes "schema_ok db" "login_user_ok i db" "login_device_usable i db"
  obtains d1 n where "login_insert_device i db p = Inr (d1, n)" "schema_ok d1" "users d1 = users db"
    "user_totp d1 = user_totp db" "refresh_tokens d1 = refresh_tokens db" "sql_clock d1 = sql_clock db"
    "\<exists>d \<in> set (devices d1). d_id d = login_device_id i \<and> d_user_id d = si_user_id i"
proof -
  have ue: "user_exists (si_user_id i) db"
    using assms(2) by (auto simp: login_user_ok_def user_exists_def sql_exists_iff credential_generation_current_def)
  show thesis
  proof (cases "devices_conflict (login_device_row i db) db")
    case True
    then obtain r where r: "r \<in> set (devices db)" "d_id r = login_device_id i \<or> device_key r = (si_user_id i, si_device_identifier i)"
      by (auto simp: devices_conflict_def sql_exists_iff device_key_def)
    with assms(3) have "d_id r = login_device_id i \<and> d_user_id r = si_user_id i"
      by (auto simp: login_device_usable_def device_key_def)
    with r(1) True assms show thesis
      using that [of db 0] by (auto simp: login_insert_device_def insert_or_ignore_device_Inr)
  next
    case False
    with ue assms(1) have "schema_ok (db\<lparr>devices := devices db @ [login_device_row i db]\<rparr>)"
      by (simp add: schema_ok_insert_device)
    with ue assms(2) False show thesis
      using that [of "db\<lparr>devices := devices db @ [login_device_row i db]\<rparr>" 1]
      by (simp add: login_insert_device_def insert_or_ignore_device_Inr)
  qed
qed

text \<open>A password login with the current credentials starts its session.\<close>

lemma password_login_session:
  assumes "schema_ok db" "fresh_token_id (si_refresh_token_id i) db"
    and "\<forall>r \<in> set (refresh_tokens db). rt_token_hash r \<noteq> si_refresh_token_hash i"
    and "si_totp_verification i = None" "login_user_ok i db" "login_device_usable i db"
  shows "\<exists>db'. create_password_grant_session i db = (db', Inr SessionCreated) \<and>
     refresh_tokens db' = refresh_tokens db @ [login_token_row i db] \<and>
     (\<exists>d \<in> set (devices db'). d_id d = login_device_id i \<and> d_user_id d = si_user_id i \<and> d_revoked_at d = None \<and>
        d_session_id d = Some (si_refresh_token_id i)) \<and>
     (\<forall>d \<in> set (devices db'). d_id d = login_device_id i \<longrightarrow> d_session_id d = Some (si_refresh_token_id i))"
proof -
  from login_insert_device_effect [OF assms(1,5,6)] obtain d1 n where
    s1: "login_insert_device i db 0 = Inr (d1, n)" and ok: "schema_ok d1" and
    same: "users d1 = users db" "user_totp d1 = user_totp db" "refresh_tokens d1 = refresh_tokens db"
      "sql_clock d1 = sql_clock db"
    and dev: "\<exists>d \<in> set (devices d1). d_id d = login_device_id i \<and> d_user_id d = si_user_id i"
    by blast
  have user: "login_user_ok i d = login_user_ok i db" if "users d = users db" "user_totp d = user_totp db" for d
    using that by (simp add: login_user_ok_def)
  let ?d2 = "devices_update (sql_update (\<lambda>d. d_id d = login_device_id i \<and> d_user_id d = si_user_id i)
      (start_device_session i)) d1"
  obtain m where s2: "login_update_device i d1 n = Inr (?d2, m)"
    using assms(5) same user [of d1] by (simp add: login_update_device_def update_stmt_def)
  from dev obtain d0 where d0: "d0 \<in> set (devices d1)" "d_id d0 = login_device_id i" "d_user_id d0 = si_user_id i"
    by blast
  define d where "d = start_device_session i d0"
  have d: "d \<in> set (devices ?d2)" "d_id d = login_device_id i" "d_user_id d = si_user_id i"
    "d_revoked_at d = None" "d_session_id d = Some (si_refresh_token_id i)"
    using d0 by (auto simp: set_sql_update d_def)
  have all: "d_session_id e = Some (si_refresh_token_id i)" if "e \<in> set (devices ?d2)" "d_id e = login_device_id i" for e
  proof -
    have "schema_ok ?d2"
      by (rule schema_ok_keys [OF session_keys_devices ok]) (simp add: core_simps)
    from device_unique [OF this that(1) d(1)] that(2) d(2,5) show ?thesis by simp
  qed
  have row: "login_token_row i ?d2 = login_token_row i db"
    by (simp add: login_token_row_def same)
  have "user_exists (si_user_id i) db"
    using assms(5) by (auto simp: login_user_ok_def user_exists_def sql_exists_iff credential_generation_current_def)
  then have "token_references (login_token_row i db) ?d2"
    using d by (auto simp: token_references_def user_exists_def device_exists_def same sql_exists_iff set_sql_update)
  then have s3: "login_insert_token i ?d2 m = Inr (?d2\<lparr>refresh_tokens := refresh_tokens db @ [login_token_row i db]\<rparr>, 1)"
    using assms(2,3,5) d same user [of ?d2]
    by (auto simp: login_insert_token_def insert_refresh_token_Inr row fresh_token_id_def sql_exists_iff set_sql_update)
  from s1 s2 s3 have "create_password_grant_session i db =
      (?d2\<lparr>refresh_tokens := refresh_tokens db @ [login_token_row i db]\<rparr>, Inr SessionCreated)"
    by (simp add: create_password_grant_session_def assms(4) with_batch_def batch_def session_batch_result_def return_value_def)
  then show ?thesis
    using d all by auto
qed

definition sample_totp_login :: "string \<Rightarrow> int \<Rightarrow> device_session_input" where
  "sample_totp_login tid step = (sample_login tid)\<lparr>si_require_totp_disabled := False,
     si_totp_verification := Some \<lparr>tv_credential_generation = ''g'', tv_accepted_step = Finite (of_int step)\<rparr>\<rparr>"

definition sample_totp_database :: database where
  "sample_totp_database = sample_database\<lparr>user_totp := [sample_totp]\<rparr>"

lemma sample_totp_login_created:
  "snd (create_password_grant_session (sample_totp_login ''t1'' 9) sample_totp_database) = Inr SessionCreated"
  by code_simp

section \<open>Revocation\<close>

text \<open>
  Signing out everywhere else keeps exactly the current device: every other device of the user is revoked and its
  refresh tokens are dead, while the current device, its tokens and everything of other users are untouched.
\<close>
theorem revoke_others_keeps_current:
  "\<exists>db'. revoke_other_device_sessions u cur now db = (db', Inr (cur, False, now)) \<and>
     (\<forall>d' \<in> set (devices db'). d_user_id d' = u \<and> d_id d' \<noteq> cur \<longrightarrow> d_revoked_at d' \<noteq> None) \<and>
     (\<forall>t' \<in> set (refresh_tokens db'). rt_user_id t' = u \<and> rt_device_id t' \<noteq> cur \<longrightarrow> rt_revoked_at t' \<noteq> None) \<and>
     filter (\<lambda>d. d_user_id d \<noteq> u \<or> d_id d = cur) (devices db') = filter (\<lambda>d. d_user_id d \<noteq> u \<or> d_id d = cur) (devices db) \<and>
     filter (\<lambda>t. rt_user_id t \<noteq> u \<or> rt_device_id t = cur) (refresh_tokens db')
       = filter (\<lambda>t. rt_user_id t \<noteq> u \<or> rt_device_id t = cur) (refresh_tokens db)"
proof -
  let ?p = "\<lambda>d. d_user_id d = u \<and> d_id d \<noteq> cur \<and> d_revoked_at d = None"
  let ?q = "\<lambda>t. rt_user_id t = u \<and> rt_device_id t \<noteq> cur \<and> rt_revoked_at t = None"
  let ?f = "\<lambda>d. d\<lparr>d_revoked_at := Some now, d_updated_at := now\<rparr>"
  let ?g = "\<lambda>t. t\<lparr>rt_revoked_at := Some now\<rparr>"
  let ?db = "refresh_tokens_update (sql_update ?q ?g) (devices_update (sql_update ?p ?f) db)"
  have "revoke_other_device_sessions u cur now db = (?db, Inr (cur, False, now))"
    by (simp add: revoke_other_device_sessions_def with_batch_def batch_eval return_value_def)
  moreover have "\<forall>d' \<in> set (devices ?db). d_user_id d' = u \<and> d_id d' \<noteq> cur \<longrightarrow> d_revoked_at d' \<noteq> None"
    by (auto simp: ball_sql_update)
  moreover have "\<forall>t' \<in> set (refresh_tokens ?db). rt_user_id t' = u \<and> rt_device_id t' \<noteq> cur \<longrightarrow> rt_revoked_at t' \<noteq> None"
    by (auto simp: ball_sql_update)
  moreover have "filter (\<lambda>d. d_user_id d \<noteq> u \<or> d_id d = cur) (devices ?db)
      = filter (\<lambda>d. d_user_id d \<noteq> u \<or> d_id d = cur) (devices db)"
  proof -
    have "devices ?db = sql_update ?p ?f (devices db)" by simp
    moreover have "filter (\<lambda>d. d_user_id d \<noteq> u \<or> d_id d = cur) (sql_update ?p ?f (devices db))
        = filter (\<lambda>d. d_user_id d \<noteq> u \<or> d_id d = cur) (devices db)"
      by (rule filter_sql_update) simp
    ultimately show ?thesis by (simp only:)
  qed
  moreover have "filter (\<lambda>t. rt_user_id t \<noteq> u \<or> rt_device_id t = cur) (refresh_tokens ?db)
      = filter (\<lambda>t. rt_user_id t \<noteq> u \<or> rt_device_id t = cur) (refresh_tokens db)"
  proof -
    have "refresh_tokens ?db = sql_update ?q ?g (refresh_tokens db)" by simp
    moreover have "filter (\<lambda>t. rt_user_id t \<noteq> u \<or> rt_device_id t = cur) (sql_update ?q ?g (refresh_tokens db))
        = filter (\<lambda>t. rt_user_id t \<noteq> u \<or> rt_device_id t = cur) (refresh_tokens db)"
      by (rule filter_sql_update) simp
    ultimately show ?thesis by (simp only:)
  qed
  ultimately show ?thesis by (intro exI [of _ ?db] conjI)
qed

theorem revoke_others_keeps_current_witness:
  "\<exists>db'. revoke_other_device_sessions ''u1'' ''x'' ''n'' sample_logged_in = (db', Inr (''x'', False, ''n'')) \<and>
     filter (\<lambda>d. d_revoked_at d = None) (devices db') = []"
proof -
  have u: "\<forall>d' \<in> set (devices (fst (revoke_other_device_sessions ''u1'' ''x'' ''n'' sample_logged_in))).
      d_user_id d' = ''u1'' \<and> d_id d' \<noteq> ''x''"
    by code_simp
  show ?thesis
    using revoke_others_keeps_current [of "''u1''" "''x''" "''n''" sample_logged_in] u
    by (fastforce simp: filter_empty_conv)
qed

text \<open>After a sign-out, whatever it reports, the session look-up of every request finds no user for that device and session.\<close>

lemma session_gone:
  "find_auth_user_by_session u di sid (fst (revoke_current_device_session u di sid now db)) = Inr None"
proof -
  let ?p = "\<lambda>d. d_user_id d = u \<and> d_identifier d = di \<and> d_session_id d = Some sid \<and> d_revoked_at d = None"
  let ?f = "\<lambda>d. d\<lparr>d_revoked_at := Some now, d_updated_at := now, d_mfa_totp_credential_generation := None,
      d_mfa_verified_at := None\<rparr>"
  have dev: "devices (fst (revoke_current_device_session u di sid now db)) = sql_update ?p ?f (devices db)"
    by (simp add: revoke_current_device_session_def with_batch_def batch_eval Let_def split: list.split)
  have "\<forall>d \<in> set (sql_update ?p ?f (devices db)). \<not> session_device u di sid d"
    by (auto simp: ball_sql_update session_device_def)
  then have "\<not> sql_exists (session_device u di sid) (devices (fst (revoke_current_device_session u di sid now db)))"
    by (simp add: dev sql_exists_iff)
  then show ?thesis
    by (auto simp: find_auth_user_by_session_def find_auth_user_by_id_def find_user_where_def
        dest: sql_first_SomeD split: option.split)
qed

section \<open>Retention\<close>

interpretation token_retention: bounded_cleanup rt_id expired_token rt_expires_at delete_expired_rows
  by unfold_locales (simp add: delete_expired_rows_def)

text \<open>The compare-and-set of the rotation, on the rows of \<open>refresh_tokens\<close>.\<close>

interpretation token_revocation: one_shot_update rt_id live "revoke_token now" for now
  by unfold_locales (simp_all add: live_def)

text \<open>
  The retention job of refresh tokens is bounded and only removes what has expired: in a common-era run at time
  \<open>now\<close> it reports the smaller of \<open>limit\<close> and the number of tokens that expired at least 30 days ago, adds
  no token, and keeps every token that expired later than that.
\<close>
theorem token_retention_bounded:
  assumes "schema_ok db" "date_parse now = Some ms" "common_era (ms - 30 * 86400000)" "0 \<le> limit"
  shows "\<exists>db' n. delete_expired_refresh_tokens now limit db = (db', Inr n) \<and>
     n = min (sql_count (\<lambda>t. rt_expires_at t \<le> iso_text (ms - 30 * 86400000)) (refresh_tokens db)) (nat limit) \<and>
     set (map rt_id (refresh_tokens db')) \<subseteq> set (map rt_id (refresh_tokens db)) \<and>
     (\<forall>t \<in> set (refresh_tokens db). iso_text (ms - 30 * 86400000) < rt_expires_at t \<longrightarrow>
        rt_id t \<in> set (map rt_id (refresh_tokens db')))"
proof -
  let ?b = "iso_text (ms - 30 * 86400000)"
  obtain rest n where r: "delete_expired_rows ?b limit (refresh_tokens db) = (rest, n)" by fastforce
  have d: "distinct (map rt_id (refresh_tokens db))"
    using assms(1) by (simp add: schema_ok_def tokens_unique_def)
  have run: "delete_expired_refresh_tokens now limit db = (db\<lparr>refresh_tokens := unlink_deleted rest\<rparr>, Inr n)"
    using assms(2,3) r by (simp add: delete_expired_refresh_tokens_def return_value_def)
  have ids: "set (map rt_id (unlink_deleted rest)) = rt_id ` set rest"
    by (auto simp: unlink_deleted_def image_iff)
  have "n = min (sql_count (expired_token ?b) (refresh_tokens db)) (nat limit)"
    using token_retention.cleanup_count [OF d assms(4), of ?b] r by simp
  moreover have "rt_id ` set rest \<subseteq> set (map rt_id (refresh_tokens db))"
    using token_retention.cleanup_subset [of ?b limit "refresh_tokens db"] r by auto
  moreover have "rt_id t \<in> rt_id ` set rest" if "t \<in> set (refresh_tokens db)" "?b < rt_expires_at t" for t
    using token_retention.cleanup_keeps [OF d that(1), of ?b limit] that(2) r
    by (simp add: expired_token_def)
  ultimately show ?thesis
    using run ids by (simp add: expired_token_def [abs_def])
qed

definition sample_expiring :: database where
  "sample_expiring =
     refresh_tokens_update (sql_update (\<lambda>t. True) (\<lambda>t. t\<lparr>rt_expires_at := iso_text 1767225600000\<rparr>)) sample_logged_in"

theorem token_retention_bounded_witness:
  "\<exists>db' n. delete_expired_refresh_tokens (iso_text 1767225600000) 5 sample_expiring = (db', Inr n) \<and>
     ''t1'' \<in> set (map rt_id (refresh_tokens db'))"
proof -
  let ?ms = "1767225600000 :: int"
  have ce: "common_era ?ms" "common_era (?ms - 30 * 86400000)" by (simp_all add: common_era_def)
  have late: "iso_text (?ms - 30 * 86400000) < iso_text ?ms"
    using iso_text_less_iff [OF ce(2,1)] by simp
  have ok: "schema_ok sample_expiring"
    unfolding sample_expiring_def using sample_logged_in_inv
    by (intro schema_ok_keys [OF session_keys_tokens]) (simp_all add: session_inv_def token_core_def)
  have tok: "\<exists>t \<in> set (refresh_tokens sample_expiring). rt_id t = ''t1'' \<and> rt_expires_at t = iso_text ?ms"
    by (simp add: sample_expiring_def sample_logged_in_tokens set_sql_update sample_login_def)
  from token_retention_bounded [OF ok date_parse_iso_common [OF ce(1)] ce(2), of 5] obtain db' n where
    run: "delete_expired_refresh_tokens (iso_text ?ms) 5 sample_expiring = (db', Inr n)" and
    keep: "\<forall>t \<in> set (refresh_tokens sample_expiring). iso_text (?ms - 30 * 86400000) < rt_expires_at t \<longrightarrow>
        rt_id t \<in> set (map rt_id (refresh_tokens db'))"
    by auto
  from keep tok late have "''t1'' \<in> set (map rt_id (refresh_tokens db'))" by metis
  with run show ?thesis by blast
qed

end
