(* ===== verification/Base64.thy ===== *)
theory Base64
  imports Prelude
begin

text \<open>
  The base64 functions of the JavaScript platform, \<open>btoa\<close> and \<open>atob\<close>, and the unpadded URL alphabet that
  \<open>tokens.ts\<close>, \<open>login-defense.ts\<close>, \<open>request-quota.ts\<close>, \<open>auth-request.ts\<close> and \<open>emergency-access.ts\<close> build
  on them, with the round trip. A byte is a number below 256.
\<close>

definition base64_char :: "nat \<Rightarrow> char" where
  "base64_char n =
     (if n < 26 then char_of (65 + n) else if n < 52 then char_of (71 + n)
      else if n < 62 then char_of (n - 4) else if n = 62 then CHR ''+'' else CHR ''/'')"

definition base64_value :: "char \<Rightarrow> nat option" where
  "base64_value c =
     (let n = code_unit c
      in if 65 \<le> n \<and> n \<le> 90 then Some (n - 65) else if 97 \<le> n \<and> n \<le> 122 then Some (n - 71)
         else if 48 \<le> n \<and> n \<le> 57 then Some (n + 4) else if c = CHR ''+'' then Some 62
         else if c = CHR ''/'' then Some 63 else None)"

fun btoa :: "nat list \<Rightarrow> string" where
  "btoa [] = []"
| "btoa [a] = [base64_char (a div 4), base64_char (a mod 4 * 16), CHR ''='', CHR ''='']"
| "btoa [a, b] =
     [base64_char (a div 4), base64_char (a mod 4 * 16 + b div 16), base64_char (b mod 16 * 4), CHR ''='']"
| "btoa (a # b # c # r) =
     base64_char (a div 4) # base64_char (a mod 4 * 16 + b div 16) #
     base64_char (b mod 16 * 4 + c div 64) # base64_char (c mod 64) # btoa r"

text \<open>
  \<open>atob\<close>: white space is dropped, up to two \<open>=\<close> end a text of a multiple of four characters, one
  character left over or any other character is an error, and left-over bits are discarded.
\<close>

fun decode_sextets :: "nat list \<Rightarrow> nat list option" where
  "decode_sextets [] = Some []"
| "decode_sextets [a] = None"
| "decode_sextets [a, b] = Some [a * 4 + b div 16]"
| "decode_sextets [a, b, c] = Some [a * 4 + b div 16, b mod 16 * 16 + c div 4]"
| "decode_sextets (a # b # c # d # r) =
     map_option (\<lambda>bs. (a * 4 + b div 16) # (b mod 16 * 16 + c div 4) # (c mod 4 * 64 + d) # bs) (decode_sextets r)"

fun all_values :: "string \<Rightarrow> nat list option" where
  "all_values [] = Some []"
| "all_values (c # s) =
     (case base64_value c of None \<Rightarrow> None | Some v \<Rightarrow> map_option (\<lambda>vs. v # vs) (all_values s))"

definition ascii_space :: "char \<Rightarrow> bool" where
  "ascii_space c \<longleftrightarrow> code_unit c \<in> {9, 10, 12, 13, 32}"

definition drop_padding :: "string \<Rightarrow> string" where
  "drop_padding s =
     (if length s mod 4 \<noteq> 0 then s
      else if ends_with s ''=='' then take (length s - 2) s
      else if ends_with s ''='' then take (length s - 1) s else s)"

definition atob :: "string \<Rightarrow> nat list option" where
  "atob s = Option.bind (all_values (drop_padding (filter (\<lambda>c. \<not> ascii_space c) s))) decode_sextets"

definition url_char :: "char \<Rightarrow> char" where
  "url_char c = (if c = CHR ''+'' then CHR ''-'' else if c = CHR ''/'' then CHR ''_'' else c)"

definition unurl_char :: "char \<Rightarrow> char" where
  "unurl_char c = (if c = CHR ''-'' then CHR ''+'' else if c = CHR ''_'' then CHR ''/'' else c)"

definition base64_url_encode_bytes :: "nat list \<Rightarrow> string" where
  "base64_url_encode_bytes bs = strip_padding (map url_char (btoa bs))"

text \<open>\<open>s.padEnd(Math.ceil(s.length / 4) * 4, '=')\<close>\<close>

definition pad_base64 :: "string \<Rightarrow> string" where
  "pad_base64 s = s @ replicate ((length s + 3) div 4 * 4 - length s) (CHR ''='')"

definition base64_url_decode_bytes :: "string \<Rightarrow> nat list option" where
  "base64_url_decode_bytes s = atob (pad_base64 (map unurl_char s))"

section \<open>Round trip\<close>

lemma nat64_cases: "n < (64::nat) \<Longrightarrow> n < 26 \<or> 26 \<le> n \<and> n < 52 \<or> 52 \<le> n \<and> n < 62 \<or> n = 62 \<or> n = 63"
  by linarith

lemma code_unit_plus [simp]: "code_unit (CHR ''+'') = 43" "code_unit (CHR ''/'') = 47" "code_unit (CHR ''='') = 61"
  "code_unit (CHR ''-'') = 45" "code_unit (CHR ''_'') = 95"
  by (simp_all add: code_unit_def)

lemma code_unit_base64_char:
  "n < 64 \<Longrightarrow> code_unit (base64_char n) =
     (if n < 26 then 65 + n else if n < 52 then 71 + n else if n < 62 then n - 4 else if n = 62 then 43 else 47)"
  by (simp add: base64_char_def code_unit_char_of)

lemma char_eq_code_unit: "c = d \<longleftrightarrow> code_unit c = code_unit d"
  by (simp add: code_unit_inject)

lemma base64_value_char: "n < 64 \<Longrightarrow> base64_value (base64_char n) = Some n"
  using nat64_cases [of n] by (auto simp: base64_value_def Let_def char_eq_code_unit code_unit_base64_char)

lemma unurl_url_char: "n < 64 \<Longrightarrow> unurl_char (url_char (base64_char n)) = base64_char n"
  using nat64_cases [of n]
  by (auto simp: url_char_def unurl_char_def char_eq_code_unit code_unit_base64_char)

lemma url_char_not_pad: "n < 64 \<Longrightarrow> url_char (base64_char n) \<noteq> CHR ''=''"
  using nat64_cases [of n] by (auto simp: url_char_def char_eq_code_unit code_unit_base64_char)

lemma base64_char_plain: "n < 64 \<Longrightarrow> base64_char n \<noteq> CHR ''='' \<and> \<not> ascii_space (base64_char n)"
  using nat64_cases [of n] by (auto simp: ascii_space_def char_eq_code_unit code_unit_base64_char)

text \<open>The sextets \<open>btoa\<close> writes, and the number of \<open>=\<close> after them.\<close>

fun sextets :: "nat list \<Rightarrow> nat list" where
  "sextets [] = []"
| "sextets [a] = [a div 4, a mod 4 * 16]"
| "sextets [a, b] = [a div 4, a mod 4 * 16 + b div 16, b mod 16 * 4]"
| "sextets (a # b # c # r) =
     a div 4 # (a mod 4 * 16 + b div 16) # (b mod 16 * 4 + c div 64) # c mod 64 # sextets r"

fun pads :: "nat list \<Rightarrow> nat" where
  "pads [] = 0"
| "pads [a] = 2"
| "pads [a, b] = 1"
| "pads (a # b # c # r) = pads r"

lemma btoa_sextets: "btoa bs = map base64_char (sextets bs) @ replicate (pads bs) (CHR ''='')"
  by (induction bs rule: btoa.induct) (simp_all add: numeral_2_eq_2)

lemma sextet_bounds [simp]:
  "(a :: nat) < 256 \<Longrightarrow> a div 4 < 64"
  "(b :: nat) < 256 \<Longrightarrow> a mod 4 * 16 + b div 16 < 64"
  "(c :: nat) < 256 \<Longrightarrow> b mod 16 * 4 + c div 64 < 64"
  "(c :: nat) mod 64 < 64"
  "(a :: nat) mod 4 * 16 < 64"
  "(b :: nat) mod 16 * 4 < 64"
proof -
  have "a mod 4 \<le> 3" "b mod 16 \<le> 15" by linarith+
  moreover have "b < 256 \<Longrightarrow> b div 16 \<le> 15" "c < 256 \<Longrightarrow> c div 64 \<le> 3" "a < 256 \<Longrightarrow> a div 4 \<le> 63"
    by linarith+
  ultimately show "a < 256 \<Longrightarrow> a div 4 < 64" "b < 256 \<Longrightarrow> a mod 4 * 16 + b div 16 < 64"
    "c < 256 \<Longrightarrow> b mod 16 * 4 + c div 64 < 64" "c mod 64 < 64" "a mod 4 * 16 < 64" "b mod 16 * 4 < 64"
    by linarith+
qed

lemma sextets_bound: "\<forall>b \<in> set bs. b < 256 \<Longrightarrow> \<forall>n \<in> set (sextets bs). n < 64"
  by (induction bs rule: sextets.induct) simp_all

lemma split_byte [simp]:
  "(b :: nat) < 256 \<Longrightarrow> b div 16 div 16 = 0"
  "(b :: nat) < 256 \<Longrightarrow> b div 16 mod 16 = b div 16"
  "(c :: nat) < 256 \<Longrightarrow> c div 64 div 4 = 0"
  "(c :: nat) < 256 \<Longrightarrow> c div 64 mod 4 = c div 64"
  by (simp_all add: less_mult_imp_div_less)

lemma decode_sextets_sextets: "\<forall>b \<in> set bs. b < 256 \<Longrightarrow> decode_sextets (sextets bs) = Some bs"
  by (induction bs rule: sextets.induct) simp_all

lemma length_sextets: "length (sextets bs) + pads bs = 4 * ((length bs + 2) div 3)"
proof (induction bs rule: sextets.induct)
  case (4 a b c r)
  have "(length (a # b # c # r) + 2) div 3 = Suc ((length r + 2) div 3)"
    by (simp add: div_add_self2 [of "3" "length r + 2", symmetric] add.commute)
  with 4 show ?case by (simp only: sextets.simps pads.simps list.size) simp
qed simp_all

lemma pads_le: "pads bs \<le> 2"
  by (induction bs rule: pads.induct) simp_all

lemma all_values_chars: "\<forall>n \<in> set ns. n < 64 \<Longrightarrow> all_values (map base64_char ns) = Some ns"
  by (induction ns) (auto simp: base64_value_char)

lemma ends_with_append_pad: "ends_with (s @ [c]) [d] \<longleftrightarrow> c = d"
  by (simp add: ends_with_def)

lemma drop_padding_plain:
  assumes "CHR ''='' \<notin> set s" "k \<le> 2" "(length s + k) mod 4 = 0"
  shows "drop_padding (s @ replicate k (CHR ''='')) = s"
proof -
  have no: "\<not> ends_with s ''=''" "\<not> ends_with s ''==''"
    using assms(1) by (auto simp: ends_with_def) (metis in_set_dropD list.set_intros(1))+
  consider "k = 0" | "k = 1" | "k = 2" using assms(2) by linarith
  then show ?thesis
  proof cases
    case 1
    then show ?thesis using assms no by (simp only: drop_padding_def) simp
  next
    case 2
    have "\<not> ends_with (s @ ''='') ''==''"
    proof (cases s rule: rev_cases)
      case (snoc t x)
      then show ?thesis using assms(1) by (auto simp: ends_with_def)
    qed (simp add: ends_with_def)
    moreover have "ends_with (s @ ''='') ''=''" by (simp add: ends_with_append_pad)
    ultimately show ?thesis using 2 assms(3) by (simp add: drop_padding_def)
  next
    case 3
    then show ?thesis using assms by (simp add: drop_padding_def ends_with_def numeral_2_eq_2)
  qed
qed

lemma base64_url_encode_sextets:
  assumes "\<forall>b \<in> set bs. b < 256"
  shows "base64_url_encode_bytes bs = map url_char (map base64_char (sextets bs))"
proof -
  let ?n = "sextets bs"
  have b: "\<forall>n \<in> set ?n. n < 64" by (rule sextets_bound [OF assms])
  have "map url_char (btoa bs) = map url_char (map base64_char ?n) @ replicate (pads bs) (CHR ''='')"
    by (simp add: btoa_sextets url_char_def)
  moreover have "CHR ''='' \<notin> set (map url_char (map base64_char ?n))"
    using url_char_not_pad b by (metis (no_types, lifting) imageE list.set_map)
  ultimately show ?thesis
    by (simp add: base64_url_encode_bytes_def strip_padding_replicate strip_padding_plain)
qed

lemma base64_url_roundtrip:
  assumes "\<forall>b \<in> set bs. b < 256"
  shows "base64_url_decode_bytes (base64_url_encode_bytes bs) = Some bs"
proof -
  let ?n = "sextets bs"
  have b: "\<forall>n \<in> set ?n. n < 64" by (rule sextets_bound [OF assms])
  note enc = base64_url_encode_sextets [OF assms]
  have un: "map unurl_char (base64_url_encode_bytes bs) = map base64_char ?n"
    using b by (simp add: enc unurl_url_char)
  have "(length ?n + 3) div 4 * 4 - length ?n = pads bs"
  proof -
    obtain m where m: "length ?n + pads bs = 4 * m" using length_sextets by blast
    then have "length ?n + 3 = (3 - pads bs) + 4 * m" using pads_le [of bs] by linarith
    then have "(length ?n + 3) div 4 = m" by simp
    with m show ?thesis by simp
  qed
  then have pad: "pad_base64 (map base64_char ?n) = map base64_char ?n @ replicate (pads bs) (CHR ''='')"
    by (simp add: pad_base64_def)
  have "filter (\<lambda>c. \<not> ascii_space c) (map base64_char ?n @ replicate (pads bs) (CHR ''=''))
      = map base64_char ?n @ replicate (pads bs) (CHR ''='')"
    using b base64_char_plain by (auto simp: filter_id_conv ascii_space_def)
  moreover have "drop_padding (map base64_char ?n @ replicate (pads bs) (CHR ''='')) = map base64_char ?n"
  proof (rule drop_padding_plain)
    show "CHR ''='' \<notin> set (map base64_char ?n)"
      using b base64_char_plain by (metis (no_types, lifting) imageE list.set_map)
    show "(length (map base64_char ?n) + pads bs) mod 4 = 0"
      by (simp only: length_map length_sextets) simp
  qed (rule pads_le)
  ultimately show ?thesis
    using all_values_chars [OF b] decode_sextets_sextets [OF assms]
    by (simp add: base64_url_decode_bytes_def un pad atob_def)
qed

lemma base64_url_inject:
  "\<forall>b \<in> set xs. b < 256 \<Longrightarrow> \<forall>b \<in> set ys. b < 256 \<Longrightarrow>
     base64_url_encode_bytes xs = base64_url_encode_bytes ys \<longleftrightarrow> xs = ys"
  by (metis base64_url_roundtrip option.inject)

lemma url_char_plain:
  assumes "n < 64"
  shows "url_char (base64_char n) \<noteq> CHR ''.''" "url_char (base64_char n) \<noteq> CHR '':''"
proof -
  have "code_unit (CHR ''.'') = 46" "code_unit (CHR '':'') = 58" by (simp_all add: code_unit_def)
  with assms nat64_cases [of n]
  show "url_char (base64_char n) \<noteq> CHR ''.''" "url_char (base64_char n) \<noteq> CHR '':''"
    by (auto simp: url_char_def char_eq_code_unit code_unit_base64_char)
qed

lemma base64_url_plain:
  assumes "\<forall>b \<in> set bs. b < 256"
  shows "CHR ''.'' \<notin> set (base64_url_encode_bytes bs)" "CHR '':'' \<notin> set (base64_url_encode_bytes bs)"
  using url_char_plain sextets_bound [OF assms]
  by (auto simp: base64_url_encode_sextets [OF assms] dest: sym)

lemma base64_url_Nil:
  assumes "\<forall>b \<in> set bs. b < 256"
  shows "base64_url_encode_bytes bs = [] \<longleftrightarrow> bs = []"
proof -
  have "sextets bs = [] \<longleftrightarrow> bs = []" by (cases bs rule: sextets.cases) simp_all
  then show ?thesis by (simp add: base64_url_encode_sextets [OF assms])
qed

lemma utf8_encode_bytes: "\<forall>b \<in> set (utf8_encode s). b < 256"
proof -
  have "code_unit c div 64 < 64" for c using code_unit_less [of c] by (simp add: less_mult_imp_div_less)
  then show ?thesis using code_unit_less by (induction s) (auto simp: utf8_encode_def Let_def)
qed

end
