(* ===== verification/RateLimits.thy ===== *)
theory RateLimits
  imports Database Base64 JsDate
begin

text \<open>
  Login defence and request quotas: \<open>src/domain/login-defense.ts\<close>, \<open>src/domain/request-quota.ts\<close>, the buckets and
  attempts of \<open>src/repositories/auth-repository.ts\<close>, \<open>src/repositories/request-quota-repository.ts\<close> and the quota
  middleware of \<open>src/app.ts\<close>. Both kinds of bucket are fixed-window counters; their contract is the locale
  \<open>fixed_window\<close>, interpreted on each. The hash that names a bucket is a parameter.
\<close>

section \<open>Policies and clocks\<close>

definition account_failure_limit :: int where "account_failure_limit = 5"
definition account_failure_window_seconds :: int where "account_failure_window_seconds = 15 * 60"
definition account_lockout_seconds :: int where "account_lockout_seconds = 15 * 60"
definition ip_failure_limit :: int where "ip_failure_limit = 20"
definition ip_failure_window_seconds :: int where "ip_failure_window_seconds = 60"
definition ip_retry_after_seconds :: int where "ip_retry_after_seconds = 60"

definition anonymous_limit :: int where "anonymous_limit = 120"
definition authenticated_limit :: int where "authenticated_limit = 600"
definition quota_block_seconds :: int where "quota_block_seconds = 60"
definition quota_window_seconds :: int where "quota_window_seconds = 60"

lemmas policy_defs = account_failure_limit_def account_failure_window_seconds_def account_lockout_seconds_def
  ip_failure_limit_def ip_failure_window_seconds_def ip_retry_after_seconds_def anonymous_limit_def
  authenticated_limit_def quota_block_seconds_def quota_window_seconds_def

text \<open>\<open>Date.parse(a) > Date.parse(b)\<close>, false when either is not a date.\<close>

definition date_after :: "string \<Rightarrow> string \<Rightarrow> bool" where
  "date_after a b \<longleftrightarrow> (case (date_parse a, date_parse b) of (Some x, Some y) \<Rightarrow> x > y | _ \<Rightarrow> False)"

text \<open>\<open>new Date(Date.parse(now) + seconds * 1000).toISOString()\<close>\<close>

definition iso_shift :: "string \<Rightarrow> int \<Rightarrow> js_error + string" where
  "iso_shift now seconds = to_iso_string (map_option (\<lambda>ms. ms + seconds * 1000) (date_parse now))"

record account_failure_state =
  fs_failed_count :: int
  fs_failed_at :: string
  fs_locked_until :: "string option"

definition build_account_failure_state ::
    "int \<Rightarrow> string option \<Rightarrow> string \<Rightarrow> js_error + account_failure_state" where
  "build_account_failure_state current_failed_count last_failed_at now =
     (let now_ms = date_parse now;
          last_ms = (if truthy last_failed_at then date_parse (the last_failed_at) else Some 0);
          inside = (case (last_ms, now_ms) of
                      (Some l, Some n) \<Rightarrow> n - l \<le> account_failure_window_seconds * 1000
                    | _ \<Rightarrow> False);
          failed_count = (if inside then current_failed_count + 1 else 1)
      in and_then (if failed_count \<ge> account_failure_limit
                   then map_sum id Some (iso_shift now account_lockout_seconds) else Inr None)
           (\<lambda>locked. Inr \<lparr>fs_failed_count = failed_count, fs_failed_at = now, fs_locked_until = locked\<rparr>))"

definition is_account_locked :: "string option \<Rightarrow> string \<Rightarrow> bool" where
  "is_account_locked locked_until now \<longleftrightarrow> truthy locked_until \<and> date_after (the locked_until) now"

text \<open>\<open>headers\<close> is \<open>Headers.get\<close>.\<close>

definition extract_client_address :: "(string \<Rightarrow> string option) \<Rightarrow> string" where
  "extract_client_address headers =
     (let direct = map_option js_trim (headers ''CF-Connecting-IP'');
          forwarded = map_option (\<lambda>v. js_trim (hd (js_split (CHR '','') v))) (headers ''X-Forwarded-For'')
      in if truthy direct then the direct else if truthy forwarded then the forwarded else ''unknown'')"

definition build_auth_attempt_bucket_key :: "(string \<Rightarrow> nat list) \<Rightarrow> string \<Rightarrow> string \<Rightarrow> string" where
  "build_auth_attempt_bucket_key sha256 kind v = kind @ '':'' @ base64_url_encode_bytes (sha256 v)"

section \<open>Attempts and failure buckets\<close>

definition record_failed_login ::
    "string \<Rightarrow> int \<Rightarrow> string \<Rightarrow> string option \<Rightarrow> unit repo" where
  "record_failed_login user_id failed_count failed_at locked_until =
     with_batch
       [update_stmt users users_update (\<lambda>db prev u. u_id u = user_id)
          (\<lambda>u. u\<lparr>u_login_failed_count := failed_count, u_login_failed_at := Some failed_at,
                 u_login_locked_until := locked_until, u_updated_at := failed_at\<rparr>)]
       (\<lambda>ns. return_value ())"

definition reset_login_defense_state :: "string \<Rightarrow> string \<Rightarrow> unit repo" where
  "reset_login_defense_state user_id reset_at =
     with_batch
       [update_stmt users users_update (\<lambda>db prev u. u_id u = user_id)
          (\<lambda>u. u\<lparr>u_login_failed_count := 0, u_login_failed_at := None, u_login_locked_until := None,
                 u_updated_at := reset_at\<rparr>)]
       (\<lambda>ns. return_value ())"

definition insert_auth_attempt :: "auth_attempt_row \<Rightarrow> database stmt" where
  "insert_auth_attempt row db prev =
     (if sql_exists (\<lambda>r. aa_id r = aa_id row) (auth_attempts db) then Inl ConstraintError
      else Inr (db\<lparr>auth_attempts := auth_attempts db @ [row]\<rparr>, 1))"

definition record_auth_attempt :: "auth_attempt_row \<Rightarrow> unit repo" where
  "record_auth_attempt row = with_batch [insert_auth_attempt row] (\<lambda>ns. return_value ())"

definition count_recent_failed_auth_attempts :: "string \<Rightarrow> string \<Rightarrow> database \<Rightarrow> nat" where
  "count_recent_failed_auth_attempts bucket_key occurred_after db =
     sql_count (\<lambda>r. aa_bucket_key r = bucket_key \<and> \<not> aa_successful r \<and> occurred_after \<le> aa_occurred_at r)
       (auth_attempts db)"

definition find_auth_failure_bucket :: "string \<Rightarrow> database \<Rightarrow> auth_failure_bucket_row option" where
  "find_auth_failure_bucket key db = sql_first (\<lambda>r. fb_bucket_key r = key) (auth_failure_buckets db)"

text \<open>The row an upsert leaves, from the bound values and the row before.\<close>

definition failure_bucket_row ::
    "string \<Rightarrow> int \<Rightarrow> string \<Rightarrow> string \<Rightarrow> string \<Rightarrow> auth_failure_bucket_row option \<Rightarrow> auth_failure_bucket_row" where
  "failure_bucket_row key limit now threshold locked old =
     (case old of
        None \<Rightarrow> \<lparr>fb_bucket_key = key, fb_failed_count = 1, fb_window_started_at = now,
                 fb_locked_until = (if limit \<le> 1 then Some locked else None), fb_updated_at = now\<rparr>
      | Some r \<Rightarrow>
          (let inside = threshold \<le> fb_window_started_at r;
               n = (if inside then fb_failed_count r + 1 else 1)
           in r\<lparr>fb_failed_count := n,
                fb_window_started_at := (if inside then fb_window_started_at r else now),
                fb_locked_until := (if n \<ge> limit then Some locked else None),
                fb_updated_at := now\<rparr>))"

definition upsert_failure_bucket ::
    "string \<Rightarrow> int \<Rightarrow> string \<Rightarrow> string \<Rightarrow> string \<Rightarrow> auth_failure_bucket_row list \<Rightarrow> auth_failure_bucket_row list" where
  "upsert_failure_bucket key limit now threshold locked t =
     (if sql_exists (\<lambda>r. fb_bucket_key r = key) t
      then sql_update (\<lambda>r. fb_bucket_key r = key) (\<lambda>r. failure_bucket_row key limit now threshold locked (Some r)) t
      else t @ [failure_bucket_row key limit now threshold locked None])"

definition record_failed_auth_bucket ::
    "string \<Rightarrow> int \<Rightarrow> int \<Rightarrow> int \<Rightarrow> string \<Rightarrow> auth_failure_bucket_row repo" where
  "record_failed_auth_bucket key limit window_seconds lockout_seconds now db =
     (case (iso_shift now (- window_seconds), iso_shift now lockout_seconds) of
        (Inr threshold, Inr locked) \<Rightarrow>
          (let db' = auth_failure_buckets_update (upsert_failure_bucket key limit now threshold locked) db
           in case find_auth_failure_bucket key db' of
                None \<Rightarrow> throw (JsError ''Failed auth bucket was not persisted.'') db'
              | Some r \<Rightarrow> return_value r db')
      | (Inl e, _) \<Rightarrow> throw e db
      | (_, Inl e) \<Rightarrow> throw e db)"

definition reset_auth_failure_bucket :: "string \<Rightarrow> unit repo" where
  "reset_auth_failure_bucket key =
     with_batch
       [delete_stmt auth_failure_buckets auth_failure_buckets_update (\<lambda>db prev r. fb_bucket_key r = key)]
       (\<lambda>ns. return_value ())"

definition attempt_due :: "string \<Rightarrow> auth_attempt_row \<Rightarrow> bool" where
  "attempt_due expired_before r \<longleftrightarrow> aa_occurred_at r < expired_before"

definition cleanup_attempt_rows :: "string \<Rightarrow> int \<Rightarrow> auth_attempt_row list \<Rightarrow> auth_attempt_row list \<times> nat" where
  "cleanup_attempt_rows expired_before limit t = delete_oldest aa_id (attempt_due expired_before) aa_occurred_at limit t"

definition cleanup_expired_auth_attempts :: "string \<Rightarrow> int \<Rightarrow> nat repo" where
  "cleanup_expired_auth_attempts expired_before limit db =
     (case cleanup_attempt_rows expired_before limit (auth_attempts db) of
        (rest, n) \<Rightarrow> return_value n (db\<lparr>auth_attempts := rest\<rparr>))"

definition bucket_due :: "string \<times> string \<Rightarrow> auth_failure_bucket_row \<Rightarrow> bool" where
  "bucket_due c r \<longleftrightarrow>
     fb_updated_at r < fst c \<and> (case fb_locked_until r of None \<Rightarrow> True | Some l \<Rightarrow> l < snd c)"

definition cleanup_bucket_rows ::
    "string \<times> string \<Rightarrow> int \<Rightarrow> auth_failure_bucket_row list \<Rightarrow> auth_failure_bucket_row list \<times> nat" where
  "cleanup_bucket_rows c limit t = delete_oldest fb_bucket_key (bucket_due c) fb_updated_at limit t"

definition cleanup_expired_auth_failure_buckets :: "string \<Rightarrow> string \<Rightarrow> int \<Rightarrow> nat repo" where
  "cleanup_expired_auth_failure_buckets expired_before now limit db =
     (case cleanup_bucket_rows (expired_before, now) limit (auth_failure_buckets db) of
        (rest, n) \<Rightarrow> return_value n (db\<lparr>auth_failure_buckets := rest\<rparr>))"

definition cleanup_auth_defense_state :: "string \<Rightarrow> string \<Rightarrow> string \<Rightarrow> int \<Rightarrow> (nat \<times> nat) repo" where
  "cleanup_auth_defense_state now attempts_before buckets_before rows db =
     (case cleanup_expired_auth_attempts attempts_before rows db of
        (db1, Inl e) \<Rightarrow> (db1, Inl e)
      | (db1, Inr a) \<Rightarrow>
          (case cleanup_expired_auth_failure_buckets buckets_before now rows db1 of
             (db2, Inl e) \<Rightarrow> (db2, Inl e)
           | (db2, Inr b) \<Rightarrow> return_value (a, b) db2))"

section \<open>Request quotas\<close>

definition is_global_request_quota_enabled :: "string option \<Rightarrow> bool" where
  "is_global_request_quota_enabled v = flag_true v"

definition resolve_request_quota_scope :: "(string \<Rightarrow> string option) \<Rightarrow> request_quota_scope" where
  "resolve_request_quota_scope headers =
     (let authorization = (case headers ''Authorization'' of None \<Rightarrow> '''' | Some v \<Rightarrow> js_trim v)
      in if starts_with (js_lower authorization) ''bearer '' then Authenticated else Anonymous)"

fun request_quota_limit_for_scope :: "request_quota_scope \<Rightarrow> int" where
  "request_quota_limit_for_scope Authenticated = authenticated_limit"
| "request_quota_limit_for_scope Anonymous = anonymous_limit"

fun scope_text :: "request_quota_scope \<Rightarrow> string" where
  "scope_text Anonymous = ''anonymous''"
| "scope_text Authenticated = ''authenticated''"

definition build_request_quota_bucket_key ::
    "(string \<Rightarrow> nat list) \<Rightarrow> request_quota_scope \<Rightarrow> string \<Rightarrow> string" where
  "build_request_quota_bucket_key sha256 scope v =
     ''request:'' @ scope_text scope @ '':'' @ base64_url_encode_bytes (sha256 v)"

definition is_request_quota_exceeded :: "request_quota_bucket_row \<Rightarrow> string \<Rightarrow> bool" where
  "is_request_quota_exceeded r now \<longleftrightarrow>
     truthy (qb_blocked_until r) \<and> date_after (the (qb_blocked_until r)) now"

definition quota_bucket_row ::
    "string \<Rightarrow> request_quota_scope \<Rightarrow> int \<Rightarrow> string \<Rightarrow> string \<Rightarrow> string
      \<Rightarrow> request_quota_bucket_row option \<Rightarrow> request_quota_bucket_row" where
  "quota_bucket_row key scope limit now threshold blocked old =
     (case old of
        None \<Rightarrow> \<lparr>qb_bucket_key = key, qb_scope = scope, qb_request_count = 1, qb_window_started_at = now,
                 qb_blocked_until = (if limit < 1 then Some blocked else None), qb_updated_at = now\<rparr>
      | Some r \<Rightarrow>
          (let inside = threshold \<le> qb_window_started_at r;
               n = (if inside then qb_request_count r + 1 else 1)
           in r\<lparr>qb_scope := scope, qb_request_count := n,
                qb_window_started_at := (if inside then qb_window_started_at r else now),
                qb_blocked_until := (if n > limit then Some blocked else None),
                qb_updated_at := now\<rparr>))"

definition upsert_quota_bucket ::
    "string \<Rightarrow> request_quota_scope \<Rightarrow> int \<Rightarrow> string \<Rightarrow> string \<Rightarrow> string
      \<Rightarrow> request_quota_bucket_row list \<Rightarrow> request_quota_bucket_row list" where
  "upsert_quota_bucket key scope limit now threshold blocked t =
     (if sql_exists (\<lambda>r. qb_bucket_key r = key) t
      then sql_update (\<lambda>r. qb_bucket_key r = key)
             (\<lambda>r. quota_bucket_row key scope limit now threshold blocked (Some r)) t
      else t @ [quota_bucket_row key scope limit now threshold blocked None])"

definition find_request_quota_bucket :: "string \<Rightarrow> database \<Rightarrow> request_quota_bucket_row option" where
  "find_request_quota_bucket key db = sql_first (\<lambda>r. qb_bucket_key r = key) (request_quota_buckets db)"

definition record_request_quota_hit ::
    "string \<Rightarrow> request_quota_scope \<Rightarrow> int \<Rightarrow> int \<Rightarrow> int \<Rightarrow> string \<Rightarrow> request_quota_bucket_row repo" where
  "record_request_quota_hit key scope limit window_seconds block_seconds now db =
     (case (iso_shift now (- window_seconds), iso_shift now block_seconds) of
        (Inr threshold, Inr blocked) \<Rightarrow>
          (let db' = request_quota_buckets_update (upsert_quota_bucket key scope limit now threshold blocked) db
           in case find_request_quota_bucket key db' of
                None \<Rightarrow> throw (JsError ''Request quota bucket was not persisted.'') db'
              | Some r \<Rightarrow> return_value r db')
      | (Inl e, _) \<Rightarrow> throw e db
      | (_, Inl e) \<Rightarrow> throw e db)"

definition quota_due :: "string \<times> string \<Rightarrow> request_quota_bucket_row \<Rightarrow> bool" where
  "quota_due c r \<longleftrightarrow>
     qb_updated_at r < fst c \<and> (case qb_blocked_until r of None \<Rightarrow> True | Some l \<Rightarrow> l < snd c)"

definition cleanup_quota_rows ::
    "string \<times> string \<Rightarrow> int \<Rightarrow> request_quota_bucket_row list \<Rightarrow> request_quota_bucket_row list \<times> nat" where
  "cleanup_quota_rows c limit t = delete_oldest qb_bucket_key (quota_due c) qb_updated_at limit t"

definition cleanup_expired_request_quota_buckets :: "string \<Rightarrow> string \<Rightarrow> int \<Rightarrow> nat repo" where
  "cleanup_expired_request_quota_buckets expired_before now limit db =
     (case cleanup_quota_rows (expired_before, now) limit (request_quota_buckets db) of
        (rest, n) \<Rightarrow> return_value n (db\<lparr>request_quota_buckets := rest\<rparr>))"

text \<open>The middleware in front of every route, past the flag and the bypass list.\<close>

datatype quota_decision = Proceed | RateLimited | QuotaUnavailable

definition global_quota_check ::
    "(string \<Rightarrow> nat list) \<Rightarrow> (string \<Rightarrow> string option) \<Rightarrow> string \<Rightarrow> database \<Rightarrow> database \<times> quota_decision" where
  "global_quota_check sha256 headers now db =
     (let scope = resolve_request_quota_scope headers;
          key = build_request_quota_bucket_key sha256 scope (extract_client_address headers)
      in case record_request_quota_hit key scope (request_quota_limit_for_scope scope) quota_window_seconds
                quota_block_seconds now db of
           (db', Inl e) \<Rightarrow> (db', QuotaUnavailable)
         | (db', Inr bucket) \<Rightarrow> (db', if is_request_quota_exceeded bucket now then RateLimited else Proceed))"

section \<open>Fixed windows\<close>

text \<open>
  The contract of a fixed-window counter, over times in milliseconds: the first hit, or a hit more than
  \<open>window\<close> seconds after the window started, starts a window; a hit inside it counts one more; the counter
  is held until \<open>block\<close> seconds from the hit exactly when the count is \<open>full\<close> for the limit.
\<close>

locale fixed_window =
  fixes hit :: "int \<Rightarrow> int \<Rightarrow> int \<Rightarrow> int \<Rightarrow> 'r option \<Rightarrow> 'r"
    and hits :: "'r \<Rightarrow> int" and started :: "'r \<Rightarrow> string" and held_until :: "'r \<Rightarrow> string option"
    and full :: "int \<Rightarrow> int \<Rightarrow> bool"
  assumes new_window:
      "old = None \<or> started (the old) < iso_text (t - window * 1000) \<Longrightarrow>
         hits (hit limit window block t old) = 1 \<and> started (hit limit window block t old) = iso_text t \<and>
         held_until (hit limit window block t old) = (if full limit 1 then Some (iso_text (t + block * 1000)) else None)"
    and same_window:
      "iso_text (t - window * 1000) \<le> started r \<Longrightarrow>
         hits (hit limit window block t (Some r)) = hits r + 1 \<and> started (hit limit window block t (Some r)) = started r \<and>
         held_until (hit limit window block t (Some r))
           = (if full limit (hits r + 1) then Some (iso_text (t + block * 1000)) else None)"
begin

fun hit_all :: "int \<Rightarrow> int \<Rightarrow> int \<Rightarrow> int list \<Rightarrow> 'r option \<Rightarrow> 'r option" where
  "hit_all limit window block [] r = r"
| "hit_all limit window block (t # ts) r = hit_all limit window block ts (Some (hit limit window block t r))"

lemma hits_inside:
  assumes "started r = iso_text t0" "common_era t0" "\<forall>t \<in> set ts. common_era (t - window * 1000) \<and> t - window * 1000 \<le> t0"
  shows "\<exists>r'. hit_all limit window block ts (Some r) = Some r' \<and> hits r' = hits r + int (length ts) \<and>
     started r' = iso_text t0 \<and>
     (ts \<noteq> [] \<longrightarrow> held_until r' = (if full limit (hits r + int (length ts))
                                     then Some (iso_text (last ts + block * 1000)) else None))"
  using assms
proof (induction ts arbitrary: r)
  case (Cons t ts)
  let ?r = "hit limit window block t (Some r)"
  have "iso_text (t - window * 1000) \<le> started r"
    using Cons.prems by (simp add: iso_text_le_iff)
  from same_window [OF this, of limit block] have h: "hits ?r = hits r + 1" "started ?r = iso_text t0"
    "held_until ?r = (if full limit (hits r + 1) then Some (iso_text (t + block * 1000)) else None)"
    using Cons.prems(1) by simp_all
  from Cons.IH [of ?r] h(2) Cons.prems(2,3) obtain r' where
    "hit_all limit window block ts (Some ?r) = Some r'" "hits r' = hits ?r + int (length ts)" "started r' = iso_text t0"
    "ts \<noteq> [] \<longrightarrow> held_until r' = (if full limit (hits ?r + int (length ts))
        then Some (iso_text (last ts + block * 1000)) else None)"
    by auto
  moreover have "hits r + int (length (t # ts)) = hits ?r + int (length ts)" using h(1) by simp
  moreover have "held_until ?r = (if full limit (hits ?r) then Some (iso_text (t + block * 1000)) else None)"
    using h(1,3) by simp
  ultimately show ?case by (cases ts) (auto simp del: length_Cons of_nat_Suc)
qed simp

lemma hits_in_window:
  assumes "common_era t0" "old = None \<or> started (the old) < iso_text (t0 - window * 1000)"
    and "\<forall>t \<in> set ts. common_era (t - window * 1000) \<and> t - window * 1000 \<le> t0"
  shows "\<exists>r. hit_all limit window block (t0 # ts) old = Some r \<and> hits r = 1 + int (length ts) \<and>
     started r = iso_text t0 \<and>
     held_until r = (if full limit (1 + int (length ts)) then Some (iso_text (last (t0 # ts) + block * 1000)) else None)"
proof -
  let ?r = "hit limit window block t0 old"
  note w = new_window [OF assms(2), of limit block]
  then have "started ?r = iso_text t0" by blast
  from hits_inside [OF this assms(1,3), of limit block] w show ?thesis
    by (cases ts) auto
qed

lemma window_rolls_over:
  assumes "started r = iso_text t0" "common_era t0" "common_era (t - window * 1000)" "t0 + window * 1000 < t"
    and "\<not> full limit 1"
  shows "hits (hit limit window block t (Some r)) = 1 \<and> held_until (hit limit window block t (Some r)) = None"
  using assms new_window [of "Some r" t window limit block] by (simp add: iso_text_less_iff)

end

definition failure_hit ::
    "string \<Rightarrow> int \<Rightarrow> int \<Rightarrow> int \<Rightarrow> int \<Rightarrow> auth_failure_bucket_row option \<Rightarrow> auth_failure_bucket_row" where
  "failure_hit key limit window block t old =
     failure_bucket_row key limit (iso_text t) (iso_text (t - window * 1000)) (iso_text (t + block * 1000)) old"

definition quota_hit ::
    "string \<Rightarrow> request_quota_scope \<Rightarrow> int \<Rightarrow> int \<Rightarrow> int \<Rightarrow> int
      \<Rightarrow> request_quota_bucket_row option \<Rightarrow> request_quota_bucket_row" where
  "quota_hit key scope limit window block t old =
     quota_bucket_row key scope limit (iso_text t) (iso_text (t - window * 1000)) (iso_text (t + block * 1000)) old"

interpretation failures: fixed_window "failure_hit key" fb_failed_count fb_window_started_at fb_locked_until "(\<le>)"
  for key
  by unfold_locales (auto simp: failure_hit_def failure_bucket_row_def Let_def split: option.splits)

interpretation quotas: fixed_window "quota_hit key scope" qb_request_count qb_window_started_at qb_blocked_until "(<)"
  for key scope
  by unfold_locales (auto simp: quota_hit_def quota_bucket_row_def Let_def split: option.splits)

interpretation attempt_retention: bounded_cleanup aa_id attempt_due aa_occurred_at cleanup_attempt_rows
  by unfold_locales (simp add: cleanup_attempt_rows_def)

interpretation failure_bucket_retention: bounded_cleanup fb_bucket_key bucket_due fb_updated_at cleanup_bucket_rows
  by unfold_locales (simp add: cleanup_bucket_rows_def)

interpretation quota_bucket_retention: bounded_cleanup qb_bucket_key quota_due qb_updated_at cleanup_quota_rows
  by unfold_locales (simp add: cleanup_quota_rows_def)

section \<open>Buckets in the database\<close>

lemma failure_bucket_key [simp]:
  "fb_bucket_key (failure_bucket_row key limit now th lk None) = key"
  "fb_bucket_key (failure_bucket_row key limit now th lk (Some r)) = fb_bucket_key r"
  by (simp_all add: failure_bucket_row_def Let_def)

lemma quota_bucket_key [simp]:
  "qb_bucket_key (quota_bucket_row key scope limit now th lk None) = key"
  "qb_bucket_key (quota_bucket_row key scope limit now th lk (Some r)) = qb_bucket_key r"
  by (simp_all add: quota_bucket_row_def Let_def)

lemma upsert_failure_first:
  "sql_first (\<lambda>r. fb_bucket_key r = j) (upsert_failure_bucket key limit now th lk t) =
     (if j = key then Some (failure_bucket_row key limit now th lk (sql_first (\<lambda>r. fb_bucket_key r = key) t))
      else sql_first (\<lambda>r. fb_bucket_key r = j) t)"
  by (auto simp: upsert_failure_bucket_def sql_exists_first sql_first_update_key sql_first_update_other sql_first_append
      split: option.split)

lemma upsert_quota_first:
  "sql_first (\<lambda>r. qb_bucket_key r = j) (upsert_quota_bucket key scope limit now th lk t) =
     (if j = key then Some (quota_bucket_row key scope limit now th lk (sql_first (\<lambda>r. qb_bucket_key r = key) t))
      else sql_first (\<lambda>r. qb_bucket_key r = j) t)"
  by (auto simp: upsert_quota_bucket_def sql_exists_first sql_first_update_key sql_first_update_other sql_first_append
      split: option.split)

lemma iso_shift_iso [simp]:
  "common_era t \<Longrightarrow> common_era (t + s * 1000) \<Longrightarrow> iso_shift (iso_text t) s = Inr (iso_text (t + s * 1000))"
  by (simp add: iso_shift_def)

lemma date_after_iso [simp]:
  "common_era a \<Longrightarrow> common_era b \<Longrightarrow> date_after (iso_text a) (iso_text b) \<longleftrightarrow> a > b"
  by (simp add: date_after_def)

lemma date_parse_empty: "date_parse '''' = None"
  by code_simp

lemma iso_text_nonempty [simp]: "common_era a \<Longrightarrow> iso_text a \<noteq> ''''"
  by (metis date_parse_empty date_parse_iso_common option.distinct(1))

definition time_ok :: "int \<Rightarrow> int \<Rightarrow> int \<Rightarrow> bool" where
  "time_ok window block t \<longleftrightarrow> common_era t \<and> common_era (t - window * 1000) \<and> common_era (t + block * 1000)"

lemma record_failed_auth_bucket_hit:
  assumes "time_ok window block t"
  shows "record_failed_auth_bucket key limit window block (iso_text t) db =
    (auth_failure_buckets_update (upsert_failure_bucket key limit (iso_text t) (iso_text (t - window * 1000))
       (iso_text (t + block * 1000))) db,
     Inr (failure_hit key limit window block t (find_auth_failure_bucket key db)))"
  using assms iso_shift_iso [of t "- window"]
  by (simp add: time_ok_def record_failed_auth_bucket_def Let_def find_auth_failure_bucket_def upsert_failure_first
      failure_hit_def return_value_def)

lemma record_request_quota_hit_hit:
  assumes "time_ok window block t"
  shows "record_request_quota_hit key scope limit window block (iso_text t) db =
    (request_quota_buckets_update (upsert_quota_bucket key scope limit (iso_text t) (iso_text (t - window * 1000))
       (iso_text (t + block * 1000))) db,
     Inr (quota_hit key scope limit window block t (find_request_quota_bucket key db)))"
  using assms iso_shift_iso [of t "- window"]
  by (simp add: time_ok_def record_request_quota_hit_def Let_def find_request_quota_bucket_def upsert_quota_first
      quota_hit_def return_value_def)

lemma find_failure_after:
  assumes "time_ok window block t"
  shows "find_auth_failure_bucket j (fst (record_failed_auth_bucket key limit window block (iso_text t) db)) =
    (if j = key then Some (failure_hit key limit window block t (find_auth_failure_bucket key db))
     else find_auth_failure_bucket j db)"
  using assms by (simp add: record_failed_auth_bucket_hit find_auth_failure_bucket_def upsert_failure_first failure_hit_def)

lemma find_quota_after:
  assumes "time_ok window block t"
  shows "find_request_quota_bucket j (fst (record_request_quota_hit key scope limit window block (iso_text t) db)) =
    (if j = key then Some (quota_hit key scope limit window block t (find_request_quota_bucket key db))
     else find_request_quota_bucket j db)"
  using assms by (simp add: record_request_quota_hit_hit find_request_quota_bucket_def upsert_quota_first quota_hit_def)

section \<open>Properties\<close>

definition client_bucket_key :: "(string \<Rightarrow> nat list) \<Rightarrow> (string \<Rightarrow> string option) \<Rightarrow> string" where
  "client_bucket_key sha256 headers =
     build_request_quota_bucket_key sha256 (resolve_request_quota_scope headers) (extract_client_address headers)"

text \<open>The decisions for one client's requests at the given times.\<close>

fun quota_decisions ::
    "(string \<Rightarrow> nat list) \<Rightarrow> (string \<Rightarrow> string option) \<Rightarrow> int list \<Rightarrow> database \<Rightarrow> quota_decision list" where
  "quota_decisions sha256 headers [] db = []"
| "quota_decisions sha256 headers (t # ts) db =
     (case global_quota_check sha256 headers (iso_text t) db of
        (db', d) \<Rightarrow> d # quota_decisions sha256 headers ts db')"

lemma global_quota_check_step:
  assumes "time_ok quota_window_seconds quota_block_seconds t"
  shows "global_quota_check sha256 headers (iso_text t) db =
    (let scope = resolve_request_quota_scope headers; key = client_bucket_key sha256 headers;
         limit = request_quota_limit_for_scope scope;
         r = quota_hit key scope limit quota_window_seconds quota_block_seconds t (find_request_quota_bucket key db)
     in (fst (record_request_quota_hit key scope limit quota_window_seconds quota_block_seconds (iso_text t) db),
         if is_request_quota_exceeded r (iso_text t) then RateLimited else Proceed))"
  using assms by (simp add: global_quota_check_def record_request_quota_hit_hit client_bucket_key_def Let_def)

lemma decisions_inside:
  assumes "find_request_quota_bucket (client_bucket_key sha256 headers) db = Some r"
    and "qb_window_started_at r = iso_text t0" "common_era t0"
    and "\<forall>t \<in> set ts. time_ok quota_window_seconds quota_block_seconds t \<and> t \<le> t0 + 60000"
  shows "quota_decisions sha256 headers ts db =
    map (\<lambda>k. if qb_request_count r + int k < request_quota_limit_for_scope (resolve_request_quota_scope headers)
              then Proceed else RateLimited) [0..<length ts]"
  using assms
proof (induction ts arbitrary: db r)
  case (Cons t ts)
  let ?key = "client_bucket_key sha256 headers" and ?scope = "resolve_request_quota_scope headers"
  let ?limit = "request_quota_limit_for_scope ?scope"
  let ?r = "quota_hit ?key ?scope ?limit quota_window_seconds quota_block_seconds t (Some r)"
  have ok: "time_ok quota_window_seconds quota_block_seconds t" using Cons.prems by simp
  then have ce: "common_era t" "common_era (t - 60 * 1000)" "common_era (t + 60 * 1000)"
    by (simp_all add: time_ok_def quota_window_seconds_def quota_block_seconds_def)
  have "iso_text (t - quota_window_seconds * 1000) \<le> qb_window_started_at r"
    using Cons.prems ce by (simp add: quota_window_seconds_def iso_text_le_iff)
  from quotas.same_window [OF this, of ?key ?scope ?limit quota_block_seconds] have h:
    "qb_request_count ?r = qb_request_count r + 1" "qb_window_started_at ?r = iso_text t0"
    "qb_blocked_until ?r = (if ?limit < qb_request_count r + 1 then Some (iso_text (t + 60 * 1000)) else None)"
    using Cons.prems(2) by (simp_all add: quota_block_seconds_def)
  have dec: "is_request_quota_exceeded ?r (iso_text t) \<longleftrightarrow> \<not> qb_request_count r < ?limit"
    using h(3) ce by (simp add: is_request_quota_exceeded_def)
  let ?db = "fst (record_request_quota_hit ?key ?scope ?limit quota_window_seconds quota_block_seconds (iso_text t) db)"
  have "find_request_quota_bucket ?key ?db = Some ?r"
    using find_quota_after [OF ok] Cons.prems(1) by simp
  from Cons.IH [OF this h(2) Cons.prems(3)] Cons.prems(4) have
    "quota_decisions sha256 headers ts ?db =
       map (\<lambda>k. if qb_request_count r + int k < ?limit then Proceed else RateLimited) (map Suc [0..<length ts])"
    by (simp add: h(1) o_def add.assoc)
  then show ?case
    using Cons.prems(1) dec
    by (simp add: global_quota_check_step [OF ok] Let_def upt_conv_Cons map_Suc_upt del: upt_Suc)
qed simp

text \<open>
  C22. The request quota admits exactly the first requests of a window. A client (address and scope) without a
  running window sends requests at times \<open>t0 # ts\<close> that all fall within 60 seconds of the first: the first 120
  (600 with a bearer token) proceed and every later one is refused, whatever the other clients' buckets hold.
\<close>
theorem quota_admits_limit_per_window:
  assumes "case find_request_quota_bucket (client_bucket_key sha256 headers) db of
             None \<Rightarrow> True | Some r \<Rightarrow> qb_window_started_at r < iso_text (t0 - 60000)"
    and "\<forall>t \<in> set (t0 # ts). time_ok quota_window_seconds quota_block_seconds t \<and> t \<le> t0 + 60000"
  shows "quota_decisions sha256 headers (t0 # ts) db =
    map (\<lambda>k. if int k < request_quota_limit_for_scope (resolve_request_quota_scope headers)
              then Proceed else RateLimited) [0..<length (t0 # ts)]"
proof -
  let ?key = "client_bucket_key sha256 headers" and ?scope = "resolve_request_quota_scope headers"
  let ?limit = "request_quota_limit_for_scope ?scope" and ?old = "find_request_quota_bucket ?key db"
  let ?r = "quota_hit ?key ?scope ?limit quota_window_seconds quota_block_seconds t0 ?old"
  have ok: "time_ok quota_window_seconds quota_block_seconds t0" using assms(2) by simp
  then have ce: "common_era t0" by (simp add: time_ok_def)
  have "?old = None \<or> qb_window_started_at (the ?old) < iso_text (t0 - quota_window_seconds * 1000)"
    using assms(1) by (cases ?old) (simp_all add: quota_window_seconds_def)
  moreover have lim: "0 < ?limit" by (cases ?scope) (simp_all add: policy_defs)
  ultimately have h: "qb_request_count ?r = 1" "qb_window_started_at ?r = iso_text t0" "qb_blocked_until ?r = None"
    using quotas.new_window [of ?old t0 quota_window_seconds ?key ?scope ?limit quota_block_seconds] by auto
  let ?db = "fst (record_request_quota_hit ?key ?scope ?limit quota_window_seconds quota_block_seconds (iso_text t0) db)"
  have "find_request_quota_bucket ?key ?db = Some ?r" using find_quota_after [OF ok] by simp
  from decisions_inside [OF this h(2) ce] assms(2) have
    "quota_decisions sha256 headers ts ?db =
       map (\<lambda>k. if int k < ?limit then Proceed else RateLimited) (map Suc [0..<length ts])"
    by (simp add: h(1) o_def add.commute)
  then show ?thesis
    using h(3) lim
    by (simp add: global_quota_check_step [OF ok] Let_def is_request_quota_exceeded_def upt_conv_Cons map_Suc_upt del: upt_Suc)
qed

lemma sample_time_ok: "0 \<le> t \<Longrightarrow> t \<le> 60000 \<Longrightarrow> time_ok quota_window_seconds quota_block_seconds t"
  by (simp add: time_ok_def common_era_def policy_defs)

theorem quota_admits_limit_per_window_witness:
  "quota_decisions (\<lambda>s. []) (\<lambda>h. None) (0 # replicate 120 7) (empty_database ''n'') = replicate 120 Proceed @ [RateLimited]"
proof -
  have scope: "resolve_request_quota_scope (\<lambda>h. None) = Anonymous" by code_simp
  have "map (\<lambda>k. if int k < 120 then Proceed else RateLimited) [0..<length (0 # replicate 120 (7 :: int))]
      = replicate 120 Proceed @ [RateLimited]"
    by (rule nth_equalityI) (simp_all add: nth_append)
  then show ?thesis
    using quota_admits_limit_per_window [where ?sha256.0 = "\<lambda>s. []" and headers = "\<lambda>h. None" and
        db = "empty_database ''n''" and ?t0.0 = 0 and ts = "replicate 120 7"]
    by (simp add: scope anonymous_limit_def find_request_quota_bucket_def empty_database_def sql_first_def
        sample_time_ok)
qed

text \<open>
  A quota block never outlives its window. Whatever the count and the \<open>blocked_until\<close> stored in a client's bucket,
  a request more than 60 seconds after the window started proceeds, and it clears the block: the 60 seconds
  of \<open>blockSeconds\<close> after the last refused request are not waited for.
\<close>
theorem quota_block_ends_with_window:
  assumes "find_request_quota_bucket (client_bucket_key sha256 headers) db = Some r"
    and "qb_window_started_at r = iso_text t0" "common_era t0"
    and "time_ok quota_window_seconds quota_block_seconds t" "t0 + 60000 < t"
  shows "snd (global_quota_check sha256 headers (iso_text t) db) = Proceed"
proof -
  let ?key = "client_bucket_key sha256 headers" and ?scope = "resolve_request_quota_scope headers"
  let ?limit = "request_quota_limit_for_scope ?scope"
  have "\<not> ?limit < 1" by (cases ?scope) (simp_all add: policy_defs)
  then have "qb_blocked_until (quota_hit ?key ?scope ?limit quota_window_seconds quota_block_seconds t (Some r)) = None"
    using quotas.window_rolls_over [of r t0 t quota_window_seconds ?limit ?key ?scope quota_block_seconds] assms
    by (simp add: time_ok_def quota_window_seconds_def)
  then show ?thesis
    using assms(1) by (simp add: global_quota_check_step [OF assms(4)] Let_def is_request_quota_exceeded_def)
qed

definition sample_blocked_bucket :: request_quota_bucket_row where
  "sample_blocked_bucket =
     \<lparr>qb_bucket_key = client_bucket_key (\<lambda>s. []) (\<lambda>h. None), qb_scope = Anonymous, qb_request_count = 121,
      qb_window_started_at = iso_text 0, qb_blocked_until = Some (iso_text 119000), qb_updated_at = iso_text 59000\<rparr>"

theorem quota_block_ends_with_window_witness:
  "is_request_quota_exceeded sample_blocked_bucket (iso_text 60001) \<and>
   snd (global_quota_check (\<lambda>s. []) (\<lambda>h. None) (iso_text 60001)
     ((empty_database ''n'')\<lparr>request_quota_buckets := [sample_blocked_bucket]\<rparr>)) = Proceed"
proof
  show "is_request_quota_exceeded sample_blocked_bucket (iso_text 60001)"
    by (simp add: is_request_quota_exceeded_def sample_blocked_bucket_def common_era_def)
  show "snd (global_quota_check (\<lambda>s. []) (\<lambda>h. None) (iso_text 60001)
     ((empty_database ''n'')\<lparr>request_quota_buckets := [sample_blocked_bucket]\<rparr>)) = Proceed"
    by (rule quota_block_ends_with_window [where r = sample_blocked_bucket and ?t0.0 = 0])
      (simp_all add: find_request_quota_bucket_def sql_first_def sample_blocked_bucket_def common_era_def time_ok_def
        policy_defs)
qed

section \<open>Lockout\<close>

text \<open>Failures recorded for one bucket at the given times.\<close>

fun record_failures :: "string \<Rightarrow> int \<Rightarrow> int \<Rightarrow> int \<Rightarrow> int list \<Rightarrow> database \<Rightarrow> database" where
  "record_failures key limit window lockout [] db = db"
| "record_failures key limit window lockout (t # ts) db =
     record_failures key limit window lockout ts
       (fst (record_failed_auth_bucket key limit window lockout (iso_text t) db))"

lemma record_failures_find:
  assumes "\<forall>t \<in> set ts. time_ok window lockout t"
  shows "find_auth_failure_bucket key (record_failures key limit window lockout ts db) =
    failures.hit_all key limit window lockout ts (find_auth_failure_bucket key db)"
  using assms
proof (induction ts arbitrary: db)
  case (Cons t ts)
  then show ?case using find_failure_after [of window lockout t key key limit db] by simp
qed simp

text \<open>
  C21. Five failures in a quarter of an hour lock an account for a quarter of an hour, and fewer do not. After failed
  attempts at times \<open>t0 # ts\<close>, all within 15 minutes of the first, the account bucket is locked at a time \<open>now\<close> if and only
  if there were at least five and \<open>now\<close> is less than 15 minutes after the last one. Before the first of them the account has no
  bucket, or one whose window started more than 15 minutes earlier: whatever that bucket counted, and whether or not it was
  locked, is forgotten.
\<close>
theorem account_locked_after_five_failures:
  assumes "find_auth_failure_bucket key db = old" "old = None \<or> fb_window_started_at (the old) < iso_text (t0 - 900000)"
    and "\<forall>t \<in> set (t0 # ts). time_ok account_failure_window_seconds account_lockout_seconds t \<and> t \<le> t0 + 900000"
    and "common_era now"
  shows "\<exists>r. find_auth_failure_bucket key
           (record_failures key account_failure_limit account_failure_window_seconds account_lockout_seconds (t0 # ts) db)
         = Some r \<and> fb_failed_count r = 1 + int (length ts) \<and>
       is_account_locked (fb_locked_until r) (iso_text now) = (5 \<le> 1 + length ts \<and> now < last (t0 # ts) + 900000)"
proof -
  let ?run = "failures.hit_all key account_failure_limit account_failure_window_seconds account_lockout_seconds (t0 # ts)"
  have ok: "\<forall>t \<in> set (t0 # ts). time_ok account_failure_window_seconds account_lockout_seconds t" using assms(3) by blast
  have find: "find_auth_failure_bucket key
      (record_failures key account_failure_limit account_failure_window_seconds account_lockout_seconds (t0 # ts) db)
      = ?run old"
    using record_failures_find [OF ok] assms(1) by simp
  have old: "old = None \<or> fb_window_started_at (the old) < iso_text (t0 - account_failure_window_seconds * 1000)"
    using assms(2) by (simp add: account_failure_window_seconds_def)
  have ts: "\<forall>t \<in> set ts. common_era (t - account_failure_window_seconds * 1000) \<and>
      t - account_failure_window_seconds * 1000 \<le> t0"
    using assms(3) by (auto simp: time_ok_def account_failure_window_seconds_def)
  have "common_era t0" using assms(3) by (simp add: time_ok_def)
  from failures.hits_in_window [OF this old ts, of key account_failure_limit account_lockout_seconds] obtain r where
    r: "?run old = Some r" "fb_failed_count r = 1 + int (length ts)"
      "fb_locked_until r = (if account_failure_limit \<le> 1 + int (length ts)
         then Some (iso_text (last (t0 # ts) + account_lockout_seconds * 1000)) else None)"
    by blast
  have "last (t0 # ts) \<in> set (t0 # ts)" by (rule last_in_set) simp
  with assms(3) have "common_era (last (t0 # ts) + account_lockout_seconds * 1000)" unfolding time_ok_def by blast
  with assms(4) have "is_account_locked (fb_locked_until r) (iso_text now) =
      (5 \<le> 1 + length ts \<and> now < last (t0 # ts) + 900000)"
    unfolding r(3) is_account_locked_def
    by (cases "account_failure_limit \<le> 1 + int (length ts)")
      (auto simp: account_failure_limit_def account_lockout_seconds_def)
  with find r(1,2) show ?thesis by auto
qed

definition sample_old_bucket :: auth_failure_bucket_row where
  "sample_old_bucket = \<lparr>fb_bucket_key = ''k'', fb_failed_count = 4, fb_window_started_at = iso_text 0, fb_locked_until = None,
     fb_updated_at = iso_text 900000\<rparr>"

theorem account_locked_after_five_failures_witness:
  "\<exists>r. find_auth_failure_bucket ''k'' (record_failures ''k'' account_failure_limit account_failure_window_seconds
       account_lockout_seconds [900001, 901000] ((empty_database ''n'')\<lparr>auth_failure_buckets := [sample_old_bucket]\<rparr>)) = Some r \<and>
     fb_failed_count r = 2 \<and> \<not> is_account_locked (fb_locked_until r) (iso_text 901000)"
proof -
  have "fb_window_started_at sample_old_bucket < iso_text 1"
    by (simp add: sample_old_bucket_def iso_text_less_iff common_era_def)
  with account_locked_after_five_failures [of "''k''" "(empty_database ''n'')\<lparr>auth_failure_buckets := [sample_old_bucket]\<rparr>"
      "Some sample_old_bucket" 900001 "[901000]" 901000] show ?thesis
    by (auto simp: find_auth_failure_bucket_def sql_first_def time_ok_def common_era_def policy_defs sample_old_bucket_def)
qed

text \<open>
  Clean-up never forgets a lock. However many buckets the clean-up of failure buckets deletes, a bucket that is
  locked beyond \<open>now\<close>, or was updated inside the retention window, keeps its row.
\<close>
theorem cleanup_keeps_locked_buckets:
  assumes "distinct (map fb_bucket_key (auth_failure_buckets db))"
    and "r \<in> set (auth_failure_buckets db)"
    and "expired_before \<le> fb_updated_at r \<or> (\<exists>l. fb_locked_until r = Some l \<and> now \<le> l)"
  shows "r \<in> set (auth_failure_buckets (fst (cleanup_expired_auth_failure_buckets expired_before now limit db)))"
proof -
  have "\<not> bucket_due (expired_before, now) r" using assms(3) by (auto simp: bucket_due_def)
  from failure_bucket_retention.cleanup_keeps [OF assms(1,2) this, of limit] show ?thesis
    by (auto simp: cleanup_expired_auth_failure_buckets_def return_value_def split: prod.split)
qed

theorem cleanup_keeps_locked_buckets_witness:
  "\<lparr>fb_bucket_key = ''k'', fb_failed_count = 5, fb_window_started_at = ''0'', fb_locked_until = Some ''9'',
     fb_updated_at = ''1''\<rparr> \<in> set (auth_failure_buckets (fst (cleanup_expired_auth_failure_buckets ''5'' ''7'' 100
     ((empty_database ''n'')\<lparr>auth_failure_buckets := [\<lparr>fb_bucket_key = ''k'', fb_failed_count = 5,
        fb_window_started_at = ''0'', fb_locked_until = Some ''9'', fb_updated_at = ''1''\<rparr>]\<rparr>))))"
  by (rule cleanup_keeps_locked_buckets) (simp_all add: less_eq_list_code less_char_def)

end
