(* ===== verification/TotpStore.thy ===== *)
theory TotpStore
  imports SessionProofs RateLimits
begin

text \<open>
  TOTP enrolment, login challenges and session assurance: \<open>src/repositories/totp-repository.ts\<close> and
  \<open>src/repositories/mfa-session-repository.ts\<close>, with the two triggers of
  \<open>migrations/0027_session_mfa_assurance.sql\<close> that clear a device's proof when its factor changes.
  The generation of a new enrolment, a random UUID, is an argument.
\<close>

section \<open>Triggers\<close>

definition clear_session_mfa :: "device_row \<Rightarrow> device_row" where
  "clear_session_mfa d = d\<lparr>d_mfa_totp_credential_generation := None, d_mfa_verified_at := None\<rparr>"

definition clear_mfa_of :: "string set \<Rightarrow> database \<Rightarrow> database" where
  "clear_mfa_of owners = devices_update (sql_update (\<lambda>d. d_user_id d \<in> owners) clear_session_mfa)"

text \<open>The WHEN clause of the update trigger.\<close>

definition factor_invalidated :: "totp_row \<Rightarrow> totp_row \<Rightarrow> bool" where
  "factor_invalidated old new \<longleftrightarrow>
     \<not> tf_enabled new \<or> tf_credential_generation new \<noteq> tf_credential_generation old"

text \<open>An UPDATE of \<open>user_totp\<close> that sets the columns the trigger watches.\<close>

definition update_factor ::
    "(database \<Rightarrow> nat \<Rightarrow> totp_row \<Rightarrow> bool) \<Rightarrow> (totp_row \<Rightarrow> totp_row) \<Rightarrow> database stmt" where
  "update_factor p f db prev =
     (let hit = filter (p db prev) (user_totp db);
          owners = set (map tf_user_id (filter (\<lambda>t. factor_invalidated t (f t)) hit))
      in Inr (clear_mfa_of owners (user_totp_update (sql_update (p db prev) f) db), length hit))"

definition delete_factor :: "(database \<Rightarrow> nat \<Rightarrow> totp_row \<Rightarrow> bool) \<Rightarrow> database stmt" where
  "delete_factor p db prev =
     (let hit = filter (p db prev) (user_totp db)
      in Inr (clear_mfa_of (set (map tf_user_id hit)) (user_totp_update (sql_delete (p db prev)) db), length hit))"

text \<open>An upsert on \<open>user_id\<close>: insert the row, or update the conflicting one if the guard holds.\<close>

definition upsert_factor :: "totp_row \<Rightarrow> (totp_row \<Rightarrow> bool) \<Rightarrow> (totp_row \<Rightarrow> totp_row) \<Rightarrow> database stmt" where
  "upsert_factor row guard f db prev =
     (if sql_exists (\<lambda>t. tf_user_id t = tf_user_id row) (user_totp db)
      then update_factor (\<lambda>db prev t. tf_user_id t = tf_user_id row \<and> guard t) f db prev
      else if \<not> user_exists (tf_user_id row) db then Inl ConstraintError
      else Inr (db\<lparr>user_totp := user_totp db @ [row]\<rparr>, 1))"

section \<open>Enrolment\<close>

definition pending_setup_row :: "string \<Rightarrow> string \<Rightarrow> string \<Rightarrow> totp_row" where
  "pending_setup_row user_id encrypted_secret now =
     \<lparr>tf_user_id = user_id, tf_encrypted_secret = encrypted_secret, tf_enabled = False, tf_verified_at = None,
      tf_last_accepted_step = None, tf_credential_generation = None, tf_pending_encrypted_secret = None,
      tf_pending_created_at = None, tf_created_at = now, tf_updated_at = now\<rparr>"

definition upsert_pending_totp_setup :: "string \<Rightarrow> string \<Rightarrow> string \<Rightarrow> unit repo" where
  "upsert_pending_totp_setup user_id encrypted_secret now =
     with_batch
       [upsert_factor (pending_setup_row user_id encrypted_secret now) (\<lambda>t. \<not> tf_enabled t)
          (\<lambda>t. t\<lparr>tf_encrypted_secret := encrypted_secret, tf_enabled := False, tf_verified_at := None,
                 tf_last_accepted_step := None, tf_credential_generation := None,
                 tf_pending_encrypted_secret := None, tf_pending_created_at := None, tf_updated_at := now\<rparr>)]
       (\<lambda>ns. return_value ())"

definition find_totp_setup_by_user_id :: "string \<Rightarrow> database \<Rightarrow> totp_row option" where
  "find_totp_setup_by_user_id user_id db = sql_first (\<lambda>t. tf_user_id t = user_id) (user_totp db)"

text \<open>An optional condition: left out of the WHERE clause when the argument is \<open>undefined\<close>.\<close>

definition expected :: "'a option \<Rightarrow> 'a option \<Rightarrow> bool" where
  "expected want have \<longleftrightarrow> (want = None \<or> sql_eq have want)"

definition enable_totp_setup :: "string \<Rightarrow> string \<Rightarrow> string \<Rightarrow> string option \<Rightarrow> bool repo" where
  "enable_totp_setup generation user_id verified_at expected_encrypted_secret =
     with_batch
       [update_factor
          (\<lambda>db prev t. tf_user_id t = user_id \<and> \<not> tf_enabled t \<and>
             expected expected_encrypted_secret (Some (tf_encrypted_secret t)))
          (\<lambda>t. t\<lparr>tf_enabled := True, tf_verified_at := Some verified_at, tf_updated_at := verified_at,
                 tf_credential_generation := Some generation\<rparr>)]
       (\<lambda>ns. return_value (ns ! 0 \<ge> 1))"

text \<open>
  Every enabled organisation with an enabled two-step policy that the user owns must keep another
  confirmed owner with an active account and an enrolled factor.
\<close>

definition confirmed_owner :: "string \<Rightarrow> organization_user_row \<Rightarrow> bool" where
  "confirmed_owner org m \<longleftrightarrow> ou_organization_id m = org \<and> ou_status m = 2 \<and> ou_type m = 0"

definition enrolled_factor :: "totp_row \<Rightarrow> bool" where
  "enrolled_factor t \<longleftrightarrow> tf_enabled t \<and> tf_verified_at t \<noteq> None \<and> tf_credential_generation t \<noteq> None"

definition surviving_owner :: "string \<Rightarrow> string \<Rightarrow> database \<Rightarrow> bool" where
  "surviving_owner org user_id db \<longleftrightarrow>
     sql_exists (\<lambda>m. confirmed_owner org m \<and> ou_user_id m \<noteq> Some user_id \<and>
       sql_exists (\<lambda>u. Some (u_id u) = ou_user_id m \<and> u_disabled_at u = None) (users db) \<and>
       sql_exists (\<lambda>t. Some (tf_user_id t) = ou_user_id m \<and> enrolled_factor t) (user_totp db))
       (organization_users db)"

definition requires_two_step :: "string \<Rightarrow> database \<Rightarrow> bool" where
  "requires_two_step org db \<longleftrightarrow>
     sql_exists (\<lambda>g. org_id g = org \<and> org_enabled g) (organizations db) \<and>
     sql_exists (\<lambda>p. op_organization_id p = org \<and> op_type p = 0 \<and> op_enabled p) (organization_policies db)"

definition last_enrolled_owner_can_remove_totp :: "string \<Rightarrow> database \<Rightarrow> bool" where
  "last_enrolled_owner_can_remove_totp user_id db \<longleftrightarrow>
     \<not> sql_exists (\<lambda>m. confirmed_owner (ou_organization_id m) m \<and> ou_user_id m = Some user_id \<and>
         requires_two_step (ou_organization_id m) db \<and>
         \<not> surviving_owner (ou_organization_id m) user_id db)
       (organization_users db)"

definition disable_totp_setup :: "string \<Rightarrow> string option \<Rightarrow> bool repo" where
  "disable_totp_setup user_id expected_generation =
     with_batch
       [delete_factor (\<lambda>db prev t. tf_user_id t = user_id \<and> tf_enabled t \<and>
          expected expected_generation (tf_credential_generation t) \<and>
          last_enrolled_owner_can_remove_totp user_id db)]
       (\<lambda>ns. return_value (ns ! 0 \<ge> 1))"

definition start_pending_totp_change :: "string \<Rightarrow> string \<Rightarrow> string \<Rightarrow> string option \<Rightarrow> bool repo" where
  "start_pending_totp_change user_id encrypted_secret now expected_generation =
     with_batch
       [update_stmt user_totp user_totp_update
          (\<lambda>db prev t. tf_user_id t = user_id \<and> tf_enabled t \<and> expected expected_generation (tf_credential_generation t))
          (\<lambda>t. t\<lparr>tf_pending_encrypted_secret := Some encrypted_secret, tf_pending_created_at := Some now,
                 tf_updated_at := now\<rparr>)]
       (\<lambda>ns. return_value (ns ! 0 = 1))"

definition promote_factor :: "string \<Rightarrow> string \<Rightarrow> int \<Rightarrow> totp_row \<Rightarrow> totp_row" where
  "promote_factor generation verified_at step t =
     t\<lparr>tf_encrypted_secret := the (tf_pending_encrypted_secret t), tf_verified_at := Some verified_at,
       tf_last_accepted_step := Some step, tf_credential_generation := Some generation,
       tf_pending_encrypted_secret := None, tf_pending_created_at := None, tf_updated_at := verified_at\<rparr>"

definition promote_pending_totp_change ::
    "string \<Rightarrow> string \<Rightarrow> int \<Rightarrow> string \<Rightarrow> string option \<Rightarrow> string option \<Rightarrow> bool repo" where
  "promote_pending_totp_change generation user_id step verified_at expected_generation expected_pending =
     with_batch
       [update_factor
          (\<lambda>db prev t. tf_user_id t = user_id \<and> tf_enabled t \<and> tf_pending_encrypted_secret t \<noteq> None \<and>
             expected expected_generation (tf_credential_generation t) \<and>
             expected expected_pending (tf_pending_encrypted_secret t))
          (promote_factor generation verified_at step)]
       (\<lambda>ns. return_value (ns ! 0 \<ge> 1))"

definition step_is_new :: "int \<Rightarrow> totp_row \<Rightarrow> bool" where
  "step_is_new step t \<longleftrightarrow> tf_last_accepted_step t = None \<or> sql_gt (Some step) (tf_last_accepted_step t)"

definition accept_step :: "int \<Rightarrow> string \<Rightarrow> totp_row \<Rightarrow> totp_row" where
  "accept_step step now t = t\<lparr>tf_last_accepted_step := Some step, tf_updated_at := now\<rparr>"

definition record_accepted_totp_step :: "string \<Rightarrow> int \<Rightarrow> string \<Rightarrow> string option \<Rightarrow> bool repo" where
  "record_accepted_totp_step user_id step now expected_generation =
     with_batch
       [update_stmt user_totp user_totp_update
          (\<lambda>db prev t. tf_user_id t = user_id \<and> step_is_new step t \<and>
             (expected_generation = None \<or>
              tf_enabled t \<and> tf_verified_at t \<noteq> None \<and> sql_eq (tf_credential_generation t) expected_generation))
          (accept_step step now)]
       (\<lambda>ns. return_value (ns ! 0 = 1))"

section \<open>Login challenges\<close>

definition insert_totp_challenge :: "totp_challenge_row \<Rightarrow> database stmt" where
  "insert_totp_challenge row db prev =
     (if sql_exists (\<lambda>r. tc_id r = tc_id row \<or> tc_challenge_hash r = tc_challenge_hash row) (totp_challenges db)
         \<or> \<not> user_exists (tc_user_id row) db
      then Inl ConstraintError
      else Inr (db\<lparr>totp_challenges := totp_challenges db @ [row]\<rparr>, 1))"

definition create_totp_challenge ::
    "string \<Rightarrow> string \<Rightarrow> string \<Rightarrow> string \<Rightarrow> string \<Rightarrow> string \<Rightarrow> unit repo" where
  "create_totp_challenge cid user_id challenge_hash device_identifier expires_at created_at =
     with_batch
       [insert_totp_challenge \<lparr>tc_id = cid, tc_user_id = user_id, tc_challenge_hash = challenge_hash,
          tc_device_identifier = device_identifier, tc_expires_at = expires_at, tc_consumed_at = None,
          tc_created_at = created_at\<rparr>]
       (\<lambda>ns. return_value ())"

definition find_active_totp_challenge_by_hash :: "string \<Rightarrow> string \<Rightarrow> database \<Rightarrow> totp_challenge_row option" where
  "find_active_totp_challenge_by_hash challenge_hash now db =
     sql_first (\<lambda>r. tc_challenge_hash r = challenge_hash \<and> tc_consumed_at r = None \<and> tc_expires_at r > now)
       (totp_challenges db)"

definition challenge_open :: "totp_challenge_row \<Rightarrow> bool" where
  "challenge_open r \<longleftrightarrow> tc_consumed_at r = None"

definition mark_challenge_consumed :: "string \<Rightarrow> totp_challenge_row \<Rightarrow> totp_challenge_row" where
  "mark_challenge_consumed now r = r\<lparr>tc_consumed_at := Some now\<rparr>"

definition consume_totp_challenge :: "string \<Rightarrow> string \<Rightarrow> bool repo" where
  "consume_totp_challenge challenge_id consumed_at =
     with_batch
       [update_stmt totp_challenges totp_challenges_update
          (\<lambda>db prev r. tc_id r = challenge_id \<and> challenge_open r) (mark_challenge_consumed consumed_at)]
       (\<lambda>ns. return_value (ns ! 0 = 1))"

definition challenge_due :: "string \<Rightarrow> totp_challenge_row \<Rightarrow> bool" where
  "challenge_due expired_before r \<longleftrightarrow> tc_consumed_at r \<noteq> None \<or> tc_expires_at r < expired_before"

definition cleanup_challenge_rows :: "string \<Rightarrow> int \<Rightarrow> totp_challenge_row list \<Rightarrow> totp_challenge_row list \<times> nat" where
  "cleanup_challenge_rows expired_before limit t = delete_oldest tc_id (challenge_due expired_before) tc_expires_at limit t"

definition cleanup_expired_totp_challenges :: "string \<Rightarrow> int \<Rightarrow> nat repo" where
  "cleanup_expired_totp_challenges expired_before limit db =
     (case cleanup_challenge_rows expired_before limit (totp_challenges db) of
        (rest, n) \<Rightarrow> return_value n (db\<lparr>totp_challenges := rest\<rparr>))"

section \<open>Assurance of a session\<close>

record mfa_session_actor =
  ma_user_id :: string
  ma_device_identifier :: string
  ma_session_id :: string

definition actor_device :: "mfa_session_actor \<Rightarrow> device_row \<Rightarrow> bool" where
  "actor_device a d \<longleftrightarrow>
     d_user_id d = ma_user_id a \<and> d_identifier d = ma_device_identifier a \<and>
     d_session_id d = Some (ma_session_id a) \<and> d_revoked_at d = None"

definition active_user :: "string \<Rightarrow> database \<Rightarrow> bool" where
  "active_user user_id db \<longleftrightarrow> sql_exists (\<lambda>u. u_id u = user_id \<and> u_disabled_at u = None) (users db)"

definition active_session :: "mfa_session_actor \<Rightarrow> database \<Rightarrow> bool" where
  "active_session a db \<longleftrightarrow> active_user (ma_user_id a) db \<and> sql_exists (actor_device a) (devices db)"

definition find_session_totp_assurance :: "mfa_session_actor \<Rightarrow> database \<Rightarrow> bool" where
  "find_session_totp_assurance a db \<longleftrightarrow>
     active_user (ma_user_id a) db \<and>
     sql_exists (\<lambda>d. actor_device a d \<and> d_mfa_verified_at d \<noteq> None \<and>
       sql_exists (\<lambda>t. tf_user_id t = d_user_id d \<and> enrolled_factor t \<and>
         sql_eq (d_mfa_totp_credential_generation d) (tf_credential_generation t)) (user_totp db))
       (devices db)"

definition consume_step_statement ::
    "mfa_session_actor \<Rightarrow> totp_session_verification \<Rightarrow> string \<Rightarrow> database stmt" where
  "consume_step_statement a v now =
     update_stmt user_totp user_totp_update
       (\<lambda>db prev t. tf_user_id t = ma_user_id a \<and> tf_enabled t \<and> tf_verified_at t \<noteq> None \<and>
          tf_credential_generation t = Some (tv_credential_generation v) \<and>
          step_is_new (num_int (tv_accepted_step v)) t \<and> active_session a db)
       (accept_step (num_int (tv_accepted_step v)) now)"

definition prove_session :: "string \<Rightarrow> string \<Rightarrow> device_row \<Rightarrow> device_row" where
  "prove_session generation verified_at d =
     d\<lparr>d_mfa_totp_credential_generation := Some generation, d_mfa_verified_at := Some verified_at\<rparr>"

definition session_proof_statement :: "mfa_session_actor \<Rightarrow> string \<Rightarrow> string \<Rightarrow> database stmt" where
  "session_proof_statement a generation verified_at =
     update_stmt devices devices_update
       (\<lambda>db prev d. prev = 1 \<and> actor_device a d \<and>
          sql_exists (\<lambda>t. tf_user_id t = d_user_id d \<and> tf_enabled t \<and> tf_verified_at t \<noteq> None \<and>
            tf_credential_generation t = Some generation) (user_totp db))
       (prove_session generation verified_at)"

definition completed_proof_batch :: "nat list \<Rightarrow> bool repo" where
  "completed_proof_batch ns =
     (if last ns > 1 then throw (JsError ''TOTP session proof batch updated multiple families.'')
      else return_value (last ns = 1))"

definition consume_totp_session_step_up ::
    "mfa_session_actor \<Rightarrow> totp_session_verification \<Rightarrow> string \<Rightarrow> bool repo" where
  "consume_totp_session_step_up a v now =
     (if \<not> is_valid_totp_session_verification v then return_value False
      else with_batch [consume_step_statement a v now, session_proof_statement a (tv_credential_generation v) now]
             completed_proof_batch)"

definition create_pending_totp_setup_for_session :: "mfa_session_actor \<Rightarrow> string \<Rightarrow> string \<Rightarrow> bool repo" where
  "create_pending_totp_setup_for_session a encrypted_secret now =
     with_batch
       [\<lambda>db prev. if active_session a db
          then upsert_factor (pending_setup_row (ma_user_id a) encrypted_secret now) (\<lambda>t. \<not> tf_enabled t)
                 (\<lambda>t. t\<lparr>tf_encrypted_secret := encrypted_secret, tf_verified_at := None,
                        tf_last_accepted_step := None, tf_credential_generation := None,
                        tf_pending_encrypted_secret := None, tf_pending_created_at := None,
                        tf_updated_at := now\<rparr>) db prev
          else Inr (db, 0)]
       (\<lambda>ns. return_value (ns ! 0 = 1))"

definition start_pending_totp_change_for_session ::
    "mfa_session_actor \<Rightarrow> totp_session_verification \<Rightarrow> string \<Rightarrow> string \<Rightarrow> bool repo" where
  "start_pending_totp_change_for_session a v encrypted_secret now =
     (if \<not> is_valid_totp_session_verification v then return_value False
      else with_batch
        [consume_step_statement a v now,
         update_stmt user_totp user_totp_update
           (\<lambda>db prev t. prev = 1 \<and> tf_user_id t = ma_user_id a \<and> tf_enabled t \<and>
              tf_credential_generation t = Some (tv_credential_generation v) \<and> active_session a db)
           (\<lambda>t. t\<lparr>tf_pending_encrypted_secret := Some encrypted_secret, tf_pending_created_at := Some now,
                  tf_updated_at := now\<rparr>),
         session_proof_statement a (tv_credential_generation v) now]
        completed_proof_batch)"

definition enable_totp_setup_for_session ::
    "string \<Rightarrow> mfa_session_actor \<Rightarrow> string \<Rightarrow> js_number \<Rightarrow> string \<Rightarrow> bool repo" where
  "enable_totp_setup_for_session generation a expected_encrypted_secret step verified_at =
     (if \<not> is_valid_totp_session_verification
            \<lparr>tv_credential_generation = generation, tv_accepted_step = step\<rparr> then return_value False
      else with_batch
        [update_factor
           (\<lambda>db prev t. tf_user_id t = ma_user_id a \<and> \<not> tf_enabled t \<and>
              tf_encrypted_secret t = expected_encrypted_secret \<and> step_is_new (num_int step) t \<and>
              active_session a db)
           (\<lambda>t. t\<lparr>tf_enabled := True, tf_verified_at := Some verified_at,
                  tf_last_accepted_step := Some (num_int step), tf_credential_generation := Some generation,
                  tf_updated_at := verified_at\<rparr>),
         session_proof_statement a generation verified_at]
        completed_proof_batch)"

definition promote_pending_totp_change_for_session ::
    "string \<Rightarrow> mfa_session_actor \<Rightarrow> string \<Rightarrow> string \<Rightarrow> js_number \<Rightarrow> string \<Rightarrow> bool repo" where
  "promote_pending_totp_change_for_session generation a expected_generation expected_pending step verified_at =
     (if \<not> is_valid_totp_session_verification
            \<lparr>tv_credential_generation = expected_generation, tv_accepted_step = step\<rparr> then return_value False
      else with_batch
        [update_factor
           (\<lambda>db prev t. tf_user_id t = ma_user_id a \<and> tf_enabled t \<and> tf_verified_at t \<noteq> None \<and>
              tf_credential_generation t = Some expected_generation \<and>
              tf_pending_encrypted_secret t = Some expected_pending \<and> active_session a db)
           (promote_factor generation verified_at (num_int step)),
         session_proof_statement a generation verified_at]
        completed_proof_batch)"

definition totp_disable_audit :: "mfa_session_actor \<Rightarrow> string \<Rightarrow> string \<Rightarrow> string \<Rightarrow> audit_event_row" where
  "totp_disable_audit a audit_id request_id now =
     \<lparr>ev_id = audit_id, ev_name = ''totp.disable'', ev_outcome = ''success'', ev_request_id = request_id,
      ev_occurred_at = now, ev_actor_user_id = Some (ma_user_id a),
      ev_actor_device_identifier = Some (ma_device_identifier a), ev_target_type = Some ''account'',
      ev_target_id = Some (ma_user_id a), ev_context_json = Some ''{\"enabled\":false}''\<rparr>"

definition disable_totp_setup_for_session ::
    "mfa_session_actor \<Rightarrow> string \<Rightarrow> string \<Rightarrow> string \<Rightarrow> string \<Rightarrow> bool repo" where
  "disable_totp_setup_for_session a expected_generation now audit_id request_id =
     with_batch
       [delete_factor (\<lambda>db prev t. tf_user_id t = ma_user_id a \<and> tf_enabled t \<and>
          tf_credential_generation t = Some expected_generation \<and> active_session a db \<and>
          last_enrolled_owner_can_remove_totp (ma_user_id a) db),
        update_stmt users users_update
          (\<lambda>db prev u. u_id u = ma_user_id a \<and> u_disabled_at u = None \<and> prev = 1)
          (\<lambda>u. u\<lparr>u_revision_date := now, u_updated_at := now\<rparr>),
        \<lambda>db prev. if prev = 1 then insert_audit_event (totp_disable_audit a audit_id request_id now) db else Inr (db, 0)]
       (\<lambda>ns. if ns ! 0 = 1 \<and> ns ! 2 \<noteq> 1
             then throw (JsError ''TOTP disable batch did not record its required audit event.'')
             else return_value (ns ! 0 = 1))"

section \<open>A proof always names the current factor\<close>

definition proof_backed :: "database \<Rightarrow> device_row \<Rightarrow> bool" where
  "proof_backed db d \<longleftrightarrow>
     d_mfa_totp_credential_generation d = None \<or>
     (\<exists>t \<in> set (user_totp db). tf_user_id t = d_user_id d \<and> tf_enabled t \<and> tf_verified_at t \<noteq> None \<and>
        tf_credential_generation t = d_mfa_totp_credential_generation d)"

definition proofs_backed :: "database \<Rightarrow> bool" where
  "proofs_backed db \<longleftrightarrow> (\<forall>d \<in> set (devices db). proof_backed db d)"

lemma proof_backed_devices [simp]: "proof_backed (devices_update f db) d = proof_backed db d"
  by (simp add: proof_backed_def)

lemma backed_same:
  "devices db' = devices db \<Longrightarrow> user_totp db' = user_totp db \<Longrightarrow> proofs_backed db' = proofs_backed db"
  by (simp add: proofs_backed_def proof_backed_def)

lemma backed_devices:
  assumes "proofs_backed db"
    and "\<And>d. d_user_id (f d) = d_user_id d" "\<And>d. d_mfa_totp_credential_generation (f d) \<in> {None, d_mfa_totp_credential_generation d}"
  shows "proofs_backed (devices_update (sql_update p f) db)"
proof -
  have "proof_backed db (f d)" if "proof_backed db d" for d
    using that assms(2,3) [of d] by (auto simp: proof_backed_def)
  then show ?thesis
    using assms(1) by (auto simp: proofs_backed_def ball_sql_update)
qed

lemma backed_insert_device:
  "proofs_backed db \<Longrightarrow> d_mfa_totp_credential_generation d = None \<Longrightarrow> proofs_backed (db\<lparr>devices := devices db @ [d]\<rparr>)"
  by (auto simp: proofs_backed_def proof_backed_def)

lemma backed_factor_kept:
  assumes "proofs_backed db"
    and "\<And>t. p t \<Longrightarrow> tf_user_id (f t) = tf_user_id t \<and> tf_enabled (f t) = tf_enabled t \<and>
          tf_verified_at (f t) = tf_verified_at t \<and> tf_credential_generation (f t) = tf_credential_generation t"
  shows "proofs_backed (user_totp_update (sql_update p f) db)"
proof -
  have "proof_backed (user_totp_update (sql_update p f) db) d" if "proof_backed db d" for d
  proof (cases "d_mfa_totp_credential_generation d")
    case (Some g)
    with that obtain t where t: "t \<in> set (user_totp db)" "tf_user_id t = d_user_id d" "tf_enabled t"
      "tf_verified_at t \<noteq> None" "tf_credential_generation t = Some g"
      by (auto simp: proof_backed_def)
    define t' where "t' = (if p t then f t else t)"
    have "t' \<in> set (sql_update p f (user_totp db))" using t(1) by (auto simp: set_sql_update t'_def)
    moreover have "tf_user_id t' = d_user_id d \<and> tf_enabled t' \<and> tf_verified_at t' \<noteq> None \<and> tf_credential_generation t' = Some g"
      using t assms(2) [of t] by (simp add: t'_def)
    ultimately show ?thesis using Some by (auto simp: proof_backed_def)
  qed (simp add: proof_backed_def)
  then show ?thesis using assms(1) by (simp add: proofs_backed_def)
qed

lemma cleared_device [simp]:
  "d_mfa_totp_credential_generation (clear_session_mfa d) = None" "d_user_id (clear_session_mfa d) = d_user_id d"
  by (simp_all add: clear_session_mfa_def)

lemma backed_clear:
  assumes "\<And>d. d \<in> set (devices db) \<Longrightarrow> d_user_id d \<notin> owners \<Longrightarrow> proof_backed db' d" "devices db' = devices db"
  shows "proofs_backed (clear_mfa_of owners db')"
proof -
  have "proof_backed db' (clear_session_mfa d)" for d by (simp add: proof_backed_def)
  then show ?thesis
    using assms by (auto simp: proofs_backed_def clear_mfa_of_def ball_sql_update)
qed

lemma backed_update_factor:
  assumes "proofs_backed db" "update_factor p f db prev = Inr (db', n)"
    and f: "\<And>t. p db prev t \<Longrightarrow> tf_user_id (f t) = tf_user_id t \<and> (tf_enabled (f t) \<longrightarrow> tf_verified_at (f t) \<noteq> None)"
  shows "proofs_backed db'"
proof -
  let ?p = "p db prev" and ?db = "user_totp_update (sql_update (p db prev) f) db"
  let ?owners = "set (map tf_user_id (filter (\<lambda>t. factor_invalidated t (f t)) (filter ?p (user_totp db))))"
  have db': "db' = clear_mfa_of ?owners ?db" using assms(2) by (simp add: update_factor_def Let_def)
  have "proof_backed ?db d" if d: "d \<in> set (devices db)" "d_user_id d \<notin> ?owners" for d
  proof (cases "d_mfa_totp_credential_generation d")
    case (Some g)
    with d(1) assms(1) obtain t where t: "t \<in> set (user_totp db)" "tf_user_id t = d_user_id d" "tf_enabled t"
      "tf_verified_at t \<noteq> None" "tf_credential_generation t = Some g"
      unfolding proofs_backed_def proof_backed_def by force
    define t' where "t' = (if ?p t then f t else t)"
    have "t' \<in> set (sql_update ?p f (user_totp db))" using t(1) by (auto simp: set_sql_update t'_def)
    moreover have "\<not> (?p t \<and> factor_invalidated t (f t))" using d(2) t(1,2) by force
    then have "tf_user_id t' = d_user_id d \<and> tf_enabled t' \<and> tf_verified_at t' \<noteq> None \<and> tf_credential_generation t' = Some g"
      using t f [of t] by (auto simp: t'_def factor_invalidated_def)
    ultimately show ?thesis using Some by (auto simp: proof_backed_def)
  qed (simp add: proof_backed_def)
  then show ?thesis unfolding db' by (intro backed_clear) simp_all
qed

lemma backed_delete_factor:
  assumes "proofs_backed db" "delete_factor p db prev = Inr (db', n)"
  shows "proofs_backed db'"
proof -
  let ?p = "p db prev" and ?db = "user_totp_update (sql_delete (p db prev)) db"
  let ?owners = "set (map tf_user_id (filter ?p (user_totp db)))"
  have db': "db' = clear_mfa_of ?owners ?db" using assms(2) by (simp add: delete_factor_def Let_def)
  have "proof_backed ?db d" if d: "d \<in> set (devices db)" "d_user_id d \<notin> ?owners" for d
  proof (cases "d_mfa_totp_credential_generation d")
    case (Some g)
    with d(1) assms(1) obtain t where t: "t \<in> set (user_totp db)" "tf_user_id t = d_user_id d" "tf_enabled t"
      "tf_verified_at t \<noteq> None" "tf_credential_generation t = Some g"
      unfolding proofs_backed_def proof_backed_def by force
    moreover have "\<not> ?p t" using d(2) t(1,2) by force
    ultimately show ?thesis using Some by (auto simp: proof_backed_def set_sql_delete)
  qed (simp add: proof_backed_def)
  then show ?thesis unfolding db' by (intro backed_clear) simp_all
qed

lemma backed_upsert_factor:
  assumes "proofs_backed db" "upsert_factor row guard f db prev = Inr (db', n)"
    and "\<And>t. guard t \<Longrightarrow> tf_user_id (f t) = tf_user_id t \<and> (tf_enabled (f t) \<longrightarrow> tf_verified_at (f t) \<noteq> None)"
  shows "proofs_backed db'"
proof (cases "sql_exists (\<lambda>t. tf_user_id t = tf_user_id row) (user_totp db)")
  case True
  then show ?thesis
    using assms(2) backed_update_factor [OF assms(1), of "\<lambda>db prev t. tf_user_id t = tf_user_id row \<and> guard t" f prev db' n] assms(3)
    by (auto simp: upsert_factor_def)
next
  case False
  then have "db' = db\<lparr>user_totp := user_totp db @ [row]\<rparr>" using assms(2) by (auto simp: upsert_factor_def split: if_splits)
  then show ?thesis using assms(1) by (fastforce simp: proofs_backed_def proof_backed_def)
qed

lemma backed_session_proof:
  assumes "proofs_backed db" "session_proof_statement a g at' db prev = Inr (db', n)"
  shows "proofs_backed db'"
proof -
  let ?p = "\<lambda>d. prev = 1 \<and> actor_device a d \<and> sql_exists (\<lambda>t. tf_user_id t = d_user_id d \<and> tf_enabled t \<and>
     tf_verified_at t \<noteq> None \<and> tf_credential_generation t = Some g) (user_totp db)"
  have db': "db' = devices_update (sql_update ?p (prove_session g at')) db"
    using assms(2) by (simp add: session_proof_statement_def update_stmt_Inr)
  have "proof_backed db (prove_session g at' d)" if "?p d" for d
    using that by (auto simp: proof_backed_def prove_session_def sql_exists_iff)
  then show ?thesis
    using assms(1) by (auto simp: db' proofs_backed_def ball_sql_update)
qed

section \<open>Every operation keeps proofs backed\<close>

lemma backed_tokens [simp]: "proofs_backed (refresh_tokens_update f db) = proofs_backed db"
  by (rule backed_same) simp_all

lemma backed_users [simp]: "proofs_backed (users_update f db) = proofs_backed db"
  by (rule backed_same) simp_all

lemma backed_challenges [simp]: "proofs_backed (totp_challenges_update f db) = proofs_backed db"
  by (rule backed_same) simp_all

lemma backed_audit [simp]: "proofs_backed (audit_events_update f db) = proofs_backed db"
  by (rule backed_same) simp_all

lemma edited_device_proof [simp]:
  "d_user_id (start_device_session i d) = d_user_id d"
  "d_mfa_totp_credential_generation (set_device_metadata name type now d) = d_mfa_totp_credential_generation d"
  "d_mfa_totp_credential_generation (set_device_keys keys now d) = d_mfa_totp_credential_generation d"
  "d_user_id (set_device_metadata name type now d) = d_user_id d"
  "d_user_id (set_device_keys keys now d) = d_user_id d"
  by (simp_all add: set_device_metadata_def set_device_keys_def)

lemma accepted_step [simp]:
  "tf_user_id (accept_step s now t) = tf_user_id t" "tf_enabled (accept_step s now t) = tf_enabled t"
  "tf_verified_at (accept_step s now t) = tf_verified_at t"
  "tf_credential_generation (accept_step s now t) = tf_credential_generation t"
  by (simp_all add: accept_step_def)

lemma promoted_factor [simp]:
  "tf_user_id (promote_factor g v s t) = tf_user_id t" "tf_enabled (promote_factor g v s t) = tf_enabled t"
  "tf_verified_at (promote_factor g v s t) = Some v" "tf_credential_generation (promote_factor g v s t) = Some g"
  by (simp_all add: promote_factor_def)

text \<open>A statement that keeps every proof backed, and the rule for a batch of them.\<close>

definition keeps_backed :: "database stmt \<Rightarrow> bool" where
  "keeps_backed s \<longleftrightarrow> (\<forall>db n db' k. s db n = Inr (db', k) \<longrightarrow> proofs_backed db \<longrightarrow> proofs_backed db')"

lemma backed_batch:
  assumes "\<And>s. s \<in> set ss \<Longrightarrow> keeps_backed s" "\<And>ns d. fst (k ns d) = d" "proofs_backed db"
  shows "proofs_backed (fst (with_batch ss k db))"
proof (rule with_batch_invariant [where P = proofs_backed])
  fix s d n d' k
  assume "s \<in> set ss" "s d n = Inr (d', k)" "proofs_backed d"
  with assms(1) [of s] show "proofs_backed d'" unfolding keeps_backed_def by blast
qed (use assms(2,3) in auto)

named_theorems keeps \<open>statements that keep every proof backed\<close>

lemma keeps_update_factor [keeps]:
  "(\<And>db prev t. p db prev t \<Longrightarrow> tf_user_id (f t) = tf_user_id t \<and> (tf_enabled (f t) \<longrightarrow> tf_verified_at (f t) \<noteq> None)) \<Longrightarrow>
     keeps_backed (update_factor p f)"
  unfolding keeps_backed_def using backed_update_factor by blast

lemma keeps_delete_factor [keeps]: "keeps_backed (delete_factor p)"
  unfolding keeps_backed_def using backed_delete_factor by blast

lemma keeps_upsert_factor [keeps]:
  "(\<And>t. guard t \<Longrightarrow> tf_user_id (f t) = tf_user_id t \<and> (tf_enabled (f t) \<longrightarrow> tf_verified_at (f t) \<noteq> None)) \<Longrightarrow>
     keeps_backed (upsert_factor row guard f)"
  unfolding keeps_backed_def using backed_upsert_factor by blast

lemma keeps_guarded [keeps]:
  "keeps_backed s \<Longrightarrow> keeps_backed (\<lambda>db prev. if c db then s db prev else Inr (db, 0))"
  by (auto simp: keeps_backed_def)

lemma keeps_session_proof [keeps]: "keeps_backed (session_proof_statement a g v)"
  unfolding keeps_backed_def using backed_session_proof by blast

lemma keeps_factor_edit [keeps]:
  assumes "\<And>t. tf_user_id (f t) = tf_user_id t \<and> tf_enabled (f t) = tf_enabled t \<and>
     tf_verified_at (f t) = tf_verified_at t \<and> tf_credential_generation (f t) = tf_credential_generation t"
  shows "keeps_backed (update_stmt user_totp user_totp_update p f)"
  by (auto simp: keeps_backed_def update_stmt_Inr assms intro!: backed_factor_kept)

lemma keeps_consume_step [keeps]: "keeps_backed (consume_step_statement a v now)"
  unfolding consume_step_statement_def by (rule keeps_factor_edit) simp

lemma keeps_device_edit [keeps]:
  assumes "\<And>d. d_user_id (f d) = d_user_id d"
    "\<And>d. d_mfa_totp_credential_generation (f d) \<in> {None, d_mfa_totp_credential_generation d}"
  shows "keeps_backed (update_stmt devices devices_update p f)"
  unfolding keeps_backed_def using backed_devices [OF _ assms] by (auto simp: update_stmt_Inr)

lemma keeps_tokens [keeps]: "keeps_backed (update_stmt refresh_tokens refresh_tokens_update p g)"
  by (auto simp: keeps_backed_def update_stmt_Inr)

lemma keeps_users [keeps]: "keeps_backed (update_stmt users users_update p g)"
  by (auto simp: keeps_backed_def update_stmt_Inr)

lemma keeps_audit [keeps]:
  "keeps_backed (\<lambda>db prev. if prev = 1 then insert_audit_event e db else Inr (db, 0))"
  by (auto simp: keeps_backed_def insert_audit_event_def split: if_splits)

lemma fst_completed [simp]: "fst (completed_proof_batch ns db) = db"
  by (simp add: completed_proof_batch_def)

lemma enrolment_ops_backed:
  assumes "proofs_backed db"
  shows "proofs_backed (fst (upsert_pending_totp_setup u s now db))"
    and "proofs_backed (fst (enable_totp_setup g u v e db))"
    and "proofs_backed (fst (disable_totp_setup u eg db))"
    and "proofs_backed (fst (start_pending_totp_change u s now eg db))"
    and "proofs_backed (fst (promote_pending_totp_change g u st v eg ep db))"
    and "proofs_backed (fst (record_accepted_totp_step u st now eg db))"
  unfolding upsert_pending_totp_setup_def enable_totp_setup_def disable_totp_setup_def
    start_pending_totp_change_def promote_pending_totp_change_def record_accepted_totp_step_def
  by (rule backed_batch; use assms in \<open>auto intro!: keeps\<close>)+

lemma backed_if: "proofs_backed (fst (x db)) \<Longrightarrow> proofs_backed (fst (y db)) \<Longrightarrow> proofs_backed (fst ((if c then x else y) db))"
  by simp

lemma assurance_ops_backed:
  assumes "proofs_backed db"
  shows "proofs_backed (fst (consume_totp_session_step_up a vr now db))"
    and "proofs_backed (fst (create_pending_totp_setup_for_session a s now db))"
    and "proofs_backed (fst (start_pending_totp_change_for_session a vr s now db))"
    and "proofs_backed (fst (enable_totp_setup_for_session g a e st v db))"
    and "proofs_backed (fst (promote_pending_totp_change_for_session g a eg ep st v db))"
    and "proofs_backed (fst (disable_totp_setup_for_session a eg now aid rid db))"
proof -
  show "proofs_backed (fst (consume_totp_session_step_up a vr now db))"
    unfolding consume_totp_session_step_up_def using assms
    by (intro backed_if backed_batch) (auto intro: keeps)
  show "proofs_backed (fst (create_pending_totp_setup_for_session a s now db))"
    unfolding create_pending_totp_setup_for_session_def using assms
    by (intro backed_batch) (auto intro!: keeps_guarded keeps_upsert_factor)
  show "proofs_backed (fst (start_pending_totp_change_for_session a vr s now db))"
    unfolding start_pending_totp_change_for_session_def using assms
    by (intro backed_if backed_batch) (auto intro!: keeps_factor_edit keeps_consume_step keeps_session_proof)
  show "proofs_backed (fst (enable_totp_setup_for_session g a e st v db))"
    unfolding enable_totp_setup_for_session_def using assms
    by (intro backed_if backed_batch) (auto intro!: keeps_update_factor keeps_session_proof)
  show "proofs_backed (fst (promote_pending_totp_change_for_session g a eg ep st v db))"
    unfolding promote_pending_totp_change_for_session_def using assms
    by (intro backed_if backed_batch) (auto intro!: keeps_update_factor keeps_session_proof)
  show "proofs_backed (fst (disable_totp_setup_for_session a eg now aid rid db))"
    unfolding disable_totp_setup_for_session_def using assms keeps_audit
    by (intro backed_batch) (auto intro!: keeps_delete_factor keeps_users)
qed

lemma keeps_login_insert [keeps]: "keeps_backed (login_insert_device i)"
  by (auto simp: keeps_backed_def login_insert_device_def insert_or_ignore_device_Inr backed_insert_device
      login_device_row_def split: if_splits)

lemma keeps_insert_token: "insert_refresh_token t db = Inr (db', k) \<Longrightarrow> proofs_backed db' = proofs_backed db"
  by (auto simp: insert_refresh_token_Inr)

lemma keeps_login_token [keeps]: "keeps_backed (login_insert_token i)"
  by (auto simp: keeps_backed_def login_insert_token_def keeps_insert_token split: if_splits)

lemma keeps_login_update [keeps]: "keeps_backed (login_update_device i)"
  unfolding login_update_device_def by (rule keeps_device_edit) (simp_all add: start_device_session_def)

lemma keeps_write_keys [keeps]: "keeps_backed (write_device_keys u now r)"
  by (cases r) (auto simp: write_device_keys_def intro!: keeps_device_edit)

lemma backed_rotate:
  assumes "proofs_backed db"
  shows "proofs_backed (fst (rotate_refresh_token i db))"
proof -
  have inv: "proofs_backed (fst (invalidate_refresh_token_session u d now s db))" if "proofs_backed db" for u d now s db
    unfolding invalidate_refresh_token_session_def using that
    by (intro backed_batch) (auto intro!: keeps_tokens keeps_device_edit)
  have keep: "keeps_backed s" if "s \<in> set [insert_replacement i, revoke_rotated i, touch_rotated_device i]" for s
  proof -
    have "keeps_backed (insert_replacement i)"
      by (auto simp: keeps_backed_def insert_replacement_def keeps_insert_token split: option.splits)
    moreover have "keeps_backed (revoke_rotated i)" unfolding revoke_rotated_def by (rule keeps_tokens)
    moreover have chk: "keeps_backed (checked c s)" if "keeps_backed s" for c s
      using that by (fastforce simp: keeps_backed_def checked_def split: sum.splits if_splits)
    have "keeps_backed (touch_rotated_device i)"
      unfolding touch_rotated_device_def by (intro chk keeps_device_edit) simp_all
    ultimately show ?thesis using that by auto
  qed
  show ?thesis
    unfolding rotate_refresh_token_def
  proof (rule with_batch_invariant [where P = proofs_backed])
    fix s d n d' k
    assume "s \<in> set [insert_replacement i, revoke_rotated i, touch_rotated_device i]" "s d n = Inr (d', k)" "proofs_backed d"
    then show "proofs_backed d'" using keep [of s] unfolding keeps_backed_def by blast
  next
    fix ns d assume d: "proofs_backed d"
    show "proofs_backed (fst (if ns ! 0 \<noteq> 1 \<or> ns ! 1 \<noteq> 1 \<or> ns ! 2 \<noteq> 1
        then (case invalidate_refresh_token_session (ro_user_id i) (ro_device_id i) (ro_now i)
                     (Some (ro_expected_session_id i)) d of
                (db'', Inl e) \<Rightarrow> (db'', Inl e) | (db'', Inr _) \<Rightarrow> return_value ReuseDetected db'')
        else return_value Rotated d))"
      using inv [OF d, of "ro_user_id i" "ro_device_id i" "ro_now i" "Some (ro_expected_session_id i)"] d
      by (auto split: prod.split sum.split)
  qed (rule assms)
qed

text \<open>The login with a TOTP code: the proof it writes names the factor whose step it just consumed.\<close>

lemma backed_totp_login:
  assumes "proofs_backed db"
  shows "proofs_backed (fst (create_totp_password_grant_session i v db))"
proof (cases "is_valid_totp_session_verification v")
  case True
  let ?ss = "[consume_login_totp_step i v, upsert_totp_device i v, insert_totp_token i v]"
  have "proofs_backed d'" if run: "batch ?ss db = Inr (d', ns)" for d' ns
  proof -
    from run obtain d1 n1 d2 n2 n3 where
      s1: "consume_login_totp_step i v db 0 = Inr (d1, n1)" and
      s2: "upsert_totp_device i v d1 n1 = Inr (d2, n2)" and
      s3: "insert_totp_token i v d2 n2 = Inr (d', n3)"
      by (auto simp: batch_def split: sum.splits prod.splits)
    have b1: "proofs_backed d1"
      using s1 assms by (auto simp: consume_login_totp_step_def update_stmt_Inr intro!: backed_factor_kept)
    have "proofs_backed d2"
    proof (cases "n1 = 1")
      case False
      then show ?thesis using s2 b1 by (simp add: upsert_totp_device_def)
    next
      case True
      let ?g = "tv_credential_generation v"
      have "\<exists>t \<in> set (user_totp d1). tf_user_id t = si_user_id i \<and> tf_enabled t \<and> tf_verified_at t \<noteq> None \<and>
          tf_credential_generation t = Some ?g"
      proof -
        let ?p = "\<lambda>t. tf_user_id t = si_user_id i \<and> tf_enabled t \<and> tf_verified_at t \<noteq> None \<and>
          tf_credential_generation t = Some ?g \<and>
          (tf_last_accepted_step t = None \<or> sql_gt (Some (num_int (tv_accepted_step v))) (tf_last_accepted_step t)) \<and>
          sql_exists (credential_generation_current i) (users db)"
        let ?f = "\<lambda>t. t\<lparr>tf_last_accepted_step := Some (num_int (tv_accepted_step v)), tf_updated_at := si_now i\<rparr>"
        have d1: "user_totp d1 = sql_update ?p ?f (user_totp db)" and "n1 = sql_count ?p (user_totp db)"
          using s1 by (simp_all add: consume_login_totp_step_def update_stmt_Inr)
        with True obtain t where t: "t \<in> set (user_totp db)" "?p t" using sql_count_pos [of ?p "user_totp db"] by auto
        then have "?f t \<in> set (user_totp d1)" by (force simp: d1 set_sql_update)
        with t(2) show ?thesis by (intro bexI [of _ "?f t"]) auto
      qed
      then have proof_ok: "proof_backed d1 d" if "d_user_id d = si_user_id i" "d_mfa_totp_credential_generation d = Some ?g" for d
        using that by (auto simp: proof_backed_def)
      have started: "proof_backed d1 (start_totp_device_session i v d)" if "d_user_id d = si_user_id i" for d
        using proof_ok [of "start_totp_device_session i v d"] that by simp
      let ?r = "(start_totp_device_session i v (login_device_row i d1))\<lparr>d_updated_at := si_now i\<rparr>"
      let ?q = "\<lambda>d. d_id d = login_device_id i \<and> d_user_id d = si_user_id i \<and> d_identifier d = si_device_identifier i"
      from s2 True consider (kept) "d2 = d1" | (inserted) "d2 = d1\<lparr>devices := devices d1 @ [?r]\<rparr>"
        | (updated) "d2 = devices_update (sql_update ?q (start_totp_device_session i v)) d1"
        by (auto simp: upsert_totp_device_def update_stmt_Inr insert_or_ignore_device_Inr split: if_splits)
      then show ?thesis
      proof cases
        case inserted
        have "proof_backed d1 ?r" by (rule proof_ok) simp_all
        then have "proof_backed d2 ?r" by (simp add: inserted)
        moreover have "proof_backed d2 d" if "d \<in> set (devices d1)" for d
          using b1 that by (simp add: inserted proofs_backed_def)
        ultimately show ?thesis unfolding proofs_backed_def inserted by simp
      next
        case updated
        then show ?thesis using b1 started by (auto simp: proofs_backed_def ball_sql_update)
      qed (use b1 in simp)
    qed
    then show ?thesis
      using s3 by (auto simp: insert_totp_token_def keeps_insert_token split: if_splits)
  qed
  then show ?thesis
    using assms True by (auto simp: create_totp_password_grant_session_def with_batch_def split: sum.split)
qed (use assms in \<open>simp add: create_totp_password_grant_session_def\<close>)

lemma session_ops_backed:
  assumes "proofs_backed db"
  shows "proofs_backed (session_exec op db)"
proof (cases op)
  case (Login i)
  show ?thesis
  proof (cases "si_totp_verification i")
    case None
    have "proofs_backed (fst (create_password_grant_session i db))"
      unfolding create_password_grant_session_def None option.case using assms
      by (intro backed_batch) (auto intro: keeps)
    then show ?thesis by (simp add: Login)
  next
    case (Some v)
    then show ?thesis using backed_totp_login [OF assms] by (simp add: Login create_password_grant_session_def)
  qed
next
  case (RevokeCurrent u di sid now)
  have "proofs_backed (fst (revoke_current_device_session u di sid now db))"
    unfolding revoke_current_device_session_def Let_def using assms
    by (intro backed_batch) (auto intro!: keeps_tokens keeps_device_edit split: list.split)
  then show ?thesis by (simp add: RevokeCurrent)
next
  case (DeleteExpired now limit)
  then show ?thesis using assms
    by (auto simp: delete_expired_refresh_tokens_def split: sum.split prod.split)
next
  case (UpdateMetadata u did name type now)
  then show ?thesis using assms
    by (auto simp: update_device_metadata_def split: option.split intro!: backed_batch keeps_device_edit)
next
  case (UpdateKeys u ref keys now)
  then show ?thesis using assms
    by (auto simp: update_device_keys_def split: option.split intro!: backed_batch keeps_device_edit)
next
  case (UpdateTrusted u us now)
  then show ?thesis using assms
    by (auto simp: update_trusted_device_keys_def split: option.split sum.split intro!: backed_batch keeps_write_keys)
qed (use assms in \<open>auto simp: revoke_device_session_def revoke_other_device_sessions_def
    invalidate_refresh_token_session_def intro!: backed_rotate backed_batch keeps_tokens keeps_device_edit\<close>)

section \<open>Properties\<close>

text \<open>A step of any session or factor operation.\<close>

inductive mfa_step :: "database \<Rightarrow> database \<Rightarrow> bool" where
  session: "mfa_step db (session_exec op db)"
| enrol: "mfa_step db (fst (upsert_pending_totp_setup u s now db))"
| enable: "mfa_step db (fst (enable_totp_setup g u now e db))"
| disable: "mfa_step db (fst (disable_totp_setup u eg db))"
| change: "mfa_step db (fst (start_pending_totp_change u s now eg db))"
| promote: "mfa_step db (fst (promote_pending_totp_change g u st now eg ep db))"
| accept: "mfa_step db (fst (record_accepted_totp_step u st now eg db))"
| step_up: "mfa_step db (fst (consume_totp_session_step_up a v now db))"
| session_setup: "mfa_step db (fst (create_pending_totp_setup_for_session a s now db))"
| session_change: "mfa_step db (fst (start_pending_totp_change_for_session a v s now db))"
| session_enable: "mfa_step db (fst (enable_totp_setup_for_session g a e n now db))"
| session_promote: "mfa_step db (fst (promote_pending_totp_change_for_session g a e p n now db))"
| session_disable: "mfa_step db (fst (disable_totp_setup_for_session a e now aid rid db))"

inductive mfa_run :: "database \<Rightarrow> database \<Rightarrow> bool" where
  start: "mfa_run db db"
| more: "mfa_run db0 db \<Longrightarrow> mfa_step db db' \<Longrightarrow> mfa_run db0 db'"

lemma mfa_step_backed: "mfa_step db db' \<Longrightarrow> proofs_backed db \<Longrightarrow> proofs_backed db'"
  by (induction rule: mfa_step.induct) (auto intro: session_ops_backed enrolment_ops_backed assurance_ops_backed)

lemma mfa_run_backed: "mfa_run db0 db \<Longrightarrow> proofs_backed db0 \<Longrightarrow> proofs_backed db"
  by (induction rule: mfa_run.induct) (auto dest: mfa_step_backed)

text \<open>
  C23. A session's second-factor proof always names the factor enrolled now. From tables where no device holds a proof,
  after any sequence of logins, rotations, revocations, device updates and TOTP operations (with the triggers
  of the schema), a device that holds a proof of generation \<open>g\<close> belongs to a user whose enabled, verified
  factor has generation \<open>g\<close>: replacing or removing the factor leaves no earlier proof behind.
\<close>
theorem session_proof_names_current_factor:
  assumes "\<forall>d \<in> set (devices db0). d_mfa_totp_credential_generation d = None"
    and "mfa_run db0 db" "d \<in> set (devices db)" "d_mfa_totp_credential_generation d = Some g"
  shows "\<exists>t \<in> set (user_totp db). tf_user_id t = d_user_id d \<and> tf_enabled t \<and> tf_verified_at t \<noteq> None \<and>
     tf_credential_generation t = Some g"
proof -
  have "proofs_backed db0" using assms(1) by (simp add: proofs_backed_def proof_backed_def)
  from mfa_run_backed [OF assms(2) this] assms(3) have "proof_backed db d" by (simp add: proofs_backed_def)
  then show ?thesis by (simp add: proof_backed_def assms(4))
qed

definition sample_assured :: database where
  "sample_assured = session_exec (Login (sample_totp_login ''t1'' 9)) sample_totp_database"

lemma sample_assured_proof:
  "map (\<lambda>d. (d_user_id d, d_mfa_totp_credential_generation d)) (devices sample_assured) = [(''u1'', Some ''g'')]"
  by code_simp

theorem session_proof_names_current_factor_witness:
  "\<exists>t \<in> set (user_totp sample_assured). tf_user_id t = ''u1'' \<and> tf_credential_generation t = Some ''g''"
proof -
  obtain d where d: "d \<in> set (devices sample_assured)" "d_user_id d = ''u1''" "d_mfa_totp_credential_generation d = Some ''g''"
    using sample_assured_proof by (cases "devices sample_assured") auto
  have "mfa_run sample_totp_database sample_assured"
    unfolding sample_assured_def by (rule mfa_run.more [OF mfa_run.start mfa_step.session])
  from session_proof_names_current_factor [OF _ this d(1,3)] d(2) show ?thesis
    by (auto simp: sample_totp_database_def sample_database_def empty_database_def)
qed

lemma devices_of_update: "devices (devices_update f db) = f (devices db)"
  by simp

lemma proof_batch_result:
  assumes "with_batch ss completed_proof_batch db = (db', Inr r)"
  obtains ns where "batch ss db = Inr (db', ns)" "r = (last ns = 1)"
  using assms by (auto simp: with_batch_eq completed_proof_batch_def return_value_def throw_def split: if_splits)

text \<open>
  Changing the authenticator signs the second factor out everywhere else. When a session promotes its pending
  secret, afterwards every device of the user other than that session's own holds no proof, so no other session
  has assurance, and the promoting session holds a proof of the new generation.
\<close>
theorem promotion_clears_other_proofs:
  assumes "promote_pending_totp_change_for_session generation a old pending step now db = (db', Inr True)"
    and "generation \<noteq> old"
  shows "(\<forall>d \<in> set (devices db'). d_user_id d = ma_user_id a \<and> \<not> actor_device a d \<longrightarrow>
            d_mfa_totp_credential_generation d = None) \<and>
         (\<exists>d \<in> set (devices db'). actor_device a d \<and> d_mfa_totp_credential_generation d = Some generation)"
proof -
  let ?p = "\<lambda>t. tf_user_id t = ma_user_id a \<and> tf_enabled t \<and> tf_verified_at t \<noteq> None \<and>
      tf_credential_generation t = Some old \<and> tf_pending_encrypted_secret t = Some pending \<and> active_session a db"
  let ?f = "promote_factor generation now (num_int step)"
  let ?hit = "filter ?p (user_totp db)"
  let ?d1 = "clear_mfa_of (set (map tf_user_id (filter (\<lambda>t. factor_invalidated t (?f t)) ?hit)))
      (user_totp_update (sql_update ?p ?f) db)"
  let ?q = "\<lambda>d. length ?hit = 1 \<and> actor_device a d \<and> sql_exists (\<lambda>t. tf_user_id t = d_user_id d \<and> tf_enabled t \<and>
      tf_verified_at t \<noteq> None \<and> tf_credential_generation t = Some generation) (user_totp ?d1)"
  from assms(1) have run: "with_batch [update_factor (\<lambda>db prev t. tf_user_id t = ma_user_id a \<and> tf_enabled t \<and>
        tf_verified_at t \<noteq> None \<and> tf_credential_generation t = Some old \<and> tf_pending_encrypted_secret t = Some pending \<and>
        active_session a db) ?f, session_proof_statement a generation now] completed_proof_batch db = (db', Inr True)"
    by (simp add: promote_pending_totp_change_for_session_def return_value_def split: if_splits)
  then obtain ns where ns: "batch [update_factor (\<lambda>db prev t. tf_user_id t = ma_user_id a \<and> tf_enabled t \<and>
        tf_verified_at t \<noteq> None \<and> tf_credential_generation t = Some old \<and> tf_pending_encrypted_secret t = Some pending \<and>
        active_session a db) ?f, session_proof_statement a generation now] db = Inr (db', ns)" "last ns = 1"
    by (elim proof_batch_result) simp
  then have run2: "db' = devices_update (sql_update ?q (prove_session generation now)) ?d1"
    and hits: "sql_count ?q (devices ?d1) = 1"
    by (auto simp: batch_def update_factor_def session_proof_statement_def update_stmt_def Let_def)
  define q where "q = ?q"
  define d1 where "d1 = ?d1"
  from run2 have db': "devices db' = sql_update q (prove_session generation now) (devices d1)"
    by (simp add: q_def d1_def)
  from hits obtain e where e: "e \<in> set (devices d1)" "q e"
    using sql_count_pos [of q "devices d1"] unfolding q_def d1_def by auto
  then have "length ?hit = 1" and act: "actor_device a e" by (simp_all add: q_def)
  then obtain t where "?hit = [t]" by (auto simp: length_Suc_conv)
  then have t: "t \<in> set ?hit" by simp
  then have "factor_invalidated t (?f t)" "tf_user_id t = ma_user_id a" using assms(2) by (auto simp: factor_invalidated_def)
  with t have owner: "ma_user_id a \<in> set (map tf_user_id (filter (\<lambda>t. factor_invalidated t (?f t)) ?hit))" by force
  have cleared: "d_mfa_totp_credential_generation d = None" if "d \<in> set (devices d1)" "d_user_id d = ma_user_id a" for d
    using that owner unfolding d1_def by (auto simp: clear_mfa_of_def set_sql_update)
  have keeps: "d_user_id (prove_session g n d) = d_user_id d" "actor_device a (prove_session g n d) = actor_device a d" for g n d
    by (simp_all add: prove_session_def actor_device_def)
  have qa: "q d \<Longrightarrow> actor_device a d" for d by (simp add: q_def)
  have "d_mfa_totp_credential_generation d = None"
    if d: "d \<in> set (devices db')" "d_user_id d = ma_user_id a" "\<not> actor_device a d" for d
  proof -
    from d(1) obtain x where x: "x \<in> set (devices d1)" "d = (if q x then prove_session generation now x else x)"
      by (auto simp: db' set_sql_update)
    with d(3) keeps qa have dx: "d = x" by (auto split: if_splits)
    have "d_user_id x = ma_user_id a" using d(2) by (simp only: dx)
    from cleared [OF x(1) this] show ?thesis by (simp only: dx)
  qed
  moreover have "prove_session generation now e \<in> set (devices db')"
    unfolding db' by (rule updated_row_in [where p = q and f = "prove_session generation now", OF e])
  then have "\<exists>d \<in> set (devices db'). actor_device a d \<and> d_mfa_totp_credential_generation d = Some generation"
    using act keeps(2) by (intro bexI [of _ "prove_session generation now e"]) (simp_all add: prove_session_def)
  ultimately show ?thesis by blast
qed

text \<open>Two devices of one user signed in with a code; the second replaces the authenticator.\<close>

definition sample_two_devices :: database where
  "sample_two_devices =
     session_exec (Login ((sample_totp_login ''t2'' 10)\<lparr>si_device_identifier := ''e''\<rparr>))
       (sample_assured\<lparr>user_totp := map (\<lambda>t. t\<lparr>tf_pending_encrypted_secret := Some ''p''\<rparr>) (user_totp sample_assured)\<rparr>)"

definition sample_actor :: mfa_session_actor where
  "sample_actor = \<lparr>ma_user_id = ''u1'', ma_device_identifier = ''e'', ma_session_id = ''t2''\<rparr>"

lemma sample_promotion:
  "snd (promote_pending_totp_change_for_session ''g2'' sample_actor ''g'' ''p'' (Finite 11) ''n'' sample_two_devices) = Inr True"
  by code_simp

theorem promotion_clears_other_proofs_witness:
  "\<exists>db'. promote_pending_totp_change_for_session ''g2'' sample_actor ''g'' ''p'' (Finite 11) ''n'' sample_two_devices =
       (db', Inr True) \<and>
     (\<exists>d \<in> set (devices db'). actor_device sample_actor d \<and> d_mfa_totp_credential_generation d = Some ''g2'')"
proof -
  obtain db' where run: "promote_pending_totp_change_for_session ''g2'' sample_actor ''g'' ''p'' (Finite 11) ''n''
      sample_two_devices = (db', Inr True)"
    using sample_promotion by (metis prod.collapse)
  from promotion_clears_other_proofs [OF run] show ?thesis using run by auto
qed

section \<open>Removing a factor\<close>

lemma surviving_owner_kept:
  assumes "surviving_owner org u db"
    and "organization_users db' = organization_users db"
    and "\<And>x. x \<in> set (users db) \<Longrightarrow> \<exists>y \<in> set (users db'). u_id y = u_id x \<and> u_disabled_at y = u_disabled_at x"
    and "\<And>t. t \<in> set (user_totp db) \<Longrightarrow> tf_user_id t \<noteq> u \<Longrightarrow> t \<in> set (user_totp db')"
  shows "surviving_owner org u db'"
proof -
  from assms(1) obtain m x t where m: "m \<in> set (organization_users db)" "confirmed_owner org m" "ou_user_id m \<noteq> Some u"
    and x: "x \<in> set (users db)" "Some (u_id x) = ou_user_id m" "u_disabled_at x = None"
    and t: "t \<in> set (user_totp db)" "Some (tf_user_id t) = ou_user_id m" "enrolled_factor t"
    by (auto simp: surviving_owner_def sql_exists_iff)
  from assms(3) [OF x(1)] obtain y where y: "y \<in> set (users db')" "u_id y = u_id x" "u_disabled_at y = u_disabled_at x" by blast
  have "tf_user_id t \<noteq> u" using t(2) m(3) by force
  from assms(4) [OF t(1) this] have "t \<in> set (user_totp db')" .
  moreover have "Some (u_id y) = ou_user_id m" "u_disabled_at y = None" using x y by simp_all
  ultimately show ?thesis
    using m x y t assms(2) unfolding surviving_owner_def sql_exists_iff by (intro bexI [of _ m] conjI bexI [of _ y] bexI [of _ t]) simp_all
qed

definition removed_factor :: "mfa_session_actor \<Rightarrow> string \<Rightarrow> database \<Rightarrow> totp_row \<Rightarrow> bool" where
  "removed_factor a g db t \<longleftrightarrow> tf_user_id t = ma_user_id a \<and> tf_enabled t \<and> tf_credential_generation t = Some g \<and>
     active_session a db \<and> last_enrolled_owner_can_remove_totp (ma_user_id a) db"

lemma disable_for_session_run:
  assumes "disable_totp_setup_for_session a g now aid rid db = (db', Inr True)"
  shows "\<exists>t. filter (removed_factor a g db) (user_totp db) = [t] \<and>
     db' = (users_update (sql_update (\<lambda>u. u_id u = ma_user_id a \<and> u_disabled_at u = None)
              (\<lambda>u. u\<lparr>u_revision_date := now, u_updated_at := now\<rparr>))
            (clear_mfa_of {ma_user_id a} (user_totp_update (sql_delete (removed_factor a g db)) db)))
            \<lparr>audit_events := audit_events db @ [totp_disable_audit a aid rid now]\<rparr>"
proof -
  let ?hit = "filter (removed_factor a g db) (user_totp db)"
  let ?ss = "[delete_factor (\<lambda>db prev. removed_factor a g db),
     update_stmt users users_update (\<lambda>db prev u. u_id u = ma_user_id a \<and> u_disabled_at u = None \<and> prev = 1)
       (\<lambda>u. u\<lparr>u_revision_date := now, u_updated_at := now\<rparr>),
     \<lambda>db prev. if prev = 1 then insert_audit_event (totp_disable_audit a aid rid now) db else Inr (db, 0)]"
  from assms obtain ns where run: "batch ?ss db = Inr (db', ns)" and ok: "ns ! 0 = 1" "ns ! 2 = 1"
    by (auto simp: disable_totp_setup_for_session_def removed_factor_def [abs_def] with_batch_eq return_value_def throw_def
        split: if_splits)
  let ?d1 = "clear_mfa_of (set (map tf_user_id ?hit)) (user_totp_update (sql_delete (removed_factor a g db)) db)"
  let ?q = "\<lambda>u. u_id u = ma_user_id a \<and> u_disabled_at u = None \<and> length ?hit = 1"
  from run obtain n3 where n: "ns = [length ?hit, sql_count ?q (users ?d1), n3]"
    and last: "(if sql_count ?q (users ?d1) = 1
       then insert_audit_event (totp_disable_audit a aid rid now) (users_update (sql_update ?q (\<lambda>u. u\<lparr>u_revision_date := now, u_updated_at := now\<rparr>)) ?d1)
       else Inr (users_update (sql_update ?q (\<lambda>u. u\<lparr>u_revision_date := now, u_updated_at := now\<rparr>)) ?d1, 0)) = Inr (db', n3)"
    by (auto simp: batch_eval delete_factor_def Let_def split: sum.splits prod.splits if_splits)
  have one: "length ?hit = 1" and "n3 = 1" using ok n by simp_all
  with last have db': "db' = (users_update (sql_update ?q (\<lambda>u. u\<lparr>u_revision_date := now, u_updated_at := now\<rparr>)) ?d1)
      \<lparr>audit_events := audit_events db @ [totp_disable_audit a aid rid now]\<rparr>"
    by (auto simp: insert_audit_event_def clear_mfa_of_def split: if_splits)
  from one obtain t where t: "?hit = [t]" by (auto simp: length_Suc_conv)
  then have "t \<in> set ?hit" by simp
  then have "tf_user_id t = ma_user_id a" by (simp add: removed_factor_def)
  then show ?thesis using db' one t by simp
qed

text \<open>
  No organization loses its last enrolled owner. When a session removes its user's authenticator, every
  enabled organization with an enabled two-step policy that the user owns still has, afterwards, another
  confirmed owner with an active account and an enrolled factor.
\<close>
theorem totp_removal_keeps_an_enrolled_owner:
  assumes "disable_totp_setup_for_session a g now aid rid db = (db', Inr True)"
    and "m \<in> set (organization_users db')" "confirmed_owner (ou_organization_id m) m" "ou_user_id m = Some (ma_user_id a)"
    and "requires_two_step (ou_organization_id m) db'"
  shows "surviving_owner (ou_organization_id m) (ma_user_id a) db'"
proof -
  from disable_for_session_run [OF assms(1)] obtain t where t: "filter (removed_factor a g db) (user_totp db) = [t]"
    and db': "db' = (users_update (sql_update (\<lambda>u. u_id u = ma_user_id a \<and> u_disabled_at u = None)
              (\<lambda>u. u\<lparr>u_revision_date := now, u_updated_at := now\<rparr>))
            (clear_mfa_of {ma_user_id a} (user_totp_update (sql_delete (removed_factor a g db)) db)))
            \<lparr>audit_events := audit_events db @ [totp_disable_audit a aid rid now]\<rparr>" by blast
  have orgs: "organization_users db' = organization_users db" "requires_two_step org db' = requires_two_step org db" for org
    by (simp_all add: db' clear_mfa_of_def requires_two_step_def)
  have "t \<in> set (filter (removed_factor a g db) (user_totp db))" using t by simp
  then have "last_enrolled_owner_can_remove_totp (ma_user_id a) db" by (simp add: removed_factor_def)
  then have before: "surviving_owner (ou_organization_id m) (ma_user_id a) db"
    using assms(2-5) by (auto simp: last_enrolled_owner_can_remove_totp_def orgs sql_exists_iff)
  show ?thesis
  proof (rule surviving_owner_kept [OF before])
    fix x assume x: "x \<in> set (users db)"
    let ?q = "\<lambda>u. u_id u = ma_user_id a \<and> u_disabled_at u = None"
    let ?x = "if ?q x then x\<lparr>u_revision_date := now, u_updated_at := now\<rparr> else x"
    show "\<exists>y \<in> set (users db'). u_id y = u_id x \<and> u_disabled_at y = u_disabled_at x"
      using x by (intro bexI [of _ ?x]) (auto simp: db' clear_mfa_of_def set_sql_update)
  qed (auto simp: orgs db' clear_mfa_of_def set_sql_delete removed_factor_def)
qed

text \<open>
  Removing the authenticator is all or nothing and always audited. When the operation reports success exactly one
  row of \<open>user_totp\<close> was removed, none of the user's devices holds a second-factor proof any more, and the audit log
  grew by exactly the \<open>totp.disable\<close> event of that actor.
\<close>
theorem totp_removal_is_audited:
  assumes "disable_totp_setup_for_session a g now aid rid db = (db', Inr True)"
  shows "length (user_totp db) = Suc (length (user_totp db')) \<and>
     (\<forall>d \<in> set (devices db'). d_user_id d = ma_user_id a \<longrightarrow> d_mfa_totp_credential_generation d = None) \<and>
     audit_events db' = audit_events db @ [totp_disable_audit a aid rid now]"
proof -
  from disable_for_session_run [OF assms] obtain t where t: "filter (removed_factor a g db) (user_totp db) = [t]"
    and db': "db' = (users_update (sql_update (\<lambda>u. u_id u = ma_user_id a \<and> u_disabled_at u = None)
              (\<lambda>u. u\<lparr>u_revision_date := now, u_updated_at := now\<rparr>))
            (clear_mfa_of {ma_user_id a} (user_totp_update (sql_delete (removed_factor a g db)) db)))
            \<lparr>audit_events := audit_events db @ [totp_disable_audit a aid rid now]\<rparr>" by blast
  have "length (user_totp db) = length (filter (removed_factor a g db) (user_totp db)) +
      length (filter (\<lambda>t. \<not> removed_factor a g db t) (user_totp db))"
    by (simp add: sum_length_filter_compl)
  then show ?thesis
    by (auto simp: db' t clear_mfa_of_def sql_delete_def set_sql_update)
qed

definition sample_owner :: "string \<Rightarrow> organization_user_row" where
  "sample_owner user =
     \<lparr>ou_id = ''m'' @ user, ou_organization_id = ''org'', ou_user_id = Some user, ou_email = user, ou_org_key = None,
      ou_status = 2, ou_type = 0, ou_permissions = None, ou_invite_token_hash = None, ou_invite_expires_at = None,
      ou_last_membership_mutation_id = None, ou_created_at = ''c'', ou_updated_at = ''c''\<rparr>"

text \<open>An organization with two enrolled owners, one of them signed in.\<close>

definition sample_owned :: database where
  "sample_owned = sample_assured
     \<lparr>users := users sample_assured @ [sample_user\<lparr>u_id := ''u2'', u_email := ''c@d.ef'', u_email_normalized := ''c@d.ef''\<rparr>],
      user_totp := user_totp sample_assured @ [sample_totp\<lparr>tf_user_id := ''u2''\<rparr>],
      organizations := [\<lparr>org_id = ''org'', org_name = ''o'', org_billing_email = None, org_plan_type = 0, org_public_key = None,
        org_private_key = None, org_enabled = True, org_use_totp = True, org_revision_date = ''c'', org_created_at = ''c'',
        org_updated_at = ''c''\<rparr>],
      organization_policies := [\<lparr>op_id = ''p'', op_organization_id = ''org'', op_type = 0, op_enabled = True, op_revision_date = ''c'',
        op_last_mutation_id = None, op_created_at = ''c'', op_updated_at = ''c''\<rparr>],
      organization_users := [sample_owner ''u1'', sample_owner ''u2'']\<rparr>"

definition sample_owner_actor :: mfa_session_actor where
  "sample_owner_actor = \<lparr>ma_user_id = ''u1'', ma_device_identifier = ''d'', ma_session_id = ''t1''\<rparr>"

definition sample_removal :: "database \<times> (js_error + bool)" where
  "sample_removal = disable_totp_setup_for_session sample_owner_actor ''g'' ''n'' ''a1'' ''r1'' sample_owned"

lemma sample_removal_done: "snd sample_removal = Inr True"
  by code_simp

lemma sample_removal_run:
  "disable_totp_setup_for_session sample_owner_actor ''g'' ''n'' ''a1'' ''r1'' sample_owned = (fst sample_removal, Inr True)"
  using sample_removal_done by (metis prod.collapse sample_removal_def)

theorem totp_removal_keeps_an_enrolled_owner_witness: "surviving_owner ''org'' ''u1'' (fst sample_removal)"
proof -
  let ?m = "sample_owner ''u1''"
  have "?m \<in> set (organization_users (fst sample_removal)) \<and> confirmed_owner (ou_organization_id ?m) ?m \<and>
      requires_two_step (ou_organization_id ?m) (fst sample_removal)"
    by code_simp
  then show ?thesis
    using totp_removal_keeps_an_enrolled_owner [OF sample_removal_run, of ?m]
    by (simp add: sample_owner_actor_def sample_owner_def)
qed

theorem totp_removal_is_audited_witness:
  "audit_events (fst sample_removal) = audit_events sample_owned @ [totp_disable_audit sample_owner_actor ''a1'' ''r1'' ''n'']"
  using totp_removal_is_audited [OF sample_removal_run] by simp

section \<open>Challenges are consumed once\<close>

interpretation challenges: one_shot_update tc_id challenge_open "mark_challenge_consumed now" for now
  by unfold_locales (auto simp: challenge_open_def mark_challenge_consumed_def)

interpretation challenge_retention: bounded_cleanup tc_id challenge_due tc_expires_at cleanup_challenge_rows
  by unfold_locales (simp add: cleanup_challenge_rows_def)

text \<open>
  C24. A login challenge is redeemed at most once. However often and at whatever times the challenge is presented,
  after one presentation that succeeded every later one fails and changes nothing.
\<close>
theorem totp_challenge_consumed_once:
  assumes "consume_totp_challenge cid now db = (db', Inr True)"
  shows "consume_totp_challenge cid later db' = (db', Inr False)"
proof -
  have db': "totp_challenges db' = sql_update (\<lambda>r. tc_id r = cid \<and> challenge_open r) (mark_challenge_consumed now) (totp_challenges db)"
    using assms by (auto simp: consume_totp_challenge_def with_batch_eq batch_eval return_value_def)
  have none: "sql_count (\<lambda>r. tc_id r = cid \<and> challenge_open r) (totp_challenges db') = 0"
    unfolding db' by (rule challenges.second_update_misses)
  then have "sql_update (\<lambda>r. tc_id r = cid \<and> challenge_open r) f (totp_challenges db') = totp_challenges db'" for f
    by (rule sql_update_none)
  then show ?thesis
    using none by (simp add: consume_totp_challenge_def with_batch_def batch_eval return_value_def)
qed

definition sample_challenged :: database where
  "sample_challenged = fst (create_totp_challenge ''c1'' ''u1'' ''ch'' ''d'' ''e'' ''n'' sample_database)"

definition sample_redeemed :: "database \<times> (js_error + bool)" where
  "sample_redeemed = consume_totp_challenge ''c1'' ''n'' sample_challenged"

lemma sample_redeemed_ok: "snd sample_redeemed = Inr True"
  by code_simp

theorem totp_challenge_consumed_once_witness:
  "consume_totp_challenge ''c1'' ''m'' (fst sample_redeemed) = (fst sample_redeemed, Inr False)"
  by (rule totp_challenge_consumed_once [where now = "''n''" and db = sample_challenged])
    (use sample_redeemed_ok in \<open>simp add: sample_redeemed_def prod_eq_iff\<close>)

section \<open>A code signs in once\<close>

text \<open>
  The operations of a run, with the generation that an enrolment or a promotion draws. Any other operation of the program leaves the factors alone or deletes them
  with their account.
\<close>

datatype factor_op =
    SessionStep session_op
  | EnrolStep string string string
  | EnableStep string string string "string option"
  | DisableStep string "string option"
  | ChangeStep string string string "string option"
  | PromoteStep string string int string "string option" "string option"
  | AcceptStep string int string "string option"
  | StepUpSession mfa_session_actor totp_session_verification string
  | SessionSetup mfa_session_actor string string
  | SessionChange mfa_session_actor totp_session_verification string string
  | SessionEnable string mfa_session_actor string js_number string
  | SessionPromote string mfa_session_actor string string js_number string
  | SessionDisable mfa_session_actor string string string string

fun factor_exec :: "factor_op \<Rightarrow> database \<Rightarrow> database" where
  "factor_exec (SessionStep op) db = session_exec op db"
| "factor_exec (EnrolStep u s now) db = fst (upsert_pending_totp_setup u s now db)"
| "factor_exec (EnableStep g u now e) db = fst (enable_totp_setup g u now e db)"
| "factor_exec (DisableStep u eg) db = fst (disable_totp_setup u eg db)"
| "factor_exec (ChangeStep u s now eg) db = fst (start_pending_totp_change u s now eg db)"
| "factor_exec (PromoteStep g u st now eg ep) db = fst (promote_pending_totp_change g u st now eg ep db)"
| "factor_exec (AcceptStep u st now eg) db = fst (record_accepted_totp_step u st now eg db)"
| "factor_exec (StepUpSession a v now) db = fst (consume_totp_session_step_up a v now db)"
| "factor_exec (SessionSetup a s now) db = fst (create_pending_totp_setup_for_session a s now db)"
| "factor_exec (SessionChange a v s now) db = fst (start_pending_totp_change_for_session a v s now db)"
| "factor_exec (SessionEnable g a e n now) db = fst (enable_totp_setup_for_session g a e n now db)"
| "factor_exec (SessionPromote g a e p n now) db = fst (promote_pending_totp_change_for_session g a e p n now db)"
| "factor_exec (SessionDisable a e now aid rid) db = fst (disable_totp_setup_for_session a e now aid rid db)"

fun drawn_generation :: "factor_op \<Rightarrow> string option" where
  "drawn_generation (EnableStep g u now e) = Some g"
| "drawn_generation (PromoteStep g u st now eg ep) = Some g"
| "drawn_generation (SessionEnable g a e n now) = Some g"
| "drawn_generation (SessionPromote g a e p n now) = Some g"
| "drawn_generation _ = None"

inductive factor_run :: "string \<Rightarrow> database \<Rightarrow> database \<Rightarrow> bool" for g where
  start: "factor_run g db db"
| step: "factor_run g db0 db \<Longrightarrow> drawn_generation op \<noteq> Some g \<Longrightarrow> factor_run g db0 (factor_exec op db)"
| elsewhere: "factor_run g db0 db \<Longrightarrow> set (user_totp db') \<subseteq> set (user_totp db) \<Longrightarrow> factor_run g db0 db'"

text \<open>The factor of generation \<open>g\<close> has accepted a step that is not before \<open>s\<close>.\<close>

definition past_step :: "string \<Rightarrow> string \<Rightarrow> int \<Rightarrow> totp_row \<Rightarrow> bool" where
  "past_step u g s t \<longleftrightarrow>
     (tf_user_id t = u \<and> tf_credential_generation t = Some g \<longrightarrow> (\<exists>k. tf_last_accepted_step t = Some k \<and> s \<le> k))"

definition steps_past :: "string \<Rightarrow> string \<Rightarrow> int \<Rightarrow> database \<Rightarrow> bool" where
  "steps_past u g s db \<longleftrightarrow> (\<forall>t \<in> set (user_totp db). past_step u g s t)"

definition keeps_steps :: "string \<Rightarrow> string \<Rightarrow> int \<Rightarrow> database stmt \<Rightarrow> bool" where
  "keeps_steps u g s st \<longleftrightarrow> (\<forall>db n db' k. st db n = Inr (db', k) \<longrightarrow> steps_past u g s db \<longrightarrow> steps_past u g s db')"

lemma past_batch:
  assumes "\<And>st. st \<in> set ss \<Longrightarrow> keeps_steps u g s st" "\<And>ns d. user_totp (fst (k ns d)) = user_totp d" "steps_past u g s db"
  shows "steps_past u g s (fst (with_batch ss k db))"
proof (rule with_batch_invariant [where P = "steps_past u g s"])
  fix st d n d' k
  assume "st \<in> set ss" "st d n = Inr (d', k)" "steps_past u g s d"
  with assms(1) [of st] show "steps_past u g s d'" unfolding keeps_steps_def by blast
qed (use assms(2,3) in \<open>auto simp: steps_past_def\<close>)

named_theorems floors \<open>statements that never lower an accepted step\<close>

lemma floor_same [floors]:
  assumes "\<And>db n db' k. st db n = Inr (db', k) \<Longrightarrow> user_totp db' = user_totp db"
  shows "keeps_steps u g s st"
  unfolding keeps_steps_def steps_past_def using assms by metis

lemma floor_update:
  assumes "\<And>db prev t. p db prev t \<Longrightarrow> past_step u g s t \<Longrightarrow> past_step u g s (f t)"
  shows "keeps_steps u g s (update_stmt user_totp user_totp_update p f)" "keeps_steps u g s (update_factor p f)"
  using assms by (auto simp: keeps_steps_def steps_past_def update_stmt_Inr update_factor_def clear_mfa_of_def ball_sql_update Let_def)

lemma floor_delete: "keeps_steps u g s (delete_factor p)"
  by (auto simp: keeps_steps_def steps_past_def delete_factor_def clear_mfa_of_def set_sql_delete Let_def)

lemma floor_upsert:
  assumes "past_step u g s row" "\<And>t. guard t \<Longrightarrow> past_step u g s t \<Longrightarrow> past_step u g s (f t)"
  shows "keeps_steps u g s (upsert_factor row guard f)"
proof -
  have "keeps_steps u g s (update_factor (\<lambda>db prev t. tf_user_id t = tf_user_id row \<and> guard t) f)"
    by (rule floor_update) (use assms(2) in blast)
  then show ?thesis using assms(1) unfolding keeps_steps_def upsert_factor_def by (auto simp: steps_past_def)
qed

lemma floor_devices [floors]: "keeps_steps u g s (update_stmt devices devices_update p f)"
  "keeps_steps u g s (update_stmt refresh_tokens refresh_tokens_update q h)"
  "keeps_steps u g s (update_stmt users users_update r e)"
  by (rule floor_same; simp add: update_stmt_Inr)+

lemma floor_audit [floors]: "keeps_steps u g s (\<lambda>db prev. if prev = 1 then insert_audit_event e db else Inr (db, 0))"
  by (rule floor_same) (auto simp: insert_audit_event_def split: if_splits)

lemma floor_checked [floors]: "keeps_steps u g s st \<Longrightarrow> keeps_steps u g s (checked c st)"
  by (fastforce simp: keeps_steps_def checked_def split: sum.splits if_splits)

lemma floor_guarded: "keeps_steps u g s st \<Longrightarrow> keeps_steps u g s (\<lambda>db prev. if c db then st db prev else Inr (db, 0))"
  by (auto simp: keeps_steps_def)

lemma floor_accept: "past_step u g s t \<Longrightarrow> step_is_new k t \<Longrightarrow> past_step u g s (accept_step k now t)"
  by (auto simp: past_step_def step_is_new_def accept_step_def)

lemma floor_consume [floors]: "keeps_steps u g s (consume_step_statement a v now)"
  unfolding consume_step_statement_def by (rule floor_update) (auto intro: floor_accept)

lemma floor_proof [floors]: "keeps_steps u g s (session_proof_statement a h v)"
  unfolding session_proof_statement_def by (rule floor_devices)

lemma user_totp_insert_token: "insert_refresh_token t db = Inr (db', k) \<Longrightarrow> user_totp db' = user_totp db"
  by (auto simp: insert_refresh_token_Inr)

lemma user_totp_insert_device: "insert_or_ignore_device d db = Inr (db', k) \<Longrightarrow> user_totp db' = user_totp db"
  by (auto simp: insert_or_ignore_device_Inr)

lemma floor_session_inserts [floors]: "keeps_steps u g s (login_insert_device i)" "keeps_steps u g s (login_insert_token i)"
    "keeps_steps u g s (upsert_totp_device i v)" "keeps_steps u g s (insert_totp_token i v)" "keeps_steps u g s (insert_replacement r)"
  by (rule floor_same; auto simp: login_insert_device_def login_insert_token_def upsert_totp_device_def insert_totp_token_def
      insert_replacement_def update_stmt_Inr dest: user_totp_insert_token user_totp_insert_device split: if_splits option.splits)+

lemma floor_login_step [floors]: "keeps_steps u g s (consume_login_totp_step i v)"
  unfolding consume_login_totp_step_def by (rule floor_update) (auto simp: past_step_def)

lemma fst_batch_result [simp]: "user_totp (fst (session_batch_result m ns db)) = user_totp db"
  by (simp add: session_batch_result_def throw_def return_value_def)

lemma past_sessions:
  assumes "steps_past u g s db"
  shows "steps_past u g s (session_exec op db)"
proof (cases op)
  case (Login i)
  have "steps_past u g s (fst (create_password_grant_session i db))"
    using assms floors
    by (auto simp: create_password_grant_session_def create_totp_password_grant_session_def login_update_device_def
        intro!: past_batch split: option.split)
  then show ?thesis by (simp add: Login)
next
  case (Rotate i)
  have inv: "steps_past u g s (fst (invalidate_refresh_token_session v d now x db))" if "steps_past u g s db" for v d now x db
    unfolding invalidate_refresh_token_session_def using that floors by (intro past_batch) auto
  have "steps_past u g s (fst (rotate_refresh_token i db))"
    unfolding rotate_refresh_token_def
  proof (rule with_batch_invariant [where P = "steps_past u g s"])
    fix st d n d' k
    assume st: "st \<in> set [insert_replacement i, revoke_rotated i, touch_rotated_device i]" "st d n = Inr (d', k)" "steps_past u g s d"
    have "keeps_steps u g s st" using st(1) floors by (auto simp: revoke_rotated_def touch_rotated_device_def)
    then show "steps_past u g s d'" using st unfolding keeps_steps_def by blast
  next
    fix ns d assume "steps_past u g s d"
    then show "steps_past u g s (fst (if ns ! 0 \<noteq> 1 \<or> ns ! 1 \<noteq> 1 \<or> ns ! 2 \<noteq> 1
        then (case invalidate_refresh_token_session (ro_user_id i) (ro_device_id i) (ro_now i)
                     (Some (ro_expected_session_id i)) d of
                (db'', Inl e) \<Rightarrow> (db'', Inl e) | (db'', Inr _) \<Rightarrow> return_value ReuseDetected db'')
        else return_value Rotated d))"
      using inv [of d "ro_user_id i" "ro_device_id i" "ro_now i" "Some (ro_expected_session_id i)"]
      by (auto split: prod.split sum.split)
  qed (rule assms)
  then show ?thesis by (simp add: Rotate)
next
  case (RevokeCurrent v di sid now)
  have "steps_past u g s (fst (revoke_current_device_session v di sid now db))"
    unfolding revoke_current_device_session_def Let_def using assms floors
    by (intro past_batch) (auto split: list.split)
  then show ?thesis by (simp add: RevokeCurrent)
next
  case (DeleteExpired now limit)
  then show ?thesis using assms
    by (auto simp: delete_expired_refresh_tokens_def steps_past_def split: sum.split prod.split)
next
  case (UpdateTrusted v us now)
  have "keeps_steps u g s (write_device_keys v now r)" for r
    by (cases r) (simp add: write_device_keys_def floors)
  then show ?thesis using assms UpdateTrusted
    by (auto simp: update_trusted_device_keys_def split: option.split sum.split intro!: past_batch)
qed (use assms floors in \<open>auto simp: revoke_device_session_def revoke_other_device_sessions_def invalidate_refresh_token_session_def
    update_device_metadata_def update_device_keys_def split: option.split intro!: past_batch\<close>)

lemma past_step_exec:
  assumes "steps_past u g s db" "drawn_generation op \<noteq> Some g"
  shows "steps_past u g s (factor_exec op db)"
proof (cases op)
  case (SessionStep sop)
  then show ?thesis using past_sessions [OF assms(1)] by simp
qed (use assms floors in \<open>auto simp: upsert_pending_totp_setup_def enable_totp_setup_def disable_totp_setup_def start_pending_totp_change_def
    promote_pending_totp_change_def record_accepted_totp_step_def consume_totp_session_step_up_def
    create_pending_totp_setup_for_session_def start_pending_totp_change_for_session_def enable_totp_setup_for_session_def
    promote_pending_totp_change_for_session_def disable_totp_setup_for_session_def
    intro!: past_batch floor_update floor_delete floor_upsert floor_guarded intro: floor_accept
    simp: past_step_def pending_setup_row_def promote_factor_def\<close>)

lemma factor_run_past: "factor_run g db db' \<Longrightarrow> steps_past u g s db \<Longrightarrow> steps_past u g s db'"
proof (induction rule: factor_run.induct)
  case (elsewhere db0 db db')
  then show ?case unfolding steps_past_def by blast
qed (use past_step_exec in blast)+

text \<open>A login that consumed a step leaves the factor it names past that step.\<close>

lemma login_passes_step:
  assumes "distinct (map tf_user_id (user_totp db))"
    and "si_totp_verification i = Some v" "create_password_grant_session i db = (db1, Inr SessionCreated)"
  shows "steps_past (si_user_id i) (tv_credential_generation v) (num_int (tv_accepted_step v)) db1"
proof -
  let ?p = "\<lambda>t. tf_user_id t = si_user_id i \<and> tf_enabled t \<and> tf_verified_at t \<noteq> None \<and>
      tf_credential_generation t = Some (tv_credential_generation v) \<and>
      (tf_last_accepted_step t = None \<or> sql_gt (Some (num_int (tv_accepted_step v))) (tf_last_accepted_step t)) \<and>
      sql_exists (credential_generation_current i) (users db)"
  let ?f = "\<lambda>t. t\<lparr>tf_last_accepted_step := Some (num_int (tv_accepted_step v)), tf_updated_at := si_now i\<rparr>"
  let ?d1 = "user_totp_update (sql_update ?p ?f) db"
  from assms(2,3) obtain d2 n2 n3 where
    s2: "upsert_totp_device i v ?d1 (sql_count ?p (user_totp db)) = Inr (d2, n2)"
    and s3: "insert_totp_token i v d2 n2 = Inr (db1, n3)" and n3: "n3 \<noteq> 0"
    by (auto simp: create_password_grant_session_def create_totp_password_grant_session_def with_batch_eq batch_def
        consume_login_totp_step_def update_stmt_def session_batch_result_def return_value_def throw_def
        split: if_splits sum.splits prod.splits)
  from s3 n3 have "n2 = 1" and t1: "user_totp db1 = user_totp d2"
    by (auto simp: insert_totp_token_def insert_refresh_token_Inr split: if_splits)
  with s2 have hit: "sql_count ?p (user_totp db) = 1" and t2: "user_totp d2 = user_totp ?d1"
    by (auto simp: upsert_totp_device_def update_stmt_Inr insert_or_ignore_device_Inr split: if_splits)
  from hit obtain t where t: "t \<in> set (user_totp db)" "?p t"
    using sql_count_pos [of ?p "user_totp db"] by auto
  have "tf_last_accepted_step r = Some (num_int (tv_accepted_step v))"
    if r: "r \<in> set (user_totp db1)" "tf_user_id r = si_user_id i" for r
  proof -
    from r(1) obtain q where q: "q \<in> set (user_totp db)" "r = (if ?p q then ?f q else q)"
      by (auto simp: t1 t2 set_sql_update)
    with r(2) have "tf_user_id q = tf_user_id t" using t(2) by (auto split: if_splits)
    then have "q = t" using distinct_key_unique [OF assms(1) q(1) t(1)] by simp
    with q t(2) show ?thesis by simp
  qed
  then show ?thesis by (simp add: steps_past_def past_step_def)
qed

text \<open>
  C18. A TOTP code signs in once. Take a login that consumed the time step of a code of the user's authenticator, and anything that
  happens after it: further logins of anybody with later or earlier steps, rotations, revocations, step-ups, and
  changes, removals and new enrolments of authenticators under newly drawn generations. A login of that user for the same
  authenticator with a code of the same or an earlier step is refused and writes nothing, whatever device or session it
  names, and so is a step-up of a session of that user. While the authenticator is the same the claim holds whatever generation
  the attempt names.
\<close>
theorem totp_step_signs_in_once:
  assumes "distinct (map tf_user_id (user_totp db))"
    and "si_totp_verification i = Some v" "create_password_grant_session i db = (db1, Inr SessionCreated)"
    and "factor_run (tv_credential_generation v) db1 db2"
    and "tv_credential_generation w = tv_credential_generation v \<or>
      (\<forall>t \<in> set (user_totp db2). tf_user_id t = si_user_id i \<longrightarrow> tf_credential_generation t = Some (tv_credential_generation v))"
    and "num_int (tv_accepted_step w) \<le> num_int (tv_accepted_step v)"
    and "si_totp_verification j = Some w" "si_user_id j = si_user_id i" "ma_user_id a = si_user_id i"
  shows "create_password_grant_session j db2 = (db2, Inr StaleGeneration) \<and>
    consume_totp_session_step_up a w now db2 = (db2, Inr False)"
proof
  have past: "past_step (si_user_id i) (tv_credential_generation v) (num_int (tv_accepted_step v)) t" if "t \<in> set (user_totp db2)" for t
    using factor_run_past [OF assms(4) login_passes_step [OF assms(1-3)]] that by (simp add: steps_past_def)
  have none: "\<not> (tf_credential_generation t = Some (tv_credential_generation w) \<and>
      (tf_last_accepted_step t = None \<or> sql_gt (Some (num_int (tv_accepted_step w))) (tf_last_accepted_step t)))"
    if t: "t \<in> set (user_totp db2)" "tf_user_id t = si_user_id i" for t
    using past [OF t(1)] assms(5,6) t by (auto simp: past_step_def)
  have "sql_count (\<lambda>t. tf_user_id t = si_user_id j \<and> tf_enabled t \<and> tf_verified_at t \<noteq> None \<and>
      tf_credential_generation t = Some (tv_credential_generation w) \<and>
      (tf_last_accepted_step t = None \<or> sql_gt (Some (num_int (tv_accepted_step w))) (tf_last_accepted_step t)) \<and>
      sql_exists (credential_generation_current j) (users db2)) (user_totp db2) = 0"
    using none assms(8) by (auto simp: sql_count_0)
  then have "consume_login_totp_step j w db2 0 = Inr (db2, 0)"
    by (simp add: consume_login_totp_step_def update_stmt_def sql_update_none)
  then show "create_password_grant_session j db2 = (db2, Inr StaleGeneration)"
    using assms(7)
    by (simp add: create_password_grant_session_def create_totp_password_grant_session_def with_batch_def
        batch_def upsert_totp_device_def insert_totp_token_def session_batch_result_def return_value_def)
  have "sql_count (\<lambda>t. tf_user_id t = ma_user_id a \<and> tf_enabled t \<and> tf_verified_at t \<noteq> None \<and>
      tf_credential_generation t = Some (tv_credential_generation w) \<and> step_is_new (num_int (tv_accepted_step w)) t \<and>
      active_session a db2) (user_totp db2) = 0"
    using none assms(9) by (auto simp: sql_count_0 step_is_new_def)
  then have "consume_step_statement a w now db2 0 = Inr (db2, 0)"
    by (simp add: consume_step_statement_def update_stmt_def sql_update_none)
  then show "consume_totp_session_step_up a w now db2 = (db2, Inr False)"
    by (simp add: consume_totp_session_step_up_def with_batch_def batch_def session_proof_statement_def update_stmt_def
        completed_proof_batch_def return_value_def)
qed

text \<open>Another login, with a later code, in between.\<close>

definition sample_later :: database where
  "sample_later = factor_exec (SessionStep (Login (sample_totp_login ''t2'' 10))) sample_assured"

theorem totp_step_signs_in_once_witness:
  "snd (create_password_grant_session (sample_totp_login ''t2'' 10) sample_assured) = Inr SessionCreated \<and>
   create_password_grant_session (sample_totp_login ''t3'' 9) sample_later = (sample_later, Inr StaleGeneration) \<and>
   consume_totp_session_step_up sample_actor \<lparr>tv_credential_generation = ''g'', tv_accepted_step = Finite 9\<rparr> ''n'' sample_later =
     (sample_later, Inr False)"
proof -
  have run: "factor_run ''g'' sample_assured sample_later"
    unfolding sample_later_def by (rule factor_run.step [OF factor_run.start]) simp
  have "snd (create_password_grant_session (sample_totp_login ''t2'' 10) sample_assured) = Inr SessionCreated" by code_simp
  moreover have "create_password_grant_session (sample_totp_login ''t1'' 9) sample_totp_database = (sample_assured, Inr SessionCreated)"
    using sample_totp_login_created by (simp add: sample_assured_def prod_eq_iff)
  ultimately show ?thesis
    using totp_step_signs_in_once [of sample_totp_database "sample_totp_login ''t1'' 9" "\<lparr>tv_credential_generation = ''g'', tv_accepted_step = Finite 9\<rparr>"
        sample_assured sample_later "\<lparr>tv_credential_generation = ''g'', tv_accepted_step = Finite 9\<rparr>" "sample_totp_login ''t3'' 9" sample_actor "''n''"] run
    by (simp add: sample_totp_login_def sample_totp_database_def sample_login_def sample_actor_def)
qed

end
