(* ===== verification/Totp.thy ===== *)
theory Totp
  imports Prelude Base64 "HOL-Library.Word"
begin

text \<open>
  One-time codes: \<open>src/domain/totp.ts\<close> (base32, HOTP, verification with a window and a replay guard) and
  \<open>src/domain/totp-secret.ts\<close> (the sealed form of a secret). The shift register of the base32 loops is
  a 32-bit word, as JavaScript's bitwise operators make it, so its overflow is in the model. HMAC-SHA-1,
  AES-GCM, SHA-256, the random bytes and \<open>TextDecoder\<close> are parameters; bytes are numbers below 256.
\<close>

section \<open>Base32\<close>

definition base32_alphabet :: string where
  "base32_alphabet = ''ABCDEFGHIJKLMNOPQRSTUVWXYZ234567''"

text \<open>The inner \<open>while\<close>: quintets leave the register while five bits are left.\<close>

fun drain_quintets :: "32 word \<Rightarrow> nat \<Rightarrow> nat list \<times> nat" where
  "drain_quintets buffer bits_left =
     (if 5 \<le> bits_left
      then (case drain_quintets buffer (bits_left - 5) of
              (vs, rest) \<Rightarrow> (unat (drop_bit (bits_left - 5) buffer AND 31) # vs, rest))
      else ([], bits_left))"

declare drain_quintets.simps [simp del]

fun encode_quintets :: "32 word \<Rightarrow> nat \<Rightarrow> nat list \<Rightarrow> nat list" where
  "encode_quintets buffer bits_left [] =
     (if 0 < bits_left then [unat (push_bit (5 - bits_left) buffer AND 31)] else [])"
| "encode_quintets buffer bits_left (b # bs) =
     (let buffer = push_bit 8 buffer OR of_nat b
      in case drain_quintets buffer (bits_left + 8) of
           (vs, rest) \<Rightarrow> vs @ encode_quintets buffer rest bs)"

definition base32_encode_bytes :: "nat list \<Rightarrow> string" where
  "base32_encode_bytes bs = map (nth base32_alphabet) (encode_quintets 0 0 bs)"

fun decode_quintets :: "32 word \<Rightarrow> nat \<Rightarrow> nat list \<Rightarrow> nat list" where
  "decode_quintets buffer bits_left [] = []"
| "decode_quintets buffer bits_left (v # vs) =
     (let buffer = push_bit 5 buffer OR of_nat v; bits_left = bits_left + 5
      in if 8 \<le> bits_left
         then unat (drop_bit (bits_left - 8) buffer AND 255) # decode_quintets buffer (bits_left - 8) vs
         else decode_quintets buffer bits_left vs)"

text \<open>\<open>toUpperCase\<close>; the two letters whose capital lies beyond code unit 255 stay as they are.\<close>

definition js_upper :: "string \<Rightarrow> string" where
  "js_upper s = concat (map (\<lambda>c. let n = code_unit c in
     if (97 \<le> n \<and> n \<le> 122) \<or> (224 \<le> n \<and> n \<le> 254 \<and> n \<noteq> 247) then [char_of (n - 32)]
     else if n = 223 then ''SS'' else [c]) s)"

definition base32_index :: "char \<Rightarrow> nat option" where
  "base32_index c = (case find (\<lambda>i. base32_alphabet ! i = c) [0..<32] of None \<Rightarrow> None | Some i \<Rightarrow> Some i)"

fun base32_values :: "string \<Rightarrow> nat list option" where
  "base32_values [] = Some []"
| "base32_values (c # s) =
     (case base32_index c of None \<Rightarrow> None | Some v \<Rightarrow> map_option (\<lambda>vs. v # vs) (base32_values s))"

definition base32_normalize :: "string \<Rightarrow> string" where
  "base32_normalize s = js_upper (filter (\<lambda>c. \<not> js_is_space c) (strip_padding s))"

definition base32_decode_to_bytes :: "string \<Rightarrow> nat list option" where
  "base32_decode_to_bytes s =
     (let normalized = base32_normalize s
      in if normalized = [] then None else map_option (decode_quintets 0 0) (base32_values normalized))"

definition totp_secret_bytes :: nat where "totp_secret_bytes = 20"

definition generate_totp_secret :: "nat list \<Rightarrow> string" where
  "generate_totp_secret random_bytes = base32_encode_bytes random_bytes"

section \<open>HOTP\<close>

definition uint32_bytes :: "int \<Rightarrow> nat list" where
  "uint32_bytes n = map (\<lambda>k. nat (n div 256 ^ k mod 256)) [3, 2, 1, 0]"

definition counter_to_bytes :: "int \<Rightarrow> nat list" where
  "counter_to_bytes counter = uint32_bytes (counter div 2 ^ 32) @ uint32_bytes (counter mod 2 ^ 32)"

definition byte_at :: "nat list \<Rightarrow> nat \<Rightarrow> nat" where
  "byte_at bs i = (if i < length bs then bs ! i else 0)"

definition truncate_signature :: "nat list \<Rightarrow> 32 word" where
  "truncate_signature signature =
     (let at_byte = (\<lambda>i. of_nat (byte_at signature i) :: 32 word);
          start = byte_at signature (length signature - 1) mod 16
      in push_bit 24 (at_byte start AND 0x7f) OR push_bit 16 (at_byte (start + 1) AND 0xff)
           OR push_bit 8 (at_byte (start + 2) AND 0xff) OR (at_byte (start + 3) AND 0xff))"

definition pad_start :: "nat \<Rightarrow> char \<Rightarrow> string \<Rightarrow> string" where
  "pad_start n c s = replicate (n - length s) c @ s"

definition hotp :: "(nat list \<Rightarrow> nat list \<Rightarrow> nat list) \<Rightarrow> string \<Rightarrow> int \<Rightarrow> nat \<Rightarrow> string" where
  "hotp hmac secret_base32 counter digits =
     (case base32_decode_to_bytes secret_base32 of
        None \<Rightarrow> ''''
      | Some secret \<Rightarrow>
          if \<not> safe_int counter \<or> counter < 0 then ''''
          else pad_start digits (CHR ''0'')
                 (decimal (nat (sint (truncate_signature (hmac secret (counter_to_bytes counter))) mod 10 ^ digits))))"

section \<open>Verification\<close>

datatype totp_verification = Accepted int | Invalid | Replayed

definition totp_digits :: nat where "totp_digits = 6"
definition totp_period_seconds :: int where "totp_period_seconds = 30"
definition totp_window :: int where "totp_window = 1"

definition six_digits :: "string \<Rightarrow> bool" where
  "six_digits s \<longleftrightarrow> length s = 6 \<and> list_all (\<lambda>c. 48 \<le> code_unit c \<and> code_unit c \<le> 57) s"

text \<open>The comparison of \<open>totp.ts\<close>, which returns early on different lengths.\<close>

definition same_length_equal :: "string \<Rightarrow> string \<Rightarrow> bool" where
  "same_length_equal left right \<longleftrightarrow>
     length left = length right \<and>
     fold (\<lambda>i difference. difference OR (code_unit (left ! i) XOR code_unit (right ! i))) [0..<length left] 0 = (0 :: nat)"

fun scan_steps ::
    "(nat list \<Rightarrow> nat list \<Rightarrow> nat list) \<Rightarrow> string \<Rightarrow> string \<Rightarrow> int option \<Rightarrow> int list \<Rightarrow> totp_verification" where
  "scan_steps hmac secret code last_accepted [] = Invalid"
| "scan_steps hmac secret code last_accepted (step # steps) =
     (if \<not> same_length_equal (hotp hmac secret step totp_digits) code
      then scan_steps hmac secret code last_accepted steps
      else case last_accepted of
             Some l \<Rightarrow> if step \<le> l then Replayed else Accepted step
           | None \<Rightarrow> Accepted step)"

text \<open>Times are integers, and small enough that \<open>Math.floor\<close> of the quotient is exact.\<close>

definition window_steps :: "int \<Rightarrow> int \<Rightarrow> int \<Rightarrow> int list" where
  "window_steps now_unix_seconds period window =
     (let current = now_unix_seconds div period in [max 0 (current - window)..current + window])"

definition verify_totp_code ::
    "(nat list \<Rightarrow> nat list \<Rightarrow> nat list) \<Rightarrow> string \<Rightarrow> string \<Rightarrow> int \<Rightarrow> int option \<Rightarrow> int option \<Rightarrow> int option
      \<Rightarrow> totp_verification" where
  "verify_totp_code hmac secret presented now_unix_seconds last_accepted period window =
     (let code = js_trim presented
      in if \<not> six_digits code then Invalid
         else scan_steps hmac secret code last_accepted
                (window_steps now_unix_seconds (case period of None \<Rightarrow> totp_period_seconds | Some p \<Rightarrow> p)
                   (case window of None \<Rightarrow> totp_window | Some w \<Rightarrow> w)))"

section \<open>Sealed secrets\<close>

text \<open>
  \<open>seal key iv aad text\<close> and \<open>unseal\<close> are AES-GCM (\<open>unseal\<close> fails on a bad tag), \<open>digest\<close> is SHA-256
  and \<open>decode\<close> is \<open>TextDecoder\<close>. A missing wrapping secret throws; inside the \<open>try\<close> of the
  decryption the thrown error becomes \<open>null\<close>.
\<close>

definition secret_envelope_purpose :: string where
  "secret_envelope_purpose = ''honowarden:totp-secret:v1''"

definition import_wrapping_key :: "(nat list \<Rightarrow> nat list) \<Rightarrow> string \<Rightarrow> js_error + nat list" where
  "import_wrapping_key digest wrapping_secret =
     (if js_trim wrapping_secret = '''' then Inl (JsError ''Missing TOTP wrapping secret.'')
      else Inr (digest (utf8_encode wrapping_secret)))"

definition encrypt_totp_secret ::
    "(nat list \<Rightarrow> nat list \<Rightarrow> nat list \<Rightarrow> nat list \<Rightarrow> nat list) \<Rightarrow> (nat list \<Rightarrow> nat list) \<Rightarrow> nat list
      \<Rightarrow> string \<Rightarrow> string \<Rightarrow> js_error + string" where
  "encrypt_totp_secret seal digest iv wrapping_secret secret_base32 =
     (case import_wrapping_key digest wrapping_secret of
        Inl e \<Rightarrow> Inl e
      | Inr key \<Rightarrow>
          Inr (js_join (CHR ''.'') [''v1'', base64_url_encode_bytes iv,
            base64_url_encode_bytes (seal key iv (utf8_encode secret_envelope_purpose) (utf8_encode secret_base32))]))"

definition decrypt_totp_secret ::
    "(nat list \<Rightarrow> nat list \<Rightarrow> nat list \<Rightarrow> nat list \<Rightarrow> nat list option) \<Rightarrow> (nat list \<Rightarrow> nat list) \<Rightarrow>
     (nat list \<Rightarrow> string) \<Rightarrow> string \<Rightarrow> string \<Rightarrow> string option" where
  "decrypt_totp_secret unseal digest decode wrapping_secret encrypted_secret =
     (case js_split (CHR ''.'') encrypted_secret of
        [version, encoded_iv, encoded_ciphertext] \<Rightarrow>
          if version \<noteq> ''v1'' \<or> encoded_iv = '''' \<or> encoded_ciphertext = '''' then None
          else (case base64_url_decode_bytes encoded_iv of
                  None \<Rightarrow> None
                | Some iv \<Rightarrow>
                    if length iv \<noteq> 12 then None
                    else (case (import_wrapping_key digest wrapping_secret, base64_url_decode_bytes encoded_ciphertext) of
                            (Inr key, Some ciphertext) \<Rightarrow>
                              map_option decode (unseal key iv (utf8_encode secret_envelope_purpose) ciphertext)
                          | _ \<Rightarrow> None))
      | _ \<Rightarrow> None)"

section \<open>The pending bits of a register\<close>

definition low :: "nat \<Rightarrow> 32 word \<Rightarrow> nat" where
  "low n w = unat w mod 2 ^ n"

lemma low_less: "low n w < 2 ^ n"
  by (simp add: low_def)

lemma low_low: "m \<le> n \<Longrightarrow> low m w = low n w mod 2 ^ m"
  by (simp add: low_def mod_mod_cancel le_imp_power_dvd)

lemma low_as_bits: "low n w = take_bit n (unat w)"
  by (simp add: low_def take_bit_eq_mod)

lemma low_push:
  assumes "b < 2 ^ k" "n + k \<le> 32"
  shows "low (n + k) (push_bit k w OR of_nat b) = low n w * 2 ^ k + b"
proof -
  have b: "\<not> bit b i" if "k \<le> i" for i
  proof -
    have "b < 2 ^ i" using assms(1) that by (meson less_le_trans one_le_numeral power_increasing)
    then show ?thesis by (simp add: bit_iff_odd)
  qed
  have "low (n + k) (push_bit k w OR of_nat b) = push_bit k (low n w) OR b"
  proof (rule bit_eqI)
    fix i
    show "bit (low (n + k) (push_bit k w OR of_nat b)) i = bit (push_bit k (low n w) OR b) i"
      using assms(2) b [of i] by (cases "k \<le> i") (auto simp: low_as_bits bit_simps)
  qed
  also have "\<dots> = push_bit k (low n w) + b"
    using b by (intro disjunctive_add [symmetric]) (auto simp: bit_simps not_le)
  finally show ?thesis by (simp add: push_bit_eq_mult)
qed

lemma low_chunk:
  assumes "j + k \<le> n" "n \<le> 32"
  shows "unat (drop_bit j w AND mask k) = low n w div 2 ^ j mod 2 ^ k"
proof -
  have "unat (drop_bit j w AND mask k) = take_bit k (drop_bit j (low n w))"
    using assms by (auto simp: low_as_bits bit_eq_iff bit_simps)
  then show ?thesis by (simp add: take_bit_eq_mod drop_bit_eq_div)
qed

lemma low_last:
  assumes "k \<le> n + j" "k \<le> 32"
  shows "unat (push_bit j w AND mask k) = low n w * 2 ^ j mod 2 ^ k"
proof -
  have "unat (push_bit j w AND mask k) = take_bit k (push_bit j (low n w))"
    using assms by (auto simp: low_as_bits bit_eq_iff bit_simps)
  then show ?thesis by (simp add: take_bit_eq_mod push_bit_eq_mult)
qed

lemma mask_numerals: "(31 :: 32 word) = mask 5" "(255 :: 32 word) = mask 8"
  by (simp_all add: mask_eq_exp_minus_1)

lemmas quintet = low_chunk [where k = 5, folded mask_numerals, simplified]
lemmas octet = low_chunk [where k = 8, folded mask_numerals, simplified]

lemma encode_last:
  "k \<le> 5 \<Longrightarrow> unat (push_bit (5 - k) w AND 31) = low k w * 2 ^ (5 - k)"
proof -
  assume k: "k \<le> 5"
  have "low k w * 2 ^ (5 - k) < 2 ^ k * 2 ^ (5 - k)" using low_less [of k w] by simp
  also have "\<dots> = 32" using k by (simp add: power_add [symmetric])
  finally show ?thesis using low_last [of 5 k "5 - k" w] k by (simp add: mask_numerals)
qed


text \<open>The same loops on the pending bits alone, as numbers.\<close>

fun drain_pending :: "nat \<Rightarrow> nat \<Rightarrow> nat list \<times> nat \<times> nat" where
  "drain_pending p n =
     (if 5 \<le> n then (case drain_pending (p mod 2 ^ (n - 5)) (n - 5) of (vs, r) \<Rightarrow> (p div 2 ^ (n - 5) # vs, r))
      else ([], p, n))"

declare drain_pending.simps [simp del]

fun encode_pending :: "nat \<Rightarrow> nat \<Rightarrow> nat list \<Rightarrow> nat list" where
  "encode_pending p k [] = (if 0 < k then [p * 2 ^ (5 - k)] else [])"
| "encode_pending p k (b # bs) =
     (case drain_pending (p * 256 + b) (k + 8) of (vs, p', k') \<Rightarrow> vs @ encode_pending p' k' bs)"

fun decode_pending :: "nat \<Rightarrow> nat \<Rightarrow> nat list \<Rightarrow> nat list" where
  "decode_pending q j [] = []"
| "decode_pending q j (v # vs) =
     (if 8 \<le> j + 5 then (q * 32 + v) div 2 ^ (j - 3) # decode_pending ((q * 32 + v) mod 2 ^ (j - 3)) (j - 3) vs
      else decode_pending (q * 32 + v) (j + 5) vs)"

lemma div_power_less: "x < 2 ^ n \<Longrightarrow> m \<le> n \<Longrightarrow> x div 2 ^ m < (2 :: nat) ^ (n - m)"
  by (simp add: less_mult_imp_div_less power_add [symmetric])

lemma drain_low:
  "n \<le> 12 \<Longrightarrow> drain_pending (low n w) n = (case drain_quintets w n of (vs, r) \<Rightarrow> (vs, low r w, r))"
proof (induction w n rule: drain_quintets.induct)
  case (1 w n)
  show ?case
  proof (cases "5 \<le> n")
    case True
    have "low n w div 2 ^ (n - 5) < 2 ^ 5" using div_power_less [OF low_less, of "n - 5" n w] True by simp
    then have "unat (drop_bit (n - 5) w AND 31) = low n w div 2 ^ (n - 5)"
      using quintet [of "n - 5" n w] True 1(2) by simp
    then show ?thesis
      using 1 True low_low [of "n - 5" n w]
      by (simp add: drain_pending.simps [of _ n] drain_quintets.simps [of _ n] split: prod.splits)
  qed (simp add: drain_pending.simps drain_quintets.simps)
qed

lemma drain_rest: "drain_quintets w n = (vs, r) \<Longrightarrow> r < 5"
proof (induction w n arbitrary: vs rule: drain_quintets.induct)
  case (1 w n)
  then show ?case by (subst (asm) drain_quintets.simps) (auto split: if_splits prod.splits)
qed

lemma encode_low:
  "k < 5 \<Longrightarrow> \<forall>b \<in> set bs. b < 256 \<Longrightarrow> encode_quintets e k bs = encode_pending (low k e) k bs"
proof (induction bs arbitrary: k e)
  case Nil
  then show ?case by (simp add: encode_last)
next
  case (Cons b bs)
  let ?e = "push_bit 8 e OR of_nat b"
  obtain vs r where d: "drain_quintets ?e (k + 8) = (vs, r)" by fastforce
  have "low (k + 8) ?e = low k e * 256 + b" using low_push [of b 8 k e] Cons.prems by simp
  then have "drain_pending (low k e * 256 + b) (k + 8) = (vs, low r ?e, r)"
    using drain_low [of "k + 8" ?e] Cons.prems(1) d by simp
  then show ?case using Cons.IH [OF drain_rest [OF d]] Cons.prems(2) d by (simp add: Let_def)
qed

lemma decode_low:
  "\<forall>v \<in> set vs. v < 32 \<Longrightarrow> j < 8 \<Longrightarrow> decode_quintets d j vs = decode_pending (low j d) j vs"
proof (induction vs arbitrary: d j)
  case (Cons v vs)
  let ?d = "push_bit 5 d OR of_nat v"
  have l: "low (j + 5) ?d = low j d * 32 + v" using low_push [of v 5 j d] Cons.prems by simp
  show ?case
  proof (cases "8 \<le> j + 5")
    case True
    have "low j d * 32 + v < 2 ^ (j + 5)" using low_less [of "j + 5" ?d] l by simp
    then have "(low j d * 32 + v) div 2 ^ (j - 3) < 2 ^ 8"
      using div_power_less [of "low j d * 32 + v" "j + 5" "j - 3"] True by simp
    then show ?thesis
      using Cons.IH [of "j - 3" ?d] Cons.prems True octet [of "j - 3" "j + 5" ?d] low_low [of "j - 3" "j + 5" ?d] l
      by (simp add: Let_def)
  next
    case False
    then show ?thesis using Cons.IH [of "j + 5" ?d] Cons.prems l by (simp add: Let_def)
  qed
qed simp

lemma split_low:
  "c < n \<Longrightarrow> (x * n + c) div n = x" "c < n \<Longrightarrow> (x * n + c) mod n = (c :: nat)"
  by (simp_all add: div_mult_self3)

lemma split_high:
  "0 < n \<Longrightarrow> (x * (m * n) + b) div n = x * m + b div (n :: nat)" "0 < n \<Longrightarrow> (x * (m * n) + b) mod n = b mod (n :: nat)"
  by (simp_all add: mult.assoc [symmetric])

lemma pending_round_trip:
  assumes "k < 5" "p < 2 ^ k" "q < 2 ^ (8 - k)" "\<forall>b \<in> set bs. b < 256"
  shows "decode_pending (if k = 0 then 0 else q) (if k = 0 then 0 else 8 - k) (encode_pending p k bs) =
    (if k = 0 then [] else [q * 2 ^ k + p]) @ bs"
  using assms
proof (induction bs arbitrary: k p q)
  case Nil
  then have "k \<in> {0, 1, 2, 3, 4}" by auto
  then show ?case using Nil by auto
next
  case (Cons b bs)
  then have b: "b < 256" by simp
  note ih = Cons.IH and ps = Cons.prems
  from Cons(2) have "k \<in> {0, 1, 2, 3, 4}" by auto
  then consider "k = 0" | "k = 1" | "k = 2" | "k = 3" | "k = 4" by blast
  then show ?case
  proof cases
    case 1
    then show ?thesis
      using ih [of 3 "b mod 8" "b div 8"] ps b by (simp add: drain_pending.simps less_mult_imp_div_less)
  next
    case 2
    have a: "(p * 256 + b) div 16 = p * 16 + b div 16" "(p * 256 + b) mod 16 = b mod 16"
      using split_high [of 16 p 16 b] by (simp_all add: mult.commute)
    have c: "b div 16 < 16" using b by simp
    have "(q * 32 + (p * 16 + b div 16)) div 16 = q * 2 + p" "(q * 32 + (p * 16 + b div 16)) mod 16 = b div 16"
      using split_low [of "b div 16" 16 "q * 2 + p"] c by (simp_all add: algebra_simps)
    then show ?thesis
      using 2 ih [of 4 "b mod 16" "b div 16"] ps c by (simp add: drain_pending.simps a)
  next
    case 3
    have a: "(p * 256 + b) div 32 = p * 8 + b div 32" "(p * 256 + b) mod 32 = b mod 32"
      using split_high [of 32 p 8 b] by (simp_all add: mult.commute)
    have c: "b div 32 < 8" using b by simp
    have "(q * 32 + (p * 8 + b div 32)) div 8 = q * 4 + p" "(q * 32 + (p * 8 + b div 32)) mod 8 = b div 32"
      using split_low [of "b div 32" 8 "q * 4 + p"] c by (simp_all add: algebra_simps)
    then show ?thesis
      using 3 ih [of 0 0 0] ps c by (simp add: drain_pending.simps a)
  next
    case 4
    have a: "(p * 256 + b) div 64 = p * 4 + b div 64" "(p * 256 + b) mod 64 = b mod 64"
      using split_high [of 64 p 4 b] by (simp_all add: mult.commute)
    have c: "b div 64 < 4" using b by simp
    have "(q * 32 + (p * 4 + b div 64)) div 4 = q * 8 + p" "(q * 32 + (p * 4 + b div 64)) mod 4 = b div 64"
      using split_low [of "b div 64" 4 "q * 8 + p"] c by (simp_all add: algebra_simps)
    moreover have "b mod 64 mod 2 = b mod 2" "b div 64 * 32 + b mod 64 div 2 = b div 2"
      using split_high(1) [of 2 "b div 64" 32 "b mod 64"] by (simp_all add: mod_mod_cancel)
    ultimately show ?thesis
      using 4 ih [of 1 "b mod 2" "b div 2"] ps b by (simp add: drain_pending.simps a less_mult_imp_div_less)
  next
    case 5
    have a: "(p * 256 + b) div 128 = p * 2 + b div 128" "(p * 256 + b) mod 128 = b mod 128"
      using split_high [of 128 p 2 b] by (simp_all add: mult.commute)
    have c: "b div 128 < 2" using b by simp
    have "(q * 32 + (p * 2 + b div 128)) div 2 = q * 16 + p" "(q * 32 + (p * 2 + b div 128)) mod 2 = b div 128"
      using split_low [of "b div 128" 2 "q * 16 + p"] c by (simp_all add: algebra_simps)
    moreover have "b mod 128 mod 4 = b mod 4" "b div 128 * 32 + b mod 128 div 4 = b div 4"
      using split_high(1) [of 4 "b div 128" 32 "b mod 128"] by (simp_all add: mod_mod_cancel)
    ultimately show ?thesis
      using 5 ih [of 2 "b mod 4" "b div 4"] ps b by (simp add: drain_pending.simps a less_mult_imp_div_less)
  qed
qed


lemma low_0 [simp]: "low n 0 = 0" "low 0 w = 0"
  by (simp_all add: low_def)

lemma quintet_less: "unat ((x :: 32 word) AND 31) < 32"
  using low_chunk [of 0 5 5 x] by (simp add: mask_numerals)

lemma drained_less: "drain_quintets w n = (vs, r) \<Longrightarrow> v \<in> set vs \<Longrightarrow> v < 32"
proof (induction w n arbitrary: vs rule: drain_quintets.induct)
  case (1 w n)
  note step = 1(2) [unfolded drain_quintets.simps [of w n]]
  show ?case
  proof (cases "5 \<le> n")
    case True
    then obtain us where "drain_quintets w (n - 5) = (us, r)"
        "vs = unat (drop_bit (n - 5) w AND 31) # us"
      using step by (auto split: prod.splits)
    then show ?thesis using 1(1) [OF True, of us] 1(3) quintet_less by auto
  qed (use step 1(3) in simp)
qed

lemma quintets_less: "\<forall>v \<in> set (encode_quintets w k bs). v < 32"
proof (induction bs arbitrary: w k)
  case (Cons b bs)
  then show ?case
    by (auto simp: Let_def split: prod.split dest: drained_less [OF sym])
qed (use quintet_less in simp)

lemma decode_encode_quintets:
  assumes "\<forall>b \<in> set bs. b < 256"
  shows "decode_quintets 0 0 (encode_quintets 0 0 bs) = bs"
proof -
  have e: "encode_quintets 0 0 bs = encode_pending 0 0 bs" using encode_low [of 0 bs 0] assms by simp
  show ?thesis
    using decode_low [of "encode_quintets 0 0 bs" 0 0] pending_round_trip [of 0 0 0 bs] assms quintets_less [of 0 0 bs] by (simp add: e)
qed

lemma index_alphabet: "v < 32 \<Longrightarrow> base32_index (base32_alphabet ! v) = Some v"
proof -
  have "\<forall>v \<in> set [0..<32]. base32_index (base32_alphabet ! v) = Some v" by code_simp
  then show "v < 32 \<Longrightarrow> ?thesis" by simp
qed

lemma alphabet_plain:
  "v < 32 \<Longrightarrow> \<not> js_is_space (base32_alphabet ! v) \<and> base32_alphabet ! v \<noteq> CHR ''='' \<and> js_upper [base32_alphabet ! v] = [base32_alphabet ! v]"
proof -
  have "\<forall>v \<in> set [0..<32]. \<not> js_is_space (base32_alphabet ! v) \<and> base32_alphabet ! v \<noteq> CHR ''='' \<and> js_upper [base32_alphabet ! v] = [base32_alphabet ! v]"
    by code_simp
  then show "v < 32 \<Longrightarrow> ?thesis" by simp
qed

lemma upper_alphabet: "\<forall>v \<in> set vs. v < 32 \<Longrightarrow> js_upper (map (nth base32_alphabet) vs) = map (nth base32_alphabet) vs"
  using alphabet_plain by (induction vs) (auto simp: js_upper_def)

lemma normalize_alphabet:
  assumes "\<forall>v \<in> set vs. v < 32"
  shows "base32_normalize (map (nth base32_alphabet) vs) = map (nth base32_alphabet) vs"
proof -
  have "CHR ''='' \<notin> set (map (nth base32_alphabet) vs)" using assms alphabet_plain by fastforce
  then have "strip_padding (map (nth base32_alphabet) vs) = map (nth base32_alphabet) vs" by (rule strip_padding_plain)
  moreover have "filter (\<lambda>c. \<not> js_is_space c) (map (nth base32_alphabet) vs) = map (nth base32_alphabet) vs"
    using assms alphabet_plain by (intro filter_True) auto
  ultimately show ?thesis using upper_alphabet [OF assms] by (simp only: base32_normalize_def)
qed

lemma values_alphabet: "\<forall>v \<in> set vs. v < 32 \<Longrightarrow> base32_values (map (nth base32_alphabet) vs) = Some vs"
  by (induction vs) (simp_all add: index_alphabet)


lemma encode_quintets_Nil: "encode_quintets 0 0 bs = [] \<longleftrightarrow> bs = []"
  by (cases bs) (auto simp: Let_def drain_quintets.simps split: prod.splits)

text \<open>
  Base32 secrets round trip: decoding the text that encodes a non-empty sequence of bytes gives the bytes
  back, although the shift registers of both loops overflow their 32 bits on long inputs.
\<close>
theorem base32_roundtrip:
  assumes "bs \<noteq> []" "\<forall>b \<in> set bs. b < 256"
  shows "base32_decode_to_bytes (base32_encode_bytes bs) = Some bs"
  using assms quintets_less [of 0 0 bs]
  by (simp add: base32_decode_to_bytes_def base32_encode_bytes_def normalize_alphabet values_alphabet
      decode_encode_quintets encode_quintets_Nil)

theorem base32_roundtrip_witness: "base32_decode_to_bytes (base32_encode_bytes [222, 173, 190, 239, 0, 17]) = Some [222, 173, 190, 239, 0, 17]"
  by (rule base32_roundtrip) simp_all

section \<open>Codes\<close>

lemma same_length_equal_iff: "same_length_equal left right \<longleftrightarrow> left = right"
proof -
  have "same_length_equal left right \<longleftrightarrow>
      length left = length right \<and> (\<forall>i < length left. left ! i = right ! i)"
    by (auto simp: same_length_equal_def fold_or_eq_0 nat_xor_eq_0 code_unit_inject)
  then show ?thesis by (auto intro: nth_equalityI)
qed

text \<open>The sign bit of the truncated signature is clear, so \<open>%\<close> is a remainder of a natural number.\<close>

lemma truncation_nonneg: "0 \<le> sint (truncate_signature signature)"
proof -
  have "\<not> bit (truncate_signature signature) 31"
    by (auto simp: truncate_signature_def Let_def bit_simps bit_numeral_rec)
  then show ?thesis using bit_last_iff [of "truncate_signature signature"] by simp
qed

lemma length_decimal: "0 < d \<Longrightarrow> n < 10 ^ d \<Longrightarrow> length (decimal n) \<le> d"
proof (induction n arbitrary: d rule: decimal.induct)
  case (1 n)
  show ?case
  proof (cases "n < 10")
    case False
    obtain e where "d = Suc e" using 1(2) by (cases d) auto
    moreover have "0 < e" using 1(3) False calculation by (cases e) auto
    ultimately have d: "d = Suc e" "0 < e" by simp_all
    then have "n div 10 < 10 ^ e" using 1(3) by (simp add: less_mult_imp_div_less)
    then show ?thesis using 1(1) [OF False d(2)] d(1) by (simp add: decimal.simps [of n] False)
  qed (use 1(2) in \<open>simp add: decimal.simps [of n]\<close>)
qed

text \<open>
  A code has exactly the wanted number of decimal digits, whatever the HMAC returns: for a secret that decodes and
  a counter that is a safe non-negative integer, the code is \<open>digits\<close> characters between 0 and 9; for
  any other secret or counter it is the empty text, which no presented code equals.
\<close>
theorem hotp_code_shape:
  assumes "0 < digits"
  shows "(if base32_decode_to_bytes secret \<noteq> None \<and> safe_int counter \<and> 0 \<le> counter
          then length (hotp hmac secret counter digits) = digits \<and>
               list_all (\<lambda>c. 48 \<le> code_unit c \<and> code_unit c \<le> 57) (hotp hmac secret counter digits)
          else hotp hmac secret counter digits = '''')"
proof -
  have bound: "nat (x mod 10 ^ digits) < 10 ^ digits" for x :: int
    using pos_mod_bound [of "10 ^ digits" x] by (simp add: nat_less_iff)
  have digits: "48 \<le> code_unit c \<and> code_unit c \<le> 57" if "c \<in> set (pad_start digits (CHR ''0'') (decimal n))" for c n
  proof -
    have "code_unit (CHR ''0'') = 48" by (simp add: code_unit_def)
    with that decimal_digits [of c n] show ?thesis by (auto simp: pad_start_def simp del: not_less)
  qed
  have len: "length (pad_start digits (CHR ''0'') (decimal (nat (x mod 10 ^ digits)))) = digits" for x
    using length_decimal [OF assms bound, of x] by (simp add: pad_start_def)
  show ?thesis
  proof (cases "base32_decode_to_bytes secret")
    case (Some key)
    let ?n = "nat (sint (truncate_signature (hmac key (counter_to_bytes counter))) mod 10 ^ digits)"
    obtain p where p: "p = pad_start digits (CHR ''0'') (decimal ?n)" by blast
    have "hotp hmac secret counter digits = (if safe_int counter \<and> 0 \<le> counter then p else '''')"
      unfolding p hotp_def Some option.case by (cases "safe_int counter"; cases "counter < 0") (simp_all only: simp_thms if_True if_False not_less [symmetric])
    moreover have "length p = digits" unfolding p by (rule len)
    moreover have "list_all (\<lambda>c. 48 \<le> code_unit c \<and> code_unit c \<le> 57) p"
      unfolding list_all_iff p using digits by blast
    ultimately show ?thesis using Some by auto
  qed (simp add: hotp_def)
qed

text \<open>The HMAC of RFC 4226's example of truncation, as a constant function.\<close>

definition sample_hmac :: "nat list \<Rightarrow> nat list \<Rightarrow> nat list" where
  "sample_hmac key message =
     [0x1f, 0x86, 0x98, 0x69, 0x0e, 0x02, 0xca, 0x16, 0x61, 0x85, 0x50, 0xef, 0x7f, 0x19, 0xda, 0x8e, 0x94, 0x5b, 0x55, 0x5a]"

lemma sample_secret: "\<exists>key. base32_decode_to_bytes ''JBSWY3DP'' = Some key"
proof -
  have "base32_decode_to_bytes ''JBSWY3DP'' \<noteq> None" by code_simp
  then show ?thesis by simp
qed

lemma sample_hotp:
  assumes "safe_int counter" "0 \<le> counter"
  shows "hotp sample_hmac ''JBSWY3DP'' counter 6 = ''872921''"
proof -
  have t: "sint (truncate_signature (sample_hmac key message)) = 1357872921" for key message
    by (simp add: truncate_signature_def sample_hmac_def byte_at_def Let_def)
  have "pad_start 6 (CHR ''0'') (decimal 872921) = ''872921''"
    by (simp add: pad_start_def decimal.simps char_of_def bit_Suc_0_iff)
  then show ?thesis
    using sample_secret assms by (auto simp: hotp_def t)
qed

theorem hotp_code_shape_witness: "length (hotp sample_hmac ''JBSWY3DP'' 1 6) = 6"
  using hotp_code_shape [of 6 "''JBSWY3DP''" 1 sample_hmac] sample_secret
  by (auto simp: safe_int_def max_safe_integer_def)

section \<open>The window and the replay guard\<close>

lemma scan_append:
  "\<forall>s \<in> set xs. hotp hmac secret s totp_digits \<noteq> code \<Longrightarrow>
     scan_steps hmac secret code last_accepted (xs @ ys) = scan_steps hmac secret code last_accepted ys"
  by (induction xs) (simp_all add: same_length_equal_iff)

lemma scan_Accepted:
  "scan_steps hmac secret code last_accepted steps = Accepted s \<longleftrightarrow>
     (\<exists>xs ys. steps = xs @ s # ys \<and> (\<forall>x \<in> set xs. hotp hmac secret x totp_digits \<noteq> code) \<and>
        hotp hmac secret s totp_digits = code \<and> (\<forall>l. last_accepted = Some l \<longrightarrow> l < s))"
proof (induction steps)
  case (Cons x steps)
  show ?case
  proof (cases "hotp hmac secret x totp_digits = code")
    case True
    then show ?thesis
      by (cases last_accepted) (auto simp: same_length_equal_iff not_le Cons_eq_append_conv)
  next
    case False
    let ?ok = "\<lambda>zs xs ys. zs = xs @ s # ys \<and> (\<forall>x \<in> set xs. hotp hmac secret x totp_digits \<noteq> code) \<and>
        hotp hmac secret s totp_digits = code \<and> (\<forall>l. last_accepted = Some l \<longrightarrow> l < s)"
    have "(\<exists>xs ys. ?ok (x # steps) xs ys) \<longleftrightarrow> (\<exists>xs ys. ?ok steps xs ys)"
    proof
      assume "\<exists>xs ys. ?ok (x # steps) xs ys"
      then obtain xs ys where ok: "?ok (x # steps) xs ys" by blast
      with False obtain xs' where "xs = x # xs'" by (cases xs) auto
      with ok have "?ok steps xs' ys" by auto
      then show "\<exists>xs ys. ?ok steps xs ys" by blast
    next
      assume "\<exists>xs ys. ?ok steps xs ys"
      then obtain xs ys where "?ok steps xs ys" by blast
      with False have "?ok (x # steps) (x # xs) ys" by auto
      then show "\<exists>xs ys. ?ok (x # steps) xs ys" by blast
    qed
    then show ?thesis using Cons.IH False by (simp add: same_length_equal_iff)
  qed
qed simp

text \<open>The first step of a window whose code is the presented one.\<close>

definition matching_step ::
    "(nat list \<Rightarrow> nat list \<Rightarrow> nat list) \<Rightarrow> string \<Rightarrow> string \<Rightarrow> int \<Rightarrow> int \<Rightarrow> int \<Rightarrow> bool" where
  "matching_step hmac secret code first_step last_step s \<longleftrightarrow>
     first_step \<le> s \<and> s \<le> last_step \<and> hotp hmac secret s totp_digits = code \<and>
     (\<forall>x. first_step \<le> x \<and> x < s \<longrightarrow> hotp hmac secret x totp_digits \<noteq> code)"

lemma scan_Accepted_in:
  "scan_steps hmac secret code last_accepted steps = Accepted s \<Longrightarrow>
     s \<in> set steps \<and> (case last_accepted of None \<Rightarrow> True | Some l \<Rightarrow> l < s)"
  unfolding scan_Accepted by (auto split: option.split)

lemma upto_split:
  "(\<exists>xs ys. [i..j] = xs @ s # ys \<and> (\<forall>x \<in> set xs. P x)) \<longleftrightarrow> i \<le> s \<and> s \<le> j \<and> (\<forall>x. i \<le> x \<and> x < s \<longrightarrow> P x)"
proof
  assume "\<exists>xs ys. [i..j] = xs @ s # ys \<and> (\<forall>x \<in> set xs. P x)"
  then obtain xs ys where e: "[i..j] = xs @ s # ys" and P: "\<forall>x \<in> set xs. P x" by blast
  have "s \<in> set [i..j]" using e by simp
  then have s: "i \<le> s" "s \<le> j" by simp_all
  have "P x" if "i \<le> x" "x < s" for x
  proof -
    have "x \<in> set [i..j]" using that s by simp
    moreover have "sorted (xs @ s # ys)" using e sorted_upto by metis
    ultimately have "x \<in> set xs" using that unfolding e by (auto simp: sorted_append)
    then show ?thesis using P by simp
  qed
  with s show "i \<le> s \<and> s \<le> j \<and> (\<forall>x. i \<le> x \<and> x < s \<longrightarrow> P x)" by simp
next
  assume a: "i \<le> s \<and> s \<le> j \<and> (\<forall>x. i \<le> x \<and> x < s \<longrightarrow> P x)"
  then have "[i..j] = [i..s - 1] @ s # [s + 1..j]" using upto_split3 [of i s j] by simp
  with a show "\<exists>xs ys. [i..j] = xs @ s # ys \<and> (\<forall>x \<in> set xs. P x)"
    by (intro exI [of _ "[i..s - 1]"] exI [of _ "[s + 1..j]"]) auto
qed

text \<open>
  C27. Verification accepts exactly the earliest step of the window whose code was presented, and only past the last accepted
  step. A presented text is accepted for step \<open>s\<close> iff, trimmed, it is six digits, \<open>s\<close> lies within
  one step of the current one and is not negative, the code of \<open>s\<close> is that text and no earlier step of the window
  has it, and \<open>s\<close> is greater than the last accepted step, if there is one.
\<close>
theorem totp_accepts_iff:
  "verify_totp_code hmac secret presented now last_accepted None None = Accepted s \<longleftrightarrow>
     six_digits (js_trim presented) \<and>
     matching_step hmac secret (js_trim presented) (max 0 (now div 30 - 1)) (now div 30 + 1) s \<and>
     (case last_accepted of None \<Rightarrow> True | Some l \<Rightarrow> l < s)"
proof -
  let ?code = "js_trim presented" and ?i = "max 0 (now div 30 - 1)" and ?j = "now div 30 + 1"
  have "scan_steps hmac secret ?code last_accepted [?i..?j] = Accepted s \<longleftrightarrow>
      (\<exists>xs ys. [?i..?j] = xs @ s # ys \<and> (\<forall>x \<in> set xs. hotp hmac secret x totp_digits \<noteq> ?code)) \<and>
      hotp hmac secret s totp_digits = ?code \<and> (\<forall>l. last_accepted = Some l \<longrightarrow> l < s)"
    unfolding scan_Accepted by blast
  also have "\<dots> \<longleftrightarrow> matching_step hmac secret ?code ?i ?j s \<and> (case last_accepted of None \<Rightarrow> True | Some l \<Rightarrow> l < s)"
    unfolding upto_split matching_step_def by (auto split: option.split)
  finally have scan: "scan_steps hmac secret ?code last_accepted [?i..?j] = Accepted s \<longleftrightarrow>
      matching_step hmac secret ?code ?i ?j s \<and> (case last_accepted of None \<Rightarrow> True | Some l \<Rightarrow> l < s)" .
  show ?thesis
    using scan by (simp add: verify_totp_code_def window_steps_def totp_period_seconds_def totp_window_def Let_def)
qed

lemma sample_accepts: "verify_totp_code sample_hmac ''JBSWY3DP'' '' 872921 '' 45 (Some (- 1)) None None = Accepted 0"
proof -
  have "js_trim '' 872921 '' = ''872921''" "six_digits ''872921''" by code_simp+
  then show ?thesis
    using sample_hotp [of 0]
    by (simp add: verify_totp_code_def window_steps_def totp_period_seconds_def totp_window_def Let_def
        same_length_equal_iff totp_digits_def safe_int_def max_safe_integer_def upto.simps)
qed

theorem totp_accepts_iff_witness: "matching_step sample_hmac ''JBSWY3DP'' (js_trim '' 872921 '') 0 2 0"
  using totp_accepts_iff [of sample_hmac "''JBSWY3DP''" "'' 872921 ''" 45 "Some (- 1)" 0] sample_accepts by simp

text \<open>
  A code is good for one login. Once step \<open>s\<close> has been accepted and recorded, presenting any text at any later
  time is accepted only for a strictly later step; in particular the same code inside the same window is refused.
\<close>
theorem totp_accepted_steps_increase:
  assumes "verify_totp_code hmac secret presented now last_accepted None None = Accepted s"
    and "verify_totp_code hmac secret presented' now' (Some s) None None = Accepted s'"
  shows "s < s' \<and> (case last_accepted of None \<Rightarrow> True | Some l \<Rightarrow> l < s) \<and> \<bar>s - now div 30\<bar> \<le> 1 \<and> \<bar>s' - now' div 30\<bar> \<le> 1"
proof -
  have "\<bar>t - n div 30\<bar> \<le> 1 \<and> (case l of None \<Rightarrow> True | Some l \<Rightarrow> l < t)"
    if "verify_totp_code hmac secret p n l None None = Accepted t" for p n l t
    using that by (auto simp: verify_totp_code_def window_steps_def Let_def totp_period_seconds_def
        totp_window_def split: if_splits dest!: scan_Accepted_in)
  from this [OF assms(1)] this [OF assms(2)] show ?thesis by simp
qed

theorem totp_accepted_steps_increase_witness: "(0 :: int) < 1 \<and> \<bar>1 - 75 div 30\<bar> \<le> (1 :: int)"
proof -
  have "verify_totp_code sample_hmac ''JBSWY3DP'' '' 872921 '' 75 (Some 0) None None = Accepted 1"
  proof -
    have "js_trim '' 872921 '' = ''872921''" "six_digits ''872921''" by code_simp+
    then show ?thesis
      using sample_hotp [of 0] sample_hotp [of 1]
      by (simp add: verify_totp_code_def window_steps_def totp_period_seconds_def totp_window_def Let_def
          same_length_equal_iff totp_digits_def safe_int_def max_safe_integer_def upto.simps)
  qed
  from totp_accepted_steps_increase [OF sample_accepts this] show ?thesis by simp
qed

section \<open>Sealing\<close>

text \<open>What AES-GCM promises: unsealing inverts sealing, and a sealed text is a non-empty sequence of bytes.\<close>

definition sealing ::
    "(nat list \<Rightarrow> nat list \<Rightarrow> nat list \<Rightarrow> nat list \<Rightarrow> nat list)
      \<Rightarrow> (nat list \<Rightarrow> nat list \<Rightarrow> nat list \<Rightarrow> nat list \<Rightarrow> nat list option) \<Rightarrow> bool" where
  "sealing seal unseal \<longleftrightarrow>
     (\<forall>key iv aad text. (\<forall>b \<in> set text. b < 256) \<longrightarrow>
        unseal key iv aad (seal key iv aad text) = Some text \<and>
        seal key iv aad text \<noteq> [] \<and> (\<forall>b \<in> set (seal key iv aad text). b < 256))"

text \<open>
  C28. A sealed secret opens. With any initialisation vector of twelve bytes and a wrapping secret that is not blank, opening the
  sealed text with the same wrapping secret gives the TOTP secret back, if AES-GCM decryption inverts encryption
  and \<open>TextDecoder\<close> reads the secret's own encoding.
\<close>
theorem totp_secret_roundtrip:
  assumes "sealing seal unseal" "decode (utf8_encode secret) = secret"
    and "length iv = 12" "\<forall>b \<in> set iv. b < 256" "js_trim wrapping \<noteq> ''''"
  shows "\<exists>sealed. encrypt_totp_secret seal digest iv wrapping secret = Inr sealed \<and>
     decrypt_totp_secret unseal digest decode wrapping sealed = Some secret"
proof -
  let ?key = "digest (utf8_encode wrapping)"
  let ?c = "seal ?key iv (utf8_encode secret_envelope_purpose) (utf8_encode secret)"
  let ?parts = "[''v1'', base64_url_encode_bytes iv, base64_url_encode_bytes ?c]"
  have c: "?c \<noteq> []" "\<forall>b \<in> set ?c. b < 256"
    "unseal ?key iv (utf8_encode secret_envelope_purpose) ?c = Some (utf8_encode secret)"
    using assms(1) utf8_encode_bytes unfolding sealing_def by blast+
  have key: "import_wrapping_key digest wrapping = Inr ?key"
    using assms(5) by (simp add: import_wrapping_key_def)
  have "iv \<noteq> []" using assms(3) by auto
  moreover have "js_split (CHR ''.'') (js_join (CHR ''.'') ?parts) = ?parts"
    by (rule js_split_join) (use base64_url_plain assms(4) c(2) in auto)
  ultimately show ?thesis
    using c assms(2-4) key
    by (simp add: encrypt_totp_secret_def decrypt_totp_secret_def base64_url_roundtrip base64_url_Nil)
qed

definition sample_seal :: "nat list \<Rightarrow> nat list \<Rightarrow> nat list \<Rightarrow> nat list \<Rightarrow> nat list" where
  "sample_seal key iv aad text = 0 # text"

definition sample_unseal :: "nat list \<Rightarrow> nat list \<Rightarrow> nat list \<Rightarrow> nat list \<Rightarrow> nat list option" where
  "sample_unseal key iv aad text = (case text of [] \<Rightarrow> None | b # bs \<Rightarrow> Some bs)"

theorem totp_secret_roundtrip_witness:
  "\<exists>sealed. encrypt_totp_secret sample_seal (\<lambda>bs. bs) (replicate 12 7) ''pepper'' ''JBSWY3DP'' = Inr sealed \<and>
     decrypt_totp_secret sample_unseal (\<lambda>bs. bs) (map char_of) ''pepper'' sealed = Some ''JBSWY3DP''"
proof (rule totp_secret_roundtrip)
  show "sealing sample_seal sample_unseal" by (simp add: sealing_def sample_seal_def sample_unseal_def)
  show "map char_of (utf8_encode ''JBSWY3DP'') = ''JBSWY3DP''" by code_simp
  show "js_trim ''pepper'' \<noteq> ''''" by code_simp
qed simp_all

end
