(* ===== verification/Prelogin.thy ===== *)
theory Prelogin
  imports Sessions "HOL-Library.Option_ord" "HOL-Library.Multiset"
begin

text \<open>
  Key-derivation settings before login: \<open>src/domain/prelogin.ts\<close>, the lookup \<open>findPreloginKdfContext\<close> of
  \<open>src/repositories/auth-repository.ts\<close>, the handler \<open>handlePrelogin\<close> of \<open>src/app.ts\<close>, and the table
  \<open>account_kdf_population\<close> with the triggers of \<open>migrations/0014a_kdf_population.sql\<close> that count the
  accounts of each setting. HMAC-SHA-256 is a parameter.
\<close>

section \<open>Addresses\<close>

definition normalize_email :: "string \<Rightarrow> string option" where
  "normalize_email value =
     (let normalized = js_lower (js_trim value)
      in if normalized = '''' \<or> starts_with normalized ''@'' \<or> ends_with normalized ''@'' \<or> CHR ''@'' \<notin> set normalized
         then None else Some normalized)"

text \<open>
  \<open>split(/[,\s]+/)\<close> up to empty parts, which \<open>normalizeEmail\<close> drops.
\<close>

fun split_list :: "string \<Rightarrow> string list" where
  "split_list [] = [[]]"
| "split_list (c # s) =
     (if c = CHR '','' \<or> js_is_space c then [] # split_list s
      else (case split_list s of [] \<Rightarrow> [[c]] | p # ps \<Rightarrow> (c # p) # ps))"

definition parse_allowed_emails :: "string option \<Rightarrow> string list" where
  "parse_allowed_emails value =
     List.map_filter normalize_email (split_list (case value of None \<Rightarrow> '''' | Some s \<Rightarrow> s))"

datatype prelogin_decision = PreloginAllowed | InvalidPrelogin | PreloginNotAllowed

definition resolve_prelogin :: "json \<Rightarrow> string option \<Rightarrow> bool \<Rightarrow> prelogin_decision" where
  "resolve_prelogin body allowed existing_account =
     (case as_record body of
        None \<Rightarrow> InvalidPrelogin
      | Some obj \<Rightarrow>
          (case as_string (jprop obj ''email'') of
             None \<Rightarrow> InvalidPrelogin
           | Some email \<Rightarrow>
               (case normalize_email email of
                  None \<Rightarrow> InvalidPrelogin
                | Some normalized \<Rightarrow>
                    if \<not> existing_account \<and> normalized \<notin> set (parse_allowed_emails allowed)
                    then PreloginNotAllowed else PreloginAllowed)))"

section \<open>The population of settings\<close>

type_synonym kdf_key = "string \<times> int \<times> int \<times> bool \<times> int \<times> bool"

definition coalesce0 :: "int option \<Rightarrow> int" where
  "coalesce0 n = (case n of None \<Rightarrow> 0 | Some x \<Rightarrow> x)"

definition user_kdf_key :: "user_row \<Rightarrow> kdf_key" where
  "user_kdf_key u =
     (u_kdf_algorithm u, u_kdf_iterations u, coalesce0 (u_kdf_memory u), u_kdf_memory u = None,
      coalesce0 (u_kdf_parallelism u), u_kdf_parallelism u = None)"

definition row_kdf_key :: "kdf_population_row \<Rightarrow> kdf_key" where
  "row_kdf_key r =
     (kp_algorithm r, kp_iterations r, kp_memory r, kp_memory_is_null r, kp_parallelism r, kp_parallelism_is_null r)"

text \<open>The INSERT ... ON CONFLICT DO UPDATE of the insert and update triggers.\<close>

definition population_add :: "user_row \<Rightarrow> kdf_population_row list \<Rightarrow> kdf_population_row list" where
  "population_add u t =
     (if sql_exists (\<lambda>r. row_kdf_key r = user_kdf_key u) t
      then sql_update (\<lambda>r. row_kdf_key r = user_kdf_key u) (\<lambda>r. r\<lparr>kp_account_count := kp_account_count r + 1\<rparr>) t
      else t @ [\<lparr>kp_algorithm = u_kdf_algorithm u, kp_iterations = u_kdf_iterations u,
                 kp_memory = coalesce0 (u_kdf_memory u), kp_memory_is_null = (u_kdf_memory u = None),
                 kp_parallelism = coalesce0 (u_kdf_parallelism u),
                 kp_parallelism_is_null = (u_kdf_parallelism u = None), kp_account_count = 1\<rparr>])"

text \<open>The RAISE, DELETE and UPDATE of the delete and update triggers.\<close>

definition population_remove ::
    "string \<Rightarrow> user_row \<Rightarrow> kdf_population_row list \<Rightarrow> js_error + kdf_population_row list" where
  "population_remove message u t =
     (if \<not> sql_exists (\<lambda>r. row_kdf_key r = user_kdf_key u) t then Inl (JsError message)
      else Inr (sql_update (\<lambda>r. row_kdf_key r = user_kdf_key u \<and> kp_account_count r > 1)
                  (\<lambda>r. r\<lparr>kp_account_count := kp_account_count r - 1\<rparr>)
                  (sql_delete (\<lambda>r. row_kdf_key r = user_kdf_key u \<and> kp_account_count r = 1) t)))"

text \<open>\<open>INSERT OR IGNORE INTO users\<close>, \<open>UPDATE users\<close> and \<open>DELETE FROM users\<close>, each firing its trigger per row.\<close>

definition user_conflict :: "user_row \<Rightarrow> database \<Rightarrow> bool" where
  "user_conflict u db \<longleftrightarrow> sql_exists (\<lambda>r. u_id r = u_id u \<or> u_email_normalized r = u_email_normalized u) (users db)"

definition insert_or_ignore_user :: "user_row \<Rightarrow> database stmt" where
  "insert_or_ignore_user u db prev =
     (if user_conflict u db then Inr (db, 0)
      else Inr (db\<lparr>users := users db @ [u], account_kdf_population := population_add u (account_kdf_population db)\<rparr>, 1))"

fun replace_users ::
    "(user_row \<Rightarrow> bool) \<Rightarrow> (user_row \<Rightarrow> user_row) \<Rightarrow> user_row list \<Rightarrow> kdf_population_row list
      \<Rightarrow> js_error + (user_row list \<times> kdf_population_row list)" where
  "replace_users p f [] t = Inr ([], t)"
| "replace_users p f (u # us) t =
     (let changed = p u \<and> user_kdf_key (f u) \<noteq> user_kdf_key u
      in and_then (if changed then population_remove ''missing old KDF population during user update'' u t else Inr t)
           (\<lambda>t1. and_then (replace_users p f us (if changed then population_add (f u) t1 else t1))
             (\<lambda>(us', t'). Inr ((if p u then f u else u) # us', t'))))"

definition update_users :: "(user_row \<Rightarrow> bool) \<Rightarrow> (user_row \<Rightarrow> user_row) \<Rightarrow> database stmt" where
  "update_users p f db prev =
     and_then (replace_users p f (users db) (account_kdf_population db))
       (\<lambda>(us, t). Inr (db\<lparr>users := us, account_kdf_population := t\<rparr>, sql_count p (users db)))"

fun remove_users ::
    "(user_row \<Rightarrow> bool) \<Rightarrow> user_row list \<Rightarrow> kdf_population_row list
      \<Rightarrow> js_error + (user_row list \<times> kdf_population_row list)" where
  "remove_users p [] t = Inr ([], t)"
| "remove_users p (u # us) t =
     and_then (if p u then population_remove ''missing old KDF population during user delete'' u t else Inr t)
       (\<lambda>t1. and_then (remove_users p us t1) (\<lambda>(us', t'). Inr ((if p u then us' else u # us'), t')))"

definition delete_users :: "(user_row \<Rightarrow> bool) \<Rightarrow> database stmt" where
  "delete_users p db prev =
     and_then (remove_users p (users db) (account_kdf_population db))
       (\<lambda>(us, t). Inr (db\<lparr>users := us, account_kdf_population := t\<rparr>, sql_count p (users db)))"

section \<open>The lookup\<close>

definition prelogin_pbkdf2_iterations :: range where
  "prelogin_pbkdf2_iterations = (5000, snd pbkdf2_iterations)"

record kdf_distribution_entry =
  ke_kdf_algorithm :: string
  ke_kdf_iterations :: int
  ke_kdf_memory :: "int option"
  ke_kdf_parallelism :: "int option"
  ke_account_count :: int

record prelogin_kdf_context =
  pc_target :: "credential_generation option"
  pc_distribution :: "kdf_distribution_entry list"

definition valid_population_row :: "kdf_population_row \<Rightarrow> bool" where
  "valid_population_row r \<longleftrightarrow>
     kp_algorithm r = ''pbkdf2-sha256'' \<and> inside_range (kp_iterations r) prelogin_pbkdf2_iterations \<and>
       kp_memory_is_null r \<and> kp_parallelism_is_null r \<or>
     kp_algorithm r = ''argon2id'' \<and> inside_range (kp_iterations r) argon2_iterations \<and>
       \<not> kp_memory_is_null r \<and> inside_range (kp_memory r) argon2_memory \<and>
       \<not> kp_parallelism_is_null r \<and> inside_range (kp_parallelism r) argon2_parallelism"

definition distribution_entry :: "kdf_population_row \<Rightarrow> kdf_distribution_entry" where
  "distribution_entry r =
     \<lparr>ke_kdf_algorithm = kp_algorithm r, ke_kdf_iterations = kp_iterations r,
      ke_kdf_memory = (if kp_memory_is_null r then None else Some (kp_memory r)),
      ke_kdf_parallelism = (if kp_parallelism_is_null r then None else Some (kp_parallelism r)),
      ke_account_count = kp_account_count r\<rparr>"

definition find_prelogin_kdf_context :: "string \<Rightarrow> database \<Rightarrow> prelogin_kdf_context" where
  "find_prelogin_kdf_context email db =
     \<lparr>pc_target = map_option (\<lambda>u. \<lparr>g_email_normalized = u_email_normalized u, g_kdf_algorithm = u_kdf_algorithm u,
          g_kdf_iterations = u_kdf_iterations u, g_kdf_memory = u_kdf_memory u,
          g_kdf_parallelism = u_kdf_parallelism u\<rparr>)
        (sql_first (\<lambda>u. u_email_normalized u = email) (users db)),
      pc_distribution =
        sort_key ke_kdf_algorithm (sort_key ke_kdf_iterations (sort_key ke_kdf_memory (sort_key ke_kdf_parallelism
          (map distribution_entry (filter valid_population_row (account_kdf_population db))))))\<rparr>"

section \<open>The response\<close>

definition client_readable_prelogin_kdf :: "credential_generation \<Rightarrow> account_kdf option" where
  "client_readable_prelogin_kdf g =
     (case kdf_from_stored_generation g of
        None \<Rightarrow> None
      | Some k \<Rightarrow>
          (case kdf_type k of
             Pbkdf2 \<Rightarrow> if inside_range (kdf_iterations k) prelogin_pbkdf2_iterations then Some k else None
           | Argon2id \<Rightarrow>
               (case (kdf_memory k, kdf_parallelism k) of
                  (Some m, Some p) \<Rightarrow>
                    if inside_range (kdf_iterations k) argon2_iterations \<and> inside_range m argon2_memory \<and>
                       inside_range p argon2_parallelism then Some k else None
                | _ \<Rightarrow> None)))"

definition serialize_kdf :: "account_kdf \<Rightarrow> string" where
  "serialize_kdf k =
     js_join (CHR '':'')
       [int_text (case kdf_type k of Pbkdf2 \<Rightarrow> 0 | Argon2id \<Rightarrow> 1), int_text (kdf_iterations k),
        (case kdf_memory k of None \<Rightarrow> '''' | Some m \<Rightarrow> int_text m),
        (case kdf_parallelism k of None \<Rightarrow> '''' | Some p \<Rightarrow> int_text p)]"

type_synonym weighted_kdf = "account_kdf \<times> int"

text \<open>One turn of the loop of \<open>normalizeStoredKdfDistribution\<close>: the map in insertion order and the sum of the counts.\<close>

definition count_entry :: "kdf_distribution_entry \<Rightarrow> weighted_kdf list \<times> int \<Rightarrow> weighted_kdf list \<times> int" where
  "count_entry e st =
     (case st of (by_kdf, account_sum) \<Rightarrow>
       (case client_readable_prelogin_kdf
               \<lparr>g_email_normalized = ''distribution@invalid.example'', g_kdf_algorithm = ke_kdf_algorithm e,
                g_kdf_iterations = ke_kdf_iterations e, g_kdf_memory = ke_kdf_memory e,
                g_kdf_parallelism = ke_kdf_parallelism e\<rparr> of
          None \<Rightarrow> st
        | Some k \<Rightarrow>
            if \<not> safe_int (ke_account_count e) \<or> ke_account_count e < 1 \<or> \<not> safe_int (account_sum + ke_account_count e) then st
            else (case find (\<lambda>w. serialize_kdf (fst w) = serialize_kdf k) by_kdf of
                    Some w \<Rightarrow>
                      if \<not> safe_int (snd w + ke_account_count e) then st
                      else (map (\<lambda>v. if serialize_kdf (fst v) = serialize_kdf k then (fst v, snd v + ke_account_count e) else v)
                              by_kdf, account_sum + ke_account_count e)
                  | None \<Rightarrow> (by_kdf @ [(k, ke_account_count e)], account_sum + ke_account_count e))))"

definition normalize_stored_kdf_distribution :: "kdf_distribution_entry list \<Rightarrow> weighted_kdf list" where
  "normalize_stored_kdf_distribution entries =
     sort_key (\<lambda>w. serialize_kdf (fst w)) (fst (fold count_entry entries ([], 0)))"

definition default_account_kdf :: account_kdf where
  "default_account_kdf = \<lparr>kdf_type = Pbkdf2, kdf_iterations = 600000, kdf_memory = None, kdf_parallelism = None\<rparr>"

fun select_weighted :: "int \<Rightarrow> weighted_kdf list \<Rightarrow> account_kdf option" where
  "select_weighted selected [] = None"
| "select_weighted selected ((k, n) # ws) = (if selected < n then Some k else select_weighted (selected - n) ws)"

text \<open>\<open>getBigUint64(0, false)\<close>: the first eight bytes, the first the highest.\<close>

definition big_uint64 :: "nat list \<Rightarrow> int" where
  "big_uint64 bs = fold (\<lambda>b n. n * 256 + int b) (take 8 bs) 0"

definition derive_synthetic_kdf ::
    "(nat list \<Rightarrow> nat list \<Rightarrow> nat list) \<Rightarrow> string \<Rightarrow> string \<Rightarrow> weighted_kdf list \<Rightarrow> js_error + account_kdf" where
  "derive_synthetic_kdf hmac email secret distribution =
     (let digest = hmac (utf8_encode secret) (utf8_encode (''honowarden:prelogin-kdf:v3:'' @ email));
          account_sum = sum_list (map snd distribution)
      in case select_weighted (big_uint64 digest mod account_sum) distribution of
           Some k \<Rightarrow> Inr k
         | None \<Rightarrow> Inl (JsError ''prelogin KDF distribution selection failed''))"

record prelogin_kdf_response =
  pr_kdf :: account_kdf
  pr_salt :: string

definition build_prelogin_kdf_response ::
    "(nat list \<Rightarrow> nat list \<Rightarrow> nat list) \<Rightarrow> string \<Rightarrow> prelogin_kdf_context \<Rightarrow> string
      \<Rightarrow> js_error + prelogin_kdf_response option" where
  "build_prelogin_kdf_response hmac email context secret =
     (if (case pc_target context of None \<Rightarrow> False | Some g \<Rightarrow> g_email_normalized g \<noteq> email) then Inr None
      else
        let distribution = normalize_stored_kdf_distribution (pc_distribution context);
            target = Option.bind (pc_target context) client_readable_prelogin_kdf
        in if pc_target context \<noteq> None \<and> target = None \<or>
              (case target of None \<Rightarrow> False
               | Some k \<Rightarrow> \<not> list_ex (\<lambda>w. serialize_kdf (fst w) = serialize_kdf k) distribution)
           then Inr None
           else and_then (derive_synthetic_kdf hmac email secret
                    (if distribution \<noteq> [] then distribution else [(default_account_kdf, 1)]))
                  (\<lambda>synthetic. Inr (Some \<lparr>pr_kdf = (case target of Some k \<Rightarrow> k | None \<Rightarrow> synthetic), pr_salt = email\<rparr>)))"

datatype prelogin_reply =
    Settings prelogin_kdf_response
  | PreloginInvalidRequest
  | PreloginForbidden
  | PreloginMisconfigured
  | PreloginUnavailable

definition handle_prelogin ::
    "(nat list \<Rightarrow> nat list \<Rightarrow> nat list) \<Rightarrow> string option \<Rightarrow> string option \<Rightarrow> json \<Rightarrow> database \<Rightarrow> prelogin_reply" where
  "handle_prelogin hmac allowed token_secret body db =
     (let has_secret = (case token_secret of None \<Rightarrow> False | Some s \<Rightarrow> js_trim s \<noteq> '''');
          decision = resolve_prelogin body allowed False
      in if decision = InvalidPrelogin then PreloginInvalidRequest
         else if decision = PreloginAllowed \<and> \<not> has_secret then PreloginMisconfigured
         else
           (case Option.bind (Option.bind (as_record body) (\<lambda>obj. as_string (jprop obj ''email''))) normalize_email of
              None \<Rightarrow> PreloginInvalidRequest
            | Some email \<Rightarrow>
                let context = find_prelogin_kdf_context email db
                in (case resolve_prelogin body allowed (pc_target context \<noteq> None) of
                      InvalidPrelogin \<Rightarrow> PreloginInvalidRequest
                    | PreloginNotAllowed \<Rightarrow> PreloginForbidden
                    | PreloginAllowed \<Rightarrow>
                        if \<not> has_secret then PreloginMisconfigured
                        else (case build_prelogin_kdf_response hmac email context (the token_secret) of
                                Inr (Some response) \<Rightarrow> Settings response
                              | _ \<Rightarrow> PreloginUnavailable))))"

section \<open>The triggers count the accounts\<close>

definition population_is :: "(kdf_key \<Rightarrow> nat) \<Rightarrow> kdf_population_row list \<Rightarrow> bool" where
  "population_is c t \<longleftrightarrow>
     distinct (map row_kdf_key t) \<and>
     (\<forall>r \<in> set t. 0 < c (row_kdf_key r) \<and> kp_account_count r = int (c (row_kdf_key r))) \<and>
     (\<forall>k. 0 < c k \<longrightarrow> k \<in> row_kdf_key ` set t)"

definition users_with :: "kdf_key \<Rightarrow> user_row list \<Rightarrow> nat" where
  "users_with k us = sql_count (\<lambda>u. user_kdf_key u = k) us"

lemma users_with_simps [simp]:
  "users_with k [] = 0"
  "users_with k (u # us) = (if user_kdf_key u = k then 1 else 0) + users_with k us"
  "users_with k (us @ vs) = users_with k us + users_with k vs"
  by (simp_all add: users_with_def sql_count_def)

lemma row_key_count [simp]: "row_kdf_key (r\<lparr>kp_account_count := n\<rparr>) = row_kdf_key r"
  by (simp add: row_kdf_key_def)

lemma population_isD:
  assumes "population_is c t"
  shows "distinct (map row_kdf_key t)"
    and "r \<in> set t \<Longrightarrow> 0 < c (row_kdf_key r) \<and> kp_account_count r = int (c (row_kdf_key r))"
    and "0 < c k \<Longrightarrow> k \<in> row_kdf_key ` set t"
  using assms unfolding population_is_def by blast+

lemma population_isI:
  assumes "distinct (map row_kdf_key t)"
    and "\<And>r. r \<in> set t \<Longrightarrow> 0 < c (row_kdf_key r) \<and> kp_account_count r = int (c (row_kdf_key r))"
    and "\<And>k. 0 < c k \<Longrightarrow> k \<in> row_kdf_key ` set t"
  shows "population_is c t"
  using assms unfolding population_is_def by blast

lemma population_add_is:
  assumes "population_is c t"
  shows "population_is (\<lambda>k. c k + (if user_kdf_key u = k then 1 else 0)) (population_add u t)"
proof (cases "sql_exists (\<lambda>r. row_kdf_key r = user_kdf_key u) t")
  case True
  have map_keys: "map row_kdf_key (population_add u t) = map row_kdf_key t"
    unfolding population_add_def using True by (simp add: sql_update_key)
  have keys: "row_kdf_key ` set (population_add u t) = row_kdf_key ` set t"
    by (simp only: set_map [symmetric] map_keys)
  have old: "0 < c (user_kdf_key u)"
  proof -
    from True obtain r where "r \<in> set t" "row_kdf_key r = user_kdf_key u" by (auto simp: sql_exists_iff)
    then show ?thesis using population_isD(2) [OF assms, of r] by simp
  qed
  show ?thesis
  proof (rule population_isI)
    show "distinct (map row_kdf_key (population_add u t))" using population_isD(1) [OF assms] map_keys by simp
    show "k \<in> row_kdf_key ` set (population_add u t)" if "0 < c k + (if user_kdf_key u = k then 1 else 0)" for k
      unfolding keys using that old by (intro population_isD(3) [OF assms]) (auto split: if_splits)
    fix r assume "r \<in> set (population_add u t)"
    then obtain q where "q \<in> set t" "r = (if row_kdf_key q = user_kdf_key u then q\<lparr>kp_account_count := kp_account_count q + 1\<rparr> else q)"
      using True by (auto simp: population_add_def set_sql_update)
    then show "0 < c (row_kdf_key r) + (if user_kdf_key u = row_kdf_key r then 1 else 0) \<and>
        kp_account_count r = int (c (row_kdf_key r) + (if user_kdf_key u = row_kdf_key r then 1 else 0))"
      using population_isD(2) [OF assms, of q] by auto
  qed
next
  case False
  let ?r = "\<lparr>kp_algorithm = u_kdf_algorithm u, kp_iterations = u_kdf_iterations u,
      kp_memory = coalesce0 (u_kdf_memory u), kp_memory_is_null = (u_kdf_memory u = None),
      kp_parallelism = coalesce0 (u_kdf_parallelism u), kp_parallelism_is_null = (u_kdf_parallelism u = None),
      kp_account_count = 1\<rparr>"
  have r: "row_kdf_key ?r = user_kdf_key u" by (simp add: row_kdf_key_def user_kdf_key_def)
  have t: "population_add u t = t @ [?r]" using False by (simp add: population_add_def)
  have fresh: "row_kdf_key q \<noteq> user_kdf_key u" if "q \<in> set t" for q
    using False that by (auto simp: sql_exists_iff)
  then have nin: "user_kdf_key u \<notin> row_kdf_key ` set t" by (metis imageE)
  then have new: "c (user_kdf_key u) = 0" using population_isD(3) [OF assms, of "user_kdf_key u"] by blast
  show ?thesis
    unfolding t
  proof (rule population_isI)
    show "distinct (map row_kdf_key (t @ [?r]))" using population_isD(1) [OF assms] r nin by simp
    show "k \<in> row_kdf_key ` set (t @ [?r])" if "0 < c k + (if user_kdf_key u = k then 1 else 0)" for k
      using that population_isD(3) [OF assms, of k] r by (cases "user_kdf_key u = k") auto
    fix q assume "q \<in> set (t @ [?r])"
    then consider "q \<in> set t" | "q = ?r" by auto
    then show "0 < c (row_kdf_key q) + (if user_kdf_key u = row_kdf_key q then 1 else 0) \<and>
        kp_account_count q = int (c (row_kdf_key q) + (if user_kdf_key u = row_kdf_key q then 1 else 0))"
    proof cases
      case 1
      then show ?thesis using population_isD(2) [OF assms 1] fresh [OF 1] by simp
    next
      case 2
      have "kp_account_count ?r = 1" by simp
      then show ?thesis unfolding 2 r new by simp
    qed
  qed
qed

lemma population_remove_is:
  assumes "population_is (\<lambda>k. c k + (if user_kdf_key u = k then 1 else 0)) t"
  shows "\<exists>t'. population_remove m u t = Inr t' \<and> population_is c t'"
proof -
  let ?k = "user_kdf_key u"
  have in_t: "?k \<in> row_kdf_key ` set t" by (rule population_isD(3) [OF assms]) simp
  then have ex: "sql_exists (\<lambda>r. row_kdf_key r = ?k) t" by (auto simp: sql_exists_iff)
  note row = population_isD(2) [OF assms]
  let ?d = "sql_delete (\<lambda>r. row_kdf_key r = ?k \<and> kp_account_count r = 1) t"
  let ?t = "sql_update (\<lambda>r. row_kdf_key r = ?k \<and> kp_account_count r > 1) (\<lambda>r. r\<lparr>kp_account_count := kp_account_count r - 1\<rparr>) ?d"
  have keys: "map row_kdf_key ?t = map row_kdf_key ?d" by (rule sql_update_key) simp
  have "population_is c ?t"
  proof (rule population_isI)
    show "distinct (map row_kdf_key ?t)"
      unfolding keys by (rule distinct_key_sql_delete [OF population_isD(1) [OF assms]])
    fix r assume "r \<in> set ?t"
    then obtain q where q: "q \<in> set t" "\<not> (row_kdf_key q = ?k \<and> kp_account_count q = 1)"
      "r = (if row_kdf_key q = ?k \<and> kp_account_count q > 1 then q\<lparr>kp_account_count := kp_account_count q - 1\<rparr> else q)"
      by (auto simp: set_sql_update set_sql_delete)
    then show "0 < c (row_kdf_key r) \<and> kp_account_count r = int (c (row_kdf_key r))"
      using row [OF q(1)] by (cases "row_kdf_key q = ?k") auto
  next
    fix k assume k: "0 < c k"
    then obtain r where r: "r \<in> set t" "row_kdf_key r = k"
      using population_isD(3) [OF assms, of k] by (auto split: if_splits)
    have "kp_account_count r \<noteq> 1" if "k = ?k" using row [OF r(1)] r(2) that k by simp
    with r have "r \<in> set ?d" by (auto simp: set_sql_delete)
    then have "k \<in> set (map row_kdf_key ?d)" using r(2) by force
    then show "k \<in> row_kdf_key ` set ?t" by (simp only: keys [symmetric] set_map)
  qed
  then show ?thesis using ex by (simp add: population_remove_def)
qed

lemma replace_users_is:
  assumes "population_is (\<lambda>k. d k + users_with k us) t"
  shows "\<exists>t'. replace_users p f us t = Inr (sql_update p f us, t') \<and>
     population_is (\<lambda>k. d k + users_with k (sql_update p f us)) t'"
  using assms
proof (induction us arbitrary: d t)
  case (Cons u us)
  show ?case
  proof (cases "p u \<and> user_kdf_key (f u) \<noteq> user_kdf_key u")
    case True
    have "population_is (\<lambda>k. (d k + users_with k us) + (if user_kdf_key u = k then 1 else 0)) t"
      using Cons.prems by (simp add: ac_simps)
    from population_remove_is [OF this, of "''missing old KDF population during user update''"] obtain t1 where
      t1: "population_remove ''missing old KDF population during user update'' u t = Inr t1"
      "population_is (\<lambda>k. d k + users_with k us) t1" by blast
    from population_add_is [OF t1(2), of "f u"]
    have "population_is (\<lambda>k. (d k + (if user_kdf_key (f u) = k then 1 else 0)) + users_with k us) (population_add (f u) t1)"
      by (simp add: ac_simps)
    from Cons.IH [OF this] obtain t2 where
      "replace_users p f us (population_add (f u) t1) = Inr (sql_update p f us, t2)"
      "population_is (\<lambda>k. (d k + (if user_kdf_key (f u) = k then 1 else 0)) + users_with k (sql_update p f us)) t2" by blast
    then show ?thesis using t1(1) True by (auto simp: sql_update_def ac_simps)
  next
    case False
    then have key: "user_kdf_key (if p u then f u else u) = user_kdf_key u" by auto
    have "population_is (\<lambda>k. (d k + (if user_kdf_key u = k then 1 else 0)) + users_with k us) t"
      using Cons.prems by (simp add: ac_simps)
    from Cons.IH [OF this] obtain t2 where
      "replace_users p f us t = Inr (sql_update p f us, t2)"
      "population_is (\<lambda>k. (d k + (if user_kdf_key u = k then 1 else 0)) + users_with k (sql_update p f us)) t2" by blast
    then show ?thesis using False key by (auto simp: sql_update_def ac_simps)
  qed
qed (simp add: sql_update_def)

lemma remove_users_is:
  assumes "population_is (\<lambda>k. d k + users_with k us) t"
  shows "\<exists>t'. remove_users p us t = Inr (sql_delete p us, t') \<and> population_is (\<lambda>k. d k + users_with k (sql_delete p us)) t'"
  using assms
proof (induction us arbitrary: d t)
  case (Cons u us)
  show ?case
  proof (cases "p u")
    case True
    have "population_is (\<lambda>k. (d k + users_with k us) + (if user_kdf_key u = k then 1 else 0)) t"
      using Cons.prems by (simp add: ac_simps)
    from population_remove_is [OF this, of "''missing old KDF population during user delete''"] obtain t1 where
      "population_remove ''missing old KDF population during user delete'' u t = Inr t1"
      "population_is (\<lambda>k. d k + users_with k us) t1" by blast
    with Cons.IH [of d t1] True show ?thesis by (auto simp: sql_delete_def)
  next
    case False
    have "population_is (\<lambda>k. (d k + (if user_kdf_key u = k then 1 else 0)) + users_with k us) t"
      using Cons.prems by (simp add: ac_simps)
    from Cons.IH [OF this] False show ?thesis by (auto simp: sql_delete_def ac_simps)
  qed
qed (simp add: sql_delete_def)

text \<open>Any history of statements on \<open>users\<close>.\<close>

inductive user_run :: "database \<Rightarrow> database \<Rightarrow> bool" where
  start: "user_run db db"
| insert: "user_run db0 db \<Longrightarrow> insert_or_ignore_user u db prev = Inr (db', n) \<Longrightarrow> user_run db0 db'"
| update: "user_run db0 db \<Longrightarrow> update_users p f db prev = Inr (db', n) \<Longrightarrow> user_run db0 db'"
| delete: "user_run db0 db \<Longrightarrow> delete_users p db prev = Inr (db', n) \<Longrightarrow> user_run db0 db'"

definition population_ok :: "database \<Rightarrow> bool" where
  "population_ok db \<longleftrightarrow> population_is (\<lambda>k. users_with k (users db)) (account_kdf_population db)"

lemma population_ok_insert:
  "population_ok db \<Longrightarrow> insert_or_ignore_user u db prev = Inr (db', n) \<Longrightarrow> population_ok db'"
  using population_add_is [of "\<lambda>k. users_with k (users db)" "account_kdf_population db" u]
  by (auto simp: population_ok_def insert_or_ignore_user_def split: if_splits)

lemma update_users_ok:
  assumes "population_ok db"
  shows "\<exists>t. update_users p f db prev =
      Inr (db\<lparr>users := sql_update p f (users db), account_kdf_population := t\<rparr>, sql_count p (users db)) \<and>
    population_is (\<lambda>k. users_with k (sql_update p f (users db))) t"
  using replace_users_is [of "\<lambda>k. 0" "users db" "account_kdf_population db" p f] assms
  by (auto simp: population_ok_def update_users_def)

lemma delete_users_ok:
  assumes "population_ok db"
  shows "\<exists>t. delete_users p db prev =
      Inr (db\<lparr>users := sql_delete p (users db), account_kdf_population := t\<rparr>, sql_count p (users db)) \<and>
    population_is (\<lambda>k. users_with k (sql_delete p (users db))) t"
  using remove_users_is [of "\<lambda>k. 0" "users db" "account_kdf_population db" p] assms
  by (auto simp: population_ok_def delete_users_def)

lemma user_run_ok: "user_run db0 db \<Longrightarrow> population_ok db0 \<Longrightarrow> population_ok db"
proof (induction rule: user_run.induct)
  case (insert db0 db u prev db' n)
  then show ?case using population_ok_insert by blast
next
  case (update db0 db p f prev db' n)
  then show ?case using update_users_ok [of db p f prev] by (auto simp: population_ok_def)
next
  case (delete db0 db p prev db' n)
  then show ?case using delete_users_ok [of db p prev] by (auto simp: population_ok_def)
qed

text \<open>
  C29. The population table counts the accounts. From empty tables, after any sequence of inserts, updates and deletes of users with their
  triggers, the count stored for a setting is the number of accounts that have it (0 when it has no row), and no
  later update or delete of users can be aborted by a trigger.
\<close>
theorem kdf_population_counts_accounts:
  assumes "user_run db0 db" "users db0 = []" "account_kdf_population db0 = []"
  shows "(case sql_first (\<lambda>r. row_kdf_key r = k) (account_kdf_population db) of
            None \<Rightarrow> 0 | Some r \<Rightarrow> kp_account_count r) = int (sql_count (\<lambda>u. user_kdf_key u = k) (users db)) \<and>
         (\<exists>db' n. update_users p f db prev = Inr (db', n)) \<and> (\<exists>db' n. delete_users p db prev = Inr (db', n))"
proof -
  have "population_ok db0" using assms(2,3) by (simp add: population_ok_def population_is_def)
  with user_run_ok [OF assms(1)] have ok: "population_ok db" by blast
  then have counted: "population_is (\<lambda>k. users_with k (users db)) (account_kdf_population db)" by (simp add: population_ok_def)
  have "(case sql_first (\<lambda>r. row_kdf_key r = k) (account_kdf_population db) of
            None \<Rightarrow> 0 | Some r \<Rightarrow> kp_account_count r) = int (users_with k (users db))"
  proof (cases "sql_first (\<lambda>r. row_kdf_key r = k) (account_kdf_population db)")
    case None
    then have "k \<notin> row_kdf_key ` set (account_kdf_population db)" unfolding sql_first_None by (metis imageE)
    then show ?thesis using population_isD(3) [OF counted, of k] None by (cases "users_with k (users db)") simp_all
  next
    case (Some r)
    then show ?thesis using population_isD(2) [OF counted, of r] sql_first_SomeD [OF Some] by simp
  qed
  then show ?thesis
    using update_users_ok [OF ok, of p f prev] delete_users_ok [OF ok, of p prev] by (auto simp: users_with_def)
qed

section \<open>Weighing the population\<close>

definition entry_kdf :: "kdf_distribution_entry \<Rightarrow> account_kdf option" where
  "entry_kdf e = client_readable_prelogin_kdf
     \<lparr>g_email_normalized = ''distribution@invalid.example'', g_kdf_algorithm = ke_kdf_algorithm e,
      g_kdf_iterations = ke_kdf_iterations e, g_kdf_memory = ke_kdf_memory e, g_kdf_parallelism = ke_kdf_parallelism e\<rparr>"

text \<open>The state of the loop after the settings \<open>seen\<close>.\<close>

definition weighed :: "account_kdf set \<Rightarrow> weighted_kdf list \<times> int \<Rightarrow> bool" where
  "weighed seen st \<longleftrightarrow>
     (case st of (ws, n) \<Rightarrow> sum_list (map snd ws) = n \<and> (\<forall>w \<in> set ws. 1 \<le> snd w \<and> fst w \<in> seen) \<and>
        (\<forall>k \<in> seen. serialize_kdf k \<in> set (map (\<lambda>w. serialize_kdf (fst w)) ws)) \<and>
        distinct (map (\<lambda>w. serialize_kdf (fst w)) ws))"

lemma weight_le_sum: "\<forall>w \<in> set ws. 0 \<le> snd w \<Longrightarrow> w \<in> set ws \<Longrightarrow> snd w \<le> sum_list (map snd (ws :: weighted_kdf list))"
proof (induction ws)
  case (Cons v ws)
  have "0 \<le> sum_list (map snd ws)" using Cons.prems(1) by (intro sum_list_nonneg) auto
  then show ?case using Cons by auto
qed simp

lemma sum_add_one:
  assumes "distinct (map key ws)" "w \<in> set ws" "key w = s"
  shows "sum_list (map snd (map (\<lambda>v. if key v = s then (fst v, snd v + n) else v) ws)) = sum_list (map snd ws) + (n :: int)"
  using assms
proof (induction ws)
  case (Cons v ws)
  show ?case
  proof (cases "v = w")
    case True
    have "map (\<lambda>v. if key v = s then (fst v, snd v + n) else v) ws = ws"
    proof (rule map_idI)
      fix x assume "x \<in> set ws"
      then have "key x \<noteq> s" using Cons.prems True by (metis distinct.simps(2) image_eqI list.simps(9) set_map)
      then show "(if key x = s then (fst x, snd x + n) else x) = x" by simp
    qed
    then show ?thesis using True Cons.prems by simp
  next
    case False
    then have "w \<in> set ws" "key v \<noteq> s" using Cons.prems by auto
    then show ?thesis using Cons by simp
  qed
qed simp

lemma weighed_step:
  assumes "weighed seen (ws, n)" "1 \<le> ke_account_count e" "0 \<le> n" "n + ke_account_count e \<le> max_safe_integer"
  shows "weighed (seen \<union> set_option (entry_kdf e)) (count_entry e (ws, n)) \<and>
    n \<le> snd (count_entry e (ws, n)) \<and> snd (count_entry e (ws, n)) \<le> n + ke_account_count e"
proof (cases "entry_kdf e")
  case None
  then show ?thesis using assms by (simp add: count_entry_def entry_kdf_def)
next
  case (Some k)
  have safe: "safe_int (ke_account_count e)" "safe_int (n + ke_account_count e)" "\<not> ke_account_count e < 1"
    using assms(2-4) by (simp_all add: safe_int_def)
  show ?thesis
  proof (cases "find (\<lambda>w. serialize_kdf (fst w) = serialize_kdf k) ws")
    case None
    then have new: "serialize_kdf (fst w) \<noteq> serialize_kdf k" if "w \<in> set ws" for w
      using None that unfolding find_None_iff by blast
    have "count_entry e (ws, n) = (ws @ [(k, ke_account_count e)], n + ke_account_count e)"
      using Some safe None by (simp add: count_entry_def entry_kdf_def)
    then show ?thesis using assms(1,2) Some new by (fastforce simp: weighed_def)
  next
    case (Some w)
    then have w: "w \<in> set ws" "serialize_kdf (fst w) = serialize_kdf k"
      by (auto simp: find_Some_iff)
    have "snd w \<le> n" using weight_le_sum [OF _ w(1)] assms(1) by (force simp: weighed_def)
    moreover have "1 \<le> snd w" using assms(1) w(1) by (auto simp: weighed_def)
    ultimately have "safe_int (snd w + ke_account_count e)" using assms(2,4) by (simp add: safe_int_def)
    then have run: "count_entry e (ws, n) =
        (map (\<lambda>v. if serialize_kdf (fst v) = serialize_kdf k then (fst v, snd v + ke_account_count e) else v) ws,
         n + ke_account_count e)" (is "_ = (?ws, _)")
      using \<open>entry_kdf e = Some k\<close> safe Some by (simp add: count_entry_def entry_kdf_def)
    have keys: "map (\<lambda>w. serialize_kdf (fst w)) ?ws = map (\<lambda>w. serialize_kdf (fst w)) ws" by simp
    have sum: "sum_list (map snd ?ws) = n + ke_account_count e"
      using sum_add_one [of "\<lambda>w. serialize_kdf (fst w)" ws w "serialize_kdf k" "ke_account_count e"] assms(1) w
      by (simp add: weighed_def)
    have rows: "\<forall>v \<in> set ?ws. 1 \<le> snd v \<and> fst v \<in> seen \<union> {k}"
      using assms(1,2) by (auto simp: weighed_def)
    have "serialize_kdf k \<in> set (map (\<lambda>w. serialize_kdf (fst w)) ws)" using w by force
    then have "\<forall>x \<in> seen \<union> {k}. serialize_kdf x \<in> set (map (\<lambda>w. serialize_kdf (fst w)) ws)"
      using assms(1) by (auto simp: weighed_def)
    moreover have "distinct (map (\<lambda>w. serialize_kdf (fst w)) ws)" using assms(1) by (simp add: weighed_def)
    ultimately have "weighed (seen \<union> {k}) (?ws, n + ke_account_count e)"
      using sum rows unfolding weighed_def prod.case keys by blast
    then show ?thesis using assms(2) \<open>entry_kdf e = Some k\<close> by (simp add: run)
  qed
qed

lemma weighed_fold:
  assumes "\<forall>e \<in> set es. 1 \<le> ke_account_count e" "weighed seen (ws, n)" "0 \<le> n"
    "n + sum_list (map ke_account_count es) \<le> max_safe_integer"
  shows "weighed (seen \<union> (\<Union>e \<in> set es. set_option (entry_kdf e))) (fold count_entry es (ws, n))"
  using assms
proof (induction es arbitrary: seen ws n)
  case (Cons e es)
  obtain ws' n' where st: "count_entry e (ws, n) = (ws', n')" by fastforce
  have "0 \<le> sum_list (map ke_account_count es)" using Cons.prems(1) by (intro sum_list_nonneg) auto
  then have "weighed (seen \<union> set_option (entry_kdf e)) (ws', n')" "n \<le> n'" "n' \<le> n + ke_account_count e"
    using weighed_step [of seen ws n e] Cons.prems st by simp_all
  then show ?case
    using Cons.IH [of "seen \<union> set_option (entry_kdf e)" ws' n'] Cons.prems st by (simp add: Un_assoc)
qed simp

lemma select_weighted_in:
  "0 \<le> s \<Longrightarrow> s < sum_list (map snd ws) \<Longrightarrow> \<exists>k. select_weighted s ws = Some k \<and> k \<in> fst ` set ws"
proof (induction s ws rule: select_weighted.induct)
  case (2 s k n ws)
  then show ?case by (cases "s < n") auto
qed simp

lemma derive_synthetic_in:
  assumes "ws \<noteq> []" "\<forall>w \<in> set ws. 1 \<le> snd w"
  shows "\<exists>k. derive_synthetic_kdf hmac email secret ws = Inr k \<and> k \<in> fst ` set ws"
proof -
  have "0 < sum_list (map snd ws)"
  proof (cases ws)
    case (Cons w vs)
    have "0 \<le> sum_list (map snd vs)" using assms(2) Cons by (intro sum_list_nonneg) force
    then show ?thesis using assms(2) Cons by auto
  qed (use assms(1) in simp)
  then obtain k where "select_weighted (big_uint64 (hmac (utf8_encode secret)
        (utf8_encode (''honowarden:prelogin-kdf:v3:'' @ email))) mod sum_list (map snd ws)) ws = Some k" "k \<in> fst ` set ws"
    using select_weighted_in [of "big_uint64 (hmac (utf8_encode secret) (utf8_encode (''honowarden:prelogin-kdf:v3:'' @ email))) mod
        sum_list (map snd ws)" ws] by (meson pos_mod_bound pos_mod_sign)
  then show ?thesis by (intro exI [of _ k]) (simp add: derive_synthetic_kdf_def Let_def)
qed

lemma normalized_distribution:
  assumes "\<forall>e \<in> set es. 1 \<le> ke_account_count e" "sum_list (map ke_account_count es) \<le> max_safe_integer"
  shows "\<forall>w \<in> set (normalize_stored_kdf_distribution es). 1 \<le> snd w \<and> (\<exists>e \<in> set es. entry_kdf e = Some (fst w))"
    and "e \<in> set es \<Longrightarrow> entry_kdf e = Some k \<Longrightarrow>
      list_ex (\<lambda>w. serialize_kdf (fst w) = serialize_kdf k) (normalize_stored_kdf_distribution es)"
proof -
  obtain ws n where st: "fold count_entry es ([], 0) = (ws, n)" by fastforce
  have "weighed {} ([], 0)" by (simp add: weighed_def)
  from weighed_fold [OF assms(1) this] assms(2) st
  have w: "weighed (\<Union>e \<in> set es. set_option (entry_kdf e)) (ws, n)" by simp
  have set: "set (normalize_stored_kdf_distribution es) = set ws"
    by (simp add: normalize_stored_kdf_distribution_def st)
  show "\<forall>w \<in> set (normalize_stored_kdf_distribution es). 1 \<le> snd w \<and> (\<exists>e \<in> set es. entry_kdf e = Some (fst w))"
    using w by (fastforce simp: set weighed_def)
  show "list_ex (\<lambda>w. serialize_kdf (fst w) = serialize_kdf k) (normalize_stored_kdf_distribution es)"
    if "e \<in> set es" "entry_kdf e = Some k"
  proof -
    have "serialize_kdf k \<in> set (map (\<lambda>w. serialize_kdf (fst w)) ws)" using that w by (force simp: weighed_def)
    then obtain w where "w \<in> set ws" "serialize_kdf (fst w) = serialize_kdf k" by (metis (no_types, lifting) image_iff list.set_map)
    then show ?thesis unfolding list_ex_iff set by blast
  qed
qed

section \<open>What the lookup finds\<close>

lemma readable_ignores_email:
  "g_kdf_algorithm g = g_kdf_algorithm h \<Longrightarrow> g_kdf_iterations g = g_kdf_iterations h \<Longrightarrow>
   g_kdf_memory g = g_kdf_memory h \<Longrightarrow> g_kdf_parallelism g = g_kdf_parallelism h \<Longrightarrow>
   client_readable_prelogin_kdf g = client_readable_prelogin_kdf h"
  by (simp only: client_readable_prelogin_kdf_def kdf_from_stored_generation_def)

lemma entry_of_user:
  assumes "row_kdf_key r = user_kdf_key u"
  shows "entry_kdf (distribution_entry r) = client_readable_prelogin_kdf (user_generation u)"
  unfolding entry_kdf_def
  by (rule readable_ignores_email)
    (use assms in \<open>auto simp: row_kdf_key_def user_kdf_key_def distribution_entry_def user_generation_def coalesce0_def
       split: option.splits if_splits\<close>)

lemma readable_row_valid:
  assumes "entry_kdf (distribution_entry r) = Some k"
  shows "valid_population_row r"
  using assms
  by (auto simp: entry_kdf_def distribution_entry_def client_readable_prelogin_kdf_def kdf_from_stored_generation_def
      kdf_type_for_stored_algorithm_def is_structurally_valid_kdf_def Let_def valid_population_row_def
      split: if_splits option.splits kdf_type.splits)

lemma sum_users_with: "distinct ks \<Longrightarrow> sum_list (map (\<lambda>k. users_with k us) ks) \<le> length us"
proof (induction us)
  case (Cons u us)
  have "sum_list (map (\<lambda>k. if user_kdf_key u = k then 1 else 0) ks) \<le> (1 :: nat)"
    using Cons.prems by (induction ks) (auto simp: sum_list_0)
  then show ?case using Cons by (simp add: sum_list_addf)
qed (simp add: sum_list_0)

lemma population_sum:
  assumes "population_ok db"
  shows "sum_list (map kp_account_count (account_kdf_population db)) \<le> int (length (users db))"
proof -
  let ?t = "account_kdf_population db"
  have counted: "population_is (\<lambda>k. users_with k (users db)) ?t" using assms by (simp add: population_ok_def)
  have "sum_list (map kp_account_count ?t) = sum_list (map (\<lambda>r. int (users_with (row_kdf_key r) (users db))) ?t)"
    using population_isD(2) [OF counted] by (intro arg_cong [where f = sum_list] map_cong) simp_all
  also have "\<dots> = int (sum_list (map (\<lambda>k. users_with k (users db)) (map row_kdf_key ?t)))"
    by (simp add: comp_def flip: sum_list_of_nat)
  also have "\<dots> \<le> int (length (users db))"
    using sum_users_with [OF population_isD(1) [OF counted], of "users db"] by (simp only: of_nat_le_iff)
  finally show ?thesis .
qed

lemma sum_filter_le:
  "\<forall>x \<in> set xs. 0 \<le> f x \<Longrightarrow> sum_list (map f (filter p xs)) \<le> (sum_list (map f xs) :: int)"
  by (induction xs) auto

text \<open>The distribution the handler weighs, for a population that counts the accounts.\<close>

lemma context_distribution:
  assumes "population_ok db" "int (length (users db)) \<le> max_safe_integer"
    and ws: "ws = normalize_stored_kdf_distribution (pc_distribution (find_prelogin_kdf_context email db))"
  shows "w \<in> set ws \<Longrightarrow> 1 \<le> snd w \<and> (\<exists>u \<in> set (users db). client_readable_prelogin_kdf (user_generation u) = Some (fst w))"
    and "u \<in> set (users db) \<Longrightarrow> client_readable_prelogin_kdf (user_generation u) = Some k \<Longrightarrow>
      list_ex (\<lambda>w. serialize_kdf (fst w) = serialize_kdf k) ws"
proof -
  let ?t = "account_kdf_population db"
  let ?es = "pc_distribution (find_prelogin_kdf_context email db)"
  let ?valid = "map distribution_entry (filter valid_population_row ?t)"
  have counted: "population_is (\<lambda>k. users_with k (users db)) ?t" using assms(1) by (simp add: population_ok_def)
  have es: "mset ?es = mset ?valid" by (simp add: find_prelogin_kdf_context_def)
  then have set: "set ?es = set ?valid" by (metis set_mset_mset)
  have one: "1 \<le> kp_account_count r" if "r \<in> set ?t" for r
    using population_isD(2) [OF counted that] by simp
  then have "\<forall>e \<in> set ?es. 1 \<le> ke_account_count e" by (auto simp: set distribution_entry_def)
  moreover have "sum_list (map ke_account_count ?es) \<le> max_safe_integer"
  proof -
    have "sum_list (map ke_account_count ?es) = sum_list (map ke_account_count ?valid)"
      using es by (metis mset_map sum_mset_sum_list)
    also have "\<dots> = sum_list (map kp_account_count (filter valid_population_row ?t))"
      by (simp add: comp_def distribution_entry_def)
    also have "\<dots> \<le> sum_list (map kp_account_count ?t)"
      using one by (intro sum_filter_le) force
    also have "\<dots> \<le> max_safe_integer" using population_sum [OF assms(1)] assms(2) by simp
    finally show ?thesis .
  qed
  ultimately have d:
    "\<forall>w \<in> set ws. 1 \<le> snd w \<and> (\<exists>e \<in> set ?es. entry_kdf e = Some (fst w))"
    "\<And>e k. e \<in> set ?es \<Longrightarrow> entry_kdf e = Some k \<Longrightarrow> list_ex (\<lambda>w. serialize_kdf (fst w) = serialize_kdf k) ws"
    unfolding ws using normalized_distribution [of ?es] by blast+
  show "1 \<le> snd w \<and> (\<exists>u \<in> set (users db). client_readable_prelogin_kdf (user_generation u) = Some (fst w))" if "w \<in> set ws"
  proof -
    from d(1) that obtain r where r: "r \<in> set ?t" "entry_kdf (distribution_entry r) = Some (fst w)" "1 \<le> snd w"
      by (auto simp: set)
    have "0 < users_with (row_kdf_key r) (users db)" using population_isD(2) [OF counted r(1)] by blast
    then obtain u where u: "u \<in> set (users db)" "user_kdf_key u = row_kdf_key r"
      by (auto simp: users_with_def sql_count_pos)
    with r(2,3) entry_of_user [of r u] show ?thesis by auto
  qed
  show "list_ex (\<lambda>w. serialize_kdf (fst w) = serialize_kdf k) ws"
    if "u \<in> set (users db)" "client_readable_prelogin_kdf (user_generation u) = Some k"
  proof -
    have "0 < users_with (user_kdf_key u) (users db)" using that(1) by (auto simp: users_with_def sql_count_pos)
    then obtain r where r: "r \<in> set ?t" "row_kdf_key r = user_kdf_key u"
      using population_isD(3) [OF counted] by (metis imageE)
    then have k: "entry_kdf (distribution_entry r) = Some k" using entry_of_user [of r u] that(2) by simp
    have "distribution_entry r \<in> set ?es" using r(1) readable_row_valid [OF k] by (simp add: set)
    then show ?thesis by (rule d(2)) (rule k)
  qed
qed

definition prelogin_body :: "string \<Rightarrow> json" where
  "prelogin_body email = JObj [(''email'', JStr email)]"

lemma prelogin_run:
  assumes "normalize_email email = Some e" "js_trim secret \<noteq> ''''"
    and "sql_exists (\<lambda>u. u_email_normalized u = e) (users db) \<or> e \<in> set (parse_allowed_emails allowed)"
  shows "handle_prelogin hmac allowed (Some secret) (prelogin_body email) db =
    (case build_prelogin_kdf_response hmac e (find_prelogin_kdf_context e db) secret of
       Inr (Some response) \<Rightarrow> Settings response | _ \<Rightarrow> PreloginUnavailable)"
  using assms
  by (auto simp: handle_prelogin_def prelogin_body_def resolve_prelogin_def jprop_def find_prelogin_kdf_context_def
      sql_exists_first Let_def)

text \<open>
  An account gets its own settings. If the population counts the accounts, prelogin for an address whose
  account stores settings a client can use answers exactly those settings, with the address as the salt.
\<close>
theorem prelogin_answers_account:
  assumes "population_ok db" "int (length (users db)) \<le> max_safe_integer" "js_trim secret \<noteq> ''''"
    and "normalize_email email = Some (u_email_normalized u)"
    and "sql_first (\<lambda>v. u_email_normalized v = u_email_normalized u) (users db) = Some u"
    and "client_readable_prelogin_kdf (user_generation u) = Some k"
  shows "handle_prelogin hmac allowed (Some secret) (prelogin_body email) db =
     Settings \<lparr>pr_kdf = k, pr_salt = u_email_normalized u\<rparr>"
proof -
  let ?e = "u_email_normalized u"
  let ?c = "find_prelogin_kdf_context ?e db"
  let ?ws = "normalize_stored_kdf_distribution (pc_distribution ?c)"
  have u: "u \<in> set (users db)" using sql_first_SomeD [OF assms(5)] by blast
  note d = context_distribution(1) [OF assms(1,2) refl, of _ ?e]
  have ex: "list_ex (\<lambda>w. serialize_kdf (fst w) = serialize_kdf k) ?ws"
    by (rule context_distribution(2) [OF assms(1,2) refl u assms(6)])
  then have "?ws \<noteq> []" by auto
  then obtain s where s: "derive_synthetic_kdf hmac ?e secret ?ws = Inr s"
    using derive_synthetic_in [of ?ws hmac ?e secret] d by blast
  have "pc_target ?c = Some (user_generation u)"
    by (simp add: find_prelogin_kdf_context_def assms(5) user_generation_def)
  then have "build_prelogin_kdf_response hmac ?e ?c secret = Inr (Some \<lparr>pr_kdf = k, pr_salt = ?e\<rparr>)"
    using s ex \<open>?ws \<noteq> []\<close> assms(6) by (simp add: build_prelogin_kdf_response_def Let_def user_generation_def)
  moreover have "sql_exists (\<lambda>v. u_email_normalized v = ?e) (users db)" using assms(5) by (simp add: sql_exists_first)
  ultimately show ?thesis using prelogin_run [OF assms(4,3)] by simp
qed

text \<open>
  C30. An unknown address is answered like an account. If the population counts the accounts, prelogin for an allow-listed
  address without an account answers, with the address as the salt, settings that some account really uses; only when no
  account at all has settings a client can use are they the default settings. With a configured secret, one that is not
  blank, it never fails.
\<close>
theorem prelogin_unknown_looks_real:
  assumes "population_ok db" "int (length (users db)) \<le> max_safe_integer" "js_trim secret \<noteq> ''''"
    and "normalize_email email = Some e" "e \<in> set (parse_allowed_emails allowed)"
    and "\<not> sql_exists (\<lambda>u. u_email_normalized u = e) (users db)"
  shows "\<exists>k. handle_prelogin hmac allowed (Some secret) (prelogin_body email) db = Settings \<lparr>pr_kdf = k, pr_salt = e\<rparr> \<and>
     ((\<exists>u \<in> set (users db). client_readable_prelogin_kdf (user_generation u) = Some k) \<or>
      k = default_account_kdf \<and> (\<forall>u \<in> set (users db). client_readable_prelogin_kdf (user_generation u) = None))"
proof -
  let ?c = "find_prelogin_kdf_context e db"
  let ?ws = "normalize_stored_kdf_distribution (pc_distribution ?c)"
  let ?w = "if ?ws \<noteq> [] then ?ws else [(default_account_kdf, 1)]"
  note d = context_distribution(1) [OF assms(1,2) refl, of _ e]
  have all: "\<forall>w \<in> set ?w. 1 \<le> snd w" using d by auto
  have "?w \<noteq> []" by simp
  from derive_synthetic_in [OF this all] obtain k where
    k: "derive_synthetic_kdf hmac e secret ?w = Inr k" "k \<in> fst ` set ?w" by blast
  have none: "pc_target ?c = None" using assms(6) by (simp add: find_prelogin_kdf_context_def sql_exists_first)
  then have "build_prelogin_kdf_response hmac e ?c secret = Inr (Some \<lparr>pr_kdf = k, pr_salt = e\<rparr>)"
    using k(1) by (simp add: build_prelogin_kdf_response_def Let_def)
  moreover have "(\<exists>u \<in> set (users db). client_readable_prelogin_kdf (user_generation u) = Some k) \<or>
      k = default_account_kdf \<and> (\<forall>u \<in> set (users db). client_readable_prelogin_kdf (user_generation u) = None)"
  proof (cases "?ws = []")
    case True
    then have "client_readable_prelogin_kdf (user_generation u) = None" if "u \<in> set (users db)" for u
      using context_distribution(2) [OF assms(1,2) refl that, of _ e] by (cases "client_readable_prelogin_kdf (user_generation u)") auto
    with True k(2) show ?thesis by simp
  qed (use k(2) d in auto)
  ultimately show ?thesis using prelogin_run [OF assms(4,3)] assms(5) by auto
qed

section \<open>Examples\<close>

definition sample_account :: user_row where
  "sample_account =
     \<lparr>u_id = ''u1'', u_email = ''a@b.co'', u_email_normalized = ''a@b.co'', u_email_verified_at = None,
      u_display_name = None, u_kdf_algorithm = ''argon2id'', u_kdf_iterations = 3, u_kdf_memory = Some 64,
      u_kdf_parallelism = Some 4, u_master_password_hash = ''hash'', u_user_key = None, u_user_key_id = None,
      u_public_key = None, u_private_key = None, u_security_stamp = ''stamp'', u_revision_date = ''r'',
      u_created_at = ''c'', u_updated_at = ''c'', u_disabled_at = None, u_login_failed_count = 0,
      u_login_failed_at = None, u_login_locked_until = None\<rparr>"

definition sample_accounts :: database where
  "sample_accounts = (empty_database ''n'')\<lparr>users := [sample_account],
     account_kdf_population := population_add sample_account []\<rparr>"

lemma sample_accounts_run: "user_run (empty_database ''n'') sample_accounts"
  by (rule user_run.insert [OF user_run.start, where u = sample_account and prev = 0 and n = 1])
    (simp add: insert_or_ignore_user_def user_conflict_def sql_exists_def empty_database_def sample_accounts_def)

lemma sample_accounts_ok: "population_ok sample_accounts"
  by (rule user_run_ok [OF sample_accounts_run])
    (simp add: population_ok_def population_is_def empty_database_def)

theorem kdf_population_counts_accounts_witness:
  "(case sql_first (\<lambda>r. row_kdf_key r = user_kdf_key sample_account) (account_kdf_population sample_accounts) of
      None \<Rightarrow> 0 | Some r \<Rightarrow> kp_account_count r) = 1"
  using kdf_population_counts_accounts [OF sample_accounts_run, of "user_kdf_key sample_account"]
  by (simp add: empty_database_def sql_count_def sample_accounts_def)

definition sample_kdf :: account_kdf where
  "sample_kdf = \<lparr>kdf_type = Argon2id, kdf_iterations = 3, kdf_memory = Some 64, kdf_parallelism = Some 4\<rparr>"

lemma sample_readable: "client_readable_prelogin_kdf (user_generation sample_account) = Some sample_kdf"
  by code_simp

theorem prelogin_answers_account_witness:
  "handle_prelogin (\<lambda>k m. [200, 1, 2, 3, 4, 5, 6, 7]) None (Some ''pepper'') (prelogin_body '' A@b.co'') sample_accounts =
     Settings \<lparr>pr_kdf = sample_kdf, pr_salt = ''a@b.co''\<rparr>"
proof -
  have "normalize_email '' A@b.co'' = Some ''a@b.co''" "js_trim ''pepper'' \<noteq> ''''" by code_simp+
  then show ?thesis
    using prelogin_answers_account [OF sample_accounts_ok, of "''pepper''" "'' A@b.co''" sample_account sample_kdf] sample_readable
    by (simp add: sample_accounts_def sample_account_def sql_first_def max_safe_integer_def)
qed

theorem prelogin_unknown_looks_real_witness:
  "handle_prelogin (\<lambda>k m. [200, 1, 2, 3, 4, 5, 6, 7]) (Some ''x@y.z, q@r.s'') (Some ''pepper'')
       (prelogin_body ''x@y.z'') sample_accounts = Settings \<lparr>pr_kdf = sample_kdf, pr_salt = ''x@y.z''\<rparr>"
proof -
  have a: "normalize_email ''x@y.z'' = Some ''x@y.z''" "''x@y.z'' \<in> set (parse_allowed_emails (Some ''x@y.z, q@r.s''))"
    "js_trim ''pepper'' \<noteq> ''''" "\<not> sql_exists (\<lambda>u. u_email_normalized u = ''x@y.z'') (users sample_accounts)"
    by code_simp+
  have "int (length (users sample_accounts)) \<le> max_safe_integer" by (simp add: sample_accounts_def max_safe_integer_def)
  from prelogin_unknown_looks_real [OF sample_accounts_ok this a(3,1,2,4), of "\<lambda>k m. [200, 1, 2, 3, 4, 5, 6, 7]"] show ?thesis
    using sample_readable by (auto simp: sample_accounts_def)
qed

end
