(* ===== verification/Json.thy ===== *)
theory Json
  imports Prelude
begin

text \<open>
  JSON texts as the code writes and reads them: \<open>JSON.stringify\<close>, \<open>JSON.parse\<close> and the UTF-8 of
  \<open>TextEncoder\<close> and \<open>TextDecoder\<close>. The code writes only integers below 1e21; reading takes the whole number grammar,
  with the exact decimal value (the rounding to 53 bits is not modelled, the overflow to infinity is).
  A text that holds a code unit above 255 is outside the strings of the model and reads as \<open>None\<close>. The
  round trip below is what the access tokens and stored JSON columns rest on.
\<close>

section \<open>Writing\<close>

definition json_escape :: "char \<Rightarrow> string" where
  "json_escape c =
     (let n = code_unit c
      in if n = 34 \<or> n = 92 then [CHR 0x5C, c]
         else if n = 8 then [CHR 0x5C, CHR ''b''] else if n = 9 then [CHR 0x5C, CHR ''t'']
         else if n = 10 then [CHR 0x5C, CHR ''n''] else if n = 12 then [CHR 0x5C, CHR ''f'']
         else if n = 13 then [CHR 0x5C, CHR ''r'']
         else if n < 32 then [CHR 0x5C, CHR ''u'', CHR ''0'', CHR ''0'', hex_digit (n div 16), hex_digit (n mod 16)]
         else [c])"

definition json_string :: "string \<Rightarrow> string" where
  "json_string s = CHR 0x22 # concat (map json_escape s) @ [CHR 0x22]"

fun json_text :: "json \<Rightarrow> string" where
  "json_text JNull = ''null''"
| "json_text (JBool b) = (if b then ''true'' else ''false'')"
| "json_text (JNum (Finite q)) = int_text \<lfloor>q\<rfloor>"
| "json_text (JNum _) = ''null''"
| "json_text (JStr s) = json_string s"
| "json_text (JArr vs) = ''['' @ js_join (CHR '','') (map json_text vs) @ '']''"
| "json_text (JObj fs) =
     ''{'' @ js_join (CHR '','') (map (\<lambda>(k, v). json_string k @ '':'' @ json_text v) fs) @ ''}''"

section \<open>Reading\<close>

definition json_space :: "char \<Rightarrow> bool" where
  "json_space c \<longleftrightarrow> code_unit c \<in> {9, 10, 13, 32}"

definition skip_space :: "string \<Rightarrow> string" where
  "skip_space s = dropWhile json_space s"

definition is_digit :: "char \<Rightarrow> bool" where
  "is_digit c \<longleftrightarrow> 48 \<le> code_unit c \<and> code_unit c \<le> 57"

definition hex_value :: "char \<Rightarrow> nat option" where
  "hex_value c =
     (let n = code_unit c
      in if 48 \<le> n \<and> n \<le> 57 then Some (n - 48)
         else if 97 \<le> n \<and> n \<le> 102 then Some (n - 87)
         else if 65 \<le> n \<and> n \<le> 70 then Some (n - 55)
         else None)"

text \<open>The character of an escape other than \<open>\u\<close>.\<close>

definition unescape :: "char \<Rightarrow> char option" where
  "unescape c =
     (if c = CHR 0x22 \<or> c = CHR 0x5C \<or> c = CHR ''/'' then Some c
      else if c = CHR ''b'' then Some (char_of (8::nat)) else if c = CHR ''f'' then Some (char_of (12::nat))
      else if c = CHR ''n'' then Some (char_of (10::nat)) else if c = CHR ''r'' then Some (char_of (13::nat))
      else if c = CHR ''t'' then Some (char_of (9::nat)) else None)"

definition hex_char :: "char \<Rightarrow> char \<Rightarrow> char \<Rightarrow> char \<Rightarrow> char option" where
  "hex_char a b c d =
     (case (hex_value a, hex_value b, hex_value c, hex_value d) of
        (Some i, Some j, Some k, Some l) \<Rightarrow> if i = 0 \<and> j = 0 then Some (char_of (16 * k + l)) else None
      | _ \<Rightarrow> None)"

text \<open>The rest of a string after its opening quote.\<close>

fun read_string :: "string \<Rightarrow> (string \<times> string) option" where
  "read_string [] = None"
| "read_string (c # s) =
     (if c = CHR 0x22 then Some ([], s)
      else if c = CHR 0x5C then
        (case s of
           [] \<Rightarrow> None
         | e # s' \<Rightarrow>
             if e = CHR ''u'' then
               (case s' of
                  i # j # k # l # r \<Rightarrow>
                    (case hex_char i j k l of
                       None \<Rightarrow> None
                     | Some x \<Rightarrow> map_option (\<lambda>(t, r'). (x # t, r')) (read_string r))
                | _ \<Rightarrow> None)
             else (case unescape e of
                     None \<Rightarrow> None
                   | Some x \<Rightarrow> map_option (\<lambda>(t, r'). (x # t, r')) (read_string s')))
      else if code_unit c < 32 then None
      else map_option (\<lambda>(t, r). (c # t, r)) (read_string s))"

definition digits_value :: "string \<Rightarrow> nat" where
  "digits_value ds = fold (\<lambda>c n. 10 * n + (code_unit c - 48)) ds 0"

definition read_digits :: "string \<Rightarrow> (string \<times> string) option" where
  "read_digits s = (if takeWhile is_digit s = [] then None else Some (takeWhile is_digit s, dropWhile is_digit s))"

text \<open>The fraction and the exponent of a number, when there are any.\<close>

definition read_fraction :: "string \<Rightarrow> (string \<times> string) option" where
  "read_fraction s = (case s of c # r \<Rightarrow> if c = CHR ''.'' then read_digits r else Some ([], s) | [] \<Rightarrow> Some ([], []))"

definition read_exponent :: "string \<Rightarrow> (int \<times> string) option" where
  "read_exponent s =
     (case s of
        [] \<Rightarrow> Some (0, [])
      | c # r \<Rightarrow>
          if c = CHR ''e'' \<or> c = CHR ''E'' then
            (let negative = (r \<noteq> [] \<and> hd r = CHR ''-'');
                 r' = (if negative \<or> r \<noteq> [] \<and> hd r = CHR ''+'' then tl r else r)
             in map_option (\<lambda>(ds, r''). (if negative then - int (digits_value ds) else int (digits_value ds), r'')) (read_digits r'))
          else Some (0, s))"

definition decimal_number :: "bool \<Rightarrow> nat \<Rightarrow> int \<Rightarrow> js_number" where
  "decimal_number negative mantissa exponent =
     (let q = (if 0 \<le> exponent then of_nat mantissa * 10 ^ nat exponent else of_nat mantissa / 10 ^ nat (- exponent))
      in if q \<ge> 2 ^ 1024 - 2 ^ 970 then Infinite negative else Finite (if negative then - q else q))"

definition read_json_number :: "string \<Rightarrow> (json \<times> string) option" where
  "read_json_number s =
     (let negative = (s \<noteq> [] \<and> hd s = CHR ''-'')
      in (case read_digits (if negative then tl s else s) of
            None \<Rightarrow> None
          | Some (ds, r) \<Rightarrow>
              if length ds > 1 \<and> hd ds = CHR ''0'' then None
              else (case read_fraction r of
                      None \<Rightarrow> None
                    | Some (fs, r') \<Rightarrow>
                        map_option (\<lambda>(e, r''). (JNum (decimal_number negative (digits_value (ds @ fs)) (e - int (length fs))), r''))
                          (read_exponent r'))))"

text \<open>An object keeps one field per key: the last value, at the place of the first.\<close>

definition put_field :: "string \<times> json \<Rightarrow> (string \<times> json) list \<Rightarrow> (string \<times> json) list" where
  "put_field f fs =
     (if fst f \<in> fst ` set fs then map (\<lambda>g. if fst g = fst f then f else g) fs else fs @ [f])"

text \<open>The first argument bounds the steps; the length of the text is enough.\<close>

fun read_value :: "nat \<Rightarrow> string \<Rightarrow> (json \<times> string) option"
  and read_elements :: "nat \<Rightarrow> string \<Rightarrow> (json list \<times> string) option"
  and read_members :: "nat \<Rightarrow> string \<Rightarrow> ((string \<times> json) list \<times> string) option" where
  "read_value 0 s = None"
| "read_value (Suc n) s =
     (case skip_space s of
        [] \<Rightarrow> None
      | c # r \<Rightarrow>
          if c = CHR 0x22 then map_option (\<lambda>(t, r'). (JStr t, r')) (read_string r)
          else if c = CHR ''['' then
            (if starts_with (skip_space r) '']'' then Some (JArr [], tl (skip_space r))
             else map_option (\<lambda>(vs, r'). (JArr vs, r')) (read_elements n r))
          else if c = CHR ''{'' then
            (if starts_with (skip_space r) ''}'' then Some (JObj [], tl (skip_space r))
             else map_option (\<lambda>(fs, r'). (JObj (fold put_field fs []), r')) (read_members n r))
          else if starts_with (c # r) ''null'' then Some (JNull, drop 4 (c # r))
          else if starts_with (c # r) ''true'' then Some (JBool True, drop 4 (c # r))
          else if starts_with (c # r) ''false'' then Some (JBool False, drop 5 (c # r))
          else read_json_number (c # r))"
| "read_elements 0 s = None"
| "read_elements (Suc n) s =
     (case read_value n s of
        None \<Rightarrow> None
      | Some (v, r) \<Rightarrow>
          (case skip_space r of
             [] \<Rightarrow> None
           | c # r' \<Rightarrow>
               if c = CHR '','' then map_option (\<lambda>(vs, r''). (v # vs, r'')) (read_elements n r')
               else if c = CHR '']'' then Some ([v], r') else None))"
| "read_members 0 s = None"
| "read_members (Suc n) s =
     (case skip_space s of
        [] \<Rightarrow> None
      | q # s' \<Rightarrow>
          if q \<noteq> CHR 0x22 then None
          else (case read_string s' of
                  None \<Rightarrow> None
                | Some (k, r0) \<Rightarrow>
                    if \<not> starts_with (skip_space r0) '':'' then None
                    else (case read_value n (tl (skip_space r0)) of
                            None \<Rightarrow> None
                          | Some (v, r) \<Rightarrow>
                              (case skip_space r of
                                 [] \<Rightarrow> None
                               | c # r' \<Rightarrow>
                                   if c = CHR '','' then map_option (\<lambda>(fs, r''). ((k, v) # fs, r'')) (read_members n r')
                                   else if c = CHR ''}'' then Some ([(k, v)], r') else None))))"

definition json_parse :: "string \<Rightarrow> json option" where
  "json_parse s =
     (case read_value (Suc (length s)) s of
        None \<Rightarrow> None
      | Some (v, r) \<Rightarrow> if skip_space r = [] then Some v else None)"

section \<open>UTF-8\<close>

fun utf8_decode :: "nat list \<Rightarrow> string option" where
  "utf8_decode [] = Some []"
| "utf8_decode (a # bs) =
     (if a < 128 then map_option (Cons (char_of a)) (utf8_decode bs)
      else (case bs of
              [] \<Rightarrow> None
            | b # cs \<Rightarrow>
                if (a = 194 \<or> a = 195) \<and> 128 \<le> b \<and> b < 192
                then map_option (Cons (char_of (64 * (a - 192) + (b - 128)))) (utf8_decode cs)
                else None))"

section \<open>Round trip\<close>

lemma read_string_text: "read_string (concat (map json_escape s) @ CHR 0x22 # rest) = Some (s, rest)"
proof (induction s)
  case (Cons c s)
  have quote: "code_unit (CHR 0x22) = 34" "code_unit (CHR 0x5C) = 92" by (simp_all add: code_unit_def)
  have hex: "hex_value (hex_digit n) = Some n" if "n < 16" for n
    using that by (auto simp: hex_value_def hex_digit_def Let_def code_unit_char_of)
  consider "code_unit c = 34 \<or> code_unit c = 92" | "code_unit c \<in> {8, 9, 10, 12, 13}"
    | "code_unit c < 32" "code_unit c \<notin> {8, 9, 10, 12, 13}" | "code_unit c \<ge> 32" "code_unit c \<noteq> 34" "code_unit c \<noteq> 92"
    by fastforce
  then show ?case
  proof cases
    case 1
    then have "c = CHR 0x22 \<or> c = CHR 0x5C" by (metis code_unit_inject quote)
    with Cons 1 show ?thesis by (auto simp: json_escape_def Let_def unescape_def quote)
  next
    case 2
    then have "c = char_of (8::nat) \<or> c = char_of (9::nat) \<or> c = char_of (10::nat) \<or> c = char_of (12::nat) \<or> c = char_of (13::nat)"
      by (auto simp: code_unit_inject [symmetric] code_unit_char_of)
    moreover have "json_escape (char_of (8::nat)) = [CHR 0x5C, CHR ''b''] \<and> unescape (CHR ''b'') = Some (char_of (8::nat))"
      "json_escape (char_of (9::nat)) = [CHR 0x5C, CHR ''t''] \<and> unescape (CHR ''t'') = Some (char_of (9::nat))"
      "json_escape (char_of (10::nat)) = [CHR 0x5C, CHR ''n''] \<and> unescape (CHR ''n'') = Some (char_of (10::nat))"
      "json_escape (char_of (12::nat)) = [CHR 0x5C, CHR ''f''] \<and> unescape (CHR ''f'') = Some (char_of (12::nat))"
      "json_escape (char_of (13::nat)) = [CHR 0x5C, CHR ''r''] \<and> unescape (CHR ''r'') = Some (char_of (13::nat))"
      by (simp_all add: json_escape_def unescape_def Let_def code_unit_char_of)
    ultimately obtain e where e: "json_escape c = [CHR 0x5C, e]" "unescape e = Some c" "e \<noteq> CHR ''u''"
      by (elim disjE) auto
    with Cons show ?thesis by simp
  next
    case 3
    have c: "c = char_of (16 * (code_unit c div 16) + code_unit c mod 16)" by (simp add: code_unit_def)
    have "hex_value (CHR ''0'') = Some 0" by (simp add: hex_value_def Let_def code_unit_def)
    then have "hex_char (CHR ''0'') (CHR ''0'') (hex_digit (code_unit c div 16)) (hex_digit (code_unit c mod 16)) = Some c"
      using 3(1) c by (simp add: hex_char_def hex)
    with Cons 3 show ?thesis by (auto simp: json_escape_def Let_def quote)
  next
    case 4
    then have "c \<noteq> CHR 0x22" "c \<noteq> CHR 0x5C" by (auto simp: quote)
    with Cons 4 show ?thesis by (simp add: json_escape_def Let_def quote)
  qed
qed simp

lemma decimal_is_digit: "c \<in> set (decimal n) \<Longrightarrow> is_digit c"
  using decimal_digits [of c n] by (simp add: is_digit_def)

lemma digits_value_append: "digits_value (ds @ [c]) = 10 * digits_value ds + (code_unit c - 48)"
  by (simp add: digits_value_def)

lemma digits_value_decimal: "digits_value (decimal n) = n"
proof (induction n rule: decimal.induct)
  case (1 n)
  show ?case
  proof (cases "n < 10")
    case True
    then show ?thesis by (subst decimal.simps) (simp add: digits_value_def code_unit_char_of)
  next
    case False
    then show ?thesis using 1 by (subst decimal.simps) (simp add: digits_value_append code_unit_char_of)
  qed
qed

lemma decimal_head: "decimal n \<noteq> []" "length (decimal n) > 1 \<Longrightarrow> hd (decimal n) \<noteq> CHR ''0''"
proof (induction n rule: decimal.induct)
  case (1 n)
  have zero: "code_unit (CHR ''0'') = 48" by (simp add: code_unit_def)
  { case 1 show ?case by (subst decimal.simps) simp }
  { case 2
    show ?case
    proof (cases "n < 10")
      case True
      then show ?thesis using 2 by (simp add: decimal.simps [of n])
    next
      case False
      show ?thesis
      proof (cases "n < 100")
        case True
        then have d: "n div 10 \<noteq> 0" "n div 10 < 10" using False by simp_all
        then have "hd (decimal n) = char_of (48 + n div 10)"
          using False by (simp add: decimal.simps [of n] decimal.simps [of "n div 10"])
        then show ?thesis using d by (auto simp: code_unit_inject [symmetric] code_unit_char_of zero)
      next
        case big: False
        then have "length (decimal (n div 10)) > 1" using "1.IH"(1) False by (subst decimal.simps) (auto simp: decimal.simps [of "n div 10 div 10"])
        with "1.IH" False show ?thesis by (simp add: decimal.simps [of n])
      qed
    qed }
qed

text \<open>What may follow a number.\<close>

definition number_end :: "string \<Rightarrow> bool" where
  "number_end r \<longleftrightarrow> (r = [] \<or> \<not> is_digit (hd r) \<and> hd r \<notin> {CHR ''.'', CHR ''e'', CHR ''E''})"

lemma read_digits_decimal:
  assumes "r = [] \<or> \<not> is_digit (hd r)"
  shows "read_digits (decimal n @ r) = Some (decimal n, r)"
proof -
  have "takeWhile is_digit (decimal n @ r) = decimal n @ takeWhile is_digit r"
    "dropWhile is_digit (decimal n @ r) = dropWhile is_digit r"
    using decimal_is_digit by (simp_all add: takeWhile_append2 dropWhile_append2)
  moreover have "takeWhile is_digit r = []" "dropWhile is_digit r = r" using assms by (cases r; simp)+
  ultimately show ?thesis using decimal_head(1) by (simp add: read_digits_def)
qed

lemma digit_not_minus: "is_digit c \<Longrightarrow> c \<noteq> CHR ''-'' \<and> c \<noteq> CHR 0x22 \<and> c \<noteq> CHR ''['' \<and> c \<noteq> CHR ''{'' \<and>
    c \<noteq> CHR ''n'' \<and> c \<noteq> CHR ''t'' \<and> c \<noteq> CHR ''f'' \<and> \<not> json_space c"
  by (auto simp: is_digit_def json_space_def code_unit_def)

lemma hd_decimal: "is_digit (hd (decimal n))"
  using decimal_is_digit decimal_head(1) by (metis list.set_sel(1))

lemma decimal_number_int:
  assumes "safe_int n"
  shows "decimal_number (n < 0) (nat \<bar>n\<bar>) 0 = Finite (of_int n)"
proof -
  have "(of_nat (nat \<bar>n\<bar>) :: rat) = of_int \<bar>n\<bar>" by simp
  moreover have "(of_int \<bar>n\<bar> :: rat) \<le> of_int max_safe_integer" using assms by (simp add: safe_int_def)
  moreover have "(of_int max_safe_integer :: rat) < 2 ^ 1024 - 2 ^ 970" by (simp add: max_safe_integer_def)
  ultimately show ?thesis by (auto simp: decimal_number_def Let_def)
qed

lemma read_number_text:
  assumes "safe_int n" "number_end r"
  shows "read_json_number (int_text n @ r) = Some (JNum (Finite (of_int n)), r)"
proof -
  let ?d = "decimal (nat \<bar>n\<bar>)"
  have r: "r = [] \<or> \<not> is_digit (hd r)" "read_fraction r = Some ([], r)" "read_exponent r = Some (0, r)"
    using assms(2) by (auto simp: number_end_def read_fraction_def read_exponent_def split: list.splits)
  have sign: "(int_text n @ r \<noteq> [] \<and> hd (int_text n @ r) = CHR ''-'') = (n < 0)"
    using digit_not_minus [OF hd_decimal] decimal_head(1) by (simp add: int_text_def)
  have rest: "(if n < 0 then tl (int_text n @ r) else int_text n @ r) = ?d @ r" by (simp add: int_text_def)
  show ?thesis
    using decimal_head(2) [of "nat \<bar>n\<bar>"] r decimal_number_int [OF assms(1)]
    unfolding read_json_number_def Let_def sign rest
    by (simp add: read_digits_decimal digits_value_decimal)
qed

text \<open>The values \<open>JSON.stringify\<close> writes without loss: safe integers, and objects with distinct keys.\<close>

fun json_plain :: "json \<Rightarrow> bool" where
  "json_plain (JNum n) \<longleftrightarrow> num_is_safe_integer n"
| "json_plain (JArr vs) \<longleftrightarrow> (\<forall>v \<in> set vs. json_plain v)"
| "json_plain (JObj fs) \<longleftrightarrow> distinct (map fst fs) \<and> (\<forall>f \<in> set fs. json_plain (snd f))"
| "json_plain _ \<longleftrightarrow> True"

lemma put_fields_distinct: "distinct (map fst (gs @ fs)) \<Longrightarrow> fold put_field fs gs = gs @ fs"
  by (induction fs arbitrary: gs) (auto simp: put_field_def)

text \<open>A value is read back from its text, whatever follows; this is its statement for one value.\<close>

definition reads_back :: "json \<Rightarrow> bool" where
  "reads_back v \<longleftrightarrow>
     (\<forall>n r. length (json_text v) < n \<longrightarrow> number_end r \<longrightarrow> read_value n (json_text v @ r) = Some (v, r))"

lemma json_text_nonempty: "json_text v \<noteq> []"
  using decimal_head(1) by (cases v rule: json_text.cases) (auto simp: json_string_def int_text_def)

lemma number_end_chars [simp]:
  "number_end (CHR '','' # r)" "number_end (CHR '']'' # r)" "number_end (CHR ''}'' # r)" "number_end []"
  by (simp_all add: number_end_def is_digit_def code_unit_def)

lemma skip_space_chars [simp]:
  "skip_space (CHR '','' # r) = CHR '','' # r" "skip_space (CHR '']'' # r) = CHR '']'' # r"
  "skip_space (CHR ''}'' # r) = CHR ''}'' # r" "skip_space (CHR '':'' # r) = CHR '':'' # r"
  "skip_space (CHR 0x22 # r) = CHR 0x22 # r" "skip_space (CHR ''['' # r) = CHR ''['' # r"
  "skip_space (CHR ''{'' # r) = CHR ''{'' # r" "skip_space [] = []"
  by (simp_all add: skip_space_def json_space_def code_unit_def)

lemma read_elements_text:
  assumes "vs \<noteq> []" "\<forall>v \<in> set vs. reads_back v" "length (js_join (CHR '','') (map json_text vs)) + 1 < n"
  shows "read_elements n (js_join (CHR '','') (map json_text vs) @ CHR '']'' # r) = Some (vs, r)"
  using assms
proof (induction vs arbitrary: n)
  case (Cons v vs)
  then obtain m where n: "n = Suc m" by (cases n) simp_all
  show ?case
  proof (cases vs)
    case Nil
    with Cons.prems n show ?thesis by (simp add: reads_back_def)
  next
    case (Cons w ws)
    have len: "length (json_text v) < m" "length (js_join (CHR '','') (map json_text vs)) + 1 < m"
      using Cons.prems(3) n Cons json_text_nonempty [of v] by (auto simp: neq_Nil_conv)
    have "read_value m (json_text v @ CHR '','' # js_join (CHR '','') (map json_text vs) @ CHR '']'' # r) =
        Some (v, CHR '','' # js_join (CHR '','') (map json_text vs) @ CHR '']'' # r)"
      using Cons.prems(2) len(1) by (simp add: reads_back_def)
    with Cons.IH [of m] Cons.prems(2) len(2) Cons n show ?thesis by simp
  qed
qed simp

abbreviation member_text :: "string \<times> json \<Rightarrow> string" where
  "member_text \<equiv> \<lambda>(k, v). json_string k @ '':'' @ json_text v"

lemma read_members_text:
  assumes "fs \<noteq> []" "\<forall>f \<in> set fs. reads_back (snd f)" "length (js_join (CHR '','') (map member_text fs)) + 1 < n"
  shows "read_members n (js_join (CHR '','') (map member_text fs) @ CHR ''}'' # r) = Some (fs, r)"
  using assms
proof (induction fs arbitrary: n)
  case (Cons f fs)
  obtain k v where f: "f = (k, v)" by (cases f)
  from Cons.prems(3) obtain m where n: "n = Suc m" by (cases n) simp_all
  have key: "read_string (concat (map json_escape k) @ CHR 0x22 # t) = Some (k, t)" for t by (rule read_string_text)
  show ?case
  proof (cases fs)
    case Nil
    with Cons.prems n f show ?thesis by (simp add: reads_back_def json_string_def key starts_with_def)
  next
    case (Cons g gs)
    let ?t = "CHR '','' # js_join (CHR '','') (map member_text fs) @ CHR ''}'' # r"
    have join: "js_join (CHR '','') (map member_text (f # fs)) @ CHR ''}'' # r =
        CHR 0x22 # concat (map json_escape k) @ CHR 0x22 # CHR '':'' # json_text v @ ?t"
      using Cons f by (simp add: json_string_def)
    have len: "length (json_text v) < m" "length (js_join (CHR '','') (map member_text fs)) + 1 < m"
      using Cons.prems(3) n Cons f by (simp_all add: json_string_def)
    have "read_value m (json_text v @ ?t) = Some (v, ?t)" using Cons.prems(2) len(1) f by (simp add: reads_back_def)
    with Cons.IH [of m] Cons.prems(2) len(2) Cons n f key show ?thesis
      unfolding join n by (simp add: starts_with_def)
  qed
qed simp

lemma int_text_head: "\<exists>c t. int_text i = c # t \<and> (is_digit c \<or> c = CHR ''-'')"
proof -
  obtain c t where "decimal (nat \<bar>i\<bar>) = c # t" using decimal_head(1) by (metis neq_Nil_conv)
  with hd_decimal [of "nat \<bar>i\<bar>"] show ?thesis by (auto simp: int_text_def)
qed

lemma json_text_head: "\<exists>c t. json_text v = c # t \<and> c \<noteq> CHR '']'' \<and> \<not> json_space c"
proof (cases v rule: json_text.cases)
  case (3 q)
  then show ?thesis using int_text_head [of "\<lfloor>q\<rfloor>"] digit_not_minus by (auto simp: json_space_def is_digit_def code_unit_def)
qed (auto simp: json_string_def json_space_def code_unit_def)

lemma reads_back_plain: "json_plain v \<Longrightarrow> reads_back v"
proof (induction v rule: json_plain.induct)
  case (1 n)
  then obtain i where i: "n = Finite (of_int i)" "safe_int i"
    using num_integer_eq [of n] by (auto simp: num_is_safe_integer_def)
  show ?case
    unfolding reads_back_def
  proof (intro allI impI)
    fix k r
    assume "length (json_text (JNum n)) < k" "number_end r"
    from this(1) obtain m where k: "k = Suc m" by (cases k) simp_all
    obtain c t where c: "int_text i = c # t" "is_digit c \<or> c = CHR ''-''" using int_text_head by blast
    have "\<not> json_space c" "c \<noteq> CHR 0x22" "c \<noteq> CHR ''[''" "c \<noteq> CHR ''{''" "c \<noteq> CHR ''n''" "c \<noteq> CHR ''t''" "c \<noteq> CHR ''f''"
      using c(2) digit_not_minus [of c] by (auto simp: json_space_def code_unit_def)
    then show "read_value k (json_text (JNum n) @ r) = Some (JNum n, r)"
      using read_number_text [OF i(2) \<open>number_end r\<close>] by (simp add: i(1) k c(1) skip_space_def starts_with_def)
  qed
next
  case (2 vs)
  then have vs: "\<forall>v \<in> set vs. reads_back v" by auto
  show ?case
    unfolding reads_back_def
  proof (intro allI impI)
    fix k r
    assume len: "length (json_text (JArr vs)) < k"
    then obtain m where k: "k = Suc m" by (cases k) simp_all
    show "read_value k (json_text (JArr vs) @ r) = Some (JArr vs, r)"
    proof (cases "vs = []")
      case False
      then have "read_elements m (js_join (CHR '','') (map json_text vs) @ CHR '']'' # r) = Some (vs, r)"
        using read_elements_text [OF False vs] len k by simp
      moreover have "\<not> starts_with (skip_space (js_join (CHR '','') (map json_text vs) @ CHR '']'' # r)) '']''"
        using json_text_head [of "hd vs"] False
        by (cases vs rule: remdups_adj.cases) (auto simp: skip_space_def starts_with_def)
      ultimately show ?thesis by (simp add: k)
    qed (simp add: k starts_with_def)
  qed
next
  case (3 fs)
  then have fs: "\<forall>f \<in> set fs. reads_back (snd f)" by auto
  show ?case
    unfolding reads_back_def
  proof (intro allI impI)
    fix k r
    assume len: "length (json_text (JObj fs)) < k"
    then obtain m where k: "k = Suc m" by (cases k) simp_all
    show "read_value k (json_text (JObj fs) @ r) = Some (JObj fs, r)"
    proof (cases "fs = []")
      case False
      then have "read_members m (js_join (CHR '','') (map member_text fs) @ CHR ''}'' # r) = Some (fs, r)"
        using read_members_text [OF False fs] len k by simp
      moreover obtain t where "js_join (CHR '','') (map member_text fs) = CHR 0x22 # t"
        using False by (cases fs rule: remdups_adj.cases) (auto simp: json_string_def)
      moreover have "fold put_field fs [] = fs" using put_fields_distinct [of "[]" fs] 3(2) by simp
      ultimately show ?thesis by (simp add: k starts_with_def)
    qed (simp add: k starts_with_def)
  qed
qed (auto simp: reads_back_def skip_space_def json_space_def code_unit_def starts_with_def json_string_def
    read_string_text elim: less_natE)

lemma json_parse_text: "json_plain v \<Longrightarrow> json_parse (json_text v) = Some v"
proof -
  assume "json_plain v"
  then have "read_value (Suc (length (json_text v))) (json_text v @ []) = Some (v, [])"
    using reads_back_plain [of v] unfolding reads_back_def by (metis lessI number_end_chars(4))
  then show ?thesis by (simp add: json_parse_def del: read_value.simps)
qed

lemma utf8_decode_encode: "utf8_decode (utf8_encode s) = Some s"
proof (induction s)
  case (Cons c s)
  let ?n = "code_unit c"
  have enc: "utf8_encode (c # s) = (if ?n < 128 then [?n] else [192 + ?n div 64, 128 + ?n mod 64]) @ utf8_encode s"
    by (simp add: utf8_encode_def Let_def)
  have c: "char_of ?n = c" by (simp add: code_unit_def)
  show ?case
  proof (cases "?n < 128")
    case True
    then show ?thesis by (simp add: enc Cons c)
  next
    case False
    have "?n < 256" by (rule code_unit_less)
    with False have hi: "?n div 64 = 2 \<or> ?n div 64 = 3" by linarith
    obtain q r where q: "q = ?n div 64" and r: "r = ?n mod 64" by simp
    have "64 * q + r = ?n" "r < 64" by (simp_all add: q r)
    with hi have "192 + q = 194 \<or> 192 + q = 195" "char_of (64 * (192 + q - 192) + (128 + r - 128)) = c"
      by (auto simp: q [symmetric] c)
    moreover have "utf8_encode (c # s) = (192 + q) # (128 + r) # utf8_encode s" using False by (simp add: enc q r)
    ultimately show ?thesis using \<open>r < 64\<close> by (auto simp: Cons)
  qed
qed (simp add: utf8_encode_def)

end
