(* ===== verification/AuditLog.thy ===== *)
theory AuditLog
  imports Json Prelogin RateLimits "HOL-Library.Product_Lexorder"
begin

text \<open>
  The audit log: \<open>src/domain/audit.ts\<close>, \<open>src/repositories/audit-event-repository.ts\<close> and \<open>emitAuditEvent\<close> of
  \<open>src/app.ts\<close>. Event names and outcomes are the strings of the source, the random id of a row is an argument.
\<close>

section \<open>Events\<close>

text \<open>\<open>JSON.stringify\<close> of a context, whose values are strings, integers, booleans and null.\<close>

definition context_text :: "(string \<times> json) list \<Rightarrow> string" where
  "context_text entries = json_text (JObj entries)"

record audit_input =
  ai_name :: string
  ai_outcome :: string
  ai_actor :: "(string option \<times> string option) option"
  ai_target :: "(string \<times> string option) option"
  ai_context :: "(string \<times> json) list"

record audit_event =
  ae_name :: string
  ae_outcome :: string
  ae_request_id :: string
  ae_occurred_at :: string
  ae_actor :: "(string option \<times> string option) option"
  ae_target :: "(string \<times> string option) option"
  ae_context :: "(string \<times> json) list option"

definition sensitive_context_key_fragments :: "string list" where
  "sensitive_context_key_fragments =
     [''body'', ''email'', ''encrypted'', ''hash'', ''key'', ''password'', ''payload'', ''secret'', ''token'']"

fun has_substring :: "string \<Rightarrow> string \<Rightarrow> bool" where
  "has_substring [] fragment \<longleftrightarrow> fragment = []"
| "has_substring (c # s) fragment \<longleftrightarrow> starts_with (c # s) fragment \<or> has_substring s fragment"

definition is_sensitive_context_key :: "string \<Rightarrow> bool" where
  "is_sensitive_context_key key \<longleftrightarrow> list_ex (has_substring (js_lower key)) sensitive_context_key_fragments"

definition sanitize_audit_context :: "(string \<times> json) list \<Rightarrow> (string \<times> json) list" where
  "sanitize_audit_context context = filter (\<lambda>(k, v). \<not> is_sensitive_context_key k) context"

definition build_audit_event :: "audit_input \<Rightarrow> string \<Rightarrow> string \<Rightarrow> audit_event" where
  "build_audit_event i request_id occurred_at =
     (let context = sanitize_audit_context (ai_context i)
      in \<lparr>ae_name = ai_name i, ae_outcome = ai_outcome i, ae_request_id = request_id, ae_occurred_at = occurred_at,
          ae_actor = ai_actor i, ae_target = ai_target i,
          ae_context = (if context = [] then None else Some context)\<rparr>)"

definition is_audit_logging_enabled :: "string option \<Rightarrow> bool" where
  "is_audit_logging_enabled v \<longleftrightarrow> v = Some ''true''"

section \<open>The table\<close>

definition audit_row :: "string \<Rightarrow> audit_event \<Rightarrow> audit_event_row" where
  "audit_row row_id e =
     \<lparr>ev_id = row_id, ev_name = ae_name e, ev_outcome = ae_outcome e, ev_request_id = ae_request_id e,
      ev_occurred_at = ae_occurred_at e, ev_actor_user_id = Option.bind (ae_actor e) fst,
      ev_actor_device_identifier = Option.bind (ae_actor e) snd, ev_target_type = map_option fst (ae_target e),
      ev_target_id = Option.bind (ae_target e) snd, ev_context_json = map_option context_text (ae_context e)\<rparr>"

definition persist_audit_event :: "string \<Rightarrow> audit_event \<Rightarrow> unit repo" where
  "persist_audit_event row_id e = with_batch [\<lambda>db prev. insert_audit_event (audit_row row_id e) db] (\<lambda>ns. return_value ())"

definition audit_retention_days :: int where "audit_retention_days = 365"
definition audit_max_rows_per_cleanup :: int where "audit_max_rows_per_cleanup = 100"

definition audit_due :: "string \<Rightarrow> audit_event_row \<Rightarrow> bool" where
  "audit_due expired_before r \<longleftrightarrow> ev_occurred_at r < expired_before"

definition cleanup_audit_rows :: "string \<Rightarrow> int \<Rightarrow> audit_event_row list \<Rightarrow> audit_event_row list \<times> nat" where
  "cleanup_audit_rows expired_before limit t = 
     delete_oldest ev_id (audit_due expired_before) (\<lambda>r. (ev_occurred_at r, ev_id r)) limit t"

definition cleanup_expired_audit_events :: "string \<Rightarrow> int \<Rightarrow> nat repo" where
  "cleanup_expired_audit_events expired_before limit db =
     (case cleanup_audit_rows expired_before limit (audit_events db) of
        (rest, n) \<Rightarrow> return_value n (db\<lparr>audit_events := rest\<rparr>))"

interpretation audit_retention: bounded_cleanup ev_id audit_due "\<lambda>r. (ev_occurred_at r, ev_id r)" cleanup_audit_rows
  by unfold_locales (simp add: cleanup_audit_rows_def)

section \<open>Emitting\<close>

text \<open>What a request knows when it emits: the flag, its id, the time and the row id that is drawn.\<close>

record audit_site =
  as_logs :: "string option"
  as_request_id :: string
  as_now :: string
  as_row_id :: string

definition emit_audit_event :: "audit_site \<Rightarrow> audit_input \<Rightarrow> unit repo" where
  "emit_audit_event site i =
     (if \<not> is_audit_logging_enabled (as_logs site) then return_value ()
      else persist_audit_event (as_row_id site) (build_audit_event i (as_request_id site) (as_now site)))"

text \<open>
  The log never stores a sensitive field. Whatever context a caller passes, the context of the stored row is the text of
  fields none of whose names contains, in any case, one of the fragments body, email, encrypted, hash, key,
  password, payload, secret and token.
\<close>
theorem audit_context_not_sensitive:
  assumes "audit_row row_id (build_audit_event i request_id now) = r" "ev_context_json r = Some text"
  shows "\<exists>kept. text = context_text kept \<and> set kept \<subseteq> set (ai_context i) \<and>
     (\<forall>(k, v) \<in> set kept. \<forall>fragment \<in> set sensitive_context_key_fragments. \<not> has_substring (js_lower k) fragment)"
  using assms
  by (intro exI [of _ "sanitize_audit_context (ai_context i)"])
    (auto simp: audit_row_def build_audit_event_def sanitize_audit_context_def is_sensitive_context_key_def list_ex_iff
      Let_def split: if_splits)

theorem audit_context_not_sensitive_witness:
  "\<exists>kept. ''{\"reason\":\"quota\"}'' = context_text kept \<and>
     set kept \<subseteq> {(''reason'', JStr ''quota''), (''refreshToken'', JStr ''secret'')}"
proof -
  let ?i = "\<lparr>ai_name = ''auth.request_poll'', ai_outcome = ''failure'', ai_actor = None, ai_target = None,
     ai_context = [(''reason'', JStr ''quota''), (''refreshToken'', JStr ''secret'')]\<rparr>"
  have "ev_context_json (audit_row ''e'' (build_audit_event ?i ''r'' ''n'')) = Some ''{\"reason\":\"quota\"}''"
    by code_simp
  from audit_context_not_sensitive [OF refl this] show ?thesis by auto
qed

end
