(* ===== verification/AuthRequests.thy ===== *)
theory AuthRequests
  imports AuditLog SessionProofs
begin

text \<open>
  Login with another device: \<open>src/domain/auth-request.ts\<close>, \<open>src/repositories/auth-request-repository.ts\<close> with the
  constraints of \<open>migrations/0012_auth_requests.sql\<close> and \<open>0013_auth_request_supersede.sql\<close>. HMAC-SHA-256 and
  SHA-256 are parameters; ids that are drawn and the clock are arguments.
\<close>

section \<open>Threading the database through a handler\<close>

definition repo_bind :: "'a repo \<Rightarrow> ('a \<Rightarrow> 'b repo) \<Rightarrow> 'b repo" where
  [sql_defs]: "repo_bind m f db = (case m db of (db', Inl e) \<Rightarrow> (db', Inl e) | (db', Inr x) \<Rightarrow> f x db')"

definition repo_read :: "(database \<Rightarrow> js_error + 'a) \<Rightarrow> 'a repo" where
  [sql_defs]: "repo_read f db = (db, f db)"

definition repo_get :: "(database \<Rightarrow> 'a) \<Rightarrow> 'a repo" where
  [sql_defs]: "repo_get f db = (db, Inr (f db))"

definition repo_lift :: "js_error + 'a \<Rightarrow> 'a repo" where
  [sql_defs]: "repo_lift m db = (db, m)"

text \<open>\<open>try { ... } catch { return fallback }\<close>\<close>

definition catch_all :: "'r \<Rightarrow> 'r repo \<Rightarrow> database \<Rightarrow> database \<times> 'r" where
  [sql_defs]: "catch_all fallback m db = (case m db of (db', Inl e) \<Rightarrow> (db', fallback) | (db', Inr r) \<Rightarrow> (db', r))"

section \<open>Request bodies\<close>

definition access_code_min :: nat where "access_code_min = 16"
definition access_code_max :: nat where "access_code_max = 512"
definition device_identifier_max :: nat where "device_identifier_max = 256"
definition device_type_max :: int where "device_type_max = 1000"
definition email_max :: nat where "email_max = 254"
definition response_key_max :: nat where "response_key_max = 65536"
definition request_public_key_max :: nat where "request_public_key_max = 32768"
definition active_lifetime_seconds :: int where "active_lifetime_seconds = 15 * 60"
definition terminal_retention_days :: int where "terminal_retention_days = 30"

definition read_optional_value :: "(string \<times> json) list \<Rightarrow> string list \<Rightarrow> json option" where
  "read_optional_value body keys = (case List.map_filter (jprop body) keys of [] \<Rightarrow> None | v # vs \<Rightarrow> Some v)"

definition read_trimmed_string :: "(string \<times> json) list \<Rightarrow> string list \<Rightarrow> string option" where
  "read_trimmed_string body keys = map_option js_trim (as_string (read_optional_value body keys))"

definition read_number :: "(string \<times> json) list \<Rightarrow> string list \<Rightarrow> js_number" where
  "read_number body keys = (case read_optional_value body keys of Some (JNum n) \<Rightarrow> n | _ \<Rightarrow> NaN)"

definition within_length :: "string option \<Rightarrow> nat \<Rightarrow> nat \<Rightarrow> bool" where
  "within_length v lo hi \<longleftrightarrow> (case v of None \<Rightarrow> False | Some s \<Rightarrow> lo \<le> length s \<and> length s \<le> hi)"

record auth_request_create =
  rc_email_normalized :: string
  rc_public_key :: string
  rc_device_identifier :: string
  rc_device_type :: int
  rc_access_code :: string
  rc_request_type :: int

definition parse_auth_request_create_body :: "json \<Rightarrow> js_number option \<Rightarrow> auth_request_create option" where
  "parse_auth_request_create_body body fallback_device_type =
     (case as_record body of
        None \<Rightarrow> None
      | Some obj \<Rightarrow>
          (let email = Option.bind (truthy_or_none (read_trimmed_string obj [''email'', ''Email''])) normalize_email;
               public_key = as_string (read_optional_value obj [''publicKey'', ''PublicKey'']);
               device = read_trimmed_string obj [''deviceIdentifier'', ''DeviceIdentifier''];
               body_type = read_number obj [''deviceType'', ''DeviceType''];
               device_type = (if body_type = NaN then fallback_device_type else Some body_type);
               code = as_string (read_optional_value obj [''accessCode'', ''AccessCode'']);
               request_type = read_number obj [''type'', ''Type'']
           in (case (email, device_type) of
                 (Some e, Some t) \<Rightarrow>
                   if length e \<le> email_max \<and> within_length public_key 1 request_public_key_max \<and>
                      within_length device 1 device_identifier_max \<and>
                      num_is_integer t \<and> 0 \<le> num_int t \<and> num_int t \<le> device_type_max \<and>
                      within_length code access_code_min access_code_max \<and>
                      (request_type = Finite 0 \<or> request_type = Finite 1)
                   then Some \<lparr>rc_email_normalized = e, rc_public_key = the public_key,
                              rc_device_identifier = the device, rc_device_type = num_int t,
                              rc_access_code = the code, rc_request_type = num_int request_type\<rparr>
                   else None
               | _ \<Rightarrow> None)))"

datatype auth_request_response = Approve string | Deny

definition parse_auth_request_response_body :: "json \<Rightarrow> auth_request_response option" where
  "parse_auth_request_response_body body =
     (case as_record body of
        None \<Rightarrow> None
      | Some obj \<Rightarrow>
          (let approved = read_optional_value obj [''requestApproved'', ''RequestApproved''];
               key = read_optional_value obj [''key'', ''Key'']
           in if approved = Some (JBool True)
              then (if within_length (as_string key) 1 response_key_max then Some (Approve (the (as_string key))) else None)
              else if approved = Some (JBool False) \<and> (key = None \<or> key = Some JNull) then Some Deny
              else None))"

section \<open>Timestamps and verifiers\<close>

definition build_auth_request_timestamps :: "string \<Rightarrow> js_error + (string \<times> string \<times> string)" where
  "build_auth_request_timestamps created_at =
     and_then (iso_shift created_at active_lifetime_seconds) (\<lambda>expires_at.
     and_then (iso_shift created_at (terminal_retention_days * 86400)) (\<lambda>delete_after.
       Inr (created_at, expires_at, delete_after)))"

definition verifier_prefix :: string where "verifier_prefix = ''hmac-sha256:''"

definition import_hmac_key :: "string \<Rightarrow> js_error + nat list" where
  "import_hmac_key secret =
     (if length (utf8_encode secret) < 32 then Inl (JsError ''Auth request secret must be at least 32 bytes.'')
      else Inr (utf8_encode secret))"

definition build_verifier :: "(nat list \<Rightarrow> nat list \<Rightarrow> nat list) \<Rightarrow> string \<Rightarrow> string \<Rightarrow> js_error + string" where
  "build_verifier hmac secret text =
     and_then (import_hmac_key secret) (\<lambda>key. Inr (verifier_prefix @ base64_url_encode_bytes (hmac key (utf8_encode text))))"

definition access_code_text :: "string \<Rightarrow> string \<Rightarrow> string" where
  "access_code_text request_id code = ''honowarden:auth-request:access-code:v1'' @ CHR 0x00 # request_id @ CHR 0x00 # code"

definition build_auth_request_access_code_hash ::
    "(nat list \<Rightarrow> nat list \<Rightarrow> nat list) \<Rightarrow> string \<Rightarrow> string \<Rightarrow> string \<Rightarrow> js_error + string" where
  "build_auth_request_access_code_hash hmac secret request_id code = build_verifier hmac secret (access_code_text request_id code)"

definition build_auth_request_email_hash :: "(nat list \<Rightarrow> nat list \<Rightarrow> nat list) \<Rightarrow> string \<Rightarrow> string \<Rightarrow> js_error + string" where
  "build_auth_request_email_hash hmac secret email =
     build_verifier hmac secret (''honowarden:auth-request:email:v1'' @ CHR 0x00 # email)"

definition build_auth_request_device_hash :: "(nat list \<Rightarrow> nat list \<Rightarrow> nat list) \<Rightarrow> string \<Rightarrow> string \<Rightarrow> js_error + string" where
  "build_auth_request_device_hash hmac secret identifier =
     build_verifier hmac secret (''honowarden:auth-request:device:v1'' @ CHR 0x00 # identifier)"

definition is_base64_url_char :: "char \<Rightarrow> bool" where
  "is_base64_url_char c \<longleftrightarrow>
     (let n = code_unit c
      in 65 \<le> n \<and> n \<le> 90 \<or> 97 \<le> n \<and> n \<le> 122 \<or> 48 \<le> n \<and> n \<le> 57 \<or> n = 95 \<or> n = 45)"

definition decode_verifier :: "string \<Rightarrow> nat list option" where
  "decode_verifier v =
     (if \<not> starts_with v verifier_prefix then None
      else let encoded = drop (length verifier_prefix) v
           in if length encoded \<noteq> 43 \<or> \<not> list_all is_base64_url_char encoded then None
              else atob (map unurl_char encoded @ ''=''))"

definition verify_auth_request_access_code ::
    "(nat list \<Rightarrow> nat list \<Rightarrow> nat list) \<Rightarrow> string \<Rightarrow> string \<Rightarrow> string \<Rightarrow> string \<Rightarrow> js_error + bool" where
  "verify_auth_request_access_code hmac secret request_id code stored =
     (case decode_verifier stored of
        None \<Rightarrow> Inr False
      | Some signature \<Rightarrow>
          and_then (import_hmac_key secret) (\<lambda>key.
            Inr (signature = hmac key (utf8_encode (access_code_text request_id code)))))"

section \<open>The table and its constraints\<close>

text \<open>A CHECK fails only when its condition is false, not when NULL makes it unknown.\<close>

definition auth_request_check :: "auth_request_row \<Rightarrow> bool" where
  "auth_request_check r \<longleftrightarrow>
     ar_request_type r \<in> {0, 1} \<and>
     ar_approving_device_identifier r \<noteq> Some (ar_request_device_identifier r) \<and>
     (ar_status r = Approved \<longrightarrow>
        ar_request_approved r \<noteq> Some False \<and> ar_encrypted_response_key r \<noteq> None \<and> ar_response_at r \<noteq> None) \<and>
     (ar_status r = Denied \<longrightarrow>
        ar_request_approved r \<noteq> Some True \<and> ar_encrypted_response_key r = None \<and> ar_response_at r \<noteq> None) \<and>
     (ar_status r = Consumed \<longrightarrow>
        ar_request_approved r \<noteq> Some False \<and> ar_encrypted_response_key r \<noteq> None \<and> ar_consumed_at r \<noteq> None) \<and>
     (ar_status r = Superseded \<longrightarrow> ar_request_approved r = Some False \<and> ar_encrypted_response_key r = None)"

definition pending_owned :: "auth_request_row \<Rightarrow> bool" where
  "pending_owned r \<longleftrightarrow> ar_status r = Pending \<and> ar_user_id r \<noteq> None"

definition auth_requests_ok :: "database \<Rightarrow> bool" where
  "auth_requests_ok db \<longleftrightarrow>
     list_all auth_request_check (auth_requests db) \<and>
     distinct (map (\<lambda>r. (ar_user_id r, ar_request_device_identifier r)) (filter pending_owned (auth_requests db)))"

definition update_requests ::
    "(auth_request_row \<Rightarrow> bool) \<Rightarrow> (auth_request_row \<Rightarrow> auth_request_row) \<Rightarrow> database stmt" where
  "update_requests p f = checked auth_requests_ok (update_stmt auth_requests auth_requests_update (\<lambda>db prev. p) f)"

definition insert_auth_request :: "auth_request_row \<Rightarrow> database stmt" where
  "insert_auth_request row =
     checked auth_requests_ok (\<lambda>db prev.
       if sql_exists (\<lambda>r. ar_id r = ar_id row) (auth_requests db) \<or>
          (case ar_user_id row of None \<Rightarrow> False | Some u \<Rightarrow> \<not> user_exists u db)
       then Inl ConstraintError
       else Inr (auth_requests_update (\<lambda>t. t @ [row]) db, 1))"

section \<open>The repository\<close>

record create_auth_request_input =
  ci_id :: string
  ci_user_id :: "string option"
  ci_email_hash :: string
  ci_request_type :: int
  ci_request_device_identifier :: string
  ci_request_device_type :: int
  ci_request_public_key :: string
  ci_access_code_hash :: string
  ci_created_at :: string
  ci_expires_at :: string
  ci_retention_delete_after :: string

definition pending_row :: "create_auth_request_input \<Rightarrow> auth_request_row" where
  "pending_row i =
     \<lparr>ar_id = ci_id i, ar_user_id = ci_user_id i, ar_email_hash = ci_email_hash i, ar_request_type = ci_request_type i,
      ar_request_device_identifier = ci_request_device_identifier i, ar_request_device_type = ci_request_device_type i,
      ar_request_public_key = ci_request_public_key i, ar_access_code_hash = ci_access_code_hash i, ar_status = Pending,
      ar_request_approved = None, ar_approving_device_identifier = None, ar_encrypted_response_key = None,
      ar_created_at = ci_created_at i, ar_response_at = None, ar_consumed_at = None, ar_expires_at = ci_expires_at i,
      ar_retention_delete_after = ci_retention_delete_after i, ar_updated_at = ci_created_at i\<rparr>"

definition same_request_device :: "create_auth_request_input \<Rightarrow> auth_request_row \<Rightarrow> bool" where
  "same_request_device i r \<longleftrightarrow>
     ci_user_id i \<noteq> None \<and> ar_user_id r = ci_user_id i \<and>
     ar_request_device_identifier r = ci_request_device_identifier i \<and> ar_status r = Pending"

definition create_auth_request :: "create_auth_request_input \<Rightarrow> unit repo" where
  "create_auth_request i =
     with_batch
       (if ci_user_id i = None then [insert_auth_request (pending_row i)]
        else [update_requests (\<lambda>r. same_request_device i r \<and> ar_expires_at r \<le> ci_created_at i)
                (\<lambda>r. r\<lparr>ar_status := Expired, ar_updated_at := ci_created_at i\<rparr>),
              update_requests (\<lambda>r. same_request_device i r \<and> ar_expires_at r > ci_created_at i \<and> ar_id r \<noteq> ci_id i)
                (\<lambda>r. r\<lparr>ar_status := Superseded, ar_request_approved := Some False, ar_updated_at := ci_created_at i\<rparr>),
              insert_auth_request (pending_row i)])
       (\<lambda>ns. return_value ())"

definition list_pending_auth_requests :: "string \<Rightarrow> string \<Rightarrow> database \<Rightarrow> auth_request_row list" where
  "list_pending_auth_requests user_id now db =
     sort_descending ar_created_at (sort_descending ar_id
       (filter (\<lambda>r. ar_user_id r = Some user_id \<and> ar_status r = Pending \<and> ar_expires_at r > now) (auth_requests db)))"

definition find_auth_request_for_owner :: "string \<Rightarrow> string \<Rightarrow> database \<Rightarrow> auth_request_row option" where
  "find_auth_request_for_owner rid user_id db =
     sql_first (\<lambda>r. ar_id r = rid \<and> ar_user_id r = Some user_id) (auth_requests db)"

definition find_auth_request_verifier_by_id :: "string \<Rightarrow> string \<Rightarrow> database \<Rightarrow> auth_request_row option" where
  "find_auth_request_verifier_by_id rid now db =
     sql_first (\<lambda>r. ar_id r = rid \<and> ar_status r \<in> {Pending, Approved, Denied} \<and> ar_expires_at r > now) (auth_requests db)"

text \<open>A pending, unexpired request of the user that another device asked for.\<close>

definition answerable :: "string \<Rightarrow> string \<Rightarrow> string \<Rightarrow> string \<Rightarrow> auth_request_row \<Rightarrow> bool" where
  "answerable rid user_id approving_device now r \<longleftrightarrow>
     ar_id r = rid \<and> ar_user_id r = Some user_id \<and> ar_status r = Pending \<and> ar_expires_at r > now \<and>
     ar_request_device_identifier r \<noteq> approving_device"

definition transition_result :: "nat list \<Rightarrow> bool repo" where
  "transition_result ns = return_value (ns ! 0 = 1)"

definition approve_auth_request :: "string \<Rightarrow> string \<Rightarrow> string \<Rightarrow> string \<Rightarrow> string \<Rightarrow> bool repo" where
  "approve_auth_request rid user_id approving_device encrypted_response_key now =
     with_batch
       [update_requests (answerable rid user_id approving_device now)
          (\<lambda>r. r\<lparr>ar_status := Approved, ar_request_approved := Some True,
                 ar_approving_device_identifier := Some approving_device,
                 ar_encrypted_response_key := Some encrypted_response_key,
                 ar_response_at := Some now, ar_updated_at := now\<rparr>)]
       transition_result"

definition deny_auth_request :: "string \<Rightarrow> string \<Rightarrow> string \<Rightarrow> string \<Rightarrow> bool repo" where
  "deny_auth_request rid user_id approving_device now =
     with_batch
       [update_requests (answerable rid user_id approving_device now)
          (\<lambda>r. r\<lparr>ar_status := Denied, ar_request_approved := Some False,
                 ar_approving_device_identifier := Some approving_device, ar_encrypted_response_key := None,
                 ar_response_at := Some now, ar_updated_at := now\<rparr>)]
       transition_result"

definition consume_row :: "string \<Rightarrow> auth_request_row \<Rightarrow> auth_request_row" where
  "consume_row now r = r\<lparr>ar_status := Consumed, ar_consumed_at := Some now, ar_updated_at := now\<rparr>"

definition consume_auth_request :: "string \<Rightarrow> string \<Rightarrow> string \<Rightarrow> string \<Rightarrow> bool repo" where
  "consume_auth_request rid access_code_hash request_device now =
     with_batch
       [update_requests (\<lambda>r. ar_id r = rid \<and> ar_access_code_hash r = access_code_hash \<and>
          ar_request_device_identifier r = request_device \<and> ar_status r = Approved \<and> ar_expires_at r > now)
          (consume_row now)]
       transition_result"

record consume_session_input =
  cs_auth_request_id :: string
  cs_access_code_hash :: string
  cs_user_id :: string
  cs_request_device_identifier :: string
  cs_device_id :: string
  cs_device_name :: "string option"
  cs_device_type :: "int option"
  cs_refresh_token_id :: string
  cs_refresh_token_hash :: string
  cs_refresh_token_expires_at :: string
  cs_now :: string

definition eligible :: "consume_session_input \<Rightarrow> auth_request_row \<Rightarrow> bool" where
  "eligible i r \<longleftrightarrow>
     ar_id r = cs_auth_request_id i \<and> ar_user_id r = Some (cs_user_id i) \<and>
     ar_request_device_identifier r = cs_request_device_identifier i \<and>
     ar_access_code_hash r = cs_access_code_hash i \<and> ar_status r = Approved \<and> ar_expires_at r > cs_now i"

definition consume_device_row :: "consume_session_input \<Rightarrow> database \<Rightarrow> device_row" where
  "consume_device_row i db =
     \<lparr>d_id = cs_device_id i, d_user_id = cs_user_id i, d_identifier = cs_request_device_identifier i,
      d_name = cs_device_name i, d_type = cs_device_type i, d_encrypted_user_key = None,
      d_encrypted_public_key = None, d_encrypted_private_key = None, d_last_seen_at = Some (cs_now i),
      d_revoked_at = None, d_created_at = sql_clock db, d_updated_at = cs_now i, d_session_id = None,
      d_mfa_totp_credential_generation = None, d_mfa_verified_at = None\<rparr>"

definition start_consumed_session :: "consume_session_input \<Rightarrow> device_row \<Rightarrow> device_row" where
  "start_consumed_session i d =
     d\<lparr>d_name := cs_device_name i, d_type := cs_device_type i, d_last_seen_at := Some (cs_now i),
       d_revoked_at := None, d_updated_at := cs_now i, d_session_id := Some (cs_refresh_token_id i),
       d_mfa_totp_credential_generation := None, d_mfa_verified_at := None\<rparr>"

definition consume_token_row :: "consume_session_input \<Rightarrow> database \<Rightarrow> refresh_token_row" where
  "consume_token_row i db =
     \<lparr>rt_id = cs_refresh_token_id i, rt_user_id = cs_user_id i, rt_device_id = cs_device_id i,
      rt_token_hash = cs_refresh_token_hash i, rt_rotated_from_token_id = None,
      rt_expires_at = cs_refresh_token_expires_at i, rt_revoked_at = None, rt_created_at = sql_clock db,
      rt_session_id = Some (cs_refresh_token_id i)\<rparr>"

definition consume_auth_request_with_session :: "consume_session_input \<Rightarrow> bool repo" where
  "consume_auth_request_with_session i =
     with_batch
       [\<lambda>db prev. if sql_exists (eligible i) (auth_requests db)
                  then insert_or_ignore_device (consume_device_row i db) db else Inr (db, 0),
        update_stmt devices devices_update
          (\<lambda>db prev d. d_id d = cs_device_id i \<and> d_user_id d = cs_user_id i \<and> sql_exists (eligible i) (auth_requests db))
          (start_consumed_session i),
        \<lambda>db prev. if sql_exists (eligible i) (auth_requests db)
                  then insert_refresh_token (consume_token_row i db) db else Inr (db, 0),
        \<lambda>db prev. update_requests
          (\<lambda>r. eligible i r \<and> sql_exists (\<lambda>t. rt_id t = cs_refresh_token_id i \<and> rt_user_id t = cs_user_id i \<and>
             rt_device_id t = cs_device_id i) (refresh_tokens db))
          (consume_row (cs_now i)) db prev]
       (\<lambda>ns. return_value (ns ! 2 = 1 \<and> ns ! 3 = 1))"

definition expire_auth_requests :: "string \<Rightarrow> int \<Rightarrow> nat repo" where
  "expire_auth_requests now limit db =
     (let ids = map ar_id (select_oldest (\<lambda>r. ar_status r \<in> {Pending, Approved} \<and> ar_expires_at r \<le> now)
            ar_expires_at limit (auth_requests db))
      in with_batch
           [update_requests (\<lambda>r. ar_id r \<in> set ids) (\<lambda>r. r\<lparr>ar_status := Expired, ar_updated_at := now\<rparr>)]
           (\<lambda>ns. return_value (ns ! 0)) db)"

definition retained_due :: "string \<Rightarrow> auth_request_row \<Rightarrow> bool" where
  "retained_due now r \<longleftrightarrow>
     ar_status r \<in> {Denied, Consumed, Expired, Superseded} \<and> ar_retention_delete_after r \<le> now"

definition delete_retained_rows :: "string \<Rightarrow> int \<Rightarrow> auth_request_row list \<Rightarrow> auth_request_row list \<times> nat" where
  "delete_retained_rows now limit t = delete_oldest ar_id (retained_due now) ar_retention_delete_after limit t"

definition delete_retained_auth_requests :: "string \<Rightarrow> int \<Rightarrow> nat repo" where
  "delete_retained_auth_requests now limit db =
     (case delete_retained_rows now limit (auth_requests db) of
        (rest, n) \<Rightarrow> return_value n (auth_requests_update (\<lambda>_. rest) db))"

text \<open>
  What a change of the credentials, a disabling of the account and a rotation of the user key do to the requests of
  the account: an open request, also one that is approved, becomes superseded and loses its key. The deletion of an account deletes
  its requests. In the code these statements stand in the batches of those changes, under an EXISTS on the row of the account
  that the change has just written (\<open>supersede_requests_statement\<close> of \<open>CredentialWrites\<close> keeps that guard); here they may happen
  at any time, and no guard is needed.
\<close>

definition open_request_of :: "string \<Rightarrow> auth_request_row \<Rightarrow> bool" where
  "open_request_of user_id r \<longleftrightarrow> ar_user_id r = Some user_id \<and> ar_status r \<in> {Pending, Approved}"

definition revoked_request :: "string \<Rightarrow> auth_request_row \<Rightarrow> auth_request_row" where
  "revoked_request now r =
     r\<lparr>ar_status := Superseded, ar_request_approved := Some False, ar_encrypted_response_key := None, ar_updated_at := now\<rparr>"

definition revoke_open_requests :: "string \<Rightarrow> string \<Rightarrow> unit repo" where
  "revoke_open_requests user_id now =
     with_batch [update_requests (open_request_of user_id) (revoked_request now)] (\<lambda>ns. return_value ())"

definition erase_requests :: "string \<Rightarrow> unit repo" where
  "erase_requests user_id db =
     return_value () (auth_requests_update (sql_delete (\<lambda>r. ar_user_id r = Some user_id)) db)"

section \<open>The life of a request\<close>

datatype request_op =
    Create create_auth_request_input
  | ApproveOp string string string string string
  | DenyOp string string string string
  | ConsumeOp string string string string
  | ConsumeSession consume_session_input
  | ExpireOp string int
  | DeleteRetained string int
  | RevokeRequests string string
  | EraseRequests string

fun request_exec :: "request_op \<Rightarrow> database \<Rightarrow> database" where
  "request_exec (Create i) db = fst (create_auth_request i db)"
| "request_exec (ApproveOp rid u d k now) db = fst (approve_auth_request rid u d k now db)"
| "request_exec (DenyOp rid u d now) db = fst (deny_auth_request rid u d now db)"
| "request_exec (ConsumeOp rid h d now) db = fst (consume_auth_request rid h d now db)"
| "request_exec (ConsumeSession i) db = fst (consume_auth_request_with_session i db)"
| "request_exec (ExpireOp now limit) db = fst (expire_auth_requests now limit db)"
| "request_exec (DeleteRetained now limit) db = fst (delete_retained_auth_requests now limit db)"
| "request_exec (RevokeRequests uid now) db = fst (revoke_open_requests uid now db)"
| "request_exec (EraseRequests uid) db = fst (erase_requests uid db)"

text \<open>The id a creation draws; a run records the ids drawn so far, and a drawn id is new. Other components may
  change the other tables in between; what they do to this one are the last two operations.\<close>

fun drawn_request_id :: "request_op \<Rightarrow> string set" where
  "drawn_request_id (Create i) = {ci_id i}"
| "drawn_request_id _ = {}"

inductive request_run :: "string set \<times> database \<Rightarrow> string set \<times> database \<Rightarrow> bool" where
  stay: "request_run s s"
| step: "request_run s (issued, db) \<Longrightarrow> drawn_request_id op \<inter> issued = {} \<Longrightarrow>
     request_run s (issued \<union> drawn_request_id op, request_exec op db)"
| elsewhere: "request_run s (issued, db) \<Longrightarrow> auth_requests db' = auth_requests db \<Longrightarrow> request_run s (issued, db')"

text \<open>What a row of each status holds.\<close>

definition answered :: "bool \<Rightarrow> auth_request_row \<Rightarrow> bool" where
  "answered approved r \<longleftrightarrow>
     ar_request_approved r = Some approved \<and> ar_response_at r \<noteq> None \<and>
     (ar_encrypted_response_key r \<noteq> None) = approved \<and>
     (\<exists>d. ar_approving_device_identifier r = Some d \<and> d \<noteq> ar_request_device_identifier r)"

definition unanswered :: "auth_request_row \<Rightarrow> bool" where
  "unanswered r \<longleftrightarrow>
     ar_request_approved r = None \<and> ar_response_at r = None \<and> ar_encrypted_response_key r = None \<and>
     ar_approving_device_identifier r = None"

definition row_shape :: "auth_request_row \<Rightarrow> bool" where
  "row_shape r \<longleftrightarrow>
     (case ar_status r of
        Pending \<Rightarrow> unanswered r \<and> ar_consumed_at r = None
      | Approved \<Rightarrow> answered True r \<and> ar_consumed_at r = None
      | Denied \<Rightarrow> answered False r \<and> ar_consumed_at r = None
      | Consumed \<Rightarrow> answered True r \<and> ar_consumed_at r \<noteq> None
      | Expired \<Rightarrow> (unanswered r \<or> answered True r) \<and> ar_consumed_at r = None
      | Superseded \<Rightarrow> ar_request_approved r = Some False \<and> ar_encrypted_response_key r = None \<and> ar_consumed_at r = None \<and>
          ar_approving_device_identifier r \<noteq> Some (ar_request_device_identifier r))"

text \<open>
  How a row may change: what identifies the request stays, and an answer is not replaced by another one. An approval can be
  revoked, which erases its key.
\<close>

definition status_leads :: "auth_request_status \<Rightarrow> auth_request_status \<Rightarrow> bool" where
  "status_leads s t \<longleftrightarrow> s = t \<or> s = Pending \<or> (s = Approved \<and> t \<in> {Consumed, Expired, Superseded})"

definition row_evolves :: "auth_request_row \<Rightarrow> auth_request_row \<Rightarrow> bool" where
  "row_evolves r r' \<longleftrightarrow>
     ar_id r' = ar_id r \<and> ar_user_id r' = ar_user_id r \<and> ar_email_hash r' = ar_email_hash r \<and>
     ar_request_type r' = ar_request_type r \<and> ar_request_public_key r' = ar_request_public_key r \<and>
     ar_request_device_identifier r' = ar_request_device_identifier r \<and>
     ar_access_code_hash r' = ar_access_code_hash r \<and> ar_expires_at r' = ar_expires_at r \<and>
     status_leads (ar_status r) (ar_status r') \<and>
     (ar_status r \<noteq> Pending \<longrightarrow>
        ar_approving_device_identifier r' = ar_approving_device_identifier r \<and>
        ar_response_at r' = ar_response_at r \<and>
        (if ar_status r = Approved \<and> ar_status r' = Superseded
         then ar_request_approved r' = Some False \<and> ar_encrypted_response_key r' = None
         else ar_request_approved r' = ar_request_approved r \<and>
           ar_encrypted_response_key r' = ar_encrypted_response_key r))"

lemma row_evolves_refl [simp]: "row_evolves r r"
  by (auto simp: row_evolves_def status_leads_def)

lemma row_evolves_trans: "row_evolves r s \<Longrightarrow> row_evolves s t \<Longrightarrow> row_evolves r t"
  by (auto simp: row_evolves_def status_leads_def split: if_splits)

definition table_evolves :: "string set \<Rightarrow> auth_request_row list \<Rightarrow> auth_request_row list \<Rightarrow> bool" where
  "table_evolves issued t t' \<longleftrightarrow>
     (\<forall>r' \<in> set t'. (\<exists>r \<in> set t. row_evolves r r') \<or> ar_id r' \<notin> issued)"

definition request_inv :: "string set \<times> database \<Rightarrow> bool" where
  "request_inv s \<longleftrightarrow>
     (case s of (issued, db) \<Rightarrow>
        auth_requests_ok db \<and> distinct (map ar_id (auth_requests db)) \<and>
        (\<forall>r \<in> set (auth_requests db). ar_id r \<in> issued \<and> row_shape r))"

text \<open>A statement that keeps the invariant and lets rows evolve only as they may.\<close>

definition lawful :: "string set \<Rightarrow> string set \<Rightarrow> database stmt \<Rightarrow> bool" where
  "lawful known issued s \<longleftrightarrow>
     (\<forall>db n db' k. s db n = Inr (db', k) \<longrightarrow> request_inv (issued, db) \<longrightarrow>
        request_inv (issued, db') \<and> table_evolves known (auth_requests db) (auth_requests db'))"

named_theorems lawfuls \<open>statements that keep the invariant of the requests\<close>

lemma evolves_member: "r \<in> set t \<Longrightarrow> \<exists>s \<in> set t. row_evolves s r"
  by (rule bexI [of _ r]) simp_all

lemma row_evolves_id: "row_evolves r r' \<Longrightarrow> ar_id r' = ar_id r"
  by (simp add: row_evolves_def)

lemma table_evolves_refl [simp]: "table_evolves known t t"
  using evolves_member by (auto simp: table_evolves_def)

lemma table_evolves_trans: "table_evolves known t u \<Longrightarrow> table_evolves known u v \<Longrightarrow> table_evolves known t v"
  unfolding table_evolves_def
proof (intro ballI)
  fix r
  assume tu: "\<forall>r' \<in> set u. (\<exists>r \<in> set t. row_evolves r r') \<or> ar_id r' \<notin> known"
    and uv: "\<forall>r' \<in> set v. (\<exists>r \<in> set u. row_evolves r r') \<or> ar_id r' \<notin> known" and r: "r \<in> set v"
  show "(\<exists>q \<in> set t. row_evolves q r) \<or> ar_id r \<notin> known"
  proof (cases "ar_id r \<in> known")
    case True
    with uv r obtain s where s: "s \<in> set u" "row_evolves s r" by blast
    with True have "ar_id s \<in> known" by (simp add: row_evolves_id)
    with tu s(1) obtain q where "q \<in> set t" "row_evolves q s" by blast
    with s(2) show ?thesis using row_evolves_trans by blast
  qed simp
qed

lemma update_requests_keeps:
  assumes run: "update_requests p f db n = Inr (db', k)" and inv: "request_inv (issued, db)"
    and each: "\<And>r. r \<in> set (auth_requests db) \<Longrightarrow> p r \<Longrightarrow> row_shape r \<Longrightarrow> row_evolves r (f r) \<and> row_shape (f r)"
  shows "request_inv (issued, db') \<and> table_evolves known (auth_requests db) (auth_requests db')"
proof
  from run have db': "db' = auth_requests_update (sql_update p f) db" and ok: "auth_requests_ok db'"
    by (auto simp: update_requests_def checked_def update_stmt_def split: if_splits)
  have shape: "row_shape r" "ar_id r \<in> issued" if "r \<in> set (auth_requests db)" for r
    using that inv by (auto simp: request_inv_def)
  have ev: "row_evolves r (f r)" "row_shape (f r)" "ar_id (f r) = ar_id r" if "p r" "r \<in> set (auth_requests db)" for r
    using each [OF that(2,1) shape(1) [OF that(2)]] by (auto simp: row_evolves_def)
  have "map ar_id (auth_requests db') = map ar_id (auth_requests db)"
    using ev(3) by (auto simp: db' sql_update_def)
  then show "request_inv (issued, db')"
    using inv ok shape ev by (auto simp: request_inv_def db' ball_sql_update)
  show "table_evolves known (auth_requests db) (auth_requests db')"
    using ev(1) evolves_member by (auto simp: table_evolves_def db' ball_sql_update)
qed

lemma lawful_update [lawfuls]:
  assumes "\<And>r. p r \<Longrightarrow> row_shape r \<Longrightarrow> row_evolves r (f r) \<and> row_shape (f r)"
  shows "lawful known issued (update_requests p f)"
  unfolding lawful_def
proof (intro allI impI)
  fix db n db' k
  assume "update_requests p f db n = Inr (db', k)" "request_inv (issued, db)"
  then show "request_inv (issued, db') \<and> table_evolves known (auth_requests db) (auth_requests db')"
    using assms by (rule update_requests_keeps)
qed

lemma lawful_insert [lawfuls]:
  assumes "row_shape row" "ar_id row \<in> issued" "ar_id row \<notin> known"
  shows "lawful known issued (insert_auth_request row)"
  unfolding lawful_def
proof (intro allI impI)
  fix db n db' k
  assume run: "insert_auth_request row db n = Inr (db', k)" and inv: "request_inv (issued, db)"
  from run have db': "db' = auth_requests_update (\<lambda>t. t @ [row]) db" and ok: "auth_requests_ok db'"
    and new: "\<not> sql_exists (\<lambda>r. ar_id r = ar_id row) (auth_requests db)"
    by (auto simp: insert_auth_request_def checked_def split: if_splits)
  from new have "ar_id row \<notin> ar_id ` set (auth_requests db)" by (auto simp: sql_exists_iff)
  then have "request_inv (issued, db')" using inv ok assms(1,2) by (auto simp: request_inv_def db')
  moreover have "table_evolves known (auth_requests db) (auth_requests db')"
    using assms(3) evolves_member by (auto simp: table_evolves_def db')
  ultimately show "request_inv (issued, db') \<and> table_evolves known (auth_requests db) (auth_requests db')" by simp
qed

lemma lawful_same:
  assumes "\<And>db n db' k. s db n = Inr (db', k) \<Longrightarrow> auth_requests db' = auth_requests db"
  shows "lawful known issued s"
  unfolding lawful_def using assms by (auto simp: request_inv_def auth_requests_ok_def)

lemma lawful_dependent: "(\<And>d. lawful known issued (s d)) \<Longrightarrow> lawful known issued (\<lambda>db prev. s db db prev)"
  by (simp add: lawful_def)

lemma lawful_batch:
  assumes "\<And>s. s \<in> set ss \<Longrightarrow> lawful known issued s" "\<And>ns d. fst (k ns d) = d" "request_inv (issued, db)"
  shows "request_inv (issued, fst (with_batch ss k db)) \<and>
    table_evolves known (auth_requests db) (auth_requests (fst (with_batch ss k db)))"
proof (rule with_batch_invariant [where P = "\<lambda>d. request_inv (issued, d) \<and> table_evolves known (auth_requests db) (auth_requests d)"])
  fix s d n d' k
  assume "s \<in> set ss" "s d n = Inr (d', k)" "request_inv (issued, d) \<and> table_evolves known (auth_requests db) (auth_requests d)"
  with assms(1) [of s] show "request_inv (issued, d') \<and> table_evolves known (auth_requests db) (auth_requests d')"
    unfolding lawful_def using table_evolves_trans by blast
qed (use assms(2,3) in auto)

text \<open>The same for one statement on one database.\<close>

definition lawful_at :: "string set \<Rightarrow> database \<Rightarrow> database stmt \<Rightarrow> bool" where
  "lawful_at issued db s \<longleftrightarrow>
     (\<forall>n db' k. s db n = Inr (db', k) \<longrightarrow>
        request_inv (issued, db') \<and> table_evolves issued (auth_requests db) (auth_requests db'))"

lemma lawful_single:
  assumes "lawful_at issued db s" "\<And>ns d. fst (k ns d) = d" "request_inv (issued, db)"
  shows "request_inv (issued, fst (with_batch [s] k db)) \<and>
    table_evolves issued (auth_requests db) (auth_requests (fst (with_batch [s] k db)))"
  using assms by (auto simp: with_batch_def batch_eval lawful_at_def split: sum.splits)

lemma request_inv_mono: "request_inv (issued, db) \<Longrightarrow> issued \<subseteq> issued' \<Longrightarrow> request_inv (issued', db)"
  by (auto simp: request_inv_def)

lemma same_requests_insert_device: "insert_or_ignore_device d db = Inr (db', k) \<Longrightarrow> auth_requests db' = auth_requests db"
  by (auto simp: insert_or_ignore_device_Inr)

lemma same_requests_insert_token: "insert_refresh_token t db = Inr (db', k) \<Longrightarrow> auth_requests db' = auth_requests db"
  by (auto simp: insert_refresh_token_Inr)

lemmas shapes = row_shape_def answered_def unanswered_def row_evolves_def status_leads_def

lemma lawful_consume: "lawful known issued s"
  if "s \<in> set
       [\<lambda>db prev. if sql_exists (eligible i) (auth_requests db)
                  then insert_or_ignore_device (consume_device_row i db) db else Inr (db, 0),
        update_stmt devices devices_update
          (\<lambda>db prev d. d_id d = cs_device_id i \<and> d_user_id d = cs_user_id i \<and> sql_exists (eligible i) (auth_requests db))
          (start_consumed_session i),
        \<lambda>db prev. if sql_exists (eligible i) (auth_requests db)
                  then insert_refresh_token (consume_token_row i db) db else Inr (db, 0),
        \<lambda>db prev. update_requests
          (\<lambda>r. eligible i r \<and> sql_exists (\<lambda>t. rt_id t = cs_refresh_token_id i \<and> rt_user_id t = cs_user_id i \<and>
             rt_device_id t = cs_device_id i) (refresh_tokens db))
          (consume_row (cs_now i)) db prev]"
proof -
  have "lawful known issued (\<lambda>db prev. update_requests
          (\<lambda>r. eligible i r \<and> sql_exists (\<lambda>t. rt_id t = cs_refresh_token_id i \<and> rt_user_id t = cs_user_id i \<and>
             rt_device_id t = cs_device_id i) (refresh_tokens db)) (consume_row (cs_now i)) db prev)"
    by (rule lawful_dependent, rule lawful_update) (auto simp: eligible_def consume_row_def shapes)
  moreover have "lawful known issued (update_stmt devices devices_update
          (\<lambda>db prev d. d_id d = cs_device_id i \<and> d_user_id d = cs_user_id i \<and> sql_exists (eligible i) (auth_requests db))
          (start_consumed_session i))"
    by (rule lawful_same) (simp add: update_stmt_Inr)
  moreover have "lawful known issued (\<lambda>db prev. if sql_exists (eligible i) (auth_requests db)
                  then insert_or_ignore_device (consume_device_row i db) db else Inr (db, 0))"
    by (rule lawful_same) (auto split: if_splits dest: same_requests_insert_device)
  moreover have "lawful known issued (\<lambda>db prev. if sql_exists (eligible i) (auth_requests db)
                  then insert_refresh_token (consume_token_row i db) db else Inr (db, 0))"
    by (rule lawful_same) (auto split: if_splits dest: same_requests_insert_token)
  ultimately show ?thesis using that by auto
qed

lemma fst_transition [simp]: "fst (transition_result ns db) = db"
  by (simp add: transition_result_def)

lemma request_inv_fewer:
  assumes "request_inv (issued, db)" "auth_requests db' = filter q (auth_requests db)"
  shows "request_inv (issued, db') \<and> table_evolves known (auth_requests db) (auth_requests db')"
proof -
  have swap: "filter pending_owned (filter q t) = filter q (filter pending_owned t)" for t
    by (simp add: conj_commute)
  have "auth_requests_ok db'"
    using assms(1) unfolding auth_requests_ok_def request_inv_def assms(2) swap
    by (auto simp: distinct_map_filter list_all_iff simp del: filter_filter)
  then have "request_inv (issued, db')"
    using assms(1) by (auto simp: request_inv_def assms(2) distinct_map_filter)
  moreover have "table_evolves known (auth_requests db) (auth_requests db')"
    using evolves_member by (auto simp: table_evolves_def assms(2))
  ultimately show ?thesis by simp
qed

lemma request_step_inv:
  assumes "request_inv (issued, db)" "drawn_request_id op \<inter> issued = {}"
  shows "request_inv (issued \<union> drawn_request_id op, request_exec op db) \<and>
    table_evolves issued (auth_requests db) (auth_requests (request_exec op db))"
proof (cases op)
  case (Create i)
  have inv: "request_inv (insert (ci_id i) issued, db)" using request_inv_mono [OF assms(1)] by auto
  have "lawful issued (insert (ci_id i) issued) (insert_auth_request (pending_row i))"
    using assms(2) Create by (intro lawful_insert) (auto simp: pending_row_def shapes)
  moreover have "lawful issued (insert (ci_id i) issued) (update_requests (\<lambda>r. same_request_device i r \<and> ar_expires_at r \<le> ci_created_at i)
                (\<lambda>r. r\<lparr>ar_status := Expired, ar_updated_at := ci_created_at i\<rparr>))"
    by (rule lawful_update) (auto simp: same_request_device_def shapes)
  moreover have "lawful issued (insert (ci_id i) issued) (update_requests (\<lambda>r. same_request_device i r \<and> ar_expires_at r > ci_created_at i \<and> ar_id r \<noteq> ci_id i)
                (\<lambda>r. r\<lparr>ar_status := Superseded, ar_request_approved := Some False, ar_updated_at := ci_created_at i\<rparr>))"
    by (rule lawful_update) (auto simp: same_request_device_def shapes)
  ultimately have "request_inv (insert (ci_id i) issued, fst (create_auth_request i db)) \<and>
      table_evolves issued (auth_requests db) (auth_requests (fst (create_auth_request i db)))"
    unfolding create_auth_request_def using inv by (intro lawful_batch) (auto split: if_splits)
  then show ?thesis by (simp add: Create)
next
  case (ApproveOp rid u d k now)
  then show ?thesis
    unfolding ApproveOp request_exec.simps drawn_request_id.simps Un_empty_right approve_auth_request_def
    using assms(1) by (intro lawful_batch) (auto intro!: lawful_update simp: answerable_def shapes)
next
  case (DenyOp rid u d now)
  then show ?thesis
    unfolding DenyOp request_exec.simps drawn_request_id.simps Un_empty_right deny_auth_request_def
    using assms(1) by (intro lawful_batch) (auto intro!: lawful_update simp: answerable_def shapes)
next
  case (ConsumeOp rid h d now)
  then show ?thesis
    unfolding ConsumeOp request_exec.simps drawn_request_id.simps Un_empty_right consume_auth_request_def
    using assms(1) by (intro lawful_batch) (auto intro!: lawful_update simp: consume_row_def shapes)
next
  case (ConsumeSession i)
  then show ?thesis
    unfolding ConsumeSession request_exec.simps drawn_request_id.simps Un_empty_right consume_auth_request_with_session_def
    using assms(1) lawful_consume by (intro lawful_batch) simp_all
next
  case (ExpireOp now limit)
  let ?hits = "select_oldest (\<lambda>r. ar_status r \<in> {Pending, Approved} \<and> ar_expires_at r \<le> now) ar_expires_at limit (auth_requests db)"
  have open_row: "ar_status r = Pending \<or> ar_status r = Approved"
    if "r \<in> set (auth_requests db)" "ar_id r \<in> ar_id ` set ?hits" for r
  proof -
    from that(2) obtain h where h: "h \<in> set ?hits" "ar_id h = ar_id r" by auto
    then have "h \<in> set (auth_requests db)" "ar_status h = Pending \<or> ar_status h = Approved"
      using set_select_oldest [of "\<lambda>r. ar_status r \<in> {Pending, Approved} \<and> ar_expires_at r \<le> now"] by blast+
    moreover have "distinct (map ar_id (auth_requests db))" using assms(1) by (simp add: request_inv_def)
    ultimately show ?thesis using that(1) h(2) distinct_key_unique [of ar_id] by metis
  qed
  have "lawful_at issued db (update_requests (\<lambda>r. ar_id r \<in> ar_id ` set ?hits) (\<lambda>r. r\<lparr>ar_status := Expired, ar_updated_at := now\<rparr>))"
    unfolding lawful_at_def
  proof (intro allI impI, rule update_requests_keeps)
    fix n d k r
    assume "r \<in> set (auth_requests db)" "ar_id r \<in> ar_id ` set ?hits" "row_shape r"
    with open_row [of r] show "row_evolves r (r\<lparr>ar_status := Expired, ar_updated_at := now\<rparr>) \<and>
       row_shape (r\<lparr>ar_status := Expired, ar_updated_at := now\<rparr>)" by (auto simp: shapes)
  qed (use assms(1) in auto)
  then have "request_inv (issued, fst (expire_auth_requests now limit db)) \<and>
      table_evolves issued (auth_requests db) (auth_requests (fst (expire_auth_requests now limit db)))"
    unfolding expire_auth_requests_def Let_def set_map using assms(1) by (intro lawful_single) auto
  then show ?thesis by (simp add: ExpireOp)
next
  case (DeleteRetained now limit)
  let ?rest = "fst (delete_retained_rows now limit (auth_requests db))"
  have rest: "\<exists>q. ?rest = filter q (auth_requests db)"
    by (auto simp: delete_retained_rows_def delete_oldest_def Let_def sql_delete_def)
  have after: "request_exec op db = auth_requests_update (\<lambda>_. ?rest) db"
    by (simp add: DeleteRetained delete_retained_auth_requests_def split: prod.splits)
  from rest obtain q where q: "auth_requests (request_exec op db) = filter q (auth_requests db)" using after by auto
  then show ?thesis using request_inv_fewer [OF assms(1) q] by (simp add: DeleteRetained)
next
  case (RevokeRequests uid now)
  then show ?thesis
    unfolding RevokeRequests request_exec.simps drawn_request_id.simps Un_empty_right revoke_open_requests_def
    using assms(1) by (intro lawful_batch) (auto intro!: lawful_update simp: open_request_of_def revoked_request_def shapes)
next
  case (EraseRequests uid)
  let ?q = "\<lambda>r. ar_user_id r \<noteq> Some uid"
  have q: "auth_requests (request_exec op db) = filter ?q (auth_requests db)"
    by (simp add: EraseRequests erase_requests_def sql_delete_def return_value_def)
  then show ?thesis using request_inv_fewer [OF assms(1) q] by (simp add: EraseRequests)
qed

end
