(* ===== verification/AuthRequestProofs.thy ===== *)
theory AuthRequestProofs
  imports AuthRequests
begin

text \<open>
  What the auth-request repository guarantees over its runs: an answer is never replaced and can only be revoked, a new request supersedes the
  pending one of the same device, an approved request starts at most one session, and the retention job is
  bounded. The run lemmas rest on \<open>request_step_inv\<close> of \<open>AuthRequests\<close>.
\<close>

lemma table_evolves_fewer: "table_evolves known t u \<Longrightarrow> issued \<subseteq> known \<Longrightarrow> table_evolves issued t u"
  by (auto simp: table_evolves_def)

lemma request_run_inv:
  assumes "request_run s s'" "request_inv s"
  shows "request_inv s' \<and> fst s \<subseteq> fst s' \<and> table_evolves (fst s) (auth_requests (snd s)) (auth_requests (snd s'))"
  using assms
proof (induction rule: request_run.induct)
  case (stay s)
  then show ?case by simp
next
  case (step s issued db op)
  then have IH: "request_inv (issued, db)" "fst s \<subseteq> issued" "table_evolves (fst s) (auth_requests (snd s)) (auth_requests db)"
    by auto
  have "request_inv (issued \<union> drawn_request_id op, request_exec op db)"
    "table_evolves issued (auth_requests db) (auth_requests (request_exec op db))"
    using request_step_inv [OF IH(1) step.hyps(2)] by auto
  then show ?case using IH(2) table_evolves_fewer table_evolves_trans [OF IH(3)] by auto
next
  case (elsewhere s issued db db')
  then show ?case by (auto simp: request_inv_def auth_requests_ok_def)
qed

lemma request_inv_empty: "auth_requests db = [] \<Longrightarrow> request_inv ({}, db)"
  by (simp add: request_inv_def auth_requests_ok_def)

lemma request_id_unique:
  "request_inv (issued, db) \<Longrightarrow> r \<in> set (auth_requests db) \<Longrightarrow> s \<in> set (auth_requests db) \<Longrightarrow> ar_id r = ar_id s \<Longrightarrow> r = s"
  by (auto simp: request_inv_def intro: distinct_key_unique)

lemma later_row_evolved:
  assumes "request_inv (issued, db)" "request_run (issued, db) (issued', db')"
    and "r \<in> set (auth_requests db)" "r' \<in> set (auth_requests db')" "ar_id r' = ar_id r"
  shows "row_evolves r r'"
proof -
  have "ar_id r \<in> issued" using assms(1,3) by (auto simp: request_inv_def)
  moreover have "table_evolves issued (auth_requests db) (auth_requests db')"
    using request_run_inv [OF assms(2,1)] by simp
  ultimately obtain q where q: "q \<in> set (auth_requests db)" "row_evolves q r'"
    using assms(4,5) by (auto simp: table_evolves_def)
  then have "ar_id q = ar_id r" using assms(5) by (simp add: row_evolves_def)
  with q request_id_unique [OF assms(1) q(1) assms(3)] show ?thesis by simp
qed

text \<open>
  C25. The answer to a login request is never replaced by another one. In any run of the repository from an empty table, with the
  revocations that come with a change of the credentials or a disabling of the account and the erasures that come with its
  deletion, a row that is seen twice keeps its id, owner, public key, device, access-code hash and expiry; its status only moves from
  pending to any other, or from approved to consumed, expired or superseded. Once it is no longer pending, the approving device and the response time never
  change, and neither do the decision and the wrapped key, unless an approval is revoked: then the request is denied and its key
  erased for good. Every row has the shape of its status: only an approved, consumed or expired-after-approval row carries a key.
\<close>

theorem auth_request_answers_final:
  assumes "auth_requests db0 = []" "request_run ({}, db0) (issued, db)" "request_run (issued, db) (issued', db')"
    and "r \<in> set (auth_requests db)" "r' \<in> set (auth_requests db')" "ar_id r' = ar_id r"
  shows "row_evolves r r' \<and> row_shape r \<and> row_shape r'"
proof -
  have inv: "request_inv (issued, db)" using request_run_inv [OF assms(2)] request_inv_empty [OF assms(1)] by simp
  then have inv': "request_inv (issued', db')" using request_run_inv [OF assms(3)] by simp
  from later_row_evolved [OF inv assms(3-6)] inv inv' assms(4,5) show ?thesis
    by (auto simp: request_inv_def)
qed

section \<open>A new request\<close>

lemma ok_update_requests:
  assumes "auth_requests_ok db"
    and "\<And>r. r \<in> set (auth_requests db) \<Longrightarrow> p r \<Longrightarrow> auth_request_check (f r) \<and> \<not> pending_owned (f r)"
  shows "auth_requests_ok (auth_requests_update (sql_update p f) db)"
proof -
  have "filter pending_owned (sql_update p f t) = filter (\<lambda>r. pending_owned r \<and> \<not> p r) t"
    if "\<forall>r \<in> set t. p r \<longrightarrow> \<not> pending_owned (f r)" for t
    using that by (induction t) (auto simp: sql_update_def)
  from this [of "auth_requests db"] assms show ?thesis
    unfolding auth_requests_ok_def
    by (auto simp: list_all_iff set_sql_update distinct_map_filter filter_filter [symmetric] conj_commute
        simp del: filter_filter)
qed

lemma update_requests_runs:
  assumes "auth_requests_ok db"
    and "\<And>r. r \<in> set (auth_requests db) \<Longrightarrow> p r \<Longrightarrow> auth_request_check (f r) \<and> \<not> pending_owned (f r)"
  shows "update_requests p f db n = Inr (auth_requests_update (sql_update p f) db, sql_count p (auth_requests db))"
  using ok_update_requests [OF assms] by (simp add: update_requests_def checked_def update_stmt_def)

lemma expiry_ok:
  assumes "request_inv (issued, db)" "r \<in> set (auth_requests db)" "same_request_device i r"
  shows "auth_request_check (r\<lparr>ar_status := Expired, ar_updated_at := now\<rparr>)"
    and "auth_request_check (r\<lparr>ar_status := Superseded, ar_request_approved := Some False, ar_updated_at := now\<rparr>)"
proof -
  from assms(1,2) have "auth_request_check r" "row_shape r"
    by (auto simp: request_inv_def auth_requests_ok_def list_all_iff)
  with assms(3) show "auth_request_check (r\<lparr>ar_status := Expired, ar_updated_at := now\<rparr>)"
    "auth_request_check (r\<lparr>ar_status := Superseded, ar_request_approved := Some False, ar_updated_at := now\<rparr>)"
    by (auto simp: auth_request_check_def row_shape_def unanswered_def same_request_device_def)
qed

definition settle :: "create_auth_request_input \<Rightarrow> auth_request_row \<Rightarrow> auth_request_row" where
  "settle i r =
     (if \<not> same_request_device i r then r
      else if ar_expires_at r \<le> ci_created_at i then r\<lparr>ar_status := Expired, ar_updated_at := ci_created_at i\<rparr>
      else if ar_id r = ci_id i then r
      else r\<lparr>ar_status := Superseded, ar_request_approved := Some False, ar_updated_at := ci_created_at i\<rparr>)"

lemma settle_in_two_steps:
  "sql_update (\<lambda>r. same_request_device i r \<and> ar_expires_at r > ci_created_at i \<and> ar_id r \<noteq> ci_id i)
     (\<lambda>r. r\<lparr>ar_status := Superseded, ar_request_approved := Some False, ar_updated_at := ci_created_at i\<rparr>)
     (sql_update (\<lambda>r. same_request_device i r \<and> ar_expires_at r \<le> ci_created_at i)
       (\<lambda>r. r\<lparr>ar_status := Expired, ar_updated_at := ci_created_at i\<rparr>) t) = map (settle i) t"
proof -
  have "\<not> same_request_device i (r\<lparr>ar_status := Expired, ar_updated_at := now\<rparr>)" for r now
    by (simp add: same_request_device_def)
  moreover have "\<not> x \<le> (y::string) \<longleftrightarrow> x > y" for x y by auto
  ultimately show ?thesis by (auto simp: sql_update_def settle_def)
qed

lemma pending_settle:
  "ar_id r \<noteq> ci_id i \<Longrightarrow> pending_owned (settle i r) \<longleftrightarrow> pending_owned r \<and> \<not> same_request_device i r"
  by (simp add: settle_def pending_owned_def same_request_device_def)

lemma settle_other: "\<not> same_request_device i r \<Longrightarrow> settle i r = r"
  by (simp add: settle_def)

lemma settle_id [simp]: "ar_id (settle i r) = ar_id r"
  by (simp add: settle_def)

lemma ok_append_request:
  "auth_requests_ok (auth_requests_update (\<lambda>_. t @ [row]) db) \<longleftrightarrow>
     auth_requests_ok (auth_requests_update (\<lambda>_. t) db) \<and> auth_request_check row \<and>
     (pending_owned row \<longrightarrow> (\<forall>r \<in> set t. pending_owned r \<longrightarrow>
        (ar_user_id r, ar_request_device_identifier r) \<noteq> (ar_user_id row, ar_request_device_identifier row)))"
  unfolding auth_requests_ok_def by (auto simp: list_all_iff image_iff) (metis+)?

lemma create_auth_request_runs:
  assumes inv: "request_inv (issued, db)" and u: "ci_user_id i = Some u" "user_exists u db"
    and fresh: "ci_id i \<notin> issued" and type: "ci_request_type i \<in> {0, 1}"
  shows "create_auth_request i db = (auth_requests_update (\<lambda>_. map (settle i) (auth_requests db) @ [pending_row i]) db, Inr ())"
proof -
  let ?p = "\<lambda>r. same_request_device i r \<and> ar_expires_at r \<le> ci_created_at i"
  let ?f = "\<lambda>r. r\<lparr>ar_status := Expired, ar_updated_at := ci_created_at i\<rparr>"
  let ?q = "\<lambda>r. same_request_device i r \<and> ar_expires_at r > ci_created_at i \<and> ar_id r \<noteq> ci_id i"
  let ?g = "\<lambda>r. r\<lparr>ar_status := Superseded, ar_request_approved := Some False, ar_updated_at := ci_created_at i\<rparr>"
  let ?d1 = "auth_requests_update (sql_update ?p ?f) db"
  let ?d2 = "auth_requests_update (sql_update ?q ?g) ?d1"
  have new: "\<forall>r \<in> set (auth_requests db). ar_id r \<noteq> ci_id i" using inv fresh by (auto simp: request_inv_def)
  have ok: "auth_requests_ok db" using inv by (simp add: request_inv_def)
  have s1: "update_requests ?p ?f db n = Inr (?d1, sql_count ?p (auth_requests db))" for n
    using expiry_ok [OF inv] by (intro update_requests_runs ok) (auto simp: pending_owned_def)
  have ok1: "auth_requests_ok ?d1"
    using expiry_ok [OF inv] by (intro ok_update_requests ok) (auto simp: pending_owned_def)
  have inv1: "request_inv (issued, ?d1)" using update_requests_keeps [OF s1 inv]
    by (auto simp: same_request_device_def shapes)
  have s2: "update_requests ?q ?g ?d1 n = Inr (?d2, sql_count ?q (auth_requests ?d1))" for n
    using expiry_ok [OF inv1] by (intro update_requests_runs ok1) (auto simp: pending_owned_def)
  have ok2: "auth_requests_ok ?d2"
    using expiry_ok [OF inv1] by (intro ok_update_requests ok1) (auto simp: pending_owned_def)
  have d2: "?d2 = auth_requests_update (\<lambda>_. map (settle i) (auth_requests db)) db"
    by (simp add: settle_in_two_steps)
  have no_rival: "(ar_user_id r, ar_request_device_identifier r) \<noteq> (ci_user_id i, ci_request_device_identifier i)"
    if r: "r \<in> settle i ` set (auth_requests db)" "pending_owned r" for r
  proof -
    from r(1) obtain q where q: "q \<in> set (auth_requests db)" "r = settle i q" by auto
    with new have "ar_id q \<noteq> ci_id i" by simp
    with q(2) r(2) have "pending_owned q \<and> \<not> same_request_device i q" using pending_settle by blast
    with q(2) u(1) show ?thesis by (auto simp: settle_other same_request_device_def pending_owned_def)
  qed
  have "auth_requests_ok (auth_requests_update (\<lambda>_. map (settle i) (auth_requests db) @ [pending_row i]) db)"
    using ok2 no_rival type u(1) unfolding ok_append_request d2
    by (auto simp: pending_row_def auth_request_check_def)
  then have s3: "insert_auth_request (pending_row i) ?d2 n =
      Inr (auth_requests_update (\<lambda>_. map (settle i) (auth_requests db) @ [pending_row i]) db, 1)" for n
    using new u unfolding d2
    by (auto simp: insert_auth_request_def checked_def sql_exists_iff pending_row_def user_exists_def comp_def)
  show ?thesis
    unfolding create_auth_request_def
    by (simp only: u(1) option.distinct if_False with_batch_def batch_def run_stmts.simps s1 s2 s3 sum.case prod.case
        return_value_def)
qed

text \<open>
  Asking again replaces the pending request. For a known account, a fresh id and a request type of the protocol,
  creating a request never fails, whatever is already pending; afterwards the request is the only pending one of
  that account and device, and the requests of other accounts and devices are as they were.
\<close>

theorem new_request_supersedes:
  assumes "auth_requests db0 = []" "request_run ({}, db0) (issued, db)"
    and "ci_user_id i = Some u" "user_exists u db" "ci_id i \<notin> issued" "ci_request_type i \<in> {0, 1}"
  shows "snd (create_auth_request i db) = Inr () \<and>
    filter (\<lambda>r. ar_status r = Pending \<and> ar_user_id r = Some u \<and>
        ar_request_device_identifier r = ci_request_device_identifier i)
      (auth_requests (fst (create_auth_request i db))) = [pending_row i] \<and>
    filter (\<lambda>r. (ar_user_id r, ar_request_device_identifier r) \<noteq> (Some u, ci_request_device_identifier i))
      (auth_requests (fst (create_auth_request i db))) =
    filter (\<lambda>r. (ar_user_id r, ar_request_device_identifier r) \<noteq> (Some u, ci_request_device_identifier i))
      (auth_requests db)"
proof -
  have inv: "request_inv (issued, db)" using request_run_inv [OF assms(2)] request_inv_empty [OF assms(1)] by simp
  note runs = create_auth_request_runs [OF inv assms(3-6)]
  have new: "\<forall>r \<in> set (auth_requests db). ar_id r \<noteq> ci_id i" using inv assms(5) by (auto simp: request_inv_def)
  let ?P = "\<lambda>r. ar_status r = Pending \<and> ar_user_id r = Some u \<and> ar_request_device_identifier r = ci_request_device_identifier i"
  let ?Q = "\<lambda>r. (ar_user_id r, ar_request_device_identifier r) \<noteq> (Some u, ci_request_device_identifier i)"
  have "filter ?P (map (settle i) (auth_requests db)) = []"
    using new assms(3) by (auto simp: filter_empty_conv settle_def same_request_device_def)
  moreover have "filter ?Q (map (settle i) t) = filter ?Q t" for t
    using assms(3) by (induction t) (auto simp: settle_def same_request_device_def)
  moreover have "?P (pending_row i)" "\<not> ?Q (pending_row i)" using assms(3) by (simp_all add: pending_row_def)
  ultimately show ?thesis by (simp add: runs)
qed

section \<open>Consuming an answer\<close>

lemma auth_requests_update_same: "f (auth_requests db) = auth_requests db \<Longrightarrow> auth_requests_update f db = db"
  by (cases db) simp

lemma update_requests_misses:
  "\<forall>r \<in> set (auth_requests db). \<not> p r \<Longrightarrow> auth_requests_ok db \<Longrightarrow> update_requests p f db n = Inr (db, 0)"
  using update_requests_runs [of db p f n] sql_count_0 [of p "auth_requests db"]
    sql_update_none [of p "auth_requests db" f] auth_requests_update_same [of "sql_update p f" db] by auto

lemma session_needs_eligible:
  assumes "\<forall>r \<in> set (auth_requests db). \<not> eligible i r" "auth_requests_ok db"
  shows "consume_auth_request_with_session i db = (db, Inr False)"
proof -
  have none: "\<not> sql_exists (eligible i) (auth_requests db)" using assms(1) by (simp add: sql_exists_iff)
  have last: "update_requests (\<lambda>r. eligible i r \<and> p) f db n = Inr (db, 0)" for p f n
    using assms by (intro update_requests_misses) auto
  show ?thesis
    unfolding consume_auth_request_with_session_def
    by (simp add: with_batch_def batch_def none update_stmt_def last return_value_def)
qed

lemma consume_needs_approved:
  assumes "\<forall>r \<in> set (auth_requests db). ar_id r = rid \<longrightarrow> ar_status r \<noteq> Approved" "auth_requests_ok db"
  shows "consume_auth_request rid h d now db = (db, Inr False)"
proof -
  have "update_requests (\<lambda>r. ar_id r = rid \<and> ar_access_code_hash r = h \<and> ar_request_device_identifier r = d \<and>
      ar_status r = Approved \<and> ar_expires_at r > now) f db n = Inr (db, 0)" for f n
    using assms by (intro update_requests_misses) auto
  then show ?thesis
    by (simp add: consume_auth_request_def with_batch_def batch_def transition_result_def return_value_def)
qed

text \<open>A successful consumption leaves the request consumed, and issued the session's refresh token for it.\<close>

lemma consume_session_success:
  assumes "consume_auth_request_with_session i db = (db', Inr True)"
  shows "\<exists>r \<in> set (auth_requests db). eligible i r"
    and "\<exists>r \<in> set (auth_requests db'). ar_id r = cs_auth_request_id i \<and> ar_status r = Consumed"
    and "\<exists>t \<in> set (refresh_tokens db'). rt_id t = cs_refresh_token_id i \<and> rt_token_hash t = cs_refresh_token_hash i"
proof -
  let ?p = "\<lambda>db r. eligible i r \<and> sql_exists (\<lambda>t. rt_id t = cs_refresh_token_id i \<and> rt_user_id t = cs_user_id i \<and>
             rt_device_id t = cs_device_id i) (refresh_tokens db)"
  from assms obtain d1 d2 d3 k1 k2 where
    s1: "(if sql_exists (eligible i) (auth_requests db)
          then insert_or_ignore_device (consume_device_row i db) db else Inr (db, 0)) = Inr (d1, k1)"
    and s2: "update_stmt devices devices_update
          (\<lambda>db prev d. d_id d = cs_device_id i \<and> d_user_id d = cs_user_id i \<and> sql_exists (eligible i) (auth_requests db))
          (start_consumed_session i) d1 k1 = Inr (d2, k2)"
    and s3: "(if sql_exists (eligible i) (auth_requests d2)
          then insert_refresh_token (consume_token_row i d2) d2 else Inr (d2, 0)) = Inr (d3, 1)"
    and s4: "update_requests (?p d3) (consume_row (cs_now i)) d3 1 = Inr (db', 1)"
    unfolding consume_auth_request_with_session_def with_batch_eq batch_def run_stmts_Inr return_value_def
    by (elim disjE exE conjE) (simp_all del: One_nat_def)
  from s1 have r1: "auth_requests d1 = auth_requests db"
    by (auto split: if_splits dest: same_requests_insert_device)
  from s2 have r2: "auth_requests d2 = auth_requests d1" by (simp add: update_stmt_Inr)
  from s3 have r3: "auth_requests d3 = auth_requests d2"
    and t3: "consume_token_row i d2 \<in> set (refresh_tokens d3)"
    by (auto split: if_splits simp: insert_refresh_token_Inr)
  from s4 have db': "db' = auth_requests_update (sql_update (?p d3) (consume_row (cs_now i))) d3"
    and hit: "sql_count (?p d3) (auth_requests d3) = 1"
    by (auto simp: update_requests_def checked_def update_stmt_def split: if_splits)
  from hit obtain r where r: "r \<in> set (auth_requests d3)" "?p d3 r"
    using sql_count_pos [of "?p d3" "auth_requests d3"] by auto
  show "\<exists>r \<in> set (auth_requests db). eligible i r" using r r1 r2 r3 by auto
  have "consume_row (cs_now i) r \<in> set (auth_requests db')"
    unfolding db' using updated_row_in [of r "auth_requests d3" "?p d3" "consume_row (cs_now i)"] r by simp
  then show "\<exists>r \<in> set (auth_requests db'). ar_id r = cs_auth_request_id i \<and> ar_status r = Consumed"
    using r(2) by (intro bexI [of _ "consume_row (cs_now i) r"]) (auto simp: consume_row_def eligible_def)
  show "\<exists>t \<in> set (refresh_tokens db'). rt_id t = cs_refresh_token_id i \<and> rt_token_hash t = cs_refresh_token_hash i"
    unfolding db' using t3 by (intro bexI [of _ "consume_token_row i d2"]) (simp_all add: consume_token_row_def)
qed

text \<open>
  C26. An approved login request starts one session. After a consumption that reports success, no later attempt
  with that request, at whatever point of the run and with whatever device, code or new token, starts a session or
  changes the database.
\<close>

theorem auth_request_consumed_once:
  assumes "auth_requests db0 = []" "request_run ({}, db0) (issued, db)"
    and "consume_auth_request_with_session i db = (db1, Inr True)"
    and "request_run (issued, db1) (issued', db2)" "cs_auth_request_id j = cs_auth_request_id i"
  shows "consume_auth_request_with_session j db2 = (db2, Inr False) \<and>
    consume_auth_request (cs_auth_request_id i) code device now db2 = (db2, Inr False)"
proof -
  have inv: "request_inv (issued, db)" using request_run_inv [OF assms(2)] request_inv_empty [OF assms(1)] by simp
  then have inv1: "request_inv (issued, db1)"
    using request_step_inv [OF inv, of "ConsumeSession i"] assms(3) by simp
  have inv2: "request_inv (issued', db2)" using request_run_inv [OF assms(4) inv1] by simp
  obtain r where r: "r \<in> set (auth_requests db1)" "ar_id r = cs_auth_request_id i" "ar_status r = Consumed"
    using consume_session_success(2) [OF assms(3)] by blast
  have gone: "ar_status s \<noteq> Approved" if "s \<in> set (auth_requests db2)" "ar_id s = cs_auth_request_id i" for s
    using later_row_evolved [OF inv1 assms(4) r(1) that(1)] that(2) r by (auto simp: row_evolves_def status_leads_def)
  have ok: "auth_requests_ok db2" using inv2 by (simp add: request_inv_def)
  have "\<forall>s \<in> set (auth_requests db2). \<not> eligible j s" using gone assms(5) by (auto simp: eligible_def)
  with session_needs_eligible [of db2 j] consume_needs_approved [of db2 "cs_auth_request_id i"] gone ok
  show ?thesis by auto
qed

section \<open>Access codes\<close>

lemma url_char_alphabet: "n < 64 \<Longrightarrow> is_base64_url_char (url_char (base64_char n))"
proof -
  assume n: "n < 64"
  have "code_unit (CHR ''-'') = 45" "code_unit (CHR ''_'') = 95" by (simp_all add: code_unit_def)
  with n nat64_cases [of n] show ?thesis
    by (auto simp: is_base64_url_char_def Let_def url_char_def char_eq_code_unit code_unit_base64_char)
qed

lemma length_sextets_mod: "length (sextets bs) = (4 * length bs + 2) div 3"
  by (induction bs rule: sextets.induct) auto

lemma decode_verifier_build:
  assumes "\<forall>b \<in> set bs. b < 256" "length bs = 32"
  shows "decode_verifier (verifier_prefix @ base64_url_encode_bytes bs) = Some bs"
proof -
  let ?e = "base64_url_encode_bytes bs"
  have len: "length ?e = 43" using assms by (simp add: base64_url_encode_sextets length_sextets_mod)
  have "list_all is_base64_url_char ?e"
    using sextets_bound [OF assms(1)] url_char_alphabet by (simp add: base64_url_encode_sextets [OF assms(1)] list_all_iff)
  moreover have "atob (map unurl_char ?e @ ''='') = Some bs"
    using base64_url_roundtrip [OF assms(1)] len by (simp add: base64_url_decode_bytes_def pad_base64_def)
  ultimately show ?thesis using len by (simp add: decode_verifier_def Let_def starts_with_def)
qed

text \<open>
  A stored access-code verifier accepts exactly the codes with its HMAC. For a secret of at least 32 bytes, where
  HMAC-SHA-256 yields 32 bytes, the verifier stored for a request and code accepts that request and code, accepts
  any other pair only if the two labelled texts have the same HMAC, and a stored text without the verifier
  prefix accepts nothing.
\<close>

theorem access_code_verifies:
  assumes "32 \<le> length (utf8_encode secret)"
    and "\<And>k m. length (hmac k m) = 32" "\<And>k m. \<forall>b \<in> set (hmac k m). b < (256::nat)"
  shows "\<exists>v. build_auth_request_access_code_hash hmac secret rid code = Inr v \<and>
    verify_auth_request_access_code hmac secret rid code v = Inr True \<and>
    (\<forall>rid' code'. verify_auth_request_access_code hmac secret rid' code' v =
       Inr (hmac (utf8_encode secret) (utf8_encode (access_code_text rid code)) =
            hmac (utf8_encode secret) (utf8_encode (access_code_text rid' code')))) \<and>
    (\<forall>w. \<not> starts_with w verifier_prefix \<longrightarrow> verify_auth_request_access_code hmac secret rid code w = Inr False)"
proof -
  have key: "import_hmac_key secret = Inr (utf8_encode secret)" using assms(1) by (simp add: import_hmac_key_def)
  show ?thesis
    using decode_verifier_build [OF assms(3,2)]
    by (simp add: build_auth_request_access_code_hash_def build_verifier_def verify_auth_request_access_code_def key
        decode_verifier_def)
qed

theorem access_code_verifies_witness:
  "\<exists>v. build_auth_request_access_code_hash (\<lambda>k m. replicate 31 7 @ [length m mod 256]) (replicate 32 (CHR ''s'')) ''r1'' ''c1'' = Inr v \<and>
    verify_auth_request_access_code (\<lambda>k m. replicate 31 7 @ [length m mod 256]) (replicate 32 (CHR ''s'')) ''r1'' ''c1'' v = Inr True"
proof -
  let ?h = "\<lambda>k m. replicate 31 (7::nat) @ [length (m::nat list) mod 256]"
  have a: "32 \<le> length (utf8_encode (replicate 32 (CHR ''s'')))" by code_simp
  have b: "length (?h k m) = 32" "\<forall>b \<in> set (?h k m). b < 256" for k m by auto
  from access_code_verifies [of "replicate 32 (CHR ''s'')" ?h "''r1''" "''c1''", OF a b] show ?thesis by blast
qed

section \<open>A run\<close>

text \<open>A device asks to log in, another approves, and the first starts its session.\<close>

definition sample_request :: create_auth_request_input where
  "sample_request =
     \<lparr>ci_id = ''r1'', ci_user_id = Some ''u1'', ci_email_hash = ''e'', ci_request_type = 0,
      ci_request_device_identifier = ''phone'', ci_request_device_type = 1, ci_request_public_key = ''pk'',
      ci_access_code_hash = ''h'', ci_created_at = ''1'', ci_expires_at = ''5'', ci_retention_delete_after = ''9''\<rparr>"

definition sample_approval :: request_op where
  "sample_approval = ApproveOp ''r1'' ''u1'' ''laptop'' ''key'' ''2''"

definition sample_session :: consume_session_input where
  "sample_session =
     \<lparr>cs_auth_request_id = ''r1'', cs_access_code_hash = ''h'', cs_user_id = ''u1'',
      cs_request_device_identifier = ''phone'', cs_device_id = ''d1'', cs_device_name = None, cs_device_type = None,
      cs_refresh_token_id = ''t1'', cs_refresh_token_hash = ''th'', cs_refresh_token_expires_at = ''8'', cs_now = ''3''\<rparr>"

definition sample_asked :: database where "sample_asked = request_exec (Create sample_request) sample_accounts"
definition sample_approved :: database where "sample_approved = request_exec sample_approval sample_asked"

lemma sample_account_known: "user_exists ''u1'' sample_accounts"
  by (simp add: user_exists_def sample_accounts_def sample_account_def sql_exists_def)

lemma sample_request_run:
  "request_run ({}, sample_accounts) ({''r1''}, sample_asked)"
  "request_run ({''r1''}, sample_asked) ({''r1''}, sample_approved)"
  using request_run.step [where op = "Create sample_request" and issued = "{}" and db = sample_accounts, OF request_run.stay]
    request_run.step [where op = sample_approval and issued = "{''r1''}" and db = sample_asked, OF request_run.stay]
  by (simp_all add: sample_asked_def sample_approved_def sample_request_def sample_approval_def)

lemma sample_empty: "auth_requests sample_accounts = []"
  by (simp add: sample_accounts_def empty_database_def)

lemma sample_rows:
  "auth_requests sample_asked = [pending_row sample_request]"
  "sql_exists (eligible sample_session) (auth_requests sample_approved)"
  by code_simp+

lemma sample_session_starts: "snd (consume_auth_request_with_session sample_session sample_approved) = Inr True"
  by code_simp

text \<open>The account changes its password after the approval.\<close>

definition sample_revoked :: database where "sample_revoked = request_exec (RevokeRequests ''u1'' ''3'') sample_approved"

lemma sample_revoked_run: "request_run ({''r1''}, sample_approved) ({''r1''}, sample_revoked)"
  using request_run.step [where op = "RevokeRequests ''u1'' ''3''" and issued = "{''r1''}" and db = sample_approved, OF request_run.stay]
  by (simp add: sample_revoked_def)

theorem auth_request_answers_final_witness:
  "\<exists>r \<in> set (auth_requests sample_approved). ar_status r = Approved \<and> ar_encrypted_response_key r = Some ''key'' \<and>
     (\<exists>r' \<in> set (auth_requests sample_revoked). row_evolves r r' \<and> ar_status r' = Superseded \<and> ar_encrypted_response_key r' = None)"
proof -
  have "\<exists>r \<in> set (auth_requests sample_approved). ar_id r = ''r1'' \<and> ar_status r = Approved \<and> ar_encrypted_response_key r = Some ''key''"
    "\<exists>r' \<in> set (auth_requests sample_revoked). ar_id r' = ''r1'' \<and> ar_status r' = Superseded \<and> ar_encrypted_response_key r' = None"
    by code_simp+
  moreover have "request_run ({}, sample_accounts) ({''r1''}, sample_approved)"
    using request_run.step [where op = sample_approval and issued = "{''r1''}" and db = sample_asked, OF sample_request_run(1)]
    by (simp add: sample_approved_def sample_approval_def)
  ultimately show ?thesis
    using auth_request_answers_final [OF sample_empty _ sample_revoked_run] by metis
qed

theorem new_request_supersedes_witness:
  "filter (\<lambda>r. ar_status r = Pending \<and> ar_user_id r = Some ''u1'' \<and> ar_request_device_identifier r = ''phone'')
     (auth_requests (fst (create_auth_request (sample_request\<lparr>ci_id := ''r2''\<rparr>) sample_asked))) =
     [pending_row (sample_request\<lparr>ci_id := ''r2''\<rparr>)]"
proof -
  have "user_exists ''u1'' sample_asked" by code_simp
  with new_request_supersedes [OF sample_empty sample_request_run(1), of "sample_request\<lparr>ci_id := ''r2''\<rparr>" "''u1''"]
  show ?thesis by (simp add: sample_request_def)
qed

theorem auth_request_consumed_once_witness:
  "consume_auth_request_with_session sample_session
     (fst (consume_auth_request_with_session sample_session sample_approved)) =
   (fst (consume_auth_request_with_session sample_session sample_approved), Inr False)"
proof -
  have run: "request_run ({}, sample_accounts) ({''r1''}, sample_approved)"
    using request_run.step [where op = sample_approval and issued = "{''r1''}" and db = sample_asked, OF sample_request_run(1)]
    by (simp add: sample_approved_def sample_approval_def)
  have "consume_auth_request_with_session sample_session sample_approved =
      (fst (consume_auth_request_with_session sample_session sample_approved), Inr True)"
    using sample_session_starts by (metis prod.collapse)
  from auth_request_consumed_once [OF sample_empty run this request_run.stay refl] show ?thesis by simp
qed

section \<open>Retention\<close>

interpretation request_retention: bounded_cleanup ar_id retained_due ar_retention_delete_after delete_retained_rows
  by unfold_locales (simp add: delete_retained_rows_def)

text \<open>
  Clean-up of login requests is bounded and removes only finished ones: a run deletes the smaller of the
  limit and the number of requests that are denied, consumed, expired or superseded and past their retention time, and
  keeps every pending or approved request and every one still retained.
\<close>

theorem auth_request_cleanup_bounded:
  assumes "auth_requests db0 = []" "request_run ({}, db0) (issued, db)" "0 \<le> limit"
  shows "snd (delete_retained_auth_requests now limit db) =
      Inr (min (sql_count (retained_due now) (auth_requests db)) (nat limit)) \<and>
    {r \<in> set (auth_requests db). \<not> retained_due now r}
      \<subseteq> set (auth_requests (fst (delete_retained_auth_requests now limit db)))"
proof -
  have "request_inv (issued, db)" using request_run_inv [OF assms(2)] request_inv_empty [OF assms(1)] by simp
  then have d: "distinct (map ar_id (auth_requests db))" by (simp add: request_inv_def)
  have eq: "delete_retained_auth_requests now limit db =
      (auth_requests_update (\<lambda>_. fst (delete_retained_rows now limit (auth_requests db))) db,
       Inr (snd (delete_retained_rows now limit (auth_requests db))))"
    by (simp add: delete_retained_auth_requests_def return_value_def prod.case_eq_if)
  show ?thesis
    unfolding eq using request_retention.cleanup_count [OF d assms(3)] request_retention.cleanup_keeps [OF d] by auto
qed

theorem auth_request_cleanup_bounded_witness:
  "pending_row sample_request \<in> set (auth_requests (fst (delete_retained_auth_requests ''9'' 1 sample_asked)))"
proof -
  have "pending_row sample_request \<in> {r \<in> set (auth_requests sample_asked). \<not> retained_due ''9'' r}"
    using sample_rows(1) by (simp add: retained_due_def pending_row_def)
  moreover have "(0::int) \<le> 1" by simp
  ultimately show ?thesis using auth_request_cleanup_bounded [OF sample_empty sample_request_run(1)] by blast
qed

end
