(* ===== verification/Tokens.thy ===== *)
theory Tokens
  imports Json Base64 Prelogin
begin

text \<open>
  Access and refresh tokens: \<open>src/domain/tokens.ts\<close>. The grant forms, the signed access token with its keyring, and the
  refresh token with its hash. HMAC-SHA-256 and SHA-256 are parameters on bytes; random bytes are an argument.
  A secret is not empty: \<open>importKey\<close> of an empty one is not modelled.
\<close>

section \<open>Forms\<close>

text \<open>\<open>URLSearchParams\<close>: the fields in order; \<open>get\<close> reads the first of a name.\<close>

type_synonym form = "(string \<times> string) list"

definition form_get :: "form \<Rightarrow> string \<Rightarrow> string option" where
  [parse_defs]: "form_get f name = map_of f name"

definition form_trimmed :: "form \<Rightarrow> string \<Rightarrow> string option" where
  [parse_defs]: "form_trimmed f name = truthy_or_none (map_option js_trim (form_get f name))"

definition read_form_value :: "form \<Rightarrow> string list \<Rightarrow> string option" where
  [parse_defs]: "read_form_value f names =
     (case List.map_filter (form_trimmed f) names of [] \<Rightarrow> None | v # vs \<Rightarrow> Some v)"

text \<open>\<open>Number.parseInt(s, 10)\<close>: white space, a sign, and the longest run of digits; \<open>None\<close> is NaN.\<close>

definition parse_int :: "string \<Rightarrow> int option" where
  "parse_int s =
     (let t = dropWhile js_is_space s;
          negative = (t \<noteq> [] \<and> hd t = CHR ''-'');
          u = (if negative \<or> t \<noteq> [] \<and> hd t = CHR ''+'' then tl t else t);
          ds = takeWhile is_digit u
      in if ds = [] then None else Some (if negative then - int (digits_value ds) else int (digits_value ds)))"

record token_device_info =
  td_identifier :: string
  td_name :: "string option"
  td_type :: "int option"

definition parse_device_info :: "form \<Rightarrow> token_device_info option" where
  "parse_device_info f =
     (case read_form_value f [''deviceIdentifier'', ''device_identifier'', ''DeviceIdentifier''] of
        None \<Rightarrow> None
      | Some identifier \<Rightarrow>
          Some \<lparr>td_identifier = identifier,
                td_name = read_form_value f [''deviceName'', ''device_name'', ''DeviceName''],
                td_type = Option.bind (read_form_value f [''deviceType'', ''device_type'', ''DeviceType'']) parse_int\<rparr>)"

datatype token_error = InvalidClient string | InvalidGrant string | InvalidRequest string | UnsupportedGrantType string

record password_grant =
  pg_username :: string
  pg_username_normalized :: string
  pg_password :: string
  pg_scope :: "string option"
  pg_device :: "token_device_info option"
  pg_two_factor_provider :: "string option"
  pg_two_factor_token :: "string option"
  pg_two_factor_code :: "string option"

definition parse_password_grant_form :: "form \<Rightarrow> token_error + password_grant" where
  "parse_password_grant_form f =
     (if form_get f ''grant_type'' \<noteq> Some ''password''
      then Inl (UnsupportedGrantType ''The requested grant type is not supported.'')
      else (case (form_trimmed f ''username'', form_trimmed f ''password'') of
              (Some username, Some password) \<Rightarrow>
                (case normalize_email username of
                   None \<Rightarrow> Inl (InvalidRequest ''Username and password are required.'')
                 | Some normalized \<Rightarrow>
                     Inr \<lparr>pg_username = username, pg_username_normalized = normalized, pg_password = password,
                          pg_scope = form_trimmed f ''scope'', pg_device = parse_device_info f,
                          pg_two_factor_provider =
                            read_form_value f [''twoFactorProvider'', ''two_factor_provider'', ''TwoFactorProvider''],
                          pg_two_factor_token =
                            read_form_value f [''twoFactorToken'', ''two_factor_token'', ''TwoFactorToken''],
                          pg_two_factor_code =
                            read_form_value f [''twoFactorCode'', ''two_factor_code'', ''TwoFactorCode'', ''code'']\<rparr>)
            | _ \<Rightarrow> Inl (InvalidRequest ''Username and password are required.'')))"

record client_credentials_grant =
  cc_client_id :: string
  cc_client_secret :: string
  cc_scope :: "string option"
  cc_device :: "token_device_info option"

text \<open>A form of another grant is no error, the caller goes on.\<close>

datatype 'g grant_form = Grant 'g | OtherGrant | BadGrant token_error

definition parse_client_credentials_grant_form :: "form \<Rightarrow> client_credentials_grant grant_form" where
  "parse_client_credentials_grant_form f =
     (if form_get f ''grant_type'' \<noteq> Some ''client_credentials'' then OtherGrant
      else (case (form_trimmed f ''client_id'', form_trimmed f ''client_secret'') of
              (Some client_id, Some client_secret) \<Rightarrow>
                Grant \<lparr>cc_client_id = client_id, cc_client_secret = client_secret,
                       cc_scope = form_trimmed f ''scope'', cc_device = parse_device_info f\<rparr>
            | _ \<Rightarrow> BadGrant (InvalidRequest ''Client credentials are required.'')))"

record auth_request_grant =
  ag_username :: string
  ag_username_normalized :: string
  ag_access_code :: string
  ag_auth_request_id :: string
  ag_device :: token_device_info

definition parse_auth_request_grant_form :: "form \<Rightarrow> auth_request_grant grant_form" where
  "parse_auth_request_grant_form f =
     (case read_form_value f [''authRequest'', ''auth_request'', ''AuthRequest''] of
        None \<Rightarrow> OtherGrant
      | Some request_id \<Rightarrow>
          if form_get f ''grant_type'' \<noteq> Some ''password''
          then BadGrant (UnsupportedGrantType ''The requested grant type is not supported.'')
          else (case (form_trimmed f ''username'', Option.bind (form_trimmed f ''username'') normalize_email,
                      truthy_or_none (form_get f ''password''), parse_device_info f) of
                  (Some username, Some normalized, Some code, Some device) \<Rightarrow>
                    Grant \<lparr>ag_username = username, ag_username_normalized = normalized, ag_access_code = code,
                           ag_auth_request_id = request_id, ag_device = device\<rparr>
                | _ \<Rightarrow> BadGrant (InvalidRequest ''Auth request credentials and device information are required.'')))"

definition parse_refresh_token_grant_form :: "form \<Rightarrow> token_error + string" where
  "parse_refresh_token_grant_form f =
     (if form_get f ''grant_type'' \<noteq> Some ''refresh_token''
      then Inl (UnsupportedGrantType ''The requested grant type is not supported.'')
      else (case form_trimmed f ''refresh_token'' of
              None \<Rightarrow> Inl (InvalidRequest ''Refresh token is required.'')
            | Some token \<Rightarrow> Inr token))"

definition invalid_grant_error :: token_error where
  "invalid_grant_error = InvalidGrant ''Invalid username or password.''"

definition invalid_client_error :: token_error where
  "invalid_client_error = InvalidClient ''Invalid client credentials.''"

definition verify_presented_password_hash :: "string \<Rightarrow> string \<Rightarrow> bool" where
  "verify_presented_password_hash stored presented = constant_time_equal stored presented"

section \<open>Access tokens\<close>

type_synonym mac = "nat list \<Rightarrow> nat list \<Rightarrow> nat list"

record signing_key =
  sk_id :: string
  sk_secret :: string

datatype access_token_signer = PlainSigner string | KeySigner signing_key

record keyring =
  kr_active :: signing_key
  kr_previous :: "signing_key list"
  kr_legacy_secrets :: "string list"

datatype access_token_verifier = PlainVerifier string | RingVerifier keyring

datatype access_token_verification =
    VerifiedToken "(string \<times> json) list" "string option"
  | ExpiredToken
  | InvalidToken

definition encode_json :: "json \<Rightarrow> string" where
  "encode_json v = base64_url_encode_bytes (utf8_encode (json_text v))"

definition decode_json :: "string \<Rightarrow> json option" where
  "decode_json s = Option.bind (Option.bind (base64_url_decode_bytes s) utf8_decode) json_parse"

definition hmac_sha256 :: "mac \<Rightarrow> string \<Rightarrow> string \<Rightarrow> nat list" where
  "hmac_sha256 hmac secret value = hmac (utf8_encode secret) (utf8_encode value)"

definition signing_secret :: "access_token_signer \<Rightarrow> string" where
  "signing_secret s = (case s of PlainSigner secret \<Rightarrow> secret | KeySigner k \<Rightarrow> sk_secret k)"

definition token_header :: "access_token_signer \<Rightarrow> json" where
  "token_header s =
     JObj ([(''alg'', JStr ''HS256''), (''typ'', JStr ''JWT'')] @
       (case s of PlainSigner _ \<Rightarrow> [] | KeySigner k \<Rightarrow> [(''kid'', JStr (sk_id k))]))"

definition sign_access_token :: "mac \<Rightarrow> access_token_signer \<Rightarrow> (string \<times> json) list \<Rightarrow> string" where
  "sign_access_token hmac signer claims =
     (let signing_input = encode_json (token_header signer) @ ''.'' @ encode_json (JObj claims)
      in signing_input @ ''.'' @ base64_url_encode_bytes (hmac_sha256 hmac (signing_secret signer) signing_input))"

fun is_str :: "json option \<Rightarrow> bool" where
  "is_str (Some (JStr _)) \<longleftrightarrow> True"
| "is_str _ \<longleftrightarrow> False"

fun is_num :: "json option \<Rightarrow> bool" where
  "is_num (Some (JNum _)) \<longleftrightarrow> True"
| "is_num _ \<longleftrightarrow> False"

fun bool_or_absent :: "json option \<Rightarrow> bool" where
  "bool_or_absent None \<longleftrightarrow> True"
| "bool_or_absent (Some (JBool _)) \<longleftrightarrow> True"
| "bool_or_absent _ \<longleftrightarrow> False"

definition session_id_ok :: "json option \<Rightarrow> bool" where
  "session_id_ok v \<longleftrightarrow>
     (case v of None \<Rightarrow> True | Some (JStr s) \<Rightarrow> 0 < length s \<and> length s \<le> 128 | _ \<Rightarrow> False)"

definition amr_ok :: "json option \<Rightarrow> bool" where
  "amr_ok v \<longleftrightarrow> (case v of None \<Rightarrow> True | Some (JArr ms) \<Rightarrow> list_all (\<lambda>m. is_str (Some m)) ms | _ \<Rightarrow> False)"

definition auth_methods :: "string list" where
  "auth_methods = [''api_key'', ''auth_request'', ''password'', ''refresh'']"

definition is_access_token_claims :: "json \<Rightarrow> bool" where
  "is_access_token_claims v \<longleftrightarrow>
     (case as_record v of
        None \<Rightarrow> False
      | Some claims \<Rightarrow>
          is_str (jprop claims ''sub'') \<and> is_str (jprop claims ''email'') \<and> is_str (jprop claims ''device'') \<and>
          session_id_ok (jprop claims ''sessionId'') \<and> is_str (jprop claims ''securityStamp'') \<and>
          bool_or_absent (jprop claims ''email_verified'') \<and>
          (jprop claims ''name'' \<in> {None, Some JNull} \<or> is_str (jprop claims ''name'')) \<and>
          bool_or_absent (jprop claims ''premium'') \<and> amr_ok (jprop claims ''amr'') \<and>
          (jprop claims ''sstamp'' = None \<or> is_str (jprop claims ''sstamp'')) \<and>
          is_num (jprop claims ''iat'') \<and> is_num (jprop claims ''exp'') \<and>
          (jprop claims ''authMethod'' = None \<or> jprop claims ''authMethod'' \<in> (Some \<circ> JStr) ` set auth_methods))"

text \<open>The \<open>kid\<close> of a valid header: \<open>None\<close> when the header is not valid.\<close>

definition access_token_header :: "json \<Rightarrow> string option option" where
  "access_token_header v =
     (case as_record v of
        None \<Rightarrow> None
      | Some header \<Rightarrow>
          if jprop header ''alg'' = Some (JStr ''HS256'') \<and> jprop header ''typ'' = Some (JStr ''JWT'')
          then (case jprop header ''kid'' of
                  None \<Rightarrow> Some None
                | Some (JStr kid) \<Rightarrow> if kid \<noteq> [] then Some (Some kid) else None
                | _ \<Rightarrow> None)
          else None)"

definition signature_matches :: "mac \<Rightarrow> string \<Rightarrow> string \<Rightarrow> string \<Rightarrow> bool" where
  "signature_matches hmac secret signing_input encoded_signature =
     constant_time_equal (base64_url_encode_bytes (hmac_sha256 hmac secret signing_input)) encoded_signature"

text \<open>A candidate is its id, when it has one, and its secret.\<close>

definition find_verification_key ::
    "mac \<Rightarrow> access_token_verifier \<Rightarrow> string option \<Rightarrow> string \<Rightarrow> string \<Rightarrow> (string option \<times> string) option" where
  "find_verification_key hmac verifier kid signing_input encoded_signature =
     (case verifier of
        PlainVerifier secret \<Rightarrow>
          if signature_matches hmac secret signing_input encoded_signature then Some (None, secret) else None
      | RingVerifier ring \<Rightarrow>
          (let keyed = map (\<lambda>k. (Some (sk_id k), sk_secret k)) (kr_active ring # kr_previous ring)
           in (case kid of
                 Some k \<Rightarrow>
                   (case find (\<lambda>c. fst c = Some k) keyed of
                      None \<Rightarrow> None
                    | Some c \<Rightarrow> if signature_matches hmac (snd c) signing_input encoded_signature then Some c else None)
               | None \<Rightarrow>
                   find (\<lambda>c. signature_matches hmac (snd c) signing_input encoded_signature)
                     (keyed @ map (\<lambda>s. (None, s)) (kr_legacy_secrets ring)))))"

text \<open>\<open>x <= n\<close> on JavaScript numbers.\<close>

fun num_le :: "js_number \<Rightarrow> int \<Rightarrow> bool" where
  "num_le (Finite q) n \<longleftrightarrow> q \<le> of_int n"
| "num_le (Infinite negative) n \<longleftrightarrow> negative"
| "num_le NaN n \<longleftrightarrow> False"

definition claim_number :: "(string \<times> json) list \<Rightarrow> string \<Rightarrow> js_number" where
  "claim_number claims name = (case jprop claims name of Some (JNum n) \<Rightarrow> n | _ \<Rightarrow> NaN)"

definition verify_access_token :: "mac \<Rightarrow> access_token_verifier \<Rightarrow> string \<Rightarrow> int \<Rightarrow> access_token_verification" where
  "verify_access_token hmac verifier token now_seconds =
     (case js_split (CHR ''.'') token of
        [encoded_header, encoded_payload, encoded_signature] \<Rightarrow>
          if encoded_header = [] \<or> encoded_payload = [] \<or> encoded_signature = [] then InvalidToken
          else (case Option.bind (decode_json encoded_header) access_token_header of
                  None \<Rightarrow> InvalidToken
                | Some kid \<Rightarrow>
                    (case find_verification_key hmac verifier kid (encoded_header @ ''.'' @ encoded_payload) encoded_signature of
                       None \<Rightarrow> InvalidToken
                     | Some key \<Rightarrow>
                         (case decode_json encoded_payload of
                            Some (JObj claims) \<Rightarrow>
                              if \<not> is_access_token_claims (JObj claims) then InvalidToken
                              else if num_le (claim_number claims ''exp'') now_seconds then ExpiredToken
                              else VerifiedToken claims (truthy_or_none (fst key))
                          | _ \<Rightarrow> InvalidToken)))
      | _ \<Rightarrow> InvalidToken)"

section \<open>Refresh tokens\<close>

definition generate_refresh_token :: "nat list \<Rightarrow> string" where
  "generate_refresh_token random_bytes = base64_url_encode_bytes random_bytes"

definition hash_refresh_token :: "(nat list \<Rightarrow> nat list) \<Rightarrow> string \<Rightarrow> string \<Rightarrow> string" where
  "hash_refresh_token digest secret token =
     base64_url_encode_bytes (digest (utf8_encode (secret @ '':'' @ token)))"

section \<open>What a signature guarantees\<close>

lemma js_join_Cons: "js_join c ((x # p) # ps) = x # js_join c (p # ps)"
  by (cases ps) simp_all

lemma js_join_split: "js_join c (js_split c s) = s"
proof (induction s)
  case (Cons x s)
  obtain p ps where "js_split c s = p # ps" using js_split_nonempty [of c s] by (cases "js_split c s") auto
  with Cons show ?case by (simp add: js_join_Cons)
qed simp

lemma find_SomeD: "find P xs = Some x \<Longrightarrow> x \<in> set xs \<and> P x"
  by (metis find_Some_iff nth_mem)

lemma decode_encode_json: "json_plain v \<Longrightarrow> decode_json (encode_json v) = Some v"
  by (simp add: decode_json_def encode_json_def base64_url_roundtrip utf8_encode_bytes utf8_decode_encode json_parse_text)

lemma encode_json_plain: "CHR ''.'' \<notin> set (encode_json v)" "encode_json v \<noteq> []"
proof -
  show "CHR ''.'' \<notin> set (encode_json v)" by (simp add: encode_json_def base64_url_plain utf8_encode_bytes)
  have "utf8_encode (json_text v) \<noteq> []"
    using json_text_nonempty [of v] by (cases "json_text v") (auto simp: utf8_encode_def Let_def)
  then show "encode_json v \<noteq> []" by (simp add: encode_json_def base64_url_Nil utf8_encode_bytes)
qed

lemma header_of_signer: "sk_id k \<noteq> [] \<Longrightarrow> access_token_header (token_header (KeySigner k)) = Some (Some (sk_id k))"
  by (simp add: access_token_header_def token_header_def jprop_def)

lemma split_token:
  assumes "CHR ''.'' \<notin> set a" "CHR ''.'' \<notin> set b" "CHR ''.'' \<notin> set d"
  shows "js_split (CHR ''.'') ((a @ ''.'' @ b) @ ''.'' @ d) = [a, b, d]"
  using assms by (simp add: js_split_append js_split_plain)

lemma find_own_key:
  assumes "distinct (map sk_id ks)" "k \<in> set ks"
  shows "find (\<lambda>c. fst c = Some (sk_id k)) (map (\<lambda>k. (Some (sk_id k), sk_secret k)) ks) = Some (Some (sk_id k), sk_secret k)"
  using assms by (induction ks) (auto simp: rev_image_eqI)

lemma verify_with_key:
  assumes "is_access_token_claims (JObj claims)" "json_plain (JObj claims)" "\<not> num_le (claim_number claims ''exp'') now"
    and "access_token_header (token_header signer) = Some kid" "json_plain (token_header signer)"
    and "\<And>m. find_verification_key hmac verifier kid m
      (base64_url_encode_bytes (hmac_sha256 hmac (signing_secret signer) m)) = Some key"
    and "\<And>key m. hmac key m \<noteq> []" "\<And>key m. \<forall>b \<in> set (hmac key m). b < (256::nat)"
  shows "verify_access_token hmac verifier (sign_access_token hmac signer claims) now =
    VerifiedToken claims (truthy_or_none (fst key))"
proof -
  let ?h = "encode_json (token_header signer)" and ?p = "encode_json (JObj claims)"
  let ?s = "base64_url_encode_bytes (hmac_sha256 hmac (signing_secret signer) (?h @ ''.'' @ ?p))"
  have "js_split (CHR ''.'') (sign_access_token hmac signer claims) = [?h, ?p, ?s]"
    unfolding sign_access_token_def Let_def
    using assms(8) by (intro split_token) (simp_all add: encode_json_plain base64_url_plain hmac_sha256_def)
  moreover have "?s \<noteq> []" using assms(7,8) by (simp add: base64_url_Nil hmac_sha256_def)
  ultimately show ?thesis
    using assms(1,3,4,6) decode_encode_json [OF assms(2)] decode_encode_json [OF assms(5)]
    by (simp add: verify_access_token_def encode_json_plain)
qed

lemma token_header_plain [simp]: "json_plain (token_header signer)"
  by (cases signer) (simp_all add: token_header_def)

lemma verify_signed:
  assumes "is_access_token_claims (JObj claims)" "json_plain (JObj claims)" "\<not> num_le (claim_number claims ''exp'') now"
    and "k \<in> set (kr_active ring # kr_previous ring)" "distinct (map sk_id (kr_active ring # kr_previous ring))" "sk_id k \<noteq> []"
    and "\<And>key m. hmac key m \<noteq> []" "\<And>key m. \<forall>b \<in> set (hmac key m). b < (256::nat)"
  shows "verify_access_token hmac (RingVerifier ring) (sign_access_token hmac (KeySigner k) claims) now =
    VerifiedToken claims (Some (sk_id k))"
proof -
  have "find_verification_key hmac (RingVerifier ring) (Some (sk_id k)) m
      (base64_url_encode_bytes (hmac_sha256 hmac (signing_secret (KeySigner k)) m)) = Some (Some (sk_id k), sk_secret k)" for m
    using find_own_key [OF assms(5,4)]
    by (simp add: find_verification_key_def signature_matches_def constant_time_equal_iff signing_secret_def)
  from verify_with_key [where verifier = "RingVerifier ring", OF assms(1-3) header_of_signer [OF assms(6)] token_header_plain this assms(7,8)]
  show ?thesis using assms(6) by (simp add: truthy_or_none_def)
qed

lemma verify_plain_signed:
  assumes "is_access_token_claims (JObj claims)" "json_plain (JObj claims)" "\<not> num_le (claim_number claims ''exp'') now"
    and "\<And>key m. hmac key m \<noteq> []" "\<And>key m. \<forall>b \<in> set (hmac key m). b < (256::nat)"
  shows "verify_access_token hmac (PlainVerifier secret) (sign_access_token hmac (PlainSigner secret) claims) now =
    VerifiedToken claims None"
proof -
  have "find_verification_key hmac (PlainVerifier secret) None m
      (base64_url_encode_bytes (hmac_sha256 hmac (signing_secret (PlainSigner secret)) m)) = Some (None, secret)" for m
    by (simp add: find_verification_key_def signature_matches_def constant_time_equal_iff signing_secret_def)
  from verify_with_key [where verifier = "PlainVerifier secret" and kid = None, OF assms(1-3) _ token_header_plain this assms(4,5)]
  show ?thesis by (simp add: truthy_or_none_def access_token_header_def token_header_def jprop_def)
qed

text \<open>
  C31. A signed access token is accepted, also after its key has been rotated out. Signing well-formed claims with a key of the ring,
  active or previous, and verifying the token with that ring before the claims expire gives exactly the
  claims back, and the id of the key. The claims are JSON that is written without loss and HMAC-SHA-256 yields
  some bytes.
\<close>

theorem access_token_roundtrip:
  assumes "is_access_token_claims (JObj claims)" "json_plain (JObj claims)" "\<not> num_le (claim_number claims ''exp'') now"
    and "k \<in> set (kr_active ring # kr_previous ring)" "distinct (map sk_id (kr_active ring # kr_previous ring))" "sk_id k \<noteq> []"
    and "\<And>key m. hmac key m \<noteq> []" "\<And>key m. \<forall>b \<in> set (hmac key m). b < (256::nat)"
  shows "verify_access_token hmac (RingVerifier ring) (sign_access_token hmac (KeySigner k) claims) now =
    VerifiedToken claims (Some (sk_id k))"
  using assms by (rule verify_signed)

definition ring_secrets :: "keyring \<Rightarrow> string set" where
  "ring_secrets ring = sk_secret ` set (kr_active ring # kr_previous ring) \<union> set (kr_legacy_secrets ring)"

lemma key_of_candidate:
  assumes "(Some k, secret) \<in> set (map (\<lambda>k. (Some (sk_id k), sk_secret k)) ks)"
  shows "\<lparr>sk_id = k, sk_secret = secret\<rparr> \<in> set ks"
proof -
  from assms obtain x where "x \<in> set ks" "k = sk_id x" "secret = sk_secret x" by auto
  moreover have "x = \<lparr>sk_id = sk_id x, sk_secret = sk_secret x\<rparr>" by simp
  ultimately show ?thesis by metis
qed

lemma found_key:
  assumes "find_verification_key hmac (RingVerifier ring) kid signing_input signature = Some (i, secret)"
  shows "secret \<in> ring_secrets ring \<and> signature = base64_url_encode_bytes (hmac_sha256 hmac secret signing_input) \<and>
    (\<forall>k. kid = Some k \<longrightarrow> i = Some k \<and> \<lparr>sk_id = k, sk_secret = secret\<rparr> \<in> set (kr_active ring # kr_previous ring))"
proof (cases kid)
  case None
  with assms have "(i, secret) \<in> set (map (\<lambda>k. (Some (sk_id k), sk_secret k)) (kr_active ring # kr_previous ring) @
      map (\<lambda>s. (None, s)) (kr_legacy_secrets ring))" "signature_matches hmac secret signing_input signature"
    using find_SomeD by (fastforce simp: find_verification_key_def Let_def simp del: list.map find.simps)+
  with None show ?thesis by (auto simp: ring_secrets_def signature_matches_def constant_time_equal_iff)
next
  case (Some k)
  with assms have "find (\<lambda>c. fst c = Some k) (map (\<lambda>k. (Some (sk_id k), sk_secret k)) (kr_active ring # kr_previous ring)) = Some (i, secret)"
    "signature_matches hmac secret signing_input signature"
    by (auto simp: find_verification_key_def Let_def split: option.splits if_splits simp del: list.map find.simps)
  then have "i = Some k" "(i, secret) \<in> set (map (\<lambda>k. (Some (sk_id k), sk_secret k)) (kr_active ring # kr_previous ring))"
    using find_SomeD [of "\<lambda>c. fst c = Some k"] by fastforce+
  then have "\<lparr>sk_id = k, sk_secret = secret\<rparr> \<in> set (kr_active ring # kr_previous ring)"
    using key_of_candidate by blast
  moreover from this have "secret \<in> ring_secrets ring"
    unfolding ring_secrets_def by (metis UnI1 imageI signing_key.select_convs(2))
  ultimately show ?thesis
    using \<open>i = Some k\<close> Some \<open>signature_matches hmac secret signing_input signature\<close>
    by (simp add: signature_matches_def constant_time_equal_iff)
qed

text \<open>
  C32. An accepted access token was signed with a secret of the ring and has not expired. Whatever text is presented, the verifier
  accepts it only if it is some input, a dot and the HMAC of that input under an active, previous or legacy secret,
  its claims are well-formed and carry an expiry after the current time; and a token that names a key
  is only accepted under the secret of that key, so retiring the key rejects the token.
\<close>

theorem accepted_token_was_signed:
  assumes "verify_access_token hmac (RingVerifier ring) token now = VerifiedToken claims key_id"
  shows "\<exists>signing_input secret. secret \<in> ring_secrets ring \<and>
    token = signing_input @ ''.'' @ base64_url_encode_bytes (hmac_sha256 hmac secret signing_input) \<and>
    is_access_token_claims (JObj claims) \<and> \<not> num_le (claim_number claims ''exp'') now \<and>
    (\<forall>h p k. signing_input = encode_json h @ ''.'' @ p \<and> json_plain h \<and> access_token_header h = Some (Some k) \<longrightarrow>
       \<lparr>sk_id = k, sk_secret = secret\<rparr> \<in> set (kr_active ring # kr_previous ring))"
proof -
  from assms obtain h p s kid i secret where
    split: "js_split (CHR ''.'') token = [h, p, s]" and
    header: "Option.bind (decode_json h) access_token_header = Some kid" and
    key: "find_verification_key hmac (RingVerifier ring) kid (h @ ''.'' @ p) s = Some (i, secret)" and
    claims: "is_access_token_claims (JObj claims)" "\<not> num_le (claim_number claims ''exp'') now"
    unfolding verify_access_token_def
    by (auto split: list.splits if_splits option.splits json.splits simp del: access_token_header_def)
  note found = found_key [OF key]
  have token: "token = (h @ ''.'' @ p) @ ''.'' @ s"
    using js_join_split [of "CHR ''.''" token] split by simp
  have named: "\<lparr>sk_id = k, sk_secret = secret\<rparr> \<in> set (kr_active ring # kr_previous ring)"
    if "h @ ''.'' @ p = encode_json v @ ''.'' @ q" "json_plain v" "access_token_header v = Some (Some k)" for v q k
  proof -
    have "CHR ''.'' \<notin> set h" using js_split_no_sep [of h "CHR ''.''" token] split by simp
    with that(1) have "h = encode_json v"
      using js_split_append [of "CHR ''.''" h p] js_split_append [of "CHR ''.''" "encode_json v" q] encode_json_plain(1) by simp
    with header that(2,3) have "kid = Some k" by (simp add: decode_encode_json)
    with found show ?thesis by blast
  qed
  show ?thesis
    by (rule exI [of _ "h @ ''.'' @ p"], rule exI [of _ secret]) (use found token claims named in auto)
qed


definition sample_hmac256 :: mac where
  "sample_hmac256 key message = [length key mod 256, sum_list message mod 256]"

definition sample_ring :: keyring where
  "sample_ring = \<lparr>kr_active = \<lparr>sk_id = ''k2'', sk_secret = ''new''\<rparr>, kr_previous = [\<lparr>sk_id = ''k1'', sk_secret = ''old''\<rparr>],
     kr_legacy_secrets = []\<rparr>"

definition sample_claims :: "(string \<times> json) list" where
  "sample_claims =
     [(''sub'', JStr ''u1''), (''email'', JStr ''a@b.co''), (''device'', JStr ''phone''), (''sessionId'', JStr ''t1''),
      (''securityStamp'', JStr ''stamp''), (''iat'', jint 10), (''exp'', jint 20), (''authMethod'', JStr ''password'')]"

lemma sample_claims_ok:
  "is_access_token_claims (JObj sample_claims)" "json_plain (JObj sample_claims)" "\<not> num_le (claim_number sample_claims ''exp'') 15"
  by (simp_all add: is_access_token_claims_def sample_claims_def jprop_def session_id_ok_def amr_ok_def auth_methods_def
      num_is_safe_integer_def safe_int_def max_safe_integer_def claim_number_def)

lemma sample_hmac256_ok: "sample_hmac256 key m \<noteq> []" "\<forall>b \<in> set (sample_hmac256 key m). b < 256"
  by (simp_all add: sample_hmac256_def)

lemma sample_ring_ok:
  "\<lparr>sk_id = ''k1'', sk_secret = ''old''\<rparr> \<in> set (kr_active sample_ring # kr_previous sample_ring)"
  "distinct (map sk_id (kr_active sample_ring # kr_previous sample_ring))"
  "sk_id \<lparr>sk_id = ''k1'', sk_secret = ''old''\<rparr> \<noteq> []"
  by (simp_all add: sample_ring_def)

theorem access_token_roundtrip_witness:
  "verify_access_token sample_hmac256 (RingVerifier sample_ring)
     (sign_access_token sample_hmac256 (KeySigner \<lparr>sk_id = ''k1'', sk_secret = ''old''\<rparr>) sample_claims) 15 =
   VerifiedToken sample_claims (Some ''k1'')"
proof -
  have "verify_access_token sample_hmac256 (RingVerifier sample_ring)
      (sign_access_token sample_hmac256 (KeySigner \<lparr>sk_id = ''k1'', sk_secret = ''old''\<rparr>) sample_claims) 15 =
      VerifiedToken sample_claims (Some (sk_id \<lparr>sk_id = ''k1'', sk_secret = ''old''\<rparr>))"
    using sample_claims_ok sample_ring_ok sample_hmac256_ok by (rule access_token_roundtrip)
  then show ?thesis by simp
qed

theorem accepted_token_was_signed_witness:
  "\<exists>signing_input secret. secret \<in> ring_secrets sample_ring \<and>
     sign_access_token sample_hmac256 (KeySigner \<lparr>sk_id = ''k1'', sk_secret = ''old''\<rparr>) sample_claims =
       signing_input @ ''.'' @ base64_url_encode_bytes (hmac_sha256 sample_hmac256 secret signing_input)"
proof -
  have "verify_access_token sample_hmac256 (RingVerifier sample_ring)
      (sign_access_token sample_hmac256 (KeySigner \<lparr>sk_id = ''k1'', sk_secret = ''old''\<rparr>) sample_claims) 15 =
      VerifiedToken sample_claims (Some (sk_id \<lparr>sk_id = ''k1'', sk_secret = ''old''\<rparr>))"
    using sample_claims_ok sample_ring_ok sample_hmac256_ok by (rule verify_signed)
  from accepted_token_was_signed [OF this] show ?thesis by blast
qed

end
