(* ===== verification/RequestAuth.thy ===== *)
theory RequestAuth
  imports Tokens SessionProofs RateLimits AuthRequests
begin

text \<open>
  What every authenticated route of \<open>src/app.ts\<close> does first: the token configuration read from the environment,
  the bearer and device headers, and the authentication of a request by its access token and its live
  session. A refusal is its status and its error code; the fixed messages and the log lines are left out.
\<close>

section \<open>Replies\<close>

text \<open>\<open>c.json(body)\<close>, an API error, an OAuth error, and the two with a \<open>Retry-After\<close> header.\<close>

datatype 'a reply =
    Reply 'a
  | ApiFailure int string
  | TokenFailure int token_error
  | ApiLimited int
  | TokenLimited int token_error

section \<open>Token configuration\<close>

record bindings =
  env_token_secret :: "string option"
  env_active_kid :: "string option"
  env_active_secret :: "string option"
  env_previous_keys :: "string option"
  env_totp_secret :: "string option"
  env_auth_requests_enabled :: "string option"
  env_auth_request_secret :: "string option"
  env_audit_logs :: "string option"
  env_premium_features :: "string option"
  env_personal_api_keys_enabled :: "string option"
  env_api_key_secret :: "string option"

definition normalize_key_id :: "json option \<Rightarrow> string option" where
  "normalize_key_id v = truthy_or_none (map_option js_trim (as_string v))"

definition normalize_secret :: "json option \<Rightarrow> string option" where
  "normalize_secret v = (case as_string v of None \<Rightarrow> None | Some s \<Rightarrow> if js_trim s \<noteq> [] then Some s else None)"

definition normalize_optional_string :: "json option \<Rightarrow> string option" where
  "normalize_optional_string v = truthy_or_none (map_option js_trim (as_string v))"

fun previous_keys :: "json list \<Rightarrow> signing_key list option" where
  "previous_keys [] = Some []"
| "previous_keys (entry # entries) =
     (case as_record entry of
        None \<Rightarrow> None
      | Some fs \<Rightarrow>
          (case (normalize_key_id (jprop fs ''kid''), normalize_secret (jprop fs ''secret'')) of
             (Some i, Some s) \<Rightarrow> map_option (Cons \<lparr>sk_id = i, sk_secret = s\<rparr>) (previous_keys entries)
           | _ \<Rightarrow> None))"

definition parse_previous_access_token_keys :: "string option \<Rightarrow> signing_key list option" where
  "parse_previous_access_token_keys raw =
     (if \<not> truthy raw then Some []
      else (case json_parse (the raw) of Some (JArr entries) \<Rightarrow> previous_keys entries | _ \<Rightarrow> None))"

fun has_duplicate_key_ids :: "string list \<Rightarrow> signing_key list \<Rightarrow> bool" where
  "has_duplicate_key_ids seen [] \<longleftrightarrow> False"
| "has_duplicate_key_ids seen (k # ks) \<longleftrightarrow> sk_id k \<in> set seen \<or> has_duplicate_key_ids (sk_id k # seen) ks"

record access_token_config =
  tc_refresh_token_secret :: string
  tc_signer :: access_token_signer
  tc_verifier :: access_token_verifier

definition resolve_access_token_runtime_config :: "bindings \<Rightarrow> access_token_config option" where
  "resolve_access_token_runtime_config env =
     (case normalize_secret (map_option JStr (env_token_secret env)) of
        None \<Rightarrow> None
      | Some refresh_secret \<Rightarrow>
          (let active_kid = normalize_key_id (map_option JStr (env_active_kid env));
               active_secret = normalize_secret (map_option JStr (env_active_secret env));
               raw = normalize_optional_string (map_option JStr (env_previous_keys env))
           in if active_kid = None \<and> active_secret = None \<and> raw = None
              then Some \<lparr>tc_refresh_token_secret = refresh_secret, tc_signer = PlainSigner refresh_secret,
                         tc_verifier = PlainVerifier refresh_secret\<rparr>
              else (case (active_kid, active_secret, parse_previous_access_token_keys raw) of
                      (Some kid, Some secret, Some previous) \<Rightarrow>
                        if has_duplicate_key_ids [kid] previous then None
                        else Some \<lparr>tc_refresh_token_secret = refresh_secret,
                                   tc_signer = KeySigner \<lparr>sk_id = kid, sk_secret = secret\<rparr>,
                                   tc_verifier = RingVerifier \<lparr>kr_active = \<lparr>sk_id = kid, sk_secret = secret\<rparr>,
                                     kr_previous = previous, kr_legacy_secrets = [refresh_secret]\<rparr>\<rparr>
                    | _ \<Rightarrow> None)))"

section \<open>Headers\<close>

text \<open>\<open>s.split(/\s+/)\<close> of a trimmed text.\<close>

fun js_words :: "string \<Rightarrow> string list" where
  "js_words [] = []"
| "js_words (c # s) =
     (if js_is_space c then js_words s
      else (case s of
              [] \<Rightarrow> [[c]]
            | d # r \<Rightarrow> if js_is_space d then [c] # js_words s
                        else (case js_words s of [] \<Rightarrow> [[c]] | w # ws \<Rightarrow> (c # w) # ws)))"

definition read_bearer_token :: "string option \<Rightarrow> string option" where
  "read_bearer_token authorization =
     (case js_words (js_trim (case authorization of None \<Rightarrow> [] | Some a \<Rightarrow> a)) of
        [scheme, token] \<Rightarrow> if scheme = ''Bearer'' then Some token else None
      | _ \<Rightarrow> None)"

definition header_or_empty :: "string option \<Rightarrow> string" where
  "header_or_empty v = (case v of None \<Rightarrow> [] | Some s \<Rightarrow> s)"

definition read_device_info :: "(string \<Rightarrow> string option) \<Rightarrow> token_device_info option" where
  "read_device_info headers =
     (let identifier = js_trim (case headers ''Device-Identifier'' of
            Some v \<Rightarrow> v | None \<Rightarrow> header_or_empty (headers ''X-Device-Identifier''));
          raw_type = js_trim (header_or_empty (headers ''Device-Type''));
          name = truthy_or_none (map_option js_trim (headers ''Device-Name''))
      in if identifier = [] then None
         else Some \<lparr>td_identifier = identifier,
                    td_name = (if name \<noteq> None then name else truthy_or_none (map_option js_trim (headers ''X-Device-Name''))),
                    td_type = (if raw_type = [] then None else parse_int raw_type)\<rparr>)"

section \<open>Authentication\<close>

record authenticated_request =
  av_user :: auth_user
  av_device_identifier :: string
  av_session_id :: string
  av_token_issued_at :: js_number
  av_auth_method :: "string option"

definition claim_string :: "(string \<times> json) list \<Rightarrow> string \<Rightarrow> string" where
  "claim_string claims name = (case as_string (jprop claims name) of Some s \<Rightarrow> s | None \<Rightarrow> [])"

text \<open>Either the refusal the route returns, or what is known of the request.\<close>

type_synonym refusal = "int \<times> string"

definition invalid_token :: refusal where "invalid_token = (401, ''invalid_token'')"
definition database_unavailable :: refusal where "database_unavailable = (503, ''database_unavailable'')"

definition authenticate_vault_request_with_access_token ::
    "mac \<Rightarrow> bindings \<Rightarrow> string option \<Rightarrow> int \<Rightarrow> database \<Rightarrow> refusal + authenticated_request" where
  "authenticate_vault_request_with_access_token hmac env access_token now_seconds db =
     (case resolve_access_token_runtime_config env of
        None \<Rightarrow> Inl (503, ''server_misconfigured'')
      | Some config \<Rightarrow>
          if \<not> truthy access_token then Inl (401, ''missing_token'')
          else (case verify_access_token hmac (tc_verifier config) (the access_token) now_seconds of
                  VerifiedToken claims key_id \<Rightarrow>
                    if \<not> truthy (as_string (jprop claims ''sessionId'')) then Inl invalid_token
                    else (case find_auth_user_by_session (claim_string claims ''sub'') (claim_string claims ''device'')
                                 (claim_string claims ''sessionId'') db of
                            Inl e \<Rightarrow> Inl database_unavailable
                          | Inr None \<Rightarrow> Inl invalid_token
                          | Inr (Some user) \<Rightarrow>
                              if truthy (u_disabled_at (au_user user)) \<or>
                                 u_security_stamp (au_user user) \<noteq> claim_string claims ''securityStamp''
                              then Inl invalid_token
                              else Inr \<lparr>av_user = user, av_device_identifier = claim_string claims ''device'',
                                        av_session_id = claim_string claims ''sessionId'',
                                        av_token_issued_at = claim_number claims ''iat'',
                                        av_auth_method = as_string (jprop claims ''authMethod'')\<rparr>)
                | _ \<Rightarrow> Inl invalid_token))"

definition authenticate_vault_request ::
    "mac \<Rightarrow> bindings \<Rightarrow> (string \<Rightarrow> string option) \<Rightarrow> int \<Rightarrow> database \<Rightarrow> refusal + authenticated_request" where
  "authenticate_vault_request hmac env headers now_seconds db =
     authenticate_vault_request_with_access_token hmac env (read_bearer_token (headers ''Authorization'')) now_seconds db"

definition authenticate_active_device_request ::
    "mac \<Rightarrow> bindings \<Rightarrow> (string \<Rightarrow> string option) \<Rightarrow> int \<Rightarrow> database \<Rightarrow> refusal + authenticated_request" where
  "authenticate_active_device_request hmac env headers now_seconds db =
     and_then (authenticate_vault_request hmac env headers now_seconds db) (\<lambda>auth.
       if find_device_by_identifier (u_id (au_user (av_user auth))) (av_device_identifier auth) db = None
       then Inl invalid_token else Inr auth)"

definition recent_password_auth_ttl_seconds :: int where "recent_password_auth_ttl_seconds = 5 * 60"

text \<open>\<open>0 <= now - iat && now - iat <= ttl\<close>\<close>

fun recent :: "js_number \<Rightarrow> int \<Rightarrow> bool" where
  "recent (Finite q) now_seconds \<longleftrightarrow>
     0 \<le> of_int now_seconds - q \<and> of_int now_seconds - q \<le> of_int recent_password_auth_ttl_seconds"
| "recent _ now_seconds \<longleftrightarrow> False"

definition authenticate_recent_password_request ::
    "mac \<Rightarrow> bindings \<Rightarrow> (string \<Rightarrow> string option) \<Rightarrow> int \<Rightarrow> database \<Rightarrow> refusal + authenticated_request" where
  "authenticate_recent_password_request hmac env headers now_seconds db =
     and_then (authenticate_vault_request hmac env headers now_seconds db) (\<lambda>auth.
       if av_auth_method auth = Some ''password'' \<and> recent (av_token_issued_at auth) now_seconds
       then Inr auth else Inl (401, ''reauth_required''))"

end
