(* ===== verification/Attachments.thy ===== *)
theory Attachments
  imports RateLimits SessionProofs "HOL-Library.Product_Lexorder"
begin

text \<open>
  Attachments of vault items: the policy of \<open>src/domain/attachment.ts\<close> and every function of
  \<open>src/repositories/attachment-repository.ts\<close>. An allocation is a row without a content type; it holds its size of the owner's
  quota for a day after its last reservation and becomes an uploaded attachment when the content type is
  set. The functions store the SQL values; a record handed back to the caller is its row, whose state and deadline are
  read off with \<open>attachment_from_row\<close>.
\<close>

section \<open>Policy\<close>

definition max_storage_bytes :: int where "max_storage_bytes = 1024 ^ 3"
definition pending_allocation_ttl_seconds :: int where "pending_allocation_ttl_seconds = 24 * 60 * 60"
definition attachment_cleanup_rows_per_slice :: int where "attachment_cleanup_rows_per_slice = 100"

definition pending_attachment_expires_at :: "string \<Rightarrow> js_error + string" where
  "pending_attachment_expires_at reserved_at =
     (case date_parse reserved_at of
        None \<Rightarrow> Inl (JsError ''Pending attachment reservation time is invalid.'')
      | Some ms \<Rightarrow> to_iso_string (Some (ms + pending_allocation_ttl_seconds * 1000)))"

definition pending_attachment_expired_before :: "string \<Rightarrow> js_error + string" where
  "pending_attachment_expired_before now =
     (case date_parse now of
        None \<Rightarrow> Inl (JsError ''Pending attachment cleanup time is invalid.'')
      | Some ms \<Rightarrow> to_iso_string (Some (ms - pending_allocation_ttl_seconds * 1000)))"

section \<open>The repository\<close>

datatype upload_state = UploadPending "js_error + string" | Uploaded

definition attachment_from_row :: "attachment_row \<Rightarrow> upload_state" where
  "attachment_from_row a =
     (if at_content_type a = None then UploadPending (pending_attachment_expires_at (at_updated_at a)) else Uploaded)"

definition owned_active_cipher :: "string \<Rightarrow> string \<Rightarrow> database \<Rightarrow> bool" where
  "owned_active_cipher cipher_id user_id db \<longleftrightarrow>
     sql_exists (\<lambda>c. vc_id c = cipher_id \<and> vc_user_id c = user_id \<and> vc_organization_id c = None \<and> vc_deleted_at c = None)
       (ciphers db)"

text \<open>The keys, the size check and the references of \<open>cipher_attachments\<close>.\<close>

definition insert_attachment :: "attachment_row \<Rightarrow> database \<Rightarrow> js_error + (database \<times> nat)" where
  "insert_attachment a db =
     (if sql_exists (\<lambda>r. at_id r = at_id a \<or> at_object_key r = at_object_key a) (cipher_attachments db) \<or> at_size a < 0 \<or>
         \<not> user_exists (at_user_id a) db \<or> \<not> sql_exists (\<lambda>c. vc_id c = at_cipher_id a) (ciphers db)
      then Inl ConstraintError
      else Inr (cipher_attachments_update (\<lambda>t. t @ [a]) db, 1))"

definition create_cipher_attachment :: "attachment_row \<Rightarrow> attachment_row option repo" where
  "create_cipher_attachment a =
     with_batch
       [\<lambda>db prev. if owned_active_cipher (at_cipher_id a) (at_user_id a) db then insert_attachment a db else Inr (db, 0)]
       (\<lambda>ns. return_value (if ns ! 0 = 1 then Some a else None))"

definition holds_quota :: "string \<Rightarrow> string \<Rightarrow> attachment_row \<Rightarrow> bool" where
  "holds_quota user_id expired_before a \<longleftrightarrow>
     at_user_id a = user_id \<and> (at_content_type a \<noteq> None \<or> at_updated_at a > expired_before)"

definition reserved_bytes :: "string \<Rightarrow> string \<Rightarrow> attachment_row list \<Rightarrow> int" where
  "reserved_bytes user_id expired_before t = sum_list (map at_size (filter (holds_quota user_id expired_before) t))"

datatype pending_create_result = PendingCreated attachment_row | QuotaExceeded | PendingNotFound

definition create_pending_cipher_attachment ::
    "attachment_row \<Rightarrow> int \<Rightarrow> string \<Rightarrow> pending_create_result repo" where
  "create_pending_cipher_attachment a max_bytes expired_before =
     with_batch
       [\<lambda>db prev.
          if owned_active_cipher (at_cipher_id a) (at_user_id a) db \<and>
             at_size a + reserved_bytes (at_user_id a) expired_before (cipher_attachments db) \<le> max_bytes
          then insert_attachment a db else Inr (db, 0)]
       (\<lambda>ns db. return_value
          (if ns ! 0 = 1 then PendingCreated a
           else if owned_active_cipher (at_cipher_id a) (at_user_id a) db then QuotaExceeded else PendingNotFound) db)"

definition list_cipher_attachments_by_user :: "string \<Rightarrow> database \<Rightarrow> attachment_row list" where
  "list_cipher_attachments_by_user user_id db =
     sort_key (\<lambda>a. (at_revision_date a, at_id a))
       (filter (\<lambda>a. at_user_id a = user_id \<and> at_content_type a \<noteq> None) (cipher_attachments db))"

text \<open>The keys of one chunk of ids; the code joins the chunks of 90 ids in order.\<close>

definition attachment_cipher_id_chunk_size :: nat where "attachment_cipher_id_chunk_size = 90"

function chunks :: "nat \<Rightarrow> 'a list \<Rightarrow> 'a list list" where
  "chunks n xs = (if n = 0 \<or> xs = [] then [] else take n xs # chunks n (drop n xs))"
  by pat_completeness auto
termination by (relation "measure (\<lambda>(n, xs). length xs)") auto

declare chunks.simps [simp del]

definition object_keys_of_chunk :: "string \<Rightarrow> string list \<Rightarrow> database \<Rightarrow> (string \<times> string) list" where
  "object_keys_of_chunk user_id ids db =
     map (\<lambda>a. (at_cipher_id a, at_object_key a)) (sort_key at_id
       (filter (\<lambda>a. at_user_id a = user_id \<and>
            sql_exists (\<lambda>c. vc_id c = at_cipher_id a \<and> vc_user_id c = at_user_id a \<and> vc_id c \<in> set ids \<and>
              vc_user_id c = user_id \<and> vc_organization_id c = None) (ciphers db))
          (cipher_attachments db)))"

definition list_object_keys_for_owned_ciphers :: "string \<Rightarrow> string list \<Rightarrow> database \<Rightarrow> (string \<times> string) list" where
  "list_object_keys_for_owned_ciphers user_id ids db =
     concat (map (\<lambda>chunk. object_keys_of_chunk user_id chunk db) (chunks attachment_cipher_id_chunk_size ids))"

definition attachment_is :: "string \<Rightarrow> string \<Rightarrow> string \<Rightarrow> attachment_row \<Rightarrow> bool" where
  "attachment_is attachment_id cipher_id user_id a \<longleftrightarrow>
     at_id a = attachment_id \<and> at_cipher_id a = cipher_id \<and> at_user_id a = user_id"

definition find_cipher_attachment :: "string \<Rightarrow> string \<Rightarrow> string \<Rightarrow> database \<Rightarrow> attachment_row option" where
  "find_cipher_attachment attachment_id cipher_id user_id db =
     sql_first (attachment_is attachment_id cipher_id user_id) (cipher_attachments db)"

text \<open>\<open>readStorageBytes\<close>: a usage that is no safe integer, or negative, throws.\<close>

definition read_storage_bytes :: "int \<Rightarrow> js_error + int" where
  "read_storage_bytes n =
     (if safe_int n \<and> 0 \<le> n then Inr n else Inl (JsError ''Attachment storage usage is invalid.''))"

definition get_cipher_attachment_storage_usage :: "string \<Rightarrow> database \<Rightarrow> js_error + int" where
  "get_cipher_attachment_storage_usage user_id db =
     read_storage_bytes (sum_list (map at_size
       (filter (\<lambda>a. at_user_id a = user_id \<and> at_content_type a \<noteq> None) (cipher_attachments db))))"

definition get_cipher_attachment_reserved_storage :: "string \<Rightarrow> string \<Rightarrow> database \<Rightarrow> js_error + int" where
  "get_cipher_attachment_reserved_storage user_id expired_before db =
     read_storage_bytes (reserved_bytes user_id expired_before (cipher_attachments db))"

definition mark_cipher_attachment_uploaded ::
    "string \<Rightarrow> string \<Rightarrow> string \<Rightarrow> string \<Rightarrow> string \<Rightarrow> string \<Rightarrow> bool repo" where
  "mark_cipher_attachment_uploaded attachment_id cipher_id user_id content_type revision_date updated_at =
     with_batch
       [update_stmt cipher_attachments cipher_attachments_update
          (\<lambda>db prev a. attachment_is attachment_id cipher_id user_id a \<and> at_content_type a = None)
          (\<lambda>a. a\<lparr>at_content_type := Some content_type, at_revision_date := revision_date, at_updated_at := updated_at\<rparr>)]
       (\<lambda>ns. return_value (ns ! 0 = 1))"

definition reserve_cipher_attachment_upload ::
    "string \<Rightarrow> string \<Rightarrow> string \<Rightarrow> int \<Rightarrow> string \<Rightarrow> int \<Rightarrow> string \<Rightarrow> bool repo" where
  "reserve_cipher_attachment_upload attachment_id cipher_id user_id bytes expired_before max_bytes updated_at =
     with_batch
       [update_stmt cipher_attachments cipher_attachments_update
          (\<lambda>db prev a. attachment_is attachment_id cipher_id user_id a \<and> at_content_type a = None \<and>
             at_updated_at a > expired_before \<and>
             bytes + reserved_bytes user_id expired_before (filter (\<lambda>r. at_id r \<noteq> attachment_id) (cipher_attachments db)) \<le> max_bytes)
          (\<lambda>a. a\<lparr>at_updated_at := updated_at\<rparr>)]
       (\<lambda>ns. return_value (ns ! 0 = 1))"

definition delete_cipher_attachment :: "string \<Rightarrow> string \<Rightarrow> string \<Rightarrow> bool repo" where
  "delete_cipher_attachment attachment_id cipher_id user_id =
     with_batch
       [delete_stmt cipher_attachments cipher_attachments_update
          (\<lambda>db prev. attachment_is attachment_id cipher_id user_id)]
       (\<lambda>ns. return_value (ns ! 0 = 1))"

definition pending_due :: "string \<Rightarrow> attachment_row \<Rightarrow> bool" where
  "pending_due expired_before a \<longleftrightarrow> at_content_type a = None \<and> at_updated_at a \<le> expired_before"

definition delete_pending_rows :: "string \<Rightarrow> int \<Rightarrow> attachment_row list \<Rightarrow> attachment_row list \<times> nat" where
  "delete_pending_rows expired_before limit t =
     delete_oldest at_id (pending_due expired_before) (\<lambda>a. (at_updated_at a, at_id a)) limit t"

definition delete_expired_pending_cipher_attachments :: "string \<Rightarrow> int \<Rightarrow> nat repo" where
  "delete_expired_pending_cipher_attachments expired_before limit db =
     (case delete_pending_rows expired_before limit (cipher_attachments db) of
        (rest, n) \<Rightarrow> return_value n (cipher_attachments_update (\<lambda>_. rest) db))"

interpretation pending_attachment_retention: bounded_cleanup at_id pending_due "\<lambda>a. (at_updated_at a, at_id a)" delete_pending_rows
  by unfold_locales (simp add: delete_pending_rows_def)

section \<open>The quota\<close>

text \<open>
  The operations of the attachment routes, each at a time in milliseconds with the deadline the code derives from it. An upload is
  marked only while its reservation is live: the routes reserve just before they write the object.
\<close>

datatype attachment_op =
    Allocate attachment_row
  | Reserve string string string
  | MarkUploaded string string string string
  | RemoveAttachment string string string
  | ExpirePending int

definition pending_deadline :: "int \<Rightarrow> string" where
  "pending_deadline t = iso_text (t - pending_allocation_ttl_seconds * 1000)"

fun attachment_exec :: "int \<Rightarrow> attachment_op \<Rightarrow> database \<Rightarrow> database" where
  "attachment_exec t (Allocate a) db = fst (create_pending_cipher_attachment a max_storage_bytes (pending_deadline t) db)"
| "attachment_exec t (Reserve i c u) db =
     (case find_cipher_attachment i c u db of
        None \<Rightarrow> db
      | Some a \<Rightarrow> fst (reserve_cipher_attachment_upload i c u (at_size a) (pending_deadline t) max_storage_bytes (iso_text t) db))"
| "attachment_exec t (MarkUploaded i c u ct) db = fst (mark_cipher_attachment_uploaded i c u ct (iso_text t) (iso_text t) db)"
| "attachment_exec t (RemoveAttachment i c u) db = fst (delete_cipher_attachment i c u db)"
| "attachment_exec t (ExpirePending limit) db = fst (delete_expired_pending_cipher_attachments (pending_deadline t) limit db)"

fun timely :: "int \<Rightarrow> attachment_op \<Rightarrow> database \<Rightarrow> bool" where
  "timely t (Allocate a) db \<longleftrightarrow> at_content_type a = None \<and> at_updated_at a = iso_text t"
| "timely t (MarkUploaded i c u ct) db \<longleftrightarrow>
     (\<forall>a \<in> set (cipher_attachments db). attachment_is i c u a \<longrightarrow> at_updated_at a > pending_deadline t)"
| "timely t op db \<longleftrightarrow> True"

inductive attachment_run :: "int \<times> database \<Rightarrow> int \<times> database \<Rightarrow> bool" where
  stay: "attachment_run s s"
| step: "attachment_run s (t, db) \<Longrightarrow> t \<le> t' \<Longrightarrow> common_era t' \<Longrightarrow> timely t' op db \<Longrightarrow>
     attachment_run s (t', attachment_exec t' op db)"

definition within_quota :: "int \<Rightarrow> database \<Rightarrow> bool" where
  "within_quota t db \<longleftrightarrow> (\<forall>a \<in> set (cipher_attachments db). 0 \<le> at_size a) \<and>
     (\<forall>u. reserved_bytes u (pending_deadline t) (cipher_attachments db) \<le> max_storage_bytes)"

lemma sum_list_filter_mono:
  fixes f :: "'a \<Rightarrow> int"
  assumes "\<And>x. x \<in> set xs \<Longrightarrow> 0 \<le> f x" "\<And>x. x \<in> set xs \<Longrightarrow> p x \<Longrightarrow> q x"
  shows "sum_list (map f (filter p xs)) \<le> sum_list (map f (filter q xs))"
  using assms by (induction xs) (auto simp: add_increasing)

lemma reserved_bytes_subset:
  assumes "\<forall>a \<in> set t. 0 \<le> at_size a" "\<And>a. a \<in> set t \<Longrightarrow> p a \<Longrightarrow> holds_quota u b a \<Longrightarrow> holds_quota u b' a"
  shows "reserved_bytes u b (filter p t) \<le> reserved_bytes u b' t"
  unfolding reserved_bytes_def filter_filter by (rule sum_list_filter_mono) (use assms in auto)

lemma reserved_bytes_deadline:
  assumes "\<forall>a \<in> set t. 0 \<le> at_size a" "b \<le> b'"
  shows "reserved_bytes u b' t \<le> reserved_bytes u b t"
proof -
  have "reserved_bytes u b' (filter (\<lambda>a. True) t) \<le> reserved_bytes u b t"
    by (rule reserved_bytes_subset [OF assms(1)]) (use assms(2) in \<open>auto simp: holds_quota_def\<close>)
  then show ?thesis by simp
qed

text \<open>An update that keeps owners and sizes, and makes no row hold quota that did not, adds nothing.\<close>

lemma reserved_bytes_update:
  assumes "\<forall>a \<in> set t. 0 \<le> at_size a" "\<And>a. at_size (f a) = at_size a"
    "\<And>a. a \<in> set t \<Longrightarrow> p a \<Longrightarrow> holds_quota u b (f a) \<Longrightarrow> holds_quota u b a"
  shows "reserved_bytes u b (sql_update p f t) \<le> reserved_bytes u b t"
  using assms by (induction t) (auto simp: reserved_bytes_def sql_update_def)

lemma pending_deadline_mono:
  assumes "t \<le> t'" "common_era (t - pending_allocation_ttl_seconds * 1000)" "common_era t'"
  shows "pending_deadline t \<le> pending_deadline t'"
proof -
  have "common_era (t' - pending_allocation_ttl_seconds * 1000)"
    using assms by (auto simp: common_era_def pending_allocation_ttl_seconds_def)
  with assms(1,2) show ?thesis by (simp add: pending_deadline_def iso_text_le_iff)
qed

lemma quota_allocate:
  assumes "within_quota t db" "at_content_type a = None" "at_updated_at a = iso_text t"
  shows "within_quota t (attachment_exec t (Allocate a) db)"
proof -
  let ?u = "at_user_id a" and ?b = "pending_deadline t" and ?t = "cipher_attachments db"
  let ?db = "attachment_exec t (Allocate a) db"
  have "cipher_attachments ?db = ?t \<or> cipher_attachments ?db = ?t @ [a] \<and> 0 \<le> at_size a \<and>
      at_size a + reserved_bytes ?u ?b ?t \<le> max_storage_bytes"
    by (auto simp: create_pending_cipher_attachment_def with_batch_def batch_def insert_attachment_def return_value_def
        split: if_splits)
  then show ?thesis
  proof
    assume new: "cipher_attachments ?db = ?t @ [a] \<and> 0 \<le> at_size a \<and> at_size a + reserved_bytes ?u ?b ?t \<le> max_storage_bytes"
    have "reserved_bytes u ?b (?t @ [a]) \<le> max_storage_bytes" for u
      using assms(1) new by (cases "u = ?u") (auto simp: within_quota_def reserved_bytes_def holds_quota_def)
    with assms(1) new show ?thesis by (auto simp: within_quota_def)
  qed (use assms(1) in \<open>simp add: within_quota_def\<close>)
qed

lemma quota_update:
  assumes "within_quota t db" "\<And>a. at_size (f a) = at_size a"
    "\<And>u a. a \<in> set (cipher_attachments db) \<Longrightarrow> p a \<Longrightarrow> holds_quota u (pending_deadline t) (f a) \<Longrightarrow> holds_quota u (pending_deadline t) a"
  shows "within_quota t (cipher_attachments_update (sql_update p f) db)"
proof -
  have nonneg: "\<forall>a \<in> set (cipher_attachments db). 0 \<le> at_size a" using assms(1) by (simp add: within_quota_def)
  have "reserved_bytes u (pending_deadline t) (sql_update p f (cipher_attachments db)) \<le> max_storage_bytes" for u
  proof -
    have "reserved_bytes u (pending_deadline t) (sql_update p f (cipher_attachments db)) \<le>
        reserved_bytes u (pending_deadline t) (cipher_attachments db)"
      by (rule reserved_bytes_update [OF nonneg assms(2)]) (use assms(3) in blast)
    also have "\<dots> \<le> max_storage_bytes" using assms(1) by (simp add: within_quota_def)
    finally show ?thesis .
  qed
  then show ?thesis using nonneg assms(2) by (auto simp: within_quota_def set_sql_update)
qed

lemma quota_filter:
  assumes "within_quota t db" "cipher_attachments db' = filter p (cipher_attachments db)"
  shows "within_quota t db'"
  using assms reserved_bytes_subset [of "cipher_attachments db" p]
  by (fastforce simp: within_quota_def intro: order_trans)

lemma remove_attachment_rows:
  "cipher_attachments (attachment_exec t (RemoveAttachment i c u) db) =
     filter (\<lambda>a. \<not> attachment_is i c u a) (cipher_attachments db)"
  by (simp add: delete_cipher_attachment_def with_batch_def batch_eval return_value_def sql_delete_def)

lemma expire_pending_rows:
  "\<exists>p. cipher_attachments (attachment_exec t (ExpirePending n) db) = filter p (cipher_attachments db)"
  by (auto simp: delete_expired_pending_cipher_attachments_def delete_pending_rows_def delete_oldest_def Let_def
      return_value_def sql_delete_def split: prod.split)

lemma mark_uploaded_rows:
  "attachment_exec t (MarkUploaded i c u ct) db =
     cipher_attachments_update (sql_update (\<lambda>a. attachment_is i c u a \<and> at_content_type a = None)
       (\<lambda>a. a\<lparr>at_content_type := Some ct, at_revision_date := iso_text t, at_updated_at := iso_text t\<rparr>)) db"
  by (simp add: mark_cipher_attachment_uploaded_def with_batch_def batch_eval return_value_def)

lemma reserve_rows:
  "\<exists>p. attachment_exec t (Reserve i c u) db = cipher_attachments_update (sql_update
     (\<lambda>a. p a \<and> at_updated_at a > pending_deadline t) (\<lambda>a. a\<lparr>at_updated_at := iso_text t\<rparr>)) db"
proof (cases "find_cipher_attachment i c u db")
  case None
  then show ?thesis by (intro exI [of _ "\<lambda>a. False"]) simp
next
  case (Some b)
  let ?p = "\<lambda>a. attachment_is i c u a \<and> at_content_type a = None \<and> at_size b + reserved_bytes u (pending_deadline t)
      (filter (\<lambda>r. at_id r \<noteq> i) (cipher_attachments db)) \<le> max_storage_bytes"
  have "sql_update (\<lambda>a. attachment_is i c u a \<and> at_content_type a = None \<and> at_updated_at a > pending_deadline t \<and>
      at_size b + reserved_bytes u (pending_deadline t) (filter (\<lambda>r. at_id r \<noteq> i) (cipher_attachments db)) \<le> max_storage_bytes) f =
    sql_update (\<lambda>a. ?p a \<and> at_updated_at a > pending_deadline t) f" for f
    by (rule arg_cong [where f = "\<lambda>q. sql_update q f"]) auto
  then show ?thesis
    using Some by (intro exI [of _ ?p])
      (simp add: reserve_cipher_attachment_upload_def with_batch_def batch_eval return_value_def)
qed

lemma quota_step:
  assumes "within_quota t db" "timely t op db"
  shows "within_quota t (attachment_exec t op db)"
proof (cases op)
  case (Allocate a)
  with assms show ?thesis using quota_allocate [of t db a] by simp
next
  case (Reserve i c u)
  obtain p where p: "attachment_exec t op db = cipher_attachments_update (sql_update
     (\<lambda>a. p a \<and> at_updated_at a > pending_deadline t) (\<lambda>a. a\<lparr>at_updated_at := iso_text t\<rparr>)) db"
    using reserve_rows Reserve by blast
  show ?thesis unfolding p by (rule quota_update) (use assms in \<open>auto simp: holds_quota_def\<close>)
next
  case (MarkUploaded i c u ct)
  show ?thesis
    unfolding MarkUploaded mark_uploaded_rows
    by (rule quota_update) (use assms MarkUploaded in \<open>auto simp: holds_quota_def\<close>)
next
  case (RemoveAttachment i c u)
  then show ?thesis using quota_filter [OF assms(1) remove_attachment_rows] by simp
next
  case (ExpirePending n)
  then show ?thesis using expire_pending_rows [of t n db] quota_filter [OF assms(1)] by blast
qed

lemma quota_later:
  assumes "within_quota t db" "t \<le> t'" "common_era (t - pending_allocation_ttl_seconds * 1000)" "common_era t'"
  shows "within_quota t' db"
proof -
  have "reserved_bytes u (pending_deadline t') (cipher_attachments db) \<le> max_storage_bytes" for u
    using reserved_bytes_deadline [OF _ pending_deadline_mono [OF assms(2-4)], of "cipher_attachments db" u] assms(1)
    by (meson order_trans within_quota_def)
  then show ?thesis using assms(1) by (simp add: within_quota_def)
qed

lemma attachment_run_quota:
  assumes "attachment_run s s'" "within_quota (fst s) (snd s)" "common_era (fst s - pending_allocation_ttl_seconds * 1000)"
  shows "within_quota (fst s') (snd s') \<and> fst s \<le> fst s' \<and> common_era (fst s' - pending_allocation_ttl_seconds * 1000)"
  using assms
proof (induction rule: attachment_run.induct)
  case (step s t db t' op)
  then have t: "within_quota t db" "fst s \<le> t" "common_era (t - pending_allocation_ttl_seconds * 1000)" by simp_all
  then have "within_quota t' db" using quota_later step.hyps by blast
  then have "within_quota t' (attachment_exec t' op db)" using quota_step step.hyps by blast
  moreover have "common_era (t' - pending_allocation_ttl_seconds * 1000)"
    using t(3) step.hyps(2,3) by (auto simp: common_era_def pending_allocation_ttl_seconds_def)
  ultimately show ?case using t(2) step.hyps(2) by simp
qed simp

lemma uploaded_within_reserved:
  assumes "\<forall>a \<in> set t. 0 \<le> at_size a"
  shows "0 \<le> sum_list (map at_size (filter (\<lambda>a. at_user_id a = u \<and> at_content_type a \<noteq> None) t))"
    and "sum_list (map at_size (filter (\<lambda>a. at_user_id a = u \<and> at_content_type a \<noteq> None) t)) \<le> reserved_bytes u b t"
proof -
  show "0 \<le> sum_list (map at_size (filter (\<lambda>a. at_user_id a = u \<and> at_content_type a \<noteq> None) t))"
    by (rule sum_list_nonneg) (use assms in auto)
  show "sum_list (map at_size (filter (\<lambda>a. at_user_id a = u \<and> at_content_type a \<noteq> None) t)) \<le> reserved_bytes u b t"
    unfolding reserved_bytes_def by (rule sum_list_filter_mono) (use assms in \<open>auto simp: holds_quota_def\<close>)
qed

text \<open>
  C36. No user stores more than the quota, however allocations and uploads interleave. In any run of the attachment operations from an
  empty table, with a clock that does not go back and uploads that finish while their reservation is live, every
  user's reserved storage, uploaded attachments and live allocations together, stays within a gigabyte, and
  the stored usage within the reserved one; neither usage query throws.
\<close>

theorem attachment_quota_holds:
  assumes "attachment_run (t0, db0) (t, db)" "cipher_attachments db0 = []"
    and "common_era (t0 - pending_allocation_ttl_seconds * 1000)"
  shows "\<exists>reserved used. get_cipher_attachment_reserved_storage u (pending_deadline t) db = Inr reserved \<and>
    get_cipher_attachment_storage_usage u db = Inr used \<and> 0 \<le> used \<and> used \<le> reserved \<and> reserved \<le> max_storage_bytes"
proof -
  have "within_quota t0 db0" using assms(2) by (simp add: within_quota_def reserved_bytes_def max_storage_bytes_def)
  with attachment_run_quota [OF assms(1)] assms(3) have "within_quota t db" by simp
  then have nonneg: "\<forall>a \<in> set (cipher_attachments db). 0 \<le> at_size a"
    and bound: "reserved_bytes u (pending_deadline t) (cipher_attachments db) \<le> max_storage_bytes"
    by (simp_all add: within_quota_def)
  have "max_storage_bytes \<le> max_safe_integer" by (simp add: max_storage_bytes_def max_safe_integer_def)
  with bound uploaded_within_reserved(1) [OF nonneg, of u]
    uploaded_within_reserved(2) [OF nonneg, of u "pending_deadline t"] show ?thesis
    by (simp add: get_cipher_attachment_reserved_storage_def get_cipher_attachment_storage_usage_def read_storage_bytes_def
        safe_int_def)
qed

definition sample_cipher :: cipher_row where
  "sample_cipher =
     \<lparr>vc_id = ''v1'', vc_user_id = ''u1'', vc_folder_id = None, vc_type = 1, vc_favorite = False, vc_encrypted_json = ''{}'',
      vc_revision_date = ''r'', vc_deleted_at = None, vc_created_at = ''r'', vc_updated_at = ''r'', vc_organization_id = None,
      vc_cipher_key = None\<rparr>"

definition sample_attachment :: attachment_row where
  "sample_attachment =
     \<lparr>at_id = ''a1'', at_user_id = ''u1'', at_cipher_id = ''v1'', at_object_key = ''o1'', at_file_name = ''f'',
      at_attachment_key = ''k'', at_size = 1024 ^ 3, at_content_type = None, at_revision_date = ''r'', at_created_at = ''r'',
      at_updated_at = iso_text 86400000\<rparr>"

definition sample_vault :: database where
  "sample_vault = sample_database\<lparr>ciphers := [sample_cipher]\<rparr>"

lemma sample_allocation:
  "cipher_attachments (attachment_exec 86400000 (Allocate sample_attachment) sample_vault) = [sample_attachment]"
  by (simp add: create_pending_cipher_attachment_def with_batch_def batch_def insert_attachment_def return_value_def
      owned_active_cipher_def user_exists_def sql_exists_iff reserved_bytes_def max_storage_bytes_def sample_attachment_def
      sample_vault_def sample_cipher_def sample_database_def empty_database_def sample_user_def)

theorem attachment_quota_holds_witness:
  "\<exists>reserved used. get_cipher_attachment_reserved_storage ''u1'' (pending_deadline 86400000)
       (attachment_exec 86400000 (Allocate sample_attachment) sample_vault) = Inr reserved \<and>
     get_cipher_attachment_storage_usage ''u1'' (attachment_exec 86400000 (Allocate sample_attachment) sample_vault) = Inr used \<and>
     0 \<le> used \<and> used \<le> reserved \<and> reserved \<le> max_storage_bytes"
proof (rule attachment_quota_holds)
  show "attachment_run (86400000, sample_vault) (86400000, attachment_exec 86400000 (Allocate sample_attachment) sample_vault)"
    by (intro attachment_run.step [OF attachment_run.stay]) (simp_all add: sample_attachment_def common_era_def)
qed (simp_all add: sample_vault_def sample_database_def empty_database_def common_era_def pending_allocation_ttl_seconds_def)

end
