(* ===== verification/Grants.thy ===== *)
theory Grants
  imports RequestAuth TotpStore Totp Attachments
begin

text \<open>
  The token endpoint of \<open>src/app.ts\<close> (\<open>POST /identity/connect/token\<close>): the password grant with its login
  defence and TOTP stage, the refresh grant and the auth-request grant, the access-token claims, the
  account-key projection, and the clean-up of \<open>src/maintenance/retention-cleanup.ts\<close> that a login triggers. Random
  values, ids and the clock are fields of the site; the primitives of WebCrypto are fields of the crypto record.
  The clean-up of WebAuthn challenges touches a table the model does not hold: its
  outcome, success or a thrown error, is an argument.
\<close>

section \<open>Retention\<close>

record cleanup_options =
  co_audit_events :: bool
  co_auth_requests :: bool
  co_refresh_tokens :: bool
  co_request_quota_buckets :: bool

definition auth_defense_cleanup_rows_per_slice :: int where "auth_defense_cleanup_rows_per_slice = 100"
definition refresh_token_retention_rows_per_slice :: int where "refresh_token_retention_rows_per_slice = 100"
definition quota_cleanup_retention_seconds :: int where "quota_cleanup_retention_seconds = 60 * 60"
definition quota_cleanup_rows_per_slice :: int where "quota_cleanup_rows_per_slice = 100"

definition auth_defense_cleanup_window_seconds :: int where
  "auth_defense_cleanup_window_seconds =
     Max {account_failure_window_seconds, account_lockout_seconds, ip_failure_window_seconds, ip_retry_after_seconds}"

definition repo_then :: "'a repo \<Rightarrow> 'b repo \<Rightarrow> 'b repo" where
  [sql_defs]: "repo_then m k = repo_bind m (\<lambda>_. k)"

definition repo_when :: "bool \<Rightarrow> 'a repo \<Rightarrow> unit repo" where
  [sql_defs]: "repo_when b m = (if b then repo_then m (return_value ()) else return_value ())"

definition cleanup_transient_auth_data :: "(js_error + unit) \<Rightarrow> string \<Rightarrow> cleanup_options \<Rightarrow> unit repo" where
  "cleanup_transient_auth_data outside now options =
     repo_bind (repo_lift (iso_shift now (- auth_defense_cleanup_window_seconds))) (\<lambda>expired_before.
     repo_then (cleanup_auth_defense_state now expired_before expired_before auth_defense_cleanup_rows_per_slice)
     (repo_then (cleanup_expired_totp_challenges now auth_defense_cleanup_rows_per_slice)
     (repo_then (repo_lift outside)
     (repo_then (repo_bind (repo_lift (pending_attachment_expired_before now)) (\<lambda>before.
        delete_expired_pending_cipher_attachments before attachment_cleanup_rows_per_slice))
     (repo_then (repo_when (co_auth_requests options)
        (repo_then (expire_auth_requests now auth_defense_cleanup_rows_per_slice)
           (delete_retained_auth_requests now auth_defense_cleanup_rows_per_slice)))
     (repo_then (repo_when (co_refresh_tokens options)
        (delete_expired_refresh_tokens now refresh_token_retention_rows_per_slice))
     (repo_then (repo_when (co_audit_events options)
        (repo_bind (repo_lift (iso_shift now (- audit_retention_days * 86400))) (\<lambda>before.
           cleanup_expired_audit_events before audit_max_rows_per_cleanup)))
     (repo_when (co_request_quota_buckets options)
        (repo_bind (repo_lift (iso_shift now (- quota_cleanup_retention_seconds))) (\<lambda>before.
           cleanup_expired_request_quota_buckets before now quota_cleanup_rows_per_slice))))))))))"

section \<open>What a token request knows and draws\<close>

record crypto =
  cy_hmac_sha256 :: mac
  cy_hmac_sha1 :: mac
  cy_sha256 :: "nat list \<Rightarrow> nat list"
  cy_aes_open :: "nat list \<Rightarrow> nat list \<Rightarrow> nat list \<Rightarrow> nat list \<Rightarrow> nat list option"
  cy_text_decode :: "nat list \<Rightarrow> string"

record token_site =
  ts_env :: bindings
  ts_headers :: "string \<Rightarrow> string option"
  ts_issued_at :: int
  ts_attempt_id :: string
  ts_challenge_id :: string
  ts_challenge_bytes :: "nat list"
  ts_refresh_bytes :: "nat list"
  ts_refresh_token_id :: string
  ts_audit :: audit_site
  ts_outside :: "js_error + unit"

definition access_token_ttl_seconds :: int where "access_token_ttl_seconds = 3600"
definition refresh_token_ttl_seconds :: int where "refresh_token_ttl_seconds = 60 * 60 * 24 * 30"
definition totp_challenge_ttl_seconds :: int where "totp_challenge_ttl_seconds = 5 * 60"

text \<open>\<open>new Date((issuedAt + seconds) * 1000).toISOString()\<close>, for a clock JavaScript can represent.\<close>

definition seconds_text :: "int \<Rightarrow> string" where
  "seconds_text seconds = iso_text (seconds * 1000)"

definition ts_now :: "token_site \<Rightarrow> string" where
  "ts_now site = seconds_text (ts_issued_at site)"

section \<open>Token responses\<close>

definition has_wrapped_user_key :: "user_row \<Rightarrow> bool" where
  "has_wrapped_user_key u \<longleftrightarrow> (case u_user_key u of None \<Rightarrow> False | Some k \<Rightarrow> js_trim k \<noteq> [])"

definition build_account_key_projection :: "user_row \<Rightarrow> js_error + account_key_pair option" where
  "build_account_key_projection u =
     (case classify_account_key_state (u_public_key u) (u_private_key u) of
        KeysInvalid \<Rightarrow> Inl (JsError ''stored account key projection is invalid'')
      | KeysMissing \<Rightarrow> Inr None
      | KeysComplete pair \<Rightarrow>
          if has_wrapped_user_key u then Inr (Some pair)
          else Inl (JsError ''stored account key projection is invalid''))"

definition build_access_token_claims ::
    "user_row \<Rightarrow> string \<Rightarrow> string \<Rightarrow> int \<Rightarrow> int \<Rightarrow> string \<Rightarrow> bool \<Rightarrow> (string \<times> json) list" where
  "build_access_token_claims u device_identifier session_id issued_at expires_at auth_method premium =
     [(''sub'', JStr (u_id u)), (''email'', JStr (u_email_normalized u)),
      (''email_verified'', JBool (u_email_verified_at u \<noteq> None)),
      (''name'', (case u_display_name u of None \<Rightarrow> JNull | Some n \<Rightarrow> JStr n)),
      (''premium'', JBool premium), (''amr'', JArr [JStr ''Application'']),
      (''device'', JStr device_identifier), (''sessionId'', JStr session_id),
      (''securityStamp'', JStr (u_security_stamp u)), (''sstamp'', JStr (u_security_stamp u)),
      (''iat'', jint issued_at), (''exp'', jint expires_at), (''authMethod'', JStr auth_method)]"

record master_password_unlock =
  mu_salt :: string
  mu_kdf :: account_kdf
  mu_user_key :: string
  mu_user_key_id :: "string option"

record token_body =
  tb_access_token :: string
  tb_refresh_token :: string
  tb_expires_in :: int
  tb_key :: "string option"
  tb_private_key :: "string option"
  tb_kdf :: account_kdf
  tb_account_keys :: "account_key_pair option"
  tb_unlock :: "master_password_unlock option"

definition require_account_credential_kdf :: "user_row \<Rightarrow> js_error + account_kdf" where
  "require_account_credential_kdf u =
     (case kdf_from_stored_generation (user_generation u) of
        None \<Rightarrow> Inl (JsError ''stored account KDF generation is invalid'')
      | Some kdf \<Rightarrow> Inr kdf)"

definition build_master_password_unlock_response :: "user_row \<Rightarrow> js_error + master_password_unlock option" where
  "build_master_password_unlock_response u =
     (case truthy_or_none (u_user_key u) of
        None \<Rightarrow> Inr None
      | Some key \<Rightarrow>
          and_then (require_account_credential_kdf u) (\<lambda>kdf.
            Inr (Some \<lparr>mu_salt = u_email_normalized u, mu_kdf = kdf, mu_user_key = key,
                       mu_user_key_id = truthy_or_none (u_user_key_id u)\<rparr>)))"

definition build_token_response ::
    "user_row \<Rightarrow> string \<Rightarrow> string \<Rightarrow> account_key_pair option \<Rightarrow> js_error + token_body" where
  "build_token_response u access_token refresh_token keys =
     and_then (require_account_credential_kdf u) (\<lambda>kdf.
     and_then (build_master_password_unlock_response u) (\<lambda>unlock.
       Inr \<lparr>tb_access_token = access_token, tb_refresh_token = refresh_token,
            tb_expires_in = access_token_ttl_seconds, tb_key = u_user_key u,
            tb_private_key = map_option kp_wrapped_private_key keys, tb_kdf = kdf,
            tb_account_keys = keys, tb_unlock = unlock\<rparr>))"

text \<open>What the endpoint answers with status 200, and the challenge it answers with status 400.\<close>

datatype token_answer = Tokens token_body | TotpChallenge string

text \<open>The two parts the password, refresh, auth-request and API-key grants share: a signed token and its body.\<close>

definition issue_tokens ::
    "crypto \<Rightarrow> access_token_config \<Rightarrow> token_site \<Rightarrow> user_row \<Rightarrow> string \<Rightarrow> string \<Rightarrow> string \<Rightarrow> string
      \<Rightarrow> account_key_pair option \<Rightarrow> token_answer reply repo" where
  "issue_tokens crypto config site u device_identifier session_id auth_method refresh_token keys =
     (let claims = build_access_token_claims u device_identifier session_id (ts_issued_at site)
            (ts_issued_at site + access_token_ttl_seconds) auth_method (flag_true (env_premium_features (ts_env site)));
          access_token = sign_access_token (cy_hmac_sha256 crypto) (tc_signer config) claims
      in repo_lift (and_then (build_token_response u access_token refresh_token keys) (\<lambda>body. Inr (Reply (Tokens body)))))"

section \<open>Failed logins\<close>

definition sha256_text :: "crypto \<Rightarrow> string \<Rightarrow> nat list" where
  "sha256_text crypto s = cy_sha256 crypto (utf8_encode s)"

definition reject_after_failed_attempt :: "token_error \<Rightarrow> string \<Rightarrow> string option \<Rightarrow> 'a reply" where
  "reject_after_failed_attempt error now ip_locked_until =
     (if is_account_locked ip_locked_until now then TokenLimited ip_retry_after_seconds error
      else TokenFailure 400 error)"

text \<open>The attempt, the bucket of the address and, when asked, the bucket of the account.\<close>

definition record_failed_attempt ::
    "token_site \<Rightarrow> string \<Rightarrow> string \<Rightarrow> bool \<Rightarrow> (auth_failure_bucket_row option \<times> auth_failure_bucket_row) repo" where
  "record_failed_attempt site ip_key account_key count_account =
     repo_then (record_auth_attempt \<lparr>aa_id = ts_attempt_id site, aa_bucket_key = ip_key, aa_subject_key = Some account_key,
        aa_successful = False, aa_occurred_at = ts_now site\<rparr>)
     (repo_bind (record_failed_auth_bucket ip_key ip_failure_limit ip_failure_window_seconds ip_retry_after_seconds
        (ts_now site)) (\<lambda>ip_bucket.
      if count_account
      then repo_bind (record_failed_auth_bucket account_key account_failure_limit account_failure_window_seconds
             account_lockout_seconds (ts_now site)) (\<lambda>account_bucket. return_value (Some account_bucket, ip_bucket))
      else return_value (None, ip_bucket)))"

definition reject_login ::
    "token_site \<Rightarrow> token_error \<Rightarrow> string \<Rightarrow> string \<Rightarrow> bool \<Rightarrow> 'a reply repo" where
  "reject_login site error ip_key account_key count_account =
     repo_bind (record_failed_attempt site ip_key account_key count_account) (\<lambda>(account_bucket, ip_bucket).
       return_value (reject_after_failed_attempt error (ts_now site) (fb_locked_until ip_bucket)))"

definition password_failure_event :: "string option \<Rightarrow> token_device_info \<Rightarrow> string \<Rightarrow> audit_input" where
  "password_failure_event user_id device reason =
     \<lparr>ai_name = ''auth.password_grant'', ai_outcome = ''failure'',
      ai_actor = Some (user_id, Some (td_identifier device)), ai_target = None,
      ai_context = [(''reason'', JStr reason)]\<rparr>"

definition record_account_failure ::
    "token_site \<Rightarrow> user_row \<Rightarrow> token_device_info \<Rightarrow> string \<Rightarrow> string \<Rightarrow> 'a reply repo" where
  "record_account_failure site u device ip_key account_key =
     repo_then (emit_audit_event (ts_audit site) (password_failure_event (Some (u_id u)) device ''invalid_grant''))
     (repo_bind (record_failed_attempt site ip_key account_key True) (\<lambda>(account_bucket, ip_bucket).
        case account_bucket of
          None \<Rightarrow> throw (JsError ''Account failure bucket was not recorded.'')
        | Some b \<Rightarrow>
            repo_then (record_failed_login (u_id u) (fb_failed_count b) (fb_updated_at b) (fb_locked_until b))
              (return_value (reject_after_failed_attempt invalid_grant_error (ts_now site) (fb_locked_until ip_bucket)))))"

section \<open>The TOTP stage\<close>

definition hash_totp_challenge_token :: "crypto \<Rightarrow> string \<Rightarrow> string \<Rightarrow> string" where
  "hash_totp_challenge_token crypto secret token = hash_refresh_token (cy_sha256 crypto) secret (''totp:'' @ token)"

definition issue_totp_challenge :: "crypto \<Rightarrow> string \<Rightarrow> token_site \<Rightarrow> string \<Rightarrow> string \<Rightarrow> string repo" where
  "issue_totp_challenge crypto token_secret site user_id device_identifier =
     (let token = generate_refresh_token (ts_challenge_bytes site)
      in repo_then (create_totp_challenge (ts_challenge_id site) user_id
             (hash_totp_challenge_token crypto token_secret token) device_identifier
             (seconds_text (ts_issued_at site + totp_challenge_ttl_seconds)) (ts_now site))
           (return_value token))"

definition is_totp_provider :: "string option \<Rightarrow> bool" where
  "is_totp_provider p \<longleftrightarrow> p \<in> {None, Some ''0'', Some ''totp'', Some ''authenticator''}"

text \<open>A challenge token that comes with a code must name an open challenge of this user and device, which it uses up.\<close>

definition redeem_challenge :: "crypto \<Rightarrow> string \<Rightarrow> token_site \<Rightarrow> user_row \<Rightarrow> token_device_info \<Rightarrow> string \<Rightarrow> bool repo" where
  "redeem_challenge crypto token_secret site u device token =
     repo_bind (repo_get (find_active_totp_challenge_by_hash (hash_totp_challenge_token crypto token_secret token) (ts_now site)))
       (\<lambda>challenge. case challenge of
          None \<Rightarrow> return_value False
        | Some ch \<Rightarrow>
            if tc_user_id ch \<noteq> u_id u \<or> tc_device_identifier ch \<noteq> td_identifier device then return_value False
            else consume_totp_challenge (tc_id ch) (ts_now site))"

text \<open>The stage ends with an answer, or goes on with the verification the session is to record.\<close>

definition check_totp_code ::
    "crypto \<Rightarrow> token_site \<Rightarrow> auth_user \<Rightarrow> token_device_info \<Rightarrow> string \<Rightarrow> string \<Rightarrow> string \<Rightarrow> string \<Rightarrow> string
      \<Rightarrow> (token_answer reply + totp_session_verification option) repo" where
  "check_totp_code crypto site user device ip_key account_key wrapping_secret sealed code =
     (case decrypt_totp_secret (cy_aes_open crypto) (cy_sha256 crypto) (cy_text_decode crypto) wrapping_secret sealed of
        None \<Rightarrow> return_value (Inl (ApiFailure 503 ''server_misconfigured''))
      | Some secret \<Rightarrow>
          if secret = [] then return_value (Inl (ApiFailure 503 ''server_misconfigured''))
          else (case verify_totp_code (cy_hmac_sha1 crypto) secret code (ts_issued_at site)
                       (au_totp_last_accepted_step user) None None of
                  Accepted step \<Rightarrow>
                    return_value (Inr (Some \<lparr>tv_credential_generation = the (au_totp_credential_generation user),
                      tv_accepted_step = Finite (of_int step)\<rparr>))
                | _ \<Rightarrow> repo_bind (record_account_failure site (au_user user) device ip_key account_key)
                         (\<lambda>r. return_value (Inl r))))"

definition password_grant_totp ::
    "crypto \<Rightarrow> access_token_config \<Rightarrow> token_site \<Rightarrow> password_grant \<Rightarrow> token_device_info \<Rightarrow> auth_user \<Rightarrow> string \<Rightarrow> string
      \<Rightarrow> (token_answer reply + totp_session_verification option) repo" where
  "password_grant_totp crypto config site grant device user ip_key account_key =
     (let fail = repo_bind (record_account_failure site (au_user user) device ip_key account_key) (\<lambda>r. return_value (Inl r));
          token_secret = tc_refresh_token_secret config;
          misconfigured = return_value (Inl (ApiFailure 503 ''server_misconfigured''))
      in if \<not> au_totp_enabled user then return_value (Inr None)
         else if \<not> truthy (env_totp_secret (ts_env site)) \<or> \<not> truthy (au_totp_encrypted_secret user) \<or>
                 \<not> truthy (au_totp_credential_generation user) then misconfigured
         else (case (pg_two_factor_token grant, pg_two_factor_code grant) of
                 (None, None) \<Rightarrow>
                   repo_bind (issue_totp_challenge crypto token_secret site (u_id (au_user user)) (td_identifier device))
                     (\<lambda>token. return_value (Inl (Reply (TotpChallenge token))))
               | (token, code) \<Rightarrow>
                   if \<not> is_totp_provider (pg_two_factor_provider grant) then fail
                   else (let check = check_totp_code crypto site user device ip_key account_key
                               (the (env_totp_secret (ts_env site))) (the (au_totp_encrypted_secret user))
                         in (case (token, code) of
                               (Some t, Some c) \<Rightarrow>
                                 repo_bind (redeem_challenge crypto token_secret site (au_user user) device t)
                                   (\<lambda>redeemed. if redeemed then check c else fail)
                             | (Some t, None) \<Rightarrow> check t
                             | (None, Some c) \<Rightarrow> check c
                             | (None, None) \<Rightarrow> fail))))"

section \<open>The password grant\<close>

definition login_session_input ::
    "crypto \<Rightarrow> access_token_config \<Rightarrow> token_site \<Rightarrow> user_row \<Rightarrow> token_device_info
      \<Rightarrow> totp_session_verification option \<Rightarrow> bool \<Rightarrow> device_session_input" where
  "login_session_input crypto config site u device verification require_disabled =
     \<lparr>si_user_id = u_id u, si_expected_master_password_hash = u_master_password_hash u,
      si_expected_security_stamp = u_security_stamp u, si_device_identifier = td_identifier device,
      si_device_name = td_name device, si_device_type = td_type device,
      si_refresh_token_id = ts_refresh_token_id site,
      si_refresh_token_hash = hash_refresh_token (cy_sha256 crypto) (tc_refresh_token_secret config)
        (generate_refresh_token (ts_refresh_bytes site)),
      si_refresh_token_expires_at = seconds_text (ts_issued_at site + refresh_token_ttl_seconds),
      si_now = ts_now site, si_totp_verification = verification, si_require_totp_disabled = require_disabled\<rparr>"

text \<open>The last stage: the counters are reset, the session is created and its tokens are issued.\<close>

definition finish_password_grant ::
    "crypto \<Rightarrow> access_token_config \<Rightarrow> token_site \<Rightarrow> user_row \<Rightarrow> token_device_info \<Rightarrow> string
      \<Rightarrow> account_key_pair option \<Rightarrow> totp_session_verification option \<Rightarrow> token_answer reply repo" where
  "finish_password_grant crypto config site u device account_key keys verification =
     repo_then (reset_login_defense_state (u_id u) (ts_now site))
     (repo_then (reset_auth_failure_bucket account_key)
     (repo_bind (create_password_grant_session
          (login_session_input crypto config site u device verification (verification = None))) (\<lambda>result.
        if result \<noteq> SessionCreated then return_value (TokenFailure 400 invalid_grant_error)
        else issue_tokens crypto config site u (td_identifier device) (ts_refresh_token_id site) ''password''
               (generate_refresh_token (ts_refresh_bytes site)) keys)))"

text \<open>The stages once the account is found and enabled.\<close>

definition login_account ::
    "crypto \<Rightarrow> access_token_config \<Rightarrow> token_site \<Rightarrow> password_grant \<Rightarrow> token_device_info \<Rightarrow> auth_user \<Rightarrow> string \<Rightarrow> string
      \<Rightarrow> token_answer reply repo" where
  "login_account crypto config site grant device user ip_key account_key =
     (let u = au_user user
      in if is_account_locked (u_login_locked_until u) (ts_now site)
         then reject_login site invalid_grant_error ip_key account_key False
         else if \<not> verify_presented_password_hash (u_master_password_hash u) (pg_password grant)
         then record_account_failure site u device ip_key account_key
         else repo_bind (repo_lift (build_account_key_projection u)) (\<lambda>keys.
              repo_bind (password_grant_totp crypto config site grant device user ip_key account_key) (\<lambda>stage.
                case stage of
                  Inl answer \<Rightarrow> return_value answer
                | Inr verification \<Rightarrow> finish_password_grant crypto config site u device account_key keys verification)))"

definition handle_password_grant ::
    "crypto \<Rightarrow> access_token_config \<Rightarrow> token_site \<Rightarrow> password_grant \<Rightarrow> token_device_info \<Rightarrow> token_answer reply repo" where
  "handle_password_grant crypto config site grant device =
     (let now = ts_now site;
          ip_key = build_auth_attempt_bucket_key (sha256_text crypto) ''ip'' (extract_client_address (ts_headers site));
          account_key = build_auth_attempt_bucket_key (sha256_text crypto) ''account'' (pg_username_normalized grant)
      in repo_then (cleanup_transient_auth_data (ts_outside site) now
             \<lparr>co_audit_events = is_audit_logging_enabled (env_audit_logs (ts_env site)), co_auth_requests = False,
              co_refresh_tokens = False, co_request_quota_buckets = False\<rparr>)
         (repo_bind (repo_get (find_auth_failure_bucket ip_key)) (\<lambda>ip_bucket.
          repo_bind (repo_get (find_auth_failure_bucket account_key)) (\<lambda>account_bucket.
            if is_account_locked (Option.bind ip_bucket fb_locked_until) now
            then return_value (TokenLimited ip_retry_after_seconds invalid_grant_error)
            else if is_account_locked (Option.bind account_bucket fb_locked_until) now
            then reject_login site invalid_grant_error ip_key account_key False
            else repo_bind (repo_read (find_auth_user_by_email (pg_username_normalized grant))) (\<lambda>found.
                   case found of
                     None \<Rightarrow>
                       repo_then (emit_audit_event (ts_audit site) (password_failure_event None device ''invalid_grant''))
                         (reject_login site invalid_grant_error ip_key account_key True)
                   | Some user \<Rightarrow>
                       if truthy (u_disabled_at (au_user user))
                       then repo_then (emit_audit_event (ts_audit site)
                                (password_failure_event (Some (u_id (au_user user))) device ''user_disabled''))
                              (reject_login site invalid_grant_error ip_key account_key True)
                       else login_account crypto config site grant device user ip_key account_key)))))"

section \<open>The refresh grant\<close>

definition refresh_reuse_event :: "refresh_token_session \<Rightarrow> audit_input" where
  "refresh_reuse_event session =
     \<lparr>ai_name = ''auth.refresh_reuse'', ai_outcome = ''failure'',
      ai_actor = Some (Some (rs_user_id session), Some (rs_device_identifier session)),
      ai_target = Some (''session'', Some (rs_token_id session)), ai_context = [(''reason'', JStr ''reuse_detected'')]\<rparr>"

text \<open>\<open>Date.parse(s) <= limit\<close>, false when the text is no date.\<close>

definition date_not_after :: "string \<Rightarrow> int \<Rightarrow> bool" where
  "date_not_after s limit \<longleftrightarrow> (case date_parse s of None \<Rightarrow> False | Some t \<Rightarrow> t \<le> limit)"

definition rotation_input ::
    "crypto \<Rightarrow> access_token_config \<Rightarrow> token_site \<Rightarrow> refresh_token_session \<Rightarrow> rotate_input" where
  "rotation_input crypto config site session =
     \<lparr>ro_current_token_id = rs_token_id session, ro_expected_session_id = the (rs_session_id session),
      ro_user_id = rs_user_id session, ro_device_id = rs_device_id session,
      ro_expected_security_stamp = u_security_stamp (au_user (rs_user session)),
      ro_device_identifier = rs_device_identifier session, ro_device_name = None,
      ro_device_type = None, ro_next_refresh_token_id = ts_refresh_token_id site,
      ro_next_refresh_token_hash = hash_refresh_token (cy_sha256 crypto) (tc_refresh_token_secret config)
        (generate_refresh_token (ts_refresh_bytes site)),
      ro_next_refresh_token_expires_at = seconds_text (ts_issued_at site + refresh_token_ttl_seconds),
      ro_now = ts_now site\<rparr>"

definition handle_refresh_grant ::
    "crypto \<Rightarrow> access_token_config \<Rightarrow> token_site \<Rightarrow> string \<Rightarrow> token_answer reply repo" where
  "handle_refresh_grant crypto config site token =
     (let secret = tc_refresh_token_secret config; now = ts_now site; refused = TokenFailure 400 invalid_grant_error;
          next_token = generate_refresh_token (ts_refresh_bytes site)
      in repo_bind (repo_read (find_refresh_token_session_by_hash (hash_refresh_token (cy_sha256 crypto) secret token)))
           (\<lambda>found. case found of
              None \<Rightarrow> return_value refused
            | Some session \<Rightarrow>
                if \<not> truthy (rs_session_id session) then return_value refused
                else if truthy (rs_token_revoked_at session)
                then repo_then (invalidate_refresh_token_session (rs_user_id session) (rs_device_id session) now
                         (rs_session_id session))
                       (return_value refused)
                else if truthy (u_disabled_at (au_user (rs_user session))) \<or> truthy (rs_device_revoked_at session) \<or>
                        date_not_after (rs_token_expires_at session) (ts_issued_at site * 1000)
                then return_value refused
                else repo_bind (repo_lift (build_account_key_projection (au_user (rs_user session)))) (\<lambda>keys.
                     repo_bind (rotate_refresh_token (rotation_input crypto config site session)) (\<lambda>rotation.
                       if rotation = ReuseDetected
                       then repo_then (emit_audit_event (ts_audit site) (refresh_reuse_event session)) (return_value refused)
                       else issue_tokens crypto config site (au_user (rs_user session)) (rs_device_identifier session)
                              (the (rs_session_id session)) ''refresh'' next_token keys))))"

end
