(* ===== verification/GrantProofs.thy ===== *)
theory GrantProofs
  imports Grants
begin

text \<open>
  What the token endpoint guarantees: a password grant that issues tokens has checked every factor, the token it
  issues authenticates its session until it expires, and signing out refuses it at once. The proofs follow
  the accounts through the handler with the \<open>preserves\<close> rules, which say what a repository function leaves alone.
\<close>

section \<open>What a repository function leaves alone\<close>

definition preserves :: "(database \<Rightarrow> 'x) \<Rightarrow> 'a repo \<Rightarrow> bool" where
  "preserves f m \<longleftrightarrow> (\<forall>db. f (fst (m db)) = f db)"

definition stmt_preserves :: "(database \<Rightarrow> 'x) \<Rightarrow> database stmt \<Rightarrow> bool" where
  "stmt_preserves f s \<longleftrightarrow> (\<forall>db n db' k. s db n = Inr (db', k) \<longrightarrow> f db' = f db)"

named_theorems preserving \<open>repository functions that leave a part of the database alone\<close>

lemma preservesD: "preserves f m \<Longrightarrow> m db = (db', r) \<Longrightarrow> f db' = f db"
  unfolding preserves_def by (metis fst_conv)

lemma preserves_combinators [preserving]:
  "preserves f m \<Longrightarrow> (\<And>x. preserves f (k x)) \<Longrightarrow> preserves f (repo_bind m k)"
  "preserves f m \<Longrightarrow> preserves f n \<Longrightarrow> preserves f (repo_then m n)"
  "preserves f m \<Longrightarrow> preserves f (repo_when b m)"
  "preserves f (repo_lift x)" "preserves f (repo_read g)" "preserves f (repo_get h)" "preserves f (return_value y)"
  "preserves f (throw e)"
  by (auto simp: preserves_def sql_defs split: prod.splits sum.splits) (metis fst_conv)+

lemma preserves_batch:
  assumes "\<And>s. s \<in> set ss \<Longrightarrow> stmt_preserves f s" "\<And>ns. preserves f (k ns)"
  shows "preserves f (with_batch ss k)"
  unfolding preserves_def
proof
  fix db0
  have "f (fst (with_batch ss k db0)) = f db0"
  proof (rule with_batch_invariant [where P = "\<lambda>d. f d = f db0"])
    fix s db n db' k'
    assume "s \<in> set ss" "s db n = Inr (db', k')" "f db = f db0"
    with assms(1) [of s] show "f db' = f db0" unfolding stmt_preserves_def by metis
  next
    fix ns d
    assume "f d = f db0"
    with assms(2) [of ns] show "f (fst (k ns d)) = f db0" unfolding preserves_def by metis
  qed simp
  then show "f (fst (with_batch ss k db0)) = f db0" .
qed

lemma preserves_single [preserving]:
  "stmt_preserves f s \<Longrightarrow> (\<And>ns. preserves f (k ns)) \<Longrightarrow> preserves f (with_batch [s] k)"
  by (rule preserves_batch) auto

text \<open>The tables that decide who an access token stands for.\<close>

definition accounts :: "database \<Rightarrow> user_row list \<times> totp_row list \<times> device_row list \<times> personal_api_key_row list" where
  "accounts db = (users db, user_totp db, devices db, personal_api_keys db)"

lemma stmt_preserves_accounts [preserving]:
  "stmt_preserves accounts (delete_stmt auth_failure_buckets auth_failure_buckets_update p)"
  "stmt_preserves accounts (update_stmt totp_challenges totp_challenges_update q g)"
  "stmt_preserves accounts (update_requests r h)"
  by (auto simp: stmt_preserves_def accounts_def update_stmt_Inr delete_stmt_Inr update_requests_def checked_def
      split: if_splits sum.splits prod.splits)

lemma cleanup_preserves_accounts [preserving]:
  "preserves accounts (cleanup_auth_defense_state now x y rows)"
  "preserves accounts (cleanup_expired_totp_challenges now rows)"
  "preserves accounts (delete_retained_auth_requests now rows)"
  "preserves accounts (delete_expired_refresh_tokens now rows)"
  "preserves accounts (cleanup_expired_audit_events z rows)"
  "preserves accounts (cleanup_expired_request_quota_buckets z now rows)"
  "preserves accounts (delete_expired_pending_cipher_attachments z rows)"
  by (auto simp: preserves_def accounts_def cleanup_auth_defense_state_def cleanup_expired_auth_attempts_def
      cleanup_expired_auth_failure_buckets_def cleanup_expired_totp_challenges_def delete_retained_auth_requests_def
      delete_expired_refresh_tokens_def cleanup_expired_audit_events_def cleanup_expired_request_quota_buckets_def
      delete_expired_pending_cipher_attachments_def return_value_def throw_def split: prod.splits sum.splits)

lemma expire_preserves_accounts [preserving]: "preserves accounts (expire_auth_requests now rows)"
  unfolding preserves_def
proof
  fix db :: database
  let ?ids = "map ar_id (select_oldest (\<lambda>r. ar_status r \<in> {Pending, Approved} \<and> ar_expires_at r \<le> now)
            ar_expires_at rows (auth_requests db))"
  have "preserves accounts (with_batch [update_requests (\<lambda>r. ar_id r \<in> set ?ids)
      (\<lambda>r. r\<lparr>ar_status := Expired, ar_updated_at := now\<rparr>)] (\<lambda>ns. return_value (ns ! 0)))"
    by (intro preserving)
  then show "accounts (fst (expire_auth_requests now rows db)) = accounts db"
    unfolding preserves_def expire_auth_requests_def Let_def by blast
qed

lemma transient_cleanup_preserves_accounts: "preserves accounts (cleanup_transient_auth_data outside now options)"
  unfolding cleanup_transient_auth_data_def by (intro preserving)

section \<open>Following a successful request\<close>

lemma repo_bind_Inr:
  "repo_bind m k db = (db', Inr r) \<longleftrightarrow> (\<exists>d x. m db = (d, Inr x) \<and> k x d = (db', Inr r))"
  by (auto simp: repo_bind_def split: prod.splits sum.splits)

lemma repo_then_Inr: "repo_then m k db = (db', Inr r) \<longleftrightarrow> (\<exists>d x. m db = (d, Inr x) \<and> k d = (db', Inr r))"
  by (simp add: repo_then_def repo_bind_Inr)

lemma repo_value_Inr:
  "return_value x db = (db', Inr r) \<longleftrightarrow> db' = db \<and> r = x"
  "repo_lift m db = (db', Inr r) \<longleftrightarrow> db' = db \<and> m = Inr r"
  "repo_read f db = (db', Inr r) \<longleftrightarrow> db' = db \<and> f db = Inr r"
  "repo_get g db = (db', Inr r) \<longleftrightarrow> db' = db \<and> r = g db"
  "throw e db = (db', Inr r) \<longleftrightarrow> False"
  by (auto simp: return_value_def repo_lift_def repo_read_def repo_get_def throw_def)

lemma repo_stage_Inr:
  "(case stage of Inl a \<Rightarrow> m a | Inr b \<Rightarrow> k b) db = (db', Inr r) \<longleftrightarrow>
     (\<exists>a. stage = Inl a \<and> m a db = (db', Inr r)) \<or> (\<exists>b. stage = Inr b \<and> k b db = (db', Inr r))"
  by (cases stage) auto

lemmas repo_Inr = repo_bind_Inr repo_then_Inr repo_value_Inr

text \<open>No failed attempt is answered with tokens.\<close>

lemma failure_is_no_reply [simp]: "reject_after_failed_attempt e now l \<noteq> Reply x"
  "Reply x \<noteq> reject_after_failed_attempt e now l"
  by (simp_all add: reject_after_failed_attempt_def)

lemma reject_login_no_reply [simp]: "reject_login site e ip account counted db \<noteq> (db', Inr (Reply x))"
  by (auto simp: reject_login_def repo_Inr)

lemma account_failure_no_reply [simp]: "record_account_failure site u device ip account db \<noteq> (db', Inr (Reply x))"
  by (auto simp: record_account_failure_def repo_Inr split: option.splits)

section \<open>The second factor\<close>

definition presented_code :: "password_grant \<Rightarrow> string option" where
  "presented_code grant = (case pg_two_factor_code grant of Some c \<Rightarrow> Some c | None \<Rightarrow> pg_two_factor_token grant)"

text \<open>An account with TOTP presented a code that its stored secret accepts at a step it has not used yet.\<close>

definition totp_checked ::
    "crypto \<Rightarrow> token_site \<Rightarrow> password_grant \<Rightarrow> auth_user \<Rightarrow> totp_session_verification option \<Rightarrow> bool" where
  "totp_checked crypto site grant user v \<longleftrightarrow>
     (if au_totp_enabled user
      then \<exists>code secret step. presented_code grant = Some code \<and>
        decrypt_totp_secret (cy_aes_open crypto) (cy_sha256 crypto) (cy_text_decode crypto)
          (the (env_totp_secret (ts_env site))) (the (au_totp_encrypted_secret user)) = Some secret \<and>
        verify_totp_code (cy_hmac_sha1 crypto) secret code (ts_issued_at site) (au_totp_last_accepted_step user)
          None None = Accepted step \<and>
        v = Some \<lparr>tv_credential_generation = the (au_totp_credential_generation user),
                  tv_accepted_step = Finite (of_int step)\<rparr>
      else v = None)"

lemma failure_is_no_verification:
  "repo_bind (record_account_failure site u device ip account) (\<lambda>r. return_value (Inl r)) db \<noteq> (db', Inr (Inr v))"
  by (simp add: repo_Inr)

lemma check_totp_code_passed:
  assumes "check_totp_code crypto site user device ip account wrapping sealed code db = (db', Inr (Inr v))"
  shows "db' = db \<and> (\<exists>secret step. decrypt_totp_secret (cy_aes_open crypto) (cy_sha256 crypto) (cy_text_decode crypto)
      wrapping sealed = Some secret \<and>
    verify_totp_code (cy_hmac_sha1 crypto) secret code (ts_issued_at site) (au_totp_last_accepted_step user)
      None None = Accepted step \<and>
    v = Some \<lparr>tv_credential_generation = the (au_totp_credential_generation user),
              tv_accepted_step = Finite (of_int step)\<rparr>)"
  using assms unfolding check_totp_code_def
  by (auto simp: repo_Inr split: option.splits if_splits totp_verification.splits)

lemma redeem_preserves: "preserves accounts (redeem_challenge crypto secret site u device t)"
  unfolding redeem_challenge_def
  by (intro preserving) (auto simp: consume_totp_challenge_def intro!: preserving split: option.split)

lemma totp_stage_passed:
  assumes "password_grant_totp crypto config site grant device user ip account db = (db', Inr (Inr v))"
  shows "totp_checked crypto site grant user v \<and> accounts db' = accounts db"
proof (cases "au_totp_enabled user")
  case False
  with assms show ?thesis by (simp add: password_grant_totp_def totp_checked_def repo_Inr Let_def)
next
  case True
  let ?check = "check_totp_code crypto site user device ip account (the (env_totp_secret (ts_env site)))
      (the (au_totp_encrypted_secret user))"
  from assms True obtain code d where
    code: "presented_code grant = Some code" "?check code d = (db', Inr (Inr v))" "accounts d = accounts db"
    unfolding password_grant_totp_def Let_def
    by (auto simp: repo_Inr failure_is_no_verification presented_code_def
        dest: preservesD [OF redeem_preserves] split: if_splits option.splits)
  with True check_totp_code_passed [OF code(2)] show ?thesis by (auto simp: totp_checked_def)
qed

lemma check_totp_code_no_tokens:
  "check_totp_code crypto site user device ip account wrapping sealed code db \<noteq> (db', Inr (Inl (Reply t)))"
  unfolding check_totp_code_def by (auto simp: repo_Inr split: option.splits if_splits totp_verification.splits)

lemma totp_stage_no_tokens:
  "password_grant_totp crypto config site grant device user ip account db \<noteq> (db', Inr (Inl (Reply (Tokens body))))"
  unfolding password_grant_totp_def Let_def
  by (auto simp: repo_Inr check_totp_code_no_tokens split: option.splits if_splits)

section \<open>The created session\<close>

text \<open>Every device is stored under the id built from its owner and its identifier.\<close>

definition device_ids_ok :: "database \<Rightarrow> bool" where
  "device_ids_ok db \<longleftrightarrow> (\<forall>d \<in> set (devices db). d_id d = build_device_id (d_user_id d) (d_identifier d))"

lemma build_device_id_inject [simp]: "build_device_id u a = build_device_id u b \<longleftrightarrow> a = b"
  by (simp add: build_device_id_def)

lemma password_session_created:
  assumes "create_password_grant_session i db = (db', Inr SessionCreated)" "si_totp_verification i = None" "device_ids_ok db"
  shows "users db' = users db \<and> (\<exists>u \<in> set (users db). credential_generation_current i u) \<and>
    (\<exists>d \<in> set (devices db'). session_device (si_user_id i) (si_device_identifier i) (si_refresh_token_id i) d)"
proof -
  from assms(1,2) obtain d1 n1 d2 n2 where
    s1: "login_insert_device i db 0 = Inr (d1, n1)" and s2: "login_update_device i d1 n1 = Inr (d2, n2)" and
    s3: "login_insert_token i d2 n2 = Inr (db', 1)"
    unfolding create_password_grant_session_def
    by (auto simp: with_batch_eq batch_def run_stmts_Inr session_batch_result_def return_value_def throw_def
        simp del: run_stmts.simps split: if_splits)
  have same: "users d1 = users db" "device_ids_ok d1"
    using s1 assms(3) by (auto simp: login_insert_device_def insert_or_ignore_device_Inr device_ids_ok_def
        login_device_id_def split: if_splits)
  then have d2: "users d2 = users db" "device_ids_ok d2"
    using s2 by (auto simp: login_update_device_def update_stmt_Inr device_ids_ok_def ball_sql_update)
  from s3 obtain d where d: "login_user_ok i d2" "d \<in> set (devices d2)" "d_id d = login_device_id i" "d_user_id d = si_user_id i"
      "d_revoked_at d = None" "d_session_id d = Some (si_refresh_token_id i)" and db': "users db' = users d2" "devices db' = devices d2"
    by (auto simp: login_insert_token_def insert_refresh_token_Inr sql_exists_iff split: if_splits)
  moreover from d d2(2) have "d_identifier d = si_device_identifier i"
    by (auto simp: device_ids_ok_def login_device_id_def)
  ultimately show ?thesis
    using d2(1) by (auto simp: login_user_ok_def sql_exists_iff session_device_def)
qed

lemma totp_session_created:
  assumes "create_password_grant_session i db = (db', Inr SessionCreated)" "si_totp_verification i = Some v"
  shows "users db' = users db \<and> (\<exists>u \<in> set (users db). credential_generation_current i u) \<and>
    (\<exists>d \<in> set (devices db'). session_device (si_user_id i) (si_device_identifier i) (si_refresh_token_id i) d)"
proof -
  from assms obtain d1 n1 d2 n2 where
    s1: "consume_login_totp_step i v db 0 = Inr (d1, n1)" and s2: "upsert_totp_device i v d1 n1 = Inr (d2, n2)" and
    s3: "insert_totp_token i v d2 n2 = Inr (db', 1)"
    unfolding create_password_grant_session_def create_totp_password_grant_session_def
    by (auto simp: with_batch_eq batch_def run_stmts_Inr session_batch_result_def return_value_def throw_def
        simp del: run_stmts.simps split: if_splits)
  from s3 have "n2 = 1" by (auto simp: insert_totp_token_def split: if_splits)
  with s2 have n1: "n1 = 1" by (auto simp: upsert_totp_device_def split: if_splits)
  then have "0 < n1" by simp
  with s1 have user: "\<exists>u \<in> set (users db). credential_generation_current i u" and d1: "users d1 = users db"
    by (auto simp: consume_login_totp_step_def update_stmt_Inr sql_count_pos sql_exists_iff)
  have d2: "users d2 = users d1"
    using s2 n1 by (auto simp: upsert_totp_device_def update_stmt_Inr insert_or_ignore_device_Inr split: if_splits)
  from s3 obtain d where d: "d \<in> set (devices d2)" "d_user_id d = si_user_id i" "d_identifier d = si_device_identifier i"
      "d_revoked_at d = None" "d_session_id d = Some (si_refresh_token_id i)" and db': "users db' = users d2" "devices db' = devices d2"
    by (auto simp: insert_totp_token_def insert_refresh_token_Inr sql_exists_iff split: if_splits)
  then show ?thesis using user d1 d2 by (auto simp: session_device_def)
qed

lemma session_created:
  assumes "create_password_grant_session i db = (db', Inr SessionCreated)" "device_ids_ok db"
  shows "users db' = users db" "\<exists>u \<in> set (users db). credential_generation_current i u"
    "\<exists>d \<in> set (devices db'). session_device (si_user_id i) (si_device_identifier i) (si_refresh_token_id i) d"
proof -
  have "users db' = users db \<and> (\<exists>u \<in> set (users db). credential_generation_current i u) \<and>
    (\<exists>d \<in> set (devices db'). session_device (si_user_id i) (si_device_identifier i) (si_refresh_token_id i) d)"
  proof (cases "si_totp_verification i")
    case None
    then show ?thesis by (rule password_session_created [OF assms(1) _ assms(2)])
  next
    case (Some v)
    then show ?thesis by (rule totp_session_created [OF assms(1)])
  qed
  then show "users db' = users db" "\<exists>u \<in> set (users db). credential_generation_current i u"
    "\<exists>d \<in> set (devices db'). session_device (si_user_id i) (si_device_identifier i) (si_refresh_token_id i) d"
    by blast+
qed

section \<open>What tokens presuppose\<close>

lemma same_accounts_find:
  "accounts d = accounts db \<Longrightarrow> find_auth_user_by_email e d = find_auth_user_by_email e db"
  by (simp add: accounts_def find_auth_user_by_email_def find_user_where_def auth_user_from_row_def Let_def split: option.split)

text \<open>The stages of a grant that issued tokens, with the databases between them.\<close>

lemma password_grant_stages:
  assumes "handle_password_grant crypto config site grant device db = (db', Inr (Reply (Tokens body)))"
  obtains user v d where
    "find_auth_user_by_email (pg_username_normalized grant) db = Inr (Some user)"
    "\<not> truthy (u_disabled_at (au_user user))"
    "\<not> is_account_locked (u_login_locked_until (au_user user)) (ts_now site)"
    "u_master_password_hash (au_user user) = pg_password grant"
    "totp_checked crypto site grant user v" "accounts d = accounts db"
    "\<exists>keys account. finish_password_grant crypto config site (au_user user) device account keys v d =
       (db', Inr (Reply (Tokens body)))"
proof -
  from assms obtain d1 user account ip where
    d1: "accounts d1 = accounts db" and
    user: "find_auth_user_by_email (pg_username_normalized grant) d1 = Inr (Some user)"
      "\<not> truthy (u_disabled_at (au_user user))" and
    login: "login_account crypto config site grant device user ip account d1 = (db', Inr (Reply (Tokens body)))"
    unfolding handle_password_grant_def Let_def
    by (auto simp: repo_Inr dest!: preservesD [OF transient_cleanup_preserves_accounts] split: if_splits option.splits)
  from login obtain v d2 keys where
    rest: "\<not> is_account_locked (u_login_locked_until (au_user user)) (ts_now site)"
      "u_master_password_hash (au_user user) = pg_password grant"
      "totp_checked crypto site grant user v" "accounts d2 = accounts d1"
      "finish_password_grant crypto config site (au_user user) device account keys v d2 = (db', Inr (Reply (Tokens body)))"
    unfolding login_account_def Let_def
    by (auto simp: repo_Inr repo_stage_Inr verify_presented_password_hash_def constant_time_equal_iff totp_stage_no_tokens
        dest!: totp_stage_passed split: if_splits)
  show thesis
    by (rule that [of user v d2]) (use user same_accounts_find [OF d1] d1 rest in \<open>simp_all, blast\<close>)
qed

section \<open>The issued token\<close>

lemma no_duplicate_key_ids:
  "\<not> has_duplicate_key_ids seen ks \<Longrightarrow> distinct (map sk_id ks) \<and> (\<forall>i \<in> set seen. i \<notin> sk_id ` set ks)"
  by (induction seen ks rule: has_duplicate_key_ids.induct) auto

text \<open>The signer and the verifier that one environment gives belong together.\<close>

lemma configured_signer:
  assumes "resolve_access_token_runtime_config env = Some config"
  shows "(\<exists>s. tc_signer config = PlainSigner s \<and> tc_verifier config = PlainVerifier s) \<or>
    (\<exists>ring. tc_signer config = KeySigner (kr_active ring) \<and> tc_verifier config = RingVerifier ring \<and>
       distinct (map sk_id (kr_active ring # kr_previous ring)) \<and> sk_id (kr_active ring) \<noteq> [])"
  using assms unfolding resolve_access_token_runtime_config_def Let_def
  by (auto simp: normalize_key_id_def truthy_or_none_Some dest!: no_duplicate_key_ids
      split: option.splits if_splits)

lemma configured_signature_verifies:
  assumes "resolve_access_token_runtime_config env = Some config"
    and "is_access_token_claims (JObj claims)" "json_plain (JObj claims)" "\<not> num_le (claim_number claims ''exp'') now"
    and "\<And>key m. hmac key m \<noteq> []" "\<And>key m. \<forall>b \<in> set (hmac key m). b < (256::nat)"
  shows "\<exists>key_id. verify_access_token hmac (tc_verifier config) (sign_access_token hmac (tc_signer config) claims) now =
    VerifiedToken claims key_id"
  using configured_signer [OF assms(1)]
proof (elim disjE exE conjE)
  fix s
  assume "tc_signer config = PlainSigner s" "tc_verifier config = PlainVerifier s"
  with verify_plain_signed [OF assms(2-6)] show ?thesis by simp
next
  fix ring
  assume "tc_signer config = KeySigner (kr_active ring)" "tc_verifier config = RingVerifier ring"
    "distinct (map sk_id (kr_active ring # kr_previous ring))" "sk_id (kr_active ring) \<noteq> []"
  with verify_signed [OF assms(2-4) _ _ _ assms(5,6), of "kr_active ring" ring] show ?thesis by simp
qed

lemma built_claims_valid:
  assumes "safe_int issued" "safe_int expires" "0 < length session" "length session \<le> 128" "method \<in> set auth_methods"
  shows "is_access_token_claims (JObj (build_access_token_claims u di session issued expires method premium))"
    and "json_plain (JObj (build_access_token_claims u di session issued expires method premium))"
  using assms by (auto simp: is_access_token_claims_def build_access_token_claims_def jprop_def session_id_ok_def amr_ok_def
      num_is_safe_integer_def split: option.split)

lemma built_claim_values:
  assumes "claims = build_access_token_claims u di session issued expires method premium"
  shows "jprop claims ''sessionId'' = Some (JStr session)" "claim_string claims ''sessionId'' = session"
    "claim_string claims ''sub'' = u_id u" "claim_string claims ''device'' = di"
    "claim_string claims ''securityStamp'' = u_security_stamp u" "as_string (jprop claims ''authMethod'') = Some method"
    "num_le (claim_number claims ''exp'') now \<longleftrightarrow> expires \<le> now" "claim_number claims ''iat'' = Finite (of_int issued)"
  using assms by (simp_all add: build_access_token_claims_def jprop_def claim_string_def claim_number_def)

text \<open>The account as the token's session look-up finds it: the same id, credentials and security stamp, enabled.\<close>

definition finds_session_user :: "user_row \<Rightarrow> string \<Rightarrow> string \<Rightarrow> database \<Rightarrow> bool" where
  "finds_session_user u di session db \<longleftrightarrow>
     (\<exists>user. find_auth_user_by_session (u_id u) di session db = Inr (Some user) \<and> u_id (au_user user) = u_id u \<and>
        u_security_stamp (au_user user) = u_security_stamp u \<and> \<not> truthy (u_disabled_at (au_user user)))"

lemma issued_token_authenticates:
  assumes "resolve_access_token_runtime_config (ts_env site) = Some config"
    and "issue_tokens crypto config site u di session method refresh keys db = (db', Inr (Reply (Tokens body)))"
    and "finds_session_user u di session db''"
    and "safe_int (ts_issued_at site)" "safe_int (ts_issued_at site + access_token_ttl_seconds)"
    and "0 < length session" "length session \<le> 128" "method \<in> set auth_methods"
    and "now < ts_issued_at site + access_token_ttl_seconds"
    and "\<And>key m. cy_hmac_sha256 crypto key m \<noteq> []" "\<And>key m. \<forall>b \<in> set (cy_hmac_sha256 crypto key m). b < (256::nat)"
  shows "\<exists>auth. authenticate_vault_request_with_access_token (cy_hmac_sha256 crypto) (ts_env site)
      (Some (tb_access_token body)) now db'' = Inr auth \<and> u_id (au_user (av_user auth)) = u_id u \<and>
    av_device_identifier auth = di \<and> av_session_id auth = session \<and> av_auth_method auth = Some method \<and>
    av_token_issued_at auth = Finite (of_int (ts_issued_at site))"
proof -
  define claims where "claims = build_access_token_claims u di session (ts_issued_at site)
      (ts_issued_at site + access_token_ttl_seconds) method (flag_true (env_premium_features (ts_env site)))"
  let ?t = "sign_access_token (cy_hmac_sha256 crypto) (tc_signer config) claims"
  have t: "tb_access_token body = ?t"
    using assms(2) by (auto simp: issue_tokens_def Let_def repo_lift_def and_then_Inr_iff build_token_response_def claims_def)
  note built = built_claim_values [OF claims_def]
  have claims: "is_access_token_claims (JObj claims)" "json_plain (JObj claims)" "\<not> num_le (claim_number claims ''exp'') now"
    using built_claims_valid [OF assms(4-8)] assms(9) unfolding built(7) by (simp_all only: claims_def not_le)
  from configured_signature_verifies [where hmac = "cy_hmac_sha256 crypto", OF assms(1) claims assms(10,11)]
  obtain key_id where v: "verify_access_token (cy_hmac_sha256 crypto) (tc_verifier config) ?t now = VerifiedToken claims key_id"
    by blast
  have "?t \<noteq> []" by (simp add: sign_access_token_def Let_def)
  with assms(1,3,6) v t show ?thesis
    by (auto simp: authenticate_vault_request_with_access_token_def finds_session_user_def built)
qed

lemma found_account:
  assumes "find_auth_user_by_email email db = Inr (Some user)"
  shows "au_user user \<in> set (users db)" "kdf_from_stored_generation (user_generation (au_user user)) \<noteq> None"
  using assms by (auto simp: find_auth_user_by_email_def find_user_where_def auth_user_from_row_def Let_def
      split: option.splits if_splits dest: sql_first_SomeD)

definition reset_login_counters :: "string \<Rightarrow> user_row \<Rightarrow> user_row" where
  "reset_login_counters now u =
     u\<lparr>u_login_failed_count := 0, u_login_failed_at := None, u_login_locked_until := None, u_updated_at := now\<rparr>"

lemma reset_login_counters_same [simp]:
  "u_id (reset_login_counters now u) = u_id u" "u_security_stamp (reset_login_counters now u) = u_security_stamp u"
  "user_generation (reset_login_counters now u) = user_generation u"
  by (simp_all add: reset_login_counters_def user_generation_def)

lemma finish_stages:
  assumes "finish_password_grant crypto config site u device account keys v db = (db', Inr (Reply (Tokens body)))"
  obtains d where
    "users d = sql_update (\<lambda>x. u_id x = u_id u) (reset_login_counters (ts_now site)) (users db)" "devices d = devices db"
    "create_password_grant_session (login_session_input crypto config site u device v (v = None)) d = (db', Inr SessionCreated)"
    "issue_tokens crypto config site u (td_identifier device) (ts_refresh_token_id site) ''password''
       (generate_refresh_token (ts_refresh_bytes site)) keys db' = (db', Inr (Reply (Tokens body)))"
proof -
  from assms obtain d1 x1 d2 x2 result d3 where
    d1: "reset_login_defense_state (u_id u) (ts_now site) db = (d1, Inr x1)" and
    d2: "reset_auth_failure_bucket account d1 = (d2, Inr x2)" and
    d3: "create_password_grant_session (login_session_input crypto config site u device v (v = None)) d2 = (d3, Inr result)" and
    issue: "result = SessionCreated" "issue_tokens crypto config site u (td_identifier device) (ts_refresh_token_id site) ''password''
       (generate_refresh_token (ts_refresh_bytes site)) keys d3 = (db', Inr (Reply (Tokens body)))"
    unfolding finish_password_grant_def by (auto simp: repo_Inr split: if_splits)
  have "users d1 = sql_update (\<lambda>x. u_id x = u_id u) (reset_login_counters (ts_now site)) (users db)" "devices d1 = devices db"
    using d1 by (auto simp: reset_login_defense_state_def with_batch_eq batch_eval return_value_def
        reset_login_counters_def [abs_def])
  moreover have "users d2 = users d1" "devices d2 = devices d1"
    using d2 by (auto simp: reset_auth_failure_bucket_def with_batch_eq batch_eval return_value_def)
  moreover have "d3 = db'" using issue(2) by (auto simp: issue_tokens_def Let_def repo_Inr)
  ultimately show thesis using that d3 issue by simp
qed

lemma session_user_found:
  assumes "distinct (map u_id (users db))" "u \<in> set (users db)" "kdf_from_stored_generation (user_generation u) \<noteq> None"
    and "\<not> truthy (u_disabled_at u)" "\<exists>d \<in> set (devices db). session_device (u_id u) di session d"
  shows "finds_session_user u di session db"
proof -
  let ?p = "\<lambda>x. u_id x = u_id u \<and> sql_exists (session_device (u_id x) di session) (devices db)"
  obtain x where x: "sql_first ?p (users db) = Some x"
    using assms(2,5) by (cases "sql_first ?p (users db)") (auto simp: sql_first_None sql_exists_iff)
  then have "x = u"
    using sql_first_SomeD [OF x] distinct_key_unique [OF assms(1) _ assms(2)] by blast
  with x assms(3,4) show ?thesis
    by (auto simp: finds_session_user_def find_auth_user_by_session_def find_auth_user_by_id_def find_user_where_def
        auth_user_from_row_def Let_def)
qed

lemma finish_finds_session_user:
  assumes "finish_password_grant crypto config site u device account keys v db = (db', Inr (Reply (Tokens body)))"
    and "u \<in> set (users db)" "kdf_from_stored_generation (user_generation u) \<noteq> None"
    and "distinct (map u_id (users db))" "device_ids_ok db"
  shows "finds_session_user u (td_identifier device) (ts_refresh_token_id site) db'"
  using assms(1)
proof (rule finish_stages)
  fix d
  let ?i = "login_session_input crypto config site u device v (v = None)" and ?u = "reset_login_counters (ts_now site) u"
  assume users: "users d = sql_update (\<lambda>x. u_id x = u_id u) (reset_login_counters (ts_now site)) (users db)"
    and devices: "devices d = devices db" and created: "create_password_grant_session ?i d = (db', Inr SessionCreated)"
  have "device_ids_ok d" using assms(5) devices by (simp add: device_ids_ok_def)
  note session = session_created [OF created this]
  have ids: "map u_id (users d) = map u_id (users db)" unfolding users by (rule sql_update_key) simp
  have mine: "?u \<in> set (users d)" unfolding users by (rule updated_row_in) (use assms(2) in simp_all)
  obtain w where w: "w \<in> set (users d)" "credential_generation_current ?i w" using session(2) by blast
  then have "u_id w = u_id ?u" by (simp add: credential_generation_current_def login_session_input_def)
  then have "w = ?u" using distinct_key_unique [of u_id "users d"] ids assms(4) w(1) mine by simp
  with w(2) have enabled: "u_disabled_at ?u = None" by (simp add: credential_generation_current_def)
  have "finds_session_user ?u (td_identifier device) (ts_refresh_token_id site) db'"
    using session(1,3) ids assms(3,4) mine enabled
    by (intro session_user_found) (auto simp: login_session_input_def)
  then show ?thesis by (simp add: finds_session_user_def)
qed

section \<open>A login that goes through\<close>

definition without_slices ::
    "database \<Rightarrow> user_row list \<times> totp_row list \<times> device_row list \<times> refresh_token_row list \<times> personal_api_key_row list \<times> string" where
  "without_slices db = (users db, user_totp db, devices db, refresh_tokens db, personal_api_keys db, sql_clock db)"

text \<open>A clean-up by key takes a bucket as a whole: what is left under a key is what was there, or nothing.\<close>

definition buckets_left :: "database \<Rightarrow> database \<Rightarrow> bool" where
  "buckets_left db d \<longleftrightarrow> (\<forall>key. find_auth_failure_bucket key d \<in> {None, find_auth_failure_bucket key db})"

lemma sql_first_delete_oldest:
  "sql_first (\<lambda>r. i r = k) (fst (delete_oldest i p age limit t)) \<in> {None, sql_first (\<lambda>r. i r = k) t}"
proof -
  have "sql_first (\<lambda>r. i r = k) (filter (\<lambda>r. i r \<notin> K) t) = (if k \<in> K then None else sql_first (\<lambda>r. i r = k) t)" for K
    by (induction t) (auto simp: sql_first_def)
  then show ?thesis by (simp add: delete_oldest_def sql_delete_def Let_def)
qed

lemma defense_slice:
  "\<exists>d n. cleanup_auth_defense_state now x y rows db = (d, Inr n) \<and> without_slices d = without_slices db \<and> buckets_left db d"
proof -
  obtain a n where a: "cleanup_attempt_rows x rows (auth_attempts db) = (a, n)" by fastforce
  obtain b m where b: "cleanup_bucket_rows (y, now) rows (auth_failure_buckets db) = (b, m)" by fastforce
  have "sql_first (\<lambda>r. fb_bucket_key r = key) b \<in> {None, sql_first (\<lambda>r. fb_bucket_key r = key) (auth_failure_buckets db)}" for key
    using sql_first_delete_oldest [of fb_bucket_key key "bucket_due (y, now)" fb_updated_at rows "auth_failure_buckets db"] b
    by (simp add: cleanup_bucket_rows_def)
  then have "buckets_left db (db\<lparr>auth_attempts := a, auth_failure_buckets := b\<rparr>)"
    by (simp add: buckets_left_def find_auth_failure_bucket_def)
  with a b show ?thesis
    by (simp add: cleanup_auth_defense_state_def cleanup_expired_auth_attempts_def cleanup_expired_auth_failure_buckets_def
        return_value_def without_slices_def)
qed

lemma login_cleanup:
  assumes "common_era (t * 1000)" "common_era ((t - auth_defense_cleanup_window_seconds) * 1000)" 
    "common_era ((t - audit_retention_days * 86400) * 1000)"
  shows "\<exists>d. cleanup_transient_auth_data (Inr ()) (seconds_text t) \<lparr>co_audit_events = audit, co_auth_requests = False,
      co_refresh_tokens = False, co_request_quota_buckets = False\<rparr> db = (d, Inr ()) \<and> without_slices d = without_slices db \<and>
    buckets_left db d"
proof -
  let ?before = "seconds_text (t - auth_defense_cleanup_window_seconds)"
  have w: "iso_shift (seconds_text t) (- auth_defense_cleanup_window_seconds) = Inr ?before"
    using assms by (simp add: seconds_text_def algebra_simps)
  have a: "iso_shift (seconds_text t) (- (audit_retention_days * 86400)) = Inr (seconds_text (t - audit_retention_days * 86400))"
    using assms by (simp add: seconds_text_def algebra_simps)
  have p: "pending_attachment_expired_before (seconds_text t) = Inr (seconds_text (t - pending_allocation_ttl_seconds))"
    using assms by (simp add: seconds_text_def pending_attachment_expired_before_def to_iso_string_Some common_era_def
        max_time_def pending_allocation_ttl_seconds_def audit_retention_days_def algebra_simps)
  obtain d1 n where d1: "cleanup_auth_defense_state (seconds_text t) ?before ?before auth_defense_cleanup_rows_per_slice db = (d1, Inr n)"
    "without_slices d1 = without_slices db" "buckets_left db d1"
    using defense_slice by blast
  moreover obtain c k where c: "cleanup_challenge_rows (seconds_text t) auth_defense_cleanup_rows_per_slice (totp_challenges d1) = (c, k)"
    by (meson surj_pair)
  moreover obtain f l where "delete_pending_rows (seconds_text (t - pending_allocation_ttl_seconds)) attachment_cleanup_rows_per_slice
      (cipher_attachments d1) = (f, l)"
    by (meson surj_pair)
  moreover obtain e j where "cleanup_audit_rows (seconds_text (t - audit_retention_days * 86400)) audit_max_rows_per_cleanup
      (audit_events d1) = (e, j)"
    by (meson surj_pair)
  ultimately show ?thesis
    by (cases audit) (simp_all add: cleanup_transient_auth_data_def repo_bind_def repo_then_def repo_when_def repo_lift_def w a p
        delete_expired_pending_cipher_attachments_def cleanup_expired_totp_challenges_def cleanup_expired_audit_events_def return_value_def without_slices_def
        buckets_left_def find_auth_failure_bucket_def)
qed

lemma finish_succeeds:
  assumes "u \<in> set (users db)" "kdf_from_stored_generation (user_generation u) \<noteq> None" "schema_ok db"
    and "u_disabled_at u = None" "\<forall>t \<in> set (user_totp db). tf_user_id t = u_id u \<longrightarrow> \<not> tf_enabled t"
    and "fresh_token_id (ts_refresh_token_id site) db"
    and "\<forall>t \<in> set (refresh_tokens db). rt_token_hash t \<noteq> hash_refresh_token (cy_sha256 crypto)
      (tc_refresh_token_secret config) (generate_refresh_token (ts_refresh_bytes site))"
    and "login_device_usable (login_session_input crypto config site u device None True) db"
  shows "\<exists>body db'. finish_password_grant crypto config site u device account keys None db = (db', Inr (Reply (Tokens body)))"
proof -
  let ?i = "login_session_input crypto config site u device None True"
  let ?p = "\<lambda>x. u_id x = u_id u" and ?u = "reset_login_counters (ts_now site) u"
  define d where "d = auth_failure_buckets_update (sql_delete (\<lambda>r. fb_bucket_key r = account))
      (users_update (sql_update ?p (reset_login_counters (ts_now site))) db)"
  have d: "reset_login_defense_state (u_id u) (ts_now site) db = (users_update (sql_update ?p (reset_login_counters (ts_now site))) db, Inr ())"
    "reset_auth_failure_bucket account (users_update (sql_update ?p (reset_login_counters (ts_now site))) db) = (d, Inr ())"
    by (simp_all add: reset_login_defense_state_def reset_auth_failure_bucket_def with_batch_def batch_eval return_value_def
        d_def reset_login_counters_def [abs_def])
  have "schema_ok d"
    by (rule schema_ok_keys [OF _ assms(3)]) (simp add: session_keys_def d_def sql_update_key)
  moreover have "?u \<in> set (users d)" using assms(1) by (auto simp: d_def intro!: updated_row_in)
  moreover have "credential_generation_current ?i ?u"
    using assms(4) by (simp add: credential_generation_current_def login_session_input_def reset_login_counters_def)
  moreover have "\<not> sql_exists (\<lambda>t. tf_user_id t = u_id u \<and> tf_enabled t) (user_totp d)"
    using assms(5) by (auto simp: sql_exists_iff d_def)
  ultimately have "login_user_ok ?i d" "schema_ok d"
    unfolding login_user_ok_def sql_exists_iff [of _ "users d"] by force+
  then obtain d' where created: "create_password_grant_session ?i d = (d', Inr SessionCreated)"
    using password_login_session [of d ?i] assms(6-8)
    by (auto simp: login_session_input_def fresh_token_id_def login_device_usable_def d_def)
  have "require_account_credential_kdf u \<noteq> Inl e" for e
    using assms(2) by (auto simp: require_account_credential_kdf_def split: option.splits)
  then have "\<exists>body. build_token_response u access refresh keys = Inr body" for access refresh
    by (cases "require_account_credential_kdf u")
      (auto simp: build_token_response_def build_master_password_unlock_response_def split: option.splits)
  then obtain body where "build_token_response u (sign_access_token (cy_hmac_sha256 crypto) (tc_signer config)
      (build_access_token_claims u (td_identifier device) (ts_refresh_token_id site) (ts_issued_at site)
        (ts_issued_at site + access_token_ttl_seconds) ''password'' (flag_true (env_premium_features (ts_env site)))))
      (generate_refresh_token (ts_refresh_bytes site)) keys = Inr body"
    by blast
  with created show ?thesis
    by (simp add: finish_password_grant_def repo_then_def repo_bind_def d issue_tokens_def repo_lift_def)
qed

lemma unlocked_bucket:
  assumes "\<not> is_account_locked (Option.bind (find_auth_failure_bucket key db) fb_locked_until) now" "buckets_left db d"
  shows "\<not> is_account_locked (Option.bind (find_auth_failure_bucket key d) fb_locked_until) now"
proof -
  from assms(2) have "find_auth_failure_bucket key d = None \<or> find_auth_failure_bucket key d = find_auth_failure_bucket key db"
    by (simp add: buckets_left_def)
  then show ?thesis using assms(1) by (auto simp: is_account_locked_def)
qed

lemma no_enabled_factor:
  assumes "find_auth_user_by_email e db = Inr (Some user)" "\<not> au_totp_enabled user" "distinct (map tf_user_id (user_totp db))"
    "t \<in> set (user_totp db)" "tf_user_id t = u_id (au_user user)"
  shows "\<not> tf_enabled t"
proof -
  obtain x where x: "sql_first (\<lambda>x. tf_user_id x = u_id (au_user user)) (user_totp db) = Some x"
    using assms(4,5) by (cases "sql_first (\<lambda>x. tf_user_id x = u_id (au_user user)) (user_totp db)") (auto simp: sql_first_None)
  with sql_first_SomeD [OF x] assms(3-5) have "x = t" by (auto intro: distinct_key_unique)
  with x assms(1,2) show ?thesis
    by (auto simp: find_auth_user_by_email_def find_user_where_def auth_user_from_row_def Let_def split: option.splits if_splits)
qed

lemma right_credentials_sign_in:
  assumes "common_era (ts_issued_at site * 1000)"
    and "common_era ((ts_issued_at site - auth_defense_cleanup_window_seconds) * 1000)"
    and "common_era ((ts_issued_at site - audit_retention_days * 86400) * 1000)" "ts_outside site = Inr ()"
    and "find_auth_user_by_email (pg_username_normalized grant) db = Inr (Some user)"
    and "u_disabled_at (au_user user) = None" "\<not> au_totp_enabled user"
    and "u_master_password_hash (au_user user) = pg_password grant"
    and "build_account_key_projection (au_user user) = Inr keys"
    and "\<not> is_account_locked (u_login_locked_until (au_user user)) (ts_now site)"
    and "\<forall>key \<in> {build_auth_attempt_bucket_key (sha256_text crypto) ''ip'' (extract_client_address (ts_headers site)),
        build_auth_attempt_bucket_key (sha256_text crypto) ''account'' (pg_username_normalized grant)}.
      \<not> is_account_locked (Option.bind (find_auth_failure_bucket key db) fb_locked_until) (ts_now site)"
    and "schema_ok db" "distinct (map tf_user_id (user_totp db))" "fresh_token_id (ts_refresh_token_id site) db"
    and "\<forall>t \<in> set (refresh_tokens db). rt_token_hash t \<noteq> hash_refresh_token (cy_sha256 crypto)
      (tc_refresh_token_secret config) (generate_refresh_token (ts_refresh_bytes site))"
    and "login_device_usable (login_session_input crypto config site (au_user user) device None True) db"
  shows "\<exists>body db'. handle_password_grant crypto config site grant device db = (db', Inr (Reply (Tokens body)))"
proof -
  let ?options = "\<lparr>co_audit_events = is_audit_logging_enabled (env_audit_logs (ts_env site)), co_auth_requests = False,
      co_refresh_tokens = False, co_request_quota_buckets = False\<rparr>"
  obtain d where
    cleanup: "cleanup_transient_auth_data (ts_outside site) (ts_now site) ?options db = (d, Inr ())" and
    d: "without_slices d = without_slices db" "buckets_left db d"
    using login_cleanup [OF assms(1-3), of "is_audit_logging_enabled (env_audit_logs (ts_env site))" db]
    unfolding assms(4) ts_now_def by blast
  have found: "find_auth_user_by_email (pg_username_normalized grant) d = Inr (Some user)"
    using d(1) assms(5) same_accounts_find [of d db] by (simp add: without_slices_def accounts_def)
  have keys: "session_keys d = session_keys db" using d(1) by (simp add: without_slices_def session_keys_def)
  have unlocked: "\<not> is_account_locked (Option.bind (find_auth_failure_bucket (build_auth_attempt_bucket_key (sha256_text crypto) ''ip''
        (extract_client_address (ts_headers site))) d) fb_locked_until) (ts_now site)"
      "\<not> is_account_locked (Option.bind (find_auth_failure_bucket (build_auth_attempt_bucket_key (sha256_text crypto) ''account''
        (pg_username_normalized grant)) d) fb_locked_until) (ts_now site)"
    using assms(11) by (auto intro!: unlocked_bucket [OF _ d(2)])
  have "\<exists>body db'. finish_password_grant crypto config site (au_user user) device account keys None d =
      (db', Inr (Reply (Tokens body)))" for account
    using assms(6,14-16) d(1) found_account [OF assms(5)] no_enabled_factor [OF assms(5,7,13)] schema_ok_keys [OF keys assms(12)]
    by (intro finish_succeeds) (auto simp: without_slices_def fresh_token_id_def login_device_usable_def)
  then show ?thesis
    using assms(6-10)
    by (simp add: handle_password_grant_def Let_def repo_then_def repo_bind_def repo_get_def repo_read_def repo_lift_def
        cleanup unlocked found login_account_def verify_presented_password_hash_def constant_time_equal_iff
        password_grant_totp_def return_value_def)
qed

section \<open>Guarantees of the password grant\<close>

text \<open>
  C33. A password grant issues tokens only after every check. If the endpoint answers with tokens, the e-mail names an account
  that is enabled and not locked, the presented password hash equals the stored one, and when the account
  has TOTP the presented code is the code of its decrypted secret at a step later than the last one it accepted.
\<close>

theorem password_grant_checks_every_factor:
  assumes "handle_password_grant crypto config site grant device db = (db', Inr (Reply (Tokens body)))"
  shows "\<exists>user v. find_auth_user_by_email (pg_username_normalized grant) db = Inr (Some user) \<and>
    au_user user \<in> set (users db) \<and> \<not> truthy (u_disabled_at (au_user user)) \<and>
    \<not> is_account_locked (u_login_locked_until (au_user user)) (ts_now site) \<and>
    u_master_password_hash (au_user user) = pg_password grant \<and> totp_checked crypto site grant user v"
  using assms by (rule password_grant_stages) (use found_account(1) in blast)

lemma login_token_accepted:
  assumes "resolve_access_token_runtime_config (ts_env site) = Some config"
    and "handle_password_grant crypto config site grant device db = (db', Inr (Reply (Tokens body)))"
    and "distinct (map u_id (users db))" "device_ids_ok db"
    and "safe_int (ts_issued_at site)" "safe_int (ts_issued_at site + access_token_ttl_seconds)"
    and "0 < length (ts_refresh_token_id site)" "length (ts_refresh_token_id site) \<le> 128"
    and "now < ts_issued_at site + access_token_ttl_seconds"
    and "\<And>key m. cy_hmac_sha256 crypto key m \<noteq> []" "\<And>key m. \<forall>b \<in> set (cy_hmac_sha256 crypto key m). b < (256::nat)"
  shows "\<exists>user auth. find_auth_user_by_email (pg_username_normalized grant) db = Inr (Some user) \<and>
    authenticate_vault_request_with_access_token (cy_hmac_sha256 crypto) (ts_env site)
      (Some (tb_access_token body)) now db' = Inr auth \<and>
    u_id (au_user (av_user auth)) = u_id (au_user user) \<and> av_device_identifier auth = td_identifier device \<and>
    av_session_id auth = ts_refresh_token_id site \<and> av_auth_method auth = Some ''password''"
  using assms(2)
proof (rule password_grant_stages)
  fix user v d
  assume user: "find_auth_user_by_email (pg_username_normalized grant) db = Inr (Some user)" and d: "accounts d = accounts db"
    and "\<exists>keys account. finish_password_grant crypto config site (au_user user) device account keys v d =
      (db', Inr (Reply (Tokens body)))"
  then obtain keys account where
    finish: "finish_password_grant crypto config site (au_user user) device account keys v d = (db', Inr (Reply (Tokens body)))"
    by blast
  have found: "finds_session_user (au_user user) (td_identifier device) (ts_refresh_token_id site) db'"
    using finish_finds_session_user [OF finish] found_account [OF user] assms(3,4) d by (simp add: accounts_def device_ids_ok_def)
  obtain d3 where issue: "issue_tokens crypto config site (au_user user) (td_identifier device) (ts_refresh_token_id site)
      ''password'' (generate_refresh_token (ts_refresh_bytes site)) keys d3 = (db', Inr (Reply (Tokens body)))"
    using finish by (rule finish_stages)
  have "''password'' \<in> set auth_methods" by (simp add: auth_methods_def)
  from issued_token_authenticates [OF assms(1) issue found assms(5-8) this assms(9-11)] user show ?thesis by blast
qed

text \<open>
  The access token of a login authenticates its session. Until it expires, the token authenticates, in the database the login
  leaves, as the account that logged in, on the device of the login, for the new session, by password. The
  device rows carry the ids the code builds, account ids are distinct, and HMAC-SHA-256 yields some bytes.
\<close>

theorem login_token_authenticates:
  assumes "resolve_access_token_runtime_config (ts_env site) = Some config"
    and "handle_password_grant crypto config site grant device db = (db', Inr (Reply (Tokens body)))"
    and "distinct (map u_id (users db))" "device_ids_ok db"
    and "safe_int (ts_issued_at site)" "safe_int (ts_issued_at site + access_token_ttl_seconds)"
    and "0 < length (ts_refresh_token_id site)" "length (ts_refresh_token_id site) \<le> 128"
    and "now < ts_issued_at site + access_token_ttl_seconds"
    and "\<And>key m. cy_hmac_sha256 crypto key m \<noteq> []" "\<And>key m. \<forall>b \<in> set (cy_hmac_sha256 crypto key m). b < (256::nat)"
  shows "\<exists>user auth. find_auth_user_by_email (pg_username_normalized grant) db = Inr (Some user) \<and>
    authenticate_vault_request_with_access_token (cy_hmac_sha256 crypto) (ts_env site)
      (Some (tb_access_token body)) now db' = Inr auth \<and>
    u_id (au_user (av_user auth)) = u_id (au_user user) \<and> av_device_identifier auth = td_identifier device \<and>
    av_session_id auth = ts_refresh_token_id site \<and> av_auth_method auth = Some ''password''"
  using assms by (rule login_token_accepted)

lemma verified_claims_unique:
  "verify_access_token hmac verifier token now = VerifiedToken claims key \<Longrightarrow>
   verify_access_token hmac verifier token later = VerifiedToken claims' key' \<Longrightarrow> claims' = claims"
  unfolding verify_access_token_def
  by (auto split: list.splits option.splits json.splits if_splits)

lemma authenticated_claims:
  assumes "authenticate_vault_request_with_access_token hmac env token now db = Inr auth"
  obtains config claims key where "resolve_access_token_runtime_config env = Some config"
    "verify_access_token hmac (tc_verifier config) (the token) now = VerifiedToken claims key"
    "u_id (au_user (av_user auth)) = claim_string claims ''sub''" "av_device_identifier auth = claim_string claims ''device''"
    "av_session_id auth = claim_string claims ''sessionId''"
proof -
  have id: "u_id (au_user user) = uid" if "find_auth_user_by_session uid di sid db = Inr (Some user)" for user uid di sid
    using that by (auto simp: find_auth_user_by_session_def find_auth_user_by_id_def find_user_where_def
        auth_user_from_row_def Let_def split: option.splits if_splits dest: sql_first_SomeD)
  from assms show thesis
    unfolding authenticate_vault_request_with_access_token_def
    by (auto split: option.splits if_splits access_token_verification.splits sum.splits)
      (rule that, assumption, assumption, auto dest: id)
qed

text \<open>
  C40. Signing out refuses the access token at once. Once the session a request was authenticated for is revoked, the same
  request is refused at any later time, although its token is still validly signed and has not expired.
\<close>

theorem signed_out_token_refused:
  assumes "authenticate_vault_request_with_access_token hmac env token now db = Inr auth"
  shows "\<exists>r. authenticate_vault_request_with_access_token hmac env token later
    (fst (revoke_current_device_session (u_id (au_user (av_user auth))) (av_device_identifier auth) (av_session_id auth) at_time db)) =
      Inl r"
proof -
  let ?db = "fst (revoke_current_device_session (u_id (au_user (av_user auth))) (av_device_identifier auth) (av_session_id auth) at_time db)"
  from assms obtain config claims key where
    config: "resolve_access_token_runtime_config env = Some config" and
    claims: "verify_access_token hmac (tc_verifier config) (the token) now = VerifiedToken claims key" and
    who: "u_id (au_user (av_user auth)) = claim_string claims ''sub''" "av_device_identifier auth = claim_string claims ''device''"
      "av_session_id auth = claim_string claims ''sessionId''"
    by (rule authenticated_claims)
  have "find_auth_user_by_session (claim_string claims ''sub'') (claim_string claims ''device'')
      (claim_string claims ''sessionId'') ?db = Inr None"
    unfolding who by (rule session_gone)
  with config claims show ?thesis
    unfolding authenticate_vault_request_with_access_token_def
    by (auto split: access_token_verification.split dest: verified_claims_unique)
qed

text \<open>
  C39. The right credentials sign in. An enabled account without TOTP, whose key pair is absent or can be shown, gets tokens when it presents its
  password hash from an unlocked address, unless the account or its bucket of failures is locked. The failures of other accounts and
  addresses, locked or not, and whatever the clean-up finds in the tables of the model make no difference, nor does an earlier session of the device. The
  refresh token and its id are drawn anew, a device row of that identifier is the user's own, the clock is in the common era, and the clean-up of the one table outside the
  model, the passkey challenges, does not fail.
\<close>

theorem correct_login_succeeds:
  assumes "common_era (ts_issued_at site * 1000)"
    and "common_era ((ts_issued_at site - auth_defense_cleanup_window_seconds) * 1000)"
    and "common_era ((ts_issued_at site - audit_retention_days * 86400) * 1000)" "ts_outside site = Inr ()"
    and "find_auth_user_by_email (pg_username_normalized grant) db = Inr (Some user)"
    and "u_disabled_at (au_user user) = None" "\<not> au_totp_enabled user"
    and "u_master_password_hash (au_user user) = pg_password grant"
    and "build_account_key_projection (au_user user) = Inr keys"
    and "\<not> is_account_locked (u_login_locked_until (au_user user)) (ts_now site)"
    and "\<forall>key \<in> {build_auth_attempt_bucket_key (sha256_text crypto) ''ip'' (extract_client_address (ts_headers site)),
        build_auth_attempt_bucket_key (sha256_text crypto) ''account'' (pg_username_normalized grant)}.
      \<not> is_account_locked (Option.bind (find_auth_failure_bucket key db) fb_locked_until) (ts_now site)"
    and "schema_ok db" "distinct (map tf_user_id (user_totp db))" "fresh_token_id (ts_refresh_token_id site) db"
    and "\<forall>t \<in> set (refresh_tokens db). rt_token_hash t \<noteq> hash_refresh_token (cy_sha256 crypto)
      (tc_refresh_token_secret config) (generate_refresh_token (ts_refresh_bytes site))"
    and "login_device_usable (login_session_input crypto config site (au_user user) device None True) db"
  shows "\<exists>body db'. handle_password_grant crypto config site grant device db = (db', Inr (Reply (Tokens body)))"
  using assms by (rule right_credentials_sign_in)

section \<open>A sample login\<close>

definition sample_sha256 :: "nat list \<Rightarrow> nat list" where
  "sample_sha256 bs = [length bs mod 256, sum_list bs mod 256]"

definition sample_crypto :: crypto where
  "sample_crypto = \<lparr>cy_hmac_sha256 = sample_hmac256, cy_hmac_sha1 = sample_hmac256, cy_sha256 = sample_sha256,
     cy_aes_open = (\<lambda>key iv ad ct. None), cy_text_decode = map char_of\<rparr>"

definition sample_env :: bindings where
  "sample_env = \<lparr>env_token_secret = Some ''top'', env_active_kid = Some ''k2'', env_active_secret = Some ''new'',
     env_previous_keys = None, env_totp_secret = None, env_auth_requests_enabled = None, env_auth_request_secret = None,
     env_audit_logs = None, env_premium_features = None, env_personal_api_keys_enabled = None,
     env_api_key_secret = None\<rparr>"

definition sample_site :: token_site where
  "sample_site = \<lparr>ts_env = sample_env, ts_headers = (\<lambda>h. None), ts_issued_at = 0, ts_attempt_id = ''a1'',
     ts_challenge_id = ''c1'', ts_challenge_bytes = [1, 2, 3], ts_refresh_bytes = [4, 5, 6], ts_refresh_token_id = ''t1'',
     ts_audit = \<lparr>as_logs = None, as_request_id = ''r'', as_now = ''n'', as_row_id = ''e''\<rparr>, ts_outside = Inr ()\<rparr>"

definition sample_device :: token_device_info where
  "sample_device = \<lparr>td_identifier = ''phone'', td_name = None, td_type = Some 1\<rparr>"

definition sample_grant :: password_grant where
  "sample_grant = \<lparr>pg_username = ''a@b.co'', pg_username_normalized = ''a@b.co'', pg_password = ''hash'', pg_scope = None,
     pg_device = None, pg_two_factor_provider = None, pg_two_factor_token = None, pg_two_factor_code = None\<rparr>"

definition sample_config :: access_token_config where "sample_config = the (resolve_access_token_runtime_config sample_env)"


lemma sample_config_resolves: "resolve_access_token_runtime_config sample_env = Some sample_config"
  by code_simp

lemma sample_site_clock:
  "common_era (ts_issued_at sample_site * 1000)"
  "common_era ((ts_issued_at sample_site - auth_defense_cleanup_window_seconds) * 1000)"
  "common_era ((ts_issued_at sample_site - audit_retention_days * 86400) * 1000)" "ts_outside sample_site = Inr ()"
  by (simp_all add: sample_site_def common_era_def auth_defense_cleanup_window_seconds_def policy_defs audit_retention_days_def)

lemma sample_user_found:
  "find_auth_user_by_email (pg_username_normalized sample_grant) sample_database =
     Inr (Some \<lparr>au_user = sample_user, au_totp_enabled = False, au_totp_encrypted_secret = None,
       au_totp_last_accepted_step = None, au_totp_credential_generation = None\<rparr>)"
  by code_simp

lemmas sample_credentials = sample_user_def sample_grant_def sample_database_def empty_database_def

lemma sample_user_keys: "build_account_key_projection sample_user = Inr None"
  by code_simp

lemma sample_grant_goes_through:
  "\<exists>body db'. handle_password_grant sample_crypto sample_config sample_site sample_grant sample_device sample_database =
     (db', Inr (Reply (Tokens body)))"
  by (rule right_credentials_sign_in [OF sample_site_clock sample_user_found])
    (use sample_start sample_user_keys in \<open>simp_all add: sample_credentials session_inv_def is_account_locked_def
        fresh_token_id_def login_device_usable_def find_auth_failure_bucket_def sql_first_def\<close>)

text \<open>The same login while another client is locked out.\<close>

definition sample_attacked :: database where
  "sample_attacked = sample_database\<lparr>auth_failure_buckets :=
     [\<lparr>fb_bucket_key = ''ip:other'', fb_failed_count = 9, fb_window_started_at = iso_text 0, fb_locked_until = Some (iso_text 900000),
       fb_updated_at = iso_text 0\<rparr>]\<rparr>"

lemma sample_bucket_keys:
  "build_auth_attempt_bucket_key (sha256_text sample_crypto) ''ip'' (extract_client_address (ts_headers sample_site)) \<noteq> ''ip:other''"
  "build_auth_attempt_bucket_key (sha256_text sample_crypto) ''account'' (pg_username_normalized sample_grant) \<noteq> ''ip:other''"
  by code_simp+

lemma sample_attacked_buckets:
  "find_auth_failure_bucket (build_auth_attempt_bucket_key (sha256_text sample_crypto) ''ip'' (extract_client_address (ts_headers sample_site)))
     sample_attacked = None"
  "find_auth_failure_bucket (build_auth_attempt_bucket_key (sha256_text sample_crypto) ''account'' (pg_username_normalized sample_grant))
     sample_attacked = None"
  using sample_bucket_keys by (simp_all add: find_auth_failure_bucket_def sql_first_def sample_attacked_def)

lemma sample_attacked_found:
  "find_auth_user_by_email (pg_username_normalized sample_grant) sample_attacked =
     find_auth_user_by_email (pg_username_normalized sample_grant) sample_database"
  by (rule same_accounts_find) (simp add: accounts_def sample_attacked_def)

theorem correct_login_succeeds_witness:
  "is_account_locked (fb_locked_until (hd (auth_failure_buckets sample_attacked))) (ts_now sample_site) \<and>
   (\<exists>body db'. handle_password_grant sample_crypto sample_config sample_site sample_grant sample_device sample_attacked =
     (db', Inr (Reply (Tokens body))))"
proof
  show "is_account_locked (fb_locked_until (hd (auth_failure_buckets sample_attacked))) (ts_now sample_site)"
    by (simp add: sample_attacked_def is_account_locked_def ts_now_def seconds_text_def sample_site_def common_era_def)
  have schema: "schema_ok sample_attacked"
    by (rule schema_ok_keys [of sample_attacked sample_database])
      (use sample_start in \<open>simp_all add: sample_attacked_def session_keys_def session_inv_def\<close>)
  show "\<exists>body db'. handle_password_grant sample_crypto sample_config sample_site sample_grant sample_device sample_attacked =
     (db', Inr (Reply (Tokens body)))"
    by (rule correct_login_succeeds [OF sample_site_clock sample_attacked_found [unfolded sample_user_found]])
      (use schema sample_user_keys sample_attacked_buckets in \<open>simp_all add: is_account_locked_def sample_attacked_def sample_credentials
          fresh_token_id_def login_device_usable_def\<close>)
qed

theorem password_grant_checks_every_factor_witness:
  "\<exists>user. find_auth_user_by_email (pg_username_normalized sample_grant) sample_database = Inr (Some user) \<and>
     u_master_password_hash (au_user user) = pg_password sample_grant"
  using sample_grant_goes_through password_grant_checks_every_factor [of sample_crypto sample_config sample_site] by blast

lemma sample_login_conditions:
  "resolve_access_token_runtime_config (ts_env sample_site) = Some sample_config"
  "distinct (map u_id (users sample_database))" "device_ids_ok sample_database"
  "safe_int (ts_issued_at sample_site)" "safe_int (ts_issued_at sample_site + access_token_ttl_seconds)"
  "0 < length (ts_refresh_token_id sample_site)" "length (ts_refresh_token_id sample_site) \<le> 128"
  "3599 < ts_issued_at sample_site + access_token_ttl_seconds"
  "\<And>key m. cy_hmac_sha256 sample_crypto key m \<noteq> []" "\<And>key m. \<forall>b \<in> set (cy_hmac_sha256 sample_crypto key m). b < 256"
  using sample_hmac256_ok
  by (simp_all add: sample_database_def empty_database_def device_ids_ok_def sample_site_def safe_int_def
      max_safe_integer_def access_token_ttl_seconds_def sample_crypto_def sample_config_resolves)

theorem login_token_authenticates_witness:
  "\<exists>db' token auth. authenticate_vault_request_with_access_token (cy_hmac_sha256 sample_crypto) (ts_env sample_site)
     (Some token) 3599 db' = Inr auth \<and> av_session_id auth = ts_refresh_token_id sample_site"
  using sample_grant_goes_through
    login_token_authenticates [OF sample_login_conditions(1) _ sample_login_conditions(2-10), of sample_grant sample_device]
  by blast

theorem signed_out_token_refused_witness:
  "\<exists>token db auth r. authenticate_vault_request_with_access_token (cy_hmac_sha256 sample_crypto) (ts_env sample_site)
       (Some token) 3599 db = Inr auth \<and>
     authenticate_vault_request_with_access_token (cy_hmac_sha256 sample_crypto) (ts_env sample_site) (Some token) 3599
       (fst (revoke_current_device_session (u_id (au_user (av_user auth))) (av_device_identifier auth) (av_session_id auth) ''n'' db)) =
       Inl r"
proof -
  obtain token db auth where "authenticate_vault_request_with_access_token (cy_hmac_sha256 sample_crypto) (ts_env sample_site)
      (Some token) 3599 db = Inr auth"
    using sample_grant_goes_through
      login_token_accepted [OF sample_login_conditions(1) _ sample_login_conditions(2-10), of sample_grant sample_device]
    by blast
  with signed_out_token_refused [OF this] show ?thesis by blast
qed

end
