(* ===== verification/ApiKeys.thy ===== *)
theory ApiKeys
  imports Grants
begin

text \<open>
  Personal API keys: \<open>src/domain/personal-api-key.ts\<close>, \<open>src/repositories/personal-api-key-repository.ts\<close> with the table of
  \<open>migrations/0020_personal_api_keys.sql\<close>, and the routes of \<open>src/app.ts\<close> that show, create and rotate the key of an
  account. Only an HMAC of the secret is stored; HMAC-SHA-256 is a parameter, the drawn secret a field of the site.
\<close>

section \<open>Client ids and verifiers\<close>

definition max_client_id_length :: nat where "max_client_id_length = 128"
definition max_api_device_identifier_length :: nat where "max_api_device_identifier_length = 128"
definition max_presented_secret_length :: nat where "max_presented_secret_length = 256"
definition verifier_secret_min_bytes :: nat where "verifier_secret_min_bytes = 32"

datatype api_key_client_id = UserClient string | OrganizationClient string

text \<open>The patterns are matched without regard to case, which for their ASCII letters is matching the lower-cased text.\<close>

definition hex_run :: "nat \<Rightarrow> string \<Rightarrow> bool" where
  "hex_run n s \<longleftrightarrow> length s = n \<and> list_all (\<lambda>c. c \<in> set ''0123456789abcdef'') s"

definition is_client_uuid :: "string \<Rightarrow> bool" where
  "is_client_uuid s \<longleftrightarrow>
     (case js_split (CHR ''-'') s of
        [a, b, c, d, e] \<Rightarrow> hex_run 8 a \<and> hex_run 4 b \<and> hex_run 4 c \<and> hd c \<in> set ''12345'' \<and>
          hex_run 4 d \<and> hd d \<in> set ''89ab'' \<and> hex_run 12 e
      | _ \<Rightarrow> False)"

definition is_personal_api_key_feature_enabled :: "string option \<Rightarrow> bool" where
  "is_personal_api_key_feature_enabled v \<longleftrightarrow> flag_true v"

definition build_personal_api_key_client_id :: "string \<Rightarrow> string" where
  "build_personal_api_key_client_id user_id = ''user.'' @ user_id"

definition parse_api_key_client_id :: "string \<Rightarrow> api_key_client_id option" where
  "parse_api_key_client_id v =
     (let l = js_lower v
      in if js_trim v \<noteq> v then None
         else if starts_with l ''user.'' \<and> is_client_uuid (drop 5 l) then Some (UserClient (drop 5 l))
         else if starts_with l ''organization.'' \<and> is_client_uuid (drop 13 l) then Some (OrganizationClient (drop 13 l))
         else None)"

definition parse_personal_api_key_client_id :: "string \<Rightarrow> string option" where
  "parse_personal_api_key_client_id v =
     (case parse_api_key_client_id v of Some (UserClient uid) \<Rightarrow> Some uid | _ \<Rightarrow> None)"

definition generate_personal_api_key_secret :: "nat list \<Rightarrow> string" where
  "generate_personal_api_key_secret random_bytes = base64_url_encode_bytes random_bytes"

definition api_verifier_prefix :: string where "api_verifier_prefix = ''hmac-sha256:v1:''"

definition build_personal_api_key_verifier :: "mac \<Rightarrow> string \<Rightarrow> string \<Rightarrow> string \<Rightarrow> string" where
  "build_personal_api_key_verifier hmac verifier_secret user_id raw_secret =
     api_verifier_prefix @ base64_url_encode_bytes (hmac_sha256 hmac verifier_secret
       (''honowarden:personal-api-key:v1:'' @ user_id @ CHR 0x00 # raw_secret))"

definition verify_personal_api_key_secret :: "mac \<Rightarrow> string \<Rightarrow> string \<Rightarrow> string \<Rightarrow> string \<Rightarrow> bool" where
  "verify_personal_api_key_secret hmac verifier_secret user_id presented stored \<longleftrightarrow>
     starts_with stored api_verifier_prefix \<and>
     constant_time_equal (build_personal_api_key_verifier hmac verifier_secret user_id presented) stored"

section \<open>The repository\<close>

definition find_personal_api_key :: "string \<Rightarrow> database \<Rightarrow> personal_api_key_row option" where
  "find_personal_api_key user_id db = sql_first (\<lambda>k. pk_user_id k = user_id) (personal_api_keys db)"

text \<open>\<open>findPersonalApiKeyVerifier\<close> reads the verifier of the same row.\<close>

definition find_personal_api_key_verifier :: "string \<Rightarrow> database \<Rightarrow> string option" where
  "find_personal_api_key_verifier user_id db = map_option pk_secret_verifier (find_personal_api_key user_id db)"

text \<open>
  \<open>INSERT ... ON CONFLICT(user_id) DO NOTHING\<close> with the table's CHECK (\<open>LIKE\<close> ignores the case of ASCII letters) and its
  reference to \<open>users\<close>.
\<close>

definition insert_personal_api_key :: "personal_api_key_row \<Rightarrow> database \<Rightarrow> js_error + (database \<times> nat)" where
  "insert_personal_api_key k db =
     (if \<not> starts_with (js_lower (pk_secret_verifier k)) api_verifier_prefix then Inl ConstraintError
      else if sql_exists (\<lambda>r. pk_user_id r = pk_user_id k) (personal_api_keys db) then Inr (db, 0)
      else if \<not> user_exists (pk_user_id k) db then Inl ConstraintError
      else Inr (personal_api_keys_update (\<lambda>t. t @ [k]) db, 1))"

text \<open>The mutation, and with it the audit row of an enabled log when the mutation changed its row.\<close>

definition audited_mutation :: "database stmt \<Rightarrow> (string \<times> audit_event) option \<Rightarrow> nat repo" where
  "audited_mutation s audit =
     with_batch (s # (case audit of None \<Rightarrow> []
        | Some (row_id, e) \<Rightarrow> [\<lambda>db prev. if prev = 1 then insert_audit_event (audit_row row_id e) db else Inr (db, 0)]))
       (\<lambda>ns. return_value (ns ! 0))"

definition create_personal_api_key ::
    "string \<Rightarrow> string \<Rightarrow> string \<Rightarrow> (string \<times> audit_event) option \<Rightarrow> bool repo" where
  "create_personal_api_key user_id verifier created_at audit =
     repo_bind (audited_mutation (\<lambda>db prev. insert_personal_api_key
         \<lparr>pk_user_id = user_id, pk_secret_verifier = verifier, pk_created_at = created_at, pk_rotated_at = None,
          pk_last_used_at = None, pk_revision_date = created_at\<rparr> db) audit)
       (\<lambda>n. return_value (n = 1))"

definition rotate_personal_api_key ::
    "string \<Rightarrow> string \<Rightarrow> string \<Rightarrow> (string \<times> audit_event) option \<Rightarrow> bool repo" where
  "rotate_personal_api_key user_id verifier rotated_at audit =
     repo_bind (audited_mutation (checked (\<lambda>db. starts_with (js_lower verifier) api_verifier_prefix \<or>
           \<not> sql_exists (\<lambda>k. pk_user_id k = user_id) (personal_api_keys db))
         (update_stmt personal_api_keys personal_api_keys_update (\<lambda>db prev k. pk_user_id k = user_id)
           (\<lambda>k. k\<lparr>pk_secret_verifier := verifier, pk_rotated_at := Some rotated_at, pk_revision_date := rotated_at\<rparr>))) audit)
       (\<lambda>n. return_value (n = 1))"

definition mark_personal_api_key_used :: "string \<Rightarrow> string \<Rightarrow> string \<Rightarrow> bool repo" where
  "mark_personal_api_key_used user_id expected_verifier used_at =
     with_batch
       [update_stmt personal_api_keys personal_api_keys_update
          (\<lambda>db prev k. pk_user_id k = user_id \<and> pk_secret_verifier k = expected_verifier)
          (\<lambda>k. k\<lparr>pk_last_used_at := Some used_at\<rparr>)]
       (\<lambda>ns. return_value (ns ! 0 = 1))"

section \<open>The management routes\<close>

datatype api_key_config = KeysDisabled | KeysMisconfigured | KeysReady string

definition resolve_personal_api_key_runtime_config :: "bindings \<Rightarrow> api_key_config" where
  "resolve_personal_api_key_runtime_config env =
     (if \<not> is_personal_api_key_feature_enabled (env_personal_api_keys_enabled env) then KeysDisabled
      else (case normalize_secret (map_option JStr (env_api_key_secret env)) of
              None \<Rightarrow> KeysMisconfigured
            | Some secret \<Rightarrow> if utf8_length secret < verifier_secret_min_bytes then KeysMisconfigured else KeysReady secret))"

record route_site =
  st_env :: bindings
  st_headers :: "string \<Rightarrow> string option"
  st_seconds :: int
  st_now :: string
  st_audit :: audit_site

text \<open>A refusal before the handler reads or writes anything else.\<close>

definition refuse :: "refusal \<Rightarrow> 'a reply" where
  "refuse r = ApiFailure (fst r) (snd r)"

definition authorize_personal_api_key_management ::
    "mac \<Rightarrow> route_site \<Rightarrow> database \<Rightarrow> refusal + (authenticated_request \<times> string)" where
  "authorize_personal_api_key_management hmac site db =
     (if \<not> is_personal_api_key_feature_enabled (env_personal_api_keys_enabled (st_env site))
      then Inl (501, ''unsupported_feature'')
      else and_then (authenticate_recent_password_request hmac (st_env site) (st_headers site) (st_seconds site) db) (\<lambda>auth.
        case resolve_personal_api_key_runtime_config (st_env site) of
          KeysDisabled \<Rightarrow> Inl (501, ''unsupported_feature'')
        | KeysMisconfigured \<Rightarrow> Inl (503, ''server_misconfigured'')
        | KeysReady secret \<Rightarrow> Inr (auth, secret)))"

definition with_authorization ::
    "(database \<Rightarrow> refusal + 'x) \<Rightarrow> ('x \<Rightarrow> 'a reply repo) \<Rightarrow> database \<Rightarrow> database \<times> 'a reply" where
  "with_authorization authorize handler db =
     (case authorize db of
        Inl r \<Rightarrow> (db, refuse r)
      | Inr x \<Rightarrow> catch_all (ApiFailure 503 ''database_unavailable'') (handler x) db)"

definition personal_api_key_management_audit_input ::
    "authenticated_request \<Rightarrow> string \<Rightarrow> string \<Rightarrow> string option \<Rightarrow> audit_input" where
  "personal_api_key_management_audit_input auth name outcome reason =
     \<lparr>ai_name = name, ai_outcome = outcome,
      ai_actor = Some (Some (u_id (au_user (av_user auth))), Some (av_device_identifier auth)),
      ai_target = Some (''account'', Some (u_id (au_user (av_user auth)))),
      ai_context = (case reason of None \<Rightarrow> [] | Some r \<Rightarrow> [(''reason'', JStr r)])\<rparr>"

definition build_enabled_personal_api_key_audit_event :: "audit_site \<Rightarrow> audit_input \<Rightarrow> (string \<times> audit_event) option" where
  "build_enabled_personal_api_key_audit_event site i =
     (if is_audit_logging_enabled (as_logs site)
      then Some (as_row_id site, build_audit_event i (as_request_id site) (as_now site)) else None)"

record api_key_response =
  kr_client_id :: string
  kr_api_key :: string
  kr_revision_date :: string

datatype api_key_answer =
    KeyMetadata string "personal_api_key_row option"
  | KeyCreated api_key_response

definition build_personal_api_key_response :: "string \<Rightarrow> string \<Rightarrow> string \<Rightarrow> api_key_response" where
  "build_personal_api_key_response user_id raw_secret revision_date =
     \<lparr>kr_client_id = build_personal_api_key_client_id user_id, kr_api_key = raw_secret, kr_revision_date = revision_date\<rparr>"

definition handle_personal_api_key_metadata ::
    "mac \<Rightarrow> route_site \<Rightarrow> database \<Rightarrow> database \<times> api_key_answer reply" where
  "handle_personal_api_key_metadata hmac site =
     with_authorization (authorize_personal_api_key_management hmac site) (\<lambda>(auth, secret).
       repo_bind (repo_get (find_personal_api_key (u_id (au_user (av_user auth))))) (\<lambda>k.
         return_value (Reply (KeyMetadata (build_personal_api_key_client_id (u_id (au_user (av_user auth)))) k))))"

definition handle_personal_api_key_create ::
    "mac \<Rightarrow> route_site \<Rightarrow> nat list \<Rightarrow> database \<Rightarrow> database \<times> api_key_answer reply" where
  "handle_personal_api_key_create hmac site random_bytes =
     with_authorization (authorize_personal_api_key_management hmac site) (\<lambda>(auth, secret).
       let uid = u_id (au_user (av_user auth)); raw = generate_personal_api_key_secret random_bytes;
           name = ''auth.api_key_create''
       in repo_bind (create_personal_api_key uid (build_personal_api_key_verifier hmac secret uid raw) (st_now site)
              (build_enabled_personal_api_key_audit_event (st_audit site)
                (personal_api_key_management_audit_input auth name ''success'' None))) (\<lambda>created.
            if created then return_value (Reply (KeyCreated (build_personal_api_key_response uid raw (st_now site))))
            else repo_then (emit_audit_event (st_audit site)
                   (personal_api_key_management_audit_input auth name ''failure'' (Some ''already_exists'')))
                 (return_value (ApiFailure 409 ''api_key_exists''))))"

definition handle_personal_api_key_rotate ::
    "mac \<Rightarrow> route_site \<Rightarrow> nat list \<Rightarrow> database \<Rightarrow> database \<times> api_key_answer reply" where
  "handle_personal_api_key_rotate hmac site random_bytes =
     with_authorization (authorize_personal_api_key_management hmac site) (\<lambda>(auth, secret).
       let uid = u_id (au_user (av_user auth)); raw = generate_personal_api_key_secret random_bytes;
           name = ''auth.api_key_rotate''
       in repo_bind (rotate_personal_api_key uid (build_personal_api_key_verifier hmac secret uid raw) (st_now site)
              (build_enabled_personal_api_key_audit_event (st_audit site)
                (personal_api_key_management_audit_input auth name ''success'' None))) (\<lambda>rotated.
            if rotated then return_value (Reply (KeyCreated (build_personal_api_key_response uid raw (st_now site))))
            else repo_then (emit_audit_event (st_audit site)
                   (personal_api_key_management_audit_input auth name ''failure'' (Some ''not_found'')))
                 (return_value (ApiFailure 404 ''api_key_not_found''))))"

end
