(* ===== verification/TokenEndpoint.thy ===== *)
theory TokenEndpoint
  imports GrantProofs ApiKeys
begin

text \<open>
  The rest of the token endpoint of \<open>src/app.ts\<close> (\<open>POST /identity/connect/token\<close>): the grants by personal API key and by
  an approved auth request, the quotas of the auth-request routes, and the dispatch on the form. Every
  grant answers with tokens only after its own credential was checked against the stored one.
\<close>

section \<open>Quotas of the auth-request routes\<close>

definition auth_quota_block_seconds :: int where "auth_quota_block_seconds = 15 * 60"
definition auth_quota_window_seconds :: int where "auth_quota_window_seconds = 15 * 60"
definition create_account_limit :: int where "create_account_limit = 10"
definition create_device_limit :: int where "create_device_limit = 10"
definition create_network_limit :: int where "create_network_limit = 30"
definition consume_account_limit :: int where "consume_account_limit = 20"
definition consume_device_limit :: int where "consume_device_limit = 20"
definition consume_network_limit :: int where "consume_network_limit = 60"
definition poll_account_limit :: int where "poll_account_limit = 120"
definition poll_device_limit :: int where "poll_device_limit = 120"
definition poll_network_limit :: int where "poll_network_limit = 300"

definition quota_rejected_event :: "string \<Rightarrow> audit_input" where
  "quota_rejected_event name =
     \<lparr>ai_name = name, ai_outcome = ''failure'', ai_actor = None, ai_target = None,
      ai_context = [(''reason'', JStr ''quota_rejected'')]\<rparr>"

text \<open>The buckets are hit in order; the first one past its limit answers the request.\<close>

fun enforce_auth_request_quotas ::
    "(string \<Rightarrow> nat list) \<Rightarrow> audit_site \<Rightarrow> string \<Rightarrow> (string \<times> int) list \<Rightarrow> 'a reply option repo" where
  "enforce_auth_request_quotas sha256 site name [] = return_value None"
| "enforce_auth_request_quotas sha256 site name ((v, limit) # quotas) =
     repo_bind (record_request_quota_hit (build_request_quota_bucket_key sha256 Anonymous (''auth-request:'' @ v)) Anonymous
         limit auth_quota_window_seconds auth_quota_block_seconds (as_now site)) (\<lambda>bucket.
       if is_request_quota_exceeded bucket (as_now site)
       then repo_then (emit_audit_event site (quota_rejected_event name))
              (return_value (Some (ApiLimited auth_quota_block_seconds)))
       else enforce_auth_request_quotas sha256 site name quotas)"

definition after_quotas :: "'a reply option repo \<Rightarrow> 'a reply repo \<Rightarrow> 'a reply repo" where
  "after_quotas quotas m = repo_bind quotas (\<lambda>limited. case limited of Some r \<Rightarrow> return_value r | None \<Rightarrow> m)"

section \<open>The grant by personal API key\<close>

definition personal_api_key_dummy_user_id :: string where
  "personal_api_key_dummy_user_id = ''00000000-0000-4000-8000-000000000000''"

definition api_key_event :: "string \<Rightarrow> token_device_info \<Rightarrow> string option \<Rightarrow> string option \<Rightarrow> audit_input" where
  "api_key_event outcome device user_id reason =
     \<lparr>ai_name = ''auth.api_key_grant'', ai_outcome = outcome,
      ai_actor = Some (user_id, Some (td_identifier device)),
      ai_target = map_option (\<lambda>uid. (''account'', Some uid)) user_id,
      ai_context = (case reason of None \<Rightarrow> [] | Some r \<Rightarrow> [(''reason'', JStr r)])\<rparr>"

definition reject_credential ::
    "token_site \<Rightarrow> token_device_info \<Rightarrow> string \<Rightarrow> string \<Rightarrow> string \<Rightarrow> string option \<Rightarrow> 'a reply repo" where
  "reject_credential site device ip_key account_key reason user_id =
     repo_then (emit_audit_event (ts_audit site) (api_key_event ''failure'' device user_id (Some reason)))
       (reject_login site invalid_client_error ip_key account_key True)"

definition account_bucket_subject :: "string \<Rightarrow> string" where
  "account_bucket_subject client_id =
     (case parse_personal_api_key_client_id client_id of
        Some uid \<Rightarrow> build_personal_api_key_client_id uid
      | None \<Rightarrow> js_lower (take max_client_id_length client_id))"

text \<open>The stages once the secret is verified and its account is found and enabled.\<close>

definition finish_api_key_grant ::
    "crypto \<Rightarrow> access_token_config \<Rightarrow> token_site \<Rightarrow> user_row \<Rightarrow> token_device_info \<Rightarrow> string \<Rightarrow> string \<Rightarrow> string
      \<Rightarrow> token_answer reply repo" where
  "finish_api_key_grant crypto config site u device ip_key account_key verifier =
     (let reject = (\<lambda>reason. reject_credential site device ip_key account_key reason (Some (u_id u)))
      in repo_bind (mark_personal_api_key_used (u_id u) verifier (ts_now site)) (\<lambda>current.
         if \<not> current then reject ''rotated_during_grant''
         else repo_then (reset_auth_failure_bucket account_key)
           (repo_bind (create_password_grant_session (login_session_input crypto config site u device None False)) (\<lambda>result.
              if result \<noteq> SessionCreated then reject ''stale_generation''
              else repo_bind (repo_lift (build_account_key_projection u)) (\<lambda>keys.
                   repo_then (emit_audit_event (ts_audit site) (api_key_event ''success'' device (Some (u_id u)) None))
                     (issue_tokens crypto config site u (td_identifier device) (ts_refresh_token_id site) ''api_key''
                        (generate_refresh_token (ts_refresh_bytes site)) keys))))))"

text \<open>
  The stored verifier, or one of an invalid secret when there is none, is compared in any case; only then are the
  id and the row considered.
\<close>

definition check_api_key ::
    "crypto \<Rightarrow> access_token_config \<Rightarrow> token_site \<Rightarrow> string \<Rightarrow> client_credentials_grant \<Rightarrow> token_device_info
      \<Rightarrow> string \<Rightarrow> string \<Rightarrow> token_answer reply repo" where
  "check_api_key crypto config site verifier_secret grant device ip_key account_key =
     (let hmac = cy_hmac_sha256 crypto; parsed = parse_personal_api_key_client_id (cc_client_id grant);
          lookup = (case parsed of Some uid \<Rightarrow> uid | None \<Rightarrow> personal_api_key_dummy_user_id);
          reject = reject_credential site device ip_key account_key
      in repo_bind (repo_get (find_personal_api_key_verifier lookup)) (\<lambda>stored.
         if verify_personal_api_key_secret hmac verifier_secret lookup (cc_client_secret grant)
              (case stored of Some v \<Rightarrow> v
               | None \<Rightarrow> build_personal_api_key_verifier hmac verifier_secret lookup ''honowarden-invalid-personal-api-key'')
            \<and> parsed \<noteq> None \<and> stored \<noteq> None
         then repo_bind (repo_read (find_auth_user_by_id lookup None)) (\<lambda>found. case found of
                None \<Rightarrow> reject ''invalid_client'' None
              | Some user \<Rightarrow>
                  if truthy (u_disabled_at (au_user user)) then reject ''user_disabled'' (Some (u_id (au_user user)))
                  else finish_api_key_grant crypto config site (au_user user) device ip_key account_key (the stored))
         else reject (if parsed \<noteq> None then ''invalid_client'' else ''unsupported_client_type'') None))"

definition handle_personal_api_key_token_grant ::
    "crypto \<Rightarrow> access_token_config \<Rightarrow> token_site \<Rightarrow> client_credentials_grant \<Rightarrow> token_answer reply repo" where
  "handle_personal_api_key_token_grant crypto config site grant =
     (let parsed = (if length (cc_client_id grant) \<le> max_client_id_length then parse_api_key_client_id (cc_client_id grant) else None);
          device = (case read_device_info (ts_headers site) of Some d \<Rightarrow> Some d | None \<Rightarrow> cc_device grant);
          now = ts_now site;
          ip_key = build_auth_attempt_bucket_key (sha256_text crypto) ''ip'' (extract_client_address (ts_headers site));
          account_key = build_auth_attempt_bucket_key (sha256_text crypto) ''account'' (account_bucket_subject (cc_client_id grant))
      in case (parsed, resolve_personal_api_key_runtime_config (ts_env site), device) of
           (Some (OrganizationClient org), _, _) \<Rightarrow> return_value (ApiFailure 501 ''unsupported_feature'')
         | (_, KeysDisabled, _) \<Rightarrow> return_value (TokenFailure 400 invalid_client_error)
         | (_, KeysMisconfigured, _) \<Rightarrow> return_value (ApiFailure 503 ''server_misconfigured'')
         | (_, _, None) \<Rightarrow> return_value (TokenFailure 400 (InvalidRequest ''Device information is required.''))
         | (_, KeysReady secret, Some d) \<Rightarrow>
             repo_then (cleanup_transient_auth_data (ts_outside site) now
               \<lparr>co_audit_events = is_audit_logging_enabled (env_audit_logs (ts_env site)), co_auth_requests = False,
                co_refresh_tokens = False, co_request_quota_buckets = False\<rparr>)
             (repo_bind (repo_get (find_auth_failure_bucket ip_key)) (\<lambda>ip_bucket.
              repo_bind (repo_get (find_auth_failure_bucket account_key)) (\<lambda>account_bucket.
                if is_account_locked (Option.bind ip_bucket fb_locked_until) now
                then return_value (TokenLimited ip_retry_after_seconds invalid_client_error)
                else if is_account_locked (Option.bind account_bucket fb_locked_until) now
                then reject_login site invalid_client_error ip_key account_key False
                else if cc_scope grant \<noteq> Some ''api'' \<or> max_client_id_length < length (cc_client_id grant) \<or>
                        max_presented_secret_length < length (cc_client_secret grant) \<or>
                        max_api_device_identifier_length < length (td_identifier d)
                then reject_credential site d ip_key account_key ''invalid_client'' None
                else check_api_key crypto config site secret grant d ip_key account_key))))"

section \<open>The grant by an approved auth request\<close>

definition consume_failure_event :: "string \<Rightarrow> audit_input" where
  "consume_failure_event request_id =
     \<lparr>ai_name = ''auth.request_consume'', ai_outcome = ''failure'', ai_actor = None,
      ai_target = Some (''auth_request'', Some request_id), ai_context = [(''reason'', JStr ''invalid_or_replayed'')]\<rparr>"

definition consume_success_event :: "string \<Rightarrow> token_device_info \<Rightarrow> string \<Rightarrow> audit_input" where
  "consume_success_event user_id device request_id =
     \<lparr>ai_name = ''auth.request_consume'', ai_outcome = ''success'',
      ai_actor = Some (Some user_id, Some (td_identifier device)),
      ai_target = Some (''auth_request'', Some request_id), ai_context = []\<rparr>"

definition consume_input ::
    "crypto \<Rightarrow> access_token_config \<Rightarrow> token_site \<Rightarrow> auth_request_row \<Rightarrow> user_row \<Rightarrow> token_device_info \<Rightarrow> consume_session_input" where
  "consume_input crypto config site request u device =
     \<lparr>cs_auth_request_id = ar_id request, cs_access_code_hash = ar_access_code_hash request, cs_user_id = u_id u,
      cs_request_device_identifier = td_identifier device, cs_device_id = build_device_id (u_id u) (td_identifier device),
      cs_device_name = td_name device, cs_device_type = td_type device, cs_refresh_token_id = ts_refresh_token_id site,
      cs_refresh_token_hash = hash_refresh_token (cy_sha256 crypto) (tc_refresh_token_secret config)
        (generate_refresh_token (ts_refresh_bytes site)),
      cs_refresh_token_expires_at = seconds_text (ts_issued_at site + refresh_token_ttl_seconds), cs_now = ts_now site\<rparr>"

definition refuse_consume :: "token_site \<Rightarrow> string \<Rightarrow> 'a reply repo" where
  "refuse_consume site request_id =
     repo_then (emit_audit_event (ts_audit site) (consume_failure_event request_id))
       (return_value (TokenFailure 400 invalid_grant_error))"

text \<open>The stages once the access code is verified: the quotas of the owner and the device, the account, the session.\<close>

definition consume_as_found ::
    "crypto \<Rightarrow> access_token_config \<Rightarrow> token_site \<Rightarrow> auth_request_grant \<Rightarrow> token_device_info \<Rightarrow> auth_request_row
      \<Rightarrow> auth_user option \<Rightarrow> token_answer reply repo" where
  "consume_as_found crypto config site grant device request found =
     (case found of
        None \<Rightarrow> refuse_consume site (ag_auth_request_id grant)
      | Some user \<Rightarrow>
          let u = au_user user
          in if truthy (u_disabled_at u) \<or> u_email_normalized u \<noteq> ag_username_normalized grant
             then refuse_consume site (ag_auth_request_id grant)
             else repo_bind (repo_lift (build_account_key_projection u)) (\<lambda>keys.
                  repo_bind (consume_auth_request_with_session (consume_input crypto config site request u device)) (\<lambda>consumed.
                    if \<not> consumed then refuse_consume site (ag_auth_request_id grant)
                    else repo_then (emit_audit_event (ts_audit site) (consume_success_event (u_id u) device (ar_id request)))
                           (issue_tokens crypto config site u (td_identifier device) (ts_refresh_token_id site) ''auth_request''
                              (generate_refresh_token (ts_refresh_bytes site)) keys))))"

definition consume_for_account ::
    "crypto \<Rightarrow> access_token_config \<Rightarrow> token_site \<Rightarrow> string \<Rightarrow> auth_request_grant \<Rightarrow> token_device_info \<Rightarrow> auth_request_row
      \<Rightarrow> token_answer reply repo" where
  "consume_for_account crypto config site secret grant device request =
     repo_bind (repo_lift (build_auth_request_device_hash (cy_hmac_sha256 crypto) secret (td_identifier device))) (\<lambda>device_hash.
     after_quotas (enforce_auth_request_quotas (sha256_text crypto) (ts_audit site) ''auth.request_consume''
         [(''consume:account:'' @ ar_email_hash request, consume_account_limit),
          (''consume:device:'' @ device_hash, consume_device_limit)])
     (repo_bind (repo_read (find_auth_user_by_id (the (ar_user_id request)) None))
        (consume_as_found crypto config site grant device request)))"

definition consumable :: "auth_request_row \<Rightarrow> token_device_info \<Rightarrow> bool" where
  "consumable request device \<longleftrightarrow>
     ar_status request = Approved \<and> ar_request_type request = 0 \<and> truthy (ar_user_id request) \<and>
     ar_request_device_identifier request = td_identifier device"

definition handle_auth_request_token_grant ::
    "crypto \<Rightarrow> access_token_config \<Rightarrow> token_site \<Rightarrow> auth_request_grant \<Rightarrow> token_answer reply repo" where
  "handle_auth_request_token_grant crypto config site grant =
     (let secret = env_auth_request_secret (ts_env site);
          device = (case read_device_info (ts_headers site) of Some d \<Rightarrow> d | None \<Rightarrow> ag_device grant)
      in if \<not> flag_true (env_auth_requests_enabled (ts_env site)) then return_value (TokenFailure 400 invalid_grant_error)
         else if \<not> truthy secret \<or> utf8_length (the secret) < 32 then return_value (ApiFailure 503 ''server_misconfigured'')
         else if td_identifier device \<noteq> td_identifier (ag_device grant) \<or> td_identifier device = [] \<or>
                 device_identifier_max < length (td_identifier device) \<or> 128 < length (ag_auth_request_id grant) \<or>
                 length (ag_access_code grant) < access_code_min \<or> access_code_max < length (ag_access_code grant)
         then return_value (TokenFailure 400 invalid_grant_error)
         else after_quotas (enforce_auth_request_quotas (sha256_text crypto) (ts_audit site) ''auth.request_consume''
                [(''consume:network:'' @ extract_client_address (ts_headers site), consume_network_limit)])
              (repo_bind (repo_get (find_auth_request_verifier_by_id (ag_auth_request_id grant) (ts_now site))) (\<lambda>found.
                 case found of
                   None \<Rightarrow> refuse_consume site (ag_auth_request_id grant)
                 | Some request \<Rightarrow>
                     repo_bind (repo_lift (verify_auth_request_access_code (cy_hmac_sha256 crypto) (the secret)
                         (ag_auth_request_id grant) (ag_access_code grant) (ar_access_code_hash request))) (\<lambda>verified.
                       if \<not> verified \<or> \<not> consumable request device then refuse_consume site (ag_auth_request_id grant)
                       else consume_for_account crypto config site (the secret) grant device request))))"

section \<open>The endpoint\<close>

definition handle_token_request :: "crypto \<Rightarrow> token_site \<Rightarrow> form \<Rightarrow> database \<Rightarrow> database \<times> token_answer reply" where
  "handle_token_request crypto site form db =
     (let run = (\<lambda>m. catch_all (ApiFailure 503 ''database_unavailable'') m db)
      in if form_get form ''grant_type'' = Some ''send_access'' then (db, ApiFailure 501 ''unsupported_feature'')
         else (case resolve_access_token_runtime_config (ts_env site) of
                 None \<Rightarrow> (db, ApiFailure 503 ''server_misconfigured'')
               | Some config \<Rightarrow>
                   (case parse_auth_request_grant_form form of
                      Grant grant \<Rightarrow> run (handle_auth_request_token_grant crypto config site grant)
                    | BadGrant e \<Rightarrow> (db, TokenFailure 400 e)
                    | OtherGrant \<Rightarrow>
                        if form_get form ''grant_type'' = Some ''refresh_token''
                        then (case parse_refresh_token_grant_form form of
                                Inl e \<Rightarrow> (db, TokenFailure 400 e)
                              | Inr token \<Rightarrow> run (handle_refresh_grant crypto config site token))
                        else (case parse_client_credentials_grant_form form of
                                Grant grant \<Rightarrow> run (handle_personal_api_key_token_grant crypto config site grant)
                              | BadGrant e \<Rightarrow> (db, TokenFailure 400 e)
                              | OtherGrant \<Rightarrow>
                                  (case parse_password_grant_form form of
                                     Inl e \<Rightarrow> (db, TokenFailure 400 e)
                                   | Inr grant \<Rightarrow>
                                       (case (case read_device_info (ts_headers site) of
                                                Some d \<Rightarrow> Some d | None \<Rightarrow> pg_device grant) of
                                          None \<Rightarrow> (db, TokenFailure 400 (InvalidRequest ''Device information is required.''))
                                        | Some device \<Rightarrow> run (handle_password_grant crypto config site grant device)))))))"

end
