(* ===== verification/TokenEndpointProofs.thy ===== *)
theory TokenEndpointProofs
  imports TokenEndpoint
begin

text \<open>
  What the token endpoint guarantees whichever grant the form asks for: tokens are issued only to an enabled account whose
  credential the request presented, and the access token authenticates exactly that account in the session
  the grant created or continued. The stages of each grant are collected first.
\<close>

section \<open>Refusals\<close>

lemma reject_credential_no_reply [simp]: "reject_credential site device ip account reason uid db \<noteq> (db', Inr (Reply x))"
  by (auto simp: reject_credential_def repo_Inr)

lemma refuse_consume_no_reply [simp]: "refuse_consume site rid db \<noteq> (db', Inr (Reply x))"
  by (auto simp: refuse_consume_def repo_Inr)

lemma after_quotas_Inr:
  assumes "after_quotas q m db = (db', Inr (Reply x))" "\<And>d r. q db = (d, Inr (Some r)) \<Longrightarrow> r \<noteq> Reply x"
  shows "\<exists>d. q db = (d, Inr None) \<and> m d = (db', Inr (Reply x))"
proof -
  from assms(1) obtain d limited where q: "q db = (d, Inr limited)" and
    rest: "(case limited of Some r \<Rightarrow> return_value r | None \<Rightarrow> m) d = (db', Inr (Reply x))"
    by (auto simp: after_quotas_def repo_Inr)
  show ?thesis
  proof (cases limited)
    case (Some r)
    with rest assms(2) [of d r] q show ?thesis by (simp add: repo_Inr)
  qed (use q rest in simp)
qed

lemma enforced_quota_limits:
  "enforce_auth_request_quotas h site name quotas db = (d, Inr (Some r)) \<Longrightarrow> r \<noteq> Reply x"
  by (induction quotas arbitrary: db) (auto simp: repo_Inr split: if_splits)

lemmas within_quotas = after_quotas_Inr [OF _ enforced_quota_limits]

section \<open>What auditing and quotas leave alone\<close>

definition held :: "database \<Rightarrow> (user_row list \<times> totp_row list \<times> device_row list \<times> personal_api_key_row list) \<times> auth_request_row list" where
  "held db = (accounts db, auth_requests db)"

lemma stmt_preserves_audit [preserving]: "stmt_preserves held (\<lambda>db prev. insert_audit_event e db)"
  "stmt_preserves accounts (\<lambda>db prev. insert_audit_event e db)"
  by (auto simp: stmt_preserves_def insert_audit_event_def held_def accounts_def split: if_splits)

lemma emit_preserves [preserving]: "preserves held (emit_audit_event site i)" "preserves accounts (emit_audit_event site i)"
  unfolding emit_audit_event_def persist_audit_event_def
  by (cases "is_audit_logging_enabled (as_logs site)"; simp; intro preserving)+

lemma quota_hit_preserves [preserving]: "preserves held (record_request_quota_hit k scope l w b now)"
  unfolding preserves_def
  by (simp add: record_request_quota_hit_def held_def accounts_def throw_def return_value_def Let_def split: sum.split option.split)

lemma enforce_preserves [preserving]: "preserves held (enforce_auth_request_quotas h site name quotas)"
  by (induction quotas) (auto intro!: preserving split: if_split)

declare enforce_auth_request_quotas.simps [simp del]

lemma held_accounts: "held d = held db \<Longrightarrow> accounts d = accounts db \<and> auth_requests d = auth_requests db"
  by (simp add: held_def)

lemma same_accounts_row: "accounts d = accounts db \<Longrightarrow> auth_user_from_row d = auth_user_from_row db"
  by (rule ext) (simp add: accounts_def auth_user_from_row_def)

lemma same_accounts_where: "accounts d = accounts db \<Longrightarrow> find_user_where p d = find_user_where p db"
  using same_accounts_row [of d db] by (simp add: find_user_where_def accounts_def cong: option.case_cong)

lemma same_accounts_find_id:
  assumes "accounts d = accounts db"
  shows "find_auth_user_by_id uid s d = find_auth_user_by_id uid s db"
proof -
  have "devices d = devices db" using assms by (simp add: accounts_def)
  then show ?thesis unfolding find_auth_user_by_id_def same_accounts_where [OF assms] by metis
qed

lemma same_accounts_session: "accounts d = accounts db \<Longrightarrow> finds_session_user u di sid d \<longleftrightarrow> finds_session_user u di sid db"
  by (simp add: finds_session_user_def find_auth_user_by_session_def same_accounts_find_id [of d db])

lemma found_account_by_id:
  assumes "find_auth_user_by_id uid s db = Inr (Some user)"
  shows "au_user user \<in> set (users db)" "u_id (au_user user) = uid"
    "kdf_from_stored_generation (user_generation (au_user user)) \<noteq> None"
  using assms by (auto simp: find_auth_user_by_id_def find_user_where_def auth_user_from_row_def Let_def
      split: option.splits if_splits dest: sql_first_SomeD)

lemma issue_tokens_db: "issue_tokens crypto config site u di session how refresh keys db = (db', Inr r) \<Longrightarrow> db' = db"
  by (auto simp: issue_tokens_def Let_def repo_Inr)

section \<open>The grant by API key\<close>

lemma api_key_stages:
  assumes "handle_personal_api_key_token_grant crypto config site grant db = (db', Inr (Reply (Tokens body)))"
  obtains secret uid user device ip account k d where
    "resolve_personal_api_key_runtime_config (ts_env site) = KeysReady secret"
    "parse_personal_api_key_client_id (cc_client_id grant) = Some uid" "cc_scope grant = Some ''api''"
    "find_personal_api_key uid db = Some k"
    "pk_secret_verifier k = build_personal_api_key_verifier (cy_hmac_sha256 crypto) secret uid (cc_client_secret grant)"
    "find_auth_user_by_id uid None db = Inr (Some user)" "\<not> truthy (u_disabled_at (au_user user))"
    "accounts d = accounts db"
    "finish_api_key_grant crypto config site (au_user user) device ip account (pk_secret_verifier k) d =
       (db', Inr (Reply (Tokens body)))"
proof -
  from assms obtain secret device ip account d1 where
    ready: "resolve_personal_api_key_runtime_config (ts_env site) = KeysReady secret" "cc_scope grant = Some ''api''" and
    d1: "accounts d1 = accounts db" and
    check: "check_api_key crypto config site secret grant device ip account d1 = (db', Inr (Reply (Tokens body)))"
    unfolding handle_personal_api_key_token_grant_def Let_def
    by (auto simp: repo_Inr dest!: preservesD [OF transient_cleanup_preserves_accounts]
        split: if_splits option.splits api_key_client_id.splits api_key_config.splits)
  from check obtain uid v user where
    uid: "parse_personal_api_key_client_id (cc_client_id grant) = Some uid" and
    v: "find_personal_api_key_verifier uid d1 = Some v"
      "v = build_personal_api_key_verifier (cy_hmac_sha256 crypto) secret uid (cc_client_secret grant)" and
    user: "find_auth_user_by_id uid None d1 = Inr (Some user)" "\<not> truthy (u_disabled_at (au_user user))" and
    finish: "finish_api_key_grant crypto config site (au_user user) device ip account v d1 = (db', Inr (Reply (Tokens body)))"
    unfolding check_api_key_def Let_def
    by (auto simp: repo_Inr verify_personal_api_key_secret_def constant_time_equal_iff split: if_splits option.splits)
  obtain k where "find_personal_api_key uid db = Some k" "pk_secret_verifier k = v"
    using v(1) d1 by (auto simp: find_personal_api_key_verifier_def find_personal_api_key_def accounts_def)
  with ready d1 uid v(2) user finish same_accounts_find_id [OF d1] show thesis
    by (intro that [of secret uid k user d1 device ip account]) simp_all
qed


text \<open>The account of a session that was just created is found by its token.\<close>

lemma created_session_found:
  assumes "create_password_grant_session (login_session_input crypto config site u device v r) d = (d', Inr SessionCreated)"
    and "u \<in> set (users d)" "kdf_from_stored_generation (user_generation u) \<noteq> None"
    and "distinct (map u_id (users d))" "device_ids_ok d"
  shows "finds_session_user u (td_identifier device) (ts_refresh_token_id site) d'" "users d' = users d"
proof -
  let ?i = "login_session_input crypto config site u device v r"
  note session = session_created [OF assms(1,5)]
  obtain w where w: "w \<in> set (users d)" "credential_generation_current ?i w" using session(2) by blast
  then have "u_id w = u_id u" by (simp add: credential_generation_current_def login_session_input_def)
  then have "w = u" using distinct_key_unique [OF assms(4) w(1) assms(2)] by simp
  with w(2) have "u_disabled_at u = None" by (simp add: credential_generation_current_def)
  then show "finds_session_user u (td_identifier device) (ts_refresh_token_id site) d'"
    using session(1,3) assms(2-4) by (intro session_user_found) (auto simp: login_session_input_def)
  show "users d' = users d" by (rule session(1))
qed

lemma finish_api_key_stages:
  assumes "finish_api_key_grant crypto config site u device ip account v db = (db', Inr (Reply (Tokens body)))"
  obtains d d' keys where "users d = users db" "devices d = devices db"
    "create_password_grant_session (login_session_input crypto config site u device None False) d = (d', Inr SessionCreated)"
    "accounts db' = accounts d'"
    "issue_tokens crypto config site u (td_identifier device) (ts_refresh_token_id site) ''api_key''
       (generate_refresh_token (ts_refresh_bytes site)) keys db' = (db', Inr (Reply (Tokens body)))"
proof -
  from assms obtain d1 b d2 x2 d3 keys d4 x4 where
    d1: "mark_personal_api_key_used (u_id u) v (ts_now site) db = (d1, Inr b)" and
    d2: "reset_auth_failure_bucket account d1 = (d2, Inr x2)" and
    d3: "create_password_grant_session (login_session_input crypto config site u device None False) d2 = (d3, Inr SessionCreated)" and
    d4: "emit_audit_event (ts_audit site) (api_key_event ''success'' device (Some (u_id u)) None) d3 = (d4, Inr x4)" and
    issue: "issue_tokens crypto config site u (td_identifier device) (ts_refresh_token_id site) ''api_key''
       (generate_refresh_token (ts_refresh_bytes site)) keys d4 = (db', Inr (Reply (Tokens body)))"
    unfolding finish_api_key_grant_def Let_def by (auto simp: repo_Inr split: if_splits)
  have "users d1 = users db" "devices d1 = devices db"
    using d1 by (auto simp: mark_personal_api_key_used_def with_batch_eq batch_eval return_value_def)
  moreover have "users d2 = users d1" "devices d2 = devices d1"
    using d2 by (auto simp: reset_auth_failure_bucket_def with_batch_eq batch_eval return_value_def)
  moreover have "accounts d4 = accounts d3" by (rule preservesD [OF emit_preserves(2) d4])
  ultimately show thesis using that d3 issue issue_tokens_db [OF issue] by simp
qed

section \<open>The grant by auth request\<close>

lemma auth_request_stages:
  assumes "handle_auth_request_token_grant crypto config site grant db = (db', Inr (Reply (Tokens body)))"
  obtains device request user d d' keys where
    "find_auth_request_verifier_by_id (ag_auth_request_id grant) (ts_now site) db = Some request"
    "verify_auth_request_access_code (cy_hmac_sha256 crypto) (the (env_auth_request_secret (ts_env site)))
       (ag_auth_request_id grant) (ag_access_code grant) (ar_access_code_hash request) = Inr True"
    "consumable request device" "td_identifier device = td_identifier (ag_device grant)"
    "find_auth_user_by_id (the (ar_user_id request)) None db = Inr (Some user)" "\<not> truthy (u_disabled_at (au_user user))"
    "u_email_normalized (au_user user) = ag_username_normalized grant" "held d = held db"
    "consume_auth_request_with_session (consume_input crypto config site request (au_user user) device) d = (d', Inr True)"
    "accounts db' = accounts d'"
    "issue_tokens crypto config site (au_user user) (td_identifier device) (ts_refresh_token_id site) ''auth_request''
       (generate_refresh_token (ts_refresh_bytes site)) keys db' = (db', Inr (Reply (Tokens body)))"
proof -
  from assms obtain device d1 request where
    device: "td_identifier device = td_identifier (ag_device grant)" and
    d1: "enforce_auth_request_quotas (sha256_text crypto) (ts_audit site) ''auth.request_consume''
      [(''consume:network:'' @ extract_client_address (ts_headers site), consume_network_limit)] db = (d1, Inr None :: js_error + token_answer reply option)" and
    request: "find_auth_request_verifier_by_id (ag_auth_request_id grant) (ts_now site) d1 = Some request"
      "verify_auth_request_access_code (cy_hmac_sha256 crypto) (the (env_auth_request_secret (ts_env site)))
         (ag_auth_request_id grant) (ag_access_code grant) (ar_access_code_hash request) = Inr True" "consumable request device" and
    rest: "consume_for_account crypto config site (the (env_auth_request_secret (ts_env site))) grant device request d1 =
      (db', Inr (Reply (Tokens body)))"
    unfolding handle_auth_request_token_grant_def Let_def
    by (auto simp: repo_Inr dest!: within_quotas split: if_splits option.splits)
  from rest obtain h d2 where
    d2: "enforce_auth_request_quotas (sha256_text crypto) (ts_audit site) ''auth.request_consume''
         [(''consume:account:'' @ ar_email_hash request, consume_account_limit),
          (''consume:device:'' @ h, consume_device_limit)] d1 = (d2, Inr None :: js_error + token_answer reply option)" and
    account: "repo_bind (repo_read (find_auth_user_by_id (the (ar_user_id request)) None)) (consume_as_found crypto config site grant device request) d2 =
      (db', Inr (Reply (Tokens body)))"
    unfolding consume_for_account_def by (auto simp only: repo_bind_Inr repo_value_Inr dest!: within_quotas)
  from account obtain user d3 x3 d4 keys where
    user: "find_auth_user_by_id (the (ar_user_id request)) None d2 = Inr (Some user)" "\<not> truthy (u_disabled_at (au_user user))"
      "u_email_normalized (au_user user) = ag_username_normalized grant" and
    d3: "consume_auth_request_with_session (consume_input crypto config site request (au_user user) device) d2 = (d3, Inr True)" and
    d4: "emit_audit_event (ts_audit site) (consume_success_event (u_id (au_user user)) device (ar_id request)) d3 = (d4, Inr x3)" and
    issue: "issue_tokens crypto config site (au_user user) (td_identifier device) (ts_refresh_token_id site) ''auth_request''
       (generate_refresh_token (ts_refresh_bytes site)) keys d4 = (db', Inr (Reply (Tokens body)))"
    unfolding consume_as_found_def Let_def by (auto simp: repo_Inr split: if_splits option.splits)
  have h1: "held d1 = held db" by (rule preservesD [OF enforce_preserves d1])
  have h2: "held d2 = held d1" by (rule preservesD [OF enforce_preserves d2])
  have "accounts d4 = accounts d3" by (rule preservesD [OF emit_preserves(2) d4])
  moreover have "find_auth_request_verifier_by_id (ag_auth_request_id grant) (ts_now site) db = Some request"
    using request(1) h1 by (simp add: find_auth_request_verifier_by_id_def held_def)
  moreover have "find_auth_user_by_id (the (ar_user_id request)) None db = Inr (Some user)"
    using user(1) h1 h2 same_accounts_find_id [of d2 db] by (simp add: held_def)
  ultimately show thesis
    using that [of request device user d2 d3 keys] request(2,3) device user(2,3) h1 h2 d3 issue issue_tokens_db [OF issue] by simp
qed


text \<open>No account id contains the separator of device ids, so a device id names its owner and its identifier.\<close>

definition device_owners_ok :: "database \<Rightarrow> bool" where
  "device_owners_ok db \<longleftrightarrow> device_ids_ok db \<and> (\<forall>d \<in> set (devices db). CHR '':'' \<notin> set (d_user_id d)) \<and>
     (\<forall>u \<in> set (users db). CHR '':'' \<notin> set (u_id u))"

lemma device_id_owner:
  assumes "CHR '':'' \<notin> set u" "CHR '':'' \<notin> set v" "build_device_id u a = build_device_id v b"
  shows "u = v" "a = b"
proof -
  have "js_split (CHR '':'') (u @ CHR '':'' # a) = js_split (CHR '':'') (v @ CHR '':'' # b)"
    using assms(3) by (simp add: build_device_id_def)
  then show "u = v" unfolding js_split_append [OF assms(1)] js_split_append [OF assms(2)] by simp
  with assms(3) show "a = b" by simp
qed

lemma consumed_session:
  assumes "consume_auth_request_with_session i db = (db', Inr True)"
    and "cs_device_id i = build_device_id (cs_user_id i) (cs_request_device_identifier i)"
    and "device_owners_ok db" "CHR '':'' \<notin> set (cs_user_id i)"
  shows "users db' = users db"
    and "\<exists>d \<in> set (devices db'). session_device (cs_user_id i) (cs_request_device_identifier i) (cs_refresh_token_id i) d"
proof -
  let ?eligible = "sql_exists (eligible i)"
  from assms(1) obtain d1 d2 d3 k1 k2 where
    s1: "(if ?eligible (auth_requests db) then insert_or_ignore_device (consume_device_row i db) db else Inr (db, 0)) = Inr (d1, k1)"
    and s2: "update_stmt devices devices_update
          (\<lambda>db prev d. d_id d = cs_device_id i \<and> d_user_id d = cs_user_id i \<and> ?eligible (auth_requests db))
          (start_consumed_session i) d1 k1 = Inr (d2, k2)"
    and s3: "(if ?eligible (auth_requests d2) then insert_refresh_token (consume_token_row i d2) d2 else Inr (d2, 0)) = Inr (d3, 1)"
    and s4: "\<exists>p g. update_requests p g d3 1 = Inr (db', 1)"
    unfolding consume_auth_request_with_session_def with_batch_eq batch_def run_stmts_Inr return_value_def
    by (elim disjE exE conjE) (simp_all del: One_nat_def, blast)
  have e2: "?eligible (auth_requests d2)" and last: "users d3 = users d2" "devices d3 = devices d2"
    using s3 by (auto simp: insert_refresh_token_Inr split: if_splits)
  have d2: "devices d2 = sql_update (\<lambda>d. d_id d = cs_device_id i \<and> d_user_id d = cs_user_id i) (start_consumed_session i) (devices d1)"
    "users d2 = users d1" "auth_requests d1 = auth_requests d2"
    using s2 e2 by (auto simp: update_stmt_Inr)
  have start: "users d1 = users db" "?eligible (auth_requests db)"
    using s1 e2 d2(3) by (auto simp: insert_or_ignore_device_Inr split: if_splits)
  have "\<exists>d \<in> set (devices d1). d_id d = cs_device_id i \<and> d_user_id d = cs_user_id i \<and> d_identifier d = cs_request_device_identifier i"
  proof (cases "devices_conflict (consume_device_row i db) db")
    case False
    then show ?thesis
      using s1 start(2) by (auto simp: insert_or_ignore_device_Inr consume_device_row_def split: if_splits)
  next
    case True
    then obtain d where d: "d \<in> set (devices db)"
      "d_id d = cs_device_id i \<or> d_user_id d = cs_user_id i \<and> d_identifier d = cs_request_device_identifier i"
      by (auto simp: devices_conflict_def sql_exists_iff device_key_def consume_device_row_def)
    then have "d_id d = build_device_id (d_user_id d) (d_identifier d)" "CHR '':'' \<notin> set (d_user_id d)"
      using assms(3) by (auto simp: device_owners_ok_def device_ids_ok_def)
    then have "d_id d = cs_device_id i \<and> d_user_id d = cs_user_id i \<and> d_identifier d = cs_request_device_identifier i"
      using d(2) assms(2) device_id_owner [OF _ assms(4), of "d_user_id d"] by metis
    moreover have "d1 = db" using s1 start(2) True by (auto simp: insert_or_ignore_device_Inr)
    ultimately show ?thesis using d(1) by blast
  qed
  then obtain d where d: "d \<in> set (devices d1)" "d_id d = cs_device_id i" "d_user_id d = cs_user_id i"
    "d_identifier d = cs_request_device_identifier i" by blast
  then have "start_consumed_session i d \<in> set (devices d2)" unfolding d2(1) by (intro updated_row_in) simp_all
  moreover have "session_device (cs_user_id i) (cs_request_device_identifier i) (cs_refresh_token_id i) (start_consumed_session i d)"
    using d by (simp add: session_device_def start_consumed_session_def)
  moreover have "users db' = users d3" "devices db' = devices d3"
    using s4 by (auto simp: update_requests_def checked_def update_stmt_def split: if_splits)
  ultimately show "\<exists>d \<in> set (devices db'). session_device (cs_user_id i) (cs_request_device_identifier i) (cs_refresh_token_id i) d"
    "users db' = users db"
    using last d2(2) start(1) by auto
qed

section \<open>The refresh grant\<close>

definition refresh_hash :: "crypto \<Rightarrow> access_token_config \<Rightarrow> string \<Rightarrow> string" where
  "refresh_hash crypto config token = hash_refresh_token (cy_sha256 crypto) (tc_refresh_token_secret config) token"

lemma rotated_session:
  assumes "rotate_refresh_token i db = (db', Inr Rotated)" "schema_ok db"
  shows "\<exists>t \<in> set (refresh_tokens db). rotatable i db t" "users db' = users db"
    and "\<And>e. e \<in> set (devices db) \<Longrightarrow> d_id e = ro_device_id i \<Longrightarrow> d_identifier e = ro_device_identifier i \<Longrightarrow>
      \<exists>d \<in> set (devices db'). session_device (ro_user_id i) (ro_device_identifier i) (ro_expected_session_id i) d"
proof -
  from assms(1) obtain d1 d2 where
    s1: "insert_replacement i db 0 = Inr (d1, 1)" and s2: "revoke_rotated i d1 1 = Inr (d2, 1)" and
    s3: "touch_rotated_device i d2 1 = Inr (db', 1)"
    unfolding rotate_refresh_token_def with_batch_eq batch_def run_stmts_Inr
    by (auto simp: return_value_def split: if_splits prod.splits sum.splits)
  from s1 obtain t where t: "sql_first (rotatable i db) (refresh_tokens db) = Some t"
    and d1: "users d1 = users db" "devices d1 = devices db"
    by (auto simp: insert_replacement_Inr insert_refresh_token_Inr)
  show "\<exists>t \<in> set (refresh_tokens db). rotatable i db t" using sql_first_SomeD [OF t] by blast
  have d2: "users d2 = users db" "devices d2 = devices db"
    using s2 d1 by (auto simp: revoke_rotated_def update_stmt_Inr)
  from s3 obtain p where db': "users db' = users d2" "devices db' = sql_update p (touch_device i) (devices d2)"
    by (auto simp: touch_rotated_device_def checked_def update_stmt_def touch_device_def [abs_def] split: if_splits)
  show "users db' = users db" using db' d2 by simp
  fix e
  assume e: "e \<in> set (devices db)" "d_id e = ro_device_id i" "d_identifier e = ro_device_identifier i"
  obtain d where d: "d \<in> set (devices db)" "d_id d = ro_device_id i" "d_user_id d = ro_user_id i" "d_revoked_at d = None"
    "d_session_id d = Some (ro_expected_session_id i)"
    using rotatable_facts(7) [OF t] by blast
  have "d = e" using device_unique [OF assms(2) d(1) e(1)] d(2) e(2) by simp
  then have "session_device (ro_user_id i) (ro_device_identifier i) (ro_expected_session_id i) (if p d then touch_device i d else d)"
    using d e(3) by (simp add: session_device_def touch_device_def)
  moreover have "(if p d then touch_device i d else d) \<in> set (devices db')"
    using d(1) d2(2) by (simp only: db' set_sql_update) blast
  ultimately show "\<exists>d \<in> set (devices db'). session_device (ro_user_id i) (ro_device_identifier i) (ro_expected_session_id i) d"
    by blast
qed

lemma row_account:
  assumes "auth_user_from_row db u = Inr user"
  shows "au_user user = u" "kdf_from_stored_generation (user_generation u) \<noteq> None"
  using assms by (auto simp: auth_user_from_row_def Let_def split: if_splits)

lemma refresh_stages:
  assumes "handle_refresh_grant crypto config site token db = (db', Inr (Reply (Tokens body)))" "schema_ok db"
  obtains t u di sid keys where
    "t \<in> set (refresh_tokens db)" "rt_token_hash t = refresh_hash crypto config token" "rt_revoked_at t = None"
    "\<not> date_not_after (rt_expires_at t) (ts_issued_at site * 1000)" "rt_user_id t = u_id u" "u \<in> set (users db)"
    "\<not> truthy (u_disabled_at u)" "kdf_from_stored_generation (user_generation u) \<noteq> None"
    "finds_session_user u di sid db'" "sid \<noteq> []" "rt_session_id t = Some sid"
    "issue_tokens crypto config site u di sid ''refresh''
       (generate_refresh_token (ts_refresh_bytes site)) keys db' = (db', Inr (Reply (Tokens body)))"
proof -
  from assms(1) obtain session keys d1 rotation where
    found: "find_refresh_token_session_by_hash (refresh_hash crypto config token) db = Inr (Some session)" and
    guards: "truthy (rs_session_id session)" "\<not> truthy (rs_token_revoked_at session)"
      "\<not> truthy (u_disabled_at (au_user (rs_user session)))"
      "\<not> date_not_after (rs_token_expires_at session) (ts_issued_at site * 1000)" and
    rotated: "rotate_refresh_token (rotation_input crypto config site session) db = (d1, Inr rotation)" "rotation \<noteq> ReuseDetected" and
    issue: "issue_tokens crypto config site (au_user (rs_user session)) (rs_device_identifier session)
      (the (rs_session_id session)) ''refresh'' (generate_refresh_token (ts_refresh_bytes site)) keys d1 =
        (db', Inr (Reply (Tokens body)))"
    unfolding handle_refresh_grant_def Let_def refresh_hash_def
    by (auto simp: repo_Inr split: if_splits option.splits)
  let ?i = "rotation_input crypto config site session"
  obtain sid where sid: "rs_session_id session = Some sid" "sid \<noteq> []"
    using guards(1) by (cases "rs_session_id session") auto
  have "rotate_refresh_token ?i db = (db', Inr Rotated)"
    using rotated issue_tokens_db [OF issue] by (cases rotation) simp_all
  note rotation = rotated_session [OF this assms(2)]
  from found obtain t where first: "sql_first (\<lambda>t. rt_token_hash t = refresh_hash crypto config token) (refresh_tokens db) = Some t"
    by (cases "sql_first (\<lambda>t. rt_token_hash t = refresh_hash crypto config token) (refresh_tokens db)")
      (simp_all add: find_refresh_token_session_by_hash_def)
  with found obtain u d where rows: "sql_first (\<lambda>u. u_id u = rt_user_id t) (users db) = Some u"
      "sql_first (\<lambda>d. d_id d = rt_device_id t) (devices db) = Some d"
    by (cases "sql_first (\<lambda>u. u_id u = rt_user_id t) (users db)"; cases "sql_first (\<lambda>d. d_id d = rt_device_id t) (devices db)")
      (simp_all add: find_refresh_token_session_by_hash_def)
  note t = sql_first_SomeD [OF first] and u1 = sql_first_SomeD [OF rows(1)] and d1 = sql_first_SomeD [OF rows(2)]
  obtain user where user: "auth_user_from_row db u = Inr user" 
    using found by (cases "auth_user_from_row db u") (simp_all add: find_refresh_token_session_by_hash_def first rows)
  then have s: "rs_token_id session = rt_id t" "rs_session_id session = rt_session_id t" "rs_user_id session = rt_user_id t"
      "rs_device_id session = rt_device_id t" "rs_token_expires_at session = rt_expires_at t" "rs_device_identifier session = d_identifier d"
      "rs_user session = user" "rs_token_revoked_at session = rt_revoked_at t"
    using found by (auto simp add: find_refresh_token_session_by_hash_def first rows)
  have u: "u \<in> set (users db)" "u_id u = rt_user_id t" "au_user (rs_user session) = u"
      "kdf_from_stored_generation (user_generation u) \<noteq> None"
    using u1 row_account [OF user] s(7) by simp_all
  have d: "d \<in> set (devices db)" "d_id d = rt_device_id t" "rs_device_identifier session = d_identifier d"
    using d1 s(6) by simp_all
  note i = rotation_input_def [of crypto config site session]
  obtain w where w: "w \<in> set (refresh_tokens db)" "rotatable ?i db w" using rotation(1) by blast
  then have "rt_id w = rt_id t" using s(1) by (simp add: rotatable_def i)
  then have "w = t" by (rule token_unique [OF assms(2) w(1) conjunct1 [OF t]])
  with w(2) obtain v where live: "rt_revoked_at t = None" and
    v: "v \<in> set (users db)" "u_id v = u_id u" "u_disabled_at v = None"
    using u(2) unfolding rotatable_def sql_exists_iff by metis
  have enabled: "u_disabled_at u = None" using user_unique [OF assms(2) v(1) u(1) v(2)] v(3) by simp
  have "\<exists>e \<in> set (devices db'). session_device (u_id u) (d_identifier d) sid e"
  proof -
    have "ro_user_id ?i = u_id u" "ro_device_id ?i = d_id d" "ro_device_identifier ?i = d_identifier d"
      "ro_expected_session_id ?i = sid"
      using d(2) s(1,3-6) u(2) sid(1) by (simp_all add: i)
    with rotation(3) [OF d(1)] show ?thesis by simp
  qed
  then have "finds_session_user u (d_identifier d) sid db'"
    using assms(2) u rotation(2) enabled by (intro session_user_found) (simp_all add: schema_ok_def)
  moreover have "the (rt_session_id t) = sid" "rt_session_id t = Some sid" using s(2) sid(1) by (metis option.sel)+
  ultimately show thesis
    using that [of t u "d_identifier d" sid keys] t live u s(1,3-8) guards(3,4) sid(2) issue d(3) s(2) issue_tokens_db [OF issue]
    by simp
qed

section \<open>What the endpoint guarantees\<close>

text \<open>The credential of each grant, as the form presents it and the database stores it.\<close>

inductive grant_credential ::
    "crypto \<Rightarrow> access_token_config \<Rightarrow> token_site \<Rightarrow> form \<Rightarrow> database \<Rightarrow> user_row \<Rightarrow> bool"
  for crypto config site form db where
  by_password: "parse_password_grant_form form = Inr grant \<Longrightarrow> u_email_normalized u = pg_username_normalized grant \<Longrightarrow>
     u_master_password_hash u = pg_password grant \<Longrightarrow> grant_credential crypto config site form db u"
| by_refresh_token: "parse_refresh_token_grant_form form = Inr token \<Longrightarrow> t \<in> set (refresh_tokens db) \<Longrightarrow>
     rt_token_hash t = refresh_hash crypto config token \<Longrightarrow> rt_user_id t = u_id u \<Longrightarrow> rt_revoked_at t = None \<Longrightarrow>
     \<not> date_not_after (rt_expires_at t) (ts_issued_at site * 1000) \<Longrightarrow> grant_credential crypto config site form db u"
| by_api_key: "parse_client_credentials_grant_form form = Grant grant \<Longrightarrow>
     parse_personal_api_key_client_id (cc_client_id grant) = Some (u_id u) \<Longrightarrow>
     resolve_personal_api_key_runtime_config (ts_env site) = KeysReady secret \<Longrightarrow> find_personal_api_key (u_id u) db = Some k \<Longrightarrow>
     pk_secret_verifier k = build_personal_api_key_verifier (cy_hmac_sha256 crypto) secret (u_id u) (cc_client_secret grant) \<Longrightarrow>
     grant_credential crypto config site form db u"
| by_auth_request: "parse_auth_request_grant_form form = Grant grant \<Longrightarrow> r \<in> set (auth_requests db) \<Longrightarrow>
     ar_id r = ag_auth_request_id grant \<Longrightarrow> ar_user_id r = Some (u_id u) \<Longrightarrow> ar_status r = Approved \<Longrightarrow> ar_expires_at r > ts_now site \<Longrightarrow>
     ar_request_device_identifier r = td_identifier (ag_device grant) \<Longrightarrow>
     verify_auth_request_access_code (cy_hmac_sha256 crypto) (the (env_auth_request_secret (ts_env site))) (ar_id r)
       (ag_access_code grant) (ar_access_code_hash r) = Inr True \<Longrightarrow>
     u_email_normalized u = ag_username_normalized grant \<Longrightarrow> grant_credential crypto config site form db u"

text \<open>Tokens for \<open>u\<close>: the credential was presented, and they were issued for a session that the database finds.\<close>

definition justified ::
    "crypto \<Rightarrow> access_token_config \<Rightarrow> token_site \<Rightarrow> form \<Rightarrow> database \<Rightarrow> token_body \<Rightarrow> database \<Rightarrow> user_row \<Rightarrow> bool" where
  "justified crypto config site form db body db' u \<longleftrightarrow>
     u \<in> set (users db) \<and> \<not> truthy (u_disabled_at u) \<and> grant_credential crypto config site form db u \<and>
     (\<exists>di sid how refresh keys. finds_session_user u di sid db' \<and> how \<in> set auth_methods \<and>
        (sid = ts_refresh_token_id site \<or> (\<exists>t \<in> set (refresh_tokens db). rt_session_id t = Some sid \<and> sid \<noteq> [])) \<and>
        issue_tokens crypto config site u di sid how refresh keys db' = (db', Inr (Reply (Tokens body))))"

lemma auth_method_members: "''password'' \<in> set auth_methods" "''refresh'' \<in> set auth_methods" "''api_key'' \<in> set auth_methods"
  "''auth_request'' \<in> set auth_methods"
  by (simp_all add: auth_methods_def)

lemma justifiedI:
  assumes "u \<in> set (users db)" "\<not> truthy (u_disabled_at u)" "grant_credential crypto config site form db u"
    and "finds_session_user u di sid db'" "how \<in> set auth_methods"
    and "sid = ts_refresh_token_id site \<or> (\<exists>t \<in> set (refresh_tokens db). rt_session_id t = Some sid \<and> sid \<noteq> [])"
    and "issue_tokens crypto config site u di sid how refresh keys db' = (db', Inr (Reply (Tokens body)))"
  shows "justified crypto config site form db body db' u"
  using assms unfolding justified_def by blast

lemma password_justified:
  assumes "handle_password_grant crypto config site grant device db = (db', Inr (Reply (Tokens body)))"
    and "parse_password_grant_form form = Inr grant" "schema_ok db" "device_owners_ok db"
  shows "\<exists>u. justified crypto config site form db body db' u"
  using assms(1)
proof (rule password_grant_stages)
  fix user v d
  assume user: "find_auth_user_by_email (pg_username_normalized grant) db = Inr (Some user)" "\<not> truthy (u_disabled_at (au_user user))"
    "u_master_password_hash (au_user user) = pg_password grant" and d: "accounts d = accounts db"
    and "\<exists>keys account. finish_password_grant crypto config site (au_user user) device account keys v d =
      (db', Inr (Reply (Tokens body)))"
  then obtain keys account where
    finish: "finish_password_grant crypto config site (au_user user) device account keys v d = (db', Inr (Reply (Tokens body)))"
    by blast
  have same: "users d = users db" "device_ids_ok d" "distinct (map u_id (users db))"
    using d assms(3,4) by (simp_all add: accounts_def device_owners_ok_def device_ids_ok_def schema_ok_def)
  note account = found_account [OF user(1)]
  have found: "finds_session_user (au_user user) (td_identifier device) (ts_refresh_token_id site) db'"
    using finish_finds_session_user [OF finish] account same by simp
  obtain d3 where "issue_tokens crypto config site (au_user user) (td_identifier device) (ts_refresh_token_id site)
      ''password'' (generate_refresh_token (ts_refresh_bytes site)) keys db' = (db', Inr (Reply (Tokens body)))"
    using finish by (rule finish_stages)
  moreover have "u_email_normalized (au_user user) = pg_username_normalized grant"
    using user(1) by (auto simp: find_auth_user_by_email_def find_user_where_def auth_user_from_row_def Let_def
        split: option.splits if_splits dest: sql_first_SomeD)
  then have "grant_credential crypto config site form db (au_user user)" by (rule by_password [OF assms(2) _ user(3)])
  ultimately show ?thesis using justifiedI [OF account(1) user(2) _ found auth_method_members(1)] by blast
qed

lemma refresh_justified:
  assumes "handle_refresh_grant crypto config site token db = (db', Inr (Reply (Tokens body)))"
    and "parse_refresh_token_grant_form form = Inr token" "schema_ok db"
  shows "\<exists>u. justified crypto config site form db body db' u"
  using assms(1,3)
proof (rule refresh_stages)
  fix t u di sid keys
  assume t: "t \<in> set (refresh_tokens db)" "rt_token_hash t = refresh_hash crypto config token" "rt_revoked_at t = None"
    "\<not> date_not_after (rt_expires_at t) (ts_issued_at site * 1000)" "rt_user_id t = u_id u"
    and u: "u \<in> set (users db)" "\<not> truthy (u_disabled_at u)" "finds_session_user u di sid db'"
    and sid: "sid \<noteq> []" "rt_session_id t = Some sid"
    and issue: "issue_tokens crypto config site u di sid ''refresh''
       (generate_refresh_token (ts_refresh_bytes site)) keys db' = (db', Inr (Reply (Tokens body)))"
  have "grant_credential crypto config site form db u" by (rule by_refresh_token [OF assms(2) t(1,2,5,3,4)])
  then show ?thesis using justifiedI [OF u(1,2) _ u(3) auth_method_members(2) _ issue] sid t(1) by blast
qed

lemma api_key_justified:
  assumes "handle_personal_api_key_token_grant crypto config site grant db = (db', Inr (Reply (Tokens body)))"
    and "parse_client_credentials_grant_form form = Grant grant" "schema_ok db" "device_owners_ok db"
  shows "\<exists>u. justified crypto config site form db body db' u"
  using assms(1)
proof (rule api_key_stages)
  fix secret uid user device ip account k d
  assume key: "resolve_personal_api_key_runtime_config (ts_env site) = KeysReady secret"
    "parse_personal_api_key_client_id (cc_client_id grant) = Some uid" "find_personal_api_key uid db = Some k"
    "pk_secret_verifier k = build_personal_api_key_verifier (cy_hmac_sha256 crypto) secret uid (cc_client_secret grant)"
    and user: "find_auth_user_by_id uid None db = Inr (Some user)" "\<not> truthy (u_disabled_at (au_user user))"
    and d: "accounts d = accounts db"
    and finish: "finish_api_key_grant crypto config site (au_user user) device ip account (pk_secret_verifier k) d =
       (db', Inr (Reply (Tokens body)))"
  note account = found_account_by_id [OF user(1)]
  have "grant_credential crypto config site form db (au_user user)"
    by (rule by_api_key [OF assms(2)]) (use key account(2) in simp_all)
  note goal = justifiedI [OF account(1) user(2) this _ auth_method_members(3) disjI1 [OF refl]]
  show ?thesis
    using finish
  proof (rule finish_api_key_stages)
    fix e e' keys
    assume e: "users e = users d" "devices e = devices d"
      and created: "create_password_grant_session (login_session_input crypto config site (au_user user) device None False) e = (e', Inr SessionCreated)"
      and last: "accounts db' = accounts e'"
      and issue: "issue_tokens crypto config site (au_user user) (td_identifier device) (ts_refresh_token_id site) ''api_key''
       (generate_refresh_token (ts_refresh_bytes site)) keys db' = (db', Inr (Reply (Tokens body)))"
    have "au_user user \<in> set (users e)" "distinct (map u_id (users e))" "device_ids_ok e"
      using account(1) e d assms(3,4) by (simp_all add: accounts_def schema_ok_def device_owners_ok_def device_ids_ok_def)
    from created_session_found(1) [OF created this(1) account(3) this(2,3)]
    have "finds_session_user (au_user user) (td_identifier device) (ts_refresh_token_id site) db'"
      using same_accounts_session [OF last] by simp
    then show ?thesis using goal issue by blast
  qed
qed

lemma auth_request_justified:
  assumes "handle_auth_request_token_grant crypto config site grant db = (db', Inr (Reply (Tokens body)))"
    and "parse_auth_request_grant_form form = Grant grant" "schema_ok db" "device_owners_ok db"
  shows "\<exists>u. justified crypto config site form db body db' u"
  using assms(1)
proof (rule auth_request_stages)
  fix device request user d d' keys
  assume request: "find_auth_request_verifier_by_id (ag_auth_request_id grant) (ts_now site) db = Some request"
    "verify_auth_request_access_code (cy_hmac_sha256 crypto) (the (env_auth_request_secret (ts_env site)))
       (ag_auth_request_id grant) (ag_access_code grant) (ar_access_code_hash request) = Inr True"
    "consumable request device" "td_identifier device = td_identifier (ag_device grant)"
    and user: "find_auth_user_by_id (the (ar_user_id request)) None db = Inr (Some user)" "\<not> truthy (u_disabled_at (au_user user))"
    "u_email_normalized (au_user user) = ag_username_normalized grant"
    and d: "held d = held db"
    and consumed: "consume_auth_request_with_session (consume_input crypto config site request (au_user user) device) d = (d', Inr True)"
    and last: "accounts db' = accounts d'"
    and issue: "issue_tokens crypto config site (au_user user) (td_identifier device) (ts_refresh_token_id site) ''auth_request''
       (generate_refresh_token (ts_refresh_bytes site)) keys db' = (db', Inr (Reply (Tokens body)))"
  let ?u = "au_user user" and ?i = "consume_input crypto config site request (au_user user) device"
  note account = found_account_by_id [OF user(1)]
  have r: "request \<in> set (auth_requests db)" "ar_id request = ag_auth_request_id grant" "ar_expires_at request > ts_now site"
    using sql_first_SomeD [OF request(1) [unfolded find_auth_request_verifier_by_id_def]] by simp_all
  have c: "ar_status request = Approved" "ar_user_id request = Some (u_id ?u)" "ar_request_device_identifier request = td_identifier (ag_device grant)"
    using request(3,4) account(2) by (cases "ar_user_id request"; simp add: consumable_def)+
  have "verify_auth_request_access_code (cy_hmac_sha256 crypto) (the (env_auth_request_secret (ts_env site))) (ar_id request)
       (ag_access_code grant) (ar_access_code_hash request) = Inr True"
    using request(2) r(2) by simp
  then have credential: "grant_credential crypto config site form db ?u"
    by (rule by_auth_request [OF assms(2) r(1,2) c(2,1) r(3) c(3) _ user(3)])
  have owners: "device_owners_ok d" "CHR '':'' \<notin> set (cs_user_id ?i)"
    using d assms(4) account(1) by (simp_all add: held_def accounts_def device_owners_ok_def device_ids_ok_def consume_input_def)
  have "cs_device_id ?i = build_device_id (cs_user_id ?i) (cs_request_device_identifier ?i)" by (simp add: consume_input_def)
  note session = consumed_session [OF consumed this owners]
  have "users d' = users db" using session(1) d by (simp add: held_def accounts_def)
  have "finds_session_user ?u (td_identifier device) (ts_refresh_token_id site) d'"
    using session(2) account assms(3) \<open>users d' = users db\<close> user(2)
    by (intro session_user_found) (auto simp: schema_ok_def consume_input_def)
  then have "finds_session_user ?u (td_identifier device) (ts_refresh_token_id site) db'"
    using same_accounts_session [OF last] by simp
  then show ?thesis
    using justifiedI [OF account(1) user(2) credential _ auth_method_members(4) disjI1 [OF refl] issue] by blast
qed

lemma run_Reply:
  "catch_all (ApiFailure 503 ''database_unavailable'') m db = (db', Reply x) \<longleftrightarrow> m db = (db', Inr (Reply x))"
  by (auto simp: catch_all_def split: prod.splits sum.splits)

lemma endpoint_justified:
  assumes "handle_token_request crypto site form db = (db', Reply (Tokens body))" "schema_ok db" "device_owners_ok db"
  shows "\<exists>config u. resolve_access_token_runtime_config (ts_env site) = Some config \<and> justified crypto config site form db body db' u"
  using assms(1) unfolding handle_token_request_def Let_def run_Reply
  by (auto simp: run_Reply split: if_splits option.splits grant_form.splits sum.splits
      dest: password_justified [OF _ _ assms(2,3)] refresh_justified [OF _ _ assms(2)] api_key_justified [OF _ _ assms(2,3)]
        auth_request_justified [OF _ _ assms(2,3)])

text \<open>
  C34. No tokens without a credential. Whatever form is posted, an answer with tokens means that an enabled account was named and its
  credential presented: the stored password hash, an unrevoked and unexpired refresh token, the current API key, or
  the access code of a request approved by that account for the device that asks.
\<close>

theorem tokens_need_a_credential:
  assumes "handle_token_request crypto site form db = (db', Reply (Tokens body))" "schema_ok db" "device_owners_ok db"
  shows "\<exists>config u. resolve_access_token_runtime_config (ts_env site) = Some config \<and> u \<in> set (users db) \<and>
    \<not> truthy (u_disabled_at u) \<and> grant_credential crypto config site form db u"
  using endpoint_justified [OF assms] unfolding justified_def by blast

lemma endpoint_token_accepted:
  assumes "handle_token_request crypto site form db = (db', Reply (Tokens body))" "schema_ok db" "device_owners_ok db"
    and "safe_int (ts_issued_at site)" "safe_int (ts_issued_at site + access_token_ttl_seconds)"
    and "0 < length (ts_refresh_token_id site)" "length (ts_refresh_token_id site) \<le> 128"
    and "\<forall>t \<in> set (refresh_tokens db). \<forall>sid. rt_session_id t = Some sid \<longrightarrow> length sid \<le> 128"
    and "now < ts_issued_at site + access_token_ttl_seconds"
    and "\<And>key m. cy_hmac_sha256 crypto key m \<noteq> []" "\<And>key m. \<forall>b \<in> set (cy_hmac_sha256 crypto key m). b < (256::nat)"
  shows "\<exists>config u auth. grant_credential crypto config site form db u \<and>
    authenticate_vault_request_with_access_token (cy_hmac_sha256 crypto) (ts_env site)
      (Some (tb_access_token body)) now db' = Inr auth \<and> u_id (au_user (av_user auth)) = u_id u \<and>
    av_token_issued_at auth = Finite (of_int (ts_issued_at site))"
proof -
  obtain config u where config: "resolve_access_token_runtime_config (ts_env site) = Some config"
    and u: "justified crypto config site form db body db' u"
    using endpoint_justified [OF assms(1-3)] by blast
  from u obtain di sid how refresh keys where found: "finds_session_user u di sid db'" and m: "how \<in> set auth_methods"
    and sid: "sid = ts_refresh_token_id site \<or> (\<exists>t \<in> set (refresh_tokens db). rt_session_id t = Some sid \<and> sid \<noteq> [])"
    and issue: "issue_tokens crypto config site u di sid how refresh keys db' = (db', Inr (Reply (Tokens body)))"
    and credential: "grant_credential crypto config site form db u"
    unfolding justified_def by blast
  have "0 < length sid" "length sid \<le> 128" using sid assms(6-8) by auto
  from issued_token_authenticates [OF config issue found assms(4,5) this m assms(9-11)] credential
  show ?thesis by blast
qed

text \<open>
  C35. Issued tokens work, for the right account. Whichever grant issued it, the access token authenticates until it expires, in the
  database the grant leaves, as the account whose credential was presented. Session ids are at most 128 long,
  and HMAC-SHA-256 yields some bytes.
\<close>

theorem endpoint_token_authenticates:
  assumes "handle_token_request crypto site form db = (db', Reply (Tokens body))" "schema_ok db" "device_owners_ok db"
    and "safe_int (ts_issued_at site)" "safe_int (ts_issued_at site + access_token_ttl_seconds)"
    and "0 < length (ts_refresh_token_id site)" "length (ts_refresh_token_id site) \<le> 128"
    and "\<forall>t \<in> set (refresh_tokens db). \<forall>sid. rt_session_id t = Some sid \<longrightarrow> length sid \<le> 128"
    and "now < ts_issued_at site + access_token_ttl_seconds"
    and "\<And>key m. cy_hmac_sha256 crypto key m \<noteq> []" "\<And>key m. \<forall>b \<in> set (cy_hmac_sha256 crypto key m). b < (256::nat)"
  shows "\<exists>config u auth. grant_credential crypto config site form db u \<and>
    authenticate_vault_request_with_access_token (cy_hmac_sha256 crypto) (ts_env site)
      (Some (tb_access_token body)) now db' = Inr auth \<and> u_id (au_user (av_user auth)) = u_id u \<and>
    av_token_issued_at auth = Finite (of_int (ts_issued_at site))"
  using assms by (rule endpoint_token_accepted)

section \<open>Rotating an API key\<close>

lemma audited_mutation_Inr:
  assumes "audited_mutation s audit db = (db', Inr n)"
  shows "\<exists>d. s db 0 = Inr (d, n) \<and> personal_api_keys db' = personal_api_keys d"
  using assms
  by (auto simp: audited_mutation_def with_batch_eq batch_def run_stmts_Inr return_value_def insert_audit_event_def
      simp del: run_stmts.simps split: option.splits if_splits)

lemma written_key:
  "create_personal_api_key uid v now audit db = (db', Inr True) \<Longrightarrow> \<exists>k. find_personal_api_key uid db' = Some k \<and> pk_secret_verifier k = v"
  "rotate_personal_api_key uid v now audit db = (db', Inr True) \<Longrightarrow> \<exists>k. find_personal_api_key uid db' = Some k \<and> pk_secret_verifier k = v"
proof -
  assume "create_personal_api_key uid v now audit db = (db', Inr True)"
  then show "\<exists>k. find_personal_api_key uid db' = Some k \<and> pk_secret_verifier k = v"
    unfolding create_personal_api_key_def
    by (auto simp: repo_Inr insert_personal_api_key_def find_personal_api_key_def sql_first_append sql_exists_first
        dest!: audited_mutation_Inr split: if_splits option.split)
next
  let ?f = "\<lambda>k. k\<lparr>pk_secret_verifier := v, pk_rotated_at := Some now, pk_revision_date := now\<rparr>"
  assume "rotate_personal_api_key uid v now audit db = (db', Inr True)"
  then have "personal_api_keys db' = sql_update (\<lambda>k. pk_user_id k = uid) ?f (personal_api_keys db)"
    and "sql_count (\<lambda>k. pk_user_id k = uid) (personal_api_keys db) = 1"
    unfolding rotate_personal_api_key_def
    by (auto simp: repo_Inr checked_def update_stmt_def dest!: audited_mutation_Inr split: if_splits)
  moreover from this(2) have "sql_first (\<lambda>k. pk_user_id k = uid) (personal_api_keys db) \<noteq> None"
    using sql_count_pos [of "\<lambda>k. pk_user_id k = uid" "personal_api_keys db"] by (auto simp: sql_first_None)
  ultimately show "\<exists>k. find_personal_api_key uid db' = Some k \<and> pk_secret_verifier k = v"
    using sql_first_update_key [of pk_user_id ?f uid "personal_api_keys db"]
    by (auto simp: find_personal_api_key_def)
qed

text \<open>An answer that hands out a secret: the key routes return none otherwise.\<close>

lemma handed_out_key:
  assumes "handle_personal_api_key_create hmac site bytes db = (db', Reply (KeyCreated r)) \<or>
    handle_personal_api_key_rotate hmac site bytes db = (db', Reply (KeyCreated r))"
  shows "\<exists>secret uid k. resolve_personal_api_key_runtime_config (st_env site) = KeysReady secret \<and>
    kr_client_id r = build_personal_api_key_client_id uid \<and> find_personal_api_key uid db' = Some k \<and>
    pk_secret_verifier k = build_personal_api_key_verifier hmac secret uid (kr_api_key r)"
proof -
  have auth: "resolve_personal_api_key_runtime_config (st_env site) = KeysReady secret"
    if "authorize_personal_api_key_management hmac site db = Inr (auth, secret)" for auth secret
    using that by (cases "resolve_personal_api_key_runtime_config (st_env site)")
      (auto simp: authorize_personal_api_key_management_def and_then_Inr_iff split: if_splits)
  from assms show ?thesis
    unfolding handle_personal_api_key_create_def handle_personal_api_key_rotate_def with_authorization_def
    by (auto simp: run_Reply refuse_def repo_Inr Let_def build_personal_api_key_response_def
        split: sum.splits if_splits prod.splits dest!: auth written_key)
qed

text \<open>
  Only the newest API key works: once a key was created or rotated, a grant for its client id gets tokens only for a secret with the
  HMAC of the one that was handed out.
\<close>

lemma current_api_key_only:
  assumes "handle_personal_api_key_create (cy_hmac_sha256 crypto) key_site bytes db0 = (db, Reply (KeyCreated r)) \<or>
    handle_personal_api_key_rotate (cy_hmac_sha256 crypto) key_site bytes db0 = (db, Reply (KeyCreated r))"
    and "handle_personal_api_key_token_grant crypto config site grant db = (db', Inr (Reply (Tokens body)))"
    and "ts_env site = st_env key_site"
    and "map_option build_personal_api_key_client_id (parse_personal_api_key_client_id (cc_client_id grant)) = Some (kr_client_id r)"
  shows "\<exists>secret uid. kr_client_id r = build_personal_api_key_client_id uid \<and>
    build_personal_api_key_verifier (cy_hmac_sha256 crypto) secret uid (cc_client_secret grant) =
    build_personal_api_key_verifier (cy_hmac_sha256 crypto) secret uid (kr_api_key r)"
proof -
  obtain secret uid k where k: "resolve_personal_api_key_runtime_config (ts_env site) = KeysReady secret"
    "kr_client_id r = build_personal_api_key_client_id uid" "find_personal_api_key uid db = Some k"
    "pk_secret_verifier k = build_personal_api_key_verifier (cy_hmac_sha256 crypto) secret uid (kr_api_key r)"
    using handed_out_key [OF assms(1)] assms(3) by metis
  show ?thesis
    using assms(2)
  proof (rule api_key_stages)
    fix s v j
    assume j: "resolve_personal_api_key_runtime_config (ts_env site) = KeysReady s" "find_personal_api_key v db = Some j"
      "parse_personal_api_key_client_id (cc_client_id grant) = Some v"
      "pk_secret_verifier j = build_personal_api_key_verifier (cy_hmac_sha256 crypto) s v (cc_client_secret grant)"
    then have "v = uid" using assms(4) k(2) by (simp add: build_personal_api_key_client_id_def)
    with j k show ?thesis by force
  qed
qed

section \<open>A sample request\<close>

definition sample_form :: form where
  "sample_form = [(''grant_type'', ''password''), (''username'', ''a@b.co''), (''password'', ''hash''),
     (''deviceIdentifier'', ''phone''), (''deviceType'', ''1'')]"

definition sample_form_grant :: password_grant where
  "sample_form_grant = sample_grant\<lparr>pg_device := Some sample_device\<rparr>"

lemma sample_form_parsed:
  "parse_password_grant_form sample_form = Inr sample_form_grant" "parse_auth_request_grant_form sample_form = OtherGrant"
  "parse_client_credentials_grant_form sample_form = OtherGrant" "form_get sample_form ''grant_type'' = Some ''password''"
  "read_device_info (ts_headers sample_site) = None"
  by code_simp+

lemma sample_form_goes_through:
  "\<exists>body db'. handle_token_request sample_crypto sample_site sample_form sample_database = (db', Reply (Tokens body))"
proof -
  have "\<exists>body db'. handle_password_grant sample_crypto sample_config sample_site sample_form_grant sample_device sample_database =
     (db', Inr (Reply (Tokens body)))"
    by (rule right_credentials_sign_in [OF sample_site_clock, where user = "\<lparr>au_user = sample_user, au_totp_enabled = False,
          au_totp_encrypted_secret = None, au_totp_last_accepted_step = None, au_totp_credential_generation = None\<rparr>"])
      (use sample_user_found sample_start sample_user_keys in \<open>simp_all add: sample_form_grant_def sample_credentials session_inv_def
        is_account_locked_def fresh_token_id_def login_device_usable_def
        find_auth_failure_bucket_def sql_first_def\<close>)
  then obtain body db' where go: "handle_password_grant sample_crypto sample_config sample_site sample_form_grant sample_device
      sample_database = (db', Inr (Reply (Tokens body)))" by blast
  have env: "ts_env sample_site = sample_env" "pg_device sample_form_grant = Some sample_device"
    by (simp_all add: sample_site_def sample_form_grant_def)
  have "handle_token_request sample_crypto sample_site sample_form sample_database = (db', Reply (Tokens body))"
    unfolding handle_token_request_def Let_def
    by (simp add: run_Reply go sample_form_parsed env sample_config_resolves)
  then show ?thesis by blast
qed

lemma sample_tables_ok: "schema_ok sample_database" "device_owners_ok sample_database"
  using sample_start by (simp_all add: session_inv_def device_owners_ok_def device_ids_ok_def sample_credentials)

theorem tokens_need_a_credential_witness:
  "\<exists>config u. grant_credential sample_crypto config sample_site sample_form sample_database u \<and> u \<in> set (users sample_database)"
  using sample_form_goes_through tokens_need_a_credential [OF _ sample_tables_ok] by blast

theorem endpoint_token_authenticates_witness:
  "\<exists>db' token auth. authenticate_vault_request_with_access_token (cy_hmac_sha256 sample_crypto) (ts_env sample_site)
     (Some token) 3599 db' = Inr auth \<and> av_token_issued_at auth = Finite 0"
proof -
  have sids: "\<forall>t \<in> set (refresh_tokens sample_database). \<forall>sid. rt_session_id t = Some sid \<longrightarrow> length sid \<le> 128"
    by (simp add: sample_credentials)
  have "ts_issued_at sample_site = 0" by (simp add: sample_site_def)
  then show ?thesis
    using sample_form_goes_through endpoint_token_authenticates [OF _ sample_tables_ok sample_login_conditions(4-7) sids
      sample_login_conditions(8-10), of sample_form]
    by fastforce
qed

end
