(* ===== verification/EmergencyAccess.thy ===== *)
theory EmergencyAccess
  imports AuditLog ApiKeys
begin

text \<open>
  Emergency access: \<open>src/domain/emergency-access.ts\<close>, \<open>src/repositories/emergency-access-repository.ts\<close> with the table of
  \<open>migrations/0021_emergency_access.sql\<close>, and the trust operations of \<open>src/emergency-access-trust.ts\<close>. HMAC-SHA-256
  and the delivery of the invitation are parameters; ids, random bytes and the clock are arguments.
\<close>

section \<open>Requests\<close>

definition invite_lifetime_days :: int where "invite_lifetime_days = 5"
definition invite_secret_min_bytes :: nat where "invite_secret_min_bytes = 32"
definition max_contact_email_length :: nat where "max_contact_email_length = 254"
definition max_key_encrypted_bytes :: nat where "max_key_encrypted_bytes = 65536"
definition max_invite_token_length :: nat where "max_invite_token_length = 256"
definition max_wait_time_days :: int where "max_wait_time_days = 90"
definition min_wait_time_days :: int where "min_wait_time_days = 1"

definition is_emergency_access_runtime_enabled :: "string option \<Rightarrow> bool" where
  "is_emergency_access_runtime_enabled v \<longleftrightarrow> flag_true v"

text \<open>Keys are compared in lower case; two keys that agree in lower case make the object invalid.\<close>

definition normalize_protocol_object :: "json \<Rightarrow> (string \<times> json) list option" where
  "normalize_protocol_object v =
     (case as_record v of
        None \<Rightarrow> None
      | Some entries \<Rightarrow>
          let normalized = map (\<lambda>(k, e). (js_lower k, e)) entries
          in if distinct (map fst normalized) then Some normalized else None)"

definition parse_normalized_email :: "json option \<Rightarrow> string option" where
  "parse_normalized_email v =
     (case Option.bind (as_string v) normalize_email of
        None \<Rightarrow> None
      | Some email \<Rightarrow> if max_contact_email_length < utf8_length email then None else Some email)"

definition parse_access_type :: "json option \<Rightarrow> int option" where
  "parse_access_type v = (if v = Some (jint 0) then Some 0 else if v = Some (jint 1) then Some 1 else None)"

definition parse_wait_time_days :: "json option \<Rightarrow> int option" where
  "parse_wait_time_days v =
     (case v of
        Some (JNum n) \<Rightarrow>
          if num_is_safe_integer n \<and> min_wait_time_days \<le> num_int n \<and> num_int n \<le> max_wait_time_days
          then Some (num_int n) else None
      | _ \<Rightarrow> None)"

definition bounded_string :: "json option \<Rightarrow> nat \<Rightarrow> nat \<Rightarrow> string option" where
  "bounded_string v minimum_length maximum_bytes =
     (case as_string v of
        None \<Rightarrow> None
      | Some s \<Rightarrow> if minimum_length \<le> length s \<and> utf8_length s \<le> maximum_bytes then Some s else None)"

record invite_request =
  iq_email :: string
  iq_type :: int
  iq_wait_time_days :: int

definition parse_emergency_access_invite_request :: "json \<Rightarrow> string \<Rightarrow> invite_request option" where
  "parse_emergency_access_invite_request body grantor_email =
     (case normalize_protocol_object body of
        None \<Rightarrow> None
      | Some fs \<Rightarrow>
          (case (parse_normalized_email (jprop fs ''email''), parse_access_type (jprop fs ''type''),
                 parse_wait_time_days (jprop fs ''waittimedays'')) of
             (Some email, Some t, Some days) \<Rightarrow>
               if email = grantor_email then None
               else Some \<lparr>iq_email = email, iq_type = t, iq_wait_time_days = days\<rparr>
           | _ \<Rightarrow> None))"

definition parse_emergency_access_accept_request :: "json \<Rightarrow> string option" where
  "parse_emergency_access_accept_request body =
     Option.bind (normalize_protocol_object body) (\<lambda>fs. bounded_string (jprop fs ''token'') 1 max_invite_token_length)"

definition parse_emergency_access_confirm_request :: "json \<Rightarrow> string option" where
  "parse_emergency_access_confirm_request body =
     Option.bind (normalize_protocol_object body) (\<lambda>fs. bounded_string (jprop fs ''key'') 1 max_key_encrypted_bytes)"

record update_request =
  uq_type :: int
  uq_wait_time_days :: int
  uq_key_encrypted :: "string option"

text \<open>\<open>object.get('key') ?? object.get('keyencrypted') ?? null\<close>: \<open>None\<close> and null are passed over.\<close>

definition nullish :: "json option \<Rightarrow> bool" where
  "nullish v \<longleftrightarrow> v = None \<or> v = Some JNull"

text \<open>
  A key that is present but no bounded string gives \<open>null\<close> from \<open>boundedString\<close>, as an absent key does; the comparison with
  \<open>undefined\<close> that should refuse it is never true.
\<close>

definition parse_emergency_access_update_request :: "json \<Rightarrow> update_request option" where
  "parse_emergency_access_update_request body =
     (case normalize_protocol_object body of
        None \<Rightarrow> None
      | Some fs \<Rightarrow>
          let key = (if \<not> nullish (jprop fs ''key'') then jprop fs ''key'' else jprop fs ''keyencrypted'');
              key_encrypted = (if nullish key then None else bounded_string key 1 max_key_encrypted_bytes)
          in (case (parse_access_type (jprop fs ''type''), parse_wait_time_days (jprop fs ''waittimedays'')) of
                (Some t, Some days) \<Rightarrow> Some \<lparr>uq_type = t, uq_wait_time_days = days, uq_key_encrypted = key_encrypted\<rparr>
              | _ \<Rightarrow> None))"

definition can_start_recovery :: "emergency_status \<Rightarrow> bool" where
  "can_start_recovery s \<longleftrightarrow> s = EaConfirmed"

section \<open>Invitations\<close>

definition emergency_access_invite_expires_at :: "string \<Rightarrow> js_error + string" where
  "emergency_access_invite_expires_at now =
     (case date_parse now of
        None \<Rightarrow> Inl (JsError ''Emergency Access invite clock is invalid.'')
      | Some ms \<Rightarrow> to_iso_string (Some (ms + invite_lifetime_days * 86400000)))"

definition generate_emergency_access_invite_token :: "nat list \<Rightarrow> string" where
  "generate_emergency_access_invite_token entropy = base64_url_encode_bytes entropy"

definition build_invite_verifier :: "mac \<Rightarrow> string \<Rightarrow> string \<Rightarrow> js_error + string" where
  "build_invite_verifier hmac secret v =
     (if utf8_length secret < invite_secret_min_bytes
      then Inl (JsError ''Emergency Access invite secret must be at least 32 bytes.'')
      else Inr (''hmac-sha256:v1:'' @ base64_url_encode_bytes (hmac_sha256 hmac secret v)))"

definition build_emergency_access_invite_token_hash ::
    "mac \<Rightarrow> string \<Rightarrow> string \<Rightarrow> string \<Rightarrow> string \<Rightarrow> js_error + string" where
  "build_emergency_access_invite_token_hash hmac secret relationship_id email token =
     build_invite_verifier hmac secret
       (''honowarden:emergency-access:invite:v1'' @ CHR 0x00 # relationship_id @ CHR 0x00 # email @ CHR 0x00 # token)"

definition verify_emergency_access_invite_token ::
    "mac \<Rightarrow> string \<Rightarrow> string \<Rightarrow> string \<Rightarrow> string \<Rightarrow> string \<Rightarrow> js_error + bool" where
  "verify_emergency_access_invite_token hmac secret relationship_id email token stored =
     and_then (build_emergency_access_invite_token_hash hmac secret relationship_id email token)
       (\<lambda>expected. Inr (constant_time_equal expected stored))"

definition build_emergency_access_email_hash :: "mac \<Rightarrow> string \<Rightarrow> string \<Rightarrow> js_error + string" where
  "build_emergency_access_email_hash hmac secret email =
     build_invite_verifier hmac secret (''honowarden:emergency-access:email:v1'' @ CHR 0x00 # email)"

datatype delivery_outcome = Delivered | DeliveryFailed | Ambiguous

definition classify_emergency_access_delivery :: "delivery_outcome \<Rightarrow> bool" where
  "classify_emergency_access_delivery outcome \<longleftrightarrow> outcome = Delivered"

section \<open>The table\<close>

text \<open>The CHECKs of one row; \<open>LIKE\<close> ignores the case of ASCII letters.\<close>

definition state_check :: "emergency_access_row \<Rightarrow> bool" where
  "state_check r \<longleftrightarrow>
     (case ea_status r of
        EaInvited \<Rightarrow>
          ea_email_normalized r \<noteq> None \<and> ea_grantee_user_id r = None \<and> ea_invite_token_hash r \<noteq> None \<and>
          ea_invite_expires_at r \<noteq> None \<and> ea_key_encrypted r = None \<and> ea_key_generation r = None \<and>
          ea_recovery_initiated_at r = None
      | EaAccepted \<Rightarrow>
          ea_email_normalized r = None \<and> ea_grantee_user_id r \<noteq> None \<and> ea_invite_token_hash r = None \<and>
          ea_invite_expires_at r = None \<and> ea_key_encrypted r = None \<and> ea_key_generation r = None \<and>
          ea_recovery_initiated_at r = None
      | EaConfirmed \<Rightarrow>
          ea_email_normalized r = None \<and> ea_grantee_user_id r \<noteq> None \<and> ea_invite_token_hash r = None \<and>
          ea_invite_expires_at r = None \<and> ea_key_encrypted r \<noteq> None \<and> ea_key_generation r \<noteq> None \<and>
          ea_recovery_initiated_at r = None
      | _ \<Rightarrow>
          ea_email_normalized r = None \<and> ea_grantee_user_id r \<noteq> None \<and> ea_invite_token_hash r = None \<and>
          ea_invite_expires_at r = None \<and> ea_key_encrypted r \<noteq> None \<and> ea_key_generation r \<noteq> None \<and>
          ea_recovery_initiated_at r \<noteq> None)"

definition emergency_check :: "emergency_access_row \<Rightarrow> bool" where
  "emergency_check r \<longleftrightarrow>
     ea_type r \<in> {0, 1} \<and> 1 \<le> ea_wait_time_days r \<and> ea_wait_time_days r \<le> 90 \<and>
     (case ea_invite_token_hash r of None \<Rightarrow> True | Some h \<Rightarrow> starts_with (js_lower h) ''hmac-sha256:v1:'') \<and>
     (case ea_key_generation r of None \<Rightarrow> True | Some n \<Rightarrow> 1 \<le> n) \<and>
     ea_grantee_user_id r \<noteq> Some (ea_grantor_user_id r) \<and> state_check r"

definition invited_keys :: "emergency_access_row list \<Rightarrow> (string \<times> string option) list" where
  "invited_keys t = map (\<lambda>r. (ea_grantor_user_id r, ea_email_normalized r))
     (filter (\<lambda>r. ea_status r = EaInvited \<and> ea_email_normalized r \<noteq> None) t)"

definition grantee_keys :: "emergency_access_row list \<Rightarrow> (string \<times> string option) list" where
  "grantee_keys t = map (\<lambda>r. (ea_grantor_user_id r, ea_grantee_user_id r)) (filter (\<lambda>r. ea_grantee_user_id r \<noteq> None) t)"

definition emergency_unique :: "emergency_access_row list \<Rightarrow> bool" where
  "emergency_unique t \<longleftrightarrow> distinct (map ea_id t) \<and> distinct (invited_keys t) \<and> distinct (grantee_keys t)"

definition emergency_references :: "database \<Rightarrow> bool" where
  "emergency_references db \<longleftrightarrow>
     (\<forall>r \<in> set (emergency_access db). user_exists (ea_grantor_user_id r) db \<and>
        (case ea_grantee_user_id r of None \<Rightarrow> True | Some u \<Rightarrow> user_exists u db))"

text \<open>A statement on the table: SQLite evaluates the CHECKs, then the unique indexes, then the references.\<close>

definition unique_error :: js_error where "unique_error = JsError ''UNIQUE constraint failed''"

definition emergency_stmt :: "database stmt \<Rightarrow> database stmt" where
  "emergency_stmt s db prev =
     (case s db prev of
        Inl e \<Rightarrow> Inl e
      | Inr (db', n) \<Rightarrow>
          if \<not> list_all emergency_check (emergency_access db') then Inl ConstraintError
          else if \<not> emergency_unique (emergency_access db') then Inl unique_error
          else if \<not> emergency_references db' then Inl ConstraintError
          else Inr (db', n))"

section \<open>The repository\<close>

type_synonym audit_entry = "(string \<times> audit_event) option"

definition emergency_audit_stmt :: "string \<Rightarrow> audit_event \<Rightarrow> database stmt" where
  "emergency_audit_stmt row_id e db prev =
     (if prev \<noteq> 1 then Inr (db, 0)
      else if sql_exists (\<lambda>r. ev_id r = row_id) (audit_events db) then Inl unique_error
      else insert_audit_event (audit_row row_id e) db)"

text \<open>The mutation with its audit row; the answer is the row it returned, when it changed exactly one.\<close>

definition run_emergency_mutation :: "database stmt \<Rightarrow> audit_entry \<Rightarrow> string \<Rightarrow> emergency_access_row option repo" where
  "run_emergency_mutation s audit rid =
     with_batch (emergency_stmt s # (case audit of None \<Rightarrow> [] | Some (row_id, e) \<Rightarrow> [emergency_audit_stmt row_id e]))
       (\<lambda>ns db. return_value (if ns ! 0 = 1 then sql_first (\<lambda>r. ea_id r = rid) (emergency_access db) else None) db)"

record invite_input =
  ii_id :: string
  ii_grantor_user_id :: string
  ii_email_normalized :: string
  ii_type :: int
  ii_wait_time_days :: int
  ii_invite_token_hash :: string
  ii_invite_expires_at :: string
  ii_created_at :: string

definition invited_row :: "invite_input \<Rightarrow> emergency_access_row" where
  "invited_row i =
     \<lparr>ea_id = ii_id i, ea_grantor_user_id = ii_grantor_user_id i, ea_grantee_user_id = None,
      ea_email_normalized = Some (ii_email_normalized i), ea_type = ii_type i, ea_status = EaInvited,
      ea_wait_time_days = ii_wait_time_days i, ea_invite_token_hash = Some (ii_invite_token_hash i),
      ea_invite_expires_at = Some (ii_invite_expires_at i), ea_key_encrypted = None, ea_key_generation = None,
      ea_recovery_initiated_at = None, ea_last_notification_at = None, ea_created_at = ii_created_at i,
      ea_revision_date = ii_created_at i, ea_updated_at = ii_created_at i\<rparr>"

definition already_related :: "string \<Rightarrow> string \<Rightarrow> database \<Rightarrow> bool" where
  "already_related grantor email db \<longleftrightarrow>
     sql_exists (\<lambda>r. ea_grantor_user_id r = grantor \<and>
       (ea_email_normalized r = Some email \<or>
        sql_exists (\<lambda>u. ea_grantee_user_id r = Some (u_id u) \<and> u_email_normalized u = email) (users db)))
       (emergency_access db)"

definition insert_invited_emergency_access :: "invite_input \<Rightarrow> audit_entry \<Rightarrow> emergency_access_row option repo" where
  "insert_invited_emergency_access i audit db =
     (case run_emergency_mutation
             (\<lambda>db prev. if already_related (ii_grantor_user_id i) (ii_email_normalized i) db then Inr (db, 0)
                else Inr (emergency_access_update (\<lambda>t. t @ [invited_row i]) db, 1))
             audit (ii_id i) db of
        (db', Inl e) \<Rightarrow> if e = unique_error then (db', Inr None) else (db', Inl e)
      | r \<Rightarrow> r)"

definition update_emergency ::
    "(emergency_access_row \<Rightarrow> bool) \<Rightarrow> (emergency_access_row \<Rightarrow> emergency_access_row) \<Rightarrow> audit_entry \<Rightarrow> string
      \<Rightarrow> emergency_access_row option repo" where
  "update_emergency guard effect audit rid =
     run_emergency_mutation (update_stmt emergency_access emergency_access_update (\<lambda>db prev. guard) effect) audit rid"

definition acceptable :: "string \<Rightarrow> string \<Rightarrow> string \<Rightarrow> string \<Rightarrow> string \<Rightarrow> emergency_access_row \<Rightarrow> bool" where
  "acceptable rid grantee email token_hash now r \<longleftrightarrow>
     ea_id r = rid \<and> ea_status r = EaInvited \<and> ea_email_normalized r = Some email \<and>
     ea_invite_token_hash r = Some token_hash \<and> sql_gt (ea_invite_expires_at r) (Some now) \<and>
     ea_grantor_user_id r \<noteq> grantee"

definition accept_row :: "string \<Rightarrow> string \<Rightarrow> emergency_access_row \<Rightarrow> emergency_access_row" where
  "accept_row grantee now r =
     r\<lparr>ea_status := EaAccepted, ea_grantee_user_id := Some grantee, ea_email_normalized := None,
       ea_invite_token_hash := None, ea_invite_expires_at := None, ea_revision_date := now, ea_updated_at := now\<rparr>"

definition accept_invited_emergency_access ::
    "string \<Rightarrow> string \<Rightarrow> string \<Rightarrow> string \<Rightarrow> string \<Rightarrow> audit_entry \<Rightarrow> emergency_access_row option repo" where
  "accept_invited_emergency_access rid grantee email token_hash now audit =
     update_emergency (acceptable rid grantee email token_hash now) (accept_row grantee now) audit rid"

definition confirmable :: "string \<Rightarrow> string \<Rightarrow> emergency_access_row \<Rightarrow> bool" where
  "confirmable rid grantor r \<longleftrightarrow>
     ea_id r = rid \<and> ea_grantor_user_id r = grantor \<and> ea_status r = EaAccepted \<and> ea_grantee_user_id r \<noteq> None \<and>
     ea_key_encrypted r = None"

definition confirm_row :: "string \<Rightarrow> int \<Rightarrow> string \<Rightarrow> emergency_access_row \<Rightarrow> emergency_access_row" where
  "confirm_row key generation now r =
     r\<lparr>ea_status := EaConfirmed, ea_key_encrypted := Some key, ea_key_generation := Some generation,
       ea_revision_date := now, ea_updated_at := now\<rparr>"

definition confirm_accepted_emergency_access ::
    "string \<Rightarrow> string \<Rightarrow> string \<Rightarrow> int \<Rightarrow> string \<Rightarrow> audit_entry \<Rightarrow> emergency_access_row option repo" where
  "confirm_accepted_emergency_access rid grantor key generation now audit =
     update_emergency (confirmable rid grantor) (confirm_row key generation now) audit rid"

definition reinvitable :: "string \<Rightarrow> string \<Rightarrow> emergency_access_row \<Rightarrow> bool" where
  "reinvitable rid grantor r \<longleftrightarrow> ea_id r = rid \<and> ea_grantor_user_id r = grantor \<and> ea_status r = EaInvited"

definition reinvite_row :: "string \<Rightarrow> string \<Rightarrow> string \<Rightarrow> emergency_access_row \<Rightarrow> emergency_access_row" where
  "reinvite_row token_hash expires_at now r =
     r\<lparr>ea_invite_token_hash := Some token_hash, ea_invite_expires_at := Some expires_at, ea_revision_date := now,
       ea_updated_at := now\<rparr>"

definition reinvite_emergency_access ::
    "string \<Rightarrow> string \<Rightarrow> string \<Rightarrow> string \<Rightarrow> string \<Rightarrow> audit_entry \<Rightarrow> emergency_access_row option repo" where
  "reinvite_emergency_access rid grantor token_hash expires_at now audit =
     update_emergency (reinvitable rid grantor) (reinvite_row token_hash expires_at now) audit rid"

definition updatable :: "string \<Rightarrow> string \<Rightarrow> emergency_access_row \<Rightarrow> bool" where
  "updatable rid grantor r \<longleftrightarrow>
     ea_id r = rid \<and> ea_grantor_user_id r = grantor \<and> ea_status r \<in> {EaInvited, EaAccepted, EaConfirmed} \<and>
     ea_recovery_initiated_at r = None"

definition change_terms_row :: "int \<Rightarrow> int \<Rightarrow> string option \<Rightarrow> string \<Rightarrow> emergency_access_row \<Rightarrow> emergency_access_row" where
  "change_terms_row t days key now r =
     r\<lparr>ea_type := t, ea_wait_time_days := days,
       ea_key_encrypted := (if key \<noteq> None \<and> ea_status r = EaConfirmed then key else ea_key_encrypted r),
       ea_revision_date := now, ea_updated_at := now\<rparr>"

definition update_emergency_access ::
    "string \<Rightarrow> string \<Rightarrow> int \<Rightarrow> int \<Rightarrow> string option \<Rightarrow> string \<Rightarrow> audit_entry \<Rightarrow> emergency_access_row option repo" where
  "update_emergency_access rid grantor t days key now audit =
     update_emergency (updatable rid grantor) (change_terms_row t days key now) audit rid"

datatype contact_role = Grantor | Grantee

definition deletable :: "string \<Rightarrow> string \<Rightarrow> contact_role \<Rightarrow> emergency_access_row \<Rightarrow> bool" where
  "deletable rid actor role r \<longleftrightarrow>
     ea_id r = rid \<and> (case role of Grantor \<Rightarrow> ea_grantor_user_id r = actor | Grantee \<Rightarrow> ea_grantee_user_id r = Some actor)"

definition delete_emergency_access :: "string \<Rightarrow> string \<Rightarrow> contact_role \<Rightarrow> audit_entry \<Rightarrow> bool repo" where
  "delete_emergency_access rid actor role audit =
     with_batch (emergency_stmt (delete_stmt emergency_access emergency_access_update (\<lambda>db prev. deletable rid actor role))
         # (case audit of None \<Rightarrow> [] | Some (row_id, e) \<Rightarrow> [emergency_audit_stmt row_id e]))
       (\<lambda>ns. return_value (ns ! 0 = 1))"

text \<open>The e-mail of a trusted contact is that of the invitation, or else that of the account that accepted it.\<close>

definition contact_email :: "database \<Rightarrow> emergency_access_row \<Rightarrow> string option" where
  "contact_email db r =
     (case ea_email_normalized r of
        Some e \<Rightarrow> Some e
      | None \<Rightarrow> map_option u_email_normalized (sql_first (\<lambda>u. ea_grantee_user_id r = Some (u_id u)) (users db)))"

definition list_trusted_emergency_access :: "string \<Rightarrow> database \<Rightarrow> emergency_access_row list" where
  "list_trusted_emergency_access grantor db =
     map (\<lambda>r. r\<lparr>ea_email_normalized := contact_email db r\<rparr>)
       (sort_key (\<lambda>r. (ea_created_at r, ea_id r)) (filter (\<lambda>r. ea_grantor_user_id r = grantor) (emergency_access db)))"

definition list_granted_emergency_access :: "string \<Rightarrow> database \<Rightarrow> emergency_access_row list" where
  "list_granted_emergency_access grantee db =
     sort_key (\<lambda>r. (ea_created_at r, ea_id r)) (filter (\<lambda>r. ea_grantee_user_id r = Some grantee) (emergency_access db))"

definition find_emergency_access_contact :: "string \<Rightarrow> database \<Rightarrow> emergency_access_row option" where
  "find_emergency_access_contact rid db = sql_first (\<lambda>r. ea_id r = rid) (emergency_access db)"

end
