(* ===== verification/EmergencyTrust.thy ===== *)
theory EmergencyTrust
  imports EmergencyAccess
begin

text \<open>
  The trust operations of \<open>src/emergency-access-trust.ts\<close>: a grantor invites, reinvites, confirms, changes and cancels, a grantee
  accepts or cancels. Each writes its audit row in the same batch as its change; the invitation is delivered after
  the row is stored, and a failed delivery does not undo it.
\<close>

record trust_actor =
  ta_user_id :: string
  ta_email_normalized :: string

record trust_site =
  tr_hmac :: mac
  tr_invite_secret :: string
  tr_now :: string
  tr_request_id :: string
  tr_relationship_id :: string
  tr_audit_row_id :: string
  tr_random_bytes :: "nat list"
  tr_deliver :: "(string \<Rightarrow> string \<Rightarrow> string \<Rightarrow> delivery_outcome option) option"

record contact_view =
  cv_id :: string
  cv_grantor_id :: string
  cv_grantee_id :: "string option"
  cv_email :: "string option"
  cv_type :: int
  cv_status :: emergency_status
  cv_wait_time_days :: int
  cv_creation_date :: string
  cv_revision_date :: string

definition project_emergency_access_contact :: "emergency_access_row \<Rightarrow> contact_view" where
  "project_emergency_access_contact r =
     \<lparr>cv_id = ea_id r, cv_grantor_id = ea_grantor_user_id r, cv_grantee_id = ea_grantee_user_id r,
      cv_email = ea_email_normalized r, cv_type = ea_type r, cv_status = ea_status r,
      cv_wait_time_days = ea_wait_time_days r, cv_creation_date = ea_created_at r,
      cv_revision_date = ea_revision_date r\<rparr>"

text \<open>The answer of an operation; an invitation also says whether its delivery was accepted.\<close>

datatype trust_result =
    TrustContact contact_view
  | TrustInvited contact_view bool
  | TrustDeleted
  | TrustInvalidRequest
  | TrustConflict
  | TrustNotFound

definition emergency_access_audit :: "trust_site \<Rightarrow> string \<Rightarrow> string \<Rightarrow> (string \<times> json) list \<Rightarrow> audit_entry" where
  "emergency_access_audit site name actor context =
     Some (tr_audit_row_id site, build_audit_event
       \<lparr>ai_name = name, ai_outcome = ''success'', ai_actor = Some (Some actor, None),
        ai_target = Some (''emergency_access'', Some (tr_relationship_id site)), ai_context = context\<rparr>
       (tr_request_id site) (tr_now site))"

text \<open>\<open>deliverInviteNotice\<close>: without an adapter the redacting recorder reports delivery; an adapter that throws has failed.\<close>

definition deliver_invite_notice :: "trust_site \<Rightarrow> string \<Rightarrow> string \<Rightarrow> js_error + bool" where
  "deliver_invite_notice site email token =
     and_then (build_emergency_access_email_hash (tr_hmac site) (tr_invite_secret site) email) (\<lambda>hash.
       Inr (classify_emergency_access_delivery
         (case tr_deliver site of
            None \<Rightarrow> Delivered
          | Some deliver \<Rightarrow> (case deliver (tr_relationship_id site) hash token of Some outcome \<Rightarrow> outcome | None \<Rightarrow> DeliveryFailed))))"

definition invite_emergency_access_trust :: "trust_site \<Rightarrow> trust_actor \<Rightarrow> json \<Rightarrow> trust_result repo" where
  "invite_emergency_access_trust site grantor body =
     (case parse_emergency_access_invite_request body (ta_email_normalized grantor) of
        None \<Rightarrow> return_value TrustInvalidRequest
      | Some q \<Rightarrow>
          let token = generate_emergency_access_invite_token (tr_random_bytes site)
          in repo_bind (repo_lift (build_emergency_access_invite_token_hash (tr_hmac site) (tr_invite_secret site)
                 (tr_relationship_id site) (iq_email q) token)) (\<lambda>token_hash.
             repo_bind (repo_lift (emergency_access_invite_expires_at (tr_now site))) (\<lambda>expires_at.
             repo_bind (insert_invited_emergency_access
                 \<lparr>ii_id = tr_relationship_id site, ii_grantor_user_id = ta_user_id grantor, ii_email_normalized = iq_email q,
                  ii_type = iq_type q, ii_wait_time_days = iq_wait_time_days q, ii_invite_token_hash = token_hash,
                  ii_invite_expires_at = expires_at, ii_created_at = tr_now site\<rparr>
                 (emergency_access_audit site ''emergency.invite'' (ta_user_id grantor)
                   [(''toStatus'', jint 0), (''type'', jint (iq_type q)), (''waitTimeDays'', jint (iq_wait_time_days q))]))
               (\<lambda>created. case created of
                  None \<Rightarrow> return_value TrustConflict
                | Some r \<Rightarrow>
                    repo_bind (repo_lift (deliver_invite_notice site (iq_email q) token)) (\<lambda>accepted.
                      return_value (TrustInvited (project_emergency_access_contact r) accepted))))))"

definition find_trusted_contact_email :: "string \<Rightarrow> string \<Rightarrow> database \<Rightarrow> string option" where
  "find_trusted_contact_email rid grantor db =
     Option.bind (find (\<lambda>r. ea_id r = rid) (list_trusted_emergency_access grantor db)) ea_email_normalized"

definition reinvite_emergency_access_trust :: "trust_site \<Rightarrow> trust_actor \<Rightarrow> trust_result repo" where
  "reinvite_emergency_access_trust site grantor =
     (let token = generate_emergency_access_invite_token (tr_random_bytes site)
      in repo_bind (repo_get (find_trusted_contact_email (tr_relationship_id site) (ta_user_id grantor))) (\<lambda>current.
         if \<not> truthy current then return_value TrustNotFound
         else repo_bind (repo_lift (build_emergency_access_invite_token_hash (tr_hmac site) (tr_invite_secret site)
                (tr_relationship_id site) (the current) token)) (\<lambda>token_hash.
              repo_bind (repo_lift (emergency_access_invite_expires_at (tr_now site))) (\<lambda>expires_at.
              repo_bind (reinvite_emergency_access (tr_relationship_id site) (ta_user_id grantor) token_hash expires_at (tr_now site)
                  (emergency_access_audit site ''emergency.reinvite'' (ta_user_id grantor)
                    [(''fromStatus'', jint 0), (''toStatus'', jint 0)]))
                (\<lambda>found. case found of
                   None \<Rightarrow> return_value TrustNotFound
                 | Some r \<Rightarrow>
                     repo_bind (repo_lift (deliver_invite_notice site (the current) token)) (\<lambda>accepted.
                       return_value (TrustInvited (project_emergency_access_contact r) accepted)))))))"

definition contact_or_not_found :: "emergency_access_row option repo \<Rightarrow> trust_result repo" where
  "contact_or_not_found m =
     repo_bind m (\<lambda>found. return_value (case found of
       None \<Rightarrow> TrustNotFound | Some r \<Rightarrow> TrustContact (project_emergency_access_contact r)))"

definition accept_emergency_access_trust :: "trust_site \<Rightarrow> trust_actor \<Rightarrow> json \<Rightarrow> trust_result repo" where
  "accept_emergency_access_trust site grantee body =
     (case parse_emergency_access_accept_request body of
        None \<Rightarrow> return_value TrustInvalidRequest
      | Some token \<Rightarrow>
          repo_bind (repo_lift (build_emergency_access_invite_token_hash (tr_hmac site) (tr_invite_secret site)
              (tr_relationship_id site) (ta_email_normalized grantee) token)) (\<lambda>token_hash.
            contact_or_not_found (accept_invited_emergency_access (tr_relationship_id site) (ta_user_id grantee)
              (ta_email_normalized grantee) token_hash (tr_now site)
              (emergency_access_audit site ''emergency.accept'' (ta_user_id grantee)
                [(''fromStatus'', jint 0), (''toStatus'', jint 1)]))))"

definition confirm_emergency_access_trust :: "trust_site \<Rightarrow> trust_actor \<Rightarrow> json \<Rightarrow> int \<Rightarrow> trust_result repo" where
  "confirm_emergency_access_trust site grantor body key_generation =
     (case parse_emergency_access_confirm_request body of
        None \<Rightarrow> return_value TrustInvalidRequest
      | Some key \<Rightarrow>
          contact_or_not_found (confirm_accepted_emergency_access (tr_relationship_id site) (ta_user_id grantor) key key_generation
            (tr_now site) (emergency_access_audit site ''emergency.confirm'' (ta_user_id grantor)
              [(''fromStatus'', jint 1), (''toStatus'', jint 2)])))"

definition update_emergency_access_trust :: "trust_site \<Rightarrow> trust_actor \<Rightarrow> json \<Rightarrow> trust_result repo" where
  "update_emergency_access_trust site grantor body =
     (case parse_emergency_access_update_request body of
        None \<Rightarrow> return_value TrustInvalidRequest
      | Some q \<Rightarrow>
          contact_or_not_found (update_emergency_access (tr_relationship_id site) (ta_user_id grantor) (uq_type q)
            (uq_wait_time_days q) (uq_key_encrypted q) (tr_now site)
            (emergency_access_audit site ''emergency.update'' (ta_user_id grantor)
              [(''type'', jint (uq_type q)), (''waitTimeDays'', jint (uq_wait_time_days q))])))"

definition role_text :: "contact_role \<Rightarrow> string" where
  "role_text role = (case role of Grantor \<Rightarrow> ''grantor'' | Grantee \<Rightarrow> ''grantee'')"

definition cancel_emergency_access_trust :: "trust_site \<Rightarrow> trust_actor \<Rightarrow> contact_role \<Rightarrow> trust_result repo" where
  "cancel_emergency_access_trust site actor role =
     repo_bind (delete_emergency_access (tr_relationship_id site) (ta_user_id actor) role
         (emergency_access_audit site ''emergency.delete'' (ta_user_id actor) [(''role'', JStr (role_text role))]))
       (\<lambda>deleted. return_value (if deleted then TrustDeleted else TrustNotFound))"

definition list_trusted_emergency_access_contacts :: "string \<Rightarrow> database \<Rightarrow> contact_view list" where
  "list_trusted_emergency_access_contacts grantor db =
     map project_emergency_access_contact (list_trusted_emergency_access grantor db)"

definition list_granted_emergency_access_contacts :: "string \<Rightarrow> database \<Rightarrow> contact_view list" where
  "list_granted_emergency_access_contacts grantee db =
     map project_emergency_access_contact (list_granted_emergency_access grantee db)"

end
