(* ===== verification/EmergencyProofs.thy ===== *)
theory EmergencyProofs
  imports EmergencyTrust GrantProofs
begin

text \<open>
  Emergency access refines its protocol. The protocol, after \<open>docs/protocol/emergency-access-wire-contract.md\<close>, is a step
  relation on a map from relationship ids to contacts; every trust operation either leaves the contacts as they
  are and reports no success, or makes one legal step of its actor, with the terms and the token of the request. A confirmed key
  therefore has a history of successful operations, in order.
\<close>

section \<open>The protocol\<close>

datatype contact_state =
    Invited string string string
  | Accepted string
  | Confirmed string string int
  | Recovering string string int

record contact =
  ct_grantor :: string
  ct_type :: int
  ct_wait :: int
  ct_state :: contact_state

fun grantee_of :: "contact_state \<Rightarrow> string option" where
  "grantee_of (Invited e h x) = None"
| "grantee_of (Accepted u) = Some u"
| "grantee_of (Confirmed u k g) = Some u"
| "grantee_of (Recovering u k g) = Some u"

text \<open>What an actor may do to the relationship \<open>rid\<close>.\<close>

datatype contact_action =
    Invite string int int string string
  | Reinvite string string string
  | Accept string string string
  | Confirm string int
  | ChangeTerms int int "string option"
  | Cancel

text \<open>New terms may replace the key of a confirmed contact.\<close>

fun renewed :: "string option \<Rightarrow> contact_state \<Rightarrow> contact_state" where
  "renewed (Some key) (Confirmed u k g) = Confirmed u key g"
| "renewed key s = s"

inductive contact_step ::
    "string \<Rightarrow> string \<Rightarrow> contact_action \<Rightarrow> (string \<rightharpoonup> contact) \<Rightarrow> (string \<rightharpoonup> contact) \<Rightarrow> bool" where
  invite: "m rid = None \<Longrightarrow> \<forall>c \<in> ran m. ct_grantor c = actor \<longrightarrow> (\<forall>h x. ct_state c \<noteq> Invited email h x) \<Longrightarrow>
     t \<in> {0, 1} \<Longrightarrow> 1 \<le> days \<Longrightarrow> days \<le> 90 \<Longrightarrow>
     contact_step actor rid (Invite email t days hash expires) m
       (m(rid \<mapsto> \<lparr>ct_grantor = actor, ct_type = t, ct_wait = days, ct_state = Invited email hash expires\<rparr>))"
| reinvite: "m rid = Some c \<Longrightarrow> ct_grantor c = actor \<Longrightarrow> ct_state c = Invited email h x \<Longrightarrow>
     contact_step actor rid (Reinvite email hash expires) m (m(rid \<mapsto> c\<lparr>ct_state := Invited email hash expires\<rparr>))"
| accept: "m rid = Some c \<Longrightarrow> ct_grantor c \<noteq> actor \<Longrightarrow> ct_state c = Invited email hash expires \<Longrightarrow> expires > now \<Longrightarrow>
     \<forall>d \<in> ran m. ct_grantor d = ct_grantor c \<longrightarrow> grantee_of (ct_state d) \<noteq> Some actor \<Longrightarrow>
     contact_step actor rid (Accept email hash now) m (m(rid \<mapsto> c\<lparr>ct_state := Accepted actor\<rparr>))"
| confirm: "m rid = Some c \<Longrightarrow> ct_grantor c = actor \<Longrightarrow> ct_state c = Accepted grantee \<Longrightarrow> 1 \<le> generation \<Longrightarrow>
     contact_step actor rid (Confirm key generation) m (m(rid \<mapsto> c\<lparr>ct_state := Confirmed grantee key generation\<rparr>))"
| change_terms: "m rid = Some c \<Longrightarrow> ct_grantor c = actor \<Longrightarrow> \<forall>u k g. ct_state c \<noteq> Recovering u k g \<Longrightarrow>
     t \<in> {0, 1} \<Longrightarrow> 1 \<le> days \<Longrightarrow> days \<le> 90 \<Longrightarrow>
     contact_step actor rid (ChangeTerms t days key) m
       (m(rid \<mapsto> c\<lparr>ct_type := t, ct_wait := days, ct_state := renewed key (ct_state c)\<rparr>))"
| cancel: "m rid = Some c \<Longrightarrow> ct_grantor c = actor \<or> grantee_of (ct_state c) = Some actor \<Longrightarrow>
     contact_step actor rid Cancel m (m(rid := None))"

section \<open>The contacts of a database\<close>

definition state_of :: "emergency_access_row \<Rightarrow> contact_state" where
  "state_of r =
     (case ea_status r of
        EaInvited \<Rightarrow> Invited (the (ea_email_normalized r)) (the (ea_invite_token_hash r)) (the (ea_invite_expires_at r))
      | EaAccepted \<Rightarrow> Accepted (the (ea_grantee_user_id r))
      | EaConfirmed \<Rightarrow> Confirmed (the (ea_grantee_user_id r)) (the (ea_key_encrypted r)) (the (ea_key_generation r))
      | _ \<Rightarrow> Recovering (the (ea_grantee_user_id r)) (the (ea_key_encrypted r)) (the (ea_key_generation r)))"

definition contact_of :: "emergency_access_row \<Rightarrow> contact" where
  "contact_of r = \<lparr>ct_grantor = ea_grantor_user_id r, ct_type = ea_type r, ct_wait = ea_wait_time_days r, ct_state = state_of r\<rparr>"

definition contacts :: "database \<Rightarrow> (string \<rightharpoonup> contact)" where
  "contacts db rid = map_option contact_of (find_emergency_access_contact rid db)"

text \<open>What the schema enforces on the table.\<close>

definition emergency_ok :: "database \<Rightarrow> bool" where
  "emergency_ok db \<longleftrightarrow> list_all emergency_check (emergency_access db) \<and> emergency_unique (emergency_access db) \<and>
     emergency_references db"

lemma contact_of_simps [simp]:
  "ct_grantor (contact_of r) = ea_grantor_user_id r" "ct_type (contact_of r) = ea_type r"
  "ct_wait (contact_of r) = ea_wait_time_days r" "ct_state (contact_of r) = state_of r"
  by (simp_all add: contact_of_def)

lemma first_of_update:
  assumes "\<And>r. key (f r) = key r"
  shows "sql_first (\<lambda>r. key r = k) (sql_update p f t) = map_option (\<lambda>r. if p r then f r else r) (sql_first (\<lambda>r. key r = k) t)"
  using assms by (induction t) (auto simp: sql_first_def sql_update_def)

lemma first_of_delete:
  assumes "distinct (map key t)"
  shows "sql_first (\<lambda>r. key r = k) (sql_delete p t) =
    (case sql_first (\<lambda>r. key r = k) t of Some r \<Rightarrow> if p r then None else Some r | None \<Rightarrow> None)"
  using assms
proof (induction t)
  case (Cons r t)
  show ?case
  proof (cases "key r = k")
    case True
    then have "find (\<lambda>x. key x = k) t = None" "find (\<lambda>x. key x = k) (filter (\<lambda>x. \<not> p x) t) = None"
      using Cons.prems by (auto simp: find_None_iff) (metis image_eqI)+
    with True show ?thesis by (simp add: sql_first_def sql_delete_def)
  next
    case False
    with Cons show ?thesis by (simp add: sql_first_def sql_delete_def)
  qed
qed (simp add: sql_first_def sql_delete_def)

lemma ran_contacts: "emergency_unique (emergency_access db) \<Longrightarrow> ran (contacts db) = contact_of ` set (emergency_access db)"
proof -
  assume u: "emergency_unique (emergency_access db)"
  have "sql_first (\<lambda>s. ea_id s = ea_id r) (emergency_access db) = Some r" if r: "r \<in> set (emergency_access db)" for r
  proof (cases "sql_first (\<lambda>s. ea_id s = ea_id r) (emergency_access db)")
    case None
    with r show ?thesis by (auto simp: sql_first_None)
  next
    case (Some s)
    from sql_first_SomeD [OF Some] r u have "s = r"
      by (auto simp: emergency_unique_def intro: distinct_key_unique)
    with Some show ?thesis by simp
  qed
  then show ?thesis
    by (force simp: ran_def contacts_def find_emergency_access_contact_def dest: sql_first_SomeD)
qed

section \<open>Mutations\<close>

lemma emergency_stmt_Inr:
  "emergency_stmt s db prev = Inr (db', n) \<longleftrightarrow> s db prev = Inr (db', n) \<and> emergency_ok db'"
  by (auto simp: emergency_stmt_def emergency_ok_def split: sum.splits)

lemma audit_keeps_contacts:
  assumes "emergency_audit_stmt row_id e db prev = Inr (db', n)"
  shows "emergency_access db' = emergency_access db" "users db' = users db"
  using assms by (auto simp: emergency_audit_stmt_def insert_audit_event_def split: if_splits)

lemma audit_keeps:
  "emergency_audit_stmt row_id e db prev = Inr (db', n) \<Longrightarrow> emergency_access db' = emergency_access db \<and> users db' = users db"
  using audit_keeps_contacts by blast

lemma same_table:
  assumes "emergency_access db' = emergency_access db" "users db' = users db"
  shows "emergency_ok db' = emergency_ok db" "contacts db' = contacts db"
proof -
  have "user_exists u db' = user_exists u db" for u using assms by (simp add: user_exists_def)
  then show "emergency_ok db' = emergency_ok db" unfolding emergency_ok_def emergency_references_def assms(1) by presburger
  show "contacts db' = contacts db"
    using assms by (simp add: fun_eq_iff contacts_def find_emergency_access_contact_def)
qed

lemma mutation_result:
  assumes "run_emergency_mutation s audit rid db = (db', Inr found)"
  obtains d n where "s db 0 = Inr (d, n)" "emergency_ok d" "emergency_access db' = emergency_access d" "users db' = users d"
    "found = (if n = 1 then find_emergency_access_contact rid db' else None)"
proof (cases audit)
  case None
  with assms show thesis
    using that by (auto simp: run_emergency_mutation_def with_batch_eq batch_def run_stmts_Inr return_value_def emergency_stmt_Inr
        find_emergency_access_contact_def simp del: run_stmts.simps)
next
  case (Some a)
  then obtain row_id e where a: "audit = Some (row_id, e)" by (cases a) simp
  with assms obtain d n k where s: "s db 0 = Inr (d, n)" "emergency_ok d" and audit: "emergency_audit_stmt row_id e d n = Inr (db', k)"
    and found: "found = (if n = 1 then find_emergency_access_contact rid db' else None)"
    by (auto simp: run_emergency_mutation_def with_batch_eq batch_def run_stmts_Inr return_value_def emergency_stmt_Inr
        find_emergency_access_contact_def simp del: run_stmts.simps)
  show thesis by (rule that [OF s audit_keeps_contacts [OF audit] found])
qed

lemma mutation_failed: "run_emergency_mutation s audit rid db = (db', Inl e) \<Longrightarrow> db' = db"
  by (auto simp: run_emergency_mutation_def with_batch_eq return_value_def)

text \<open>A guarded update that succeeded changed one row, and the contact of that row.\<close>

lemma guarded_update:
  assumes "update_emergency guard effect audit rid db = (db', Inr found)" "emergency_ok db"
    and "\<And>r. guard r \<Longrightarrow> ea_id r = rid" "\<And>r. ea_id (effect r) = ea_id r"
  shows "emergency_ok db' \<and> users db' = users db \<and>
    (found = None \<and> contacts db' = contacts db \<or>
     (\<exists>r. find_emergency_access_contact rid db = Some r \<and> guard r \<and> emergency_check r \<and> found = Some (effect r) \<and>
        effect r \<in> set (emergency_access db') \<and> (\<forall>s \<in> set (emergency_access db). ea_id s \<noteq> rid \<longrightarrow> s \<in> set (emergency_access db')) \<and>
        contacts db' = (contacts db)(rid \<mapsto> contact_of (effect r))))"
  using assms(1) unfolding update_emergency_def
proof (rule mutation_result)
  fix d n
  let ?t = "emergency_access db"
  assume s: "update_stmt emergency_access emergency_access_update (\<lambda>db prev. guard) effect db 0 = Inr (d, n)"
    and d: "emergency_ok d" and same: "emergency_access db' = emergency_access d" "users db' = users d"
    and found: "found = (if n = 1 then find_emergency_access_contact rid db' else None)"
  from s have rows: "emergency_access d = sql_update guard effect ?t" "users d = users db" and n: "n = sql_count guard ?t"
    by (auto simp: update_stmt_Inr)
  have ids: "distinct (map ea_id ?t)" using assms(2) by (simp add: emergency_ok_def emergency_unique_def)
  have ok: "emergency_ok db'" using same_table(1) [OF same] d by simp
  have le: "n \<le> 1" unfolding n using sql_count_le_1 [OF ids] assms(3) by blast
  have first: "find_emergency_access_contact j db' = map_option (\<lambda>r. if guard r then effect r else r) (find_emergency_access_contact j db)" for j
    by (simp add: find_emergency_access_contact_def same rows first_of_update [where key = ea_id, OF assms(4)])
  show ?thesis
  proof (cases "n = 1")
    case False
    then have "n = 0" using le by simp
    then have "emergency_access db' = ?t" using same rows n by (simp add: sql_update_none)
    then show ?thesis using ok found False same rows same_table(2) [of db' db] by simp
  next
    case True
    then obtain r where r: "r \<in> set ?t" "guard r" using sql_count_pos [of guard ?t] n by auto
    have f: "find_emergency_access_contact rid db = Some r"
    proof (cases "find_emergency_access_contact rid db")
      case None
      with r assms(3) show ?thesis by (auto simp: find_emergency_access_contact_def sql_first_None)
    next
      case (Some x)
      then show ?thesis
        using sql_first_SomeD [of "\<lambda>r. ea_id r = rid" ?t x] distinct_key_unique [OF ids, of x r] r assms(3)
        by (simp add: find_emergency_access_contact_def)
    qed
    have "contacts db' j = ((contacts db)(rid \<mapsto> contact_of (effect r))) j" for j
    proof (cases "j = rid")
      case False
      then have "\<not> guard x" if "find_emergency_access_contact j db = Some x" for x
        using that assms(3) [of x] by (auto simp: find_emergency_access_contact_def dest: sql_first_SomeD)
      with False show ?thesis
        by (cases "find_emergency_access_contact j db") (auto simp: contacts_def first)
    qed (simp add: contacts_def first f r(2))
    moreover have "emergency_check r" using assms(2) r(1) by (simp add: emergency_ok_def list_all_iff)
    moreover have "effect r \<in> set (emergency_access db')" using r by (simp add: same rows updated_row_in)
    moreover have "s \<in> set (emergency_access db')" if "s \<in> set ?t" "ea_id s \<noteq> rid" for s
      using that assms(3) [of s] by (force simp: same rows set_sql_update)
    ultimately show ?thesis using ok f r found True same rows by (auto simp: first)
  qed
qed

section \<open>Each mutation is a step\<close>

lemma grantee_of_state: "emergency_check r \<Longrightarrow> grantee_of (state_of r) = ea_grantee_user_id r"
  by (auto simp: emergency_check_def state_check_def state_of_def split: emergency_status.splits)

lemma one_row_per_grantee:
  assumes "emergency_unique t" "r \<in> set t" "s \<in> set t" "ea_grantor_user_id r = ea_grantor_user_id s"
    "ea_grantee_user_id r = Some u" "ea_grantee_user_id s = Some u"
  shows "r = s"
  using assms by (auto simp: emergency_unique_def grantee_keys_def distinct_map inj_on_def)

lemma checked_row: "emergency_ok db \<Longrightarrow> r \<in> set (emergency_access db) \<Longrightarrow> emergency_check r"
  by (simp add: emergency_ok_def list_all_iff)

lemma found_contact: "find_emergency_access_contact rid db = Some r \<Longrightarrow> contacts db rid = Some (contact_of r) \<and> r \<in> set (emergency_access db) \<and> ea_id r = rid"
  by (auto simp: contacts_def find_emergency_access_contact_def dest: sql_first_SomeD)

text \<open>The outcome of one operation: nothing happened and no success is reported, or one legal step was made.\<close>

definition refines :: "string \<Rightarrow> string \<Rightarrow> contact_action \<Rightarrow> database \<Rightarrow> database \<Rightarrow> bool \<Rightarrow> bool" where
  "refines actor rid action db db' success \<longleftrightarrow> emergency_ok db' \<and> users db' = users db \<and>
     (if success then contact_step actor rid action (contacts db) (contacts db') else contacts db' = contacts db)"

lemma accept_refines:
  assumes "accept_invited_emergency_access rid grantee email hash now audit db = (db', Inr found)" "emergency_ok db"
  shows "refines grantee rid (Accept email hash now) db db' (found \<noteq> None)"
proof -
  note m = guarded_update [OF assms(1) [unfolded accept_invited_emergency_access_def] assms(2)]
  have "ea_id r = rid" if "acceptable rid grantee email hash now r" for r using that by (simp add: acceptable_def)
  note m = m [OF this]
  have "ea_id (accept_row grantee now r) = ea_id r" for r by (simp add: accept_row_def)
  note m = m [OF _ this]
  show ?thesis
  proof (cases found)
    case None
    with m show ?thesis by (auto simp: refines_def)
  next
    case (Some x)
    with m obtain r where ok: "emergency_ok db'" "users db' = users db" and
      r: "find_emergency_access_contact rid db = Some r" "acceptable rid grantee email hash now r" "emergency_check r"
        "accept_row grantee now r \<in> set (emergency_access db')"
        "\<forall>s \<in> set (emergency_access db). ea_id s \<noteq> rid \<longrightarrow> s \<in> set (emergency_access db')"
        "contacts db' = (contacts db)(rid \<mapsto> contact_of (accept_row grantee now r))"
      by auto
    note f = found_contact [OF r(1)]
    obtain x where x: "ea_invite_expires_at r = Some x" "x > now"
      using r(2) by (auto simp: acceptable_def sql_gt_Some)
    have state: "state_of r = Invited email hash x" "ea_grantee_user_id r = None"
      using r(2,3) x by (auto simp: acceptable_def state_of_def emergency_check_def state_check_def)
    have eff: "contact_of (accept_row grantee now r) = (contact_of r)\<lparr>ct_state := Accepted grantee\<rparr>"
      by (simp add: contact_of_def accept_row_def state_of_def)
    have "grantee_of (ct_state d) \<noteq> Some grantee" if d: "d \<in> ran (contacts db)" "ct_grantor d = ea_grantor_user_id r" for d
    proof
      assume g: "grantee_of (ct_state d) = Some grantee"
      obtain s where s: "s \<in> set (emergency_access db)" "d = contact_of s"
        using d(1) ran_contacts assms(2) by (auto simp: emergency_ok_def)
      have sg: "ea_grantee_user_id s = Some grantee" using g s grantee_of_state [OF checked_row [OF assms(2) s(1)]] by simp
      have "ea_id s \<noteq> rid"
      proof
        assume "ea_id s = rid"
        then have "s = r" using assms(2) s(1) f distinct_key_unique [of ea_id "emergency_access db" s r]
          by (simp add: emergency_ok_def emergency_unique_def)
        with sg state show False by simp
      qed
      then have "s \<in> set (emergency_access db')" using r(5) s(1) by blast
      then have "s = accept_row grantee now r"
        using one_row_per_grantee [of "emergency_access db'" s "accept_row grantee now r" grantee] ok(1) r(4) sg d(2) s(2)
        by (simp add: emergency_ok_def accept_row_def)
      then show False using \<open>ea_id s \<noteq> rid\<close> f by (simp add: accept_row_def)
    qed
    then have "contact_step grantee rid (Accept email hash now) (contacts db) ((contacts db)(rid \<mapsto> (contact_of r)\<lparr>ct_state := Accepted grantee\<rparr>))"
      using f state(1) r(2) x(2) by (intro contact_step.accept) (auto simp: acceptable_def)
    with Some ok r(6) eff show ?thesis by (simp add: refines_def)
  qed
qed

lemma update_refines:
  assumes "update_emergency guard effect audit rid db = (db', Inr found)" "emergency_ok db"
    and "\<And>r. guard r \<Longrightarrow> ea_id r = rid" "\<And>r. ea_id (effect r) = ea_id r"
    and step: "\<And>r. find_emergency_access_contact rid db = Some r \<Longrightarrow> contacts db rid = Some (contact_of r) \<Longrightarrow> guard r \<Longrightarrow> emergency_check r \<Longrightarrow> emergency_check (effect r) \<Longrightarrow>
      contact_step actor rid action (contacts db) ((contacts db)(rid \<mapsto> contact_of (effect r)))"
  shows "refines actor rid action db db' (found \<noteq> None)"
proof -
  note m = guarded_update [OF assms(1-4)]
  show ?thesis
  proof (cases found)
    case None
    with m show ?thesis by (auto simp: refines_def)
  next
    case (Some x)
    with m obtain r where r: "find_emergency_access_contact rid db = Some r" "guard r" "emergency_check r"
      "effect r \<in> set (emergency_access db')" "contacts db' = (contacts db)(rid \<mapsto> contact_of (effect r))"
      and ok: "emergency_ok db'" "users db' = users db" by auto
    with found_contact [OF r(1)] step [of r] checked_row [OF ok(1) r(4)] Some show ?thesis by (simp add: refines_def)
  qed
qed

lemma confirm_refines:
  assumes "confirm_accepted_emergency_access rid grantor key generation now audit db = (db', Inr found)" "emergency_ok db"
  shows "refines grantor rid (Confirm key generation) db db' (found \<noteq> None)"
proof (rule update_refines [OF assms(1) [unfolded confirm_accepted_emergency_access_def] assms(2)])
  fix r
  assume r: "contacts db rid = Some (contact_of r)" "confirmable rid grantor r" "emergency_check r"
    "emergency_check (confirm_row key generation now r)"
  have "contact_of (confirm_row key generation now r) = (contact_of r)\<lparr>ct_state := Confirmed (the (ea_grantee_user_id r)) key generation\<rparr>"
    by (simp add: contact_of_def confirm_row_def state_of_def)
  moreover have "ct_state (contact_of r) = Accepted (the (ea_grantee_user_id r))" "ct_grantor (contact_of r) = grantor"
    using r(2) by (simp_all add: confirmable_def state_of_def)
  moreover have "1 \<le> generation" using r(4) by (simp add: emergency_check_def confirm_row_def)
  ultimately show "contact_step grantor rid (Confirm key generation) (contacts db)
      ((contacts db)(rid \<mapsto> contact_of (confirm_row key generation now r)))"
    using contact_step.confirm [of "contacts db" rid "contact_of r"] r(1) by simp
qed (simp_all add: confirmable_def confirm_row_def)

text \<open>The e-mail that a reinvitation is made for is that of the invited row.\<close>

lemma trusted_email:
  assumes "find_emergency_access_contact rid db = Some r" "reinvitable rid grantor r" "emergency_ok db"
  shows "find_trusted_contact_email rid grantor db = ea_email_normalized r"
proof -
  note r = found_contact [OF assms(1)]
  let ?f = "\<lambda>r. r\<lparr>ea_email_normalized := contact_email db r\<rparr>"
  have check: "emergency_check r" using checked_row [OF assms(3)] r by blast
  then have "?f r = r" using assms(2)
    by (auto simp: reinvitable_def contact_email_def emergency_check_def state_check_def)
  moreover have "r \<in> set (filter (\<lambda>r. ea_grantor_user_id r = grantor) (emergency_access db))" using r assms(2) by (simp add: reinvitable_def)
  ultimately have mem: "r \<in> set (list_trusted_emergency_access grantor db)" unfolding list_trusted_emergency_access_def by force
  have same: "x = r" if "x \<in> set (list_trusted_emergency_access grantor db)" "ea_id x = rid" for x
  proof -
    from that obtain y where y: "y \<in> set (emergency_access db)" "x = ?f y" by (auto simp: list_trusted_emergency_access_def)
    then have "y = r" using that(2) r assms(3) distinct_key_unique [of ea_id "emergency_access db" y r]
      by (simp add: emergency_ok_def emergency_unique_def)
    with y \<open>?f r = r\<close> show ?thesis by simp
  qed
  show ?thesis
  proof (cases "find (\<lambda>x. ea_id x = rid) (list_trusted_emergency_access grantor db)")
    case None
    with mem r show ?thesis by (auto simp: find_None_iff)
  next
    case (Some x)
    then have "x \<in> set (list_trusted_emergency_access grantor db)" "ea_id x = rid" by (auto simp: find_Some_iff)
    then have "x = r" by (rule same)
    with Some show ?thesis by (simp add: find_trusted_contact_email_def)
  qed
qed

lemma reinvite_refines:
  assumes "reinvite_emergency_access rid grantor hash expires now audit db = (db', Inr found)" "emergency_ok db"
    and "find_trusted_contact_email rid grantor db = Some email"
  shows "refines grantor rid (Reinvite email hash expires) db db' (found \<noteq> None)"
proof (rule update_refines [OF assms(1) [unfolded reinvite_emergency_access_def] assms(2)])
  fix r
  assume f: "find_emergency_access_contact rid db = Some r" and r: "contacts db rid = Some (contact_of r)" "reinvitable rid grantor r"
  have email: "ea_email_normalized r = Some email" using trusted_email [OF f r(2) assms(2)] assms(3) by simp
  then have "contact_of (reinvite_row hash expires now r) = (contact_of r)\<lparr>ct_state := Invited email hash expires\<rparr>"
    using r(2) by (simp add: contact_of_def reinvite_row_def reinvitable_def state_of_def)
  moreover have "ct_grantor (contact_of r) = grantor" "\<exists>h x. ct_state (contact_of r) = Invited email h x"
    using r(2) email by (simp_all add: reinvitable_def state_of_def)
  ultimately show "contact_step grantor rid (Reinvite email hash expires) (contacts db)
      ((contacts db)(rid \<mapsto> contact_of (reinvite_row hash expires now r)))"
    using contact_step.reinvite [of "contacts db" rid "contact_of r"] r(1) by auto
qed (simp_all add: reinvitable_def reinvite_row_def)

lemma change_terms_refines:
  assumes "update_emergency_access rid grantor t days key now audit db = (db', Inr found)" "emergency_ok db"
  shows "refines grantor rid (ChangeTerms t days key) db db' (found \<noteq> None)"
proof (rule update_refines [OF assms(1) [unfolded update_emergency_access_def] assms(2)])
  fix r
  let ?r = "change_terms_row t days key now r"
  assume r: "contacts db rid = Some (contact_of r)" "updatable rid grantor r" "emergency_check r" "emergency_check ?r"
  have "state_of ?r = renewed key (state_of r)"
    using r(2) by (cases key) (auto simp: change_terms_row_def state_of_def updatable_def)
  then have "contact_of ?r = (contact_of r)\<lparr>ct_type := t, ct_wait := days, ct_state := renewed key (ct_state (contact_of r))\<rparr>"
    by (simp add: contact_of_def change_terms_row_def)
  moreover have "ct_grantor (contact_of r) = grantor" "\<forall>u k g. ct_state (contact_of r) \<noteq> Recovering u k g"
    using r(2) by (auto simp: updatable_def state_of_def)
  moreover have "t \<in> {0, 1}" "1 \<le> days" "days \<le> 90" using r(4) by (auto simp: emergency_check_def change_terms_row_def)
  ultimately show "contact_step grantor rid (ChangeTerms t days key) (contacts db) ((contacts db)(rid \<mapsto> contact_of ?r))"
    using contact_step.change_terms [of "contacts db" rid "contact_of r" grantor t days key] r(1) by simp
qed (simp_all add: updatable_def change_terms_row_def)

lemma delete_refines:
  assumes "delete_emergency_access rid actor role audit db = (db', Inr deleted)" "emergency_ok db"
  shows "refines actor rid Cancel db db' deleted"
proof -
  let ?p = "deletable rid actor role" and ?t = "emergency_access db"
  have ids: "distinct (map ea_id ?t)" using assms(2) by (simp add: emergency_ok_def emergency_unique_def)
  from assms(1) obtain d n where s: "delete_stmt emergency_access emergency_access_update (\<lambda>db prev. ?p) db 0 = Inr (d, n)" "emergency_ok d"
    and same: "emergency_access db' = emergency_access d" "users db' = users d" and deleted: "deleted = (n = 1)"
    unfolding delete_emergency_access_def
    by (cases audit)
      (auto simp: with_batch_eq batch_def run_stmts_Inr return_value_def emergency_stmt_Inr simp del: run_stmts.simps
        dest!: audit_keeps split: prod.splits)
  then have rows: "emergency_access db' = sql_delete ?p ?t" "users db' = users db" and n: "n = sql_count ?p ?t"
    by (auto simp: delete_stmt_Inr)
  have ok: "emergency_ok db'" using same_table(1) [OF same] s(2) by simp
  have le: "n \<le> 1" unfolding n using sql_count_le_1 [OF ids, of ?p rid] by (simp add: deletable_def)
  show ?thesis
  proof (cases "n = 1")
    case False
    then have "sql_count ?p ?t = 0" using le n by simp
    then have "sql_delete ?p ?t = ?t" by (auto simp: sql_count_0 sql_delete_def)
    then show ?thesis using False rows ok deleted same_table(2) [of db' db] by (simp add: refines_def)
  next
    case True
    then obtain r where r: "r \<in> set ?t" "?p r" using sql_count_pos [of ?p ?t] n by auto
    have first: "find_emergency_access_contact j db' = (case find_emergency_access_contact j db of
        Some r \<Rightarrow> if ?p r then None else Some r | None \<Rightarrow> None)" for j
      by (simp add: find_emergency_access_contact_def rows first_of_delete [OF ids])
    have "contacts db' j = ((contacts db)(rid := None)) j" for j
    proof (cases "j = rid")
      case False
      then have "\<not> ?p x" if "find_emergency_access_contact j db = Some x" for x
        using that by (auto simp: find_emergency_access_contact_def deletable_def dest: sql_first_SomeD)
      with False show ?thesis by (auto simp: contacts_def first split: option.splits)
    next
      case True
      have "x = r" if "find_emergency_access_contact rid db = Some x" for x
        using found_contact [OF that] r distinct_key_unique [OF ids, of x r] by (simp add: deletable_def)
      then show ?thesis using True r(2) by (auto simp: contacts_def first split: option.splits)
    qed
    then have "contacts db' = (contacts db)(rid := None)" by blast
    moreover have "contacts db rid = Some (contact_of r)"
    proof (cases "find_emergency_access_contact rid db")
      case None
      with r show ?thesis by (auto simp: find_emergency_access_contact_def sql_first_None deletable_def)
    next
      case (Some x)
      then show ?thesis
        using found_contact [OF Some] r distinct_key_unique [OF ids, of x r] by (simp add: deletable_def)
    qed
    moreover have "ct_grantor (contact_of r) = actor \<or> grantee_of (ct_state (contact_of r)) = Some actor"
      using r grantee_of_state [OF checked_row [OF assms(2) r(1)]] by (auto simp: deletable_def split: contact_role.splits)
    ultimately show ?thesis
      using True rows ok deleted contact_step.cancel [of "contacts db" rid "contact_of r" actor] by (simp add: refines_def)
  qed
qed

lemma invite_refines:
  assumes "insert_invited_emergency_access i audit db = (db', Inr found)" "emergency_ok db"
  shows "refines (ii_grantor_user_id i) (ii_id i) (Invite (ii_email_normalized i) (ii_type i) (ii_wait_time_days i)
    (ii_invite_token_hash i) (ii_invite_expires_at i)) db db' (found \<noteq> None)"
proof -
  let ?s = "\<lambda>db prev. if already_related (ii_grantor_user_id i) (ii_email_normalized i) db then Inr (db, 0 :: nat)
                else Inr (emergency_access_update (\<lambda>t. t @ [invited_row i]) db, 1)"
  show ?thesis
  proof (cases "run_emergency_mutation ?s audit (ii_id i) db")
    case (Pair d result)
    show ?thesis
    proof (cases result)
      case (Inl e)
      with Pair assms(1) have "found = None" "db' = d" by (auto simp: insert_invited_emergency_access_def split: if_splits)
      moreover have "d = db" using mutation_failed Pair Inl by blast
      ultimately show ?thesis using assms(2) by (simp add: refines_def)
    next
      case (Inr x)
      with Pair assms(1) have m: "run_emergency_mutation ?s audit (ii_id i) db = (db', Inr found)"
        by (simp add: insert_invited_emergency_access_def)
      from m show ?thesis
      proof (rule mutation_result)
        fix d n
        assume s: "?s db 0 = Inr (d, n)" and ok: "emergency_ok d"
          and same: "emergency_access db' = emergency_access d" "users db' = users d"
          and found: "found = (if n = 1 then find_emergency_access_contact (ii_id i) db' else None)"
        show ?thesis
        proof (cases "already_related (ii_grantor_user_id i) (ii_email_normalized i) db")
          case True
          then show ?thesis using s ok found same same_table [of db' db] by (auto simp: refines_def)
        next
          case False
          then have d: "emergency_access d = emergency_access db @ [invited_row i]" "users d = users db" "n = 1" using s by auto
          have "distinct (map ea_id (emergency_access d))" using ok by (simp add: emergency_ok_def emergency_unique_def)
          then have "ii_id i \<notin> ea_id ` set (emergency_access db)" by (simp add: d(1) invited_row_def)
          then have "\<forall>r \<in> set (emergency_access db). ea_id r \<noteq> ii_id i" by (metis image_eqI)
          then have none: "find_emergency_access_contact (ii_id i) db = None"
            by (auto simp: find_emergency_access_contact_def sql_first_None)
          have row: "invited_row i \<in> set (emergency_access d)" using d(1) by simp
          have "find_emergency_access_contact j db' = (if j = ii_id i then Some (invited_row i) else find_emergency_access_contact j db)" for j
            using none by (auto simp: find_emergency_access_contact_def same d sql_first_append invited_row_def split: option.split)
          then have "contacts db' = (contacts db)(ii_id i \<mapsto> contact_of (invited_row i))"
            and "found = Some (invited_row i)"
            using found d(3) by (auto simp: contacts_def fun_eq_iff)
          moreover have "contact_of (invited_row i) = \<lparr>ct_grantor = ii_grantor_user_id i, ct_type = ii_type i, ct_wait = ii_wait_time_days i,
              ct_state = Invited (ii_email_normalized i) (ii_invite_token_hash i) (ii_invite_expires_at i)\<rparr>"
            by (simp add: contact_of_def invited_row_def state_of_def)
          moreover have "contacts db (ii_id i) = None" using none by (simp add: contacts_def)
          moreover have "ct_state c \<noteq> Invited (ii_email_normalized i) h x" if c: "c \<in> ran (contacts db)" "ct_grantor c = ii_grantor_user_id i" for c h x
          proof
            assume st: "ct_state c = Invited (ii_email_normalized i) h x"
            obtain r where r: "r \<in> set (emergency_access db)" "c = contact_of r"
              using c(1) ran_contacts assms(2) by (auto simp: emergency_ok_def)
            then have "ea_email_normalized r = Some (ii_email_normalized i)"
              using st checked_row [OF assms(2) r(1)]
              by (auto simp: state_of_def emergency_check_def state_check_def split: emergency_status.splits)
            then show False using False r c(2) by (auto simp: already_related_def sql_exists_iff)
          qed
          moreover have "emergency_check (invited_row i)" by (rule checked_row [OF ok row])
          then have "ii_type i \<in> {0, 1}" "1 \<le> ii_wait_time_days i" "ii_wait_time_days i \<le> 90"
            by (simp_all add: emergency_check_def invited_row_def)
          ultimately show ?thesis
            using ok d(2) same same_table(1) [OF same]
            by (simp add: refines_def) (intro contact_step.invite, auto)
        qed
      qed
    qed
  qed
qed

section \<open>The trust operations refine the protocol\<close>

datatype trust_op = DoInvite json | DoReinvite | DoAccept json | DoConfirm json int | DoUpdate json | DoCancel contact_role

fun trust_exec :: "trust_op \<Rightarrow> trust_site \<Rightarrow> trust_actor \<Rightarrow> trust_result repo" where
  "trust_exec (DoInvite body) site actor = invite_emergency_access_trust site actor body"
| "trust_exec DoReinvite site actor = reinvite_emergency_access_trust site actor"
| "trust_exec (DoAccept body) site actor = accept_emergency_access_trust site actor body"
| "trust_exec (DoConfirm body generation) site actor = confirm_emergency_access_trust site actor body generation"
| "trust_exec (DoUpdate body) site actor = update_emergency_access_trust site actor body"
| "trust_exec (DoCancel role) site actor = cancel_emergency_access_trust site actor role"

definition invite_hash :: "trust_site \<Rightarrow> string \<Rightarrow> string \<Rightarrow> js_error + string" where
  "invite_hash site email token =
     build_emergency_access_invite_token_hash (tr_hmac site) (tr_invite_secret site) (tr_relationship_id site) email token"

text \<open>An invitation of an e-mail: the hash of the token drawn for it and the end of its life.\<close>

definition issues :: "trust_site \<Rightarrow> string \<Rightarrow> string \<Rightarrow> string \<Rightarrow> bool" where
  "issues site email h x \<longleftrightarrow>
     invite_hash site email (generate_emergency_access_invite_token (tr_random_bytes site)) = Inr h \<and>
     emergency_access_invite_expires_at (tr_now site) = Inr x"

text \<open>The step that a request asks for, if it is well formed.\<close>

fun asks_for :: "trust_op \<Rightarrow> trust_site \<Rightarrow> trust_actor \<Rightarrow> contact_action \<Rightarrow> bool" where
  "asks_for (DoInvite body) site actor a \<longleftrightarrow>
     (\<exists>q h x. parse_emergency_access_invite_request body (ta_email_normalized actor) = Some q \<and> issues site (iq_email q) h x \<and>
        a = Invite (iq_email q) (iq_type q) (iq_wait_time_days q) h x)"
| "asks_for DoReinvite site actor a \<longleftrightarrow> (\<exists>email h x. issues site email h x \<and> a = Reinvite email h x)"
| "asks_for (DoAccept body) site actor a \<longleftrightarrow>
     (\<exists>token h. parse_emergency_access_accept_request body = Some token \<and>
        invite_hash site (ta_email_normalized actor) token = Inr h \<and> a = Accept (ta_email_normalized actor) h (tr_now site))"
| "asks_for (DoConfirm body generation) site actor a \<longleftrightarrow>
     (\<exists>key. parse_emergency_access_confirm_request body = Some key \<and> a = Confirm key generation)"
| "asks_for (DoUpdate body) site actor a \<longleftrightarrow>
     (\<exists>q. parse_emergency_access_update_request body = Some q \<and>
        a = ChangeTerms (uq_type q) (uq_wait_time_days q) (uq_key_encrypted q))"
| "asks_for (DoCancel role) site actor a \<longleftrightarrow> a = Cancel"

fun succeeded :: "js_error + trust_result \<Rightarrow> bool" where
  "succeeded (Inr (TrustContact v)) \<longleftrightarrow> True"
| "succeeded (Inr (TrustInvited v b)) \<longleftrightarrow> True"
| "succeeded (Inr TrustDeleted) \<longleftrightarrow> True"
| "succeeded _ \<longleftrightarrow> False"

definition legal_outcome :: "trust_op \<Rightarrow> trust_site \<Rightarrow> trust_actor \<Rightarrow> database \<Rightarrow> database \<Rightarrow> js_error + trust_result \<Rightarrow> bool" where
  "legal_outcome op site actor db db' r \<longleftrightarrow> emergency_ok db' \<and> users db' = users db \<and>
     (if succeeded r
      then \<exists>a. asks_for op site actor a \<and> contact_step (ta_user_id actor) (tr_relationship_id site) a (contacts db) (contacts db')
      else contacts db' = contacts db)"

lemma legal_refusal: "emergency_ok db \<Longrightarrow> \<not> succeeded r \<Longrightarrow> legal_outcome op site actor db db r"
  by (simp add: legal_outcome_def)

lemma legal_refines:
  "refines (ta_user_id actor) (tr_relationship_id site) a db db' (succeeded r) \<Longrightarrow> asks_for op site actor a \<Longrightarrow>
     legal_outcome op site actor db db' r"
  by (auto simp: legal_outcome_def refines_def)

lemma repo_bind_cases:
  assumes "repo_bind m k db = (db', r)"
  obtains (failed) e where "m db = (db', Inl e)" "r = Inl e" | (went_on) d x where "m db = (d, Inr x)" "k x d = (db', r)"
  using assms by (auto simp: repo_bind_def split: prod.splits sum.splits)

lemma lift_cases:
  assumes "repo_bind (repo_lift m) k db = (db', r)"
  obtains (failed) e where "m = Inl e" "db' = db" "r = Inl e" | (went_on) x where "m = Inr x" "k x db = (db', r)"
  using assms by (auto simp: repo_bind_def repo_lift_def split: sum.splits)

text \<open>A batch that fails leaves the database, whatever the mutation.\<close>

lemma failed_update: "update_emergency guard effect audit rid db = (db', Inl e) \<Longrightarrow> db' = db"
  unfolding update_emergency_def by (rule mutation_failed)

lemma mutations_failed:
  "accept_invited_emergency_access rid u email h now audit db = (db', Inl e) \<Longrightarrow> db' = db"
  "confirm_accepted_emergency_access rid u key generation now audit db = (db', Inl e) \<Longrightarrow> db' = db"
  "reinvite_emergency_access rid u h x now audit db = (db', Inl e) \<Longrightarrow> db' = db"
  "update_emergency_access rid u t days k now audit db = (db', Inl e) \<Longrightarrow> db' = db"
  by (simp_all add: accept_invited_emergency_access_def confirm_accepted_emergency_access_def reinvite_emergency_access_def
      update_emergency_access_def failed_update)

lemma contact_or_not_found_legal:
  assumes "contact_or_not_found m db = (db', r)" "emergency_ok db" "asks_for op site actor a"
    and "\<And>d e. m db = (d, Inl e) \<Longrightarrow> d = db"
    and "\<And>d found. m db = (d, Inr found) \<Longrightarrow> refines (ta_user_id actor) (tr_relationship_id site) a db d (found \<noteq> None)"
  shows "legal_outcome op site actor db db' r"
  using assms(1) unfolding contact_or_not_found_def
proof (cases rule: repo_bind_cases)
  case (failed e)
  with assms(2,4) show ?thesis by (auto intro: legal_refusal)
next
  case (went_on d found)
  then have "db' = d" "succeeded r \<longleftrightarrow> found \<noteq> None" by (auto simp: return_value_def split: option.splits)
  with assms(5) [OF went_on(1)] assms(3) show ?thesis by (auto intro: legal_refines)
qed

lemma delivery_reported:
  assumes "invite_hash site email token = Inr h"
  shows "\<exists>b. deliver_invite_notice site email token = Inr b"
  using assms by (auto simp: invite_hash_def build_emergency_access_invite_token_hash_def build_invite_verifier_def
      deliver_invite_notice_def build_emergency_access_email_hash_def split: if_splits)

lemma invitation_legal:
  assumes "repo_bind m (\<lambda>found. case found of None \<Rightarrow> return_value refused
      | Some r \<Rightarrow> repo_bind (repo_lift (deliver_invite_notice site email token)) (\<lambda>accepted.
          return_value (TrustInvited (project_emergency_access_contact r) accepted))) db = (db', r)"
    and "emergency_ok db" "asks_for op site actor a" "invite_hash site email token = Inr h" "\<not> succeeded (Inr refused)"
    and "\<And>d e. m db = (d, Inl e) \<Longrightarrow> d = db"
    and "\<And>d found. m db = (d, Inr found) \<Longrightarrow> refines (ta_user_id actor) (tr_relationship_id site) a db d (found \<noteq> None)"
  shows "legal_outcome op site actor db db' r"
  using assms(1)
proof (cases rule: repo_bind_cases)
  case (failed e)
  with assms(2,6) show ?thesis by (auto intro: legal_refusal)
next
  case (went_on d found)
  obtain b where "deliver_invite_notice site email token = Inr b" using delivery_reported [OF assms(4)] by blast
  with went_on(2) assms(5) have "db' = d" "succeeded r \<longleftrightarrow> found \<noteq> None"
    by (auto simp: return_value_def repo_bind_def repo_lift_def split: option.splits)
  with assms(7) [OF went_on(1)] assms(3) show ?thesis by (auto intro: legal_refines)
qed

lemma insert_failed: "insert_invited_emergency_access i audit db = (db', Inl e) \<Longrightarrow> db' = db"
  by (auto simp: insert_invited_emergency_access_def split: prod.splits sum.splits if_splits dest: mutation_failed)

lemma invite_legal:
  assumes "invite_emergency_access_trust site actor body db = (db', r)" "emergency_ok db"
  shows "legal_outcome (DoInvite body) site actor db db' r"
proof (cases "parse_emergency_access_invite_request body (ta_email_normalized actor)")
  case None
  with assms show ?thesis by (auto simp: invite_emergency_access_trust_def return_value_def intro: legal_refusal)
next
  case (Some q)
  let ?token = "generate_emergency_access_invite_token (tr_random_bytes site)"
  from assms(1) Some obtain k where first: "repo_bind (repo_lift (invite_hash site (iq_email q) ?token)) k db = (db', r)"
    and k: "k = (\<lambda>token_hash. repo_bind (repo_lift (emergency_access_invite_expires_at (tr_now site))) (\<lambda>expires_at.
             repo_bind (insert_invited_emergency_access
                 \<lparr>ii_id = tr_relationship_id site, ii_grantor_user_id = ta_user_id actor, ii_email_normalized = iq_email q,
                  ii_type = iq_type q, ii_wait_time_days = iq_wait_time_days q, ii_invite_token_hash = token_hash,
                  ii_invite_expires_at = expires_at, ii_created_at = tr_now site\<rparr>
                 (emergency_access_audit site ''emergency.invite'' (ta_user_id actor)
                   [(''toStatus'', jint 0), (''type'', jint (iq_type q)), (''waitTimeDays'', jint (iq_wait_time_days q))]))
               (\<lambda>created. case created of
                  None \<Rightarrow> return_value TrustConflict
                | Some r \<Rightarrow>
                    repo_bind (repo_lift (deliver_invite_notice site (iq_email q) ?token)) (\<lambda>accepted.
                      return_value (TrustInvited (project_emergency_access_contact r) accepted)))))"
    by (simp add: invite_emergency_access_trust_def invite_hash_def Let_def)
  from first show ?thesis
  proof (cases rule: lift_cases)
    case (failed e)
    with assms(2) show ?thesis by (auto intro: legal_refusal)
  next
    case (went_on h)
    from went_on(2) show ?thesis
      unfolding k
    proof (cases rule: lift_cases)
      case (failed e)
      with assms(2) show ?thesis by (auto intro: legal_refusal)
    next
      case second: (went_on x)
      have asks: "asks_for (DoInvite body) site actor (Invite (iq_email q) (iq_type q) (iq_wait_time_days q) h x)"
        using Some went_on(1) second(1) by (simp add: issues_def)
      show ?thesis
        using second(2) assms(2) asks went_on(1)
      proof (rule invitation_legal)
        fix d found
        assume "insert_invited_emergency_access \<lparr>ii_id = tr_relationship_id site, ii_grantor_user_id = ta_user_id actor,
            ii_email_normalized = iq_email q, ii_type = iq_type q, ii_wait_time_days = iq_wait_time_days q,
            ii_invite_token_hash = h, ii_invite_expires_at = x, ii_created_at = tr_now site\<rparr>
            (emergency_access_audit site ''emergency.invite'' (ta_user_id actor)
              [(''toStatus'', jint 0), (''type'', jint (iq_type q)), (''waitTimeDays'', jint (iq_wait_time_days q))]) db = (d, Inr found)"
        from invite_refines [OF this assms(2)]
        show "refines (ta_user_id actor) (tr_relationship_id site) (Invite (iq_email q) (iq_type q) (iq_wait_time_days q) h x) db d
          (found \<noteq> None)" by simp
      qed (simp_all add: insert_failed)
    qed
  qed
qed

lemma reinvite_legal:
  assumes "reinvite_emergency_access_trust site actor db = (db', r)" "emergency_ok db"
  shows "legal_outcome DoReinvite site actor db db' r"
proof (cases "truthy (find_trusted_contact_email (tr_relationship_id site) (ta_user_id actor) db)")
  case False
  with assms show ?thesis
    by (auto simp: reinvite_emergency_access_trust_def Let_def repo_bind_def repo_get_def return_value_def intro: legal_refusal)
next
  case True
  let ?email = "the (find_trusted_contact_email (tr_relationship_id site) (ta_user_id actor) db)"
  let ?token = "generate_emergency_access_invite_token (tr_random_bytes site)"
  from assms(1) True obtain k where first: "repo_bind (repo_lift (invite_hash site ?email ?token)) k db = (db', r)"
    and k: "k = (\<lambda>token_hash. repo_bind (repo_lift (emergency_access_invite_expires_at (tr_now site))) (\<lambda>expires_at.
              repo_bind (reinvite_emergency_access (tr_relationship_id site) (ta_user_id actor) token_hash expires_at (tr_now site)
                  (emergency_access_audit site ''emergency.reinvite'' (ta_user_id actor)
                    [(''fromStatus'', jint 0), (''toStatus'', jint 0)]))
                (\<lambda>found. case found of
                   None \<Rightarrow> return_value TrustNotFound
                 | Some r \<Rightarrow>
                     repo_bind (repo_lift (deliver_invite_notice site ?email ?token)) (\<lambda>accepted.
                       return_value (TrustInvited (project_emergency_access_contact r) accepted)))))"
    by (simp add: reinvite_emergency_access_trust_def invite_hash_def Let_def repo_bind_def [of "repo_get f" for f] repo_get_def)
  from first show ?thesis
  proof (cases rule: lift_cases)
    case (failed e)
    with assms(2) show ?thesis by (auto intro: legal_refusal)
  next
    case (went_on h)
    from went_on(2) show ?thesis
      unfolding k
    proof (cases rule: lift_cases)
      case (failed e)
      with assms(2) show ?thesis by (auto intro: legal_refusal)
    next
      case second: (went_on x)
      have asks: "asks_for DoReinvite site actor (Reinvite ?email h x)" using went_on(1) second(1) by (auto simp: issues_def)
      have email: "find_trusted_contact_email (tr_relationship_id site) (ta_user_id actor) db = Some ?email"
        using True by (cases "find_trusted_contact_email (tr_relationship_id site) (ta_user_id actor) db") auto
      show ?thesis
        using second(2) assms(2) asks went_on(1)
        by (rule invitation_legal) (simp, erule mutations_failed, erule reinvite_refines [OF _ assms(2) email])
    qed
  qed
qed

lemma accept_legal:
  assumes "accept_emergency_access_trust site actor body db = (db', r)" "emergency_ok db"
  shows "legal_outcome (DoAccept body) site actor db db' r"
proof (cases "parse_emergency_access_accept_request body")
  case None
  with assms show ?thesis by (auto simp: accept_emergency_access_trust_def return_value_def intro: legal_refusal)
next
  case (Some token)
  with assms(1) have "repo_bind (repo_lift (invite_hash site (ta_email_normalized actor) token)) (\<lambda>token_hash.
            contact_or_not_found (accept_invited_emergency_access (tr_relationship_id site) (ta_user_id actor)
              (ta_email_normalized actor) token_hash (tr_now site)
              (emergency_access_audit site ''emergency.accept'' (ta_user_id actor)
                [(''fromStatus'', jint 0), (''toStatus'', jint 1)]))) db = (db', r)"
    by (simp add: accept_emergency_access_trust_def invite_hash_def)
  then show ?thesis
  proof (cases rule: lift_cases)
    case (failed e)
    with assms(2) show ?thesis by (auto intro: legal_refusal)
  next
    case (went_on h)
    with Some have "asks_for (DoAccept body) site actor (Accept (ta_email_normalized actor) h (tr_now site))" by simp
    with went_on(2) assms(2) show ?thesis
      by (rule contact_or_not_found_legal) (erule mutations_failed, erule accept_refines [OF _ assms(2)])
  qed
qed

lemma confirm_legal:
  assumes "confirm_emergency_access_trust site actor body generation db = (db', r)" "emergency_ok db"
  shows "legal_outcome (DoConfirm body generation) site actor db db' r"
proof (cases "parse_emergency_access_confirm_request body")
  case None
  with assms show ?thesis by (auto simp: confirm_emergency_access_trust_def return_value_def intro: legal_refusal)
next
  case (Some key)
  then have asks: "asks_for (DoConfirm body generation) site actor (Confirm key generation)" by simp
  from assms(1) Some have "contact_or_not_found (confirm_accepted_emergency_access (tr_relationship_id site) (ta_user_id actor) key
      generation (tr_now site) (emergency_access_audit site ''emergency.confirm'' (ta_user_id actor)
        [(''fromStatus'', jint 1), (''toStatus'', jint 2)])) db = (db', r)"
    by (simp add: confirm_emergency_access_trust_def)
  then show ?thesis using assms(2) asks
    by (rule contact_or_not_found_legal) (erule mutations_failed, erule confirm_refines [OF _ assms(2)])
qed

lemma update_legal:
  assumes "update_emergency_access_trust site actor body db = (db', r)" "emergency_ok db"
  shows "legal_outcome (DoUpdate body) site actor db db' r"
proof (cases "parse_emergency_access_update_request body")
  case None
  with assms show ?thesis by (auto simp: update_emergency_access_trust_def return_value_def intro: legal_refusal)
next
  case (Some q)
  have asks: "asks_for (DoUpdate body) site actor (ChangeTerms (uq_type q) (uq_wait_time_days q) (uq_key_encrypted q))"
    using Some by simp
  from assms(1) Some have "contact_or_not_found (update_emergency_access (tr_relationship_id site) (ta_user_id actor) (uq_type q)
      (uq_wait_time_days q) (uq_key_encrypted q) (tr_now site) (emergency_access_audit site ''emergency.update'' (ta_user_id actor)
        [(''type'', jint (uq_type q)), (''waitTimeDays'', jint (uq_wait_time_days q))])) db = (db', r)"
    by (simp add: update_emergency_access_trust_def)
  then show ?thesis using assms(2) asks
    by (rule contact_or_not_found_legal) (erule mutations_failed, erule change_terms_refines [OF _ assms(2)])
qed

lemma cancel_legal:
  assumes "cancel_emergency_access_trust site actor role db = (db', r)" "emergency_ok db"
  shows "legal_outcome (DoCancel role) site actor db db' r"
  using assms(1) unfolding cancel_emergency_access_trust_def
proof (cases rule: repo_bind_cases)
  case (failed e)
  then have "db' = db" by (auto simp: delete_emergency_access_def with_batch_eq return_value_def)
  with failed assms(2) show ?thesis by (auto intro: legal_refusal)
next
  case (went_on d deleted)
  then have "db' = d" "succeeded r \<longleftrightarrow> deleted" by (cases deleted; auto simp: return_value_def)+
  with delete_refines [OF went_on(1) assms(2)] show ?thesis by (auto intro: legal_refines)
qed

lemma trust_exec_legal:
  "trust_exec op site actor db = (db', r) \<Longrightarrow> emergency_ok db \<Longrightarrow> legal_outcome op site actor db db' r"
  by (cases op) (simp_all add: invite_legal reinvite_legal accept_legal confirm_legal update_legal cancel_legal)

text \<open>
  C37. Emergency access refines its protocol. Every operation of a grantor or a contact keeps the table well formed; when it reports
  success it made exactly the step it was asked for, by its actor, on its relationship, and when it reports a
  conflict, an invalid request, an unknown relationship or an error, every contact is as it was.
\<close>

theorem emergency_trust_refines_protocol:
  assumes "trust_exec op site actor db = (db', r)" "emergency_ok db"
  shows "emergency_ok db' \<and> users db' = users db \<and>
    (if succeeded r
     then \<exists>a. asks_for op site actor a \<and> contact_step (ta_user_id actor) (tr_relationship_id site) a (contacts db) (contacts db')
     else contacts db' = contacts db)"
  using trust_exec_legal [OF assms] unfolding legal_outcome_def .

section \<open>The history of a key\<close>

text \<open>
  An event is an operation with its site, its actor and its answer. \<open>did e user rid a\<close>: the event succeeded, was made by
  \<open>user\<close> on the relationship \<open>rid\<close>, and asked for the step \<open>a\<close>.
\<close>

type_synonym trust_event = "trust_op \<times> trust_site \<times> trust_actor \<times> (js_error + trust_result)"

fun did :: "trust_event \<Rightarrow> string \<Rightarrow> string \<Rightarrow> contact_action \<Rightarrow> bool" where
  "did (op, site, actor, r) user rid a \<longleftrightarrow>
     succeeded r \<and> ta_user_id actor = user \<and> tr_relationship_id site = rid \<and> asks_for op site actor a"

text \<open>No step on the relationship but changes of its terms.\<close>

definition untouched :: "string \<Rightarrow> trust_event list \<Rightarrow> bool" where
  "untouched rid events \<longleftrightarrow> (\<forall>e \<in> set events. \<forall>user a. did e user rid a \<longrightarrow> (\<exists>t days key. a = ChangeTerms t days key))"

text \<open>The token in force was issued by an event of the grantor, an invitation or a reinvitation of an invited e-mail.\<close>

definition in_force :: "trust_event list \<Rightarrow> string \<Rightarrow> string \<Rightarrow> string \<Rightarrow> string \<Rightarrow> string \<Rightarrow> bool" where
  "in_force events rid grantor email h x \<longleftrightarrow>
     (\<exists>before e between. events = before @ [e] @ between \<and> untouched rid between \<and>
        ((\<exists>t days. did e grantor rid (Invite email t days h x)) \<or>
         did e grantor rid (Reinvite email h x) \<and> (\<exists>f \<in> set before. \<exists>t days h' x'. did f grantor rid (Invite email t days h' x'))))"

definition was_accepted :: "trust_event list \<Rightarrow> string \<Rightarrow> string \<Rightarrow> string \<Rightarrow> bool" where
  "was_accepted events rid grantor u \<longleftrightarrow>
     (\<exists>before e between email h x now. events = before @ [e] @ between \<and> untouched rid between \<and>
        in_force before rid grantor email h x \<and> did e u rid (Accept email h now) \<and> now < x \<and> u \<noteq> grantor)"

definition was_confirmed :: "trust_event list \<Rightarrow> string \<Rightarrow> string \<Rightarrow> string \<Rightarrow> string \<Rightarrow> int \<Rightarrow> bool" where
  "was_confirmed events rid grantor u key g \<longleftrightarrow>
     (\<exists>before e between k. events = before @ [e] @ between \<and> untouched rid between \<and>
        was_accepted before rid grantor u \<and> did e grantor rid (Confirm k g) \<and>
        (key = k \<or> (\<exists>f \<in> set between. \<exists>t days. did f grantor rid (ChangeTerms t days (Some key)))))"

fun explained :: "trust_event list \<Rightarrow> string \<Rightarrow> string \<Rightarrow> contact_state \<Rightarrow> bool" where
  "explained events rid grantor (Invited email h x) \<longleftrightarrow> in_force events rid grantor email h x"
| "explained events rid grantor (Accepted u) \<longleftrightarrow> was_accepted events rid grantor u"
| "explained events rid grantor (Confirmed u k g) \<longleftrightarrow> was_confirmed events rid grantor u k g"
| "explained events rid grantor (Recovering u k g) \<longleftrightarrow> False"

definition past :: "trust_event list \<Rightarrow> (string \<rightharpoonup> contact) \<Rightarrow> bool" where
  "past events m \<longleftrightarrow> (\<forall>rid c. m rid = Some c \<longrightarrow> explained events rid (ct_grantor c) (ct_state c))"

lemma untouched_Nil [simp]: "untouched rid []"
  by (simp add: untouched_def)

lemma untouched_snoc: "untouched rid events \<Longrightarrow> untouched rid [e] \<Longrightarrow> untouched rid (events @ [e])"
  by (auto simp: untouched_def)

lemma in_force_snoc: "in_force events rid g email h x \<Longrightarrow> untouched rid [e] \<Longrightarrow> in_force (events @ [e]) rid g email h x"
  unfolding in_force_def by (metis append_assoc untouched_snoc)

lemma was_accepted_snoc: "was_accepted events rid g u \<Longrightarrow> untouched rid [e] \<Longrightarrow> was_accepted (events @ [e]) rid g u"
  unfolding was_accepted_def by (metis append_assoc untouched_snoc)

lemma was_confirmed_snoc:
  assumes "was_confirmed events rid grantor u key g" "untouched rid [e]"
    "key' = key \<or> (\<exists>t days. did e grantor rid (ChangeTerms t days (Some key')))"
  shows "was_confirmed (events @ [e]) rid grantor u key' g"
proof -
  from assms(1) obtain before f between k where h: "events = before @ [f] @ between" "untouched rid between"
    "was_accepted before rid grantor u" "did f grantor rid (Confirm k g)"
    "key = k \<or> (\<exists>f \<in> set between. \<exists>t days. did f grantor rid (ChangeTerms t days (Some key)))"
    unfolding was_confirmed_def by blast
  have "events @ [e] = before @ [f] @ (between @ [e])" "untouched rid (between @ [e])"
    using h(1,2) assms(2) by (simp_all add: untouched_snoc)
  moreover have "key' = k \<or> (\<exists>f \<in> set (between @ [e]). \<exists>t days. did f grantor rid (ChangeTerms t days (Some key')))"
    using h(5) assms(3) by (simp del: did.simps) blast
  ultimately show ?thesis using h(3,4) unfolding was_confirmed_def by blast
qed

text \<open>The event that has just happened.\<close>

lemma in_force_here:
  "(\<exists>t days. did e g rid (Invite email t days h x)) \<or>
     did e g rid (Reinvite email h x) \<and> (\<exists>f \<in> set events. \<exists>t days h' x'. did f g rid (Invite email t days h' x')) \<Longrightarrow>
   in_force (events @ [e]) rid g email h x"
  unfolding in_force_def by (rule exI [of _ events], rule exI [of _ e], rule exI [of _ "[]"]) (simp del: did.simps)

lemma was_accepted_here:
  "in_force events rid g email h x \<Longrightarrow> did e u rid (Accept email h now) \<Longrightarrow> now < x \<Longrightarrow> u \<noteq> g \<Longrightarrow> was_accepted (events @ [e]) rid g u"
  unfolding was_accepted_def by (rule exI [of _ events], rule exI [of _ e], rule exI [of _ "[]"]) (auto simp del: did.simps)

lemma was_confirmed_here:
  "was_accepted events rid g u \<Longrightarrow> did e g rid (Confirm k n) \<Longrightarrow> was_confirmed (events @ [e]) rid g u k n"
  unfolding was_confirmed_def by (rule exI [of _ events], rule exI [of _ e], rule exI [of _ "[]"]) (auto simp del: did.simps)

lemma explained_snoc: "explained events rid g s \<Longrightarrow> untouched rid [e] \<Longrightarrow> explained (events @ [e]) rid g s"
  by (cases s) (simp_all add: in_force_snoc was_accepted_snoc was_confirmed_snoc)

lemma was_invited: "in_force events rid g email h x \<Longrightarrow> \<exists>f \<in> set events. \<exists>t days h' x'. did f g rid (Invite email t days h' x')"
  unfolding in_force_def by fastforce

text \<open>An event is one step: those it succeeded with agree in their kind.\<close>

lemma asks_for_terms: "asks_for op site actor (ChangeTerms t days key) \<Longrightarrow> asks_for op site actor a \<Longrightarrow> \<exists>t days key. a = ChangeTerms t days key"
  by (cases op) auto

lemma past_step:
  assumes step: "contact_step actor rid a m m'" and past: "past events m" and e: "did e actor rid a"
    and terms: "\<And>t days key. a = ChangeTerms t days key \<Longrightarrow> untouched rid [e]" and others: "\<And>j. j \<noteq> rid \<Longrightarrow> untouched j [e]"
  shows "past (events @ [e]) m'"
proof -
  have same: "explained (events @ [e]) j (ct_grantor c) (ct_state c)" if "m j = Some c" "j \<noteq> rid" for j c
    using past that explained_snoc others by (simp add: past_def)
  have now: "explained events rid (ct_grantor c) (ct_state c)" if "m rid = Some c" for c
    using past that by (simp add: past_def)
  have here: "explained (events @ [e]) rid (ct_grantor c) (ct_state c)" if "m' rid = Some c" for c
    using step
  proof cases
    case (invite email t days hash expires)
    with e have "in_force (events @ [e]) rid actor email hash expires" by (auto intro!: in_force_here simp del: did.simps)
    with invite that show ?thesis by auto
  next
    case (reinvite d email h x hash expires)
    then have "in_force events rid actor email h x" using now [of d] by simp
    from was_invited [OF this] reinvite(1) e have "in_force (events @ [e]) rid actor email hash expires"
      by (intro in_force_here) (simp del: did.simps)
    with reinvite that show ?thesis by auto
  next
    case (accept d email hash expires now')
    then have "in_force events rid (ct_grantor d) email hash expires" using now [of d] by simp
    then have "was_accepted (events @ [e]) rid (ct_grantor d) actor"
      by (rule was_accepted_here) (use accept e in \<open>auto simp del: did.simps\<close>)
    with accept that show ?thesis by auto
  next
    case (confirm d grantee generation key)
    then have "was_accepted events rid actor grantee" using now [of d] by simp
    then have "was_confirmed (events @ [e]) rid actor grantee key generation"
      by (rule was_confirmed_here) (use confirm e in \<open>simp del: did.simps\<close>)
    with confirm that show ?thesis by auto
  next
    case (change_terms d t days key)
    have c: "ct_grantor c = actor" "ct_state c = renewed key (ct_state d)" using change_terms that by auto
    have old: "explained events rid actor (ct_state d)" using now [of d] change_terms by simp
    note u = terms [OF change_terms(1)]
    show ?thesis
    proof (cases "renewed key (ct_state d) = ct_state d")
      case True
      with old c show ?thesis by (simp add: explained_snoc [OF _ u])
    next
      case False
      then obtain k who old_key g where "key = Some k" "ct_state d = Confirmed who old_key g" by (cases "(key, ct_state d)" rule: renewed.cases) auto
      with old c e change_terms(1) u show ?thesis by (auto intro!: was_confirmed_snoc simp del: did.simps)
    qed
  qed (use that in auto)
  have "m' j = m j" if "j \<noteq> rid" for j using step that by cases auto
  with same here show ?thesis unfolding past_def by metis
qed

inductive trust_trace :: "trust_event list \<Rightarrow> database \<Rightarrow> bool" where
  start: "emergency_access db = [] \<Longrightarrow> trust_trace [] db"
| event: "trust_trace events db \<Longrightarrow> trust_exec op site actor db = (db', r) \<Longrightarrow> trust_trace (events @ [(op, site, actor, r)]) db'"

lemma trust_trace_past: "trust_trace events db \<Longrightarrow> emergency_ok db \<and> past events (contacts db)"
proof (induction rule: trust_trace.induct)
  case (start db)
  then show ?case
    by (simp add: emergency_ok_def emergency_unique_def invited_keys_def grantee_keys_def emergency_references_def past_def
        contacts_def find_emergency_access_contact_def sql_first_def)
next
  case (event events db op site actor db' r)
  then have legal: "legal_outcome op site actor db db' r" by (simp add: trust_exec_legal)
  let ?e = "(op, site, actor, r)"
  show ?case
  proof (cases "succeeded r")
    case True
    with legal obtain a where a: "asks_for op site actor a"
      and step: "contact_step (ta_user_id actor) (tr_relationship_id site) a (contacts db) (contacts db')"
      by (auto simp: legal_outcome_def)
    have "past (events @ [?e]) (contacts db')"
      using step event(3) [THEN conjunct2]
    proof (rule past_step)
      show "did ?e (ta_user_id actor) (tr_relationship_id site) a" using a True by simp
      show "untouched (tr_relationship_id site) [?e]" if "a = ChangeTerms t days key" for t days key
        using asks_for_terms a that by (auto simp: untouched_def)
    qed (auto simp: untouched_def)
    with legal show ?thesis by (simp add: legal_outcome_def)
  next
    case False
    then have "untouched rid [?e]" for rid by (simp add: untouched_def)
    then have "past (events @ [?e]) (contacts db)" using event(3) by (auto simp: past_def intro: explained_snoc)
    with False legal show ?thesis by (simp add: legal_outcome_def)
  qed
qed

text \<open>
  C38. A stored key has a complete history. Take any sequence of trust operations from an empty table. A relationship that holds key
  material is confirmed, and three of the operations, in this order and each of them successful, made it: an invitation
  by its grantor, which issued a token for an e-mail (or a reinvitation of an e-mail that the grantor had invited
  before); an acceptance by its grantee, another account, which has exactly that e-mail and presented a
  token with the hash of the one issued, before the end of its life; and the grantor's confirmation, with the key
  generation that is stored. No other step touched the relationship in between or since, but for changes
  of its terms by the grantor; the stored key is that of the confirmation or of such a change.
\<close>

theorem emergency_key_has_history:
  assumes "trust_trace events db" "find_emergency_access_contact rid db = Some r" "ea_key_encrypted r = Some key"
  shows "ea_status r = EaConfirmed \<and>
    (\<exists>before invitation between acceptance later confirmation since grantee email h x now k g.
       events = before @ [invitation] @ between @ [acceptance] @ later @ [confirmation] @ since \<and>
       untouched rid between \<and> untouched rid later \<and> untouched rid since \<and>
       ((\<exists>t days. did invitation (ea_grantor_user_id r) rid (Invite email t days h x)) \<or>
        did invitation (ea_grantor_user_id r) rid (Reinvite email h x) \<and>
        (\<exists>f \<in> set before. \<exists>t days h' x'. did f (ea_grantor_user_id r) rid (Invite email t days h' x'))) \<and>
       did acceptance grantee rid (Accept email h now) \<and> now < x \<and> grantee \<noteq> ea_grantor_user_id r \<and>
       did confirmation (ea_grantor_user_id r) rid (Confirm k g) \<and>
       ea_grantee_user_id r = Some grantee \<and> ea_key_generation r = Some g \<and>
       (key = k \<or> (\<exists>f \<in> set since. \<exists>t days. did f (ea_grantor_user_id r) rid (ChangeTerms t days (Some key)))))"
proof -
  have ok: "emergency_ok db" and past: "past events (contacts db)" using trust_trace_past [OF assms(1)] by simp_all
  note r = found_contact [OF assms(2)]
  have check: "emergency_check r" using checked_row [OF ok] r by blast
  have explained: "explained events rid (ea_grantor_user_id r) (state_of r)" using past r unfolding past_def by force
  have confirmed: "ea_status r = EaConfirmed"
    using explained check assms(3) by (cases "ea_status r") (auto simp: state_of_def emergency_check_def state_check_def)
  with check obtain grantee g where who: "ea_grantee_user_id r = Some grantee" "ea_key_generation r = Some g"
    by (auto simp: emergency_check_def state_check_def)
  with explained confirmed assms(3) have "was_confirmed events rid (ea_grantor_user_id r) grantee key g" by (simp add: state_of_def)
  then obtain before confirmation since k where c: "events = before @ [confirmation] @ since" "untouched rid since"
    "was_accepted before rid (ea_grantor_user_id r) grantee" "did confirmation (ea_grantor_user_id r) rid (Confirm k g)"
    "key = k \<or> (\<exists>f \<in> set since. \<exists>t days. did f (ea_grantor_user_id r) rid (ChangeTerms t days (Some key)))"
    unfolding was_confirmed_def by blast
  from c(3) obtain before' acceptance later email h x now where a: "before = before' @ [acceptance] @ later" "untouched rid later"
    "in_force before' rid (ea_grantor_user_id r) email h x" "did acceptance grantee rid (Accept email h now)" "now < x"
    "grantee \<noteq> ea_grantor_user_id r"
    unfolding was_accepted_def by blast
  from a(3) obtain before'' invitation between where i: "before' = before'' @ [invitation] @ between" "untouched rid between"
    "(\<exists>t days. did invitation (ea_grantor_user_id r) rid (Invite email t days h x)) \<or>
     did invitation (ea_grantor_user_id r) rid (Reinvite email h x) \<and>
     (\<exists>f \<in> set before''. \<exists>t days h' x'. did f (ea_grantor_user_id r) rid (Invite email t days h' x'))"
    unfolding in_force_def by blast
  have "events = before'' @ [invitation] @ between @ [acceptance] @ later @ [confirmation] @ since" using c(1) a(1) i(1) by simp
  with confirmed who c(2,4,5) a(2,4,5,6) i(2,3) show ?thesis by blast
qed

section \<open>A sample history\<close>

definition sample_secret :: string where "sample_secret = replicate 32 CHR ''s''"

definition sample_trust_site :: "string \<Rightarrow> trust_site" where
  "sample_trust_site row_id = \<lparr>tr_hmac = \<lambda>key message. [], tr_invite_secret = sample_secret, tr_now = iso_text 0,
     tr_request_id = ''q'', tr_relationship_id = ''r1'', tr_audit_row_id = row_id, tr_random_bytes = [2], tr_deliver = None\<rparr>"

definition sample_grantor :: trust_actor where "sample_grantor = \<lparr>ta_user_id = ''u1'', ta_email_normalized = ''a@b.co''\<rparr>"
definition sample_grantee :: trust_actor where "sample_grantee = \<lparr>ta_user_id = ''u2'', ta_email_normalized = ''c@d.co''\<rparr>"

definition sample_invitation :: json where
  "sample_invitation = JObj [(''email'', JStr ''c@d.co''), (''type'', jint 0), (''waitTimeDays'', jint 7)]"

definition sample_requests :: "(trust_op \<times> trust_site \<times> trust_actor) list" where
  "sample_requests =
     [(DoInvite sample_invitation, sample_trust_site ''a1'', sample_grantor),
      (DoAccept (JObj [(''token'', JStr ''Ag'')]), sample_trust_site ''a2'', sample_grantee),
      (DoConfirm (JObj [(''key'', JStr ''wrapped'')]) 1, sample_trust_site ''a3'', sample_grantor)]"

fun after_requests :: "(trust_op \<times> trust_site \<times> trust_actor) list \<Rightarrow> database \<Rightarrow> database" where
  "after_requests [] db = db"
| "after_requests ((op, site, actor) # rest) db = after_requests rest (fst (trust_exec op site actor db))"

fun outcomes :: "(trust_op \<times> trust_site \<times> trust_actor) list \<Rightarrow> database \<Rightarrow> trust_event list" where
  "outcomes [] db = []"
| "outcomes ((op, site, actor) # rest) db =
     (op, site, actor, snd (trust_exec op site actor db)) # outcomes rest (fst (trust_exec op site actor db))"

definition sample_contacts :: database where
  "sample_contacts = sample_accounts\<lparr>users := [sample_account, sample_account\<lparr>u_id := ''u2'', u_email_normalized := ''c@d.co''\<rparr>]\<rparr>"

definition sample_contact :: emergency_access_row where
  "sample_contact = invited_row \<lparr>ii_id = ''r1'', ii_grantor_user_id = ''u1'', ii_email_normalized = ''c@d.co'', ii_type = 0,
     ii_wait_time_days = 7, ii_invite_token_hash = ''hmac-sha256:v1:'', ii_invite_expires_at = iso_text 432000000,
     ii_created_at = iso_text 0\<rparr>"

lemma after_requests_trace: "trust_trace events db \<Longrightarrow> trust_trace (events @ outcomes rest db) (after_requests rest db)"
proof (induction rest arbitrary: events db)
  case (Cons e rest)
  obtain op site actor where e: "e = (op, site, actor)" by (cases e)
  from Cons.IH [OF trust_trace.event [OF Cons.prems prod.collapse [symmetric]]] show ?case by (simp add: e)
qed simp

lemma sample_texts:
  "js_lower ''email'' = ''email''" "js_lower ''type'' = ''type''" "js_lower ''waitTimeDays'' = ''waittimedays''"
  "js_lower ''token'' = ''token''" "js_lower ''key'' = ''key''" "normalize_email ''c@d.co'' = Some ''c@d.co''"
  "utf8_length ''c@d.co'' = 6" "utf8_length ''Ag'' = 2" "utf8_length ''wrapped'' = 7"
  "js_lower ''hmac-sha256:v1:'' = ''hmac-sha256:v1:''" "generate_emergency_access_invite_token [2] = ''Ag''"
  by code_simp+

lemma sample_parsed:
  "parse_emergency_access_invite_request sample_invitation ''a@b.co'' = Some \<lparr>iq_email = ''c@d.co'', iq_type = 0, iq_wait_time_days = 7\<rparr>"
  "parse_emergency_access_accept_request (JObj [(''token'', JStr ''Ag'')]) = Some ''Ag''"
  "parse_emergency_access_confirm_request (JObj [(''key'', JStr ''wrapped'')]) = Some ''wrapped''"
  by (simp_all add: parse_emergency_access_invite_request_def parse_emergency_access_accept_request_def
      parse_emergency_access_confirm_request_def sample_invitation_def normalize_protocol_object_def parse_normalized_email_def
      parse_access_type_def parse_wait_time_days_def bounded_string_def max_invite_token_length_def max_key_encrypted_bytes_def
      max_contact_email_length_def min_wait_time_days_def max_wait_time_days_def sample_texts parse_defs num_is_safe_integer_def safe_int_def max_safe_integer_def)

lemma sample_hash:
  "build_emergency_access_invite_token_hash (\<lambda>key message. []) sample_secret ''r1'' ''c@d.co'' ''Ag'' = Inr ''hmac-sha256:v1:''"
  "build_emergency_access_email_hash (\<lambda>key message. []) sample_secret ''c@d.co'' = Inr ''hmac-sha256:v1:''"
  by code_simp+

lemma sample_expiry: "emergency_access_invite_expires_at (iso_text 0) = Inr (iso_text 432000000)" "iso_text 0 < iso_text 432000000"
  by (simp_all add: emergency_access_invite_expires_at_def invite_lifetime_days_def common_era_def ms_per_day_def iso_text_less_iff)

lemma ev_id_audit_row [simp]: "ev_id (audit_row i e) = i"
  by (simp add: audit_row_def)


lemma mutation_goes_through:
  assumes "s db 0 = Inr (d, 1)" "emergency_ok d" "row_id \<notin> set (map ev_id (audit_events d))"
  shows "run_emergency_mutation s (Some (row_id, e)) rid db =
    (d\<lparr>audit_events := audit_events d @ [audit_row row_id e]\<rparr>, Inr (find_emergency_access_contact rid d))"
  using assms
  by (auto simp: run_emergency_mutation_def with_batch_eq batch_def emergency_stmt_def emergency_ok_def
      emergency_audit_stmt_def insert_audit_event_def sql_exists_def list_ex_iff return_value_def find_emergency_access_contact_def)

definition has_contact :: "emergency_access_row \<Rightarrow> string list \<Rightarrow> database \<Rightarrow> bool" where
  "has_contact r ids d \<longleftrightarrow> emergency_access d = [r] \<and> users d = users sample_contacts \<and> map ev_id (audit_events d) = ids"

lemma one_contact_ok:
  "emergency_access d = [r] \<Longrightarrow> users d = users sample_contacts \<Longrightarrow> emergency_check r \<Longrightarrow> ea_grantor_user_id r = ''u1'' \<Longrightarrow>
     ea_grantee_user_id r \<in> {None, Some ''u2''} \<Longrightarrow> emergency_ok d"
  by (auto simp: emergency_ok_def emergency_unique_def invited_keys_def grantee_keys_def emergency_references_def user_exists_def
      sql_exists_def sample_contacts_def sample_account_def)

lemma sample_update:
  assumes "has_contact r ids d" "guard r" "emergency_check (effect r)" "ea_grantor_user_id (effect r) = ''u1''"
    "ea_grantee_user_id (effect r) \<in> {None, Some ''u2''}" "row_id \<notin> set ids"
  shows "has_contact (effect r) (ids @ [row_id]) (fst (update_emergency guard effect (Some (row_id, e)) rid d))"
proof -
  let ?d = "d\<lparr>emergency_access := [effect r]\<rparr>"
  have "update_stmt emergency_access emergency_access_update (\<lambda>db prev. guard) effect d 0 = Inr (?d, 1)"
    using assms(1,2) by (auto simp: update_stmt_Inr has_contact_def sql_update_def sql_count_def)
  from mutation_goes_through [where s = "update_stmt emergency_access emergency_access_update (\<lambda>db prev. guard) effect", OF this]
  have "update_emergency guard effect (Some (row_id, e)) rid d =
    (?d\<lparr>audit_events := audit_events ?d @ [audit_row row_id e]\<rparr>, Inr (find_emergency_access_contact rid ?d))"
    using assms one_contact_ok [of ?d "effect r"] by (auto simp: update_emergency_def has_contact_def)
  then show ?thesis using assms(1) by (auto simp: has_contact_def)
qed

definition sample_accepted :: emergency_access_row where "sample_accepted = accept_row ''u2'' (iso_text 0) sample_contact"
definition sample_confirmed :: emergency_access_row where "sample_confirmed = confirm_row ''wrapped'' 1 (iso_text 0) sample_accepted"

lemmas sample_rows = sample_contact_def invited_row_def sample_accepted_def accept_row_def sample_confirmed_def confirm_row_def
  emergency_check_def state_check_def

lemma sample_checks: "emergency_check sample_contact" "emergency_check sample_accepted" "emergency_check sample_confirmed"
  by (simp_all add: sample_rows starts_with_def sample_texts)

lemma sample_invite_goes:
  "has_contact sample_contact [''a1''] (fst (trust_exec (DoInvite sample_invitation) (sample_trust_site ''a1'') sample_grantor sample_contacts))"
proof -
  let ?d = "sample_contacts\<lparr>emergency_access := [sample_contact]\<rparr>"
  have start: "emergency_access sample_contacts = []" "audit_events sample_contacts = []"
    by (simp_all add: sample_contacts_def sample_accounts_def empty_database_def)
  have "emergency_ok ?d" by (rule one_contact_ok [of _ sample_contact]) (use sample_checks in \<open>simp_all add: sample_rows\<close>)
  note goes = mutation_goes_through [where d = ?d and db = sample_contacts, OF _ this]
  have row: "invited_row \<lparr>ii_id = ''r1'', ii_grantor_user_id = ''u1'', ii_email_normalized = ''c@d.co'', ii_type = 0,
     ii_wait_time_days = 7, ii_invite_token_hash = ''hmac-sha256:v1:'', ii_invite_expires_at = iso_text 432000000,
     ii_created_at = iso_text 0\<rparr> = sample_contact" by (simp add: sample_contact_def)
  have found: "find_emergency_access_contact ''r1'' ?d = Some sample_contact"
    by (simp add: find_emergency_access_contact_def sql_first_def sample_rows)
  have "\<not> already_related ''u1'' ''c@d.co'' sample_contacts" by (simp add: already_related_def sql_exists_def start)
  then have "run_emergency_mutation
      (\<lambda>db prev. if already_related ''u1'' ''c@d.co'' db then Inr (db, 0)
         else Inr (emergency_access_update (\<lambda>t. t @ [sample_contact]) db, 1)) (Some (''a1'', e)) ''r1'' sample_contacts =
    (?d\<lparr>audit_events := [audit_row ''a1'' e]\<rparr>, Inr (Some sample_contact))" for e
    by (subst goes) (simp_all add: start found)
  then show ?thesis
    by (simp add: invite_emergency_access_trust_def sample_grantor_def sample_trust_site_def sample_parsed sample_texts sample_hash
        sample_expiry insert_invited_emergency_access_def row emergency_access_audit_def repo_bind_def repo_lift_def
        deliver_invite_notice_def return_value_def has_contact_def cong: if_cong)
qed

lemma fst_contact_or_not_found [simp]: "fst (contact_or_not_found m d) = fst (m d)"
  by (auto simp: contact_or_not_found_def repo_bind_def return_value_def split: prod.splits sum.splits)

lemma sample_accept_goes:
  assumes "has_contact sample_contact [''a1''] d"
  shows "has_contact sample_accepted [''a1'', ''a2'']
    (fst (trust_exec (DoAccept (JObj [(''token'', JStr ''Ag'')])) (sample_trust_site ''a2'') sample_grantee d))"
proof -
  have "acceptable ''r1'' ''u2'' ''c@d.co'' ''hmac-sha256:v1:'' (iso_text 0) sample_contact"
    using sample_expiry by (simp add: acceptable_def sample_rows)
  note step = sample_update [where effect = "accept_row ''u2'' (iso_text 0)" and guard = "acceptable ''r1'' ''u2'' ''c@d.co'' ''hmac-sha256:v1:'' (iso_text 0)", OF assms this]
  show ?thesis
    using step [of "''a2''"] sample_checks(2)
    by (simp add: accept_emergency_access_trust_def sample_parsed sample_trust_site_def sample_grantee_def sample_hash repo_bind_def
        repo_lift_def accept_invited_emergency_access_def emergency_access_audit_def sample_accepted_def [symmetric])
      (simp add: sample_rows)
qed

lemma sample_confirm_goes:
  assumes "has_contact sample_accepted [''a1'', ''a2''] d"
  shows "has_contact sample_confirmed [''a1'', ''a2'', ''a3'']
    (fst (trust_exec (DoConfirm (JObj [(''key'', JStr ''wrapped'')]) 1) (sample_trust_site ''a3'') sample_grantor d))"
proof -
  have "confirmable ''r1'' ''u1'' sample_accepted" by (simp add: confirmable_def sample_rows)
  note step = sample_update [where effect = "confirm_row ''wrapped'' 1 (iso_text 0)" and guard = "confirmable ''r1'' ''u1''", OF assms this]
  show ?thesis
    using step [of "''a3''"] sample_checks(3)
    by (simp add: confirm_emergency_access_trust_def sample_parsed sample_trust_site_def sample_grantor_def
        confirm_accepted_emergency_access_def emergency_access_audit_def sample_confirmed_def [symmetric])
      (simp add: sample_rows)
qed

lemma sample_history:
  "has_contact sample_confirmed [''a1'', ''a2'', ''a3''] (after_requests sample_requests sample_contacts)"
  "trust_trace (outcomes sample_requests sample_contacts) (after_requests sample_requests sample_contacts)"
proof -
  show "has_contact sample_confirmed [''a1'', ''a2'', ''a3''] (after_requests sample_requests sample_contacts)"
    using sample_confirm_goes [OF sample_accept_goes [OF sample_invite_goes]]
    by (simp add: sample_requests_def del: trust_exec.simps)
  have "emergency_access sample_contacts = []" by (simp add: sample_contacts_def sample_accounts_def empty_database_def)
  from after_requests_trace [OF trust_trace.start [OF this], of sample_requests]
  show "trust_trace (outcomes sample_requests sample_contacts) (after_requests sample_requests sample_contacts)" by simp
qed

theorem emergency_trust_refines_protocol_witness:
  "emergency_ok (fst (trust_exec (DoCancel Grantee) (sample_trust_site ''a4'') sample_grantee (after_requests sample_requests sample_contacts)))"
proof -
  have "emergency_ok (after_requests sample_requests sample_contacts)" using trust_trace_past [OF sample_history(2)] by simp
  from emergency_trust_refines_protocol [OF prod.collapse [symmetric] this] show ?thesis by blast
qed

theorem emergency_key_has_history_witness:
  "\<exists>invitation acceptance confirmation email h x now k g.
     outcomes sample_requests sample_contacts = [invitation, acceptance, confirmation] \<and> now < x \<and>
     did acceptance ''u2'' ''r1'' (Accept email h now) \<and> did confirmation ''u1'' ''r1'' (Confirm k g)"
proof -
  have found: "find_emergency_access_contact ''r1'' (after_requests sample_requests sample_contacts) = Some sample_confirmed"
    using sample_history(1) by (simp add: has_contact_def find_emergency_access_contact_def sql_first_def sample_rows)
  have "length (outcomes sample_requests sample_contacts) = 3" by (simp add: sample_requests_def del: trust_exec.simps)
  then have three: "outcomes sample_requests sample_contacts = before @ [i] @ between @ [a] @ later @ [c] @ since \<Longrightarrow>
      outcomes sample_requests sample_contacts = [i, a, c]" for before i between a later c since
    by (auto simp: length_Suc_conv numeral_3_eq_3 Cons_eq_append_conv append_eq_Cons_conv)
  from emergency_key_has_history [OF sample_history(2) found, of "''wrapped''"] obtain before i between a later c since email h x now k g where
    "outcomes sample_requests sample_contacts = before @ [i] @ between @ [a] @ later @ [c] @ since" "now < x"
    "did a ''u2'' ''r1'' (Accept email h now)" "did c ''u1'' ''r1'' (Confirm k g)"
    by (auto simp: sample_rows)
  with three show ?thesis by blast
qed

end
