(* ===== verification/CollectionAccess.thy ===== *)
theory CollectionAccess
  imports TotpStore
begin

text \<open>
  Who may read and write the ciphers of an organisation: the conditions of \<open>src/repositories/organization-policy-sql.ts\<close> and the
  common table expressions of \<open>src/repositories/organization-collection-access-sql.ts\<close>. A grant comes from an
  assignment of the member or of a group of the member; the access to a collection is the union of its grants.
\<close>

section \<open>Policies\<close>

text \<open>\<open>requires_two_step\<close> also asks that the organisation is enabled; the policy conditions do not.\<close>

definition two_step_policy :: "string \<Rightarrow> database \<Rightarrow> bool" where
  "two_step_policy org db \<longleftrightarrow>
     sql_exists (\<lambda>p. op_organization_id p = org \<and> op_type p = 0 \<and> op_enabled p) (organization_policies db)"

text \<open>The session was verified with the factor the account has now; a NULL session or device matches nothing.\<close>

definition organization_session_totp_verified :: "string \<Rightarrow> string option \<Rightarrow> string option \<Rightarrow> database \<Rightarrow> bool" where
  "organization_session_totp_verified user_id session_id device_identifier db \<longleftrightarrow>
     sql_exists (\<lambda>t. tf_user_id t = user_id \<and> enrolled_factor t \<and>
       sql_exists (\<lambda>d. d_user_id d = tf_user_id t \<and> sql_eq (Some (d_identifier d)) device_identifier \<and>
         sql_eq (d_session_id d) session_id \<and> d_revoked_at d = None \<and>
         sql_eq (d_mfa_totp_credential_generation d) (tf_credential_generation t) \<and> d_mfa_verified_at d \<noteq> None)
       (devices db)) (user_totp db)"

definition organization_totp_enrollment_allows :: "string \<Rightarrow> string \<Rightarrow> database \<Rightarrow> bool" where
  "organization_totp_enrollment_allows org user_id db \<longleftrightarrow>
     \<not> two_step_policy org db \<or> sql_exists (\<lambda>t. tf_user_id t = user_id \<and> enrolled_factor t) (user_totp db)"

definition organization_policy_allows :: "string \<Rightarrow> string \<Rightarrow> string option \<Rightarrow> string option \<Rightarrow> database \<Rightarrow> bool" where
  "organization_policy_allows org user_id session_id device_identifier db \<longleftrightarrow>
     \<not> two_step_policy org db \<or> organization_session_totp_verified user_id session_id device_identifier db"

section \<open>The actor\<close>

record policy_actor =
  pa_user_id :: string
  pa_session_id :: string
  pa_device_identifier :: string

text \<open>The bound values: the user, the session and device of a matching actor, and whether an actor was given.\<close>

record access_values =
  ac_user_id :: string
  ac_session_id :: "string option"
  ac_device_identifier :: "string option"
  ac_actor_provided :: bool

definition organization_access_actor_values :: "string \<Rightarrow> policy_actor option \<Rightarrow> access_values" where
  "organization_access_actor_values user_id actor =
     (case actor of
        None \<Rightarrow> \<lparr>ac_user_id = user_id, ac_session_id = None, ac_device_identifier = None, ac_actor_provided = False\<rparr>
      | Some a \<Rightarrow>
          if pa_user_id a = user_id
          then \<lparr>ac_user_id = user_id, ac_session_id = Some (pa_session_id a), ac_device_identifier = Some (pa_device_identifier a),
                ac_actor_provided = True\<rparr>
          else \<lparr>ac_user_id = user_id, ac_session_id = None, ac_device_identifier = None, ac_actor_provided = True\<rparr>)"

definition active_organization_actor :: "access_values \<Rightarrow> database \<Rightarrow> bool" where
  "active_organization_actor v db \<longleftrightarrow>
     sql_exists (\<lambda>u. u_id u = ac_user_id v \<and> u_disabled_at u = None) (users db) \<and>
     (\<not> ac_actor_provided v \<or>
      sql_exists (\<lambda>d. d_user_id d = ac_user_id v \<and> sql_eq (Some (d_identifier d)) (ac_device_identifier v) \<and>
        sql_eq (d_session_id d) (ac_session_id v) \<and> d_revoked_at d = None) (devices db))"

definition confirmed_memberships :: "access_values \<Rightarrow> database \<Rightarrow> organization_user_row list" where
  "confirmed_memberships v db =
     filter (\<lambda>m. sql_exists (\<lambda>g. org_id g = ou_organization_id m \<and> org_enabled g) (organizations db) \<and>
         ou_user_id m = Some (ac_user_id v) \<and> active_organization_actor v db \<and> ou_status m = 2 \<and> ou_type m \<in> {0, 1, 2} \<and>
         organization_policy_allows (ou_organization_id m) (ac_user_id v) (ac_session_id v) (ac_device_identifier v) db)
       (organization_users db)"

section \<open>Grants\<close>

record collection_access =
  ca_collection_id :: string
  ca_organization_id :: string
  ca_organization_user_id :: string
  ca_read_only :: bool
  ca_hide_passwords :: bool
  ca_manage :: bool

definition collection_grant :: "organization_user_row \<Rightarrow> collection_row \<Rightarrow> bool \<Rightarrow> bool \<Rightarrow> bool \<Rightarrow> collection_access" where
  "collection_grant m c read_only hide manage =
     \<lparr>ca_collection_id = cl_id c, ca_organization_id = cl_organization_id c, ca_organization_user_id = ou_id m,
      ca_read_only = read_only, ca_hide_passwords = hide, ca_manage = manage\<rparr>"

definition member_grants :: "organization_user_row \<Rightarrow> database \<Rightarrow> collection_access list" where
  "member_grants m db =
     [collection_grant m c (cu_read_only a) (cu_hide_passwords a) (cu_manage a).
        a \<leftarrow> collection_users db, cu_organization_user_id a = ou_id m,
        c \<leftarrow> collections db, cl_id c = cu_collection_id a \<and> cl_organization_id c = ou_organization_id m]"

definition group_grants :: "organization_user_row \<Rightarrow> database \<Rightarrow> collection_access list" where
  "group_grants m db =
     [collection_grant m c (cg_read_only a) (cg_hide_passwords a) (cg_manage a).
        gm \<leftarrow> organization_group_users db, gu_organization_user_id gm = ou_id m \<and> gu_organization_id gm = ou_organization_id m,
        g \<leftarrow> organization_groups db, og_id g = gu_group_id gm \<and> og_organization_id g = ou_organization_id m,
        a \<leftarrow> collection_groups db, cg_group_id a = og_id g \<and> cg_organization_id a = ou_organization_id m,
        c \<leftarrow> collections db, cl_id c = cg_collection_id a \<and> cl_organization_id c = ou_organization_id m]"

definition organization_collection_grants :: "access_values \<Rightarrow> database \<Rightarrow> collection_access list" where
  "organization_collection_grants v db =
     concat (map (\<lambda>m. member_grants m db) (confirmed_memberships v db)) @
     concat (map (\<lambda>m. group_grants m db) (confirmed_memberships v db))"

definition grant_key :: "collection_access \<Rightarrow> string \<times> string \<times> string" where
  "grant_key a = (ca_collection_id a, ca_organization_id a, ca_organization_user_id a)"

text \<open>\<open>GROUP BY\<close> the key, with the minimum of \<open>read_only\<close> and \<open>hide_passwords\<close> and the maximum of \<open>manage\<close>.\<close>

definition merged_grant :: "collection_access list \<Rightarrow> string \<times> string \<times> string \<Rightarrow> collection_access" where
  "merged_grant grants k =
     (let same = filter (\<lambda>a. grant_key a = k) grants
      in \<lparr>ca_collection_id = fst k, ca_organization_id = fst (snd k), ca_organization_user_id = snd (snd k),
          ca_read_only = list_all ca_read_only same, ca_hide_passwords = list_all ca_hide_passwords same,
          ca_manage = list_ex ca_manage same\<rparr>)"

definition accessible_organization_collections :: "access_values \<Rightarrow> database \<Rightarrow> collection_access list" where
  "accessible_organization_collections v db =
     (let grants = organization_collection_grants v db in map (merged_grant grants) (remdups (map grant_key grants)))"

section \<open>What grants an access\<close>

lemma grant_key_simps [simp]:
  "grant_key (collection_grant m c r h g) = (cl_id c, cl_organization_id c, ou_id m)"
  by (simp add: grant_key_def collection_grant_def)

lemma accessible_iff:
  "a \<in> set (accessible_organization_collections v db) \<longleftrightarrow>
     (\<exists>g \<in> set (organization_collection_grants v db). a = merged_grant (organization_collection_grants v db) (grant_key g))"
  by (auto simp: accessible_organization_collections_def Let_def)

lemma merged_grant_simps [simp]:
  "grant_key (merged_grant gs k) = k"
  "ca_collection_id (merged_grant gs k) = fst k" "ca_organization_id (merged_grant gs k) = fst (snd k)"
  "ca_organization_user_id (merged_grant gs k) = snd (snd k)"
  "ca_read_only (merged_grant gs k) = list_all ca_read_only (filter (\<lambda>a. grant_key a = k) gs)"
  "ca_hide_passwords (merged_grant gs k) = list_all ca_hide_passwords (filter (\<lambda>a. grant_key a = k) gs)"
  by (simp_all add: merged_grant_def grant_key_def Let_def)

text \<open>An access that is not read-only comes from one grant of the same member that is not.\<close>

lemma writable_grant:
  assumes "a \<in> set (accessible_organization_collections v db)" "\<not> ca_read_only a"
  shows "\<exists>g \<in> set (organization_collection_grants v db). grant_key g = grant_key a \<and> \<not> ca_read_only g"
  using assms by (auto simp: accessible_iff list_all_iff)

lemma grant_member:
  "g \<in> set (organization_collection_grants v db) \<Longrightarrow>
     \<exists>m \<in> set (confirmed_memberships v db). ca_organization_id g = ou_organization_id m \<and> ca_organization_user_id g = ou_id m"
  by (fastforce simp: organization_collection_grants_def member_grants_def group_grants_def collection_grant_def)

lemma accessible_member:
  assumes "a \<in> set (accessible_organization_collections v db)"
  shows "\<exists>m \<in> set (confirmed_memberships v db). ca_organization_id a = ou_organization_id m \<and> ca_organization_user_id a = ou_id m"
proof -
  obtain g where g: "g \<in> set (organization_collection_grants v db)" "grant_key g = grant_key a"
    using assms by (auto simp: accessible_iff)
  from grant_member [OF g(1)] g(2) show ?thesis by (simp add: grant_key_def)
qed

end
