(* ===== verification/Folders.thy ===== *)
theory Folders
  imports ApiKeys
begin

text \<open>
  Listing pages and folders: the pagination of \<open>src/app.ts\<close> with its continuation tokens, \<open>src/repositories/folder-repository.ts\<close>
  and the folder routes. The locale \<open>paged_listing\<close> is the contract of every paged query; a client that follows
  the continuation tokens reads the whole listing once, in finitely many requests.
\<close>

section \<open>Pages\<close>

record list_cursor =
  lc_revision_date :: string
  lc_id :: string

record 'r list_page =
  lp_items :: "'r list"
  lp_has_more :: bool

text \<open>\<open>revision_date > ? OR (revision_date = ? AND id > ?)\<close>, or no condition.\<close>

definition after_cursor :: "list_cursor option \<Rightarrow> string \<times> string \<Rightarrow> bool" where
  "after_cursor c k \<longleftrightarrow>
     (case c of None \<Rightarrow> True
      | Some l \<Rightarrow> fst k > lc_revision_date l \<or> fst k = lc_revision_date l \<and> snd k > lc_id l)"

text \<open>The first \<open>limit\<close> of the \<open>limit + 1\<close> selected rows.\<close>

definition page_of :: "nat \<Rightarrow> 'r list \<Rightarrow> 'r list_page" where
  "page_of limit rows =
     (let selected = take (limit + 1) rows in \<lparr>lp_items = take limit selected, lp_has_more = limit < length selected\<rparr>)"

datatype list_resource = CipherList | FolderList

definition resource_text :: "list_resource \<Rightarrow> string" where
  "resource_text r = (case r of CipherList \<Rightarrow> ''cipher'' | FolderList \<Rightarrow> ''folder'')"

definition default_list_page_size :: nat where "default_list_page_size = 100"
definition max_list_page_size :: nat where "max_list_page_size = 500"

text \<open>\<open>/^[1-9]\d*$/\<close> and at most 500.\<close>

definition parse_page_size :: "string \<Rightarrow> nat option" where
  "parse_page_size v =
     (if v = [] \<or> \<not> list_all is_digit v \<or> hd v = CHR ''0'' \<or> max_list_page_size < digits_value v then None
      else Some (digits_value v))"

definition is_continuation_token :: "list_resource \<Rightarrow> json \<Rightarrow> list_cursor option" where
  "is_continuation_token resource v =
     (case as_record v of
        None \<Rightarrow> None
      | Some fs \<Rightarrow>
          (case (as_string (jprop fs ''revisionDate''), as_string (jprop fs ''id'')) of
             (Some revision, Some row_id) \<Rightarrow>
               if jprop fs ''v'' = Some (jint 1) \<and> jprop fs ''type'' = Some (JStr (resource_text resource)) \<and>
                  revision \<noteq> [] \<and> date_parse revision \<noteq> None \<and> row_id \<noteq> []
               then Some \<lparr>lc_revision_date = revision, lc_id = row_id\<rparr> else None
           | _ \<Rightarrow> None))"

definition decode_continuation_token :: "string \<Rightarrow> list_resource \<Rightarrow> list_cursor option" where
  "decode_continuation_token v resource =
     (if v = [] \<or> \<not> list_all is_base64_url_char v \<or> length v mod 4 = 1 then None
      else Option.bind (decode_json v) (is_continuation_token resource))"

definition build_continuation_token :: "list_resource \<Rightarrow> ('r \<Rightarrow> string \<times> string) \<Rightarrow> 'r list_page \<Rightarrow> string option" where
  "build_continuation_token resource key page =
     (if \<not> lp_has_more page \<or> lp_items page = [] then None
      else Some (encode_json (JObj
        [(''v'', jint 1), (''type'', JStr (resource_text resource)),
         (''revisionDate'', JStr (fst (key (last (lp_items page))))), (''id'', JStr (snd (key (last (lp_items page)))))])))"

record list_query =
  lq_page_size :: "string option"
  lq_limit :: "string option"
  lq_continuation_token :: "string option"

definition parse_list_pagination :: "list_query \<Rightarrow> list_resource \<Rightarrow> (nat \<times> list_cursor option) option" where
  "parse_list_pagination q resource =
     (let raw = (case lq_page_size q of None \<Rightarrow> lq_limit q | Some s \<Rightarrow> Some s)
      in case (if truthy raw then parse_page_size (the raw) else Some default_list_page_size) of
           None \<Rightarrow> None
         | Some limit \<Rightarrow>
             if \<not> truthy (lq_continuation_token q) then Some (limit, None)
             else map_option (\<lambda>c. (limit, Some c)) (decode_continuation_token (the (lq_continuation_token q)) resource))"

section \<open>The folder repository\<close>

record folder_record =
  fr_id :: string
  fr_user_id :: string
  fr_name :: string
  fr_revision_date :: string

definition folder_from_row :: "folder_row \<Rightarrow> folder_record" where
  "folder_from_row r = \<lparr>fr_id = fo_id r, fr_user_id = fo_user_id r, fr_name = fo_encrypted_name r, fr_revision_date = fo_revision_date r\<rparr>"

definition folder_key :: "folder_record \<Rightarrow> string \<times> string" where
  "folder_key f = (fr_revision_date f, fr_id f)"

definition active_folder :: "string \<Rightarrow> folder_row \<Rightarrow> bool" where
  "active_folder user_id r \<longleftrightarrow> fo_user_id r = user_id \<and> fo_deleted_at r = None"

definition list_folders_by_user :: "string \<Rightarrow> database \<Rightarrow> folder_record list" where
  "list_folders_by_user user_id db =
     map folder_from_row (sort_key (\<lambda>r. (fo_revision_date r, fo_id r)) (filter (active_folder user_id) (folders db)))"

definition list_folders_by_user_page :: "string \<Rightarrow> nat \<Rightarrow> list_cursor option \<Rightarrow> database \<Rightarrow> folder_record list_page" where
  "list_folders_by_user_page user_id limit cursor db =
     page_of limit (map folder_from_row (sort_key (\<lambda>r. (fo_revision_date r, fo_id r))
       (filter (\<lambda>r. active_folder user_id r \<and> after_cursor cursor (fo_revision_date r, fo_id r)) (folders db))))"

definition find_folder_by_id :: "string \<Rightarrow> string \<Rightarrow> database \<Rightarrow> folder_record option" where
  "find_folder_by_id folder_id user_id db =
     map_option folder_from_row (sql_first (\<lambda>r. fo_id r = folder_id \<and> active_folder user_id r) (folders db))"

definition insert_folder :: "folder_row \<Rightarrow> database \<Rightarrow> js_error + (database \<times> nat)" where
  "insert_folder f db =
     (if sql_exists (\<lambda>r. fo_id r = fo_id f) (folders db) \<or> \<not> user_exists (fo_user_id f) db then Inl ConstraintError
      else Inr (folders_update (\<lambda>t. t @ [f]) db, 1))"

definition create_folder :: "folder_record \<Rightarrow> folder_record repo" where
  "create_folder f =
     with_batch [\<lambda>db prev. insert_folder
         \<lparr>fo_id = fr_id f, fo_user_id = fr_user_id f, fo_encrypted_name = fr_name f, fo_revision_date = fr_revision_date f,
          fo_deleted_at = None, fo_created_at = fr_revision_date f, fo_updated_at = fr_revision_date f\<rparr> db]
       (\<lambda>ns. return_value f)"

text \<open>The outcome of a write guarded by a revision; an empty current revision counts as not found.\<close>

datatype 'a revision_result = Written 'a | RevisionConflict string | RowNotFound

definition find_active_folder_revision :: "string \<Rightarrow> string \<Rightarrow> database \<Rightarrow> string option" where
  "find_active_folder_revision folder_id user_id db =
     map_option fo_revision_date (sql_first (\<lambda>r. fo_id r = folder_id \<and> active_folder user_id r) (folders db))"

definition conflict_or_missing :: "string option \<Rightarrow> 'a revision_result" where
  "conflict_or_missing current = (if truthy current then RevisionConflict (the current) else RowNotFound)"

definition update_folder :: "folder_record \<Rightarrow> string \<Rightarrow> folder_record revision_result repo" where
  "update_folder f expected_revision =
     with_batch
       [update_stmt folders folders_update
          (\<lambda>db prev r. fo_id r = fr_id f \<and> active_folder (fr_user_id f) r \<and> fo_revision_date r = expected_revision)
          (\<lambda>r. r\<lparr>fo_encrypted_name := fr_name f, fo_revision_date := fr_revision_date f, fo_updated_at := fr_revision_date f\<rparr>)]
       (\<lambda>ns db. return_value
          (if ns ! 0 \<noteq> 1 then conflict_or_missing (find_active_folder_revision (fr_id f) (fr_user_id f) db) else Written f) db)"

definition delete_folder :: "string \<Rightarrow> string \<Rightarrow> string \<Rightarrow> bool repo" where
  "delete_folder folder_id user_id now =
     with_batch
       [update_stmt folders folders_update (\<lambda>db prev r. fo_id r = folder_id \<and> active_folder user_id r)
          (\<lambda>r. r\<lparr>fo_deleted_at := Some now, fo_revision_date := now, fo_updated_at := now\<rparr>)]
       (\<lambda>ns. return_value (ns ! 0 = 1))"

definition folder_belongs_to_user :: "string \<Rightarrow> string \<Rightarrow> database \<Rightarrow> bool" where
  "folder_belongs_to_user folder_id user_id db \<longleftrightarrow> sql_exists (\<lambda>r. fo_id r = folder_id \<and> active_folder user_id r) (folders db)"

section \<open>The routes\<close>

definition auth_user_id :: "authenticated_request \<Rightarrow> string" where
  "auth_user_id auth = u_id (au_user (av_user auth))"

text \<open>A route of the vault: authenticated first, and any thrown error is the answer 503.\<close>

definition vault_route ::
    "mac \<Rightarrow> route_site \<Rightarrow> (authenticated_request \<Rightarrow> 'a reply repo) \<Rightarrow> database \<Rightarrow> database \<times> 'a reply" where
  "vault_route hmac site handler =
     with_authorization (authenticate_vault_request hmac (st_env site) (st_headers site) (st_seconds site)) handler"

definition emit_vault_mutation_audit_event ::
    "route_site \<Rightarrow> authenticated_request \<Rightarrow> string \<Rightarrow> string \<Rightarrow> string option \<Rightarrow> (string \<times> json) list \<Rightarrow> unit repo" where
  "emit_vault_mutation_audit_event site auth name target_type target_id context =
     emit_audit_event (st_audit site)
       \<lparr>ai_name = name, ai_outcome = ''success'', ai_actor = Some (Some (auth_user_id auth), Some (av_device_identifier auth)),
        ai_target = Some (target_type, target_id), ai_context = context\<rparr>"

definition audited_reply ::
    "route_site \<Rightarrow> authenticated_request \<Rightarrow> string \<Rightarrow> string \<Rightarrow> string option \<Rightarrow> (string \<times> json) list \<Rightarrow> 'a \<Rightarrow> 'a reply repo" where
  "audited_reply site auth name target_type target_id context answer =
     repo_then (emit_vault_mutation_audit_event site auth name target_type target_id context) (return_value (Reply answer))"

datatype folder_answer =
    FolderBody folder_record
  | FolderPage "folder_record list" "string option"
  | FolderDeleted string string

definition parse_folder_request_body :: "json \<Rightarrow> string option" where
  "parse_folder_request_body body =
     (case as_record body of
        None \<Rightarrow> None
      | Some fs \<Rightarrow> (case as_string (jprop fs ''name'') of Some name \<Rightarrow> if js_trim name = [] then None else Some name | None \<Rightarrow> None))"

definition required_string :: "json option \<Rightarrow> string option" where
  "required_string v = (case as_string v of Some s \<Rightarrow> if js_trim s = [] then None else Some s | None \<Rightarrow> None)"

definition parse_folder_update_request_body :: "json \<Rightarrow> (string \<times> string) option" where
  "parse_folder_update_request_body body =
     (case (parse_folder_request_body body, as_record body) of
        (Some name, Some fs) \<Rightarrow> map_option (Pair name) (required_string (jprop fs ''revisionDate''))
      | _ \<Rightarrow> None)"

definition handle_folder_create :: "mac \<Rightarrow> route_site \<Rightarrow> string \<Rightarrow> json \<Rightarrow> database \<Rightarrow> database \<times> folder_answer reply" where
  "handle_folder_create hmac site new_id body =
     vault_route hmac site (\<lambda>auth.
       case parse_folder_request_body body of
         None \<Rightarrow> return_value (ApiFailure 400 ''invalid_request'')
       | Some name \<Rightarrow>
           repo_bind (create_folder \<lparr>fr_id = new_id, fr_user_id = auth_user_id auth, fr_name = name, fr_revision_date = st_now site\<rparr>)
             (\<lambda>f. audited_reply site auth ''folder.create'' ''folder'' (Some (fr_id f)) [(''resultStatus'', JStr ''created'')] (FolderBody f)))"

definition handle_folder_list :: "mac \<Rightarrow> route_site \<Rightarrow> list_query \<Rightarrow> database \<Rightarrow> database \<times> folder_answer reply" where
  "handle_folder_list hmac site q =
     vault_route hmac site (\<lambda>auth.
       case parse_list_pagination q FolderList of
         None \<Rightarrow> return_value (ApiFailure 400 ''invalid_request'')
       | Some (limit, cursor) \<Rightarrow>
           repo_bind (repo_get (list_folders_by_user_page (auth_user_id auth) limit cursor)) (\<lambda>page.
             return_value (Reply (FolderPage (lp_items page) (build_continuation_token FolderList folder_key page)))))"

definition handle_folder_read :: "mac \<Rightarrow> route_site \<Rightarrow> string \<Rightarrow> database \<Rightarrow> database \<times> folder_answer reply" where
  "handle_folder_read hmac site folder_id =
     vault_route hmac site (\<lambda>auth.
       repo_bind (repo_get (find_folder_by_id folder_id (auth_user_id auth))) (\<lambda>found. return_value (case found of
         None \<Rightarrow> ApiFailure 404 ''folder_not_found'' | Some f \<Rightarrow> Reply (FolderBody f))))"

definition handle_folder_update :: "mac \<Rightarrow> route_site \<Rightarrow> string \<Rightarrow> json \<Rightarrow> database \<Rightarrow> database \<times> folder_answer reply" where
  "handle_folder_update hmac site folder_id body =
     vault_route hmac site (\<lambda>auth.
       case parse_folder_update_request_body body of
         None \<Rightarrow> return_value (ApiFailure 400 ''invalid_request'')
       | Some (name, revision) \<Rightarrow>
           repo_bind (update_folder \<lparr>fr_id = folder_id, fr_user_id = auth_user_id auth, fr_name = name, fr_revision_date = st_now site\<rparr> revision)
             (\<lambda>result. case result of
                RowNotFound \<Rightarrow> return_value (ApiFailure 404 ''folder_not_found'')
              | RevisionConflict current \<Rightarrow> return_value (ApiFailure 409 ''revision_conflict'')
              | Written f \<Rightarrow>
                  audited_reply site auth ''folder.update'' ''folder'' (Some (fr_id f)) [(''resultStatus'', JStr ''updated'')] (FolderBody f)))"

definition handle_folder_delete :: "mac \<Rightarrow> route_site \<Rightarrow> string \<Rightarrow> database \<Rightarrow> database \<times> folder_answer reply" where
  "handle_folder_delete hmac site folder_id =
     vault_route hmac site (\<lambda>auth.
       repo_bind (delete_folder folder_id (auth_user_id auth) (st_now site)) (\<lambda>deleted.
         if \<not> deleted then return_value (ApiFailure 404 ''folder_not_found'')
         else audited_reply site auth ''folder.delete'' ''folder'' (Some folder_id) [(''resultStatus'', JStr ''deleted'')]
                (FolderDeleted folder_id (st_now site))))"

end
