(* ===== verification/Ciphers.thy ===== *)
theory Ciphers
  imports CollectionAccess Folders Attachments
begin

text \<open>
  Vault items: \<open>src/repositories/cipher-repository.ts\<close> and \<open>src/repositories/organization-cipher-mutation-repository.ts\<close>. A cipher without an
  organisation belongs to its user; a cipher of an organisation is reached through the collections it is in. The
  foreign keys with \<open>ON DELETE CASCADE\<close> remove the attachments and the collection entries of a deleted cipher.
\<close>

section \<open>Rows and records\<close>

record cipher_record =
  vr_id :: string
  vr_user_id :: string
  vr_folder_id :: "string option"
  vr_type :: int
  vr_favorite :: bool
  vr_encrypted_json :: string
  vr_revision_date :: string
  vr_created_at :: string
  vr_deleted_at :: "string option"

record accessible_cipher = cipher_record +
  va_organization_id :: "string option"
  va_cipher_key :: "string option"
  va_collection_ids :: "string list"
  va_can_edit :: bool
  va_can_view_password :: bool

definition cipher_from_row :: "cipher_row \<Rightarrow> cipher_record" where
  "cipher_from_row r =
     \<lparr>vr_id = vc_id r, vr_user_id = vc_user_id r, vr_folder_id = vc_folder_id r, vr_type = vc_type r, vr_favorite = vc_favorite r,
      vr_encrypted_json = vc_encrypted_json r, vr_revision_date = vc_revision_date r, vr_created_at = vc_created_at r,
      vr_deleted_at = vc_deleted_at r\<rparr>"

definition row_key :: "cipher_row \<Rightarrow> string \<times> string" where
  "row_key r = (vc_revision_date r, vc_id r)"

text \<open>\<open>id = ? AND user_id = ? AND organization_id IS NULL\<close>.\<close>

definition personal_cipher :: "string \<Rightarrow> cipher_row \<Rightarrow> bool" where
  "personal_cipher user_id r \<longleftrightarrow> vc_user_id r = user_id \<and> vc_organization_id r = None"

definition personal_active :: "string \<Rightarrow> string \<Rightarrow> cipher_row \<Rightarrow> bool" where
  "personal_active cipher_id user_id r \<longleftrightarrow> vc_id r = cipher_id \<and> personal_cipher user_id r \<and> vc_deleted_at r = None"

section \<open>Reading\<close>

definition list_ciphers_by_user :: "string \<Rightarrow> database \<Rightarrow> cipher_record list" where
  "list_ciphers_by_user user_id db = map cipher_from_row (sort_key row_key (filter (personal_cipher user_id) (ciphers db)))"

definition list_ciphers_by_user_page :: "string \<Rightarrow> nat \<Rightarrow> list_cursor option \<Rightarrow> database \<Rightarrow> cipher_record list_page" where
  "list_ciphers_by_user_page user_id limit cursor db =
     page_of limit (map cipher_from_row (sort_key row_key
       (filter (\<lambda>r. personal_cipher user_id r \<and> after_cursor cursor (row_key r)) (ciphers db))))"

definition find_cipher_by_id :: "string \<Rightarrow> string \<Rightarrow> database \<Rightarrow> cipher_record option" where
  "find_cipher_by_id cipher_id user_id db =
     map_option cipher_from_row (sql_first (\<lambda>r. vc_id r = cipher_id \<and> personal_cipher user_id r) (ciphers db))"

text \<open>The accessible collections a cipher is in.\<close>

definition cipher_accesses :: "access_values \<Rightarrow> database \<Rightarrow> cipher_row \<Rightarrow> collection_access list" where
  "cipher_accesses v db r =
     [a. mapping \<leftarrow> collection_ciphers db, cc_cipher_id mapping = vc_id r,
         a \<leftarrow> accessible_organization_collections v db,
         ca_collection_id a = cc_collection_id mapping \<and> sql_eq (Some (ca_organization_id a)) (vc_organization_id r)]"

definition accessible_cipher_predicate :: "access_values \<Rightarrow> database \<Rightarrow> cipher_row \<Rightarrow> bool" where
  "accessible_cipher_predicate v db r \<longleftrightarrow>
     vc_organization_id r = None \<and> vc_user_id r = ac_user_id v \<or>
     vc_organization_id r \<noteq> None \<and> cipher_accesses v db r \<noteq> []"

definition accessible_collection_ids :: "access_values \<Rightarrow> database \<Rightarrow> cipher_row \<Rightarrow> string list" where
  "accessible_collection_ids v db r = sort (remdups (map ca_collection_id (cipher_accesses v db r)))"

text \<open>\<open>accessibleCipherFromRow\<close> on the columns of \<open>accessibleCipherSelect\<close>.\<close>

definition accessible_cipher_from_row :: "access_values \<Rightarrow> database \<Rightarrow> cipher_row \<Rightarrow> js_error + accessible_cipher" where
  "accessible_cipher_from_row v db r =
     (let make = (\<lambda>org key ids edit view.
            \<lparr>vr_id = vc_id r, vr_user_id = vc_user_id r, vr_folder_id = vc_folder_id r, vr_type = vc_type r,
             vr_favorite = vc_favorite r, vr_encrypted_json = vc_encrypted_json r, vr_revision_date = vc_revision_date r,
             vr_created_at = vc_created_at r, vr_deleted_at = vc_deleted_at r, va_organization_id = org, va_cipher_key = key,
             va_collection_ids = ids, va_can_edit = edit, va_can_view_password = view\<rparr>);
          ids = accessible_collection_ids v db r; accesses = cipher_accesses v db r
      in if vc_organization_id r = None then Inr (make None None [] True True)
         else if vc_cipher_key r = Some [] then Inl (JsError ''Accessible organization cipher has an invalid opaque key.'')
         else if [] \<in> set ids then Inl (JsError ''Accessible organization cipher has invalid collections.'')
         else if ids = [] then Inl (JsError ''Accessible organization cipher has no readable collection.'')
         else Inr (make (vc_organization_id r) (vc_cipher_key r) ids (list_ex (\<lambda>a. \<not> ca_read_only a) accesses)
                (list_ex (\<lambda>a. \<not> ca_hide_passwords a) accesses)))"

text \<open>\<open>rows.map(f)\<close> with an \<open>f\<close> that may throw.\<close>

fun map_throwing :: "('a \<Rightarrow> 'e + 'b) \<Rightarrow> 'a list \<Rightarrow> 'e + 'b list" where
  "map_throwing f [] = Inr []"
| "map_throwing f (x # xs) = and_then (f x) (\<lambda>y. and_then (map_throwing f xs) (\<lambda>ys. Inr (y # ys)))"

definition accessible_rows :: "access_values \<Rightarrow> list_cursor option \<Rightarrow> database \<Rightarrow> cipher_row list" where
  "accessible_rows v cursor db =
     sort_key row_key (filter (\<lambda>r. accessible_cipher_predicate v db r \<and> after_cursor cursor (row_key r)) (ciphers db))"

definition list_accessible_ciphers_by_user :: "string \<Rightarrow> policy_actor option \<Rightarrow> database \<Rightarrow> js_error + accessible_cipher list" where
  "list_accessible_ciphers_by_user user_id actor db =
     (let v = organization_access_actor_values user_id actor
      in map_throwing (accessible_cipher_from_row v db) (accessible_rows v None db))"

definition list_accessible_ciphers_by_user_page ::
    "string \<Rightarrow> policy_actor option \<Rightarrow> nat \<Rightarrow> list_cursor option \<Rightarrow> database \<Rightarrow> js_error + accessible_cipher list_page" where
  "list_accessible_ciphers_by_user_page user_id actor limit cursor db =
     (let v = organization_access_actor_values user_id actor
      in and_then (map_throwing (accessible_cipher_from_row v db) (take (limit + 1) (accessible_rows v cursor db)))
           (\<lambda>rows. Inr \<lparr>lp_items = take limit rows, lp_has_more = limit < length rows\<rparr>))"

definition find_accessible_cipher_by_id ::
    "string \<Rightarrow> string \<Rightarrow> policy_actor option \<Rightarrow> database \<Rightarrow> js_error + accessible_cipher option" where
  "find_accessible_cipher_by_id cipher_id user_id actor db =
     (let v = organization_access_actor_values user_id actor
      in case sql_first (\<lambda>r. vc_id r = cipher_id \<and> accessible_cipher_predicate v db r) (ciphers db) of
           None \<Rightarrow> Inr None
         | Some r \<Rightarrow> and_then (accessible_cipher_from_row v db r) (\<lambda>c. Inr (Some c)))"

section \<open>Who may do what\<close>

record cipher_access =
  cx_found :: bool
  cx_can_read :: bool
  cx_can_edit :: bool
  cx_can_delete :: bool
  cx_can_view_password :: bool
  cx_organization_id :: "string option"

definition denied_cipher_access :: "bool \<Rightarrow> string option \<Rightarrow> cipher_access" where
  "denied_cipher_access found organization_id =
     \<lparr>cx_found = found, cx_can_read = False, cx_can_edit = False, cx_can_delete = False, cx_can_view_password = False,
      cx_organization_id = organization_id\<rparr>"

text \<open>\<open>COUNT( * )\<close>, \<open>MIN(readOnly)\<close> and \<open>MIN(hidePasswords)\<close> over the accessible collections of the cipher.\<close>

definition resolve_cipher_access :: "string \<Rightarrow> string \<Rightarrow> policy_actor option \<Rightarrow> database \<Rightarrow> cipher_access" where
  "resolve_cipher_access caller cipher_id actor db =
     (case sql_first (\<lambda>r. vc_id r = cipher_id) (ciphers db) of
        None \<Rightarrow> denied_cipher_access False None
      | Some r \<Rightarrow>
          (case vc_organization_id r of
             None \<Rightarrow>
               (let owner = (vc_user_id r = caller)
                in \<lparr>cx_found = True, cx_can_read = owner, cx_can_edit = owner, cx_can_delete = owner, cx_can_view_password = owner,
                    cx_organization_id = None\<rparr>)
           | Some org \<Rightarrow>
               (let accesses = cipher_accesses (organization_access_actor_values caller actor) db r;
                    has = (accesses \<noteq> []); writable = (has \<and> \<not> list_all ca_read_only accesses)
                in \<lparr>cx_found = True, cx_can_read = has, cx_can_edit = writable, cx_can_delete = writable,
                    cx_can_view_password = (has \<and> \<not> list_all ca_hide_passwords accesses), cx_organization_id = Some org\<rparr>)))"

text \<open>The collections of an organisation, among the given ids, that the actor may write to.\<close>

definition managed_organization_collections :: "access_values \<Rightarrow> string \<Rightarrow> string list \<Rightarrow> database \<Rightarrow> string list" where
  "managed_organization_collections v org ids db =
     sort (remdups (map cl_id (filter (\<lambda>c. cl_organization_id c = org \<and> cl_id c \<in> set ids \<and>
       list_ex (\<lambda>a. ca_collection_id a = cl_id c \<and> ca_organization_id a = cl_organization_id c \<and> \<not> ca_read_only a)
         (accessible_organization_collections v db)) (collections db))))"

definition has_unique_collection_ids :: "string list \<Rightarrow> bool" where
  "has_unique_collection_ids ids \<longleftrightarrow> ids \<noteq> [] \<and> length ids \<le> 100 \<and> list_all (\<lambda>i. i \<noteq> []) ids \<and> distinct ids"

definition validate_managed_organization_collections ::
    "string \<Rightarrow> policy_actor option \<Rightarrow> string \<Rightarrow> string list \<Rightarrow> database \<Rightarrow> bool" where
  "validate_managed_organization_collections user_id actor org ids db \<longleftrightarrow>
     has_unique_collection_ids ids \<and>
     length (managed_organization_collections (organization_access_actor_values user_id actor) org ids db) = length ids"

section \<open>Personal ciphers\<close>

definition folder_reference :: "string option \<Rightarrow> database \<Rightarrow> bool" where
  "folder_reference folder db \<longleftrightarrow> (case folder of None \<Rightarrow> True | Some f \<Rightarrow> sql_exists (\<lambda>r. fo_id r = f) (folders db))"

definition insert_cipher :: "cipher_row \<Rightarrow> database \<Rightarrow> js_error + (database \<times> nat)" where
  "insert_cipher r db =
     (if sql_exists (\<lambda>s. vc_id s = vc_id r) (ciphers db) \<or> \<not> user_exists (vc_user_id r) db \<or>
         \<not> folder_reference (vc_folder_id r) db \<or>
         (case vc_organization_id r of None \<Rightarrow> False | Some g \<Rightarrow> \<not> sql_exists (\<lambda>s. org_id s = g) (organizations db))
      then Inl ConstraintError else Inr (ciphers_update (\<lambda>t. t @ [r]) db, 1))"

definition create_cipher :: "cipher_record \<Rightarrow> cipher_record repo" where
  "create_cipher c =
     with_batch [\<lambda>db prev. insert_cipher
         \<lparr>vc_id = vr_id c, vc_user_id = vr_user_id c, vc_folder_id = vr_folder_id c, vc_type = vr_type c,
          vc_favorite = vr_favorite c, vc_encrypted_json = vr_encrypted_json c, vc_revision_date = vr_revision_date c,
          vc_deleted_at = None, vc_created_at = vr_created_at c, vc_updated_at = vr_revision_date c,
          vc_organization_id = None, vc_cipher_key = None\<rparr> db]
       (\<lambda>ns. return_value c)"

text \<open>An UPDATE that sets \<open>folder_id\<close>: the reference is checked when a row is changed.\<close>

definition move_stmt :: "string option \<Rightarrow> (cipher_row \<Rightarrow> bool) \<Rightarrow> (cipher_row \<Rightarrow> cipher_row) \<Rightarrow> database stmt" where
  "move_stmt folder p f db prev =
     (if \<not> folder_reference folder db \<and> 0 < sql_count p (ciphers db) then Inl ConstraintError
      else update_stmt ciphers ciphers_update (\<lambda>db prev. p) f db prev)"

definition find_active_cipher_revision :: "string \<Rightarrow> string \<Rightarrow> database \<Rightarrow> string option" where
  "find_active_cipher_revision cipher_id user_id db =
     map_option vc_revision_date (sql_first (personal_active cipher_id user_id) (ciphers db))"

definition find_active_cipher_created_at :: "string \<Rightarrow> string \<Rightarrow> database \<Rightarrow> string option" where
  "find_active_cipher_created_at cipher_id user_id db =
     map_option vc_created_at (sql_first (personal_active cipher_id user_id) (ciphers db))"

definition written_cipher :: "cipher_record \<Rightarrow> cipher_row \<Rightarrow> cipher_row" where
  "written_cipher c r =
     r\<lparr>vc_folder_id := vr_folder_id c, vc_type := vr_type c, vc_favorite := vr_favorite c,
       vc_encrypted_json := vr_encrypted_json c, vc_revision_date := vr_revision_date c, vc_updated_at := vr_revision_date c\<rparr>"

definition update_cipher :: "cipher_record \<Rightarrow> string \<Rightarrow> cipher_record revision_result repo" where
  "update_cipher c expected_revision =
     repo_bind (repo_get (find_active_cipher_created_at (vr_id c) (vr_user_id c))) (\<lambda>created.
       with_batch
         [move_stmt (vr_folder_id c)
            (\<lambda>r. personal_active (vr_id c) (vr_user_id c) r \<and> vc_revision_date r = expected_revision) (written_cipher c)]
         (\<lambda>ns db. return_value
            (if ns ! 0 \<noteq> 1 then conflict_or_missing (find_active_cipher_revision (vr_id c) (vr_user_id c) db)
             else Written (c\<lparr>vr_created_at := (case created of Some x \<Rightarrow> x | None \<Rightarrow> vr_created_at c), vr_deleted_at := None\<rparr>)) db))"

definition trashed :: "string \<Rightarrow> cipher_row \<Rightarrow> cipher_row" where
  "trashed now r = r\<lparr>vc_deleted_at := Some now, vc_revision_date := now, vc_updated_at := now\<rparr>"

definition restored :: "string \<Rightarrow> cipher_row \<Rightarrow> cipher_row" where
  "restored now r = r\<lparr>vc_deleted_at := None, vc_revision_date := now, vc_updated_at := now\<rparr>"

definition soft_delete_cipher :: "string \<Rightarrow> string \<Rightarrow> string \<Rightarrow> bool repo" where
  "soft_delete_cipher cipher_id user_id deleted_at =
     with_batch [update_stmt ciphers ciphers_update (\<lambda>db prev. personal_active cipher_id user_id) (trashed deleted_at)]
       (\<lambda>ns. return_value (ns ! 0 = 1))"

definition restore_cipher :: "string \<Rightarrow> string \<Rightarrow> string \<Rightarrow> bool repo" where
  "restore_cipher cipher_id user_id now =
     with_batch
       [update_stmt ciphers ciphers_update
          (\<lambda>db prev r. vc_id r = cipher_id \<and> personal_cipher user_id r \<and> vc_deleted_at r \<noteq> None) (restored now)]
       (\<lambda>ns. return_value (ns ! 0 = 1))"

text \<open>\<open>DELETE FROM ciphers\<close> with its cascades.\<close>

definition delete_ciphers :: "(cipher_row \<Rightarrow> bool) \<Rightarrow> database stmt" where
  "delete_ciphers p db prev =
     (let gone = map vc_id (filter p (ciphers db))
      in Inr (cipher_attachments_update (sql_delete (\<lambda>a. at_cipher_id a \<in> set gone))
                (collection_ciphers_update (sql_delete (\<lambda>m. cc_cipher_id m \<in> set gone)) (ciphers_update (sql_delete p) db)),
              sql_count p (ciphers db)))"

definition permanently_delete_cipher :: "string \<Rightarrow> string \<Rightarrow> bool repo" where
  "permanently_delete_cipher cipher_id user_id =
     with_batch [delete_ciphers (\<lambda>r. vc_id r = cipher_id \<and> personal_cipher user_id r)] (\<lambda>ns. return_value (0 < ns ! 0))"

section \<open>Bulk operations\<close>

definition cipher_bulk_mutation_chunk_size :: nat where "cipher_bulk_mutation_chunk_size = 90"

definition chunk_cipher_ids :: "string list \<Rightarrow> string list list" where
  "chunk_cipher_ids ids = chunks cipher_bulk_mutation_chunk_size ids"

definition run_cipher_mutation_batch :: "database stmt list \<Rightarrow> nat repo" where
  "run_cipher_mutation_batch statements =
     (if statements = [] then return_value 0 else with_batch statements (\<lambda>ns. return_value (sum_list ns)))"

definition bulk_move_ciphers :: "string list \<Rightarrow> string \<Rightarrow> string option \<Rightarrow> string \<Rightarrow> nat repo" where
  "bulk_move_ciphers ids user_id folder now =
     run_cipher_mutation_batch (map (\<lambda>chunk. move_stmt folder
         (\<lambda>r. vc_id r \<in> set chunk \<and> personal_cipher user_id r \<and> vc_deleted_at r = None)
         (\<lambda>r. r\<lparr>vc_folder_id := folder, vc_revision_date := now, vc_updated_at := now\<rparr>)) (chunk_cipher_ids ids))"

definition bulk_soft_delete_ciphers :: "string list \<Rightarrow> string \<Rightarrow> string \<Rightarrow> nat repo" where
  "bulk_soft_delete_ciphers ids user_id now =
     run_cipher_mutation_batch (map (\<lambda>chunk. update_stmt ciphers ciphers_update
         (\<lambda>db prev r. vc_id r \<in> set chunk \<and> personal_cipher user_id r \<and> vc_deleted_at r = None) (trashed now)) (chunk_cipher_ids ids))"

definition restorable :: "string list \<Rightarrow> string \<Rightarrow> cipher_row \<Rightarrow> bool" where
  "restorable chunk user_id r \<longleftrightarrow> vc_id r \<in> set chunk \<and> personal_cipher user_id r \<and> vc_deleted_at r \<noteq> None"

text \<open>Per chunk a SELECT and an UPDATE with the same condition; the answer is the selected ids.\<close>

fun restore_chunks :: "string list list \<Rightarrow> string \<Rightarrow> string \<Rightarrow> database \<Rightarrow> database \<times> string list" where
  "restore_chunks [] user_id now db = (db, [])"
| "restore_chunks (chunk # rest) user_id now db =
     (case restore_chunks rest user_id now (ciphers_update (sql_update (restorable chunk user_id) (restored now)) db) of
        (db', ids) \<Rightarrow> (db', map vc_id (filter (restorable chunk user_id) (ciphers db)) @ ids))"

definition bulk_restore_ciphers :: "string list \<Rightarrow> string \<Rightarrow> string \<Rightarrow> string list repo" where
  "bulk_restore_ciphers ids user_id now db =
     (case restore_chunks (chunk_cipher_ids ids) user_id now db of (db', restored_ids) \<Rightarrow> (db', Inr restored_ids))"

definition bulk_permanently_delete_ciphers :: "string list \<Rightarrow> string \<Rightarrow> nat repo" where
  "bulk_permanently_delete_ciphers ids user_id =
     run_cipher_mutation_batch
       (map (\<lambda>chunk. delete_ciphers (\<lambda>r. vc_id r \<in> set chunk \<and> personal_cipher user_id r)) (chunk_cipher_ids ids))"

section \<open>Moving ciphers into an organisation\<close>

record organization_cipher_input =
  oc_actor :: "policy_actor option"
  oc_id :: string
  oc_user_id :: string
  oc_organization_id :: string
  oc_collection_ids :: "string list"
  oc_type :: int
  oc_favorite :: bool
  oc_encrypted_json :: string
  oc_cipher_key :: "string option"
  oc_now :: string

definition max_cipher_key_bytes :: nat where "max_cipher_key_bytes = 65536"

definition cipher_key_ok :: "string option \<Rightarrow> bool" where
  "cipher_key_ok key \<longleftrightarrow> (case key of None \<Rightarrow> True | Some k \<Rightarrow> k \<noteq> [] \<and> utf8_length k \<le> max_cipher_key_bytes)"

definition organization_cipher_input_ok :: "organization_cipher_input \<Rightarrow> bool" where
  "organization_cipher_input_ok i \<longleftrightarrow>
     oc_id i \<noteq> [] \<and> oc_user_id i \<noteq> [] \<and> oc_organization_id i \<noteq> [] \<and> cipher_key_ok (oc_cipher_key i) \<and>
     has_unique_collection_ids (oc_collection_ids i)"

definition managed_ids :: "organization_cipher_input \<Rightarrow> database \<Rightarrow> string list" where
  "managed_ids i =
     managed_organization_collections (organization_access_actor_values (oc_user_id i) (oc_actor i)) (oc_organization_id i)
       (oc_collection_ids i)"

text \<open>The second statement: the entries of the transitioned cipher, when the first changed one row.\<close>

definition transitioned :: "organization_cipher_input \<Rightarrow> cipher_row \<Rightarrow> bool" where
  "transitioned i r \<longleftrightarrow>
     vc_id r = oc_id i \<and> vc_user_id r = oc_user_id i \<and> vc_organization_id r = Some (oc_organization_id i) \<and>
     vc_revision_date r = oc_now i \<and> vc_updated_at r = oc_now i"

definition mapping_stmt :: "organization_cipher_input \<Rightarrow> database stmt" where
  "mapping_stmt i db prev =
     (if prev \<noteq> 1 \<or> \<not> sql_exists (transitioned i) (ciphers db) then Inr (db, 0)
      else (let entries = map (\<lambda>c. \<lparr>cc_collection_id = c, cc_cipher_id = oc_id i\<rparr>) (managed_ids i db)
            in if list_ex (\<lambda>m. m \<in> set (collection_ciphers db)) entries then Inl ConstraintError
               else Inr (collection_ciphers_update (\<lambda>t. t @ entries) db, length entries)))"

definition not_fully_applied :: js_error where "not_fully_applied = JsError ''Organization cipher batch did not fully apply.''"

definition new_organization_cipher_row :: "organization_cipher_input \<Rightarrow> cipher_row" where
  "new_organization_cipher_row i =
     \<lparr>vc_id = oc_id i, vc_user_id = oc_user_id i, vc_folder_id = None, vc_type = oc_type i, vc_favorite = oc_favorite i,
      vc_encrypted_json = oc_encrypted_json i, vc_revision_date = oc_now i, vc_deleted_at = None, vc_created_at = oc_now i,
      vc_updated_at = oc_now i, vc_organization_id = Some (oc_organization_id i), vc_cipher_key = oc_cipher_key i\<rparr>"

definition create_organization_cipher :: "organization_cipher_input \<Rightarrow> unit repo" where
  "create_organization_cipher i =
     (if \<not> organization_cipher_input_ok i then throw (JsError ''Organization cipher input is invalid.'')
      else with_batch
        [\<lambda>db prev. if length (managed_ids i db) = length (oc_collection_ids i) then insert_cipher (new_organization_cipher_row i) db
            else Inr (db, 0),
         mapping_stmt i]
        (\<lambda>ns. if ns = [1, length (oc_collection_ids i)] then return_value () else throw not_fully_applied))"

definition shareable :: "organization_cipher_input \<Rightarrow> string \<Rightarrow> database \<Rightarrow> cipher_row \<Rightarrow> bool" where
  "shareable i expected_revision db r \<longleftrightarrow>
     personal_active (oc_id i) (oc_user_id i) r \<and> vc_revision_date r = expected_revision \<and>
     \<not> sql_exists (\<lambda>m. cc_cipher_id m = vc_id r) (collection_ciphers db) \<and>
     \<not> sql_exists (\<lambda>a. at_cipher_id a = vc_id r) (cipher_attachments db) \<and>
     length (managed_ids i db) = length (oc_collection_ids i)"

definition shared_row :: "organization_cipher_input \<Rightarrow> cipher_row \<Rightarrow> cipher_row" where
  "shared_row i r =
     r\<lparr>vc_folder_id := None, vc_type := oc_type i, vc_favorite := oc_favorite i, vc_encrypted_json := oc_encrypted_json i,
       vc_revision_date := oc_now i, vc_updated_at := oc_now i, vc_organization_id := Some (oc_organization_id i),
       vc_cipher_key := oc_cipher_key i\<rparr>"

definition share_personal_cipher_with_organization ::
    "organization_cipher_input \<Rightarrow> string \<Rightarrow> unit revision_result repo" where
  "share_personal_cipher_with_organization i expected_revision =
     (if \<not> organization_cipher_input_ok i then throw (JsError ''Organization cipher input is invalid.'')
      else with_batch
        [update_stmt ciphers ciphers_update (\<lambda>db prev. shareable i expected_revision db) (shared_row i), mapping_stmt i]
        (\<lambda>ns db.
           if ns = [1, length (oc_collection_ids i)] then return_value (Written ()) db
           else if ns \<noteq> [0, 0] then throw not_fully_applied db
           else return_value
             (case find_active_cipher_revision (oc_id i) (oc_user_id i) db of
                Some current \<Rightarrow> if current \<noteq> [] \<and> current \<noteq> expected_revision then RevisionConflict current else RowNotFound
              | None \<Rightarrow> RowNotFound) db))"

section \<open>Ciphers of an organisation\<close>

definition writable_organization_cipher :: "access_values \<Rightarrow> database \<Rightarrow> cipher_row \<Rightarrow> bool" where
  "writable_organization_cipher v db r \<longleftrightarrow>
     vc_organization_id r \<noteq> None \<and> list_ex (\<lambda>a. \<not> ca_read_only a) (cipher_accesses v db r) \<and>
     \<not> sql_exists (\<lambda>a. at_cipher_id a = vc_id r) (cipher_attachments db)"

text \<open>The write, the row it returned, or the reason that no row was written.\<close>

definition mutation_failure ::
    "access_values \<Rightarrow> string \<Rightarrow> string option \<Rightarrow> (cipher_row \<Rightarrow> bool) \<Rightarrow> database \<Rightarrow> 'a revision_result" where
  "mutation_failure v cipher_id expected_revision lifecycle db =
     (if expected_revision = None then RowNotFound
      else (case sql_first (\<lambda>r. vc_id r = cipher_id \<and> lifecycle r \<and> writable_organization_cipher v db r) (ciphers db) of
              Some r \<Rightarrow> RevisionConflict (vc_revision_date r)
            | None \<Rightarrow> RowNotFound))"

definition active_row :: "cipher_row \<Rightarrow> bool" where "active_row r \<longleftrightarrow> vc_deleted_at r = None"

definition organization_write ::
    "access_values \<Rightarrow> string \<Rightarrow> string option \<Rightarrow> (cipher_row \<Rightarrow> bool) \<Rightarrow> (cipher_row \<Rightarrow> bool) \<Rightarrow> (cipher_row \<Rightarrow> cipher_row)
      \<Rightarrow> cipher_row revision_result repo" where
  "organization_write v cipher_id expected_revision lifecycle guard effect =
     repo_bind (repo_get (\<lambda>db. map_option effect
         (sql_first (\<lambda>r. vc_id r = cipher_id \<and> lifecycle r \<and> guard r \<and> writable_organization_cipher v db r) (ciphers db))))
       (\<lambda>row. with_batch
         [update_stmt ciphers ciphers_update
            (\<lambda>db prev r. vc_id r = cipher_id \<and> lifecycle r \<and> guard r \<and> writable_organization_cipher v db r) effect]
         (\<lambda>ns db. return_value (case row of
            Some r \<Rightarrow> Written r | None \<Rightarrow> mutation_failure v cipher_id expected_revision lifecycle db) db))"

definition update_organization_cipher ::
    "policy_actor option \<Rightarrow> cipher_record \<Rightarrow> string option \<Rightarrow> string \<Rightarrow> cipher_row revision_result repo" where
  "update_organization_cipher actor c key expected_revision =
     (if \<not> cipher_key_ok key then throw (JsError ''Organization cipher key must contain 1 to 65536 UTF-8 bytes'')
      else organization_write (organization_access_actor_values (vr_user_id c) actor) (vr_id c) (Some expected_revision) active_row
        (\<lambda>r. vc_revision_date r = expected_revision \<and> vc_revision_date r < vr_revision_date c)
        (\<lambda>r. r\<lparr>vc_type := vr_type c, vc_favorite := vr_favorite c, vc_encrypted_json := vr_encrypted_json c, vc_cipher_key := key,
               vc_revision_date := vr_revision_date c, vc_updated_at := vr_revision_date c\<rparr>))"

definition soft_delete_organization_cipher ::
    "policy_actor option \<Rightarrow> string \<Rightarrow> string \<Rightarrow> string \<Rightarrow> string option \<Rightarrow> cipher_row revision_result repo" where
  "soft_delete_organization_cipher actor cipher_id user_id now expected_revision =
     organization_write (organization_access_actor_values user_id actor) cipher_id expected_revision active_row
       (\<lambda>r. vc_revision_date r < now \<and> expected expected_revision (Some (vc_revision_date r))) (trashed now)"

definition restore_organization_cipher ::
    "policy_actor option \<Rightarrow> string \<Rightarrow> string \<Rightarrow> string \<Rightarrow> string option \<Rightarrow> cipher_row revision_result repo" where
  "restore_organization_cipher actor cipher_id user_id now expected_revision =
     organization_write (organization_access_actor_values user_id actor) cipher_id expected_revision (\<lambda>r. \<not> active_row r)
       (\<lambda>r. vc_revision_date r < now \<and> expected expected_revision (Some (vc_revision_date r))) (restored now)"

definition permanently_delete_organization_cipher ::
    "policy_actor option \<Rightarrow> string \<Rightarrow> string \<Rightarrow> string option \<Rightarrow> unit revision_result repo" where
  "permanently_delete_organization_cipher actor cipher_id user_id expected_revision db =
     (let v = organization_access_actor_values user_id actor;
          doomed = (\<lambda>r. vc_id r = cipher_id \<and> expected expected_revision (Some (vc_revision_date r)) \<and>
            writable_organization_cipher v db r)
      in with_batch [delete_ciphers doomed]
           (\<lambda>ns db'. return_value (if 0 < ns ! 0 then Written () else mutation_failure v cipher_id expected_revision (\<lambda>r. True) db') db')
           db)"

end
