(* ===== verification/VaultRoutes.thy ===== *)
theory VaultRoutes
  imports Ciphers
begin

text \<open>
  The cipher routes of \<open>src/app.ts\<close>. Every route authenticates the request, reads its body, checks the folder and the access
  and then calls the repositories; a thrown error is the answer 503. The stored text of a payload is
  \<open>JSON.stringify\<close> as \<open>Json\<close> has it, for payloads whose numbers are integers; the shape of the bodies
  (\<open>buildCipherResponse\<close>) is left out. The object store is an argument that says which deletions succeed.
\<close>

section \<open>Request bodies\<close>

text \<open>\<open>None\<close> is \<open>undefined\<close> (a malformed id), \<open>Some None\<close> is \<open>null\<close>.\<close>

definition parse_optional_id :: "json option \<Rightarrow> string option option" where
  "parse_optional_id v =
     (if v = None \<or> v = Some JNull then Some None
      else (case as_string v of Some s \<Rightarrow> if js_trim s = [] then None else Some (Some s) | None \<Rightarrow> None))"

definition parse_bounded_identifier :: "json option \<Rightarrow> string option" where
  "parse_bounded_identifier v =
     (case map_option js_trim (as_string v) of
        None \<Rightarrow> None | Some s \<Rightarrow> if s \<noteq> [] \<and> length s \<le> 128 then Some s else None)"

record cipher_request =
  cq_encrypted_json :: string
  cq_favorite :: bool
  cq_folder_id :: "string option"
  cq_type :: int

definition parse_cipher_create_request_body :: "json \<Rightarrow> cipher_request option" where
  "parse_cipher_create_request_body body =
     (case as_record body of
        None \<Rightarrow> None
      | Some fs \<Rightarrow>
          (let kind = jprop fs ''type''
           in if kind \<noteq> Some (jint 1) \<and> kind \<noteq> Some (jint 2) then None
              else map_option (\<lambda>folder.
                \<lparr>cq_encrypted_json = json_text (JObj fs), cq_favorite = (jprop fs ''favorite'' = Some (JBool True)),
                 cq_folder_id = folder, cq_type = (if kind = Some (jint 1) then 1 else 2)\<rparr>)
                (parse_optional_id (jprop fs ''folderId''))))"

text \<open>\<open>a ?? b\<close> on properties.\<close>

definition or_else :: "json option \<Rightarrow> json option \<Rightarrow> json option" where
  "or_else a b = (if a = None \<or> a = Some JNull then b else a)"

definition parse_cipher_update_request_body :: "json \<Rightarrow> (cipher_request \<times> string) option" where
  "parse_cipher_update_request_body body =
     (case (parse_cipher_create_request_body body, as_record body) of
        (Some c, Some fs) \<Rightarrow> map_option (Pair c) (required_string (or_else (jprop fs ''revisionDate'') (jprop fs ''lastKnownRevisionDate'')))
      | _ \<Rightarrow> None)"

definition max_bulk_cipher_ids :: nat where "max_bulk_cipher_ids = 1000"

text \<open>The trimmed ids, each once, in their first order.\<close>

fun bulk_ids :: "string list \<Rightarrow> json list \<Rightarrow> string list option" where
  "bulk_ids seen [] = Some []"
| "bulk_ids seen (v # vs) =
     (case as_string (Some v) of
        None \<Rightarrow> None
      | Some s \<Rightarrow>
          let i = js_trim s
          in if i = [] then None
             else if i \<in> set seen then bulk_ids seen vs
             else map_option (Cons i) (bulk_ids (i # seen) vs))"

definition parse_cipher_bulk_request_body :: "json \<Rightarrow> string list option" where
  "parse_cipher_bulk_request_body body =
     (case as_record body of
        None \<Rightarrow> None
      | Some fs \<Rightarrow>
          if jprop fs ''organizationId'' \<noteq> None \<and> jprop fs ''organizationId'' \<noteq> Some JNull then None
          else (case jprop fs ''ids'' of
                  Some (JArr vs) \<Rightarrow> if length vs > max_bulk_cipher_ids then None else bulk_ids [] vs
                | _ \<Rightarrow> None))"

definition parse_cipher_bulk_move_request_body :: "json \<Rightarrow> (string list \<times> string option) option" where
  "parse_cipher_bulk_move_request_body body =
     (case (parse_cipher_bulk_request_body body, as_record body) of
        (Some ids, Some fs) \<Rightarrow>
          (case jprop fs ''folderId'' of
             Some JNull \<Rightarrow> Some (ids, None)
           | Some (JStr s) \<Rightarrow> if js_trim s = [] then None else Some (ids, Some (js_trim s))
           | _ \<Rightarrow> None)
      | _ \<Rightarrow> None)"

definition serialize_organization_cipher_payload :: "(string \<times> json) list \<Rightarrow> string" where
  "serialize_organization_cipher_payload fs =
     json_text (JObj (filter (\<lambda>(k, v). k \<noteq> ''encryptedByKeyId'' \<and> k \<noteq> ''encryptedFor'') fs))"

fun collection_ids_of :: "string list \<Rightarrow> json list \<Rightarrow> string list option" where
  "collection_ids_of seen [] = Some []"
| "collection_ids_of seen (v # vs) =
     (case parse_bounded_identifier (Some v) of
        None \<Rightarrow> None
      | Some i \<Rightarrow> if i \<in> set seen then None else map_option (Cons i) (collection_ids_of (i # seen) vs))"

record transition_request =
  nq_encrypted_json :: string
  nq_favorite :: bool
  nq_type :: int
  nq_organization_id :: string
  nq_cipher_key :: "string option"
  nq_collection_ids :: "string list"
  nq_encrypted_for :: "string option"
  nq_expected_revision_date :: "string option"

text \<open>An optional value: absent or null gives \<open>Some None\<close>, a value that the reader refuses gives \<open>None\<close>.\<close>

definition optional_value :: "(json option \<Rightarrow> string option) \<Rightarrow> json option \<Rightarrow> string option option" where
  "optional_value reader v =
     (if v = None \<or> v = Some JNull then Some None else map_option Some (reader v))"

definition required_opaque_string :: "json option \<Rightarrow> string option" where
  "required_opaque_string v = (case as_string v of Some s \<Rightarrow> if s = [] then None else Some s | None \<Rightarrow> None)"

definition parse_organization_cipher_transition_request_body :: "json \<Rightarrow> bool \<Rightarrow> transition_request option" where
  "parse_organization_cipher_transition_request_body body require_revision =
     (case as_record body of
        None \<Rightarrow> None
      | Some fs \<Rightarrow>
          (case (jprop fs ''cipher'', jprop fs ''collectionIds'') of
             (Some (JObj cs), Some (JArr vs)) \<Rightarrow>
               if length vs < 1 \<or> 100 < length vs then None
               else (case parse_cipher_create_request_body (JObj cs) of
                       None \<Rightarrow> None
                     | Some c \<Rightarrow>
                         (let revision = (if require_revision
                                then required_string (or_else (jprop cs ''lastKnownRevisionDate'') (jprop cs ''revisionDate''))
                                else None)
                          in if cq_folder_id c \<noteq> None \<or> (require_revision \<and> revision = None) then None
                             else (case (parse_bounded_identifier (jprop cs ''organizationId''),
                                         optional_value required_opaque_string (jprop cs ''key''),
                                         optional_value parse_bounded_identifier (jprop cs ''encryptedFor''),
                                         collection_ids_of [] vs) of
                                     (Some org, Some key, Some encrypted_for, Some ids) \<Rightarrow>
                                       if (case key of None \<Rightarrow> False | Some k \<Rightarrow> max_cipher_key_bytes < utf8_length k) then None
                                       else Some \<lparr>nq_encrypted_json = serialize_organization_cipher_payload cs,
                                              nq_favorite = cq_favorite c, nq_type = cq_type c, nq_organization_id = org,
                                              nq_cipher_key = key, nq_collection_ids = ids, nq_encrypted_for = encrypted_for,
                                              nq_expected_revision_date = revision\<rparr>
                                   | _ \<Rightarrow> None)))
           | _ \<Rightarrow> None))"

section \<open>Answers\<close>

datatype vault_answer =
    CipherBody cipher_record
  | AccessibleBody accessible_cipher "attachment_row list"
  | CipherPage "(accessible_cipher \<times> attachment_row list) list" "string option"
  | CipherTrashed string string
  | CipherRestored string string
  | CiphersRestored "string list" string
  | EmptyBody
  | CipherDeleted string string

definition cipher_not_found :: "vault_answer reply" where "cipher_not_found = ApiFailure 404 ''cipher_not_found''"
definition cipher_folder_not_found :: "vault_answer reply" where "cipher_folder_not_found = ApiFailure 404 ''cipher_folder_not_found''"
definition revision_conflict :: "vault_answer reply" where "revision_conflict = ApiFailure 409 ''revision_conflict''"
definition invalid_request :: "vault_answer reply" where "invalid_request = ApiFailure 400 ''invalid_request''"

definition organization_actor :: "authenticated_request \<Rightarrow> policy_actor" where
  "organization_actor auth =
     \<lparr>pa_user_id = auth_user_id auth, pa_session_id = av_session_id auth, pa_device_identifier = av_device_identifier auth\<rparr>"

definition build_attachments_by_cipher_id :: "attachment_row list \<Rightarrow> string \<Rightarrow> attachment_row list" where
  "build_attachments_by_cipher_id attachments cipher_id = filter (\<lambda>a. at_cipher_id a = cipher_id) attachments"

definition unless_folder_missing :: "string option \<Rightarrow> string \<Rightarrow> vault_answer reply repo \<Rightarrow> vault_answer reply repo" where
  "unless_folder_missing folder user_id k db =
     (case folder of
        None \<Rightarrow> k db
      | Some f \<Rightarrow> if folder_belongs_to_user f user_id db then k db else return_value cipher_folder_not_found db)"

section \<open>Creating and sharing\<close>

definition handle_cipher_create :: "mac \<Rightarrow> route_site \<Rightarrow> string \<Rightarrow> json \<Rightarrow> database \<Rightarrow> database \<times> vault_answer reply" where
  "handle_cipher_create hmac site new_id body =
     vault_route hmac site (\<lambda>auth.
       case parse_cipher_create_request_body body of
         None \<Rightarrow> return_value invalid_request
       | Some q \<Rightarrow>
           unless_folder_missing (cq_folder_id q) (auth_user_id auth)
             (repo_bind (create_cipher
                \<lparr>vr_id = new_id, vr_user_id = auth_user_id auth, vr_folder_id = cq_folder_id q, vr_type = cq_type q,
                 vr_favorite = cq_favorite q, vr_encrypted_json = cq_encrypted_json q, vr_revision_date = st_now site,
                 vr_created_at = st_now site, vr_deleted_at = None\<rparr>)
              (\<lambda>c. audited_reply site auth ''cipher.create'' ''cipher'' (Some (vr_id c))
                 [(''resultStatus'', JStr ''created''), (''cipherType'', jint (vr_type c)), (''favorite'', JBool (vr_favorite c)),
                  (''hasFolder'', JBool (vr_folder_id c \<noteq> None))] (CipherBody c))))"

definition transition_input :: "authenticated_request \<Rightarrow> string \<Rightarrow> transition_request \<Rightarrow> string \<Rightarrow> organization_cipher_input" where
  "transition_input auth cipher_id q now =
     \<lparr>oc_actor = Some (organization_actor auth), oc_id = cipher_id, oc_user_id = auth_user_id auth,
      oc_organization_id = nq_organization_id q, oc_collection_ids = nq_collection_ids q, oc_type = nq_type q,
      oc_favorite = nq_favorite q, oc_encrypted_json = nq_encrypted_json q, oc_cipher_key = nq_cipher_key q, oc_now = now\<rparr>"

definition managed_for :: "authenticated_request \<Rightarrow> transition_request \<Rightarrow> database \<Rightarrow> bool" where
  "managed_for auth q =
     validate_managed_organization_collections (auth_user_id auth) (Some (organization_actor auth)) (nq_organization_id q)
       (nq_collection_ids q)"

definition meant_for :: "authenticated_request \<Rightarrow> transition_request \<Rightarrow> bool" where
  "meant_for auth q \<longleftrightarrow> (case nq_encrypted_for q of None \<Rightarrow> True | Some u \<Rightarrow> u = auth_user_id auth)"

definition find_for_actor :: "authenticated_request \<Rightarrow> string \<Rightarrow> accessible_cipher option repo" where
  "find_for_actor auth cipher_id =
     repo_read (find_accessible_cipher_by_id cipher_id (auth_user_id auth) (Some (organization_actor auth)))"

text \<open>The committed cipher is read back; that it cannot be read is an error.\<close>

definition read_back ::
    "route_site \<Rightarrow> authenticated_request \<Rightarrow> string \<Rightarrow> transition_request \<Rightarrow> string \<Rightarrow> string \<Rightarrow> string \<Rightarrow> vault_answer reply repo" where
  "read_back site auth cipher_id q event status operation =
     repo_bind (find_for_actor auth cipher_id) (\<lambda>found. case found of
       None \<Rightarrow> throw (JsError ''Committed organization cipher was not readable.'')
     | Some c \<Rightarrow>
         audited_reply site auth event ''cipher'' (Some (vr_id c))
           [(''resultStatus'', JStr status), (''operation'', JStr operation), (''cipherType'', jint (vr_type c)),
            (''favorite'', JBool (vr_favorite c)), (''collectionCount'', jint (int (length (nq_collection_ids q))))]
           (AccessibleBody c []))"

definition handle_organization_cipher_create ::
    "mac \<Rightarrow> route_site \<Rightarrow> string \<Rightarrow> json \<Rightarrow> database \<Rightarrow> database \<times> vault_answer reply" where
  "handle_organization_cipher_create hmac site new_id body =
     vault_route hmac site (\<lambda>auth.
       case parse_organization_cipher_transition_request_body body False of
         None \<Rightarrow> return_value invalid_request
       | Some q \<Rightarrow>
           if \<not> meant_for auth q then return_value invalid_request
           else repo_bind (repo_get (managed_for auth q)) (\<lambda>ok.
             if \<not> ok then return_value (ApiFailure 404 ''collection_not_found'')
             else repo_then (create_organization_cipher (transition_input auth new_id q (st_now site)))
               (read_back site auth new_id q ''cipher.create'' ''created'' ''organization_create'')))"

definition handle_personal_cipher_share ::
    "mac \<Rightarrow> route_site \<Rightarrow> string \<Rightarrow> json \<Rightarrow> database \<Rightarrow> database \<times> vault_answer reply" where
  "handle_personal_cipher_share hmac site cipher_id body =
     vault_route hmac site (\<lambda>auth.
       if cipher_id = [] then return_value invalid_request
       else case parse_organization_cipher_transition_request_body body True of
         None \<Rightarrow> return_value invalid_request
       | Some q \<Rightarrow>
           if \<not> meant_for auth q \<or> nq_expected_revision_date q = None then return_value invalid_request
           else repo_bind (repo_get (managed_for auth q)) (\<lambda>ok.
             if \<not> ok then return_value cipher_not_found
             else repo_bind (share_personal_cipher_with_organization (transition_input auth cipher_id q (st_now site))
                    (the (nq_expected_revision_date q))) (\<lambda>result. case result of
                  RowNotFound \<Rightarrow> return_value cipher_not_found
                | RevisionConflict current \<Rightarrow> return_value revision_conflict
                | Written u \<Rightarrow> read_back site auth cipher_id q ''cipher.update'' ''updated'' ''share_to_organization'')))"

section \<open>Reading\<close>

definition handle_cipher_list :: "mac \<Rightarrow> route_site \<Rightarrow> list_query \<Rightarrow> database \<Rightarrow> database \<times> vault_answer reply" where
  "handle_cipher_list hmac site q =
     vault_route hmac site (\<lambda>auth.
       case parse_list_pagination q CipherList of
         None \<Rightarrow> return_value invalid_request
       | Some (limit, cursor) \<Rightarrow>
           repo_bind (repo_read (list_accessible_ciphers_by_user_page (auth_user_id auth) (Some (organization_actor auth)) limit cursor))
             (\<lambda>page. repo_bind (repo_get (list_cipher_attachments_by_user (auth_user_id auth))) (\<lambda>attachments.
               return_value (Reply (CipherPage
                 (map (\<lambda>c. (c, build_attachments_by_cipher_id attachments (vr_id c))) (lp_items page))
                 (build_continuation_token CipherList (\<lambda>c. (vr_revision_date c, vr_id c)) page))))))"

definition access_for :: "authenticated_request \<Rightarrow> string \<Rightarrow> cipher_access repo" where
  "access_for auth cipher_id = repo_get (resolve_cipher_access (auth_user_id auth) cipher_id (Some (organization_actor auth)))"

definition handle_cipher_read :: "mac \<Rightarrow> route_site \<Rightarrow> string \<Rightarrow> database \<Rightarrow> database \<times> vault_answer reply" where
  "handle_cipher_read hmac site cipher_id =
     vault_route hmac site (\<lambda>auth.
       repo_bind (access_for auth cipher_id) (\<lambda>access.
         if \<not> cx_can_read access then return_value cipher_not_found
         else repo_bind (find_for_actor auth cipher_id) (\<lambda>found.
           repo_bind (repo_get (list_cipher_attachments_by_user (auth_user_id auth))) (\<lambda>attachments.
             return_value (case found of
               None \<Rightarrow> cipher_not_found
             | Some c \<Rightarrow> Reply (AccessibleBody c (build_attachments_by_cipher_id attachments (vr_id c))))))))"

section \<open>Changing\<close>

definition organization_payload_ok :: "(string \<times> json) list \<Rightarrow> cipher_request \<Rightarrow> string \<Rightarrow> bool" where
  "organization_payload_ok payload q org \<longleftrightarrow>
     (jprop payload ''organizationId'' = None \<or> jprop payload ''organizationId'' = Some (JStr org)) \<and> cq_folder_id q = None \<and>
     (case jprop payload ''key'' of
        None \<Rightarrow> True | Some JNull \<Rightarrow> True | Some (JStr k) \<Rightarrow> cipher_key_ok (Some k) | _ \<Rightarrow> False)"

definition update_record :: "authenticated_request \<Rightarrow> string \<Rightarrow> cipher_request \<Rightarrow> string \<Rightarrow> string \<Rightarrow> cipher_record" where
  "update_record auth cipher_id q stored now =
     \<lparr>vr_id = cipher_id, vr_user_id = auth_user_id auth, vr_folder_id = cq_folder_id q, vr_type = cq_type q,
      vr_favorite = cq_favorite q, vr_encrypted_json = stored, vr_revision_date = now, vr_created_at = now, vr_deleted_at = None\<rparr>"

definition update_context :: "cipher_record \<Rightarrow> (string \<times> json) list" where
  "update_context c =
     [(''resultStatus'', JStr ''updated''), (''cipherType'', jint (vr_type c)), (''favorite'', JBool (vr_favorite c)),
      (''hasFolder'', JBool (vr_folder_id c \<noteq> None))]"

definition updated_organization_reply ::
    "route_site \<Rightarrow> authenticated_request \<Rightarrow> cipher_row revision_result \<Rightarrow> vault_answer reply repo" where
  "updated_organization_reply site auth result =
     (case result of
        RowNotFound \<Rightarrow> return_value cipher_not_found
      | RevisionConflict current \<Rightarrow> return_value revision_conflict
      | Written r \<Rightarrow>
          repo_then (emit_vault_mutation_audit_event site auth ''cipher.update'' ''cipher'' (Some (vc_id r)) (update_context (cipher_from_row r)))
            (repo_bind (find_for_actor auth (vc_id r)) (\<lambda>found. return_value (case found of
               None \<Rightarrow> cipher_not_found | Some c \<Rightarrow> Reply (AccessibleBody c [])))))"

definition updated_personal_reply ::
    "route_site \<Rightarrow> authenticated_request \<Rightarrow> cipher_record revision_result \<Rightarrow> vault_answer reply repo" where
  "updated_personal_reply site auth result =
     (case result of
        RowNotFound \<Rightarrow> return_value cipher_not_found
      | RevisionConflict current \<Rightarrow> return_value revision_conflict
      | Written c \<Rightarrow> audited_reply site auth ''cipher.update'' ''cipher'' (Some (vr_id c)) (update_context c) (CipherBody c))"

definition handle_cipher_update :: "mac \<Rightarrow> route_site \<Rightarrow> string \<Rightarrow> json \<Rightarrow> database \<Rightarrow> database \<times> vault_answer reply" where
  "handle_cipher_update hmac site cipher_id body =
     vault_route hmac site (\<lambda>auth.
       case (parse_cipher_update_request_body body, as_record body) of
         (Some (q, revision), Some payload) \<Rightarrow>
           unless_folder_missing (cq_folder_id q) (auth_user_id auth)
             (repo_bind (access_for auth cipher_id) (\<lambda>access.
               if \<not> cx_can_edit access then return_value cipher_not_found
               else case cx_organization_id access of
                 Some org \<Rightarrow>
                   if \<not> organization_payload_ok payload q org then return_value invalid_request
                   else repo_bind (update_organization_cipher (Some (organization_actor auth))
                            (update_record auth cipher_id q (serialize_organization_cipher_payload payload) (st_now site))
                            (as_string (jprop payload ''key'')) revision) (updated_organization_reply site auth)
               | None \<Rightarrow>
                   repo_bind (update_cipher (update_record auth cipher_id q (cq_encrypted_json q) (st_now site)) revision)
                     (updated_personal_reply site auth)))
       | _ \<Rightarrow> return_value invalid_request)"

text \<open>Trash, restore and delete: the access decides between the organisation's write and the personal one.\<close>

definition lifecycle_write ::
    "cipher_access \<Rightarrow> cipher_row revision_result repo \<Rightarrow> bool repo \<Rightarrow> unit revision_result repo" where
  "lifecycle_write access organization personal =
     (if cx_organization_id access \<noteq> None
      then repo_bind organization (\<lambda>result. return_value (case result of
             Written r \<Rightarrow> Written () | RevisionConflict c \<Rightarrow> RevisionConflict c | RowNotFound \<Rightarrow> RowNotFound))
      else repo_bind personal (\<lambda>hit. return_value (if hit then Written () else RowNotFound)))"

definition lifecycle_reply ::
    "route_site \<Rightarrow> authenticated_request \<Rightarrow> string \<Rightarrow> string \<Rightarrow> string \<Rightarrow> vault_answer \<Rightarrow> unit revision_result \<Rightarrow> vault_answer reply repo" where
  "lifecycle_reply site auth cipher_id event status answer result =
     (case result of
        RowNotFound \<Rightarrow> return_value cipher_not_found
      | RevisionConflict current \<Rightarrow> return_value revision_conflict
      | Written u \<Rightarrow> audited_reply site auth event ''cipher'' (Some cipher_id) [(''resultStatus'', JStr status)] answer)"

definition handle_cipher_trash :: "mac \<Rightarrow> route_site \<Rightarrow> string \<Rightarrow> database \<Rightarrow> database \<times> vault_answer reply" where
  "handle_cipher_trash hmac site cipher_id =
     vault_route hmac site (\<lambda>auth.
       if cipher_id = [] then return_value invalid_request
       else repo_bind (access_for auth cipher_id) (\<lambda>access.
         if \<not> cx_can_delete access then return_value cipher_not_found
         else repo_bind (lifecycle_write access
                (soft_delete_organization_cipher (Some (organization_actor auth)) cipher_id (auth_user_id auth) (st_now site) None)
                (soft_delete_cipher cipher_id (auth_user_id auth) (st_now site)))
              (lifecycle_reply site auth cipher_id ''cipher.delete'' ''deleted'' (CipherTrashed cipher_id (st_now site)))))"

definition handle_cipher_restore :: "mac \<Rightarrow> route_site \<Rightarrow> string \<Rightarrow> database \<Rightarrow> database \<times> vault_answer reply" where
  "handle_cipher_restore hmac site cipher_id =
     vault_route hmac site (\<lambda>auth.
       repo_bind (access_for auth cipher_id) (\<lambda>access.
         if \<not> cx_can_edit access then return_value cipher_not_found
         else repo_bind (lifecycle_write access
                (restore_organization_cipher (Some (organization_actor auth)) cipher_id (auth_user_id auth) (st_now site) None)
                (restore_cipher cipher_id (auth_user_id auth) (st_now site)))
              (lifecycle_reply site auth cipher_id ''cipher.restore'' ''restored'' (CipherRestored cipher_id (st_now site)))))"

text \<open>\<open>[...new Set(keys)]\<close>, and their deletion from the object store in requests of at most 1000 keys.\<close>

definition js_unique :: "'a list \<Rightarrow> 'a list" where
  "js_unique xs = rev (remdups (rev xs))"

definition max_r2_delete_keys_per_request :: nat where "max_r2_delete_keys_per_request = 1000"

definition delete_r2_objects :: "(string list \<Rightarrow> js_error + unit) \<Rightarrow> string list \<Rightarrow> js_error + unit" where
  "delete_r2_objects bucket object_keys =
     and_then (map_throwing bucket (chunks max_r2_delete_keys_per_request (js_unique object_keys))) (\<lambda>_. Inr ())"

definition attachment_object_keys :: "string \<Rightarrow> string list \<Rightarrow> database \<Rightarrow> string list" where
  "attachment_object_keys user_id ids db = js_unique (map snd (list_object_keys_for_owned_ciphers user_id ids db))"

definition handle_cipher_delete ::
    "mac \<Rightarrow> route_site \<Rightarrow> (string list \<Rightarrow> js_error + unit) \<Rightarrow> string \<Rightarrow> database \<Rightarrow> database \<times> vault_answer reply" where
  "handle_cipher_delete hmac site bucket cipher_id =
     vault_route hmac site (\<lambda>auth.
       if cipher_id = [] then return_value invalid_request
       else repo_bind (access_for auth cipher_id) (\<lambda>access.
         if \<not> cx_can_delete access then return_value cipher_not_found
         else repo_then (if cx_organization_id access = None
                then repo_bind (repo_get (attachment_object_keys (auth_user_id auth) [cipher_id])) (\<lambda>keys. repo_lift (delete_r2_objects bucket keys))
                else return_value ())
              (repo_bind (if cx_organization_id access \<noteq> None
                   then permanently_delete_organization_cipher (Some (organization_actor auth)) cipher_id (auth_user_id auth) None
                   else repo_bind (permanently_delete_cipher cipher_id (auth_user_id auth))
                     (\<lambda>hit. return_value (if hit then Written () else RowNotFound)))
                 (lifecycle_reply site auth cipher_id ''cipher.permanent_delete'' ''permanently_deleted''
                    (CipherDeleted cipher_id (st_now site))))))"

section \<open>Bulk routes\<close>

definition bulk_audit ::
    "route_site \<Rightarrow> authenticated_request \<Rightarrow> string \<Rightarrow> string \<Rightarrow> string \<Rightarrow> nat \<Rightarrow> nat \<Rightarrow> (string \<times> json) list \<Rightarrow> unit repo" where
  "bulk_audit site auth event status operation requested affected extra =
     repo_when (0 < affected) (emit_vault_mutation_audit_event site auth event ''cipher'' None
       ([(''resultStatus'', JStr status), (''operation'', JStr operation), (''requestedCount'', jint (int requested)),
         (''affectedCount'', jint (int affected))] @ extra))"

definition handle_bulk_move :: "mac \<Rightarrow> route_site \<Rightarrow> json \<Rightarrow> database \<Rightarrow> database \<times> vault_answer reply" where
  "handle_bulk_move hmac site body =
     vault_route hmac site (\<lambda>auth.
       case parse_cipher_bulk_move_request_body body of
         None \<Rightarrow> return_value invalid_request
       | Some (ids, folder) \<Rightarrow>
           if ids = [] then return_value (Reply EmptyBody)
           else unless_folder_missing folder (auth_user_id auth)
             (repo_bind (bulk_move_ciphers ids (auth_user_id auth) folder (st_now site)) (\<lambda>n.
                repo_then (bulk_audit site auth ''cipher.update'' ''updated'' ''bulk_move'' (length ids) n
                    [(''hasFolder'', JBool (folder \<noteq> None))])
                  (return_value (Reply EmptyBody)))))"

definition handle_bulk_trash :: "mac \<Rightarrow> route_site \<Rightarrow> json \<Rightarrow> database \<Rightarrow> database \<times> vault_answer reply" where
  "handle_bulk_trash hmac site body =
     vault_route hmac site (\<lambda>auth.
       case parse_cipher_bulk_request_body body of
         None \<Rightarrow> return_value invalid_request
       | Some ids \<Rightarrow>
           repo_bind (bulk_soft_delete_ciphers ids (auth_user_id auth) (st_now site)) (\<lambda>n.
             repo_then (bulk_audit site auth ''cipher.delete'' ''deleted'' ''bulk_delete'' (length ids) n [])
               (return_value (Reply EmptyBody))))"

definition handle_bulk_restore :: "mac \<Rightarrow> route_site \<Rightarrow> json \<Rightarrow> database \<Rightarrow> database \<times> vault_answer reply" where
  "handle_bulk_restore hmac site body =
     vault_route hmac site (\<lambda>auth.
       case parse_cipher_bulk_request_body body of
         None \<Rightarrow> return_value invalid_request
       | Some ids \<Rightarrow>
           repo_bind (bulk_restore_ciphers ids (auth_user_id auth) (st_now site)) (\<lambda>done_ids.
             repo_then (bulk_audit site auth ''cipher.restore'' ''restored'' ''bulk_restore'' (length ids) (length done_ids) [])
               (return_value (Reply (CiphersRestored (filter (\<lambda>i. i \<in> set done_ids) ids) (st_now site))))))"

text \<open>The object keys are read, then deleted from the store, then the rows are deleted; each stage has its own refusal.\<close>

definition handle_bulk_delete ::
    "mac \<Rightarrow> route_site \<Rightarrow> (string list \<Rightarrow> js_error + unit) \<Rightarrow> json \<Rightarrow> database \<Rightarrow> database \<times> vault_answer reply" where
  "handle_bulk_delete hmac site bucket body =
     vault_route hmac site (\<lambda>auth.
       case parse_cipher_bulk_request_body body of
         None \<Rightarrow> return_value invalid_request
       | Some ids \<Rightarrow>
           repo_bind (repo_get (attachment_object_keys (auth_user_id auth) ids)) (\<lambda>keys.
             case delete_r2_objects bucket keys of
               Inl e \<Rightarrow> return_value (ApiFailure 503 ''storage_unavailable'')
             | Inr u \<Rightarrow>
                 repo_bind (bulk_permanently_delete_ciphers ids (auth_user_id auth)) (\<lambda>n.
                   repo_then (bulk_audit site auth ''cipher.permanent_delete'' ''permanently_deleted'' ''bulk_permanent_delete''
                       (length ids) n [(''attachmentCount'', jint (int (length keys)))])
                     (return_value (Reply EmptyBody)))))"

end
