(* ===== verification/Paging.thy ===== *)
theory Paging
  imports VaultRoutes AuthRequestProofs
begin

text \<open>
  A client that follows the continuation tokens of a listing reads the whole listing, every row once and in order, in at most
  one request per row and one more. The contract of a paged query is the locale \<open>paged_listing\<close>; the
  folders and the accessible ciphers are its interpretations.
\<close>

section \<open>Following cursors\<close>

definition cursor_of :: "string \<times> string \<Rightarrow> list_cursor" where
  "cursor_of k = \<lparr>lc_revision_date = fst k, lc_id = snd k\<rparr>"

lemma after_cursor_less: "after_cursor (Some (cursor_of k)) j \<longleftrightarrow> k < j"
  by (cases k; cases j) (auto simp: after_cursor_def cursor_of_def)

fun follow_pages :: "nat \<Rightarrow> (list_cursor option \<Rightarrow> 'r list_page) \<Rightarrow> ('r \<Rightarrow> string \<times> string) \<Rightarrow> list_cursor option \<Rightarrow> 'r list option" where
  "follow_pages 0 page key c = None"
| "follow_pages (Suc n) page key c =
     (if \<not> lp_has_more (page c) then Some (lp_items (page c))
      else map_option (\<lambda>rest. lp_items (page c) @ rest)
             (follow_pages n page key (Some (cursor_of (key (last (lp_items (page c))))))))"

lemma page_of_simps [simp]:
  "lp_items (page_of limit rows) = take limit rows" "lp_has_more (page_of limit rows) \<longleftrightarrow> limit < length rows"
  by (auto simp: page_of_def Let_def min_def)

lemma filter_after_strict:
  assumes "sorted_wrt (<) (map key (xs @ ys))" "xs \<noteq> []"
  shows "filter (\<lambda>r. (key (last xs) :: 'k::linorder) < key r) (xs @ ys) = ys"
proof -
  obtain us u where xs: "xs = us @ [u]" using assms(2) by (cases xs rule: rev_cases) auto
  have "\<forall>r \<in> set us. key r < key u" "\<forall>r \<in> set ys. key u < key r"
    using assms(1) by (simp_all add: xs sorted_wrt_append)
  then show ?thesis by (auto simp: xs filter_empty_conv intro: filter_True)
qed

locale paged_listing =
  fixes ok :: "database \<Rightarrow> bool"
    and key :: "'r \<Rightarrow> string \<times> string"
    and listing :: "database \<Rightarrow> 'r list"
    and page :: "database \<Rightarrow> nat \<Rightarrow> list_cursor option \<Rightarrow> 'r list_page"
  assumes page_eq: "ok db \<Longrightarrow> page db limit c = page_of limit (filter (\<lambda>r. after_cursor c (key r)) (listing db))"
    and strict: "ok db \<Longrightarrow> sorted_wrt (<) (map key (listing db))"
begin

lemma follow_suffix:
  assumes "ok db" "0 < limit" "listing db = before @ rest" "filter (\<lambda>r. after_cursor c (key r)) (listing db) = rest"
    "length rest < fuel"
  shows "follow_pages fuel (page db limit) key c = Some rest"
  using assms(3-5)
proof (induction fuel arbitrary: before rest c)
  case (Suc fuel)
  have p: "lp_items (page db limit c) = take limit rest" "lp_has_more (page db limit c) \<longleftrightarrow> limit < length rest"
    using page_eq [OF assms(1)] Suc.prems(2) by simp_all
  show ?case
  proof (cases "limit < length rest")
    case True
    let ?xs = "before @ take limit rest" and ?ys = "drop limit rest"
    have all: "listing db = ?xs @ ?ys" and ne: "take limit rest \<noteq> []"
      using Suc.prems(1) True assms(2) by (simp_all del: append_assoc add: append_assoc [symmetric]) auto
    have "filter (\<lambda>r. key (last ?xs) < key r) (?xs @ ?ys) = ?ys"
      using filter_after_strict [of key ?xs ?ys] strict [OF assms(1)] all ne by simp
    then have "filter (\<lambda>r. after_cursor (Some (cursor_of (key (last (take limit rest))))) (key r)) (listing db) = ?ys"
      using ne unfolding all by (simp add: after_cursor_less)
    from Suc.IH [OF all this] True assms(2) Suc.prems(3)
    have "follow_pages fuel (page db limit) key (Some (cursor_of (key (last (take limit rest))))) = Some ?ys" by simp
    with True show ?thesis by (simp add: p)
  qed (simp add: p)
qed simp

lemma follow_all:
  "ok db \<Longrightarrow> 0 < limit \<Longrightarrow> length (listing db) < fuel \<Longrightarrow> follow_pages fuel (page db limit) key None = Some (listing db)"
  by (rule follow_suffix [where before = "[]"]) (simp_all add: after_cursor_def)

end

section \<open>Following tokens\<close>

text \<open>The client: it asks with the last token it was given until there is none.\<close>

fun follow_tokens :: "nat \<Rightarrow> (string option \<Rightarrow> ('r list \<times> string option) option) \<Rightarrow> string option \<Rightarrow> 'r list option" where
  "follow_tokens 0 ask t = None"
| "follow_tokens (Suc n) ask t =
     (case ask t of
        None \<Rightarrow> None
      | Some (items, None) \<Rightarrow> Some items
      | Some (items, Some t') \<Rightarrow> map_option ((@) items) (follow_tokens n ask (Some t')))"

definition key_ok :: "string \<times> string \<Rightarrow> bool" where
  "key_ok k \<longleftrightarrow> fst k \<noteq> [] \<and> date_parse (fst k) \<noteq> None \<and> snd k \<noteq> []"

lemma encoded_alphabet:
  assumes "\<forall>b \<in> set bs. b < 256"
  shows "list_all is_base64_url_char (base64_url_encode_bytes bs)" "length (base64_url_encode_bytes bs) mod 4 \<noteq> 1"
proof -
  show "list_all is_base64_url_char (base64_url_encode_bytes bs)"
    using sextets_bound [OF assms] url_char_alphabet by (simp add: base64_url_encode_sextets [OF assms] list_all_iff)
  have "(4 * n + 2) div 3 mod 4 \<noteq> 1" for n :: nat by presburger
  then show "length (base64_url_encode_bytes bs) mod 4 \<noteq> 1"
    by (simp add: base64_url_encode_sextets [OF assms] length_sextets_mod)
qed

lemma continuation_token_roundtrip:
  assumes "key_ok (key (last (lp_items page)))" "lp_has_more page" "lp_items page \<noteq> []"
  shows "\<exists>t. build_continuation_token resource key page = Some t \<and> t \<noteq> [] \<and>
    decode_continuation_token t resource = Some (cursor_of (key (last (lp_items page))))"
proof -
  let ?k = "key (last (lp_items page))"
  let ?v = "JObj [(''v'', jint 1), (''type'', JStr (resource_text resource)), (''revisionDate'', JStr (fst ?k)), (''id'', JStr (snd ?k))]"
  have "json_plain ?v" by (simp add: num_is_safe_integer_def safe_int_def max_safe_integer_def)
  from decode_encode_json [OF this] have d: "decode_json (encode_json ?v) = Some ?v" .
  have "is_continuation_token resource ?v = Some (cursor_of ?k)"
    using assms(1) by (simp add: is_continuation_token_def key_ok_def cursor_of_def parse_defs)
  then have "decode_continuation_token (encode_json ?v) resource = Some (cursor_of ?k)"
    using encoded_alphabet [OF utf8_encode_bytes] d encode_json_plain(2) [of ?v]
    by (simp add: decode_continuation_token_def encode_json_def)
  moreover have "build_continuation_token resource key page = Some (encode_json ?v)"
    using assms(2,3) by (simp add: build_continuation_token_def)
  ultimately show ?thesis using encode_json_plain(2) by blast
qed

definition token_for :: "list_resource \<Rightarrow> string option \<Rightarrow> list_cursor option \<Rightarrow> bool" where
  "token_for resource t c \<longleftrightarrow>
     (case c of None \<Rightarrow> t = None | Some k \<Rightarrow> \<exists>s. t = Some s \<and> s \<noteq> [] \<and> decode_continuation_token s resource = Some k)"

lemma follow_tokens_pages:
  assumes "\<And>t c. token_for resource t c \<Longrightarrow> ask t = Some (lp_items (page c), build_continuation_token resource key (page c))"
    and "\<And>c. lp_has_more (page c) \<Longrightarrow> lp_items (page c) \<noteq> [] \<and> key_ok (key (last (lp_items (page c))))"
    and "follow_pages n page key c = Some rows" "token_for resource t c"
  shows "follow_tokens n ask t = Some rows"
  using assms(3,4)
proof (induction n arbitrary: c t rows)
  case (Suc n)
  note ask = assms(1) [OF Suc.prems(2)]
  show ?case
  proof (cases "lp_has_more (page c)")
    case True
    let ?last = "cursor_of (key (last (lp_items (page c))))"
    obtain t' where t': "build_continuation_token resource key (page c) = Some t'" "token_for resource (Some t') (Some ?last)"
      using continuation_token_roundtrip [of key "page c" resource] assms(2) [OF True] True by (auto simp: token_for_def)
    from Suc.prems(1) True obtain rest where
      rest: "follow_pages n page key (Some ?last) = Some rest" "rows = lp_items (page c) @ rest"
      by auto
    from Suc.IH [OF rest(1) t'(2)] have "follow_tokens n ask (Some t') = Some rest" .
    with ask t' rest(2) show ?thesis by simp
  next
    case False
    with Suc.prems(1) ask show ?thesis by (simp add: build_continuation_token_def)
  qed
qed simp

text \<open>A page of a listing whose rows all have usable keys has one when it is not the last.\<close>

lemma page_of_last:
  assumes "0 < limit" "\<forall>r \<in> set rows. key_ok (key r)" "lp_has_more (page_of limit rows)"
  shows "lp_items (page_of limit rows) \<noteq> [] \<and> key_ok (key (last (lp_items (page_of limit rows))))"
proof -
  have "take limit rows \<noteq> []" using assms(1,3) by auto
  from last_in_set [OF this] have "last (take limit rows) \<in> set rows" by (rule in_set_takeD)
  with assms(2) \<open>take limit rows \<noteq> []\<close> show ?thesis by simp
qed

section \<open>Sorted selections\<close>

text \<open>\<open>SELECT ... WHERE p AND after(cursor) ORDER BY revision_date, id\<close> is the part of the full selection after the cursor.\<close>

lemma filter_sort_key: "filter q (sort_key f xs) = sort_key f (filter q xs)"
  by (rule filter_sort)

lemma sorted_selection:
  assumes "distinct (map i xs)" "\<And>r. snd (key r) = i r"
  shows "sorted_wrt (<) (map key (sort_key key (filter p xs)))"
proof -
  have "distinct (map i (sort_key key (filter p xs)))"
    using assms(1) by (auto simp: distinct_map intro: inj_on_subset)
  then have "distinct (map key (sort_key key (filter p xs)))"
    using assms(2) by (auto simp: distinct_map inj_on_def dest: arg_cong [where f = snd])
  then show ?thesis by (simp add: strict_sorted_iff)
qed

interpretation folder_pages: paged_listing "\<lambda>db. distinct (map fo_id (folders db))" folder_key "list_folders_by_user user_id"
    "\<lambda>db limit c. list_folders_by_user_page user_id limit c db" for user_id
proof
  fix db :: database and limit c
  show "list_folders_by_user_page user_id limit c db =
      page_of limit (filter (\<lambda>r. after_cursor c (folder_key r)) (list_folders_by_user user_id db))"
    by (simp add: list_folders_by_user_page_def list_folders_by_user_def filter_map filter_sort_key comp_def folder_key_def
        folder_from_row_def conj_commute)
next
  fix db :: database
  assume "distinct (map fo_id (folders db))"
  from sorted_selection [OF this, of "\<lambda>r. (fo_revision_date r, fo_id r)"]
  show "sorted_wrt (<) (map folder_key (list_folders_by_user user_id db))"
    by (simp add: list_folders_by_user_def comp_def folder_key_def folder_from_row_def)
qed

interpretation personal_pages: paged_listing "\<lambda>db. distinct (map vc_id (ciphers db))" "\<lambda>c. (vr_revision_date c, vr_id c)"
    "list_ciphers_by_user user_id" "\<lambda>db limit c. list_ciphers_by_user_page user_id limit c db" for user_id
proof
  fix db :: database and limit c
  show "list_ciphers_by_user_page user_id limit c db =
      page_of limit (filter (\<lambda>r. after_cursor c (vr_revision_date r, vr_id r)) (list_ciphers_by_user user_id db))"
    by (simp add: list_ciphers_by_user_page_def list_ciphers_by_user_def filter_map filter_sort_key comp_def row_key_def
        cipher_from_row_def conj_commute)
next
  fix db :: database
  assume "distinct (map vc_id (ciphers db))"
  from sorted_selection [OF this, of row_key]
  show "sorted_wrt (<) (map (\<lambda>c. (vr_revision_date c, vr_id c)) (list_ciphers_by_user user_id db))"
    by (simp add: list_ciphers_by_user_def comp_def row_key_def [abs_def] cipher_from_row_def)
qed

section \<open>Accessible ciphers\<close>

lemma map_throwing_map: "(\<forall>x \<in> set xs. f x = Inr (g x)) \<Longrightarrow> map_throwing f xs = Inr (map g xs)"
  by (induction xs) auto

lemma map_throwing_each: "map_throwing f xs = Inr ys \<Longrightarrow> \<forall>x \<in> set xs. \<exists>y. f x = Inr y"
  by (induction xs arbitrary: ys) (auto simp: and_then_Inr_iff)

lemma accessible_key:
  "accessible_cipher_from_row v db r = Inr c \<Longrightarrow> (vr_revision_date c, vr_id c) = row_key r"
  by (auto simp: accessible_cipher_from_row_def Let_def row_key_def split: if_splits)

text \<open>Every accessible row of the actor can be shown.\<close>

definition listing_shown :: "string \<Rightarrow> policy_actor option \<Rightarrow> database \<Rightarrow> bool" where
  "listing_shown user_id actor db \<longleftrightarrow>
     (let v = organization_access_actor_values user_id actor
      in \<forall>r \<in> set (accessible_rows v None db). \<exists>c. accessible_cipher_from_row v db r = Inr c)"

definition shown_ciphers :: "string \<Rightarrow> policy_actor option \<Rightarrow> database \<Rightarrow> accessible_cipher list" where
  "shown_ciphers user_id actor db =
     (case list_accessible_ciphers_by_user user_id actor db of Inr cs \<Rightarrow> cs | Inl e \<Rightarrow> [])"

definition shown_page :: "string \<Rightarrow> policy_actor option \<Rightarrow> nat \<Rightarrow> list_cursor option \<Rightarrow> database \<Rightarrow> accessible_cipher list_page" where
  "shown_page user_id actor limit c db =
     (case list_accessible_ciphers_by_user_page user_id actor limit c db of Inr p \<Rightarrow> p | Inl e \<Rightarrow> \<lparr>lp_items = [], lp_has_more = False\<rparr>)"

lemma shown_listing:
  assumes "listing_shown user_id actor db"
  shows "list_accessible_ciphers_by_user user_id actor db = Inr (shown_ciphers user_id actor db)"
    and "list_accessible_ciphers_by_user_page user_id actor limit c db =
      Inr (page_of limit (filter (\<lambda>r. after_cursor c (vr_revision_date r, vr_id r)) (shown_ciphers user_id actor db)))"
    and "map (\<lambda>c. (vr_revision_date c, vr_id c)) (shown_ciphers user_id actor db) =
      map row_key (accessible_rows (organization_access_actor_values user_id actor) None db)"
proof -
  let ?v = "organization_access_actor_values user_id actor"
  let ?rows = "accessible_rows ?v None db"
  define g where "g = (\<lambda>r. case accessible_cipher_from_row ?v db r of Inr c \<Rightarrow> c | Inl e \<Rightarrow> undefined)"
  have g: "accessible_cipher_from_row ?v db r = Inr (g r)" if "r \<in> set ?rows" for r
    using assms that by (auto simp: listing_shown_def Let_def g_def split: sum.splits)
  have key: "(vr_revision_date (g r), vr_id (g r)) = row_key r" if "r \<in> set ?rows" for r
    using accessible_key [OF g [OF that]] .
  have "map_throwing (accessible_cipher_from_row ?v db) ?rows = Inr (map g ?rows)"
    by (rule map_throwing_map) (use g in blast)
  then have all: "list_accessible_ciphers_by_user user_id actor db = Inr (map g ?rows)"
    by (simp add: list_accessible_ciphers_by_user_def Let_def)
  then have shown: "shown_ciphers user_id actor db = map g ?rows" by (simp add: shown_ciphers_def)
  with all show "list_accessible_ciphers_by_user user_id actor db = Inr (shown_ciphers user_id actor db)" by simp
  show "map (\<lambda>c. (vr_revision_date c, vr_id c)) (shown_ciphers user_id actor db) = map row_key ?rows"
    using key by (simp add: shown)
  have rows: "accessible_rows ?v c db = filter (\<lambda>r. after_cursor c (row_key r)) ?rows"
    by (simp add: accessible_rows_def filter_sort_key after_cursor_def conj_commute)
  have "filter (\<lambda>r. after_cursor c (vr_revision_date r, vr_id r)) (map g ?rows) = map g (accessible_rows ?v c db)"
    using key by (simp add: rows filter_map comp_def cong: filter_cong)
  moreover have "map_throwing (accessible_cipher_from_row ?v db) (take (limit + 1) (accessible_rows ?v c db)) =
      Inr (map g (take (limit + 1) (accessible_rows ?v c db)))"
    using g by (intro map_throwing_map) (auto simp: rows dest: in_set_takeD)
  ultimately show "list_accessible_ciphers_by_user_page user_id actor limit c db =
      Inr (page_of limit (filter (\<lambda>r. after_cursor c (vr_revision_date r, vr_id r)) (shown_ciphers user_id actor db)))"
    by (simp add: list_accessible_ciphers_by_user_page_def Let_def shown page_of_def take_map)
qed

interpretation accessible_pages: paged_listing
    "\<lambda>db. distinct (map vc_id (ciphers db)) \<and> listing_shown user_id actor db" "\<lambda>c. (vr_revision_date c, vr_id c)"
    "shown_ciphers user_id actor" "\<lambda>db limit c. shown_page user_id actor limit c db" for user_id actor
proof
  fix db :: database and limit c
  assume "distinct (map vc_id (ciphers db)) \<and> listing_shown user_id actor db"
  then show "shown_page user_id actor limit c db =
      page_of limit (filter (\<lambda>r. after_cursor c (vr_revision_date r, vr_id r)) (shown_ciphers user_id actor db))"
    using shown_listing(2) by (simp add: shown_page_def)
next
  fix db :: database
  assume "distinct (map vc_id (ciphers db)) \<and> listing_shown user_id actor db"
  then show "sorted_wrt (<) (map (\<lambda>c. (vr_revision_date c, vr_id c)) (shown_ciphers user_id actor db))"
    using shown_listing(3) [of user_id actor db] sorted_selection [of vc_id "ciphers db" row_key]
    by (simp add: accessible_rows_def row_key_def [abs_def])
qed

section \<open>Reading the vault page by page\<close>

text \<open>A client that asks the route of the ciphers, or of the folders, with a page size and its last token.\<close>

definition ask_ciphers ::
    "mac \<Rightarrow> route_site \<Rightarrow> string option \<Rightarrow> database \<Rightarrow> string option \<Rightarrow> (accessible_cipher list \<times> string option) option" where
  "ask_ciphers hmac site psize db t =
     (case snd (handle_cipher_list hmac site \<lparr>lq_page_size = psize, lq_limit = None, lq_continuation_token = t\<rparr> db) of
        Reply (CipherPage entries next) \<Rightarrow> Some (map fst entries, next)
      | _ \<Rightarrow> None)"

definition ask_folders ::
    "mac \<Rightarrow> route_site \<Rightarrow> string option \<Rightarrow> database \<Rightarrow> string option \<Rightarrow> (folder_record list \<times> string option) option" where
  "ask_folders hmac site psize db t =
     (case snd (handle_folder_list hmac site \<lparr>lq_page_size = psize, lq_limit = None, lq_continuation_token = t\<rparr> db) of
        Reply (FolderPage items next) \<Rightarrow> Some (items, next)
      | _ \<Rightarrow> None)"

definition page_size :: "string option \<Rightarrow> nat option" where
  "page_size psize = (if truthy psize then parse_page_size (the psize) else Some default_list_page_size)"

lemma digits_value_pos: "v \<noteq> [] \<Longrightarrow> list_all is_digit v \<Longrightarrow> hd v \<noteq> CHR ''0'' \<Longrightarrow> 0 < digits_value v"
proof (induction v rule: rev_induct)
  case (snoc c v)
  have "code_unit c - 48 > 0" if "v = []"
  proof -
    have "code_unit c \<noteq> 48" using snoc.prems(3) that char_eq_code_unit [of c "CHR ''0''"] by (simp add: code_unit_def)
    moreover have "48 \<le> code_unit c" using snoc.prems(2) by (simp add: is_digit_def)
    ultimately show ?thesis by simp
  qed
  with snoc show ?case using digits_value_append [of v c] by (cases "v = []") auto
qed simp

lemma page_size_pos: "page_size psize = Some limit \<Longrightarrow> 0 < limit"
  using digits_value_pos [of "the psize"]
  by (auto simp: page_size_def parse_page_size_def default_list_page_size_def split: if_splits)

lemma parsed_pagination:
  "page_size psize = Some limit \<Longrightarrow> token_for resource t c \<Longrightarrow>
     parse_list_pagination \<lparr>lq_page_size = psize, lq_limit = None, lq_continuation_token = t\<rparr> resource = Some (limit, c)"
  by (cases psize; cases c) (auto simp: parse_list_pagination_def page_size_def token_for_def truthy_def)

lemma vault_route_allowed:
  assumes "authenticate_vault_request hmac (st_env site) (st_headers site) (st_seconds site) db = Inr auth"
  shows "vault_route hmac site handler db = catch_all (ApiFailure 503 ''database_unavailable'') (handler auth) db"
  using assms by (simp add: vault_route_def with_authorization_def)

lemma asked_ciphers:
  assumes "authenticate_vault_request hmac (st_env site) (st_headers site) (st_seconds site) db = Inr auth"
    and "page_size psize = Some limit" "token_for CipherList t c"
    and "listing_shown (auth_user_id auth) (Some (organization_actor auth)) db"
  shows "ask_ciphers hmac site psize db t =
    Some (lp_items (shown_page (auth_user_id auth) (Some (organization_actor auth)) limit c db),
      build_continuation_token CipherList (\<lambda>c. (vr_revision_date c, vr_id c))
        (shown_page (auth_user_id auth) (Some (organization_actor auth)) limit c db))"
  using parsed_pagination [OF assms(2,3)] shown_listing(2) [OF assms(4)]
  by (simp add: ask_ciphers_def handle_cipher_list_def vault_route_allowed [OF assms(1)] catch_all_def repo_bind_def repo_read_def
      repo_get_def return_value_def shown_page_def comp_def)

lemma asked_folders:
  assumes "authenticate_vault_request hmac (st_env site) (st_headers site) (st_seconds site) db = Inr auth"
    and "page_size psize = Some limit" "token_for FolderList t c"
  shows "ask_folders hmac site psize db t =
    Some (lp_items (list_folders_by_user_page (auth_user_id auth) limit c db),
      build_continuation_token FolderList folder_key (list_folders_by_user_page (auth_user_id auth) limit c db))"
  using parsed_pagination [OF assms(2,3)]
  by (simp add: ask_folders_def handle_folder_list_def vault_route_allowed [OF assms(1)] catch_all_def repo_bind_def repo_get_def
      return_value_def)

lemma folders_listed:
  assumes "authenticate_vault_request hmac (st_env site) (st_headers site) (st_seconds site) db = Inr auth"
    and "page_size psize = Some limit" "distinct (map fo_id (folders db))"
    and "\<forall>f \<in> set (list_folders_by_user (auth_user_id auth) db). key_ok (folder_key f)"
    and "length (list_folders_by_user (auth_user_id auth) db) < n"
  shows "follow_tokens n (ask_folders hmac site psize db) None = Some (list_folders_by_user (auth_user_id auth) db)"
proof (rule follow_tokens_pages [where c = None and page = "\<lambda>c. list_folders_by_user_page (auth_user_id auth) limit c db"
      and key = folder_key and resource = FolderList])
  show "follow_pages n (\<lambda>c. list_folders_by_user_page (auth_user_id auth) limit c db) folder_key None =
      Some (list_folders_by_user (auth_user_id auth) db)"
    by (rule folder_pages.follow_all [OF assms(3) page_size_pos [OF assms(2)] assms(5)])
  fix c
  assume "lp_has_more (list_folders_by_user_page (auth_user_id auth) limit c db)"
  then show "lp_items (list_folders_by_user_page (auth_user_id auth) limit c db) \<noteq> [] \<and>
      key_ok (folder_key (last (lp_items (list_folders_by_user_page (auth_user_id auth) limit c db))))"
    unfolding folder_pages.page_eq [OF assms(3)]
    by (rule page_of_last [OF page_size_pos [OF assms(2)], rotated]) (use assms(4) in simp)
qed (simp_all add: asked_folders [OF assms(1,2)] token_for_def)

text \<open>
  C12. Following the continuation tokens reads the whole vault. For an authenticated request on a database that does not change,
  whose accessible ciphers can all be shown and have a date and an id, a client that repeats the
  request \<open>GET /api/ciphers\<close> with
  any valid page size and the token it was last given stops after at most one request more than there are
  ciphers, and has read exactly the listing of all accessible ciphers, each once, in order.
\<close>

theorem cipher_paging_terminates:
  assumes "authenticate_vault_request hmac (st_env site) (st_headers site) (st_seconds site) db = Inr auth"
    and "page_size psize = Some limit" "distinct (map vc_id (ciphers db))"
    and "list_accessible_ciphers_by_user (auth_user_id auth) (Some (organization_actor auth)) db = Inr all"
    and "\<forall>c \<in> set all. key_ok (vr_revision_date c, vr_id c)"
  shows "follow_tokens (length all + 1) (ask_ciphers hmac site psize db) None = Some all"
proof -
  let ?u = "auth_user_id auth" and ?a = "Some (organization_actor auth)" and ?key = "\<lambda>c. (vr_revision_date c, vr_id c)"
  have shown: "listing_shown ?u ?a db"
    using map_throwing_each [OF assms(4) [unfolded list_accessible_ciphers_by_user_def Let_def]] by (simp add: listing_shown_def Let_def)
  have all: "shown_ciphers ?u ?a db = all" using assms(4) by (simp add: shown_ciphers_def)
  have ok: "distinct (map vc_id (ciphers db)) \<and> listing_shown ?u ?a db" using assms(3) shown by simp
  show ?thesis
  proof (rule follow_tokens_pages [where c = None and page = "\<lambda>c. shown_page ?u ?a limit c db" and key = ?key and resource = CipherList])
    show "follow_pages (length all + 1) (\<lambda>c. shown_page ?u ?a limit c db) ?key None = Some all"
      by (rule accessible_pages.follow_all [OF ok page_size_pos [OF assms(2)], unfolded all]) simp
    fix c
    assume "lp_has_more (shown_page ?u ?a limit c db)"
    then show "lp_items (shown_page ?u ?a limit c db) \<noteq> [] \<and> key_ok (?key (last (lp_items (shown_page ?u ?a limit c db))))"
      unfolding accessible_pages.page_eq [OF ok]
      by (rule page_of_last [OF page_size_pos [OF assms(2)], rotated]) (use assms(5) all in simp)
  qed (simp_all add: asked_ciphers [OF assms(1,2) _ shown] token_for_def)
qed

end
