(* ===== verification/VaultSample.thy ===== *)
theory VaultSample
  imports Paging GrantProofs
begin

text \<open>
  A signed-in account for the examples of the vault: the bearer header of an issued token is accepted by every vault route.
\<close>

section \<open>The bearer header\<close>

lemma js_words_word: "t \<noteq> [] \<Longrightarrow> \<forall>c \<in> set t. \<not> js_is_space c \<Longrightarrow> js_words t = [t]"
  by (induction t rule: js_words.induct) (auto split: list.splits)

lemma js_words_cons: "w \<noteq> [] \<Longrightarrow> \<forall>c \<in> set w. \<not> js_is_space c \<Longrightarrow> js_words (w @ CHR '' '' # t) = w # js_words t"
proof (induction w)
  case (Cons c w)
  have space: "js_is_space (CHR '' '')" by (simp add: js_is_space_def code_unit_def)
  with Cons show ?case by (cases w) auto
qed simp

lemma js_trim_plain: "s \<noteq> [] \<Longrightarrow> \<not> js_is_space (hd s) \<Longrightarrow> \<not> js_is_space (last s) \<Longrightarrow> js_trim s = s"
proof -
  assume s: "s \<noteq> []" "\<not> js_is_space (hd s)" "\<not> js_is_space (last s)"
  have "dropWhile js_is_space s = s" using s by (cases s) auto
  moreover have "dropWhile js_is_space (rev s) = rev s" using s by (cases s rule: rev_cases) auto
  ultimately show ?thesis by (simp add: js_trim_def)
qed

lemma bearer_token:
  assumes "t \<noteq> []" "\<forall>c \<in> set t. \<not> js_is_space c"
  shows "read_bearer_token (Some (''Bearer '' @ t)) = Some t"
proof -
  have head: "\<forall>c \<in> set ''Bearer''. \<not> js_is_space c" by (simp add: js_is_space_def code_unit_def)
  have "js_words (''Bearer '' @ t) = [''Bearer'', t]"
    using js_words_cons [OF _ head, of t] js_words_word [OF assms] by simp
  moreover have "js_trim (''Bearer '' @ t) = ''Bearer '' @ t"
    using assms head by (intro js_trim_plain) auto
  ultimately show ?thesis by (simp add: read_bearer_token_def)
qed

lemma url_char_not_space: "is_base64_url_char c \<Longrightarrow> \<not> js_is_space c"
  by (auto simp: is_base64_url_char_def js_is_space_def Let_def)

lemma signed_token_plain:
  assumes "\<And>key m. \<forall>b \<in> set (hmac key m). b < (256::nat)"
  shows "sign_access_token hmac signer claims \<noteq> []" "\<forall>c \<in> set (sign_access_token hmac signer claims). \<not> js_is_space c"
proof -
  have e: "\<forall>c \<in> set (encode_json v). \<not> js_is_space c" for v
    using encoded_alphabet(1) [OF utf8_encode_bytes] url_char_not_space by (auto simp: encode_json_def list_all_iff)
  have s: "\<forall>c \<in> set (base64_url_encode_bytes (hmac_sha256 hmac k m)). \<not> js_is_space c" for k m
    using encoded_alphabet(1) [of "hmac_sha256 hmac k m"] assms url_char_not_space by (auto simp: hmac_sha256_def list_all_iff)
  have dot: "\<not> js_is_space (CHR ''.'')" by (simp add: js_is_space_def code_unit_def)
  show "sign_access_token hmac signer claims \<noteq> []" by (simp add: sign_access_token_def Let_def)
  show "\<forall>c \<in> set (sign_access_token hmac signer claims). \<not> js_is_space c"
    using e s dot by (auto simp: sign_access_token_def Let_def)
qed

section \<open>The account\<close>

definition member_device :: device_row where
  "member_device =
     \<lparr>d_id = ''u1:phone'', d_user_id = ''u1'', d_identifier = ''phone'', d_name = None, d_type = Some 1, d_encrypted_user_key = None,
      d_encrypted_public_key = None, d_encrypted_private_key = None, d_last_seen_at = Some ''n'', d_revoked_at = None,
      d_created_at = ''n'', d_updated_at = ''n'', d_session_id = Some ''s1'', d_mfa_totp_credential_generation = None,
      d_mfa_verified_at = None\<rparr>"

definition member_database :: database where
  "member_database = sample_database\<lparr>devices := [member_device]\<rparr>"

definition member_claims :: "(string \<times> json) list" where
  "member_claims = build_access_token_claims sample_user ''phone'' ''s1'' 0 3600 ''password'' False"

definition member_token :: string where
  "member_token = sign_access_token sample_hmac256 (tc_signer sample_config) member_claims"

definition member_site :: route_site where
  "member_site = \<lparr>st_env = sample_env, st_headers = (\<lambda>h. if h = ''Authorization'' then Some (''Bearer '' @ member_token) else None),
     st_seconds = 15, st_now = iso_text 15000,
     st_audit = \<lparr>as_logs = None, as_request_id = ''q'', as_now = iso_text 15000, as_row_id = ''e1''\<rparr>\<rparr>"

definition member_auth :: authenticated_request where
  "member_auth =
     \<lparr>av_user = \<lparr>au_user = sample_user, au_totp_enabled = False, au_totp_encrypted_secret = None, au_totp_last_accepted_step = None,
        au_totp_credential_generation = None\<rparr>, av_device_identifier = ''phone'', av_session_id = ''s1'',
      av_token_issued_at = Finite 0, av_auth_method = Some ''password''\<rparr>"

lemma member_config: "tc_signer sample_config = KeySigner \<lparr>sk_id = ''k2'', sk_secret = ''new''\<rparr>"
  "tc_verifier sample_config = RingVerifier \<lparr>kr_active = \<lparr>sk_id = ''k2'', sk_secret = ''new''\<rparr>, kr_previous = [], kr_legacy_secrets = [''top'']\<rparr>"
  by code_simp+

lemma member_token_verified:
  "verify_access_token sample_hmac256 (tc_verifier sample_config) member_token 15 = VerifiedToken member_claims (Some ''k2'')"
proof -
  have claims: "is_access_token_claims (JObj member_claims)" "json_plain (JObj member_claims)"
    "\<not> num_le (claim_number member_claims ''exp'') 15"
    by (simp_all add: is_access_token_claims_def member_claims_def build_access_token_claims_def sample_user_def jprop_def
        session_id_ok_def amr_ok_def auth_methods_def num_is_safe_integer_def safe_int_def max_safe_integer_def claim_number_def)
  show ?thesis
    using verify_signed [OF claims, of "\<lparr>sk_id = ''k2'', sk_secret = ''new''\<rparr>"
        "\<lparr>kr_active = \<lparr>sk_id = ''k2'', sk_secret = ''new''\<rparr>, kr_previous = [], kr_legacy_secrets = [''top'']\<rparr>" sample_hmac256]
      sample_hmac256_ok
    by (simp add: member_config member_token_def)
qed

lemma member_kdf: "kdf_from_stored_generation (user_generation sample_user) \<noteq> None"
  by code_simp

text \<open>The tables that the authentication reads.\<close>

definition same_account :: "database \<Rightarrow> bool" where
  "same_account db \<longleftrightarrow>
     take 1 (users db) = users member_database \<and> devices db = devices member_database \<and> user_totp db = user_totp member_database"

lemma member_authenticated:
  assumes "same_account db"
  shows "authenticate_vault_request sample_hmac256 (st_env member_site) (st_headers member_site) (st_seconds member_site) db =
    Inr member_auth"
proof -
  have token: "read_bearer_token (st_headers member_site ''Authorization'') = Some member_token"
    using bearer_token [OF signed_token_plain(1) [of sample_hmac256, OF sample_hmac256_ok(2)]
        signed_token_plain(2) [of sample_hmac256, OF sample_hmac256_ok(2)]]
    by (simp add: member_site_def member_token_def)
  have "member_token \<noteq> []" using signed_token_plain(1) sample_hmac256_ok(2) by (simp add: member_token_def)
  moreover have "find_auth_user_by_session ''u1'' ''phone'' ''s1'' db = Inr (Some (av_user member_auth))"
    using assms member_kdf
    by (cases "users db") (simp_all add: find_auth_user_by_session_def find_auth_user_by_id_def find_user_where_def session_device_def
        auth_user_from_row_def user_generation_def same_account_def member_database_def sample_database_def
        member_device_def member_auth_def sample_user_def empty_database_def sql_defs)
  moreover have "claim_string member_claims ''sub'' = ''u1''" "claim_string member_claims ''device'' = ''phone''"
    "claim_string member_claims ''sessionId'' = ''s1''" "claim_string member_claims ''securityStamp'' = ''stamp''"
    "claim_number member_claims ''iat'' = Finite 0" "as_string (jprop member_claims ''authMethod'') = Some ''password''"
    "as_string (jprop member_claims ''sessionId'') = Some ''s1''"
    by (simp_all add: member_claims_def build_access_token_claims_def sample_user_def claim_string_def claim_number_def jprop_def)
  ultimately show ?thesis
    using token sample_config_resolves member_token_verified
    by (simp add: authenticate_vault_request_def authenticate_vault_request_with_access_token_def member_site_def truthy_def
        member_auth_def sample_user_def)
qed

section \<open>Its vault\<close>

text \<open>Two ciphers of the account and one of another user.\<close>

definition vault_cipher :: "string \<Rightarrow> string \<Rightarrow> cipher_row" where
  "vault_cipher uid cipher_id =
     \<lparr>vc_id = cipher_id, vc_user_id = uid, vc_folder_id = None, vc_type = 1, vc_favorite = False, vc_encrypted_json = ''x'',
      vc_revision_date = iso_text 9000, vc_deleted_at = None, vc_created_at = iso_text 9000, vc_updated_at = iso_text 9000,
      vc_organization_id = None, vc_cipher_key = None\<rparr>"

definition vault_database :: database where
  "vault_database = member_database
     \<lparr>users := [sample_user, sample_user\<lparr>u_id := ''u2'', u_email := ''d@b.co'', u_email_normalized := ''d@b.co''\<rparr>],
      folders := [\<lparr>fo_id = ''f2'', fo_user_id = ''u2'', fo_encrypted_name = ''n'', fo_revision_date = iso_text 9000,
         fo_deleted_at = None, fo_created_at = iso_text 9000, fo_updated_at = iso_text 9000\<rparr>],
      ciphers := [vault_cipher ''u1'' ''c2'', vault_cipher ''u2'' ''c3'', vault_cipher ''u1'' ''c1'']\<rparr>"

lemma vault_account: "same_account vault_database"
  by (simp add: same_account_def vault_database_def member_database_def sample_database_def)

lemmas vault_authenticated = member_authenticated [OF vault_account]

lemma member_id [simp]: "auth_user_id member_auth = ''u1''"
  by (simp add: auth_user_id_def member_auth_def sample_user_def)

lemma vault_listing:
  "list_accessible_ciphers_by_user ''u1'' actor vault_database =
     Inr (map (\<lambda>i. \<lparr>vr_id = i, vr_user_id = ''u1'', vr_folder_id = None, vr_type = 1, vr_favorite = False, vr_encrypted_json = ''x'',
       vr_revision_date = iso_text 9000, vr_created_at = iso_text 9000, vr_deleted_at = None, va_organization_id = None,
       va_cipher_key = None, va_collection_ids = [], va_can_edit = True, va_can_view_password = True\<rparr>) [''c1'', ''c2''])"
proof -
  let ?v = "organization_access_actor_values ''u1'' actor"
  have "ac_user_id ?v = ''u1''" by (simp add: organization_access_actor_values_def split: option.split)
  then have "accessible_rows ?v None vault_database = [vault_cipher ''u1'' ''c1'', vault_cipher ''u1'' ''c2'']"
    by (simp add: accessible_rows_def vault_database_def accessible_cipher_predicate_def vault_cipher_def after_cursor_def
        row_key_def less_char_def)
  then show ?thesis
    by (simp add: list_accessible_ciphers_by_user_def Let_def accessible_cipher_from_row_def vault_cipher_def)
qed

lemma sample_date: "iso_text 9000 \<noteq> []" "date_parse (iso_text 9000) = Some 9000"
  by (simp_all add: iso_text_nonempty common_era_def)

text \<open>Read in pages of one cipher.\<close>

theorem cipher_paging_terminates_witness:
  "\<exists>all. length all = 2 \<and>
     follow_tokens 3 (ask_ciphers sample_hmac256 member_site (Some ''1'') vault_database) None = Some all"
proof -
  obtain all where all: "list_accessible_ciphers_by_user ''u1'' (Some (organization_actor member_auth)) vault_database = Inr all"
      "length all = 2" "\<forall>c \<in> set all. key_ok (vr_revision_date c, vr_id c)"
    by (rule that [OF vault_listing]) (simp_all add: key_ok_def sample_date)
  have "page_size (Some ''1'') = Some 1"
    by (simp add: page_size_def parse_page_size_def max_list_page_size_def is_digit_def code_unit_def digits_value_def)
  then show ?thesis
    using cipher_paging_terminates [OF vault_authenticated, of "Some ''1''" 1 all] all by (simp add: vault_database_def vault_cipher_def)
qed

end
