(* ===== verification/SharingProofs.thy ===== *)
theory SharingProofs
  imports VaultSample
begin

text \<open>
  Moving a cipher into an organisation: the row and its collection entries are written together or not at all, and
  the collections are those asked for, each writable by the caller. Writes that expect a revision: of two with the same
  expectation one wins.
\<close>

section \<open>Managed collections\<close>

lemma grants_other_tables [simp]:
  "organization_collection_grants v (ciphers_update f db) = organization_collection_grants v db"
  "organization_collection_grants v (collection_ciphers_update g db) = organization_collection_grants v db"
proof -
  have "confirmed_memberships v (ciphers_update f db) = confirmed_memberships v db"
    "confirmed_memberships v (collection_ciphers_update g db) = confirmed_memberships v db"
    by (simp_all add: confirmed_memberships_def active_organization_actor_def organization_policy_allows_def
        two_step_policy_def organization_session_totp_verified_def)
  moreover have "member_grants m (ciphers_update f db) = member_grants m db" "group_grants m (ciphers_update f db) = group_grants m db"
    "member_grants m (collection_ciphers_update g db) = member_grants m db" "group_grants m (collection_ciphers_update g db) = group_grants m db" for m
    by (simp_all add: member_grants_def group_grants_def cong: if_cong)
  ultimately show "organization_collection_grants v (ciphers_update f db) = organization_collection_grants v db"
    "organization_collection_grants v (collection_ciphers_update g db) = organization_collection_grants v db"
    by (simp_all add: organization_collection_grants_def)
qed

lemma managed_other_tables [simp]:
  "managed_ids i (ciphers_update f db) = managed_ids i db"
  "managed_ids i (collection_ciphers_update g db) = managed_ids i db"
  by (simp_all add: managed_ids_def managed_organization_collections_def accessible_organization_collections_def)

definition caller_manages :: "organization_cipher_input \<Rightarrow> database \<Rightarrow> string \<Rightarrow> bool" where
  "caller_manages i db c \<longleftrightarrow>
     (\<exists>a \<in> set (accessible_organization_collections (organization_access_actor_values (oc_user_id i) (oc_actor i)) db).
        ca_collection_id a = c \<and> ca_organization_id a = oc_organization_id i \<and> \<not> ca_read_only a)"

lemma managed_ids_subset: "set (managed_ids i db) \<subseteq> {c \<in> set (oc_collection_ids i). caller_manages i db c}"
  by (auto simp: managed_ids_def managed_organization_collections_def caller_manages_def list_ex_iff)

lemma managed_ids_all:
  assumes "organization_cipher_input_ok i" "length (managed_ids i db) = length (oc_collection_ids i)"
  shows "set (managed_ids i db) = set (oc_collection_ids i)" "\<forall>c \<in> set (oc_collection_ids i). caller_manages i db c"
proof -
  have "distinct (managed_ids i db)" by (simp add: managed_ids_def managed_organization_collections_def)
  moreover have "distinct (oc_collection_ids i)"
    using assms(1) by (simp add: organization_cipher_input_ok_def has_unique_collection_ids_def)
  ultimately have "card (set (managed_ids i db)) = card (set (oc_collection_ids i))"
    using assms(2) by (simp add: distinct_card)
  with managed_ids_subset [of i db] show "set (managed_ids i db) = set (oc_collection_ids i)"
    by (intro card_subset_eq) auto
  with managed_ids_subset [of i db] show "\<forall>c \<in> set (oc_collection_ids i). caller_manages i db c" by blast
qed

section \<open>The second statement\<close>

abbreviation entry_of :: "organization_cipher_input \<Rightarrow> string \<Rightarrow> collection_cipher_row" where
  "entry_of i c \<equiv> \<lparr>cc_collection_id = c, cc_cipher_id = oc_id i\<rparr>"

lemma mapping_skipped: "mapping_stmt i db 0 = Inr (db, 0)"
  by (simp add: mapping_stmt_def)

lemma mapping_applied:
  assumes "\<exists>r \<in> set (ciphers db). transitioned i r" "\<forall>m \<in> set (collection_ciphers db). cc_cipher_id m \<noteq> oc_id i"
  shows "mapping_stmt i db 1 =
    Inr (collection_ciphers_update (\<lambda>t. t @ map (entry_of i) (managed_ids i db)) db, length (managed_ids i db))"
  using assms by (auto simp: mapping_stmt_def sql_exists_iff list_ex_iff Let_def)

lemma transitioned_rows: "transitioned i (new_organization_cipher_row i)" "personal_active (oc_id i) (oc_user_id i) r \<Longrightarrow> transitioned i (shared_row i r)"
  by (simp_all add: transitioned_def new_organization_cipher_row_def shared_row_def personal_active_def personal_cipher_def)

text \<open>The cipher is in exactly the collections that were asked for.\<close>

definition filed :: "organization_cipher_input \<Rightarrow> database \<Rightarrow> bool" where
  "filed i db \<longleftrightarrow> (\<forall>c. entry_of i c \<in> set (collection_ciphers db) \<longleftrightarrow> c \<in> set (oc_collection_ids i))"

lemma filed_after:
  assumes "organization_cipher_input_ok i" "length (managed_ids i db) = length (oc_collection_ids i)"
    and "\<forall>m \<in> set (collection_ciphers db). cc_cipher_id m \<noteq> oc_id i"
  shows "filed i (collection_ciphers_update (\<lambda>t. t @ map (entry_of i) (managed_ids i db)) db)"
  using managed_ids_all(1) [OF assms(1,2)] assms(3) by (force simp: filed_def)

section \<open>Sharing\<close>

lemma shared_batch:
  assumes "distinct (map vc_id (ciphers db))" "r \<in> set (ciphers db)" "shareable i revision db r"
  shows "batch [update_stmt ciphers ciphers_update (\<lambda>db prev. shareable i revision db) (shared_row i), mapping_stmt i] db =
    Inr (collection_ciphers_update (\<lambda>t. t @ map (entry_of i) (managed_ids i db))
      (ciphers_update (sql_update (shareable i revision db) (shared_row i)) db), [1, length (oc_collection_ids i)])"
proof -
  let ?d = "ciphers_update (sql_update (shareable i revision db) (shared_row i)) db"
  have ids: "shareable i revision db s \<Longrightarrow> vc_id s = oc_id i" for s by (simp add: shareable_def personal_active_def)
  have n: "sql_count (shareable i revision db) (ciphers db) = 1"
    using sql_count_1_iff [OF assms(1) ids] assms(2,3) by blast
  have "\<exists>r \<in> set (ciphers ?d). transitioned i r"
    using updated_row_in [where p = "shareable i revision db" and f = "shared_row i", OF assms(2,3)] transitioned_rows(2) [of i r] assms(3)
    by (auto simp: shareable_def)
  moreover have "\<forall>m \<in> set (collection_ciphers ?d). cc_cipher_id m \<noteq> oc_id i"
    using assms(3) ids [OF assms(3)] by (auto simp: shareable_def sql_exists_iff)
  ultimately have "mapping_stmt i ?d 1 =
      Inr (collection_ciphers_update (\<lambda>t. t @ map (entry_of i) (managed_ids i ?d)) ?d, length (managed_ids i ?d))"
    by (rule mapping_applied)
  moreover have "length (managed_ids i db) = length (oc_collection_ids i)" using assms(3) by (simp add: shareable_def)
  ultimately show ?thesis using n by (simp add: batch_def update_stmt_def)
qed

lemma unshared_batch:
  assumes "\<forall>r \<in> set (ciphers db). \<not> shareable i revision db r"
  shows "batch [update_stmt ciphers ciphers_update (\<lambda>db prev. shareable i revision db) (shared_row i), mapping_stmt i] db = Inr (db, [0, 0])"
proof -
  have n: "sql_count (shareable i revision db) (ciphers db) = 0" using assms by (simp add: sql_count_0)
  then have "ciphers_update (sql_update (shareable i revision db) (shared_row i)) db = db" by (simp add: sql_update_none)
  with n show ?thesis by (simp add: batch_def update_stmt_def mapping_skipped)
qed

text \<open>
  C11. Sharing a cipher with an organisation is all or nothing. The answer that a batch did not fully apply never comes;
  when the answer is that the cipher was shared, a personal cipher of the caller with the expected revision became the
  organisation's, it is filed in exactly the collections asked for, and the caller may write to each of them;
  on every other answer, errors included, the database is unchanged.
\<close>

theorem sharing_is_all_or_nothing:
  assumes "distinct (map vc_id (ciphers db))" "share_personal_cipher_with_organization i revision db = (db', answer)"
  shows "answer \<noteq> Inl not_fully_applied \<and>
    (if answer = Inr (Written ())
     then (\<exists>r \<in> set (ciphers db). personal_active (oc_id i) (oc_user_id i) r \<and> vc_revision_date r = revision \<and>
             shared_row i r \<in> set (ciphers db') \<and> vc_organization_id (shared_row i r) = Some (oc_organization_id i)) \<and>
          (\<forall>c. \<lparr>cc_collection_id = c, cc_cipher_id = oc_id i\<rparr> \<in> set (collection_ciphers db') \<longleftrightarrow> c \<in> set (oc_collection_ids i)) \<and>
          (\<forall>c \<in> set (oc_collection_ids i). caller_manages i db c)
     else db' = db)"
proof (cases "organization_cipher_input_ok i")
  case False
  with assms(2) show ?thesis by (auto simp: share_personal_cipher_with_organization_def throw_def not_fully_applied_def)
next
  case ok: True
  show ?thesis
  proof (cases "\<exists>r \<in> set (ciphers db). shareable i revision db r")
    case True
    then obtain r where r: "r \<in> set (ciphers db)" "shareable i revision db r" by blast
    let ?d = "ciphers_update (sql_update (shareable i revision db) (shared_row i)) db"
    have answer: "answer = Inr (Written ())"
        "db' = collection_ciphers_update (\<lambda>t. t @ map (entry_of i) (managed_ids i ?d)) ?d"
      using assms(2) shared_batch [OF assms(1) r] ok
      by (simp_all add: share_personal_cipher_with_organization_def with_batch_def return_value_def)
    have n: "length (managed_ids i db) = length (oc_collection_ids i)" using r(2) by (simp add: shareable_def)
    have "\<forall>m \<in> set (collection_ciphers db). cc_cipher_id m \<noteq> oc_id i"
      using r(2) by (auto simp: shareable_def sql_exists_iff personal_active_def)
    with filed_after [of i ?d] ok n have "filed i db'" by (simp add: answer(2))
    moreover have "shared_row i r \<in> set (ciphers db')"
      using updated_row_in [where p = "shareable i revision db" and f = "shared_row i", OF r] by (simp add: answer(2))
    ultimately show ?thesis
      using r managed_ids_all(2) [OF ok n] by (auto simp: answer(1) filed_def shareable_def shared_row_def intro!: bexI [of _ r])
  next
    case False
    with assms(2) unshared_batch [of db i revision] ok show ?thesis
      by (auto simp: share_personal_cipher_with_organization_def with_batch_def return_value_def not_fully_applied_def
          split: option.splits if_splits)
  qed
qed

text \<open>A collection that the sample account manages, and a cipher it shares into it.\<close>

definition shared_input :: organization_cipher_input where
  "shared_input =
     \<lparr>oc_actor = None, oc_id = ''c1'', oc_user_id = ''u1'', oc_organization_id = ''g1'', oc_collection_ids = [''k1''], oc_type = 1,
      oc_favorite = False, oc_encrypted_json = ''y'', oc_cipher_key = None, oc_now = iso_text 15000\<rparr>"

definition organization_database :: database where
  "organization_database = vault_database
     \<lparr>organizations := [\<lparr>org_id = ''g1'', org_name = ''G'', org_billing_email = None, org_plan_type = 0, org_public_key = None,
         org_private_key = None, org_enabled = True, org_use_totp = True, org_revision_date = ''r'', org_created_at = ''r'',
         org_updated_at = ''r''\<rparr>],
      organization_users := [\<lparr>ou_id = ''m1'', ou_organization_id = ''g1'', ou_user_id = Some ''u1'', ou_email = ''a@b.co'',
         ou_org_key = None, ou_status = 2, ou_type = 0, ou_permissions = None, ou_invite_token_hash = None, ou_invite_expires_at = None,
         ou_last_membership_mutation_id = None, ou_created_at = ''r'', ou_updated_at = ''r''\<rparr>],
      collections := [\<lparr>cl_id = ''k1'', cl_organization_id = ''g1'', cl_encrypted_name = ''k'', cl_external_id = None, cl_type = 0,
         cl_revision_date = ''r'', cl_created_at = ''r''\<rparr>],
      collection_users := [\<lparr>cu_collection_id = ''k1'', cu_organization_user_id = ''m1'', cu_read_only = False,
         cu_hide_passwords = False, cu_manage = True\<rparr>]\<rparr>"

lemma organization_tables [simp]:
  "collection_ciphers organization_database = []" "cipher_attachments organization_database = []"
  "organization_policies organization_database = []" "organization_group_users organization_database = []"
  by (simp_all add: organization_database_def vault_database_def member_database_def sample_database_def empty_database_def)

lemma sample_managed: "managed_ids shared_input organization_database = [''k1'']"
  by (simp add: managed_ids_def managed_organization_collections_def shared_input_def organization_access_actor_values_def
      accessible_organization_collections_def organization_collection_grants_def confirmed_memberships_def group_grants_def
      organization_policy_allows_def two_step_policy_def sql_exists_def active_organization_actor_def Let_def)
    (simp add: organization_database_def vault_database_def member_grants_def collection_grant_def sample_user_def merged_grant_def
      grant_key_def sql_eq_def Let_def)

theorem sharing_is_all_or_nothing_witness:
  "\<exists>db'. share_personal_cipher_with_organization shared_input (iso_text 9000) organization_database = (db', Inr (Written ())) \<and>
     \<lparr>cc_collection_id = ''k1'', cc_cipher_id = ''c1''\<rparr> \<in> set (collection_ciphers db')"
proof -
  have rows: "ciphers organization_database = [vault_cipher ''u1'' ''c2'', vault_cipher ''u2'' ''c3'', vault_cipher ''u1'' ''c1'']"
    by (simp add: organization_database_def vault_database_def)
  then have d: "distinct (map vc_id (ciphers organization_database))" by (simp add: vault_cipher_def)
  have "vault_cipher ''u1'' ''c1'' \<in> set (ciphers organization_database)" by (simp add: rows)
  moreover have "shareable shared_input (iso_text 9000) organization_database (vault_cipher ''u1'' ''c1'')"
    using sample_managed
    by (simp add: shareable_def personal_active_def personal_cipher_def vault_cipher_def shared_input_def sql_exists_def)
  moreover have "organization_cipher_input_ok shared_input"
    by (simp add: organization_cipher_input_ok_def shared_input_def cipher_key_ok_def has_unique_collection_ids_def)
  ultimately obtain db' where db': "share_personal_cipher_with_organization shared_input (iso_text 9000) organization_database = (db', Inr (Written ()))"
    using shared_batch [OF d]
    by (simp add: share_personal_cipher_with_organization_def with_batch_def return_value_def)
  with sharing_is_all_or_nothing [OF d db'] show ?thesis by (auto simp: shared_input_def)
qed

section \<open>Lost updates\<close>

lemma first_updated:
  assumes "distinct (map key t)" "r \<in> set t" "p r" "\<And>s. p s \<Longrightarrow> q (f s)" "\<And>s. key (f s) = key s" "\<And>s. q s \<Longrightarrow> key s = key r"
  shows "sql_first q (sql_update p f t) = Some (f r)"
proof -
  have "f r \<in> set (sql_update p f t)" "q (f r)" using assms(2-4) by (auto simp: set_sql_update)
  then obtain s where s: "sql_first q (sql_update p f t) = Some s" by (cases "sql_first q (sql_update p f t)") (auto simp: sql_first_None)
  from sql_first_SomeD [OF s] assms(6) have "s \<in> set (sql_update p f t)" "key s = key r" by auto
  then obtain s' where s': "s' \<in> set t" "s = (if p s' then f s' else s')" by (auto simp: set_sql_update)
  then have "key s' = key r" using \<open>key s = key r\<close> assms(5) by (auto split: if_splits)
  with distinct_key_unique [OF assms(1) s'(1) assms(2)] have "s' = r" by simp
  with s s'(2) assms(3) show ?thesis by simp
qed

definition expects :: "cipher_record \<Rightarrow> string \<Rightarrow> cipher_row \<Rightarrow> bool" where
  "expects c revision r \<longleftrightarrow> personal_active (vr_id c) (vr_user_id c) r \<and> vc_revision_date r = revision"

lemma update_cipher_eq:
  "update_cipher c revision db =
     (if \<not> folder_reference (vr_folder_id c) db \<and> 0 < sql_count (expects c revision) (ciphers db) then (db, Inl ConstraintError)
      else (let d = ciphers_update (sql_update (expects c revision) (written_cipher c)) db
            in (d, Inr (if sql_count (expects c revision) (ciphers db) \<noteq> 1
                  then conflict_or_missing (find_active_cipher_revision (vr_id c) (vr_user_id c) d)
                  else Written (c\<lparr>vr_created_at := (case find_active_cipher_created_at (vr_id c) (vr_user_id c) db of
                         Some x \<Rightarrow> x | None \<Rightarrow> vr_created_at c), vr_deleted_at := None\<rparr>)))))"
proof -
  have "(\<lambda>r. personal_active (vr_id c) (vr_user_id c) r \<and> vc_revision_date r = revision) = expects c revision"
    by (rule ext) (simp add: expects_def)
  then show ?thesis
    by (simp add: update_cipher_def repo_bind_def repo_get_def with_batch_def batch_def move_stmt_def update_stmt_def return_value_def Let_def)
qed

lemma update_cipher_Written:
  assumes "update_cipher c revision db = (d, Inr (Written w))"
  shows "(\<exists>r \<in> set (ciphers db). expects c revision r) \<and>
    d = ciphers_update (sql_update (expects c revision) (written_cipher c)) db"
proof -
  have "sql_count (expects c revision) (ciphers db) = 1"
    using assms by (simp add: update_cipher_eq Let_def conflict_or_missing_def split: if_splits)
  then have "0 < sql_count (expects c revision) (ciphers db)" by simp
  then show ?thesis using assms by (auto simp: update_cipher_eq Let_def sql_count_pos split: if_splits)
qed

lemma update_cipher_missed:
  assumes "\<forall>r \<in> set (ciphers db). \<not> expects c revision r"
  shows "update_cipher c revision db = (db, Inr (conflict_or_missing (find_active_cipher_revision (vr_id c) (vr_user_id c) db)))"
proof -
  have n: "sql_count (expects c revision) (ciphers db) = 0" using assms by (simp add: sql_count_0)
  then have "ciphers_update (sql_update (expects c revision) (written_cipher c)) db = db" by (simp add: sql_update_none)
  with n show ?thesis by (simp add: update_cipher_eq Let_def)
qed

text \<open>
  C14. No update is lost. When a client has written a cipher over the revision it last saw, and the new revision is a
  different one, a second client that still expects the old revision is refused with the conflict that names the
  new revision, and its write leaves the database as the first client left it.
\<close>

theorem second_update_conflicts:
  assumes "distinct (map vc_id (ciphers db))" "update_cipher c revision db = (d, Inr (Written w))"
    and "vr_revision_date c \<noteq> revision" "vr_revision_date c \<noteq> []" "vr_id c' = vr_id c" "vr_user_id c' = vr_user_id c"
  shows "update_cipher c' revision d = (d, Inr (RevisionConflict (vr_revision_date c)))"
proof -
  from update_cipher_Written [OF assms(2)] obtain r where r: "r \<in> set (ciphers db)" "expects c revision r"
    and d: "d = ciphers_update (sql_update (expects c revision) (written_cipher c)) db" by blast
  then have tbl: "ciphers d = sql_update (expects c revision) (written_cipher c) (ciphers db)" by simp
  have new: "expects c revision s \<Longrightarrow> personal_active (vr_id c) (vr_user_id c) (written_cipher c s)" for s
    by (simp add: expects_def personal_active_def personal_cipher_def written_cipher_def)
  have "sql_first (personal_active (vr_id c) (vr_user_id c)) (ciphers d) = Some (written_cipher c r)"
    unfolding tbl
    by (rule first_updated [where key = vc_id and p = "expects c revision" and q = "personal_active (vr_id c) (vr_user_id c)"
          and f = "written_cipher c" and r = r, OF assms(1) r new])
      (use r(2) in \<open>auto simp: written_cipher_def personal_active_def expects_def\<close>)
  then have "find_active_cipher_revision (vr_id c') (vr_user_id c') d = Some (vr_revision_date c)"
    by (simp add: find_active_cipher_revision_def assms(5,6) written_cipher_def)
  moreover have "\<forall>s \<in> set (ciphers d). \<not> expects c' revision s"
    using assms(3,5,6) by (auto simp: d set_sql_update expects_def written_cipher_def)
  ultimately show ?thesis using update_cipher_missed [of d c' revision] assms(4) by (simp add: conflict_or_missing_def)
qed

definition sample_edit :: "string \<Rightarrow> cipher_record" where
  "sample_edit text =
     \<lparr>vr_id = ''c1'', vr_user_id = ''u1'', vr_folder_id = None, vr_type = 1, vr_favorite = False, vr_encrypted_json = text,
      vr_revision_date = iso_text 15000, vr_created_at = iso_text 15000, vr_deleted_at = None\<rparr>"

theorem second_update_conflicts_witness:
  "\<exists>d w. update_cipher (sample_edit ''first'') (iso_text 9000) vault_database = (d, Inr (Written w)) \<and>
     update_cipher (sample_edit ''second'') (iso_text 9000) d = (d, Inr (RevisionConflict (iso_text 15000)))"
proof -
  have era: "common_era 9000" "common_era 15000" by (simp_all add: common_era_def)
  then have later: "iso_text 15000 \<noteq> iso_text 9000" using iso_text_less_iff [of 9000 15000] by auto
  have rows: "distinct (map vc_id (ciphers vault_database))" "sql_count (expects (sample_edit ''first'') (iso_text 9000)) (ciphers vault_database) = 1"
    by (simp_all add: vault_database_def vault_cipher_def sql_count_def expects_def sample_edit_def personal_active_def personal_cipher_def)
  then obtain d w where w: "update_cipher (sample_edit ''first'') (iso_text 9000) vault_database = (d, Inr (Written w))"
    by (auto simp: update_cipher_eq Let_def folder_reference_def sample_edit_def)
  from second_update_conflicts [OF rows(1) w, of "sample_edit ''second''"] w later era(2) show ?thesis
    by (auto simp: sample_edit_def)
qed

end
