(* ===== verification/VaultProofs.thy ===== *)
theory VaultProofs
  imports VaultSample
begin

text \<open>
  What a vault request may change and show. A request changes rows only of its caller, or rows of an organisation that
  the caller may write; the two ways the program resolves an access agree; moving a cipher into an
  organisation is all or nothing; of two writes that expect the same revision one wins.
\<close>

section \<open>The requests\<close>

datatype vault_request =
    CreateFolder json | ListFolders list_query | ReadFolder string | UpdateFolder string json | DeleteFolder string
  | CreateCipher json | CreateInOrganization json | ShareCipher string json | ListCiphers list_query | ReadCipher string
  | UpdateCipher string json | TrashCipher string | RestoreCipher string | DeleteCipher string
  | BulkMove json | BulkTrash json | BulkRestore json | BulkDelete json

text \<open>The database after a request, by the route it is sent to.\<close>

definition after_request ::
    "mac \<Rightarrow> route_site \<Rightarrow> (string list \<Rightarrow> js_error + unit) \<Rightarrow> string \<Rightarrow> vault_request \<Rightarrow> database \<Rightarrow> database" where
  "after_request hmac site bucket new_id q db =
     (case q of
        CreateFolder body \<Rightarrow> fst (handle_folder_create hmac site new_id body db)
      | ListFolders lq \<Rightarrow> fst (handle_folder_list hmac site lq db)
      | ReadFolder i \<Rightarrow> fst (handle_folder_read hmac site i db)
      | UpdateFolder i body \<Rightarrow> fst (handle_folder_update hmac site i body db)
      | DeleteFolder i \<Rightarrow> fst (handle_folder_delete hmac site i db)
      | CreateCipher body \<Rightarrow> fst (handle_cipher_create hmac site new_id body db)
      | CreateInOrganization body \<Rightarrow> fst (handle_organization_cipher_create hmac site new_id body db)
      | ShareCipher i body \<Rightarrow> fst (handle_personal_cipher_share hmac site i body db)
      | ListCiphers lq \<Rightarrow> fst (handle_cipher_list hmac site lq db)
      | ReadCipher i \<Rightarrow> fst (handle_cipher_read hmac site i db)
      | UpdateCipher i body \<Rightarrow> fst (handle_cipher_update hmac site i body db)
      | TrashCipher i \<Rightarrow> fst (handle_cipher_trash hmac site i db)
      | RestoreCipher i \<Rightarrow> fst (handle_cipher_restore hmac site i db)
      | DeleteCipher i \<Rightarrow> fst (handle_cipher_delete hmac site bucket i db)
      | BulkMove body \<Rightarrow> fst (handle_bulk_move hmac site body db)
      | BulkTrash body \<Rightarrow> fst (handle_bulk_trash hmac site body db)
      | BulkRestore body \<Rightarrow> fst (handle_bulk_restore hmac site body db)
      | BulkDelete body \<Rightarrow> fst (handle_bulk_delete hmac site bucket body db))"

section \<open>What a step leaves in place\<close>

text \<open>Every cipher is still there unless it is \<open>ok\<close> to change it, and every folder of another user is.\<close>

definition confined :: "(cipher_row \<Rightarrow> bool) \<Rightarrow> string \<Rightarrow> database \<Rightarrow> database \<Rightarrow> bool" where
  "confined ok_row uid db db' \<longleftrightarrow>
     (\<forall>r \<in> set (ciphers db). ok_row r \<or> r \<in> set (ciphers db')) \<and>
     (\<forall>f \<in> set (folders db). fo_user_id f = uid \<or> f \<in> set (folders db'))"

definition confines :: "(cipher_row \<Rightarrow> bool) \<Rightarrow> string \<Rightarrow> 'a repo \<Rightarrow> database \<Rightarrow> bool" where
  "confines ok_row uid m db \<longleftrightarrow> confined ok_row uid db (fst (m db))"

definition vault_tables :: "database \<Rightarrow> cipher_row list \<times> folder_row list" where
  "vault_tables db = (ciphers db, folders db)"

lemma confined_refl [simp]: "confined ok_row uid db db"
  by (simp add: confined_def)

lemma confined_trans: "confined ok_row uid d e \<Longrightarrow> confined ok_row uid e f \<Longrightarrow> confined ok_row uid d f"
  unfolding confined_def by blast

named_theorems confining \<open>repository functions that change only what is allowed\<close>

lemma preserves_confines: "preserves vault_tables m \<Longrightarrow> confines ok_row uid m db"
  by (simp add: confines_def confined_def preserves_def vault_tables_def)

lemma confines_values [confining]:
  "confines ok_row uid (return_value x) db" "confines ok_row uid (throw e) db" "confines ok_row uid (repo_get g) db"
  "confines ok_row uid (repo_read h) db" "confines ok_row uid (repo_lift y) db"
  by (simp_all add: confines_def repo_get_def repo_read_def repo_lift_def)

lemma confines_bind [confining]:
  assumes "confines ok_row uid m db" "\<And>x d. confines ok_row uid (k x) d"
  shows "confines ok_row uid (repo_bind m k) db"
proof (cases "m db")
  case (Pair d x)
  with assms(1) have d: "confined ok_row uid db d" by (simp add: confines_def)
  show ?thesis
  proof (cases x)
    case (Inr y)
    with assms(2) [of y d] confined_trans [OF d] Pair show ?thesis by (simp add: confines_def repo_bind_def)
  qed (use d Pair in \<open>simp add: confines_def repo_bind_def\<close>)
qed

lemma confines_then [confining]:
  "confines ok_row uid m db \<Longrightarrow> (\<And>d. confines ok_row uid k d) \<Longrightarrow> confines ok_row uid (repo_then m k) db"
  unfolding repo_then_def by (rule confines_bind)

lemma confines_when [confining]: "(\<And>d. confines ok_row uid m d) \<Longrightarrow> confines ok_row uid (repo_when b m) db"
  unfolding repo_when_def by (auto intro: confining)

text \<open>What is read first is read of the database the route starts with.\<close>

lemma confines_read:
  "confines ok_row uid (k (g db)) db \<Longrightarrow> confines ok_row uid (repo_bind (repo_get g) k) db"
  by (simp add: confines_def repo_bind_def repo_get_def)

lemma confines_batch:
  assumes "\<And>s d n d' k'. s \<in> set ss \<Longrightarrow> s d n = Inr (d', k') \<Longrightarrow> confined ok_row uid d d'"
    and "\<And>ns d. confines ok_row uid (k ns) d"
  shows "confines ok_row uid (with_batch ss k) db"
  unfolding confines_def
proof (rule with_batch_invariant [where P = "confined ok_row uid db"])
  show "confined ok_row uid db d'" if "s \<in> set ss" "s d n = Inr (d', k')" "confined ok_row uid db d" for s d n d' k'
    using confined_trans [OF that(3) assms(1) [OF that(1,2)]] .
  show "confined ok_row uid db (fst (k ns d))" if "confined ok_row uid db d" for ns d
    using confined_trans [OF that, of "fst (k ns d)"] assms(2) by (simp add: confines_def)
qed simp

text \<open>A single statement runs on the database the batch starts with.\<close>

lemma confines_single:
  assumes "\<And>n d' k'. s db n = Inr (d', k') \<Longrightarrow> confined ok_row uid db d'" "\<And>ns d. confines ok_row uid (k ns) d"
  shows "confines ok_row uid (with_batch [s] k) db"
proof (cases "s db 0")
  case (Inr p)
  obtain d n where p: "p = (d, n)" by (cases p)
  from assms(1) [of 0 d n] Inr p have d: "confined ok_row uid db d" by simp
  with confined_trans [OF d] assms(2) [of "[n]" d] Inr p show ?thesis
    by (simp add: confines_def with_batch_def batch_def)
qed (simp add: confines_def with_batch_def batch_def)

section \<open>Statements\<close>

lemma confined_ciphers_update:
  "(\<And>r. r \<in> set (ciphers db) \<Longrightarrow> p r \<Longrightarrow> ok_row r) \<Longrightarrow> confined ok_row uid db (ciphers_update (sql_update p f) db)"
  by (auto simp: confined_def set_sql_update)

lemma confined_folders_update:
  "(\<And>r. p r \<Longrightarrow> fo_user_id r = uid) \<Longrightarrow> confined ok_row uid db (folders_update (sql_update p f) db)"
  by (force simp: confined_def set_sql_update)

lemma confined_move:
  "move_stmt folder p f db n = Inr (d, k) \<Longrightarrow> (\<And>r. r \<in> set (ciphers db) \<Longrightarrow> p r \<Longrightarrow> ok_row r) \<Longrightarrow> confined ok_row uid db d"
  by (auto simp: move_stmt_def update_stmt_Inr confined_ciphers_update split: if_splits)

lemma confined_delete:
  "delete_ciphers p db n = Inr (d, k) \<Longrightarrow> (\<And>r. r \<in> set (ciphers db) \<Longrightarrow> p r \<Longrightarrow> ok_row r) \<Longrightarrow> confined ok_row uid db d"
  by (auto simp: delete_ciphers_def Let_def confined_def set_sql_delete)

lemma confined_insert:
  "insert_cipher r db = Inr (d, k) \<Longrightarrow> confined ok_row uid db d"
  "insert_folder f db = Inr (d, k) \<Longrightarrow> confined ok_row uid db d"
  by (auto simp: insert_cipher_def insert_folder_def confined_def split: if_splits)

lemma confined_mapping: "mapping_stmt i db n = Inr (d, k) \<Longrightarrow> confined ok_row uid db d"
  by (auto simp: mapping_stmt_def confined_def Let_def split: if_splits)

lemma confines_audit [confining]:
  "confines ok_row uid (emit_vault_mutation_audit_event site auth name tt tid context) db"
  "confines ok_row uid (audited_reply site auth name tt tid context answer) db"
proof -
  have s: "stmt_preserves vault_tables (\<lambda>db prev. insert_audit_event e db)" for e
    by (auto simp: stmt_preserves_def insert_audit_event_def vault_tables_def split: if_splits)
  have e: "preserves vault_tables (emit_audit_event st i)" for st i
    unfolding emit_audit_event_def persist_audit_event_def
    by (cases "is_audit_logging_enabled (as_logs st)"; simp; intro preserving s)
  then show 1: "confines ok_row uid (emit_vault_mutation_audit_event site auth name tt tid context) db" for db
    unfolding emit_vault_mutation_audit_event_def by (intro preserves_confines)
  show "confines ok_row uid (audited_reply site auth name tt tid context answer) db"
    unfolding audited_reply_def by (intro confining 1)
qed

section \<open>Repositories\<close>

lemma folder_repository_confines [confining]:
  "confines ok_row uid (create_folder f) db"
  "fr_user_id f = uid \<Longrightarrow> confines ok_row uid (update_folder f revision) db"
  "confines ok_row uid (delete_folder i uid now) db"
proof -
  show "confines ok_row uid (create_folder f) db"
    unfolding create_folder_def by (rule confines_single) (auto intro: confined_insert confining)
  show "confines ok_row uid (update_folder f revision) db" if "fr_user_id f = uid"
    unfolding update_folder_def
    by (rule confines_single)
      (use that in \<open>auto simp: update_stmt_Inr active_folder_def confines_def intro!: confined_folders_update\<close>)
  show "confines ok_row uid (delete_folder i uid now) db"
    unfolding delete_folder_def
    by (rule confines_single) (auto simp: update_stmt_Inr active_folder_def intro!: confined_folders_update confining)
qed

lemma personal_repository_confines:
  assumes own: "\<And>r. personal_cipher uid r \<Longrightarrow> ok_row r"
  shows "confines ok_row uid (create_cipher c) db"
    and "vr_user_id c = uid \<Longrightarrow> confines ok_row uid (update_cipher c revision) db"
    and "confines ok_row uid (soft_delete_cipher i uid now) db"
    and "confines ok_row uid (restore_cipher i uid now) db"
    and "confines ok_row uid (permanently_delete_cipher i uid) db"
proof -
  have pa: "personal_active i uid r \<Longrightarrow> ok_row r" for i r using own by (simp add: personal_active_def)
  show "confines ok_row uid (create_cipher c) db"
    unfolding create_cipher_def by (rule confines_single) (auto intro: confined_insert confining)
  show "confines ok_row uid (update_cipher c revision) db" if "vr_user_id c = uid"
    unfolding update_cipher_def
    by (rule confines_bind [OF confines_values(3)], rule confines_single)
      (use that pa in \<open>auto simp: confines_def intro: confined_move\<close>)
  show "confines ok_row uid (soft_delete_cipher i uid now) db"
    unfolding soft_delete_cipher_def
    by (rule confines_single) (auto simp: update_stmt_Inr intro!: confined_ciphers_update confining pa)
  show "confines ok_row uid (restore_cipher i uid now) db"
    unfolding restore_cipher_def
    by (rule confines_single) (auto simp: update_stmt_Inr intro!: confined_ciphers_update confining own)
  show "confines ok_row uid (permanently_delete_cipher i uid) db"
    unfolding permanently_delete_cipher_def
    by (rule confines_single) (auto intro!: confining intro: confined_delete own)
qed

lemma run_batch_confines:
  assumes "\<And>s d n d' k'. s \<in> set ss \<Longrightarrow> s d n = Inr (d', k') \<Longrightarrow> confined ok_row uid d d'"
  shows "confines ok_row uid (run_cipher_mutation_batch ss) db"
  unfolding run_cipher_mutation_batch_def by (simp add: confining confines_batch [OF assms])

lemma restore_chunks_confined:
  assumes own: "\<And>r. personal_cipher uid r \<Longrightarrow> ok_row r"
  shows "confined ok_row uid db (fst (restore_chunks css uid now db))"
proof (induction css arbitrary: db)
  case (Cons chunk rest)
  have "confined ok_row uid db (ciphers_update (sql_update (restorable chunk uid) (restored now)) db)"
    using own by (intro confined_ciphers_update) (auto simp: restorable_def)
  from confined_trans [OF this Cons.IH] show ?case by (simp add: split_beta)
qed simp

lemma bulk_repository_confines:
  assumes own: "\<And>r. personal_cipher uid r \<Longrightarrow> ok_row r"
  shows "confines ok_row uid (bulk_move_ciphers ids uid folder now) db"
    and "confines ok_row uid (bulk_soft_delete_ciphers ids uid now) db"
    and "confines ok_row uid (bulk_restore_ciphers ids uid now) db"
    and "confines ok_row uid (bulk_permanently_delete_ciphers ids uid) db"
proof -
  show "confines ok_row uid (bulk_move_ciphers ids uid folder now) db"
    unfolding bulk_move_ciphers_def by (rule run_batch_confines) (auto intro: confined_move own)
  show "confines ok_row uid (bulk_soft_delete_ciphers ids uid now) db"
    unfolding bulk_soft_delete_ciphers_def
    by (rule run_batch_confines) (auto simp: update_stmt_Inr intro!: confined_ciphers_update own)
  show "confines ok_row uid (bulk_restore_ciphers ids uid now) db"
    using restore_chunks_confined [OF own, where db = db]
    by (simp add: confines_def bulk_restore_ciphers_def split_beta)
  show "confines ok_row uid (bulk_permanently_delete_ciphers ids uid) db"
    unfolding bulk_permanently_delete_ciphers_def by (rule run_batch_confines) (auto intro: confined_delete own)
qed

lemma organization_transition_confines:
  assumes own: "\<And>r. personal_cipher uid r \<Longrightarrow> ok_row r" and "oc_user_id i = uid"
  shows "confines ok_row uid (create_organization_cipher i) db"
    and "confines ok_row uid (share_personal_cipher_with_organization i revision) db"
proof -
  show "confines ok_row uid (create_organization_cipher i) db"
  proof (cases "organization_cipher_input_ok i")
    case True
    show ?thesis
      by (simp add: create_organization_cipher_def True, rule confines_batch)
        (auto simp: confining split: if_splits intro: confined_insert confined_mapping)
  qed (simp add: create_organization_cipher_def confining)
  show "confines ok_row uid (share_personal_cipher_with_organization i revision) db"
  proof (cases "organization_cipher_input_ok i")
    case True
    have "confined ok_row uid d (ciphers_update (sql_update (shareable i revision d) (shared_row i)) d)" for d
      using own assms(2) by (intro confined_ciphers_update) (auto simp: shareable_def personal_active_def)
    then show ?thesis
      by (simp add: share_personal_cipher_with_organization_def True, intro confines_batch)
        (auto simp: update_stmt_Inr confines_def intro: confined_mapping)
  qed (simp add: share_personal_cipher_with_organization_def confining)
qed

lemma organization_write_confines:
  assumes "\<And>r. writable_organization_cipher v db r \<Longrightarrow> ok_row r"
  shows "confines ok_row uid (organization_write v i revision lifecycle guard effect) db"
  unfolding organization_write_def
  by (intro confines_read confines_single)
    (auto simp: update_stmt_Inr confines_def intro!: confined_ciphers_update assms)

lemma organization_repository_confines:
  assumes ok: "\<And>r. writable_organization_cipher (organization_access_actor_values uid actor) db r \<Longrightarrow> ok_row r"
  shows "vr_user_id c = uid \<Longrightarrow> confines ok_row uid (update_organization_cipher actor c key revision) db"
    and "confines ok_row uid (soft_delete_organization_cipher actor i uid now expected_revision) db"
    and "confines ok_row uid (restore_organization_cipher actor i uid now expected_revision) db"
    and "confines ok_row uid (permanently_delete_organization_cipher actor i uid expected_revision) db"
proof -
  note by_write = organization_write_confines [OF ok]
  show "confines ok_row uid (update_organization_cipher actor c key revision) db" if "vr_user_id c = uid"
    using that by (simp add: update_organization_cipher_def confining by_write)
  show "confines ok_row uid (soft_delete_organization_cipher actor i uid now expected_revision) db"
    by (simp add: soft_delete_organization_cipher_def by_write)
  show "confines ok_row uid (restore_organization_cipher actor i uid now expected_revision) db"
    by (simp add: restore_organization_cipher_def by_write)
  have "confines ok_row uid (with_batch [delete_ciphers (\<lambda>r. vc_id r = i \<and> expected expected_revision (Some (vc_revision_date r)) \<and>
      writable_organization_cipher (organization_access_actor_values uid actor) db r)] (\<lambda>ns db'. return_value (k ns db') db')) db" for k
    by (rule confines_single) (auto simp: confines_def intro: confined_delete ok)
  then show "confines ok_row uid (permanently_delete_organization_cipher actor i uid expected_revision) db"
    by (simp add: permanently_delete_organization_cipher_def Let_def confines_def)
qed

section \<open>Routes\<close>

definition caller_may_change :: "authenticated_request \<Rightarrow> database \<Rightarrow> cipher_row \<Rightarrow> bool" where
  "caller_may_change auth db r \<longleftrightarrow>
     personal_cipher (auth_user_id auth) r \<or>
     writable_organization_cipher (organization_access_actor_values (auth_user_id auth) (Some (organization_actor auth))) db r"

lemma confines_cases [confining]:
  "(v = None \<Longrightarrow> confines ok_row uid a db) \<Longrightarrow> (\<And>x. v = Some x \<Longrightarrow> confines ok_row uid (g x) db) \<Longrightarrow>
     confines ok_row uid (case v of None \<Rightarrow> a | Some x \<Rightarrow> g x) db"
  "(b \<Longrightarrow> confines ok_row uid m db) \<Longrightarrow> (\<not> b \<Longrightarrow> confines ok_row uid n db) \<Longrightarrow> confines ok_row uid (if b then m else n) db"
  "(\<And>x. r = Written x \<Longrightarrow> confines ok_row uid (w x) db) \<Longrightarrow> (\<And>s. confines ok_row uid (conf s) db) \<Longrightarrow> confines ok_row uid miss db \<Longrightarrow>
     confines ok_row uid (case r of Written x \<Rightarrow> w x | RevisionConflict s \<Rightarrow> conf s | RowNotFound \<Rightarrow> miss) db"
  "(\<And>e. confines ok_row uid (lft e) db) \<Longrightarrow> (\<And>y. confines ok_row uid (rgt y) db) \<Longrightarrow>
     confines ok_row uid (case z of Inl e \<Rightarrow> lft e | Inr y \<Rightarrow> rgt y) db"
  "(\<And>x y. q = (x, y) \<Longrightarrow> confines ok_row uid (h x y) db) \<Longrightarrow> confines ok_row uid (case q of (x, y) \<Rightarrow> h x y) db"
  by (simp_all split: option.split revision_result.split sum.split prod.split)

lemma unless_missing_confines [confining]:
  "confines ok_row uid k db \<Longrightarrow> confines ok_row uid (unless_folder_missing folder user_id k) db"
  by (cases folder) (simp_all add: unless_folder_missing_def confines_def)

lemma replies_confine [confining]:
  "confines ok_row uid (find_for_actor auth i) db" "confines ok_row uid (read_back site auth i q event status operation) db"
  "confines ok_row uid (updated_organization_reply site auth result) db" "confines ok_row uid (updated_personal_reply site auth presult) db"
  "confines ok_row uid (lifecycle_reply site auth i event status answer lresult) db"
  "confines ok_row uid (bulk_audit site auth event status operation requested affected extra) db"
  unfolding find_for_actor_def read_back_def updated_organization_reply_def updated_personal_reply_def lifecycle_reply_def bulk_audit_def
  by (intro confining)+

lemma lifecycle_write_confines:
  "confines ok_row uid organization db \<Longrightarrow> confines ok_row uid personal db \<Longrightarrow>
     confines ok_row uid (lifecycle_write access organization personal) db"
  unfolding lifecycle_write_def by (intro confining)

definition route_confined :: "mac \<Rightarrow> route_site \<Rightarrow> database \<Rightarrow> database \<Rightarrow> bool" where
  "route_confined hmac site db db' \<longleftrightarrow>
     (case authenticate_vault_request hmac (st_env site) (st_headers site) (st_seconds site) db of
        Inl e \<Rightarrow> db' = db
      | Inr auth \<Rightarrow> confined (caller_may_change auth db) (auth_user_id auth) db db')"

lemma vault_route_confined:
  assumes "\<And>auth. confines (caller_may_change auth db) (auth_user_id auth) (handler auth) db"
  shows "route_confined hmac site db (fst (vault_route hmac site handler db))"
proof (cases "authenticate_vault_request hmac (st_env site) (st_headers site) (st_seconds site) db")
  case (Inr auth)
  have "fst (vault_route hmac site handler db) = fst (handler auth db)"
    using Inr by (simp add: vault_route_def with_authorization_def catch_all_def split: prod.splits sum.splits)
  with assms [of auth] Inr show ?thesis by (simp add: route_confined_def confines_def)
qed (simp add: route_confined_def vault_route_def with_authorization_def)

lemma caller_owns: "personal_cipher (auth_user_id auth) r \<Longrightarrow> caller_may_change auth db r"
  by (simp add: caller_may_change_def)

lemma caller_writes:
  "writable_organization_cipher (organization_access_actor_values (auth_user_id auth) (Some (organization_actor auth))) db r \<Longrightarrow>
     caller_may_change auth db r"
  by (simp add: caller_may_change_def)

lemmas caller_confines =
  personal_repository_confines [OF caller_owns] bulk_repository_confines [OF caller_owns]
  organization_transition_confines [OF caller_owns] organization_repository_confines [OF caller_writes] lifecycle_write_confines

lemma folder_routes_confined:
  "route_confined hmac site db (fst (handle_folder_create hmac site new_id body db))"
  "route_confined hmac site db (fst (handle_folder_list hmac site lq db))"
  "route_confined hmac site db (fst (handle_folder_read hmac site i db))"
  "route_confined hmac site db (fst (handle_folder_update hmac site i body db))"
  "route_confined hmac site db (fst (handle_folder_delete hmac site i db))"
  unfolding handle_folder_create_def handle_folder_list_def handle_folder_read_def handle_folder_update_def handle_folder_delete_def
  by (intro vault_route_confined confining; simp)+

lemma cipher_read_routes_confined:
  "route_confined hmac site db (fst (handle_cipher_list hmac site lq db))"
  "route_confined hmac site db (fst (handle_cipher_read hmac site i db))"
  unfolding handle_cipher_list_def handle_cipher_read_def access_for_def
  by (intro vault_route_confined confining)+

lemma cipher_creation_confined:
  "route_confined hmac site db (fst (handle_cipher_create hmac site new_id body db))"
  "route_confined hmac site db (fst (handle_organization_cipher_create hmac site new_id body db))"
  "route_confined hmac site db (fst (handle_personal_cipher_share hmac site i body db))"
  unfolding handle_cipher_create_def handle_organization_cipher_create_def handle_personal_cipher_share_def
  by (intro vault_route_confined confining confines_read caller_confines; simp add: transition_input_def)+

lemma caller_is [simp]: "vr_user_id (update_record auth i q stored now) = auth_user_id auth"
  by (simp add: update_record_def)

lemma cipher_update_confined: "route_confined hmac site db (fst (handle_cipher_update hmac site i body db))"
  unfolding handle_cipher_update_def access_for_def
  by (intro vault_route_confined confining confines_read caller_confines confines_bind [where m = "update_cipher c revision" for c revision]
      confines_bind [where m = "update_organization_cipher a c key revision" for a c key revision]; simp)

lemma cipher_lifecycle_confined:
  "route_confined hmac site db (fst (handle_cipher_trash hmac site i db))"
  "route_confined hmac site db (fst (handle_cipher_restore hmac site i db))"
  unfolding handle_cipher_trash_def handle_cipher_restore_def access_for_def
  by (rule confines_read vault_route_confined confining caller_confines | assumption)+

lemma then_return [simp]: "repo_then (return_value ()) k = k"
  by (rule ext) (simp add: repo_then_def repo_bind_def return_value_def)

lemma cipher_delete_confined: "route_confined hmac site db (fst (handle_cipher_delete hmac site bucket i db))"
proof -
  have "confines (caller_may_change auth db) (auth_user_id auth)
      (repo_then (if cx_organization_id access = None
                then repo_bind (repo_get (attachment_object_keys (auth_user_id auth) [i])) (\<lambda>keys. repo_lift (delete_r2_objects bucket keys))
                else return_value ())
              (repo_bind (if cx_organization_id access \<noteq> None
                   then permanently_delete_organization_cipher (Some (organization_actor auth)) i (auth_user_id auth) None
                   else repo_bind (permanently_delete_cipher i (auth_user_id auth))
                     (\<lambda>hit. return_value (if hit then Written () else RowNotFound)))
                 (lifecycle_reply site auth i event status answer))) db" for auth access event status answer
  proof (cases "cx_organization_id access")
    case None
    show ?thesis by (simp add: None, intro confining caller_confines)
  next
    case (Some org)
    show ?thesis by (simp add: Some, intro confining caller_confines)
  qed
  then show ?thesis
    unfolding handle_cipher_delete_def access_for_def by (intro vault_route_confined confines_read confines_cases confines_values)
qed

lemma bulk_routes_confined:
  "route_confined hmac site db (fst (handle_bulk_move hmac site body db))"
  "route_confined hmac site db (fst (handle_bulk_trash hmac site body db))"
  "route_confined hmac site db (fst (handle_bulk_restore hmac site body db))"
  "route_confined hmac site db (fst (handle_bulk_delete hmac site bucket body db))"
  unfolding handle_bulk_move_def handle_bulk_trash_def handle_bulk_restore_def handle_bulk_delete_def
  by (rule confines_read vault_route_confined confining caller_confines | assumption)+

lemma every_request_confined: "route_confined hmac site db (after_request hmac site bucket new_id q db)"
  by (cases q) (simp_all add: after_request_def folder_routes_confined cipher_read_routes_confined cipher_creation_confined
      cipher_update_confined cipher_lifecycle_confined cipher_delete_confined bulk_routes_confined)

text \<open>
  C9. A vault request changes only what its caller may change. Whatever request is sent to the routes of the folders and the
  ciphers, and whatever the object store answers: a request that is not authenticated leaves the database as it was;
  otherwise every folder of another user, and every cipher that is neither a personal cipher of the caller nor a
  cipher of an organisation that the caller has a writable grant for, is in the new database exactly as it was.
\<close>

theorem vault_request_confined:
  "case authenticate_vault_request hmac (st_env site) (st_headers site) (st_seconds site) db of
     Inl e \<Rightarrow> after_request hmac site bucket new_id q db = db
   | Inr auth \<Rightarrow>
       (\<forall>f \<in> set (folders db). fo_user_id f = auth_user_id auth \<or> f \<in> set (folders (after_request hmac site bucket new_id q db))) \<and>
       (\<forall>r \<in> set (ciphers db). vc_organization_id r = None \<and> vc_user_id r = auth_user_id auth \<or>
          writable_organization_cipher (organization_access_actor_values (auth_user_id auth) (Some (organization_actor auth))) db r \<or>
          r \<in> set (ciphers (after_request hmac site bucket new_id q db)))"
  using every_request_confined [of hmac site db bucket new_id q]
  by (auto simp: route_confined_def confined_def caller_may_change_def personal_cipher_def split: sum.splits)

lemma other_cipher_not_writable: "\<not> writable_organization_cipher v db (vault_cipher uid i)"
  by (simp add: writable_organization_cipher_def vault_cipher_def)

theorem vault_request_confined_witness:
  "vault_cipher ''u2'' ''c3'' \<in> set (ciphers (after_request sample_hmac256 member_site (\<lambda>keys. Inr ()) ''n'' (DeleteCipher ''c3'') vault_database))"
proof -
  have "vault_cipher ''u2'' ''c3'' \<in> set (ciphers vault_database)" by (simp add: vault_database_def)
  moreover have "vc_user_id (vault_cipher ''u2'' ''c3'') = ''u2''" by (simp add: vault_cipher_def)
  ultimately show ?thesis
    using vault_request_confined [where hmac = sample_hmac256 and site = member_site and db = vault_database and bucket = "\<lambda>keys. Inr ()"
        and new_id = "''n''" and q = "DeleteCipher ''c3''"]
    by (auto simp: vault_authenticated other_cipher_not_writable)
qed

section \<open>What is shown\<close>

text \<open>The caller's own cipher, or one of an enabled organisation that has confirmed the caller and whose policy the session meets.\<close>

definition may_be_shown :: "authenticated_request \<Rightarrow> database \<Rightarrow> cipher_row \<Rightarrow> bool" where
  "may_be_shown auth db r \<longleftrightarrow>
     (case vc_organization_id r of
        None \<Rightarrow> vc_user_id r = auth_user_id auth
      | Some org \<Rightarrow>
          sql_exists (\<lambda>g. org_id g = org \<and> org_enabled g) (organizations db) \<and>
          sql_exists (\<lambda>m. ou_organization_id m = org \<and> ou_user_id m = Some (auth_user_id auth) \<and> ou_status m = 2) (organization_users db) \<and>
          organization_policy_allows org (auth_user_id auth) (Some (av_session_id auth)) (Some (av_device_identifier auth)) db)"

lemma actor_values [simp]:
  "organization_access_actor_values (auth_user_id auth) (Some (organization_actor auth)) =
     \<lparr>ac_user_id = auth_user_id auth, ac_session_id = Some (av_session_id auth), ac_device_identifier = Some (av_device_identifier auth),
      ac_actor_provided = True\<rparr>"
  by (simp add: organization_access_actor_values_def organization_actor_def)

lemma predicate_shows:
  assumes "accessible_cipher_predicate (organization_access_actor_values (auth_user_id auth) (Some (organization_actor auth))) db r"
  shows "may_be_shown auth db r"
proof (cases "vc_organization_id r")
  case None
  with assms show ?thesis by (simp add: accessible_cipher_predicate_def may_be_shown_def)
next
  case (Some org)
  with assms obtain a where a: "a \<in> set (accessible_organization_collections (organization_access_actor_values (auth_user_id auth)
        (Some (organization_actor auth))) db)" "ca_organization_id a = org"
    by (auto simp: accessible_cipher_predicate_def cipher_accesses_def sql_eq_def split: if_splits)
  from accessible_member [OF a(1)] a(2) Some show ?thesis
    by (auto simp: may_be_shown_def confirmed_memberships_def sql_exists_iff)
qed

lemma found_row:
  assumes "find_accessible_cipher_by_id i uid actor db = Inr (Some c)"
  shows "\<exists>r \<in> set (ciphers db). vc_id r = i \<and> accessible_cipher_predicate (organization_access_actor_values uid actor) db r \<and>
    accessible_cipher_from_row (organization_access_actor_values uid actor) db r = Inr c"
  using assms sql_first_SomeD
  by (fastforce simp: find_accessible_cipher_by_id_def Let_def and_then_Inr_iff split: option.splits)

lemma map_throwing_in: "map_throwing f xs = Inr ys \<Longrightarrow> y \<in> set ys \<Longrightarrow> \<exists>x \<in> set xs. f x = Inr y"
  by (induction xs arbitrary: ys) (auto simp: and_then_Inr_iff)

lemma paged_row:
  assumes "list_accessible_ciphers_by_user_page uid actor limit cursor db = Inr p" "c \<in> set (lp_items p)"
  shows "\<exists>r \<in> set (ciphers db). accessible_cipher_predicate (organization_access_actor_values uid actor) db r \<and>
    accessible_cipher_from_row (organization_access_actor_values uid actor) db r = Inr c"
proof -
  let ?v = "organization_access_actor_values uid actor"
  obtain cs where cs: "map_throwing (accessible_cipher_from_row ?v db) (take (limit + 1) (accessible_rows ?v cursor db)) = Inr cs"
      "c \<in> set (take limit cs)"
    using assms by (auto simp: list_accessible_ciphers_by_user_page_def Let_def and_then_Inr_iff)
  from map_throwing_in [OF cs(1) in_set_takeD [OF cs(2)]] obtain r where
    "r \<in> set (take (limit + 1) (accessible_rows ?v cursor db))" "accessible_cipher_from_row ?v db r = Inr c" by blast
  then show ?thesis by (auto simp: accessible_rows_def dest!: in_set_takeD)
qed

text \<open>The items of the two reading routes.\<close>

definition items_shown :: "vault_answer reply \<Rightarrow> accessible_cipher set" where
  "items_shown a =
     (case a of Reply (CipherPage entries next) \<Rightarrow> fst ` set entries | Reply (AccessibleBody c attachments) \<Rightarrow> {c} | _ \<Rightarrow> {})"

definition shown_to_caller :: "mac \<Rightarrow> route_site \<Rightarrow> database \<Rightarrow> accessible_cipher set" where
  "shown_to_caller hmac site db =
     {c. \<exists>auth. authenticate_vault_request hmac (st_env site) (st_headers site) (st_seconds site) db = Inr auth \<and>
        (\<exists>r \<in> set (ciphers db). may_be_shown auth db r \<and>
           accessible_cipher_from_row (organization_access_actor_values (auth_user_id auth) (Some (organization_actor auth))) db r = Inr c)}"

lemma route_answer:
  "c \<in> items_shown (snd (vault_route hmac site handler db)) \<Longrightarrow>
     \<exists>auth a d. authenticate_vault_request hmac (st_env site) (st_headers site) (st_seconds site) db = Inr auth \<and>
       handler auth db = (d, Inr a) \<and> c \<in> items_shown a"
  by (auto simp: vault_route_def with_authorization_def catch_all_def refuse_def items_shown_def split: sum.splits prod.splits)

lemma listed_items:
  assumes "c \<in> items_shown (snd (handle_cipher_list hmac site q db))"
  shows "c \<in> shown_to_caller hmac site db"
proof -
  from route_answer [OF assms [unfolded handle_cipher_list_def]] obtain auth p limit cursor where
    auth: "authenticate_vault_request hmac (st_env site) (st_headers site) (st_seconds site) db = Inr auth"
    and p: "list_accessible_ciphers_by_user_page (auth_user_id auth) (Some (organization_actor auth)) limit cursor db = Inr p"
      "c \<in> set (lp_items p)"
    by (auto simp: repo_Inr items_shown_def invalid_request_def image_image split: option.splits)
  from paged_row [OF p] auth show ?thesis unfolding shown_to_caller_def using predicate_shows by blast
qed

lemma read_item:
  assumes "c \<in> items_shown (snd (handle_cipher_read hmac site i db))"
  shows "c \<in> shown_to_caller hmac site db"
proof -
  from route_answer [OF assms [unfolded handle_cipher_read_def]] obtain auth where
    auth: "authenticate_vault_request hmac (st_env site) (st_headers site) (st_seconds site) db = Inr auth"
    and c: "find_accessible_cipher_by_id i (auth_user_id auth) (Some (organization_actor auth)) db = Inr (Some c)"
    by (auto simp: repo_Inr items_shown_def cipher_not_found_def access_for_def find_for_actor_def split: if_splits option.splits)
  from found_row [OF c] auth show ?thesis unfolding shown_to_caller_def using predicate_shows by blast
qed

text \<open>
  C10. A cipher is shown only to those who may read it. Every item that \<open>GET /api/ciphers\<close> or \<open>GET /api/ciphers/:id\<close> returns
  is made from a row of the database that is a personal cipher of the authenticated caller, or a cipher of an
  enabled organisation that has confirmed the caller as a member and whose two-step policy the caller's session meets.
\<close>

theorem vault_shows_only_accessible:
  "items_shown (snd (handle_cipher_list hmac site q db)) \<union> items_shown (snd (handle_cipher_read hmac site i db)) \<subseteq>
     {c. \<exists>auth r. authenticate_vault_request hmac (st_env site) (st_headers site) (st_seconds site) db = Inr auth \<and>
        r \<in> set (ciphers db) \<and> may_be_shown auth db r \<and>
        accessible_cipher_from_row (organization_access_actor_values (auth_user_id auth) (Some (organization_actor auth))) db r = Inr c}"
  using listed_items read_item unfolding shown_to_caller_def by blast

section \<open>Two ways to resolve an access\<close>

lemma sql_first_id:
  assumes "distinct (map vc_id t)"
  shows "sql_first (\<lambda>r. vc_id r = i \<and> p r) t = Option.bind (sql_first (\<lambda>r. vc_id r = i) t) (\<lambda>r. if p r then Some r else None)"
  using assms
proof (induction t)
  case (Cons a t)
  have "\<forall>x \<in> set t. vc_id x \<noteq> vc_id a" using Cons.prems by (simp add: image_iff) metis
  then have "find (\<lambda>r. vc_id r = vc_id a) t = None" by (simp add: find_None_iff)
  with Cons show ?case by (auto simp: sql_first_def)
qed (simp add: sql_first_def)

lemma list_ex_not: "list_ex (\<lambda>a. \<not> p a) xs \<longleftrightarrow> xs \<noteq> [] \<and> \<not> list_all p xs"
  by (induction xs) auto

text \<open>
  C13. The two resolutions of an access agree. When the cipher can be read at all, \<open>resolveCipherAccess\<close>, which the
  writing routes ask, and \<open>findAccessibleCipherById\<close>, whose flags the client is shown, say the same: one grants
  reading exactly when the other finds the cipher, and then organisation, editing, deletion and passwords agree.
\<close>

theorem access_resolutions_agree:
  assumes "distinct (map vc_id (ciphers db))" "find_accessible_cipher_by_id i caller actor db = Inr found"
  shows "case found of
      None \<Rightarrow> \<not> cx_can_read (resolve_cipher_access caller i actor db)
    | Some c \<Rightarrow> resolve_cipher_access caller i actor db =
        \<lparr>cx_found = True, cx_can_read = True, cx_can_edit = va_can_edit c, cx_can_delete = va_can_edit c,
         cx_can_view_password = va_can_view_password c, cx_organization_id = va_organization_id c\<rparr>"
proof (cases "sql_first (\<lambda>r. vc_id r = i) (ciphers db)")
  case None
  with assms(2) show ?thesis
    by (simp add: find_accessible_cipher_by_id_def sql_first_id [OF assms(1)] resolve_cipher_access_def denied_cipher_access_def Let_def)
next
  case (Some r)
  let ?v = "organization_access_actor_values caller actor"
  have caller: "ac_user_id ?v = caller" by (simp add: organization_access_actor_values_def split: option.split)
  show ?thesis
  proof (cases "accessible_cipher_predicate ?v db r")
    case False
    with assms(2) Some have "found = None"
      by (simp add: find_accessible_cipher_by_id_def sql_first_id [OF assms(1)] Let_def)
    with False Some show ?thesis
      by (auto simp: resolve_cipher_access_def accessible_cipher_predicate_def caller Let_def split: option.splits)
  next
    case True
    with assms(2) Some obtain c where c: "found = Some c" "accessible_cipher_from_row ?v db r = Inr c"
      by (auto simp: find_accessible_cipher_by_id_def sql_first_id [OF assms(1)] Let_def and_then_Inr_iff)
    from True c(2) show ?thesis
      by (auto simp: c(1) Some resolve_cipher_access_def accessible_cipher_predicate_def caller accessible_cipher_from_row_def
          Let_def list_ex_not split: option.splits if_splits)
  qed
qed

theorem access_resolutions_agree_witness:
  "\<exists>c. find_accessible_cipher_by_id ''c1'' ''u1'' None vault_database = Inr (Some c) \<and>
     resolve_cipher_access ''u1'' ''c1'' None vault_database =
       \<lparr>cx_found = True, cx_can_read = True, cx_can_edit = va_can_edit c, cx_can_delete = va_can_edit c,
        cx_can_view_password = va_can_view_password c, cx_organization_id = va_organization_id c\<rparr>"
proof -
  obtain c where c: "find_accessible_cipher_by_id ''c1'' ''u1'' None vault_database = Inr (Some c)"
    by (simp add: find_accessible_cipher_by_id_def Let_def vault_database_def vault_cipher_def sql_first_def
        accessible_cipher_predicate_def organization_access_actor_values_def accessible_cipher_from_row_def)
  have "distinct (map vc_id (ciphers vault_database))" by (simp add: vault_database_def vault_cipher_def)
  from access_resolutions_agree [OF this c] c show ?thesis by auto
qed

end
