(* ===== verification/AuditedBatch.thy ===== *)
theory AuditedBatch
  imports CollectionAccess AuditLog
begin

text \<open>
  Audited batches: the administration of an organisation changes rows, writes the audit row and checks both in one batch. A check is a
  SELECT that fails when its condition does not hold, so that the batch leaves no trace. The revision dates of
  the organisation and of the members advance by SQLite's \<open>strftime(..., MAX(...), '+0.001 seconds')\<close>.
\<close>

section \<open>Dates\<close>

text \<open>One millisecond after an ISO text; NULL for a text that is no date and past the year 9999.\<close>

definition sqlite_next_ms :: "string \<Rightarrow> string option" where
  "sqlite_next_ms s =
     (case date_parse s of
        None \<Rightarrow> None
      | Some t \<Rightarrow> if common_era t \<and> common_era (t + 1) then Some (iso_text (t + 1)) else None)"

text \<open>An UPDATE whose new row has a column that may be NULL but must not.\<close>

definition update_not_null ::
    "(database \<Rightarrow> 'r list) \<Rightarrow> (('r list \<Rightarrow> 'r list) \<Rightarrow> database \<Rightarrow> database)
      \<Rightarrow> (database \<Rightarrow> 'r \<Rightarrow> bool) \<Rightarrow> (database \<Rightarrow> 'r \<Rightarrow> 'r option) \<Rightarrow> database stmt" where
  "update_not_null get upd p f db prev =
     (if list_ex (\<lambda>r. p db r \<and> f db r = None) (get db) then Inl ConstraintError
      else Inr (upd (sql_update (p db) (\<lambda>r. the (f db r))) db, sql_count (p db) (get db)))"

definition marked :: "string \<Rightarrow> database \<Rightarrow> bool" where
  "marked audit_id db \<longleftrightarrow> sql_exists (\<lambda>e. ev_id e = audit_id) (audit_events db)"

text \<open>\<open>UPDATE organizations SET revision_date = strftime(..., MAX(revision_date, ?), '+0.001 seconds'), updated_at = ?\<close>.\<close>

definition advanced_organization :: "string \<Rightarrow> organization_row \<Rightarrow> organization_row option" where
  "advanced_organization now g =
     map_option (\<lambda>d. g\<lparr>org_revision_date := d, org_updated_at := now\<rparr>) (sqlite_next_ms (max (org_revision_date g) now))"

definition revision_statement :: "string \<Rightarrow> string \<Rightarrow> string \<Rightarrow> database stmt" where
  "revision_statement org now audit_id =
     update_not_null organizations organizations_update (\<lambda>db g. org_id g = org \<and> marked audit_id db) (\<lambda>db. advanced_organization now)"

text \<open>The latest of the revisions that an account's client sees.\<close>

definition latest_revision :: "string \<Rightarrow> database \<Rightarrow> user_row \<Rightarrow> string" where
  "latest_revision now db u =
     Max (set ([u_revision_date u, now] @
       map fo_revision_date (filter (\<lambda>f. fo_user_id f = u_id u) (folders db)) @
       map vc_revision_date (filter (\<lambda>c. vc_user_id c = u_id u \<and> vc_organization_id c = None) (ciphers db)) @
       [org_revision_date g. g \<leftarrow> organizations db, m \<leftarrow> organization_users db, ou_organization_id m = org_id g \<and> ou_user_id m = Some (u_id u)] @
       [vc_revision_date c. c \<leftarrow> ciphers db, m \<leftarrow> organization_users db,
          vc_organization_id c = Some (ou_organization_id m) \<and> ou_user_id m = Some (u_id u)]))"

definition advanced_user :: "string \<Rightarrow> database \<Rightarrow> user_row \<Rightarrow> user_row option" where
  "advanced_user now db u = map_option (\<lambda>d. u\<lparr>u_revision_date := d\<rparr>) (sqlite_next_ms (latest_revision now db u))"

definition users_revision_statement :: "(database \<Rightarrow> user_row \<Rightarrow> bool) \<Rightarrow> string \<Rightarrow> string \<Rightarrow> database stmt" where
  "users_revision_statement p now audit_id =
     update_not_null users users_update (\<lambda>db u. p db u \<and> marked audit_id db) (advanced_user now)"

section \<open>Audit rows and checks\<close>

text \<open>\<open>INSERT INTO audit_events ... SELECT ... WHERE condition\<close>; the condition may read \<open>changes()\<close>.\<close>

definition audit_statement :: "audit_event_row \<Rightarrow> (database \<Rightarrow> nat \<Rightarrow> bool) \<Rightarrow> database stmt" where
  "audit_statement e condition db prev = (if condition db prev then insert_audit_event e db else Inr (db, 0))"

definition batch_invariant_failed :: js_error where "batch_invariant_failed = JsError ''malformed JSON''"

text \<open>A SELECT leaves \<open>changes()\<close> as the last INSERT, UPDATE or DELETE set it.\<close>

definition assertion :: "(database \<Rightarrow> nat \<Rightarrow> bool) \<Rightarrow> database stmt" where
  "assertion condition db prev = (if condition db prev then Inr (db, prev) else Inl batch_invariant_failed)"

definition when_marked :: "string \<Rightarrow> (database \<Rightarrow> nat \<Rightarrow> bool) \<Rightarrow> database stmt" where
  "when_marked audit_id condition = assertion (\<lambda>db prev. \<not> marked audit_id db \<or> condition db prev)"

text \<open>A DELETE or UPDATE that is guarded by the audit row of its batch.\<close>

definition marked_delete ::
    "(database \<Rightarrow> 'r list) \<Rightarrow> (('r list \<Rightarrow> 'r list) \<Rightarrow> database \<Rightarrow> database) \<Rightarrow> ('r \<Rightarrow> bool) \<Rightarrow> string \<Rightarrow> database stmt" where
  "marked_delete get upd p audit_id = delete_stmt get upd (\<lambda>db prev r. p r \<and> marked audit_id db)"

section \<open>The organisation of an audit row\<close>

text \<open>\<open>organizationAuditScopeExpression\<close>: the text property \<open>organizationId\<close> of a context that is a JSON object.\<close>

definition organization_audit_scope :: "audit_event_row \<Rightarrow> string option" where
  "organization_audit_scope e =
     (case Option.bind (ev_context_json e) json_parse of
        None \<Rightarrow> None
      | Some v \<Rightarrow> Option.bind (as_record v) (\<lambda>fs. as_string (jprop fs ''organizationId'')))"

section \<open>What the steps leave alone\<close>

lemma run_stmts_append:
  "run_stmts (ss @ ts) db n =
     (case run_stmts ss db n of
        Inl e \<Rightarrow> Inl e
      | Inr (d, ns) \<Rightarrow>
          (case run_stmts ts d (if ns = [] then n else last ns) of Inl e \<Rightarrow> Inl e | Inr (d', ms) \<Rightarrow> Inr (d', ns @ ms)))"
  by (induction ss arbitrary: db n) (auto split: sum.splits prod.splits)

lemma update_not_null_Inr:
  "update_not_null get upd p f db n = Inr (d, k) \<Longrightarrow>
     d = upd (sql_update (p db) (\<lambda>r. the (f db r))) db \<and> k = sql_count (p db) (get db) \<and>
     (\<forall>r \<in> set (get db). p db r \<longrightarrow> f db r \<noteq> None)"
  by (auto simp: update_not_null_def list_ex_iff split: if_splits)

lemma assertion_Inr: "assertion c db n = Inr (d, k) \<longleftrightarrow> c db n \<and> d = db \<and> k = n"
  by (auto simp: assertion_def)

lemma audit_statement_Inr:
  "audit_statement e c db n = Inr (d, k) \<longleftrightarrow>
     \<not> c db n \<and> d = db \<and> k = 0 \<or>
     c db n \<and> \<not> marked (ev_id e) db \<and> d = audit_events_update (\<lambda>t. t @ [e]) db \<and> k = 1"
  by (auto simp: audit_statement_def insert_audit_event_def marked_def)

end
