(* ===== verification/Memberships.thy ===== *)
theory Memberships
  imports AuditedBatch EmergencyAccess
begin

text \<open>
  Members of an organisation: \<open>src/domain/organization-membership.ts\<close>, \<open>src/repositories/organization-membership-repository.ts\<close> and the operations of
  \<open>src/organization-membership.ts\<close>. A member is invited, accepts, is confirmed with the organisation's key, and may be
  changed, revoked and removed. HMAC-SHA-256 and the delivery of an invitation are parameters; ids, random bytes
  and the clock are arguments.
\<close>

section \<open>Requests\<close>

definition member_invite_lifetime_days :: int where "member_invite_lifetime_days = 5"
definition member_invite_secret_min_bytes :: nat where "member_invite_secret_min_bytes = 32"
definition max_member_invites :: nat where "max_member_invites = 20"
definition max_member_collections :: nat where "max_member_collections = 100"
definition max_member_ids :: nat where "max_member_ids = 100"
definition max_member_id_length :: nat where "max_member_id_length = 128"
definition max_member_email_length :: nat where "max_member_email_length = 254"
definition max_member_key_bytes :: nat where "max_member_key_bytes = 65536"

datatype membership_refusal = InvalidMembership | UnsupportedMembership

record collection_grant_request =
  gq_id :: string
  gq_read_only :: bool
  gq_hide_passwords :: bool
  gq_manage :: bool

record authority_request =
  hq_type :: int
  hq_collections :: "collection_grant_request list"

definition has_only_fields :: "(string \<times> json) list \<Rightarrow> string list \<Rightarrow> bool" where
  "has_only_fields fs allowed \<longleftrightarrow> list_all (\<lambda>(k, v). k \<in> set allowed) fs"

definition member_identifier :: "json option \<Rightarrow> string option" where
  "member_identifier v =
     (case as_string v of
        Some s \<Rightarrow> if s \<noteq> [] \<and> length s \<le> max_member_id_length \<and> list_all is_base64_url_char s then Some s else None
      | None \<Rightarrow> None)"

text \<open>\<open>parseNormalizedEmail\<close>: one @ between non-empty parts without white space or control characters.\<close>

definition parse_member_email :: "json option \<Rightarrow> string option" where
  "parse_member_email v =
     (case Option.bind (as_string v) normalize_email of
        None \<Rightarrow> None
      | Some email \<Rightarrow>
          if count_list email (CHR ''@'') \<noteq> 1 \<or> list_ex js_is_space email \<or> list_ex is_control email \<or>
             max_member_email_length < utf8_length email
          then None else Some email)"

definition is_member_invite_token :: "string \<Rightarrow> bool" where
  "is_member_invite_token t \<longleftrightarrow> length t = 43 \<and> list_all is_base64_url_char t \<and> last t \<in> set ''AEIMQUYcgkosw048''"

text \<open>A flag that is absent is false; another value than a boolean is refused.\<close>

definition optional_flag :: "json option \<Rightarrow> bool option" where
  "optional_flag v = (case v of None \<Rightarrow> Some False | Some (JBool b) \<Rightarrow> Some b | _ \<Rightarrow> None)"

definition parse_collection_grant :: "json \<Rightarrow> collection_grant_request option" where
  "parse_collection_grant v =
     (case normalize_protocol_object v of
        None \<Rightarrow> None
      | Some fs \<Rightarrow>
          if \<not> has_only_fields fs [''id'', ''readonly'', ''hidepasswords'', ''manage''] then None
          else (case (member_identifier (jprop fs ''id''), optional_flag (jprop fs ''readonly''), optional_flag (jprop fs ''hidepasswords''),
                      optional_flag (jprop fs ''manage'')) of
                  (Some i, Some r, Some h, Some m) \<Rightarrow> Some \<lparr>gq_id = i, gq_read_only = r, gq_hide_passwords = h, gq_manage = m\<rparr>
                | _ \<Rightarrow> None))"

fun parse_collection_grants :: "string list \<Rightarrow> json list \<Rightarrow> collection_grant_request list option" where
  "parse_collection_grants seen [] = Some []"
| "parse_collection_grants seen (v # vs) =
     (case parse_collection_grant v of
        None \<Rightarrow> None
      | Some g \<Rightarrow> if gq_id g \<in> set seen then None else map_option (Cons g) (parse_collection_grants (gq_id g # seen) vs))"

definition authority_fields :: "string list" where
  "authority_fields = [''type'', ''collections'', ''groups'', ''accessall'', ''accesssecretsmanager'', ''accesspam'', ''permissions'']"

fun parse_access_flags :: "(string \<times> json) list \<Rightarrow> string list \<Rightarrow> membership_refusal + unit" where
  "parse_access_flags fs [] = Inr ()"
| "parse_access_flags fs (field # rest) =
     (case jprop fs field of
        None \<Rightarrow> parse_access_flags fs rest
      | Some (JBool True) \<Rightarrow> Inl UnsupportedMembership
      | Some (JBool False) \<Rightarrow> parse_access_flags fs rest
      | _ \<Rightarrow> Inl InvalidMembership)"

definition parse_groups_field :: "json option \<Rightarrow> membership_refusal + unit" where
  "parse_groups_field v =
     (case v of
        None \<Rightarrow> Inr ()
      | Some (JArr gs) \<Rightarrow> if gs = [] then Inr () else Inl UnsupportedMembership
      | _ \<Rightarrow> Inl InvalidMembership)"

definition parse_permissions_field :: "json option \<Rightarrow> membership_refusal + unit" where
  "parse_permissions_field v =
     (case v of
        None \<Rightarrow> Inr ()
      | Some p \<Rightarrow>
          (case normalize_protocol_object p of
             None \<Rightarrow> Inl InvalidMembership
           | Some fs \<Rightarrow> if fs = [] \<or> fs = [(''response'', JNull)] then Inr () else Inl UnsupportedMembership))"

definition parse_authority :: "(string \<times> json) list \<Rightarrow> membership_refusal + authority_request" where
  "parse_authority fs =
     (if jprop fs ''type'' = Some (jint 4) then Inl UnsupportedMembership
      else if jprop fs ''type'' \<notin> {Some (jint 0), Some (jint 1), Some (jint 2)} then Inl InvalidMembership
      else and_then (parse_access_flags fs [''accessall'', ''accesssecretsmanager'', ''accesspam'']) (\<lambda>_.
           and_then (parse_groups_field (jprop fs ''groups'')) (\<lambda>_.
           and_then (parse_permissions_field (jprop fs ''permissions'')) (\<lambda>_.
             case (case jprop fs ''collections'' of None \<Rightarrow> Some [] | Some (JArr vs) \<Rightarrow> Some vs | _ \<Rightarrow> None) of
               None \<Rightarrow> Inl InvalidMembership
             | Some vs \<Rightarrow>
                 if max_member_collections < length vs then Inl InvalidMembership
                 else (case parse_collection_grants [] vs of
                         None \<Rightarrow> Inl InvalidMembership
                       | Some grants \<Rightarrow> Inr \<lparr>hq_type = (if jprop fs ''type'' = Some (jint 0) then 0 else if jprop fs ''type'' = Some (jint 1) then 1 else 2),
                                           hq_collections = grants\<rparr>)))))"

fun parse_invite_emails :: "string list \<Rightarrow> json list \<Rightarrow> string list option" where
  "parse_invite_emails seen [] = Some []"
| "parse_invite_emails seen (v # vs) =
     (case parse_member_email (Some v) of
        None \<Rightarrow> None
      | Some email \<Rightarrow> if email \<in> set seen then None else map_option (Cons email) (parse_invite_emails (email # seen) vs))"

definition parse_organization_membership_invite_request :: "json \<Rightarrow> membership_refusal + (string list \<times> authority_request)" where
  "parse_organization_membership_invite_request body =
     (case normalize_protocol_object body of
        None \<Rightarrow> Inl InvalidMembership
      | Some fs \<Rightarrow>
          if \<not> has_only_fields fs (authority_fields @ [''emails'']) then Inl InvalidMembership
          else and_then (parse_authority fs) (\<lambda>authority.
            case jprop fs ''emails'' of
              Some (JArr vs) \<Rightarrow>
                if length vs < 1 \<or> max_member_invites < length vs then Inl InvalidMembership
                else (case parse_invite_emails [] vs of None \<Rightarrow> Inl InvalidMembership | Some emails \<Rightarrow> Inr (emails, authority))
            | _ \<Rightarrow> Inl InvalidMembership))"

definition parse_organization_membership_update_request :: "json \<Rightarrow> membership_refusal + authority_request" where
  "parse_organization_membership_update_request body =
     (case normalize_protocol_object body of
        None \<Rightarrow> Inl InvalidMembership
      | Some fs \<Rightarrow>
          if jprop fs ''collections'' = None \<or> \<not> has_only_fields fs authority_fields then Inl InvalidMembership
          else parse_authority fs)"

definition parse_organization_membership_accept_request :: "json \<Rightarrow> membership_refusal + string" where
  "parse_organization_membership_accept_request body =
     (case normalize_protocol_object body of
        None \<Rightarrow> Inl InvalidMembership
      | Some fs \<Rightarrow>
          (case as_string (jprop fs ''token'') of
             Some t \<Rightarrow> if has_only_fields fs [''token''] \<and> is_member_invite_token t then Inr t else Inl InvalidMembership
           | None \<Rightarrow> Inl InvalidMembership))"

definition parse_organization_membership_confirm_request :: "json \<Rightarrow> membership_refusal + string" where
  "parse_organization_membership_confirm_request body =
     (case normalize_protocol_object body of
        None \<Rightarrow> Inl InvalidMembership
      | Some fs \<Rightarrow>
          (case bounded_string (jprop fs ''key'') 1 max_member_key_bytes of
             None \<Rightarrow> Inl InvalidMembership
           | Some key \<Rightarrow>
               if \<not> has_only_fields fs [''key'', ''defaultusercollectionname''] then Inl InvalidMembership
               else if nullish (jprop fs ''defaultusercollectionname'') then Inr key
               else if bounded_string (jprop fs ''defaultusercollectionname'') 0 max_member_key_bytes = None then Inl InvalidMembership
               else Inr key))"

definition parse_organization_membership_ids_request :: "json \<Rightarrow> membership_refusal + string list" where
  "parse_organization_membership_ids_request body =
     (case normalize_protocol_object body of
        None \<Rightarrow> Inl InvalidMembership
      | Some fs \<Rightarrow>
          (case jprop fs ''ids'' of
             Some (JArr vs) \<Rightarrow>
               let ids = List.map_filter (\<lambda>v. member_identifier (Some v)) vs
               in if \<not> has_only_fields fs [''ids''] \<or> length vs < 1 \<or> max_member_ids < length vs \<or> length ids \<noteq> length vs \<or> \<not> distinct ids
                  then Inl InvalidMembership else Inr ids
           | _ \<Rightarrow> Inl InvalidMembership))"

section \<open>Invitations\<close>

definition organization_membership_invite_expires_at :: "string \<Rightarrow> js_error + string" where
  "organization_membership_invite_expires_at now =
     (case date_parse now of
        None \<Rightarrow> Inl (JsError ''Organization membership invite clock is invalid.'')
      | Some t \<Rightarrow> to_iso_string (Some (t + member_invite_lifetime_days * 86400000)))"

definition build_organization_membership_invite_token_hash ::
    "mac \<Rightarrow> string \<Rightarrow> string \<Rightarrow> string \<Rightarrow> string \<Rightarrow> string \<Rightarrow> js_error + string" where
  "build_organization_membership_invite_token_hash hmac secret org membership email token =
     (if utf8_length secret < member_invite_secret_min_bytes
      then Inl (JsError ''Organization membership invite secret must be at least 32 bytes.'')
      else if member_identifier (Some (JStr org)) = None \<or> member_identifier (Some (JStr membership)) = None \<or>
              parse_member_email (Some (JStr email)) \<noteq> Some email \<or> \<not> is_member_invite_token token
      then Inl (JsError ''Organization membership invite binding is invalid.'')
      else Inr (''hmac-sha256:v1:'' @ base64_url_encode_bytes (hmac_sha256 hmac secret
        (''honowarden:organization-membership:invite:v1'' @ CHR 0x00 # org @ CHR 0x00 # membership @ CHR 0x00 # email @ CHR 0x00 # token))))"

definition verify_organization_membership_invite_token ::
    "mac \<Rightarrow> string \<Rightarrow> string \<Rightarrow> string \<Rightarrow> string \<Rightarrow> string \<Rightarrow> string \<Rightarrow> js_error + bool" where
  "verify_organization_membership_invite_token hmac secret org membership email token stored =
     and_then (build_organization_membership_invite_token_hash hmac secret org membership email token)
       (\<lambda>expected. Inr (constant_time_equal expected stored))"

section \<open>Who may manage\<close>

record member_scope =
  sc_organization_id :: string
  sc_actor_user_id :: string
  sc_session_id :: "string option"
  sc_device_identifier :: "string option"

text \<open>\<open>activeActorFamily\<close> and \<open>actorPolicy\<close>: the session is live, when one is given, and meets the policy.\<close>

definition active_actor_family :: "member_scope \<Rightarrow> database \<Rightarrow> bool" where
  "active_actor_family s db \<longleftrightarrow>
     sc_session_id s = None \<and> sc_device_identifier s = None \<or>
     sql_exists (\<lambda>d. d_user_id d = sc_actor_user_id s \<and> sql_eq (Some (d_identifier d)) (sc_device_identifier s) \<and>
       sql_eq (d_session_id d) (sc_session_id s) \<and> d_revoked_at d = None) (devices db)"

definition actor_policy :: "member_scope \<Rightarrow> database \<Rightarrow> bool" where
  "actor_policy s db \<longleftrightarrow>
     active_actor_family s db \<and>
     organization_policy_allows (sc_organization_id s) (sc_actor_user_id s) (sc_session_id s) (sc_device_identifier s) db"

definition enabled_organization :: "string \<Rightarrow> database \<Rightarrow> bool" where
  "enabled_organization org db \<longleftrightarrow> sql_exists (\<lambda>g. org_id g = org \<and> org_enabled g) (organizations db)"

definition acts_in_organization :: "member_scope \<Rightarrow> (organization_user_row \<Rightarrow> bool) \<Rightarrow> database \<Rightarrow> bool" where
  "acts_in_organization s p db \<longleftrightarrow>
     sql_exists (\<lambda>a. ou_organization_id a = sc_organization_id s \<and> ou_user_id a = Some (sc_actor_user_id s) \<and> ou_status a = 2 \<and> p a)
       (organization_users db) \<and>
     active_user (sc_actor_user_id s) db \<and> enabled_organization (sc_organization_id s) db \<and> actor_policy s db"

definition manages_member :: "member_scope \<Rightarrow> database \<Rightarrow> organization_user_row \<Rightarrow> bool" where
  "manages_member s db target \<longleftrightarrow> acts_in_organization s (\<lambda>a. ou_type a = 0 \<or> ou_type a = 1 \<and> ou_type target = 2) db"

definition read_manager :: "member_scope \<Rightarrow> database \<Rightarrow> bool" where
  "read_manager s db \<longleftrightarrow> acts_in_organization s (\<lambda>a. ou_type a \<in> {0, 1}) db"

text \<open>\<open>enabledOwner\<close>: another confirmed owner with an active account, enrolled when the policy asks for it.\<close>

definition able_owner :: "string \<Rightarrow> database \<Rightarrow> organization_user_row \<Rightarrow> bool" where
  "able_owner org db m \<longleftrightarrow>
     confirmed_owner org m \<and>
     (\<exists>uid. ou_user_id m = Some uid \<and> active_user uid db \<and> organization_totp_enrollment_allows org uid db)"

definition enabled_owner :: "organization_user_row \<Rightarrow> database \<Rightarrow> bool" where
  "enabled_owner target db \<longleftrightarrow>
     sql_exists (\<lambda>m. ou_id m \<noteq> ou_id target \<and> able_owner (ou_organization_id target) db m) (organization_users db)"

definition not_last_owner :: "database \<Rightarrow> organization_user_row \<Rightarrow> bool" where
  "not_last_owner db m \<longleftrightarrow> ou_type m \<noteq> 0 \<or> ou_status m \<noteq> 2 \<or> enabled_owner m db"

section \<open>Limits on invitations\<close>

definition invitation_actor_limit :: nat where "invitation_actor_limit = 50"
definition invitation_organization_limit :: nat where "invitation_organization_limit = 200"
definition invitation_actor_window_seconds :: int where "invitation_actor_window_seconds = 3600"
definition invitation_organization_window_seconds :: int where "invitation_organization_window_seconds = 86400"
definition reinvite_cooldown_seconds :: int where "reinvite_cooldown_seconds = 600"

definition is_invitation_event :: "audit_event_row \<Rightarrow> bool" where
  "is_invitation_event e \<longleftrightarrow> ev_name e = ''organization.member.invite'' \<or> ev_name e = ''organization.member.reinvite''"

definition invitation_windows :: "string \<Rightarrow> js_error + (string \<times> string)" where
  "invitation_windows now =
     and_then (iso_shift now (- invitation_actor_window_seconds)) (\<lambda>hour.
       and_then (iso_shift now (- invitation_organization_window_seconds)) (\<lambda>day. Inr (hour, day)))"

definition within_invitation_limits :: "member_scope \<Rightarrow> string \<times> string \<Rightarrow> nat \<Rightarrow> database \<Rightarrow> bool" where
  "within_invitation_limits s windows n db \<longleftrightarrow>
     sql_count (\<lambda>e. is_invitation_event e \<and> ev_actor_user_id e = Some (sc_actor_user_id s) \<and> ev_occurred_at e > fst windows)
       (audit_events db) + n \<le> invitation_actor_limit \<and>
     sql_count (\<lambda>e. is_invitation_event e \<and> organization_audit_scope e = Some (sc_organization_id s) \<and> ev_occurred_at e > snd windows)
       (audit_events db) + n \<le> invitation_organization_limit"

definition recently_reinvited :: "member_scope \<Rightarrow> string \<Rightarrow> string \<Rightarrow> database \<Rightarrow> bool" where
  "recently_reinvited s membership since db \<longleftrightarrow>
     sql_exists (\<lambda>e. ev_name e = ''organization.member.reinvite'' \<and> ev_target_id e = Some membership \<and>
       organization_audit_scope e = Some (sc_organization_id s) \<and> ev_occurred_at e > since) (audit_events db)"

definition invitation_limit_reached :: "member_scope \<Rightarrow> string \<times> string \<Rightarrow> (string \<times> string) option \<Rightarrow> nat \<Rightarrow> database \<Rightarrow> bool" where
  "invitation_limit_reached s windows cooldown n db \<longleftrightarrow>
     \<not> within_invitation_limits s windows n db \<or>
     (case cooldown of None \<Rightarrow> False | Some (membership, since) \<Rightarrow> recently_reinvited s membership since db)"

section \<open>One membership mutation\<close>

definition member_at :: "string \<Rightarrow> string \<Rightarrow> organization_user_row \<Rightarrow> bool" where
  "member_at membership org m \<longleftrightarrow> ou_id m = membership \<and> ou_organization_id m = org"

definition granted_row :: "string \<Rightarrow> collection_grant_request \<Rightarrow> collection_user_row" where
  "granted_row membership g =
     \<lparr>cu_collection_id = gq_id g, cu_organization_user_id = membership, cu_read_only = gq_read_only g,
      cu_hide_passwords = gq_hide_passwords g, cu_manage = gq_manage g\<rparr>"

definition grant_key_of :: "collection_user_row \<Rightarrow> string \<times> string" where
  "grant_key_of r = (cu_collection_id r, cu_organization_user_id r)"

definition insert_grants :: "collection_user_row list \<Rightarrow> string \<Rightarrow> database stmt" where
  "insert_grants rows audit_id db prev =
     (if \<not> marked audit_id db then Inr (db, 0)
      else if \<not> distinct (map grant_key_of rows) \<or>
              list_ex (\<lambda>r. sql_exists (\<lambda>q. grant_key_of q = grant_key_of r) (collection_users db) \<or>
                \<not> sql_exists (\<lambda>c. cl_id c = cu_collection_id r) (collections db) \<or>
                \<not> sql_exists (\<lambda>m. ou_id m = cu_organization_user_id r) (organization_users db)) rows
      then Inl ConstraintError
      else Inr (collection_users_update (\<lambda>t. t @ rows) db, length rows))"

text \<open>The account bound to the membership, and its revision.\<close>

definition member_user :: "string \<Rightarrow> string \<Rightarrow> database \<Rightarrow> string option" where
  "member_user membership org db = Option.bind (sql_first (member_at membership org) (organization_users db)) ou_user_id"

definition bound_account :: "string \<Rightarrow> string \<Rightarrow> database \<Rightarrow> user_row \<Rightarrow> bool" where
  "bound_account membership org db u \<longleftrightarrow> member_user membership org db = Some (u_id u)"

text \<open>\<open>DELETE FROM organization_users\<close> with its cascades to the grants and the groups of the member.\<close>

definition delete_member :: "string \<Rightarrow> string \<Rightarrow> string \<Rightarrow> database stmt" where
  "delete_member membership org audit_id db prev =
     (if \<not> marked audit_id db \<or> \<not> sql_exists (member_at membership org) (organization_users db) then Inr (db, 0)
      else Inr (organization_group_users_update (sql_delete (\<lambda>g. gu_organization_user_id g = membership \<and> gu_organization_id g = org))
                (collection_users_update (sql_delete (\<lambda>c. cu_organization_user_id c = membership))
                  (organization_users_update (sql_delete (member_at membership org)) db)),
                sql_count (member_at membership org) (organization_users db)))"

record membership_mutation =
  mm_scope :: member_scope
  mm_membership_id :: string
  mm_now :: string
  mm_audit_event :: audit_event
  mm_mutation_id :: string

definition grant_statements :: "membership_mutation \<Rightarrow> collection_grant_request list \<Rightarrow> database stmt list" where
  "grant_statements i grants =
     [marked_delete collection_users collection_users_update (\<lambda>c. cu_organization_user_id c = mm_membership_id i) (mm_mutation_id i),
      insert_grants (map (granted_row (mm_membership_id i)) grants) (mm_mutation_id i),
      when_marked (mm_mutation_id i) (\<lambda>db prev. prev = length grants \<and>
        sql_count (\<lambda>c. cu_organization_user_id c = mm_membership_id i) (collection_users db) = length grants)]"

definition revision_statements :: "membership_mutation \<Rightarrow> database stmt list" where
  "revision_statements i =
     (let org = sc_organization_id (mm_scope i)
      in [revision_statement org (mm_now i) (mm_mutation_id i),
          when_marked (mm_mutation_id i) (\<lambda>db prev. prev = 1),
          users_revision_statement (bound_account (mm_membership_id i) org) (mm_now i) (mm_mutation_id i),
          when_marked (mm_mutation_id i) (\<lambda>db prev. prev = sql_count (bound_account (mm_membership_id i) org db) (users db))])"

definition clear_group_statements :: "membership_mutation \<Rightarrow> database stmt list" where
  "clear_group_statements i =
     (let link = (\<lambda>g. gu_organization_user_id g = mm_membership_id i \<and> gu_organization_id g = sc_organization_id (mm_scope i))
      in [marked_delete organization_group_users organization_group_users_update link (mm_mutation_id i),
          when_marked (mm_mutation_id i) (\<lambda>db prev. \<not> sql_exists link (organization_group_users db))])"

definition removal_statements :: "membership_mutation \<Rightarrow> database stmt list" where
  "removal_statements i =
     [delete_member (mm_membership_id i) (sc_organization_id (mm_scope i)) (mm_mutation_id i),
      when_marked (mm_mutation_id i)
        (\<lambda>db prev. \<not> sql_exists (member_at (mm_membership_id i) (sc_organization_id (mm_scope i))) (organization_users db))]"

definition membership_statements ::
    "database stmt \<Rightarrow> membership_mutation \<Rightarrow> collection_grant_request list option \<Rightarrow> bool \<Rightarrow> bool \<Rightarrow> database stmt list" where
  "membership_statements mutation i grants remove clear_groups =
     [mutation, audit_statement (audit_row (mm_mutation_id i) (mm_audit_event i)) (\<lambda>db prev. prev = 1),
      assertion (\<lambda>db prev. \<not> sql_exists (\<lambda>m. member_at (mm_membership_id i) (sc_organization_id (mm_scope i)) m \<and>
        ou_last_membership_mutation_id m = Some (mm_mutation_id i)) (organization_users db) \<or> marked (mm_mutation_id i) db)] @
     (case grants of None \<Rightarrow> [] | Some gs \<Rightarrow> grant_statements i gs) @ revision_statements i @
     (if clear_groups then clear_group_statements i else []) @ (if remove then removal_statements i else [])"

definition run_membership_mutation ::
    "database stmt \<Rightarrow> membership_mutation \<Rightarrow> collection_grant_request list option \<Rightarrow> bool \<Rightarrow> bool \<Rightarrow> bool repo" where
  "run_membership_mutation mutation i grants remove clear_groups =
     with_batch (membership_statements mutation i grants remove clear_groups) (\<lambda>ns.
       if ns ! 0 = 1 \<and> ns ! 1 \<noteq> 1 then throw (JsError ''Organization membership audit did not fully apply.'')
       else if remove \<and> ns ! 1 = 1 \<and> ns ! (length ns - 2) \<noteq> 1
       then throw (JsError ''Organization membership removal did not fully apply.'')
       else return_value (ns ! 1 = 1))"

section \<open>The transitions\<close>

definition update_members ::
    "(database \<Rightarrow> organization_user_row \<Rightarrow> bool) \<Rightarrow> (organization_user_row \<Rightarrow> organization_user_row) \<Rightarrow> membership_mutation \<Rightarrow> database stmt" where
  "update_members guard effect i =
     update_stmt organization_users organization_users_update
       (\<lambda>db prev m. member_at (mm_membership_id i) (sc_organization_id (mm_scope i)) m \<and> guard db m)
       (\<lambda>m. (effect m)\<lparr>ou_updated_at := mm_now i, ou_last_membership_mutation_id := Some (mm_mutation_id i)\<rparr>)"

definition acceptable_member :: "member_scope \<Rightarrow> string \<Rightarrow> string \<Rightarrow> string \<Rightarrow> database \<Rightarrow> organization_user_row \<Rightarrow> bool" where
  "acceptable_member s email token_hash now db m \<longleftrightarrow>
     ou_status m = 0 \<and> ou_email m = email \<and> ou_invite_token_hash m = Some token_hash \<and> sql_gt (ou_invite_expires_at m) (Some now) \<and>
     sql_exists (\<lambda>u. u_id u = sc_actor_user_id s \<and> u_email_normalized u = ou_email m \<and> u_disabled_at u = None) (users db) \<and>
     enabled_organization (ou_organization_id m) db \<and> actor_policy s db \<and>
     \<not> sql_exists (\<lambda>e. ou_organization_id e = ou_organization_id m \<and> ou_user_id e = Some (sc_actor_user_id s) \<and> ou_id e \<noteq> ou_id m)
         (organization_users db)"

definition accepted_member :: "string \<Rightarrow> organization_user_row \<Rightarrow> organization_user_row" where
  "accepted_member uid m = m\<lparr>ou_user_id := Some uid, ou_status := 1, ou_invite_token_hash := None, ou_invite_expires_at := None\<rparr>"

text \<open>The scope of an acceptance is that of the accepting account.\<close>

definition accept_organization_member_invite :: "membership_mutation \<Rightarrow> string \<Rightarrow> string \<Rightarrow> bool repo" where
  "accept_organization_member_invite i email token_hash =
     run_membership_mutation
       (update_members (acceptable_member (mm_scope i) email token_hash (mm_now i)) (accepted_member (sc_actor_user_id (mm_scope i))) i)
       i None False False"

definition confirmable_member :: "member_scope \<Rightarrow> database \<Rightarrow> organization_user_row \<Rightarrow> bool" where
  "confirmable_member s db m \<longleftrightarrow>
     ou_status m = 1 \<and> ou_org_key m = None \<and> manages_member s db m \<and>
     sql_exists (\<lambda>u. ou_user_id m = Some (u_id u) \<and> u_disabled_at u = None \<and> u_email_normalized u = ou_email m \<and>
       organization_totp_enrollment_allows (ou_organization_id m) (u_id u) db) (users db)"

definition confirm_organization_member :: "membership_mutation \<Rightarrow> string \<Rightarrow> bool repo" where
  "confirm_organization_member i key_encrypted =
     run_membership_mutation
       (update_members (confirmable_member (mm_scope i)) (\<lambda>m. m\<lparr>ou_status := 2, ou_org_key := Some key_encrypted\<rparr>) i) i None False False"

definition updatable_member :: "member_scope \<Rightarrow> int \<Rightarrow> collection_grant_request list \<Rightarrow> database \<Rightarrow> organization_user_row \<Rightarrow> bool" where
  "updatable_member s new_type grants db m \<longleftrightarrow>
     ou_status m \<in> {0, 1, 2} \<and> manages_member s db m \<and>
     (new_type = 2 \<or> sql_exists (\<lambda>a. ou_organization_id a = ou_organization_id m \<and> ou_user_id a = Some (sc_actor_user_id s) \<and>
        ou_status a = 2 \<and> ou_type a = 0) (organization_users db)) \<and>
     (new_type = 0 \<or> not_last_owner db m) \<and>
     list_all (\<lambda>g. sql_exists (\<lambda>c. cl_id c = gq_id g \<and> cl_organization_id c = ou_organization_id m) (collections db)) grants"

definition update_organization_member :: "membership_mutation \<Rightarrow> int \<Rightarrow> collection_grant_request list \<Rightarrow> bool repo" where
  "update_organization_member i new_type grants =
     run_membership_mutation
       (update_members (updatable_member (mm_scope i) new_type grants) (\<lambda>m. m\<lparr>ou_type := new_type, ou_permissions := None\<rparr>) i)
       i (Some grants) False False"

definition revoked_member :: "organization_user_row \<Rightarrow> organization_user_row" where
  "revoked_member m = m\<lparr>ou_status := -1, ou_org_key := None, ou_invite_token_hash := None, ou_invite_expires_at := None\<rparr>"

definition revoke_organization_member :: "membership_mutation \<Rightarrow> bool repo" where
  "revoke_organization_member i =
     run_membership_mutation
       (update_members (\<lambda>db m. ou_status m \<in> {0, 1, 2} \<and> manages_member (mm_scope i) db m \<and> not_last_owner db m) revoked_member i)
       i (Some []) False True"

definition remove_organization_member :: "membership_mutation \<Rightarrow> bool repo" where
  "remove_organization_member i =
     run_membership_mutation
       (update_members (\<lambda>db m. manages_member (mm_scope i) db m \<and> not_last_owner db m) revoked_member i) i (Some []) True True"

datatype invitation_outcome = InvitationDone | InvitationNotFound | InvitationRateLimited | InvitationConflict

definition reinvitable_member :: "member_scope \<Rightarrow> string \<Rightarrow> string \<times> string \<Rightarrow> string \<Rightarrow> database \<Rightarrow> organization_user_row \<Rightarrow> bool" where
  "reinvitable_member s email windows since db m \<longleftrightarrow>
     ou_status m = 0 \<and> ou_email m = email \<and> manages_member s db m \<and> within_invitation_limits s windows 1 db \<and>
     \<not> recently_reinvited s (ou_id m) since db"

definition reinvited_member :: "string \<Rightarrow> string \<Rightarrow> organization_user_row \<Rightarrow> organization_user_row" where
  "reinvited_member token_hash expires_at m =
     m\<lparr>ou_status := 0, ou_user_id := None, ou_org_key := None, ou_invite_token_hash := Some token_hash,
       ou_invite_expires_at := Some expires_at\<rparr>"

definition reinvite_organization_member :: "membership_mutation \<Rightarrow> string \<Rightarrow> string \<Rightarrow> string \<Rightarrow> invitation_outcome repo" where
  "reinvite_organization_member i email token_hash expires_at =
     repo_bind (repo_lift (invitation_windows (mm_now i))) (\<lambda>windows.
     repo_bind (repo_lift (iso_shift (mm_now i) (- reinvite_cooldown_seconds))) (\<lambda>since.
     repo_bind (run_membership_mutation
         (update_members (reinvitable_member (mm_scope i) email windows since) (reinvited_member token_hash expires_at) i) i None False False)
       (\<lambda>done. if done then return_value InvitationDone
         else repo_bind (repo_get (invitation_limit_reached (mm_scope i) windows (Some (mm_membership_id i, since)) 1)) (\<lambda>limited.
           return_value (if limited then InvitationRateLimited else InvitationNotFound)))))"

section \<open>Inviting\<close>

record member_invite =
  mi_id :: string
  mi_email :: string
  mi_token_hash :: string
  mi_expires_at :: string
  mi_mutation_id :: string

definition invited_member :: "string \<Rightarrow> int \<Rightarrow> string \<Rightarrow> member_invite \<Rightarrow> organization_user_row" where
  "invited_member org new_type now v =
     \<lparr>ou_id = mi_id v, ou_organization_id = org, ou_user_id = None, ou_email = mi_email v, ou_org_key = None, ou_status = 0,
      ou_type = new_type, ou_permissions = None, ou_invite_token_hash = Some (mi_token_hash v),
      ou_invite_expires_at = Some (mi_expires_at v), ou_last_membership_mutation_id = Some (mi_mutation_id v),
      ou_created_at = now, ou_updated_at = now\<rparr>"

definition members_unique :: "organization_user_row list \<Rightarrow> bool" where
  "members_unique t \<longleftrightarrow> distinct (map ou_id t) \<and> distinct (map (\<lambda>m. (ou_organization_id m, ou_email m)) t)"

definition unique_member_error :: js_error where
  "unique_member_error = JsError ''UNIQUE constraint failed: organization_users.''"

definition may_invite :: "member_scope \<Rightarrow> int \<Rightarrow> collection_grant_request list \<Rightarrow> member_invite list \<Rightarrow> string \<times> string \<Rightarrow> database \<Rightarrow> bool" where
  "may_invite s new_type grants invites windows db \<longleftrightarrow>
     acts_in_organization s (\<lambda>a. ou_type a = 0 \<or> ou_type a = 1 \<and> new_type = 2) db \<and>
     list_all (\<lambda>g. sql_exists (\<lambda>c. cl_id c = gq_id g \<and> cl_organization_id c = sc_organization_id s) (collections db)) grants \<and>
     \<not> list_ex (\<lambda>v. sql_exists (\<lambda>m. ou_organization_id m = sc_organization_id s \<and> ou_email m = mi_email v) (organization_users db)) invites \<and>
     within_invitation_limits s windows (length invites) db"

definition insert_invites ::
    "member_scope \<Rightarrow> int \<Rightarrow> string \<Rightarrow> collection_grant_request list \<Rightarrow> member_invite list \<Rightarrow> string \<times> string \<Rightarrow> database stmt" where
  "insert_invites s new_type now grants invites windows db prev =
     (if \<not> may_invite s new_type grants invites windows db then Inr (db, 0)
      else (let rows = map (invited_member (sc_organization_id s) new_type now) invites
            in if \<not> members_unique (organization_users db @ rows) then Inl unique_member_error
               else Inr (organization_users_update (\<lambda>t. t @ rows) db, length invites)))"

fun invite_audits :: "nat \<Rightarrow> string \<Rightarrow> audit_event_row list \<Rightarrow> database stmt list" where
  "invite_audits n marker [] = []"
| "invite_audits n marker (e # es) =
     audit_statement e (\<lambda>db prev. prev = n) # map (\<lambda>e'. audit_statement e' (\<lambda>db prev. marked marker db)) es"

definition is_invited_now :: "member_scope \<Rightarrow> member_invite list \<Rightarrow> organization_user_row \<Rightarrow> bool" where
  "is_invited_now s invites m \<longleftrightarrow>
     ou_organization_id m = sc_organization_id s \<and>
     list_ex (\<lambda>v. ou_id m = mi_id v \<and> ou_last_membership_mutation_id m = Some (mi_mutation_id v)) invites"

definition invite_statements ::
    "member_scope \<Rightarrow> int \<Rightarrow> string \<Rightarrow> collection_grant_request list \<Rightarrow> (member_invite \<times> audit_event) list \<Rightarrow> string \<times> string \<Rightarrow> database stmt list" where
  "invite_statements s new_type now grants entries windows =
     (let invites = map fst entries; marker = mi_mutation_id (hd invites); n = length invites;
          rows = map (\<lambda>(v, e). audit_row (mi_mutation_id v) e) entries
      in [insert_invites s new_type now grants invites windows] @ invite_audits n marker rows @
         [assertion (\<lambda>db prev. sql_count (is_invited_now s invites) (organization_users db) = 0 \<or>
            sql_count (is_invited_now s invites) (organization_users db) = n \<and>
            sql_count (\<lambda>e. ev_id e \<in> set (map mi_mutation_id invites)) (audit_events db) = n),
          insert_grants (concat (map (\<lambda>g. map (\<lambda>v. granted_row (mi_id v) g) invites) grants)) marker,
          when_marked marker (\<lambda>db prev. prev = length grants * n),
          revision_statement (sc_organization_id s) now marker,
          when_marked marker (\<lambda>db prev. prev = 1)])"

definition insert_organization_member_invites ::
    "member_scope \<Rightarrow> int \<Rightarrow> string \<Rightarrow> collection_grant_request list \<Rightarrow> (member_invite \<times> audit_event) list \<Rightarrow> invitation_outcome repo" where
  "insert_organization_member_invites s new_type now grants entries db =
     (if length entries < 1 \<or> 20 < length entries
      then throw (JsError ''Organization invite batch bounds or audit count invalid.'') db
      else (case repo_bind (repo_lift (invitation_windows now)) (\<lambda>windows.
              with_batch (invite_statements s new_type now grants entries windows) (\<lambda>ns.
                if ns ! 0 = length entries \<and> list_ex (\<lambda>n. n \<noteq> 1) (take (length entries) (drop 1 ns))
                then throw (JsError ''Organization invitation audit did not fully apply.'')
                else if ns ! 0 = length entries then return_value InvitationDone
                else repo_bind (repo_get (read_manager s)) (\<lambda>readable.
                  if \<not> readable then return_value InvitationNotFound
                  else repo_bind (repo_get (invitation_limit_reached s windows None (length entries))) (\<lambda>limited.
                    return_value (if limited then InvitationRateLimited else InvitationConflict))))) db of
              (db', Inl e) \<Rightarrow> if e = unique_member_error then (db', Inr InvitationConflict) else (db', Inl e)
            | r \<Rightarrow> r))"

section \<open>Reading\<close>

record member_record =
  mr_id :: string
  mr_user_id :: "string option"
  mr_name :: "string option"
  mr_email :: string
  mr_status :: int
  mr_type :: int
  mr_collections :: "collection_grant_request list"
  mr_groups :: "string list option"

definition member_from_row :: "bool \<Rightarrow> database \<Rightarrow> organization_user_row \<Rightarrow> member_record" where
  "member_from_row include_groups db m =
     \<lparr>mr_id = ou_id m, mr_user_id = ou_user_id m,
      mr_name = Option.bind (sql_first (\<lambda>u. ou_user_id m = Some (u_id u)) (users db)) u_display_name,
      mr_email = ou_email m, mr_status = ou_status m, mr_type = ou_type m,
      mr_collections =
        [\<lparr>gq_id = cl_id c, gq_read_only = cu_read_only g, gq_hide_passwords = cu_hide_passwords g, gq_manage = cu_manage g\<rparr>.
           g \<leftarrow> collection_users db, cu_organization_user_id g = ou_id m,
           c \<leftarrow> collections db, cl_id c = cu_collection_id g \<and> cl_organization_id c = ou_organization_id m],
      mr_groups =
        (if include_groups
         then Some (sort [gu_group_id l. l \<leftarrow> organization_group_users db,
                gu_organization_user_id l = ou_id m \<and> gu_organization_id l = ou_organization_id m,
                g \<leftarrow> organization_groups db, og_id g = gu_group_id l \<and> og_organization_id g = gu_organization_id l])
         else None)\<rparr>"

definition list_organization_members :: "member_scope \<Rightarrow> bool \<Rightarrow> database \<Rightarrow> member_record list option" where
  "list_organization_members s include_groups db =
     (if \<not> read_manager s db then None
      else Some (map (member_from_row include_groups db)
        (sort_key ou_id (filter (\<lambda>m. ou_organization_id m = sc_organization_id s) (organization_users db)))))"

definition find_organization_member_for_actor :: "member_scope \<Rightarrow> string \<Rightarrow> bool \<Rightarrow> database \<Rightarrow> member_record option" where
  "find_organization_member_for_actor s membership include_groups db =
     (if \<not> read_manager s db then None
      else map_option (member_from_row include_groups db)
        (sql_first (member_at membership (sc_organization_id s)) (organization_users db)))"

definition list_organization_member_public_keys ::
    "member_scope \<Rightarrow> string list \<Rightarrow> database \<Rightarrow> (string \<times> string \<times> string) list option" where
  "list_organization_member_public_keys s ids db =
     (if \<not> read_manager s db then None
      else (let rows = [(ou_id m, u_id u, key). m \<leftarrow> sort_key ou_id (organization_users db),
                ou_organization_id m = sc_organization_id s \<and> ou_status m \<in> {1, 2} \<and> ou_id m \<in> set ids,
                u \<leftarrow> users db, ou_user_id m = Some (u_id u) \<and> u_disabled_at u = None,
                key \<leftarrow> (case u_public_key u of None \<Rightarrow> [] | Some k \<Rightarrow> [k])]
            in if length rows \<noteq> length ids then None else Some rows))"

definition find_organization_user_public_key_for_actor ::
    "string \<Rightarrow> string option \<Rightarrow> string option \<Rightarrow> string \<Rightarrow> database \<Rightarrow> (string \<times> string) option" where
  "find_organization_user_public_key_for_actor actor session device uid db =
     (let shares = sql_exists (\<lambda>r. ou_user_id r = Some uid \<and> ou_status r \<in> {1, 2} \<and> ou_type r \<in> {0, 1, 2} \<and>
            manages_member \<lparr>sc_organization_id = ou_organization_id r, sc_actor_user_id = actor, sc_session_id = session,
              sc_device_identifier = device\<rparr> db r) (organization_users db)
      in case sql_first (\<lambda>u. u_id u = uid \<and> u_disabled_at u = None \<and> u_public_key u \<noteq> None \<and> shares) (users db) of
           None \<Rightarrow> None
         | Some u \<Rightarrow> map_option (Pair (u_id u)) (u_public_key u))"

end
