(* ===== verification/MemberOperations.thy ===== *)
theory MemberOperations
  imports Memberships
begin

text \<open>
  The operations of \<open>src/organization-membership.ts\<close> and the routes of \<open>src/organization-membership-routes.ts\<close> past their configuration: parse,
  hash the invitation token, write, deliver. An invitation is delivered after its rows are stored; a delivery that fails
  does not undo them. The request's actor, its clock and the drawn ids and tokens are arguments.
\<close>

record membership_actor =
  mact_user_id :: string
  mact_email_normalized :: string
  mact_session_id :: "string option"
  mact_device_identifier :: "string option"

record drawn_invite =
  di_membership_id :: string
  di_mutation_id :: string
  di_entropy :: "nat list"

record membership_site =
  ms_hmac :: mac
  ms_invite_secret :: string
  ms_actor :: membership_actor
  ms_organization_id :: string
  ms_membership_id :: string
  ms_request_id :: string
  ms_now :: string
  ms_drawn :: "drawn_invite list"
  ms_mutation_id :: string
  ms_entropy :: "nat list"
  ms_deliver :: "string \<Rightarrow> string \<Rightarrow> string \<Rightarrow> string \<Rightarrow> bool"

datatype membership_result =
    MemberDone
  | MemberListed "member_record list"
  | MemberShown member_record
  | MemberKey string string
  | MemberKeys "(string \<times> string \<times> string) list"
  | DeliveryUnavailable "string list"
  | MemberRefused membership_refusal
  | MemberNotFound
  | MemberConflict
  | MemberRateLimited

definition generate_organization_membership_invite_token :: "nat list \<Rightarrow> string" where
  "generate_organization_membership_invite_token entropy = base64_url_encode_bytes entropy"

definition site_scope :: "membership_site \<Rightarrow> member_scope" where
  "site_scope site =
     \<lparr>sc_organization_id = ms_organization_id site, sc_actor_user_id = mact_user_id (ms_actor site),
      sc_session_id = mact_session_id (ms_actor site), sc_device_identifier = mact_device_identifier (ms_actor site)\<rparr>"

definition membership_audit :: "membership_site \<Rightarrow> string \<Rightarrow> string \<Rightarrow> (string \<times> json) list \<Rightarrow> audit_event" where
  "membership_audit site name membership context =
     build_audit_event
       \<lparr>ai_name = name, ai_outcome = ''success'',
        ai_actor = Some (Some (mact_user_id (ms_actor site)), mact_device_identifier (ms_actor site)),
        ai_target = Some (''organization_user'', Some membership),
        ai_context = (''organizationId'', JStr (ms_organization_id site)) # context\<rparr> (ms_request_id site) (ms_now site)"

definition site_mutation :: "membership_site \<Rightarrow> string \<Rightarrow> (string \<times> json) list \<Rightarrow> membership_mutation" where
  "site_mutation site name context =
     \<lparr>mm_scope = site_scope site, mm_membership_id = ms_membership_id site, mm_now = ms_now site,
      mm_audit_event = membership_audit site name (ms_membership_id site) context, mm_mutation_id = ms_mutation_id site\<rparr>"

definition done_or_not_found :: "bool repo \<Rightarrow> membership_result repo" where
  "done_or_not_found m = repo_bind m (\<lambda>hit. return_value (if hit then MemberDone else MemberNotFound))"

definition invitation_result :: "invitation_outcome \<Rightarrow> membership_result" where
  "invitation_result r =
     (case r of InvitationDone \<Rightarrow> MemberDone | InvitationNotFound \<Rightarrow> MemberNotFound | InvitationRateLimited \<Rightarrow> MemberRateLimited
      | InvitationConflict \<Rightarrow> MemberConflict)"

text \<open>The hashed invitations of the addresses, one drawn id and token for each.\<close>

fun prepared_invites :: "membership_site \<Rightarrow> string \<Rightarrow> int \<Rightarrow> (string \<times> drawn_invite) list \<Rightarrow> js_error + (member_invite \<times> audit_event) list" where
  "prepared_invites site expires_at new_type [] = Inr []"
| "prepared_invites site expires_at new_type ((email, d) # rest) =
     and_then (build_organization_membership_invite_token_hash (ms_hmac site) (ms_invite_secret site) (ms_organization_id site)
         (di_membership_id d) email (generate_organization_membership_invite_token (di_entropy d))) (\<lambda>hash.
       and_then (prepared_invites site expires_at new_type rest) (\<lambda>ps.
         Inr ((\<lparr>mi_id = di_membership_id d, mi_email = email, mi_token_hash = hash, mi_expires_at = expires_at,
                mi_mutation_id = di_mutation_id d\<rparr>,
               membership_audit site ''organization.member.invite'' (di_membership_id d)
                 [(''type'', jint new_type), (''toStatus'', jint 0)]) # ps)))"

definition invite_organization_members :: "membership_site \<Rightarrow> json \<Rightarrow> membership_result repo" where
  "invite_organization_members site body =
     (case parse_organization_membership_invite_request body of
        Inl r \<Rightarrow> return_value (MemberRefused r)
      | Inr (emails, authority) \<Rightarrow>
          let drawn = zip emails (ms_drawn site)
          in repo_bind (repo_lift (organization_membership_invite_expires_at (ms_now site))) (\<lambda>expires_at.
             repo_bind (repo_lift (prepared_invites site expires_at (hq_type authority) drawn)) (\<lambda>entries.
             repo_bind (insert_organization_member_invites (site_scope site) (hq_type authority) (ms_now site) (hq_collections authority) entries)
               (\<lambda>result. return_value (
                  if result \<noteq> InvitationDone then invitation_result result
                  else if list_all (\<lambda>(email, d). ms_deliver site email (generate_organization_membership_invite_token (di_entropy d))
                         (di_membership_id d) expires_at) drawn
                  then MemberDone else DeliveryUnavailable (map (mi_id \<circ> fst) entries))))))"

definition reinvite_member :: "membership_site \<Rightarrow> membership_result repo" where
  "reinvite_member site =
     repo_bind (repo_get (find_organization_member_for_actor (site_scope site) (ms_membership_id site) False)) (\<lambda>recipient.
       case recipient of
         None \<Rightarrow> return_value MemberNotFound
       | Some m \<Rightarrow>
           if mr_status m \<noteq> 0 then return_value MemberNotFound
           else (let token = generate_organization_membership_invite_token (ms_entropy site)
                 in repo_bind (repo_lift (organization_membership_invite_expires_at (ms_now site))) (\<lambda>expires_at.
                    repo_bind (repo_lift (build_organization_membership_invite_token_hash (ms_hmac site) (ms_invite_secret site)
                        (ms_organization_id site) (ms_membership_id site) (mr_email m) token)) (\<lambda>hash.
                    repo_bind (reinvite_organization_member (site_mutation site ''organization.member.reinvite'' [(''toStatus'', jint 0)])
                        (mr_email m) hash expires_at) (\<lambda>result. return_value (
                      if result \<noteq> InvitationDone then invitation_result result
                      else if ms_deliver site (mr_email m) token (ms_membership_id site) expires_at then MemberDone
                      else DeliveryUnavailable [ms_membership_id site]))))))"

definition accept_member :: "membership_site \<Rightarrow> json \<Rightarrow> membership_result repo" where
  "accept_member site body =
     (case parse_organization_membership_accept_request body of
        Inl r \<Rightarrow> return_value (MemberRefused r)
      | Inr token \<Rightarrow>
          repo_bind (repo_lift (build_organization_membership_invite_token_hash (ms_hmac site) (ms_invite_secret site)
              (ms_organization_id site) (ms_membership_id site) (mact_email_normalized (ms_actor site)) token)) (\<lambda>hash.
            done_or_not_found (accept_organization_member_invite
              (site_mutation site ''organization.member.accept'' [(''fromStatus'', jint 0), (''toStatus'', jint 1)])
              (mact_email_normalized (ms_actor site)) hash)))"

definition confirm_member :: "membership_site \<Rightarrow> json \<Rightarrow> membership_result repo" where
  "confirm_member site body =
     (case parse_organization_membership_confirm_request body of
        Inl r \<Rightarrow> return_value (MemberRefused r)
      | Inr key \<Rightarrow> done_or_not_found (confirm_organization_member
          (site_mutation site ''organization.member.confirm'' [(''fromStatus'', jint 1), (''toStatus'', jint 2)]) key))"

definition update_member :: "membership_site \<Rightarrow> json \<Rightarrow> membership_result repo" where
  "update_member site body =
     (case parse_organization_membership_update_request body of
        Inl r \<Rightarrow> return_value (MemberRefused r)
      | Inr q \<Rightarrow> done_or_not_found (update_organization_member
          (site_mutation site ''organization.member.update''
             [(''type'', jint (hq_type q)), (''assignmentCount'', jint (int (length (hq_collections q))))]) (hq_type q) (hq_collections q)))"

definition revoke_member :: "membership_site \<Rightarrow> membership_result repo" where
  "revoke_member site =
     done_or_not_found (revoke_organization_member (site_mutation site ''organization.member.revoke'' [(''toStatus'', jint (-1))]))"

definition remove_member :: "membership_site \<Rightarrow> membership_result repo" where
  "remove_member site = done_or_not_found (remove_organization_member (site_mutation site ''organization.member.remove'' []))"

definition list_members :: "membership_site \<Rightarrow> bool \<Rightarrow> bool \<Rightarrow> membership_result repo" where
  "list_members site include_collections include_groups =
     repo_bind (repo_get (list_organization_members (site_scope site) include_groups)) (\<lambda>found. return_value (case found of
       None \<Rightarrow> MemberNotFound
     | Some ms \<Rightarrow> MemberListed (map (\<lambda>m. m\<lparr>mr_collections := (if include_collections then mr_collections m else [])\<rparr>) ms)))"

definition read_member :: "membership_site \<Rightarrow> bool \<Rightarrow> membership_result repo" where
  "read_member site include_groups =
     repo_bind (repo_get (find_organization_member_for_actor (site_scope site) (ms_membership_id site) include_groups))
       (\<lambda>found. return_value (case found of None \<Rightarrow> MemberNotFound | Some m \<Rightarrow> MemberShown m))"

definition read_organization_user_public_key :: "membership_site \<Rightarrow> string \<Rightarrow> membership_result repo" where
  "read_organization_user_public_key site uid =
     repo_bind (repo_get (find_organization_user_public_key_for_actor (mact_user_id (ms_actor site)) (mact_session_id (ms_actor site))
         (mact_device_identifier (ms_actor site)) uid))
       (\<lambda>found. return_value (case found of None \<Rightarrow> MemberNotFound | Some (u, key) \<Rightarrow> MemberKey u key))"

definition organization_member_public_keys :: "membership_site \<Rightarrow> json \<Rightarrow> membership_result repo" where
  "organization_member_public_keys site body =
     (case parse_organization_membership_ids_request body of
        Inl r \<Rightarrow> return_value (MemberRefused r)
      | Inr ids \<Rightarrow>
          repo_bind (repo_get (list_organization_member_public_keys (site_scope site) ids))
            (\<lambda>found. return_value (case found of None \<Rightarrow> MemberNotFound | Some keys \<Rightarrow> MemberKeys keys)))"

section \<open>The routes\<close>

text \<open>A query is a list of names with their values; \<open>None\<close> is a body that is no JSON within the bound of the route.\<close>

type_synonym url_query = "(string \<times> string list) list"

datatype membership_operation =
    ListMembers url_query | ReadMember url_query | UserPublicKey string url_query | InviteMembers "json option" | ReinviteMember
  | AcceptMember "json option" | ConfirmMember "json option" | MemberPublicKeys "json option" | UpdateMember "json option"
  | RevokeMember | RemoveMember

definition with_body :: "json option \<Rightarrow> (json \<Rightarrow> membership_result repo) \<Rightarrow> membership_result repo" where
  "with_body body k = (case body of None \<Rightarrow> return_value (MemberRefused InvalidMembership) | Some b \<Rightarrow> k b)"

definition valid_id :: "string \<Rightarrow> bool" where
  "valid_id v \<longleftrightarrow> member_identifier (Some (JStr v)) \<noteq> None"

text \<open>The routes that name no member have an empty membership id.\<close>

definition ids_valid :: "membership_site \<Rightarrow> membership_operation \<Rightarrow> bool" where
  "ids_valid site op \<longleftrightarrow>
     (case op of UserPublicKey uid query \<Rightarrow> valid_id uid | _ \<Rightarrow> valid_id (ms_organization_id site)) \<and>
     (ms_membership_id site = [] \<or> valid_id (ms_membership_id site))"

definition query_valid :: "string list \<Rightarrow> url_query \<Rightarrow> bool" where
  "query_valid names query \<longleftrightarrow>
     list_all (\<lambda>(k, vs). k \<in> set names \<and> (vs = [''true''] \<or> vs = [''false''])) query"

definition query_flag :: "string \<Rightarrow> url_query \<Rightarrow> bool" where
  "query_flag name query \<longleftrightarrow> map_of query name = Some [''true'']"

definition membership_route :: "membership_site \<Rightarrow> membership_operation \<Rightarrow> membership_result repo" where
  "membership_route site op =
     (if \<not> ids_valid site op then return_value (MemberRefused InvalidMembership)
      else (case op of
        ListMembers query \<Rightarrow>
          if query_valid [''includeGroups'', ''includeCollections''] query
          then list_members site (query_flag ''includeCollections'' query) (query_flag ''includeGroups'' query)
          else return_value (MemberRefused InvalidMembership)
      | ReadMember query \<Rightarrow>
          if query_valid [''includeGroups''] query then read_member site (query_flag ''includeGroups'' query)
          else return_value (MemberRefused InvalidMembership)
      | UserPublicKey uid query \<Rightarrow>
          if query = [] then read_organization_user_public_key site uid else return_value (MemberRefused InvalidMembership)
      | InviteMembers body \<Rightarrow> with_body body (invite_organization_members site)
      | ReinviteMember \<Rightarrow> reinvite_member site
      | AcceptMember body \<Rightarrow> with_body body (accept_member site)
      | ConfirmMember body \<Rightarrow> with_body body (confirm_member site)
      | MemberPublicKeys body \<Rightarrow> with_body body (organization_member_public_keys site)
      | UpdateMember body \<Rightarrow> with_body body (update_member site)
      | RevokeMember \<Rightarrow> revoke_member site
      | RemoveMember \<Rightarrow> remove_member site))"

end
