(* ===== verification/AuditedProofs.thy ===== *)
theory AuditedProofs
  imports MemberOperations
begin

text \<open>
  What the statements of an audited batch leave alone: a statement that is guarded by the audit row does nothing without it, and the
  statements that follow the audit row keep the members, the audit log and all that a decision about authority reads.
\<close>

named_theorems inert \<open>statements that do nothing before the audit row of their batch\<close>
named_theorems follows \<open>statements that keep the members and what decisions about authority read\<close>

section \<open>The view of the administration\<close>

definition account_view :: "user_row \<Rightarrow> string \<times> string option \<times> string" where
  "account_view u = (u_id u, u_disabled_at u, u_email_normalized u)"

definition organization_view :: "organization_row \<Rightarrow> string \<times> bool" where
  "organization_view g = (org_id g, org_enabled g)"

definition authority_view ::
    "database \<Rightarrow> (string \<times> string option \<times> string) list \<times> (string \<times> bool) list \<times> organization_policy_row list \<times> totp_row list \<times> device_row list" where
  "authority_view db = (map account_view (users db), map organization_view (organizations db), organization_policies db, user_totp db, devices db)"

lemma exists_view: "map v t = map v t' \<Longrightarrow> (\<And>r. p r = q (v r)) \<Longrightarrow> sql_exists p t = sql_exists p t'"
  by (metis (mono_tags, lifting) list.set_map image_iff sql_exists_iff)

lemma active_user_view: "authority_view d = authority_view db \<Longrightarrow> active_user uid d = active_user uid db"
  unfolding active_user_def authority_view_def
  by (rule exists_view [where v = account_view and q = "\<lambda>(i, dis, _). i = uid \<and> dis = None"]) (auto simp: account_view_def)

lemma two_step_view: "authority_view d = authority_view db \<Longrightarrow> two_step_policy org d = two_step_policy org db"
  by (simp add: two_step_policy_def authority_view_def)

lemma able_owner_view: "authority_view d = authority_view db \<Longrightarrow> able_owner org d m = able_owner org db m"
  using active_user_view [of d db] two_step_view [of d db]
  by (simp add: able_owner_def organization_totp_enrollment_allows_def) (simp add: authority_view_def)

section \<open>Statements\<close>

declare run_stmts.simps [simp del]

definition inert :: "string \<Rightarrow> database stmt \<Rightarrow> bool" where
  "inert aid s \<longleftrightarrow> (\<forall>db n d k. s db n = Inr (d, k) \<longrightarrow> \<not> marked aid db \<longrightarrow> d = db)"

definition kept :: "database \<Rightarrow> database \<Rightarrow> bool" where
  "kept db d \<longleftrightarrow> organization_users d = organization_users db \<and> audit_events d = audit_events db \<and> authority_view d = authority_view db"

definition follows :: "database stmt \<Rightarrow> bool" where
  "follows s \<longleftrightarrow> (\<forall>db n d k. s db n = Inr (d, k) \<longrightarrow> kept db d)"

lemma followsD: "follows s \<Longrightarrow> s db n = Inr (d, k) \<Longrightarrow> kept db d"
  by (auto simp: follows_def)

lemma kept_refl [simp]: "kept db db"
  by (simp add: kept_def)

lemma kept_trans: "kept a b \<Longrightarrow> kept b c \<Longrightarrow> kept a c"
  by (simp add: kept_def)

lemma run_inert:
  assumes "\<forall>s \<in> set ss. inert aid s" "run_stmts ss db n = Inr (d, ns)" "\<not> marked aid db"
  shows "d = db"
  using assms
proof (induction ss arbitrary: n ns)
  case (Cons s ss)
  then obtain d1 k ms where s: "s db n = Inr (d1, k)" and r: "run_stmts ss d1 k = Inr (d, ms)" by (auto simp: run_stmts_Inr)
  with Cons.prems have "d1 = db" unfolding inert_def by (meson list.set_intros(1))
  with Cons r show ?case by simp
qed (simp add: run_stmts_Inr)

lemma run_follows:
  assumes "\<forall>s \<in> set ss. follows s" "run_stmts ss db n = Inr (d, ns)"
  shows "kept db d"
  using assms
proof (induction ss arbitrary: db n ns)
  case (Cons s ss)
  then obtain d1 k ms where s: "s db n = Inr (d1, k)" and r: "run_stmts ss d1 k = Inr (d, ms)" by (auto simp: run_stmts_Inr)
  with Cons.prems have "kept db d1" unfolding follows_def by (meson list.set_intros(1))
  moreover have "kept d1 d" using Cons r by simp
  ultimately show ?case by (rule kept_trans)
qed (simp add: run_stmts_Inr)

lemma assertion_inert [inert]: "inert aid (assertion c)"
  by (simp add: inert_def assertion_Inr)

lemma assertion_follows [follows]: "follows (assertion c)"
  by (simp add: follows_def assertion_Inr)

lemma when_marked_inert [inert]: "inert aid (when_marked aid' c)"
  by (simp add: when_marked_def inert)

lemma when_marked_follows [follows]: "follows (when_marked aid c)"
  by (simp add: when_marked_def follows)

lemma update_not_null_inert:
  assumes "\<And>db r. p db r \<Longrightarrow> marked aid db" "\<And>f db. upd f db = (upd (\<lambda>_. f (get db)) db)" "\<And>db. upd (\<lambda>_. get db) db = db"
  shows "inert aid (update_not_null get upd p f)"
proof -
  have "d = db" if "update_not_null get upd p f db n = Inr (d, k)" "\<not> marked aid db" for db n d k
  proof -
    have none: "\<not> p db r" for r using assms(1) that(2) by blast
    have "d = upd (sql_update (p db) (\<lambda>r. the (f db r))) db" using update_not_null_Inr [OF that(1)] by simp
    also have "\<dots> = upd (\<lambda>_. get db) db"
      by (subst assms(2)) (simp add: sql_update_none sql_count_0 none)
    finally show ?thesis by (simp add: assms(3))
  qed
  then show ?thesis by (auto simp: inert_def)
qed

lemma revision_inert [inert]: "inert aid (revision_statement org now aid)"
  unfolding revision_statement_def by (rule update_not_null_inert) auto

lemma users_revision_inert [inert]: "inert aid (users_revision_statement p now aid)"
  unfolding users_revision_statement_def by (rule update_not_null_inert) auto

lemma map_view_update: "(\<And>r. r \<in> set t \<Longrightarrow> p r \<Longrightarrow> v (f r) = v r) \<Longrightarrow> map v (sql_update p f t) = map v t"
  by (simp add: sql_update_def)

lemma revision_follows [follows]: "follows (revision_statement org now aid)"
proof -
  have "kept db d" if "revision_statement org now aid db n = Inr (d, k)" for db n d k
  proof -
    from update_not_null_Inr [OF that [unfolded revision_statement_def]]
    have d: "d = organizations_update (sql_update (\<lambda>g. org_id g = org \<and> marked aid db) (\<lambda>g. the (advanced_organization now g))) db"
      and some: "\<forall>g \<in> set (organizations db). org_id g = org \<and> marked aid db \<longrightarrow> advanced_organization now g \<noteq> None" by simp_all
    have "map organization_view (organizations d) = map organization_view (organizations db)"
      unfolding d using some by (auto simp: advanced_organization_def organization_view_def intro!: map_view_update)
    then show ?thesis by (simp add: kept_def authority_view_def) (simp add: d)
  qed
  then show ?thesis by (auto simp: follows_def)
qed

lemma users_revision_follows [follows]: "follows (users_revision_statement p now aid)"
proof -
  have "kept db d" if "users_revision_statement p now aid db n = Inr (d, k)" for db n d k
  proof -
    from update_not_null_Inr [OF that [unfolded users_revision_statement_def]]
    have d: "d = users_update (sql_update (\<lambda>u. p db u \<and> marked aid db) (\<lambda>u. the (advanced_user now db u))) db"
      and some: "\<forall>u \<in> set (users db). p db u \<and> marked aid db \<longrightarrow> advanced_user now db u \<noteq> None" by simp_all
    have "map account_view (users d) = map account_view (users db)"
      unfolding d using some by (auto simp: advanced_user_def account_view_def intro!: map_view_update)
    then show ?thesis by (simp add: kept_def authority_view_def) (simp add: d)
  qed
  then show ?thesis by (auto simp: follows_def)
qed

lemma marked_delete_inert [inert]:
  "inert aid (marked_delete collection_users collection_users_update p aid)"
  "inert aid (marked_delete collection_groups collection_groups_update r aid)"
  "inert aid (marked_delete organization_group_users organization_group_users_update q aid)"
  by (simp_all add: inert_def marked_delete_def delete_stmt_Inr sql_delete_def)

lemma marked_delete_follows [follows]:
  "follows (marked_delete collection_users collection_users_update p aid)"
  "follows (marked_delete collection_groups collection_groups_update r aid)"
  "follows (marked_delete organization_group_users organization_group_users_update q aid)"
  by (simp_all add: follows_def marked_delete_def delete_stmt_Inr kept_def authority_view_def)

lemma insert_grants_inert [inert]: "inert aid (insert_grants rows aid)"
  by (auto simp: inert_def insert_grants_def)

lemma insert_grants_follows [follows]: "follows (insert_grants rows aid)"
  by (auto simp: follows_def insert_grants_def kept_def authority_view_def split: if_splits)

end
