(* ===== verification/MembershipProofs.thy ===== *)
theory MembershipProofs
  imports AuditedProofs
begin

text \<open>
  One membership mutation: either nothing changes, or one row of \<open>organization_users\<close> is replaced or removed and one audit row
  is added. The requests of the routes as transitions of one row.
\<close>

section \<open>Replacing one row\<close>

definition replaced :: "'r \<Rightarrow> 'r option \<Rightarrow> 'r list \<Rightarrow> 'r list" where
  "replaced m new t = (case new of None \<Rightarrow> filter (\<lambda>r. r \<noteq> m) t | Some m' \<Rightarrow> map (\<lambda>r. if r = m then m' else r) t)"

lemma update_replaces:
  assumes "distinct (map key t)" "\<And>r. p r \<Longrightarrow> key r = k" "m \<in> set t" "p m"
  shows "sql_update p f t = replaced m (Some (f m)) t"
  using assms by (auto simp: sql_update_def replaced_def dest: distinct_key_unique)

lemma delete_replaces:
  assumes "distinct (map key t)" "\<And>r. p r \<Longrightarrow> key r = k" "m \<in> set t" "p m"
  shows "sql_delete p t = replaced m None t"
  using assms by (auto simp: sql_delete_def replaced_def intro!: filter_cong dest: distinct_key_unique)

lemma set_replaced:
  "m \<in> set t \<Longrightarrow> set (replaced m new t) = (set t - {m}) \<union> set_option new"
  by (auto simp: replaced_def split: option.splits)

lemma filter_replaced:
  assumes "\<And>r. r \<in> set t \<Longrightarrow> q r \<longleftrightarrow> r = m" "q m'"
  shows "length (filter q (replaced m (Some m') t)) = length (filter (\<lambda>r. r = m) t)"
    "filter (\<lambda>r. \<not> q r) (replaced m (Some m') t) = replaced m None t"
  using assms by (induction t) (auto simp: replaced_def)

section \<open>The statements of a mutation\<close>

definition following_statements ::
    "membership_mutation \<Rightarrow> collection_grant_request list option \<Rightarrow> bool \<Rightarrow> database stmt list" where
  "following_statements i grants clear_groups =
     (case grants of None \<Rightarrow> [] | Some gs \<Rightarrow> grant_statements i gs) @ revision_statements i @
     (if clear_groups then clear_group_statements i else [])"

lemma following_inert: "\<forall>s \<in> set (following_statements i grants clear). inert (mm_mutation_id i) s"
  by (auto simp: following_statements_def grant_statements_def revision_statements_def clear_group_statements_def Let_def inert
      split: option.splits)

lemma following_follows: "\<forall>s \<in> set (following_statements i grants clear). follows s"
  by (auto simp: following_statements_def grant_statements_def revision_statements_def clear_group_statements_def Let_def follows
      split: option.splits)

lemma removal_inert: "\<forall>s \<in> set (removal_statements i). inert (mm_mutation_id i) s"
  by (auto simp: removal_statements_def inert) (auto simp: inert_def delete_member_def split: if_splits)

lemma removal_run:
  assumes "run_stmts (removal_statements i) db n = Inr (d, ns)" "marked (mm_mutation_id i) db"
  shows "organization_users d = sql_delete (member_at (mm_membership_id i) (sc_organization_id (mm_scope i))) (organization_users db) \<and>
    audit_events d = audit_events db \<and> authority_view d = authority_view db \<and>
    (\<exists>k. ns = [sql_count (member_at (mm_membership_id i) (sc_organization_id (mm_scope i))) (organization_users db), k])"
proof -
  from assms(1) obtain d1 k j where del: "delete_member (mm_membership_id i) (sc_organization_id (mm_scope i)) (mm_mutation_id i) db n = Inr (d1, k)"
    and ns: "ns = [k, j]" and d: "d = d1"
    by (auto simp: removal_statements_def run_stmts_Inr when_marked_def assertion_Inr)
  show ?thesis
  proof (cases "sql_exists (member_at (mm_membership_id i) (sc_organization_id (mm_scope i))) (organization_users db)")
    case True
    with del assms(2) show ?thesis unfolding d ns by (auto simp: delete_member_def authority_view_def)
  next
    case False
    with del assms(2) have "d1 = db" "k = 0" by (simp_all add: delete_member_def)
    moreover have "sql_count (member_at (mm_membership_id i) (sc_organization_id (mm_scope i))) (organization_users db) = 0"
      using False by (simp add: sql_count_0 sql_exists_iff)
    moreover have "sql_delete (member_at (mm_membership_id i) (sc_organization_id (mm_scope i))) (organization_users db) = organization_users db"
      using False by (simp add: sql_delete_def sql_exists_iff filter_id_conv)
    ultimately show ?thesis unfolding d ns by simp
  qed
qed

abbreviation mutation_audit :: "membership_mutation \<Rightarrow> audit_event_row" where
  "mutation_audit i \<equiv> audit_row (mm_mutation_id i) (mm_audit_event i)"

abbreviation touched :: "membership_mutation \<Rightarrow> organization_user_row \<Rightarrow> organization_user_row" where
  "touched i m \<equiv> m\<lparr>ou_updated_at := mm_now i, ou_last_membership_mutation_id := Some (mm_mutation_id i)\<rparr>"

abbreviation mutated_row :: "membership_mutation \<Rightarrow> organization_user_row \<Rightarrow> bool" where
  "mutated_row i \<equiv> member_at (mm_membership_id i) (sc_organization_id (mm_scope i))"

lemma statements_split:
  "membership_statements mutation i grants remove clear =
     [mutation, audit_statement (mutation_audit i) (\<lambda>db prev. prev = 1),
      assertion (\<lambda>db prev. \<not> sql_exists (\<lambda>m. mutated_row i m \<and> ou_last_membership_mutation_id m = Some (mm_mutation_id i))
        (organization_users db) \<or> marked (mm_mutation_id i) db)] @
     following_statements i grants clear @ (if remove then removal_statements i else [])"
  by (simp add: membership_statements_def following_statements_def)

lemma audit_row_id [simp]: "ev_id (audit_row aid e) = aid"
  by (simp add: audit_row_def)

lemma run_stmts_append_Inr:
  "run_stmts (ss @ ts) db n = Inr (d, ks) \<longleftrightarrow>
     (\<exists>d1 ns ms. run_stmts ss db n = Inr (d1, ns) \<and> run_stmts ts d1 (if ns = [] then n else last ns) = Inr (d, ms) \<and> ks = ns @ ms)"
  by (auto simp: run_stmts_append split: sum.splits)

lemma mutation_missed:
  assumes "\<not> marked (mm_mutation_id i) db" "mutation db 0 = Inr (db, 0)"
    and "batch (membership_statements mutation i grants remove clear) db = Inr (d, ns)"
  shows "d = db \<and> ns ! 0 = 0 \<and> ns ! 1 = 0"
proof -
  from assms(3) assms(2) obtain ms where ns: "ns = 0 # 0 # 0 # ms"
    and run: "run_stmts (following_statements i grants clear @ (if remove then removal_statements i else [])) db 0 = Inr (d, ms)"
    by (auto simp: batch_def statements_split run_stmts_Inr audit_statement_Inr assertion_Inr)
  have "d = db"
    by (rule run_inert [OF _ run assms(1)]) (use following_inert [of i grants clear] removal_inert [of i] in auto)
  then show ?thesis by (simp add: ns)
qed

lemma mutation_applied:
  assumes "mutation db 0 = Inr (d1, 1)" "audit_events d1 = audit_events db" "authority_view d1 = authority_view db"
    and "batch (membership_statements mutation i grants remove clear) db = Inr (d, ns)"
  shows "audit_events d = audit_events db @ [mutation_audit i] \<and> authority_view d = authority_view db \<and>
    organization_users d = (if remove then sql_delete (mutated_row i) else (\<lambda>t. t)) (organization_users d1) \<and>
    ns ! 0 = 1 \<and> ns ! 1 = 1 \<and> (remove \<longrightarrow> ns ! (length ns - 2) = sql_count (mutated_row i) (organization_users d1))"
proof -
  let ?d = "audit_events_update (\<lambda>t. t @ [mutation_audit i]) d1"
  from assms(1,4) obtain ms where ns: "ns = 1 # 1 # 1 # ms"
    and run: "run_stmts (following_statements i grants clear @ (if remove then removal_statements i else [])) ?d 1 = Inr (d, ms)"
    by (auto simp: batch_def statements_split run_stmts_Inr audit_statement_Inr assertion_Inr)
  from run obtain d2 ns2 ms2 where follow: "run_stmts (following_statements i grants clear) ?d 1 = Inr (d2, ns2)"
    and last: "run_stmts (if remove then removal_statements i else []) d2 (if ns2 = [] then 1 else last ns2) = Inr (d, ms2)"
    and ms: "ms = ns2 @ ms2"
    unfolding run_stmts_append_Inr by blast
  have k: "kept ?d d2" by (rule run_follows [OF following_follows follow])
  then have m: "marked (mm_mutation_id i) d2" by (simp add: kept_def marked_def sql_exists_iff)
  have v: "authority_view ?d = authority_view db" using assms(3) by (simp add: authority_view_def)
  show ?thesis
  proof (cases remove)
    case True
    with removal_run [of i d2 _ d ms2] last m obtain j where
      "organization_users d = sql_delete (mutated_row i) (organization_users d2)" "audit_events d = audit_events d2"
      "authority_view d = authority_view d2" "ms2 = [sql_count (mutated_row i) (organization_users d2), j]" by auto
    with True k v assms(2) show ?thesis by (simp add: ns ms kept_def nth_append)
  next
    case False
    with last have "d = d2" by (simp add: run_stmts_Inr)
    with False k v assms(2) show ?thesis by (simp add: ns kept_def)
  qed
qed

section \<open>The effect of a mutation\<close>

lemma mutation_effect:
  assumes ids: "distinct (map ou_id (organization_users db))" and fresh: "\<not> marked (mm_mutation_id i) db"
    and keeps: "\<And>m. mutated_row i (effect m) = mutated_row i m"
    and run: "run_membership_mutation (update_members guard effect i) i grants remove clear db = (db', a)"
  shows "db' = db \<and> a \<noteq> Inr True \<or>
    a = Inr True \<and> authority_view db' = authority_view db \<and> audit_events db' = audit_events db @ [mutation_audit i] \<and>
    (\<exists>m \<in> set (organization_users db). mutated_row i m \<and> guard db m \<and>
      organization_users db' = replaced m (if remove then None else Some (touched i (effect m))) (organization_users db))"
proof (cases "batch (membership_statements (update_members guard effect i) i grants remove clear) db")
  case (Inl e)
  with run show ?thesis by (auto simp: run_membership_mutation_def with_batch_def)
next
  case (Inr r)
  obtain d ns where b: "batch (membership_statements (update_members guard effect i) i grants remove clear) db = Inr (d, ns)"
    using Inr by (cases r) simp
  let ?p = "\<lambda>m. mutated_row i m \<and> guard db m" and ?t = "organization_users db"
  let ?f = "\<lambda>m. touched i (effect m)"
  have key: "?p m \<Longrightarrow> ou_id m = mm_membership_id i" for m by (simp add: member_at_def)
  have step: "update_members guard effect i db 0 = Inr (organization_users_update (sql_update ?p ?f) db, sql_count ?p ?t)"
    by (simp add: update_members_def update_stmt_def)
  show ?thesis
  proof (cases "\<exists>m \<in> set ?t. ?p m")
    case False
    then have n: "sql_count ?p ?t = 0" by (simp add: sql_count_0)
    then have "organization_users_update (sql_update ?p ?f) db = db" by (simp add: sql_update_none)
    with step n have miss: "update_members guard effect i db 0 = Inr (db, 0)" by simp
    from mutation_missed [OF fresh miss b] run b show ?thesis
      by (auto simp: run_membership_mutation_def with_batch_def return_value_def)
  next
    case True
    then obtain m where m: "m \<in> set ?t" "?p m" by blast
    have n: "sql_count ?p ?t = 1" using sql_count_1_iff [where p = ?p, OF ids key] True by blast
    have upd: "sql_update ?p ?f ?t = replaced m (Some (?f m)) ?t" by (rule update_replaces [where p = ?p, OF ids key m])
    define d1 where "d1 = organization_users_update (sql_update ?p ?f) db"
    have d1: "audit_events d1 = audit_events db" "authority_view d1 = authority_view db"
        "organization_users d1 = replaced m (Some (?f m)) ?t"
      by (simp_all add: d1_def authority_view_def upd)
    have hit: "update_members guard effect i db 0 = Inr (d1, 1)" using step n by (simp add: d1_def)
    note out = mutation_applied [OF hit d1(1,2) b]
    have at: "mutated_row i (?f m)" using keeps [of m] m(2) by (simp add: member_at_def)
    have only: "r \<in> set ?t \<Longrightarrow> mutated_row i r \<longleftrightarrow> r = m" for r
      using m key distinct_key_unique [OF ids] by (metis member_at_def)
    have "length (filter (\<lambda>r. r = m) ?t) = 1"
      using sql_count_1_iff [OF ids, of "\<lambda>r. r = m" "ou_id m"] m(1) by (auto simp: sql_count_def)
    with filter_replaced [where q = "mutated_row i" and t = ?t, OF only at]
    have one: "sql_count (mutated_row i) (organization_users d1) = 1"
      and del: "sql_delete (mutated_row i) (organization_users d1) = replaced m None ?t"
      by (simp_all add: d1(3) sql_count_def sql_delete_def)
    have "db' = d \<and> a = Inr True"
      using run b out one by (auto simp: run_membership_mutation_def with_batch_def return_value_def)
    with out m del d1(3) show ?thesis by (auto intro!: bexI [of _ m])
  qed
qed

section \<open>Inviting\<close>

lemma audits_unmarked:
  assumes "\<not> marked marker db" "run_stmts (map (\<lambda>e. audit_statement e (\<lambda>db prev. marked marker db)) es) db k = Inr (d, ns)"
  shows "d = db \<and> ns = replicate (length es) 0"
  using assms(2)
proof (induction es arbitrary: k ns)
  case (Cons e es)
  then obtain d1 j ms where e: "audit_statement e (\<lambda>db prev. marked marker db) db k = Inr (d1, j)" and ns: "ns = j # ms"
    and r: "run_stmts (map (\<lambda>e. audit_statement e (\<lambda>db prev. marked marker db)) es) d1 j = Inr (d, ms)" by (auto simp: run_stmts_Inr)
  from e assms(1) have "d1 = db" "j = 0" by (auto simp: audit_statement_Inr)
  with Cons.IH r ns show ?case by simp
qed (simp add: run_stmts_Inr)

lemma audits_marked:
  assumes "marked marker db" "run_stmts (map (\<lambda>e. audit_statement e (\<lambda>db prev. marked marker db)) es) db k = Inr (d, ns)"
  shows "d = audit_events_update (\<lambda>t. t @ es) db \<and> ns = replicate (length es) 1"
  using assms
proof (induction es arbitrary: db k ns)
  case (Cons e es)
  then obtain d1 j ms where e: "audit_statement e (\<lambda>db prev. marked marker db) db k = Inr (d1, j)" and ns: "ns = j # ms"
    and r: "run_stmts (map (\<lambda>e. audit_statement e (\<lambda>db prev. marked marker db)) es) d1 j = Inr (d, ms)" by (auto simp: run_stmts_Inr)
  from e Cons.prems(1) have d1: "d1 = audit_events_update (\<lambda>t. t @ [e]) db" "j = 1" by (auto simp: audit_statement_Inr)
  then have "marked marker d1" using Cons.prems(1) by (simp add: marked_def sql_exists_iff)
  with Cons.IH r have "d = audit_events_update (\<lambda>t. t @ es) d1 \<and> ms = replicate (length es) 1" by blast
  with d1 ns show ?case by simp
qed (simp add: run_stmts_Inr)

abbreviation invite_rows :: "(member_invite \<times> audit_event) list \<Rightarrow> audit_event_row list" where
  "invite_rows entries \<equiv> map (\<lambda>(v, e). audit_row (mi_mutation_id v) e) entries"

lemma invites_run:
  assumes "entries \<noteq> []" "\<not> marked (mi_mutation_id (fst (hd entries))) db"
    and "batch (invite_statements s ty now grants entries windows) db = Inr (d, ns)"
  shows "if may_invite s ty grants (map fst entries) windows db
    then ns ! 0 = length entries \<and> take (length entries) (drop 1 ns) = replicate (length entries) 1 \<and>
      organization_users d = organization_users db @ map (invited_member (sc_organization_id s) ty now) (map fst entries) \<and>
      members_unique (organization_users d) \<and> audit_events d = audit_events db @ invite_rows entries \<and>
      authority_view d = authority_view db
    else ns ! 0 = 0 \<and> d = db"
proof -
  obtain v e rest where es: "entries = (v, e) # rest" using assms(1) by (cases entries) auto
  define marker where "marker = mi_mutation_id v"
  define later where "later =
    [assertion (\<lambda>db prev. sql_count (is_invited_now s (map fst entries)) (organization_users db) = 0 \<or>
       sql_count (is_invited_now s (map fst entries)) (organization_users db) = length entries \<and>
       sql_count (\<lambda>e. ev_id e \<in> set (map mi_mutation_id (map fst entries))) (audit_events db) = length entries),
     insert_grants (concat (map (\<lambda>g. map (\<lambda>v. granted_row (mi_id v) g) (map fst entries)) grants)) marker,
     when_marked marker (\<lambda>db prev. prev = length grants * length entries),
     revision_statement (sc_organization_id s) now marker,
     when_marked marker (\<lambda>db prev. prev = 1)]"
  have fresh: "\<not> marked marker db" using assms(2) by (simp add: es marker_def)
  have li: "\<forall>t \<in> set later. inert marker t" and lf: "\<forall>t \<in> set later. follows t"
    by (simp_all add: later_def inert follows)
  have split: "invite_statements s ty now grants entries windows =
      insert_invites s ty now grants (map fst entries) windows # audit_statement (audit_row marker e) (\<lambda>db prev. prev = length entries) #
      map (\<lambda>e. audit_statement e (\<lambda>db prev. marked marker db)) (invite_rows rest) @ later"
    by (simp add: invite_statements_def later_def es marker_def Let_def image_image)
  from assms(3) [unfolded split] obtain d1 k1 d2 k2 ms where i: "insert_invites s ty now grants (map fst entries) windows db 0 = Inr (d1, k1)"
    and a: "audit_statement (audit_row marker e) (\<lambda>db prev. prev = length entries) d1 k1 = Inr (d2, k2)"
    and r: "run_stmts (map (\<lambda>e. audit_statement e (\<lambda>db prev. marked marker db)) (invite_rows rest) @ later) d2 k2 = Inr (d, ms)"
    and ns: "ns = k1 # k2 # ms"
    by (auto simp: batch_def run_stmts_Inr)
  from r obtain d3 n3 m3 where r3: "run_stmts (map (\<lambda>e. audit_statement e (\<lambda>db prev. marked marker db)) (invite_rows rest)) d2 k2 = Inr (d3, n3)"
    and r4: "run_stmts later d3 (if n3 = [] then k2 else last n3) = Inr (d, m3)" and ms: "ms = n3 @ m3"
    unfolding run_stmts_append_Inr by blast
  show ?thesis
  proof (cases "may_invite s ty grants (map fst entries) windows db")
    case False
    with i have d1: "d1 = db" "k1 = 0" by (simp_all add: insert_invites_def)
    with a es have d2: "d2 = db" "k2 = 0" by (auto simp: audit_statement_Inr)
    from audits_unmarked [OF fresh, where es = "invite_rows rest"] r3 have "d3 = db" unfolding d2 by blast
    with run_inert [OF li r4] fresh have "d = db" by simp
    with False show ?thesis by (simp add: ns d1)
  next
    case True
    let ?rows = "map (invited_member (sc_organization_id s) ty now) (map fst entries)"
    from i True have d1: "d1 = organization_users_update (\<lambda>t. t @ ?rows) db" "k1 = length entries"
        and u: "members_unique (organization_users db @ ?rows)"
      by (auto simp: insert_invites_def Let_def simp del: map_map split: if_splits)
    from a d1 have d2: "d2 = audit_events_update (\<lambda>t. t @ [audit_row marker e]) d1" "k2 = 1"
      by (auto simp: audit_statement_Inr)
    have "marked marker d2" by (simp add: d2 marked_def sql_exists_iff)
    from audits_marked [OF this r3] have d3: "d3 = audit_events_update (\<lambda>t. t @ invite_rows rest) d2"
      "n3 = replicate (length rest) 1" by simp_all
    have k: "kept d3 d" by (rule run_follows [OF lf r4])
    then have "organization_users d = organization_users db @ ?rows" "audit_events d = audit_events db @ invite_rows entries"
      by (simp_all add: kept_def d3 d2 d1 es marker_def)
    moreover have "authority_view d = authority_view db" using k by (simp add: kept_def d3 d2 d1 authority_view_def)
    moreover have "take (length entries) (drop 1 ns) = replicate (length entries) 1"
      by (simp add: ns d2(2) ms d3(2) es)
    ultimately show ?thesis using True u by (simp add: ns d1(2))
  qed
qed

lemma invites_effect:
  assumes fresh: "entries \<noteq> [] \<Longrightarrow> \<not> marked (mi_mutation_id (fst (hd entries))) db"
    and run: "insert_organization_member_invites s ty now grants entries db = (db', a)"
  shows "db' = db \<and> a \<noteq> Inr InvitationDone \<or>
    a = Inr InvitationDone \<and> authority_view db' = authority_view db \<and> audit_events db' = audit_events db @ invite_rows entries \<and>
    entries \<noteq> [] \<and> (\<exists>windows. may_invite s ty grants (map fst entries) windows db) \<and> members_unique (organization_users db') \<and>
    organization_users db' = organization_users db @ map (invited_member (sc_organization_id s) ty now) (map fst entries)"
proof (cases "length entries < 1 \<or> 20 < length entries")
  case True
  with run show ?thesis by (auto simp: insert_organization_member_invites_def throw_def)
next
  case False
  then have ne: "entries \<noteq> []" by auto
  note defs = insert_organization_member_invites_def repo_bind_def repo_lift_def repo_get_def with_batch_def return_value_def throw_def
  show ?thesis
  proof (cases "invitation_windows now")
    case (Inl e)
    with False run show ?thesis by (auto simp: defs split: if_splits)
  next
    case (Inr windows)
    show ?thesis
    proof (cases "batch (invite_statements s ty now grants entries windows) db")
      case (Inl e)
      with False run \<open>invitation_windows now = Inr windows\<close> show ?thesis by (auto simp: defs split: if_splits)
    next
      case b: (Inr r)
      obtain d ns where b: "batch (invite_statements s ty now grants entries windows) db = Inr (d, ns)" using b by (cases r) simp
      note out = invites_run [OF ne fresh [OF ne] b]
      show ?thesis
      proof (cases "may_invite s ty grants (map fst entries) windows db")
        case True
        with out have ns: "ns ! 0 = length entries" "take (length entries) (drop 1 ns) = replicate (length entries) 1" by simp_all
        have "\<not> list_ex (\<lambda>n. n \<noteq> (1::nat)) (replicate (length entries) 1)" by (auto simp: list_ex_iff)
        with False run Inr b ns have "db' = d \<and> a = Inr InvitationDone" by (auto simp: defs split: if_splits)
        moreover have "\<exists>windows. may_invite s ty grants (map fst entries) windows db" using True by blast
        ultimately show ?thesis using out True ne by force
      next
        case no: False
        with out have ns: "ns ! 0 = 0" "d = db" by simp_all
        with False run Inr b ne show ?thesis by (auto simp: defs split: if_splits)
      qed
    qed
  qed
qed

end
