(* ===== verification/MembershipRequests.thy ===== *)
theory MembershipRequests
  imports MembershipProofs
begin

text \<open>
  A request of the membership routes as at most one transition of one member, or as a list of invited members: who may ask for it,
  what the row becomes and which audit rows are added.
\<close>

section \<open>Transitions of a member\<close>

definition stamped :: "membership_site \<Rightarrow> organization_user_row \<Rightarrow> organization_user_row" where
  "stamped site m = m\<lparr>ou_updated_at := ms_now site, ou_last_membership_mutation_id := Some (ms_mutation_id site)\<rparr>"

inductive member_transition :: "membership_site \<Rightarrow> database \<Rightarrow> organization_user_row \<Rightarrow> organization_user_row option \<Rightarrow> bool" for site db m where
  accepts: "build_organization_membership_invite_token_hash (ms_hmac site) (ms_invite_secret site) (ms_organization_id site)
        (ms_membership_id site) (mact_email_normalized (ms_actor site)) token = Inr hash \<Longrightarrow>
    acceptable_member (site_scope site) (mact_email_normalized (ms_actor site)) hash (ms_now site) db m \<Longrightarrow>
    member_transition site db m (Some (stamped site (accepted_member (mact_user_id (ms_actor site)) m)))"
| confirms: "confirmable_member (site_scope site) db m \<Longrightarrow>
    member_transition site db m (Some (stamped site (m\<lparr>ou_status := 2, ou_org_key := Some key\<rparr>)))"
| updates: "updatable_member (site_scope site) ty grants db m \<Longrightarrow> ty \<in> {0, 1, 2} \<Longrightarrow>
    member_transition site db m (Some (stamped site (m\<lparr>ou_type := ty, ou_permissions := None\<rparr>)))"
| revokes: "ou_status m \<in> {0, 1, 2} \<Longrightarrow> manages_member (site_scope site) db m \<Longrightarrow> not_last_owner db m \<Longrightarrow>
    member_transition site db m (Some (stamped site (revoked_member m)))"
| removes: "manages_member (site_scope site) db m \<Longrightarrow> not_last_owner db m \<Longrightarrow> member_transition site db m None"
| reinvites: "reinvitable_member (site_scope site) email windows since db m \<Longrightarrow>
    member_transition site db m (Some (stamped site (reinvited_member hash expires_at m)))"

inductive_cases member_transition_cases: "member_transition site db m new"

lemma transition_key:
  "member_transition site db m (Some m') \<Longrightarrow> ou_id m' = ou_id m \<and> ou_organization_id m' = ou_organization_id m \<and> ou_email m' = ou_email m"
  by (erule member_transition.cases) (auto simp: stamped_def accepted_member_def revoked_member_def reinvited_member_def)

section \<open>Effects of a request\<close>

definition request_audit :: "membership_site \<Rightarrow> string \<Rightarrow> audit_event_row \<Rightarrow> bool" where
  "request_audit site membership e \<longleftrightarrow>
     (\<exists>aid name context. e = audit_row aid (membership_audit site name membership context))"

definition one_member_changed :: "membership_site \<Rightarrow> database \<Rightarrow> database \<Rightarrow> bool" where
  "one_member_changed site db db' \<longleftrightarrow>
     authority_view db' = authority_view db \<and>
     (\<exists>e. request_audit site (ms_membership_id site) e \<and> audit_events db' = audit_events db @ [e]) \<and>
     (\<exists>m \<in> set (organization_users db). \<exists>new. member_at (ms_membership_id site) (ms_organization_id site) m \<and>
        member_transition site db m new \<and> organization_users db' = replaced m new (organization_users db))"

definition members_invited :: "membership_site \<Rightarrow> database \<Rightarrow> database \<Rightarrow> bool" where
  "members_invited site db db' \<longleftrightarrow>
     authority_view db' = authority_view db \<and> members_unique (organization_users db') \<and>
     (\<exists>ty invites es. ty \<in> {0, 1, 2} \<and> invites \<noteq> [] \<and>
        acts_in_organization (site_scope site) (\<lambda>a. ou_type a = 0 \<or> ou_type a = 1 \<and> ty = 2) db \<and>
        organization_users db' = organization_users db @ map (invited_member (ms_organization_id site) ty (ms_now site)) invites \<and>
        audit_events db' = audit_events db @ es \<and> list_all2 (\<lambda>v e. request_audit site (mi_id v) e) invites es)"

definition performed :: "js_error + membership_result \<Rightarrow> bool" where
  "performed a \<longleftrightarrow> (case a of Inr MemberDone \<Rightarrow> True | Inr (DeliveryUnavailable ids) \<Rightarrow> True | _ \<Rightarrow> False)"

definition request_effect :: "membership_site \<Rightarrow> database \<Rightarrow> database \<Rightarrow> js_error + membership_result \<Rightarrow> bool" where
  "request_effect site db db' a \<longleftrightarrow>
     \<not> performed a \<and> db' = db \<or> performed a \<and> (one_member_changed site db db' \<or> members_invited site db db')"

definition fresh_request :: "membership_site \<Rightarrow> database \<Rightarrow> bool" where
  "fresh_request site db \<longleftrightarrow> \<not> marked (ms_mutation_id site) db \<and> (\<forall>d \<in> set (ms_drawn site). \<not> marked (di_mutation_id d) db)"

lemma request_audit_intro: "request_audit site membership (audit_row aid (membership_audit site name membership ctx))"
  by (auto simp: request_audit_def)

lemma performed_simps [simp]:
  "\<not> performed (Inl e)" "performed (Inr MemberDone)" "performed (Inr (DeliveryUnavailable ids))" "\<not> performed (Inr MemberNotFound)"
  "\<not> performed (Inr MemberConflict)" "\<not> performed (Inr MemberRateLimited)" "\<not> performed (Inr (MemberRefused r))"
  "\<not> performed (Inr (MemberListed ms))" "\<not> performed (Inr (MemberShown m))" "\<not> performed (Inr (MemberKey u k))"
  "\<not> performed (Inr (MemberKeys ks))"
  by (simp_all add: performed_def)

lemma quiet_request: "\<not> performed a \<Longrightarrow> request_effect site db db a"
  by (simp add: request_effect_def)

section \<open>Requests for one member\<close>

lemma site_scope_simps [simp]:
  "sc_organization_id (site_scope site) = ms_organization_id site" "sc_actor_user_id (site_scope site) = mact_user_id (ms_actor site)"
  "mm_scope (site_mutation site name context) = site_scope site" "mm_membership_id (site_mutation site name context) = ms_membership_id site"
  "mm_now (site_mutation site name context) = ms_now site" "mm_mutation_id (site_mutation site name context) = ms_mutation_id site"
  "mm_audit_event (site_mutation site name context) = membership_audit site name (ms_membership_id site) context"
  by (simp_all add: site_scope_def site_mutation_def)

lemma mutation_changes_one:
  assumes "distinct (map ou_id (organization_users db))" "\<not> marked (ms_mutation_id site) db"
    and "\<And>m. member_at (ms_membership_id site) (ms_organization_id site) (effect m) = member_at (ms_membership_id site) (ms_organization_id site) m"
    and "\<And>m. guard db m \<Longrightarrow> member_transition site db m (if remove then None else Some (stamped site (effect m)))"
    and "run_membership_mutation (update_members guard effect (site_mutation site name context)) (site_mutation site name context) grants
      remove clear db = (db', a)"
  shows "db' = db \<and> a \<noteq> Inr True \<or> a = Inr True \<and> one_member_changed site db db'"
proof -
  let ?i = "site_mutation site name context"
  have audit: "request_audit site (ms_membership_id site) (mutation_audit ?i)" by (auto simp: request_audit_def)
  from mutation_effect [where i = ?i, OF assms(1) _ _ assms(5)] assms(2,3)
  consider "db' = db \<and> a \<noteq> Inr True"
    | m where "a = Inr True" "authority_view db' = authority_view db" "audit_events db' = audit_events db @ [mutation_audit ?i]"
      "m \<in> set (organization_users db)" "member_at (ms_membership_id site) (ms_organization_id site) m" "guard db m"
      "organization_users db' = replaced m (if remove then None else Some (stamped site (effect m))) (organization_users db)"
    by (auto simp: stamped_def)
  then show ?thesis
  proof cases
    case 2
    with audit assms(4) [OF 2(6)] show ?thesis unfolding one_member_changed_def by blast
  qed simp
qed

lemma done_effect:
  assumes "m db = (d, x)" "d = db \<and> x \<noteq> Inr True \<or> x = Inr True \<and> one_member_changed site db d" "done_or_not_found m db = (db', a)"
  shows "request_effect site db db' a"
  using assms by (cases x) (auto simp: done_or_not_found_def repo_bind_def return_value_def request_effect_def split: if_splits)

lemmas one_defs = member_at_def accepted_member_def revoked_member_def reinvited_member_def

lemma accept_effect:
  assumes "distinct (map ou_id (organization_users db))" "fresh_request site db" "accept_member site body db = (db', a)"
  shows "request_effect site db db' a"
proof (cases "parse_organization_membership_accept_request body")
  case (Inl e)
  with assms(3) show ?thesis by (auto simp: accept_member_def return_value_def intro: quiet_request)
next
  case token: (Inr token)
  show ?thesis
  proof (cases "build_organization_membership_invite_token_hash (ms_hmac site) (ms_invite_secret site) (ms_organization_id site)
      (ms_membership_id site) (mact_email_normalized (ms_actor site)) token")
    case (Inl e)
    with assms(3) token show ?thesis by (auto simp: accept_member_def repo_bind_def repo_lift_def intro: quiet_request)
  next
    case (Inr hash)
    let ?m = "accept_organization_member_invite
      (site_mutation site ''organization.member.accept'' [(''fromStatus'', jint 0), (''toStatus'', jint 1)])
      (mact_email_normalized (ms_actor site)) hash"
    obtain d x where m: "?m db = (d, x)" by fastforce
    have "d = db \<and> x \<noteq> Inr True \<or> x = Inr True \<and> one_member_changed site db d"
      using m unfolding accept_organization_member_invite_def
      by (rule mutation_changes_one [OF assms(1), rotated -1])
        (use assms(2) Inr in \<open>auto simp: fresh_request_def one_defs intro: accepts [unfolded one_defs]\<close>)
    from done_effect [where m = ?m and a = a and db' = db', OF m this] assms(3) token Inr show ?thesis
      by (simp add: accept_member_def repo_bind_def repo_lift_def)
  qed
qed

lemma confirm_effect:
  assumes "distinct (map ou_id (organization_users db))" "fresh_request site db" "confirm_member site body db = (db', a)"
  shows "request_effect site db db' a"
proof (cases "parse_organization_membership_confirm_request body")
  case (Inl e)
  with assms(3) show ?thesis by (auto simp: confirm_member_def return_value_def intro: quiet_request)
next
  case key: (Inr key)
  let ?m = "confirm_organization_member (site_mutation site ''organization.member.confirm'' [(''fromStatus'', jint 1), (''toStatus'', jint 2)]) key"
  obtain d x where m: "?m db = (d, x)" by fastforce
  have "d = db \<and> x \<noteq> Inr True \<or> x = Inr True \<and> one_member_changed site db d"
    using m unfolding confirm_organization_member_def
    by (rule mutation_changes_one [OF assms(1), rotated -1]) (use assms(2) in \<open>auto simp: fresh_request_def one_defs intro: confirms\<close>)
  from done_effect [where m = ?m and a = a and db' = db', OF m this] assms(3) key show ?thesis by (simp add: confirm_member_def)
qed

lemma parsed_type: "parse_authority fs = Inr q \<Longrightarrow> hq_type q \<in> {0, 1, 2}"
  by (auto simp: parse_authority_def and_then_Inr_iff split: if_splits sum.splits option.splits)

lemma update_effect:
  assumes "distinct (map ou_id (organization_users db))" "fresh_request site db" "update_member site body db = (db', a)"
  shows "request_effect site db db' a"
proof (cases "parse_organization_membership_update_request body")
  case (Inl e)
  with assms(3) show ?thesis by (auto simp: update_member_def return_value_def intro: quiet_request)
next
  case q: (Inr q)
  then have ty: "hq_type q \<in> {0, 1, 2}"
    using parsed_type by (auto simp: parse_organization_membership_update_request_def split: option.splits if_splits)
  let ?m = "update_organization_member (site_mutation site ''organization.member.update''
    [(''type'', jint (hq_type q)), (''assignmentCount'', jint (int (length (hq_collections q))))]) (hq_type q) (hq_collections q)"
  obtain d x where m: "?m db = (d, x)" by fastforce
  have "d = db \<and> x \<noteq> Inr True \<or> x = Inr True \<and> one_member_changed site db d"
    using m unfolding update_organization_member_def
    by (rule mutation_changes_one [OF assms(1), rotated -1]) (use assms(2) ty in \<open>auto simp: fresh_request_def one_defs intro: updates\<close>)
  from done_effect [where m = ?m and a = a and db' = db', OF m this] assms(3) q show ?thesis by (simp add: update_member_def)
qed

lemma revoke_effect:
  assumes "distinct (map ou_id (organization_users db))" "fresh_request site db" "revoke_member site db = (db', a)"
  shows "request_effect site db db' a"
proof -
  let ?m = "revoke_organization_member (site_mutation site ''organization.member.revoke'' [(''toStatus'', jint (-1))])"
  obtain d x where m: "?m db = (d, x)" by fastforce
  have "d = db \<and> x \<noteq> Inr True \<or> x = Inr True \<and> one_member_changed site db d"
    using m unfolding revoke_organization_member_def
    by (rule mutation_changes_one [OF assms(1), rotated -1])
      (use assms(2) in \<open>auto simp: fresh_request_def member_at_def revoked_member_def intro: revokes [unfolded revoked_member_def]\<close>)
  from done_effect [where m = ?m and a = a and db' = db', OF m this] assms(3) show ?thesis by (simp add: revoke_member_def)
qed

lemma remove_effect:
  assumes "distinct (map ou_id (organization_users db))" "fresh_request site db" "remove_member site db = (db', a)"
  shows "request_effect site db db' a"
proof -
  let ?m = "remove_organization_member (site_mutation site ''organization.member.remove'' [])"
  obtain d x where m: "?m db = (d, x)" by fastforce
  have "d = db \<and> x \<noteq> Inr True \<or> x = Inr True \<and> one_member_changed site db d"
    using m unfolding remove_organization_member_def
    by (rule mutation_changes_one [OF assms(1), rotated -1])
      (use assms(2) in \<open>auto simp: fresh_request_def one_defs intro: removes\<close>)
  from done_effect [where m = ?m and a = a and db' = db', OF m this] assms(3) show ?thesis by (simp add: remove_member_def)
qed

lemma bind_lift: "repo_bind (repo_lift v) f db = (case v of Inl e \<Rightarrow> (db, Inl e) | Inr y \<Rightarrow> f y db)"
  by (simp add: repo_bind_def repo_lift_def split: sum.splits)

lemma bind_get: "repo_bind (repo_get g) f db = f (g db) db"
  by (simp add: repo_bind_def repo_get_def)

lemma bind_run: "m db = (d, x) \<Longrightarrow> repo_bind m f db = (case x of Inl e \<Rightarrow> (d, Inl e) | Inr y \<Rightarrow> f y d)"
  by (simp add: repo_bind_def)

lemma delivery_effect:
  assumes "m db = (d, x)"
    and "d = db \<and> x \<noteq> Inr InvitationDone \<or> x = Inr InvitationDone \<and> (one_member_changed site db d \<or> members_invited site db d)"
    and "repo_bind m (\<lambda>r. return_value (if r \<noteq> InvitationDone then invitation_result r else if delivered then MemberDone
           else DeliveryUnavailable ids)) db = (db', a)"
  shows "request_effect site db db' a"
proof (cases x)
  case (Inl e)
  with assms show ?thesis by (auto simp: bind_run intro: quiet_request)
next
  case (Inr r)
  with assms show ?thesis
    by (cases r) (auto simp: bind_run return_value_def invitation_result_def request_effect_def split: if_splits)
qed

lemma reinvited:
  assumes "distinct (map ou_id (organization_users db))" "fresh_request site db"
    and "reinvite_organization_member (site_mutation site name ctx) email hash expires_at db = (d, x)"
  shows "d = db \<and> x \<noteq> Inr InvitationDone \<or> x = Inr InvitationDone \<and> one_member_changed site db d"
proof (cases "invitation_windows (ms_now site)")
  case (Inl e)
  with assms(3) show ?thesis by (auto simp: reinvite_organization_member_def bind_lift)
next
  case windows: (Inr windows)
  show ?thesis
  proof (cases "iso_shift (ms_now site) (- reinvite_cooldown_seconds)")
    case (Inl e)
    with assms(3) windows show ?thesis by (auto simp: reinvite_organization_member_def bind_lift)
  next
    case since: (Inr since)
    let ?m = "run_membership_mutation (update_members (reinvitable_member (site_scope site) email windows since)
      (reinvited_member hash expires_at) (site_mutation site name ctx)) (site_mutation site name ctx) None False False"
    obtain y z where run: "?m db = (y, z)" by fastforce
    have "y = db \<and> z \<noteq> Inr True \<or> z = Inr True \<and> one_member_changed site db y"
      by (rule mutation_changes_one [OF assms(1) _ _ _ run])
        (use assms(2) in \<open>auto simp: fresh_request_def one_defs intro: reinvites [unfolded reinvited_member_def]\<close>)
    with assms(3) windows since run show ?thesis
      by (cases z) (auto simp: reinvite_organization_member_def bind_lift bind_get bind_run return_value_def split: if_splits)
  qed
qed

lemma reinvite_effect:
  assumes "distinct (map ou_id (organization_users db))" "fresh_request site db" "reinvite_member site db = (db', a)"
  shows "request_effect site db db' a"
proof (cases "find_organization_member_for_actor (site_scope site) (ms_membership_id site) False db")
  case None
  with assms(3) show ?thesis by (auto simp: reinvite_member_def bind_get return_value_def intro: quiet_request)
next
  case m: (Some m)
  let ?token = "generate_organization_membership_invite_token (ms_entropy site)"
  show ?thesis
  proof (cases "mr_status m = 0")
    case False
    with assms(3) m show ?thesis by (auto simp: reinvite_member_def bind_get return_value_def intro: quiet_request)
  next
    case pending: True
    show ?thesis
    proof (cases "organization_membership_invite_expires_at (ms_now site)")
      case (Inl e)
      with assms(3) m pending show ?thesis by (auto simp: reinvite_member_def bind_get bind_lift Let_def intro: quiet_request)
    next
      case expires: (Inr expires_at)
      show ?thesis
      proof (cases "build_organization_membership_invite_token_hash (ms_hmac site) (ms_invite_secret site) (ms_organization_id site)
          (ms_membership_id site) (mr_email m) ?token")
        case (Inl e)
        with assms(3) m pending expires show ?thesis by (auto simp: reinvite_member_def bind_get bind_lift Let_def intro: quiet_request)
      next
        case hash: (Inr hash)
        let ?m = "reinvite_organization_member (site_mutation site ''organization.member.reinvite'' [(''toStatus'', jint 0)]) (mr_email m) hash expires_at"
        obtain d x where run: "?m db = (d, x)" by fastforce
        from reinvited [OF assms(1,2) run]
        have "d = db \<and> x \<noteq> Inr InvitationDone \<or> x = Inr InvitationDone \<and> (one_member_changed site db d \<or> members_invited site db d)" by blast
        from delivery_effect [where m = ?m, OF run this] assms(3) m pending expires hash show ?thesis
          by (simp add: reinvite_member_def bind_get bind_lift Let_def)
      qed
    qed
  qed
qed

section \<open>Inviting\<close>

lemma prepared_entries:
  "prepared_invites site expires_at ty drawn = Inr entries \<Longrightarrow>
     list_all2 (\<lambda>(v, e) (email, d). mi_mutation_id v = di_mutation_id d \<and>
       request_audit site (mi_id v) (audit_row (mi_mutation_id v) e)) entries drawn"
proof (induction drawn arbitrary: entries)
  case (Cons x drawn)
  obtain email d where x: "x = (email, d)" by (cases x)
  with Cons show ?case by (auto simp: and_then_Inr_iff intro: request_audit_intro)
qed simp

lemma parsed_invite_authority:
  assumes "parse_organization_membership_invite_request body = Inr (emails, q)" "normalize_protocol_object body = Some fs"
  shows "\<exists>e. parse_authority fs = Inr e \<and> q = e"
  using assms unfolding parse_organization_membership_invite_request_def
  apply (simp only: option.case)
  apply (cases "has_only_fields fs (authority_fields @ [''emails''])")
   apply (simp only: if_False not_True_eq_False simp_thms and_then_Inr_iff)
   apply (erule exE conjE)+
   apply (cases "jprop fs ''emails''")
    apply (simp only: option.case sum.distinct)
  subgoal for x v
    by (cases v) (simp_all split: if_split_asm option.split_asm)
  apply (simp only: if_True not_False_eq_True sum.distinct)
  done

lemma parsed_invite_type:
  assumes "parse_organization_membership_invite_request body = Inr (emails, q)"
  shows "hq_type q \<in> {0, 1, 2}"
proof -
  from assms obtain fs where "normalize_protocol_object body = Some fs"
    by (cases "normalize_protocol_object body") (simp_all add: parse_organization_membership_invite_request_def)
  with parsed_invite_authority [OF assms] parsed_type show ?thesis by blast
qed

lemma invite_effect:
  assumes "fresh_request site db" "invite_organization_members site body db = (db', a)"
  shows "request_effect site db db' a"
proof (cases "parse_organization_membership_invite_request body")
  case (Inl e)
  with assms(2) show ?thesis by (auto simp: invite_organization_members_def return_value_def intro: quiet_request)
next
  case (Inr r)
  obtain emails q where q: "parse_organization_membership_invite_request body = Inr (emails, q)" using Inr by (cases r) simp
  let ?drawn = "zip emails (ms_drawn site)"
  show ?thesis
  proof (cases "and_then (organization_membership_invite_expires_at (ms_now site)) (\<lambda>x. prepared_invites site x (hq_type q) ?drawn)")
    case (Inl e)
    with assms(2) q show ?thesis
      by (auto simp: invite_organization_members_def repo_bind_def repo_lift_def Let_def and_then_Inl_iff split: sum.splits intro: quiet_request)
  next
    case (Inr entries)
    then obtain expires_at where ex: "organization_membership_invite_expires_at (ms_now site) = Inr expires_at"
      and es: "prepared_invites site expires_at (hq_type q) ?drawn = Inr entries" by (auto simp: and_then_Inr_iff)
    note prepared = prepared_entries [OF es]
    obtain d x where run: "insert_organization_member_invites (site_scope site) (hq_type q) (ms_now site) (hq_collections q) entries db = (d, x)"
      by fastforce
    have fresh: "\<not> marked (mi_mutation_id (fst (hd entries))) db" if "entries \<noteq> []"
    proof -
      from prepared that obtain v e rest email dr dres where "entries = (v, e) # rest" "?drawn = (email, dr) # dres" "mi_mutation_id v = di_mutation_id dr"
        by (cases entries; cases ?drawn) auto
      moreover from this have "dr \<in> set (ms_drawn site)" by (metis list.set_intros(1) set_zip_rightD)
      ultimately show ?thesis using assms(1) by (simp add: fresh_request_def)
    qed
    consider "d = db" "x \<noteq> Inr InvitationDone" | windows where "x = Inr InvitationDone" "authority_view d = authority_view db"
        "audit_events d = audit_events db @ invite_rows entries" "entries \<noteq> []"
        "may_invite (site_scope site) (hq_type q) (hq_collections q) (map fst entries) windows db" "members_unique (organization_users d)"
        "organization_users d = organization_users db @
          map (invited_member (sc_organization_id (site_scope site)) (hq_type q) (ms_now site)) (map fst entries)"
      using invites_effect [OF fresh run] by blast
    then have "d = db \<and> x \<noteq> Inr InvitationDone \<or> x = Inr InvitationDone \<and> (one_member_changed site db d \<or> members_invited site db d)"
    proof cases
      case h: 2
      have "list_all2 (\<lambda>v e. request_audit site (mi_id v) e) (map fst entries) (invite_rows entries)"
        using prepared by (auto simp: list_all2_conv_all_nth split: prod.splits)
      moreover have "acts_in_organization (site_scope site) (\<lambda>a. ou_type a = 0 \<or> ou_type a = 1 \<and> hq_type q = 2) db"
        using h(5) by (simp add: may_invite_def)
      ultimately have "members_invited site db d"
        unfolding members_invited_def using h parsed_invite_type [OF q]
        by (intro conjI exI [of _ "hq_type q"] exI [of _ "map fst entries"] exI [of _ "invite_rows entries"]) simp_all
      with h(1) show ?thesis by blast
    qed blast
    from delivery_effect [where m = "insert_organization_member_invites (site_scope site) (hq_type q) (ms_now site) (hq_collections q) entries", OF run this]
      assms(2) q ex es show ?thesis
      by (simp add: invite_organization_members_def bind_lift Let_def)
  qed
qed

section \<open>The routes\<close>

lemmas read_defs = list_members_def read_member_def read_organization_user_public_key_def organization_member_public_keys_def

theorem route_effect:
  assumes "distinct (map ou_id (organization_users db))" "fresh_request site db" "membership_route site op db = (db', a)"
  shows "request_effect site db db' a"
proof (cases "ids_valid site op")
  case False
  with assms(3) show ?thesis by (auto simp: membership_route_def return_value_def intro: quiet_request)
next
  case True
  have reads: "list_members site b c db = (db', a) \<Longrightarrow> request_effect site db db' a"
    "read_member site b db = (db', a) \<Longrightarrow> request_effect site db db' a"
    "read_organization_user_public_key site uid db = (db', a) \<Longrightarrow> request_effect site db db' a"
    "organization_member_public_keys site b' db = (db', a) \<Longrightarrow> request_effect site db db' a" for b c uid b'
    by (auto simp: read_defs bind_get return_value_def split: option.splits sum.splits intro!: quiet_request)
  have body: "request_effect site db db' a"
    if "with_body b k db = (db', a)" "\<And>x. k x db = (db', a) \<Longrightarrow> request_effect site db db' a" for b k
    using that by (cases b) (auto simp: with_body_def return_value_def intro: quiet_request)
  note effects = accept_effect [OF assms(1,2)] confirm_effect [OF assms(1,2)] update_effect [OF assms(1,2)]
    revoke_effect [OF assms(1,2)] remove_effect [OF assms(1,2)] reinvite_effect [OF assms(1,2)] invite_effect [OF assms(2)] reads
  show ?thesis
    using assms(3) True by (cases op) (auto simp: membership_route_def return_value_def split: if_splits intro: body effects quiet_request)
qed

end
