(* ===== verification/OrganizationPolicies.thy ===== *)
theory OrganizationPolicies
  imports MemberOperations
begin

text \<open>
  The policy of an organisation that asks for two-step login: \<open>src/domain/organization-policy.ts\<close>,
  \<open>src/repositories/organization-policy-repository.ts\<close>, \<open>src/organization-policy.ts\<close> and the routes of
  \<open>src/organization-policy-routes.ts\<close> past their configuration. An owner turns the policy on or off from a session that
  was verified with the factor of the account; a policy that is off may stay off without. The ids drawn and the clock are arguments; a body that
  is no JSON, is too long or repeats a key is \<open>None\<close>.
\<close>

section \<open>Requests and results\<close>

record policy_record =
  pr_id :: "string option"
  pr_organization_id :: string
  pr_enabled :: bool
  pr_revision_date :: "string option"

record policy_impact =
  pi_organization_id :: string
  pi_enabled :: bool
  pi_policy_revision_date :: "string option"
  pi_enrolled_owner_count :: nat
  pi_noncompliant_confirmed_member_count :: nat
  pi_noncompliant_accepted_member_count :: nat

datatype policy_result =
    PolicyShown policy_record
  | PoliciesListed "policy_record list"
  | PolicyImpact policy_impact
  | PolicyInvalid
  | PolicyUnsupported
  | PolicyNotFound
  | PolicyMfaRequired

definition parse_policy_type :: "json option \<Rightarrow> policy_result option" where
  "parse_policy_type v =
     (case v of
        Some (JNum (Finite q)) \<Rightarrow>
          if q \<notin> \<int> \<or> q < 0 \<or> q > 9007199254740991 then Some PolicyInvalid else if q = 0 then None else Some PolicyUnsupported
      | _ \<Rightarrow> Some PolicyInvalid)"

definition parse_policy_data :: "json option \<Rightarrow> policy_result option" where
  "parse_policy_data v =
     (case v of
        None \<Rightarrow> None
      | Some JNull \<Rightarrow> None
      | Some d \<Rightarrow> (case as_record d of None \<Rightarrow> Some PolicyInvalid | Some fs \<Rightarrow> if fs = [] then None else Some PolicyUnsupported))"

definition parse_organization_policy_update_request :: "json \<Rightarrow> json \<Rightarrow> policy_result + bool" where
  "parse_organization_policy_update_request body requested_type =
     (case parse_policy_type (Some requested_type) of
        Some r \<Rightarrow> Inl r
      | None \<Rightarrow>
          (case normalize_protocol_object body of
             None \<Rightarrow> Inl PolicyInvalid
           | Some fs \<Rightarrow>
               if \<not> has_only_fields fs [''type'', ''enabled'', ''data''] then Inl PolicyInvalid
               else (case (if jprop fs ''type'' = None then None else parse_policy_type (jprop fs ''type'')) of
                       Some r \<Rightarrow> Inl r
                     | None \<Rightarrow>
                         (case jprop fs ''enabled'' of
                            Some (JBool b) \<Rightarrow> (case parse_policy_data (jprop fs ''data'') of Some r \<Rightarrow> Inl r | None \<Rightarrow> Inr b)
                          | _ \<Rightarrow> Inl PolicyInvalid))))"

section \<open>Reading\<close>

definition active_actor_session :: "policy_actor \<Rightarrow> database \<Rightarrow> bool" where
  "active_actor_session a db \<longleftrightarrow>
     sql_exists (\<lambda>d. d_user_id d = pa_user_id a \<and> d_identifier d = pa_device_identifier a \<and> d_session_id d = Some (pa_session_id a) \<and>
       d_revoked_at d = None) (devices db)"

definition actor_member :: "policy_actor \<Rightarrow> string \<Rightarrow> organization_user_row \<Rightarrow> bool" where
  "actor_member a org m \<longleftrightarrow>
     ou_organization_id m = org \<and> ou_user_id m = Some (pa_user_id a) \<and> ou_status m \<in> {1, 2} \<and> ou_type m \<in> {0, 1, 2}"

definition present_actor :: "policy_actor \<Rightarrow> string \<Rightarrow> (organization_user_row \<Rightarrow> bool) \<Rightarrow> database \<Rightarrow> bool" where
  "present_actor a org p db \<longleftrightarrow>
     sql_exists (\<lambda>m. actor_member a org m \<and> p m) (organization_users db) \<and> active_user (pa_user_id a) db \<and>
     enabled_organization org db \<and> active_actor_session a db"

definition is_policy_of :: "string \<Rightarrow> organization_policy_row \<Rightarrow> bool" where
  "is_policy_of org p \<longleftrightarrow> op_organization_id p = org \<and> op_type p = 0"

definition policy_from_row :: "organization_policy_row \<Rightarrow> policy_record" where
  "policy_from_row p =
     \<lparr>pr_id = Some (op_id p), pr_organization_id = op_organization_id p, pr_enabled = op_enabled p,
      pr_revision_date = Some (op_revision_date p)\<rparr>"

definition policy_of :: "string \<Rightarrow> database \<Rightarrow> policy_record" where
  "policy_of org db =
     (case sql_first (is_policy_of org) (organization_policies db) of
        None \<Rightarrow> \<lparr>pr_id = None, pr_organization_id = org, pr_enabled = False, pr_revision_date = None\<rparr>
      | Some p \<Rightarrow> policy_from_row p)"

definition read_organization_policy :: "policy_actor \<Rightarrow> string \<Rightarrow> database \<Rightarrow> policy_record option" where
  "read_organization_policy a org db = (if present_actor a org (\<lambda>m. True) db then Some (policy_of org db) else None)"

definition list_organization_policies_for_user :: "string \<Rightarrow> policy_actor \<Rightarrow> database \<Rightarrow> policy_record list" where
  "list_organization_policies_for_user uid a db =
     map policy_from_row (sort_key op_organization_id (filter (\<lambda>p. op_type p = 0 \<and> uid = pa_user_id a \<and>
       present_actor a (op_organization_id p) (\<lambda>m. True) db) (organization_policies db)))"

definition enrolled_recipient :: "database \<Rightarrow> organization_user_row \<Rightarrow> bool" where
  "enrolled_recipient db m \<longleftrightarrow> sql_exists (\<lambda>t. ou_user_id m = Some (tf_user_id t) \<and> enrolled_factor t) (user_totp db)"

definition recipient_count :: "string \<Rightarrow> (organization_user_row \<Rightarrow> bool) \<Rightarrow> database \<Rightarrow> nat" where
  "recipient_count org p db =
     sql_count (\<lambda>m. ou_organization_id m = org \<and> p m \<and> sql_exists (\<lambda>u. ou_user_id m = Some (u_id u) \<and> u_disabled_at u = None) (users db))
       (organization_users db)"

definition read_organization_policy_impact :: "policy_actor \<Rightarrow> string \<Rightarrow> database \<Rightarrow> policy_impact option" where
  "read_organization_policy_impact a org db =
     (if \<not> present_actor a org (\<lambda>m. ou_status m = 2 \<and> ou_type m \<in> {0, 1}) db then None
      else Some \<lparr>pi_organization_id = org, pi_enabled = pr_enabled (policy_of org db),
        pi_policy_revision_date = pr_revision_date (policy_of org db),
        pi_enrolled_owner_count = recipient_count org (\<lambda>m. ou_status m = 2 \<and> ou_type m = 0 \<and> enrolled_recipient db m) db,
        pi_noncompliant_confirmed_member_count =
          recipient_count org (\<lambda>m. ou_status m = 2 \<and> ou_type m \<in> {0, 1, 2} \<and> \<not> enrolled_recipient db m) db,
        pi_noncompliant_accepted_member_count =
          recipient_count org (\<lambda>m. ou_status m = 1 \<and> ou_type m \<in> {0, 1, 2} \<and> \<not> enrolled_recipient db m) db\<rparr>)"

section \<open>Updating\<close>

record policy_update =
  pu_organization_id :: string
  pu_actor :: policy_actor
  pu_enabled :: bool
  pu_now :: string
  pu_request_id :: string
  pu_audit_id :: string
  pu_policy_id :: string

definition policy_owner :: "policy_update \<Rightarrow> database \<Rightarrow> bool" where
  "policy_owner i db \<longleftrightarrow> present_actor (pu_actor i) (pu_organization_id i) (\<lambda>m. ou_status m = 2 \<and> ou_type m = 0) db"

definition actor_mfa :: "policy_actor \<Rightarrow> database \<Rightarrow> bool" where
  "actor_mfa a db \<longleftrightarrow> organization_session_totp_verified (pa_user_id a) (Some (pa_session_id a)) (Some (pa_device_identifier a)) db"

definition may_set_policy :: "policy_update \<Rightarrow> database \<Rightarrow> bool" where
  "may_set_policy i db \<longleftrightarrow>
     policy_owner i db \<and>
     (\<not> pu_enabled i \<and> \<not> two_step_policy (pu_organization_id i) db \<or> actor_mfa (pu_actor i) db)"

definition new_policy :: "policy_update \<Rightarrow> organization_policy_row" where
  "new_policy i =
     \<lparr>op_id = pu_policy_id i, op_organization_id = pu_organization_id i, op_type = 0, op_enabled = pu_enabled i,
      op_revision_date = pu_now i, op_last_mutation_id = Some (pu_audit_id i), op_created_at = pu_now i, op_updated_at = pu_now i\<rparr>"

definition overwritten_policy :: "policy_update \<Rightarrow> organization_policy_row \<Rightarrow> organization_policy_row option" where
  "overwritten_policy i p =
     map_option (\<lambda>d. p\<lparr>op_enabled := pu_enabled i, op_revision_date := d, op_updated_at := pu_now i,
         op_last_mutation_id := Some (pu_audit_id i)\<rparr>) (sqlite_next_ms (max (op_revision_date p) (pu_now i)))"

definition upsert_policy :: "policy_update \<Rightarrow> database stmt" where
  "upsert_policy i db prev =
     (if \<not> may_set_policy i db then Inr (db, 0)
      else (case sql_first (is_policy_of (pu_organization_id i)) (organization_policies db) of
              Some p \<Rightarrow>
                (case overwritten_policy i p of
                   None \<Rightarrow> Inl ConstraintError
                 | Some q \<Rightarrow> Inr (organization_policies_update (map (\<lambda>r. if r = p then q else r)) db, 1))
            | None \<Rightarrow>
                if sql_exists (\<lambda>p. op_id p = pu_policy_id i) (organization_policies db) then Inl ConstraintError
                else Inr (organization_policies_update (\<lambda>t. t @ [new_policy i]) db, 1)))"

text \<open>The audit row is written from the stored policy, when the write before it changed one row.\<close>

definition policy_audit :: "policy_update \<Rightarrow> organization_policy_row \<Rightarrow> audit_event_row" where
  "policy_audit i p =
     \<lparr>ev_id = pu_audit_id i, ev_name = ''organization.policy.update'', ev_outcome = ''success'', ev_request_id = pu_request_id i,
      ev_occurred_at = pu_now i, ev_actor_user_id = Some (pa_user_id (pu_actor i)),
      ev_actor_device_identifier = Some (pa_device_identifier (pu_actor i)), ev_target_type = Some ''organization'',
      ev_target_id = Some (pu_organization_id i),
      ev_context_json = Some (json_text (JObj [(''organizationId'', JStr (pu_organization_id i)), (''policyType'', jint 0),
        (''enabled'', JBool (op_enabled p)), (''policyRevision'', JStr (op_revision_date p))]))\<rparr>"

definition policy_audit_statement :: "policy_update \<Rightarrow> database stmt" where
  "policy_audit_statement i db prev =
     (case sql_first (is_policy_of (pu_organization_id i)) (organization_policies db) of
        None \<Rightarrow> Inr (db, 0)
      | Some p \<Rightarrow> audit_statement (policy_audit i p) (\<lambda>db prev. prev = 1) db prev)"

definition advanced_past_policy :: "policy_update \<Rightarrow> database \<Rightarrow> organization_row \<Rightarrow> organization_row option" where
  "advanced_past_policy i db g =
     (case sql_first (is_policy_of (org_id g)) (organization_policies db) of
        None \<Rightarrow> None
      | Some p \<Rightarrow> map_option (\<lambda>d. g\<lparr>org_revision_date := d, org_updated_at := pu_now i\<rparr>)
          (sqlite_next_ms (max (max (org_revision_date g) (pu_now i)) (op_revision_date p))))"

definition member_accounts :: "string \<Rightarrow> database \<Rightarrow> user_row \<Rightarrow> bool" where
  "member_accounts org db u \<longleftrightarrow> sql_exists (\<lambda>m. ou_organization_id m = org \<and> ou_user_id m = Some (u_id u)) (organization_users db)"

definition policy_statements :: "policy_update \<Rightarrow> database stmt list" where
  "policy_statements i =
     [upsert_policy i, policy_audit_statement i,
      assertion (\<lambda>db prev. \<not> sql_exists (\<lambda>p. is_policy_of (pu_organization_id i) p \<and> op_last_mutation_id p = Some (pu_audit_id i))
        (organization_policies db) \<or> marked (pu_audit_id i) db),
      update_not_null organizations organizations_update (\<lambda>db g. org_id g = pu_organization_id i \<and> marked (pu_audit_id i) db)
        (advanced_past_policy i),
      users_revision_statement (member_accounts (pu_organization_id i)) (pu_now i) (pu_audit_id i)]"

definition update_organization_policy_row :: "policy_update \<Rightarrow> policy_result repo" where
  "update_organization_policy_row i =
     with_batch (policy_statements i) (\<lambda>ns.
       if ns ! 0 = 1
       then repo_bind (repo_get (\<lambda>db. if marked (pu_audit_id i) db
                then sql_first (is_policy_of (pu_organization_id i)) (organization_policies db) else None)) (\<lambda>row.
              case row of
                None \<Rightarrow> throw (JsError ''Organization policy audit or revision invariant failed.'')
              | Some p \<Rightarrow>
                  if ns ! 1 \<noteq> 1 \<or> ns ! 3 \<noteq> 1 then throw (JsError ''Organization policy audit or revision invariant failed.'')
                  else return_value (PolicyShown (policy_from_row p)))
       else if ns ! 0 \<noteq> 0 \<or> ns ! 1 \<noteq> 0 then throw (JsError ''Organization policy mutation affected an invalid row count.'')
       else repo_bind (repo_get (policy_owner i)) (\<lambda>owner. return_value (if owner then PolicyMfaRequired else PolicyNotFound)))"

section \<open>Operations and routes\<close>

record policy_site =
  ps_actor :: policy_actor
  ps_organization_id :: string
  ps_type :: "string option"
  ps_query :: bool
  ps_now :: string
  ps_request_id :: string
  ps_audit_id :: string
  ps_policy_id :: string

datatype policy_operation = ListPolicies | ReadPolicy | ReadImpact | UpdatePolicy "json option"

definition shown_policy :: "('a \<Rightarrow> policy_result) \<Rightarrow> 'a option \<Rightarrow> policy_result" where
  "shown_policy f r = (case r of None \<Rightarrow> PolicyNotFound | Some x \<Rightarrow> f x)"

definition update_organization_policy :: "policy_site \<Rightarrow> json \<Rightarrow> policy_result repo" where
  "update_organization_policy site body =
     (case parse_organization_policy_update_request body (jint 0) of
        Inl r \<Rightarrow> return_value r
      | Inr enabled \<Rightarrow> update_organization_policy_row
          \<lparr>pu_organization_id = ps_organization_id site, pu_actor = ps_actor site, pu_enabled = enabled, pu_now = ps_now site,
           pu_request_id = ps_request_id site, pu_audit_id = ps_audit_id site, pu_policy_id = ps_policy_id site\<rparr>)"

text \<open>The type of the path: decimal digits without a leading zero, a safe integer.\<close>

definition path_policy_type :: "string option \<Rightarrow> policy_result option" where
  "path_policy_type raw =
     (case raw of
        None \<Rightarrow> None
      | Some s \<Rightarrow>
          if s = [] \<or> \<not> list_all is_digit s \<or> (hd s = CHR ''0'' \<and> s \<noteq> ''0'') \<or> 9007199254740991 < digits_value s then Some PolicyInvalid
          else if digits_value s \<noteq> 0 then Some PolicyUnsupported else None)"

definition organization_policy_route :: "policy_site \<Rightarrow> policy_operation \<Rightarrow> policy_result repo" where
  "organization_policy_route site op =
     (if member_identifier (Some (JStr (ps_organization_id site))) = None \<or> ps_query site then return_value PolicyInvalid
      else (case path_policy_type (ps_type site) of
              Some r \<Rightarrow> return_value r
            | None \<Rightarrow>
                (case op of
                   ListPolicies \<Rightarrow> repo_bind (repo_get (read_organization_policy (ps_actor site) (ps_organization_id site)))
                     (\<lambda>r. return_value (shown_policy (\<lambda>p. PoliciesListed [p]) r))
                 | ReadPolicy \<Rightarrow> repo_bind (repo_get (read_organization_policy (ps_actor site) (ps_organization_id site)))
                     (\<lambda>r. return_value (shown_policy PolicyShown r))
                 | ReadImpact \<Rightarrow> repo_bind (repo_get (read_organization_policy_impact (ps_actor site) (ps_organization_id site)))
                     (\<lambda>r. return_value (shown_policy PolicyImpact r))
                 | UpdatePolicy None \<Rightarrow> return_value PolicyInvalid
                 | UpdatePolicy (Some body) \<Rightarrow> update_organization_policy site body)))"

end
