(* ===== verification/OrganizationGroups.thy ===== *)
theory OrganizationGroups
  imports MemberOperations
begin

text \<open>
  Groups of an organisation: \<open>src/domain/organization-groups.ts\<close>, \<open>src/repositories/organization-groups-repository.ts\<close>,
  \<open>src/organization-groups.ts\<close> and the routes of \<open>src/organization-groups-routes.ts\<close> past their configuration. A group links members to
  collections; a write replaces its links in one audited batch. The ids drawn and the clock are arguments.
\<close>

section \<open>Requests\<close>

definition max_group_name_length :: nat where "max_group_name_length = 100"
definition max_group_collections :: nat where "max_group_collections = 100"
definition max_group_members :: nat where "max_group_members = 100"

record group_write =
  gw_name :: string
  gw_collections :: "collection_grant_request list"
  gw_users :: "string list"

record group_record =
  gr_id :: string
  gr_organization_id :: string
  gr_name :: string
  gr_revision_date :: string
  gr_collections :: "collection_grant_request list"
  gr_users :: "string list"

definition is_group_name :: "string \<Rightarrow> bool" where
  "is_group_name s \<longleftrightarrow>
     \<not> list_all js_is_space s \<and> length s \<le> max_group_name_length \<and>
     \<not> list_ex is_control s"

definition parse_group_users :: "json list \<Rightarrow> string list option" where
  "parse_group_users vs =
     (let ids = List.map_filter (\<lambda>v. member_identifier (Some v)) vs
      in if length vs \<le> max_group_members \<and> length ids = length vs \<and> distinct ids then Some ids else None)"

definition parse_organization_group_write_request :: "json \<Rightarrow> group_write option" where
  "parse_organization_group_write_request body =
     (case normalize_protocol_object body of
        None \<Rightarrow> None
      | Some fs \<Rightarrow>
          if \<not> has_only_fields fs [''name'', ''collections'', ''users''] then None
          else (case (as_string (jprop fs ''name''), jprop fs ''collections'', jprop fs ''users'') of
                  (Some name, Some (JArr cs), Some (JArr us)) \<Rightarrow>
                    if \<not> is_group_name name \<or> max_group_collections < length cs then None
                    else (case (parse_group_users us, parse_collection_grants [] cs) of
                            (Some ids, Some grants) \<Rightarrow> Some \<lparr>gw_name = name, gw_collections = grants, gw_users = ids\<rparr>
                          | _ \<Rightarrow> None)
                | _ \<Rightarrow> None))"

definition organization_group_etag :: "group_record \<Rightarrow> string" where
  "organization_group_etag g = CHR 0x22 # gr_id g @ '':'' @ gr_revision_date g @ [CHR 0x22]"

text \<open>The shape of an ISO text with milliseconds.\<close>

definition iso_shape :: "string \<Rightarrow> bool" where
  "iso_shape s \<longleftrightarrow>
     length s = 24 \<and>
     list_all (\<lambda>(t, c). if t = CHR ''d'' then is_digit c else c = t) (zip ''dddd-dd-ddTdd:dd:dd.dddZ'' s)"

definition parse_organization_group_if_match :: "string option \<Rightarrow> string \<Rightarrow> string option option" where
  "parse_organization_group_if_match v group_id =
     (case v of
        None \<Rightarrow> Some None
      | Some s \<Rightarrow>
          let prefix = CHR 0x22 # group_id @ '':''
          in if \<not> starts_with s prefix \<or> s = [] \<or> last s \<noteq> CHR 0x22 then None
             else (let revision = butlast (drop (length prefix) s)
                   in if iso_shape revision \<and> date_parse revision \<noteq> None then Some (Some revision) else None))"

section \<open>Who may manage\<close>

record group_scope =
  gs_organization_id :: string
  gs_actor :: policy_actor

definition group_member_scope :: "group_scope \<Rightarrow> member_scope" where
  "group_member_scope s =
     \<lparr>sc_organization_id = gs_organization_id s, sc_actor_user_id = pa_user_id (gs_actor s), sc_session_id = Some (pa_session_id (gs_actor s)),
      sc_device_identifier = Some (pa_device_identifier (gs_actor s))\<rparr>"

definition group_manager :: "group_scope \<Rightarrow> database \<Rightarrow> bool" where
  "group_manager s db \<longleftrightarrow> acts_in_organization (group_member_scope s) (\<lambda>a. ou_type a \<in> {0, 1}) db"

definition group_owner :: "group_scope \<Rightarrow> database \<Rightarrow> bool" where
  "group_owner s db \<longleftrightarrow>
     sql_exists (\<lambda>a. ou_organization_id a = gs_organization_id s \<and> ou_user_id a = Some (pa_user_id (gs_actor s)) \<and> ou_status a = 2 \<and>
       ou_type a = 0) (organization_users db)"

definition eligible_recipient :: "group_scope \<Rightarrow> database \<Rightarrow> string \<Rightarrow> bool" where
  "eligible_recipient s db membership \<longleftrightarrow>
     sql_exists (member_at membership (gs_organization_id s)) (organization_users db) \<and>
     \<not> sql_exists (\<lambda>m. member_at membership (gs_organization_id s) m \<and>
        (ou_status m \<notin> {0, 1, 2} \<or> ou_type m \<notin> {0, 1, 2} \<or>
         ou_user_id m \<noteq> None \<and> sql_exists (\<lambda>u. ou_user_id m = Some (u_id u) \<and> u_disabled_at u \<noteq> None) (users db) \<or>
         \<not> group_owner s db \<and> ou_type m \<noteq> 2)) (organization_users db)"

definition valid_requested_access :: "group_scope \<Rightarrow> group_write \<Rightarrow> database \<Rightarrow> bool" where
  "valid_requested_access s w db \<longleftrightarrow>
     list_all (\<lambda>g. sql_exists (\<lambda>c. cl_id c = gq_id g \<and> cl_organization_id c = gs_organization_id s) (collections db)) (gw_collections w) \<and>
     list_all (eligible_recipient s db) (gw_users w)"

definition links_member :: "organization_group_row \<Rightarrow> database \<Rightarrow> organization_user_row \<Rightarrow> bool" where
  "links_member g db m \<longleftrightarrow>
     ou_organization_id m = og_organization_id g \<and>
     sql_exists (\<lambda>l. gu_group_id l = og_id g \<and> gu_organization_id l = og_organization_id g \<and> gu_organization_user_id l = ou_id m)
       (organization_group_users db)"

text \<open>An administrator may not touch a group with a member that is no plain user.\<close>

definition admin_current_members :: "group_scope \<Rightarrow> organization_group_row \<Rightarrow> database \<Rightarrow> bool" where
  "admin_current_members s g db \<longleftrightarrow>
     group_owner s db \<or> \<not> sql_exists (\<lambda>m. links_member g db m \<and> ou_type m \<noteq> 2) (organization_users db)"

section \<open>Reading\<close>

definition group_from_row :: "database \<Rightarrow> organization_group_row \<Rightarrow> group_record" where
  "group_from_row db g =
     \<lparr>gr_id = og_id g, gr_organization_id = og_organization_id g, gr_name = og_name g, gr_revision_date = og_revision_date g,
      gr_collections =
        map (\<lambda>c. \<lparr>gq_id = cg_collection_id c, gq_read_only = cg_read_only c, gq_hide_passwords = cg_hide_passwords c, gq_manage = cg_manage c\<rparr>)
          (sort_key cg_collection_id (filter (\<lambda>c. cg_group_id c = og_id g \<and> cg_organization_id c = og_organization_id g) (collection_groups db))),
      gr_users =
        sort (map gu_organization_user_id (filter (\<lambda>l. gu_group_id l = og_id g \<and> gu_organization_id l = og_organization_id g)
          (organization_group_users db)))\<rparr>"

definition list_organization_groups :: "group_scope \<Rightarrow> database \<Rightarrow> group_record list option" where
  "list_organization_groups s db =
     (if group_manager s db
      then Some (map (group_from_row db) (sort_key og_id (filter (\<lambda>g. og_organization_id g = gs_organization_id s) (organization_groups db))))
      else None)"

definition find_organization_group :: "group_scope \<Rightarrow> string \<Rightarrow> database \<Rightarrow> group_record option" where
  "find_organization_group s group_id db =
     (if group_manager s db
      then map_option (group_from_row db)
        (sql_first (\<lambda>g. og_organization_id g = gs_organization_id s \<and> og_id g = group_id) (organization_groups db))
      else None)"

section \<open>One group mutation\<close>

record group_mutation =
  gm_scope :: group_scope
  gm_group_id :: string
  gm_now :: string
  gm_audit_event :: audit_event
  gm_expected_revision :: "string option"
  gm_mutation_id :: string

datatype group_change = ReplaceGroup group_write | DeleteGroup | RemoveFromGroup string

definition group_at :: "group_mutation \<Rightarrow> organization_group_row \<Rightarrow> bool" where
  "group_at i g \<longleftrightarrow> og_id g = gm_group_id i \<and> og_organization_id g = gs_organization_id (gm_scope i)"

definition insert_group :: "group_mutation \<Rightarrow> group_write \<Rightarrow> database stmt" where
  "insert_group i w db prev =
     (if \<not> (group_manager (gm_scope i) db \<and> valid_requested_access (gm_scope i) w db) then Inr (db, 0)
      else if sql_exists (\<lambda>g. og_id g = gm_group_id i) (organization_groups db) then Inl ConstraintError
      else (case sqlite_next_ms (gm_now i) of
              None \<Rightarrow> Inl ConstraintError
            | Some d \<Rightarrow> Inr (organization_groups_update (\<lambda>t. t @
                [\<lparr>og_id = gm_group_id i, og_organization_id = gs_organization_id (gm_scope i), og_name = gw_name w, og_revision_date = d,
                  og_last_mutation_id = gm_mutation_id i, og_created_at = gm_now i, og_updated_at = gm_now i\<rparr>]) db, 1)))"

definition touched_group :: "group_mutation \<Rightarrow> string option \<Rightarrow> organization_group_row \<Rightarrow> organization_group_row option" where
  "touched_group i name g =
     map_option (\<lambda>d. g\<lparr>og_name := (case name of None \<Rightarrow> og_name g | Some n \<Rightarrow> n), og_revision_date := d,
         og_last_mutation_id := gm_mutation_id i, og_updated_at := gm_now i\<rparr>) (sqlite_next_ms (max (og_revision_date g) (gm_now i)))"

definition manageable_group :: "group_mutation \<Rightarrow> database \<Rightarrow> organization_group_row \<Rightarrow> bool" where
  "manageable_group i db g \<longleftrightarrow>
     group_at i g \<and> (gm_expected_revision i = None \<or> gm_expected_revision i = Some (og_revision_date g)) \<and>
     group_manager (gm_scope i) db \<and> admin_current_members (gm_scope i) g db"

definition touch_groups :: "group_mutation \<Rightarrow> (database \<Rightarrow> organization_group_row \<Rightarrow> bool) \<Rightarrow> string option \<Rightarrow> database stmt" where
  "touch_groups i p name =
     update_not_null organization_groups organization_groups_update (\<lambda>db g. manageable_group i db g \<and> p db g) (\<lambda>db. touched_group i name)"

definition linked_to :: "group_mutation \<Rightarrow> group_user_row \<Rightarrow> bool" where
  "linked_to i l \<longleftrightarrow> gu_group_id l = gm_group_id i \<and> gu_organization_id l = gs_organization_id (gm_scope i)"

definition assigned_to :: "group_mutation \<Rightarrow> collection_group_row \<Rightarrow> bool" where
  "assigned_to i c \<longleftrightarrow> cg_group_id c = gm_group_id i \<and> cg_organization_id c = gs_organization_id (gm_scope i)"

definition affected_account :: "group_mutation \<Rightarrow> string list \<Rightarrow> database \<Rightarrow> user_row \<Rightarrow> bool" where
  "affected_account i new_users db u \<longleftrightarrow>
     sql_exists (\<lambda>m. ou_organization_id m = gs_organization_id (gm_scope i) \<and> ou_user_id m = Some (u_id u) \<and>
       (sql_exists (\<lambda>l. linked_to i l \<and> gu_organization_user_id l = ou_id m) (organization_group_users db) \<or> ou_id m \<in> set new_users))
       (organization_users db)"

definition insert_links :: "group_mutation \<Rightarrow> string list \<Rightarrow> database stmt" where
  "insert_links i new_users db prev =
     (if \<not> marked (gm_mutation_id i) db then Inr (db, 0)
      else if \<not> distinct new_users \<or>
              list_ex (\<lambda>m. sql_exists (\<lambda>l. gu_group_id l = gm_group_id i \<and> gu_organization_user_id l = m) (organization_group_users db) \<or>
                \<not> sql_exists (member_at m (gs_organization_id (gm_scope i))) (organization_users db)) new_users \<or>
              (new_users \<noteq> [] \<and> \<not> sql_exists (group_at i) (organization_groups db))
      then Inl ConstraintError
      else Inr (organization_group_users_update (\<lambda>t. t @ map (\<lambda>m. \<lparr>gu_group_id = gm_group_id i,
          gu_organization_id = gs_organization_id (gm_scope i), gu_organization_user_id = m\<rparr>) new_users) db, length new_users))"

definition insert_assignments :: "group_mutation \<Rightarrow> collection_grant_request list \<Rightarrow> database stmt" where
  "insert_assignments i grants db prev =
     (if \<not> marked (gm_mutation_id i) db then Inr (db, 0)
      else if \<not> distinct (map gq_id grants) \<or>
              list_ex (\<lambda>g. sql_exists (\<lambda>c. cg_group_id c = gm_group_id i \<and> cg_collection_id c = gq_id g) (collection_groups db) \<or>
                \<not> sql_exists (\<lambda>c. cl_id c = gq_id g \<and> cl_organization_id c = gs_organization_id (gm_scope i)) (collections db)) grants \<or>
              (grants \<noteq> [] \<and> \<not> sql_exists (group_at i) (organization_groups db))
      then Inl ConstraintError
      else Inr (collection_groups_update (\<lambda>t. t @ map (\<lambda>g. \<lparr>cg_collection_id = gq_id g, cg_organization_id = gs_organization_id (gm_scope i),
          cg_group_id = gm_group_id i, cg_read_only = gq_read_only g, cg_hide_passwords = gq_hide_passwords g, cg_manage = gq_manage g\<rparr>) grants) db,
        length grants))"

definition delete_group :: "group_mutation \<Rightarrow> database stmt" where
  "delete_group i db prev =
     (if \<not> marked (gm_mutation_id i) db \<or> \<not> sql_exists (group_at i) (organization_groups db) then Inr (db, 0)
      else Inr (collection_groups_update (sql_delete (assigned_to i))
                (organization_group_users_update (sql_delete (linked_to i)) (organization_groups_update (sql_delete (group_at i)) db)),
                sql_count (group_at i) (organization_groups db)))"

definition group_change_statements :: "group_mutation \<Rightarrow> group_change \<Rightarrow> database stmt list" where
  "group_change_statements i c =
     (let aid = gm_mutation_id i
      in case c of
           ReplaceGroup w \<Rightarrow>
             [marked_delete organization_group_users organization_group_users_update (linked_to i) aid,
              insert_links i (gw_users w),
              when_marked aid (\<lambda>db prev. prev = length (gw_users w) \<and> sql_count (linked_to i) (organization_group_users db) = length (gw_users w)),
              marked_delete collection_groups collection_groups_update (assigned_to i) aid,
              insert_assignments i (gw_collections w),
              when_marked aid (\<lambda>db prev. prev = length (gw_collections w) \<and>
                sql_count (assigned_to i) (collection_groups db) = length (gw_collections w))]
         | DeleteGroup \<Rightarrow>
             [delete_group i, when_marked aid (\<lambda>db prev. \<not> sql_exists (group_at i) (organization_groups db))]
         | RemoveFromGroup m \<Rightarrow>
             [marked_delete organization_group_users organization_group_users_update (\<lambda>l. linked_to i l \<and> gu_organization_user_id l = m) aid,
              when_marked aid (\<lambda>db prev. prev = 1)])"

definition new_group_users :: "group_change \<Rightarrow> string list" where
  "new_group_users c = (case c of ReplaceGroup w \<Rightarrow> gw_users w | _ \<Rightarrow> [])"

definition group_statements :: "database stmt \<Rightarrow> group_mutation \<Rightarrow> group_change \<Rightarrow> database stmt list" where
  "group_statements first_write i c =
     (let aid = gm_mutation_id i; affected = affected_account i (new_group_users c)
      in [first_write, audit_statement (audit_row aid (gm_audit_event i)) (\<lambda>db prev. prev = 1),
          assertion (\<lambda>db prev. \<not> sql_exists (\<lambda>g. group_at i g \<and> og_last_mutation_id g = aid) (organization_groups db) \<or> marked aid db),
          revision_statement (gs_organization_id (gm_scope i)) (gm_now i) aid, when_marked aid (\<lambda>db prev. prev = 1),
          users_revision_statement affected (gm_now i) aid,
          when_marked aid (\<lambda>db prev. prev = sql_count (affected db) (users db))] @ group_change_statements i c)"

datatype group_outcome = GroupDone | GroupNotFound | GroupConflict

definition run_group_mutation :: "database stmt \<Rightarrow> group_mutation \<Rightarrow> group_change \<Rightarrow> group_outcome repo" where
  "run_group_mutation first_write i c =
     with_batch (group_statements first_write i c) (\<lambda>ns.
       if ns ! 1 = 1 then return_value GroupDone
       else (case gm_expected_revision i of
               None \<Rightarrow> return_value GroupNotFound
             | Some revision \<Rightarrow> repo_bind (repo_get (find_organization_group (gm_scope i) (gm_group_id i))) (\<lambda>current.
                 return_value (case current of
                   None \<Rightarrow> GroupNotFound
                 | Some g \<Rightarrow> if gr_revision_date g \<noteq> revision then GroupConflict else GroupNotFound))))"

definition group_root :: "group_mutation \<Rightarrow> bool \<Rightarrow> group_change \<Rightarrow> database stmt" where
  "group_root i create c =
     (case c of
        ReplaceGroup w \<Rightarrow>
          if create then insert_group i w
          else touch_groups i (\<lambda>db g. valid_requested_access (gm_scope i) w db) (Some (gw_name w))
      | DeleteGroup \<Rightarrow> touch_groups i (\<lambda>db g. True) None
      | RemoveFromGroup m \<Rightarrow>
          touch_groups i (\<lambda>db g. sql_exists (\<lambda>l. gu_group_id l = og_id g \<and> gu_organization_id l = og_organization_id g \<and>
            gu_organization_user_id l = m) (organization_group_users db)) None)"

definition change_group :: "group_mutation \<Rightarrow> bool \<Rightarrow> group_change \<Rightarrow> group_outcome repo" where
  "change_group i create c = run_group_mutation (group_root i create c) i c"

section \<open>Operations and routes\<close>

record group_site =
  gt_scope :: group_scope
  gt_group_id :: string
  gt_membership_id :: string
  gt_if_match :: "string option"
  gt_query :: bool
  gt_now :: string
  gt_request_id :: string
  gt_new_group_id :: string
  gt_mutation_id :: string

datatype group_result =
    GroupsListed "group_record list"
  | GroupShown group_record string
  | GroupUsers "string list" string
  | GroupChanged
  | GroupRefused
  | GroupMissing
  | GroupsConflict

definition group_audit :: "group_site \<Rightarrow> string \<Rightarrow> string \<Rightarrow> (string \<times> json) list \<Rightarrow> audit_event" where
  "group_audit site group_id name context =
     build_audit_event
       \<lparr>ai_name = name, ai_outcome = ''success'',
        ai_actor = Some (Some (pa_user_id (gs_actor (gt_scope site))), Some (pa_device_identifier (gs_actor (gt_scope site)))),
        ai_target = Some (''organization_group'', Some group_id),
        ai_context = (''organizationId'', JStr (gs_organization_id (gt_scope site))) # context\<rparr> (gt_request_id site) (gt_now site)"

definition site_group_mutation :: "group_site \<Rightarrow> string \<Rightarrow> string option \<Rightarrow> string \<Rightarrow> (string \<times> json) list \<Rightarrow> group_mutation" where
  "site_group_mutation site group_id revision_wanted name context =
     \<lparr>gm_scope = gt_scope site, gm_group_id = group_id, gm_now = gt_now site, gm_audit_event = group_audit site group_id name context,
      gm_expected_revision = revision_wanted, gm_mutation_id = gt_mutation_id site\<rparr>"

definition group_outcome_result :: "group_outcome \<Rightarrow> group_result" where
  "group_outcome_result r = (case r of GroupDone \<Rightarrow> GroupChanged | GroupNotFound \<Rightarrow> GroupMissing | GroupConflict \<Rightarrow> GroupsConflict)"

definition read_after_write :: "group_site \<Rightarrow> string \<Rightarrow> group_outcome \<Rightarrow> group_result repo" where
  "read_after_write site group_id r =
     (if r \<noteq> GroupDone then return_value (group_outcome_result r)
      else repo_bind (repo_get (find_organization_group (gt_scope site) group_id)) (\<lambda>found.
        case found of
          None \<Rightarrow> throw (JsError ''Committed organization group could not be read back.'')
        | Some g \<Rightarrow> return_value (GroupShown g (organization_group_etag g))))"

definition group_counts :: "group_write \<Rightarrow> (string \<times> json) list" where
  "group_counts w = [(''memberCount'', jint (int (length (gw_users w)))), (''assignmentCount'', jint (int (length (gw_collections w))))]"

definition create_organization_group :: "group_site \<Rightarrow> json \<Rightarrow> group_result repo" where
  "create_organization_group site body =
     (case parse_organization_group_write_request body of
        None \<Rightarrow> return_value GroupRefused
      | Some w \<Rightarrow>
          repo_bind (change_group (site_group_mutation site (gt_new_group_id site) None ''organization.group.create'' (group_counts w)) True
            (ReplaceGroup w)) (read_after_write site (gt_new_group_id site)))"

definition update_organization_group :: "group_site \<Rightarrow> string option \<Rightarrow> json \<Rightarrow> group_result repo" where
  "update_organization_group site revision_wanted body =
     (case parse_organization_group_write_request body of
        None \<Rightarrow> return_value GroupRefused
      | Some w \<Rightarrow>
          repo_bind (change_group (site_group_mutation site (gt_group_id site) revision_wanted ''organization.group.update'' (group_counts w)) False
            (ReplaceGroup w)) (read_after_write site (gt_group_id site)))"

definition delete_organization_group :: "group_site \<Rightarrow> string option \<Rightarrow> group_result repo" where
  "delete_organization_group site revision_wanted =
     repo_bind (change_group (site_group_mutation site (gt_group_id site) revision_wanted ''organization.group.delete'' []) False DeleteGroup)
       (\<lambda>r. return_value (group_outcome_result r))"

definition remove_organization_group_member :: "group_site \<Rightarrow> string option \<Rightarrow> group_result repo" where
  "remove_organization_group_member site revision_wanted =
     repo_bind (change_group (site_group_mutation site (gt_group_id site) revision_wanted ''organization.group.member.remove''
         [(''membershipId'', JStr (gt_membership_id site))]) False (RemoveFromGroup (gt_membership_id site)))
       (\<lambda>r. return_value (group_outcome_result r))"

datatype group_operation = ListGroups | ReadGroup | ReadGroupUsers | CreateGroup "json option" | UpdateGroup "json option" | DropGroup | DropGroupMember

definition accepts_if_match :: "group_operation \<Rightarrow> bool" where
  "accepts_if_match op \<longleftrightarrow> (case op of UpdateGroup b \<Rightarrow> True | DropGroup \<Rightarrow> True | DropGroupMember \<Rightarrow> True | _ \<Rightarrow> False)"

definition group_request_valid :: "group_site \<Rightarrow> group_operation \<Rightarrow> bool" where
  "group_request_valid site op \<longleftrightarrow>
     valid_id (gs_organization_id (gt_scope site)) \<and> (gt_group_id site = [] \<or> valid_id (gt_group_id site)) \<and>
     (gt_membership_id site = [] \<or> valid_id (gt_membership_id site)) \<and> \<not> gt_query site \<and> (gt_if_match site = None \<or> accepts_if_match op)"

definition organization_group_route :: "group_site \<Rightarrow> group_operation \<Rightarrow> group_result repo" where
  "organization_group_route site op =
     (case parse_organization_group_if_match (gt_if_match site) (gt_group_id site) of
        None \<Rightarrow> return_value GroupRefused
      | Some revision_wanted \<Rightarrow>
          if \<not> group_request_valid site op then return_value GroupRefused
          else (case op of
                  ListGroups \<Rightarrow> repo_bind (repo_get (list_organization_groups (gt_scope site)))
                    (\<lambda>r. return_value (case r of None \<Rightarrow> GroupMissing | Some gs \<Rightarrow> GroupsListed gs))
                | ReadGroup \<Rightarrow> repo_bind (repo_get (find_organization_group (gt_scope site) (gt_group_id site)))
                    (\<lambda>r. return_value (case r of None \<Rightarrow> GroupMissing | Some g \<Rightarrow> GroupShown g (organization_group_etag g)))
                | ReadGroupUsers \<Rightarrow> repo_bind (repo_get (find_organization_group (gt_scope site) (gt_group_id site)))
                    (\<lambda>r. return_value (case r of None \<Rightarrow> GroupMissing | Some g \<Rightarrow> GroupUsers (gr_users g) (organization_group_etag g)))
                | CreateGroup None \<Rightarrow> return_value GroupRefused
                | CreateGroup (Some body) \<Rightarrow> create_organization_group site body
                | UpdateGroup None \<Rightarrow> return_value GroupRefused
                | UpdateGroup (Some body) \<Rightarrow> update_organization_group site revision_wanted body
                | DropGroup \<Rightarrow> delete_organization_group site revision_wanted
                | DropGroupMember \<Rightarrow> remove_organization_group_member site revision_wanted))"

end
