(* ===== verification/OwnerProofs.thy ===== *)
theory OwnerProofs
  imports MembershipRequests OrganizationPolicies OrganizationGroups
begin

text \<open>
  Across the requests that administer an organisation (members, policies, groups) and the removal of a second
  factor, an organisation keeps an owner who is able to act: confirmed, with an active account, and enrolled when the policy asks for it.
\<close>

declare run_stmts.simps [simp del]

section \<open>The contract of a step\<close>

definition has_able_owner :: "string \<Rightarrow> database \<Rightarrow> bool" where
  "has_able_owner org db \<longleftrightarrow> (\<exists>m \<in> set (organization_users db). able_owner org db m)"

definition administered :: "string \<Rightarrow> database \<Rightarrow> bool" where
  "administered org db \<longleftrightarrow> members_unique (organization_users db) \<and> enabled_organization org db"

locale owner_keeping =
  fixes step :: "database \<Rightarrow> database \<Rightarrow> bool"
  assumes step_administered: "step db db' \<Longrightarrow> administered org db \<Longrightarrow> administered org db'"
    and step_owner: "step db db' \<Longrightarrow> administered org db \<Longrightarrow> has_able_owner org db \<Longrightarrow> has_able_owner org db'"
begin

lemma runs_keep_owner:
  assumes "rtranclp step db db'" "administered org db" "has_able_owner org db"
  shows "administered org db' \<and> has_able_owner org db'"
  using assms by (induction rule: rtranclp_induct) (auto intro: step_administered step_owner)

end

lemma enabled_view: "authority_view d = authority_view db \<Longrightarrow> enabled_organization org d = enabled_organization org db"
  unfolding enabled_organization_def authority_view_def
  by (rule exists_view [where v = organization_view and q = "\<lambda>(i, e). i = org \<and> e"]) (auto simp: organization_view_def)

section \<open>Requests about members\<close>

inductive membership_step :: "database \<Rightarrow> database \<Rightarrow> bool" where
  request: "fresh_request site db \<Longrightarrow> membership_route site op db = (db', a) \<Longrightarrow> membership_step db db'"

lemma replaced_keys:
  assumes "distinct (map key t)" "\<And>m'. new = Some m' \<Longrightarrow> key m' = key m"
  shows "distinct (map key (replaced m new t))"
proof (cases new)
  case None
  then show ?thesis using assms(1) by (simp add: replaced_def distinct_map_filter)
next
  case (Some m')
  then have "map key (replaced m new t) = map key t" using assms(2) by (auto simp: replaced_def)
  then show ?thesis using assms(1) by simp
qed

lemma replaced_unique:
  assumes "members_unique t" "member_transition site db m new"
  shows "members_unique (replaced m new t)"
  using assms replaced_keys [of ou_id t new m] replaced_keys [of "\<lambda>m. (ou_organization_id m, ou_email m)" t new m] transition_key [of site db m]
  by (auto simp: members_unique_def)

lemma enabled_owner_other: "enabled_owner m db \<Longrightarrow> \<exists>o' \<in> set (organization_users db). o' \<noteq> m \<and> able_owner (ou_organization_id m) db o'"
  by (auto simp: enabled_owner_def sql_exists_iff)

lemma transition_keeps_owner:
  assumes "member_transition site db m new" "m \<in> set (organization_users db)" "has_able_owner org db"
  shows "\<exists>r \<in> set (replaced m new (organization_users db)). able_owner org db r"
proof -
  from assms(3) obtain r where r: "r \<in> set (organization_users db)" "able_owner org db r" by (auto simp: has_able_owner_def)
  have other: ?thesis if "r' \<in> set (organization_users db)" "r' \<noteq> m" "able_owner org db r'" for r'
    using that assms(2) by (auto simp: set_replaced)
  have survivor: ?thesis if "not_last_owner db m" "r = m"
    using that r(2) other enabled_owner_other [of m db] by (auto simp: not_last_owner_def able_owner_def confirmed_owner_def)
  show ?thesis
  proof (cases "r = m")
    case False
    with r other show ?thesis by blast
  next
    case True
    with r(2) have m: "ou_status m = 2" "ou_type m = 0" by (simp_all add: able_owner_def confirmed_owner_def)
    from assms(1) show ?thesis
    proof cases
      case (updates ty grants)
      show ?thesis
      proof (cases "ty = 0")
        case True
        with r(2) \<open>r = m\<close> updates m assms(2) show ?thesis
          by (auto simp: set_replaced able_owner_def confirmed_owner_def stamped_def)
      next
        case False
        with updates survivor True show ?thesis by (auto simp: updatable_member_def)
      qed
    qed (use m survivor True in \<open>auto simp: acceptable_member_def confirmable_member_def reinvitable_member_def\<close>)
  qed
qed

lemma request_effect_step:
  assumes "request_effect site db db' a" "administered org db"
  shows "administered org db' \<and> (has_able_owner org db \<longrightarrow> has_able_owner org db')"
proof -
  from assms(1) consider "db' = db" | "one_member_changed site db db'" | "members_invited site db db'"
    by (auto simp: request_effect_def)
  then show ?thesis
  proof cases
    case 2
    then obtain m new where v: "authority_view db' = authority_view db" and m: "m \<in> set (organization_users db)"
      and t: "member_transition site db m new" and d: "organization_users db' = replaced m new (organization_users db)"
      by (auto simp: one_member_changed_def)
    have "has_able_owner org db \<longrightarrow> has_able_owner org db'"
      using transition_keeps_owner [OF t m] able_owner_view [OF v] by (auto simp: has_able_owner_def d)
    moreover have "administered org db'"
      using assms(2) replaced_unique [OF _ t] enabled_view [OF v] by (simp add: administered_def d)
    ultimately show ?thesis by blast
  next
    case 3
    then have v: "authority_view db' = authority_view db" and u: "members_unique (organization_users db')"
      and sub: "set (organization_users db) \<subseteq> set (organization_users db')" by (auto simp: members_invited_def)
    show ?thesis
      using assms(2) u sub able_owner_view [OF v] enabled_view [OF v] by (auto simp: administered_def has_able_owner_def)
  qed (use assms(2) in simp)
qed

interpretation members: owner_keeping membership_step
proof
  fix db db' org
  assume "membership_step db db'" "administered org db"
  then show "administered org db'" and "has_able_owner org db \<Longrightarrow> has_able_owner org db'"
    using route_effect request_effect_step by (auto elim!: membership_step.cases simp: administered_def members_unique_def) blast+
qed

section \<open>Requests about groups\<close>

definition undisturbed :: "database \<Rightarrow> database \<Rightarrow> bool" where
  "undisturbed db d \<longleftrightarrow> organization_users d = organization_users db \<and> authority_view d = authority_view db"

lemma undisturbed_refl [simp]: "undisturbed db db"
  by (simp add: undisturbed_def)

lemma undisturbed_step:
  assumes "undisturbed db d"
  shows "administered org d = administered org db" "has_able_owner org d = has_able_owner org db"
  using assms able_owner_view [of d db] enabled_view [of d db] by (simp_all add: undisturbed_def administered_def has_able_owner_def)

lemma follows_undisturbed: "follows s \<Longrightarrow> s db n = Inr (d, k) \<Longrightarrow> undisturbed db0 db \<Longrightarrow> undisturbed db0 d"
  by (drule followsD) (auto simp: kept_def undisturbed_def)

lemma audit_undisturbed: "audit_statement e c db n = Inr (d, k) \<Longrightarrow> undisturbed db0 db \<Longrightarrow> undisturbed db0 d"
  by (auto simp: audit_statement_Inr undisturbed_def authority_view_def)

lemma group_change_follows: "s \<in> set (group_change_statements i c) \<Longrightarrow> follows s"
proof -
  have "follows (insert_links i us)" "follows (insert_assignments i gs)" "follows (delete_group i)" for us gs
    by (auto simp: follows_def kept_def authority_view_def insert_links_def insert_assignments_def delete_group_def split: if_splits)
  then show "s \<in> set (group_change_statements i c) \<Longrightarrow> follows s"
    by (auto simp: group_change_statements_def Let_def follows split: group_change.splits)
qed

lemma group_root_follows: "follows (group_root i create c)"
proof -
  have "follows (insert_group i w)" for w
    by (auto simp: follows_def kept_def authority_view_def insert_group_def split: if_splits option.splits)
  moreover have "follows (touch_groups i p name)" for p name
    by (auto simp: follows_def kept_def authority_view_def touch_groups_def dest!: update_not_null_Inr)
  ultimately show ?thesis by (simp add: group_root_def split: group_change.splits)
qed

lemma change_group_undisturbed: "undisturbed db (fst (change_group i create c db))"
proof -
  have st: "undisturbed db d'" if "s \<in> set (group_statements (group_root i create c) i c)" "s d n = Inr (d', k)" "undisturbed db d" for s d n d' k
  proof -
    from that(1) have "follows s \<or> (\<exists>e c. s = audit_statement e c)"
      using group_change_follows [of s i c] group_root_follows by (auto simp: group_statements_def Let_def follows)
    then show ?thesis using that(2,3) follows_undisturbed audit_undisturbed by blast
  qed
  show ?thesis
    unfolding change_group_def run_group_mutation_def
    by (rule with_batch_invariant [where P = "undisturbed db"], erule (2) st) (auto simp: repo_bind_def repo_get_def return_value_def split: option.splits)
qed

lemma group_bind_undisturbed:
  assumes "\<And>x d. undisturbed db d \<Longrightarrow> undisturbed db (fst (f x d))"
  shows "undisturbed db (fst (repo_bind (change_group i create c) f db))"
  using change_group_undisturbed [of db i create c] assms by (auto simp: repo_bind_def split: prod.splits sum.splits)

inductive group_step :: "database \<Rightarrow> database \<Rightarrow> bool" where
  request: "organization_group_route site op db = (db', a) \<Longrightarrow> group_step db db'"

lemma group_request_undisturbed:
  assumes "organization_group_route site op db = (db', a)"
  shows "undisturbed db db'"
proof -
  have read: "undisturbed db (fst (read_after_write site g r d))" if "undisturbed db d" for g r d
    using that by (simp add: read_after_write_def repo_bind_def repo_get_def return_value_def throw_def split: option.splits)
  have "undisturbed db (fst (organization_group_route site op db))"
    unfolding organization_group_route_def
    by (cases op) (auto simp: create_organization_group_def update_organization_group_def delete_organization_group_def
        remove_organization_group_member_def bind_get return_value_def split: option.splits intro!: group_bind_undisturbed read)
  with assms show ?thesis by simp
qed

interpretation groups: owner_keeping group_step
  by unfold_locales (auto elim!: group_step.cases dest: group_request_undisturbed simp: undisturbed_step)

section \<open>Requests about the policy\<close>

lemma able_owner_data:
  assumes "map account_view (users d) = map account_view (users db)" "two_step_policy org d \<Longrightarrow> two_step_policy org db"
    and "user_totp d = user_totp db" "able_owner org db m"
  shows "able_owner org d m"
proof -
  have "active_user uid d = active_user uid db" for uid
    unfolding active_user_def
    by (rule exists_view [where v = account_view and q = "\<lambda>(i, dis, _). i = uid \<and> dis = None"])
      (use assms(1) in \<open>auto simp: account_view_def\<close>)
  with assms show ?thesis by (auto simp: able_owner_def organization_totp_enrollment_allows_def)
qed

definition policy_view :: "database \<Rightarrow> organization_user_row list \<times> (string \<times> string option \<times> string) list \<times> (string \<times> bool) list \<times> totp_row list" where
  "policy_view db = (organization_users db, map account_view (users db), map organization_view (organizations db), user_totp db)"

lemma upsert_effect:
  assumes "upsert_policy i db n = Inr (d, k)"
  shows "policy_view d = policy_view db \<and>
    (organization_policies d = organization_policies db \<or>
     may_set_policy i db \<and> (\<forall>org. two_step_policy org d \<longrightarrow> two_step_policy org db \<or> org = pu_organization_id i \<and> pu_enabled i))"
proof (cases "may_set_policy i db")
  case False
  with assms show ?thesis by (simp add: upsert_policy_def)
next
  case may: True
  show ?thesis
  proof (cases "sql_first (is_policy_of (pu_organization_id i)) (organization_policies db)")
    case None
    with assms may have d: "d = organization_policies_update (\<lambda>t. t @ [new_policy i]) db" by (auto simp: upsert_policy_def split: if_splits)
    then show ?thesis using may by (auto simp: policy_view_def two_step_policy_def sql_exists_iff new_policy_def)
  next
    case (Some p)
    with assms may obtain q where q: "overwritten_policy i p = Some q" "d = organization_policies_update (map (\<lambda>r. if r = p then q else r)) db"
      by (auto simp: upsert_policy_def split: option.splits)
    from q(1) have "op_enabled q = pu_enabled i" "op_organization_id q = op_organization_id p" by (auto simp: overwritten_policy_def)
    moreover have "op_organization_id p = pu_organization_id i" using sql_first_SomeD [OF Some] by (simp add: is_policy_of_def)
    ultimately show ?thesis
      using may by (auto simp: q(2) policy_view_def two_step_policy_def sql_exists_iff split: if_splits)
  qed
qed

lemma policy_tail:
  assumes "s \<in> set (tl (policy_statements i))" "s d n = Inr (d', k)"
  shows "policy_view d' = policy_view d \<and> organization_policies d' = organization_policies d"
proof -
  have follow: "policy_view d' = policy_view d \<and> organization_policies d' = organization_policies d" if "follows s"
    using followsD [OF that assms(2)] by (simp add: kept_def policy_view_def authority_view_def)
  have "follows (update_not_null organizations organizations_update (\<lambda>db g. org_id g = pu_organization_id i \<and> marked (pu_audit_id i) db)
        (advanced_past_policy i))"
  proof -
    have advanced: "advanced_past_policy i db g \<noteq> None \<Longrightarrow> organization_view (the (advanced_past_policy i db g)) = organization_view g" for db g
      by (auto simp: advanced_past_policy_def organization_view_def split: option.splits)
    have "kept db d1" if "update_not_null organizations organizations_update (\<lambda>db g. org_id g = pu_organization_id i \<and> marked (pu_audit_id i) db)
        (advanced_past_policy i) db m = Inr (d1, j)" for db d1 m j
    proof -
      note h = update_not_null_Inr [OF that]
      have "map organization_view (organizations d1) = map organization_view (organizations db)"
        using h advanced by (auto intro!: map_view_update)
      then show ?thesis using h by (simp add: kept_def authority_view_def)
    qed
    then show ?thesis by (auto simp: follows_def)
  qed
  moreover have "policy_view d' = policy_view d \<and> organization_policies d' = organization_policies d"
    if "s = policy_audit_statement i"
    using that assms(2) by (auto simp: policy_audit_statement_def audit_statement_Inr policy_view_def split: option.splits)
  ultimately show ?thesis using assms(1) follow by (auto simp: policy_statements_def follows)
qed

lemma actor_is_able:
  assumes "policy_owner i db" "actor_mfa (pu_actor i) db"
  shows "\<exists>m \<in> set (organization_users db). confirmed_owner (pu_organization_id i) m \<and> ou_user_id m = Some (pa_user_id (pu_actor i)) \<and>
    active_user (pa_user_id (pu_actor i)) db \<and>
    sql_exists (\<lambda>t. tf_user_id t = pa_user_id (pu_actor i) \<and> enrolled_factor t) (user_totp db)"
  using assms
  by (auto simp: policy_owner_def present_actor_def actor_member_def actor_mfa_def organization_session_totp_verified_def confirmed_owner_def
      sql_exists_iff)

lemma policy_update_effect:
  assumes "batch (policy_statements i) db = Inr (d, ns)"
  shows "policy_view d = policy_view db \<and> (has_able_owner org db \<longrightarrow> has_able_owner org d)"
proof -
  obtain d1 k ms where first: "upsert_policy i db 0 = Inr (d1, k)" and rest: "run_stmts (tl (policy_statements i)) d1 k = Inr (d, ms)"
    using assms by (auto simp: policy_statements_def batch_def run_stmts_Inr)
  have tail: "policy_view d = policy_view d1 \<and> organization_policies d = organization_policies d1"
    by (rule run_stmts_invariant [OF _ rest]) (use policy_tail in auto)
  have view: "policy_view d = policy_view db" using tail upsert_effect [OF first] by simp
  have policy: "two_step_policy g d = two_step_policy g d1" for g using tail by (simp add: two_step_policy_def)
  have data: "map account_view (users d) = map account_view (users db)" "user_totp d = user_totp db"
    "organization_users d = organization_users db" using view by (simp_all add: policy_view_def)
  have "has_able_owner org d" if owner: "has_able_owner org db"
  proof (cases "two_step_policy org d \<longrightarrow> two_step_policy org db")
    case True
    with owner able_owner_data [OF data(1) _ data(2), of org] show ?thesis by (auto simp: has_able_owner_def data(3))
  next
    case False
    with upsert_effect [OF first] policy [of org] have may: "may_set_policy i db" "org = pu_organization_id i" "pu_enabled i"
      by (auto simp: two_step_policy_def)
    then have "policy_owner i db" "actor_mfa (pu_actor i) db" by (auto simp: may_set_policy_def)
    from actor_is_able [OF this] obtain m where m: "m \<in> set (organization_users db)" "confirmed_owner org m"
      "ou_user_id m = Some (pa_user_id (pu_actor i))" "active_user (pa_user_id (pu_actor i)) db"
      "sql_exists (\<lambda>t. tf_user_id t = pa_user_id (pu_actor i) \<and> enrolled_factor t) (user_totp db)" using may(2) by blast
    then have "able_owner org (db\<lparr>organization_policies := organization_policies d\<rparr>) m"
      by (auto simp: able_owner_def organization_totp_enrollment_allows_def active_user_def)
    then have "able_owner org d m"
      by (rule able_owner_data [rotated 3]) (simp_all add: data two_step_policy_def)
    with m(1) show ?thesis by (auto simp: has_able_owner_def data(3))
  qed
  with view show ?thesis by blast
qed

inductive policy_step :: "database \<Rightarrow> database \<Rightarrow> bool" where
  request: "organization_policy_route site op db = (db', a) \<Longrightarrow> policy_step db db'"

lemma policy_request_effect:
  assumes "organization_policy_route site op db = (db', a)"
  shows "db' = db \<or> (\<exists>i ns. batch (policy_statements i) db = Inr (db', ns))"
proof -
  have update: "db' = db \<or> (\<exists>ns. batch (policy_statements i) db = Inr (db', ns))" if "update_organization_policy_row i db = (db', a)" for i
    using that by (auto simp: update_organization_policy_row_def with_batch_eq bind_get return_value_def throw_def split: if_splits option.splits)
  from assms show ?thesis
    by (cases op) (auto simp: organization_policy_route_def bind_get return_value_def update_organization_policy_def
        split: option.splits if_splits sum.splits dest!: update)
qed

lemma policy_administered: "policy_view d = policy_view db \<Longrightarrow> administered org d = administered org db"
  unfolding administered_def enabled_organization_def policy_view_def
  using exists_view [where v = organization_view and q = "\<lambda>(i, e). i = org \<and> e" and t = "organizations d" and t' = "organizations db"
      and p = "\<lambda>g. org_id g = org \<and> org_enabled g"]
  by (simp add: organization_view_def)

interpretation policies: owner_keeping policy_step
proof
  fix db db' org
  assume step: "policy_step db db'" and adm: "administered org db"
  from step have "policy_view db' = policy_view db \<and> (has_able_owner org db \<longrightarrow> has_able_owner org db')"
    by (auto elim!: policy_step.cases dest!: policy_request_effect dest: policy_update_effect)
  then show "administered org db'" and "has_able_owner org db \<Longrightarrow> has_able_owner org db'" using adm policy_administered by blast+
qed

section \<open>Removing a second factor\<close>

inductive factor_step :: "database \<Rightarrow> database \<Rightarrow> bool" where
  removal: "disable_totp_setup_for_session actor generation now aid rid db = (db', a) \<Longrightarrow> factor_step db db'"

definition factor_view :: "database \<Rightarrow> (organization_user_row list \<times> (string \<times> string option \<times> string) list \<times> organization_row list) \<times>
    organization_policy_row list" where
  "factor_view db = ((organization_users db, map account_view (users db), organizations db), organization_policies db)"

lemma factor_removal_effect:
  assumes "disable_totp_setup_for_session a g now aid rid db = (db', r)"
  shows "factor_view db' = factor_view db \<and>
    (user_totp db' = user_totp db \<or> user_totp db' = sql_delete (removed_factor a g db) (user_totp db))"
proof -
  let ?X = "sql_delete (removed_factor a g db) (user_totp db)"
  let ?ss = "[update_stmt users users_update (\<lambda>db prev u. u_id u = ma_user_id a \<and> u_disabled_at u = None \<and> prev = 1)
       (\<lambda>u. u\<lparr>u_revision_date := now, u_updated_at := now\<rparr>),
     \<lambda>db prev. if prev = 1 then insert_audit_event (totp_disable_audit a aid rid now) db else Inr (db, 0)]"
  have split: "disable_totp_setup_for_session a g now aid rid db = with_batch (delete_factor (\<lambda>db prev. removed_factor a g db) # ?ss)
     (\<lambda>ns. if ns ! 0 = 1 \<and> ns ! 2 \<noteq> 1 then throw (JsError ''TOTP disable batch did not record its required audit event.'')
       else return_value (ns ! 0 = 1)) db"
    by (simp add: disable_totp_setup_for_session_def removed_factor_def [abs_def])
  from assms consider "db' = db" | ns where "batch (delete_factor (\<lambda>db prev. removed_factor a g db) # ?ss) db = Inr (db', ns)"
    by (auto simp: split with_batch_eq return_value_def throw_def split: if_splits)
  then show ?thesis
  proof cases
    case 2
    then obtain d k ms where first: "delete_factor (\<lambda>db prev. removed_factor a g db) db 0 = Inr (d, k)" and rest: "run_stmts ?ss d k = Inr (db', ms)"
      unfolding batch_def run_stmts_Inr(2) by blast
    from first have d: "factor_view d = factor_view db" "user_totp d = ?X"
      by (auto simp: delete_factor_def Let_def clear_mfa_of_def factor_view_def)
    have "factor_view db' = factor_view d \<and> user_totp db' = user_totp d"
    proof (rule run_stmts_invariant [OF _ rest])
      fix s db n db' k
      assume s: "s \<in> set ?ss" "s db n = Inr (db', k)" and P: "factor_view db = factor_view d \<and> user_totp db = user_totp d"
      from s(1) have "s = ?ss ! 0 \<or> s = ?ss ! 1" by auto
      then have "factor_view db' = factor_view db \<and> user_totp db' = user_totp db"
      proof
        assume "s = ?ss ! 0"
        with s(2) show ?thesis by (auto simp: update_stmt_Inr factor_view_def account_view_def intro!: map_view_update)
      next
        assume "s = ?ss ! 1"
        with s(2) show ?thesis by (auto simp: insert_audit_event_def factor_view_def split: if_splits)
      qed
      with P show "factor_view db' = factor_view d \<and> user_totp db' = user_totp d" by simp
    qed simp
    with d show ?thesis by simp
  qed simp
qed

lemma factor_removal_keeps_owner:
  assumes "factor_view db' = factor_view db" "user_totp db' = sql_delete (removed_factor a g db) (user_totp db)"
    and "administered org db" "has_able_owner org db"
  shows "has_able_owner org db'"
proof -
  have data: "map account_view (users db') = map account_view (users db)" "organization_users db' = organization_users db"
    "organization_policies db' = organization_policies db" using assms(1) by (simp_all add: factor_view_def)
  have policy: "two_step_policy org db' = two_step_policy org db" by (simp add: two_step_policy_def data)
  have active: "active_user uid db' = active_user uid db" for uid
    unfolding active_user_def
    by (rule exists_view [where v = account_view and q = "\<lambda>(i, dis, _). i = uid \<and> dis = None"])
      (use data(1) in \<open>auto simp: account_view_def\<close>)
  from assms(4) obtain m uid where m: "m \<in> set (organization_users db)" "confirmed_owner org m" "ou_user_id m = Some uid"
    and able: "active_user uid db" "organization_totp_enrollment_allows org uid db" by (auto simp: has_able_owner_def able_owner_def)
  have enough: "has_able_owner org db'"
    if "r \<in> set (organization_users db)" "confirmed_owner org r" "ou_user_id r = Some v" "active_user v db"
      "\<not> two_step_policy org db \<or> (\<exists>t \<in> set (user_totp db). tf_user_id t = v \<and> enrolled_factor t \<and> \<not> removed_factor a g db t)" for r v
    using that by (auto simp: has_able_owner_def able_owner_def data active organization_totp_enrollment_allows_def policy assms(2)
        sql_exists_iff set_sql_delete)
  show ?thesis
  proof (cases "two_step_policy org db \<and> uid = ma_user_id a \<and> last_enrolled_owner_can_remove_totp (ma_user_id a) db")
    case False
    with m able enough [of m uid] show ?thesis
      by (auto simp: organization_totp_enrollment_allows_def sql_exists_iff removed_factor_def)
  next
    case True
    have "requires_two_step org db"
      using True assms(3) by (simp add: requires_two_step_def two_step_policy_def administered_def enabled_organization_def)
    then have "surviving_owner org (ma_user_id a) db"
      using True m by (auto simp: last_enrolled_owner_can_remove_totp_def sql_exists_iff confirmed_owner_def)
    then obtain r u t where r: "r \<in> set (organization_users db)" "confirmed_owner org r" "ou_user_id r \<noteq> Some (ma_user_id a)"
        and u: "u \<in> set (users db)" "Some (u_id u) = ou_user_id r" "u_disabled_at u = None"
        and t: "t \<in> set (user_totp db)" "Some (tf_user_id t) = ou_user_id r" "enrolled_factor t"
      by (auto simp: surviving_owner_def sql_exists_iff)
    have "tf_user_id t = u_id u" using u(2) t(2) by (metis option.inject)
    moreover have "tf_user_id t \<noteq> ma_user_id a" using t(2) r(3) by auto
    ultimately have "\<not> removed_factor a g db t" "tf_user_id t = u_id u" by (simp_all add: removed_factor_def)
    with t \<open>tf_user_id t = u_id u\<close> have "\<exists>t \<in> set (user_totp db). tf_user_id t = u_id u \<and> enrolled_factor t \<and> \<not> removed_factor a g db t" by blast
    moreover have "active_user (u_id u) db" using u by (auto simp: active_user_def sql_exists_iff)
    ultimately show ?thesis using enough [OF r(1,2) u(2) [symmetric]] by blast
  qed
qed

lemma factor_step_effect:
  assumes "factor_step db db'" "administered org db"
  shows "administered org db' \<and> (has_able_owner org db \<longrightarrow> has_able_owner org db')"
proof -
  from assms(1) obtain a g where view: "factor_view db' = factor_view db"
    and totp: "user_totp db' = user_totp db \<or> user_totp db' = sql_delete (removed_factor a g db) (user_totp db)"
    by (auto elim!: factor_step.cases dest!: factor_removal_effect)
  have "administered org db'" using assms(2) view by (simp add: administered_def enabled_organization_def factor_view_def)
  moreover have "has_able_owner org db'" if "user_totp db' = user_totp db" "has_able_owner org db"
  proof -
    have "organization_users db' = organization_users db" "two_step_policy org db' = two_step_policy org db"
      using view by (simp_all add: factor_view_def two_step_policy_def)
    with that(2) able_owner_data [of db' db org] view that(1) show ?thesis by (auto simp: has_able_owner_def factor_view_def)
  qed
  ultimately show ?thesis using totp factor_removal_keeps_owner [OF view _ assms(2)] by blast
qed

interpretation factors: owner_keeping factor_step
  by unfold_locales (blast dest: factor_step_effect)+

section \<open>Everything together\<close>

definition administration_step :: "database \<Rightarrow> database \<Rightarrow> bool" where
  "administration_step db db' \<longleftrightarrow> membership_step db db' \<or> policy_step db db' \<or> group_step db db' \<or> factor_step db db'"

interpretation administration: owner_keeping administration_step
  by unfold_locales (auto simp: administration_step_def dest: members.step_administered members.step_owner policies.step_administered
      policies.step_owner groups.step_administered groups.step_owner factors.step_administered factors.step_owner)

text \<open>
  C4. An organisation keeps an owner who is able to act. Take any sequence of requests about members, about the policy
  and about groups, by any actors and with any answer, and of removals of second factors. When an enabled organisation has a confirmed owner
  with an active account who is enrolled if the organisation asks for two-step login, then it has one afterwards.
\<close>

theorem an_able_owner_remains:
  assumes "rtranclp administration_step db db'" "administered org db" "has_able_owner org db"
  shows "has_able_owner org db'"
  using administration.runs_keep_owner [OF assms] by blast

end
