(* ===== verification/MemberProofs.thy ===== *)
theory MemberProofs
  imports OwnerProofs
begin

text \<open>
  Who may change a membership, what a membership may become, and that each change leaves an audit row: the properties of the requests of the
  membership routes.
\<close>

section \<open>Authority\<close>

text \<open>The invitation of the acting account, presented with its token before it expires.\<close>

definition own_invitation :: "membership_site \<Rightarrow> organization_user_row \<Rightarrow> bool" where
  "own_invitation site m \<longleftrightarrow>
     ou_status m = 0 \<and> ou_email m = mact_email_normalized (ms_actor site) \<and> sql_gt (ou_invite_expires_at m) (Some (ms_now site)) \<and>
     (\<exists>token hash. build_organization_membership_invite_token_hash (ms_hmac site) (ms_invite_secret site) (ms_organization_id site)
        (ms_membership_id site) (mact_email_normalized (ms_actor site)) token = Inr hash \<and> ou_invite_token_hash m = Some hash)"

abbreviation acts_as :: "membership_site \<Rightarrow> (organization_user_row \<Rightarrow> bool) \<Rightarrow> database \<Rightarrow> bool" where
  "acts_as site p db \<equiv> acts_in_organization (site_scope site) p db"

lemma transition_authority:
  "member_transition site db m new \<Longrightarrow>
     own_invitation site m \<or> acts_as site (\<lambda>a. ou_type a = 0 \<or> ou_type a = 1 \<and> ou_type m = 2) db"
  by (erule member_transition.cases)
    (auto simp: own_invitation_def acceptable_member_def confirmable_member_def updatable_member_def reinvitable_member_def
      manages_member_def)

text \<open>An owner, or an administrator who only deals with plain users.\<close>

lemma update_promotes:
  assumes "updatable_member (site_scope site) ty grants db m" "ty \<noteq> 2" "ou_organization_id m = ms_organization_id site"
  shows "acts_as site (\<lambda>a. ou_type a = 0) db"
  using assms by (auto simp: updatable_member_def manages_member_def acts_in_organization_def sql_exists_iff)

lemma transition_promotes:
  assumes "member_transition site db m (Some m')" "ou_organization_id m = ms_organization_id site" "ou_type m' \<noteq> ou_type m" "ou_type m' \<noteq> 2"
  shows "acts_as site (\<lambda>a. ou_type a = 0) db"
  using assms(1)
proof cases
  case (updates ty grants)
  with assms(2-4) update_promotes show ?thesis by (auto simp: stamped_def)
qed (use assms(3) in \<open>auto simp: stamped_def accepted_member_def revoked_member_def reinvited_member_def\<close>)

lemma inviter_owns: "acts_as site (\<lambda>a. ou_type a = 0 \<or> ou_type a = 1 \<and> ty = 2) db \<Longrightarrow> ty \<noteq> (2 :: int) \<Longrightarrow> acts_as site (\<lambda>a. ou_type a = 0) db"
  by (auto simp: acts_in_organization_def sql_exists_iff)

text \<open>
  C5. Authority over members. A request of the membership routes removes or rewrites a membership only in its own
  organisation, and only when it is the unexpired invitation of the acting account, presented with its token, or when the actor manages it:
  a confirmed owner, or a confirmed administrator and the membership is that of a plain user, with an active account, an enabled organisation
  and a session that meets the policy. A row it adds belongs to the organisation, and one that is an owner or an administrator who was not one
  before was made so by a confirmed owner.
\<close>

theorem membership_changes_are_authorised:
  assumes "distinct (map ou_id (organization_users db))" "fresh_request site db" "membership_route site op db = (db', a)"
  shows "(\<forall>m \<in> set (organization_users db) - set (organization_users db').
            ou_organization_id m = ms_organization_id site \<and>
            (own_invitation site m \<or> acts_as site (\<lambda>a. ou_type a = 0 \<or> ou_type a = 1 \<and> ou_type m = 2) db)) \<and>
         (\<forall>m' \<in> set (organization_users db') - set (organization_users db).
            ou_organization_id m' = ms_organization_id site \<and>
            (ou_type m' = 2 \<or> (\<exists>m \<in> set (organization_users db). ou_id m = ou_id m' \<and> ou_type m = ou_type m') \<or>
             acts_as site (\<lambda>a. ou_type a = 0) db))"
proof -
  from route_effect [OF assms] consider "db' = db" | "one_member_changed site db db'" | "members_invited site db db'"
    by (auto simp: request_effect_def)
  then show ?thesis
  proof cases
    case 2
    then obtain m new where m: "m \<in> set (organization_users db)" "member_at (ms_membership_id site) (ms_organization_id site) m"
      and t: "member_transition site db m new" and d: "organization_users db' = replaced m new (organization_users db)"
      unfolding one_member_changed_def by blast
    have at: "ou_organization_id m = ms_organization_id site" using m(2) by (simp add: member_at_def)
    have "ou_organization_id m' = ms_organization_id site \<and> ou_id m' = ou_id m \<and>
        (ou_type m' = ou_type m \<or> ou_type m' = 2 \<or> acts_as site (\<lambda>a. ou_type a = 0) db)" if "new = Some m'" for m'
      using transition_key [of site db m m'] transition_promotes [of site db m m'] t that at by auto
    then show ?thesis using m(1) at transition_authority [OF t] by (fastforce simp: d set_replaced)
  next
    case 3
    then obtain ty invites where "acts_as site (\<lambda>a. ou_type a = 0 \<or> ou_type a = 1 \<and> ty = 2) db"
      and d: "organization_users db' = organization_users db @ map (invited_member (ms_organization_id site) ty (ms_now site)) invites"
      unfolding members_invited_def by blast
    then show ?thesis using inviter_owns [of site ty db] by (auto simp: d invited_member_def)
  qed simp
qed

section \<open>The life of a membership\<close>

datatype member_state = Invited | Accepted string | Confirmed string | Revoked

definition member_state_of :: "organization_user_row \<Rightarrow> member_state" where
  "member_state_of m =
     (if ou_status m = 0 then Invited
      else if ou_status m = 1 then Accepted (the (ou_user_id m))
      else if ou_status m = 2 then Confirmed (the (ou_user_id m)) else Revoked)"

definition member_state_at :: "string \<Rightarrow> database \<Rightarrow> member_state option" where
  "member_state_at i db = map_option member_state_of (sql_first (\<lambda>m. ou_id m = i) (organization_users db))"

text \<open>\<open>None\<close> is a membership that does not exist; the account is bound when the invitation is accepted and stays.\<close>

inductive member_moves :: "member_state option \<Rightarrow> member_state option \<Rightarrow> bool" where
  stays: "member_moves s s"
| invited: "member_moves None (Some Invited)"
| accepted: "member_moves (Some Invited) (Some (Accepted u))"
| confirmed: "member_moves (Some (Accepted u)) (Some (Confirmed u))"
| revoked: "member_moves (Some s) (Some Revoked)"
| removed: "member_moves (Some s) None"

text \<open>
  What a row carries in each state: an invitation has a token hash and nothing of an account, an accepted membership has its account and no key of the
  organisation, only a confirmed one has the key, and a revoked one has neither key nor invitation.
\<close>

definition member_ok :: "organization_user_row \<Rightarrow> bool" where
  "member_ok m \<longleftrightarrow>
     ou_type m \<in> {0, 1, 2} \<and>
     (ou_status m = 0 \<and> ou_user_id m = None \<and> ou_org_key m = None \<and> ou_invite_token_hash m \<noteq> None \<and> ou_invite_expires_at m \<noteq> None \<or>
      ou_status m = 1 \<and> ou_user_id m \<noteq> None \<and> ou_org_key m = None \<and> ou_invite_token_hash m = None \<or>
      ou_status m = 2 \<and> ou_user_id m \<noteq> None \<and> ou_org_key m \<noteq> None \<and> ou_invite_token_hash m = None \<or>
      ou_status m = -1 \<and> ou_org_key m = None \<and> ou_invite_token_hash m = None)"

lemma transition_ok: "member_transition site db m (Some m') \<Longrightarrow> member_ok m \<Longrightarrow> member_ok m'"
  by (erule member_transition.cases)
    (auto simp: member_ok_def stamped_def accepted_member_def revoked_member_def reinvited_member_def acceptable_member_def
      confirmable_member_def updatable_member_def reinvitable_member_def)

lemma transition_moves:
  assumes "member_transition site db m new" "member_ok m"
  shows "member_moves (Some (member_state_of m)) (map_option member_state_of new)"
  using assms
  by cases (auto simp: member_ok_def member_state_of_def stamped_def accepted_member_def revoked_member_def reinvited_member_def
      acceptable_member_def confirmable_member_def updatable_member_def reinvitable_member_def intro: member_moves.intros)

lemma sql_first_key: "distinct (map key t) \<Longrightarrow> m \<in> set t \<Longrightarrow> sql_first (\<lambda>r. key r = key m) t = Some m"
  by (induction t) (auto simp: sql_first_def image_iff)

lemma replaced_first:
  assumes "distinct (map key t)" "m \<in> set t" "\<And>m'. new = Some m' \<Longrightarrow> key m' = key m"
  shows "sql_first (\<lambda>r. key r = i) (replaced m new t) = (if i = key m then new else sql_first (\<lambda>r. key r = i) t)"
  using assms
proof (induction t)
  case (Cons x t)
  have tail: "replaced m new t = t" if "m \<notin> set t"
    using that by (cases new) (auto simp: replaced_def intro!: filter_id_conv [THEN iffD2] map_idI)
  show ?case
  proof (cases "x = m")
    case True
    then have "m \<notin> set t" using Cons.prems(1) by (auto simp: image_iff)
    moreover have "sql_first (\<lambda>r. key r = i) t = None" if "i = key m" using Cons.prems(1) True that by (force simp: sql_first_None image_iff)
    ultimately show ?thesis
      using tail Cons.prems(3) by (cases new) (auto simp: True replaced_def sql_first_def split: if_splits)
  next
    case False
    then have "m \<in> set t" using Cons.prems(2) by simp
    then have "key x \<noteq> key m" using Cons.prems(1) by (auto simp: image_iff)
    moreover have "replaced m new (x # t) = x # replaced m new t" using False by (auto simp: replaced_def split: option.splits)
    ultimately show ?thesis
      using Cons.IH Cons.prems \<open>m \<in> set t\<close> by (auto simp: sql_first_def)
  qed
qed simp

text \<open>
  C6. The requests of the membership routes implement the life of a membership. When every row is well formed, every row is well formed
  afterwards, and each membership moves by at most one step of its life: it is invited, accepted by an account, confirmed for that same
  account, revoked from any state or removed; nothing leads from a revoked membership to another state, and the bound account never changes.
\<close>

theorem membership_life_refined:
  assumes "members_unique (organization_users db)" "fresh_request site db" "membership_route site op db = (db', a)"
    and "\<forall>m \<in> set (organization_users db). member_ok m"
  shows "(\<forall>m \<in> set (organization_users db'). member_ok m) \<and> member_moves (member_state_at i db) (member_state_at i db')"
proof -
  have ids: "distinct (map ou_id (organization_users db))" using assms(1) by (simp add: members_unique_def)
  from route_effect [OF ids assms(2,3)] consider "db' = db" | "one_member_changed site db db'" | "members_invited site db db'"
    by (auto simp: request_effect_def)
  then show ?thesis
  proof cases
    case 1
    then show ?thesis using assms(4) by (simp add: stays)
  next
    case 2
    then obtain m new where m: "m \<in> set (organization_users db)" and t: "member_transition site db m new"
      and d: "organization_users db' = replaced m new (organization_users db)"
      unfolding one_member_changed_def by blast
    have ok: "member_ok m" using assms(4) m by blast
    have "\<forall>m \<in> set (organization_users db'). member_ok m"
      using assms(4) m transition_ok [of site db m] t ok by (auto simp: d set_replaced)
    moreover have "sql_first (\<lambda>r. ou_id r = i) (organization_users db') = (if i = ou_id m then new else sql_first (\<lambda>r. ou_id r = i) (organization_users db))"
      unfolding d by (rule replaced_first [OF ids m]) (use t transition_key in auto)
    moreover have "sql_first (\<lambda>r. ou_id r = ou_id m) (organization_users db) = Some m"
      by (rule sql_first_key [OF ids m])
    ultimately show ?thesis using transition_moves [OF t ok] by (auto simp: member_state_at_def intro: stays)
  next
    case 3
    then obtain ty invites where ty: "ty \<in> {0, 1, 2}" and u: "members_unique (organization_users db')"
      and d: "organization_users db' = organization_users db @ map (invited_member (ms_organization_id site) ty (ms_now site)) invites"
      unfolding members_invited_def by blast
    let ?rows = "map (invited_member (ms_organization_id site) ty (ms_now site)) invites"
    have rows: "r \<in> set ?rows \<Longrightarrow> member_ok r \<and> member_state_of r = Invited" for r
      using ty by (auto simp: invited_member_def member_ok_def member_state_of_def)
    have "sql_first p (t @ t') = (case sql_first p t of None \<Rightarrow> sql_first p t' | Some r \<Rightarrow> Some r)" for p :: "organization_user_row \<Rightarrow> bool" and t t'
      by (induction t) (auto simp: sql_first_def)
    note first = this
    have new: "map_option member_state_of (sql_first (\<lambda>m. ou_id m = i) ?rows) \<in> {None, Some Invited}"
    proof (cases "sql_first (\<lambda>m. ou_id m = i) ?rows")
      case (Some r)
      then have "r \<in> set ?rows" using sql_first_SomeD by fast
      with Some rows [of r] show ?thesis by simp
    qed simp
    have "member_moves (member_state_at i db) (member_state_at i db')"
    proof (cases "sql_first (\<lambda>m. ou_id m = i) (organization_users db)")
      case None
      then have "member_state_at i db = None" "member_state_at i db' \<in> {None, Some Invited}"
        using new unfolding member_state_at_def d first by (simp_all only: option.case option.map)
      then show ?thesis by (auto intro: member_moves.intros)
    next
      case (Some m)
      then show ?thesis unfolding member_state_at_def d first by (simp add: stays)
    qed
    moreover have "\<forall>m \<in> set (organization_users db'). member_ok m" using assms(4) rows unfolding d by auto
    ultimately show ?thesis by blast
  qed
qed

section \<open>Audit\<close>

lemma request_auditD:
  "request_audit site membership e \<Longrightarrow>
     ev_actor_user_id e = Some (mact_user_id (ms_actor site)) \<and> ev_target_id e = Some membership \<and> ev_outcome e = ''success''"
  by (auto simp: request_audit_def audit_row_def membership_audit_def build_audit_event_def Let_def)

lemma performed_iff: "performed a \<longleftrightarrow> a = Inr MemberDone \<or> (\<exists>ids. a = Inr (DeliveryUnavailable ids))"
  by (auto simp: performed_def split: sum.splits membership_result.splits)

text \<open>
  C7. Every change to the members is recorded. Two answers of the membership routes stand for stored rows: ``done'', and the 503
  ``delivery unavailable'' of an invitation whose members were stored and whose mail could not be sent (it says
  \<open>persisted: true\<close>). After either, the request has appended at least one audit row, each naming the actor and success, and
  every membership that was added, removed or rewritten is the target of one of them. After every other answer - a listing, a
  refusal, not found, a conflict, the rate limit, an error of the database - the database is as it was.
\<close>

theorem membership_changes_are_audited:
  assumes "distinct (map ou_id (organization_users db))" "fresh_request site db" "membership_route site op db = (db', a)"
  shows "if a = Inr MemberDone \<or> (\<exists>ids. a = Inr (DeliveryUnavailable ids))
    then \<exists>es. es \<noteq> [] \<and> audit_events db' = audit_events db @ es \<and>
      (\<forall>e \<in> set es. ev_actor_user_id e = Some (mact_user_id (ms_actor site)) \<and> ev_outcome e = ''success'') \<and>
      (\<forall>m \<in> (set (organization_users db) - set (organization_users db')) \<union> (set (organization_users db') - set (organization_users db)).
         \<exists>e \<in> set es. ev_target_id e = Some (ou_id m))
    else db' = db"
proof -
  from route_effect [OF assms] consider "\<not> performed a" "db' = db" | "performed a" "one_member_changed site db db'"
    | "performed a" "members_invited site db db'"
    by (auto simp: request_effect_def)
  then show ?thesis
  proof cases
    case 2
    then obtain m new e where m: "m \<in> set (organization_users db)" "member_at (ms_membership_id site) (ms_organization_id site) m"
      and t: "member_transition site db m new" and d: "organization_users db' = replaced m new (organization_users db)"
      and e: "request_audit site (ms_membership_id site) e" "audit_events db' = audit_events db @ [e]"
      unfolding one_member_changed_def by blast
    have "ou_id r = ms_membership_id site"
      if "r \<in> (set (organization_users db) - set (organization_users db')) \<union> (set (organization_users db') - set (organization_users db))" for r
      using that m transition_key [of site db m r] t by (auto simp: d set_replaced member_at_def)
    with 2(1) [unfolded performed_iff] e request_auditD [OF e(1)] show ?thesis by (auto intro!: exI [of _ "[e]"])
  next
    case 3
    then obtain ty invites es where ne: "invites \<noteq> []"
      and d: "organization_users db' = organization_users db @ map (invited_member (ms_organization_id site) ty (ms_now site)) invites"
      and es: "audit_events db' = audit_events db @ es" "list_all2 (\<lambda>v e. request_audit site (mi_id v) e) invites es"
      unfolding members_invited_def by blast
    have "\<exists>e \<in> set es. request_audit site (mi_id v) e" if "v \<in> set invites" for v
      using es(2) that by (metis in_set_conv_nth list_all2_conv_all_nth)
    then have "\<forall>v \<in> set invites. \<exists>e \<in> set es. ev_target_id e = Some (mi_id v)" using request_auditD by blast
    moreover have "\<forall>e \<in> set es. \<exists>v. request_audit site v e" using es(2) by (metis in_set_conv_nth list_all2_conv_all_nth)
    then have "\<forall>e \<in> set es. ev_actor_user_id e = Some (mact_user_id (ms_actor site)) \<and> ev_outcome e = ''success''"
      using request_auditD by blast
    moreover have "es \<noteq> []" using ne es(2) by auto
    ultimately show ?thesis using 3(1) [unfolded performed_iff] es(1) by (auto simp: d invited_member_def intro!: exI [of _ es])
  qed (simp add: performed_iff)
qed

end
