(* ===== verification/GroupWriteProofs.thy ===== *)
theory GroupWriteProofs
  imports OwnerProofs
begin

text \<open>
  A write of a group: it is applied as a whole or not at all, what is read back is what was asked for, and a write that expects another
  revision is refused.
\<close>

section \<open>The tables of a group\<close>

definition group_tables :: "database \<Rightarrow> organization_group_row list \<times> group_user_row list \<times> collection_group_row list" where
  "group_tables db = (organization_groups db, organization_group_users db, collection_groups db)"

abbreviation link_row :: "group_mutation \<Rightarrow> string \<Rightarrow> group_user_row" where
  "link_row i m \<equiv> \<lparr>gu_group_id = gm_group_id i, gu_organization_id = gs_organization_id (gm_scope i), gu_organization_user_id = m\<rparr>"

abbreviation assignment_row :: "group_mutation \<Rightarrow> collection_grant_request \<Rightarrow> collection_group_row" where
  "assignment_row i g \<equiv> \<lparr>cg_collection_id = gq_id g, cg_organization_id = gs_organization_id (gm_scope i), cg_group_id = gm_group_id i,
     cg_read_only = gq_read_only g, cg_hide_passwords = gq_hide_passwords g, cg_manage = gq_manage g\<rparr>"

lemma replacement_run:
  assumes "run_stmts (group_change_statements i (ReplaceGroup w)) d n = Inr (d', ns)" "marked (gm_mutation_id i) d"
  shows "organization_groups d' = organization_groups d \<and>
    filter (linked_to i) (organization_group_users d') = map (link_row i) (gw_users w) \<and>
    filter (assigned_to i) (collection_groups d') = map (assignment_row i) (gw_collections w)"
proof -
  let ?aid = "gm_mutation_id i"
  from assms(1) obtain d1 d2 d3 k1 k2 k3 k4 where
      del: "marked_delete organization_group_users organization_group_users_update (linked_to i) ?aid d n = Inr (d1, k1)"
    and ins: "insert_links i (gw_users w) d1 k1 = Inr (d2, k2)"
    and del': "marked_delete collection_groups collection_groups_update (assigned_to i) ?aid d2 k2 = Inr (d3, k3)"
    and ins': "insert_assignments i (gw_collections w) d3 k3 = Inr (d', k4)"
    by (auto simp: group_change_statements_def Let_def run_stmts_Inr when_marked_def assertion_Inr)
  from del assms(2) have d1: "d1 = organization_group_users_update (sql_delete (linked_to i)) d"
    by (simp add: marked_delete_def delete_stmt_Inr)
  then have "marked ?aid d1" using assms(2) by (simp add: marked_def)
  with ins have d2: "d2 = organization_group_users_update (\<lambda>t. t @ map (link_row i) (gw_users w)) d1"
    by (auto simp: insert_links_def split: if_splits)
  then have "marked ?aid d2" using \<open>marked ?aid d1\<close> by (simp add: marked_def)
  with del' have d3: "d3 = collection_groups_update (sql_delete (assigned_to i)) d2"
    by (simp add: marked_delete_def delete_stmt_Inr)
  then have "marked ?aid d3" using \<open>marked ?aid d2\<close> by (simp add: marked_def)
  with ins' have d': "d' = collection_groups_update (\<lambda>t. t @ map (assignment_row i) (gw_collections w)) d3"
    by (auto simp: insert_assignments_def split: if_splits)
  show ?thesis
    by (simp add: d' d3 d2 d1 sql_delete_def filter_map comp_def linked_to_def assigned_to_def)
qed

lemma middle_tables:
  assumes "run_stmts [assertion c, revision_statement org now aid, when_marked aid c1, users_revision_statement p now aid, when_marked aid c2] d n
    = Inr (d', ns)"
  shows "group_tables d' = group_tables d \<and> kept d d'"
proof -
  have "group_tables d' = group_tables d"
    using assms
    by (auto simp: run_stmts_Inr when_marked_def assertion_Inr revision_statement_def users_revision_statement_def group_tables_def
        dest!: update_not_null_Inr)
  moreover have "kept d d'" by (rule run_follows [OF _ assms]) (simp add: follows)
  ultimately show ?thesis by blast
qed

section \<open>One mutation\<close>

lemma group_statements_split:
  "group_statements first_write i c =
     [first_write, audit_statement (audit_row (gm_mutation_id i) (gm_audit_event i)) (\<lambda>db prev. prev = 1)] @
     [assertion (\<lambda>db prev. \<not> sql_exists (\<lambda>g. group_at i g \<and> og_last_mutation_id g = gm_mutation_id i) (organization_groups db) \<or>
        marked (gm_mutation_id i) db),
      revision_statement (gs_organization_id (gm_scope i)) (gm_now i) (gm_mutation_id i), when_marked (gm_mutation_id i) (\<lambda>db prev. prev = 1),
      users_revision_statement (affected_account i (new_group_users c)) (gm_now i) (gm_mutation_id i),
      when_marked (gm_mutation_id i) (\<lambda>db prev. prev = sql_count (affected_account i (new_group_users c) db) (users db))] @
     group_change_statements i c"
  by (simp add: group_statements_def Let_def)

lemma group_change_inert: "s \<in> set (group_change_statements i c) \<Longrightarrow> inert (gm_mutation_id i) s"
proof -
  have "inert (gm_mutation_id i) (insert_links i us)" "inert (gm_mutation_id i) (insert_assignments i gs)" "inert (gm_mutation_id i) (delete_group i)"
    for us gs
    by (auto simp: inert_def insert_links_def insert_assignments_def delete_group_def split: if_splits)
  then show "s \<in> set (group_change_statements i c) \<Longrightarrow> inert (gm_mutation_id i) s"
    by (auto simp: group_change_statements_def Let_def inert split: group_change.splits)
qed

lemma group_batch:
  assumes "batch (group_statements first_write i c) db = Inr (d, ns)" "\<not> marked (gm_mutation_id i) db"
    and "\<And>d1 k. first_write db 0 = Inr (d1, k) \<Longrightarrow> k = 0 \<and> d1 = db \<or> k = 1 \<and> audit_events d1 = audit_events db \<and>
      organization_users d1 = organization_users db \<and> authority_view d1 = authority_view db"
  shows "ns ! 1 = 0 \<and> d = db \<or>
    ns ! 1 = 1 \<and> organization_users d = organization_users db \<and> authority_view d = authority_view db \<and>
    (\<exists>d1 d2 n ms. first_write db 0 = Inr (d1, 1) \<and> group_tables d2 = group_tables d1 \<and> marked (gm_mutation_id i) d2 \<and>
      run_stmts (group_change_statements i c) d2 n = Inr (d, ms))"
proof -
  let ?mid = "[assertion (\<lambda>db prev. \<not> sql_exists (\<lambda>g. group_at i g \<and> og_last_mutation_id g = gm_mutation_id i) (organization_groups db) \<or>
      marked (gm_mutation_id i) db),
    revision_statement (gs_organization_id (gm_scope i)) (gm_now i) (gm_mutation_id i), when_marked (gm_mutation_id i) (\<lambda>db prev. prev = 1),
    users_revision_statement (affected_account i (new_group_users c)) (gm_now i) (gm_mutation_id i),
    when_marked (gm_mutation_id i) (\<lambda>db prev. prev = sql_count (affected_account i (new_group_users c) db) (users db))]"
  from assms(1) obtain d1 k d2 k2 ms where first: "first_write db 0 = Inr (d1, k)"
    and audit: "audit_statement (audit_row (gm_mutation_id i) (gm_audit_event i)) (\<lambda>db prev. prev = 1) d1 k = Inr (d2, k2)"
    and rest: "run_stmts (?mid @ group_change_statements i c) d2 k2 = Inr (d, ms)" and ns: "ns = k # k2 # ms"
    unfolding group_statements_split batch_def by (auto simp: run_stmts_Inr simp del: append_Cons append_Nil) (auto simp: run_stmts_Inr)
  from assms(3) [OF first] show ?thesis
  proof (elim disjE conjE)
    assume h: "k = 0" "d1 = db"
    with audit have d2: "d2 = db" "k2 = 0" by (auto simp: audit_statement_Inr)
    have "d = db"
      by (rule run_inert [OF _ rest [unfolded d2] assms(2)]) (auto simp: inert dest: group_change_inert)
    then show ?thesis by (simp add: ns d2)
  next
    assume h: "k = 1" "audit_events d1 = audit_events db" "organization_users d1 = organization_users db" "authority_view d1 = authority_view db"
    with audit have d2: "d2 = audit_events_update (\<lambda>t. t @ [audit_row (gm_mutation_id i) (gm_audit_event i)]) d1" "k2 = 1"
      by (auto simp: audit_statement_Inr)
    from rest obtain d3 n3 m3 where mid: "run_stmts ?mid d2 k2 = Inr (d3, n3)"
      and tail: "run_stmts (group_change_statements i c) d3 (if n3 = [] then k2 else last n3) = Inr (d, m3)"
      unfolding run_stmts_append_Inr by blast
    note mid' = middle_tables [OF mid]
    have "marked (gm_mutation_id i) d2" by (simp add: d2 marked_def sql_exists_iff)
    then have "marked (gm_mutation_id i) d3" using mid' by (simp add: kept_def marked_def)
    moreover have "group_tables d3 = group_tables d1" using mid' by (simp add: group_tables_def d2)
    moreover have "kept d3 d" by (rule run_follows [OF _ tail]) (blast dest: group_change_follows)
    moreover have "authority_view d2 = authority_view d1" by (simp add: d2 authority_view_def)
    moreover have "organization_users d2 = organization_users d1" by (simp add: d2)
    ultimately show ?thesis
      using mid' first tail h by (auto simp: ns d2(2) kept_def)
  qed
qed

section \<open>The first write\<close>

abbreviation read_group :: "group_mutation \<Rightarrow> organization_group_row list \<Rightarrow> organization_group_row option" where
  "read_group i \<equiv> sql_first (\<lambda>g. og_organization_id g = gs_organization_id (gm_scope i) \<and> og_id g = gm_group_id i)"

lemma sql_first_unique:
  assumes "distinct (map key t)" "m \<in> set t" "q m" "\<And>r. q r \<Longrightarrow> key r = key m"
  shows "sql_first q t = Some m"
proof -
  obtain r where r: "sql_first q t = Some r" using assms(2,3) sql_first_None [of q t] by (cases "sql_first q t") auto
  from sql_first_SomeD [OF r] assms have "r = m" by (metis distinct_key_unique)
  with r show ?thesis by simp
qed

lemma insert_group_effect:
  assumes "insert_group i w db 0 = Inr (d, k)"
  shows "k = 0 \<and> d = db \<or> k = 1 \<and> audit_events d = audit_events db \<and> organization_users d = organization_users db \<and>
    authority_view d = authority_view db \<and> group_manager (gm_scope i) db \<and> valid_requested_access (gm_scope i) w db \<and>
    (\<exists>g. read_group i (organization_groups d) = Some g \<and> og_name g = gw_name w)"
proof (cases "group_manager (gm_scope i) db \<and> valid_requested_access (gm_scope i) w db")
  case False
  with assms show ?thesis by (auto simp: insert_group_def split: if_splits)
next
  case True
  with assms obtain revision where no: "\<not> sql_exists (\<lambda>g. og_id g = gm_group_id i) (organization_groups db)" and k: "k = 1"
    and d: "d = organization_groups_update (\<lambda>t. t @ [\<lparr>og_id = gm_group_id i, og_organization_id = gs_organization_id (gm_scope i),
        og_name = gw_name w, og_revision_date = revision, og_last_mutation_id = gm_mutation_id i, og_created_at = gm_now i,
        og_updated_at = gm_now i\<rparr>]) db"
    by (auto simp: insert_group_def split: if_splits option.splits)
  have "read_group i (organization_groups db) = None" using no by (auto simp: sql_first_None sql_exists_iff)
  then show ?thesis using True k by (simp add: d sql_first_append authority_view_def)
qed

lemma touch_groups_effect:
  assumes "distinct (map og_id (organization_groups db))" "touch_groups i p name db 0 = Inr (d, k)"
  shows "k = 0 \<and> d = db \<or> k = 1 \<and> audit_events d = audit_events db \<and> organization_users d = organization_users db \<and>
    authority_view d = authority_view db \<and>
    (\<exists>g \<in> set (organization_groups db). manageable_group i db g \<and> p db g \<and>
       (\<exists>g'. read_group i (organization_groups d) = Some g' \<and> og_name g' = (case name of None \<Rightarrow> og_name g | Some n \<Rightarrow> n)))"
proof -
  let ?p = "\<lambda>g. manageable_group i db g \<and> p db g" and ?t = "organization_groups db"
  let ?f = "\<lambda>g. the (touched_group i name g)"
  from update_not_null_Inr [OF assms(2) [unfolded touch_groups_def]]
  have d: "d = organization_groups_update (sql_update ?p ?f) db" and k: "k = sql_count ?p ?t"
    and some: "\<forall>g \<in> set ?t. ?p g \<longrightarrow> touched_group i name g \<noteq> None" by simp_all
  have ids: "?p g \<Longrightarrow> og_id g = gm_group_id i" for g by (simp add: manageable_group_def group_at_def)
  have touched: "g \<in> set ?t \<Longrightarrow> ?p g \<Longrightarrow> og_id (?f g) = og_id g \<and> og_organization_id (?f g) = og_organization_id g \<and>
      og_name (?f g) = (case name of None \<Rightarrow> og_name g | Some n \<Rightarrow> n)" for g
    using some by (auto simp: touched_group_def)
  show ?thesis
  proof (cases "\<exists>g \<in> set ?t. ?p g")
    case False
    then have "k = 0" by (simp add: k sql_count_0)
    then show ?thesis by (simp add: d k sql_update_none)
  next
    case True
    then obtain g where g: "g \<in> set ?t" "?p g" by blast
    have "k = 1" using sql_count_1_iff [where p = ?p, OF assms(1) ids] True by (simp add: k)
    have "map og_id (organization_groups d) = map og_id ?t"
      unfolding d using touched by (auto intro!: map_view_update)
    then have dist: "distinct (map og_id (organization_groups d))" using assms(1) by simp
    have "?f g \<in> set (organization_groups d)" using updated_row_in [where p = ?p and f = ?f, OF g] by (simp add: d)
    moreover have "og_organization_id (?f g) = gs_organization_id (gm_scope i)" "og_id (?f g) = gm_group_id i"
      using touched [OF g] g(2) by (simp_all add: manageable_group_def group_at_def)
    ultimately have "read_group i (organization_groups d) = Some (?f g)" by (intro sql_first_unique [OF dist]) simp_all
    with touched [OF g] g \<open>k = 1\<close> show ?thesis by (auto simp: d authority_view_def)
  qed
qed

section \<open>What is written is read back\<close>

lemma insort_key_map: "map f (insort_key (\<lambda>x. k (f x)) x xs) = insort_key k (f x) (map f xs)"
  by (induction xs) auto

lemma sort_key_map: "sort_key k (map f xs) = map f (sort_key (\<lambda>x. k (f x)) xs)"
  by (induction xs) (simp_all add: insort_key_map)

lemma group_manager_view:
  assumes "organization_users d = organization_users db" "authority_view d = authority_view db"
  shows "group_manager s d = group_manager s db"
proof -
  have "devices d = devices db" "user_totp d = user_totp db" using assms(2) by (simp_all add: authority_view_def)
  then show ?thesis
    using assms active_user_view [OF assms(2)] enabled_view [OF assms(2)] two_step_view [OF assms(2)]
    by (simp add: group_manager_def acts_in_organization_def actor_policy_def active_actor_family_def organization_policy_allows_def
        organization_session_totp_verified_def)
qed

definition shows_write :: "group_record \<Rightarrow> group_write \<Rightarrow> bool" where
  "shows_write g w \<longleftrightarrow> gr_name g = gw_name w \<and> gr_users g = sort (gw_users w) \<and> gr_collections g = sort_key gq_id (gw_collections w)"

lemma written_group:
  assumes "read_group i (organization_groups d) = Some g" "og_name g = gw_name w" "group_manager (gm_scope i) d"
    and "filter (linked_to i) (organization_group_users d) = map (link_row i) (gw_users w)"
    and "filter (assigned_to i) (collection_groups d) = map (assignment_row i) (gw_collections w)"
  shows "\<exists>r. find_organization_group (gm_scope i) (gm_group_id i) d = Some r \<and> shows_write r w"
proof -
  from sql_first_SomeD [OF assms(1)] have "og_organization_id g = gs_organization_id (gm_scope i)" "og_id g = gm_group_id i" by simp_all
  then have "filter (\<lambda>l. gu_group_id l = og_id g \<and> gu_organization_id l = og_organization_id g) (organization_group_users d) = map (link_row i) (gw_users w)"
    "filter (\<lambda>c. cg_group_id c = og_id g \<and> cg_organization_id c = og_organization_id g) (collection_groups d) = map (assignment_row i) (gw_collections w)"
    using assms(4,5) by (simp_all add: linked_to_def [abs_def] assigned_to_def [abs_def])
  moreover have "(\<lambda>g. \<lparr>gq_id = gq_id g, gq_read_only = gq_read_only g, gq_hide_passwords = gq_hide_passwords g, gq_manage = gq_manage g\<rparr>) = (\<lambda>g. g)"
    by (rule ext) simp
  ultimately have "shows_write (group_from_row d g) w"
    using assms(2) by (simp add: shows_write_def group_from_row_def sort_key_map comp_def)
  then show ?thesis using assms(1,3) by (simp add: find_organization_group_def)
qed

lemma change_effect:
  assumes "distinct (map og_id (organization_groups db))" "\<not> marked (gm_mutation_id i) db" "change_group i create c db = (db', a)"
  shows "a \<noteq> Inr GroupDone \<and> db' = db \<or>
    a = Inr GroupDone \<and> group_manager (gm_scope i) db \<and>
    (create \<and> (\<exists>w. c = ReplaceGroup w) \<or> (\<exists>g \<in> set (organization_groups db). manageable_group i db g)) \<and>
    (\<forall>w. c = ReplaceGroup w \<longrightarrow> valid_requested_access (gm_scope i) w db \<and>
       (\<exists>r. find_organization_group (gm_scope i) (gm_group_id i) db' = Some r \<and> shows_write r w))"
proof -
  let ?first = "group_root i create c"
  have first: "k = 0 \<and> d1 = db \<or> k = 1 \<and> audit_events d1 = audit_events db \<and> organization_users d1 = organization_users db \<and>
      authority_view d1 = authority_view db \<and> group_manager (gm_scope i) db \<and>
      (create \<and> (\<exists>w. c = ReplaceGroup w) \<or> (\<exists>g \<in> set (organization_groups db). manageable_group i db g)) \<and>
      (\<forall>w. c = ReplaceGroup w \<longrightarrow> valid_requested_access (gm_scope i) w db \<and>
         (\<exists>g. read_group i (organization_groups d1) = Some g \<and> og_name g = gw_name w))"
    if run: "?first db 0 = Inr (d1, k)" for d1 k
  proof (cases "\<exists>w. c = ReplaceGroup w \<and> create")
    case True
    with run insert_group_effect [of i _ db d1 k] show ?thesis by (auto simp: group_root_def)
  next
    case False
    then obtain p name where t: "?first = touch_groups i p name"
      and w: "\<And>w. c = ReplaceGroup w \<Longrightarrow> name = Some (gw_name w) \<and> p = (\<lambda>db g. valid_requested_access (gm_scope i) w db)"
      by (cases c) (auto simp: group_root_def)
    from touch_groups_effect [OF assms(1) run [unfolded t]] show ?thesis
    proof (elim disjE conjE bexE exE)
      fix g g'
      assume h: "k = 1" "audit_events d1 = audit_events db" "organization_users d1 = organization_users db" "authority_view d1 = authority_view db"
        "g \<in> set (organization_groups db)" "manageable_group i db g" "p db g" "read_group i (organization_groups d1) = Some g'"
        "og_name g' = (case name of None \<Rightarrow> og_name g | Some n \<Rightarrow> n)"
      have "group_manager (gm_scope i) db" using h(6) by (simp add: manageable_group_def)
      then show ?thesis using h w by auto
    qed simp
  qed
  show ?thesis
  proof (cases "batch (group_statements ?first i c) db")
    case (Inl e)
    with assms(3) show ?thesis by (auto simp: change_group_def run_group_mutation_def with_batch_def)
  next
    case (Inr r)
    obtain d ns where b: "batch (group_statements ?first i c) db = Inr (d, ns)" using Inr by (cases r) simp
    have "ns ! 1 = 0 \<and> d = db \<or>
      ns ! 1 = 1 \<and> organization_users d = organization_users db \<and> authority_view d = authority_view db \<and>
      (\<exists>d1 d2 n ms. ?first db 0 = Inr (d1, 1) \<and> group_tables d2 = group_tables d1 \<and> marked (gm_mutation_id i) d2 \<and>
        run_stmts (group_change_statements i c) d2 n = Inr (d, ms))"
      by (rule group_batch [OF b assms(2)]) (use first in blast)
    then show ?thesis
    proof (elim disjE conjE exE)
      assume "ns ! 1 = 0" "d = db"
      with assms(3) b show ?thesis
        by (auto simp: change_group_def run_group_mutation_def with_batch_def bind_get return_value_def split: option.splits if_splits)
    next
      fix d1 d2 n ms
      assume h: "ns ! 1 = 1" "organization_users d = organization_users db" "authority_view d = authority_view db"
        "?first db 0 = Inr (d1, 1)" "group_tables d2 = group_tables d1" "marked (gm_mutation_id i) d2"
        "run_stmts (group_change_statements i c) d2 n = Inr (d, ms)"
      from assms(3) b h(1) have a: "a = Inr GroupDone" "db' = d"
        by (simp_all add: change_group_def run_group_mutation_def with_batch_def return_value_def)
      have "\<exists>r. find_organization_group (gm_scope i) (gm_group_id i) db' = Some r \<and> shows_write r w" if "c = ReplaceGroup w" for w
      proof -
        from replacement_run [OF h(7) [unfolded that] h(6)] have r: "organization_groups d = organization_groups d1"
          "filter (linked_to i) (organization_group_users d) = map (link_row i) (gw_users w)"
          "filter (assigned_to i) (collection_groups d) = map (assignment_row i) (gw_collections w)"
          using h(5) by (simp_all add: group_tables_def)
        from first [OF h(4)] that obtain g where "read_group i (organization_groups d1) = Some g" "og_name g = gw_name w"
          and "group_manager (gm_scope i) db" by auto
        with written_group [of i d g w] r group_manager_view [OF h(2,3)] show ?thesis by (simp add: a(2))
      qed
      with first [OF h(4)] a(1) show ?thesis by auto
    qed
  qed
qed

section \<open>The requests\<close>

definition requested_write :: "group_operation \<Rightarrow> group_write option" where
  "requested_write op =
     (case op of CreateGroup (Some body) \<Rightarrow> parse_organization_group_write_request body
      | UpdateGroup (Some body) \<Rightarrow> parse_organization_group_write_request body | _ \<Rightarrow> None)"

definition group_changed :: "js_error + group_result \<Rightarrow> bool" where
  "group_changed a \<longleftrightarrow> (case a of Inr GroupChanged \<Rightarrow> True | Inr (GroupShown g etag) \<Rightarrow> True | _ \<Rightarrow> False)"

definition awaited_revision :: "group_site \<Rightarrow> string option" where
  "awaited_revision site = Option.bind (parse_organization_group_if_match (gt_if_match site) (gt_group_id site)) (\<lambda>r. r)"

lemma found_id: "find_organization_group s i db = Some g \<Longrightarrow> gr_id g = i"
  by (auto simp: find_organization_group_def group_from_row_def split: if_splits dest: sql_first_SomeD)

lemma site_group_mutation_simps [simp]:
  "gm_scope (site_group_mutation site i r name ctx) = gt_scope site" "gm_group_id (site_group_mutation site i r name ctx) = i"
  "gm_expected_revision (site_group_mutation site i r name ctx) = r" "gm_mutation_id (site_group_mutation site i r name ctx) = gt_mutation_id site"
  by (simp_all add: site_group_mutation_def)

text \<open>What a request with a body or a removal does, with the revision it awaits.\<close>

definition exact_answer :: "group_site \<Rightarrow> string option \<Rightarrow> group_write option \<Rightarrow> database \<Rightarrow> database \<Rightarrow> js_error + group_result \<Rightarrow> bool" where
  "exact_answer site revision w db db' a \<longleftrightarrow>
     \<not> group_changed a \<and> db' = db \<or>
     group_changed a \<and> group_manager (gt_scope site) db \<and>
     (revision = None \<or> (\<exists>g \<in> set (organization_groups db). og_id g = gt_group_id site \<and> revision = Some (og_revision_date g))) \<and>
     (\<forall>v. w = Some v \<longrightarrow> valid_requested_access (gt_scope site) v db \<and>
        (\<exists>g etag. a = Inr (GroupShown g etag) \<and> shows_write g v \<and> find_organization_group (gt_scope site) (gr_id g) db' = Some g))"

lemma group_changed_simps [simp]:
  "group_changed (Inr GroupChanged)" "group_changed (Inr (GroupShown g e))" "\<not> group_changed (Inl e')" "\<not> group_changed (Inr GroupMissing)"
  "\<not> group_changed (Inr GroupsConflict)" "\<not> group_changed (Inr GroupRefused)" "\<not> group_changed (Inr (GroupsListed gs))"
  "\<not> group_changed (Inr (GroupUsers us e))"
  by (simp_all add: group_changed_def)

lemma write_exact:
  assumes "distinct (map og_id (organization_groups db))" "\<not> marked (gt_mutation_id site) db"
    and "create \<or> i = gt_group_id site" "create \<Longrightarrow> revision = None"
    and "repo_bind (change_group (site_group_mutation site i revision name ctx) create (ReplaceGroup v)) (read_after_write site i) db = (db', a)"
  shows "exact_answer site revision (Some v) db db' a"
proof -
  let ?i = "site_group_mutation site i revision name ctx"
  obtain d x where run: "change_group ?i create (ReplaceGroup v) db = (d, x)" by fastforce
  have "\<not> marked (gm_mutation_id ?i) db" using assms(2) by simp
  from change_effect [OF assms(1) this run] consider "x \<noteq> Inr GroupDone" "d = db"
    | "x = Inr GroupDone" "group_manager (gm_scope ?i) db"
      "create \<and> (\<exists>w. ReplaceGroup v = ReplaceGroup w) \<or> (\<exists>g \<in> set (organization_groups db). manageable_group ?i db g)"
      "\<forall>w. ReplaceGroup v = ReplaceGroup w \<longrightarrow> valid_requested_access (gm_scope ?i) w db \<and>
        (\<exists>r. find_organization_group (gm_scope ?i) (gm_group_id ?i) d = Some r \<and> shows_write r w)" by argo
  then show ?thesis
  proof cases
    case 1
    with assms(5) run have "db' = db \<and> \<not> group_changed a"
      by (cases x) (auto simp: bind_run read_after_write_def return_value_def group_outcome_result_def split: group_outcome.splits)
    then show ?thesis by (simp add: exact_answer_def)
  next
    case h: 2
    from h(4) obtain r where r: "find_organization_group (gt_scope site) i d = Some r" "shows_write r v" "valid_requested_access (gt_scope site) v db" by auto
    with assms(5) run h(1) have a: "db' = d" "a = Inr (GroupShown r (organization_group_etag r))"
      by (simp_all add: bind_run read_after_write_def bind_get return_value_def)
    have "revision = None \<or> (\<exists>g \<in> set (organization_groups db). og_id g = gt_group_id site \<and> revision = Some (og_revision_date g))"
      using h(3) assms(3,4) by (auto simp: manageable_group_def group_at_def)
    moreover have "find_organization_group (gt_scope site) (gr_id r) d = Some r" using r(1) found_id [OF r(1)] by simp
    ultimately show ?thesis using h(2) r by (auto simp: exact_answer_def a)
  qed
qed

lemma removal_exact:
  assumes "distinct (map og_id (organization_groups db))" "\<not> marked (gt_mutation_id site) db" "\<And>w. c \<noteq> ReplaceGroup w"
    and "repo_bind (change_group (site_group_mutation site (gt_group_id site) revision name ctx) False c) (\<lambda>r. return_value (group_outcome_result r)) db = (db', a)"
  shows "exact_answer site revision None db db' a"
proof -
  let ?i = "site_group_mutation site (gt_group_id site) revision name ctx"
  obtain d x where run: "change_group ?i False c db = (d, x)" by fastforce
  have "\<not> marked (gm_mutation_id ?i) db" using assms(2) by simp
  from change_effect [OF assms(1) this run] consider "x \<noteq> Inr GroupDone" "d = db"
    | "x = Inr GroupDone" "group_manager (gm_scope ?i) db"
      "False \<and> (\<exists>w. c = ReplaceGroup w) \<or> (\<exists>g \<in> set (organization_groups db). manageable_group ?i db g)" by argo
  then show ?thesis
  proof cases
    case 1
    with assms(4) run have "db' = db \<and> \<not> group_changed a"
      by (cases x) (auto simp: bind_run return_value_def group_outcome_result_def split: group_outcome.splits)
    then show ?thesis by (simp add: exact_answer_def)
  next
    case 2
    with assms(4) run show ?thesis
      by (auto simp: bind_run return_value_def group_outcome_result_def exact_answer_def manageable_group_def group_at_def)
  qed
qed

lemma group_route_exact:
  assumes "distinct (map og_id (organization_groups db))" "\<not> marked (gt_mutation_id site) db" "organization_group_route site op db = (db', a)"
  shows "db' = db \<and> requested_write op = None \<or> db' = db \<and> \<not> group_changed a \<or>
    exact_answer site (awaited_revision site) (requested_write op) db db' a"
proof (cases "parse_organization_group_if_match (gt_if_match site) (gt_group_id site)")
  case None
  with assms(3) show ?thesis by (auto simp: organization_group_route_def return_value_def)
next
  case (Some r)
  then have r: "awaited_revision site = r" by (simp add: awaited_revision_def)
  show ?thesis
  proof (cases "group_request_valid site op")
    case False
    with assms(3) Some show ?thesis by (auto simp: organization_group_route_def return_value_def)
  next
    case valid: True
    have none: "r = None" if "\<not> accepts_if_match op"
      using that valid Some by (auto simp: group_request_valid_def parse_organization_group_if_match_def)
    show ?thesis
    proof (cases op)
      case (CreateGroup body)
      then have "r = None" using none by (simp add: accepts_if_match_def)
      with CreateGroup assms valid Some r show ?thesis
        by (auto simp: organization_group_route_def create_organization_group_def requested_write_def return_value_def
            split: option.splits intro!: write_exact [where create = True])
    next
      case (UpdateGroup body)
      with assms valid Some r show ?thesis
        by (auto simp: organization_group_route_def update_organization_group_def requested_write_def return_value_def
            split: option.splits intro!: write_exact [where create = False])
    next
      case DropGroup
      with assms valid Some r show ?thesis
        by (auto simp: organization_group_route_def delete_organization_group_def requested_write_def
            intro!: removal_exact [where c = DeleteGroup])
    next
      case DropGroupMember
      with assms valid Some r show ?thesis
        by (auto simp: organization_group_route_def remove_organization_group_member_def requested_write_def
            intro!: removal_exact [where c = "RemoveFromGroup (gt_membership_id site)"])
    qed (use assms(3) Some valid in \<open>auto simp: organization_group_route_def bind_get return_value_def requested_write_def split: option.splits\<close>)
  qed
qed

text \<open>
  C8. A group is written exactly as asked or not at all. When a request to create or to update a group is answered with the group, that group has the
  name, the members and the collections of the request and is what the next read returns, the caller manages the groups of the
  organisation, and every collection and member asked for is one that the caller may use. A request that is answered otherwise than
  with a group or with success changes nothing, and neither does one whose If-Match names another revision than the stored one.
\<close>

theorem group_write_is_exact:
  assumes "distinct (map og_id (organization_groups db))" "\<not> marked (gt_mutation_id site) db" "organization_group_route site op db = (db', a)"
  shows "(\<forall>g etag w. a = Inr (GroupShown g etag) \<and> requested_write op = Some w \<longrightarrow>
            gr_name g = gw_name w \<and> gr_users g = sort (gw_users w) \<and> gr_collections g = sort_key gq_id (gw_collections w) \<and>
            find_organization_group (gt_scope site) (gr_id g) db' = Some g \<and>
            group_manager (gt_scope site) db \<and> valid_requested_access (gt_scope site) w db) \<and>
         (\<not> group_changed a \<longrightarrow> db' = db) \<and>
         (\<forall>g r. g \<in> set (organization_groups db) \<and> og_id g = gt_group_id site \<and> awaited_revision site = Some r \<and> r \<noteq> og_revision_date g \<longrightarrow>
            db' = db)"
proof -
  have same: "g = h" if "g \<in> set (organization_groups db)" "h \<in> set (organization_groups db)" "og_id g = og_id h" for g h
    using that distinct_key_unique [OF assms(1)] by blast
  from group_route_exact [OF assms] consider "db' = db" "requested_write op = None" | "db' = db" "\<not> group_changed a"
    | "exact_answer site (awaited_revision site) (requested_write op) db db' a" by argo
  then show ?thesis
  proof cases
    case 3
    have stale: "db' = db" if "g \<in> set (organization_groups db)" "og_id g = gt_group_id site" "awaited_revision site = Some r" "r \<noteq> og_revision_date g" for g r
      using 3 that same [OF that(1)] unfolding exact_answer_def by (metis option.distinct(1) option.inject)
    have refused: "db' = db" if "\<not> group_changed a" using 3 that unfolding exact_answer_def by blast
    have "gr_name g = gw_name w \<and> gr_users g = sort (gw_users w) \<and> gr_collections g = sort_key gq_id (gw_collections w) \<and>
        find_organization_group (gt_scope site) (gr_id g) db' = Some g \<and> group_manager (gt_scope site) db \<and>
        valid_requested_access (gt_scope site) w db"
      if "a = Inr (GroupShown g etag)" "requested_write op = Some w" for g etag w
      using 3 that by (auto simp: exact_answer_def shows_write_def)
    with stale refused show ?thesis by blast
  qed auto
qed

end
