(* ===== verification/OrganizationSample.thy ===== *)
theory OrganizationSample
  imports MemberProofs GroupWriteProofs SessionProofs
begin

text \<open>An organisation with its owner, an invitation and a group, on which the properties of the administration are applied.\<close>

declare run_stmts.simps [simp del]

definition sample_member :: "string \<Rightarrow> string option \<Rightarrow> int \<Rightarrow> int \<Rightarrow> organization_user_row" where
  "sample_member i uid status ty =
     \<lparr>ou_id = i, ou_organization_id = ''g1'', ou_user_id = uid, ou_email = i @ ''@b.co'', ou_org_key = (if status = 2 then Some ''k'' else None),
      ou_status = status, ou_type = ty, ou_permissions = None, ou_invite_token_hash = (if status = 0 then Some ''h'' else None),
      ou_invite_expires_at = (if status = 0 then Some (iso_text 9000) else None), ou_last_membership_mutation_id = None,
      ou_created_at = ''r'', ou_updated_at = ''r''\<rparr>"

definition sample_organization :: organization_row where
  "sample_organization =
     \<lparr>org_id = ''g1'', org_name = ''G'', org_billing_email = None, org_plan_type = 0, org_public_key = None, org_private_key = None,
      org_enabled = True, org_use_totp = True, org_revision_date = iso_text 0, org_created_at = ''r'', org_updated_at = ''r''\<rparr>"

definition sample_group :: organization_group_row where
  "sample_group =
     \<lparr>og_id = ''t1'', og_organization_id = ''g1'', og_name = ''T'', og_revision_date = iso_text 0, og_last_mutation_id = ''l'',
      og_created_at = ''r'', og_updated_at = ''r''\<rparr>"

definition organization_sample :: database where
  "organization_sample = (empty_database ''n'')
     \<lparr>users := [sample_user], organizations := [sample_organization],
      organization_users := [sample_member ''m1'' (Some ''u1'') 2 0, sample_member ''m2'' None 0 2],
      organization_groups := [sample_group]\<rparr>"

definition sample_site :: membership_site where
  "sample_site =
     \<lparr>ms_hmac = (\<lambda>k d. []), ms_invite_secret = [],
      ms_actor = \<lparr>mact_user_id = ''u1'', mact_email_normalized = ''m1@b.co'', mact_session_id = None, mact_device_identifier = None\<rparr>,
      ms_organization_id = ''g1'', ms_membership_id = ''m2'', ms_request_id = ''q'', ms_now = iso_text 5000, ms_drawn = [],
      ms_mutation_id = ''a1'', ms_entropy = [], ms_deliver = (\<lambda>e t m x. True)\<rparr>"

lemma sample_member_simps [simp]:
  "ou_id (sample_member i u st ty) = i" "ou_organization_id (sample_member i u st ty) = ''g1''" "ou_user_id (sample_member i u st ty) = u"
  "ou_status (sample_member i u st ty) = st" "ou_type (sample_member i u st ty) = ty"
  by (simp_all add: sample_member_def)

lemma sample_organization_simps [simp]:
  "org_id sample_organization = ''g1''" "org_revision_date sample_organization = iso_text 0" "org_enabled sample_organization"
  by (simp_all add: sample_organization_def)

lemma update_same:
  "f (collection_users db) = collection_users db \<Longrightarrow> collection_users_update f db = db"
  "g (organization_group_users db) = organization_group_users db \<Longrightarrow> organization_group_users_update g db = db"
  "h (organizations db) = gs \<Longrightarrow> organizations_update h db = organizations_update (\<lambda>_. gs) db"
  "k (organization_users db) = ms \<Longrightarrow> organization_users_update k db = organization_users_update (\<lambda>_. ms) db"
  by (cases db, simp)+

lemma sample_tables [simp]:
  "audit_events organization_sample = []" "collection_users organization_sample = []" "organization_group_users organization_sample = []"
  "organization_policies organization_sample = []" "devices organization_sample = []" "collection_groups organization_sample = []"
  "organization_users organization_sample = [sample_member ''m1'' (Some ''u1'') 2 0, sample_member ''m2'' None 0 2]"
  "organizations organization_sample = [sample_organization]" "users organization_sample = [sample_user]"
  "organization_groups organization_sample = [sample_group]" "collections organization_sample = []"
  by (simp_all add: organization_sample_def empty_database_def)

lemma sample_hypotheses:
  "members_unique (organization_users organization_sample)" "distinct (map ou_id (organization_users organization_sample))"
  "fresh_request sample_site organization_sample" "\<forall>m \<in> set (organization_users organization_sample). member_ok m"
  by (simp_all add: members_unique_def sample_member_def fresh_request_def sample_site_def marked_def sql_exists_def member_ok_def)

lemma sample_era: "common_era 0" "common_era 5000" "common_era 5001" "common_era 9000" "max (iso_text 0) (iso_text 5000) = iso_text 5000"
proof -
  show era: "common_era 0" "common_era 5000" "common_era 5001" "common_era 9000" by (simp_all add: common_era_def)
  then show "max (iso_text 0) (iso_text 5000) = iso_text 5000" using iso_text_less_iff [of 0 5000] by (auto simp: max_def)
qed

lemma sample_next: "sqlite_next_ms (iso_text 5000) = Some (iso_text 5001)"
  by (simp add: sqlite_next_ms_def sample_era)

definition sample_mutation :: membership_mutation where
  "sample_mutation = site_mutation sample_site ''organization.member.revoke'' [(''toStatus'', jint (-1))]"

definition revocable :: "database \<Rightarrow> organization_user_row \<Rightarrow> bool" where
  "revocable db m \<longleftrightarrow> ou_status m \<in> {0, 1, 2} \<and> manages_member (mm_scope sample_mutation) db m \<and> not_last_owner db m"

lemma sample_site_simps [simp]:
  "ms_organization_id sample_site = ''g1''" "ms_membership_id sample_site = ''m2''" "ms_now sample_site = iso_text 5000"
  "ms_mutation_id sample_site = ''a1''" "mact_user_id (ms_actor sample_site) = ''u1''"
  "mm_scope sample_mutation = site_scope sample_site" "mm_membership_id sample_mutation = ''m2''" "mm_now sample_mutation = iso_text 5000"
  "mm_mutation_id sample_mutation = ''a1''"
  by (simp_all add: sample_site_def sample_mutation_def)

lemma sample_manages: "manages_member (site_scope sample_site) organization_sample (sample_member ''m2'' None 0 2)"
  by (simp add: manages_member_def acts_in_organization_def active_user_def enabled_organization_def actor_policy_def active_actor_family_def
      organization_policy_allows_def two_step_policy_def sql_exists_def site_scope_def sample_site_def)
    (simp add: sample_member_def sample_user_def sample_organization_def)

definition revoked_member_sample :: database where
  "revoked_member_sample = organization_sample
     \<lparr>organization_users := [sample_member ''m1'' (Some ''u1'') 2 0, stamped sample_site (revoked_member (sample_member ''m2'' None 0 2))]\<rparr>"

definition audited_sample :: database where
  "audited_sample = revoked_member_sample\<lparr>audit_events := [mutation_audit sample_mutation]\<rparr>"

definition revoked_sample :: database where
  "revoked_sample = audited_sample
     \<lparr>organizations := [sample_organization\<lparr>org_revision_date := iso_text 5001, org_updated_at := iso_text 5000\<rparr>]\<rparr>"

lemma sample_first: "update_members revocable revoked_member sample_mutation organization_sample 0 = Inr (revoked_member_sample, 1)"
proof -
  have "revocable organization_sample (sample_member ''m2'' None 0 2)"
    using sample_manages by (simp add: revocable_def not_last_owner_def)
  then have rows: "sql_update (\<lambda>m. member_at ''m2'' ''g1'' m \<and> revocable organization_sample m) (\<lambda>m. stamped sample_site (revoked_member m))
      (organization_users organization_sample) =
      [sample_member ''m1'' (Some ''u1'') 2 0, stamped sample_site (revoked_member (sample_member ''m2'' None 0 2))]"
    "sql_count (\<lambda>m. member_at ''m2'' ''g1'' m \<and> revocable organization_sample m) (organization_users organization_sample) = 1"
    by (simp_all add: sql_update_def sql_count_def member_at_def)
  have stamp: "(\<lambda>m. stamped sample_site (revoked_member m)) = (\<lambda>m. (revoked_member m)\<lparr>ou_updated_at := mm_now sample_mutation,
      ou_last_membership_mutation_id := Some (mm_mutation_id sample_mutation)\<rparr>)"
    by (simp add: stamped_def)
  have "update_members revocable revoked_member sample_mutation organization_sample 0 =
      Inr (organization_users_update (sql_update (\<lambda>m. member_at ''m2'' ''g1'' m \<and> revocable organization_sample m)
        (\<lambda>m. stamped sample_site (revoked_member m))) organization_sample,
        sql_count (\<lambda>m. member_at ''m2'' ''g1'' m \<and> revocable organization_sample m) (organization_users organization_sample))"
    unfolding stamp update_members_def update_stmt_def by (simp add: site_scope_def)
  also have "\<dots> = Inr (revoked_member_sample, 1)"
    unfolding rows(2) revoked_member_sample_def
    by (subst update_same(4) [where db = organization_sample and k = "sql_update (\<lambda>m. member_at ''m2'' ''g1'' m \<and> revocable organization_sample m)
      (\<lambda>m. stamped sample_site (revoked_member m))", OF rows(1)]) simp
  finally show ?thesis .
qed

lemma sample_audit: "audit_statement (mutation_audit sample_mutation) (\<lambda>db prev. prev = 1) revoked_member_sample 1 = Inr (audited_sample, 1)"
  by (simp add: audit_statement_def insert_audit_event_def sql_exists_def audited_sample_def revoked_member_sample_def)

lemma audited_tables [simp]:
  "marked ''a1'' audited_sample" "collection_users audited_sample = []" "organization_group_users audited_sample = []"
  "users audited_sample = [sample_user]" "organizations audited_sample = [sample_organization]"
  "organization_users audited_sample = [sample_member ''m1'' (Some ''u1'') 2 0, stamped sample_site (revoked_member (sample_member ''m2'' None 0 2))]"
  by (simp_all add: audited_sample_def revoked_member_sample_def marked_def sql_exists_def)

lemma revoked_tables [simp]:
  "marked ''a1'' revoked_sample" "collection_users revoked_sample = []" "organization_group_users revoked_sample = []"
  "users revoked_sample = [sample_user]" "organization_users revoked_sample = organization_users audited_sample"
  using audited_tables(1) by (simp_all add: revoked_sample_def marked_def)

lemma sample_grants:
  "marked_delete collection_users collection_users_update p ''a1'' audited_sample n = Inr (audited_sample, 0)"
  "insert_grants [] ''a1'' audited_sample n = Inr (audited_sample, 0)"
  "marked_delete organization_group_users organization_group_users_update q ''a1'' revoked_sample n = Inr (revoked_sample, 0)"
  by (simp_all add: marked_delete_def delete_stmt_def insert_grants_def sql_delete_def sql_count_def update_same)

lemma sample_advanced:
  "advanced_organization (iso_text 5000) sample_organization =
    Some (sample_organization\<lparr>org_revision_date := iso_text 5001, org_updated_at := iso_text 5000\<rparr>)"
  by (simp add: advanced_organization_def sample_next sample_era)

lemma sample_revision: "revision_statement ''g1'' (iso_text 5000) ''a1'' audited_sample n = Inr (revoked_sample, 1)"
proof -
  let ?h = "sql_update (\<lambda>g. org_id g = ''g1'' \<and> marked ''a1'' audited_sample) (\<lambda>g. the (advanced_organization (iso_text 5000) g))"
  have rows: "?h (organizations audited_sample) = [sample_organization\<lparr>org_revision_date := iso_text 5001, org_updated_at := iso_text 5000\<rparr>]"
    by (simp add: sql_update_def sample_advanced)
  have "organizations_update ?h audited_sample = revoked_sample"
    unfolding revoked_sample_def by (subst update_same(3) [where h = ?h, OF rows]) simp
  then show ?thesis
    unfolding revision_statement_def update_not_null_def by (simp add: sample_advanced sql_count_def)
qed

lemma sample_bound: "bound_account ''m2'' ''g1'' revoked_sample u = False"
  by (simp add: bound_account_def member_user_def sql_first_def member_at_def sample_member_def stamped_def revoked_member_def)

lemma sample_users_revision: "users_revision_statement (bound_account ''m2'' ''g1'') (iso_text 5000) ''a1'' revoked_sample n = Inr (revoked_sample, 0)"
  by (simp add: users_revision_statement_def update_not_null_def sample_bound sql_update_def sql_count_def)

lemma sample_batch:
  "batch (membership_statements (update_members revocable revoked_member sample_mutation) sample_mutation (Some []) False True) organization_sample =
    Inr (revoked_sample, [1, 1, 1, 0, 0, 0, 1, 1, 0, 0, 0, 0])"
  by (simp add: membership_statements_def grant_statements_def revision_statements_def clear_group_statements_def Let_def batch_def
      run_stmts.simps sample_first sample_audit [simplified] assertion_def when_marked_def sample_grants sample_revision sample_users_revision
      sample_bound sql_exists_def sql_count_def)

lemma sample_ids: "ids_valid sample_site RevokeMember"
  by (simp add: ids_valid_def) code_simp

lemma sample_revocation: "membership_route sample_site RevokeMember organization_sample = (revoked_sample, Inr MemberDone)"
proof -
  have "revoke_organization_member sample_mutation =
      run_membership_mutation (update_members revocable revoked_member sample_mutation) sample_mutation (Some []) False True"
    by (simp add: revoke_organization_member_def revocable_def [abs_def])
  then have "revoke_organization_member sample_mutation organization_sample = (revoked_sample, Inr True)"
    by (simp add: run_membership_mutation_def with_batch_def sample_batch return_value_def)
  then have "revoke_member sample_site organization_sample = (revoked_sample, Inr MemberDone)"
    unfolding revoke_member_def sample_mutation_def [symmetric] by (simp add: done_or_not_found_def bind_run return_value_def)
  then show ?thesis
    using sample_ids by (simp add: membership_route_def)
qed

section \<open>The properties of the administration\<close>

lemma sample_able: "has_able_owner ''g1'' organization_sample" "administered ''g1'' organization_sample"
proof -
  have "able_owner ''g1'' organization_sample (sample_member ''m1'' (Some ''u1'') 2 0)"
    by (simp add: able_owner_def confirmed_owner_def active_user_def sql_exists_def organization_totp_enrollment_allows_def two_step_policy_def)
      (simp add: sample_user_def)
  then show "has_able_owner ''g1'' organization_sample" by (simp add: has_able_owner_def)
  show "administered ''g1'' organization_sample"
    using sample_hypotheses(1) by (simp add: administered_def enabled_organization_def sql_exists_def)
qed

theorem an_able_owner_remains_witness: "administration_step organization_sample revoked_sample \<and> has_able_owner ''g1'' revoked_sample"
proof -
  have step: "administration_step organization_sample revoked_sample"
    unfolding administration_step_def using membership_step.request [OF sample_hypotheses(3) sample_revocation] by blast
  from an_able_owner_remains [OF r_into_rtranclp, OF step sample_able(2,1)] step show ?thesis by blast
qed

lemma sample_member_rows: "sample_member ''m2'' None 0 2 \<in> set (organization_users organization_sample) - set (organization_users revoked_sample)"
  by (simp add: sample_member_def stamped_def revoked_member_def)

theorem membership_changes_are_authorised_witness:
  "own_invitation sample_site (sample_member ''m2'' None 0 2) \<or>
   acts_as sample_site (\<lambda>a. ou_type a = 0 \<or> ou_type a = 1 \<and> ou_type (sample_member ''m2'' None 0 2) = 2) organization_sample"
  using membership_changes_are_authorised [OF sample_hypotheses(2,3) sample_revocation] sample_member_rows by blast

theorem membership_life_refined_witness:
  "member_state_at ''m2'' organization_sample = Some Invited \<and> member_state_at ''m2'' revoked_sample = Some Revoked \<and>
   member_moves (member_state_at ''m2'' organization_sample) (member_state_at ''m2'' revoked_sample)"
  using membership_life_refined [OF sample_hypotheses(1,3) sample_revocation sample_hypotheses(4), of "''m2''"]
  by (simp add: member_state_at_def sql_first_def member_state_of_def stamped_def revoked_member_def)

theorem membership_changes_are_audited_witness:
  "\<exists>e \<in> set (audit_events revoked_sample). ev_target_id e = Some ''m2'' \<and> ev_actor_user_id e = Some ''u1''"
  using membership_changes_are_audited [OF sample_hypotheses(2,3) sample_revocation] sample_member_rows by auto

section \<open>Replacing a group\<close>

definition group_device :: device_row where
  "group_device =
     \<lparr>d_id = ''d1'', d_user_id = ''u1'', d_identifier = ''phone'', d_name = None, d_type = None, d_encrypted_user_key = None,
      d_encrypted_public_key = None, d_encrypted_private_key = None, d_last_seen_at = None, d_revoked_at = None, d_created_at = ''r'',
      d_updated_at = ''r'', d_session_id = Some ''s1'', d_mfa_totp_credential_generation = None, d_mfa_verified_at = None\<rparr>"

definition group_database :: database where
  "group_database = organization_sample\<lparr>devices := [group_device]\<rparr>"

definition sample_group_site :: group_site where
  "sample_group_site =
     \<lparr>gt_scope = \<lparr>gs_organization_id = ''g1'', gs_actor = \<lparr>pa_user_id = ''u1'', pa_session_id = ''s1'', pa_device_identifier = ''phone''\<rparr>\<rparr>,
      gt_group_id = ''t1'', gt_membership_id = [], gt_if_match = None, gt_query = False, gt_now = iso_text 5000, gt_request_id = ''q'',
      gt_new_group_id = ''t2'', gt_mutation_id = ''a1''\<rparr>"

definition sample_group_body :: json where
  "sample_group_body = JObj [(''name'', JStr ''U''), (''collections'', JArr []), (''users'', JArr [])]"

definition sample_group_write :: group_write where "sample_group_write = \<lparr>gw_name = ''U'', gw_collections = [], gw_users = []\<rparr>"

lemma sample_group_write_simps [simp]:
  "gw_name sample_group_write = ''U''" "gw_collections sample_group_write = []" "gw_users sample_group_write = []"
  by (simp_all add: sample_group_write_def)

lemma sample_group_parsed: "parse_organization_group_write_request sample_group_body = Some sample_group_write"
  unfolding sample_group_body_def sample_group_write_def by code_simp

definition sample_group_mutation :: group_mutation where
  "sample_group_mutation = site_group_mutation sample_group_site ''t1'' None ''organization.group.update'' (group_counts sample_group_write)"

lemma sample_group_simps [simp]:
  "gt_group_id sample_group_site = ''t1''" "gt_if_match sample_group_site = None" "gt_mutation_id sample_group_site = ''a1''"
  "gs_organization_id (gt_scope sample_group_site) = ''g1''" "gs_actor (gt_scope sample_group_site) =
    \<lparr>pa_user_id = ''u1'', pa_session_id = ''s1'', pa_device_identifier = ''phone''\<rparr>"
  "gm_scope sample_group_mutation = gt_scope sample_group_site" "gm_group_id sample_group_mutation = ''t1''"
  "gm_now sample_group_mutation = iso_text 5000" "gm_expected_revision sample_group_mutation = None" "gm_mutation_id sample_group_mutation = ''a1''"
  by (simp_all add: sample_group_site_def sample_group_mutation_def site_group_mutation_def)

lemma group_database_tables [simp]:
  "audit_events group_database = []" "organization_groups group_database = [sample_group]" "devices group_database = [group_device]"
  "organization_users group_database = organization_users organization_sample" "users group_database = [sample_user]"
  "organizations group_database = [sample_organization]" "organization_policies group_database = []"
  "organization_group_users group_database = []" "collection_groups group_database = []"
  by (simp_all add: group_database_def)

lemma sample_group_manager: "group_manager (gt_scope sample_group_site) group_database" "group_owner (gt_scope sample_group_site) group_database"
proof -
  have "active_user ''u1'' group_database" by (simp add: active_user_def sql_exists_def) (simp add: sample_user_def)
  moreover have "group_device \<in> set (devices group_database)" by simp
  ultimately show "group_manager (gt_scope sample_group_site) group_database"
    by (simp add: group_manager_def acts_in_organization_def group_member_scope_def enabled_organization_def actor_policy_def
        active_actor_family_def organization_policy_allows_def two_step_policy_def sql_exists_def)
      (simp add: group_device_def)
  show "group_owner (gt_scope sample_group_site) group_database"
    by (simp add: group_owner_def sql_exists_def)
qed

definition renamed_group :: organization_group_row where
  "renamed_group = sample_group\<lparr>og_name := ''U'', og_revision_date := iso_text 5001, og_last_mutation_id := ''a1'', og_updated_at := iso_text 5000\<rparr>"

definition group_step_1 :: database where "group_step_1 = group_database\<lparr>organization_groups := [renamed_group]\<rparr>"
definition group_step_2 :: database where
  "group_step_2 = group_step_1\<lparr>audit_events := [audit_row ''a1'' (gm_audit_event sample_group_mutation)]\<rparr>"
definition group_step_3 :: database where
  "group_step_3 = group_step_2
     \<lparr>organizations := [sample_organization\<lparr>org_revision_date := iso_text 5001, org_updated_at := iso_text 5000\<rparr>]\<rparr>"

lemma group_step_tables [simp]:
  "marked ''a1'' group_step_2" "marked ''a1'' group_step_3" "organizations group_step_2 = [sample_organization]"
  "users group_step_3 = [sample_user]" "organization_users group_step_3 = organization_users organization_sample"
  "organization_group_users group_step_3 = []" "collection_groups group_step_3 = []" "organization_groups group_step_3 = [renamed_group]"
  "organization_groups group_step_2 = [renamed_group]"
  by (simp_all add: group_step_3_def group_step_2_def group_step_1_def marked_def sql_exists_def)

lemma sample_group_touched: "touched_group sample_group_mutation (Some ''U'') sample_group = Some renamed_group"
  by (simp add: touched_group_def renamed_group_def) (simp add: sample_group_def sample_era sample_next)

lemma sample_group_manageable: "manageable_group sample_group_mutation group_database sample_group"
  using sample_group_manager by (simp add: manageable_group_def group_at_def admin_current_members_def) (simp add: sample_group_def)

lemma table_same:
  "f (organization_groups db) = gs \<Longrightarrow> organization_groups_update f db = organization_groups_update (\<lambda>_. gs) db"
  "h (collection_groups db) = collection_groups db \<Longrightarrow> collection_groups_update h db = db"
  by (cases db, simp)+

lemma sample_group_first:
  "group_root sample_group_mutation False (ReplaceGroup sample_group_write) group_database 0 = Inr (group_step_1, 1)"
proof -
  let ?p = "\<lambda>g. manageable_group sample_group_mutation group_database g \<and>
    valid_requested_access (gm_scope sample_group_mutation) sample_group_write group_database"
  let ?h = "sql_update ?p (\<lambda>g. the (touched_group sample_group_mutation (Some ''U'') g))"
  have valid: "valid_requested_access (gt_scope sample_group_site) sample_group_write group_database"
    by (simp add: valid_requested_access_def sample_group_write_def)
  have rows: "?h (organization_groups group_database) = [renamed_group]"
    using valid by (simp add: sql_update_def sample_group_manageable sample_group_touched)
  have "organization_groups_update ?h group_database = group_step_1"
    unfolding group_step_1_def by (subst table_same(1) [where f = ?h, OF rows]) simp
  moreover have "gw_name sample_group_write = ''U''" by (simp add: sample_group_write_def)
  ultimately show ?thesis
    using valid unfolding group_root_def touch_groups_def update_not_null_def
    by (simp add: sample_group_manageable sample_group_touched sql_count_def)
qed

lemma sample_group_rest:
  "audit_statement (audit_row ''a1'' (gm_audit_event sample_group_mutation)) (\<lambda>db prev. prev = Suc 0) group_step_1 (Suc 0) = Inr (group_step_2, Suc 0)"
  "revision_statement ''g1'' (iso_text 5000) ''a1'' group_step_2 n = Inr (group_step_3, 1)"
  "users_revision_statement (affected_account sample_group_mutation []) (iso_text 5000) ''a1'' group_step_3 n = Inr (group_step_3, 0)"
  "marked_delete organization_group_users organization_group_users_update p ''a1'' group_step_3 n = Inr (group_step_3, 0)"
  "insert_links sample_group_mutation [] group_step_3 n = Inr (group_step_3, 0)"
  "marked_delete collection_groups collection_groups_update q ''a1'' group_step_3 n = Inr (group_step_3, 0)"
  "insert_assignments sample_group_mutation [] group_step_3 n = Inr (group_step_3, 0)"
proof -
  show "audit_statement (audit_row ''a1'' (gm_audit_event sample_group_mutation)) (\<lambda>db prev. prev = Suc 0) group_step_1 (Suc 0) = Inr (group_step_2, Suc 0)"
    by (simp add: audit_statement_def insert_audit_event_def sql_exists_def group_step_2_def group_step_1_def)
  let ?h = "sql_update (\<lambda>g. org_id g = ''g1'' \<and> marked ''a1'' group_step_2) (\<lambda>g. the (advanced_organization (iso_text 5000) g))"
  have rows: "?h (organizations group_step_2) = [sample_organization\<lparr>org_revision_date := iso_text 5001, org_updated_at := iso_text 5000\<rparr>]"
    by (simp add: sql_update_def sample_advanced)
  have "organizations_update ?h group_step_2 = group_step_3"
    unfolding group_step_3_def by (subst update_same(3) [where h = ?h, OF rows]) simp
  then show "revision_statement ''g1'' (iso_text 5000) ''a1'' group_step_2 n = Inr (group_step_3, 1)"
    unfolding revision_statement_def update_not_null_def by (simp add: sample_advanced sql_count_def)
  have "\<not> affected_account sample_group_mutation [] group_step_3 u" for u
    by (simp add: affected_account_def sql_exists_def)
  then show "users_revision_statement (affected_account sample_group_mutation []) (iso_text 5000) ''a1'' group_step_3 n = Inr (group_step_3, 0)"
    by (simp add: users_revision_statement_def update_not_null_def sql_update_def sql_count_def)
qed (simp_all add: marked_delete_def delete_stmt_def insert_links_def insert_assignments_def sql_delete_def sql_count_def update_same(2) table_same(2))

lemma sample_group_batch:
  "batch (group_statements (group_root sample_group_mutation False (ReplaceGroup sample_group_write)) sample_group_mutation
     (ReplaceGroup sample_group_write)) group_database = Inr (group_step_3, [1, 1, 1, 1, 1, 0, 0, 0, 0, 0, 0, 0, 0])"
proof -
  have "\<not> affected_account sample_group_mutation [] group_step_3 u" for u
    by (simp add: affected_account_def sql_exists_def)
  then show ?thesis
    by (simp add: group_statements_def group_change_statements_def new_group_users_def Let_def batch_def run_stmts.simps sample_group_first
        sample_group_rest assertion_def when_marked_def sql_count_def)
qed

lemma sample_group_ids: "group_request_valid sample_group_site (UpdateGroup (Some sample_group_body))"
  by (simp add: group_request_valid_def accepts_if_match_def sample_group_site_def) code_simp

lemma sample_group_update:
  "\<exists>g etag. organization_group_route sample_group_site (UpdateGroup (Some sample_group_body)) group_database = (group_step_3, Inr (GroupShown g etag))"
proof -
  have change: "change_group sample_group_mutation False (ReplaceGroup sample_group_write) group_database = (group_step_3, Inr GroupDone)"
    by (simp add: change_group_def run_group_mutation_def with_batch_def sample_group_batch return_value_def)
  have "\<not> marked (gm_mutation_id sample_group_mutation) group_database" by (simp add: marked_def sql_exists_def)
  from change_effect [OF _ this change] obtain g where
      "find_organization_group (gm_scope sample_group_mutation) (gm_group_id sample_group_mutation) group_step_3 = Some g" by auto
  then have "repo_bind (change_group sample_group_mutation False (ReplaceGroup sample_group_write)) (read_after_write sample_group_site ''t1'') group_database =
      (group_step_3, Inr (GroupShown g (organization_group_etag g)))"
    by (simp add: bind_run [where m = "change_group sample_group_mutation False (ReplaceGroup sample_group_write)", OF change] read_after_write_def bind_get return_value_def)
  then show ?thesis
    using sample_group_ids
    by (simp add: organization_group_route_def parse_organization_group_if_match_def update_organization_group_def sample_group_parsed
        sample_group_mutation_def [symmetric])
qed

theorem group_write_is_exact_witness:
  "\<exists>g etag. organization_group_route sample_group_site (UpdateGroup (Some sample_group_body)) group_database = (group_step_3, Inr (GroupShown g etag)) \<and>
     gr_name g = ''U'' \<and> find_organization_group (gt_scope sample_group_site) (gr_id g) group_step_3 = Some g"
proof -
  obtain g etag where run: "organization_group_route sample_group_site (UpdateGroup (Some sample_group_body)) group_database =
      (group_step_3, Inr (GroupShown g etag))" using sample_group_update by blast
  have fresh: "\<not> marked (gt_mutation_id sample_group_site) group_database" by (simp add: marked_def sql_exists_def)
  have "requested_write (UpdateGroup (Some sample_group_body)) = Some sample_group_write"
    by (simp add: requested_write_def sample_group_parsed)
  with group_write_is_exact [OF _ fresh run] run show ?thesis by (auto simp: sample_group_write_def)
qed

end
