(* ===== verification/CredentialWrites.thy ===== *)
theory CredentialWrites
  imports AuditedBatch AuthRequests Prelogin
begin

text \<open>
  Changing the credentials of an account: \<open>src/repositories/credential-repository.ts\<close> with the statements of
  \<open>src/repositories/credential-wrapper-history-sql.ts\<close> and the table of \<open>migrations/0016_user_key_rotation_wrapper_history.sql\<close>,
  and \<open>src/repositories/user-key-id-repository.ts\<close> with the trigger of \<open>migrations/0022_user_key_id.sql\<close>. A new master
  password, new KDF settings and a new security stamp are one batch: the guarded write of the account, the history of its
  wrapped keys, the end of all its sessions and open auth requests, and the audit row. SHA-256 is a parameter.
\<close>

section \<open>The history of wrapped keys\<close>

definition is_hex_digit :: "char \<Rightarrow> bool" where
  "is_hex_digit c \<longleftrightarrow> c \<in> set ''0123456789abcdef''"

text \<open>The CHECK of the column.\<close>

definition wrapper_sha256_check :: "string \<Rightarrow> bool" where
  "wrapper_sha256_check s \<longleftrightarrow> length s = 64 \<and> list_all is_hex_digit s"

definition wrapper_used :: "string \<Rightarrow> string \<Rightarrow> wrapper_history_row list \<Rightarrow> bool" where
  "wrapper_used uid sha t \<longleftrightarrow> sql_exists (\<lambda>h. wh_user_id h = uid \<and> wh_wrapper_sha256 h = sha) t"

text \<open>\<open>INSERT OR IGNORE\<close>: the rows that are inserted, which the statement returns.\<close>

fun inserted_wrappers :: "wrapper_history_row list \<Rightarrow> wrapper_history_row list \<Rightarrow> wrapper_history_row list" where
  "inserted_wrappers [] t = []"
| "inserted_wrappers (r # rs) t =
     (if wrapper_used (wh_user_id r) (wh_wrapper_sha256 r) t \<or> \<not> wrapper_sha256_check (wh_wrapper_sha256 r)
      then inserted_wrappers rs t
      else r # inserted_wrappers rs (t @ [r]))"

definition insert_wrapper_history :: "wrapper_history_row list \<Rightarrow> (database \<Rightarrow> bool) \<Rightarrow> database stmt" where
  "insert_wrapper_history rows condition db prev =
     (if \<not> condition db then Inr (db, 0)
      else (let new = inserted_wrappers rows (wrapper_history db)
            in Inr (wrapper_history_update (\<lambda>t. t @ new) db, length new)))"

definition history_rows :: "string \<Rightarrow> string \<Rightarrow> (wrapper_kind \<times> string) list \<Rightarrow> wrapper_history_row list" where
  "history_rows uid recorded_at entries =
     map (\<lambda>(kind, sha). \<lparr>wh_user_id = uid, wh_wrapper_kind = kind, wh_wrapper_sha256 = sha, wh_recorded_at = recorded_at\<rparr>) entries"

section \<open>Requests\<close>

record credential_change =
  cr_user_id :: string
  cr_expected_master_password_hash :: string
  cr_expected_security_stamp :: string
  cr_expected_revision_date :: string
  cr_next_security_stamp :: string
  cr_next_revision_date :: string
  cr_audit_event_id :: string
  cr_audit_event :: audit_event

text \<open>The expected generation holds the e-mail address and the KDF settings.\<close>

record password_write =
  pw_change :: credential_change
  pw_expected_generation :: credential_generation
  pw_expected_user_key :: "string option"
  pw_expected_private_key :: "string option"
  pw_next_master_password_hash :: string
  pw_next_user_key :: string

record kdf_write =
  kw_write :: password_write
  kw_next_algorithm :: string
  kw_next_iterations :: int
  kw_next_memory :: "int option"
  kw_next_parallelism :: "int option"

record generation_change_result =
  gr_security_stamp :: string
  gr_revision_date :: string
  gr_revoked_device_count :: nat
  gr_revoked_refresh_token_count :: nat
  gr_invalidated_auth_request_count :: nat
  gr_audit_event_id :: string

section \<open>The common batch\<close>

definition credential_generation_is :: "string \<Rightarrow> string \<Rightarrow> string \<Rightarrow> database \<Rightarrow> bool" where
  "credential_generation_is uid stamp revision db \<longleftrightarrow>
     sql_exists (\<lambda>u. u_id u = uid \<and> u_security_stamp u = stamp \<and> u_revision_date u = revision) (users db)"

definition next_generation_is :: "credential_change \<Rightarrow> database \<Rightarrow> bool" where
  "next_generation_is i db \<longleftrightarrow> credential_generation_is (cr_user_id i) (cr_next_security_stamp i) (cr_next_revision_date i) db"

definition revoke_devices_statement :: "credential_change \<Rightarrow> database stmt" where
  "revoke_devices_statement i =
     update_stmt devices devices_update
       (\<lambda>db prev d. d_user_id d = cr_user_id i \<and> d_revoked_at d = None \<and> next_generation_is i db)
       (\<lambda>d. d\<lparr>d_revoked_at := Some (cr_next_revision_date i), d_updated_at := cr_next_revision_date i\<rparr>)"

definition revoke_tokens_statement :: "credential_change \<Rightarrow> database stmt" where
  "revoke_tokens_statement i =
     update_stmt refresh_tokens refresh_tokens_update
       (\<lambda>db prev t. rt_user_id t = cr_user_id i \<and> rt_revoked_at t = None \<and> next_generation_is i db)
       (\<lambda>t. t\<lparr>rt_revoked_at := Some (cr_next_revision_date i)\<rparr>)"

definition supersede_requests_statement :: "credential_change \<Rightarrow> database stmt" where
  "supersede_requests_statement i =
     checked auth_requests_ok (update_stmt auth_requests auth_requests_update
       (\<lambda>db prev r. ar_user_id r = Some (cr_user_id i) \<and> ar_status r \<in> {Pending, Approved} \<and> next_generation_is i db)
       (\<lambda>r. r\<lparr>ar_status := Superseded, ar_request_approved := Some False, ar_encrypted_response_key := None,
              ar_updated_at := cr_next_revision_date i\<rparr>))"

definition credential_audit_statement :: "credential_change \<Rightarrow> database stmt" where
  "credential_audit_statement i =
     audit_statement (audit_row (cr_audit_event_id i) (cr_audit_event i)) (\<lambda>db prev.
       sql_exists (\<lambda>u. u_id u = cr_user_id i \<and> u_disabled_at u = None \<and> u_security_stamp u = cr_next_security_stamp i \<and>
         u_revision_date u = cr_next_revision_date i) (users db))"

text \<open>What \<open>prepareCredentialWrapperHistoryMutation\<close> hands over: the rows and the fingerprint of the next key.\<close>

type_synonym wrapper_mutation = "wrapper_history_row list \<times> string"

definition wrapper_history_committed :: "wrapper_mutation \<Rightarrow> wrapper_history_row list \<Rightarrow> nat \<Rightarrow> bool" where
  "wrapper_history_committed mutation returned changes \<longleftrightarrow>
     1 \<le> changes \<and> length returned = changes \<and> distinct (map wh_wrapper_sha256 returned) \<and>
     set (map wh_wrapper_sha256 returned) \<subseteq> set (map wh_wrapper_sha256 (fst mutation)) \<and>
     snd mutation \<in> set (map wh_wrapper_sha256 returned)"

text \<open>The statements up to the history change neither it nor the rows that it would take.\<close>

definition returned_wrappers :: "wrapper_mutation option \<Rightarrow> nat \<Rightarrow> database \<Rightarrow> wrapper_history_row list" where
  "returned_wrappers mutation changes db =
     (case mutation of
        None \<Rightarrow> []
      | Some (rows, _) \<Rightarrow> if changes = 0 then [] else inserted_wrappers rows (wrapper_history db))"

definition generation_statements :: "credential_change \<Rightarrow> database stmt \<Rightarrow> wrapper_mutation option \<Rightarrow> database stmt list" where
  "generation_statements i user_statement mutation =
     user_statement #
     (case mutation of None \<Rightarrow> [] | Some (rows, _) \<Rightarrow> [insert_wrapper_history rows (next_generation_is i)]) @
     [revoke_devices_statement i, revoke_tokens_statement i, supersede_requests_statement i, credential_audit_statement i]"

definition commit_credential_generation ::
    "credential_change \<Rightarrow> database stmt \<Rightarrow> wrapper_mutation option \<Rightarrow> generation_change_result option repo" where
  "commit_credential_generation i user_statement mutation db =
     with_batch (generation_statements i user_statement mutation) (\<lambda>ns.
       let user_changes = ns ! 0;
           wrapper_changes = (if mutation = None then 0 else ns ! 1);
           downstream = drop (if mutation = None then 1 else 2) ns
       in if user_changes = 0
          then (if wrapper_changes \<noteq> 0 \<or> list_ex (\<lambda>n. n \<noteq> 0) downstream
                then throw (JsError ''credential rotation guard invariant was violated'') else return_value None)
          else if user_changes \<noteq> 1 \<or>
            (case mutation of None \<Rightarrow> False
             | Some m \<Rightarrow> \<not> wrapper_history_committed m (returned_wrappers mutation wrapper_changes db) wrapper_changes) \<or>
            downstream ! 3 \<noteq> 1
          then throw (JsError ''credential rotation batch did not commit one generation'')
          else return_value (Some \<lparr>gr_security_stamp = cr_next_security_stamp i, gr_revision_date = cr_next_revision_date i,
            gr_revoked_device_count = downstream ! 0, gr_revoked_refresh_token_count = downstream ! 1,
            gr_invalidated_auth_request_count = downstream ! 2, gr_audit_event_id = cr_audit_event_id i\<rparr>)) db"

section \<open>The three changes\<close>

definition prepare_wrapper_history :: "(nat list \<Rightarrow> nat list) \<Rightarrow> password_write \<Rightarrow> wrapper_mutation option" where
  "prepare_wrapper_history sha256 w =
     (let fingerprint = fingerprint_credential_wrapper sha256;
          entry = (\<lambda>kind v. case v of None \<Rightarrow> [] | Some k \<Rightarrow> [(kind, fingerprint k)]);
          entries = entry UserKeyWrapper (pw_expected_user_key w) @ entry PrivateKeyWrapper (pw_expected_private_key w);
          next_sha = fingerprint (pw_next_user_key w)
      in if pw_expected_user_key w = None \<and> pw_expected_private_key w \<noteq> None then None
         else if \<not> distinct (map snd entries) \<or> next_sha \<in> set (map snd entries) then None
         else Some (history_rows (cr_user_id (pw_change w)) (cr_next_revision_date (pw_change w)) (entries @ [(UserKeyWrapper, next_sha)]),
                    next_sha))"

text \<open>The trigger \<open>users_invalidate_stale_user_key_id\<close>: a new wrapped key forgets the id of the old one.\<close>

definition rewrapped :: "string \<Rightarrow> user_row \<Rightarrow> user_row" where
  "rewrapped key u = u\<lparr>u_user_key := Some key, u_user_key_id := (if u_user_key u = Some key then u_user_key_id u else None)\<rparr>"

definition stamped_generation :: "credential_change \<Rightarrow> user_row \<Rightarrow> user_row" where
  "stamped_generation i u =
     u\<lparr>u_security_stamp := cr_next_security_stamp i, u_revision_date := cr_next_revision_date i, u_updated_at := cr_next_revision_date i\<rparr>"

definition rotatable_generation :: "credential_change \<Rightarrow> user_row \<Rightarrow> bool" where
  "rotatable_generation i u \<longleftrightarrow>
     u_id u = cr_user_id i \<and> u_disabled_at u = None \<and> u_master_password_hash u = cr_expected_master_password_hash i \<and>
     u_security_stamp u = cr_expected_security_stamp i \<and> u_revision_date u = cr_expected_revision_date i"

definition changeable_generation :: "password_write \<Rightarrow> string \<Rightarrow> database \<Rightarrow> user_row \<Rightarrow> bool" where
  "changeable_generation w next_sha db u \<longleftrightarrow>
     rotatable_generation (pw_change w) u \<and> user_generation u = pw_expected_generation w \<and>
     u_user_key u = pw_expected_user_key w \<and> u_private_key u = pw_expected_private_key w \<and>
     \<not> wrapper_used (u_id u) next_sha (wrapper_history db)"

definition with_prepared_history ::
    "(nat list \<Rightarrow> nat list) \<Rightarrow> password_write \<Rightarrow> (wrapper_mutation \<Rightarrow> generation_change_result option repo)
      \<Rightarrow> generation_change_result option repo" where
  "with_prepared_history sha256 w run =
     (case prepare_wrapper_history sha256 w of None \<Rightarrow> return_value None | Some m \<Rightarrow> run m)"

definition password_statement :: "password_write \<Rightarrow> string \<Rightarrow> database stmt" where
  "password_statement w next_sha db =
     update_users (changeable_generation w next_sha db)
       (\<lambda>u. stamped_generation (pw_change w) (rewrapped (pw_next_user_key w) u)
          \<lparr>u_master_password_hash := pw_next_master_password_hash w\<rparr>) db"

definition change_account_master_password ::
    "(nat list \<Rightarrow> nat list) \<Rightarrow> password_write \<Rightarrow> generation_change_result option repo" where
  "change_account_master_password sha256 w =
     with_prepared_history sha256 w (\<lambda>m.
       commit_credential_generation (pw_change w) (password_statement w (snd m)) (Some m))"

definition kdf_statement :: "kdf_write \<Rightarrow> string \<Rightarrow> database stmt" where
  "kdf_statement k next_sha db =
     (let w = kw_write k
      in update_users (changeable_generation w next_sha db)
           (\<lambda>u. stamped_generation (pw_change w) (rewrapped (pw_next_user_key w) u)
              \<lparr>u_master_password_hash := pw_next_master_password_hash w, u_kdf_algorithm := kw_next_algorithm k,
               u_kdf_iterations := kw_next_iterations k, u_kdf_memory := kw_next_memory k,
               u_kdf_parallelism := kw_next_parallelism k\<rparr>) db)"

definition change_account_kdf :: "(nat list \<Rightarrow> nat list) \<Rightarrow> kdf_write \<Rightarrow> generation_change_result option repo" where
  "change_account_kdf sha256 k =
     with_prepared_history sha256 (kw_write k) (\<lambda>m.
       commit_credential_generation (pw_change (kw_write k)) (kdf_statement k (snd m)) (Some m))"

definition stamp_statement :: "credential_change \<Rightarrow> database stmt" where
  "stamp_statement i = update_users (rotatable_generation i) (stamped_generation i)"

definition rotate_account_security_stamp :: "credential_change \<Rightarrow> generation_change_result option repo" where
  "rotate_account_security_stamp i = commit_credential_generation i (stamp_statement i) None"

section \<open>The account key pair\<close>

record key_initialization =
  ki_user_id :: string
  ki_expected_user_key :: string
  ki_expected_security_stamp :: string
  ki_expected_revision_date :: string
  ki_public_key :: string
  ki_wrapped_private_key :: string
  ki_next_revision_date :: string
  ki_audit_event_id :: string
  ki_audit_event :: audit_event

text \<open>\<open>length(trim(user_key)) > 0\<close>: SQLite's \<open>trim\<close> removes spaces.\<close>

definition sql_blank :: "string \<Rightarrow> bool" where
  "sql_blank s \<longleftrightarrow> list_all (\<lambda>c. c = CHR '' '') s"

definition key_pair_open :: "key_initialization \<Rightarrow> string \<Rightarrow> database \<Rightarrow> user_row \<Rightarrow> bool" where
  "key_pair_open i private_sha db u \<longleftrightarrow>
     u_id u = ki_user_id i \<and> u_disabled_at u = None \<and> u_user_key u = Some (ki_expected_user_key i) \<and>
     \<not> sql_blank (ki_expected_user_key i) \<and> u_public_key u = None \<and> u_private_key u = None \<and>
     \<not> wrapper_used (ki_user_id i) private_sha (wrapper_history db) \<and>
     u_security_stamp u = ki_expected_security_stamp i \<and> u_revision_date u = ki_expected_revision_date i"

definition key_pair_written :: "key_initialization \<Rightarrow> user_row \<Rightarrow> user_row" where
  "key_pair_written i u =
     u\<lparr>u_public_key := Some (ki_public_key i), u_private_key := Some (ki_wrapped_private_key i),
       u_revision_date := ki_next_revision_date i, u_updated_at := ki_next_revision_date i\<rparr>"

definition key_pair_stored :: "key_initialization \<Rightarrow> database \<Rightarrow> bool" where
  "key_pair_stored i db \<longleftrightarrow>
     sql_exists (\<lambda>u. u_id u = ki_user_id i \<and> u_user_key u = Some (ki_expected_user_key i) \<and>
       u_public_key u = Some (ki_public_key i) \<and> u_private_key u = Some (ki_wrapped_private_key i) \<and>
       u_security_stamp u = ki_expected_security_stamp i \<and> u_revision_date u = ki_next_revision_date i) (users db)"

definition initialization_statements ::
    "key_initialization \<Rightarrow> (wrapper_kind \<times> string) list \<Rightarrow> string \<Rightarrow> database stmt list" where
  "initialization_statements i entries private_sha =
     [audit_statement (audit_row (ki_audit_event_id i) (ki_audit_event i)) (\<lambda>db prev. sql_exists (key_pair_open i private_sha db) (users db)),
      (\<lambda>db. update_users (key_pair_open i private_sha db) (key_pair_written i) db),
      insert_wrapper_history (history_rows (ki_user_id i) (ki_next_revision_date i) entries) (key_pair_stored i)]"

definition initialize_account_key_pair :: "(nat list \<Rightarrow> nat list) \<Rightarrow> key_initialization \<Rightarrow> bool repo" where
  "initialize_account_key_pair sha256 i db =
     (let user_sha = fingerprint_credential_wrapper sha256 (ki_expected_user_key i);
          private_sha = fingerprint_credential_wrapper sha256 (ki_wrapped_private_key i);
          entries = [(UserKeyWrapper, user_sha), (PrivateKeyWrapper, private_sha)];
          rows = history_rows (ki_user_id i) (ki_next_revision_date i) entries
      in if user_sha = private_sha then return_value False db
         else with_batch (initialization_statements i entries private_sha) (\<lambda>ns.
           let returned = (if ns ! 2 = 0 then [] else inserted_wrappers rows (wrapper_history db))
           in if ns ! 1 = 0
              then (if ns ! 0 \<noteq> 0 \<or> ns ! 2 \<noteq> 0 \<or> returned \<noteq> []
                    then throw (JsError ''account key initialization guard invariant was violated'') else return_value False)
              else if ns ! 1 \<noteq> 1 \<or> ns ! 0 \<noteq> 1 \<or> ns ! 2 < 1 \<or> 2 < ns ! 2 \<or> length returned \<noteq> ns ! 2 \<or>
                \<not> list_ex (\<lambda>r. wh_wrapper_kind r = PrivateKeyWrapper \<and> wh_wrapper_sha256 r = private_sha) returned \<or>
                list_ex (\<lambda>r. (wh_wrapper_kind r, wh_wrapper_sha256 r) \<notin> set entries) returned
              then throw (JsError ''account key initialization did not commit one generation'')
              else return_value True) db)"

section \<open>The id of the user key\<close>

definition is_user_key_id :: "string \<Rightarrow> bool" where
  "is_user_key_id s \<longleftrightarrow> length s = 32 \<and> list_all is_hex_digit s"

definition registrable_key_id :: "string \<Rightarrow> string \<Rightarrow> string \<Rightarrow> string \<Rightarrow> user_row \<Rightarrow> bool" where
  "registrable_key_id uid user_key stamp revision u \<longleftrightarrow>
     u_id u = uid \<and> u_disabled_at u = None \<and> u_user_key_id u = None \<and> u_user_key u = Some user_key \<and>
     u_security_stamp u = stamp \<and> u_revision_date u = revision"

definition register_user_key_id ::
    "string \<Rightarrow> string \<Rightarrow> string \<Rightarrow> string \<Rightarrow> string \<Rightarrow> string \<Rightarrow> string \<times> audit_event \<Rightarrow> bool repo" where
  "register_user_key_id uid key_id user_key stamp revision next_revision audit =
     with_batch
       [checked (\<lambda>db. list_all (\<lambda>u. case u_user_key_id u of None \<Rightarrow> True | Some k \<Rightarrow> is_user_key_id k) (users db))
          (update_users (registrable_key_id uid user_key stamp revision)
            (\<lambda>u. u\<lparr>u_user_key_id := Some key_id, u_revision_date := next_revision, u_updated_at := next_revision\<rparr>)),
        audit_statement (audit_row (fst audit) (snd audit)) (\<lambda>db prev. prev = 1)]
       (\<lambda>ns. return_value (ns ! 0 = 1))"

end
