(* ===== verification/CredentialRoutes.thy ===== *)
theory CredentialRoutes
  imports CredentialWrites ApiKeys
begin

text \<open>
  The credential routes of \<open>src/app.ts\<close>: checking the master password, changing it, changing the KDF settings, rotating the
  security stamp, showing and initialising the account keys, and registering the id of the user key
  (\<open>src/domain/user-key-id.ts\<close>). A route that asks for the password counts wrong answers as the login does. The call of the
  notification hub is a parameter; the fixed body of a successful password check is left out.
\<close>

section \<open>What a request knows and draws\<close>

record credential_site =
  cg_route :: route_site
  cg_password_change_enabled :: "string option"
  cg_kdf_mutation_enabled :: "string option"
  cg_account_keys_enabled :: "string option"
  cg_user_key_id_enabled :: "string option"
  cg_notifications_enabled :: "string option"
  cg_hub_bound :: bool
  cg_hub_invalidated :: bool
  cg_attempt_id :: string
  cg_next_security_stamp :: string

definition cg_now :: "credential_site \<Rightarrow> string" where
  "cg_now site = st_now (cg_route site)"

record account_keys_body =
  kb_key :: "string option"
  kb_pair :: account_key_pair
  kb_projection :: "account_key_pair option"

datatype credential_answer = CredentialDone | AccountKeys account_keys_body

section \<open>The password proof\<close>

datatype proof_gate = ProofAllowed | ProofRefused bool

definition proof_bucket_key :: "crypto \<Rightarrow> string \<Rightarrow> string \<Rightarrow> string" where
  "proof_bucket_key crypto kind v = build_auth_attempt_bucket_key (sha256_text crypto) kind v"

definition proof_ip_key :: "crypto \<Rightarrow> credential_site \<Rightarrow> string" where
  "proof_ip_key crypto site = proof_bucket_key crypto ''ip'' (extract_client_address (st_headers (cg_route site)))"

definition proof_account_key :: "crypto \<Rightarrow> user_row \<Rightarrow> string" where
  "proof_account_key crypto u = proof_bucket_key crypto ''account'' (u_email_normalized u)"

definition record_credential_proof_failure :: "crypto \<Rightarrow> credential_site \<Rightarrow> user_row \<Rightarrow> bool \<Rightarrow> bool repo" where
  "record_credential_proof_failure crypto site u record_account_bucket =
     (let ip_key = proof_ip_key crypto site; account_key = proof_account_key crypto u; now = cg_now site
      in repo_then (record_auth_attempt \<lparr>aa_id = cg_attempt_id site, aa_bucket_key = ip_key, aa_subject_key = Some account_key,
            aa_successful = False, aa_occurred_at = now\<rparr>)
         (repo_bind (record_failed_auth_bucket ip_key ip_failure_limit ip_failure_window_seconds ip_retry_after_seconds now) (\<lambda>ip_bucket.
          repo_then (repo_when record_account_bucket
             (repo_bind (record_failed_auth_bucket account_key account_failure_limit account_failure_window_seconds
                account_lockout_seconds now) (\<lambda>b.
              record_failed_login (u_id u) (fb_failed_count b) (fb_updated_at b) (fb_locked_until b))))
          (return_value (is_account_locked (fb_locked_until ip_bucket) now)))))"

definition check_credential_proof_defense :: "crypto \<Rightarrow> credential_site \<Rightarrow> user_row \<Rightarrow> proof_gate repo" where
  "check_credential_proof_defense crypto site u =
     (let now = cg_now site
      in repo_bind (repo_get (find_auth_failure_bucket (proof_ip_key crypto site))) (\<lambda>ip_bucket.
         repo_bind (repo_get (find_auth_failure_bucket (proof_account_key crypto u))) (\<lambda>account_bucket.
           if is_account_locked (Option.bind ip_bucket fb_locked_until) now then return_value (ProofRefused True)
           else if is_account_locked (Option.bind account_bucket fb_locked_until) now \<or> is_account_locked (u_login_locked_until u) now
           then repo_bind (record_credential_proof_failure crypto site u False) (\<lambda>limited. return_value (ProofRefused limited))
           else return_value ProofAllowed)))"

definition invalid_credential_proof :: "bool \<Rightarrow> 'a reply" where
  "invalid_credential_proof limited =
     (if limited then ApiLimited ip_retry_after_seconds else ApiFailure 400 ''invalid_request'')"

definition with_password_proof ::
    "crypto \<Rightarrow> credential_site \<Rightarrow> user_row \<Rightarrow> string \<Rightarrow> 'a reply repo \<Rightarrow> 'a reply repo" where
  "with_password_proof crypto site u presented k =
     repo_bind (check_credential_proof_defense crypto site u) (\<lambda>gate.
       case gate of
         ProofRefused limited \<Rightarrow> return_value (invalid_credential_proof limited)
       | ProofAllowed \<Rightarrow>
           if \<not> verify_presented_password_hash (u_master_password_hash u) presented
           then repo_bind (record_credential_proof_failure crypto site u True) (\<lambda>limited.
                  return_value (invalid_credential_proof limited))
           else k)"

section \<open>Changing a generation\<close>

definition notifications_on :: "credential_site \<Rightarrow> bool" where
  "notifications_on site \<longleftrightarrow> flag_true (cg_notifications_enabled site)"

text \<open>\<open>invalidateDurableNotificationSessions\<close>, given what the hub answers.\<close>

definition hub_sessions_invalidated :: "credential_site \<Rightarrow> bool" where
  "hub_sessions_invalidated site \<longleftrightarrow> \<not> notifications_on site \<or> cg_hub_bound site \<and> cg_hub_invalidated site"

definition credential_event ::
    "credential_site \<Rightarrow> authenticated_request \<Rightarrow> string \<Rightarrow> (string \<times> json) list \<Rightarrow> string \<Rightarrow> audit_event" where
  "credential_event site auth name context occurred_at =
     (let uid = u_id (au_user (av_user auth))
      in build_audit_event \<lparr>ai_name = name, ai_outcome = ''success'', ai_actor = Some (Some uid, Some (av_device_identifier auth)),
           ai_target = Some (''account'', Some uid), ai_context = context\<rparr> (as_request_id (st_audit (cg_route site))) occurred_at)"

definition credential_change_of ::
    "credential_site \<Rightarrow> authenticated_request \<Rightarrow> string \<Rightarrow> (string \<times> json) list \<Rightarrow> string \<Rightarrow> credential_change" where
  "credential_change_of site auth name context next_revision =
     (let u = au_user (av_user auth)
      in \<lparr>cr_user_id = u_id u, cr_expected_master_password_hash = u_master_password_hash u,
          cr_expected_security_stamp = u_security_stamp u, cr_expected_revision_date = u_revision_date u,
          cr_next_security_stamp = cg_next_security_stamp site, cr_next_revision_date = next_revision,
          cr_audit_event_id = as_row_id (st_audit (cg_route site)),
          cr_audit_event = credential_event site auth name context next_revision\<rparr>)"

definition password_write_of :: "user_row \<Rightarrow> credential_change \<Rightarrow> string \<Rightarrow> string \<Rightarrow> password_write" where
  "password_write_of u i next_hash next_key =
     \<lparr>pw_change = i, pw_expected_generation = user_generation u, pw_expected_user_key = u_user_key u,
      pw_expected_private_key = u_private_key u, pw_next_master_password_hash = next_hash, pw_next_user_key = next_key\<rparr>"

definition generation_answer :: "bool \<Rightarrow> generation_change_result option \<Rightarrow> credential_answer reply" where
  "generation_answer cleaned r =
     (case r of
        None \<Rightarrow> ApiFailure 409 ''revision_conflict''
      | Some _ \<Rightarrow> if cleaned then Reply CredentialDone else ApiFailure 503 ''session_revocation_incomplete'')"

definition next_revision :: "credential_site \<Rightarrow> user_row \<Rightarrow> string repo" where
  "next_revision site u = repo_lift (next_credential_revision_date (u_revision_date u) (cg_now site))"

text \<open>What the routes that write a generation do before their \<open>try\<close>.\<close>

definition authorized_change ::
    "credential_site \<Rightarrow> (database \<Rightarrow> refusal + authenticated_request) \<Rightarrow> (user_row \<Rightarrow> 'x option) \<Rightarrow> database
      \<Rightarrow> refusal + (authenticated_request \<times> 'x)" where
  "authorized_change site authenticate read db =
     and_then (authenticate db) (\<lambda>auth.
       case read (au_user (av_user auth)) of
         None \<Rightarrow> Inl (400, ''invalid_request'')
       | Some x \<Rightarrow>
           if notifications_on site \<and> \<not> cg_hub_bound site then Inl (503, ''server_misconfigured'') else Inr (auth, x))"

definition authenticate_site :: "crypto \<Rightarrow> credential_site \<Rightarrow> database \<Rightarrow> refusal + authenticated_request" where
  "authenticate_site crypto site =
     authenticate_vault_request (cy_hmac_sha256 crypto) (st_env (cg_route site)) (st_headers (cg_route site)) (st_seconds (cg_route site))"

definition feature :: "string option \<Rightarrow> (database \<Rightarrow> database \<times> 'a reply) \<Rightarrow> database \<Rightarrow> database \<times> 'a reply" where
  "feature flag handler db = (if flag_true flag then handler db else (db, ApiFailure 501 ''unsupported_feature''))"

definition handle_password_change :: "crypto \<Rightarrow> credential_site \<Rightarrow> json \<Rightarrow> database \<Rightarrow> database \<times> credential_answer reply" where
  "handle_password_change crypto site body =
     feature (cg_password_change_enabled site)
       (with_authorization (authorized_change site (authenticate_site crypto site) (\<lambda>u.
            case parse_master_password_change_body body of
              None \<Rightarrow> None
            | Some r \<Rightarrow> if matches_password_change_credential_generation r (user_generation u) then Some r else None))
        (\<lambda>(auth, request).
          let u = au_user (av_user auth)
          in with_password_proof crypto site u (pc_current_master_password_hash request)
             (repo_bind (next_revision site u) (\<lambda>revision.
              repo_bind (change_account_master_password (cy_sha256 crypto) (password_write_of u
                 (credential_change_of site auth ''account.password.change''
                   [(''d1SessionsRevoked'', JBool True), (''kdfUnchanged'', JBool True)] revision)
                 (pc_next_master_password_hash request) (pc_next_user_key request))) (\<lambda>r.
              return_value (generation_answer (hub_sessions_invalidated site) r))))))"

definition kdf_type_number :: "kdf_type \<Rightarrow> json" where
  "kdf_type_number t = (case t of Pbkdf2 \<Rightarrow> jint 0 | Argon2id \<Rightarrow> jint 1)"

definition handle_kdf_change :: "crypto \<Rightarrow> credential_site \<Rightarrow> json \<Rightarrow> database \<Rightarrow> database \<times> credential_answer reply" where
  "handle_kdf_change crypto site body =
     feature (cg_kdf_mutation_enabled site)
       (with_authorization (authorized_change site (authenticate_site crypto site) (\<lambda>u.
            case parse_kdf_change_body body of
              None \<Rightarrow> None
            | Some r \<Rightarrow> if matches_kdf_change_credential_generation r (user_generation u) then Some r else None))
        (\<lambda>(auth, request).
          let u = au_user (av_user auth); kdf = kc_kdf request
          in with_password_proof crypto site u (kc_current_master_password_hash request)
             (case kdf_from_stored_generation (user_generation u) of
                None \<Rightarrow> return_value (ApiFailure 400 ''invalid_request'')
              | Some previous \<Rightarrow>
                  repo_bind (next_revision site u) (\<lambda>revision.
                  repo_bind (change_account_kdf (cy_sha256 crypto)
                     \<lparr>kw_write = password_write_of u
                        (credential_change_of site auth ''account.kdf.change''
                          [(''d1SessionsRevoked'', JBool True), (''previousKdfType'', kdf_type_number (kdf_type previous)),
                           (''nextKdfType'', kdf_type_number (kdf_type kdf))] revision)
                        (kc_next_master_password_hash request) (kc_next_user_key request),
                      kw_next_algorithm = kdf_algorithm_for_type (kdf_type kdf), kw_next_iterations = kdf_iterations kdf,
                      kw_next_memory = kdf_memory kdf, kw_next_parallelism = kdf_parallelism kdf\<rparr>) (\<lambda>r.
                  return_value (generation_answer True r))))))"

definition handle_security_stamp :: "crypto \<Rightarrow> credential_site \<Rightarrow> json \<Rightarrow> database \<Rightarrow> database \<times> credential_answer reply" where
  "handle_security_stamp crypto site body =
     with_authorization (authorized_change site
         (authenticate_recent_password_request (cy_hmac_sha256 crypto) (st_env (cg_route site)) (st_headers (cg_route site))
           (st_seconds (cg_route site))) (\<lambda>u. parse_security_stamp_rotation_body body))
       (\<lambda>(auth, presented).
         let u = au_user (av_user auth)
         in with_password_proof crypto site u presented
            (repo_bind (next_revision site u) (\<lambda>revision.
             repo_bind (rotate_account_security_stamp (credential_change_of site auth ''account.security_stamp.rotate''
                [(''allSessionsRevoked'', JBool True)] revision)) (\<lambda>r.
             return_value (generation_answer (hub_sessions_invalidated site) r)))))"

definition handle_verify_password :: "crypto \<Rightarrow> credential_site \<Rightarrow> json \<Rightarrow> database \<Rightarrow> database \<times> credential_answer reply" where
  "handle_verify_password crypto site body =
     with_authorization (\<lambda>db. and_then (authenticate_site crypto site db) (\<lambda>auth.
         case parse_current_password_proof_body body of
           None \<Rightarrow> Inl (400, ''invalid_request'') | Some presented \<Rightarrow> Inr (auth, presented)))
       (\<lambda>(auth, presented). with_password_proof crypto site (au_user (av_user auth)) presented (return_value (Reply CredentialDone)))"

section \<open>The account keys\<close>

definition build_account_keys_endpoint_response :: "user_row \<Rightarrow> account_key_pair \<Rightarrow> js_error + account_keys_body" where
  "build_account_keys_endpoint_response u pair =
     (if \<not> has_wrapped_user_key u then Inl (JsError ''stored account keypair has no wrapped user key'')
      else map_sum id (\<lambda>projection. \<lparr>kb_key = u_user_key u, kb_pair = pair, kb_projection = projection\<rparr>)
        (build_account_key_projection (u\<lparr>u_public_key := Some (kp_public_key pair), u_private_key := Some (kp_wrapped_private_key pair)\<rparr>)))"

text \<open>Outside of a \<open>try\<close> an error is the answer 500 of the framework.\<close>

definition account_keys_reply :: "user_row \<Rightarrow> account_key_pair \<Rightarrow> credential_answer reply" where
  "account_keys_reply u pair =
     (case build_account_keys_endpoint_response u pair of
        Inl e \<Rightarrow> ApiFailure 500 ''Internal Server Error'' | Inr b \<Rightarrow> Reply (AccountKeys b))"

definition account_key_conflict :: "'a reply" where "account_key_conflict = ApiFailure 409 ''account_key_conflict''"
definition account_key_state_invalid :: "'a reply" where "account_key_state_invalid = ApiFailure 409 ''account_key_state_invalid''"

definition handle_account_keys_read :: "crypto \<Rightarrow> credential_site \<Rightarrow> database \<Rightarrow> database \<times> credential_answer reply" where
  "handle_account_keys_read crypto site =
     feature (cg_account_keys_enabled site) (with_authorization (authenticate_site crypto site) (\<lambda>auth.
       let u = au_user (av_user auth)
       in return_value
         (if \<not> has_wrapped_user_key u then account_key_state_invalid
          else (case classify_account_key_state (u_public_key u) (u_private_key u) of
                  KeysMissing \<Rightarrow> ApiFailure 409 ''account_keys_uninitialized''
                | KeysInvalid \<Rightarrow> account_key_state_invalid
                | KeysComplete pair \<Rightarrow> account_keys_reply u pair))))"

definition key_initialization_of :: "credential_site \<Rightarrow> authenticated_request \<Rightarrow> account_key_pair \<Rightarrow> string \<Rightarrow> key_initialization" where
  "key_initialization_of site auth pair revision =
     (let u = au_user (av_user auth)
      in \<lparr>ki_user_id = u_id u, ki_expected_user_key = (case u_user_key u of Some k \<Rightarrow> k | None \<Rightarrow> []),
          ki_expected_security_stamp = u_security_stamp u, ki_expected_revision_date = u_revision_date u,
          ki_public_key = kp_public_key pair, ki_wrapped_private_key = kp_wrapped_private_key pair, ki_next_revision_date = revision,
          ki_audit_event_id = as_row_id (st_audit (cg_route site)),
          ki_audit_event = credential_event site auth ''account.keys.initialize''
            [(''accountEncryptionVersion'', jint 1), (''securityStampChanged'', JBool False), (''sessionsRevoked'', JBool False)] revision\<rparr>)"

text \<open>Another request won: the same pair is as good, a different one is a conflict.\<close>

definition concurrent_account_keys :: "user_row \<Rightarrow> account_key_pair \<Rightarrow> auth_user option \<Rightarrow> credential_answer reply repo" where
  "concurrent_account_keys u pair current =
     (case current of
        None \<Rightarrow> return_value account_key_conflict
      | Some c \<Rightarrow>
          (let now = au_user c
           in if truthy (u_disabled_at now) then return_value account_key_conflict
              else if \<not> has_wrapped_user_key now then return_value account_key_state_invalid
              else (case classify_account_key_state (u_public_key now) (u_private_key now) of
                      KeysInvalid \<Rightarrow> return_value account_key_state_invalid
                    | KeysComplete stored \<Rightarrow>
                        if u_security_stamp now = u_security_stamp u \<and> account_key_pairs_equal stored pair
                        then repo_bind (repo_lift (build_account_keys_endpoint_response now stored)) (\<lambda>b. return_value (Reply (AccountKeys b)))
                        else return_value account_key_conflict
                    | KeysMissing \<Rightarrow> return_value account_key_conflict)))"

definition initialize_keys :: "crypto \<Rightarrow> credential_site \<Rightarrow> authenticated_request \<Rightarrow> account_key_pair \<Rightarrow> credential_answer reply repo" where
  "initialize_keys crypto site auth pair =
     (let u = au_user (av_user auth)
      in repo_bind (next_revision site u) (\<lambda>revision.
         repo_bind (initialize_account_key_pair (cy_sha256 crypto) (key_initialization_of site auth pair revision)) (\<lambda>initialized.
           if \<not> initialized
           then repo_bind (repo_read (find_auth_user_by_id (u_id u) None)) (concurrent_account_keys u pair)
           else repo_bind (repo_lift (build_account_keys_endpoint_response (u\<lparr>u_public_key := Some (kp_public_key pair),
                  u_private_key := Some (kp_wrapped_private_key pair), u_revision_date := revision\<rparr>) pair)) (\<lambda>b.
                return_value (Reply (AccountKeys b))))))"

definition handle_account_keys_create :: "crypto \<Rightarrow> credential_site \<Rightarrow> json \<Rightarrow> database \<Rightarrow> database \<times> credential_answer reply" where
  "handle_account_keys_create crypto site body =
     feature (cg_account_keys_enabled site) (with_authorization (authenticate_site crypto site) (\<lambda>auth.
       let u = au_user (av_user auth)
       in if \<not> has_wrapped_user_key u then return_value account_key_state_invalid
          else (case parse_account_key_initialization_body body of
                  None \<Rightarrow> return_value (ApiFailure 400 ''invalid_request'')
                | Some pair \<Rightarrow>
                    (case classify_account_key_state (u_public_key u) (u_private_key u) of
                       KeysInvalid \<Rightarrow> return_value account_key_state_invalid
                     | KeysComplete stored \<Rightarrow>
                         return_value (if account_key_pairs_equal stored pair then account_keys_reply u stored else account_key_conflict)
                     | KeysMissing \<Rightarrow> initialize_keys crypto site auth pair))))"

section \<open>The id of the user key\<close>

text \<open>A repeated value that is no string is refused either way, so equality serves for \<open>deepEqual\<close>.\<close>

definition parse_user_key_id_body :: "json \<Rightarrow> string option" where
  "parse_user_key_id_body body =
     (case as_record body of
        None \<Rightarrow> None
      | Some obj \<Rightarrow>
          if list_ex (\<lambda>(field, _). field \<notin> {''userKeyId'', ''UserKeyId''}) obj then None
          else (case List.map_filter (jprop obj) [''userKeyId'', ''UserKeyId''] of
                  [] \<Rightarrow> None
                | v # vs \<Rightarrow>
                    if list_ex (\<lambda>w. w \<noteq> v) vs then None
                    else (case as_string (Some v) of None \<Rightarrow> None | Some s \<Rightarrow> if is_user_key_id s then Some s else None)))"

text \<open>The body is what the bounded reader hands over, nothing when it refuses.\<close>

definition handle_user_key_id :: "crypto \<Rightarrow> credential_site \<Rightarrow> json option \<Rightarrow> database \<Rightarrow> database \<times> credential_answer reply" where
  "handle_user_key_id crypto site body =
     feature (cg_user_key_id_enabled site)
       (with_authorization (\<lambda>db. and_then (authenticate_site crypto site db) (\<lambda>auth.
            let u = au_user (av_user auth)
            in case Option.bind body parse_user_key_id_body of
                 None \<Rightarrow> Inl (400, ''invalid_request'')
               | Some key_id \<Rightarrow>
                   if \<not> has_wrapped_user_key u \<or> truthy (u_user_key_id u) then Inl (400, ''invalid_request'') else Inr (auth, key_id)))
        (\<lambda>(auth, key_id).
          let u = au_user (av_user auth)
          in repo_bind (next_revision site u) (\<lambda>revision.
             repo_bind (register_user_key_id (u_id u) key_id (case u_user_key u of Some k \<Rightarrow> k | None \<Rightarrow> [])
                (u_security_stamp u) (u_revision_date u) revision
                (as_row_id (st_audit (cg_route site)), credential_event site auth ''account.user_key_id.register'' [] revision)) (\<lambda>registered.
             return_value (if registered then Reply CredentialDone else ApiFailure 400 ''invalid_request'')))))"

section \<open>Dispatch\<close>

datatype credential_request =
    VerifyPassword json | ChangePassword json | ChangeKdf json | RotateStamp json
  | ReadKeys | CreateKeys json | RegisterKeyId "json option"

fun credential_route ::
    "crypto \<Rightarrow> credential_site \<Rightarrow> credential_request \<Rightarrow> database \<Rightarrow> database \<times> credential_answer reply" where
  "credential_route crypto site (VerifyPassword body) = handle_verify_password crypto site body"
| "credential_route crypto site (ChangePassword body) = handle_password_change crypto site body"
| "credential_route crypto site (ChangeKdf body) = handle_kdf_change crypto site body"
| "credential_route crypto site (RotateStamp body) = handle_security_stamp crypto site body"
| "credential_route crypto site ReadKeys = handle_account_keys_read crypto site"
| "credential_route crypto site (CreateKeys body) = handle_account_keys_create crypto site body"
| "credential_route crypto site (RegisterKeyId body) = handle_user_key_id crypto site body"

end
