(* ===== verification/CredentialProofs.thy ===== *)
theory CredentialProofs
  imports CredentialRoutes GrantProofs
begin

text \<open>
  What a change of credentials does. The locale \<open>generation_write\<close> is the contract of the guarded write that each change hands to
  the common batch; its lemma says that the batch happens as a whole or not at all. The three writes are its instances.
\<close>

declare run_stmts.simps [simp del]

section \<open>The batch\<close>

lemma replace_users_rows: "replace_users p f us t = Inr (us', t') \<Longrightarrow> us' = sql_update p f us"
  by (induction us arbitrary: t us' t') (auto simp: sql_update_def and_then_Inr_iff Let_def split: if_splits)

lemma replace_users_none: "\<forall>u \<in> set us. \<not> p u \<Longrightarrow> replace_users p f us t = Inr (us, t)"
  by (induction us arbitrary: t) auto

lemma update_users_Inr:
  assumes "update_users p f db n = Inr (d, k)"
  shows "k = sql_count p (users db) \<and> (\<exists>t. d = db\<lparr>users := sql_update p f (users db), account_kdf_population := t\<rparr>)"
  using assms by (auto simp: update_users_def and_then_Inr_iff dest: replace_users_rows)

lemma update_users_none: "sql_count p (users db) = 0 \<Longrightarrow> update_users p f db n = Inr (db, 0)"
  by (simp add: update_users_def replace_users_none sql_count_0)

definition ended_sessions :: "credential_change \<Rightarrow> database \<Rightarrow> database" where
  "ended_sessions i d =
     d\<lparr>devices := sql_update (\<lambda>r. d_user_id r = cr_user_id i \<and> d_revoked_at r = None)
         (\<lambda>r. r\<lparr>d_revoked_at := Some (cr_next_revision_date i), d_updated_at := cr_next_revision_date i\<rparr>) (devices d),
       refresh_tokens := sql_update (\<lambda>t. rt_user_id t = cr_user_id i \<and> rt_revoked_at t = None)
         (\<lambda>t. t\<lparr>rt_revoked_at := Some (cr_next_revision_date i)\<rparr>) (refresh_tokens d),
       auth_requests := sql_update (\<lambda>r. ar_user_id r = Some (cr_user_id i) \<and> ar_status r \<in> {Pending, Approved})
         (\<lambda>r. r\<lparr>ar_status := Superseded, ar_request_approved := Some False, ar_encrypted_response_key := None,
                ar_updated_at := cr_next_revision_date i\<rparr>) (auth_requests d),
       audit_events := audit_events d @ [audit_row (cr_audit_event_id i) (cr_audit_event i)]\<rparr>"

lemma next_generation_tables [simp]:
  "next_generation_is i (devices_update f d) = next_generation_is i d"
  "next_generation_is i (refresh_tokens_update g d) = next_generation_is i d"
  "next_generation_is i (auth_requests_update h d) = next_generation_is i d"
  "next_generation_is i (wrapper_history_update k d) = next_generation_is i d"
  by (simp_all add: next_generation_is_def credential_generation_is_def)

definition session_statements :: "credential_change \<Rightarrow> database stmt list" where
  "session_statements i =
     [revoke_devices_statement i, revoke_tokens_statement i, supersede_requests_statement i, credential_audit_statement i]"

lemma update_false: "update_stmt get upd (\<lambda>db prev r. False) f db n = Inr (upd (\<lambda>t. t) db, 0)"
  by (simp add: update_stmt_def sql_update_def sql_count_def)

lemma same_tables [simp]:
  "devices_update (\<lambda>t. t) d = d" "refresh_tokens_update (\<lambda>t. t) d = d" "auth_requests_update (\<lambda>t. t) d = d"
  "wrapper_history_update (\<lambda>t. t) d = d"
  by simp_all

lemma session_statements_idle:
  assumes "\<not> next_generation_is i d" "run_stmts (session_statements i) d n = Inr (d', ns)"
  shows "d' = d \<and> ns = [0, 0, 0, 0]"
proof -
  have audit: "\<not> sql_exists (\<lambda>u. u_id u = cr_user_id i \<and> u_disabled_at u = None \<and> u_security_stamp u = cr_next_security_stamp i \<and>
      u_revision_date u = cr_next_revision_date i) (users d)"
    using assms(1) by (auto simp: next_generation_is_def credential_generation_is_def sql_exists_iff)
  have first: "revoke_devices_statement i d m = Inr (d, 0)" "revoke_tokens_statement i d m = Inr (d, 0)" for m
    using assms(1) by (simp_all add: revoke_devices_statement_def revoke_tokens_statement_def update_stmt_def sql_update_def sql_count_def)
  have third: "x = d \<and> k = 0" if "supersede_requests_statement i d m = Inr (x, k)" for m x k
    using assms(1) that by (auto simp: supersede_requests_statement_def checked_def update_stmt_def sql_update_def sql_count_def split: if_splits)
  from assms(2) obtain d3 k3 k4 where "supersede_requests_statement i d 0 = Inr (d3, k3)" "credential_audit_statement i d3 k3 = Inr (d', k4)"
    "ns = [0, 0, k3, k4]"
    by (auto simp: session_statements_def run_stmts_Inr first)
  with third [of 0 d3 k3] audit show ?thesis by (auto simp: credential_audit_statement_def audit_statement_Inr)
qed

lemma session_statements_run:
  assumes "next_generation_is i d" "run_stmts (session_statements i) d n = Inr (d', ns)" "ns ! 3 = 1"
  shows "d' = ended_sessions i d"
  using assms
  by (auto simp: session_statements_def run_stmts_Inr credential_audit_statement_def audit_statement_Inr revoke_devices_statement_def
      revoke_tokens_statement_def supersede_requests_statement_def checked_def update_stmt_def ended_sessions_def
      split: if_splits)

lemma session_statements_audited:
  assumes "sql_exists (\<lambda>u. u_id u = cr_user_id i \<and> u_disabled_at u = None \<and> u_security_stamp u = cr_next_security_stamp i \<and>
      u_revision_date u = cr_next_revision_date i) (users d)" "run_stmts (session_statements i) d n = Inr (d', ns)"
  shows "next_generation_is i d \<and> ns ! 3 = 1 \<and> length ns = 4"
proof -
  have "next_generation_is i d" using assms(1) by (auto simp: next_generation_is_def credential_generation_is_def sql_exists_iff)
  then show ?thesis using assms
    by (auto simp: session_statements_def run_stmts_Inr credential_audit_statement_def audit_statement_Inr revoke_devices_statement_def
      revoke_tokens_statement_def supersede_requests_statement_def checked_def update_stmt_def split: if_splits)
qed

section \<open>The history of wrapped keys\<close>

lemma set_inserted_wrappers: "set (inserted_wrappers rs t) \<subseteq> set rs"
  by (induction rs t rule: inserted_wrappers.induct) auto

lemma distinct_inserted_wrappers:
  "distinct (map wh_wrapper_sha256 rs) \<Longrightarrow> distinct (map wh_wrapper_sha256 (inserted_wrappers rs t))"
proof (induction rs t rule: inserted_wrappers.induct)
  case (2 r rs t)
  then show ?case using set_inserted_wrappers [of rs "t @ [r]"] by auto
qed simp

lemma inserted_wrappers_in:
  assumes "distinct (map wh_wrapper_sha256 rs)" "r \<in> set rs" "wrapper_sha256_check (wh_wrapper_sha256 r)"
    and "\<not> wrapper_used (wh_user_id r) (wh_wrapper_sha256 r) t"
  shows "r \<in> set (inserted_wrappers rs t)"
  using assms
proof (induction rs t rule: inserted_wrappers.induct)
  case (2 x rs t)
  show ?case
  proof (cases "r = x")
    case False
    then have "wh_wrapper_sha256 x \<noteq> wh_wrapper_sha256 r" using 2(3,4) by force
    then have "\<not> wrapper_used (wh_user_id r) (wh_wrapper_sha256 r) (t @ [x])" using 2(6) by (simp add: wrapper_used_def sql_exists_iff)
    then show ?thesis using 2 False by auto
  qed (use 2 in simp)
qed simp

definition recordable :: "credential_change \<Rightarrow> wrapper_mutation option \<Rightarrow> database \<Rightarrow> bool" where
  "recordable i mutation db \<longleftrightarrow>
     (case mutation of
        None \<Rightarrow> True
      | Some (rows, sha) \<Rightarrow>
          distinct (map wh_wrapper_sha256 rows) \<and> (\<forall>r \<in> set rows. wh_user_id r = cr_user_id i \<and> wrapper_sha256_check (wh_wrapper_sha256 r)) \<and>
          sha \<in> set (map wh_wrapper_sha256 rows) \<and> \<not> wrapper_used (cr_user_id i) sha (wrapper_history db))"

definition recorded_wrappers :: "wrapper_mutation option \<Rightarrow> database \<Rightarrow> wrapper_history_row list" where
  "recorded_wrappers mutation db =
     (case mutation of None \<Rightarrow> [] | Some (rows, _) \<Rightarrow> inserted_wrappers rows (wrapper_history db))"

lemma recordable_committed:
  assumes "recordable i (Some m) db"
  shows "wrapper_history_committed m (recorded_wrappers (Some m) db) (length (recorded_wrappers (Some m) db)) \<and>
     recorded_wrappers (Some m) db \<noteq> []"
proof -
  obtain rows sha where m: "m = (rows, sha)" by (cases m)
  with assms obtain r where r: "r \<in> set rows" "wh_wrapper_sha256 r = sha" by (auto simp: recordable_def)
  with assms m inserted_wrappers_in [of rows r "wrapper_history db"] have "r \<in> set (inserted_wrappers rows (wrapper_history db))"
    by (auto simp: recordable_def)
  with m r(2) set_inserted_wrappers [of rows] distinct_inserted_wrappers [of rows "wrapper_history db"] assms show ?thesis
    by (auto simp: wrapper_history_committed_def recorded_wrappers_def recordable_def Suc_le_eq)
qed

section \<open>The contract of a generation write\<close>

locale generation_write =
  fixes i :: credential_change
    and p :: "database \<Rightarrow> user_row \<Rightarrow> bool"
    and f :: "user_row \<Rightarrow> user_row"
    and s :: "database stmt"
  assumes statement: "s db = update_users (p db) f db"
    and guard: "p db u \<Longrightarrow> rotatable_generation i u"
    and effect: "u_id (f u) = u_id u \<and> u_disabled_at (f u) = u_disabled_at u \<and>
      u_security_stamp (f u) = cr_next_security_stamp i \<and> u_revision_date (f u) = cr_next_revision_date i"
begin

definition written :: "wrapper_mutation option \<Rightarrow> database \<Rightarrow> database \<Rightarrow> bool" where
  "written mutation db db' \<longleftrightarrow>
     (\<exists>u \<in> set (users db). p db u) \<and>
     (\<exists>t. db' = ended_sessions i (db\<lparr>users := sql_update (p db) f (users db), account_kdf_population := t,
        wrapper_history := wrapper_history db @ recorded_wrappers mutation db\<rparr>))"

lemma guarded_id: "p db u \<Longrightarrow> u_id u = cr_user_id i \<and> u_disabled_at u = None"
  using guard by (auto simp: rotatable_generation_def)

lemma statement_cases:
  assumes "distinct (map u_id (users db))" "\<forall>u \<in> set (users db). u_security_stamp u \<noteq> cr_next_security_stamp i" "s db n = Inr (d, k)"
  shows "k = 0 \<and> d = db \<and> \<not> next_generation_is i db \<or>
    k = 1 \<and> (\<exists>u \<in> set (users db). p db u) \<and> (\<exists>t. d = db\<lparr>users := sql_update (p db) f (users db), account_kdf_population := t\<rparr>) \<and>
    sql_exists (\<lambda>u. u_id u = cr_user_id i \<and> u_disabled_at u = None \<and> u_security_stamp u = cr_next_security_stamp i \<and>
      u_revision_date u = cr_next_revision_date i) (users d)"
proof (cases "\<exists>u \<in> set (users db). p db u")
  case True
  then obtain u where u: "u \<in> set (users db)" "p db u" by blast
  have "sql_count (p db) (users db) = 1" using sql_count_1_iff [OF assms(1), of "p db"] guarded_id u by blast
  with update_users_Inr [of "p db" f db n d k] assms(3) obtain t where k: "k = 1"
    and d: "d = db\<lparr>users := sql_update (p db) f (users db), account_kdf_population := t\<rparr>" by (auto simp: statement)
  have "f u \<in> set (users d)" using updated_row_in [of u "users db" "p db" f] u by (simp add: d)
  then have "sql_exists (\<lambda>u. u_id u = cr_user_id i \<and> u_disabled_at u = None \<and> u_security_stamp u = cr_next_security_stamp i \<and>
      u_revision_date u = cr_next_revision_date i) (users d)"
    using effect [of u] guarded_id [OF u(2)] unfolding sql_exists_iff by (intro bexI [of _ "f u"]) auto
  with k d u show ?thesis by blast
next
  case False
  then have "sql_count (p db) (users db) = 0" by (simp add: sql_count_0)
  with assms(2,3) show ?thesis
    by (auto simp: statement update_users_none next_generation_is_def credential_generation_is_def sql_exists_iff)
qed

lemma commit_statements:
  "generation_statements i s mutation =
     s # (case mutation of None \<Rightarrow> [] | Some (rows, _) \<Rightarrow> [insert_wrapper_history rows (next_generation_is i)]) @ session_statements i"
  by (simp add: generation_statements_def session_statements_def)

lemma commit_effect:
  assumes "distinct (map u_id (users db))" "\<forall>u \<in> set (users db). u_security_stamp u \<noteq> cr_next_security_stamp i"
    and "\<And>u. u \<in> set (users db) \<Longrightarrow> p db u \<Longrightarrow> recordable i mutation db"
    and run: "commit_credential_generation i s mutation db = (db', r)"
  shows "db' = db \<and> (\<forall>x. r \<noteq> Inr (Some x)) \<or> (\<exists>x. r = Inr (Some x)) \<and> written mutation db db'"
proof (cases "batch (generation_statements i s mutation) db")
  case (Inl e)
  with run show ?thesis by (auto simp: commit_credential_generation_def with_batch_def)
next
  case (Inr x)
  obtain d ns where x: "x = (d, ns)" by (cases x)
  with Inr obtain d1 k1 ms where s1: "s db 0 = Inr (d1, k1)" and ns: "ns = k1 # ms"
    and rest: "run_stmts ((case mutation of None \<Rightarrow> [] | Some (rows, _) \<Rightarrow> [insert_wrapper_history rows (next_generation_is i)]) @
      session_statements i) d1 k1 = Inr (d, ms)"
    by (auto simp: batch_def commit_statements run_stmts_Inr)
  show ?thesis
  proof (cases "k1 = 0")
    case True
    with statement_cases [OF assms(1,2) s1] have d1: "d1 = db" "\<not> next_generation_is i db" by auto
    have "d = db \<and> (\<forall>m \<in> set ms. m = 0)"
      using rest d1
      by (cases mutation) (auto simp: run_stmts_Inr insert_wrapper_history_def True split: prod.splits dest!: session_statements_idle [OF d1(2)])
    with run Inr x ns True show ?thesis
      by (auto simp: commit_credential_generation_def with_batch_def Let_def return_value_def throw_def split: if_splits)
  next
    case False
    with statement_cases [OF assms(1,2) s1] obtain u t where u: "u \<in> set (users db)" "p db u" and k1: "k1 = 1"
      and d1: "d1 = db\<lparr>users := sql_update (p db) f (users db), account_kdf_population := t\<rparr>"
      and ex: "sql_exists (\<lambda>u. u_id u = cr_user_id i \<and> u_disabled_at u = None \<and> u_security_stamp u = cr_next_security_stamp i \<and>
        u_revision_date u = cr_next_revision_date i) (users d1)" by auto
    have nxt: "next_generation_is i d1" using ex by (auto simp: next_generation_is_def credential_generation_is_def sql_exists_iff)
    have rec: "recordable i mutation db" using assms(3) u by blast
    show ?thesis
    proof (cases mutation)
      case None
      with rest have "run_stmts (session_statements i) d1 k1 = Inr (d, ms)" by simp
      with session_statements_audited [OF ex] session_statements_run [OF nxt] have d: "d = ended_sessions i d1" "ms ! 3 = 1" by auto
      with run Inr x ns None k1 u d1 show ?thesis
        by (auto simp: commit_credential_generation_def with_batch_def Let_def return_value_def written_def recorded_wrappers_def intro!: exI [of _ t])
    next
      case (Some m)
      obtain rows sha where m: "m = (rows, sha)" by (cases m)
      let ?new = "recorded_wrappers mutation db"
      let ?d2 = "wrapper_history_update (\<lambda>t. t @ ?new) d1"
      from rest Some m nxt obtain ms' where ms: "ms = length ?new # ms'"
        and run2: "run_stmts (session_statements i) ?d2 (length ?new) = Inr (d, ms')"
        by (auto simp: run_stmts_Inr insert_wrapper_history_def Let_def recorded_wrappers_def d1)
      have ex2: "sql_exists (\<lambda>u. u_id u = cr_user_id i \<and> u_disabled_at u = None \<and> u_security_stamp u = cr_next_security_stamp i \<and>
        u_revision_date u = cr_next_revision_date i) (users ?d2)" using ex by simp
      have d2: "?d2 = db\<lparr>users := sql_update (p db) f (users db), account_kdf_population := t, wrapper_history := wrapper_history db @ ?new\<rparr>"
        by (simp add: d1)
      have "d = ended_sessions i ?d2" and audited: "ms' ! 3 = 1"
        using session_statements_audited [OF ex2 run2] session_statements_run [OF _ run2] by auto
      then have d: "d = ended_sessions i (db\<lparr>users := sql_update (p db) f (users db), account_kdf_population := t,
          wrapper_history := wrapper_history db @ ?new\<rparr>)" by (simp only: d2)
      have "wrapper_history_committed m ?new (length ?new)" "?new \<noteq> []" using recordable_committed [of i m db] rec Some by auto
      with run Inr x ns Some m k1 u d audited ms show ?thesis
        by (auto simp: commit_credential_generation_def with_batch_def Let_def return_value_def written_def recorded_wrappers_def
            returned_wrappers_def intro!: exI [of _ t])
    qed
  qed
qed

end

interpretation stamps: generation_write i "\<lambda>db. rotatable_generation i" "stamped_generation i" "stamp_statement i" for i
  by unfold_locales (simp_all add: stamp_statement_def stamped_generation_def)

interpretation passwords: generation_write "pw_change w" "changeable_generation w sha"
    "\<lambda>u. stamped_generation (pw_change w) (rewrapped (pw_next_user_key w) u)\<lparr>u_master_password_hash := pw_next_master_password_hash w\<rparr>"
    "password_statement w sha" for w sha
  by unfold_locales (simp_all add: password_statement_def changeable_generation_def stamped_generation_def rewrapped_def)

interpretation kdfs: generation_write "pw_change (kw_write k)" "changeable_generation (kw_write k) sha"
    "\<lambda>u. stamped_generation (pw_change (kw_write k)) (rewrapped (pw_next_user_key (kw_write k)) u)
       \<lparr>u_master_password_hash := pw_next_master_password_hash (kw_write k), u_kdf_algorithm := kw_next_algorithm k,
        u_kdf_iterations := kw_next_iterations k, u_kdf_memory := kw_next_memory k, u_kdf_parallelism := kw_next_parallelism k\<rparr>"
    "kdf_statement k sha" for k sha
  by unfold_locales (simp_all add: kdf_statement_def Let_def changeable_generation_def stamped_generation_def rewrapped_def)

section \<open>Fingerprints\<close>

text \<open>SHA-256 gives 32 bytes.\<close>

definition gives_32_bytes :: "(nat list \<Rightarrow> nat list) \<Rightarrow> bool" where
  "gives_32_bytes sha256 \<longleftrightarrow> (\<forall>bs. length (sha256 bs) = 32 \<and> (\<forall>b \<in> set (sha256 bs). b < 256))"

lemma hex_digit_checked:
  assumes "n < 16"
  shows "is_hex_digit (hex_digit n)"
proof -
  have "\<forall>n \<in> set [0..<16]. is_hex_digit (hex_digit n)" by code_simp
  with assms show ?thesis by simp
qed

lemma length_bytes_to_hex: "length (bytes_to_hex bs) = 2 * length bs"
  by (induction bs) (simp_all add: bytes_to_hex_def)

lemma bytes_to_hex_checked: "\<forall>b \<in> set bs. b < 256 \<Longrightarrow> c \<in> set (bytes_to_hex bs) \<Longrightarrow> is_hex_digit c"
  by (auto simp: bytes_to_hex_def less_mult_imp_div_less intro!: hex_digit_checked)

lemma fingerprint_checked: "gives_32_bytes sha256 \<Longrightarrow> wrapper_sha256_check (fingerprint_credential_wrapper sha256 v)"
  by (auto simp: wrapper_sha256_check_def fingerprint_credential_wrapper_def length_bytes_to_hex gives_32_bytes_def list_all_iff
      intro: bytes_to_hex_checked)

lemma prepared_recordable:
  assumes "gives_32_bytes sha256" "prepare_wrapper_history sha256 w = Some m" "changeable_generation w (snd m) db u"
  shows "recordable (pw_change w) (Some m) db"
  using assms fingerprint_checked [OF assms(1)]
  by (auto simp: prepare_wrapper_history_def recordable_def history_rows_def Let_def changeable_generation_def rotatable_generation_def
      split: if_splits option.splits)

section \<open>A replaced generation\<close>

text \<open>The part of the database that signing in rests on, without the counters of the login defence.\<close>

definition without_counters :: "user_row \<Rightarrow> user_row" where
  "without_counters u =
     u\<lparr>u_login_failed_count := 0, u_login_failed_at := None, u_login_locked_until := None, u_updated_at := []\<rparr>"

definition credential_view ::
    "database \<Rightarrow> user_row list \<times> device_row list \<times> refresh_token_row list \<times> auth_request_row list \<times> wrapper_history_row list" where
  "credential_view db =
     (map without_counters (users db), devices db, refresh_tokens db, auth_requests db, wrapper_history db)"

text \<open>The new wrapped key of an account, if it gets one, is new to its history, and the old one is in it.\<close>

definition fresh_wrapper :: "(nat list \<Rightarrow> nat list) \<Rightarrow> database \<Rightarrow> database \<Rightarrow> user_row \<Rightarrow> user_row \<Rightarrow> bool" where
  "fresh_wrapper sha256 db db' u u' \<longleftrightarrow>
     u_user_key u' = u_user_key u \<or>
     (\<exists>k. u_user_key u' = Some k \<and> \<not> wrapper_used (u_id u) (fingerprint_credential_wrapper sha256 k) (wrapper_history db) \<and>
       (\<forall>k0. u_user_key u = Some k0 \<longrightarrow>
          fingerprint_credential_wrapper sha256 k0 \<noteq> fingerprint_credential_wrapper sha256 k \<and>
          wrapper_used (u_id u) (fingerprint_credential_wrapper sha256 k0) (wrapper_history db')))"

definition rewritten :: "(nat list \<Rightarrow> nat list) \<Rightarrow> string \<Rightarrow> string \<Rightarrow> (user_row \<Rightarrow> bool) \<Rightarrow> (user_row \<Rightarrow> user_row) \<Rightarrow> database \<Rightarrow> database \<Rightarrow> bool" where
  "rewritten sha256 uid stamp p f db db' \<longleftrightarrow>
     users db' = sql_update p f (users db) \<and> (\<forall>u. p u \<longrightarrow> u_id u = uid) \<and> (\<exists>u \<in> set (users db). p u) \<and>
     (\<forall>u. u_id (f u) = u_id u \<and> u_public_key (f u) = u_public_key u \<and> u_private_key (f u) = u_private_key u \<and> u_security_stamp (f u) = stamp) \<and>
     (\<exists>rows. wrapper_history db' = wrapper_history db @ rows) \<and>
     (\<forall>u. p u \<longrightarrow> fresh_wrapper sha256 db db' u (f u))"

definition generation_replaced :: "(nat list \<Rightarrow> nat list) \<Rightarrow> credential_change \<Rightarrow> database \<Rightarrow> database \<Rightarrow> bool" where
  "generation_replaced sha256 i db db' \<longleftrightarrow>
     (\<exists>d. db' = ended_sessions i d \<and> devices d = devices db \<and> refresh_tokens d = refresh_tokens db \<and> auth_requests d = auth_requests db \<and>
       audit_events d = audit_events db) \<and>
     (\<exists>p f. rewritten sha256 (cr_user_id i) (cr_next_security_stamp i) p f db db')"

lemma ended_sessions_tables [simp]:
  "users (ended_sessions i d) = users d" "wrapper_history (ended_sessions i d) = wrapper_history d"
  by (simp_all add: ended_sessions_def)

lemma stamp_replaced:
  assumes "stamps.written i None db db'"
  shows "generation_replaced sha256 i db db'"
proof -
  from assms obtain t where d: "db' = ended_sessions i (db\<lparr>users := sql_update (rotatable_generation i) (stamped_generation i) (users db),
      account_kdf_population := t, wrapper_history := wrapper_history db @ recorded_wrappers None db\<rparr>)"
    and u: "\<exists>u \<in> set (users db). rotatable_generation i u" by (auto simp: stamps.written_def)
  have "rewritten sha256 (cr_user_id i) (cr_next_security_stamp i) (rotatable_generation i) (stamped_generation i) db db'"
    using u by (auto simp: d rewritten_def rotatable_generation_def stamped_generation_def fresh_wrapper_def)
  then show ?thesis unfolding generation_replaced_def by (auto simp: d)
qed

lemma recorded_after:
  assumes "distinct (map wh_wrapper_sha256 rs)" "r \<in> set rs" "wrapper_sha256_check (wh_wrapper_sha256 r)"
  shows "wrapper_used (wh_user_id r) (wh_wrapper_sha256 r) (t @ inserted_wrappers rs t)"
  using inserted_wrappers_in [OF assms, of t] by (auto simp: wrapper_used_def sql_exists_iff)

lemma prepared_fresh:
  assumes "gives_32_bytes sha256" "prepare_wrapper_history sha256 w = Some m" "changeable_generation w (snd m) db u"
    and "u_user_key u' = Some (pw_next_user_key w)" "wrapper_history db' = wrapper_history db @ recorded_wrappers (Some m) db"
  shows "fresh_wrapper sha256 db db' u u'"
proof -
  let ?F = "fingerprint_credential_wrapper sha256"
  have uid: "u_id u = cr_user_id (pw_change w)" and key: "u_user_key u = pw_expected_user_key w"
    and unused: "\<not> wrapper_used (u_id u) (snd m) (wrapper_history db)"
    using assms(3) by (auto simp: changeable_generation_def rotatable_generation_def)
  have sha: "snd m = ?F (pw_next_user_key w)" using assms(2) by (auto simp: prepare_wrapper_history_def Let_def split: if_splits)
  have "?F k0 \<noteq> ?F (pw_next_user_key w) \<and> wrapper_used (u_id u) (?F k0) (wrapper_history db')" if "u_user_key u = Some k0" for k0
  proof -
    have exp: "pw_expected_user_key w = Some k0" using that key by simp
    let ?r = "\<lparr>wh_user_id = u_id u, wh_wrapper_kind = UserKeyWrapper, wh_wrapper_sha256 = ?F k0, wh_recorded_at = cr_next_revision_date (pw_change w)\<rparr>"
    have "?r \<in> set (fst m)" "distinct (map wh_wrapper_sha256 (fst m))" "?F k0 \<noteq> ?F (pw_next_user_key w)"
      using assms(2) exp uid by (auto simp: prepare_wrapper_history_def history_rows_def Let_def split: if_splits option.splits)
    with recorded_after [of "fst m" ?r "wrapper_history db"] fingerprint_checked [OF assms(1)] assms(5) show ?thesis
      by (cases m) (simp add: recorded_wrappers_def)
  qed
  with assms(4) unused sha show ?thesis by (auto simp: fresh_wrapper_def)
qed

lemma password_replaced:
  assumes "gives_32_bytes sha256" "prepare_wrapper_history sha256 w = Some m" "passwords.written w (snd m) (Some m) db db'"
  shows "generation_replaced sha256 (pw_change w) db db'"
proof -
  let ?f = "\<lambda>u. stamped_generation (pw_change w) (rewrapped (pw_next_user_key w) u)\<lparr>u_master_password_hash := pw_next_master_password_hash w\<rparr>"
  from assms(3) obtain t where d: "db' = ended_sessions (pw_change w) (db\<lparr>users := sql_update (changeable_generation w (snd m) db) ?f (users db),
      account_kdf_population := t, wrapper_history := wrapper_history db @ recorded_wrappers (Some m) db\<rparr>)"
    and u: "\<exists>u \<in> set (users db). changeable_generation w (snd m) db u" by (auto simp: passwords.written_def)
  have "rewritten sha256 (cr_user_id (pw_change w)) (cr_next_security_stamp (pw_change w)) (changeable_generation w (snd m) db) ?f db db'"
    using u prepared_fresh [OF assms(1,2), of db]
    by (auto simp: d rewritten_def changeable_generation_def rotatable_generation_def stamped_generation_def rewrapped_def)
  then show ?thesis unfolding generation_replaced_def by (auto simp: d)
qed

lemma kdf_replaced:
  assumes "gives_32_bytes sha256" "prepare_wrapper_history sha256 (kw_write k) = Some m" "kdfs.written k (snd m) (Some m) db db'"
  shows "generation_replaced sha256 (pw_change (kw_write k)) db db'"
proof -
  let ?w = "kw_write k"
  let ?f = "\<lambda>u. stamped_generation (pw_change ?w) (rewrapped (pw_next_user_key ?w) u)
       \<lparr>u_master_password_hash := pw_next_master_password_hash ?w, u_kdf_algorithm := kw_next_algorithm k,
        u_kdf_iterations := kw_next_iterations k, u_kdf_memory := kw_next_memory k, u_kdf_parallelism := kw_next_parallelism k\<rparr>"
  from assms(3) obtain t where d: "db' = ended_sessions (pw_change ?w) (db\<lparr>users := sql_update (changeable_generation ?w (snd m) db) ?f (users db),
      account_kdf_population := t, wrapper_history := wrapper_history db @ recorded_wrappers (Some m) db\<rparr>)"
    and u: "\<exists>u \<in> set (users db). changeable_generation ?w (snd m) db u" by (auto simp: kdfs.written_def)
  have "rewritten sha256 (cr_user_id (pw_change ?w)) (cr_next_security_stamp (pw_change ?w)) (changeable_generation ?w (snd m) db) ?f db db'"
    using u prepared_fresh [OF assms(1,2), of db]
    by (auto simp: d rewritten_def changeable_generation_def rotatable_generation_def stamped_generation_def rewrapped_def)
  then show ?thesis unfolding generation_replaced_def by (auto simp: d)
qed

definition generation_outcome ::
    "(nat list \<Rightarrow> nat list) \<Rightarrow> credential_change \<Rightarrow> database \<Rightarrow> database \<Rightarrow> js_error + generation_change_result option \<Rightarrow> bool" where
  "generation_outcome sha256 i db db' r \<longleftrightarrow>
     db' = db \<and> (\<forall>x. r \<noteq> Inr (Some x)) \<or> (\<exists>x. r = Inr (Some x)) \<and> generation_replaced sha256 i db db'"

lemma prepared_outcome:
  assumes "with_prepared_history sha256 w run db = (db', r)"
    and "\<And>m. prepare_wrapper_history sha256 w = Some m \<Longrightarrow> run m db = (db', r) \<Longrightarrow> generation_outcome sha256 i db db' r"
  shows "generation_outcome sha256 i db db' r"
  using assms by (auto simp: with_prepared_history_def return_value_def generation_outcome_def split: option.splits)

lemma change_outcomes:
  assumes "gives_32_bytes sha256" "distinct (map u_id (users db))"
  shows "\<forall>u \<in> set (users db). u_security_stamp u \<noteq> cr_next_security_stamp i \<Longrightarrow> rotate_account_security_stamp i db = (db', r) \<Longrightarrow>
      generation_outcome sha256 i db db' r"
    and "\<forall>u \<in> set (users db). u_security_stamp u \<noteq> cr_next_security_stamp (pw_change w) \<Longrightarrow>
      change_account_master_password sha256 w db = (db', r) \<Longrightarrow> generation_outcome sha256 (pw_change w) db db' r"
    and "\<forall>u \<in> set (users db). u_security_stamp u \<noteq> cr_next_security_stamp (pw_change (kw_write k)) \<Longrightarrow>
      change_account_kdf sha256 k db = (db', r) \<Longrightarrow> generation_outcome sha256 (pw_change (kw_write k)) db db' r"
proof -
  show "generation_outcome sha256 i db db' r" if "\<forall>u \<in> set (users db). u_security_stamp u \<noteq> cr_next_security_stamp i"
    "rotate_account_security_stamp i db = (db', r)"
    using stamps.commit_effect [OF assms(2) that(1) _ that(2) [unfolded rotate_account_security_stamp_def]] stamp_replaced
    by (auto simp: recordable_def generation_outcome_def)
next
  assume fresh: "\<forall>u \<in> set (users db). u_security_stamp u \<noteq> cr_next_security_stamp (pw_change w)"
    and run: "change_account_master_password sha256 w db = (db', r)"
  show "generation_outcome sha256 (pw_change w) db db' r"
  proof (rule prepared_outcome [OF run [unfolded change_account_master_password_def]])
    fix m assume m: "prepare_wrapper_history sha256 w = Some m"
      and c: "commit_credential_generation (pw_change w) (password_statement w (snd m)) (Some m) db = (db', r)"
    show "generation_outcome sha256 (pw_change w) db db' r"
      using passwords.commit_effect [OF assms(2) fresh _ c] prepared_recordable [OF assms(1) m] password_replaced [OF assms(1) m]
      by (auto simp: generation_outcome_def)
  qed
next
  assume fresh: "\<forall>u \<in> set (users db). u_security_stamp u \<noteq> cr_next_security_stamp (pw_change (kw_write k))"
    and run: "change_account_kdf sha256 k db = (db', r)"
  show "generation_outcome sha256 (pw_change (kw_write k)) db db' r"
  proof (rule prepared_outcome [OF run [unfolded change_account_kdf_def]])
    fix m assume m: "prepare_wrapper_history sha256 (kw_write k) = Some m"
      and c: "commit_credential_generation (pw_change (kw_write k)) (kdf_statement k (snd m)) (Some m) db = (db', r)"
    show "generation_outcome sha256 (pw_change (kw_write k)) db db' r"
      using kdfs.commit_effect [OF assms(2) fresh _ c] prepared_recordable [OF assms(1) m] kdf_replaced [OF assms(1) m]
      by (auto simp: generation_outcome_def)
  qed
qed

end
