(* ===== verification/CredentialSafety.thy ===== *)
theory CredentialSafety
  imports CredentialProofs TokenEndpointProofs
begin

text \<open>
  What the credential routes guarantee: a change of the generation needs the current password, ends every session of the account and
  none of another, or changes nothing; a wrapped key that was replaced does not come back; a request changes the key pair only of an account that had none.
\<close>

declare run_stmts.simps [simp del]

section \<open>The password proof\<close>

lemma counters_preserved [preserving]:
  "preserves credential_view (record_auth_attempt row)"
  "preserves credential_view (record_failed_auth_bucket key limit window lockout now)"
  "preserves credential_view (record_failed_login uid n failed_at locked)"
proof -
  show "preserves credential_view (record_auth_attempt row)"
    unfolding record_auth_attempt_def by (intro preserving) (auto simp: stmt_preserves_def insert_auth_attempt_def credential_view_def split: if_splits)
  show "preserves credential_view (record_failed_auth_bucket key limit window lockout now)"
    by (auto simp: preserves_def record_failed_auth_bucket_def credential_view_def Let_def throw_def return_value_def split: sum.splits option.splits)
  show "preserves credential_view (record_failed_login uid n failed_at locked)"
    unfolding record_failed_login_def
    by (intro preserving) (auto simp: stmt_preserves_def update_stmt_def credential_view_def sql_update_def without_counters_def)
qed

lemma proof_failure_preserves [preserving]: "preserves credential_view (record_credential_proof_failure crypto site u counted)"
  unfolding record_credential_proof_failure_def Let_def by (intro preserving)

definition generation_done :: "credential_answer reply \<Rightarrow> bool" where
  "generation_done a \<longleftrightarrow> a = Reply CredentialDone \<or> a = ApiFailure 503 ''session_revocation_incomplete''"

lemma invalid_proof_not_done [simp]: "\<not> generation_done (invalid_credential_proof limited)"
  by (simp add: generation_done_def invalid_credential_proof_def)

lemma password_proof_effect:
  assumes "with_password_proof crypto site u presented k db = (db', m)"
  shows "verify_presented_password_hash (u_master_password_hash u) presented \<and> k db = (db', m) \<or>
    credential_view db' = credential_view db \<and> (\<forall>a. m = Inr a \<longrightarrow> \<not> generation_done a)"
proof -
  obtain d gate where check: "check_credential_proof_defense crypto site u db = (d, gate)" by fastforce
  have view: "credential_view d = credential_view db"
  proof -
    have "preserves credential_view (check_credential_proof_defense crypto site u)"
      unfolding check_credential_proof_defense_def Let_def
      by (intro preserving) (auto intro!: preserving)
    with check show ?thesis by (auto dest: preservesD)
  qed
  have allowed: "gate = Inr ProofAllowed \<Longrightarrow> d = db"
    using check by (auto simp: check_credential_proof_defense_def Let_def repo_bind_def repo_get_def return_value_def split: if_splits prod.splits sum.splits)
  show ?thesis
  proof (cases gate)
    case (Inl e)
    with assms check view show ?thesis by (auto simp: with_password_proof_def repo_bind_def)
  next
    case (Inr g)
    show ?thesis
    proof (cases g)
      case (ProofRefused limited)
      with assms check view Inr show ?thesis by (auto simp: with_password_proof_def repo_bind_def return_value_def)
    next
      case ProofAllowed
      then have d: "d = db" using allowed Inr by simp
      obtain d2 r where fail: "record_credential_proof_failure crypto site u True db = (d2, r)" by fastforce
      then have view2: "credential_view d2 = credential_view db" using proof_failure_preserves preservesD by metis
      with assms check Inr ProofAllowed d fail show ?thesis
        by (cases r) (auto simp: with_password_proof_def repo_bind_def return_value_def split: if_splits)
    qed
  qed
qed

section \<open>The routes that replace a generation\<close>

lemma generation_handler_effect:
  assumes "with_password_proof crypto site u presented (repo_bind (next_revision site u) (\<lambda>revision.
      repo_bind (change revision) (\<lambda>r. return_value (generation_answer cleaned r)))) db = (db', m)"
    and "\<And>revision d r. change revision db = (d, r) \<Longrightarrow> generation_outcome sha256 (i revision) db d r"
  shows "verify_presented_password_hash (u_master_password_hash u) presented \<and> (\<exists>revision. generation_replaced sha256 (i revision) db db') \<and>
      (\<exists>a. m = Inr a \<and> generation_done a) \<or>
    credential_view db' = credential_view db \<and> (\<forall>a. m = Inr a \<longrightarrow> \<not> generation_done a)"
  using password_proof_effect [OF assms(1)]
proof
  assume k: "verify_presented_password_hash (u_master_password_hash u) presented \<and> (repo_bind (next_revision site u) (\<lambda>revision.
      repo_bind (change revision) (\<lambda>r. return_value (generation_answer cleaned r)))) db = (db', m)"
  show ?thesis
  proof (cases "next_credential_revision_date (u_revision_date u) (cg_now site)")
    case (Inl e)
    with k show ?thesis by (auto simp: next_revision_def repo_bind_def repo_lift_def)
  next
    case (Inr revision)
    obtain d r where run: "change revision db = (d, r)" by fastforce
    from assms(2) [OF run] k Inr run show ?thesis
      by (cases r) (auto simp: next_revision_def repo_bind_def repo_lift_def return_value_def generation_outcome_def generation_answer_def
          generation_done_def split: option.splits if_splits)
  qed
qed blast

lemma with_authorization_cases:
  assumes "with_authorization authorize handler db = (db', a)"
  obtains r where "authorize db = Inl r" "db' = db" "a = refuse r"
  | x m where "authorize db = Inr x" "handler x db = (db', m)" "a = (case m of Inl e \<Rightarrow> ApiFailure 503 ''database_unavailable'' | Inr b \<Rightarrow> b)"
  using assms by (auto simp: with_authorization_def catch_all_def split: sum.splits prod.splits)

lemma vault_refusals: "authenticate_vault_request hmac env headers now db = Inl r \<Longrightarrow> snd r \<noteq> ''session_revocation_incomplete''"
  by (auto simp: authenticate_vault_request_def authenticate_vault_request_with_access_token_def invalid_token_def database_unavailable_def
      split: option.splits if_splits access_token_verification.splits sum.splits)

lemma recent_refusals:
  "authenticate_recent_password_request hmac env headers now db = Inl r \<Longrightarrow> snd r \<noteq> ''session_revocation_incomplete''"
  by (auto simp: authenticate_recent_password_request_def and_then_Inl_iff dest: vault_refusals split: if_splits)

text \<open>The current password that a request to replace the generation presents.\<close>

fun generation_proof :: "credential_request \<Rightarrow> string option" where
  "generation_proof (ChangePassword body) = map_option pc_current_master_password_hash (parse_master_password_change_body body)"
| "generation_proof (ChangeKdf body) = map_option kc_current_master_password_hash (parse_kdf_change_body body)"
| "generation_proof (RotateStamp body) = parse_security_stamp_rotation_body body"
| "generation_proof _ = None"

definition generation_effect ::
    "crypto \<Rightarrow> credential_site \<Rightarrow> credential_request \<Rightarrow> database \<Rightarrow> database \<Rightarrow> credential_answer reply \<Rightarrow> bool" where
  "generation_effect crypto site op db db' a \<longleftrightarrow>
     generation_done a \<and> (\<exists>auth presented i. authenticate_site crypto site db = Inr auth \<and> generation_proof op = Some presented \<and>
       verify_presented_password_hash (u_master_password_hash (au_user (av_user auth))) presented \<and>
       cr_user_id i = u_id (au_user (av_user auth)) \<and> cr_next_security_stamp i = cg_next_security_stamp site \<and>
       generation_replaced (cy_sha256 crypto) i db db') \<or>
     \<not> generation_done a \<and> credential_view db' = credential_view db"

lemma effect_of_handler:
  assumes "authenticate_site crypto site db = Inr auth" "generation_proof op = Some presented" "u = au_user (av_user auth)"
    and "with_password_proof crypto site u presented (repo_bind (next_revision site u) (\<lambda>revision.
      repo_bind (change revision) (\<lambda>r. return_value (generation_answer cleaned r)))) db = (db', m)"
    and "\<And>revision d r. change revision db = (d, r) \<Longrightarrow> generation_outcome (cy_sha256 crypto) (i revision) db d r"
    and "\<And>revision. cr_user_id (i revision) = u_id u \<and> cr_next_security_stamp (i revision) = cg_next_security_stamp site"
    and "a = (case m of Inl e \<Rightarrow> ApiFailure 503 ''database_unavailable'' | Inr b \<Rightarrow> b)"
  shows "generation_effect crypto site op db db' a"
proof -
  have "\<not> generation_done (ApiFailure 503 ''database_unavailable'')" by (simp add: generation_done_def)
  with generation_handler_effect [OF assms(4), of "cy_sha256 crypto" i, OF assms(5)] assms(1-3,6,7) show ?thesis
    unfolding generation_effect_def by (cases m) force+
qed

lemma refusal_effect: "snd r \<noteq> ''session_revocation_incomplete'' \<Longrightarrow> generation_effect crypto site op db db (refuse r)"
  by (simp add: generation_effect_def generation_done_def refuse_def)

lemma authorized_change_cases:
  "authorized_change site authenticate read db = Inr (auth, x) \<Longrightarrow> authenticate db = Inr auth \<and> read (au_user (av_user auth)) = Some x"
  "authorized_change site authenticate read db = Inl r \<Longrightarrow>
     authenticate db = Inl r \<or> snd r = ''invalid_request'' \<or> snd r = ''server_misconfigured''"
  by (auto simp: authorized_change_def and_then_Inr_iff and_then_Inl_iff split: option.splits if_splits)

lemma authorized_handler_effect:
  assumes "with_authorization (authorized_change site authenticate read) handler db = (db', a)"
    and "\<And>r. authenticate db = Inl r \<Longrightarrow> snd r \<noteq> ''session_revocation_incomplete''"
    and "\<And>auth. authenticate db = Inr auth \<Longrightarrow> authenticate_site crypto site db = Inr auth"
    and "\<And>auth x m. authenticate_site crypto site db = Inr auth \<Longrightarrow> read (au_user (av_user auth)) = Some x \<Longrightarrow> handler (auth, x) db = (db', m) \<Longrightarrow>
      generation_effect crypto site op db db' (case m of Inl e \<Rightarrow> ApiFailure 503 ''database_unavailable'' | Inr b \<Rightarrow> b)"
  shows "generation_effect crypto site op db db' a"
proof (rule with_authorization_cases [OF assms(1)])
  fix r assume r: "authorized_change site authenticate read db = Inl r" "db' = db" "a = refuse r"
  have "snd r \<noteq> ''session_revocation_incomplete''" using authorized_change_cases(2) [OF r(1)] assms(2) [of r] by fastforce
  with r show ?thesis using refusal_effect by simp
next
  fix x m assume x: "authorized_change site authenticate read db = Inr x" and h: "handler x db = (db', m)"
    and a: "a = (case m of Inl e \<Rightarrow> ApiFailure 503 ''database_unavailable'' | Inr b \<Rightarrow> b)"
  obtain auth y where "x = (auth, y)" by (cases x)
  with authorized_change_cases(1) [of site authenticate read db auth y] x h a assms(3,4) show ?thesis by auto
qed

lemma disabled_feature_effect: "\<not> flag_true flag \<Longrightarrow> feature flag handler db = (db', a) \<Longrightarrow> generation_effect crypto site op db db' a"
  by (auto simp: feature_def generation_effect_def generation_done_def)

lemma site_refusals: "authenticate_site crypto site db = Inl r \<Longrightarrow> snd r \<noteq> ''session_revocation_incomplete''"
  unfolding authenticate_site_def by (rule vault_refusals)

lemma change_of_simps [simp]:
  "cr_user_id (credential_change_of site auth name context revision) = u_id (au_user (av_user auth))"
  "cr_next_security_stamp (credential_change_of site auth name context revision) = cg_next_security_stamp site"
  "pw_change (password_write_of u i h k) = i"
  by (simp_all add: credential_change_of_def password_write_of_def Let_def)

lemma password_change_effect:
  assumes "gives_32_bytes (cy_sha256 crypto)" "distinct (map u_id (users db))"
    and fresh: "\<forall>u \<in> set (users db). u_security_stamp u \<noteq> cg_next_security_stamp site"
    and run: "handle_password_change crypto site body db = (db', a)"
  shows "generation_effect crypto site (ChangePassword body) db db' a"
proof (cases "flag_true (cg_password_change_enabled site)")
  case True
  show ?thesis
  proof (rule authorized_handler_effect [OF run [unfolded handle_password_change_def feature_def if_P [OF True]] site_refusals])
    fix auth request m
    assume auth: "authenticate_site crypto site db = Inr auth"
      and read: "(case parse_master_password_change_body body of None \<Rightarrow> None
        | Some r \<Rightarrow> if matches_password_change_credential_generation r (user_generation (au_user (av_user auth))) then Some r else None) =
        Some request"
      and h: "(case (auth, request) of (auth, request) \<Rightarrow>
          let u = au_user (av_user auth)
          in with_password_proof crypto site u (pc_current_master_password_hash request)
             (repo_bind (next_revision site u) (\<lambda>revision.
              repo_bind (change_account_master_password (cy_sha256 crypto) (password_write_of u
                 (credential_change_of site auth ''account.password.change''
                   [(''d1SessionsRevoked'', JBool True), (''kdfUnchanged'', JBool True)] revision)
                 (pc_next_master_password_hash request) (pc_next_user_key request))) (\<lambda>r.
              return_value (generation_answer (hub_sessions_invalidated site) r))))) db = (db', m)"
    have proof_is: "generation_proof (ChangePassword body) = Some (pc_current_master_password_hash request)"
      using read by (auto split: option.splits if_splits)
    show "generation_effect crypto site (ChangePassword body) db db' (case m of Inl e \<Rightarrow> ApiFailure 503 ''database_unavailable'' | Inr b \<Rightarrow> b)"
    proof (rule effect_of_handler [OF auth proof_is refl h [unfolded prod.case Let_def] _ _ refl])
      fix revision d r
      assume "change_account_master_password (cy_sha256 crypto) (password_write_of (au_user (av_user auth))
           (credential_change_of site auth ''account.password.change''
             [(''d1SessionsRevoked'', JBool True), (''kdfUnchanged'', JBool True)] revision)
           (pc_next_master_password_hash request) (pc_next_user_key request)) db = (d, r)"
      from change_outcomes(2) [OF assms(1,2) _ this] fresh
      show "generation_outcome (cy_sha256 crypto) (credential_change_of site auth ''account.password.change''
           [(''d1SessionsRevoked'', JBool True), (''kdfUnchanged'', JBool True)] revision) db d r" by simp
    qed simp
  qed
next
  case False
  from disabled_feature_effect [OF this run [unfolded handle_password_change_def]] show ?thesis .
qed

lemma security_stamp_effect:
  assumes "gives_32_bytes (cy_sha256 crypto)" "distinct (map u_id (users db))"
    and fresh: "\<forall>u \<in> set (users db). u_security_stamp u \<noteq> cg_next_security_stamp site"
    and run: "handle_security_stamp crypto site body db = (db', a)"
  shows "generation_effect crypto site (RotateStamp body) db db' a"
proof (rule authorized_handler_effect [OF run [unfolded handle_security_stamp_def] recent_refusals])
  fix auth assume "authenticate_recent_password_request (cy_hmac_sha256 crypto) (st_env (cg_route site)) (st_headers (cg_route site))
      (st_seconds (cg_route site)) db = Inr auth"
  then show "authenticate_site crypto site db = Inr auth"
    by (auto simp: authenticate_recent_password_request_def authenticate_site_def and_then_Inr_iff split: if_splits)
next
  fix auth presented m
  assume auth: "authenticate_site crypto site db = Inr auth" and read: "parse_security_stamp_rotation_body body = Some presented"
    and h: "(case (auth, presented) of (auth, presented) \<Rightarrow>
         let u = au_user (av_user auth)
         in with_password_proof crypto site u presented
            (repo_bind (next_revision site u) (\<lambda>revision.
             repo_bind (rotate_account_security_stamp (credential_change_of site auth ''account.security_stamp.rotate''
                [(''allSessionsRevoked'', JBool True)] revision)) (\<lambda>r.
             return_value (generation_answer (hub_sessions_invalidated site) r))))) db = (db', m)"
  show "generation_effect crypto site (RotateStamp body) db db' (case m of Inl e \<Rightarrow> ApiFailure 503 ''database_unavailable'' | Inr b \<Rightarrow> b)"
  proof (rule effect_of_handler [OF auth _ refl h [unfolded prod.case Let_def] _ _ refl])
    show "generation_proof (RotateStamp body) = Some presented" using read by simp
  next
    fix revision d r
    assume "rotate_account_security_stamp (credential_change_of site auth ''account.security_stamp.rotate''
        [(''allSessionsRevoked'', JBool True)] revision) db = (d, r)"
    from change_outcomes(1) [OF assms(1,2) _ this] fresh
    show "generation_outcome (cy_sha256 crypto) (credential_change_of site auth ''account.security_stamp.rotate''
        [(''allSessionsRevoked'', JBool True)] revision) db d r" by simp
  qed simp
qed

lemma kdf_change_effect:
  assumes "gives_32_bytes (cy_sha256 crypto)" "distinct (map u_id (users db))"
    and fresh: "\<forall>u \<in> set (users db). u_security_stamp u \<noteq> cg_next_security_stamp site"
    and run: "handle_kdf_change crypto site body db = (db', a)"
  shows "generation_effect crypto site (ChangeKdf body) db db' a"
proof (cases "flag_true (cg_kdf_mutation_enabled site)")
  case True
  show ?thesis
  proof (rule authorized_handler_effect [OF run [unfolded handle_kdf_change_def feature_def if_P [OF True]] site_refusals])
    fix auth request m
    assume auth: "authenticate_site crypto site db = Inr auth"
      and read: "(case parse_kdf_change_body body of None \<Rightarrow> None
        | Some r \<Rightarrow> if matches_kdf_change_credential_generation r (user_generation (au_user (av_user auth))) then Some r else None) = Some request"
      and h: "(case (auth, request) of (auth, request) \<Rightarrow>
          let u = au_user (av_user auth); kdf = kc_kdf request
          in with_password_proof crypto site u (kc_current_master_password_hash request)
             (case kdf_from_stored_generation (user_generation u) of
                None \<Rightarrow> return_value (ApiFailure 400 ''invalid_request'')
              | Some previous \<Rightarrow>
                  repo_bind (next_revision site u) (\<lambda>revision.
                  repo_bind (change_account_kdf (cy_sha256 crypto)
                     \<lparr>kw_write = password_write_of u
                        (credential_change_of site auth ''account.kdf.change''
                          [(''d1SessionsRevoked'', JBool True), (''previousKdfType'', kdf_type_number (kdf_type previous)),
                           (''nextKdfType'', kdf_type_number (kdf_type kdf))] revision)
                        (kc_next_master_password_hash request) (kc_next_user_key request),
                      kw_next_algorithm = kdf_algorithm_for_type (kdf_type kdf), kw_next_iterations = kdf_iterations kdf,
                      kw_next_memory = kdf_memory kdf, kw_next_parallelism = kdf_parallelism kdf\<rparr>) (\<lambda>r.
                  return_value (generation_answer True r))))) db = (db', m)"
    have proof_is: "generation_proof (ChangeKdf body) = Some (kc_current_master_password_hash request)"
      using read by (auto split: option.splits if_splits)
    let ?a = "case m of Inl e \<Rightarrow> ApiFailure 503 ''database_unavailable'' | Inr b \<Rightarrow> b"
    let ?u = "au_user (av_user auth)"
    show "generation_effect crypto site (ChangeKdf body) db db' ?a"
    proof (cases "kdf_from_stored_generation (user_generation ?u)")
      case None
      with password_proof_effect [OF h [unfolded prod.case Let_def None option.case]] show ?thesis
        by (cases m) (auto simp: generation_effect_def generation_done_def return_value_def)
    next
      case (Some previous)
      let ?i = "credential_change_of site auth ''account.kdf.change''
        [(''d1SessionsRevoked'', JBool True), (''previousKdfType'', kdf_type_number (kdf_type previous)),
         (''nextKdfType'', kdf_type_number (kdf_type (kc_kdf request)))]"
      show ?thesis
      proof (rule effect_of_handler [OF auth proof_is refl h [unfolded prod.case Let_def Some option.case] _ _ refl, where i = ?i])
        fix revision d r
        assume "change_account_kdf (cy_sha256 crypto)
           \<lparr>kw_write = password_write_of ?u (?i revision) (kc_next_master_password_hash request) (kc_next_user_key request),
            kw_next_algorithm = kdf_algorithm_for_type (kdf_type (kc_kdf request)), kw_next_iterations = kdf_iterations (kc_kdf request),
            kw_next_memory = kdf_memory (kc_kdf request), kw_next_parallelism = kdf_parallelism (kc_kdf request)\<rparr> db = (d, r)"
        from change_outcomes(3) [OF assms(1,2) _ this] fresh
        show "generation_outcome (cy_sha256 crypto) (?i revision) db d r" by simp
      qed simp
    qed
  qed
next
  case False
  from disabled_feature_effect [OF this run [unfolded handle_kdf_change_def]] show ?thesis .
qed

lemma generation_route_effect:
  assumes "gives_32_bytes (cy_sha256 crypto)" "distinct (map u_id (users db))"
    and "\<forall>u \<in> set (users db). u_security_stamp u \<noteq> cg_next_security_stamp site"
    and "credential_route crypto site op db = (db', a)" "op \<in> {ChangePassword body, ChangeKdf body, RotateStamp body}"
  shows "generation_effect crypto site op db db' a"
  using assms(4,5) password_change_effect [OF assms(1-3)] kdf_change_effect [OF assms(1-3)] security_stamp_effect [OF assms(1-3)]
  by auto

section \<open>The other routes\<close>

definition login_credentials :: "user_row \<Rightarrow> string \<times> string \<times> string \<times> credential_generation \<times> string option" where
  "login_credentials u = (u_id u, u_master_password_hash u, u_security_stamp u, user_generation u, u_user_key u)"

definition has_key_pair :: "user_row \<Rightarrow> bool" where
  "has_key_pair u \<longleftrightarrow> u_public_key u \<noteq> None \<or> u_private_key u \<noteq> None"

definition key_pair_of :: "user_row \<Rightarrow> string option \<times> string option" where
  "key_pair_of u = (u_public_key u, u_private_key u)"

definition sessions_kept :: "database \<Rightarrow> database \<Rightarrow> bool" where
  "sessions_kept db db' \<longleftrightarrow>
     devices db' = devices db \<and> refresh_tokens db' = refresh_tokens db \<and> auth_requests db' = auth_requests db \<and>
     map login_credentials (users db') = map login_credentials (users db)"

definition keys_written :: "database \<Rightarrow> database \<Rightarrow> bool" where
  "keys_written db db' \<longleftrightarrow>
     devices db' = devices db \<and> refresh_tokens db' = refresh_tokens db \<and> auth_requests db' = auth_requests db \<and>
     (\<exists>rows. wrapper_history db' = wrapper_history db @ rows) \<and>
     (\<exists>p f. users db' = sql_update p f (users db) \<and>
       (\<forall>u. p u \<longrightarrow> login_credentials (f u) = login_credentials u \<and> (has_key_pair u \<longrightarrow> key_pair_of (f u) = key_pair_of u)))"

lemma keys_written_refl [simp]: "keys_written db db"
proof -
  have "users db = sql_update (\<lambda>u. False) id (users db)" by (simp add: sql_update_def)
  then show ?thesis unfolding keys_written_def by fastforce
qed

lemma keys_written_kept: "keys_written db db' \<Longrightarrow> sessions_kept db db'"
  by (auto simp: keys_written_def sessions_kept_def sql_update_def)

lemma initialization_writes_keys:
  assumes "initialize_account_key_pair sha256 i db = (db', r)"
  shows "keys_written db db'"
proof -
  define sha where "sha = fingerprint_credential_wrapper sha256 (ki_wrapped_private_key i)"
  define entries where "entries = [(UserKeyWrapper, fingerprint_credential_wrapper sha256 (ki_expected_user_key i)), (PrivateKeyWrapper, sha)]"
  have step: "keys_written db d" if "batch (initialization_statements i entries sha) db = Inr (d, ns)" for d ns
  proof -
    from that obtain d1 k1 d2 k2 n3 where "audit_statement (audit_row (ki_audit_event_id i) (ki_audit_event i))
        (\<lambda>db prev. sql_exists (key_pair_open i sha db) (users db)) db 0 = Inr (d1, k1)"
      and "update_users (key_pair_open i sha d1) (key_pair_written i) d1 k1 = Inr (d2, k2)"
      and "insert_wrapper_history (history_rows (ki_user_id i) (ki_next_revision_date i) entries) (key_pair_stored i) d2 k2 = Inr (d, n3)"
      by (auto simp: batch_def initialization_statements_def run_stmts_Inr)
    then show ?thesis
      using update_users_Inr [of "key_pair_open i sha d1" "key_pair_written i" d1 k1 d2 k2] unfolding keys_written_def
      by (auto simp: audit_statement_Inr insert_wrapper_history_def Let_def split: if_splits
          intro!: exI [of _ "key_pair_open i sha d1"] exI [of _ "key_pair_written i"]
          simp: login_credentials_def key_pair_written_def user_generation_def has_key_pair_def key_pair_open_def)
  qed
  show ?thesis using assms step
    unfolding initialize_account_key_pair_def Let_def with_batch_def sha_def entries_def
    by (auto simp: return_value_def throw_def split: if_splits sum.splits prod.splits)
qed

lemma registration_writes_keys:
  assumes "register_user_key_id uid key_id user_key stamp revision later audit db = (db', r)"
  shows "keys_written db db'"
proof -
  let ?f = "\<lambda>u. u\<lparr>u_user_key_id := Some key_id, u_revision_date := later, u_updated_at := later\<rparr>"
  let ?p = "registrable_key_id uid user_key stamp revision"
  have step: "keys_written db d" if "checked ok (update_users ?p ?f) db 0 = Inr (d1, k1)" "audit_statement e c d1 k1 = Inr (d, k2)" for ok d1 k1 e c d k2
    using that update_users_Inr [of ?p ?f db 0 d1 k1] unfolding keys_written_def
    by (auto simp: checked_def audit_statement_Inr split: sum.splits prod.splits if_splits intro!: exI [of _ ?p] exI [of _ ?f]
        simp: login_credentials_def user_generation_def has_key_pair_def key_pair_of_def)
  show ?thesis using assms step
    by (auto simp: register_user_key_id_def with_batch_def batch_def return_value_def run_stmts_Inr split: sum.splits prod.splits)
qed

lemma repo_bind_fst: "fst (repo_bind m k db) = (case m db of (d, Inl e) \<Rightarrow> d | (d, Inr x) \<Rightarrow> fst (k x d))"
  by (auto simp: repo_bind_def split: prod.splits sum.splits)

lemma concurrent_keys_read [simp]: "fst (concurrent_account_keys u pair current db) = db"
  by (auto simp: concurrent_account_keys_def Let_def return_value_def repo_bind_fst repo_lift_def
      split: option.splits account_key_state.splits if_splits sum.splits)

lemma initialize_keys_writes: "keys_written db (fst (initialize_keys crypto site auth pair db))"
proof -
  have "keys_written db (fst (initialize_account_key_pair sha256 i db))" for sha256 i
    using initialization_writes_keys [of sha256 i db] by (metis prod.collapse)
  then have init: "keys_written db d" if "initialize_account_key_pair sha256 i db = (d, r)" for sha256 i d r
    using that by (metis fst_conv)
  show ?thesis
    by (auto simp: initialize_keys_def Let_def repo_bind_fst next_revision_def repo_lift_def repo_read_def return_value_def
        split: sum.splits prod.splits dest: init)
qed

lemma key_routes_write:
  assumes "credential_route crypto site op db = (db', a)" "op = ReadKeys \<or> (\<exists>body. op = CreateKeys body) \<or> (\<exists>body. op = RegisterKeyId body)"
  shows "keys_written db db'"
  using assms(2)
proof (elim disjE exE)
  assume "op = ReadKeys"
  with assms(1) show ?thesis
    by (auto simp: handle_account_keys_read_def feature_def with_authorization_def catch_all_def return_value_def Let_def
        split: if_splits sum.splits prod.splits)
next
  fix body assume op: "op = CreateKeys body"
  have "keys_written db d" if "initialize_keys crypto site auth pair db = (d, r)" for auth pair d r
    using initialize_keys_writes [of db crypto site auth pair] that by simp
  with assms(1) show ?thesis unfolding op
    by (auto simp: handle_account_keys_create_def feature_def with_authorization_def catch_all_def return_value_def Let_def
        split: if_splits sum.splits prod.splits option.splits account_key_state.splits)
next
  fix body assume op: "op = RegisterKeyId body"
  with assms(1) show ?thesis
    by (auto simp: handle_user_key_id_def feature_def with_authorization_def catch_all_def repo_bind_def next_revision_def repo_lift_def
        return_value_def Let_def split: if_splits sum.splits prod.splits dest: registration_writes_keys)
qed

lemma verify_password_kept:
  assumes "credential_route crypto site (VerifyPassword body) db = (db', a)"
  shows "credential_view db' = credential_view db"
proof (rule with_authorization_cases [OF assms [unfolded credential_route.simps handle_verify_password_def]])
  fix x m
  assume h: "(case x of (auth, presented) \<Rightarrow> with_password_proof crypto site (au_user (av_user auth)) presented (return_value (Reply CredentialDone)))
      db = (db', m)"
  obtain auth presented where x: "x = (auth, presented)" by (cases x)
  from password_proof_effect [OF h [unfolded x prod.case]] show ?thesis by (auto simp: return_value_def)
qed simp

lemma view_kept: "credential_view db' = credential_view db \<Longrightarrow> sessions_kept db db'"
proof -
  assume view: "credential_view db' = credential_view db"
  have "login_credentials u = login_credentials (without_counters u)" for u
    by (simp add: login_credentials_def without_counters_def user_generation_def)
  then have "map login_credentials t = map login_credentials (map without_counters t)" for t by simp
  with view show ?thesis unfolding credential_view_def sessions_kept_def by (metis prod.inject)
qed

section \<open>Sessions\<close>

definition signed_out :: "string \<Rightarrow> database \<Rightarrow> bool" where
  "signed_out uid db \<longleftrightarrow>
     (\<forall>d \<in> set (devices db). d_user_id d = uid \<longrightarrow> d_revoked_at d \<noteq> None) \<and>
     (\<forall>t \<in> set (refresh_tokens db). rt_user_id t = uid \<longrightarrow> rt_revoked_at t \<noteq> None) \<and>
     (\<forall>r \<in> set (auth_requests db). ar_user_id r = Some uid \<longrightarrow> ar_status r \<notin> {Pending, Approved})"

definition others_untouched :: "string \<Rightarrow> database \<Rightarrow> database \<Rightarrow> bool" where
  "others_untouched uid db db' \<longleftrightarrow>
     filter (\<lambda>d. d_user_id d \<noteq> uid) (devices db') = filter (\<lambda>d. d_user_id d \<noteq> uid) (devices db) \<and>
     filter (\<lambda>t. rt_user_id t \<noteq> uid) (refresh_tokens db') = filter (\<lambda>t. rt_user_id t \<noteq> uid) (refresh_tokens db) \<and>
     filter (\<lambda>r. ar_user_id r \<noteq> Some uid) (auth_requests db') = filter (\<lambda>r. ar_user_id r \<noteq> Some uid) (auth_requests db) \<and>
     filter (\<lambda>u. u_id u \<noteq> uid) (users db') = filter (\<lambda>u. u_id u \<noteq> uid) (users db)"

lemma replaced_sessions:
  assumes "generation_replaced sha256 i db db'"
  shows "signed_out (cr_user_id i) db' \<and> others_untouched (cr_user_id i) db db'"
proof -
  from assms obtain d p f where d: "db' = ended_sessions i d" "devices d = devices db" "refresh_tokens d = refresh_tokens db"
      "auth_requests d = auth_requests db"
    and r: "rewritten sha256 (cr_user_id i) (cr_next_security_stamp i) p f db db'" by (auto simp: generation_replaced_def)
  have "signed_out (cr_user_id i) db'" by (auto simp: d signed_out_def ended_sessions_def set_sql_update)
  moreover have "filter (\<lambda>u. u_id u \<noteq> cr_user_id i) (users db') = filter (\<lambda>u. u_id u \<noteq> cr_user_id i) (users db)"
    using r by (auto simp: rewritten_def intro!: filter_sql_update)
  ultimately show ?thesis by (auto simp: d others_untouched_def ended_sessions_def intro!: filter_sql_update)
qed

lemma session_has_device:
  assumes "find_auth_user_by_session uid di sid db = Inr (Some user)"
  shows "\<exists>d \<in> set (devices db). d_user_id d = u_id (au_user user) \<and> d_revoked_at d = None"
  using assms
  by (auto simp: find_auth_user_by_session_def find_auth_user_by_id_def find_user_where_def auth_user_from_row_def Let_def
      session_device_def sql_exists_iff split: option.splits if_splits dest!: sql_first_SomeD)

lemma authenticated_has_device:
  assumes "authenticate_vault_request_with_access_token hmac env token now db = Inr auth"
  shows "\<exists>d \<in> set (devices db). d_user_id d = u_id (au_user (av_user auth)) \<and> d_revoked_at d = None"
  using assms unfolding authenticate_vault_request_with_access_token_def
  by (auto split: option.splits if_splits access_token_verification.splits sum.splits) (frule session_has_device, simp)

lemma signed_out_refuses:
  "signed_out uid db \<Longrightarrow> authenticate_vault_request hmac env headers now db = Inr auth \<Longrightarrow> u_id (au_user (av_user auth)) \<noteq> uid"
  unfolding authenticate_vault_request_def signed_out_def by (metis authenticated_has_device)

text \<open>
  C1. A change of credentials ends every session, or nothing. Take a request that changes the master password, changes the KDF settings or
  rotates the security stamp, with a fresh stamp. When it reports the change, it presented the current password of the account it
  is authenticated as, every device and refresh token of that account is revoked and no login with another device is open, no
  access token authenticates the account, and the rows of other accounts are as they were. Otherwise the sessions, the auth requests and
  the credentials of all accounts are as they were. The other credential routes always leave them so.
\<close>

theorem credential_change_ends_sessions:
  assumes "distinct (map u_id (users db))" "\<forall>u \<in> set (users db). u_security_stamp u \<noteq> cg_next_security_stamp site"
    and "gives_32_bytes (cy_sha256 crypto)" "credential_route crypto site op db = (db', a)"
  shows "if generation_proof op \<noteq> None \<and> generation_done a
    then \<exists>auth presented. authenticate_site crypto site db = Inr auth \<and> generation_proof op = Some presented \<and>
      presented = u_master_password_hash (au_user (av_user auth)) \<and>
      signed_out (u_id (au_user (av_user auth))) db' \<and> others_untouched (u_id (au_user (av_user auth))) db db' \<and>
      (\<forall>hmac env headers now other. authenticate_vault_request hmac env headers now db' = Inr other \<longrightarrow>
        u_id (au_user (av_user other)) \<noteq> u_id (au_user (av_user auth)))
    else sessions_kept db db'"
proof (cases "\<exists>body. op \<in> {ChangePassword body, ChangeKdf body, RotateStamp body}")
  case True
  then have "generation_effect crypto site op db db' a" using generation_route_effect [OF assms(3,1,2,4)] by blast
  then show ?thesis
    unfolding generation_effect_def
  proof (elim disjE conjE exE)
    fix auth presented i
    assume "generation_done a" "authenticate_site crypto site db = Inr auth" "generation_proof op = Some presented"
      "verify_presented_password_hash (u_master_password_hash (au_user (av_user auth))) presented"
      "cr_user_id i = u_id (au_user (av_user auth))" "generation_replaced (cy_sha256 crypto) i db db'"
    with replaced_sessions [of "cy_sha256 crypto" i db db'] signed_out_refuses [of _ db'] show ?thesis
      by (auto simp: verify_presented_password_hash_def constant_time_equal_iff)
  qed (simp add: view_kept)
next
  case False
  then have "generation_proof op = None" "(\<exists>body. op = VerifyPassword body) \<or> op = ReadKeys \<or> (\<exists>body. op = CreateKeys body) \<or> (\<exists>body. op = RegisterKeyId body)"
    by (cases op; auto)+
  with key_routes_write [OF assms(4)] keys_written_kept verify_password_kept view_kept assms(4) show ?thesis by auto
qed

section \<open>The requests to log in with another device\<close>

text \<open>
  A change of the generation does to the requests of the account what the revocation of the request runs does, and nothing
  else among these routes touches them: every run of credential requests is a run of that component.
\<close>

lemma replaced_revokes_requests:
  assumes "generation_replaced sha256 i db db'" "auth_requests_ok db'"
  shows "auth_requests db' = auth_requests (request_exec (RevokeRequests (cr_user_id i) (cr_next_revision_date i)) db)"
proof -
  let ?t = "sql_update (open_request_of (cr_user_id i)) (revoked_request (cr_next_revision_date i)) (auth_requests db)"
  have t: "auth_requests db' = ?t"
    using assms(1) unfolding generation_replaced_def ended_sessions_def open_request_of_def revoked_request_def by auto
  have "auth_requests_ok (auth_requests_update (sql_update (open_request_of (cr_user_id i)) (revoked_request (cr_next_revision_date i))) db)"
    using assms(2) by (simp add: auth_requests_ok_def t)
  then show ?thesis
    by (simp add: t revoke_open_requests_def with_batch_def batch_eval update_requests_def checked_def update_stmt_def return_value_def)
qed

lemma credential_request_runs:
  assumes "distinct (map u_id (users db))" "\<forall>u \<in> set (users db). u_security_stamp u \<noteq> cg_next_security_stamp site"
    and "gives_32_bytes (cy_sha256 crypto)" "credential_route crypto site op db = (db', a)" "auth_requests_ok db'"
  shows "request_run (issued, db) (issued, db')"
proof (cases "\<exists>i. generation_replaced (cy_sha256 crypto) i db db'")
  case True
  then obtain i where i: "generation_replaced (cy_sha256 crypto) i db db'" by blast
  let ?op = "RevokeRequests (cr_user_id i) (cr_next_revision_date i)"
  have "request_run (issued, db) (issued \<union> drawn_request_id ?op, request_exec ?op db)"
    by (rule request_run.step [OF request_run.stay]) simp
  from request_run.elsewhere [OF this replaced_revokes_requests [OF i assms(5)]] show ?thesis by simp
next
  case False
  have "auth_requests db' = auth_requests db"
  proof (cases "\<exists>body. op \<in> {ChangePassword body, ChangeKdf body, RotateStamp body}")
    case True
    then have "generation_effect crypto site op db db' a" using generation_route_effect [OF assms(3,1,2,4)] by blast
    with False show ?thesis unfolding generation_effect_def credential_view_def by blast
  next
    case False
    then have "(\<exists>body. op = VerifyPassword body) \<or> op = ReadKeys \<or> (\<exists>body. op = CreateKeys body) \<or> (\<exists>body. op = RegisterKeyId body)"
      by (cases op) auto
    then show ?thesis using key_routes_write [OF assms(4)] keys_written_kept verify_password_kept view_kept assms(4)
      unfolding sessions_kept_def by blast
  qed
  from request_run.elsewhere [OF request_run.stay this] show ?thesis .
qed

section \<open>The wrapped key in a run\<close>

definition account_follows :: "(nat list \<Rightarrow> nat list) \<Rightarrow> database \<Rightarrow> database \<Rightarrow> bool" where
  "account_follows sha256 db db' \<longleftrightarrow>
     map u_id (users db') = map u_id (users db) \<and>
     (\<forall>uid s. wrapper_used uid s (wrapper_history db) \<longrightarrow> wrapper_used uid s (wrapper_history db')) \<and>
     (\<forall>u' \<in> set (users db'). \<exists>u \<in> set (users db). u_id u = u_id u' \<and> fresh_wrapper sha256 db db' u u')"

lemma wrapper_used_append: "wrapper_used uid s t \<Longrightarrow> wrapper_used uid s (t @ rows)"
  by (auto simp: wrapper_used_def sql_exists_iff)

lemma account_followsE:
  assumes "account_follows sha256 db db'" "u' \<in> set (users db')"
  obtains u where "u \<in> set (users db)" "u_id u = u_id u'" "fresh_wrapper sha256 db db' u u'"
  using assms unfolding account_follows_def by blast

lemma update_follows:
  assumes "users db' = sql_update p f (users db)" "wrapper_history db' = wrapper_history db @ rows"
    and "\<And>u. p u \<Longrightarrow> u_id (f u) = u_id u \<and> fresh_wrapper sha256 db db' u (f u)"
  shows "account_follows sha256 db db'"
proof -
  have "\<exists>u \<in> set (users db). u_id u = u_id u' \<and> fresh_wrapper sha256 db db' u u'"
    if "u' \<in> set (users db')" for u'
  proof -
    from that assms(1) obtain u where "u \<in> set (users db)" "u' = (if p u then f u else u)" by (auto simp: set_sql_update)
    with assms(3) [of u] show ?thesis by (auto simp: fresh_wrapper_def)
  qed
  moreover have "map u_id (users db') = map u_id (users db)" unfolding assms(1) by (rule sql_update_key) (simp add: assms(3))
  ultimately show ?thesis by (auto simp: account_follows_def assms(2) wrapper_used_append)
qed

lemma replaced_follows: "generation_replaced sha256 i db db' \<Longrightarrow> account_follows sha256 db db'"
  unfolding generation_replaced_def rewritten_def by (auto intro!: update_follows simp: key_pair_of_def)

lemma keys_written_follows: "keys_written db db' \<Longrightarrow> account_follows sha256 db db'"
  unfolding keys_written_def by (auto intro!: update_follows simp: login_credentials_def fresh_wrapper_def)

text \<open>The wrapped user keys and the history of them.\<close>

definition keys_view :: "database \<Rightarrow> (string \<times> string option) list \<times> wrapper_history_row list" where
  "keys_view db = (map (\<lambda>u. (u_id u, u_user_key u)) (users db), wrapper_history db)"

lemma same_keys_follow:
  assumes "keys_view db' = keys_view db"
  shows "account_follows sha256 db db'"
proof -
  let ?k = "\<lambda>u. (u_id u, u_user_key u)"
  have keys: "map ?k (users db') = map ?k (users db)" and h: "wrapper_history db' = wrapper_history db"
    using assms by (auto simp: keys_view_def)
  have "map fst (map ?k (users db')) = map fst (map ?k (users db))" using keys by simp
  then have ids: "map u_id (users db') = map u_id (users db)" by (simp add: comp_def)
  have "\<exists>u \<in> set (users db). u_id u = u_id u' \<and> fresh_wrapper sha256 db db' u u'"
    if "u' \<in> set (users db')" for u'
  proof -
    have "?k u' \<in> set (map ?k (users db'))" using that by simp
    then have "?k u' \<in> ?k ` set (users db)" unfolding keys by simp
    then obtain u where u: "u \<in> set (users db)" "?k u' = ?k u" by blast
    then show ?thesis by (intro bexI [OF _ u(1)]) (simp add: fresh_wrapper_def)
  qed
  then show ?thesis using ids h by (simp add: account_follows_def)
qed

lemma view_follows:
  assumes "credential_view db' = credential_view db"
  shows "account_follows sha256 db db'"
proof (rule same_keys_follow)
  let ?k = "\<lambda>u. (u_id u, u_user_key u)"
  have us: "map without_counters (users db') = map without_counters (users db)" and h: "wrapper_history db' = wrapper_history db"
    using assms by (simp_all add: credential_view_def)
  have k: "map ?k t = map ?k (map without_counters t)" for t by (simp add: without_counters_def)
  have "map ?k (users db') = map ?k (users db)" unfolding k [of "users db'"] k [of "users db"] us by (rule refl)
  then show "keys_view db' = keys_view db" using h by (simp add: keys_view_def)
qed

lemma route_follows:
  assumes "gives_32_bytes (cy_sha256 crypto)" "distinct (map u_id (users db))"
    and "\<forall>u \<in> set (users db). u_security_stamp u \<noteq> cg_next_security_stamp site" "credential_route crypto site op db = (db', a)"
  shows "account_follows (cy_sha256 crypto) db db'"
proof (cases "\<exists>body. op \<in> {ChangePassword body, ChangeKdf body, RotateStamp body}")
  case True
  then have "generation_effect crypto site op db db' a" using generation_route_effect [OF assms] by blast
  then show ?thesis unfolding generation_effect_def using replaced_follows view_follows by blast
next
  case False
  then have "(\<exists>body. op = VerifyPassword body) \<or> op = ReadKeys \<or> (\<exists>body. op = CreateKeys body) \<or> (\<exists>body. op = RegisterKeyId body)"
    by (cases op) auto
  then show ?thesis using key_routes_write [OF assms(4)] keys_written_follows verify_password_kept assms(4) view_follows by metis
qed

text \<open>
  A run of credential requests, each with a stamp that no account has yet, and of other operations that leave the wrapped user keys of the
  accounts and the history alone: all but the rotation of the user key, with a history of its own statements, and the deletion of
  an account.
\<close>

inductive credential_step :: "crypto \<Rightarrow> database \<Rightarrow> database \<Rightarrow> bool" for crypto where
  request: "\<forall>u \<in> set (users db). u_security_stamp u \<noteq> cg_next_security_stamp site \<Longrightarrow>
    credential_route crypto site op db = (db', a) \<Longrightarrow> credential_step crypto db db'"
| elsewhere: "keys_view db' = keys_view db \<Longrightarrow> credential_step crypto db db'"

lemma step_follows:
  "credential_step crypto db db' \<Longrightarrow> gives_32_bytes (cy_sha256 crypto) \<Longrightarrow> distinct (map u_id (users db)) \<Longrightarrow>
     account_follows (cy_sha256 crypto) db db'"
  by (induction rule: credential_step.induct) (auto intro: route_follows same_keys_follow)

text \<open>A property of the rows of one account that every step keeps.\<close>

lemma run_keeps:
  assumes "rtranclp (credential_step crypto) db0 db" "gives_32_bytes (cy_sha256 crypto)" "distinct (map u_id (users db0))" "P db0"
    and "\<And>d d'. account_follows (cy_sha256 crypto) d d' \<Longrightarrow> P d \<Longrightarrow> P d'"
  shows "P db \<and> distinct (map u_id (users db))"
  using assms(1)
proof (induction rule: rtranclp_induct)
  case (step y z)
  then have "account_follows (cy_sha256 crypto) y z" using step_follows assms(2) by blast
  moreover from this have "map u_id (users z) = map u_id (users y)" by (simp add: account_follows_def)
  ultimately show ?case using step.IH assms(5) by metis
qed (use assms in simp)

text \<open>
  C2. A replaced wrapped key does not come back. Suppose a step of a run replaces the wrapped user key of an account. Then no later
  step, by password changes, KDF changes or anything else that the run allows, makes a key with the fingerprint of
  the replaced one the key of the account again.
\<close>

theorem replaced_key_never_returns:
  assumes "gives_32_bytes (cy_sha256 crypto)" "distinct (map u_id (users db0))"
    and "credential_step crypto db0 db1" "u0 \<in> set (users db0)" "u_user_key u0 = Some k0"
    and "u1 \<in> set (users db1)" "u_id u1 = u_id u0" "u_user_key u1 \<noteq> Some k0"
    and "rtranclp (credential_step crypto) db1 db" "u \<in> set (users db)" "u_id u = u_id u0" "u_user_key u = Some k"
  shows "fingerprint_credential_wrapper (cy_sha256 crypto) k \<noteq> fingerprint_credential_wrapper (cy_sha256 crypto) k0"
proof -
  let ?F = "fingerprint_credential_wrapper (cy_sha256 crypto)"
  let ?P = "\<lambda>d. wrapper_used (u_id u0) (?F k0) (wrapper_history d) \<and>
    (\<forall>v \<in> set (users d). u_id v = u_id u0 \<longrightarrow> (\<forall>k. u_user_key v = Some k \<longrightarrow> ?F k \<noteq> ?F k0))"
  have keep: "?P d'" if "account_follows (cy_sha256 crypto) d d'" "?P d" for d d'
  proof -
    have "?F k \<noteq> ?F k0" if v': "v' \<in> set (users d')" "u_id v' = u_id u0" "u_user_key v' = Some k" for v' k
    proof -
      obtain v where v: "v \<in> set (users d)" "u_id v = u_id v'" "fresh_wrapper (cy_sha256 crypto) d d' v v'"
        using account_followsE [OF \<open>account_follows (cy_sha256 crypto) d d'\<close> v'(1)] by blast
      with v' \<open>?P d\<close> show ?thesis by (auto simp: fresh_wrapper_def)
    qed
    then show ?thesis using that by (auto simp: account_follows_def)
  qed
  have follows: "account_follows (cy_sha256 crypto) db0 db1" by (rule step_follows [OF assms(3,1,2)])
  have fresh: "fresh_wrapper (cy_sha256 crypto) db0 db1 u0 v" if v: "v \<in> set (users db1)" "u_id v = u_id u0" for v
  proof -
    obtain w where w: "w \<in> set (users db0)" "u_id w = u_id v" "fresh_wrapper (cy_sha256 crypto) db0 db1 w v"
      using account_followsE [OF follows v(1)] by blast
    then show ?thesis using distinct_key_unique [OF assms(2) _ assms(4), of w] v by simp
  qed
  have ids: "distinct (map u_id (users db1))" using follows assms(2) by (simp add: account_follows_def)
  have "v = u1" if "v \<in> set (users db1)" "u_id v = u_id u0" for v using distinct_key_unique [OF ids that(1) assms(6)] that assms(7) by simp
  then have "?P db1" using fresh [OF assms(6,7)] assms(5,8) by (auto simp: fresh_wrapper_def)
  then have "?P db \<and> distinct (map u_id (users db))" by (rule run_keeps [OF assms(9,1) ids]) (rule keep)
  with assms(10-12) show ?thesis by blast
qed

section \<open>The key pair\<close>

lemma account_id_unique:
  "distinct (map u_id (users db)) \<Longrightarrow> u \<in> set (users db) \<Longrightarrow> v \<in> set (users db) \<Longrightarrow> u_id u = u_id v \<Longrightarrow> u = v"
  by (rule distinct_key_unique)

definition pairs_kept :: "database \<Rightarrow> database \<Rightarrow> bool" where
  "pairs_kept db db' \<longleftrightarrow> map (\<lambda>u. (u_id u, key_pair_of u)) (users db') = map (\<lambda>u. (u_id u, key_pair_of u)) (users db)"

lemma pairs_kept_update:
  "users db' = sql_update p f (users db) \<Longrightarrow> (\<And>u. p u \<Longrightarrow> u_id (f u) = u_id u \<and> key_pair_of (f u) = key_pair_of u) \<Longrightarrow> pairs_kept db db'"
  by (auto simp: pairs_kept_def sql_update_def)

lemma pairs_kept_ids: "pairs_kept db db' \<Longrightarrow> map u_id (users db') = map u_id (users db)"
proof -
  assume "pairs_kept db db'"
  then have "map fst (map (\<lambda>u. (u_id u, key_pair_of u)) (users db')) = map fst (map (\<lambda>u. (u_id u, key_pair_of u)) (users db))"
    by (simp add: pairs_kept_def)
  then show ?thesis by (simp add: comp_def)
qed

lemma pairs_kept_rows:
  assumes "pairs_kept db db'" "distinct (map u_id (users db))" "u \<in> set (users db)" "u' \<in> set (users db')" "u_id u' = u_id u"
  shows "key_pair_of u' = key_pair_of u"
proof -
  have "(u_id u', key_pair_of u') \<in> set (map (\<lambda>u. (u_id u, key_pair_of u)) (users db'))" using assms(4) by auto
  then have "(u_id u', key_pair_of u') \<in> (\<lambda>u. (u_id u, key_pair_of u)) ` set (users db)"
    unfolding assms(1) [unfolded pairs_kept_def] set_map .
  then obtain v where v: "v \<in> set (users db)" "u_id u' = u_id v" "key_pair_of u' = key_pair_of v" by blast
  have "v = u" by (rule account_id_unique [OF assms(2) v(1) assms(3)]) (simp add: v(2) [symmetric] assms(5))
  with v(3) show ?thesis by simp
qed

lemma view_pairs: "credential_view db' = credential_view db \<Longrightarrow> pairs_kept db db'"
proof -
  assume view: "credential_view db' = credential_view db"
  have k: "map (\<lambda>u. (u_id u, key_pair_of u)) t = map (\<lambda>u. (u_id u, key_pair_of u)) (map without_counters t)" for t
    by (simp add: key_pair_of_def without_counters_def)
  have us: "map without_counters (users db') = map without_counters (users db)" using view by (simp add: credential_view_def)
  show ?thesis unfolding pairs_kept_def by (rule trans [OF k [of "users db'"]], subst us, rule k [symmetric])
qed

lemma replaced_pairs: "generation_replaced sha256 i db db' \<Longrightarrow> pairs_kept db db'"
  unfolding generation_replaced_def rewritten_def by (auto intro!: pairs_kept_update simp: key_pair_of_def)

lemma registration_pairs:
  assumes "register_user_key_id uid key_id user_key stamp revision later audit db = (db', r)"
  shows "pairs_kept db db'"
proof -
  let ?f = "\<lambda>u. u\<lparr>u_user_key_id := Some key_id, u_revision_date := later, u_updated_at := later\<rparr>"
  let ?p = "registrable_key_id uid user_key stamp revision"
  have step: "pairs_kept db d" if "checked ok (update_users ?p ?f) db 0 = Inr (d1, k1)" "audit_statement e c d1 k1 = Inr (d, k2)" for ok d1 k1 e c d k2
    using that update_users_Inr [of ?p ?f db 0 d1 k1]
    by (auto simp: checked_def audit_statement_Inr split: sum.splits prod.splits if_splits intro!: pairs_kept_update [of _ ?p ?f] simp: key_pair_of_def)
  have "pairs_kept db db" by (simp add: pairs_kept_def)
  with assms step show ?thesis
    by (auto simp: register_user_key_id_def with_batch_def batch_def return_value_def run_stmts_Inr split: sum.splits prod.splits)
qed

text \<open>What an initialisation does: nothing, or it writes the pair of an account that has none.\<close>

definition pair_written :: "key_initialization \<Rightarrow> database \<Rightarrow> database \<Rightarrow> bool" where
  "pair_written i db db' \<longleftrightarrow>
     (\<exists>p. users db' = sql_update p (key_pair_written i) (users db) \<and> (\<exists>u \<in> set (users db). p u) \<and>
       (\<forall>u. p u \<longrightarrow> u_id u = ki_user_id i \<and> \<not> has_key_pair u))"

lemma initialization_exact:
  assumes "initialize_account_key_pair sha256 i db = (db', r)"
  shows "users db' = users db \<and> r \<noteq> Inr True \<or> pair_written i db db'"
proof -
  define sha where "sha = fingerprint_credential_wrapper sha256 (ki_wrapped_private_key i)"
  define entries where "entries = [(UserKeyWrapper, fingerprint_credential_wrapper sha256 (ki_expected_user_key i)), (PrivateKeyWrapper, sha)]"
  have step: "users d = users db \<and> ns ! 1 = 0 \<or> pair_written i db d" if "batch (initialization_statements i entries sha) db = Inr (d, ns)" for d ns
  proof -
    from that obtain d1 k1 d2 k2 n3 where s: "audit_statement (audit_row (ki_audit_event_id i) (ki_audit_event i))
        (\<lambda>db prev. sql_exists (key_pair_open i sha db) (users db)) db 0 = Inr (d1, k1)"
      "update_users (key_pair_open i sha d1) (key_pair_written i) d1 k1 = Inr (d2, k2)"
      "insert_wrapper_history (history_rows (ki_user_id i) (ki_next_revision_date i) entries) (key_pair_stored i) d2 k2 = Inr (d, n3)"
      and ns: "ns = [k1, k2, n3]"
      by (auto simp: batch_def initialization_statements_def run_stmts_Inr)
    have us: "users d1 = users db" using s(1) by (auto simp: audit_statement_Inr)
    have ud: "users d = users d2" using s(3) by (auto simp: insert_wrapper_history_def Let_def split: if_splits)
    have d2: "k2 = sql_count (key_pair_open i sha d1) (users db)" "users d2 = sql_update (key_pair_open i sha d1) (key_pair_written i) (users db)"
      using update_users_Inr [OF s(2)] us by auto
    show ?thesis
    proof (cases "k2 = 0")
      case True
      then show ?thesis using d2 ud ns by (simp add: sql_update_none)
    next
      case False
      then obtain u where "u \<in> set (users db)" "key_pair_open i sha d1 u" using d2(1) sql_count_pos [of "key_pair_open i sha d1" "users db"] by auto
      then have "pair_written i db d" unfolding pair_written_def ud d2(2)
        by (intro exI [of _ "key_pair_open i sha d1"]) (auto simp: key_pair_open_def has_key_pair_def)
      then show ?thesis ..
    qed
  qed
  let ?sha = "fingerprint_credential_wrapper sha256"
  show ?thesis
  proof (cases "?sha (ki_expected_user_key i) = sha")
    case True
    with assms show ?thesis by (auto simp: initialize_account_key_pair_def sha_def return_value_def Let_def)
  next
    case False
    show ?thesis
    proof (cases "batch (initialization_statements i entries sha) db")
      case (Inl e)
      with assms False show ?thesis
        by (auto simp: initialize_account_key_pair_def with_batch_def Let_def sha_def [symmetric] entries_def [symmetric])
    next
      case (Inr b)
      obtain d ns where b: "b = (d, ns)" by (cases b)
      have "db' = d" "ns ! 1 = 0 \<longrightarrow> r \<noteq> Inr True"
        using assms False Inr unfolding b initialize_account_key_pair_def with_batch_def Let_def sha_def [symmetric] entries_def [symmetric]
        by (auto simp: return_value_def throw_def split: if_splits)
      with step [of d ns] Inr b show ?thesis by (auto simp del: One_nat_def)
    qed
  qed
qed

lemma complete_keys:
  "classify_account_key_state x y = KeysComplete pair \<Longrightarrow> x = Some (kp_public_key pair) \<and> y = Some (kp_wrapped_private_key pair)"
  by (auto simp: classify_account_key_state_def parse_opaque_option_def parse_bounded_string_Some split: if_splits option.splits)

lemma missing_keys: "classify_account_key_state (u_public_key u) (u_private_key u) = KeysMissing \<longleftrightarrow> \<not> has_key_pair u"
  by (auto simp: classify_account_key_state_def has_key_pair_def split: option.splits)

lemma shown_pair: "build_account_keys_endpoint_response u pair = Inr b \<Longrightarrow> kb_pair b = pair"
  by (auto simp: build_account_keys_endpoint_response_def split: if_splits sum.splits)
    (cases "build_account_key_projection (u\<lparr>u_public_key := Some (kp_public_key pair), u_private_key := Some (kp_wrapped_private_key pair)\<rparr>)"; auto)+

lemma authenticated_row:
  assumes "authenticate_site crypto site db = Inr auth"
  shows "au_user (av_user auth) \<in> set (users db)"
proof -
  have row: "au_user user \<in> set (users db)" if "find_auth_user_by_session uid di sid db = Inr (Some user)" for user uid di sid
    using that found_account_by_id(1) by (auto simp: find_auth_user_by_session_def split: option.splits if_splits)
  from assms show ?thesis
    unfolding authenticate_site_def authenticate_vault_request_def authenticate_vault_request_with_access_token_def
    by (auto split: option.splits if_splits access_token_verification.splits sum.splits dest: row)
qed

text \<open>The account the request is authenticated as has, in the end, the pair that the answer shows.\<close>

definition pair_shown :: "authenticated_request \<Rightarrow> database \<Rightarrow> account_keys_body \<Rightarrow> bool" where
  "pair_shown auth db b \<longleftrightarrow>
     (\<exists>u \<in> set (users db). u_id u = u_id (au_user (av_user auth)) \<and>
        key_pair_of u = (Some (kp_public_key (kb_pair b)), Some (kp_wrapped_private_key (kb_pair b))))"

lemma concurrent_keys_shown:
  assumes "find_auth_user_by_id (u_id (au_user (av_user auth))) None d = Inr current"
    and "concurrent_account_keys u pair current d = (d', Inr (Reply (AccountKeys b)))"
  shows "pair_shown auth d b"
proof -
  from assms(2) obtain c stored where c: "current = Some c"
    "classify_account_key_state (u_public_key (au_user c)) (u_private_key (au_user c)) = KeysComplete stored"
    "build_account_keys_endpoint_response (au_user c) stored = Inr b"
    by (auto simp: concurrent_account_keys_def Let_def return_value_def repo_bind_def repo_lift_def account_key_conflict_def
        account_key_state_invalid_def split: option.splits account_key_state.splits if_splits sum.splits)
  with found_account_by_id(1,2) [of "u_id (au_user (av_user auth))" None d c] assms(1) complete_keys [OF c(2)] shown_pair [OF c(3)]
  show ?thesis unfolding pair_shown_def by (intro bexI [of _ "au_user c"]) (auto simp: key_pair_of_def)
qed

lemma initialize_keys_effect:
  assumes "initialize_keys crypto site auth pair db = (db', m)"
  shows "users db' = users db \<or> (\<exists>revision. pair_written (key_initialization_of site auth pair revision) db db')"
    and "m = Inr (Reply (AccountKeys b)) \<Longrightarrow> pair_shown auth db' b"
proof -
  let ?u = "au_user (av_user auth)"
  have key: "ki_user_id (key_initialization_of site auth pair r) = u_id ?u" "ki_public_key (key_initialization_of site auth pair r) = kp_public_key pair"
    "ki_wrapped_private_key (key_initialization_of site auth pair r) = kp_wrapped_private_key pair" for r
    by (simp_all add: key_initialization_of_def Let_def)
  have both: "(users db' = users db \<or> (\<exists>revision. pair_written (key_initialization_of site auth pair revision) db db')) \<and>
    (m = Inr (Reply (AccountKeys b)) \<longrightarrow> pair_shown auth db' b)"
  proof (cases "next_credential_revision_date (u_revision_date ?u) (cg_now site)")
    case (Inl e)
    with assms show ?thesis by (auto simp: initialize_keys_def Let_def next_revision_def repo_bind_def repo_lift_def)
  next
    case (Inr revision)
    let ?i = "key_initialization_of site auth pair revision"
    obtain d r where init: "initialize_account_key_pair (cy_sha256 crypto) ?i db = (d, r)" by fastforce
    note e = initialization_exact [OF init]
    have d: "db' = d"
      using assms Inr init by (cases r) (auto simp: initialize_keys_def Let_def next_revision_def repo_bind_def repo_lift_def repo_read_def return_value_def
          split: if_splits sum.splits prod.splits dest: arg_cong [where f = fst])
    have "pair_shown auth d b" if m: "m = Inr (Reply (AccountKeys b))"
    proof (cases "r = Inr True")
      case True
      then have "pair_written ?i db d" using e by simp
      then obtain p u where p: "users d = sql_update p (key_pair_written ?i) (users db)" "u \<in> set (users db)" "p u" "u_id u = u_id ?u"
        using key by (auto simp: pair_written_def)
      from assms Inr init True m have "kb_pair b = pair"
        by (auto simp: initialize_keys_def Let_def next_revision_def repo_bind_def repo_lift_def return_value_def
            split: sum.splits dest: shown_pair)
      with p key show ?thesis unfolding pair_shown_def
        by (intro bexI [of _ "key_pair_written ?i u"]) (auto simp: key_pair_of_def key_pair_written_def set_sql_update)
    next
      case False
      from assms Inr init m False obtain current where "find_auth_user_by_id (u_id ?u) None d = Inr current"
        "concurrent_account_keys ?u pair current d = (db', Inr (Reply (AccountKeys b)))"
        by (cases r) (auto simp: initialize_keys_def Let_def next_revision_def repo_bind_def repo_lift_def repo_read_def
            split: sum.splits if_splits)
      then show ?thesis by (rule concurrent_keys_shown)
    qed
    with e d show ?thesis by blast
  qed
  then show "users db' = users db \<or> (\<exists>revision. pair_written (key_initialization_of site auth pair revision) db db')" by blast
  show "pair_shown auth db' b" if "m = Inr (Reply (AccountKeys b))" using both that by blast
qed

text \<open>What the two routes of the account keys do.\<close>

definition keys_effect :: "crypto \<Rightarrow> credential_site \<Rightarrow> json \<Rightarrow> database \<Rightarrow> database \<Rightarrow> credential_answer reply \<Rightarrow> bool" where
  "keys_effect crypto site body db db' a \<longleftrightarrow>
     (pairs_kept db db' \<or>
      (\<exists>auth pair revision. authenticate_site crypto site db = Inr auth \<and> parse_account_key_initialization_body body = Some pair \<and>
         pair_written (key_initialization_of site auth pair revision) db db')) \<and>
     (\<forall>auth. authenticate_site crypto site db = Inr auth \<and> has_key_pair (au_user (av_user auth)) \<longrightarrow> db' = db) \<and>
     (\<forall>b. a = Reply (AccountKeys b) \<longrightarrow> (\<exists>auth. authenticate_site crypto site db = Inr auth \<and> pair_shown auth db' b))"

lemma stored_pair_shown:
  assumes "authenticate_site crypto site db = Inr auth" "account_keys_reply (au_user (av_user auth)) pair = Reply (AccountKeys b)"
    and "classify_account_key_state (u_public_key (au_user (av_user auth))) (u_private_key (au_user (av_user auth))) = KeysComplete pair"
  shows "pair_shown auth db b"
proof -
  have "kb_pair b = pair" using assms(2) by (auto simp: account_keys_reply_def split: sum.splits dest: shown_pair)
  then show ?thesis
    unfolding pair_shown_def using authenticated_row [OF assms(1)] complete_keys [OF assms(3)]
    by (intro bexI [of _ "au_user (av_user auth)"]) (auto simp: key_pair_of_def)
qed

lemma create_keys_effect:
  assumes "handle_account_keys_create crypto site body db = (db', a)"
  shows "keys_effect crypto site body db db' a"
proof (cases "flag_true (cg_account_keys_enabled site)")
  case False
  with assms show ?thesis by (auto simp: handle_account_keys_create_def feature_def keys_effect_def pairs_kept_def)
next
  case True
  show ?thesis
  proof (rule with_authorization_cases [OF assms [unfolded handle_account_keys_create_def feature_def if_P [OF True]]])
    fix r assume "authenticate_site crypto site db = Inl r" "db' = db" "a = refuse r"
    then show ?thesis by (simp add: keys_effect_def pairs_kept_def refuse_def)
  next
    fix auth :: authenticated_request and m
    let ?u = "au_user (av_user auth)"
    assume auth: "authenticate_site crypto site db = Inr auth" and a: "a = (case m of Inl e \<Rightarrow> ApiFailure 503 ''database_unavailable'' | Inr b \<Rightarrow> b)"
      and h: "(let u = ?u
         in if \<not> has_wrapped_user_key u then return_value account_key_state_invalid
            else (case parse_account_key_initialization_body body of
                    None \<Rightarrow> return_value (ApiFailure 400 ''invalid_request'')
                  | Some pair \<Rightarrow>
                      (case classify_account_key_state (u_public_key u) (u_private_key u) of
                         KeysMissing \<Rightarrow> initialize_keys crypto site auth pair
                       | KeysComplete stored \<Rightarrow>
                           return_value (if account_key_pairs_equal stored pair then account_keys_reply u stored else account_key_conflict)
                       | KeysInvalid \<Rightarrow> return_value account_key_state_invalid))) db = (db', m)"
    show ?thesis
    proof (cases "\<exists>pair. has_wrapped_user_key ?u \<and> parse_account_key_initialization_body body = Some pair \<and> \<not> has_key_pair ?u")
      case True
      then obtain pair where p: "has_wrapped_user_key ?u" "parse_account_key_initialization_body body = Some pair" "\<not> has_key_pair ?u" by blast
      with h missing_keys [of ?u] have run: "initialize_keys crypto site auth pair db = (db', m)" by (simp add: Let_def)
      have "m = Inr (Reply (AccountKeys b))" if "a = Reply (AccountKeys b)" for b using a that by (cases m) auto
      with initialize_keys_effect [OF run] auth p show ?thesis
        unfolding keys_effect_def by (auto simp: pairs_kept_def)
    next
      case False
      then have "db' = db" "\<forall>b. a = Reply (AccountKeys b) \<longrightarrow> pair_shown auth db b"
        using h a auth missing_keys [of ?u]
        by (auto simp: Let_def return_value_def account_key_state_invalid_def account_key_conflict_def
            split: if_splits option.splits account_key_state.splits dest: stored_pair_shown)
      with auth show ?thesis unfolding keys_effect_def by (auto simp: pairs_kept_def)
    qed
  qed
qed

lemma read_keys_effect:
  assumes "handle_account_keys_read crypto site db = (db', a)"
  shows "db' = db \<and> (\<forall>b. a = Reply (AccountKeys b) \<longrightarrow> (\<exists>auth. authenticate_site crypto site db = Inr auth \<and> pair_shown auth db' b))"
  using assms
  by (auto simp: handle_account_keys_read_def feature_def with_authorization_def catch_all_def return_value_def Let_def refuse_def
      account_key_state_invalid_def split: if_splits sum.splits prod.splits account_key_state.splits dest: stored_pair_shown)

lemma written_pair:
  assumes "pair_written (key_initialization_of site auth pair revision) db db'" "distinct (map u_id (users db))"
  shows "map u_id (users db') = map u_id (users db) \<and>
    (\<forall>u \<in> set (users db). \<forall>u' \<in> set (users db'). u_id u' = u_id u \<and> key_pair_of u' \<noteq> key_pair_of u \<longrightarrow>
      u_id u = u_id (au_user (av_user auth)) \<and> \<not> has_key_pair u \<and>
      key_pair_of u' = (Some (kp_public_key pair), Some (kp_wrapped_private_key pair)))"
proof -
  let ?f = "key_pair_written (key_initialization_of site auth pair revision)"
  from assms(1) obtain p where p: "users db' = sql_update p ?f (users db)"
    "\<And>u. p u \<Longrightarrow> u_id u = u_id (au_user (av_user auth)) \<and> \<not> has_key_pair u"
    by (auto simp: pair_written_def key_initialization_of_def Let_def)
  have id: "u_id (?f u) = u_id u" for u by (simp add: key_pair_written_def)
  have "u_id u = u_id (au_user (av_user auth)) \<and> \<not> has_key_pair u \<and>
      key_pair_of u' = (Some (kp_public_key pair), Some (kp_wrapped_private_key pair))"
    if u: "u \<in> set (users db)" "u' \<in> set (users db')" "u_id u' = u_id u" "key_pair_of u' \<noteq> key_pair_of u" for u u'
  proof -
    from u(2) p(1) obtain v where v: "v \<in> set (users db)" "u' = (if p v then ?f v else v)" by (auto simp: set_sql_update)
    with u(3) id have "u_id v = u_id u" by (auto split: if_splits)
    then have "v = u" by (rule account_id_unique [OF assms(2) v(1) u(1)])
    with v(2) u(4) p(2) [of u] show ?thesis
      by (auto simp: key_pair_of_def key_pair_written_def key_initialization_of_def Let_def split: if_splits)
  qed
  moreover have "map u_id (users db') = map u_id (users db)" unfolding p(1) by (rule sql_update_key) (simp add: id)
  ultimately show ?thesis by blast
qed

lemma proof_answers:
  "with_password_proof crypto site u p k db = (d, Inr (Reply x)) \<Longrightarrow> \<exists>d0. k d0 = (d, Inr (Reply x))"
  by (auto simp: with_password_proof_def repo_bind_def return_value_def invalid_credential_proof_def
      split: sum.splits prod.splits proof_gate.splits if_splits)

lemma change_answers:
  "repo_bind (next_revision site u) (\<lambda>revision. repo_bind (change revision) (\<lambda>r. return_value (generation_answer cleaned r))) d0 =
     (d, Inr (Reply x)) \<Longrightarrow> x = CredentialDone"
  by (auto simp: repo_bind_def return_value_def generation_answer_def split: sum.splits prod.splits option.splits if_splits)

lemma change_route_answers:
  assumes "op \<in> {VerifyPassword body, ChangePassword body, ChangeKdf body, RotateStamp body}" "credential_route crypto site op db = (db', Reply x)"
  shows "x = CredentialDone"
  using assms
  by (auto simp: handle_verify_password_def handle_password_change_def handle_kdf_change_def handle_security_stamp_def feature_def
      with_authorization_def catch_all_def refuse_def Let_def return_value_def
      split: if_splits sum.splits prod.splits option.splits dest!: proof_answers change_answers)

lemma key_id_answers: "credential_route crypto site (RegisterKeyId body) db = (db', Reply x) \<Longrightarrow> x = CredentialDone"
  by (auto simp: handle_user_key_id_def feature_def with_authorization_def catch_all_def refuse_def Let_def return_value_def repo_bind_def
      split: if_splits sum.splits prod.splits option.splits)

lemma no_keys_shown:
  assumes "credential_route crypto site op db = (db', a)" "a = Reply (AccountKeys b)" "\<nexists>body. op = CreateKeys body"
  shows "op = ReadKeys"
proof (rule ccontr)
  assume "op \<noteq> ReadKeys"
  with assms(3) consider body where "op \<in> {VerifyPassword body, ChangePassword body, ChangeKdf body, RotateStamp body}"
    | body where "op = RegisterKeyId body"
    by (cases op) auto
  then have "AccountKeys b = CredentialDone"
  proof cases
    case 1
    then show ?thesis by (rule change_route_answers) (use assms(1,2) in simp)
  next
    case 2
    show ?thesis by (rule key_id_answers) (use assms(1,2) 2 in simp)
  qed
  then show False by simp
qed

lemma route_pairs:
  assumes "gives_32_bytes (cy_sha256 crypto)" "distinct (map u_id (users db))"
    and "\<forall>u \<in> set (users db). u_security_stamp u \<noteq> cg_next_security_stamp site" "credential_route crypto site op db = (db', a)"
    and "\<nexists>body. op = CreateKeys body"
  shows "pairs_kept db db'"
proof (cases "\<exists>body. op \<in> {ChangePassword body, ChangeKdf body, RotateStamp body}")
  case True
  then have "generation_effect crypto site op db db' a" using generation_route_effect [OF assms(1-4)] by blast
  then show ?thesis unfolding generation_effect_def using replaced_pairs view_pairs by blast
next
  case False
  then consider body where "op = VerifyPassword body" | "op = ReadKeys" | body where "op = RegisterKeyId body"
    using assms(5) by (cases op) auto
  then show ?thesis
  proof cases
    case 1
    then show ?thesis using verify_password_kept assms(4) view_pairs by metis
  next
    case 2
    then show ?thesis using read_keys_effect [of crypto site db db' a] assms(4) by (simp add: pairs_kept_def)
  next
    case 3
    have "pairs_kept db db" by (simp add: pairs_kept_def)
    with assms(4) show ?thesis unfolding 3
      by (auto simp: handle_user_key_id_def feature_def with_authorization_def catch_all_def repo_bind_def next_revision_def repo_lift_def
          return_value_def Let_def split: if_splits sum.splits prod.splits dest: registration_pairs)
  qed
qed

text \<open>
  C3. The key pair of an account is set once by the credential routes. Whatever request is sent to them, the accounts stay the same ones,
  and the pair of public and wrapped private key of an account changes only in one case: the request initialises the keys,
  it is authenticated as that account, the account had neither a public nor a private key, and the new pair is the one in the request's
  body. The initialisation of an account that has a key changes nothing in the database. An answer that shows keys shows
  the pair which the account the request is authenticated as has then.
\<close>

theorem account_key_pair_set_once:
  assumes "gives_32_bytes (cy_sha256 crypto)" "distinct (map u_id (users db))"
    and "\<forall>u \<in> set (users db). u_security_stamp u \<noteq> cg_next_security_stamp site" "credential_route crypto site op db = (db', a)"
  shows "map u_id (users db') = map u_id (users db) \<and>
    (\<forall>u \<in> set (users db). \<forall>u' \<in> set (users db'). u_id u' = u_id u \<and> key_pair_of u' \<noteq> key_pair_of u \<longrightarrow>
      (\<exists>body auth pair. op = CreateKeys body \<and> authenticate_site crypto site db = Inr auth \<and> u_id u = u_id (au_user (av_user auth)) \<and>
         \<not> has_key_pair u \<and> parse_account_key_initialization_body body = Some pair \<and>
         key_pair_of u' = (Some (kp_public_key pair), Some (kp_wrapped_private_key pair)))) \<and>
    (\<forall>body auth. op = CreateKeys body \<and> authenticate_site crypto site db = Inr auth \<and> has_key_pair (au_user (av_user auth)) \<longrightarrow> db' = db) \<and>
    (\<forall>b. a = Reply (AccountKeys b) \<longrightarrow> (\<exists>auth. authenticate_site crypto site db = Inr auth \<and>
       (\<exists>u \<in> set (users db'). u_id u = u_id (au_user (av_user auth)) \<and>
          key_pair_of u = (Some (kp_public_key (kb_pair b)), Some (kp_wrapped_private_key (kb_pair b))))))"
proof (cases "\<exists>body. op = CreateKeys body")
  case True
  then obtain body where op: "op = CreateKeys body" by blast
  with assms(4) have "keys_effect crypto site body db db' a" using create_keys_effect by simp
  then have set_once: "pairs_kept db db' \<or>
      (\<exists>auth pair revision. authenticate_site crypto site db = Inr auth \<and> parse_account_key_initialization_body body = Some pair \<and>
         pair_written (key_initialization_of site auth pair revision) db db')"
    and rest: "\<forall>auth. authenticate_site crypto site db = Inr auth \<and> has_key_pair (au_user (av_user auth)) \<longrightarrow> db' = db"
      "\<forall>b. a = Reply (AccountKeys b) \<longrightarrow> (\<exists>auth. authenticate_site crypto site db = Inr auth \<and> pair_shown auth db' b)"
    unfolding keys_effect_def by blast+
  have change: "map u_id (users db') = map u_id (users db) \<and>
    (\<forall>u \<in> set (users db). \<forall>u' \<in> set (users db'). u_id u' = u_id u \<and> key_pair_of u' \<noteq> key_pair_of u \<longrightarrow>
      (\<exists>auth pair. authenticate_site crypto site db = Inr auth \<and> u_id u = u_id (au_user (av_user auth)) \<and>
         \<not> has_key_pair u \<and> parse_account_key_initialization_body body = Some pair \<and>
         key_pair_of u' = (Some (kp_public_key pair), Some (kp_wrapped_private_key pair))))"
    using set_once
  proof (elim disjE exE conjE)
    fix auth pair revision
    assume w: "authenticate_site crypto site db = Inr auth" "parse_account_key_initialization_body body = Some pair"
      "pair_written (key_initialization_of site auth pair revision) db db'"
    from written_pair [OF w(3) assms(2)] w(1,2) show ?thesis by metis
  qed (use pairs_kept_rows [OF _ assms(2)] pairs_kept_ids in blast)
  show ?thesis using change rest unfolding pair_shown_def op by blast
next
  case False
  from route_pairs [OF assms False] have kept: "pairs_kept db db'" .
  have shown: "\<exists>auth. authenticate_site crypto site db = Inr auth \<and> pair_shown auth db' b" if "a = Reply (AccountKeys b)" for b
    using no_keys_shown [OF assms(4) that False] read_keys_effect [of crypto site db db' a] assms(4) that by auto
  show ?thesis
    using pairs_kept_ids [OF kept] pairs_kept_rows [OF kept assms(2)] shown False unfolding pair_shown_def by blast
qed

end
