(* ===== verification/CredentialSample.thy ===== *)
theory CredentialSample
  imports CredentialSafety VaultSample
begin

text \<open>
  A signed-in account with a wrapped user key that changes its master password: the example for the properties of the credential routes.
\<close>

definition keyed_user :: user_row where
  "keyed_user = sample_user\<lparr>u_user_key := Some ''2.a'', u_public_key := Some ''p'', u_private_key := Some ''2.b'', u_revision_date := iso_text 9000\<rparr>"

definition credential_database :: database where
  "credential_database = member_database\<lparr>users := [keyed_user]\<rparr>"

text \<open>A digest that keeps what the two keys of the example differ in.\<close>

definition sample_digest :: "nat list \<Rightarrow> nat list" where
  "sample_digest bs = map (\<lambda>b. b mod 256) (take 32 (bs @ replicate 32 0))"

definition credential_crypto :: crypto where
  "credential_crypto = sample_crypto\<lparr>cy_sha256 := sample_digest\<rparr>"

definition credential_sample_site :: credential_site where
  "credential_sample_site =
     \<lparr>cg_route = member_site, cg_password_change_enabled = Some ''true'', cg_kdf_mutation_enabled = None, cg_account_keys_enabled = None,
      cg_user_key_id_enabled = None, cg_notifications_enabled = None, cg_hub_bound = False, cg_hub_invalidated = False,
      cg_attempt_id = ''a9'', cg_next_security_stamp = ''stamp2''\<rparr>"

definition password_body :: json where
  "password_body = JObj [(''masterPasswordHash'', JStr ''hash''), (''newMasterPasswordHash'', JStr ''h2''), (''Key'', JStr ''2.k'')]"

definition keyed_auth :: authenticated_request where
  "keyed_auth = member_auth\<lparr>av_user := (av_user member_auth)\<lparr>au_user := keyed_user\<rparr>\<rparr>"

lemma sample_digest_ok: "gives_32_bytes sample_digest"
  by (auto simp: gives_32_bytes_def sample_digest_def)

lemma keyed_authenticated: "authenticate_site credential_crypto credential_sample_site credential_database = Inr keyed_auth"
proof -
  have token: "read_bearer_token (st_headers member_site ''Authorization'') = Some member_token"
    using bearer_token [OF signed_token_plain(1) [of sample_hmac256, OF sample_hmac256_ok(2)]
        signed_token_plain(2) [of sample_hmac256, OF sample_hmac256_ok(2)]]
    by (simp add: member_site_def member_token_def)
  have "member_token \<noteq> []" using signed_token_plain(1) sample_hmac256_ok(2) by (simp add: member_token_def)
  moreover have "find_auth_user_by_session ''u1'' ''phone'' ''s1'' credential_database = Inr (Some (av_user keyed_auth))"
    using member_kdf
    by (simp add: find_auth_user_by_session_def find_auth_user_by_id_def find_user_where_def session_device_def
        auth_user_from_row_def user_generation_def credential_database_def keyed_user_def keyed_auth_def member_database_def
        sample_database_def member_device_def member_auth_def sample_user_def empty_database_def sql_defs)
  moreover have "claim_string member_claims ''sub'' = ''u1''" "claim_string member_claims ''device'' = ''phone''"
    "claim_string member_claims ''sessionId'' = ''s1''" "claim_string member_claims ''securityStamp'' = ''stamp''"
    "claim_number member_claims ''iat'' = Finite 0" "as_string (jprop member_claims ''authMethod'') = Some ''password''"
    "as_string (jprop member_claims ''sessionId'') = Some ''s1''"
    by (simp_all add: member_claims_def build_access_token_claims_def sample_user_def claim_string_def claim_number_def jprop_def)
  ultimately show ?thesis
    using token sample_config_resolves member_token_verified
    by (simp add: authenticate_site_def authenticate_vault_request_def authenticate_vault_request_with_access_token_def member_site_def
        truthy_def keyed_auth_def keyed_user_def member_auth_def sample_user_def credential_crypto_def sample_crypto_def
        credential_sample_site_def)
qed

lemma password_body_read:
  "parse_master_password_change_body password_body =
     Some \<lparr>pc_current_master_password_hash = ''hash'', pc_next_master_password_hash = ''h2'', pc_next_user_key = ''2.k'',
       pc_credential_metadata = None, pc_variant = Legacy\<rparr>"
  by (simp add: parse_master_password_change_body_def password_body_def has_supported_password_hint_def parse_eval)

lemma sample_fingerprints:
  "distinct (map (fingerprint_credential_wrapper sample_digest) [''2.a'', ''2.b'', ''2.k''])"
  by code_simp

definition sample_change :: credential_change where
  "sample_change = credential_change_of credential_sample_site keyed_auth ''account.password.change''
     [(''d1SessionsRevoked'', JBool True), (''kdfUnchanged'', JBool True)] (iso_text 15000)"

definition sample_write :: password_write where
  "sample_write = password_write_of keyed_user sample_change ''h2'' ''2.k''"

lemma keyed_user_simps [simp]:
  "u_id keyed_user = ''u1''" "u_disabled_at keyed_user = None" "u_master_password_hash keyed_user = ''hash''"
  "u_security_stamp keyed_user = ''stamp''" "u_revision_date keyed_user = iso_text 9000" "u_user_key keyed_user = Some ''2.a''"
  "u_private_key keyed_user = Some ''2.b''" "u_public_key keyed_user = Some ''p''" "u_login_locked_until keyed_user = None" "u_email_normalized keyed_user = ''a@b.co''"
  by (simp_all add: keyed_user_def sample_user_def)

lemma keyed_auth_user [simp]: "au_user (av_user keyed_auth) = keyed_user"
  by (simp add: keyed_auth_def)

lemma sample_change_simps [simp]:
  "cr_user_id sample_change = ''u1''" "cr_expected_master_password_hash sample_change = ''hash''"
  "cr_expected_security_stamp sample_change = ''stamp''" "cr_expected_revision_date sample_change = iso_text 9000"
  "cr_next_security_stamp sample_change = ''stamp2''" "cr_next_revision_date sample_change = iso_text 15000"
  by (simp_all add: sample_change_def credential_change_of_def credential_sample_site_def)

lemma sample_write_simps [simp]:
  "pw_change sample_write = sample_change" "pw_expected_generation sample_write = user_generation keyed_user"
  "pw_expected_user_key sample_write = Some ''2.a''" "pw_expected_private_key sample_write = Some ''2.b''"
  "pw_next_master_password_hash sample_write = ''h2''" "pw_next_user_key sample_write = ''2.k''"
  by (simp_all add: sample_write_def password_write_of_def)

abbreviation sample_sha :: "string \<Rightarrow> string" where
  "sample_sha \<equiv> fingerprint_credential_wrapper sample_digest"

definition sample_mutation :: wrapper_mutation where
  "sample_mutation =
     (history_rows ''u1'' (iso_text 15000)
       [(UserKeyWrapper, sample_sha ''2.a''), (PrivateKeyWrapper, sample_sha ''2.b''), (UserKeyWrapper, sample_sha ''2.k'')], sample_sha ''2.k'')"

lemma sample_mutation_snd [simp]: "snd sample_mutation = sample_sha ''2.k''"
  by (simp add: sample_mutation_def)

lemma sample_prepared:
  "prepare_wrapper_history sample_digest sample_write =
     Some sample_mutation"
  using sample_fingerprints by (auto simp: prepare_wrapper_history_def Let_def sample_mutation_def)

lemma credential_tables [simp]:
  "users credential_database = [keyed_user]" "devices credential_database = [member_device]" "refresh_tokens credential_database = []"
  "auth_requests credential_database = []" "audit_events credential_database = []" "wrapper_history credential_database = []"
  "auth_failure_buckets credential_database = []"
  by (simp_all add: credential_database_def member_database_def sample_database_def empty_database_def)

lemma sample_changeable: "changeable_generation sample_write (sample_sha ''2.k'') credential_database keyed_user"
  by (simp add: changeable_generation_def rotatable_generation_def wrapper_used_def sql_exists_def)

definition changed_user :: user_row where
  "changed_user = keyed_user\<lparr>u_master_password_hash := ''h2'', u_user_key := Some ''2.k'', u_user_key_id := None,
     u_security_stamp := ''stamp2'', u_revision_date := iso_text 15000, u_updated_at := iso_text 15000\<rparr>"

lemma changed_user_new: "changed_user \<noteq> keyed_user"
proof
  assume "changed_user = keyed_user"
  then have "u_security_stamp changed_user = ''stamp''" by simp
  then show False by (simp add: changed_user_def)
qed

lemma sample_user_statement:
  "password_statement sample_write (sample_sha ''2.k'') credential_database 0 = Inr (credential_database\<lparr>users := [changed_user]\<rparr>, 1)"
  using sample_changeable
  by (simp add: password_statement_def update_users_def sql_count_def stamped_generation_def rewrapped_def changed_user_def
      user_kdf_key_def)

lemma credential_batch:
  "\<exists>d ns. batch (generation_statements sample_change (password_statement sample_write (sample_sha ''2.k''))
     (Some sample_mutation))
     credential_database = Inr (d, ns) \<and> users d = [changed_user]"
  by (simp add: batch_def generation_statements_def sample_mutation_def sample_user_statement insert_wrapper_history_def next_generation_is_def
      credential_generation_is_def sql_exists_def changed_user_def revoke_devices_statement_def revoke_tokens_statement_def
      supersede_requests_statement_def credential_audit_statement_def update_stmt_def checked_def auth_requests_ok_def
      audit_statement_def insert_audit_event_def sql_update_def Let_def run_stmts.simps)

lemma sample_changed:
  "\<exists>d x. change_account_master_password sample_digest sample_write credential_database = (d, Inr (Some x)) \<and> users d = [changed_user]"
proof -
  let ?m = "Some sample_mutation"
  let ?s = "password_statement sample_write (sample_sha ''2.k'')"
  obtain d r where run: "commit_credential_generation sample_change ?s ?m credential_database = (d, r)" by fastforce
  obtain d' ns where b: "batch (generation_statements sample_change ?s ?m) credential_database = Inr (d', ns)" "users d' = [changed_user]"
    using credential_batch by blast
  then have d: "d = d'" using run
    by (auto simp: commit_credential_generation_def with_batch_def Let_def return_value_def throw_def split: if_splits option.splits)
  have "recordable sample_change ?m credential_database"
    using prepared_recordable [OF sample_digest_ok sample_prepared] sample_changeable by simp
  then have "d = credential_database \<or> (\<exists>x. r = Inr (Some x))"
    using passwords.commit_effect [of credential_database sample_write "sample_sha ''2.k''" ?m d r] run by auto
  moreover have "d \<noteq> credential_database" using b(2) d changed_user_new by auto
  ultimately show ?thesis using run b(2) d
    by (auto simp: change_account_master_password_def with_prepared_history_def sample_prepared)
qed

lemma sample_route:
  "\<exists>d. credential_route credential_crypto credential_sample_site (ChangePassword password_body) credential_database = (d, Reply CredentialDone) \<and>
     users d = [changed_user]"
proof -
  have site [simp]: "cy_sha256 credential_crypto = sample_digest" "st_now member_site = iso_text 15000"
    "cg_route credential_sample_site = member_site" "cg_password_change_enabled credential_sample_site = Some ''true''"
    "cg_notifications_enabled credential_sample_site = None"
    by (simp_all add: credential_crypto_def member_site_def credential_sample_site_def)
  have flags: "flag_true (Some ''true'')" "\<not> flag_true None" by code_simp+
  have date: "next_credential_revision_date (iso_text 9000) (iso_text 15000) = Inr (iso_text 15000)"
    by (simp add: next_credential_revision_date_def common_era_def)
  have allowed: "check_credential_proof_defense credential_crypto credential_sample_site keyed_user credential_database = (credential_database, Inr ProofAllowed)"
    by (simp add: check_credential_proof_defense_def Let_def repo_bind_def repo_get_def return_value_def find_auth_failure_bucket_def
        sql_first_def is_account_locked_def truthy_def)
  from sample_changed obtain d x where c: "change_account_master_password sample_digest sample_write credential_database = (d, Inr (Some x))"
    and u: "users d = [changed_user]" by blast
  show ?thesis
    using c u date allowed
    by (simp add: handle_password_change_def feature_def with_authorization_def authorized_change_def keyed_authenticated password_body_read
        matches_password_change_credential_generation_def with_password_proof_def repo_bind_def return_value_def next_revision_def repo_lift_def
        cg_now_def catch_all_def generation_answer_def hub_sessions_invalidated_def notifications_on_def verify_presented_password_hash_def
        constant_time_equal_iff sample_write_def [symmetric] sample_change_def [symmetric] flags Let_def)
qed

section \<open>Witnesses\<close>

lemma sample_conditions:
  "distinct (map u_id (users credential_database))"
  "\<forall>u \<in> set (users credential_database). u_security_stamp u \<noteq> cg_next_security_stamp credential_sample_site"
  "gives_32_bytes (cy_sha256 credential_crypto)"
  by (simp_all add: credential_sample_site_def credential_crypto_def sample_digest_ok)

lemma sample_step:
  "\<exists>d. credential_step credential_crypto credential_database d \<and> users d = [changed_user]"
  using sample_route credential_step.request [OF sample_conditions(2), of credential_crypto "ChangePassword password_body"] by blast

theorem credential_change_ends_sessions_witness:
  "\<exists>d. credential_route credential_crypto credential_sample_site (ChangePassword password_body) credential_database = (d, Reply CredentialDone) \<and>
     signed_out ''u1'' d"
proof -
  obtain d where d: "credential_route credential_crypto credential_sample_site (ChangePassword password_body) credential_database = (d, Reply CredentialDone)"
    using sample_route by blast
  have "generation_proof (ChangePassword password_body) \<noteq> None" by (simp add: password_body_read)
  with credential_change_ends_sessions [OF sample_conditions d] keyed_authenticated d show ?thesis by (auto simp: generation_done_def)
qed

theorem replaced_key_never_returns_witness:
  "\<exists>d. credential_step credential_crypto credential_database d \<and> users d = [changed_user] \<and>
     sample_sha (the (u_user_key changed_user)) \<noteq> sample_sha ''2.a''"
proof -
  obtain d where d: "credential_step credential_crypto credential_database d" "users d = [changed_user]" using sample_step by blast
  have "u_id changed_user = u_id keyed_user" "u_user_key changed_user = Some ''2.k''" by (simp_all add: changed_user_def)
  with replaced_key_never_returns [OF sample_conditions(3,1) d(1), of keyed_user "''2.a''" changed_user d changed_user "''2.k''"] d show ?thesis
    by (auto simp: credential_crypto_def)
qed

text \<open>The same account sends other keys; and it changes its password.\<close>

definition keys_site :: credential_site where
  "keys_site = credential_sample_site\<lparr>cg_account_keys_enabled := Some ''true''\<rparr>"

definition other_keys_body :: json where
  "other_keys_body = JObj [(''publicKey'', JStr ''q''), (''encryptedPrivateKey'', JStr ''2.c'')]"

theorem account_key_pair_set_once_witness:
  "fst (credential_route credential_crypto keys_site (CreateKeys other_keys_body) credential_database) = credential_database \<and>
   (\<exists>d. credential_route credential_crypto credential_sample_site (ChangePassword password_body) credential_database = (d, Reply CredentialDone) \<and>
      users d = [changed_user] \<and> key_pair_of changed_user = key_pair_of keyed_user)"
proof
  have auth: "authenticate_site credential_crypto keys_site credential_database = Inr keyed_auth"
    using keyed_authenticated by (simp add: authenticate_site_def keys_site_def)
  have fresh: "\<forall>u \<in> set (users credential_database). u_security_stamp u \<noteq> cg_next_security_stamp keys_site"
    using sample_conditions(2) by (simp add: keys_site_def)
  obtain d a where run: "credential_route credential_crypto keys_site (CreateKeys other_keys_body) credential_database = (d, a)" by fastforce
  have "has_key_pair (au_user (av_user keyed_auth))" by (simp add: has_key_pair_def)
  with account_key_pair_set_once [OF sample_conditions(3,1) fresh run] auth have "d = credential_database" by blast
  then show "fst (credential_route credential_crypto keys_site (CreateKeys other_keys_body) credential_database) = credential_database"
    by (simp only: run fst_conv)
next
  obtain d where d: "credential_route credential_crypto credential_sample_site (ChangePassword password_body) credential_database = (d, Reply CredentialDone)"
    "users d = [changed_user]"
    using sample_route by blast
  have "u_id changed_user = u_id keyed_user" by (simp add: changed_user_def)
  with account_key_pair_set_once [OF sample_conditions(3,1,2) d(1)] d show "\<exists>d. credential_route credential_crypto credential_sample_site
      (ChangePassword password_body) credential_database = (d, Reply CredentialDone) \<and> users d = [changed_user] \<and>
      key_pair_of changed_user = key_pair_of keyed_user" by auto
qed

end
