(* ===== verification/Spec2Isabelle.thy ===== *)
theory Spec2Isabelle
  imports SessionProofs RateLimits Credentials TotpStore Totp Prelogin AuditLog AuthRequestProofs Tokens TokenEndpointProofs Attachments EmergencyProofs SharingProofs VaultProofs OrganizationSample CredentialSample
begin

text \<open>
  HonoWarden is a password-manager server: a Cloudflare Worker (\<open>src/app.ts\<close>, the routes) over a D1 database (an SQLite), an R2 object
  store and the Bitwarden client protocol. This library models its server core in TypeScript, under \<open>src/\<close> of the repository: who is
  let in, what a session may do, and what may happen to the vault and to the administration of an organisation.

  \<^bold>\<open>How the parts interact.\<close> A route reads headers and a body (\<open>src/domain\<close>: parsers that answer a value or a refusal, token and
  hash computations), authenticates the request, and calls repositories (\<open>src/repositories\<close>), which send SQL. The repositories are the
  only state: several of them share the tables of accounts, devices, sessions and audit rows, and they rely on single conditional
  statements and on batches, not on locks. So the model has one record \<open>database\<close> of all tables, a repository function is a
  function of it, and an interleaving of requests is a run of such functions.

  \<^bold>\<open>The platform.\<close>
  \<^item> \<open>Prelude\<close>: JavaScript strings, numbers, JSON bodies, thrown errors (\<open>js_error\<close>, the left of a sum), and lemmas on options and lists.
  \<^item> \<open>JsDate\<close>: \<open>Date.parse\<close> and \<open>toISOString\<close> on the proleptic calendar; ISO texts of the common era (years 0 to 9999) compare as their times.
  \<^item> \<open>Json\<close>, \<open>Base64\<close>: \<open>JSON.parse\<close>, \<open>JSON.stringify\<close>, \<open>atob\<close>, \<open>btoa\<close>, UTF-8, with their round trips.
  \<^item> \<open>SqlTable\<close>: tables as lists of rows, conditional UPDATE and DELETE with \<open>changes()\<close>, keys, NULL, and D1's batch, whose
    statements run in one transaction. The locales \<open>one_shot_update\<close> and \<open>bounded_cleanup\<close> are shared contracts.
  \<^item> \<open>Database\<close>: a record per table as the files under \<open>migrations/\<close> declare them, and the type \<open>'a repo\<close>.

  \<^bold>\<open>Signing in.\<close>
  \<^item> \<open>Prelogin\<close> (\<open>src/domain/prelogin.ts\<close>, \<open>handlePrelogin\<close>): the KDF settings of a known account, the derived ones of an unknown
    one, and the triggers that count the settings in use.
  \<^item> \<open>Credentials\<close> (\<open>account-credentials.ts\<close>, \<open>account-keys.ts\<close>): bodies of password and KDF changes, wrapper fingerprints, key pairs.
  \<^item> \<open>CredentialWrites\<close>, \<open>CredentialRoutes\<close>, \<open>CredentialProofs\<close>, \<open>CredentialSafety\<close> (\<open>credential-repository.ts\<close>,
    \<open>credential-wrapper-history-sql.ts\<close>, \<open>user-key-id*.ts\<close> and their routes): the changes of password, KDF, stamp and keys, whose
    guarded writes are instances of the locale \<open>generation_write\<close>, with the example of \<open>CredentialSample\<close>.
  \<^item> \<open>RateLimits\<close> (\<open>login-defense.ts\<close>, \<open>request-quota.ts\<close> and their tables): both are instances of the locale \<open>fixed_window\<close>.
  \<^item> \<open>Totp\<close> (\<open>totp.ts\<close>, \<open>totp-secret.ts\<close>) and \<open>TotpStore\<close> (\<open>totp-repository.ts\<close>, \<open>mfa-session-repository.ts\<close>): codes, enrolment,
    challenges, and the proof a session holds of the current factor.
  \<^item> \<open>Sessions\<close>, \<open>SessionProofs\<close> (\<open>auth-repository.ts\<close>): devices, sessions, refresh tokens, their rotation and reuse detection.
  \<^item> \<open>AuthRequests\<close>, \<open>AuthRequestProofs\<close> (\<open>auth-request.ts\<close> and its repository): login with another device.
  \<^item> \<open>Tokens\<close>, \<open>RequestAuth\<close>, \<open>Grants\<close>, \<open>ApiKeys\<close>, \<open>TokenEndpoint\<close>, \<open>GrantProofs\<close>, \<open>TokenEndpointProofs\<close> (\<open>tokens.ts\<close>,
    \<open>personal-api-key.ts\<close>, \<open>retention-cleanup.ts\<close> and the routes of \<open>src/app.ts\<close>): the signed token, the four grants of
    \<open>POST /identity/connect/token\<close>, and the authentication every other route begins with.
  \<^item> \<open>AuditLog\<close> (\<open>audit.ts\<close>, \<open>audit-event-repository.ts\<close>).

  \<^bold>\<open>The vault.\<close>
  \<^item> \<open>Folders\<close>, \<open>Ciphers\<close> (\<open>folder-repository.ts\<close>, \<open>cipher-repository.ts\<close>, \<open>organization-cipher-mutation-repository.ts\<close>) and
    \<open>VaultRoutes\<close>: the items, their folders, the single and bulk routes. \<open>CollectionAccess\<close>
    (\<open>organization-policy-sql.ts\<close>, \<open>organization-collection-access-sql.ts\<close>): who may read and write an item of an organisation.
  \<^item> \<open>Paging\<close>: a listing in pages, by the locale \<open>paged_listing\<close>. \<open>SharingProofs\<close>, \<open>VaultProofs\<close>, with the examples of \<open>VaultSample\<close>.
  \<^item> \<open>Attachments\<close> (\<open>attachment.ts\<close>, \<open>attachment-repository.ts\<close>): reservations and the quota.
  \<^item> \<open>EmergencyAccess\<close>, \<open>EmergencyTrust\<close>, \<open>EmergencyProofs\<close> (\<open>emergency-access.ts\<close>, its repository, \<open>emergency-access-trust.ts\<close>).

  \<^bold>\<open>Organisations.\<close>
  \<^item> \<open>AuditedBatch\<close>: the shape all administration shares: change, audit row, checks that abort the batch.
  \<^item> \<open>Memberships\<close>, \<open>MemberOperations\<close> (\<open>organization-membership*.ts\<close>), \<open>OrganizationPolicies\<close> (\<open>organization-policy*.ts\<close>),
    \<open>OrganizationGroups\<close> (\<open>organization-groups*.ts\<close>): parsers, repositories, operations and routes.
  \<^item> \<open>AuditedProofs\<close>, \<open>MembershipProofs\<close>, \<open>MembershipRequests\<close>, \<open>OwnerProofs\<close>, \<open>MemberProofs\<close>, \<open>GroupWriteProofs\<close>, with the
    examples of \<open>OrganizationSample\<close>.
\<close>

text \<open>
  \<^bold>\<open>What the lemmas show.\<close>
  \<^item> Invariants of runs. A step relation lists the operations with any arguments, and rule induction carries the invariant: a session
    has at most one live refresh token, proofs name the current factor, an answer to an auth request is never replaced and can only be
    revoked, a TOTP step signs in once, the attachment quota holds, the population of KDF settings counts the accounts, an
    organisation keeps an owner who can act, a key held by an emergency contact has a history of successful operations.
    Operations of other components in such a run are steps too, with what they may do to the tables spelled out: they revoke and
    erase auth requests, and the lifecycle of the factor (\<open>factor_op\<close>) runs between two logins.
  \<^item> Safety of one request on any database that satisfies the declared keys: tokens need a credential, a change of credentials ends every session, a credential request changes the
    key pair of an account only if it had none, a second presentation of a refresh token ends the session, a vault request touches only
    rows of its caller or rows of an organisation the caller may write, changes to members are authorised.
  \<^item> Refinement: emergency access and the life of a membership against abstract protocols, given as inductive relations.
  \<^item> Equivalence: TOTP verification with its window against the codes themselves, the two resolutions of an access.
  \<^item> Exactness and atomicity: sharing an item, writing a group, the audit rows of a change, with the answer 503 of an invitation whose
    rows are stored although its mail was not sent.
  \<^item> Round trips, error behaviour and bounds: signed tokens, sealed secrets, stale logins, quotas, lockouts.
  \<^item> Termination and liveness: a client that follows the continuation tokens sees the whole listing, in at most one request more than it
    has entries (that is the fuel of \<open>follow_tokens\<close>); a correct login succeeds.

  The code under verification has no loop that may run forever: the recursions of the model are structural or have a measure
  (\<open>chunks\<close>, \<open>year_search\<close>). Fuel occurs only in \<open>follow_pages\<close> and \<open>follow_tokens\<close>, which model the client of a paged listing,
  and the theorem about them gives the fuel that is enough.

  \<^bold>\<open>Parameters.\<close> HMAC, SHA-1, SHA-256, AES-GCM, random bytes and ids, the clock and the delivery of mail are arguments. What a theorem needs of
  them is a hypothesis: a drawn id is fresh (its row does not exist yet), decryption inverts encryption, a clock lies in
  the common era. No theorem assumes that a hash is injective unless it says so.

  \<^bold>\<open>Bounds of the model.\<close> Characters of strings are UTF-16 code units below 256. JSON numbers are read exactly as rationals; a rounding
  to doubles is not modelled. A statement that D1 reports as failed for a reason outside its constraints (network, quota) is not a branch,
  nor are timeouts between two calls; the answers 503 of the routes are modelled for the errors that remain. Response bodies whose
  text is fixed by the request are left out, as are log lines and push notifications.

  \<^bold>\<open>Not modelled.\<close> The manifest lists every other part: the rotation of user keys (but for its revocation of login requests), bootstrap and registration,
  the account life cycle (but for the erasure of login requests), e-mail verification, the creation of organisations and collections, audit pages, sends, passkeys,
  attachment downloads, domain settings, the notification hub (a Durable Object: web sockets), mail delivery, the
  administration pages in the browser, and the operator scripts. Of \<open>src/app.ts\<close>, the routes of folders, ciphers, prelogin, API keys, credentials and the
  token endpoint are modelled; those of TOTP, of auth requests, devices, attachments and synchronisation only call the
  modelled repositories and are left out.
\<close>

end
